(* ===== verification/Prelude.thy ===== *)
theory Prelude
  imports Main "HOL-Library.Word" "HOL-Library.AList" "HOL-Library.List_Lexorder"
    "HOL-Library.Char_ord"
begin

text \<open>
  Shared vocabulary of the development: bytes and nil-able slices, errors as values
  (an \<open>error\<close> returned by a Go function, a run-time panic, or exhausted fuel), the
  sequencing of fallible steps, Go maps as association lists, sorted key lists, and the
  lemma collections the component theories use.

  A Go \<^verbatim>\<open>string\<close> and a Go \<^verbatim>\<open>[]byte\<close> are both byte sequences and are modelled by
  \<^typ>\<open>char list\<close>; where the code distinguishes a nil slice from an empty one, the type is
  \<open>slice\<close>. A Go map over which the code ranges is an association list with distinct keys
  (the iteration order, which Go leaves open, is the order of the list; where it can be seen, the
  definitions take it as an argument).
\<close>

type_synonym bytes = "char list"
type_synonym slice = "bytes option"
type_synonym u64 = "64 word"
type_synonym u32 = "32 word"

datatype error =
    Err string
  | Panic string
  | OutOfFuel

type_synonym 'a res = "error + 'a"

type_synonym ('k, 'v) gomap = "('k \<times> 'v) list"

named_theorems res_simps
named_theorems gomap_simps

definition res_bind :: "'a res \<Rightarrow> ('a \<Rightarrow> 'b res) \<Rightarrow> 'b res" where
  "res_bind x f = (case x of Inl e \<Rightarrow> Inl e | Inr v \<Rightarrow> f v)"

fun foldM :: "('s \<Rightarrow> 'x \<Rightarrow> 's res) \<Rightarrow> 's \<Rightarrow> 'x list \<Rightarrow> 's res" where
  "foldM f s [] = Inr s"
| "foldM f s (x # xs) = res_bind (f s x) (\<lambda>s'. foldM f s' xs)"

fun mapM :: "('x \<Rightarrow> 'y res) \<Rightarrow> 'x list \<Rightarrow> 'y list res" where
  "mapM f [] = Inr []"
| "mapM f (x # xs) = res_bind (f x) (\<lambda>y. res_bind (mapM f xs) (\<lambda>ys. Inr (y # ys)))"

definition is_ok :: "'a res \<Rightarrow> bool" where
  "is_ok r = (case r of Inl _ \<Rightarrow> False | Inr _ \<Rightarrow> True)"

text \<open>Go maps: lookup, store, delete, and the sorted list of keys.\<close>

abbreviation gm_get :: "('k, 'v) gomap \<Rightarrow> 'k \<Rightarrow> 'v option" where
  "gm_get m k \<equiv> map_of m k"

abbreviation gm_put :: "'k \<Rightarrow> 'v \<Rightarrow> ('k, 'v) gomap \<Rightarrow> ('k, 'v) gomap" where
  "gm_put k v m \<equiv> AList.update k v m"

abbreviation gm_del :: "'k \<Rightarrow> ('k, 'v) gomap \<Rightarrow> ('k, 'v) gomap" where
  "gm_del k m \<equiv> AList.delete k m"

abbreviation gm_keys :: "('k, 'v) gomap \<Rightarrow> 'k list" where
  "gm_keys m \<equiv> map fst m"

abbreviation gm_ok :: "('k, 'v) gomap \<Rightarrow> bool" where
  "gm_ok m \<equiv> distinct (map fst m)"

abbreviation strict_sorted :: "'a::linorder list \<Rightarrow> bool" where
  "strict_sorted xs \<equiv> sorted_wrt (<) xs"

section \<open>Lemmas on fallible steps\<close>

lemma res_bind_simps [simp, res_simps]:
  "res_bind (Inl e) f = Inl e"
  "res_bind (Inr v) f = f v"
  by (simp_all add: res_bind_def)

lemma res_bind_Inr_conv [res_simps]:
  "res_bind x f = Inr y \<longleftrightarrow> (\<exists>v. x = Inr v \<and> f v = Inr y)"
  by (cases x) simp_all

lemma res_bind_Inl_conv [res_simps]:
  "res_bind x f = Inl e \<longleftrightarrow> x = Inl e \<or> (\<exists>v. x = Inr v \<and> f v = Inl e)"
  by (cases x) simp_all

lemma res_bind_assoc [res_simps]:
  "res_bind (res_bind x f) g = res_bind x (\<lambda>v. res_bind (f v) g)"
  by (cases x) simp_all

lemma is_ok_simps [simp]: "is_ok (Inr v)" "\<not> is_ok (Inl e)"
  by (simp_all add: is_ok_def)

lemma res_bind_cong [fundef_cong]:
  assumes "x = y" and "\<And>v. y = Inr v \<Longrightarrow> f v = g v"
  shows "res_bind x f = res_bind y g"
  using assms by (cases y) simp_all

lemma foldM_append: "foldM f s (xs @ ys) = res_bind (foldM f s xs) (\<lambda>s'. foldM f s' ys)"
  by (induction xs arbitrary: s) (simp_all add: res_bind_assoc)

lemma foldM_invariant:
  assumes "foldM f s xs = Inr s'" and "P s"
    and "\<And>s x s'. x \<in> set xs \<Longrightarrow> P s \<Longrightarrow> f s x = Inr s' \<Longrightarrow> P s'"
  shows "P s'"
  using assms
proof (induction xs arbitrary: s)
  case Nil
  then show ?case by simp
next
  case (Cons x xs)
  from Cons.prems(1) obtain t where t: "f s x = Inr t" and rest: "foldM f t xs = Inr s'"
    by (auto simp: res_bind_Inr_conv)
  have "P t" using Cons.prems(2,3) t by auto
  with rest Cons.prems(3) show ?case by (auto intro: Cons.IH)
qed

lemma foldM_total:
  assumes "\<And>s x. x \<in> set xs \<Longrightarrow> f s x = Inr (g s x)"
  shows "foldM f s xs = Inr (foldl g s xs)"
  using assms by (induction xs arbitrary: s) auto

lemma mapM_total:
  assumes "\<And>x. x \<in> set xs \<Longrightarrow> f x = Inr (g x)"
  shows "mapM f xs = Inr (map g xs)"
  using assms by (induction xs) auto

section \<open>Lemmas on Go maps\<close>

lemma gm_get_put [simp, gomap_simps]: "gm_get (gm_put k v m) = (gm_get m)(k \<mapsto> v)"
  by (rule update_conv')

lemma gm_get_del [simp, gomap_simps]: "gm_get (gm_del k m) = (gm_get m)(k := None)"
  by (auto simp: delete_conv' fun_upd_def)

lemma gm_ok_put [intro]: "gm_ok m \<Longrightarrow> gm_ok (gm_put k v m)"
  by (rule distinct_update)

lemma gm_ok_del [intro]: "gm_ok m \<Longrightarrow> gm_ok (gm_del k m)"
  by (rule distinct_delete)

lemma gm_get_keys: "gm_get m k = None \<longleftrightarrow> k \<notin> set (gm_keys m)"
  by (auto simp: map_of_eq_None_iff)

lemma gm_put_subset: "set (gm_put k v m) \<subseteq> insert (k, v) (set m)"
  by (induction m) auto

lemma gm_put_new: "k \<notin> fst ` set m \<Longrightarrow> set (gm_put k v m) = insert (k, v) (set m)"
  by (induction m) auto

lemma gm_del_subset: "set (gm_del k m) \<subseteq> set m"
  by (induction m) auto

lemma gm_get_mem: "gm_ok m \<Longrightarrow> (k, v) \<in> set m \<longleftrightarrow> gm_get m k = Some v"
  by (auto simp: map_of_eq_Some_iff)

lemma map_of_inj_map:
  assumes "inj f"
  shows "map_of (map (\<lambda>(k, v). (f k, v)) m) (f k) = map_of m k"
  using assms by (induction m) (auto simp: inj_def)

lemma map_of_functional:
  assumes "\<And>k v v'. (k, v) \<in> set xs \<Longrightarrow> (k, v') \<in> set xs \<Longrightarrow> v = v'"
  shows "map_of xs k = Some v \<longleftrightarrow> (k, v) \<in> set xs"
proof
  assume "(k, v) \<in> set xs"
  moreover then obtain v' where "map_of xs k = Some v'" by (metis weak_map_of_SomeI)
  ultimately show "map_of xs k = Some v" using assms by (metis map_of_SomeD)
qed (rule map_of_SomeD)

section \<open>Lemmas on sorted key lists\<close>

lemma strict_sorted_distinct: "strict_sorted xs \<Longrightarrow> distinct (xs :: 'a::linorder list)"
  by (simp add: strict_sorted_iff)

lemma strict_sorted_sort:
  "distinct xs \<Longrightarrow> strict_sorted (sort (xs :: 'a::linorder list))"
  by (simp add: strict_sorted_iff)

lemma strict_sorted_eqI:
  assumes "strict_sorted xs" "strict_sorted ys" "set xs = set (ys :: 'a::linorder list)"
  shows "xs = ys"
  using assms by (metis strict_sorted_equal)

lemma sorted_kvs_eqI:
  fixes xs ys :: "('a::linorder \<times> 'b) list"
  assumes "strict_sorted (map fst xs)" "strict_sorted (map fst ys)"
    and "\<And>k. map_of xs k = map_of ys k"
  shows "xs = ys"
proof -
  have d: "distinct (map fst xs)" "distinct (map fst ys)"
    using assms(1,2) by (auto intro: strict_sorted_distinct)
  have "set (map fst xs) = set (map fst ys)"
    using assms(3) by (metis dom_map_of_conv_image_fst ext list.set_map)
  then have "map fst xs = map fst ys"
    using assms(1,2) by (intro strict_sorted_eqI)
  moreover have "snd (xs ! i) = snd (ys ! i)" if "i < length xs" for i
  proof -
    have k: "fst (xs ! i) = fst (ys ! i)" and l: "i < length ys"
      using that \<open>map fst xs = map fst ys\<close> by (metis nth_map length_map)+
    have "map_of xs (fst (xs ! i)) = Some (snd (xs ! i))"
      using d(1) that by (simp add: map_of_eq_Some_iff)
    moreover have "map_of ys (fst (ys ! i)) = Some (snd (ys ! i))"
      using d(2) l by (simp add: map_of_eq_Some_iff)
    ultimately show ?thesis using assms(3) k by simp
  qed
  ultimately have "map snd xs = map snd ys"
    by - (rule nth_equalityI, auto dest: map_eq_imp_length_eq)
  with \<open>map fst xs = map fst ys\<close> show ?thesis
    by (metis zip_map_fst_snd)
qed

end
