(* ===== verification/GoLib.thy ===== *)
theory GoLib
  imports Prelude
begin

text \<open>
  The part of the Go standard library the sources call: \<^verbatim>\<open>strings\<close> (HasPrefix, Split,
  Index, Contains, Replace, EqualFold), \<^verbatim>\<open>strconv\<close> (ParseInt, Atoi, FormatInt),
  \<^verbatim>\<open>sort.Search\<close>, slice expressions with their run-time panics, and int64 arithmetic
  with its wrap-around. The lemmas give the round trip of FormatInt and ParseInt on the
  int64 range and the meaning of the binary search on a sorted list.
\<close>

section \<open>int64\<close>

definition i64_min :: int where
  "i64_min = - (2 ^ 63)"

definition i64_max :: int where
  "i64_max = 2 ^ 63 - 1"

definition wrap64 :: "int \<Rightarrow> int" where
  "wrap64 x = (x + 2 ^ 63) mod 2 ^ 64 - 2 ^ 63"

definition is_i64 :: "int \<Rightarrow> bool" where
  "is_i64 x \<longleftrightarrow> i64_min \<le> x \<and> x \<le> i64_max"

section \<open>Slices\<close>

text \<open>\<^verbatim>\<open>s[n:]\<close> and \<^verbatim>\<open>s[:n]\<close> panic when n is out of range.\<close>

definition slice_from :: "'a list \<Rightarrow> nat \<Rightarrow> 'a list res" where
  "slice_from s n =
     (if n \<le> length s then Inr (drop n s) else Inl (Panic ''slice bounds out of range''))"

definition slice_to :: "'a list \<Rightarrow> nat \<Rightarrow> 'a list res" where
  "slice_to s n =
     (if n \<le> length s then Inr (take n s) else Inl (Panic ''slice bounds out of range''))"

definition index_at :: "'a list \<Rightarrow> nat \<Rightarrow> 'a res" where
  "index_at s n =
     (if n < length s then Inr (s ! n) else Inl (Panic ''index out of range''))"

section \<open>strings\<close>

definition HasPrefix :: "bytes \<Rightarrow> bytes \<Rightarrow> bool" where
  "HasPrefix s p \<longleftrightarrow> take (length p) s = p"

fun split_on :: "char \<Rightarrow> bytes \<Rightarrow> bytes list" where
  "split_on c [] = [[]]"
| "split_on c (x # xs) =
     (if x = c then [] # split_on c xs
      else (case split_on c xs of [] \<Rightarrow> [[x]] | h # t \<Rightarrow> (x # h) # t))"

fun str_index :: "bytes \<Rightarrow> bytes \<Rightarrow> nat option" where
  "str_index [] p = (if p = [] then Some 0 else None)"
| "str_index (x # xs) p =
     (if HasPrefix (x # xs) p then Some 0 else map_option Suc (str_index xs p))"

definition str_contains :: "bytes \<Rightarrow> bytes \<Rightarrow> bool" where
  "str_contains s p \<longleftrightarrow> str_index s p \<noteq> None"

text \<open>\<^verbatim>\<open>strings.Replace(s, old, new, -1)\<close> for a non-empty \<open>old\<close>, the only use in the code.\<close>

function str_replace :: "bytes \<Rightarrow> bytes \<Rightarrow> bytes \<Rightarrow> bytes" where
  "str_replace old new s =
     (if s = [] then []
      else if old \<noteq> [] \<and> HasPrefix s old then new @ str_replace old new (drop (length old) s)
      else hd s # str_replace old new (tl s))"
  by pat_completeness auto
termination
  by (relation "measure (\<lambda>(old, new, s). length s)") (auto simp: less_diff_conv)

definition ascii_upper :: "char \<Rightarrow> char" where
  "ascii_upper c =
     (if 97 \<le> (of_char c :: nat) \<and> (of_char c :: nat) \<le> 122 then char_of ((of_char c :: nat) - 32)
      else c)"

text \<open>\<^verbatim>\<open>strings.EqualFold\<close> against the ASCII method names of the code, none of which holds
  a letter with a non-ASCII case variant.\<close>

definition EqualFold :: "bytes \<Rightarrow> bytes \<Rightarrow> bool" where
  "EqualFold s t \<longleftrightarrow> map ascii_upper s = map ascii_upper t"

section \<open>strconv\<close>

definition is_digit :: "char \<Rightarrow> bool" where
  "is_digit c \<longleftrightarrow> 48 \<le> (of_char c :: nat) \<and> (of_char c :: nat) \<le> 57"

definition digit_val :: "char \<Rightarrow> nat" where
  "digit_val c = of_char c - 48"

datatype parsed = ParseOk nat | ErrSyntax | ErrRange

text \<open>The loop of \<^verbatim>\<open>ParseUint(s, 10, 64)\<close>: the first bad character or the first overflow decides.\<close>

fun parse_digits :: "nat \<Rightarrow> bytes \<Rightarrow> parsed" where
  "parse_digits n [] = ParseOk n"
| "parse_digits n (c # cs) =
     (if \<not> is_digit c then ErrSyntax
      else if n * 10 + digit_val c \<ge> 2 ^ 64 then ErrRange
      else parse_digits (n * 10 + digit_val c) cs)"

definition ParseUint :: "bytes \<Rightarrow> parsed" where
  "ParseUint s = (if s = [] then ErrSyntax else parse_digits 0 s)"

text \<open>\<^verbatim>\<open>ParseInt(s, 10, 64)\<close>: the value and whether the returned error is non-nil.\<close>

definition ParseInt :: "bytes \<Rightarrow> int \<times> bool" where
  "ParseInt s =
     (if s = [] then (0, True)
      else
        let neg = (hd s = CHR ''-'');
            body = (if hd s = CHR ''-'' \<or> hd s = CHR ''+'' then tl s else s)
        in case ParseUint body of
             ErrSyntax \<Rightarrow> (0, True)
           | ErrRange \<Rightarrow> (if neg then i64_min else i64_max, True)
           | ParseOk un \<Rightarrow>
               if \<not> neg \<and> un \<ge> 2 ^ 63 then (i64_max, True)
               else if neg \<and> un > 2 ^ 63 then (i64_min, True)
               else (if neg then - int un else int un, False))"

definition digit_char :: "nat \<Rightarrow> char" where
  "digit_char d = char_of (48 + d)"

fun nat_str :: "nat \<Rightarrow> bytes" where
  "nat_str n = (if n < 10 then [digit_char n] else nat_str (n div 10) @ [digit_char (n mod 10)])"

definition FormatInt :: "int \<Rightarrow> bytes" where
  "FormatInt i = (if i < 0 then CHR ''-'' # nat_str (nat (- i)) else nat_str (nat i))"

text \<open>\<^verbatim>\<open>string(n)\<close> of an unsigned number: the UTF-8 bytes of the code point, U+FFFD when there is none.\<close>

definition rune_str :: "u64 \<Rightarrow> bytes" where
  "rune_str n =
     (let c = unat n in
      if c < 0x80 then [char_of c]
      else if c < 0x800 then [char_of (0xC0 + c div 0x40), char_of (0x80 + c mod 0x40)]
      else if 0xD800 \<le> c \<and> c < 0xE000 \<or> 0x10FFFF < c then [CHR 0xEF, CHR 0xBF, CHR 0xBD]
      else if c < 0x10000 then
        [char_of (0xE0 + c div 0x1000), char_of (0x80 + c div 0x40 mod 0x40), char_of (0x80 + c mod 0x40)]
      else
        [char_of (0xF0 + c div 0x40000), char_of (0x80 + c div 0x1000 mod 0x40),
         char_of (0x80 + c div 0x40 mod 0x40), char_of (0x80 + c mod 0x40)])"

section \<open>sort.Search\<close>

function go_search :: "(nat \<Rightarrow> bool) \<Rightarrow> nat \<Rightarrow> nat \<Rightarrow> nat" where
  "go_search f i j =
     (if i < j then
        let h = i + (j - i) div 2
        in if \<not> f h then go_search f (h + 1) j else go_search f i h
      else i)"
  by pat_completeness auto
termination
  by (relation "measure (\<lambda>(f, i, j). j - i)") auto

definition SearchStrings :: "bytes list \<Rightarrow> bytes \<Rightarrow> nat" where
  "SearchStrings a x = go_search (\<lambda>i. x \<le> a ! i) 0 (length a)"

definition GetSortedKeys :: "(bytes, 'v) gomap \<Rightarrow> bytes list" where
  "GetSortedKeys m = sort (map fst m)"

declare str_replace.simps [simp del] nat_str.simps [simp del] go_search.simps [simp del]

section \<open>Lemmas\<close>

lemma wrap64_id [simp]: "is_i64 x \<Longrightarrow> wrap64 x = x"
  by (simp add: wrap64_def is_i64_def i64_min_def i64_max_def)

lemma wrap64_i64: "is_i64 (wrap64 x)"
proof -
  have "0 \<le> (x + 2 ^ 63) mod 2 ^ 64" "(x + 2 ^ 63) mod 2 ^ 64 < 2 ^ 64"
    by (rule pos_mod_sign, simp, rule pos_mod_bound, simp)
  then show ?thesis by (simp add: wrap64_def is_i64_def i64_min_def i64_max_def)
qed

lemma wrap64_add_wrap: "wrap64 (wrap64 x + y) = wrap64 (x + y)"
proof -
  have "((x + 2 ^ 63) mod 2 ^ 64 - 2 ^ 63 + y + 2 ^ 63) mod (2 ^ 64 :: int)
      = ((x + 2 ^ 63) mod 2 ^ 64 + y) mod 2 ^ 64"
    by (simp add: algebra_simps)
  also have "\<dots> = (x + 2 ^ 63 + y) mod 2 ^ 64" by (rule mod_add_left_eq)
  finally show ?thesis by (simp add: wrap64_def algebra_simps)
qed

lemma HasPrefix_append [simp]: "HasPrefix (p @ s) p"
  by (simp add: HasPrefix_def)

lemma HasPrefix_iff: "HasPrefix s p \<longleftrightarrow> (\<exists>t. s = p @ t)"
  by (metis HasPrefix_def HasPrefix_append append_take_drop_id)

lemma split_on_nonempty: "split_on c s \<noteq> []"
  by (cases s) (auto split: list.splits)

lemma digit_char_roundtrip:
  assumes "d < 10"
  shows "is_digit (digit_char d)" and "digit_val (digit_char d) = d"
  using assms by (simp_all add: is_digit_def digit_val_def digit_char_def of_char_of take_bit_nat_eq_self)

lemma parse_digits_append:
  assumes "parse_digits n xs = ParseOk m"
  shows "parse_digits n (xs @ ys) = parse_digits m ys"
  using assms by (induction n xs rule: parse_digits.induct) (auto split: if_splits)

lemma parse_nat_str: "n < 2 ^ 64 \<Longrightarrow> parse_digits 0 (nat_str n) = ParseOk n"
proof (induction n rule: nat_str.induct)
  case (1 n)
  show ?case
  proof (cases "n < 10")
    case True
    then show ?thesis by (simp add: nat_str.simps [of n] digit_char_roundtrip)
  next
    case False
    have "n div 10 < 2 ^ 64" using "1.prems" by linarith
    with "1.IH" [OF False] have "parse_digits 0 (nat_str (n div 10)) = ParseOk (n div 10)" .
    from parse_digits_append [OF this]
    have "parse_digits 0 (nat_str n) = parse_digits (n div 10) [digit_char (n mod 10)]"
      using False by (simp add: nat_str.simps [of n])
    also have "\<dots> = ParseOk n"
      using "1.prems" by (simp add: digit_char_roundtrip)
    finally show ?thesis .
  qed
qed

lemma nat_str_digits: "c \<in> set (nat_str n) \<Longrightarrow> is_digit c"
proof (induction n rule: nat_str.induct)
  case (1 n)
  then show ?case
    by (cases "n < 10")
      (use 1 in \<open>auto simp: nat_str.simps [of n] digit_char_roundtrip\<close>)
qed

lemma nat_str_nonempty [simp]: "nat_str n \<noteq> []"
  by (subst nat_str.simps) simp

lemma not_digit_sign: "\<not> is_digit CHR ''-''" "\<not> is_digit CHR ''+''"
  by (simp_all add: is_digit_def)

lemma nat_str_hd: "hd (nat_str n) \<noteq> CHR ''-''" "hd (nat_str n) \<noteq> CHR ''+''"
  using nat_str_digits [of "hd (nat_str n)" n] not_digit_sign by auto

lemma ParseInt_FormatInt: "is_i64 i \<Longrightarrow> ParseInt (FormatInt i) = (i, False)"
proof (cases "i < 0")
  case True
  assume i: "is_i64 i"
  then have b: "nat (- i) \<le> 2 ^ 63" by (auto simp: is_i64_def i64_min_def)
  then have "parse_digits 0 (nat_str (nat (- i))) = ParseOk (nat (- i))"
    by (intro parse_nat_str) simp
  with True b show ?thesis
    by (simp add: ParseInt_def FormatInt_def ParseUint_def Let_def)
next
  case False
  assume i: "is_i64 i"
  then have b: "nat i < 2 ^ 63" using False by (auto simp: is_i64_def i64_max_def)
  then have "parse_digits 0 (nat_str (nat i)) = ParseOk (nat i)"
    by (intro parse_nat_str) simp
  with False b show ?thesis
    by (simp add: ParseInt_def FormatInt_def ParseUint_def Let_def nat_str_hd)
qed

lemma ParseInt_i64: "is_i64 (fst (ParseInt s))"
  by (auto simp: ParseInt_def Let_def is_i64_def i64_min_def i64_max_def split: parsed.splits)

text \<open>On a monotone predicate the binary search finds the first index where it holds.\<close>

lemma go_search_spec:
  assumes "i \<le> j" "j \<le> n"
    and "\<And>k l. k \<le> l \<Longrightarrow> l < n \<Longrightarrow> f k \<Longrightarrow> f l"
    and "\<And>k. k < i \<Longrightarrow> \<not> f k" and "\<And>k. j \<le> k \<Longrightarrow> k < n \<Longrightarrow> f k"
  shows "go_search f i j \<le> n \<and> (\<forall>k < go_search f i j. \<not> f k)
       \<and> (\<forall>k. go_search f i j \<le> k \<and> k < n \<longrightarrow> f k)"
  using assms
proof (induction f i j rule: go_search.induct)
  case (1 f i j)
  define h where "h = i + (j - i) div 2"
  show ?case
  proof (cases "i < j")
    case True
    then have h: "i \<le> h" "h < j" by (auto simp: h_def)
    show ?thesis
    proof (cases "f h")
      case fh: True
      have eq: "go_search f i j = go_search f i h"
        using True fh by (simp add: go_search.simps [of f i j] h_def Let_def)
      have up: "f k" if "h \<le> k" "k < n" for k using "1.prems"(3) fh that by blast
      show ?thesis unfolding eq
      proof (rule "1.IH"(2) [OF True h_def])
        show "\<not> \<not> f h" using fh by simp
        show "h \<le> n" using h "1.prems"(2) by simp
      qed (fact h(1) "1.prems"(3) "1.prems"(4) up)+
    next
      case nfh: False
      have eq: "go_search f i j = go_search f (h + 1) j"
        using True nfh by (simp add: go_search.simps [of f i j] h_def Let_def)
      have down: "\<not> f k" if "k < h + 1" for k
      proof
        assume "f k"
        moreover have "k \<le> h" "h < n" using that h "1.prems"(2) by auto
        ultimately have "f h" using "1.prems"(3) by blast
        with nfh show False ..
      qed
      show ?thesis unfolding eq
      proof (rule "1.IH"(1) [OF True h_def nfh])
        show "h + 1 \<le> j" using h by simp
      qed (fact "1.prems"(2) "1.prems"(3) down "1.prems"(5))+
    qed
  next
    case False
    then have "i = j" using "1.prems"(1) by simp
    moreover have "go_search f j j = j" by (simp add: go_search.simps [of f j j])
    ultimately show ?thesis using "1.prems"(2,4,5) by simp
  qed
qed

lemma SearchStrings_spec:
  assumes "sorted a"
  shows "SearchStrings a x \<le> length a"
    and "k < SearchStrings a x \<Longrightarrow> a ! k < x"
    and "SearchStrings a x \<le> k \<Longrightarrow> k < length a \<Longrightarrow> x \<le> a ! k"
proof -
  have mono: "\<And>k l. k \<le> l \<Longrightarrow> l < length a \<Longrightarrow> x \<le> a ! k \<Longrightarrow> x \<le> a ! l"
    using assms by (meson order.trans sorted_iff_nth_mono)
  have "go_search (\<lambda>i. x \<le> a ! i) 0 (length a) \<le> length a
      \<and> (\<forall>k < go_search (\<lambda>i. x \<le> a ! i) 0 (length a). \<not> x \<le> a ! k)
      \<and> (\<forall>k. go_search (\<lambda>i. x \<le> a ! i) 0 (length a) \<le> k \<and> k < length a \<longrightarrow> x \<le> a ! k)"
    by (rule go_search_spec [where n = "length a", OF _ _ mono]) simp_all
  then have s: "SearchStrings a x \<le> length a
      \<and> (\<forall>k < SearchStrings a x. a ! k < x)
      \<and> (\<forall>k. SearchStrings a x \<le> k \<and> k < length a \<longrightarrow> x \<le> a ! k)"
    unfolding SearchStrings_def not_le .
  from s show "SearchStrings a x \<le> length a" by blast
  from s show "k < SearchStrings a x \<Longrightarrow> a ! k < x" by blast
  from s show "SearchStrings a x \<le> k \<Longrightarrow> k < length a \<Longrightarrow> x \<le> a ! k" by blast
qed

lemma sorted_drop_filter:
  assumes "sorted a"
  shows "drop (SearchStrings a x) a = filter (\<lambda>k. x \<le> k) (a :: bytes list)"
proof -
  let ?i = "SearchStrings a x"
  have "filter (\<lambda>k. x \<le> k) (take ?i a) = []"
    using SearchStrings_spec(2) [OF assms] by (fastforce simp: filter_empty_conv in_set_conv_nth)
  moreover have "filter (\<lambda>k. x \<le> k) (drop ?i a) = drop ?i a"
    using SearchStrings_spec(3) [OF assms] by (fastforce simp: filter_id_conv in_set_conv_nth)
  ultimately show ?thesis by (metis append_take_drop_id filter_append append_Nil)
qed

lemma sorted_slice_filter:
  assumes "sorted a"
  shows "take (SearchStrings a y - SearchStrings a x) (drop (SearchStrings a x) a)
       = filter (\<lambda>k. x \<le> k \<and> k < y) (a :: bytes list)"
proof -
  let ?j = "SearchStrings a y"
  have hi: "filter (\<lambda>k. k < y) (drop n a) = take (?j - n) (drop n a)" for n
  proof -
    have "filter (\<lambda>k. k < y) (take (?j - n) (drop n a)) = take (?j - n) (drop n a)"
      using SearchStrings_spec(2) [OF assms] by (fastforce simp: filter_id_conv in_set_conv_nth)
    moreover have "filter (\<lambda>k. k < y) (drop (?j - n) (drop n a)) = []"
      using SearchStrings_spec(3) [OF assms]
      by (fastforce simp: filter_empty_conv in_set_conv_nth not_less)
    ultimately show ?thesis by (metis append_take_drop_id filter_append append_Nil2)
  qed
  have "filter (\<lambda>k. x \<le> k \<and> k < y) a = filter (\<lambda>k. k < y) (filter (\<lambda>k. x \<le> k) a)"
    by (simp add: conj_commute)
  then show ?thesis by (simp add: hi sorted_drop_filter [OF assms, symmetric])
qed

lemma GetSortedKeys_set [simp]: "set (GetSortedKeys m) = fst ` set m"
  by (simp add: GetSortedKeys_def)

lemma GetSortedKeys_sorted: "gm_ok m \<Longrightarrow> strict_sorted (GetSortedKeys m)"
  by (simp add: GetSortedKeys_def strict_sorted_sort)

end
