(* ===== verification/Version.thy ===== *)
theory Version
  imports Prelude
begin

text \<open>
  \<^verbatim>\<open>core/ledger/kvledger/txmgmt/version/version.go\<close>: the height of a transaction in the
  chain, its comparison and its byte encoding, and
  \<^verbatim>\<open>core/ledger/kvledger/txmgmt/statedb/util.go\<close>: the encoding of a value with its version.

  The variable-length integer codec \<^verbatim>\<open>util.EncodeOrderPreservingVarUint64\<close> and its decoder
  live outside the repository: they are the parameters \<open>enc\<close> and \<open>dec\<close>, and what the code
  relies on is the locale \<open>varuint\<close> (decoding an encoding followed by anything gives the
  number back and the length consumed) and its extension \<open>ordered_varuint\<close> (the encoding
  preserves the order). Both are interpreted on a length-prefixed big-endian codec.
\<close>

datatype Height = NewHeight (BlockNum: u64) (TxNum: u64)

definition ToBytes :: "(u64 \<Rightarrow> bytes) \<Rightarrow> Height \<Rightarrow> bytes" where
  "ToBytes enc h = enc (BlockNum h) @ enc (TxNum h)"

definition NewHeightFromBytes :: "(bytes \<Rightarrow> u64 \<times> nat) \<Rightarrow> bytes \<Rightarrow> (Height \<times> nat) res" where
  "NewHeightFromBytes dec b =
     (let (blockNum, n1) = dec b
      in if n1 \<le> length b then
           let (txNum, n2) = dec (drop n1 b)
           in Inr (NewHeight blockNum txNum, n1 + n2)
         else Inl (Panic ''slice bounds out of range''))"

text \<open>\<^verbatim>\<open>int(h.BlockNum - h1.BlockNum)\<close>: the difference wraps in uint64 and is read as int64.\<close>

definition Compare :: "Height \<Rightarrow> Height \<Rightarrow> int" where
  "Compare h h1 =
     (if BlockNum h \<noteq> BlockNum h1 then
        (let r = sint (BlockNum h - BlockNum h1) in if r > 0 then 1 else -1)
      else if TxNum h \<noteq> TxNum h1 then
        (let r = sint (TxNum h - TxNum h1) in if r > 0 then 1 else -1)
      else 0)"

fun AreSame :: "Height option \<Rightarrow> Height option \<Rightarrow> bool" where
  "AreSame None h2 = (h2 = None)"
| "AreSame (Some h1) None = False"
| "AreSame (Some h1) (Some h2) = (Compare h1 h2 = 0)"

definition EncodeValue :: "(u64 \<Rightarrow> bytes) \<Rightarrow> slice \<Rightarrow> Height \<Rightarrow> bytes" where
  "EncodeValue enc value version =
     (case value of None \<Rightarrow> ToBytes enc version | Some v \<Rightarrow> ToBytes enc version @ v)"

definition DecodeValue :: "(bytes \<Rightarrow> u64 \<times> nat) \<Rightarrow> bytes \<Rightarrow> (bytes \<times> Height) res" where
  "DecodeValue dec encodedValue =
     res_bind (NewHeightFromBytes dec encodedValue) (\<lambda>(version, n).
       if n \<le> length encodedValue then Inr (drop n encodedValue, version)
       else Inl (Panic ''slice bounds out of range''))"

text \<open>The order on heights that \<open>Compare\<close> is meant to compute: by block, then by transaction.\<close>

instantiation Height :: linorder
begin

definition less_eq_Height :: "Height \<Rightarrow> Height \<Rightarrow> bool" where
  "less_eq_Height a b \<longleftrightarrow>
     BlockNum a < BlockNum b \<or> BlockNum a = BlockNum b \<and> TxNum a \<le> TxNum b"

definition less_Height :: "Height \<Rightarrow> Height \<Rightarrow> bool" where
  "less_Height a b \<longleftrightarrow>
     BlockNum a < BlockNum b \<or> BlockNum a = BlockNum b \<and> TxNum a < TxNum b"

instance
  by standard (auto simp: less_eq_Height_def less_Height_def intro: Height.expand)

end

section \<open>The codec the code relies on\<close>

locale varuint =
  fixes enc :: "u64 \<Rightarrow> bytes" and dec :: "bytes \<Rightarrow> u64 \<times> nat"
  assumes dec_enc: "dec (enc n @ r) = (n, length (enc n))"
begin

lemma dec_enc0: "dec (enc n) = (n, length (enc n))"
  using dec_enc [of n "[]"] by simp

lemma enc_inj: "enc m = enc n \<Longrightarrow> m = n"
  using dec_enc0 by (metis fst_conv)

text \<open>No encoding is a proper prefix of another, so two concatenations can be split apart.\<close>

lemma enc_prefix_free: "enc m @ r = enc n @ s \<Longrightarrow> m = n \<and> r = s"
proof -
  assume eq: "enc m @ r = enc n @ s"
  then have "m = n" using dec_enc [of m r] dec_enc [of n s] by simp
  with eq show ?thesis by simp
qed

lemma height_decode:
  "NewHeightFromBytes dec (ToBytes enc h @ v) = Inr (h, length (ToBytes enc h))"
  by (simp add: NewHeightFromBytes_def ToBytes_def dec_enc)

lemma height_decode0: "NewHeightFromBytes dec (ToBytes enc h) = Inr (h, length (ToBytes enc h))"
  using height_decode [of h "[]"] by simp

lemma value_decode: "DecodeValue dec (EncodeValue enc (Some v) h) = Inr (v, h)"
  by (simp add: DecodeValue_def EncodeValue_def height_decode)

lemma value_decode_nil: "DecodeValue dec (EncodeValue enc None h) = Inr ([], h)"
  using height_decode [of h "[]"] by (simp add: DecodeValue_def EncodeValue_def)

lemma ToBytes_inj: "ToBytes enc g = ToBytes enc h \<Longrightarrow> g = h"
  using height_decode0 by (metis Inr_inject fst_conv)

end

locale ordered_varuint = varuint +
  assumes enc_less: "m < n \<Longrightarrow> \<exists>p a b s t. enc m = p @ a # s \<and> enc n = p @ b # t \<and> a < b"
begin

lemma ToBytes_less:
  assumes "g < (h :: Height)"
  shows "ToBytes enc g @ r < ToBytes enc h @ s"
proof -
  have split: "p @ a # u < p @ b # v" if "a < b" for p u v :: bytes and a b
    using that by (induction p) (simp_all add: list_less_def)
  show ?thesis
  proof (cases "BlockNum g = BlockNum h")
    case True
    then have "TxNum g < TxNum h" using assms by (simp add: less_Height_def)
    then obtain p a b u v where "enc (TxNum g) = p @ a # u" "enc (TxNum h) = p @ b # v" "a < b"
      using enc_less by blast
    then show ?thesis
      using True split [of a b "enc (BlockNum h) @ p" "u @ r" "v @ s"]
      by (simp add: ToBytes_def)
  next
    case False
    then have "BlockNum g < BlockNum h" using assms by (simp add: less_Height_def)
    then obtain p a b u v where "enc (BlockNum g) = p @ a # u" "enc (BlockNum h) = p @ b # v" "a < b"
      using enc_less by blast
    then show ?thesis
      using split [of a b p "u @ enc (TxNum g) @ r" "v @ enc (TxNum h) @ s"]
      by (simp add: ToBytes_def)
  qed
qed

end

section \<open>A codec: length prefix and big-endian digits\<close>

fun be_bytes :: "nat \<Rightarrow> bytes" where
  "be_bytes n = (if n = 0 then [] else be_bytes (n div 256) @ [char_of (n mod 256)])"

definition be_val :: "bytes \<Rightarrow> nat" where
  "be_val bs = foldl (\<lambda>n c. n * 256 + of_char c) 0 bs"

definition lp_enc :: "u64 \<Rightarrow> bytes" where
  "lp_enc n = (let b = be_bytes (unat n) in char_of (length b) # b)"

definition lp_dec :: "bytes \<Rightarrow> u64 \<times> nat" where
  "lp_dec b =
     (case b of [] \<Rightarrow> (0, 0)
      | c # r \<Rightarrow> (of_nat (be_val (take (of_char c) r)), Suc (of_char c)))"

declare be_bytes.simps [simp del]

lemma be_bytes_0 [simp]: "be_bytes 0 = []"
  by (simp add: be_bytes.simps [of 0])

lemma be_val_snoc: "be_val (bs @ [c]) = be_val bs * 256 + of_char c"
  by (simp add: be_val_def)

lemma be_val_be_bytes [simp]: "be_val (be_bytes n) = n"
proof (induction n rule: be_bytes.induct)
  case (1 n)
  show ?case
  proof (cases "n = 0")
    case True
    then show ?thesis by (simp add: be_val_def)
  next
    case False
    then show ?thesis
      using 1 by (simp add: be_bytes.simps [of n] be_val_snoc of_char_of take_bit_eq_mod)
  qed
qed

lemma be_bytes_length: "n < 256 ^ k \<Longrightarrow> length (be_bytes n) \<le> k"
proof (induction k arbitrary: n)
  case 0
  then show ?case by (simp add: be_bytes.simps [of n])
next
  case (Suc k)
  then have "n div 256 < 256 ^ k" by (simp add: div_less_iff_less_mult mult.commute)
  with Suc.IH show ?case by (simp add: be_bytes.simps [of n])
qed

lemma be_bytes_small: "length (be_bytes (unat (n :: u64))) \<le> 8"
  by (rule be_bytes_length) (use unsigned_less [of n, where ?'a = nat] in simp)

lemma lp_dec_enc: "lp_dec (lp_enc n @ r) = (n, length (lp_enc n))"
proof -
  have "length (be_bytes (unat n)) < 256" using be_bytes_small [of n] by simp
  then have "of_char (char_of (length (be_bytes (unat n)))) = length (be_bytes (unat n))"
    by (simp add: of_char_of take_bit_nat_eq_self)
  then show ?thesis by (simp add: lp_dec_def lp_enc_def Let_def)
qed

lemma be_bytes_len_less: "length (be_bytes m) < length (be_bytes n) \<Longrightarrow> m < n"
proof (induction n arbitrary: m rule: be_bytes.induct)
  case (1 n)
  show ?case
  proof (cases "n = 0 \<or> m = 0")
    case True
    with "1.prems" show ?thesis by (cases "n = 0") auto
  next
    case False
    with "1.prems" have "length (be_bytes (m div 256)) < length (be_bytes (n div 256))"
      by (simp add: be_bytes.simps [of n] be_bytes.simps [of m])
    with "1.IH" False have "m div 256 < n div 256" by simp
    then show ?thesis by (metis div_le_mono linorder_not_le)
  qed
qed

lemma char_less_iff: "(a :: char) < b \<longleftrightarrow> (of_char a :: nat) < of_char b"
  by (simp add: less_char_def)

lemma be_bytes_same_len:
  "length (be_bytes m) = length (be_bytes n) \<Longrightarrow> m < n \<Longrightarrow>
   \<exists>p a b s t. be_bytes m = p @ a # s \<and> be_bytes n = p @ b # t \<and> a < (b :: char)"
proof (induction n arbitrary: m rule: be_bytes.induct)
  case (1 n)
  have n0: "n \<noteq> 0" using "1.prems"(2) by simp
  then have m0: "m \<noteq> 0"
    using "1.prems"(1) by (cases "m = 0") (simp_all add: be_bytes.simps [of n])
  have eqs: "be_bytes m = be_bytes (m div 256) @ [char_of (m mod 256)]"
    "be_bytes n = be_bytes (n div 256) @ [char_of (n mod 256)]"
    using n0 m0 by (simp_all add: be_bytes.simps [of n] be_bytes.simps [of m])
  show ?case
  proof (cases "m div 256 = n div 256")
    case True
    have "m mod 256 < n mod 256"
      using True "1.prems"(2) by (metis div_mult_mod_eq nat_add_left_cancel_less)
    then have "(char_of (m mod 256) :: char) < char_of (n mod 256)"
      by (simp add: char_less_iff of_char_of take_bit_eq_mod)
    with True eqs show ?thesis by metis
  next
    case False
    then have "m div 256 < n div 256"
      using "1.prems"(2) by (meson div_le_mono le_neq_implies_less less_imp_le_nat)
    moreover have "length (be_bytes (m div 256)) = length (be_bytes (n div 256))"
      using "1.prems"(1) eqs by simp
    ultimately obtain p a b s t where
      "be_bytes (m div 256) = p @ a # s" "be_bytes (n div 256) = p @ b # t" "a < b"
      using "1.IH" [OF n0] by blast
    then show ?thesis using eqs by (metis append.assoc append_Cons)
  qed
qed

lemma lp_enc_less:
  assumes "m < n"
  shows "\<exists>p a b s t. lp_enc m = p @ a # s \<and> lp_enc n = p @ b # t \<and> a < (b :: char)"
proof -
  let ?lm = "length (be_bytes (unat m))" and ?ln = "length (be_bytes (unat n))"
  have lt: "unat m < unat n" using assms by (simp add: word_less_nat_alt)
  have bounds: "?lm < 256" "?ln < 256" using be_bytes_small [of m] be_bytes_small [of n] by auto
  have "?lm \<le> ?ln" using be_bytes_len_less lt by (meson linorder_not_le order.asym)
  show ?thesis
  proof (cases "?lm = ?ln")
    case True
    from be_bytes_same_len [OF True lt] show ?thesis
      using True by (auto simp: lp_enc_def Let_def) (metis append_Cons)
  next
    case False
    then have "?lm < ?ln" using \<open>?lm \<le> ?ln\<close> by simp
    then have "(char_of ?lm :: char) < char_of ?ln"
      using bounds by (simp add: char_less_iff of_char_of take_bit_nat_eq_self)
    then show ?thesis by (auto simp: lp_enc_def Let_def intro!: exI [where x = "[]"])
  qed
qed

interpretation lp: ordered_varuint lp_enc lp_dec
  by unfold_locales (rule lp_dec_enc, rule lp_enc_less)

section \<open>Comparison of heights\<close>

lemma Compare_zero_iff: "Compare g h = 0 \<longleftrightarrow> g = h"
  by (auto simp: Compare_def Let_def Height.expand)

lemma AreSame_eq: "AreSame a b \<longleftrightarrow> a = b"
  by (cases "(a, b)" rule: AreSame.cases) (auto simp: Compare_zero_iff)

lemma sint_diff_pos:
  fixes a b :: u64
  assumes "uint a < 2 ^ 63" "uint b < 2 ^ 63"
  shows "sint (a - b) = uint a - uint b"
proof -
  have "uint (a - b) = take_bit 64 (uint a - uint b)"
    by (simp add: uint_word_ariths take_bit_eq_mod)
  then have "sint (a - b) = signed_take_bit 63 (uint a - uint b)"
    by (simp add: sint_uint signed_take_bit_take_bit)
  also have "\<dots> = uint a - uint b"
    using assms unsigned_greater_eq [of a, where ?'a = int] unsigned_greater_eq [of b, where ?'a = int]
    by (intro signed_take_bit_int_eq_self) linarith+
  finally show ?thesis .
qed

lemma Compare_order:
  assumes "uint (BlockNum g) < 2 ^ 63" "uint (BlockNum h) < 2 ^ 63"
    and "uint (TxNum g) < 2 ^ 63" "uint (TxNum h) < 2 ^ 63"
  shows "Compare g h = (if g < h then -1 else if g = h then 0 else 1)"
  using assms
  by (auto simp: Compare_def Let_def less_Height_def sint_diff_pos word_less_def
      word_uint_eq_iff intro: Height.expand)

text \<open>Beyond \<open>2 ^ 63\<close> the difference to 0 turns positive.\<close>

lemma sint_minus_wrap:
  fixes b :: u64
  assumes "2 ^ 63 < uint b"
  shows "0 < sint (0 - b)"
proof -
  have "sint (0 - b) = 2 ^ 64 - uint b"
    using assms uint_lt2p [of b]
    by (simp add: sint_uint uint_word_ariths signed_take_bit_eq_take_bit_shift take_bit_eq_mod
        zmod_zminus1_eq_if mod_pos_pos_trivial)
  then show ?thesis using uint_lt2p [of b] by simp
qed

end
