(* ===== verification/StateDB.thy ===== *)
theory StateDB
  imports GoLib Version
begin

text \<open>
  \<^verbatim>\<open>core/ledger/kvledger/txmgmt/statedb/statedb.go\<close>: versioned values, the update batch a
  block prepares, the sorted iterator over one namespace of a batch, and the interface
  \<^verbatim>\<open>VersionedDB\<close> of a state database.

  A \<^verbatim>\<open>*VersionedValue\<close> is never shared between two map entries that are later changed, so a
  map of pointers is a map of values; an \<^verbatim>\<open>*RList\<close> in a batch is shared with the cache of the
  validator and is an address. A state database is read through the record \<open>versionedDB\<close>: a
  snapshot of what its read methods answer. A \<^verbatim>\<open>ResultsIterator\<close> of a database is the list of
  the answers its \<^verbatim>\<open>Next\<close> has still to give.

  Two interface locales are stated here: \<open>results_iterator\<close> (what \<^verbatim>\<open>Next\<close> promises) and
  \<open>range_source\<close> (a range scan agrees with point lookups and is sorted). The batch iterator
  and the batch itself are interpreted as instances below.
\<close>

record VersionedValue =
  vv_Value :: slice
  vv_Version :: "Height option"

record VersionedKV =
  kv_Namespace :: bytes
  kv_Key :: bytes
  kv_Value :: slice
  kv_Version :: "Height option"

type_synonym nsUpdates = "(bytes, VersionedValue) gomap"
type_synonym rlist_ptr = nat
type_synonym nsRLists = "(bytes, rlist_ptr) gomap"

record UpdateBatch =
  updates :: "(bytes, nsUpdates) gomap"
  cals :: "(bytes, nsUpdates) gomap"
  rLists :: "(bytes, nsRLists) gomap"
  UpdateNum :: nat
  CalNum :: nat
  RListNum :: nat

type_synonym db_iterator = "VersionedKV res list"

record versionedDB =
  db_GetState :: "bytes \<Rightarrow> bytes \<Rightarrow> VersionedValue option res"
  db_GetStateRangeScanIterator :: "bytes \<Rightarrow> bytes \<Rightarrow> bytes \<Rightarrow> db_iterator res"
  db_GetLatestSavePoint :: "Height option res"
  db_ValidateKey :: "bytes \<Rightarrow> unit res"

definition NewUpdateBatch :: UpdateBatch where
  "NewUpdateBatch =
     \<lparr>updates = [], cals = [], rLists = [], UpdateNum = 0, CalNum = 0, RListNum = 0\<rparr>"

definition batch_Get :: "UpdateBatch \<Rightarrow> bytes \<Rightarrow> bytes \<Rightarrow> VersionedValue option" where
  "batch_Get batch ns key =
     (case gm_get (updates batch) ns of None \<Rightarrow> None | Some m \<Rightarrow> gm_get m key)"

definition batch_Exists :: "UpdateBatch \<Rightarrow> bytes \<Rightarrow> bytes \<Rightarrow> bool" where
  "batch_Exists batch ns key =
     (case gm_get (updates batch) ns of None \<Rightarrow> False | Some m \<Rightarrow> gm_get m key \<noteq> None)"

definition GetOrCreateNsUpdates :: "UpdateBatch \<Rightarrow> bytes \<Rightarrow> UpdateBatch \<times> nsUpdates" where
  "GetOrCreateNsUpdates batch ns =
     (case gm_get (updates batch) ns of
        None \<Rightarrow> (batch\<lparr>updates := gm_put ns [] (updates batch)\<rparr>, [])
      | Some m \<Rightarrow> (batch, m))"

definition GetOrCreateNsCals :: "UpdateBatch \<Rightarrow> bytes \<Rightarrow> UpdateBatch \<times> nsUpdates" where
  "GetOrCreateNsCals batch ns =
     (case gm_get (cals batch) ns of
        None \<Rightarrow> (batch\<lparr>cals := gm_put ns [] (cals batch)\<rparr>, [])
      | Some m \<Rightarrow> (batch, m))"

definition GetOrCreateNsRLists :: "UpdateBatch \<Rightarrow> bytes \<Rightarrow> UpdateBatch \<times> nsRLists" where
  "GetOrCreateNsRLists batch ns =
     (case gm_get (rLists batch) ns of
        None \<Rightarrow> (batch\<lparr>rLists := gm_put ns [] (rLists batch)\<rparr>, [])
      | Some m \<Rightarrow> (batch, m))"

text \<open>Writing through the map that \<^verbatim>\<open>GetUpdates\<close>, \<^verbatim>\<open>GetCals\<close> or \<^verbatim>\<open>GetRLists\<close> returned.\<close>

definition set_ns_updates :: "bytes \<Rightarrow> nsUpdates \<Rightarrow> UpdateBatch \<Rightarrow> UpdateBatch" where
  "set_ns_updates ns m batch = batch\<lparr>updates := gm_put ns m (updates batch)\<rparr>"

definition set_ns_cals :: "bytes \<Rightarrow> nsUpdates \<Rightarrow> UpdateBatch \<Rightarrow> UpdateBatch" where
  "set_ns_cals ns m batch = batch\<lparr>cals := gm_put ns m (cals batch)\<rparr>"

definition set_ns_rlists :: "bytes \<Rightarrow> nsRLists \<Rightarrow> UpdateBatch \<Rightarrow> UpdateBatch" where
  "set_ns_rlists ns m batch = batch\<lparr>rLists := gm_put ns m (rLists batch)\<rparr>"

definition batch_Put ::
    "UpdateBatch \<Rightarrow> bytes \<Rightarrow> bytes \<Rightarrow> slice \<Rightarrow> Height option \<Rightarrow> UpdateBatch res" where
  "batch_Put batch ns key value version =
     (if value = None then Inl (Panic ''Nil value not allowed'')
      else
        let (batch, m) = GetOrCreateNsUpdates batch ns
        in Inr (set_ns_updates ns (gm_put key \<lparr>vv_Value = value, vv_Version = version\<rparr> m) batch))"

definition batch_Delete :: "UpdateBatch \<Rightarrow> bytes \<Rightarrow> bytes \<Rightarrow> Height option \<Rightarrow> UpdateBatch" where
  "batch_Delete batch ns key version =
     (let (batch, m) = GetOrCreateNsUpdates batch ns
      in set_ns_updates ns (gm_put key \<lparr>vv_Value = None, vv_Version = version\<rparr> m) batch)"

definition GetUpdatedNamespaces :: "UpdateBatch \<Rightarrow> bytes list" where
  "GetUpdatedNamespaces batch = gm_keys (updates batch)"

definition GetCaledNamespaces :: "UpdateBatch \<Rightarrow> bytes list" where
  "GetCaledNamespaces batch = gm_keys (cals batch)"

definition GetRListsNamespaces :: "UpdateBatch \<Rightarrow> bytes list" where
  "GetRListsNamespaces batch = gm_keys (rLists batch)"

text \<open>A nil map reads as an empty one.\<close>

definition GetUpdates :: "UpdateBatch \<Rightarrow> bytes \<Rightarrow> nsUpdates" where
  "GetUpdates batch ns = (case gm_get (updates batch) ns of None \<Rightarrow> [] | Some m \<Rightarrow> m)"

definition GetCals :: "UpdateBatch \<Rightarrow> bytes \<Rightarrow> nsUpdates" where
  "GetCals batch ns = (case gm_get (cals batch) ns of None \<Rightarrow> [] | Some m \<Rightarrow> m)"

definition GetRLists :: "UpdateBatch \<Rightarrow> bytes \<Rightarrow> nsRLists" where
  "GetRLists batch ns = (case gm_get (rLists batch) ns of None \<Rightarrow> [] | Some m \<Rightarrow> m)"

definition GetUpdateSize :: "UpdateBatch \<Rightarrow> nat" where
  "GetUpdateSize batch =
     foldl (\<lambda>count ns. count + length (GetUpdates batch ns)) 0 (gm_keys (updates batch))"

record nsIterator =
  itr_ns :: bytes
  itr_nsUpdates :: nsUpdates
  itr_sortedKeys :: "bytes list"
  itr_nextIndex :: nat
  itr_lastIndex :: nat

definition newNsIterator :: "bytes \<Rightarrow> bytes \<Rightarrow> bytes \<Rightarrow> UpdateBatch \<Rightarrow> nsIterator" where
  "newNsIterator ns startKey endKey batch =
     (case gm_get (updates batch) ns of
        None \<Rightarrow> \<lparr>itr_ns = [], itr_nsUpdates = [], itr_sortedKeys = [], itr_nextIndex = 0, itr_lastIndex = 0\<rparr>
      | Some m \<Rightarrow>
          let sortedKeys = GetSortedKeys m;
              nextIndex = (if startKey = [] then 0 else SearchStrings sortedKeys startKey);
              lastIndex = (if endKey = [] then length sortedKeys else SearchStrings sortedKeys endKey)
          in \<lparr>itr_ns = ns, itr_nsUpdates = m, itr_sortedKeys = sortedKeys,
              itr_nextIndex = nextIndex, itr_lastIndex = lastIndex\<rparr>)"

definition nsIterator_Next :: "nsIterator \<Rightarrow> (nsIterator \<times> VersionedKV option) res" where
  "nsIterator_Next itr =
     (if itr_nextIndex itr \<ge> itr_lastIndex itr then Inr (itr, None)
      else
        res_bind (index_at (itr_sortedKeys itr) (itr_nextIndex itr)) (\<lambda>key.
          case gm_get (itr_nsUpdates itr) key of
            None \<Rightarrow> Inl (Panic ''nil pointer dereference'')
          | Some vv \<Rightarrow>
              Inr (itr\<lparr>itr_nextIndex := itr_nextIndex itr + 1\<rparr>,
                   Some \<lparr>kv_Namespace = itr_ns itr, kv_Key = key,
                         kv_Value = vv_Value vv, kv_Version = vv_Version vv\<rparr>)))"

text \<open>\<^verbatim>\<open>Next\<close> on the iterator of a database.\<close>

fun db_Next :: "db_iterator \<Rightarrow> (db_iterator \<times> VersionedKV option) res" where
  "db_Next [] = Inr ([], None)"
| "db_Next (Inl e # rest) = Inl e"
| "db_Next (Inr kv # rest) = Inr (rest, Some kv)"

section \<open>Interfaces\<close>

definition vv_of :: "VersionedKV \<Rightarrow> VersionedValue" where
  "vv_of kv = \<lparr>vv_Value = kv_Value kv, vv_Version = kv_Version kv\<rparr>"

definition kv_of :: "bytes \<Rightarrow> bytes \<Rightarrow> VersionedValue \<Rightarrow> VersionedKV" where
  "kv_of ns key vv =
     \<lparr>kv_Namespace = ns, kv_Key = key, kv_Value = vv_Value vv, kv_Version = vv_Version vv\<rparr>"

text \<open>The keys of a range query: from \<open>startKey\<close> on, up to \<open>endKey\<close> exclusive; an empty end key
  is no bound.\<close>

definition in_range :: "bytes \<Rightarrow> bytes \<Rightarrow> bytes \<Rightarrow> bool" where
  "in_range startKey endKey key \<longleftrightarrow> startKey \<le> key \<and> (endKey = [] \<or> key < endKey)"

text \<open>Namespaces are chaincode names: not empty and without the byte that separates a namespace
  from a key in the database.\<close>

definition ns_ok :: "bytes \<Rightarrow> bool" where
  "ns_ok ns \<longleftrightarrow> ns \<noteq> [] \<and> CHR 0x00 \<notin> set ns"

locale results_iterator =
  fixes next_of :: "'i \<Rightarrow> ('i \<times> VersionedKV option) res"
    and items :: "'i \<Rightarrow> VersionedKV list"
    and invar :: "'i \<Rightarrow> bool"
  assumes next_nil: "invar i \<Longrightarrow> items i = [] \<Longrightarrow>
      \<exists>i'. next_of i = Inr (i', None) \<and> items i' = [] \<and> invar i'"
    and next_cons: "invar i \<Longrightarrow> items i = kv # kvs \<Longrightarrow>
      \<exists>i'. next_of i = Inr (i', Some kv) \<and> items i' = kvs \<and> invar i'"

locale range_source =
  fixes lookup :: "'d \<Rightarrow> bytes \<Rightarrow> bytes \<Rightarrow> VersionedValue option"
    and scan :: "'d \<Rightarrow> bytes \<Rightarrow> bytes \<Rightarrow> bytes \<Rightarrow> VersionedKV list"
    and invar :: "'d \<Rightarrow> bool"
  assumes scan_sorted: "invar d \<Longrightarrow> ns_ok ns \<Longrightarrow> strict_sorted (map kv_Key (scan d ns s e))"
    and scan_mem: "invar d \<Longrightarrow> ns_ok ns \<Longrightarrow> kv \<in> set (scan d ns s e) \<longleftrightarrow>
      kv_Namespace kv = ns \<and> in_range s e (kv_Key kv) \<and> lookup d ns (kv_Key kv) = Some (vv_of kv)"
begin

text \<open>A scan is determined by the point lookups in its range.\<close>

lemma scan_unique:
  assumes "invar d" and "ns_ok ns" and "strict_sorted (map kv_Key kvs)"
    and "\<And>kv. kv \<in> set kvs \<longleftrightarrow>
      kv_Namespace kv = ns \<and> in_range s e (kv_Key kv) \<and> lookup d ns (kv_Key kv) = Some (vv_of kv)"
  shows "scan d ns s e = kvs"
proof -
  have same: "set (scan d ns s e) = set kvs" using assms(1,2,4) scan_mem by blast
  then have keys: "map kv_Key (scan d ns s e) = map kv_Key kvs"
    using scan_sorted [OF assms(1,2)] assms(3) by (intro strict_sorted_eqI) (auto simp: set_map)
  have inj: "inj_on kv_Key (set (scan d ns s e) \<union> set kvs)"
    using strict_sorted_distinct [OF assms(3)] same by (simp add: distinct_map)
  from keys inj show ?thesis by (rule map_inj_on)
qed

lemma scan_outside: "invar d \<Longrightarrow> ns_ok ns \<Longrightarrow> kv \<in> set (scan d ns s e) \<Longrightarrow> in_range s e (kv_Key kv)"
  by (simp add: scan_mem)

end

section \<open>Draining an iterator\<close>

text \<open>Calling \<^verbatim>\<open>Next\<close> until it answers nil, at most \<open>n\<close> times.\<close>

fun drain :: "('i \<Rightarrow> ('i \<times> VersionedKV option) res) \<Rightarrow> nat \<Rightarrow> 'i \<Rightarrow> VersionedKV list res" where
  "drain nx 0 i = Inl OutOfFuel"
| "drain nx (Suc n) i =
     res_bind (nx i) (\<lambda>(i', r).
       case r of None \<Rightarrow> Inr []
       | Some kv \<Rightarrow> res_bind (drain nx n i') (\<lambda>kvs. Inr (kv # kvs)))"

context results_iterator
begin

lemma next_ok:
  assumes "invar i"
  shows "\<exists>i' r. next_of i = Inr (i', r) \<and> invar i'
     \<and> items i = (case r of None \<Rightarrow> [] | Some x \<Rightarrow> x # items i') \<and> (r = None \<longrightarrow> items i' = [])"
proof (cases "items i")
  case Nil
  with next_nil [OF assms] show ?thesis by (metis option.simps(4))
next
  case (Cons kv kvs)
  with next_cons [OF assms] show ?thesis by (metis option.distinct(1) option.simps(5))
qed

lemma drain_items: "invar i \<Longrightarrow> length (items i) < n \<Longrightarrow> drain next_of n i = Inr (items i)"
proof (induction n arbitrary: i)
  case 0
  then show ?case by simp
next
  case (Suc n)
  show ?case
  proof (cases "items i")
    case Nil
    with next_nil [OF Suc.prems(1)] show ?thesis by auto
  next
    case (Cons kv kvs)
    with next_cons [OF Suc.prems(1)] obtain i' where
      "next_of i = Inr (i', Some kv)" "items i' = kvs" "invar i'" by blast
    with Suc.IH [of i'] Suc.prems(2) Cons show ?thesis by simp
  qed
qed

end

section \<open>The batch\<close>

definition batch_ok :: "UpdateBatch \<Rightarrow> bool" where
  "batch_ok b \<longleftrightarrow> gm_ok (updates b) \<and> (\<forall>(ns, m) \<in> set (updates b). gm_ok m)"

lemma batch_ok_ns: "batch_ok b \<Longrightarrow> gm_get (updates b) ns = Some m \<Longrightarrow> gm_ok m"
  by (auto simp: batch_ok_def dest: map_of_SomeD)

lemma batch_Exists_Get: "batch_Exists b ns k \<longleftrightarrow> batch_Get b ns k \<noteq> None"
  by (simp add: batch_Exists_def batch_Get_def split: option.splits)

lemma batch_Get_New [simp]: "batch_Get NewUpdateBatch ns k = None"
  by (simp add: batch_Get_def NewUpdateBatch_def)

lemma batch_ok_New [simp]: "batch_ok NewUpdateBatch"
  by (simp add: batch_ok_def NewUpdateBatch_def)

lemma batch_Get_set_ns:
  "batch_Get (set_ns_updates ns m b) ns' k = (if ns' = ns then gm_get m k else batch_Get b ns' k)"
  by (simp add: batch_Get_def set_ns_updates_def)

lemma GetUpdates_get: "gm_get (GetUpdates b ns) k = batch_Get b ns k"
  by (simp add: GetUpdates_def batch_Get_def split: option.splits)

lemma GetOrCreate_get:
  assumes "GetOrCreateNsUpdates b ns = (b', m)"
  shows "batch_Get b' ns' k = batch_Get b ns' k" and "gm_get m k = batch_Get b ns k"
    and "gm_get (updates b') ns = Some m"
  using assms by (auto simp: GetOrCreateNsUpdates_def batch_Get_def split: option.splits if_splits)

lemma set_ns_updates_ok:
  assumes "batch_ok b" "gm_ok m"
  shows "batch_ok (set_ns_updates ns m b)"
  using assms gm_put_subset [of ns m "updates b"]
  by (auto simp: batch_ok_def set_ns_updates_def)

lemma GetOrCreate_ok:
  assumes "GetOrCreateNsUpdates b ns = (b', m)" "batch_ok b"
  shows "batch_ok b'" and "gm_ok m"
proof -
  show "batch_ok b'"
    using assms set_ns_updates_ok [of b "[]" ns]
    by (auto simp: GetOrCreateNsUpdates_def set_ns_updates_def split: option.splits)
  then show "gm_ok m" using GetOrCreate_get(3) [OF assms(1)] by (rule batch_ok_ns)
qed

lemma batch_Put_Some:
  "\<exists>b'. batch_Put b ns k (Some v) ver = Inr b' \<and>
     (\<forall>ns' k'. batch_Get b' ns' k' =
        (if ns' = ns \<and> k' = k then Some \<lparr>vv_Value = Some v, vv_Version = ver\<rparr>
         else batch_Get b ns' k')) \<and>
     (batch_ok b \<longrightarrow> batch_ok b')"
proof -
  obtain b1 m where g: "GetOrCreateNsUpdates b ns = (b1, m)" by force
  show ?thesis
    using GetOrCreate_get [OF g] GetOrCreate_ok [OF g]
    by (auto simp: batch_Put_def g Let_def batch_Get_set_ns intro!: set_ns_updates_ok)
qed

lemma batch_Put_nil: "batch_Put b ns k None ver = Inl (Panic ''Nil value not allowed'')"
  by (simp add: batch_Put_def)

lemma batch_Get_Delete:
  "batch_Get (batch_Delete b ns k ver) ns' k' =
     (if ns' = ns \<and> k' = k then Some \<lparr>vv_Value = None, vv_Version = ver\<rparr> else batch_Get b ns' k')"
proof -
  obtain b1 m where g: "GetOrCreateNsUpdates b ns = (b1, m)" by force
  show ?thesis
    using GetOrCreate_get [OF g] by (auto simp: batch_Delete_def g batch_Get_set_ns)
qed

lemma batch_ok_Delete: "batch_ok b \<Longrightarrow> batch_ok (batch_Delete b ns k ver)"
proof -
  obtain b1 m where g: "GetOrCreateNsUpdates b ns = (b1, m)" by force
  assume "batch_ok b"
  then show ?thesis
    using GetOrCreate_ok [OF g] by (auto simp: batch_Delete_def g intro!: set_ns_updates_ok)
qed

section \<open>The batch iterator\<close>

definition nsIterator_items :: "nsIterator \<Rightarrow> VersionedKV list" where
  "nsIterator_items itr =
     map (\<lambda>k. kv_of (itr_ns itr) k (the (gm_get (itr_nsUpdates itr) k)))
       (take (itr_lastIndex itr - itr_nextIndex itr) (drop (itr_nextIndex itr) (itr_sortedKeys itr)))"

definition nsIterator_ok :: "nsIterator \<Rightarrow> bool" where
  "nsIterator_ok itr \<longleftrightarrow> itr_lastIndex itr \<le> length (itr_sortedKeys itr)
     \<and> set (itr_sortedKeys itr) \<subseteq> set (gm_keys (itr_nsUpdates itr))"

lemma nsIterator_items_empty:
  "nsIterator_ok itr \<Longrightarrow> nsIterator_items itr = [] \<longleftrightarrow> itr_lastIndex itr \<le> itr_nextIndex itr"
  by (auto simp: nsIterator_items_def nsIterator_ok_def)

lemma nsIterator_step:
  assumes "nsIterator_ok itr" and "itr_nextIndex itr < itr_lastIndex itr"
  defines "k \<equiv> itr_sortedKeys itr ! itr_nextIndex itr"
  shows "nsIterator_Next itr =
      Inr (itr\<lparr>itr_nextIndex := itr_nextIndex itr + 1\<rparr>,
           Some (kv_of (itr_ns itr) k (the (gm_get (itr_nsUpdates itr) k))))"
    and "nsIterator_items itr = kv_of (itr_ns itr) k (the (gm_get (itr_nsUpdates itr) k))
      # nsIterator_items (itr\<lparr>itr_nextIndex := itr_nextIndex itr + 1\<rparr>)"
proof -
  let ?i = "itr_nextIndex itr"
  have i: "?i < length (itr_sortedKeys itr)" using assms(1,2) by (simp add: nsIterator_ok_def)
  then have "k \<in> set (gm_keys (itr_nsUpdates itr))"
    using assms(1) by (auto simp: k_def nsIterator_ok_def)
  then obtain vv where "gm_get (itr_nsUpdates itr) k = Some vv"
    by (metis gm_get_keys not_None_eq)
  then show "nsIterator_Next itr =
      Inr (itr\<lparr>itr_nextIndex := itr_nextIndex itr + 1\<rparr>,
           Some (kv_of (itr_ns itr) k (the (gm_get (itr_nsUpdates itr) k))))"
    using assms(2) i by (simp add: nsIterator_Next_def index_at_def k_def kv_of_def)
  have "take (itr_lastIndex itr - ?i) (drop ?i (itr_sortedKeys itr)) =
      k # take (itr_lastIndex itr - Suc ?i) (drop (Suc ?i) (itr_sortedKeys itr))"
    using assms(2) i by (simp add: k_def Cons_nth_drop_Suc [symmetric] take_Cons')
  then show "nsIterator_items itr = kv_of (itr_ns itr) k (the (gm_get (itr_nsUpdates itr) k))
      # nsIterator_items (itr\<lparr>itr_nextIndex := itr_nextIndex itr + 1\<rparr>)"
    by (simp add: nsIterator_items_def)
qed

interpretation nsi: results_iterator nsIterator_Next nsIterator_items nsIterator_ok
proof
  fix itr
  assume ok: "nsIterator_ok itr" and "nsIterator_items itr = []"
  then show "\<exists>i'. nsIterator_Next itr = Inr (i', None) \<and> nsIterator_items i' = [] \<and> nsIterator_ok i'"
    by (auto simp: nsIterator_items_empty nsIterator_Next_def)
next
  fix itr kv kvs
  assume ok: "nsIterator_ok itr" and cons: "nsIterator_items itr = kv # kvs"
  then have "itr_nextIndex itr < itr_lastIndex itr"
    using nsIterator_items_empty [OF ok] by auto
  with ok cons show "\<exists>i'. nsIterator_Next itr = Inr (i', Some kv) \<and> nsIterator_items i' = kvs
      \<and> nsIterator_ok i'"
    by (auto simp: nsIterator_step nsIterator_ok_def)
qed

fun db_items :: "db_iterator \<Rightarrow> VersionedKV list" where
  "db_items [] = []"
| "db_items (Inl e # rest) = []"
| "db_items (Inr kv # rest) = kv # db_items rest"

definition db_iter_ok :: "db_iterator \<Rightarrow> bool" where
  "db_iter_ok itr \<longleftrightarrow> (\<forall>r \<in> set itr. is_ok r)"

lemma db_items_map [simp]: "db_items (map Inr kvs) = kvs" "db_iter_ok (map Inr kvs)"
  by (induction kvs) (auto simp: db_iter_ok_def)

interpretation dbi: results_iterator db_Next db_items db_iter_ok
proof
  fix itr
  assume "db_iter_ok itr" and "db_items itr = []"
  then show "\<exists>i'. db_Next itr = Inr (i', None) \<and> db_items i' = [] \<and> db_iter_ok i'"
    by (cases itr rule: db_items.cases) (auto simp: db_iter_ok_def)
next
  fix itr kv kvs
  assume "db_iter_ok itr" and "db_items itr = kv # kvs"
  then show "\<exists>i'. db_Next itr = Inr (i', Some kv) \<and> db_items i' = kvs \<and> db_iter_ok i'"
    by (cases itr rule: db_items.cases) (auto simp: db_iter_ok_def)
qed

definition batch_scan :: "UpdateBatch \<Rightarrow> bytes \<Rightarrow> bytes \<Rightarrow> bytes \<Rightarrow> VersionedKV list" where
  "batch_scan b ns s e = nsIterator_items (newNsIterator ns s e b)"

lemma newNsIterator_ok: "nsIterator_ok (newNsIterator ns s e b)"
  using SearchStrings_spec(1) [of "GetSortedKeys m" for m]
  by (auto simp: newNsIterator_def nsIterator_ok_def Let_def GetSortedKeys_def split: option.splits)

lemma in_range_Nil_start [simp]: "in_range [] e k \<longleftrightarrow> e = [] \<or> k < e"
  by (simp add: in_range_def)

lemma batch_scan_Some:
  assumes "gm_get (updates b) ns = Some m"
  shows "batch_scan b ns s e =
    map (\<lambda>k. kv_of ns k (the (gm_get m k))) (filter (in_range s e) (GetSortedKeys m))"
proof -
  let ?a = "GetSortedKeys m"
  have a: "sorted ?a" by (simp add: GetSortedKeys_def)
  have zero: "SearchStrings ?a [] = 0"
    using SearchStrings_spec(2) [OF a, of 0 "[]"] by (cases "SearchStrings ?a []") auto
  have "take ((if e = [] then length ?a else SearchStrings ?a e) - SearchStrings ?a s)
      (drop (SearchStrings ?a s) ?a) = filter (in_range s e) ?a"
  proof (cases "e = []")
    case True
    have "in_range s [] = (\<lambda>k. s \<le> k)" by (simp add: in_range_def fun_eq_iff)
    with True show ?thesis
      by (simp add: sorted_drop_filter [OF a, symmetric])
  next
    case False
    then show ?thesis
      using sorted_slice_filter [OF a, of e s] by (simp add: in_range_def [abs_def])
  qed
  moreover have "(if s = [] then 0 else SearchStrings ?a s) = SearchStrings ?a s"
    using zero by simp
  ultimately show ?thesis
    using assms by (simp add: batch_scan_def newNsIterator_def nsIterator_items_def Let_def)
qed

lemma batch_scan_None: "gm_get (updates b) ns = None \<Longrightarrow> batch_scan b ns s e = []"
  by (simp add: batch_scan_def newNsIterator_def nsIterator_items_def)

lemma kv_of_simps [simp]:
  "kv_Namespace (kv_of ns k vv) = ns" "kv_Key (kv_of ns k vv) = k"
  "kv_Value (kv_of ns k vv) = vv_Value vv" "kv_Version (kv_of ns k vv) = vv_Version vv"
  "vv_of (kv_of ns k vv) = vv"
  by (simp_all add: kv_of_def vv_of_def)

lemma kv_of_vv_of [simp]: "kv_of (kv_Namespace kv) (kv_Key kv) (vv_of kv) = kv"
  by (simp add: kv_of_def vv_of_def)

interpretation bsrc: range_source batch_Get batch_scan batch_ok
proof
  fix b ns s e
  assume ok: "batch_ok b" and "ns_ok ns"
  show "strict_sorted (map kv_Key (batch_scan b ns s e))"
  proof (cases "gm_get (updates b) ns")
    case None
    then show ?thesis by (simp add: batch_scan_None)
  next
    case (Some m)
    then have "strict_sorted (GetSortedKeys m)"
      using ok by (auto intro: GetSortedKeys_sorted batch_ok_ns)
    then show ?thesis
      by (simp add: batch_scan_Some [OF Some] o_def sorted_wrt_filter)
  qed
next
  fix b ns kv s e
  assume ok: "batch_ok b" and "ns_ok ns"
  show "kv \<in> set (batch_scan b ns s e) \<longleftrightarrow> kv_Namespace kv = ns \<and> in_range s e (kv_Key kv)
      \<and> batch_Get b ns (kv_Key kv) = Some (vv_of kv)"
  proof (cases "gm_get (updates b) ns")
    case None
    then show ?thesis by (simp add: batch_scan_None batch_Get_def)
  next
    case (Some m)
    have "(\<exists>k \<in> fst ` set m. in_range s e k \<and> kv = kv_of ns k (the (gm_get m k))) \<longleftrightarrow>
        kv_Namespace kv = ns \<and> in_range s e (kv_Key kv) \<and> gm_get m (kv_Key kv) = Some (vv_of kv)"
      (is "?l \<longleftrightarrow> ?r")
    proof
      assume ?l
      then obtain k where k: "k \<in> fst ` set m" "in_range s e k" "kv = kv_of ns k (the (gm_get m k))"
        by blast
      then have "gm_get m k \<noteq> None" by (simp add: map_of_eq_None_iff)
      with k show ?r by auto
    next
      assume r: ?r
      then have "kv_Key kv \<in> fst ` set m" by (metis map_of_eq_None_iff option.distinct(1))
      moreover have "kv = kv_of ns (kv_Key kv) (the (gm_get m (kv_Key kv)))" using r by auto
      ultimately show ?l using r by blast
    qed
    then show ?thesis
      by (auto simp: batch_scan_Some [OF Some] batch_Get_def Some image_iff)
  qed
qed

end
