(* ===== verification/RList.thy ===== *)
theory RList
  imports StateDB
begin

text \<open>
  \<^verbatim>\<open>core/ledger/kvledger/txmgmt/statedb/rlist.go\<close>: the bucketed record list that the validator
  maintains under \<^verbatim>\<open>__RLIST_\<close> keys, a tree of buckets linked by pointers, loaded lazily from the
  state database and saved through the map \<^verbatim>\<open>putStub\<close> of its root.

  The code shares nodes (the cache, \<^verbatim>\<open>mapRList\<close>, parent and child links) and shares the arrays
  under its slices (\<^verbatim>\<open>theList[:BUCKET_NUM]\<close> and \<^verbatim>\<open>theList[BUCKET_NUM:]\<close> are two views of one
  array, and \<^verbatim>\<open>append\<close> writes in place while capacity lasts), so the state is an explicit heap: a
  list of nodes and two lists of backing arrays, with addresses as indices. A slice is an array
  address, an offset and a length; address 0 is the array of capacity 0, the array of a nil or
  empty slice. How much capacity \<^verbatim>\<open>append\<close> reserves is left open by the language: it is the
  parameter \<open>e_grow\<close>. The bucket capacity \<^verbatim>\<open>BUCKET_NUM\<close> is a package variable and a parameter;
  the protobuf coding of \<^verbatim>\<open>RListData\<close> is a parameter, as are the databases of the channels
  (a node keeps the name of the database handle it was made with).

  Recursion along parent pointers has the number of nodes as fuel, which is enough on every
  acyclic chain; loading, adding and removing, which may allocate, have explicit fuel.
\<close>

section \<open>Slices over a store of arrays\<close>

record go_slice =
  sl_arr :: nat
  sl_off :: nat
  sl_len :: nat

type_synonym 'a arrays = "'a list list"

definition sl_empty :: go_slice where
  "sl_empty = \<lparr>sl_arr = 0, sl_off = 0, sl_len = 0\<rparr>"

definition sl_elems :: "'a arrays \<Rightarrow> go_slice \<Rightarrow> 'a list" where
  "sl_elems A s = take (sl_len s) (drop (sl_off s) (A ! sl_arr s))"

definition sl_cap :: "'a arrays \<Rightarrow> go_slice \<Rightarrow> nat" where
  "sl_cap A s = length (A ! sl_arr s) - sl_off s"

text \<open>\<^verbatim>\<open>s[k]\<close> read now, \<^verbatim>\<open>s[a:b]\<close> (bounded by the capacity), and \<^verbatim>\<open>append(s, xs...)\<close>.\<close>

definition sl_nth :: "'a arrays \<Rightarrow> go_slice \<Rightarrow> nat \<Rightarrow> 'a res" where
  "sl_nth A s k = (if k < sl_len s then Inr ((A ! sl_arr s) ! (sl_off s + k))
                   else Inl (Panic ''index out of range''))"

definition sl_sub :: "'a arrays \<Rightarrow> go_slice \<Rightarrow> nat \<Rightarrow> nat \<Rightarrow> go_slice res" where
  "sl_sub A s a b =
     (if a \<le> b \<and> b \<le> sl_cap A s then Inr \<lparr>sl_arr = sl_arr s, sl_off = sl_off s + a, sl_len = b - a\<rparr>
      else Inl (Panic ''slice bounds out of range''))"

definition sl_append ::
    "(nat \<Rightarrow> nat \<Rightarrow> nat) \<Rightarrow> 'a \<Rightarrow> 'a arrays \<Rightarrow> go_slice \<Rightarrow> 'a list \<Rightarrow> 'a arrays \<times> go_slice" where
  "sl_append grow d A s xs =
     (if xs = [] then (A, s)
      else if sl_len s + length xs \<le> sl_cap A s then
        (let arr = A ! sl_arr s; p = sl_off s + sl_len s in
         (A[sl_arr s := take p arr @ xs @ drop (p + length xs) arr],
          s\<lparr>sl_len := sl_len s + length xs\<rparr>))
      else
        (let ys = sl_elems A s @ xs in
         (A @ [ys @ replicate (grow (sl_cap A s) (length ys) - length ys) d],
          \<lparr>sl_arr = length A, sl_off = 0, sl_len = length ys\<rparr>)))"

section \<open>Nodes and the heap\<close>

record BucketListData =
  bd_BucketId :: bytes
  bd_Size :: int

record RListData =
  ld_BucketId :: bytes
  ld_BucketSeqNo :: int
  ld_ParentBucketId :: bytes
  ld_BucketListData :: "BucketListData list"
  ld_IdList :: "bytes list"
  ld_Size :: int

record RNode =
  rl_BucketId :: bytes
  rl_RListName :: bytes
  rl_BucketSeqNo :: int
  rl_ParentList :: "rlist_ptr option"
  rl_BucketList :: go_slice
  rl_IdList :: go_slice
  rl_Size :: int
  rl_isLoad :: bool
  rl_needSave :: bool
  rl_needDelete :: bool
  rl_db :: bytes
  rl_ns :: bytes
  rl_putStub :: "(bytes, slice) gomap"
  rl_rootlist :: rlist_ptr
  rl_mapRList :: "(bytes, rlist_ptr) gomap"

record rheap =
  h_nodes :: "RNode list"
  h_barrs :: "rlist_ptr arrays"
  h_iarrs :: "bytes arrays"

record rl_env =
  e_BUCKET_NUM :: nat
  e_grow :: "nat \<Rightarrow> nat \<Rightarrow> nat"
  e_marshal :: "RListData \<Rightarrow> slice"
  e_unmarshal :: "bytes \<Rightarrow> RListData"
  e_dbs :: "bytes \<Rightarrow> versionedDB"

definition empty_rheap :: rheap where
  "empty_rheap = \<lparr>h_nodes = [], h_barrs = [[]], h_iarrs = [[]]\<rparr>"

definition nd :: "rheap \<Rightarrow> rlist_ptr \<Rightarrow> RNode" where
  "nd h p = h_nodes h ! p"

definition upd_node :: "rlist_ptr \<Rightarrow> (RNode \<Rightarrow> RNode) \<Rightarrow> rheap \<Rightarrow> rheap" where
  "upd_node p f h = h\<lparr>h_nodes := (h_nodes h)[p := f (h_nodes h ! p)]\<rparr>"

definition alloc :: "RNode \<Rightarrow> rheap \<Rightarrow> rlist_ptr \<times> rheap" where
  "alloc n h = (length (h_nodes h), h\<lparr>h_nodes := h_nodes h @ [n]\<rparr>)"

definition buckets :: "rheap \<Rightarrow> rlist_ptr \<Rightarrow> rlist_ptr list" where
  "buckets h p = sl_elems (h_barrs h) (rl_BucketList (nd h p))"

definition ids :: "rheap \<Rightarrow> rlist_ptr \<Rightarrow> bytes list" where
  "ids h p = sl_elems (h_iarrs h) (rl_IdList (nd h p))"

definition append_buckets :: "rl_env \<Rightarrow> go_slice \<Rightarrow> rlist_ptr list \<Rightarrow> rheap \<Rightarrow> rheap \<times> go_slice" where
  "append_buckets env s ps h =
     (let (A, s') = sl_append (e_grow env) 0 (h_barrs h) s ps in (h\<lparr>h_barrs := A\<rparr>, s'))"

definition append_ids :: "rl_env \<Rightarrow> go_slice \<Rightarrow> bytes list \<Rightarrow> rheap \<Rightarrow> rheap \<times> go_slice" where
  "append_ids env s xs h =
     (let (A, s') = sl_append (e_grow env) [] (h_iarrs h) s xs in (h\<lparr>h_iarrs := A\<rparr>, s'))"

text \<open>\<^verbatim>\<open>new(RList)\<close> with the fields every constructor sets.\<close>

definition new_node :: "bytes \<Rightarrow> bytes \<Rightarrow> bytes \<Rightarrow> bytes \<Rightarrow> rlist_ptr \<Rightarrow> RNode" where
  "new_node bucketId rListName db ns rootlist =
     \<lparr>rl_BucketId = bucketId, rl_RListName = rListName, rl_BucketSeqNo = 0, rl_ParentList = None,
      rl_BucketList = sl_empty, rl_IdList = sl_empty, rl_Size = 0, rl_isLoad = False,
      rl_needSave = False, rl_needDelete = False, rl_db = db, rl_ns = ns, rl_putStub = [],
      rl_rootlist = rootlist, rl_mapRList = []\<rparr>"

definition root_key :: "bytes \<Rightarrow> bytes" where
  "root_key rListName = ''__RLIST_'' @ rListName @ ''_ROOT''"

definition bucket_key :: "bytes \<Rightarrow> int \<Rightarrow> bytes" where
  "bucket_key rListName seqno = ''__RLIST_'' @ rListName @ ''_BUCKET_'' @ FormatInt seqno"

definition datab_key :: "bytes \<Rightarrow> bytes \<Rightarrow> bytes" where
  "datab_key rListName vid = ''__RLIST_'' @ rListName @ ''_DATAB_'' @ vid"

definition newBucket :: "rlist_ptr \<Rightarrow> bytes \<Rightarrow> rlist_ptr \<Rightarrow> rheap \<Rightarrow> rlist_ptr \<times> rheap" where
  "newBucket this rListName rootlist h =
     (let seqno = wrap64 (rl_BucketSeqNo (nd h rootlist) + 1);
          h = upd_node rootlist (rl_BucketSeqNo_update (\<lambda>_. seqno)) h;
          bid = bucket_key rListName seqno;
          (child, h) = alloc ((new_node bid rListName (rl_db (nd h this)) (rl_ns (nd h this)) rootlist)
             \<lparr>rl_BucketSeqNo := seqno, rl_needSave := True\<rparr>) h
      in (child, upd_node rootlist (rl_mapRList_update (gm_put bid child)) h))"

definition newRListByBucketId :: "rlist_ptr \<Rightarrow> bytes \<Rightarrow> bytes \<Rightarrow> rlist_ptr \<Rightarrow> rheap \<Rightarrow> rlist_ptr \<times> rheap" where
  "newRListByBucketId this rListName bucketId rootlist h =
     (let (rlist, h) = alloc (new_node bucketId rListName (rl_db (nd h this)) (rl_ns (nd h this)) rootlist) h
      in (rlist, upd_node rootlist (rl_mapRList_update (gm_put bucketId rlist)) h))"

text \<open>\<^verbatim>\<open>db.GetState(ns, key)\<close> of the root's handle, errors dropped; an empty value counts as none.\<close>

definition root_read :: "rl_env \<Rightarrow> rheap \<Rightarrow> rlist_ptr \<Rightarrow> bytes \<Rightarrow> slice" where
  "root_read env h root key =
     (case db_GetState (e_dbs env (rl_db (nd h root))) (rl_ns (nd h root)) key of
        Inl _ \<Rightarrow> None
      | Inr None \<Rightarrow> None
      | Inr (Some vv) \<Rightarrow> (case vv_Value vv of None \<Rightarrow> None | Some v \<Rightarrow> if v = [] then None else Some v))"

text \<open>The child buckets that \<^verbatim>\<open>load\<close> makes from the stored entries.\<close>

definition load_children :: "rl_env \<Rightarrow> rlist_ptr \<Rightarrow> BucketListData list \<Rightarrow> rheap \<Rightarrow> rheap \<times> go_slice" where
  "load_children env this bds h =
     foldl (\<lambda>(h, s) bd.
        let this_n = nd h this;
            (bucket, h) = alloc ((new_node (bd_BucketId bd) (rl_RListName this_n) (rl_db this_n) (rl_ns this_n)
                 (rl_rootlist this_n))\<lparr>rl_ParentList := Some this, rl_Size := bd_Size bd\<rparr>) h
        in append_buckets env s [bucket] h) (h, sl_empty) bds"

fun rl_load :: "rl_env \<Rightarrow> nat \<Rightarrow> rlist_ptr \<Rightarrow> rheap \<Rightarrow> rheap res" where
  "rl_load env 0 this h = Inl OutOfFuel"
| "rl_load env (Suc n) this h =
     (if rl_isLoad (nd h this) then Inr h
      else
        let root = rl_rootlist (nd h this) in
        (case root_read env h root (rl_BucketId (nd h this)) of
           None \<Rightarrow> Inr (upd_node this (rl_isLoad_update (\<lambda>_. True)) h)
         | Some value \<Rightarrow>
             let rdata = e_unmarshal env value;
                 (h, idl) = append_ids env sl_empty (ld_IdList rdata) h;
                 h = upd_node this (\<lambda>r. r\<lparr>rl_BucketId := ld_BucketId rdata, rl_BucketSeqNo := ld_BucketSeqNo rdata,
                        rl_Size := ld_Size rdata, rl_IdList := idl\<rparr>) h
             in res_bind
                  (if ld_ParentBucketId rdata = [] then Inr h
                   else
                     let (parent, h) =
                           (case gm_get (rl_mapRList (nd h root)) (ld_ParentBucketId rdata) of
                              Some p \<Rightarrow> (p, h)
                            | None \<Rightarrow> newRListByBucketId this (rl_RListName (nd h this))
                                        (ld_ParentBucketId rdata) root h)
                     in res_bind (rl_load env n parent h) (\<lambda>h.
                          Inr (upd_node this (rl_ParentList_update (\<lambda>_. Some parent)) h)))
                  (\<lambda>h.
                     let (h, bl) = load_children env this (ld_BucketListData rdata) h;
                         h = upd_node this (\<lambda>r. r\<lparr>rl_BucketList := bl, rl_isLoad := True, rl_needSave := False\<rparr>) h
                     in Inr (upd_node root (rl_mapRList_update (gm_put (rl_BucketId (nd h this)) this)) h))))"

section \<open>Walking up the parents\<close>

definition chain_fuel :: "rheap \<Rightarrow> nat" where
  "chain_fuel h = length (h_nodes h) + 1"

fun addSize_up :: "nat \<Rightarrow> rlist_ptr \<Rightarrow> int \<Rightarrow> rheap \<Rightarrow> rheap res" where
  "addSize_up 0 this num h = Inl OutOfFuel"
| "addSize_up (Suc n) this num h =
     (let h = upd_node this (rl_Size_update (\<lambda>s. wrap64 (s + num))) h in
      case rl_ParentList (nd h this) of None \<Rightarrow> Inr h | Some p \<Rightarrow> addSize_up n p num h)"

definition addSize :: "rlist_ptr \<Rightarrow> int \<Rightarrow> rheap \<Rightarrow> rheap res" where
  "addSize this num h = addSize_up (chain_fuel h) this num h"

fun setSize_up :: "nat \<Rightarrow> rlist_ptr \<Rightarrow> rheap \<Rightarrow> rheap res" where
  "setSize_up 0 this h = Inl OutOfFuel"
| "setSize_up (Suc n) this h =
     (let h = (if buckets h this \<noteq> []
               then upd_node this (rl_Size_update (\<lambda>_. foldl (\<lambda>c v. wrap64 (c + rl_Size (nd h v))) 0 (buckets h this))) h
               else h)
      in case rl_ParentList (nd h this) of None \<Rightarrow> Inr h | Some p \<Rightarrow> setSize_up n p h)"

definition setSize :: "rlist_ptr \<Rightarrow> rheap \<Rightarrow> rheap res" where
  "setSize this h = setSize_up (chain_fuel h) this h"

fun setNeedSave_up :: "nat \<Rightarrow> rlist_ptr \<Rightarrow> rheap \<Rightarrow> rheap res" where
  "setNeedSave_up 0 this h = Inl OutOfFuel"
| "setNeedSave_up (Suc n) this h =
     (let h = upd_node this (rl_needSave_update (\<lambda>_. True)) h in
      case rl_ParentList (nd h this) of None \<Rightarrow> Inr h | Some p \<Rightarrow> setNeedSave_up n p h)"

definition setNeedSave :: "rlist_ptr \<Rightarrow> rheap \<Rightarrow> rheap res" where
  "setNeedSave this h = setNeedSave_up (chain_fuel h) this h"

text \<open>The sizes of the siblings in front of the bucket with the identifier \<open>bid\<close>.\<close>

fun sizes_before :: "rheap \<Rightarrow> bytes \<Rightarrow> rlist_ptr list \<Rightarrow> int \<Rightarrow> int" where
  "sizes_before h bid [] num = num"
| "sizes_before h bid (v # vs) num =
     (if rl_BucketId (nd h v) = bid then num else sizes_before h bid vs (wrap64 (num + rl_Size (nd h v))))"

fun getIndex_up :: "nat \<Rightarrow> rlist_ptr \<Rightarrow> rheap \<Rightarrow> int res" where
  "getIndex_up 0 this h = Inl OutOfFuel"
| "getIndex_up (Suc n) this h =
     (case rl_ParentList (nd h this) of
        None \<Rightarrow> Inr 0
      | Some p \<Rightarrow>
          res_bind (getIndex_up n p h) (\<lambda>num.
            Inr (sizes_before h (rl_BucketId (nd h this)) (buckets h p) num)))"

definition getIndex :: "rlist_ptr \<Rightarrow> rheap \<Rightarrow> int res" where
  "getIndex this h = getIndex_up (chain_fuel h) this h"

section \<open>Positions and bucket lists\<close>

definition set_stub :: "rlist_ptr \<Rightarrow> bytes \<Rightarrow> slice \<Rightarrow> rheap \<Rightarrow> rheap" where
  "set_stub this key v h = upd_node (rl_rootlist (nd h this)) (rl_putStub_update (gm_put key v)) h"

fun count_before :: "bytes \<Rightarrow> bytes list \<Rightarrow> int \<Rightarrow> int" where
  "count_before vid [] num = num"
| "count_before vid (x # xs) num = (if x = vid then num else count_before vid xs (wrap64 (num + 1)))"

definition rl_IndexOf :: "rl_env \<Rightarrow> nat \<Rightarrow> rlist_ptr \<Rightarrow> bytes \<Rightarrow> rheap \<Rightarrow> (int \<times> rheap) res" where
  "rl_IndexOf env n this vid h =
     res_bind (rl_load env n this h) (\<lambda>h.
       let root = rl_rootlist (nd h this);
           key = datab_key (rl_RListName (nd h this)) vid;
           bucketId = (case gm_get (rl_putStub (nd h root)) key of
                         Some (Some b) \<Rightarrow> Some b
                       | _ \<Rightarrow> root_read env h root key)
       in case bucketId of
            None \<Rightarrow> Inr (-1, h)
          | Some bucketId \<Rightarrow>
              if bucketId = [] then Inr (-1, h)
              else
                let (rList, h) =
                      (case gm_get (rl_mapRList (nd h root)) bucketId of
                         Some p \<Rightarrow> (p, h)
                       | None \<Rightarrow> newRListByBucketId this (rl_RListName (nd h this)) bucketId root h)
                in res_bind (rl_load env n rList h) (\<lambda>h.
                   res_bind (getIndex rList h) (\<lambda>num.
                     Inr (count_before vid (ids h rList) num, h))))"

text \<open>\<^verbatim>\<open>indexOf\<close>, and the search loops that default to position 0.\<close>

fun indexOf_from :: "rheap \<Rightarrow> bytes \<Rightarrow> rlist_ptr list \<Rightarrow> int \<Rightarrow> int" where
  "indexOf_from h bid [] k = -1"
| "indexOf_from h bid (v # vs) k = (if rl_BucketId (nd h v) = bid then k else indexOf_from h bid vs (k + 1))"

definition rl_indexOf :: "rheap \<Rightarrow> rlist_ptr list \<Rightarrow> rlist_ptr \<Rightarrow> int" where
  "rl_indexOf h lisRList theList = indexOf_from h (rl_BucketId (nd h theList)) lisRList 0"

definition bucket_index :: "rheap \<Rightarrow> rlist_ptr list \<Rightarrow> rlist_ptr \<Rightarrow> nat" where
  "bucket_index h lisRList theList = nat (max 0 (rl_indexOf h lisRList theList))"

definition rl_addBucket :: "rl_env \<Rightarrow> rlist_ptr \<Rightarrow> nat \<Rightarrow> rlist_ptr \<Rightarrow> rheap \<Rightarrow> rheap res" where
  "rl_addBucket env this index bucket h =
     (let bl = rl_BucketList (nd h this);
          old = buckets h this;
          (h, bucketlist) =
            (if index \<ge> sl_len bl then append_buckets env bl [bucket] h
             else let (h, s) = append_buckets env sl_empty (take index old) h;
                      (h, s) = append_buckets env s [bucket] h
                  in append_buckets env s (drop index old) h);
          h = upd_node bucket (rl_ParentList_update (\<lambda>_. Some this)) h;
          h = upd_node this (rl_BucketList_update (\<lambda>_. bucketlist)) h
      in setNeedSave bucket h)"

text \<open>Taking the child at \<open>bucketIndex\<close> out of the bucket list of \<open>parent\<close>.\<close>

definition drop_bucket :: "rl_env \<Rightarrow> rlist_ptr \<Rightarrow> nat \<Rightarrow> rheap \<Rightarrow> rheap res" where
  "drop_bucket env parent bucketIndex h =
     (let bl = rl_BucketList (nd h parent); old = buckets h parent in
      if bucketIndex = 0 then
        res_bind (sl_sub (h_barrs h) bl 1 (sl_len bl)) (\<lambda>bl'.
          Inr (upd_node parent (rl_BucketList_update (\<lambda>_. bl')) h))
      else if sl_len bl < bucketIndex + 1 then Inl (Panic ''slice bounds out of range'')
      else
        let (h, s) = append_buckets env sl_empty (take bucketIndex old) h;
            (h, s) = append_buckets env s (drop (bucketIndex + 1) old) h
        in Inr (upd_node parent (rl_BucketList_update (\<lambda>_. s)) h))"

text \<open>Moving the children \<open>bl\<close> under a new parent; every element is read when its turn comes.\<close>

fun adopt :: "rl_env \<Rightarrow> nat \<Rightarrow> rlist_ptr \<Rightarrow> go_slice \<Rightarrow> nat list \<Rightarrow> rheap \<Rightarrow> rheap res" where
  "adopt env n parent bl [] h = Inr h"
| "adopt env n parent bl (k # ks) h =
     res_bind (sl_nth (h_barrs h) bl k) (\<lambda>v.
     res_bind (rl_load env n v h) (\<lambda>h.
       adopt env n parent bl ks
         (upd_node v (\<lambda>r. r\<lparr>rl_ParentList := Some parent, rl_needSave := True\<rparr>) h)))"

fun merge_into :: "rl_env \<Rightarrow> nat \<Rightarrow> rlist_ptr \<Rightarrow> nat \<Rightarrow> go_slice \<Rightarrow> nat list \<Rightarrow> rheap \<Rightarrow> rheap res" where
  "merge_into env n addBucket bucketIndex bl [] h = Inr h"
| "merge_into env n addBucket bucketIndex bl (k # ks) h =
     res_bind (sl_nth (h_barrs h) bl k) (\<lambda>v.
     res_bind (rl_load env n v h) (\<lambda>h.
     res_bind (rl_addBucket env addBucket
         (if bucketIndex = 0 then k else sl_len (rl_BucketList (nd h addBucket))) v h) (\<lambda>h.
     res_bind (setNeedSave v (upd_node v (rl_ParentList_update (\<lambda>_. Some addBucket)) h)) (\<lambda>h.
       merge_into env n addBucket bucketIndex bl ks h))))"

text \<open>The first child whose size exceeds the remaining index, with that remainder.\<close>

fun find_child :: "rheap \<Rightarrow> rlist_ptr list \<Rightarrow> int \<Rightarrow> (rlist_ptr \<times> int) option" where
  "find_child h [] index = None"
| "find_child h (v # vs) index =
     (if rl_Size (nd h v) > index then Some (v, index)
      else find_child h vs (wrap64 (index - rl_Size (nd h v))))"

section \<open>Splitting\<close>

definition too_many :: "rl_env \<Rightarrow> nat" where
  "too_many env = e_BUCKET_NUM env * 15 div 10"

definition too_few :: "rl_env \<Rightarrow> nat" where
  "too_few env = e_BUCKET_NUM env * 5 div 10"

text \<open>A new bucket for the children \<open>theList[a:b]\<close>.\<close>

definition bucket_of :: "rl_env \<Rightarrow> nat \<Rightarrow> rlist_ptr \<Rightarrow> go_slice \<Rightarrow> nat \<Rightarrow> nat \<Rightarrow> rheap \<Rightarrow> (rlist_ptr \<times> rheap) res" where
  "bucket_of env n this theList a b h =
     (let (next, h) = newBucket this (rl_RListName (nd h this)) (rl_rootlist (nd h this)) h in
      res_bind (sl_sub (h_barrs h) theList a b) (\<lambda>bl.
      res_bind (adopt env n next bl [0..<sl_len bl]
          (upd_node next (\<lambda>r. r\<lparr>rl_isLoad := True, rl_BucketList := bl\<rparr>) h)) (\<lambda>h.
      res_bind (setSize next h) (\<lambda>h. Inr (next, h)))))"

definition split_buckets :: "rl_env \<Rightarrow> nat \<Rightarrow> rlist_ptr \<Rightarrow> rheap \<Rightarrow> rheap res" where
  "split_buckets env n this h =
     (let theList = rl_BucketList (nd h this); bn = e_BUCKET_NUM env in
      if sl_len theList > too_many env then
        (case rl_ParentList (nd h this) of
           Some parent \<Rightarrow>
             let curIndex = rl_indexOf h (buckets h parent) this in
             res_bind (bucket_of env n this theList bn (sl_len theList) h) (\<lambda>(next, h).
             res_bind (sl_sub (h_barrs h) theList 0 bn) (\<lambda>bl.
             res_bind (setSize this (upd_node this (rl_BucketList_update (\<lambda>_. bl)) h)) (\<lambda>h.
             res_bind (rl_addBucket env parent (nat (curIndex + 1)) next h) (\<lambda>h.
               setSize parent h))))
         | None \<Rightarrow>
             res_bind (bucket_of env n this theList 0 bn h) (\<lambda>(first, h).
             res_bind (bucket_of env n this theList bn (sl_len theList) h) (\<lambda>(next, h).
             res_bind (rl_addBucket env this 0 first (upd_node this (rl_BucketList_update (\<lambda>_. sl_empty)) h)) (\<lambda>h.
             res_bind (rl_addBucket env this 1 next h) (\<lambda>h.
               setSize this h)))))
      else Inr h)"

definition split_leaf :: "rl_env \<Rightarrow> rlist_ptr \<Rightarrow> int \<Rightarrow> bytes \<Rightarrow> rheap \<Rightarrow> rheap res" where
  "split_leaf env this index vid h =
     (let idlist = rl_IdList (nd h this); bn = e_BUCKET_NUM env; name = rl_RListName (nd h this) in
      case rl_ParentList (nd h this) of
        None \<Rightarrow> Inr h
      | Some parent \<Rightarrow>
          if sl_len idlist \<ge> too_many env then
            res_bind (sl_sub (h_iarrs h) idlist 0 bn) (\<lambda>s.
              let h = upd_node this (\<lambda>r. r\<lparr>rl_IdList := s, rl_Size := int (sl_len s), rl_needSave := True\<rparr>) h;
                  h = (if index < int bn
                       then set_stub this (datab_key name vid) (Some (rl_BucketId (nd h this))) h else h);
                  (next, h) = newBucket this name (rl_rootlist (nd h this)) h
              in res_bind (sl_sub (h_iarrs h) idlist bn (sl_len idlist)) (\<lambda>t.
                   let h = upd_node next (\<lambda>r. r\<lparr>rl_ParentList := Some parent, rl_IdList := t,
                              rl_Size := int (sl_len t), rl_needSave := True\<rparr>) h;
                       h = foldl (\<lambda>h v. set_stub this (datab_key name v) (Some (rl_BucketId (nd h next))) h)
                             h (ids h next)
                   in rl_addBucket env parent (bucket_index h (buckets h parent) this + 1) next h))
          else Inr h)"

section \<open>Adding and removing\<close>

text \<open>The insertion into a leaf bucket, before a possible split.\<close>

definition leaf_insert :: "rl_env \<Rightarrow> rlist_ptr \<Rightarrow> int \<Rightarrow> bytes \<Rightarrow> rheap \<Rightarrow> rheap res" where
  "leaf_insert env this index vid h =
     (let idl = rl_IdList (nd h this) in
      res_bind
        (if index \<ge> rl_Size (nd h this) then Inr (append_ids env idl [vid] h)
         else
           res_bind (sl_sub (h_iarrs h) idl 0 (nat index)) (\<lambda>a.
           res_bind (sl_sub (h_iarrs h) idl (nat index) (sl_len idl)) (\<lambda>b.
             let (h1, s) = append_ids env sl_empty (sl_elems (h_iarrs h) a) h;
                 (h2, s) = append_ids env s [vid] h1
             in Inr (append_ids env s (sl_elems (h_iarrs h) b) h2))))
        (\<lambda>(h, idlist).
           res_bind (addSize this 1 (upd_node this (rl_IdList_update (\<lambda>_. idlist)) h)) (\<lambda>h.
           res_bind (setNeedSave this h) (\<lambda>h.
             Inr (set_stub this (datab_key (rl_RListName (nd h this)) vid) (Some (rl_BucketId (nd h this))) h)))))"

text \<open>The removal from a leaf bucket, before a possible merge.\<close>

definition leaf_remove :: "rl_env \<Rightarrow> rlist_ptr \<Rightarrow> int \<Rightarrow> rheap \<Rightarrow> rheap res" where
  "leaf_remove env this index h =
     res_bind (addSize this (-1) h) (\<lambda>h.
     res_bind (setNeedSave this h) (\<lambda>h.
       let idl = rl_IdList (nd h this) in
       res_bind (sl_nth (h_iarrs h) idl (nat index)) (\<lambda>vid.
         let h = set_stub this (datab_key (rl_RListName (nd h this)) vid) None h in
         if index = 0 then
           res_bind (sl_sub (h_iarrs h) idl 1 (sl_len idl)) (\<lambda>s.
             Inr (upd_node this (rl_IdList_update (\<lambda>_. s)) h))
         else
           let old = ids h this;
               (h, s) = append_ids env sl_empty (take (nat index) old) h;
               (h, s) = append_ids env s (drop (nat index + 1) old) h
           in Inr (upd_node this (rl_IdList_update (\<lambda>_. s)) h))))"

text \<open>The merge of an inner bucket with too few children into a sibling.\<close>

definition merge_buckets :: "rl_env \<Rightarrow> nat \<Rightarrow> rlist_ptr \<Rightarrow> rheap \<Rightarrow> rheap res" where
  "merge_buckets env n this h =
     (case rl_ParentList (nd h this) of
        None \<Rightarrow> Inr h
      | Some parent \<Rightarrow>
          if sl_len (rl_BucketList (nd h this)) < too_few env \<and> sl_len (rl_BucketList (nd h parent)) > 1 then
            let bucketIndex = bucket_index h (buckets h parent) this in
            res_bind (sl_nth (h_barrs h) (rl_BucketList (nd h parent))
                (if bucketIndex > 0 then bucketIndex - 1 else 1)) (\<lambda>addBucket.
            res_bind (rl_load env n addBucket h) (\<lambda>h.
            res_bind (addSize parent (wrap64 (- rl_Size (nd h this))) h) (\<lambda>h.
            res_bind (addSize addBucket (rl_Size (nd h this)) h) (\<lambda>h.
              let bl = rl_BucketList (nd h this) in
            res_bind (merge_into env n addBucket bucketIndex bl [0..<sl_len bl] h) (\<lambda>h.
            res_bind (drop_bucket env parent bucketIndex h) (\<lambda>h.
              Inr (upd_node this (rl_needDelete_update (\<lambda>_. True)) h)))))))
          else Inr h)"

text \<open>The removal of an inner bucket that holds nothing any more.\<close>

definition drop_empty :: "rl_env \<Rightarrow> rlist_ptr \<Rightarrow> rheap \<Rightarrow> rheap res" where
  "drop_empty env this h =
     (case rl_ParentList (nd h this) of
        None \<Rightarrow> Inr h
      | Some parent \<Rightarrow>
          if rl_Size (nd h this) = 0 then
            res_bind (drop_bucket env parent (bucket_index h (buckets h parent) this) h) (\<lambda>h.
              Inr (upd_node this (rl_needDelete_update (\<lambda>_. True)) h))
          else Inr h)"

fun rl_AddIndexId :: "rl_env \<Rightarrow> nat \<Rightarrow> rlist_ptr \<Rightarrow> int \<Rightarrow> bytes \<Rightarrow> rheap \<Rightarrow> rheap res"
and rl_removeIdx :: "rl_env \<Rightarrow> nat \<Rightarrow> rlist_ptr \<Rightarrow> int \<Rightarrow> int \<Rightarrow> rheap \<Rightarrow> rheap res" where
  "rl_AddIndexId env 0 this index vid h = Inl OutOfFuel"
| "rl_AddIndexId env (Suc n) this index vid h =
     res_bind
       (if rl_BucketId (nd h this) = rl_BucketId (nd h (rl_rootlist (nd h this))) then
          res_bind (rl_IndexOf env n this vid h) (\<lambda>(idIndex, h).
            if idIndex \<ge> 0 then rl_removeIdx env n this idIndex idIndex h else Inr h)
        else Inr h)
       (\<lambda>h.
          let index = (if index < 0 then 0 else index);
              index = (if index > rl_Size (nd h this) then rl_Size (nd h this) else index)
          in res_bind (rl_load env n this h) (\<lambda>h.
               if buckets h this \<noteq> [] then
                 res_bind
                   (if index \<ge> rl_Size (nd h this) then
                      let bucket = last (buckets h this)
                      in rl_AddIndexId env n bucket (rl_Size (nd h bucket)) vid h
                    else (case find_child h (buckets h this) index of
                            None \<Rightarrow> Inr h
                          | Some (v, index) \<Rightarrow> rl_AddIndexId env n v index vid h))
                   (\<lambda>h. split_buckets env n this h)
               else
                 res_bind (leaf_insert env this index vid h) (\<lambda>h. split_leaf env this index vid h)))"
| "rl_removeIdx env 0 this index absouteIndex h = Inl OutOfFuel"
| "rl_removeIdx env (Suc n) this index absouteIndex h =
     (if index < 0 \<or> index \<ge> rl_Size (nd h this) then Inr h
      else
        res_bind (rl_load env n this h) (\<lambda>h.
          if buckets h this \<noteq> [] then
            res_bind
              (if index > rl_Size (nd h this) then
                 rl_removeIdx env n (last (buckets h this)) index absouteIndex h
               else (case find_child h (buckets h this) index of
                       None \<Rightarrow> Inr h
                     | Some (v, index) \<Rightarrow> rl_removeIdx env n v index absouteIndex h))
              (\<lambda>h. res_bind (merge_buckets env n this h) (\<lambda>h. drop_empty env this h))
          else
            res_bind (leaf_remove env this index h) (\<lambda>h.
              case rl_ParentList (nd h this) of
                None \<Rightarrow> Inr h
              | Some parent \<Rightarrow>
                  let idl = rl_IdList (nd h this) in
                  if sl_len idl < too_few env \<and> sl_len (rl_BucketList (nd h parent)) > 1 then
                    res_bind (addSize this (- int (sl_len idl)) h) (\<lambda>h.
                    res_bind (drop_bucket env parent (bucket_index h (buckets h parent) this) h) (\<lambda>h.
                      foldM (\<lambda>h k.
                        res_bind (sl_nth (h_iarrs h) idl k) (\<lambda>v.
                          rl_AddIndexId env n (rl_rootlist (nd h this)) (wrap64 (absouteIndex + int k)) v h))
                        h [0..<sl_len idl]))
                  else Inr h)))"

definition rl_AddId :: "rl_env \<Rightarrow> nat \<Rightarrow> rlist_ptr \<Rightarrow> bytes \<Rightarrow> rheap \<Rightarrow> rheap res" where
  "rl_AddId env n this vid h = rl_AddIndexId env n this (rl_Size (nd h this)) vid h"

definition rl_RemoveIndex :: "rl_env \<Rightarrow> nat \<Rightarrow> rlist_ptr \<Rightarrow> int \<Rightarrow> rheap \<Rightarrow> rheap res" where
  "rl_RemoveIndex env n this index h = rl_removeIdx env n this index index h"

definition rl_RemoveId :: "rl_env \<Rightarrow> nat \<Rightarrow> rlist_ptr \<Rightarrow> bytes \<Rightarrow> rheap \<Rightarrow> rheap res" where
  "rl_RemoveId env n this vid h =
     res_bind (rl_IndexOf env n this vid h) (\<lambda>(index, h). rl_RemoveIndex env n this index h)"

fun rl_GetIdByIndex :: "rl_env \<Rightarrow> nat \<Rightarrow> rlist_ptr \<Rightarrow> int \<Rightarrow> rheap \<Rightarrow> (bytes \<times> rheap) res" where
  "rl_GetIdByIndex env 0 this index h = Inl OutOfFuel"
| "rl_GetIdByIndex env (Suc n) this index h =
     res_bind (rl_load env n this h) (\<lambda>h.
       if index \<ge> rl_Size (nd h this) \<or> index < 0 then Inr ([], h)
       else if buckets h this \<noteq> [] then
         (case find_child h (buckets h this) index of
            None \<Rightarrow> Inr ([], h)
          | Some (v, index) \<Rightarrow> rl_GetIdByIndex env n v index h)
       else res_bind (sl_nth (h_iarrs h) (rl_IdList (nd h this)) (nat index)) (\<lambda>x. Inr (x, h)))"

section \<open>Making and saving a list\<close>

definition NewRList :: "rl_env \<Rightarrow> nat \<Rightarrow> bytes \<Rightarrow> bytes \<Rightarrow> bytes \<Rightarrow> rheap \<Rightarrow> (rlist_ptr \<times> rheap) res" where
  "NewRList env n db ns rListName h =
     (let bid = root_key rListName;
          p = length (h_nodes h);
          (root, h) = alloc ((new_node bid rListName db ns p)
                        \<lparr>rl_mapRList := [(bid, p)], rl_needSave := True\<rparr>) h
      in res_bind (rl_load env n root h) (\<lambda>h.
           if sl_len (rl_BucketList (nd h root)) < 1 then
             let (child, h) = newBucket root rListName root h;
                 h = upd_node child (\<lambda>r. r\<lparr>rl_ParentList := Some root, rl_isLoad := True\<rparr>) h;
                 (h, bl) = append_buckets env (rl_BucketList (nd h root)) [child] h
             in Inr (root, upd_node root (rl_BucketList_update (\<lambda>_. bl)) h)
           else Inr (root, h)))"

definition getSaveData :: "rheap \<Rightarrow> rlist_ptr \<Rightarrow> RListData" where
  "getSaveData h this =
     \<lparr>ld_BucketId = rl_BucketId (nd h this), ld_BucketSeqNo = rl_BucketSeqNo (nd h this),
      ld_ParentBucketId = (case rl_ParentList (nd h this) of None \<Rightarrow> [] | Some p \<Rightarrow> rl_BucketId (nd h p)),
      ld_BucketListData = map (\<lambda>v. \<lparr>bd_BucketId = rl_BucketId (nd h v), bd_Size = rl_Size (nd h v)\<rparr>) (buckets h this),
      ld_IdList = ids h this, ld_Size = rl_Size (nd h this)\<rparr>"

definition rl_SaveState :: "rl_env \<Rightarrow> rlist_ptr \<Rightarrow> rheap \<Rightarrow> rheap" where
  "rl_SaveState env this h =
     foldl (\<lambda>h (_, v).
        if rl_needDelete (nd h v) then set_stub this (rl_BucketId (nd h v)) None h
        else if rl_needSave (nd h v) then
          upd_node v (rl_needSave_update (\<lambda>_. False))
            (set_stub this (rl_BucketId (nd h v)) (e_marshal env (getSaveData h v)) h)
        else h) h (rl_mapRList (nd h (rl_rootlist (nd h this))))"

definition GetPutStub :: "rheap \<Rightarrow> rlist_ptr \<Rightarrow> (bytes, slice) gomap" where
  "GetPutStub h this = rl_putStub (nd h this)"

end
