(* ===== verification/Cache.thy ===== *)
theory Cache
  imports GoLib
begin

text \<open>
  \<^verbatim>\<open>core/ledger/kvledger/txmgmt/validator/statebasedval/cache/cache.go\<close>: the expiring cache that
  keeps record lists between blocks. Every method holds the lock from its first to its last access,
  so it is one atomic step; the clock (\<^verbatim>\<open>time.Now().UnixNano()\<close>) is an argument, and the goroutine
  of \<^verbatim>\<open>gcLoop\<close> is the operation \<open>DeleteExpired\<close>, which may run between any two of them. The gob
  coder of \<^verbatim>\<open>Save\<close> and \<^verbatim>\<open>Load\<close> is a parameter.

  Results: what \<open>cache_Get\<close> answers is determined by the last store and the clock
  (locale \<open>expiring_store\<close>), and the collector is invisible: it never changes an answer, whatever
  the interleaving.
\<close>

record 'a Item =
  Object :: 'a
  Expiration :: int

record 'a Cache =
  c_defaultExpiration :: int
  c_items :: "(bytes, 'a Item) gomap"
  c_gcInterval :: int

definition defaultExpiration :: int where
  "defaultExpiration = 0"

definition NewCache :: "int \<Rightarrow> int \<Rightarrow> 'a Cache" where
  "NewCache dflt gcInterval =
     \<lparr>c_defaultExpiration = dflt, c_items = [], c_gcInterval = gcInterval\<rparr>"

definition IsExpired :: "int \<Rightarrow> 'a Item \<Rightarrow> bool" where
  "IsExpired now item = (if Expiration item = 0 then False else now > Expiration item)"

definition cache_DeleteExpired :: "int \<Rightarrow> 'a Cache \<Rightarrow> 'a Cache" where
  "cache_DeleteExpired now c =
     foldl (\<lambda>c (k, v).
        if Expiration v > 0 \<and> now > Expiration v then c\<lparr>c_items := gm_del k (c_items c)\<rparr> else c)
       c (c_items c)"

definition cache_Delete :: "'a Cache \<Rightarrow> bytes \<Rightarrow> 'a Cache" where
  "cache_Delete c k = c\<lparr>c_items := gm_del k (c_items c)\<rparr>"

definition cache_set :: "int \<Rightarrow> 'a Cache \<Rightarrow> bytes \<Rightarrow> 'a \<Rightarrow> int \<Rightarrow> 'a Cache" where
  "cache_set now c k v d =
     (let d = (if d = defaultExpiration then c_defaultExpiration c else d);
          e = (if d > 0 then now + d else 0)
      in c\<lparr>c_items := gm_put k \<lparr>Object = v, Expiration = e\<rparr> (c_items c)\<rparr>)"

definition cache_Set :: "int \<Rightarrow> 'a Cache \<Rightarrow> bytes \<Rightarrow> 'a \<Rightarrow> int \<Rightarrow> 'a Cache" where
  "cache_Set now c k v d =
     (let d = (if d = defaultExpiration then c_defaultExpiration c else d);
          e = (if d > 0 then now + d else 0)
      in c\<lparr>c_items := gm_put k \<lparr>Object = v, Expiration = e\<rparr> (c_items c)\<rparr>)"

definition cache_get :: "int \<Rightarrow> 'a Cache \<Rightarrow> bytes \<Rightarrow> 'a option" where
  "cache_get now c k =
     (case gm_get (c_items c) k of
        None \<Rightarrow> None
      | Some item \<Rightarrow> if IsExpired now item then None else Some (Object item))"

definition cache_Add :: "int \<Rightarrow> 'a Cache \<Rightarrow> bytes \<Rightarrow> 'a \<Rightarrow> int \<Rightarrow> 'a Cache res" where
  "cache_Add now c k v d =
     (case cache_get now c k of
        Some _ \<Rightarrow> Inl (Err ''Item already exists'')
      | None \<Rightarrow> Inr (cache_set now c k v d))"

definition cache_Get :: "int \<Rightarrow> 'a Cache \<Rightarrow> bytes \<Rightarrow> 'a option" where
  "cache_Get now c k =
     (case gm_get (c_items c) k of
        None \<Rightarrow> None
      | Some item \<Rightarrow> if IsExpired now item then None else Some (Object item))"

definition cache_Replace :: "int \<Rightarrow> 'a Cache \<Rightarrow> bytes \<Rightarrow> 'a \<Rightarrow> int \<Rightarrow> 'a Cache res" where
  "cache_Replace now c k v d =
     (case cache_get now c k of
        None \<Rightarrow> Inl (Err ''Item does not exist'')
      | Some _ \<Rightarrow> Inr (cache_set now c k v d))"

definition cache_Save :: "((bytes, 'a Item) gomap \<Rightarrow> bytes res) \<Rightarrow> 'a Cache \<Rightarrow> bytes res" where
  "cache_Save enc c = enc (c_items c)"

definition cache_Load ::
    "(bytes \<Rightarrow> (bytes, 'a Item) gomap res) \<Rightarrow> int \<Rightarrow> 'a Cache \<Rightarrow> bytes \<Rightarrow> 'a Cache res" where
  "cache_Load dec now c r =
     res_bind (dec r) (\<lambda>items.
       Inr (foldl (\<lambda>c (k, v).
          case gm_get (c_items c) k of
            None \<Rightarrow> c\<lparr>c_items := gm_put k v (c_items c)\<rparr>
          | Some obj \<Rightarrow> if IsExpired now obj then c\<lparr>c_items := gm_put k v (c_items c)\<rparr> else c) c items))"

definition cache_Count :: "'a Cache \<Rightarrow> nat" where
  "cache_Count c = length (c_items c)"

definition cache_Flush :: "'a Cache \<Rightarrow> 'a Cache" where
  "cache_Flush c = c\<lparr>c_items := []\<rparr>"

section \<open>What a client sees\<close>

text \<open>
  The contract of an expiring store: a lookup answers the stored value exactly up to its deadline,
  other keys are not touched, and garbage collection at time \<open>t\<close> is invisible from \<open>t\<close> on.
\<close>

locale expiring_store =
  fixes look :: "int \<Rightarrow> 'c \<Rightarrow> bytes \<Rightarrow> 'a option"
    and store :: "int \<Rightarrow> 'c \<Rightarrow> bytes \<Rightarrow> 'a \<Rightarrow> int \<Rightarrow> 'c"
    and gc :: "int \<Rightarrow> 'c \<Rightarrow> 'c"
    and invar :: "'c \<Rightarrow> bool"
  assumes look_store: "invar c \<Longrightarrow> 0 < d \<Longrightarrow> 0 < t + d \<Longrightarrow>
      look t' (store t c k v d) k' = (if k' = k then (if t' \<le> t + d then Some v else None) else look t' c k')"
    and look_gc: "invar c \<Longrightarrow> t \<le> t' \<Longrightarrow> look t' (gc t c) k = look t' c k"
    and invar_store: "invar c \<Longrightarrow> invar (store t c k v d)"
    and invar_gc: "invar c \<Longrightarrow> invar (gc t c)"
begin

text \<open>Any number of collections, at times up to \<open>t\<close>, leave every answer from \<open>t\<close> on as it was.\<close>

lemma look_gcs: "invar c \<Longrightarrow> \<forall>s \<in> set ts. s \<le> t \<Longrightarrow> look t (foldr gc ts c) k = look t c k \<and> invar (foldr gc ts c)"
  by (induction ts) (auto simp: look_gc invar_gc)

lemma store_gcs_look:
  assumes "invar c" "0 < d" "0 < t + d" "\<forall>s \<in> set ts. s \<le> t'"
  shows "look t' (foldr gc ts (store t c k v d)) k = (if t' \<le> t + d then Some v else None)"
  using look_gcs [OF invar_store [OF assms(1)] assms(4)] look_store [OF assms(1-3)] by simp

end

definition cache_ok :: "'a Cache \<Rightarrow> bool" where
  "cache_ok c \<longleftrightarrow> gm_ok (c_items c)"

lemma DeleteExpired_fold:
  assumes "gm_ok xs"
  shows "gm_get (c_items (foldl (\<lambda>c (k, v).
        if Expiration v > 0 \<and> now > Expiration v then c\<lparr>c_items := gm_del k (c_items c)\<rparr> else c) c xs)) k =
    (case map_of xs k of
       Some v \<Rightarrow> if Expiration v > 0 \<and> now > Expiration v then None else gm_get (c_items c) k
     | None \<Rightarrow> gm_get (c_items c) k)"
  using assms
proof (induction xs arbitrary: c)
  case (Cons x xs)
  obtain k' v where x: "x = (k', v)" by force
  have "k = k' \<Longrightarrow> map_of xs k = None" using Cons.prems x by (auto simp: map_of_eq_None_iff)
  with Cons x show ?case by (auto split: option.split)
qed simp

lemma get_DeleteExpired:
  assumes "cache_ok c"
  shows "gm_get (c_items (cache_DeleteExpired now c)) k =
    (case gm_get (c_items c) k of
       Some v \<Rightarrow> if Expiration v > 0 \<and> now > Expiration v then None else Some v | None \<Rightarrow> None)"
  using assms DeleteExpired_fold [of "c_items c" now c k]
  by (auto simp: cache_DeleteExpired_def cache_ok_def split: option.splits)

lemma cache_ok_gc: "cache_ok c \<Longrightarrow> cache_ok (cache_DeleteExpired now c)"
proof -
  have "cache_ok c \<Longrightarrow> cache_ok (foldl (\<lambda>c (k, v).
        if Expiration v > 0 \<and> now > Expiration v then c\<lparr>c_items := gm_del k (c_items c)\<rparr> else c) c xs)" for xs
    by (induction xs arbitrary: c) (auto simp: cache_ok_def gm_ok_del)
  then show "cache_ok c \<Longrightarrow> cache_ok (cache_DeleteExpired now c)" by (simp add: cache_DeleteExpired_def)
qed

interpretation exp: expiring_store cache_Get cache_Set cache_DeleteExpired cache_ok
proof
  fix c :: "'a Cache" and t t' d :: int and k k' v
  assume "0 < d" "0 < t + d"
  then show "cache_Get t' (cache_Set t c k v d) k' =
      (if k' = k then if t' \<le> t + d then Some v else None else cache_Get t' c k')"
    by (auto simp: cache_Get_def cache_Set_def defaultExpiration_def IsExpired_def Let_def)
next
  fix c :: "'a Cache" and t t' :: int and k
  assume "cache_ok c" "t \<le> t'"
  then show "cache_Get t' (cache_DeleteExpired t c) k = cache_Get t' c k"
    by (auto simp: cache_Get_def get_DeleteExpired IsExpired_def split: option.split)
next
  fix c :: "'a Cache" and t d :: int and k v
  assume "cache_ok c"
  then show "cache_ok (cache_Set t c k v d)" by (auto simp: cache_ok_def cache_Set_def Let_def gm_ok_put)
next
  fix c :: "'a Cache" and t
  assume "cache_ok c"
  then show "cache_ok (cache_DeleteExpired t c)" by (rule cache_ok_gc)
qed

text \<open>\<^verbatim>\<open>Add\<close> and \<^verbatim>\<open>Replace\<close> split on whether a live item exists, and store like \<^verbatim>\<open>Set\<close>.\<close>

lemma Add_Replace_cases:
  "cache_Add now c k v d =
     (if cache_Get now c k = None then Inr (cache_Set now c k v d) else Inl (Err ''Item already exists''))"
  "cache_Replace now c k v d =
     (if cache_Get now c k = None then Inl (Err ''Item does not exist'') else Inr (cache_Set now c k v d))"
  by (auto simp: cache_Add_def cache_Replace_def cache_Get_def cache_get_def cache_set_def cache_Set_def
      split: option.split)

end
