(* ===== verification/TxFlags.thy ===== *)
theory TxFlags
  imports GoLib
begin

text \<open>
  \<^verbatim>\<open>core/ledger/util/txvalidationflags.go\<close>: the validation codes of the transactions of a block.
  The codes of \<^verbatim>\<open>peer.TxValidationCode\<close> that the sources name are constructors; a byte that is
  none of them is an \<open>OtherCode\<close>. The zero byte is \<open>VALID\<close>. The slice of flags is shared with the
  block's metadata: a block carries the list, and an operation returns the list as it is after it.
\<close>

datatype TxValidationCode =
    VALID
  | NIL_ENVELOPE
  | BAD_PAYLOAD
  | BAD_COMMON_HEADER
  | BAD_CREATOR_SIGNATURE
  | INVALID_ENDORSER_TRANSACTION
  | INVALID_CONFIG_TRANSACTION
  | UNSUPPORTED_TX_PAYLOAD
  | BAD_PROPOSAL_TXID
  | DUPLICATE_TXID
  | ENDORSEMENT_POLICY_FAILURE
  | MVCC_READ_CONFLICT
  | PHANTOM_READ_CONFLICT
  | UNKNOWN_TX_TYPE
  | TARGET_CHAIN_NOT_FOUND
  | MARSHAL_TX_ERROR
  | NIL_TXACTION
  | EXPIRED_CHAINCODE
  | CHAINCODE_VERSION_CONFLICT
  | BAD_CHANNEL_HEADER
  | BAD_HEADER_EXTENSION
  | BAD_RESPONSE_PAYLOAD
  | BAD_RWSET
  | ILLEGAL_WRITESET
  | INVALID_OTHER_REASON
  | OtherCode nat

type_synonym TxValidationFlags = "TxValidationCode list"

definition NewTxValidationFlags :: "nat \<Rightarrow> TxValidationFlags" where
  "NewTxValidationFlags n = replicate n VALID"

definition SetFlag :: "TxValidationFlags \<Rightarrow> nat \<Rightarrow> TxValidationCode \<Rightarrow> TxValidationFlags res" where
  "SetFlag obj txIndex flag =
     (if txIndex < length obj then Inr (obj[txIndex := flag]) else Inl (Panic ''index out of range''))"

definition Flag :: "TxValidationFlags \<Rightarrow> nat \<Rightarrow> TxValidationCode res" where
  "Flag obj txIndex = index_at obj txIndex"

definition IsSetTo :: "TxValidationFlags \<Rightarrow> nat \<Rightarrow> TxValidationCode \<Rightarrow> bool res" where
  "IsSetTo obj txIndex flag = res_bind (Flag obj txIndex) (\<lambda>f. Inr (f = flag))"

definition IsValid :: "TxValidationFlags \<Rightarrow> nat \<Rightarrow> bool res" where
  "IsValid obj txIndex = IsSetTo obj txIndex VALID"

definition IsInvalid :: "TxValidationFlags \<Rightarrow> nat \<Rightarrow> bool res" where
  "IsInvalid obj txIndex = res_bind (IsValid obj txIndex) (\<lambda>b. Inr (\<not> b))"

lemma Flag_simps [simp]:
  "i < length fs \<Longrightarrow> Flag fs i = Inr (fs ! i)"
  "i < length fs \<Longrightarrow> SetFlag fs i c = Inr (fs[i := c])"
  "i < length fs \<Longrightarrow> IsInvalid fs i = Inr (fs ! i \<noteq> VALID)"
  "i < length fs \<Longrightarrow> IsValid fs i = Inr (fs ! i = VALID)"
  by (simp_all add: Flag_def SetFlag_def IsInvalid_def IsValid_def IsSetTo_def index_at_def)

end
