(* ===== verification/RWSet.thy ===== *)
theory RWSet
  imports StateDB
begin

text \<open>
  \<^verbatim>\<open>core/ledger/kvledger/txmgmt/rwsetutil/rwset_builder.go\<close> and \<^verbatim>\<open>rwset_proto_util.go\<close>: the
  read-write set a transaction simulation collects, its canonical (sorted) form, and its
  conversion to and from protobuf bytes.

  The protobuf messages of \<^verbatim>\<open>protos/ledger/rwset\<close> are records of the fields the code reads and
  writes. \<^verbatim>\<open>proto.Marshal\<close> and \<^verbatim>\<open>proto.Unmarshal\<close> are parameters (the record \<open>rw_codec\<close>); what
  is relied on is that unmarshalling gives back what was marshalled, except that proto3 does not
  carry an empty, non-nil byte field (locale \<open>rw_codec_ok\<close>).
\<close>

datatype ProtoVersion = ProtoVersion (pv_BlockNum: u64) (pv_TxNum: u64)

record KVRead =
  rd_Key :: bytes
  rd_Version :: "ProtoVersion option"

record KVWrite =
  wr_Key :: bytes
  wr_IsDelete :: bool
  wr_Value :: slice

record MerkleSummary =
  ms_MaxDegree :: u32
  ms_MaxLevel :: nat
  ms_MaxLevelHashes :: "bytes list"

datatype ReadsInfo = NoReads | RawReads "KVRead list" | MerkleReads MerkleSummary

record RangeQueryInfo =
  rq_StartKey :: bytes
  rq_EndKey :: bytes
  rq_ItrExhausted :: bool
  rq_ReadsInfo :: ReadsInfo

record KVRWSet =
  kvrw_Reads :: "KVRead list"
  kvrw_Writes :: "KVWrite list"
  kvrw_RangeQueriesInfo :: "RangeQueryInfo list"

record NsRwSet =
  NameSpace :: bytes
  KvRwSet :: KVRWSet

type_synonym TxRwSet = "NsRwSet list"

definition NewVersion :: "ProtoVersion option \<Rightarrow> Height option" where
  "NewVersion v = (case v of None \<Rightarrow> None | Some p \<Rightarrow> Some (NewHeight (pv_BlockNum p) (pv_TxNum p)))"

definition newProtoVersion :: "Height option \<Rightarrow> ProtoVersion option" where
  "newProtoVersion h = (case h of None \<Rightarrow> None | Some h \<Rightarrow> Some (ProtoVersion (BlockNum h) (TxNum h)))"

definition NewKVRead :: "bytes \<Rightarrow> Height option \<Rightarrow> KVRead" where
  "NewKVRead key version = \<lparr>rd_Key = key, rd_Version = newProtoVersion version\<rparr>"

definition newKVWrite :: "bytes \<Rightarrow> slice \<Rightarrow> KVWrite" where
  "newKVWrite key value = \<lparr>wr_Key = key, wr_IsDelete = (value = None), wr_Value = value\<rparr>"

section \<open>The builder\<close>

record rangeQueryKey =
  rqk_startKey :: bytes
  rqk_endKey :: bytes
  rqk_itrExhausted :: bool

record nsRWs =
  readMap :: "(bytes, KVRead) gomap"
  writeMap :: "(bytes, KVWrite) gomap"
  rangeQueriesMap :: "(rangeQueryKey, RangeQueryInfo) gomap"
  rangeQueriesKeys :: "rangeQueryKey list"

type_synonym RWSetBuilder = "(bytes, nsRWs) gomap"

definition newNsRWs :: nsRWs where
  "newNsRWs = \<lparr>readMap = [], writeMap = [], rangeQueriesMap = [], rangeQueriesKeys = []\<rparr>"

definition NewRWSetBuilder :: RWSetBuilder where
  "NewRWSetBuilder = []"

definition getOrCreateNsRW :: "RWSetBuilder \<Rightarrow> bytes \<Rightarrow> RWSetBuilder \<times> nsRWs" where
  "getOrCreateNsRW rws ns =
     (case gm_get rws ns of
        Some n \<Rightarrow> (rws, n)
      | None \<Rightarrow> (gm_put ns newNsRWs rws, newNsRWs))"

definition AddToReadSet :: "RWSetBuilder \<Rightarrow> bytes \<Rightarrow> bytes \<Rightarrow> Height option \<Rightarrow> RWSetBuilder" where
  "AddToReadSet rws ns key version =
     (let (rws, n) = getOrCreateNsRW rws ns
      in gm_put ns (n\<lparr>readMap := gm_put key (NewKVRead key version) (readMap n)\<rparr>) rws)"

definition AddToWriteSet :: "RWSetBuilder \<Rightarrow> bytes \<Rightarrow> bytes \<Rightarrow> slice \<Rightarrow> RWSetBuilder" where
  "AddToWriteSet rws ns key value =
     (let (rws, n) = getOrCreateNsRW rws ns
      in gm_put ns (n\<lparr>writeMap := gm_put key (newKVWrite key value) (writeMap n)\<rparr>) rws)"

definition AddToRangeQuerySet :: "RWSetBuilder \<Rightarrow> bytes \<Rightarrow> RangeQueryInfo \<Rightarrow> RWSetBuilder" where
  "AddToRangeQuerySet rws ns rqi =
     (let (rws, n) = getOrCreateNsRW rws ns;
          key = \<lparr>rqk_startKey = rq_StartKey rqi, rqk_endKey = rq_EndKey rqi,
                 rqk_itrExhausted = rq_ItrExhausted rqi\<rparr>
      in case gm_get (rangeQueriesMap n) key of
           Some _ \<Rightarrow> rws
         | None \<Rightarrow> gm_put ns (n\<lparr>rangeQueriesMap := gm_put key rqi (rangeQueriesMap n),
                               rangeQueriesKeys := rangeQueriesKeys n @ [key]\<rparr>) rws)"

definition GetTxReadWriteSet :: "RWSetBuilder \<Rightarrow> TxRwSet" where
  "GetTxReadWriteSet rws =
     List.map_filter (\<lambda>ns.
       case gm_get rws ns of
         None \<Rightarrow> None
       | Some n \<Rightarrow>
           Some \<lparr>NameSpace = ns,
                 KvRwSet = \<lparr>kvrw_Reads = List.map_filter (gm_get (readMap n)) (GetSortedKeys (readMap n)),
                            kvrw_Writes = List.map_filter (gm_get (writeMap n)) (GetSortedKeys (writeMap n)),
                            kvrw_RangeQueriesInfo =
                              List.map_filter (gm_get (rangeQueriesMap n)) (rangeQueriesKeys n)\<rparr>\<rparr>)
       (GetSortedKeys rws)"

section \<open>Protobuf\<close>

record rw_codec =
  Marshal_KVRWSet :: "KVRWSet \<Rightarrow> bytes res"
  Unmarshal_KVRWSet :: "bytes \<Rightarrow> KVRWSet res"
  Marshal_TxReadWriteSet :: "(bytes \<times> bytes) list \<Rightarrow> bytes res"
  Unmarshal_TxReadWriteSet :: "bytes \<Rightarrow> (bytes \<times> bytes) list res"

definition ToProtoBytes :: "rw_codec \<Rightarrow> TxRwSet \<Rightarrow> bytes res" where
  "ToProtoBytes pc txRwSet =
     res_bind
       (foldM (\<lambda>nsRwset nsRwSet.
          res_bind (Marshal_KVRWSet pc (KvRwSet nsRwSet)) (\<lambda>protoRwSetBytes.
            Inr (nsRwset @ [(NameSpace nsRwSet, protoRwSetBytes)]))) [] txRwSet)
       (\<lambda>nsRwset. Marshal_TxReadWriteSet pc nsRwset)"

definition FromProtoBytes :: "rw_codec \<Rightarrow> bytes \<Rightarrow> TxRwSet res" where
  "FromProtoBytes pc protoBytes =
     res_bind (Unmarshal_TxReadWriteSet pc protoBytes) (\<lambda>protoNsRwSets.
       foldM (\<lambda>nsRwSets (ns, protoRwSetBytes).
         res_bind (Unmarshal_KVRWSet pc protoRwSetBytes) (\<lambda>kv.
           Inr (nsRwSets @ [\<lparr>NameSpace = ns, KvRwSet = kv\<rparr>]))) [] protoNsRwSets)"

text \<open>A read-write set that protobuf carries faithfully: no write of an empty, non-nil value.\<close>

definition no_empty_value :: "KVRWSet \<Rightarrow> bool" where
  "no_empty_value kv \<longleftrightarrow> (\<forall>w \<in> set (kvrw_Writes kv). wr_Value w \<noteq> Some [])"

locale rw_codec_ok =
  fixes pc :: rw_codec
  assumes kv_roundtrip: "no_empty_value kv \<Longrightarrow>
      Marshal_KVRWSet pc kv = Inr b \<Longrightarrow> Unmarshal_KVRWSet pc b = Inr kv"
    and tx_roundtrip: "Marshal_TxReadWriteSet pc nss = Inr b \<Longrightarrow>
      Unmarshal_TxReadWriteSet pc b = Inr nss"
begin

lemma marshal_fold:
  assumes "\<forall>n \<in> set t. no_empty_value (KvRwSet n)"
    and "foldM (\<lambda>nsRwset nsRwSet.
          res_bind (Marshal_KVRWSet pc (KvRwSet nsRwSet)) (\<lambda>protoRwSetBytes.
            Inr (nsRwset @ [(NameSpace nsRwSet, protoRwSetBytes)]))) acc t = Inr out"
  shows "\<exists>new. out = acc @ new \<and>
      foldM (\<lambda>nsRwSets (ns, protoRwSetBytes).
         res_bind (Unmarshal_KVRWSet pc protoRwSetBytes) (\<lambda>kv.
           Inr (nsRwSets @ [\<lparr>NameSpace = ns, KvRwSet = kv\<rparr>]))) acc' new = Inr (acc' @ t)"
  using assms
proof (induction t arbitrary: acc acc')
  case Nil
  then show ?case by simp
next
  case (Cons n t)
  then obtain b where b: "Marshal_KVRWSet pc (KvRwSet n) = Inr b"
    and rest: "foldM (\<lambda>nsRwset nsRwSet.
          res_bind (Marshal_KVRWSet pc (KvRwSet nsRwSet)) (\<lambda>protoRwSetBytes.
            Inr (nsRwset @ [(NameSpace nsRwSet, protoRwSetBytes)])))
        (acc @ [(NameSpace n, b)]) t = Inr out"
    by (auto simp: res_bind_Inr_conv)
  have u: "Unmarshal_KVRWSet pc b = Inr (KvRwSet n)"
    using kv_roundtrip [OF _ b] Cons.prems(1) by simp
  from Cons.IH [OF _ rest, of "acc' @ [n]"] Cons.prems(1)
  obtain new where "out = (acc @ [(NameSpace n, b)]) @ new"
    and "foldM (\<lambda>nsRwSets (ns, protoRwSetBytes).
         res_bind (Unmarshal_KVRWSet pc protoRwSetBytes) (\<lambda>kv.
           Inr (nsRwSets @ [\<lparr>NameSpace = ns, KvRwSet = kv\<rparr>]))) (acc' @ [n]) new
       = Inr ((acc' @ [n]) @ t)" by auto
  moreover have "res_bind (Unmarshal_KVRWSet pc b) (\<lambda>kv.
      Inr (acc' @ [\<lparr>NameSpace = NameSpace n, KvRwSet = kv\<rparr>])) = Inr (acc' @ [n])"
    using u by (cases n) simp
  ultimately show ?case by (intro exI [of _ "(NameSpace n, b) # new"]) simp
qed

lemma proto_roundtrip:
  assumes "\<forall>n \<in> set t. no_empty_value (KvRwSet n)" and "ToProtoBytes pc t = Inr b"
  shows "FromProtoBytes pc b = Inr t"
proof -
  from assms(2) obtain nss where
    nss: "foldM (\<lambda>nsRwset nsRwSet.
          res_bind (Marshal_KVRWSet pc (KvRwSet nsRwSet)) (\<lambda>protoRwSetBytes.
            Inr (nsRwset @ [(NameSpace nsRwSet, protoRwSetBytes)]))) [] t = Inr nss"
    and b: "Marshal_TxReadWriteSet pc nss = Inr b"
    by (auto simp: ToProtoBytes_def res_bind_Inr_conv)
  from marshal_fold [OF assms(1) nss, of "[]"] tx_roundtrip [OF b] show ?thesis
    by (auto simp: FromProtoBytes_def)
qed

end

section \<open>Lemmas on the builder\<close>

lemma version_roundtrip [simp]: "NewVersion (newProtoVersion h) = h"
  by (cases h) (simp_all add: NewVersion_def newProtoVersion_def)

definition ns_of :: "RWSetBuilder \<Rightarrow> bytes \<Rightarrow> nsRWs" where
  "ns_of rws ns = (case gm_get rws ns of None \<Rightarrow> newNsRWs | Some n \<Rightarrow> n)"

lemma getOrCreate_ns:
  assumes "getOrCreateNsRW rws ns = (rws', n)"
  shows "n = ns_of rws ns" and "ns_of rws' ns' = ns_of rws ns'"
    and "gm_get rws' ns' = (if ns' = ns then Some n else gm_get rws ns')"
  using assms by (auto simp: getOrCreateNsRW_def ns_of_def split: option.splits if_splits)

lemma ns_of_AddToReadSet:
  "ns_of (AddToReadSet rws ns key ver) ns' =
     (if ns' = ns then (ns_of rws ns)\<lparr>readMap := gm_put key (NewKVRead key ver) (readMap (ns_of rws ns))\<rparr>
      else ns_of rws ns')"
proof -
  obtain r n where g: "getOrCreateNsRW rws ns = (r, n)" by force
  show ?thesis
    using getOrCreate_ns(3) [OF g] getOrCreate_ns(1) [OF g]
    by (simp add: AddToReadSet_def g) (simp add: ns_of_def)
qed

lemma ns_of_AddToWriteSet:
  "ns_of (AddToWriteSet rws ns key v) ns' =
     (if ns' = ns then (ns_of rws ns)\<lparr>writeMap := gm_put key (newKVWrite key v) (writeMap (ns_of rws ns))\<rparr>
      else ns_of rws ns')"
proof -
  obtain r n where g: "getOrCreateNsRW rws ns = (r, n)" by force
  show ?thesis
    using getOrCreate_ns(3) [OF g] getOrCreate_ns(1) [OF g]
    by (simp add: AddToWriteSet_def g) (simp add: ns_of_def)
qed

end
