(* ===== verification/RangeQuery.thy ===== *)
theory RangeQuery
  imports RWSet
begin

text \<open>
  \<^verbatim>\<open>core/ledger/kvledger/txmgmt/validator/statebasedval/combined_iterator.go\<close> and the raw half of
  \<^verbatim>\<open>range_query_validator.go\<close>: the iterator over the state database overlaid with the updates of
  the preceding transactions of a block, and the comparison of a recorded range query with it.

  The main results: the combined iterator never fails on a well-behaved database and yields, in
  key order, exactly the live entries of the overlay in the queried range (it is an instance of
  the locale \<open>results_iterator\<close>), and the raw validator accepts exactly when the recorded reads are
  those entries with their versions.
\<close>

record combinedIterator =
  ci_ns :: bytes
  ci_db :: versionedDB
  ci_updates :: UpdateBatch
  ci_endKey :: bytes
  ci_includeEndKey :: bool
  ci_dbItr :: db_iterator
  ci_updatesItr :: nsIterator
  ci_dbItem :: "VersionedKV option"
  ci_updatesItem :: "VersionedKV option"
  ci_endKeyServed :: bool

definition newCombinedIterator ::
    "versionedDB \<Rightarrow> UpdateBatch \<Rightarrow> bytes \<Rightarrow> bytes \<Rightarrow> bytes \<Rightarrow> bool \<Rightarrow> combinedIterator res" where
  "newCombinedIterator db upd ns startKey endKey includeEndKey =
     res_bind (db_GetStateRangeScanIterator db ns startKey endKey) (\<lambda>dbItr.
     let updatesItr = newNsIterator ns startKey endKey upd in
     res_bind (db_Next dbItr) (\<lambda>(dbItr, dbItem).
     res_bind (nsIterator_Next updatesItr) (\<lambda>(updatesItr, updatesItem).
       Inr \<lparr>ci_ns = ns, ci_db = db, ci_updates = upd, ci_endKey = endKey,
            ci_includeEndKey = includeEndKey, ci_dbItr = dbItr, ci_updatesItr = updatesItr,
            ci_dbItem = dbItem, ci_updatesItem = updatesItem, ci_endKeyServed = False\<rparr>)))"

definition strings_Compare :: "bytes \<Rightarrow> bytes \<Rightarrow> int" where
  "strings_Compare a b = (if a = b then 0 else if a < b then -1 else 1)"

fun compareKeys :: "VersionedKV option \<Rightarrow> VersionedKV option \<Rightarrow> int" where
  "compareKeys None None = 0"
| "compareKeys None (Some _) = 1"
| "compareKeys (Some _) None = -1"
| "compareKeys (Some a) (Some b) = strings_Compare (kv_Key a) (kv_Key b)"

definition isDelete :: "VersionedKV \<Rightarrow> bool" where
  "isDelete kv \<longleftrightarrow> kv_Value kv = None"

definition serveEndKeyIfNeeded ::
    "combinedIterator \<Rightarrow> (combinedIterator \<times> VersionedKV option) res" where
  "serveEndKeyIfNeeded itr =
     (if \<not> ci_includeEndKey itr \<or> ci_endKeyServed itr then Inr (itr, None)
      else
        res_bind
          (case batch_Get (ci_updates itr) (ci_ns itr) (ci_endKey itr) of
             Some vv \<Rightarrow> Inr (Some vv)
           | None \<Rightarrow> db_GetState (ci_db itr) (ci_ns itr) (ci_endKey itr))
          (\<lambda>vv. let itr = itr\<lparr>ci_endKeyServed := True\<rparr> in
             case vv of
               None \<Rightarrow> Inr (itr, None)
             | Some vv \<Rightarrow>
                 let vkv = \<lparr>kv_Namespace = ci_ns itr, kv_Key = ci_endKey itr,
                            kv_Value = vv_Value vv, kv_Version = vv_Version vv\<rparr>
                 in if isDelete vkv then Inr (itr, None) else Inr (itr, Some vkv)))"

definition ci_moveDB :: "combinedIterator \<Rightarrow> combinedIterator res" where
  "ci_moveDB itr =
     res_bind (db_Next (ci_dbItr itr)) (\<lambda>(dbItr, dbItem).
       Inr (itr\<lparr>ci_dbItr := dbItr, ci_dbItem := dbItem\<rparr>))"

definition ci_moveUpdates :: "combinedIterator \<Rightarrow> combinedIterator res" where
  "ci_moveUpdates itr =
     res_bind (nsIterator_Next (ci_updatesItr itr)) (\<lambda>(updatesItr, updatesItem).
       Inr (itr\<lparr>ci_updatesItr := updatesItr, ci_updatesItem := updatesItem\<rparr>))"

text \<open>The selection of one \<^verbatim>\<open>Next\<close>: the smaller key, the update where the keys agree.\<close>

definition ci_select :: "combinedIterator \<Rightarrow> (combinedIterator \<times> VersionedKV option) res" where
  "ci_select itr =
     (let compResult = compareKeys (ci_dbItem itr) (ci_updatesItem itr) in
      if compResult = -1 then
        res_bind (ci_moveDB itr) (\<lambda>itr'. Inr (itr', ci_dbItem itr))
      else if compResult = 0 then
        res_bind (ci_moveDB itr) (\<lambda>itr'.
        res_bind (ci_moveUpdates itr') (\<lambda>itr''. Inr (itr'', ci_updatesItem itr)))
      else
        res_bind (ci_moveUpdates itr) (\<lambda>itr'. Inr (itr', ci_updatesItem itr)))"

definition ci_left :: "combinedIterator \<Rightarrow> nat" where
  "ci_left itr =
     length (ci_dbItr itr) + (if ci_dbItem itr = None then 0 else 1)
     + (itr_lastIndex (ci_updatesItr itr) - itr_nextIndex (ci_updatesItr itr))
     + (if ci_updatesItem itr = None then 0 else 1)"

lemma ci_moveDB_fields:
  assumes "ci_moveDB itr = Inr itr'"
  shows "ci_updatesItr itr' = ci_updatesItr itr" "ci_updatesItem itr' = ci_updatesItem itr"
    and "length (ci_dbItr itr') + (if ci_dbItem itr' = None then 0 else 1) \<le> length (ci_dbItr itr)"
  using assms
  by (cases "ci_dbItr itr" rule: db_items.cases;
      auto simp: ci_moveDB_def res_bind_Inr_conv)+

lemma ci_moveUpdates_fields:
  assumes "ci_moveUpdates itr = Inr itr'"
  shows "ci_dbItr itr' = ci_dbItr itr" "ci_dbItem itr' = ci_dbItem itr"
    and "itr_lastIndex (ci_updatesItr itr') - itr_nextIndex (ci_updatesItr itr')
           + (if ci_updatesItem itr' = None then 0 else 1)
         \<le> itr_lastIndex (ci_updatesItr itr) - itr_nextIndex (ci_updatesItr itr)"
  using assms
  by (auto simp: ci_moveUpdates_def nsIterator_Next_def res_bind_Inr_conv
      split: if_splits option.splits)

lemma compareKeys_cases:
  "compareKeys a b = -1 \<Longrightarrow> a \<noteq> None"
  "compareKeys a b = 0 \<Longrightarrow> a = None \<longleftrightarrow> b = None"
  "compareKeys a b \<noteq> -1 \<Longrightarrow> compareKeys a b \<noteq> 0 \<Longrightarrow> b \<noteq> None"
  by (cases "(a, b)" rule: compareKeys.cases; simp add: strings_Compare_def split: if_splits)+

lemma ci_select_less:
  assumes "ci_select itr = Inr (itr', sel)" and "\<not> (ci_dbItem itr = None \<and> ci_updatesItem itr = None)"
  shows "ci_left itr' < ci_left itr"
proof -
  consider "compareKeys (ci_dbItem itr) (ci_updatesItem itr) = -1"
    | "compareKeys (ci_dbItem itr) (ci_updatesItem itr) = 0"
    | "compareKeys (ci_dbItem itr) (ci_updatesItem itr) \<noteq> -1"
      "compareKeys (ci_dbItem itr) (ci_updatesItem itr) \<noteq> 0" by blast
  then show ?thesis
  proof cases
    case 1
    then have "ci_dbItem itr \<noteq> None" "ci_moveDB itr = Inr itr'"
      using assms(1) compareKeys_cases(1) by (auto simp: ci_select_def res_bind_Inr_conv)
    then show ?thesis using ci_moveDB_fields [of itr itr'] by (auto simp: ci_left_def split: if_splits)
  next
    case 2
    then have "ci_dbItem itr \<noteq> None" "ci_updatesItem itr \<noteq> None"
      using compareKeys_cases(2) assms(2) by blast+
    moreover obtain m where "ci_moveDB itr = Inr m" "ci_moveUpdates m = Inr itr'"
      using 2 assms(1) by (auto simp: ci_select_def res_bind_Inr_conv)
    ultimately show ?thesis
      using ci_moveDB_fields [of itr m] ci_moveUpdates_fields [of m itr']
      by (auto simp: ci_left_def split: if_splits)
  next
    case 3
    then have "ci_updatesItem itr \<noteq> None" "ci_moveUpdates itr = Inr itr'"
      using assms(1) compareKeys_cases(3) by (auto simp: ci_select_def res_bind_Inr_conv)
    then show ?thesis using ci_moveUpdates_fields [of itr itr'] by (auto simp: ci_left_def split: if_splits)
  qed
qed

text \<open>\<^verbatim>\<open>Next\<close> skips deleted entries by calling itself; every call moves an iterator.\<close>

function (sequential) ci_Next :: "combinedIterator \<Rightarrow> (combinedIterator \<times> VersionedKV option) res" where
  "ci_Next itr =
     (if ci_dbItem itr = None \<and> ci_updatesItem itr = None then serveEndKeyIfNeeded itr
      else
        res_bind (ci_select itr) (\<lambda>p.
          case snd p of
            None \<Rightarrow> Inl (Panic ''nil pointer dereference'')
          | Some sel \<Rightarrow> if isDelete sel then ci_Next (fst p) else Inr (fst p, Some sel)))"
  by pat_completeness auto
termination
  by (relation "measure ci_left") (auto dest: ci_select_less simp del: not_None_eq)

declare ci_Next.simps [simp del]

section \<open>Raw validation of a range query\<close>

definition convertToVersionHeight :: "ProtoVersion option \<Rightarrow> Height res" where
  "convertToVersionHeight v =
     (case v of None \<Rightarrow> Inl (Panic ''nil pointer dereference'')
      | Some v \<Rightarrow> Inr (NewHeight (pv_BlockNum v) (pv_TxNum v)))"

definition GetRawReads :: "RangeQueryInfo \<Rightarrow> KVRead list" where
  "GetRawReads rqi = (case rq_ReadsInfo rqi of RawReads rs \<Rightarrow> rs | _ \<Rightarrow> [])"

definition GetReadsMerkleHashes :: "RangeQueryInfo \<Rightarrow> MerkleSummary option" where
  "GetReadsMerkleHashes rqi = (case rq_ReadsInfo rqi of MerkleReads m \<Rightarrow> Some m | _ \<Rightarrow> None)"

fun raw_validate_loop ::
    "('i \<Rightarrow> ('i \<times> VersionedKV option) res) \<Rightarrow> 'i \<Rightarrow> VersionedKV option \<Rightarrow> KVRead list \<Rightarrow> bool res" where
  "raw_validate_loop nx itr result [] = Inr (result = None)"
| "raw_validate_loop nx itr result (kvRead # rest) =
     (case result of
        None \<Rightarrow> Inr False
      | Some versionedKV \<Rightarrow>
          if kv_Key versionedKV \<noteq> rd_Key kvRead then Inr False
          else
            res_bind (convertToVersionHeight (rd_Version kvRead)) (\<lambda>h.
              if \<not> AreSame (kv_Version versionedKV) (Some h) then Inr False
              else res_bind (nx itr) (\<lambda>(itr', result'). raw_validate_loop nx itr' result' rest)))"

definition raw_validate ::
    "('i \<Rightarrow> ('i \<times> VersionedKV option) res) \<Rightarrow> RangeQueryInfo \<Rightarrow> 'i \<Rightarrow> bool res" where
  "raw_validate nx rqInfo itr =
     (let rqResults = GetRawReads rqInfo in
      res_bind (nx itr) (\<lambda>(itr', result).
        if rqResults = [] then Inr (result = None)
        else raw_validate_loop nx itr' result rqResults))"

section \<open>A state database that behaves\<close>

definition dlook :: "versionedDB \<Rightarrow> bytes \<Rightarrow> bytes \<Rightarrow> VersionedValue option" where
  "dlook db ns k = (case db_GetState db ns k of Inr v \<Rightarrow> v | Inl _ \<Rightarrow> None)"

definition dscan :: "versionedDB \<Rightarrow> bytes \<Rightarrow> bytes \<Rightarrow> bytes \<Rightarrow> VersionedKV list" where
  "dscan db ns s e =
     (case db_GetStateRangeScanIterator db ns s e of Inr itr \<Rightarrow> db_items itr | Inl _ \<Rightarrow> [])"

text \<open>Reads succeed, stored values are not nil, and a range scan lists the stored keys of the range.\<close>

definition versionedDB_ok :: "versionedDB \<Rightarrow> bool" where
  "versionedDB_ok db \<longleftrightarrow>
     (\<forall>ns k. ns_ok ns \<longrightarrow> is_ok (db_GetState db ns k)) \<and>
     (\<forall>ns k vv. ns_ok ns \<longrightarrow> dlook db ns k = Some vv \<longrightarrow> vv_Value vv \<noteq> None) \<and>
     (\<forall>ns s e. ns_ok ns \<longrightarrow> (\<exists>kvs. db_GetStateRangeScanIterator db ns s e = Inr (map Inr kvs)
        \<and> strict_sorted (map kv_Key kvs)
        \<and> (\<forall>kv. kv \<in> set kvs \<longleftrightarrow> kv_Namespace kv = ns \<and> in_range s e (kv_Key kv)
             \<and> dlook db ns (kv_Key kv) = Some (vv_of kv))))"

interpretation vdb: range_source dlook dscan versionedDB_ok
proof
  fix db ns s e
  assume "versionedDB_ok db" "ns_ok ns"
  then show "strict_sorted (map kv_Key (dscan db ns s e))"
    unfolding versionedDB_ok_def dscan_def by (metis db_items_map(1) sum.simps(6))
next
  fix db ns kv s e
  assume "versionedDB_ok db" "ns_ok ns"
  then show "kv \<in> set (dscan db ns s e) \<longleftrightarrow> kv_Namespace kv = ns \<and> in_range s e (kv_Key kv)
      \<and> dlook db ns (kv_Key kv) = Some (vv_of kv)"
    unfolding versionedDB_ok_def dscan_def by (metis db_items_map(1) sum.simps(6))
qed

text \<open>The state as it will be once the batch is applied.\<close>

definition overlay ::
    "(bytes \<Rightarrow> bytes \<Rightarrow> VersionedValue option) \<Rightarrow> UpdateBatch \<Rightarrow> bytes \<Rightarrow> bytes \<Rightarrow> VersionedValue option" where
  "overlay look b ns k =
     (case batch_Get b ns k of
        None \<Rightarrow> look ns k
      | Some vv \<Rightarrow> if vv_Value vv = None then None else Some vv)"

section \<open>The combined iterator lists the overlay\<close>

fun merge_kv :: "VersionedKV list \<Rightarrow> VersionedKV list \<Rightarrow> VersionedKV list" where
  "merge_kv [] ys = ys"
| "merge_kv xs [] = xs"
| "merge_kv (x # xs) (y # ys) =
     (if kv_Key x < kv_Key y then x # merge_kv xs (y # ys)
      else if kv_Key x = kv_Key y then y # merge_kv xs ys
      else y # merge_kv (x # xs) ys)"

definition ci_dbside :: "combinedIterator \<Rightarrow> VersionedKV list" where
  "ci_dbside itr = (case ci_dbItem itr of None \<Rightarrow> [] | Some x \<Rightarrow> x # db_items (ci_dbItr itr))"

definition ci_updside :: "combinedIterator \<Rightarrow> VersionedKV list" where
  "ci_updside itr =
     (case ci_updatesItem itr of None \<Rightarrow> [] | Some x \<Rightarrow> x # nsIterator_items (ci_updatesItr itr))"

definition ci_enditems :: "combinedIterator \<Rightarrow> VersionedKV list" where
  "ci_enditems itr =
     (if \<not> ci_includeEndKey itr \<or> ci_endKeyServed itr then []
      else (case overlay (dlook (ci_db itr)) (ci_updates itr) (ci_ns itr) (ci_endKey itr) of
              None \<Rightarrow> [] | Some vv \<Rightarrow> [kv_of (ci_ns itr) (ci_endKey itr) vv]))"

definition ci_items :: "combinedIterator \<Rightarrow> VersionedKV list" where
  "ci_items itr =
     filter (\<lambda>kv. \<not> isDelete kv) (merge_kv (ci_dbside itr) (ci_updside itr)) @ ci_enditems itr"

definition ci_ok :: "combinedIterator \<Rightarrow> bool" where
  "ci_ok itr \<longleftrightarrow> versionedDB_ok (ci_db itr) \<and> ns_ok (ci_ns itr) \<and> db_iter_ok (ci_dbItr itr) \<and> nsIterator_ok (ci_updatesItr itr)
     \<and> (ci_dbItem itr = None \<longrightarrow> db_items (ci_dbItr itr) = [])
     \<and> (ci_updatesItem itr = None \<longrightarrow> nsIterator_items (ci_updatesItr itr) = [])"

lemma merge_kv_Nil [simp]: "merge_kv xs [] = xs"
  by (cases xs) simp_all

lemma ci_moveDB_ok:
  assumes "ci_ok itr"
  obtains itr' where "ci_moveDB itr = Inr itr'" "ci_ok itr'" "ci_dbside itr' = db_items (ci_dbItr itr)"
    "ci_updside itr' = ci_updside itr" "ci_enditems itr' = ci_enditems itr"
    "ci_updatesItem itr' = ci_updatesItem itr" "ci_updatesItr itr' = ci_updatesItr itr"
proof -
  have "db_iter_ok (ci_dbItr itr)" using assms by (simp add: ci_ok_def)
  then obtain i' r where "db_Next (ci_dbItr itr) = Inr (i', r)" "db_iter_ok i'"
    "db_items (ci_dbItr itr) = (case r of None \<Rightarrow> [] | Some x \<Rightarrow> x # db_items i')"
    "r = None \<longrightarrow> db_items i' = []" using dbi.next_ok by blast
  then show ?thesis
    using assms
    by (intro that [of "itr\<lparr>ci_dbItr := i', ci_dbItem := r\<rparr>"]; cases r)
      (auto simp: ci_moveDB_def ci_ok_def ci_dbside_def ci_updside_def ci_enditems_def
        cong: option.case_cong)
qed

lemma ci_moveUpdates_ok:
  assumes "ci_ok itr"
  obtains itr' where "ci_moveUpdates itr = Inr itr'" "ci_ok itr'"
    "ci_updside itr' = nsIterator_items (ci_updatesItr itr)"
    "ci_dbside itr' = ci_dbside itr" "ci_enditems itr' = ci_enditems itr"
proof -
  have "nsIterator_ok (ci_updatesItr itr)" using assms by (simp add: ci_ok_def)
  then obtain i' r where "nsIterator_Next (ci_updatesItr itr) = Inr (i', r)" "nsIterator_ok i'"
    "nsIterator_items (ci_updatesItr itr) = (case r of None \<Rightarrow> [] | Some x \<Rightarrow> x # nsIterator_items i')"
    "r = None \<longrightarrow> nsIterator_items i' = []" using nsi.next_ok by blast
  then show ?thesis
    using assms
    by (intro that [of "itr\<lparr>ci_updatesItr := i', ci_updatesItem := r\<rparr>"]; cases r)
      (auto simp: ci_moveUpdates_def ci_ok_def ci_dbside_def ci_updside_def ci_enditems_def
        cong: option.case_cong)
qed

lemma ci_select_ok:
  assumes ok: "ci_ok itr" and some: "\<not> (ci_dbItem itr = None \<and> ci_updatesItem itr = None)"
  obtains itr' sel where "ci_select itr = Inr (itr', Some sel)" "ci_ok itr'"
    "merge_kv (ci_dbside itr) (ci_updside itr) = sel # merge_kv (ci_dbside itr') (ci_updside itr')"
    "ci_enditems itr' = ci_enditems itr"
proof -
  obtain d where d: "ci_moveDB itr = Inr d" "ci_ok d" "ci_dbside d = db_items (ci_dbItr itr)"
    "ci_updside d = ci_updside itr" "ci_enditems d = ci_enditems itr"
    "ci_updatesItem d = ci_updatesItem itr" "ci_updatesItr d = ci_updatesItr itr"
    using ci_moveDB_ok [OF ok] by blast
  obtain u where u: "ci_moveUpdates itr = Inr u" "ci_ok u"
    "ci_updside u = nsIterator_items (ci_updatesItr itr)"
    "ci_dbside u = ci_dbside itr" "ci_enditems u = ci_enditems itr"
    using ci_moveUpdates_ok [OF ok] by blast
  obtain b where b: "ci_moveUpdates d = Inr b" "ci_ok b"
    "ci_updside b = nsIterator_items (ci_updatesItr itr)"
    "ci_dbside b = db_items (ci_dbItr itr)" "ci_enditems b = ci_enditems itr"
    using ci_moveUpdates_ok [OF d(2)] d by metis
  show ?thesis
  proof (cases "ci_dbItem itr")
    case None
    then obtain y where y: "ci_updatesItem itr = Some y" using some by auto
    with None u show ?thesis
      by (intro that [of u y]) (auto simp: ci_select_def ci_dbside_def ci_updside_def)
  next
    case (Some x)
    show ?thesis
    proof (cases "ci_updatesItem itr")
      case None
      with Some d show ?thesis
        by (intro that [of d x]) (auto simp: ci_select_def ci_dbside_def ci_updside_def)
    next
      case y: (Some y)
      consider "kv_Key x < kv_Key y" | "kv_Key x = kv_Key y" | "kv_Key y < kv_Key x"
        by (rule linorder_cases)
      then show ?thesis
      proof cases
        case 1
        with Some y d show ?thesis
          by (intro that [of d x])
            (auto simp: ci_select_def ci_dbside_def ci_updside_def strings_Compare_def)
      next
        case 2
        with Some y d b show ?thesis
          by (intro that [of b y])
            (auto simp: ci_select_def ci_dbside_def ci_updside_def strings_Compare_def)
      next
        case 3
        with Some y u show ?thesis
          by (intro that [of u y])
            (auto simp: ci_select_def ci_dbside_def ci_updside_def strings_Compare_def)
      qed
    qed
  qed
qed

lemma versionedDB_get: "versionedDB_ok db \<Longrightarrow> ns_ok ns \<Longrightarrow> db_GetState db ns k = Inr (dlook db ns k)"
proof -
  assume "versionedDB_ok db" "ns_ok ns"
  then have "is_ok (db_GetState db ns k)" unfolding versionedDB_ok_def by blast
  then show ?thesis by (cases "db_GetState db ns k") (simp_all add: dlook_def)
qed

lemma versionedDB_value: "versionedDB_ok db \<Longrightarrow> ns_ok ns \<Longrightarrow> dlook db ns k = Some vv \<Longrightarrow> vv_Value vv \<noteq> None"
  by (simp add: versionedDB_ok_def)

lemma serveEndKey_ok:
  assumes "ci_ok itr" "ci_dbItem itr = None" "ci_updatesItem itr = None"
  obtains itr' where "serveEndKeyIfNeeded itr =
      Inr (itr', case ci_enditems itr of [] \<Rightarrow> None | x # _ \<Rightarrow> Some x)"
    "ci_ok itr'" "ci_items itr' = []" "ci_items itr = ci_enditems itr"
proof (cases "ci_includeEndKey itr \<and> \<not> ci_endKeyServed itr")
  case True
  let ?i = "itr\<lparr>ci_endKeyServed := True\<rparr>"
  have db: "versionedDB_ok (ci_db itr)" "ns_ok (ci_ns itr)" using assms(1) by (simp_all add: ci_ok_def)
  show ?thesis
    using assms True versionedDB_get [OF db] versionedDB_value [OF db, of "ci_endKey itr"]
    by (intro that [of ?i])
      (auto simp: serveEndKeyIfNeeded_def ci_enditems_def ci_ok_def ci_items_def ci_dbside_def
        ci_updside_def overlay_def kv_of_def isDelete_def split: option.split)
next
  case False
  with assms show ?thesis
    by (intro that [of itr])
      (auto simp: serveEndKeyIfNeeded_def ci_enditems_def ci_items_def ci_dbside_def ci_updside_def)
qed

lemma ci_Next_ok:
  assumes "ci_ok itr"
  shows "\<exists>itr'. ci_Next itr = Inr (itr', case ci_items itr of [] \<Rightarrow> None | x # _ \<Rightarrow> Some x)
     \<and> ci_items itr' = tl (ci_items itr) \<and> ci_ok itr'"
  using assms
proof (induction itr rule: ci_Next.induct)
  case (1 itr)
  show ?case
  proof (cases "ci_dbItem itr = None \<and> ci_updatesItem itr = None")
    case True
    then obtain itr' where s: "serveEndKeyIfNeeded itr =
        Inr (itr', case ci_enditems itr of [] \<Rightarrow> None | x # _ \<Rightarrow> Some x)"
      "ci_ok itr'" "ci_items itr' = []" "ci_items itr = ci_enditems itr"
      using serveEndKey_ok [OF "1.prems"] by blast
    moreover have "tl (ci_enditems itr) = []" by (auto simp: ci_enditems_def split: option.split)
    ultimately show ?thesis using True by (simp add: ci_Next.simps [of itr])
  next
    case False
    then obtain itr' sel where sel: "ci_select itr = Inr (itr', Some sel)" "ci_ok itr'"
      "merge_kv (ci_dbside itr) (ci_updside itr) = sel # merge_kv (ci_dbside itr') (ci_updside itr')"
      "ci_enditems itr' = ci_enditems itr"
      using ci_select_ok [OF "1.prems"] by blast
    show ?thesis
    proof (cases "isDelete sel")
      case True
      have "ci_Next itr = ci_Next itr'" "ci_items itr = ci_items itr'"
        using False sel True by (auto simp: ci_Next.simps [of itr] ci_items_def)
      then show ?thesis using "1.IH" [OF False sel(1) _ True] sel(2) by simp
    next
      case live: False
      with False sel show ?thesis by (auto simp: ci_Next.simps [of itr] ci_items_def)
    qed
  qed
qed

interpretation comb: results_iterator ci_Next ci_items ci_ok
proof
  fix i assume "ci_ok i" "ci_items i = []"
  with ci_Next_ok [of i]
  show "\<exists>i'. ci_Next i = Inr (i', None) \<and> ci_items i' = [] \<and> ci_ok i'" by auto
next
  fix i kv kvs assume "ci_ok i" "ci_items i = kv # kvs"
  with ci_Next_ok [of i]
  show "\<exists>i'. ci_Next i = Inr (i', Some kv) \<and> ci_items i' = kvs \<and> ci_ok i'" by auto
qed

lemma merge_kv_keys: "kv_Key ` set (merge_kv xs ys) = kv_Key ` set xs \<union> kv_Key ` set ys"
  by (induction xs ys rule: merge_kv.induct) auto

lemma merge_kv_sorted:
  "strict_sorted (map kv_Key xs) \<Longrightarrow> strict_sorted (map kv_Key ys) \<Longrightarrow>
   strict_sorted (map kv_Key (merge_kv xs ys))"
proof (induction xs ys rule: merge_kv.induct)
  case (3 x xs y ys)
  have keys: "\<And>xs ys k. k \<in> set (merge_kv xs ys) \<Longrightarrow> kv_Key k \<in> kv_Key ` set xs \<union> kv_Key ` set ys"
    using merge_kv_keys by blast
  from 3 show ?case
    by (auto dest!: keys) (metis order.strict_trans linorder_neqE)+
qed simp_all

lemma merge_kv_mem:
  "strict_sorted (map kv_Key xs) \<Longrightarrow> strict_sorted (map kv_Key ys) \<Longrightarrow>
   kv \<in> set (merge_kv xs ys) \<longleftrightarrow> kv \<in> set ys \<or> kv \<in> set xs \<and> kv_Key kv \<notin> kv_Key ` set ys"
proof (induction xs ys rule: merge_kv.induct)
  case (3 x xs y ys)
  have sx: "\<And>k. k \<in> set xs \<Longrightarrow> kv_Key x < kv_Key k" and sy: "\<And>k. k \<in> set ys \<Longrightarrow> kv_Key y < kv_Key k"
    and tails: "strict_sorted (map kv_Key xs)" "strict_sorted (map kv_Key ys)"
    using "3.prems" by auto
  consider "kv_Key x < kv_Key y" | "kv_Key x = kv_Key y" | "kv_Key y < kv_Key x"
    by (rule linorder_cases)
  then show ?case
  proof cases
    case 1
    then have "kv_Key x \<notin> kv_Key ` set (y # ys)" using sy by (fastforce dest: order.strict_trans)
    with 1 "3.IH"(1) [OF 1 tails(1) "3.prems"(2)] show ?thesis by auto
  next
    case 2
    then have "kv_Key k \<noteq> kv_Key y" if "k \<in> set xs" for k using sx that by force
    with 2 "3.IH"(2) [OF _ 2 tails] show ?thesis by auto
  next
    case 3
    then have "kv_Key k \<noteq> kv_Key y" if "k \<in> set (x # xs)" for k using sx that by force
    with 3 "3.IH"(3) [OF _ _ "3.prems"(1) tails(2)] show ?thesis by auto
  qed
qed auto

lemma newCombinedIterator_ok:
  assumes "versionedDB_ok db" "ns_ok ns"
  obtains itr where "newCombinedIterator db b ns s e incl = Inr itr" "ci_ok itr"
    "ci_items itr = filter (\<lambda>kv. \<not> isDelete kv) (merge_kv (dscan db ns s e) (batch_scan b ns s e)) @
       (if incl then (case overlay (dlook db) b ns e of None \<Rightarrow> [] | Some vv \<Rightarrow> [kv_of ns e vv]) else [])"
proof -
  obtain kvs where kvs: "db_GetStateRangeScanIterator db ns s e = Inr (map Inr kvs)"
    using assms unfolding versionedDB_ok_def by blast
  then have dk: "dscan db ns s e = kvs" by (simp add: dscan_def)
  obtain d r where d: "db_Next (map Inr kvs) = Inr (d, r)" "db_iter_ok d"
    "kvs = (case r of None \<Rightarrow> [] | Some x \<Rightarrow> x # db_items d)" "r = None \<longrightarrow> db_items d = []"
    using dbi.next_ok [of "map Inr kvs"] by auto
  obtain u q where u: "nsIterator_Next (newNsIterator ns s e b) = Inr (u, q)" "nsIterator_ok u"
    "batch_scan b ns s e = (case q of None \<Rightarrow> [] | Some x \<Rightarrow> x # nsIterator_items u)"
    "q = None \<longrightarrow> nsIterator_items u = []"
    using nsi.next_ok [OF newNsIterator_ok] unfolding batch_scan_def by blast
  let ?i = "\<lparr>ci_ns = ns, ci_db = db, ci_updates = b, ci_endKey = e, ci_includeEndKey = incl,
      ci_dbItr = d, ci_updatesItr = u, ci_dbItem = r, ci_updatesItem = q, ci_endKeyServed = False\<rparr>"
  show ?thesis
  proof (rule that [of ?i])
    show "newCombinedIterator db b ns s e incl = Inr ?i"
      using kvs d(1) u(1) by (simp add: newCombinedIterator_def)
    show "ci_ok ?i" using assms d u by (simp add: ci_ok_def)
    show "ci_items ?i =
      filter (\<lambda>kv. \<not> isDelete kv) (merge_kv (dscan db ns s e) (batch_scan b ns s e)) @
       (if incl then (case overlay (dlook db) b ns e of None \<Rightarrow> [] | Some vv \<Rightarrow> [kv_of ns e vv]) else [])"
      using d(3) u(3) dk
      by (simp add: ci_items_def ci_dbside_def ci_updside_def ci_enditems_def cong: option.case_cong)
  qed
qed

text \<open>Membership in the live part of the merge is liveness in the overlay.\<close>

lemma merge_overlay_mem:
  assumes "versionedDB_ok db" "batch_ok b" "ns_ok ns"
  shows "kv \<in> set (filter (\<lambda>kv. \<not> isDelete kv) (merge_kv (dscan db ns s e) (batch_scan b ns s e))) \<longleftrightarrow>
    kv_Namespace kv = ns \<and> in_range s e (kv_Key kv) \<and> overlay (dlook db) b ns (kv_Key kv) = Some (vv_of kv)"
proof -
  note D = vdb.scan_mem [OF assms(1,3)] and B = bsrc.scan_mem [OF assms(2,3)]
  have inB: "kv_Key kv \<in> kv_Key ` set (batch_scan b ns s e) \<longleftrightarrow>
      in_range s e (kv_Key kv) \<and> batch_Get b ns (kv_Key kv) \<noteq> None"
  proof
    assume "in_range s e (kv_Key kv) \<and> batch_Get b ns (kv_Key kv) \<noteq> None"
    then obtain vv where "in_range s e (kv_Key kv)" "batch_Get b ns (kv_Key kv) = Some vv" by auto
    then have "kv_of ns (kv_Key kv) vv \<in> set (batch_scan b ns s e)" by (simp add: B)
    then show "kv_Key kv \<in> kv_Key ` set (batch_scan b ns s e)" by (metis image_eqI kv_of_simps(2))
  qed (auto simp: B)
  have val: "dlook db ns (kv_Key kv) = Some (vv_of kv) \<Longrightarrow> kv_Value kv \<noteq> None"
    using versionedDB_value [OF assms(1,3)] by (fastforce simp: vv_of_def)
  show ?thesis
    using val
    by (auto simp: merge_kv_mem [OF vdb.scan_sorted [OF assms(1,3)] bsrc.scan_sorted [OF assms(2,3)]]
        B D inB isDelete_def overlay_def vv_of_def split: option.splits if_splits)
qed

lemma combined_items_mem:
  assumes "versionedDB_ok db" "batch_ok b" "ns_ok ns" "incl \<longrightarrow> e \<noteq> []"
    and "kvs = filter (\<lambda>kv. \<not> isDelete kv) (merge_kv (dscan db ns s e) (batch_scan b ns s e)) @
       (if incl then (case overlay (dlook db) b ns e of None \<Rightarrow> [] | Some vv \<Rightarrow> [kv_of ns e vv]) else [])"
  shows "strict_sorted (map kv_Key kvs)"
    and "kv \<in> set kvs \<longleftrightarrow> kv_Namespace kv = ns \<and> (in_range s e (kv_Key kv) \<or> incl \<and> kv_Key kv = e)
      \<and> overlay (dlook db) b ns (kv_Key kv) = Some (vv_of kv)"
proof -
  let ?m = "filter (\<lambda>kv. \<not> isDelete kv) (merge_kv (dscan db ns s e) (batch_scan b ns s e))"
  have sm: "strict_sorted (map kv_Key ?m)"
    using merge_kv_sorted [OF vdb.scan_sorted [OF assms(1,3)] bsrc.scan_sorted [OF assms(2,3)]]
    by (simp add: sorted_wrt_map sorted_wrt_filter)
  have below: "kv_Key k < e" if "incl" "k \<in> set ?m" for k
  proof -
    have "in_range s e (kv_Key k)" using merge_overlay_mem [OF assms(1,2,3)] that(2) by blast
    then show ?thesis using that(1) assms(4) by (simp add: in_range_def)
  qed
  define tail where "tail =
    (if incl then (case overlay (dlook db) b ns e of None \<Rightarrow> [] | Some vv \<Rightarrow> [kv_of ns e vv]) else [])"
  have "strict_sorted (map kv_Key tail)" "\<And>t. t \<in> set tail \<Longrightarrow> incl \<and> kv_Key t = e"
    by (cases "overlay (dlook db) b ns e"; cases incl; simp add: tail_def)+
  then have "strict_sorted (map kv_Key (?m @ tail))"
    unfolding map_append sorted_wrt_append set_map using sm below by blast
  then show "strict_sorted (map kv_Key kvs)" using assms(5) by (simp add: tail_def)
  have endk: "kv = kv_of ns e vv \<longleftrightarrow> kv_Namespace kv = ns \<and> kv_Key kv = e \<and> vv_of kv = vv" for vv
    by (metis kv_of_simps(1,2,5) kv_of_vv_of)
  have inT: "kv \<in> set tail \<longleftrightarrow> incl \<and> kv_Namespace kv = ns \<and> kv_Key kv = e
      \<and> overlay (dlook db) b ns e = Some (vv_of kv)"
    by (cases "overlay (dlook db) b ns e"; cases incl; simp add: tail_def endk) blast
  have "kv \<in> set kvs \<longleftrightarrow> kv \<in> set ?m \<or> kv \<in> set tail"
    unfolding assms(5) tail_def [symmetric] by simp
  then show "kv \<in> set kvs \<longleftrightarrow> kv_Namespace kv = ns \<and> (in_range s e (kv_Key kv) \<or> incl \<and> kv_Key kv = e)
      \<and> overlay (dlook db) b ns (kv_Key kv) = Some (vv_of kv)"
    unfolding merge_overlay_mem [OF assms(1,2,3)] inT by blast
qed

section \<open>Raw validation compares with the iterator\<close>

context results_iterator
begin

lemma raw_loop_spec:
  assumes "invar i" "r = None \<longrightarrow> items i = []" "\<forall>q \<in> set rs. rd_Version q \<noteq> None"
  shows "raw_validate_loop next_of i r rs = Inr
    (map (\<lambda>kv. (kv_Key kv, kv_Version kv)) (case r of None \<Rightarrow> [] | Some x \<Rightarrow> x # items i)
     = map (\<lambda>q. (rd_Key q, NewVersion (rd_Version q))) rs)"
  using assms
proof (induction rs arbitrary: i r)
  case Nil
  then show ?case by (auto split: option.split)
next
  case (Cons q rs)
  obtain v where v: "rd_Version q = Some v" using Cons.prems(3) by auto
  show ?case
  proof (cases r)
    case None
    then show ?thesis by simp
  next
    case (Some x)
    obtain i' r' where n: "next_of i = Inr (i', r')" "invar i'"
      "items i = (case r' of None \<Rightarrow> [] | Some x \<Rightarrow> x # items i')" "r' = None \<longrightarrow> items i' = []"
      using next_ok [OF Cons.prems(1)] by blast
    from Cons.IH [OF n(2,4)] Cons.prems(3) n(1,3) Some v show ?thesis
      by (auto simp: convertToVersionHeight_def NewVersion_def AreSame_eq)
  qed
qed

lemma raw_validate_spec:
  assumes "invar i" "\<forall>q \<in> set (GetRawReads rqi). rd_Version q \<noteq> None"
  shows "raw_validate next_of rqi i = Inr
    (map (\<lambda>kv. (kv_Key kv, kv_Version kv)) (items i)
     = map (\<lambda>q. (rd_Key q, NewVersion (rd_Version q))) (GetRawReads rqi))"
proof -
  obtain i' r' where n: "next_of i = Inr (i', r')" "invar i'"
    "items i = (case r' of None \<Rightarrow> [] | Some x \<Rightarrow> x # items i')" "r' = None \<longrightarrow> items i' = []"
    using next_ok [OF assms(1)] by blast
  show ?thesis
    using raw_loop_spec [OF n(2,4) assms(2)] n(1,3)
    by (cases r') (auto simp: raw_validate_def Let_def)
qed

end

end
