(* ===== verification/Wire.thy ===== *)
theory Wire
  imports RWSet
begin

text \<open>
  A self-delimiting wire format for the messages of the development: numbers in decimal up to a
  colon, byte strings and lists with their length in front. It stands in for protobuf where a
  concrete codec is needed: the locale \<open>rw_codec_ok\<close> is interpreted on it, and witnesses evaluate
  it. A pair of an encoder and a decoder that returns the unread rest is a round trip (\<open>rt\<close>).
\<close>

type_synonym 'a decoder = "bytes \<Rightarrow> ('a \<times> bytes) option"

definition rt :: "('a \<Rightarrow> bytes) \<Rightarrow> 'a decoder \<Rightarrow> 'a set \<Rightarrow> bool" where
  "rt e d A \<longleftrightarrow> (\<forall>x \<in> A. \<forall>r. d (e x @ r) = Some (x, r))"

definition e_nat :: "nat \<Rightarrow> bytes" where
  "e_nat n = nat_str n @ '':''"

fun d_nat_acc :: "nat \<Rightarrow> nat decoder" where
  "d_nat_acc n [] = None"
| "d_nat_acc n (c # cs) =
     (if c = CHR '':'' then Some (n, cs)
      else if is_digit c then d_nat_acc (n * 10 + digit_val c) cs else None)"

definition d_nat :: "nat decoder" where
  "d_nat = d_nat_acc 0"

definition e_bytes :: "bytes \<Rightarrow> bytes" where
  "e_bytes b = e_nat (length b) @ b"

definition d_bytes :: "bytes decoder" where
  "d_bytes s =
     (case d_nat s of None \<Rightarrow> None
      | Some (n, r) \<Rightarrow> if n \<le> length r then Some (take n r, drop n r) else None)"

definition e_bool :: "bool \<Rightarrow> bytes" where
  "e_bool b = e_nat (if b then 1 else 0)"

definition d_bool :: "bool decoder" where
  "d_bool s = map_option (\<lambda>(n, r). (n = 1, r)) (d_nat s)"

definition e_word :: "'a::len word \<Rightarrow> bytes" where
  "e_word w = e_nat (unat w)"

definition d_word :: "('a::len word) decoder" where
  "d_word s = map_option (\<lambda>(n, r). (of_nat n, r)) (d_nat s)"

fun d_seq :: "'a decoder \<Rightarrow> nat \<Rightarrow> 'a list decoder" where
  "d_seq d 0 s = Some ([], s)"
| "d_seq d (Suc n) s =
     (case d s of None \<Rightarrow> None
      | Some (x, r) \<Rightarrow> (case d_seq d n r of None \<Rightarrow> None | Some (xs, r') \<Rightarrow> Some (x # xs, r')))"

definition e_list :: "('a \<Rightarrow> bytes) \<Rightarrow> 'a list \<Rightarrow> bytes" where
  "e_list e xs = e_nat (length xs) @ concat (map e xs)"

definition d_list :: "'a decoder \<Rightarrow> 'a list decoder" where
  "d_list d s = (case d_nat s of None \<Rightarrow> None | Some (n, r) \<Rightarrow> d_seq d n r)"

definition e_opt :: "('a \<Rightarrow> bytes) \<Rightarrow> 'a option \<Rightarrow> bytes" where
  "e_opt e x = e_list e (case x of None \<Rightarrow> [] | Some y \<Rightarrow> [y])"

definition d_opt :: "'a decoder \<Rightarrow> 'a option decoder" where
  "d_opt d s = map_option (\<lambda>(xs, r). (case xs of [] \<Rightarrow> None | x # _ \<Rightarrow> Some x, r)) (d_list d s)"

definition e_pair :: "('a \<Rightarrow> bytes) \<Rightarrow> ('b \<Rightarrow> bytes) \<Rightarrow> 'a \<times> 'b \<Rightarrow> bytes" where
  "e_pair ea eb p = ea (fst p) @ eb (snd p)"

definition d_pair :: "'a decoder \<Rightarrow> 'b decoder \<Rightarrow> ('a \<times> 'b) decoder" where
  "d_pair da db s =
     (case da s of None \<Rightarrow> None
      | Some (a, r) \<Rightarrow> (case db r of None \<Rightarrow> None | Some (b, r') \<Rightarrow> Some ((a, b), r')))"

definition e_map :: "('b \<Rightarrow> 'a) \<Rightarrow> ('a \<Rightarrow> bytes) \<Rightarrow> 'b \<Rightarrow> bytes" where
  "e_map f e x = e (f x)"

definition d_map :: "('a \<Rightarrow> 'b) \<Rightarrow> 'a decoder \<Rightarrow> 'b decoder" where
  "d_map g d s = map_option (\<lambda>(x, r). (g x, r)) (d s)"

definition unmarshal :: "'a decoder \<Rightarrow> bytes \<Rightarrow> 'a res" where
  "unmarshal d b =
     (case d b of Some (x, []) \<Rightarrow> Inr x | _ \<Rightarrow> Inl (Err ''proto: bad wiretype''))"

section \<open>Round trips of the combinators\<close>

lemma rtI: "(\<And>x r. x \<in> A \<Longrightarrow> d (e x @ r) = Some (x, r)) \<Longrightarrow> rt e d A"
  by (simp add: rt_def)

lemma rtD: "rt e d A \<Longrightarrow> x \<in> A \<Longrightarrow> d (e x @ r) = Some (x, r)"
  by (simp add: rt_def)

lemma d_nat_acc_append:
  assumes "\<And>c. c \<in> set cs \<Longrightarrow> is_digit c"
  shows "d_nat_acc n (cs @ CHR '':'' # r) = Some (foldl (\<lambda>n c. n * 10 + digit_val c) n cs, r)"
proof -
  have colon: "\<not> is_digit CHR '':''" by (simp add: is_digit_def)
  show ?thesis
    using assms
  proof (induction cs arbitrary: n)
    case Nil
    then show ?case by simp
  next
    case (Cons c cs)
    have "c \<noteq> CHR '':''" "is_digit c" using Cons.prems colon by auto
    with Cons show ?case by simp
  qed
qed

lemma nat_str_value: "foldl (\<lambda>n c. n * 10 + digit_val c) 0 (nat_str n) = n"
proof (induction n rule: nat_str.induct)
  case (1 n)
  show ?case
  proof (cases "n < 10")
    case True
    then show ?thesis by (simp add: nat_str.simps [of n] digit_char_roundtrip)
  next
    case False
    then show ?thesis using 1 by (simp add: nat_str.simps [of n] digit_char_roundtrip)
  qed
qed

lemma d_nat_e_nat [simp]: "d_nat (e_nat n @ r) = Some (n, r)"
  using d_nat_acc_append [of "nat_str n" 0 r, OF nat_str_digits]
  by (simp add: d_nat_def e_nat_def nat_str_value)

lemma rt_nat: "rt e_nat d_nat UNIV"
  by (rule rtI) simp

lemma rt_bytes: "rt e_bytes d_bytes UNIV"
  by (rule rtI) (simp add: e_bytes_def d_bytes_def)

lemma rt_bool: "rt e_bool d_bool UNIV"
  by (rule rtI) (simp add: e_bool_def d_bool_def)

lemma rt_word: "rt e_word d_word UNIV"
  by (rule rtI) (simp add: e_word_def d_word_def)

lemma d_seq_concat:
  assumes "rt e d A" "set xs \<subseteq> A"
  shows "d_seq d (length xs) (concat (map e xs) @ r) = Some (xs, r)"
  using assms(2) by (induction xs) (simp_all add: rtD [OF assms(1)])

lemma rt_list: "rt e d A \<Longrightarrow> rt (e_list e) (d_list d) (lists A)"
  by (rule rtI) (simp add: e_list_def d_list_def d_seq_concat lists_eq_set)

lemma rt_opt: "rt e d UNIV \<Longrightarrow> rt (e_opt e) (d_opt d) UNIV"
  by (rule rtI) (simp add: e_opt_def d_opt_def rtD [OF rt_list [of e d UNIV]] split: option.split)

lemma rt_pair: "rt ea da A \<Longrightarrow> rt eb db B \<Longrightarrow> rt (e_pair ea eb) (d_pair da db) (A \<times> B)"
  by (rule rtI) (auto simp: e_pair_def d_pair_def rtD)

lemma rt_map: "rt e d A \<Longrightarrow> (\<And>x. x \<in> B \<Longrightarrow> f x \<in> A \<and> g (f x) = x) \<Longrightarrow> rt (e_map f e) (d_map g d) B"
  by (rule rtI) (simp add: e_map_def d_map_def rtD)

lemma rt_list_UNIV: "rt e d UNIV \<Longrightarrow> rt (e_list e) (d_list d) UNIV"
  using rt_list [of e d UNIV] by simp

lemma rt_pair_UNIV: "rt ea da UNIV \<Longrightarrow> rt eb db UNIV \<Longrightarrow> rt (e_pair ea eb) (d_pair da db) UNIV"
  using rt_pair [of ea da UNIV eb db UNIV] by simp

lemma rt_map_UNIV: "rt e d UNIV \<Longrightarrow> (\<And>x. g (f x) = x) \<Longrightarrow> rt (e_map f e) (d_map g d) UNIV"
  by (rule rt_map) auto

lemma unmarshal_rt: "rt e d A \<Longrightarrow> x \<in> A \<Longrightarrow> unmarshal d (e x) = Inr x"
  using rtD [of e d A x "[]"] by (simp add: unmarshal_def)

lemmas rt_intros = rt_nat rt_bytes rt_bool rt_word rt_list_UNIV rt_opt rt_pair_UNIV rt_map_UNIV

section \<open>Read-write sets on the wire\<close>

definition e_version :: "ProtoVersion \<Rightarrow> bytes" where
  "e_version = e_map (\<lambda>v. (pv_BlockNum v, pv_TxNum v)) (e_pair e_word e_word)"

definition d_version :: "ProtoVersion decoder" where
  "d_version = d_map (\<lambda>(b, t). ProtoVersion b t) (d_pair d_word d_word)"

definition e_read :: "KVRead \<Rightarrow> bytes" where
  "e_read = e_map (\<lambda>x. (rd_Key x, rd_Version x)) (e_pair e_bytes (e_opt e_version))"

definition d_read :: "KVRead decoder" where
  "d_read = d_map (\<lambda>(k, v). \<lparr>rd_Key = k, rd_Version = v\<rparr>) (d_pair d_bytes (d_opt d_version))"

text \<open>As in proto3, an empty byte field is not distinguished from an absent one.\<close>

definition e_write :: "KVWrite \<Rightarrow> bytes" where
  "e_write = e_map (\<lambda>x. (wr_Key x, wr_IsDelete x, case wr_Value x of None \<Rightarrow> [] | Some v \<Rightarrow> v))
     (e_pair e_bytes (e_pair e_bool e_bytes))"

definition d_write :: "KVWrite decoder" where
  "d_write = d_map (\<lambda>(k, del, v).
       \<lparr>wr_Key = k, wr_IsDelete = del, wr_Value = (if v = [] then None else Some v)\<rparr>)
     (d_pair d_bytes (d_pair d_bool d_bytes))"

definition e_summary :: "MerkleSummary \<Rightarrow> bytes" where
  "e_summary = e_map (\<lambda>m. (ms_MaxDegree m, ms_MaxLevel m, ms_MaxLevelHashes m))
     (e_pair e_word (e_pair e_nat (e_list e_bytes)))"

definition d_summary :: "MerkleSummary decoder" where
  "d_summary = d_map (\<lambda>(deg, lev, hs).
       \<lparr>ms_MaxDegree = deg, ms_MaxLevel = lev, ms_MaxLevelHashes = hs\<rparr>)
     (d_pair d_word (d_pair d_nat (d_list d_bytes)))"

definition e_rinfo :: "ReadsInfo \<Rightarrow> bytes" where
  "e_rinfo = e_map (\<lambda>i. (case i of RawReads rs \<Rightarrow> Some rs | _ \<Rightarrow> None,
                        case i of MerkleReads m \<Rightarrow> Some m | _ \<Rightarrow> None))
     (e_pair (e_opt (e_list e_read)) (e_opt e_summary))"

definition d_rinfo :: "ReadsInfo decoder" where
  "d_rinfo = d_map (\<lambda>(a, b). case a of Some rs \<Rightarrow> RawReads rs
        | None \<Rightarrow> (case b of Some m \<Rightarrow> MerkleReads m | None \<Rightarrow> NoReads))
     (d_pair (d_opt (d_list d_read)) (d_opt d_summary))"

definition e_rq :: "RangeQueryInfo \<Rightarrow> bytes" where
  "e_rq = e_map (\<lambda>q. (rq_StartKey q, rq_EndKey q, rq_ItrExhausted q, rq_ReadsInfo q))
     (e_pair e_bytes (e_pair e_bytes (e_pair e_bool e_rinfo)))"

definition d_rq :: "RangeQueryInfo decoder" where
  "d_rq = d_map (\<lambda>(s, e, x, i).
       \<lparr>rq_StartKey = s, rq_EndKey = e, rq_ItrExhausted = x, rq_ReadsInfo = i\<rparr>)
     (d_pair d_bytes (d_pair d_bytes (d_pair d_bool d_rinfo)))"

definition e_kvrw :: "KVRWSet \<Rightarrow> bytes" where
  "e_kvrw = e_map (\<lambda>k. (kvrw_Reads k, kvrw_Writes k, kvrw_RangeQueriesInfo k))
     (e_pair (e_list e_read) (e_pair (e_list e_write) (e_list e_rq)))"

definition d_kvrw :: "KVRWSet decoder" where
  "d_kvrw = d_map (\<lambda>(r, w, q).
       \<lparr>kvrw_Reads = r, kvrw_Writes = w, kvrw_RangeQueriesInfo = q\<rparr>)
     (d_pair (d_list d_read) (d_pair (d_list d_write) (d_list d_rq)))"

definition wire_codec :: rw_codec where
  "wire_codec =
     \<lparr>Marshal_KVRWSet = (\<lambda>kv. Inr (e_kvrw kv)),
      Unmarshal_KVRWSet = unmarshal d_kvrw,
      Marshal_TxReadWriteSet = (\<lambda>nss. Inr (e_list (e_pair e_bytes e_bytes) nss)),
      Unmarshal_TxReadWriteSet = unmarshal (d_list (d_pair d_bytes d_bytes))\<rparr>"

lemma rt_version: "rt e_version d_version UNIV"
  unfolding e_version_def d_version_def by (intro rt_intros) simp

lemma rt_read: "rt e_read d_read UNIV"
  unfolding e_read_def d_read_def by (intro rt_intros rt_version) simp

lemma rt_summary: "rt e_summary d_summary UNIV"
  unfolding e_summary_def d_summary_def by (intro rt_intros) simp

lemma rt_rinfo: "rt e_rinfo d_rinfo UNIV"
  unfolding e_rinfo_def d_rinfo_def
  by (intro rt_intros rt_read rt_summary) (simp split: ReadsInfo.split)

lemma rt_rq: "rt e_rq d_rq UNIV"
  unfolding e_rq_def d_rq_def by (intro rt_intros rt_rinfo) simp

lemma rt_write: "rt e_write d_write {w. wr_Value w \<noteq> Some []}"
  unfolding e_write_def d_write_def
  by (rule rt_map [OF rt_pair_UNIV [OF rt_bytes rt_pair_UNIV [OF rt_bool rt_bytes]]])
    (auto split: option.split)

lemma rt_kvrw: "rt e_kvrw d_kvrw {kv. no_empty_value kv}"
  unfolding e_kvrw_def d_kvrw_def
  by (rule rt_map [OF rt_pair [OF rt_list_UNIV [OF rt_read]
            rt_pair [OF rt_list [OF rt_write] rt_list_UNIV [OF rt_rq]]]])
    (auto simp: no_empty_value_def)

interpretation wire: rw_codec_ok wire_codec
proof
  fix kv b
  assume "no_empty_value kv" and "Marshal_KVRWSet wire_codec kv = Inr b"
  then show "Unmarshal_KVRWSet wire_codec b = Inr kv"
    using unmarshal_rt [OF rt_kvrw, of kv] by (auto simp: wire_codec_def)
next
  fix nss b
  assume "Marshal_TxReadWriteSet wire_codec nss = Inr b"
  then show "Unmarshal_TxReadWriteSet wire_codec b = Inr nss"
    using unmarshal_rt [OF rt_list_UNIV [OF rt_pair_UNIV [OF rt_bytes rt_bytes]], of nss]
    by (auto simp: wire_codec_def)
qed

end
