(* ===== verification/Merkle.thy ===== *)
theory Merkle
  imports RangeQuery Wire "HOL-Library.Sublist"
begin

text \<open>
  \<^verbatim>\<open>core/ledger/kvledger/txmgmt/rwsetutil/query_results_helper.go\<close>: the incremental Merkle tree
  over the results of a range query, and the hash half of
  \<^verbatim>\<open>validator/statebasedval/range_query_validator.go\<close>, which rebuilds the tree during validation
  and compares it with the recorded summary as it grows.

  The hash of the crypto provider, \<^verbatim>\<open>proto.Marshal\<close> on \<^verbatim>\<open>QueryReads\<close> and the generated
  \<^verbatim>\<open>QueryReadsMerkleSummary.Equal\<close> are parameters (record \<open>merkle_env\<close>, locale \<open>merkle_ok\<close>).
  Tree levels are natural numbers: a level above \<open>2 ^ 32\<close> needs more than \<open>2 ^ 2 ^ 32\<close> results.
  The number of collected items is converted to uint32 as in the code. The unbounded loop of
  \<^verbatim>\<open>update\<close> has fuel \<open>maxLevel + 2\<close>, which is enough on every tree the code builds.

  Results: the summary never holds more than \<open>maxDegree\<close> hashes and only ever grows; the
  validator accepts a recorded summary exactly when it is the summary of the current results,
  provided the recorded summary is not full. On a full one it may index past the end.
\<close>

record merkle_env =
  me_hash :: "bytes \<Rightarrow> bytes res"
  me_ser :: "KVRead list \<Rightarrow> bytes res"
  me_equal :: "MerkleSummary \<Rightarrow> MerkleSummary option \<Rightarrow> bool"

record merkleTree =
  mt_tree :: "(nat, bytes list) gomap"
  mt_maxLevel :: nat
  mt_maxDegree :: u32

definition leafLevel :: nat where
  "leafLevel = 1"

definition newMerkleTree :: "u32 \<Rightarrow> merkleTree res" where
  "newMerkleTree maxDegree =
     (if maxDegree < 2 then Inl (Err ''maxDegree should not be less than 2 in the merkle tree'')
      else Inr \<lparr>mt_tree = [], mt_maxLevel = 1, mt_maxDegree = maxDegree\<rparr>)"

text \<open>\<^verbatim>\<open>m.tree[level]\<close>: a missing level reads as no hashes.\<close>

definition mt_level :: "merkleTree \<Rightarrow> nat \<Rightarrow> bytes list" where
  "mt_level m l = (case gm_get (mt_tree m) l of None \<Rightarrow> [] | Some hs \<Rightarrow> hs)"

definition computeCombinedHash :: "merkle_env \<Rightarrow> bytes list \<Rightarrow> bytes res" where
  "computeCombinedHash env hashes = me_hash env (concat hashes)"

definition mt_append :: "merkleTree \<Rightarrow> nat \<Rightarrow> bytes \<Rightarrow> merkleTree" where
  "mt_append m l h = m\<lparr>mt_tree := gm_put l (mt_level m l @ [h]) (mt_tree m)\<rparr>"

definition mt_delete :: "merkleTree \<Rightarrow> nat \<Rightarrow> merkleTree" where
  "mt_delete m l = m\<lparr>mt_tree := gm_del l (mt_tree m)\<rparr>"

text \<open>The outer sum is exhausted fuel, the inner option the returned error.\<close>

fun mt_update_loop :: "merkle_env \<Rightarrow> nat \<Rightarrow> merkleTree \<Rightarrow> nat \<Rightarrow> (merkleTree \<times> error option) res" where
  "mt_update_loop env 0 m currentLevel = Inl OutOfFuel"
| "mt_update_loop env (Suc n) m currentLevel =
     (let currentLevelHashes = mt_level m currentLevel in
      if (of_nat (length currentLevelHashes) :: u32) \<le> mt_maxDegree m then Inr (m, None)
      else
        (case computeCombinedHash env currentLevelHashes of
           Inl e \<Rightarrow> Inr (m, Some e)
         | Inr nextLevelHash \<Rightarrow>
             let nextLevel = currentLevel + 1;
                 m' = mt_append (mt_delete m currentLevel) nextLevel nextLevelHash;
                 m' = (if nextLevel > mt_maxLevel m' then m'\<lparr>mt_maxLevel := nextLevel\<rparr> else m')
             in mt_update_loop env n m' nextLevel))"

definition mt_update :: "merkle_env \<Rightarrow> merkleTree \<Rightarrow> bytes \<Rightarrow> (merkleTree \<times> error option) res" where
  "mt_update env m nextLeafLevelHash =
     mt_update_loop env (mt_maxLevel m + 2) (mt_append m leafLevel nextLeafLevelHash) leafLevel"

lemma mt_maxLevel_simps [simp]:
  "mt_maxLevel (mt_append m l h) = mt_maxLevel m" "mt_maxLevel (mt_delete m l) = mt_maxLevel m"
  "mt_maxDegree (mt_append m l h) = mt_maxDegree m" "mt_maxDegree (mt_delete m l) = mt_maxDegree m"
  by (simp_all add: mt_append_def mt_delete_def)

function mt_done_loop :: "merkle_env \<Rightarrow> merkleTree \<Rightarrow> nat \<Rightarrow> merkleTree \<times> error option" where
  "mt_done_loop env m currentLevel =
     (if currentLevel < mt_maxLevel m then
        (case mt_level m currentLevel of
           [] \<Rightarrow> mt_done_loop env m (currentLevel + 1)
         | h # rest \<Rightarrow>
             (case (if rest = [] then Inr h else computeCombinedHash env (h # rest)) of
                Inl e \<Rightarrow> (m, Some e)
              | Inr h' \<Rightarrow>
                  mt_done_loop env (mt_append (mt_delete m currentLevel) (currentLevel + 1) h')
                    (currentLevel + 1)))
      else (m, None))"
  by pat_completeness auto
termination
  by (relation "measure (\<lambda>(env, m, l). mt_maxLevel m - l)") auto

declare mt_done_loop.simps [simp del]

definition mt_done :: "merkle_env \<Rightarrow> merkleTree \<Rightarrow> merkleTree \<times> error option" where
  "mt_done env m =
     (case mt_done_loop env m leafLevel of
        (m, Some e) \<Rightarrow> (m, Some e)
      | (m, None) \<Rightarrow>
          let finalHashes = mt_level m (mt_maxLevel m) in
          if (of_nat (length finalHashes) :: u32) > mt_maxDegree m then
            let m' = (mt_delete m (mt_maxLevel m))\<lparr>mt_maxLevel := mt_maxLevel m + 1\<rparr> in
            (case computeCombinedHash env finalHashes of
               Inl e \<Rightarrow> (m', Some e)
             | Inr combinedHash \<Rightarrow>
                 (m'\<lparr>mt_tree := gm_put (mt_maxLevel m') [combinedHash] (mt_tree m')\<rparr>, None))
          else (m, None))"

definition getMaxLevelHashes :: "merkleTree \<Rightarrow> bytes list" where
  "getMaxLevelHashes m = mt_level m (mt_maxLevel m)"

definition getSummery :: "merkleTree \<Rightarrow> MerkleSummary" where
  "getSummery m = \<lparr>ms_MaxDegree = mt_maxDegree m, ms_MaxLevel = mt_maxLevel m,
     ms_MaxLevelHashes = getMaxLevelHashes m\<rparr>"

definition mt_isEmpty :: "merkleTree \<Rightarrow> bool" where
  "mt_isEmpty m \<longleftrightarrow> mt_maxLevel m = 1 \<and> length (mt_level m (mt_maxLevel m)) = 0"

section \<open>The results helper\<close>

record RangeQueryResultsHelper =
  rh_pendingResults :: "KVRead list"
  rh_mt :: "merkleTree option"
  rh_maxDegree :: u32
  rh_hashingEnabled :: bool

definition NewRangeQueryResultsHelper :: "bool \<Rightarrow> u32 \<Rightarrow> RangeQueryResultsHelper res" where
  "NewRangeQueryResultsHelper enableHashing maxDegree =
     (let helper = \<lparr>rh_pendingResults = [], rh_mt = None, rh_maxDegree = maxDegree,
                    rh_hashingEnabled = enableHashing\<rparr> in
      if enableHashing then
        res_bind (newMerkleTree maxDegree) (\<lambda>mt. Inr (helper\<lparr>rh_mt := Some mt\<rparr>))
      else Inr helper)"

text \<open>The error that \<^verbatim>\<open>update\<close> may return is dropped, as in the code.\<close>

definition processPendingResults ::
    "merkle_env \<Rightarrow> RangeQueryResultsHelper \<Rightarrow> (RangeQueryResultsHelper \<times> error option) res" where
  "processPendingResults env helper =
     (case me_ser env (rh_pendingResults helper) of
        Inl e \<Rightarrow> Inr (helper, Some e)
      | Inr b \<Rightarrow>
          let helper = helper\<lparr>rh_pendingResults := []\<rparr> in
          (case me_hash env b of
             Inl e \<Rightarrow> Inr (helper, Some e)
           | Inr hash \<Rightarrow>
               (case rh_mt helper of
                  None \<Rightarrow> Inl (Panic ''nil pointer dereference'')
                | Some mt \<Rightarrow>
                    res_bind (mt_update env mt hash) (\<lambda>(mt', _).
                      Inr (helper\<lparr>rh_mt := Some mt'\<rparr>, None)))))"

definition AddResult ::
    "merkle_env \<Rightarrow> RangeQueryResultsHelper \<Rightarrow> KVRead \<Rightarrow> (RangeQueryResultsHelper \<times> error option) res" where
  "AddResult env helper kvRead =
     (let helper = helper\<lparr>rh_pendingResults := rh_pendingResults helper @ [kvRead]\<rparr> in
      if rh_hashingEnabled helper
         \<and> (of_nat (length (rh_pendingResults helper)) :: u32) > rh_maxDegree helper
      then processPendingResults env helper
      else Inr (helper, None))"

text \<open>The pending results, the summary and the returned error.\<close>

definition helper_Done ::
    "merkle_env \<Rightarrow> RangeQueryResultsHelper \<Rightarrow> (KVRead list \<times> MerkleSummary option \<times> error option) res" where
  "helper_Done env helper =
     (if \<not> rh_hashingEnabled helper then Inr (rh_pendingResults helper, None, None)
      else (case rh_mt helper of
              None \<Rightarrow> Inl (Panic ''nil pointer dereference'')
            | Some mt \<Rightarrow>
                if mt_isEmpty mt then Inr (rh_pendingResults helper, None, None)
                else
                  res_bind (if rh_pendingResults helper \<noteq> [] then processPendingResults env helper
                            else Inr (helper, None)) (\<lambda>(helper, err).
                    case err of
                      Some e \<Rightarrow> Inr (rh_pendingResults helper, None, Some e)
                    | None \<Rightarrow>
                        (case rh_mt helper of
                           None \<Rightarrow> Inl (Panic ''nil pointer dereference'')
                         | Some mt \<Rightarrow>
                             Inr (rh_pendingResults helper, Some (getSummery (fst (mt_done env mt))), None)))))"

definition GetMerkleSummary :: "RangeQueryResultsHelper \<Rightarrow> MerkleSummary option res" where
  "GetMerkleSummary helper =
     (if \<not> rh_hashingEnabled helper then Inr None
      else (case rh_mt helper of
              None \<Rightarrow> Inl (Panic ''nil pointer dereference'')
            | Some mt \<Rightarrow> Inr (Some (getSummery mt))))"

section \<open>Hash validation of a range query\<close>

definition hash_init :: "RangeQueryInfo \<Rightarrow> RangeQueryResultsHelper res" where
  "hash_init rqInfo =
     (case GetReadsMerkleHashes rqInfo of
        None \<Rightarrow> Inl (Panic ''nil pointer dereference'')
      | Some ms \<Rightarrow> NewRangeQueryResultsHelper True (ms_MaxDegree ms))"

fun hash_validate_loop ::
    "merkle_env \<Rightarrow> ('i \<Rightarrow> ('i \<times> VersionedKV option) res) \<Rightarrow> MerkleSummary \<Rightarrow> nat
     \<Rightarrow> 'i \<Rightarrow> RangeQueryResultsHelper \<Rightarrow> int \<Rightarrow> bool res" where
  "hash_validate_loop env nx inMerkle 0 itr helper lastMatchedIndex = Inl OutOfFuel"
| "hash_validate_loop env nx inMerkle (Suc n) itr helper lastMatchedIndex =
     res_bind (nx itr) (\<lambda>(itr, result).
       case result of
         None \<Rightarrow>
           res_bind (helper_Done env helper) (\<lambda>(_, merkle, err).
             case err of Some e \<Rightarrow> Inl e | None \<Rightarrow> Inr (me_equal env inMerkle merkle))
       | Some versionedKV \<Rightarrow>
           res_bind (AddResult env helper (NewKVRead (kv_Key versionedKV) (kv_Version versionedKV)))
             (\<lambda>(helper, _).
           res_bind (GetMerkleSummary helper) (\<lambda>merkle.
             case merkle of
               None \<Rightarrow> Inl (Panic ''nil pointer dereference'')
             | Some merkle \<Rightarrow>
                 if ms_MaxLevel merkle < ms_MaxLevel inMerkle then
                   hash_validate_loop env nx inMerkle n itr helper lastMatchedIndex
                 else if lastMatchedIndex = int (length (ms_MaxLevelHashes merkle)) - 1 then
                   hash_validate_loop env nx inMerkle n itr helper lastMatchedIndex
                 else if length (ms_MaxLevelHashes merkle) > length (ms_MaxLevelHashes inMerkle) then
                   Inr False
                 else
                   let lastMatchedIndex = lastMatchedIndex + 1 in
                   res_bind (index_at (ms_MaxLevelHashes merkle) (nat lastMatchedIndex)) (\<lambda>h.
                   res_bind (index_at (ms_MaxLevelHashes inMerkle) (nat lastMatchedIndex)) (\<lambda>h'.
                     if h \<noteq> h' then Inr False
                     else hash_validate_loop env nx inMerkle n itr helper lastMatchedIndex)))))"

definition hash_validate ::
    "merkle_env \<Rightarrow> ('i \<Rightarrow> ('i \<times> VersionedKV option) res) \<Rightarrow> nat \<Rightarrow> RangeQueryInfo
     \<Rightarrow> RangeQueryResultsHelper \<Rightarrow> 'i \<Rightarrow> bool res" where
  "hash_validate env nx n rqInfo helper itr =
     (case GetReadsMerkleHashes rqInfo of
        None \<Rightarrow> Inl (Panic ''nil pointer dereference'')
      | Some inMerkle \<Rightarrow> hash_validate_loop env nx inMerkle n itr helper (-1))"

section \<open>Trees the code builds\<close>

definition mt_inv :: "merkleTree \<Rightarrow> nat \<Rightarrow> bool" where
  "mt_inv m l \<longleftrightarrow> 2 \<le> unat (mt_maxDegree m) \<and> unat (mt_maxDegree m) + 1 < 2 ^ 32 \<and> 1 \<le> mt_maxLevel m
     \<and> (\<forall>k. k \<noteq> l \<longrightarrow> length (mt_level m k) \<le> unat (mt_maxDegree m))
     \<and> length (mt_level m l) \<le> unat (mt_maxDegree m) + 1
     \<and> (\<forall>k. k = 0 \<or> k > mt_maxLevel m \<longrightarrow> mt_level m k = [])
     \<and> (mt_maxLevel m > 1 \<longrightarrow> mt_level m (mt_maxLevel m) \<noteq> [])"

text \<open>The invariant between operations; \<open>mt_inv m l\<close> allows one hash too many at level \<open>l\<close>.\<close>

definition mt_ok :: "merkleTree \<Rightarrow> bool" where
  "mt_ok m \<longleftrightarrow> mt_inv m 0"

lemma mt_level_append [simp]:
  "mt_level (mt_append m l h) k = (if k = l then mt_level m l @ [h] else mt_level m k)"
  by (simp add: mt_level_def mt_append_def)

lemma mt_level_delete [simp]: "mt_level (mt_delete m l) k = (if k = l then [] else mt_level m k)"
  by (simp add: mt_level_def mt_delete_def)

lemma mt_level_maxLevel [simp]: "mt_level (m\<lparr>mt_maxLevel := n\<rparr>) k = mt_level m k"
  by (simp add: mt_level_def)

lemma mt_ok_weaken:
  assumes "mt_inv m l" "length (mt_level m l) \<le> unat (mt_maxDegree m)"
  shows "mt_ok m"
proof -
  have "length (mt_level m k) \<le> unat (mt_maxDegree m)" for k
    using assms by (cases "k = l") (auto simp: mt_inv_def)
  with assms(1) show ?thesis by (simp add: mt_ok_def mt_inv_def)
qed

lemma mt_ok_len: "mt_ok m \<Longrightarrow> length (mt_level m k) \<le> unat (mt_maxDegree m)"
  unfolding mt_ok_def mt_inv_def by (metis le0 list.size(3))

lemma mt_inv_append:
  assumes "mt_ok m" "1 \<le> l" "l \<le> mt_maxLevel m"
  shows "mt_inv (mt_append m l h) l"
  using assms mt_ok_len [OF assms(1)] by (auto simp: mt_ok_def mt_inv_def)

lemma degree_le_iff:
  assumes "mt_inv m l"
  shows "(of_nat (length (mt_level m k)) :: u32) \<le> mt_maxDegree m \<longleftrightarrow>
    length (mt_level m k) \<le> unat (mt_maxDegree m)"
proof -
  have "length (mt_level m k) \<le> unat (mt_maxDegree m) + 1"
    using assms by (cases "k = l") (auto simp: mt_inv_def intro: le_SucI)
  moreover have "unat (mt_maxDegree m) + 1 < 2 ^ 32" using assms by (simp add: mt_inv_def)
  ultimately have "length (mt_level m k) < 2 ^ 32" by (rule order.strict_trans1)
  then show ?thesis by (simp add: word_le_nat_alt unat_of_nat take_bit_nat_eq_self)
qed

text \<open>How an update changes the top level: it grows by at most one hash, or a level is added.\<close>

definition mt_grows :: "nat \<Rightarrow> merkleTree \<Rightarrow> merkleTree \<Rightarrow> bool" where
  "mt_grows l m m' \<longleftrightarrow> mt_maxDegree m' = mt_maxDegree m \<and>
     (let M = mt_maxLevel m in
      mt_maxLevel m' = M \<and> (\<exists>t. mt_level m' M = mt_level m M @ t \<and> length t \<le> (if l < M then 1 else 0))
      \<or> mt_maxLevel m' = Suc M \<and> length (mt_level m' (Suc M)) = 1
        \<and> length (mt_level m M) \<ge> unat (mt_maxDegree m) + (if l < M then 0 else 1))"

definition mt_carry :: "merkleTree \<Rightarrow> nat \<Rightarrow> bytes \<Rightarrow> merkleTree" where
  "mt_carry m l h = (let m' = mt_append (mt_delete m l) (l + 1) h in
     if l + 1 > mt_maxLevel m' then m'\<lparr>mt_maxLevel := l + 1\<rparr> else m')"

lemma mt_carry_simps:
  "l \<le> mt_maxLevel m \<Longrightarrow> mt_maxLevel (mt_carry m l h) = max (mt_maxLevel m) (Suc l)"
  "mt_maxDegree (mt_carry m l h) = mt_maxDegree m"
  "mt_level (mt_carry m l h) k =
     (if k = l then [] else if k = Suc l then mt_level m k @ [h] else mt_level m k)"
  by (auto simp: mt_carry_def Let_def)

lemma mt_carry_inv:
  assumes "mt_inv m l" "1 \<le> l" "l \<le> mt_maxLevel m"
  shows "mt_inv (mt_carry m l h) (Suc l)"
proof -
  have "mt_level (mt_carry m l h) (mt_maxLevel (mt_carry m l h)) \<noteq> []"
    if "mt_maxLevel (mt_carry m l h) > 1"
  proof (cases "l = mt_maxLevel m")
    case False
    with assms have "l < mt_maxLevel m" "1 < mt_maxLevel m" by linarith+
    with assms(1) show ?thesis by (simp add: mt_carry_simps mt_inv_def max_def)
  qed (simp add: mt_carry_simps)
  with assms show ?thesis
    by (simp add: mt_inv_def mt_carry_simps)
qed

lemma mt_grows_carry:
  assumes "mt_inv m l" "1 \<le> l" "l \<le> mt_maxLevel m" "mt_grows (Suc l) (mt_carry m l h) m'"
    and "length (mt_level m l) > unat (mt_maxDegree m)"
  shows "mt_grows l m m'"
proof -
  have d2: "2 \<le> unat (mt_maxDegree m)" using assms(1) by (simp add: mt_inv_def)
  consider "l = mt_maxLevel m" | "Suc l = mt_maxLevel m" | "Suc l < mt_maxLevel m"
    using assms(3) by linarith
  then show ?thesis
  proof cases
    case 1
    have e: "mt_level m (Suc l) = []" using assms(1) 1 by (simp add: mt_inv_def)
    from 1 have "mt_maxLevel (mt_carry m l h) = Suc l" by (simp add: mt_carry_simps)
    with e d2 assms(4,5) 1 show ?thesis by (auto simp: mt_grows_def mt_carry_simps)
  next
    case 2
    then have "mt_maxLevel (mt_carry m l h) = Suc l" by (simp add: mt_carry_simps)
    with assms(4) 2 show ?thesis by (auto simp: mt_grows_def mt_carry_simps Let_def)
  next
    case 3
    then have "mt_maxLevel (mt_carry m l h) = mt_maxLevel m" by (simp add: mt_carry_simps)
    with assms(4) 3 show ?thesis by (auto simp: mt_grows_def mt_carry_simps Let_def)
  qed
qed

lemma mt_grows_leaf:
  assumes "mt_ok m" "mt_grows leafLevel (mt_append m leafLevel h) m'"
  shows "mt_grows 0 m m'" and "\<not> mt_isEmpty m'"
proof -
  have M: "1 \<le> mt_maxLevel m" using assms(1) by (simp add: mt_ok_def mt_inv_def)
  then show "mt_grows 0 m m'"
    using assms(2) by (cases "mt_maxLevel m = 1") (auto simp: mt_grows_def leafLevel_def Let_def)
  have "mt_maxLevel m = 1 \<Longrightarrow> mt_maxLevel m' = 1 \<Longrightarrow> mt_level m' 1 \<noteq> []"
    using assms(2) by (auto simp: mt_grows_def leafLevel_def Let_def)
  moreover have "mt_maxLevel m' \<ge> mt_maxLevel m"
    using assms(2) by (auto simp: mt_grows_def Let_def)
  ultimately show "\<not> mt_isEmpty m'" using M by (auto simp: mt_isEmpty_def)
qed

text \<open>A later state of the tree: more levels, or more hashes at the top level.\<close>

definition mt_ext :: "merkleTree \<Rightarrow> merkleTree \<Rightarrow> bool" where
  "mt_ext m m' \<longleftrightarrow> mt_maxLevel m < mt_maxLevel m' \<or>
     mt_maxLevel m = mt_maxLevel m' \<and> prefix (getMaxLevelHashes m) (getMaxLevelHashes m')"

lemma mt_ext_refl [simp]: "mt_ext m m"
  by (simp add: mt_ext_def)

lemma mt_ext_trans: "mt_ext a b \<Longrightarrow> mt_ext b c \<Longrightarrow> mt_ext a c"
  by (auto simp: mt_ext_def intro: prefix_order.trans)

lemma mt_grows_refl [simp]: "mt_grows 0 m m"
  by (simp add: mt_grows_def)

lemma mt_grows_ext: "mt_grows 0 m m' \<Longrightarrow> mt_ext m m'"
  by (auto simp: mt_grows_def mt_ext_def getMaxLevelHashes_def Let_def prefix_def)

lemma mt_ext_nonempty: "mt_ok m \<Longrightarrow> mt_ext m m' \<Longrightarrow> \<not> mt_isEmpty m \<Longrightarrow> \<not> mt_isEmpty m'"
  by (auto simp: mt_ext_def mt_isEmpty_def getMaxLevelHashes_def mt_ok_def mt_inv_def)

definition helper_ok :: "RangeQueryResultsHelper \<Rightarrow> bool" where
  "helper_ok h \<longleftrightarrow> rh_hashingEnabled h \<and> rh_mt h \<noteq> None \<and> mt_ok (the (rh_mt h))
     \<and> mt_maxDegree (the (rh_mt h)) = rh_maxDegree h \<and> length (rh_pendingResults h) \<le> unat (rh_maxDegree h)"

text \<open>Feeding a list of results, as the query iterators do (errors of \<^verbatim>\<open>AddResult\<close> are not fatal).\<close>

definition add_results ::
    "merkle_env \<Rightarrow> RangeQueryResultsHelper \<Rightarrow> KVRead list \<Rightarrow> RangeQueryResultsHelper res" where
  "add_results env h rs = foldM (\<lambda>h r. res_bind (AddResult env h r) (\<lambda>(h', _). Inr h')) h rs"

text \<open>The summary of a list of reads: a new helper, fed with them, and completed.\<close>

definition merkle_of :: "merkle_env \<Rightarrow> u32 \<Rightarrow> KVRead list \<Rightarrow> (KVRead list \<times> MerkleSummary option \<times> error option) res" where
  "merkle_of env maxDegree rs =
     res_bind (NewRangeQueryResultsHelper True maxDegree) (\<lambda>h.
     res_bind (add_results env h rs) (helper_Done env))"

lemma New_helper_ok:
  assumes "2 \<le> unat d" "unat d + 1 < 2 ^ 32"
  shows "\<exists>h. NewRangeQueryResultsHelper True d = Inr h \<and> helper_ok h \<and> rh_maxDegree h = d
    \<and> rh_pendingResults h = [] \<and> mt_isEmpty (the (rh_mt h)) \<and> mt_maxLevel (the (rh_mt h)) = 1
    \<and> getMaxLevelHashes (the (rh_mt h)) = []"
proof -
  have "\<not> d < 2" using assms(1) by (simp add: word_less_nat_alt)
  then show ?thesis using assms
    by (simp add: NewRangeQueryResultsHelper_def newMerkleTree_def helper_ok_def mt_ok_def mt_inv_def
        mt_level_def mt_isEmpty_def getMaxLevelHashes_def)
qed

locale merkle_ok =
  fixes env :: merkle_env
  assumes hash_ok: "is_ok (me_hash env b)"
    and ser_ok: "is_ok (me_ser env rs)"
    and equal_ok: "me_equal env a ms \<longleftrightarrow> ms = Some a"
begin

lemma combined_ok: "\<exists>h. computeCombinedHash env hs = Inr h"
  using hash_ok [of "concat hs"] by (cases "me_hash env (concat hs)") (auto simp: computeCombinedHash_def)

lemma update_loop_ok:
  assumes "mt_inv m l" "1 \<le> l" "l \<le> mt_maxLevel m"
    and "length (mt_level m l) \<le> unat (mt_maxDegree m) \<and> 1 \<le> n \<or> mt_maxLevel m + 2 \<le> n + l"
  shows "\<exists>m'. mt_update_loop env n m l = Inr (m', None) \<and> mt_ok m' \<and> mt_grows l m m'"
  using assms
proof (induction n arbitrary: m l)
  case 0
  then show ?case by simp
next
  case (Suc n)
  show ?case
  proof (cases "length (mt_level m l) \<le> unat (mt_maxDegree m)")
    case True
    then show ?thesis
      using Suc.prems mt_ok_weaken by (auto simp: degree_le_iff mt_grows_def)
  next
    case False
    obtain h where h: "computeCombinedHash env (mt_level m l) = Inr h" using combined_ok by blast
    have "mt_update_loop env (Suc n) m l = mt_update_loop env n (mt_carry m l h) (Suc l)"
      using False Suc.prems(1) h by (simp add: degree_le_iff mt_carry_def Let_def)
    moreover have "\<exists>m'. mt_update_loop env n (mt_carry m l h) (Suc l) = Inr (m', None) \<and> mt_ok m'
        \<and> mt_grows (Suc l) (mt_carry m l h) m'"
    proof (rule Suc.IH [OF mt_carry_inv [OF Suc.prems(1-3)]])
      show "Suc l \<le> mt_maxLevel (mt_carry m l h)" using Suc.prems(3) by (simp add: mt_carry_simps)
      show "length (mt_level (mt_carry m l h) (Suc l)) \<le> unat (mt_maxDegree (mt_carry m l h)) \<and> 1 \<le> n
          \<or> mt_maxLevel (mt_carry m l h) + 2 \<le> n + Suc l"
      proof (cases "l = mt_maxLevel m")
        case True
        then have "mt_level m (Suc l) = []" "2 \<le> unat (mt_maxDegree m)"
          using Suc.prems(1) by (simp_all add: mt_inv_def)
        with True False Suc.prems(4) show ?thesis by (simp add: mt_carry_simps)
      qed (use False Suc.prems(3,4) in \<open>simp add: mt_carry_simps\<close>)
    qed simp
    ultimately show ?thesis
      using mt_grows_carry [OF Suc.prems(1-3)] False by fastforce
  qed
qed

text \<open>One more leaf: the loop of \<^verbatim>\<open>update\<close> ends, without error, in a well-formed tree.\<close>

lemma update_ok:
  assumes "mt_ok m"
  shows "\<exists>m'. mt_update env m h = Inr (m', None) \<and> mt_ok m'
    \<and> mt_grows leafLevel (mt_append m leafLevel h) m'"
proof -
  have "1 \<le> mt_maxLevel m" using assms by (simp add: mt_ok_def mt_inv_def)
  then show ?thesis
    using update_loop_ok [OF mt_inv_append [OF assms], of 1 h "mt_maxLevel m + 2"]
    by (simp add: mt_update_def leafLevel_def)
qed

lemma done_loop_ok:
  assumes "mt_maxLevel m > l \<Longrightarrow> length (mt_level m (mt_maxLevel m)) \<le> unat (mt_maxDegree m)"
    and "length (mt_level m (mt_maxLevel m)) \<le> unat (mt_maxDegree m) + 1"
  shows "\<exists>m' t. mt_done_loop env m l = (m', None) \<and> mt_maxLevel m' = mt_maxLevel m
    \<and> mt_maxDegree m' = mt_maxDegree m
    \<and> mt_level m' (mt_maxLevel m) = mt_level m (mt_maxLevel m) @ t
    \<and> length t \<le> (if l < mt_maxLevel m then 1 else 0)
    \<and> length (mt_level m' (mt_maxLevel m)) \<le> unat (mt_maxDegree m) + 1"
  using assms
proof (induction "mt_maxLevel m - l" arbitrary: m l)
  case 0
  then show ?case by (simp add: mt_done_loop.simps [of env m l])
next
  case (Suc x)
  then have less: "l < mt_maxLevel m" by simp
  show ?case
  proof (cases "mt_level m l")
    case Nil
    with less have "mt_done_loop env m l = mt_done_loop env m (l + 1)"
      by (simp add: mt_done_loop.simps [of env m l])
    moreover have "x = mt_maxLevel m - (l + 1)" using Suc.hyps(2) by simp
    ultimately show ?thesis
      using Suc.hyps(1) [of m "l + 1"] Suc.prems less by (auto split: if_splits)
  next
    case (Cons h rest)
    obtain h' where h': "(if rest = [] then Inr h else computeCombinedHash env (h # rest)) = Inr h'"
      using combined_ok by (cases "rest = []") auto
    let ?m = "mt_append (mt_delete m l) (l + 1) h'"
    have "mt_done_loop env m l = mt_done_loop env ?m (l + 1)"
      using less Cons h' by (simp add: mt_done_loop.simps [of env m l])
    moreover have "x = mt_maxLevel ?m - (l + 1)" using Suc.hyps(2) by simp
    moreover have "\<And>k. mt_level ?m k =
        (if k = l then [] else if k = Suc l then mt_level m k @ [h'] else mt_level m k)" by simp
    ultimately show ?thesis
      using Suc.hyps(1) [of ?m "l + 1"] Suc.prems less by (cases "Suc l = mt_maxLevel m") auto
  qed
qed

text \<open>Completing the tree leaves at most \<open>maxDegree\<close> hashes at the top and loses none below.\<close>

lemma done_ok:
  assumes "mt_ok m"
  shows "\<exists>m'. mt_done env m = (m', None) \<and> mt_grows 0 m m'
    \<and> length (getMaxLevelHashes m') \<le> unat (mt_maxDegree m)"
proof -
  let ?M = "mt_maxLevel m"
  have len: "length (mt_level m ?M) \<le> unat (mt_maxDegree m)" by (rule mt_ok_len [OF assms])
  have d: "2 \<le> unat (mt_maxDegree m)" "unat (mt_maxDegree m) + 1 < 2 ^ 32"
    using assms by (simp_all add: mt_ok_def mt_inv_def)
  obtain m' t where m': "mt_done_loop env m leafLevel = (m', None)" "mt_maxLevel m' = ?M"
    "mt_maxDegree m' = mt_maxDegree m" "mt_level m' ?M = mt_level m ?M @ t"
    "length t \<le> (if leafLevel < ?M then 1 else 0)"
    "length (mt_level m' ?M) \<le> unat (mt_maxDegree m) + 1"
    using done_loop_ok [of leafLevel m] len by auto
  have t1: "length t \<le> 1" using m'(5) by (simp split: if_splits)
  have cmp: "mt_maxDegree m < (of_nat (length (mt_level m' ?M)) :: u32)
      \<longleftrightarrow> unat (mt_maxDegree m) < length (mt_level m' ?M)"
  proof -
    have "length (mt_level m' ?M) < 2 ^ 32" using m'(6) d(2) by linarith
    then show ?thesis by (simp add: word_less_nat_alt unat_of_nat take_bit_nat_eq_self)
  qed
  show ?thesis
  proof (cases "unat (mt_maxDegree m) < length (mt_level m' ?M)")
    case False
    with m' t1 cmp show ?thesis
      by (auto simp: mt_done_def mt_grows_def getMaxLevelHashes_def)
  next
    case True
    obtain h where h: "computeCombinedHash env (mt_level m' ?M) = Inr h" using combined_ok by blast
    let ?m = "(mt_delete m' ?M)\<lparr>mt_maxLevel := ?M + 1, mt_tree := gm_put (?M + 1) [h] (mt_tree (mt_delete m' ?M))\<rparr>"
    have "mt_done env m = (?m, None)" using True m'(1-3) cmp h by (simp add: mt_done_def Let_def)
    moreover have "mt_level ?m (Suc ?M) = [h]" by (simp add: mt_level_def)
    moreover have "unat (mt_maxDegree m) \<le> length (mt_level m ?M)" using True m'(4) t1 by simp
    moreover have "0 < ?M" using assms by (simp add: mt_ok_def mt_inv_def)
    ultimately show ?thesis using m'(3) d(1) by (auto simp: mt_grows_def getMaxLevelHashes_def)
  qed
qed

lemma process_ok:
  assumes "rh_mt h = Some m" "mt_ok m"
  shows "\<exists>m'. processPendingResults env h = Inr (h\<lparr>rh_pendingResults := [], rh_mt := Some m'\<rparr>, None)
    \<and> mt_ok m' \<and> mt_grows 0 m m' \<and> \<not> mt_isEmpty m'"
proof -
  obtain b where b: "me_ser env (rh_pendingResults h) = Inr b"
    using ser_ok [of "rh_pendingResults h"] by (cases "me_ser env (rh_pendingResults h)") auto
  obtain hash where hash: "me_hash env b = Inr hash"
    using hash_ok [of b] by (cases "me_hash env b") auto
  obtain m' where m': "mt_update env m hash = Inr (m', None)" "mt_ok m'"
    "mt_grows leafLevel (mt_append m leafLevel hash) m'"
    using update_ok [OF assms(2)] by blast
  with mt_grows_leaf [OF assms(2) m'(3)] b hash assms(1) show ?thesis
    by (auto simp: processPendingResults_def)
qed

lemma AddResult_ok:
  assumes "helper_ok h"
  shows "\<exists>h'. AddResult env h r = Inr (h', None) \<and> helper_ok h' \<and> rh_maxDegree h' = rh_maxDegree h
    \<and> mt_grows 0 (the (rh_mt h)) (the (rh_mt h'))
    \<and> (if length (rh_pendingResults h) < unat (rh_maxDegree h)
       then h' = h\<lparr>rh_pendingResults := rh_pendingResults h @ [r]\<rparr>
       else rh_pendingResults h' = [] \<and> \<not> mt_isEmpty (the (rh_mt h')))"
proof -
  obtain m where m: "rh_mt h = Some m" "mt_ok m" "mt_maxDegree m = rh_maxDegree h"
    using assms by (auto simp: helper_ok_def)
  have len: "length (rh_pendingResults h) \<le> unat (rh_maxDegree h)" using assms by (simp add: helper_ok_def)
  moreover have "unat (rh_maxDegree h) + 1 < 2 ^ 32" using m by (simp add: mt_ok_def mt_inv_def)
  ultimately have "length (rh_pendingResults h) + 1 < 2 ^ 32" by linarith
  then have cmp: "rh_maxDegree h < (of_nat (length (rh_pendingResults h) + 1) :: u32)
      \<longleftrightarrow> unat (rh_maxDegree h) < length (rh_pendingResults h) + 1"
    by (simp only: word_less_nat_alt unat_of_nat take_bit_nat_eq_self) (simp add: take_bit_nat_eq_self)
  let ?h = "h\<lparr>rh_pendingResults := rh_pendingResults h @ [r]\<rparr>"
  show ?thesis
  proof (cases "length (rh_pendingResults h) < unat (rh_maxDegree h)")
    case True
    with assms cmp show ?thesis by (auto simp: AddResult_def helper_ok_def)
  next
    case False
    obtain m' where "processPendingResults env ?h = Inr (?h\<lparr>rh_pendingResults := [], rh_mt := Some m'\<rparr>, None)"
      "mt_ok m'" "mt_grows 0 m m'" "\<not> mt_isEmpty m'"
      using process_ok [of ?h m] m by auto
    with False cmp m assms show ?thesis
      by (auto simp: AddResult_def helper_ok_def mt_grows_def)
  qed
qed

lemma add_results_ok:
  assumes "helper_ok h"
  shows "\<exists>h'. add_results env h rs = Inr h' \<and> helper_ok h' \<and> rh_maxDegree h' = rh_maxDegree h
    \<and> mt_ext (the (rh_mt h)) (the (rh_mt h'))"
  using assms
proof (induction rs arbitrary: h)
  case Nil
  then show ?case by (simp add: add_results_def)
next
  case (Cons r rs)
  obtain h1 where h1: "AddResult env h r = Inr (h1, None)" "helper_ok h1"
    "rh_maxDegree h1 = rh_maxDegree h" "mt_grows 0 (the (rh_mt h)) (the (rh_mt h1))"
    using AddResult_ok [OF Cons.prems] by blast
  from Cons.IH [OF h1(2)] h1 mt_ext_trans [OF mt_grows_ext [OF h1(4)]] show ?case
    by (auto simp: add_results_def)
qed

lemma Done_ok:
  assumes "helper_ok h"
  shows "if mt_isEmpty (the (rh_mt h)) then helper_Done env h = Inr (rh_pendingResults h, None, None)
    else \<exists>m'. helper_Done env h = Inr ([], Some (getSummery m'), None) \<and> mt_ext (the (rh_mt h)) m'
      \<and> mt_maxDegree m' = rh_maxDegree h \<and> getMaxLevelHashes m' \<noteq> []
      \<and> length (getMaxLevelHashes m') \<le> unat (rh_maxDegree h)"
proof -
  obtain m where m: "rh_mt h = Some m" "mt_ok m" "mt_maxDegree m = rh_maxDegree h" "rh_hashingEnabled h"
    using assms by (auto simp: helper_ok_def)
  show ?thesis
  proof (cases "mt_isEmpty m")
    case True
    with m show ?thesis by (simp add: helper_Done_def)
  next
    case False
    obtain m1 where m1: "(if rh_pendingResults h \<noteq> [] then processPendingResults env h else Inr (h, None))
        = Inr (h\<lparr>rh_pendingResults := [], rh_mt := Some m1\<rparr>, None)" "mt_ok m1" "mt_grows 0 m m1"
    proof (cases "rh_pendingResults h = []")
      case True
      with m that [of m] show ?thesis by simp
    next
      case False
      with process_ok [OF m(1,2)] that show ?thesis by auto
    qed
    obtain m2 where m2: "mt_done env m1 = (m2, None)" "mt_grows 0 m1 m2"
      "length (getMaxLevelHashes m2) \<le> unat (mt_maxDegree m1)"
      using done_ok [OF m1(2)] by blast
    have ext: "mt_ext m m2" using m1(3) m2(2) by (blast intro: mt_ext_trans mt_grows_ext)
    have "\<not> mt_isEmpty m1" using mt_ext_nonempty [OF m(2) mt_grows_ext [OF m1(3)] False] .
    then have "getMaxLevelHashes m2 \<noteq> []"
      using m2(2) m1(2)
      by (auto simp: mt_grows_def getMaxLevelHashes_def mt_isEmpty_def mt_ok_def mt_inv_def Let_def)
    with False m m1 m2 ext show ?thesis
      by (auto simp: helper_Done_def mt_grows_def)
  qed
qed

lemma add_results_count:
  assumes "helper_ok h"
  shows "if mt_isEmpty (the (rh_mt h)) \<and> length (rh_pendingResults h) + length rs \<le> unat (rh_maxDegree h)
    then add_results env h rs = Inr (h\<lparr>rh_pendingResults := rh_pendingResults h @ rs\<rparr>)
    else \<exists>h'. add_results env h rs = Inr h' \<and> helper_ok h' \<and> rh_maxDegree h' = rh_maxDegree h
      \<and> \<not> mt_isEmpty (the (rh_mt h'))"
  using assms
proof (induction rs arbitrary: h)
  case Nil
  then show ?case by (auto simp: add_results_def helper_ok_def)
next
  case (Cons r rs)
  obtain h1 where h1: "AddResult env h r = Inr (h1, None)" "helper_ok h1"
    "rh_maxDegree h1 = rh_maxDegree h" "mt_grows 0 (the (rh_mt h)) (the (rh_mt h1))"
    "if length (rh_pendingResults h) < unat (rh_maxDegree h)
       then h1 = h\<lparr>rh_pendingResults := rh_pendingResults h @ [r]\<rparr>
       else rh_pendingResults h1 = [] \<and> \<not> mt_isEmpty (the (rh_mt h1))"
    using AddResult_ok [OF Cons.prems] by blast
  have step: "add_results env h (r # rs) = add_results env h1 rs"
    using h1(1) by (simp add: add_results_def)
  have "mt_ok (the (rh_mt h))" using Cons.prems by (simp add: helper_ok_def)
  then have ne: "\<not> mt_isEmpty (the (rh_mt h)) \<Longrightarrow> \<not> mt_isEmpty (the (rh_mt h1))"
    using mt_ext_nonempty mt_grows_ext [OF h1(4)] by blast
  show ?case
    using Cons.IH [OF h1(2)] h1(3,5) ne unfolding step
    by (cases "length (rh_pendingResults h) < unat (rh_maxDegree h)") (auto split: if_splits)
qed

lemma merkle_of_spec:
  assumes "2 \<le> unat d" "unat d + 1 < 2 ^ 32"
  shows "if length rs \<le> unat d then merkle_of env d rs = Inr (rs, None, None)
    else \<exists>s. merkle_of env d rs = Inr ([], Some s, None) \<and> ms_MaxDegree s = d
      \<and> 1 \<le> length (ms_MaxLevelHashes s) \<and> length (ms_MaxLevelHashes s) \<le> unat d \<and> 1 \<le> ms_MaxLevel s"
proof -
  obtain h where h: "NewRangeQueryResultsHelper True d = Inr h" "helper_ok h" "rh_maxDegree h = d"
    "rh_pendingResults h = []" "mt_isEmpty (the (rh_mt h))"
    using New_helper_ok [OF assms] by blast
  show ?thesis
  proof (cases "length rs \<le> unat d")
    case True
    let ?h = "h\<lparr>rh_pendingResults := rs\<rparr>"
    have "add_results env h rs = Inr ?h" using add_results_count [OF h(2), of rs] True h by simp
    moreover have "helper_ok ?h" using True h by (simp add: helper_ok_def)
    ultimately show ?thesis using Done_ok [of ?h] True h by (simp add: merkle_of_def)
  next
    case False
    then obtain h' where h': "add_results env h rs = Inr h'" "helper_ok h'" "rh_maxDegree h' = d"
      "\<not> mt_isEmpty (the (rh_mt h'))"
      using add_results_count [OF h(2), of rs] h by auto
    have "1 \<le> mt_maxLevel (the (rh_mt h'))" using h'(2) by (auto simp: helper_ok_def mt_ok_def mt_inv_def)
    with False h' Done_ok [of h'] h(1) show ?thesis
      by (auto simp: merkle_of_def getSummery_def Suc_le_eq mt_ext_def)
  qed
qed

end

section \<open>The incremental comparison gives the final verdict\<close>

text \<open>
  The state of the comparison: nothing compared while the tree is lower than the recorded one,
  and the hashes of the top level matched so far once it is as high.
\<close>

definition cmp_inv :: "MerkleSummary \<Rightarrow> merkleTree \<Rightarrow> int \<Rightarrow> bool" where
  "cmp_inv s m j \<longleftrightarrow>
     mt_maxLevel m < ms_MaxLevel s \<and> j = -1
     \<or> mt_maxLevel m = ms_MaxLevel s \<and> j = int (length (getMaxLevelHashes m)) - 1
       \<and> prefix (getMaxLevelHashes m) (ms_MaxLevelHashes s)"

lemma prefix_snoc_iff:
  "prefix (bs @ [x]) ys \<longleftrightarrow> prefix bs ys \<and> length bs < length ys \<and> ys ! length bs = x"
proof
  assume r: "prefix bs ys \<and> length bs < length ys \<and> ys ! length bs = x"
  then obtain zs where ys: "ys = bs @ zs" by (auto simp: prefix_def)
  with r show "prefix (bs @ [x]) ys" by (cases zs) (auto simp: prefix_def)
qed (auto simp: prefix_def)

lemma summary_differs:
  assumes "mt_ext m m'" "mt_maxLevel m = ms_MaxLevel s"
    and "\<not> prefix (getMaxLevelHashes m) (ms_MaxLevelHashes s)"
  shows "getSummery m' \<noteq> s"
  using assms by (auto simp: mt_ext_def getSummery_def)

lemma mt_grows_E:
  assumes "mt_grows 0 m m'"
  obtains (same) "mt_maxLevel m' = mt_maxLevel m" "getMaxLevelHashes m' = getMaxLevelHashes m"
  | (add) x where "mt_maxLevel m' = mt_maxLevel m" "getMaxLevelHashes m' = getMaxLevelHashes m @ [x]"
  | (up) x where "mt_maxLevel m' = Suc (mt_maxLevel m)" "getMaxLevelHashes m' = [x]"
      "unat (mt_maxDegree m) \<le> length (getMaxLevelHashes m)"
proof -
  have one: "t = [] \<or> (\<exists>x. t = [x])" if "length t \<le> 1" for t :: "bytes list"
    using that by (cases t) auto
  consider t where "mt_maxLevel m' = mt_maxLevel m" "getMaxLevelHashes m' = getMaxLevelHashes m @ t" "length t \<le> 1"
    | "mt_maxLevel m' = Suc (mt_maxLevel m)" "length (getMaxLevelHashes m') = 1"
      "unat (mt_maxDegree m) \<le> length (getMaxLevelHashes m)"
    using assms by (auto simp: mt_grows_def getMaxLevelHashes_def Let_def split: if_splits)
  then show ?thesis
  proof cases
    case 1
    with one [of t] same add show ?thesis by auto
  next
    case 2
    with up show ?thesis by (auto simp: length_Suc_conv)
  qed
qed

lemma cmp_inv_step:
  assumes "cmp_inv s m j" "mt_grows 0 m m'"
    and "mt_maxLevel m' \<le> ms_MaxLevel s \<or> length (ms_MaxLevelHashes s) < unat (mt_maxDegree m)"
  shows "mt_maxLevel m' < ms_MaxLevel s \<and> j = -1
    \<or> mt_maxLevel m' = ms_MaxLevel s
      \<and> (j = int (length (getMaxLevelHashes m')) - 1 \<and> prefix (getMaxLevelHashes m') (ms_MaxLevelHashes s)
         \<or> j = int (length (getMaxLevelHashes m')) - 2
           \<and> prefix (butlast (getMaxLevelHashes m')) (ms_MaxLevelHashes s) \<and> getMaxLevelHashes m' \<noteq> [])"
proof -
  from assms(2) show ?thesis
  proof (cases rule: mt_grows_E)
    case same
    with assms(1) show ?thesis by (auto simp: cmp_inv_def)
  next
    case (add x)
    with assms(1) show ?thesis by (auto simp: cmp_inv_def)
  next
    case (up x)
    with assms(1,3) show ?thesis by (auto simp: cmp_inv_def dest: prefix_length_le)
  qed
qed

definition reads_of :: "VersionedKV list \<Rightarrow> KVRead list" where
  "reads_of kvs = map (\<lambda>kv. NewKVRead (kv_Key kv) (kv_Version kv)) kvs"

definition final_summary :: "merkle_env \<Rightarrow> RangeQueryResultsHelper \<Rightarrow> KVRead list \<Rightarrow> MerkleSummary option \<Rightarrow> bool" where
  "final_summary env h rs fs \<longleftrightarrow>
     (\<exists>h' p. add_results env h rs = Inr h' \<and> helper_Done env h' = Inr (p, fs, None))"

context merkle_ok
begin

lemma final_summary_exists: "helper_ok h \<Longrightarrow> \<exists>fs. final_summary env h rs fs"
  using add_results_ok [of h rs] Done_ok unfolding final_summary_def by (metis (full_types))

lemma final_ext:
  assumes "helper_ok h" "final_summary env h rs fs"
  shows "\<exists>m'. mt_ext (the (rh_mt h)) m' \<and> (fs = Some (getSummery m') \<or> fs = None \<and> mt_isEmpty m')"
proof -
  obtain h' p where h': "add_results env h rs = Inr h'" "helper_Done env h' = Inr (p, fs, None)"
    "helper_ok h'" "mt_ext (the (rh_mt h)) (the (rh_mt h'))"
    using assms add_results_ok [OF assms(1), of rs] by (auto simp: final_summary_def)
  show ?thesis
    using Done_ok [OF h'(3)] h'(2,4) by (auto split: if_splits intro: mt_ext_trans)
qed

end

locale hash_validation = merkle_ok env + results_iterator next_of items invar
  for env :: merkle_env and next_of :: "'i \<Rightarrow> ('i \<times> VersionedKV option) res"
    and items :: "'i \<Rightarrow> VersionedKV list" and invar :: "'i \<Rightarrow> bool"
begin

lemma hash_loop_spec:
  assumes "invar i" "helper_ok h" "cmp_inv s (the (rh_mt h)) j" "length (items i) < n"
    and "final_summary env h (reads_of (items i)) fs"
    and "length (ms_MaxLevelHashes s) < unat (rh_maxDegree h) \<or> (\<forall>f. fs = Some f \<longrightarrow> ms_MaxLevel f \<le> ms_MaxLevel s)"
  shows "hash_validate_loop env next_of s n i h j = Inr (fs = Some s)"
  using assms
proof (induction n arbitrary: i h j)
  case 0
  then show ?case by simp
next
  case (Suc n)
  show ?case
  proof (cases "items i")
    case Nil
    then obtain i' where "next_of i = Inr (i', None)" using next_nil [OF Suc.prems(1)] by blast
    with Suc.prems(5) Nil show ?thesis
      by (auto simp: final_summary_def reads_of_def add_results_def equal_ok)
  next
    case (Cons kv kvs)
    let ?r = "NewKVRead (kv_Key kv) (kv_Version kv)"
    obtain i' where i': "next_of i = Inr (i', Some kv)" "items i' = kvs" "invar i'"
      using next_cons [OF Suc.prems(1) Cons] by blast
    obtain h' where h': "AddResult env h ?r = Inr (h', None)" "helper_ok h'" "rh_maxDegree h' = rh_maxDegree h"
      "mt_grows 0 (the (rh_mt h)) (the (rh_mt h'))"
      using AddResult_ok [OF Suc.prems(2)] by blast
    let ?m = "the (rh_mt h)" and ?m' = "the (rh_mt h')"
    have fin: "final_summary env h' (reads_of (items i')) fs"
      using Suc.prems(5) h'(1) i'(2) Cons by (simp add: final_summary_def reads_of_def add_results_def)
    then obtain mf where mf: "mt_ext ?m' mf" "fs = Some (getSummery mf) \<or> fs = None \<and> mt_isEmpty mf"
      using final_ext [OF h'(2)] by blast
    have sum: "GetMerkleSummary h' = Inr (Some (getSummery ?m'))"
      using h'(2) by (auto simp: GetMerkleSummary_def helper_ok_def)
    have rec: "hash_validate_loop env next_of s n i' h' k = Inr (fs = Some s)"
      if "cmp_inv s ?m' k" for k
      using Suc.IH [OF i'(3) h'(2) that _ fin] Suc.prems(4,6) Cons i'(2) h'(3) by simp
    have low: "mt_maxLevel ?m' \<le> ms_MaxLevel s \<or> length (ms_MaxLevelHashes s) < unat (mt_maxDegree ?m)"
    proof -
      have "1 \<le> mt_maxLevel ?m" "mt_maxDegree ?m = rh_maxDegree h"
        using Suc.prems(2) by (auto simp: helper_ok_def mt_ok_def mt_inv_def)
      with Suc.prems(3,6) mf show ?thesis
        by (auto simp: mt_ext_def cmp_inv_def mt_isEmpty_def getSummery_def)
    qed
    have loop: "hash_validate_loop env next_of s (Suc n) i h j =
      (if mt_maxLevel ?m' < ms_MaxLevel s \<or> j = int (length (getMaxLevelHashes ?m')) - 1
       then hash_validate_loop env next_of s n i' h' j
       else if length (getMaxLevelHashes ?m') > length (ms_MaxLevelHashes s) then Inr False
       else res_bind (index_at (getMaxLevelHashes ?m') (nat (j + 1))) (\<lambda>x.
            res_bind (index_at (ms_MaxLevelHashes s) (nat (j + 1))) (\<lambda>y.
              if x \<noteq> y then Inr False else hash_validate_loop env next_of s n i' h' (j + 1))))"
      using i'(1) h'(1) sum by (simp add: getSummery_def Let_def)
    from cmp_inv_step [OF Suc.prems(3) h'(4) low]
    consider "cmp_inv s ?m' j" "mt_maxLevel ?m' < ms_MaxLevel s \<or> j = int (length (getMaxLevelHashes ?m')) - 1"
      | x bs where "mt_maxLevel ?m' = ms_MaxLevel s" "getMaxLevelHashes ?m' = bs @ [x]"
        "j = int (length bs) - 1" "prefix bs (ms_MaxLevelHashes s)"
      by (cases "getMaxLevelHashes ?m'" rule: rev_cases) (auto simp: cmp_inv_def)
    then show ?thesis
    proof cases
      case 1
      then show ?thesis using rec loop by simp
    next
      case 2
      have differs: "\<not> prefix (bs @ [x]) (ms_MaxLevelHashes s) \<Longrightarrow> fs \<noteq> Some s"
        using summary_differs [OF mf(1) 2(1)] 2(2) mf(2) by auto
      show ?thesis
      proof (cases "prefix (bs @ [x]) (ms_MaxLevelHashes s)")
        case True
        moreover have "cmp_inv s ?m' (j + 1)" using 2 True by (simp add: cmp_inv_def)
        ultimately show ?thesis
          using 2 rec loop prefix_length_le [OF True] by (auto simp: index_at_def prefix_snoc_iff)
      next
        case False
        then show ?thesis
          using 2 loop differs by (auto simp: index_at_def prefix_snoc_iff)
      qed
    qed
  qed
qed

text \<open>
  The early exits never change the verdict: the validator accepts exactly when the recorded
  summary is the summary of the current results.
\<close>

lemma hash_validate_spec:
  assumes "invar i" "length (items i) < n" "GetReadsMerkleHashes rqi = Some s"
    and "2 \<le> unat (ms_MaxDegree s)" "unat (ms_MaxDegree s) + 1 < 2 ^ 32" "1 \<le> ms_MaxLevel s"
    and "merkle_of env (ms_MaxDegree s) (reads_of (items i)) = Inr (p, fs, None)"
    and "length (ms_MaxLevelHashes s) < unat (ms_MaxDegree s) \<or> (\<forall>f. fs = Some f \<longrightarrow> ms_MaxLevel f \<le> ms_MaxLevel s)"
  shows "res_bind (hash_init rqi) (\<lambda>h. hash_validate env next_of n rqi h i) = Inr (fs = Some s)"
proof -
  obtain h where h: "NewRangeQueryResultsHelper True (ms_MaxDegree s) = Inr h" "helper_ok h"
    "rh_maxDegree h = ms_MaxDegree s" "mt_maxLevel (the (rh_mt h)) = 1" "getMaxLevelHashes (the (rh_mt h)) = []"
    using New_helper_ok [OF assms(4,5)] by blast
  have "final_summary env h (reads_of (items i)) fs"
    using assms(7) h(1) by (auto simp: merkle_of_def final_summary_def res_bind_Inr_conv)
  moreover have "cmp_inv s (the (rh_mt h)) (-1)" using h(4,5) assms(6) by (auto simp: cmp_inv_def)
  ultimately have "hash_validate_loop env next_of s n i h (-1) = Inr (fs = Some s)"
    using hash_loop_spec [OF assms(1) h(2) _ assms(2)] assms(8) h(3) by simp
  then show ?thesis using assms(3) h(1) by (simp add: hash_init_def hash_validate_def)
qed

end

section \<open>An environment\<close>

text \<open>The identity as a collision-free hash, and the wire codec on lists of reads.\<close>

definition id_env :: merkle_env where
  "id_env = \<lparr>me_hash = Inr, me_ser = (\<lambda>rs. Inr (e_list e_read rs)), me_equal = (\<lambda>a b. b = Some a)\<rparr>"

interpretation mk: merkle_ok id_env
  by standard (simp_all add: id_env_def)

interpretation hvc: hash_validation id_env ci_Next ci_items ci_ok
  by standard

end
