(* ===== verification/Messages.thy ===== *)
theory Messages
  imports GoLib
begin

text \<open>
  The messages the peer exchanges and stores, as the protobuf definitions have them: a pointer to a
  message is an option, a byte field whose nil value the code tests is a \<open>slice\<close>, any other byte
  field and any string is \<open>bytes\<close>, and a repeated field is a list (a decoded field without elements
  is nil, so the tests for nil are tests for the empty list).

  The functions of \<^verbatim>\<open>protos/utils\<close> that take messages apart are not part of the repository; they
  are the record \<open>proto_utils\<close>, which every environment of a component extends or contains.
\<close>

datatype HeaderType = ENDORSER_TRANSACTION | CONFIG | CONFIG_UPDATE | CHAINCODE_PACKAGE | OtherHeader nat

record ChannelHeader =
  ch_Type :: HeaderType
  ch_ChannelId :: bytes
  ch_TxId :: bytes
  ch_Timestamp :: bytes
  ch_Epoch :: u64
  ch_Extension :: bytes

record SignatureHeader =
  sh_Creator :: slice
  sh_Nonce :: slice

record Header =
  hd_ChannelHeader :: bytes
  hd_SignatureHeader :: bytes

record Payload =
  pl_Header :: "Header option"
  pl_Data :: slice

record Envelope =
  en_Payload :: slice
  en_Signature :: slice

record ChaincodeID =
  cc_Path :: bytes
  cc_Name :: bytes
  cc_Version :: bytes

record ChaincodeHeaderExtension =
  hx_PayloadVisibility :: slice
  hx_ChaincodeId :: "ChaincodeID option"

record TransactionAction =
  ta_Header :: bytes
  ta_Payload :: bytes

record Endorsement =
  ed_Endorser :: bytes
  ed_Signature :: bytes

record ChaincodeEndorsedAction =
  ea_ProposalResponsePayload :: slice
  ea_Endorsements :: "Endorsement list"

record ChaincodeActionPayload =
  cap_ChaincodeProposalPayload :: bytes
  cap_Action :: "ChaincodeEndorsedAction option"

record ProposalResponsePayload =
  prp_ProposalHash :: bytes
  prp_Extension :: slice

record ChaincodeAction =
  ca_Results :: bytes
  ca_ChaincodeId :: "ChaincodeID option"

record ChaincodeInput =
  in_Args :: "bytes list"

record ChaincodeSpec =
  cs_ChaincodeId :: "ChaincodeID option"
  cs_Input :: "ChaincodeInput option"
  cs_Desc :: bytes

record ChaincodeInvocationSpec =
  cis_ChaincodeSpec :: "ChaincodeSpec option"

record ChaincodeDeploymentSpec =
  cds_ChaincodeSpec :: "ChaincodeSpec option"
  cds_CodePackage :: bytes

record SignedChaincodeDeploymentSpec =
  sds_ChaincodeDeploymentSpec :: slice
  sds_InstantiationPolicy :: slice
  sds_OwnerEndorsements :: "Endorsement option list"

record Proposal =
  pp_Header :: bytes
  pp_Payload :: bytes

record SignedProposal =
  sp_ProposalBytes :: slice
  sp_Signature :: slice

text \<open>
  \<open>pu_UnmarshalChaincodeSpec\<close> is the name of the chaincode that decoding the bytes as a
  \<^verbatim>\<open>ChaincodeSpec\<close> finds, none if there is no id in it: the only use of that message is this field.
\<close>

record proto_utils =
  pu_GetEnvelopeFromBlock :: "bytes \<Rightarrow> Envelope res"
  pu_GetPayload :: "Envelope \<Rightarrow> Payload res"
  pu_UnmarshalChannelHeader :: "bytes \<Rightarrow> ChannelHeader res"
  pu_GetSignatureHeader :: "bytes \<Rightarrow> SignatureHeader res"
  pu_GetHeader :: "bytes \<Rightarrow> Header res"
  pu_GetProposal :: "bytes \<Rightarrow> Proposal res"
  pu_GetChaincodeHeaderExtension :: "Header \<Rightarrow> ChaincodeHeaderExtension res"
  pu_GetTransaction :: "bytes \<Rightarrow> TransactionAction option list res"
  pu_GetChaincodeActionPayload :: "bytes \<Rightarrow> ChaincodeActionPayload res"
  pu_GetChaincodeProposalPayload :: "bytes \<Rightarrow> bytes res"
  pu_UnmarshalInvocationSpec :: "bytes \<Rightarrow> ChaincodeInvocationSpec res"
  pu_UnmarshalChaincodeSpec :: "bytes \<Rightarrow> bytes option"
  pu_GetChaincodeDeploymentSpec :: "bytes \<Rightarrow> ChaincodeDeploymentSpec res"
  pu_GetProposalResponsePayload :: "bytes \<Rightarrow> ProposalResponsePayload res"
  pu_GetChaincodeAction :: "bytes \<Rightarrow> ChaincodeAction res"
  pu_GetActionFromEnvelope :: "bytes \<Rightarrow> ChaincodeAction res"
  pu_GetPayloads :: "TransactionAction \<Rightarrow> ChaincodeAction res"

text \<open>Reading a field through a pointer, and a slice as a string.\<close>

definition deref :: "'a option \<Rightarrow> 'a res" where
  "deref p = (case p of None \<Rightarrow> Inl (Panic ''nil pointer dereference'') | Some x \<Rightarrow> Inr x)"

lemma deref_simps [simp]: "deref (Some x) = Inr x" "deref None = Inl (Panic ''nil pointer dereference'')"
  by (simp_all add: deref_def)

lemma deref_Inr [simp]: "deref p = Inr x \<longleftrightarrow> p = Some x"
  by (cases p) simp_all

definition str_of :: "slice \<Rightarrow> bytes" where
  "str_of v = (case v of None \<Rightarrow> [] | Some b \<Rightarrow> b)"

text \<open>A call whose returned error is handled; a panic passes through.\<close>

definition res_try :: "'a res \<Rightarrow> (error \<Rightarrow> 'b res) \<Rightarrow> ('a \<Rightarrow> 'b res) \<Rightarrow> 'b res" where
  "res_try x h f = (case x of Inl (Err e) \<Rightarrow> h (Err e) | Inl p \<Rightarrow> Inl p | Inr v \<Rightarrow> f v)"

lemma res_try_simps [simp]:
  "res_try (Inr v) h f = f v" "res_try (Inl (Err e)) h f = h (Err e)" "res_try (Inl (Panic m)) h f = Inl (Panic m)"
  "res_try (Inl OutOfFuel) h f = Inl OutOfFuel"
  by (simp_all add: res_try_def)

lemma res_try_cong [fundef_cong]:
  assumes "x = y" "\<And>e. y = Inl e \<Longrightarrow> h e = h' e" "\<And>v. y = Inr v \<Longrightarrow> f v = g v"
  shows "res_try x h f = res_try y h' g"
  using assms by (cases y) (auto simp: res_try_def split: error.split)

lemma res_try_Inr_conv [res_simps]:
  "res_try x h f = Inr y \<longleftrightarrow> (\<exists>e. x = Inl (Err e) \<and> h (Err e) = Inr y) \<or> (\<exists>v. x = Inr v \<and> f v = Inr y)"
  by (cases x) (auto simp: res_try_def split: error.split)

lemma res_bind_try [res_simps]:
  "res_bind (res_try x h f) g = res_try x (\<lambda>e. res_bind (h e) g) (\<lambda>v. res_bind (f v) g)"
  by (cases x) (auto simp: res_try_def split: error.split)

text \<open>A test for nil that ends in an error.\<close>

definition need :: "'a option \<Rightarrow> string \<Rightarrow> ('a \<Rightarrow> 'b res) \<Rightarrow> 'b res" where
  "need p msg f = (case p of None \<Rightarrow> Inl (Err msg) | Some x \<Rightarrow> f x)"

lemma need_simps [simp]: "need (Some x) msg f = f x" "need None msg f = Inl (Err msg)"
  by (simp_all add: need_def)

lemma need_Inr_conv [res_simps]: "need p msg f = Inr y \<longleftrightarrow> (\<exists>x. p = Some x \<and> f x = Inr y)"
  by (cases p) simp_all

lemma need_cong [fundef_cong]: "p = q \<Longrightarrow> (\<And>x. q = Some x \<Longrightarrow> f x = g x) \<Longrightarrow> need p msg f = need q msg g"
  by (cases q) simp_all

lemma if_err_conv [res_simps]: "(if b then Inl e else r) = Inr y \<longleftrightarrow> \<not> b \<and> r = Inr y"
  by simp

end
