(* ===== verification/Validator.thy ===== *)
theory Validator
  imports RList Cache TxFlags Merkle Messages
begin

text \<open>
  \<^verbatim>\<open>core/ledger/kvledger/txmgmt/validator/statebasedval/state_based_validator.go\<close>: the validation
  of the transactions of a block against the committed state and the updates of the preceding
  transactions (MVCC read checks, phantom checks), the server-side computations on written keys
  (\<^verbatim>\<open>__CAL_\<close>, \<^verbatim>\<open>__RLIST_\<close>, \<^verbatim>\<open>##RCOUNT##\<close>), the transaction statistics kept under \<^verbatim>\<open>qscc\<close>, and the
  preparation of the update batch.

  The package variables \<^verbatim>\<open>rListCache\<close> and \<^verbatim>\<open>curBlockStatistics\<close>, the heap of record lists and the
  number of clock readings so far are the record \<open>vstate\<close>. What is outside the repository is the
  record \<open>val_env\<close>: the unmarshalling functions of \<^verbatim>\<open>protos/utils\<close>, the protobuf coding of the
  statistics, the numbers of the validation codes, the clock, and the databases. A returned error
  ends the block and is \<open>Inl (Err _)\<close>; the state after it is not used by the code again.
\<close>

record Block =
  blk_Number :: u64
  blk_Data :: "bytes list"
  blk_TxFilter :: TxValidationFlags

record TransactionStatistics =
  ts_PreTxId :: bytes
  ts_ChaincodeId :: bytes
  ts_Func :: bytes
  ts_ValidationCode :: bytes
  ts_TxSum :: int

record BlockStatistics =
  bs_Number :: u64
  bs_BlockTime :: bytes
  bs_List :: "TransactionStatistics list"

record vstate =
  g_rListCache :: "rlist_ptr Cache option"
  g_curBlockStatistics :: "BlockStatistics option"
  g_heap :: rheap
  g_ticks :: nat

record val_env = proto_utils +
  ve_rl :: rl_env
  ve_fuel :: nat
  ve_db :: bytes
  ve_merkle :: merkle_env
  ve_codec :: rw_codec
  ve_now :: "nat \<Rightarrow> int"
  ve_code_num :: "TxValidationCode \<Rightarrow> int"
  ve_MarshalStats :: "BlockStatistics \<Rightarrow> slice"
  ve_UnmarshalStats :: "bytes \<Rightarrow> BlockStatistics"

definition v_db :: "val_env \<Rightarrow> versionedDB" where
  "v_db env = e_dbs (ve_rl env) (ve_db env)"

text \<open>\<^verbatim>\<open>x, _ := v.db.GetState(ns, key)\<close> and \<^verbatim>\<open>vh, _ := v.db.GetLatestSavePoint()\<close>: errors are dropped.\<close>

definition db_read :: "val_env \<Rightarrow> bytes \<Rightarrow> bytes \<Rightarrow> VersionedValue option" where
  "db_read env ns key = (case db_GetState (v_db env) ns key of Inl _ \<Rightarrow> None | Inr v \<Rightarrow> v)"

definition save_point :: "val_env \<Rightarrow> Height option" where
  "save_point env = (case db_GetLatestSavePoint (v_db env) of Inl _ \<Rightarrow> None | Inr h \<Rightarrow> h)"

definition tick :: "val_env \<Rightarrow> vstate \<Rightarrow> int \<times> vstate" where
  "tick env st = (ve_now env (g_ticks st), st\<lparr>g_ticks := g_ticks st + 1\<rparr>)"

section \<open>MVCC checks\<close>

definition validateKVRead :: "val_env \<Rightarrow> bytes \<Rightarrow> KVRead \<Rightarrow> UpdateBatch \<Rightarrow> bool" where
  "validateKVRead env ns kvRead upd =
     (if batch_Exists upd ns (rd_Key kvRead) then False
      else (case db_GetState (v_db env) ns (rd_Key kvRead) of
              Inl _ \<Rightarrow> False
            | Inr versionedValue \<Rightarrow>
                let committedVersion = (case versionedValue of None \<Rightarrow> None | Some vv \<Rightarrow> vv_Version vv)
                in AreSame committedVersion (NewVersion (rd_Version kvRead))))"

fun validateReadSet :: "val_env \<Rightarrow> bytes \<Rightarrow> KVRead list \<Rightarrow> UpdateBatch \<Rightarrow> bool" where
  "validateReadSet env ns [] upd = True"
| "validateReadSet env ns (kvRead # rest) upd =
     (if \<not> validateKVRead env ns kvRead upd then False else validateReadSet env ns rest upd)"

text \<open>
  The error of the validator's \<^verbatim>\<open>init\<close> is dropped: a summary with a degree below 2 leaves the
  results helper nil, and its first use panics. The iterator yields at most \<open>ci_left itr + 1\<close> items.
\<close>

definition validateRangeQuery :: "val_env \<Rightarrow> bytes \<Rightarrow> RangeQueryInfo \<Rightarrow> UpdateBatch \<Rightarrow> bool res" where
  "validateRangeQuery env ns rqi upd =
     (let includeEndKey = \<not> rq_ItrExhausted rqi in
      res_bind (newCombinedIterator (v_db env) upd ns (rq_StartKey rqi) (rq_EndKey rqi) includeEndKey)
        (\<lambda>combinedItr.
           if GetReadsMerkleHashes rqi \<noteq> None then
             (case hash_init rqi of
                Inl _ \<Rightarrow> res_bind (ci_Next combinedItr) (\<lambda>_. Inl (Panic ''nil pointer dereference''))
              | Inr helper \<Rightarrow> hash_validate (ve_merkle env) ci_Next (ci_left combinedItr + 2) rqi helper combinedItr)
           else raw_validate ci_Next rqi combinedItr))"

fun validateRangeQueries :: "val_env \<Rightarrow> bytes \<Rightarrow> RangeQueryInfo list \<Rightarrow> UpdateBatch \<Rightarrow> bool res" where
  "validateRangeQueries env ns [] upd = Inr True"
| "validateRangeQueries env ns (rqi # rest) upd =
     res_bind (validateRangeQuery env ns rqi upd) (\<lambda>valid.
       if \<not> valid then Inr False else validateRangeQueries env ns rest upd)"

section \<open>Computed writes\<close>

definition CAL_PREFIX :: bytes where "CAL_PREFIX = ''__CAL_''"

definition RLIST_PREFIX :: bytes where "RLIST_PREFIX = ''__RLIST_''"

definition RCOUNT :: bytes where "RCOUNT = ''##RCOUNT##''"

definition cal_value :: "VersionedValue \<Rightarrow> int" where
  "cal_value vv = (let (v, err) = ParseInt (str_of (vv_Value vv)) in if err then 0 else v)"

text \<open>One \<^verbatim>\<open>__CAL_\<close> write on the maps \<^verbatim>\<open>mapUpdates\<close> and \<^verbatim>\<open>mapCals\<close>; \<open>vStr\<close> is the key after the prefix.\<close>

definition cal_step ::
    "val_env \<Rightarrow> bytes \<Rightarrow> Height option \<Rightarrow> bytes \<Rightarrow> slice \<Rightarrow> nsUpdates \<times> nsUpdates \<Rightarrow> (nsUpdates \<times> nsUpdates) res" where
  "cal_step env ns vh vStr val maps =
     (let (mapUpdates, mapCals) = maps in
      res_bind (slice_to vStr 3) (\<lambda>calMethod.
      res_bind (slice_from vStr 4) (\<lambda>rest.
        let key = hd (split_on CHR '','' rest);
            lParam = fst (ParseInt (str_of val));
            existValue =
              (case gm_get mapCals key of
                 Some vv \<Rightarrow> Some vv
               | None \<Rightarrow> (case gm_get mapUpdates key of Some vv \<Rightarrow> Some vv | None \<Rightarrow> db_read env ns key));
            existValue =
              (case existValue of None \<Rightarrow> \<lparr>vv_Value = Some ''0'', vv_Version = vh\<rparr> | Some vv \<Rightarrow> vv);
            lValue = cal_value existValue;
            lValue = (if EqualFold calMethod ''ADD'' then wrap64 (lValue + lParam) else lValue);
            lValue = (if EqualFold calMethod ''MUL'' then wrap64 (lValue * lParam) else lValue)
        in Inr (gm_del key mapUpdates,
                gm_put key (existValue\<lparr>vv_Value := Some (FormatInt lValue)\<rparr>) mapCals))))"

text \<open>The record list a write names: of this block, of the cache, or a new one.\<close>

definition get_rlist :: "val_env \<Rightarrow> bytes \<Rightarrow> bytes \<Rightarrow> nsRLists \<times> vstate \<Rightarrow> (rlist_ptr \<times> nsRLists \<times> vstate) res" where
  "get_rlist env ns name ms =
     (let (mapRLists, st) = ms in
      case gm_get mapRLists name of
        Some p \<Rightarrow> Inr (p, mapRLists, st)
      | None \<Rightarrow>
          let c = (case g_rListCache st of None \<Rightarrow> NewCache 60000000000 3000000000 | Some c \<Rightarrow> c);
              (now, st) = tick env (st\<lparr>g_rListCache := Some c\<rparr>)
          in (case cache_Get now c name of
                Some p \<Rightarrow> Inr (p, gm_put name p mapRLists, st)
              | None \<Rightarrow>
                  res_bind (NewRList (ve_rl env) (ve_fuel env) (ve_db env) ns name (g_heap st)) (\<lambda>(p, h).
                    let (now, st) = tick env (st\<lparr>g_heap := h\<rparr>)
                    in Inr (p, gm_put name p mapRLists,
                            st\<lparr>g_rListCache := Some (cache_Set now c name p 30000000000)\<rparr>))))"

definition rlist_step ::
    "val_env \<Rightarrow> bytes \<Rightarrow> bytes \<Rightarrow> slice \<Rightarrow> nsRLists \<times> vstate \<Rightarrow> (nsRLists \<times> vstate) res" where
  "rlist_step env ns vStr val ms =
     res_bind (slice_to vStr 3) (\<lambda>lisMethod.
     res_bind (slice_from vStr 4) (\<lambda>rest.
     res_bind (get_rlist env ns (hd (split_on CHR '','' rest)) ms) (\<lambda>(rList, mapRLists, st).
       let rl = ve_rl env; n = ve_fuel env; h = g_heap st in
       res_bind
         (if EqualFold lisMethod ''ADD'' then
            let lisValues = split_on CHR '','' (str_of val) in
            if length lisValues = 2 then
              let (b, err) = ParseInt (lisValues ! 0) in
              if err then rl_AddId rl n rList (lisValues ! 1) h
              else rl_AddIndexId rl n rList b (lisValues ! 1) h
            else rl_AddId rl n rList (lisValues ! 0) h
          else Inr h)
         (\<lambda>h. res_bind
            (if EqualFold lisMethod ''DEL'' then rl_RemoveId rl n rList (str_of val) h else Inr h)
            (\<lambda>h. Inr (mapRLists, st\<lparr>g_heap := h\<rparr>))))))"

type_synonym cal_maps = "nsUpdates \<times> nsUpdates \<times> nsRLists \<times> vstate"

text \<open>The first loop of \<^verbatim>\<open>calWriteSet\<close>; after a \<^verbatim>\<open>__CAL_\<close> prefix the rest of the key is tested again.\<close>

definition cal_write :: "val_env \<Rightarrow> bytes \<Rightarrow> Height option \<Rightarrow> cal_maps \<Rightarrow> KVWrite \<Rightarrow> cal_maps res" where
  "cal_write env ns vh maps kvWrite =
     (let (mapUpdates, mapCals, mapRLists, st) = maps; vStr = wr_Key kvWrite in
      res_bind
        (if HasPrefix vStr CAL_PREFIX then
           let vStr = drop 6 vStr in
           res_bind (cal_step env ns vh vStr (wr_Value kvWrite) (mapUpdates, mapCals)) (\<lambda>m. Inr (vStr, m))
         else Inr (vStr, mapUpdates, mapCals))
        (\<lambda>(vStr, mapUpdates, mapCals).
           if HasPrefix vStr RLIST_PREFIX then
             res_bind (rlist_step env ns (drop 8 vStr) (wr_Value kvWrite) (mapRLists, st)) (\<lambda>(mapRLists, st).
               Inr (mapUpdates, mapCals, mapRLists, st))
           else Inr (mapUpdates, mapCals, mapRLists, st)))"

lemma str_index_bound: "str_index s p = Some k \<Longrightarrow> k + length p \<le> length s"
  by (induction s arbitrary: k)
    (auto simp: HasPrefix_def split: if_splits dest: arg_cong [where f = length])

lemma str_index_RCOUNT: "str_index s RCOUNT = Some k \<Longrightarrow> 0 < length s"
  using str_index_bound [of s RCOUNT k] by (auto simp: RCOUNT_def)

function rcount_loop ::
    "val_env \<Rightarrow> bytes \<Rightarrow> Height option \<Rightarrow> nsUpdates \<Rightarrow> bytes \<Rightarrow> bytes \<Rightarrow> nsUpdates \<times> bytes" where
  "rcount_loop env ns vh mapCals replaceStr valueStr =
     (case str_index replaceStr RCOUNT of
        None \<Rightarrow> (mapCals, valueStr)
      | Some bIndex \<Rightarrow>
          let replaceStr' = drop (bIndex + 10) replaceStr in
          (case str_index replaceStr' RCOUNT of
             None \<Rightarrow> (mapCals, valueStr)
           | Some eIndex \<Rightarrow>
               if eIndex \<le> 0 \<or> eIndex > 64 then (mapCals, valueStr)
               else
                 let replaceVal = take eIndex replaceStr';
                     existValue =
                       (case gm_get mapCals replaceVal of
                          Some vv \<Rightarrow> vv
                        | None \<Rightarrow> (case db_read env ns replaceVal of
                                    Some vv \<Rightarrow> vv
                                  | None \<Rightarrow> \<lparr>vv_Value = Some ''0'', vv_Version = vh\<rparr>));
                     mapCals' = gm_put replaceVal existValue mapCals;
                     lValue = cal_value existValue
                 in rcount_loop env ns vh mapCals' (drop (eIndex + 10) replaceStr')
                      (str_replace (RCOUNT @ replaceVal @ RCOUNT) (FormatInt lValue) valueStr)))"
  by pat_completeness auto
termination
  by (relation "measure (\<lambda>(env, ns, vh, mapCals, replaceStr, valueStr). length replaceStr)")
    (auto dest: str_index_RCOUNT)

declare rcount_loop.simps [simp del]

definition rcount_write :: "val_env \<Rightarrow> bytes \<Rightarrow> Height option \<Rightarrow> nsUpdates \<Rightarrow> KVWrite \<Rightarrow> nsUpdates \<times> KVWrite" where
  "rcount_write env ns vh mapCals kvWrite =
     (let valueStr = str_of (wr_Value kvWrite) in
      if str_contains valueStr RCOUNT then
        let (mapCals, valueStr) = rcount_loop env ns vh mapCals valueStr valueStr
        in (mapCals, kvWrite\<lparr>wr_Value := Some valueStr\<rparr>)
      else (mapCals, kvWrite))"

fun rcount_writes ::
    "val_env \<Rightarrow> bytes \<Rightarrow> Height option \<Rightarrow> nsUpdates \<Rightarrow> KVWrite list \<Rightarrow> nsUpdates \<times> KVWrite list" where
  "rcount_writes env ns vh mapCals [] = (mapCals, [])"
| "rcount_writes env ns vh mapCals (w # ws) =
     (let (mapCals, w) = rcount_write env ns vh mapCals w;
          (mapCals, ws) = rcount_writes env ns vh mapCals ws
      in (mapCals, w # ws))"

text \<open>
  \<^verbatim>\<open>calWriteSet\<close> always answers true. The three maps it works on are the batch's own, and the
  written values it replaces are those of the transaction's write set: both come back changed.
\<close>

definition calWriteSet ::
    "val_env \<Rightarrow> bytes \<Rightarrow> KVWrite list \<Rightarrow> UpdateBatch \<times> vstate \<Rightarrow> (KVWrite list \<times> UpdateBatch \<times> vstate) res" where
  "calWriteSet env ns kvWrites us =
     (let (upd, st) = us;
          upd = fst (GetOrCreateNsUpdates upd ns);
          upd = fst (GetOrCreateNsCals upd ns);
          upd = fst (GetOrCreateNsRLists upd ns);
          vh = save_point env
      in res_bind (foldM (cal_write env ns vh) (GetUpdates upd ns, GetCals upd ns, GetRLists upd ns, st) kvWrites)
           (\<lambda>(mapUpdates, mapCals, mapRLists, st).
              let (mapCals, kvWrites) = rcount_writes env ns vh mapCals kvWrites
              in Inr (kvWrites,
                      set_ns_rlists ns mapRLists (set_ns_cals ns mapCals (set_ns_updates ns mapUpdates upd)), st)))"

section \<open>Validating a transaction\<close>

text \<open>The code, the read-write set with its replaced values, the batch and the state.\<close>

fun validateTx ::
    "val_env \<Rightarrow> TxRwSet \<Rightarrow> UpdateBatch \<times> vstate \<Rightarrow> (TxValidationCode \<times> TxRwSet \<times> UpdateBatch \<times> vstate) res" where
  "validateTx env [] us = Inr (VALID, [], us)"
| "validateTx env (nsRWSet # rest) us =
     (let ns = NameSpace nsRWSet; kv = KvRwSet nsRWSet; (upd, st) = us in
      if \<not> validateReadSet env ns (kvrw_Reads kv) upd then Inr (MVCC_READ_CONFLICT, nsRWSet # rest, us)
      else
        res_bind (validateRangeQueries env ns (kvrw_RangeQueriesInfo kv) upd) (\<lambda>valid.
          if \<not> valid then Inr (PHANTOM_READ_CONFLICT, nsRWSet # rest, us)
          else
            res_bind (calWriteSet env ns (kvrw_Writes kv) us) (\<lambda>(kvWrites, us).
            res_bind (validateTx env rest us) (\<lambda>(code, rest, us).
              Inr (code, nsRWSet\<lparr>KvRwSet := kv\<lparr>kvrw_Writes := kvWrites\<rparr>\<rparr> # rest, us)))))"

definition validateEndorserTX ::
    "val_env \<Rightarrow> bytes \<Rightarrow> bool \<Rightarrow> UpdateBatch \<times> vstate
     \<Rightarrow> (TxRwSet option \<times> TxValidationCode \<times> UpdateBatch \<times> vstate) res" where
  "validateEndorserTX env envBytes doMVCCValidation us =
     (case pu_GetActionFromEnvelope env envBytes of
        Inl _ \<Rightarrow> Inr (None, NIL_TXACTION, us)
      | Inr results \<Rightarrow>
          (case FromProtoBytes (ve_codec env) (ca_Results results) of
             Inl _ \<Rightarrow> Inr (None, INVALID_OTHER_REASON, us)
           | Inr txRWSet \<Rightarrow>
               if doMVCCValidation then
                 res_bind (validateTx env txRWSet us) (\<lambda>(txResult, txRWSet, us).
                   Inr (if txResult \<noteq> VALID then None else Some txRWSet, txResult, us))
               else Inr (Some txRWSet, VALID, us)))"

definition add_write :: "bytes \<Rightarrow> Height \<Rightarrow> UpdateBatch \<Rightarrow> KVWrite \<Rightarrow> UpdateBatch res" where
  "add_write ns txHeight batch kvWrite =
     (if wr_IsDelete kvWrite then Inr (batch_Delete batch ns (wr_Key kvWrite) (Some txHeight))
      else if \<not> HasPrefix (wr_Key kvWrite) CAL_PREFIX \<and> \<not> HasPrefix (wr_Key kvWrite) RLIST_PREFIX then
        batch_Put batch ns (wr_Key kvWrite) (wr_Value kvWrite) (Some txHeight)
      else Inr batch)"

definition addWriteSetToBatch :: "TxRwSet \<Rightarrow> Height \<Rightarrow> UpdateBatch \<Rightarrow> UpdateBatch res" where
  "addWriteSetToBatch txRWSet txHeight batch =
     foldM (\<lambda>batch nsRWSet.
       foldM (add_write (NameSpace nsRWSet) txHeight) batch (kvrw_Writes (KvRwSet nsRWSet))) batch txRWSet"

section \<open>Statistics\<close>

text \<open>
  \<^verbatim>\<open>mapTransStatic\<close> holds pointers to the entries of \<^verbatim>\<open>curBlockStatistics.List\<close>: it maps a key to
  a position of that list. The first argument is the \<^verbatim>\<open>qscc\<close> map of the batch.
\<close>

type_synonym stat_state = "nsUpdates \<times> (bytes, nat) gomap \<times> TransactionStatistics list"

definition stat_key :: "bytes \<Rightarrow> bytes \<Rightarrow> bytes \<Rightarrow> bytes" where
  "stat_key chaincodeId strFunc vcode = chaincodeId @ ''-'' @ strFunc @ ''-'' @ vcode"

definition calStatistics1 ::
    "Height \<Rightarrow> bytes \<Rightarrow> bytes \<Rightarrow> bytes \<Rightarrow> bytes \<Rightarrow> stat_state \<Rightarrow> stat_state" where
  "calStatistics1 vh txId chaincodeId strFunc vcode ss =
     (let (mapUpdates, mapTransStatic, sts) = ss;
          key = stat_key chaincodeId strFunc vcode;
          (mapUpdates, mapTransStatic, sts, i) =
            (case gm_get mapTransStatic key of
               None \<Rightarrow>
                 (mapUpdates, gm_put key (length sts) mapTransStatic,
                  sts @ [\<lparr>ts_PreTxId = [], ts_ChaincodeId = [], ts_Func = [], ts_ValidationCode = [], ts_TxSum = 0\<rparr>],
                  length sts)
             | Some i \<Rightarrow>
                 (gm_put (txId @ ''-'' @ key)
                    \<lparr>vv_Value = Some (ts_PreTxId (sts ! i)), vv_Version = Some vh\<rparr> mapUpdates,
                  mapTransStatic, sts, i))
      in (mapUpdates, mapTransStatic,
          sts[i := (sts ! i)\<lparr>ts_PreTxId := txId, ts_ChaincodeId := chaincodeId, ts_Func := strFunc,
                      ts_ValidationCode := vcode, ts_TxSum := ts_TxSum (sts ! i) + 1\<rparr>]))"

definition calStatistics ::
    "Height option \<Rightarrow> bytes \<Rightarrow> bytes \<Rightarrow> bytes \<Rightarrow> bytes \<Rightarrow> stat_state \<Rightarrow> stat_state" where
  "calStatistics vh txId chaincodeId strFunc vcode ss =
     (case vh of
        None \<Rightarrow> ss
      | Some vh \<Rightarrow>
          (let ss = calStatistics1 vh txId [] [] [] ss;
               ss = calStatistics1 vh txId [] [] vcode ss;
               ss = calStatistics1 vh txId chaincodeId [] [] ss;
               ss = calStatistics1 vh txId chaincodeId [] vcode ss;
               ss = calStatistics1 vh txId chaincodeId strFunc [] ss
           in calStatistics1 vh txId chaincodeId strFunc vcode ss))"

text \<open>The function name for the statistics: at most the first two arguments of the invocation.\<close>

definition stat_func :: "val_env \<Rightarrow> bytes \<Rightarrow> bytes res" where
  "stat_func env data =
     (case pu_GetTransaction env data of
        Inl _ \<Rightarrow> Inr ''func''
      | Inr actions \<Rightarrow>
          res_bind (index_at actions 0) (\<lambda>a0.
          res_bind (deref a0) (\<lambda>action.
            case pu_GetChaincodeActionPayload env (ta_Payload action) of
              Inl _ \<Rightarrow> Inr ''func''
            | Inr cap \<Rightarrow>
                (case pu_GetChaincodeProposalPayload env (cap_ChaincodeProposalPayload cap) of
                   Inl _ \<Rightarrow> Inr ''func''
                 | Inr input \<Rightarrow>
                     (case pu_UnmarshalInvocationSpec env input of
                        Inl _ \<Rightarrow> Inr ''func''
                      | Inr cis \<Rightarrow>
                          res_bind (deref (cis_ChaincodeSpec cis)) (\<lambda>spec.
                            case cs_Input spec of
                              None \<Rightarrow> Inr ''func''
                            | Some inp \<Rightarrow> Inr (foldl (\<lambda>s arg. s @ '','' @ arg) ''func'' (take 2 (in_Args inp)))))))))"

section \<open>Moving the computed values into the updates\<close>

text \<open>Ranging over a map while deleting from it visits every entry of it once.\<close>

definition move_cals :: "UpdateBatch \<Rightarrow> bytes \<Rightarrow> UpdateBatch" where
  "move_cals upd ns =
     (let upd = fst (GetOrCreateNsUpdates upd ns);
          upd = fst (GetOrCreateNsCals upd ns);
          (mapUpdates, n) =
            foldl (\<lambda>(m, n) (k, vv). if gm_get m k = None then (gm_put k vv m, n + 1) else (m, n))
              (GetUpdates upd ns, CalNum upd) (GetCals upd ns)
      in set_ns_cals ns [] (set_ns_updates ns mapUpdates (upd\<lparr>CalNum := n\<rparr>)))"

definition move_rlists :: "val_env \<Rightarrow> UpdateBatch \<times> vstate \<Rightarrow> bytes \<Rightarrow> UpdateBatch \<times> vstate" where
  "move_rlists env us ns =
     (let (upd, st) = us;
          vh = save_point env;
          upd = fst (GetOrCreateNsUpdates upd ns);
          upd = fst (GetOrCreateNsRLists upd ns);
          (mapUpdates, n, h) =
            foldl (\<lambda>(m, n, h) (_, rList).
               let h = rl_SaveState (ve_rl env) rList h;
                   stub = GetPutStub h rList;
                   m = foldl (\<lambda>m (j, value). gm_put j \<lparr>vv_Value = value, vv_Version = vh\<rparr> m) m stub
               in (m, n + length stub, upd_node rList (rl_putStub_update (\<lambda>_. [])) h))
              (GetUpdates upd ns, RListNum upd, g_heap st) (GetRLists upd ns)
      in (set_ns_rlists ns [] (set_ns_updates ns mapUpdates (upd\<lparr>RListNum := n\<rparr>)), st\<lparr>g_heap := h\<rparr>))"

definition moveCalsToUpdate :: "val_env \<Rightarrow> UpdateBatch \<times> vstate \<Rightarrow> UpdateBatch \<times> vstate" where
  "moveCalsToUpdate env us =
     (let (upd, st) = us;
          namespaces = GetCaledNamespaces upd;
          upd = foldl move_cals (upd\<lparr>CalNum := 0, RListNum := 0\<rparr>) namespaces;
          (upd, st) = foldl (move_rlists env) (upd, st) (GetRListsNamespaces upd)
      in (upd\<lparr>UpdateNum := GetUpdateSize upd\<rparr>, st))"

section \<open>Validating a block\<close>

record block_state =
  b_updates :: UpdateBatch
  b_flags :: TxValidationFlags
  b_st :: vstate
  b_mapTransStatic :: "(bytes, nat) gomap"

definition cur_stats :: "vstate \<Rightarrow> BlockStatistics" where
  "cur_stats st = (case g_curBlockStatistics st of None \<Rightarrow> \<lparr>bs_Number = 0, bs_BlockTime = [], bs_List = []\<rparr> | Some s \<Rightarrow> s)"

text \<open>The part of the loop body that depends on the kind of transaction: validation, batch, flags.\<close>

definition process_endorser_tx ::
    "val_env \<Rightarrow> bool \<Rightarrow> u64 \<Rightarrow> nat \<Rightarrow> bytes \<Rightarrow> block_state \<Rightarrow> block_state res" where
  "process_endorser_tx env doMVCCValidation number txIndex envBytes b =
     res_bind (validateEndorserTX env envBytes doMVCCValidation (b_updates b, b_st b))
       (\<lambda>(txRWSet, txResult, upd, st).
     res_bind (SetFlag (b_flags b) txIndex txResult) (\<lambda>flags.
       case txRWSet of
         None \<Rightarrow> Inr (b\<lparr>b_updates := upd, b_st := st, b_flags := flags\<rparr>)
       | Some t \<Rightarrow>
           res_bind (addWriteSetToBatch t (NewHeight number (of_nat txIndex)) upd) (\<lambda>upd.
           res_bind (SetFlag flags txIndex VALID) (\<lambda>flags.
             Inr (b\<lparr>b_updates := upd, b_st := st, b_flags := flags\<rparr>)))))"

definition record_statistics ::
    "val_env \<Rightarrow> Height option \<Rightarrow> nat \<Rightarrow> ChannelHeader \<Rightarrow> bytes \<Rightarrow> block_state \<Rightarrow> block_state res" where
  "record_statistics env vh txIndex chdr data b =
     (let cur = cur_stats (b_st b);
          cur = (if txIndex = 0 then cur\<lparr>bs_BlockTime := ch_Timestamp chdr\<rparr> else cur)
      in res_bind (stat_func env data) (\<lambda>strFunc.
         res_bind (Flag (b_flags b) txIndex) (\<lambda>flag.
         case pu_UnmarshalChaincodeSpec env (ch_Extension chdr) of
           None \<Rightarrow> Inl (Panic ''nil pointer dereference'')
         | Some ccName \<Rightarrow>
             let (qscc, mapTransStatic, sts) =
                   calStatistics vh (ch_TxId chdr) ccName strFunc (FormatInt (ve_code_num env flag))
                     (GetUpdates (b_updates b) ''qscc'', b_mapTransStatic b, bs_List cur)
             in Inr (b\<lparr>b_updates := set_ns_updates ''qscc'' qscc (b_updates b),
                       b_mapTransStatic := mapTransStatic,
                       b_st := (b_st b)\<lparr>g_curBlockStatistics := Some (cur\<lparr>bs_List := sts\<rparr>)\<rparr>\<rparr>))))"

definition process_tx ::
    "val_env \<Rightarrow> bool \<Rightarrow> u64 \<Rightarrow> Height option \<Rightarrow> block_state \<Rightarrow> nat \<times> bytes \<Rightarrow> block_state res" where
  "process_tx env doMVCCValidation number vh b itx =
     (let (txIndex, envBytes) = itx in
      res_bind (IsInvalid (b_flags b) txIndex) (\<lambda>invalid.
        if invalid then Inr b
        else
          res_bind (pu_GetEnvelopeFromBlock env envBytes) (\<lambda>e.
          res_bind (pu_GetPayload env e) (\<lambda>payload.
          res_bind (case pl_Header payload of
                      None \<Rightarrow> Inl (Panic ''nil pointer dereference'')
                    | Some hb \<Rightarrow> pu_UnmarshalChannelHeader env (hd_ChannelHeader hb)) (\<lambda>chdr.
            if ch_Type chdr \<noteq> ENDORSER_TRANSACTION then Inr b
            else
              res_bind (process_endorser_tx env doMVCCValidation number txIndex envBytes b) (\<lambda>b.
                record_statistics env vh txIndex chdr (str_of (pl_Data payload)) b))))))"

definition load_statistics :: "val_env \<Rightarrow> vstate \<Rightarrow> BlockStatistics" where
  "load_statistics env st =
     (case g_curBlockStatistics st of
        Some s \<Rightarrow> s
      | None \<Rightarrow>
          (case db_read env ''qscc'' ''curBlockStatistics'' of
             None \<Rightarrow> \<lparr>bs_Number = 0, bs_BlockTime = [], bs_List = []\<rparr>
           | Some vv \<Rightarrow>
               if length (str_of (vv_Value vv)) > 1 then ve_UnmarshalStats env (str_of (vv_Value vv))
               else \<lparr>bs_Number = 0, bs_BlockTime = [], bs_List = []\<rparr>))"

definition stat_index :: "TransactionStatistics list \<Rightarrow> (bytes, nat) gomap" where
  "stat_index sts =
     foldl (\<lambda>m i. gm_put (stat_key (ts_ChaincodeId (sts ! i)) (ts_Func (sts ! i)) (ts_ValidationCode (sts ! i))) i m)
       [] [0..<length sts]"

definition save_statistics :: "val_env \<Rightarrow> Height option \<Rightarrow> UpdateBatch \<times> vstate \<Rightarrow> UpdateBatch" where
  "save_statistics env vh us =
     (let (upd, st) = us in
      case (ve_MarshalStats env (cur_stats st), vh) of
        (Some buf, Some h) \<Rightarrow>
          let v = \<lparr>vv_Value = Some buf, vv_Version = Some h\<rparr>;
              m = gm_put ''curBlockStatistics'' v (GetUpdates upd ''qscc'')
          in set_ns_updates ''qscc'' (gm_put (''BlockStatistics_'' @ rune_str (bs_Number (cur_stats st))) v m) upd
      | _ \<Rightarrow> upd)"

definition ValidateAndPrepareBatch ::
    "val_env \<Rightarrow> Block \<Rightarrow> bool \<Rightarrow> vstate \<Rightarrow> (UpdateBatch \<times> Block \<times> vstate) res" where
  "ValidateAndPrepareBatch env block doMVCCValidation st =
     (let txsFilter = (if blk_TxFilter block = [] then NewTxValidationFlags (length (blk_Data block))
                       else blk_TxFilter block);
          cur = (load_statistics env st)\<lparr>bs_Number := blk_Number block\<rparr>;
          vh = save_point env;
          b = \<lparr>b_updates = fst (GetOrCreateNsUpdates NewUpdateBatch ''qscc''), b_flags = txsFilter,
               b_st = st\<lparr>g_curBlockStatistics := Some cur\<rparr>, b_mapTransStatic = stat_index (bs_List cur)\<rparr>
      in res_bind (foldM (process_tx env doMVCCValidation (blk_Number block) vh) b (enumerate 0 (blk_Data block)))
           (\<lambda>b. let (upd, st) = moveCalsToUpdate env (b_updates b, b_st b);
                    upd = save_statistics env vh (upd, st)
                in Inr (upd, block\<lparr>blk_TxFilter := b_flags b\<rparr>, st)))"

section \<open>MVCC: what the checks mean\<close>

text \<open>The state a transaction of the block would see: the committed one under the batch so far.\<close>

definition cur_state :: "val_env \<Rightarrow> UpdateBatch \<Rightarrow> bytes \<Rightarrow> bytes \<Rightarrow> VersionedValue option" where
  "cur_state env upd = overlay (dlook (v_db env)) upd"

definition version_of :: "VersionedValue option \<Rightarrow> Height option" where
  "version_of v = (case v of None \<Rightarrow> None | Some vv \<Rightarrow> vv_Version vv)"

definition read_ok :: "val_env \<Rightarrow> UpdateBatch \<Rightarrow> bytes \<Rightarrow> KVRead \<Rightarrow> bool" where
  "read_ok env upd ns r \<longleftrightarrow> batch_Get upd ns (rd_Key r) = None
     \<and> version_of (cur_state env upd ns (rd_Key r)) = NewVersion (rd_Version r)"

lemma validateKVRead_spec:
  assumes "versionedDB_ok (v_db env)" "ns_ok ns"
  shows "validateKVRead env ns r upd \<longleftrightarrow> read_ok env upd ns r"
  using versionedDB_get [OF assms]
  by (auto simp: validateKVRead_def read_ok_def batch_Exists_Get AreSame_eq cur_state_def overlay_def
      version_of_def Let_def)

lemma validateReadSet_spec:
  assumes "versionedDB_ok (v_db env)" "ns_ok ns"
  shows "validateReadSet env ns rs upd \<longleftrightarrow> (\<forall>r \<in> set rs. read_ok env upd ns r)"
  using validateKVRead_spec [OF assms] by (induction rs) auto

text \<open>The live entries of the current state that a recorded range query covers.\<close>

definition covers :: "RangeQueryInfo \<Rightarrow> bytes \<Rightarrow> bool" where
  "covers rqi k \<longleftrightarrow> in_range (rq_StartKey rqi) (rq_EndKey rqi) k \<or> \<not> rq_ItrExhausted rqi \<and> k = rq_EndKey rqi"

definition current_entries :: "val_env \<Rightarrow> UpdateBatch \<Rightarrow> bytes \<Rightarrow> RangeQueryInfo \<Rightarrow> VersionedKV list \<Rightarrow> bool" where
  "current_entries env upd ns rqi kvs \<longleftrightarrow> strict_sorted (map kv_Key kvs)
     \<and> (\<forall>kv. kv \<in> set kvs \<longleftrightarrow> kv_Namespace kv = ns \<and> covers rqi (kv_Key kv)
          \<and> cur_state env upd ns (kv_Key kv) = Some (vv_of kv))"

lemma current_entries_unique:
  "current_entries env upd ns rqi kvs \<Longrightarrow> current_entries env upd ns rqi kvs' \<Longrightarrow> kvs = kvs'"
proof -
  assume a: "current_entries env upd ns rqi kvs" "current_entries env upd ns rqi kvs'"
  then have "set kvs = set kvs'" unfolding current_entries_def by blast
  moreover have "inj_on kv_Key (set kvs \<union> set kvs')"
    using a calculation strict_sorted_distinct unfolding current_entries_def
    by (metis distinct_map sup.idem)
  ultimately show ?thesis
    using a unfolding current_entries_def by (metis list.set_map map_inj_on strict_sorted_eqI)
qed

lemma combined_current:
  assumes "versionedDB_ok (v_db env)" "batch_ok upd" "ns_ok ns" "rq_ItrExhausted rqi \<or> rq_EndKey rqi \<noteq> []"
  obtains itr where "newCombinedIterator (v_db env) upd ns (rq_StartKey rqi) (rq_EndKey rqi)
      (\<not> rq_ItrExhausted rqi) = Inr itr" "ci_ok itr" "current_entries env upd ns rqi (ci_items itr)"
proof -
  obtain itr where itr: "newCombinedIterator (v_db env) upd ns (rq_StartKey rqi) (rq_EndKey rqi)
      (\<not> rq_ItrExhausted rqi) = Inr itr" "ci_ok itr"
    "ci_items itr = filter (\<lambda>kv. \<not> isDelete kv)
         (merge_kv (dscan (v_db env) ns (rq_StartKey rqi) (rq_EndKey rqi))
            (batch_scan upd ns (rq_StartKey rqi) (rq_EndKey rqi))) @
       (if \<not> rq_ItrExhausted rqi then (case overlay (dlook (v_db env)) upd ns (rq_EndKey rqi) of
           None \<Rightarrow> [] | Some vv \<Rightarrow> [kv_of ns (rq_EndKey rqi) vv]) else [])"
    using newCombinedIterator_ok [OF assms(1,3)] by blast
  have "current_entries env upd ns rqi (ci_items itr)"
    using combined_items_mem [OF assms(1-3) _ itr(3)] assms(4)
    unfolding current_entries_def cur_state_def covers_def by auto
  with itr that show ?thesis by blast
qed

text \<open>Raw validation accepts exactly the query whose recorded reads are the current entries.\<close>

lemma validateRangeQuery_raw:
  assumes "versionedDB_ok (v_db env)" "batch_ok upd" "ns_ok ns" "rq_ItrExhausted rqi \<or> rq_EndKey rqi \<noteq> []"
    and "GetReadsMerkleHashes rqi = None" "\<forall>q \<in> set (GetRawReads rqi). rd_Version q \<noteq> None"
  shows "\<exists>kvs. current_entries env upd ns rqi kvs \<and> validateRangeQuery env ns rqi upd =
    Inr (map (\<lambda>kv. (kv_Key kv, kv_Version kv)) kvs = map (\<lambda>q. (rd_Key q, NewVersion (rd_Version q))) (GetRawReads rqi))"
proof -
  obtain itr where itr: "newCombinedIterator (v_db env) upd ns (rq_StartKey rqi) (rq_EndKey rqi)
      (\<not> rq_ItrExhausted rqi) = Inr itr" "ci_ok itr" "current_entries env upd ns rqi (ci_items itr)"
    using combined_current [OF assms(1-4)] by blast
  then show ?thesis
    using comb.raw_validate_spec [OF itr(2) assms(6)] assms(5)
    by (intro exI [of _ "ci_items itr"]) (simp add: validateRangeQuery_def)
qed

end
