(* ===== verification/Serial.thy ===== *)
theory Serial
  imports Validator
begin

text \<open>
  What the validation of a block means. The range-query verdicts depend only on the entries of the
  batch; a plain transaction (no computed keys) is valid exactly when every version it read and every
  range it scanned is still current; and the batch prepared for a block is the sequential application
  of the writes of the valid transactions, each with its own height (\<open>ValidateAndPrepareBatch_spec\<close>).
\<close>

section \<open>The verdict depends on the entries only\<close>

context results_iterator
begin

lemma raw_loop_cong:
  "invar i \<Longrightarrow> invar j \<Longrightarrow> items i = items j \<Longrightarrow>
   raw_validate_loop next_of i r rs = raw_validate_loop next_of j r rs"
proof (induction rs arbitrary: i j r)
  case (Cons q rs)
  obtain i' a where i: "next_of i = Inr (i', a)" "invar i'"
    "items i = (case a of None \<Rightarrow> [] | Some x \<Rightarrow> x # items i')" "a = None \<longrightarrow> items i' = []"
    using next_ok [OF Cons.prems(1)] by blast
  obtain j' b where j: "next_of j = Inr (j', b)" "invar j'"
    "items j = (case b of None \<Rightarrow> [] | Some x \<Rightarrow> x # items j')" "b = None \<longrightarrow> items j' = []"
    using next_ok [OF Cons.prems(2)] by blast
  have "a = b \<and> items i' = items j'"
    using i(3,4) j(3,4) Cons.prems(3) by (cases a; cases b) auto
  with Cons.IH [OF i(2) j(2)] i(1) j(1) show ?case
    by (auto split: option.split intro!: res_bind_cong)
qed simp

lemma raw_validate_cong:
  assumes "invar i" "invar j" "items i = items j"
  shows "raw_validate next_of rqi i = raw_validate next_of rqi j"
proof -
  obtain i' a where i: "next_of i = Inr (i', a)" "invar i'"
    "items i = (case a of None \<Rightarrow> [] | Some x \<Rightarrow> x # items i')" "a = None \<longrightarrow> items i' = []"
    using next_ok [OF assms(1)] by blast
  obtain j' b where j: "next_of j = Inr (j', b)" "invar j'"
    "items j = (case b of None \<Rightarrow> [] | Some x \<Rightarrow> x # items j')" "b = None \<longrightarrow> items j' = []"
    using next_ok [OF assms(2)] by blast
  have "a = b \<and> items i' = items j'" using i(3,4) j(3,4) assms(3) by (cases a; cases b) auto
  then show ?thesis using i j raw_loop_cong [OF i(2) j(2)] by (simp add: raw_validate_def Let_def)
qed

lemma hash_loop_cong:
  "invar i \<Longrightarrow> invar j \<Longrightarrow> items i = kvs \<Longrightarrow> items j = kvs \<Longrightarrow> length kvs < n \<Longrightarrow> length kvs < m \<Longrightarrow>
   hash_validate_loop env next_of s n i h k = hash_validate_loop env next_of s m j h k"
proof (induction kvs arbitrary: i j n m h k)
  case Nil
  obtain n' m' where "n = Suc n'" "m = Suc m'" using Nil.prems(5,6) by (metis list.size(3) gr0_conv_Suc)
  moreover obtain i' j' where "next_of i = Inr (i', None)" "next_of j = Inr (j', None)"
    using next_nil Nil.prems by metis
  ultimately show ?case by simp
next
  case (Cons kv kvs)
  obtain n' m' where nm: "n = Suc n'" "m = Suc m'" "length kvs < n'" "length kvs < m'"
    using Cons.prems(5,6) by (cases n; cases m) auto
  obtain i' where i: "next_of i = Inr (i', Some kv)" "items i' = kvs" "invar i'"
    using next_cons [OF Cons.prems(1,3)] by blast
  obtain j' where j: "next_of j = Inr (j', Some kv)" "items j' = kvs" "invar j'"
    using next_cons [OF Cons.prems(2,4)] by blast
  have same: "hash_validate_loop env next_of s n' i' = hash_validate_loop env next_of s m' j'"
    by (intro ext) (rule Cons.IH [OF i(3) j(3) i(2) j(2) nm(3,4)])
  show ?case unfolding nm(1,2) hash_validate_loop.simps i(1) j(1) res_bind_simps by (simp only: same prod.case option.case)
qed

end

lemma batch_scan_cong:
  assumes "batch_ok a" "batch_ok b" "batch_Get a ns = batch_Get b ns" "ns_ok ns"
  shows "batch_scan a ns s e = batch_scan b ns s e"
  by (rule bsrc.scan_unique [OF assms(1,4) bsrc.scan_sorted [OF assms(2,4)]])
    (simp add: bsrc.scan_mem [OF assms(2,4)] assms(3))

lemma merge_kv_length: "length (merge_kv xs ys) \<le> length xs + length ys"
  by (induction xs ys rule: merge_kv.induct) auto

lemma db_items_length: "length (db_items itr) \<le> length itr"
  by (induction itr rule: db_items.induct) auto

lemma ci_items_length: "length (ci_items itr) \<le> ci_left itr + 1"
proof -
  have d: "length (ci_dbside itr) \<le> length (ci_dbItr itr) + (if ci_dbItem itr = None then 0 else 1)"
    using db_items_length [of "ci_dbItr itr"] by (auto simp: ci_dbside_def split: option.split)
  have u: "length (ci_updside itr) \<le> itr_lastIndex (ci_updatesItr itr) - itr_nextIndex (ci_updatesItr itr)
      + (if ci_updatesItem itr = None then 0 else 1)"
    by (auto simp: ci_updside_def nsIterator_items_def split: option.split)
  have e: "length (ci_enditems itr) \<le> 1" by (auto simp: ci_enditems_def split: option.split)
  have "length (ci_items itr) \<le> length (merge_kv (ci_dbside itr) (ci_updside itr)) + length (ci_enditems itr)"
    by (simp add: ci_items_def)
  also have "\<dots> \<le> ci_left itr + 1"
    using d u e merge_kv_length [of "ci_dbside itr" "ci_updside itr"] by (simp add: ci_left_def)
  finally show ?thesis .
qed

lemma validateRangeQuery_cong:
  assumes "versionedDB_ok (v_db env)" "ns_ok ns" "batch_ok a" "batch_ok b" "batch_Get a ns = batch_Get b ns"
  shows "validateRangeQuery env ns rqi a = validateRangeQuery env ns rqi b"
proof -
  let ?new = "\<lambda>u. newCombinedIterator (v_db env) u ns (rq_StartKey rqi) (rq_EndKey rqi) (\<not> rq_ItrExhausted rqi)"
  have eq: "batch_scan a ns (rq_StartKey rqi) (rq_EndKey rqi) = batch_scan b ns (rq_StartKey rqi) (rq_EndKey rqi)"
    "overlay (dlook (v_db env)) a ns (rq_EndKey rqi) = overlay (dlook (v_db env)) b ns (rq_EndKey rqi)"
    using batch_scan_cong [OF assms(3-5,2)] assms(5) by (simp_all add: overlay_def)
  obtain i where i: "?new a = Inr i" "ci_ok i"
    "ci_items i = filter (\<lambda>kv. \<not> isDelete kv) (merge_kv (dscan (v_db env) ns (rq_StartKey rqi) (rq_EndKey rqi))
         (batch_scan a ns (rq_StartKey rqi) (rq_EndKey rqi))) @
       (if \<not> rq_ItrExhausted rqi then (case overlay (dlook (v_db env)) a ns (rq_EndKey rqi) of
           None \<Rightarrow> [] | Some vv \<Rightarrow> [kv_of ns (rq_EndKey rqi) vv]) else [])"
    using newCombinedIterator_ok [OF assms(1,2)] by blast
  obtain j where j: "?new b = Inr j" "ci_ok j"
    "ci_items j = filter (\<lambda>kv. \<not> isDelete kv) (merge_kv (dscan (v_db env) ns (rq_StartKey rqi) (rq_EndKey rqi))
         (batch_scan b ns (rq_StartKey rqi) (rq_EndKey rqi))) @
       (if \<not> rq_ItrExhausted rqi then (case overlay (dlook (v_db env)) b ns (rq_EndKey rqi) of
           None \<Rightarrow> [] | Some vv \<Rightarrow> [kv_of ns (rq_EndKey rqi) vv]) else [])"
    using newCombinedIterator_ok [OF assms(1,2)] by blast
  have items: "ci_items i = ci_items j" using i(3) j(3) eq by simp
  have "hash_validate (ve_merkle env) ci_Next (ci_left i + 2) rqi h i
      = hash_validate (ve_merkle env) ci_Next (ci_left j + 2) rqi h j" for h
    using comb.hash_loop_cong [OF i(2) j(2) refl items [symmetric], of "ci_left i + 2" "ci_left j + 2"]
      ci_items_length [of i] ci_items_length [of j] items
    by (simp add: hash_validate_def split: option.split)
  moreover have "res_bind (ci_Next i) (\<lambda>_. Inl e) = res_bind (ci_Next j) (\<lambda>_. Inl e :: bool res)" for e
    using ci_Next_ok [OF i(2)] ci_Next_ok [OF j(2)] by auto
  ultimately show ?thesis
    using comb.raw_validate_cong [OF i(2) j(2) items] i(1) j(1)
    by (simp add: validateRangeQuery_def split: sum.split)
qed

lemma validateRangeQueries_cong:
  assumes "versionedDB_ok (v_db env)" "ns_ok ns" "batch_ok a" "batch_ok b" "batch_Get a ns = batch_Get b ns"
  shows "validateRangeQueries env ns rqis a = validateRangeQueries env ns rqis b"
  using validateRangeQuery_cong [OF assms] by (induction rqis) (simp_all cong: if_cong)

lemma validateRangeQuery_hash:
  assumes "versionedDB_ok (v_db env)" "batch_ok upd" "ns_ok ns" "rq_ItrExhausted rqi \<or> rq_EndKey rqi \<noteq> []"
    and "merkle_ok (ve_merkle env)" "GetReadsMerkleHashes rqi = Some s"
    and "2 \<le> unat (ms_MaxDegree s)" "unat (ms_MaxDegree s) + 1 < 2 ^ 32" "1 \<le> ms_MaxLevel s"
    and "current_entries env upd ns rqi kvs"
    and "merkle_of (ve_merkle env) (ms_MaxDegree s) (reads_of kvs) = Inr (p, fs, None)"
    and "length (ms_MaxLevelHashes s) < unat (ms_MaxDegree s) \<or> (\<forall>f. fs = Some f \<longrightarrow> ms_MaxLevel f \<le> ms_MaxLevel s)"
  shows "validateRangeQuery env ns rqi upd = Inr (fs = Some s)"
proof -
  obtain itr where itr: "newCombinedIterator (v_db env) upd ns (rq_StartKey rqi) (rq_EndKey rqi)
      (\<not> rq_ItrExhausted rqi) = Inr itr" "ci_ok itr" "current_entries env upd ns rqi (ci_items itr)"
    using combined_current [OF assms(1-4)] by blast
  have items: "ci_items itr = kvs" using current_entries_unique itr(3) assms(10) by blast
  have hv: "hash_validation (ve_merkle env) ci_Next ci_items ci_ok"
    by (rule hash_validation.intro [OF assms(5) comb.results_iterator_axioms])
  obtain h where h: "hash_init rqi = Inr h"
    using New_helper_ok [OF assms(7,8)] assms(6) by (auto simp: hash_init_def)
  have "hash_validate (ve_merkle env) ci_Next (ci_left itr + 2) rqi h itr = Inr (fs = Some s)"
    using hash_validation.hash_validate_spec [OF hv itr(2) _ assms(6-9) _ assms(12), of "ci_left itr + 2"]
      ci_items_length [of itr] assms(11) items h by simp
  then show ?thesis using itr(1) assms(6) h by (simp add: validateRangeQuery_def)
qed

section \<open>Plain transactions\<close>

text \<open>Writes without computed keys and without placeholders, in well-formed namespaces.\<close>

definition plain_write :: "KVWrite \<Rightarrow> bool" where
  "plain_write w \<longleftrightarrow> \<not> HasPrefix (wr_Key w) CAL_PREFIX \<and> \<not> HasPrefix (wr_Key w) RLIST_PREFIX
     \<and> \<not> str_contains (str_of (wr_Value w)) RCOUNT \<and> (wr_IsDelete w \<or> wr_Value w \<noteq> None)"

definition plain_tx :: "TxRwSet \<Rightarrow> bool" where
  "plain_tx t \<longleftrightarrow> (\<forall>n \<in> set t. ns_ok (NameSpace n) \<and> (\<forall>w \<in> set (kvrw_Writes (KvRwSet n)). plain_write w))"

lemma cal_write_plain: "plain_write w \<Longrightarrow> cal_write env ns vh maps w = Inr maps"
  by (cases maps) (simp add: cal_write_def plain_write_def)

lemma foldM_cal_write_plain: "\<forall>w \<in> set ws. plain_write w \<Longrightarrow> foldM (cal_write env ns vh) maps ws = Inr maps"
  by (induction ws) (simp_all add: cal_write_plain)

lemma rcount_writes_plain: "\<forall>w \<in> set ws. plain_write w \<Longrightarrow> rcount_writes env ns vh mc ws = (mc, ws)"
  by (induction ws) (simp_all add: rcount_write_def plain_write_def)

text \<open>No computed values are pending.\<close>

definition no_cals :: "UpdateBatch \<Rightarrow> bool" where
  "no_cals b \<longleftrightarrow> (\<forall>ns. GetCals b ns = [] \<and> GetRLists b ns = [])"

lemma updates_simps [simp]:
  "updates (fst (GetOrCreateNsCals b ns)) = updates b" "updates (fst (GetOrCreateNsRLists b ns)) = updates b"
  "updates (set_ns_cals ns m b) = updates b" "updates (set_ns_rlists ns r b) = updates b"
  by (simp_all add: GetOrCreateNsCals_def GetOrCreateNsRLists_def set_ns_cals_def set_ns_rlists_def split: option.split)

lemma cals_simps [simp]:
  "GetCals (fst (GetOrCreateNsUpdates b ns)) ns' = GetCals b ns'"
  "GetCals (fst (GetOrCreateNsCals b ns)) ns' = GetCals b ns'"
  "GetCals (fst (GetOrCreateNsRLists b ns)) ns' = GetCals b ns'"
  "GetCals (set_ns_updates ns m b) ns' = GetCals b ns'"
  "GetCals (set_ns_cals ns m b) ns' = (if ns' = ns then m else GetCals b ns')"
  "GetCals (set_ns_rlists ns r b) ns' = GetCals b ns'"
  by (simp_all add: GetCals_def GetOrCreateNsCals_def GetOrCreateNsUpdates_def GetOrCreateNsRLists_def
      set_ns_updates_def set_ns_cals_def set_ns_rlists_def split: option.split)

lemma rlists_simps [simp]:
  "GetRLists (fst (GetOrCreateNsUpdates b ns)) ns' = GetRLists b ns'"
  "GetRLists (fst (GetOrCreateNsCals b ns)) ns' = GetRLists b ns'"
  "GetRLists (fst (GetOrCreateNsRLists b ns)) ns' = GetRLists b ns'"
  "GetRLists (set_ns_updates ns m b) ns' = GetRLists b ns'"
  "GetRLists (set_ns_cals ns m b) ns' = GetRLists b ns'"
  "GetRLists (set_ns_rlists ns r b) ns' = (if ns' = ns then r else GetRLists b ns')"
  by (simp_all add: GetRLists_def GetOrCreateNsCals_def GetOrCreateNsUpdates_def GetOrCreateNsRLists_def
      set_ns_updates_def set_ns_cals_def set_ns_rlists_def split: option.split)

lemma batch_cong:
  "updates a = updates b \<Longrightarrow> batch_Get a = batch_Get b" "updates a = updates b \<Longrightarrow> batch_ok a = batch_ok b"
  "updates a = updates b \<Longrightarrow> GetUpdates a = GetUpdates b"
  by (simp_all add: batch_Get_def [abs_def] batch_ok_def GetUpdates_def [abs_def])

lemma batch_Get_simps [simp]:
  "batch_Get (fst (GetOrCreateNsUpdates b ns)) ns' k = batch_Get b ns' k"
  "batch_Get (fst (GetOrCreateNsCals b ns)) = batch_Get b" "batch_Get (fst (GetOrCreateNsRLists b ns)) = batch_Get b"
  "batch_Get (set_ns_cals ns m b) = batch_Get b" "batch_Get (set_ns_rlists ns r b) = batch_Get b"
  using GetOrCreate_get(1) [of b ns "fst (GetOrCreateNsUpdates b ns)" "snd (GetOrCreateNsUpdates b ns)"]
  by (auto intro: batch_cong)

lemma calWriteSet_plain:
  assumes "\<forall>w \<in> set ws. plain_write w" "batch_ok upd" "no_cals upd"
  obtains upd' where "calWriteSet env ns ws (upd, st) = Inr (ws, upd', st)" "batch_Get upd' = batch_Get upd"
    "batch_ok upd'" "no_cals upd'"
proof -
  let ?u = "fst (GetOrCreateNsRLists (fst (GetOrCreateNsCals (fst (GetOrCreateNsUpdates upd ns)) ns)) ns)"
  let ?r = "set_ns_rlists ns (GetRLists ?u ns) (set_ns_cals ns (GetCals ?u ns) (set_ns_updates ns (GetUpdates ?u ns) ?u))"
  have ok: "batch_ok ?u"
    using GetOrCreate_ok(1) [of upd ns "fst (GetOrCreateNsUpdates upd ns)" "snd (GetOrCreateNsUpdates upd ns)"] assms(2)
      batch_cong(2) [of ?u "fst (GetOrCreateNsUpdates upd ns)"] by simp
  have gok: "gm_ok (GetUpdates ?u ns)"
    using batch_ok_ns [OF ok] by (auto simp: GetUpdates_def split: option.split)
  show ?thesis
  proof (rule that)
    show "calWriteSet env ns ws (upd, st) = Inr (ws, ?r, st)"
      using assms(1) by (simp add: calWriteSet_def Let_def foldM_cal_write_plain rcount_writes_plain)
    show "batch_Get ?r = batch_Get upd"
      by (intro ext) (simp add: batch_Get_set_ns GetUpdates_get)
    have "batch_ok (set_ns_updates ns (GetUpdates ?u ns) ?u)" using set_ns_updates_ok [OF ok gok] .
    then show "batch_ok ?r" using batch_cong(2) [of ?r "set_ns_updates ns (GetUpdates ?u ns) ?u"] by simp
    show "no_cals ?r" using assms(3) by (simp add: no_cals_def)
  qed
qed

text \<open>The conditions under which a transaction commits on top of the batch.\<close>

definition ranges_ok :: "val_env \<Rightarrow> UpdateBatch \<Rightarrow> NsRwSet \<Rightarrow> bool" where
  "ranges_ok env upd n \<longleftrightarrow>
     validateRangeQueries env (NameSpace n) (kvrw_RangeQueriesInfo (KvRwSet n)) upd = Inr True"

definition tx_current :: "val_env \<Rightarrow> UpdateBatch \<Rightarrow> TxRwSet \<Rightarrow> bool" where
  "tx_current env upd t \<longleftrightarrow>
     (\<forall>n \<in> set t. (\<forall>r \<in> set (kvrw_Reads (KvRwSet n)). read_ok env upd (NameSpace n) r) \<and> ranges_ok env upd n)"
lemma read_ok_cong: "batch_Get a = batch_Get b \<Longrightarrow> read_ok env a ns r = read_ok env b ns r"
  by (simp add: read_ok_def cur_state_def overlay_def)

text \<open>
  A plain transaction is marked valid exactly when it is current, and validating it changes neither
  the batch's entries nor anything else; any other outcome is one of the two conflict codes.
\<close>

lemma validateTx_plain:
  assumes "versionedDB_ok (v_db env)" "plain_tx t" "batch_ok upd" "no_cals upd"
    and "\<forall>n \<in> set t. is_ok (validateRangeQueries env (NameSpace n) (kvrw_RangeQueriesInfo (KvRwSet n)) upd)"
  shows "\<exists>code upd'. validateTx env t (upd, st) = Inr (code, t, upd', st)
    \<and> (code = VALID \<longleftrightarrow> tx_current env upd t) \<and> code \<in> {VALID, MVCC_READ_CONFLICT, PHANTOM_READ_CONFLICT}
    \<and> batch_Get upd' = batch_Get upd \<and> batch_ok upd' \<and> no_cals upd'"
  using assms(2-5)
proof (induction t arbitrary: upd)
  case Nil
  then show ?case by (simp add: tx_current_def)
next
  case (Cons n t)
  have ns: "ns_ok (NameSpace n)" and pl: "\<forall>w \<in> set (kvrw_Writes (KvRwSet n)). plain_write w"
    and rest: "plain_tx t" using Cons.prems(1) by (auto simp: plain_tx_def)
  obtain rv where rv: "validateRangeQueries env (NameSpace n) (kvrw_RangeQueriesInfo (KvRwSet n)) upd = Inr rv"
    using Cons.prems(4) by (cases "validateRangeQueries env (NameSpace n) (kvrw_RangeQueriesInfo (KvRwSet n)) upd") auto
  note reads = validateReadSet_spec [OF assms(1) ns]
  consider "\<not> validateReadSet env (NameSpace n) (kvrw_Reads (KvRwSet n)) upd"
    | "validateReadSet env (NameSpace n) (kvrw_Reads (KvRwSet n)) upd" "\<not> rv"
    | "validateReadSet env (NameSpace n) (kvrw_Reads (KvRwSet n)) upd" rv by blast
  then show ?case
  proof cases
    case 1
    with reads have "\<not> tx_current env upd (n # t)" by (auto simp: tx_current_def)
    with 1 Cons.prems show ?thesis by (simp add: Let_def)
  next
    case 2
    with rv have "\<not> tx_current env upd (n # t)" by (auto simp: tx_current_def ranges_ok_def)
    with 2 rv Cons.prems show ?thesis by (simp add: Let_def)
  next
    case 3
    obtain u where u: "calWriteSet env (NameSpace n) (kvrw_Writes (KvRwSet n)) (upd, st) =
        Inr (kvrw_Writes (KvRwSet n), u, st)" "batch_Get u = batch_Get upd" "batch_ok u" "no_cals u"
      using calWriteSet_plain [OF pl Cons.prems(2,3)] by blast
    have cong: "validateRangeQueries env (NameSpace m) (kvrw_RangeQueriesInfo (KvRwSet m)) u =
        validateRangeQueries env (NameSpace m) (kvrw_RangeQueriesInfo (KvRwSet m)) upd" if "m \<in> set t" for m
      using validateRangeQueries_cong [OF assms(1) _ u(3) Cons.prems(2)] u(2) that rest by (auto simp: plain_tx_def)
    have cur: "tx_current env u t \<longleftrightarrow> tx_current env upd t"
      using cong read_ok_cong [OF u(2)] by (auto simp: tx_current_def ranges_ok_def)
    have "\<forall>m \<in> set t. is_ok (validateRangeQueries env (NameSpace m) (kvrw_RangeQueriesInfo (KvRwSet m)) u)"
      using cong Cons.prems(4) by simp
    from Cons.IH [OF rest u(3,4) this] obtain code u' where
      "validateTx env t (u, st) = Inr (code, t, u', st)" "code = VALID \<longleftrightarrow> tx_current env u t"
      "code \<in> {VALID, MVCC_READ_CONFLICT, PHANTOM_READ_CONFLICT}"
      "batch_Get u' = batch_Get u" "batch_ok u'" "no_cals u'" by blast
    moreover have "tx_current env upd (n # t) \<longleftrightarrow> tx_current env upd t"
      using 3 reads rv by (auto simp: tx_current_def ranges_ok_def)
    moreover have "n\<lparr>KvRwSet := (KvRwSet n)\<lparr>kvrw_Writes := kvrw_Writes (KvRwSet n)\<rparr>\<rparr> = n" by simp
    ultimately show ?thesis using 3 rv u(1,2) cur by (simp add: Let_def)
  qed
qed
section \<open>Preparing the batch of a block\<close>

definition write_entry :: "Height \<Rightarrow> KVWrite \<Rightarrow> VersionedValue" where
  "write_entry h w = \<lparr>vv_Value = (if wr_IsDelete w then None else wr_Value w), vv_Version = Some h\<rparr>"

type_synonym batch_fun = "bytes \<Rightarrow> bytes \<Rightarrow> VersionedValue option"

definition put_write :: "Height \<Rightarrow> bytes \<Rightarrow> batch_fun \<Rightarrow> KVWrite \<Rightarrow> batch_fun" where
  "put_write h ns f w = f(ns := (f ns)(wr_Key w \<mapsto> write_entry h w))"

text \<open>The writes of a transaction, in order, on top of the entries \<open>f\<close>.\<close>

definition apply_tx :: "Height \<Rightarrow> TxRwSet \<Rightarrow> batch_fun \<Rightarrow> batch_fun" where
  "apply_tx h t f = foldl (\<lambda>f n. foldl (put_write h (NameSpace n)) f (kvrw_Writes (KvRwSet n))) f t"

lemma add_write_plain:
  assumes "plain_write w" "batch_ok b" "no_cals b"
  shows "\<exists>b'. add_write ns h b w = Inr b' \<and> batch_Get b' = put_write h ns (batch_Get b) w \<and> batch_ok b' \<and> no_cals b'"
proof (cases "wr_IsDelete w")
  case True
  obtain b1 m where g: "GetOrCreateNsUpdates b ns = (b1, m)" by force
  have "no_cals (batch_Delete b ns (wr_Key w) (Some h))"
    using assms(3) cals_simps(1) [of b ns] rlists_simps(1) [of b ns] g
    by (simp add: batch_Delete_def no_cals_def)
  with True assms(2) show ?thesis
    by (auto simp: add_write_def put_write_def write_entry_def batch_Get_Delete fun_eq_iff intro: batch_ok_Delete)
next
  case False
  then obtain v where v: "wr_Value w = Some v" using assms(1) by (auto simp: plain_write_def)
  obtain b' where b': "batch_Put b ns (wr_Key w) (Some v) (Some h) = Inr b'"
    "\<forall>ns' k'. batch_Get b' ns' k' = (if ns' = ns \<and> k' = wr_Key w
       then Some \<lparr>vv_Value = Some v, vv_Version = Some h\<rparr> else batch_Get b ns' k')" "batch_ok b'"
    using batch_Put_Some assms(2) by metis
  obtain b1 m where g: "GetOrCreateNsUpdates b ns = (b1, m)" by force
  have "no_cals b'"
    using b'(1) assms(3) cals_simps(1) [of b ns] rlists_simps(1) [of b ns] g
    by (auto simp: batch_Put_def no_cals_def)
  with False v assms(1) b' show ?thesis
    by (auto simp: add_write_def put_write_def write_entry_def plain_write_def fun_eq_iff)
qed

lemma add_writes_plain:
  assumes "\<forall>w \<in> set ws. plain_write w" "batch_ok b" "no_cals b"
  shows "\<exists>b'. foldM (add_write ns h) b ws = Inr b' \<and> batch_Get b' = foldl (put_write h ns) (batch_Get b) ws
    \<and> batch_ok b' \<and> no_cals b'"
  using assms
proof (induction ws arbitrary: b)
  case (Cons w ws)
  then obtain b1 where "add_write ns h b w = Inr b1" "batch_Get b1 = put_write h ns (batch_Get b) w"
    "batch_ok b1" "no_cals b1" using add_write_plain by (metis list.set_intros(1))
  with Cons.IH [of b1] Cons.prems(1) show ?case by auto
qed simp

lemma addWriteSetToBatch_plain:
  assumes "plain_tx t" "batch_ok b" "no_cals b"
  shows "\<exists>b'. addWriteSetToBatch t h b = Inr b' \<and> batch_Get b' = apply_tx h t (batch_Get b)
    \<and> batch_ok b' \<and> no_cals b'"
  using assms
proof (induction t arbitrary: b)
  case Nil
  then show ?case by (simp add: addWriteSetToBatch_def apply_tx_def)
next
  case (Cons n t)
  obtain b1 where b1: "foldM (add_write (NameSpace n) h) b (kvrw_Writes (KvRwSet n)) = Inr b1"
    "batch_Get b1 = foldl (put_write h (NameSpace n)) (batch_Get b) (kvrw_Writes (KvRwSet n))"
    "batch_ok b1" "no_cals b1"
    using add_writes_plain [of "kvrw_Writes (KvRwSet n)" b "NameSpace n" h] Cons.prems by (auto simp: plain_tx_def)
  have "plain_tx t" using Cons.prems(1) by (simp add: plain_tx_def)
  from Cons.IH [OF this b1(3,4)] b1(1,2) show ?case
    by (auto simp: addWriteSetToBatch_def apply_tx_def)
qed

text \<open>
  The specification of a block: the transactions in order, each one committed when what it read is
  still current on top of the committed ones before it.
\<close>

definition tx_ok :: "val_env \<Rightarrow> batch_fun \<Rightarrow> TxRwSet \<Rightarrow> bool" where
  "tx_ok env f t \<longleftrightarrow> (\<forall>n \<in> set t.
     (\<forall>r \<in> set (kvrw_Reads (KvRwSet n)). f (NameSpace n) (rd_Key r) = None
        \<and> version_of (dlook (v_db env) (NameSpace n) (rd_Key r)) = NewVersion (rd_Version r))
     \<and> (\<exists>b. batch_ok b \<and> batch_Get b (NameSpace n) = f (NameSpace n) \<and> ranges_ok env b n))"

fun spec_run :: "val_env \<Rightarrow> u64 \<Rightarrow> batch_fun \<Rightarrow> (nat \<times> TxRwSet) list \<Rightarrow> batch_fun \<times> nat list" where
  "spec_run env number f [] = (f, [])"
| "spec_run env number f ((i, t) # rest) =
     (if tx_ok env f t then
        let (g, valid) = spec_run env number (apply_tx (NewHeight number (of_nat i)) t f) rest in (g, i # valid)
      else spec_run env number f rest)"

text \<open>A transaction on user namespaces whose range queries can be evaluated.\<close>

definition user_tx :: "val_env \<Rightarrow> TxRwSet \<Rightarrow> bool" where
  "user_tx env t \<longleftrightarrow> plain_tx t \<and> (\<forall>n \<in> set t. NameSpace n \<noteq> ''qscc''
     \<and> (\<forall>b. batch_ok b \<longrightarrow> is_ok (validateRangeQueries env (NameSpace n) (kvrw_RangeQueriesInfo (KvRwSet n)) b)))"

lemma tx_current_ok:
  assumes "versionedDB_ok (v_db env)" "user_tx env t" "batch_ok upd"
    and "\<forall>ns. ns \<noteq> ''qscc'' \<longrightarrow> batch_Get upd ns = f ns"
  shows "tx_current env upd t \<longleftrightarrow> tx_ok env f t"
proof -
  have A: "read_ok env upd (NameSpace n) r \<longleftrightarrow> f (NameSpace n) (rd_Key r) = None
      \<and> version_of (dlook (v_db env) (NameSpace n) (rd_Key r)) = NewVersion (rd_Version r)"
    if "n \<in> set t" for n r
  proof -
    have "batch_Get upd (NameSpace n) = f (NameSpace n)"
      using assms(2,4) that unfolding user_tx_def by blast
    then show ?thesis by (auto simp: read_ok_def cur_state_def overlay_def)
  qed
  have B: "ranges_ok env upd n \<longleftrightarrow>
      (\<exists>b. batch_ok b \<and> batch_Get b (NameSpace n) = f (NameSpace n) \<and> ranges_ok env b n)" if "n \<in> set t" for n
  proof
    assume "ranges_ok env upd n"
    moreover have "batch_Get upd (NameSpace n) = f (NameSpace n)"
      using assms(2,4) that unfolding user_tx_def by blast
    ultimately show "\<exists>b. batch_ok b \<and> batch_Get b (NameSpace n) = f (NameSpace n) \<and> ranges_ok env b n"
      using assms(3) by blast
  next
    assume "\<exists>b. batch_ok b \<and> batch_Get b (NameSpace n) = f (NameSpace n) \<and> ranges_ok env b n"
    then obtain b where b: "batch_ok b" "batch_Get b (NameSpace n) = f (NameSpace n)" "ranges_ok env b n" by blast
    have "ns_ok (NameSpace n)" "NameSpace n \<noteq> ''qscc''" using assms(2) that by (auto simp: user_tx_def plain_tx_def)
    with b assms(4) validateRangeQueries_cong [OF assms(1) _ assms(3) b(1), of "NameSpace n"]
    show "ranges_ok env upd n" by (simp add: ranges_ok_def)
  qed
  show ?thesis
    unfolding tx_current_def tx_ok_def by (rule ball_cong [OF refl]) (simp add: A B)
qed
section \<open>Statistics touch one namespace\<close>

lemma calStatistics1_ok: "gm_ok (fst ss) \<Longrightarrow> gm_ok (fst (calStatistics1 vh txId cc fn vc ss))"
  by (cases ss) (auto simp: calStatistics1_def Let_def gm_ok_put split: option.split)

lemma calStatistics_ok: "gm_ok (fst ss) \<Longrightarrow> gm_ok (fst (calStatistics vh txId cc fn vc ss))"
  by (simp add: calStatistics_def Let_def calStatistics1_ok split: option.split)

lemma GetUpdates_ok: "batch_ok b \<Longrightarrow> gm_ok (GetUpdates b ns)"
  by (auto simp: GetUpdates_def split: option.split dest: batch_ok_ns)

text \<open>Two batches that agree outside the namespace of the statistics.\<close>

definition agree :: "UpdateBatch \<Rightarrow> UpdateBatch \<Rightarrow> bool" where
  "agree a b \<longleftrightarrow> (\<forall>ns. ns \<noteq> ''qscc'' \<longrightarrow> batch_Get a ns = batch_Get b ns)
     \<and> (batch_ok a \<longrightarrow> batch_ok b) \<and> (no_cals a \<longrightarrow> no_cals b)"

lemma agree_set_qscc:
  assumes "gm_ok (GetUpdates b ''qscc'') \<Longrightarrow> gm_ok m"
  shows "agree b (set_ns_updates ''qscc'' m b)"
  using assms by (auto simp: agree_def batch_Get_set_ns fun_eq_iff no_cals_def intro!: set_ns_updates_ok GetUpdates_ok)

lemma record_statistics_ok:
  assumes "is_ok (stat_func env data)" "i < length (b_flags b)" "pu_UnmarshalChaincodeSpec env (ch_Extension chdr) \<noteq> None"
  shows "\<exists>b'. record_statistics env vh i chdr data b = Inr b' \<and> b_flags b' = b_flags b
    \<and> agree (b_updates b) (b_updates b')"
proof -
  obtain fn where fn: "stat_func env data = Inr fn" using assms(1) by (cases "stat_func env data") auto
  obtain cc where cc: "pu_UnmarshalChaincodeSpec env (ch_Extension chdr) = Some cc" using assms(3) by auto
  define cur where "cur = (if i = 0 then (cur_stats (b_st b))\<lparr>bs_BlockTime := ch_Timestamp chdr\<rparr> else cur_stats (b_st b))"
  define ss where "ss = calStatistics vh (ch_TxId chdr) cc fn (FormatInt (ve_code_num env (b_flags b ! i)))
     (GetUpdates (b_updates b) ''qscc'', b_mapTransStatic b, bs_List cur)"
  obtain q m l where q: "ss = (q, m, l)" by (cases ss)
  have "gm_ok (GetUpdates (b_updates b) ''qscc'') \<Longrightarrow> gm_ok q"
    using calStatistics_ok [of "(GetUpdates (b_updates b) ''qscc'', b_mapTransStatic b, bs_List cur)"] q
    unfolding ss_def by (metis fst_conv)
  then have "agree (b_updates b) (set_ns_updates ''qscc'' q (b_updates b))" by (rule agree_set_qscc)
  moreover have "record_statistics env vh i chdr data b = Inr (b\<lparr>b_updates := set_ns_updates ''qscc'' q (b_updates b),
      b_mapTransStatic := m, b_st := (b_st b)\<lparr>g_curBlockStatistics := Some (cur\<lparr>bs_List := l\<rparr>)\<rparr>\<rparr>)"
    using fn cc assms(2) q by (simp add: record_statistics_def cur_def ss_def Let_def)
  ultimately show ?thesis by simp
qed

lemma move_cals_none:
  assumes "no_cals u"
  shows "batch_Get (move_cals u ns) = batch_Get u" "no_cals (move_cals u ns)" "batch_ok u \<Longrightarrow> batch_ok (move_cals u ns)"
proof -
  let ?u = "fst (GetOrCreateNsCals (fst (GetOrCreateNsUpdates u ns)) ns)"
  have m: "move_cals u ns = set_ns_cals ns [] (set_ns_updates ns (GetUpdates ?u ns) ?u)"
    using assms by (simp add: move_cals_def no_cals_def Let_def)
  show "batch_Get (move_cals u ns) = batch_Get u"
    unfolding m by (intro ext) (simp add: batch_Get_set_ns GetUpdates_get)
  show "no_cals (move_cals u ns)" using assms unfolding m by (simp add: no_cals_def)
  assume "batch_ok u"
  then have "batch_ok ?u"
    using GetOrCreate_ok(1) [of u ns "fst (GetOrCreateNsUpdates u ns)" "snd (GetOrCreateNsUpdates u ns)"]
      batch_cong(2) [of ?u "fst (GetOrCreateNsUpdates u ns)"] by simp
  then have "batch_ok (set_ns_updates ns (GetUpdates ?u ns) ?u)" by (intro set_ns_updates_ok GetUpdates_ok)
  then show "batch_ok (move_cals u ns)"
    unfolding m using batch_cong(2) [of "set_ns_cals ns [] (set_ns_updates ns (GetUpdates ?u ns) ?u)"
      "set_ns_updates ns (GetUpdates ?u ns) ?u"] by simp
qed

lemma move_rlists_none:
  assumes "no_cals u"
  shows "\<exists>u'. move_rlists env (u, st) ns = (u', st) \<and> batch_Get u' = batch_Get u \<and> no_cals u' \<and> (batch_ok u \<longrightarrow> batch_ok u')"
proof -
  let ?u = "fst (GetOrCreateNsRLists (fst (GetOrCreateNsUpdates u ns)) ns)"
  let ?r = "set_ns_rlists ns [] (set_ns_updates ns (GetUpdates ?u ns) ?u)"
  have m: "move_rlists env (u, st) ns = (?r, st)"
    using assms by (simp add: move_rlists_def no_cals_def Let_def)
  have "batch_Get ?r = batch_Get u" by (intro ext) (simp add: batch_Get_set_ns GetUpdates_get)
  moreover have "no_cals ?r" using assms by (simp add: no_cals_def)
  moreover have "batch_ok ?r" if "batch_ok u"
  proof -
    have "batch_ok ?u"
      using that GetOrCreate_ok(1) [of u ns "fst (GetOrCreateNsUpdates u ns)" "snd (GetOrCreateNsUpdates u ns)"]
        batch_cong(2) [of ?u "fst (GetOrCreateNsUpdates u ns)"] by simp
    then have "batch_ok (set_ns_updates ns (GetUpdates ?u ns) ?u)" by (intro set_ns_updates_ok GetUpdates_ok)
    then show ?thesis using batch_cong(2) [of ?r "set_ns_updates ns (GetUpdates ?u ns) ?u"] by simp
  qed
  ultimately show ?thesis using m by blast
qed

lemma moveCals_none:
  assumes "no_cals u"
  shows "\<exists>u'. moveCalsToUpdate env (u, st) = (u', st) \<and> batch_Get u' = batch_Get u \<and> (batch_ok u \<longrightarrow> batch_ok u')"
proof -
  have a: "no_cals v \<Longrightarrow> batch_Get (foldl move_cals v nss) = batch_Get v \<and> no_cals (foldl move_cals v nss)
      \<and> (batch_ok v \<longrightarrow> batch_ok (foldl move_cals v nss))" for v nss
    by (induction nss arbitrary: v) (simp_all add: move_cals_none)
  have b: "no_cals v \<Longrightarrow> \<exists>u'. foldl (move_rlists env) (v, st) nss = (u', st) \<and> batch_Get u' = batch_Get v
      \<and> (batch_ok v \<longrightarrow> batch_ok u')" for v nss
  proof (induction nss arbitrary: v)
    case (Cons ns nss)
    with move_rlists_none [OF Cons.prems, of env st ns] show ?case by fastforce
  qed simp
  let ?v = "u\<lparr>CalNum := 0, RListNum := 0\<rparr>"
  have "no_cals ?v" using assms by (simp add: no_cals_def GetCals_def GetRLists_def)
  note A = a [OF this]
  obtain u' where u': "foldl (move_rlists env) (foldl move_cals ?v (GetCaledNamespaces u), st)
      (GetRListsNamespaces (foldl move_cals ?v (GetCaledNamespaces u))) = (u', st)"
    "batch_Get u' = batch_Get ?v" "batch_ok ?v \<longrightarrow> batch_ok u'"
    using b A by metis
  have "batch_Get (u'\<lparr>UpdateNum := k\<rparr>) = batch_Get u'" "batch_ok (u'\<lparr>UpdateNum := k\<rparr>) = batch_ok u'"
    "batch_Get ?v = batch_Get u" "batch_ok ?v = batch_ok u" for k
    by (simp_all add: batch_Get_def [abs_def] batch_ok_def)
  with u' show ?thesis by (simp add: moveCalsToUpdate_def)
qed

lemma save_statistics_agree: "agree u (save_statistics env vh (u, st))"
  by (auto simp: save_statistics_def Let_def agree_def [of u u] split: option.split intro!: agree_set_qscc gm_ok_put)
section \<open>The block\<close>

text \<open>An entry of the block that unmarshals to an endorser transaction with the read-write set \<open>t\<close>.\<close>

definition good_tx :: "val_env \<Rightarrow> bytes \<Rightarrow> TxRwSet \<Rightarrow> bool" where
  "good_tx env envBytes t \<longleftrightarrow> user_tx env t \<and>
     (\<exists>e payload hb chdr r. pu_GetEnvelopeFromBlock env envBytes = Inr e \<and> pu_GetPayload env e = Inr payload
       \<and> pl_Header payload = Some hb \<and> pu_UnmarshalChannelHeader env (hd_ChannelHeader hb) = Inr chdr
       \<and> ch_Type chdr = ENDORSER_TRANSACTION \<and> pu_GetActionFromEnvelope env envBytes = Inr r
       \<and> FromProtoBytes (ve_codec env) (ca_Results r) = Inr t \<and> is_ok (stat_func env (str_of (pl_Data payload)))
       \<and> pu_UnmarshalChaincodeSpec env (ch_Extension chdr) \<noteq> None)"

text \<open>An entry of another type (a configuration): it is skipped, which is what no writes do.\<close>

definition other_tx :: "val_env \<Rightarrow> bytes \<Rightarrow> bool" where
  "other_tx env envBytes \<longleftrightarrow> (\<exists>e payload hb chdr. pu_GetEnvelopeFromBlock env envBytes = Inr e
     \<and> pu_GetPayload env e = Inr payload \<and> pl_Header payload = Some hb
     \<and> pu_UnmarshalChannelHeader env (hd_ChannelHeader hb) = Inr chdr \<and> ch_Type chdr \<noteq> ENDORSER_TRANSACTION)"

definition block_tx :: "val_env \<Rightarrow> bytes \<Rightarrow> TxRwSet \<Rightarrow> bool" where
  "block_tx env envBytes t \<longleftrightarrow> good_tx env envBytes t \<or> other_tx env envBytes \<and> t = []"

lemma process_other_tx:
  assumes "other_tx env e" "i < length (b_flags b)" "b_flags b ! i = VALID"
  shows "process_tx env mvcc number vh b (i, e) = Inr b"
  using assms by (auto simp: other_tx_def process_tx_def)

lemma no_writes [simp]: "tx_ok env f []" "apply_tx h [] f = f"
  by (simp_all add: tx_ok_def apply_tx_def)

definition block_inv :: "block_state \<Rightarrow> batch_fun \<Rightarrow> bool" where
  "block_inv b f \<longleftrightarrow> batch_ok (b_updates b) \<and> no_cals (b_updates b)
     \<and> (\<forall>ns. ns \<noteq> ''qscc'' \<longrightarrow> batch_Get (b_updates b) ns = f ns)"

lemma apply_tx_other:
  "\<forall>n \<in> set t. NameSpace n \<noteq> ns \<Longrightarrow> apply_tx h t f ns = f ns"
  "f ns = g ns \<Longrightarrow> apply_tx h t f ns = apply_tx h t g ns"
proof -
  have p: "foldl (put_write h n) f ws ns = foldl (put_write h n) g ws ns" if "f ns = g ns" for n ws f g
    using that
  proof (induction ws arbitrary: f g)
    case (Cons w ws)
    have "put_write h n f w ns = put_write h n g w ns"
      using Cons.prems by (cases "n = ns") (simp_all add: put_write_def)
    then show ?case unfolding foldl_Cons by (rule Cons.IH)
  qed simp
  have q: "foldl (put_write h n) f ws ns = f ns" if "n \<noteq> ns" for n ws f
    using that by (induction ws arbitrary: f) (simp_all add: put_write_def)
  show "\<forall>n \<in> set t. NameSpace n \<noteq> ns \<Longrightarrow> apply_tx h t f ns = f ns"
    by (induction t arbitrary: f) (simp_all add: apply_tx_def q)
  show "f ns = g ns \<Longrightarrow> apply_tx h t f ns = apply_tx h t g ns"
  proof (induction t arbitrary: f g)
    case (Cons n t)
    have "foldl (put_write h (NameSpace n)) f (kvrw_Writes (KvRwSet n)) ns
        = foldl (put_write h (NameSpace n)) g (kvrw_Writes (KvRwSet n)) ns" by (rule p) (rule Cons.prems)
    then show ?case unfolding apply_tx_def foldl_Cons by (rule Cons.IH [unfolded apply_tx_def])
  qed (simp add: apply_tx_def)
qed

lemma process_endorser_ok:
  assumes "versionedDB_ok (v_db env)" "user_tx env t" "block_inv b f" "i < length (b_flags b)"
    and "pu_GetActionFromEnvelope env envBytes = Inr r" "FromProtoBytes (ve_codec env) (ca_Results r) = Inr t"
  shows "\<exists>b' code. process_endorser_tx env True number i envBytes b = Inr b'
    \<and> block_inv b' (if tx_ok env f t then apply_tx (NewHeight number (of_nat i)) t f else f)
    \<and> b_flags b' = (b_flags b)[i := code] \<and> (code = VALID \<longleftrightarrow> tx_ok env f t)"
proof -
  let ?u = "b_updates b" and ?h = "NewHeight number (of_nat i)"
  have inv: "batch_ok ?u" "no_cals ?u" "\<forall>ns. ns \<noteq> ''qscc'' \<longrightarrow> batch_Get ?u ns = f ns"
    using assms(3) by (simp_all add: block_inv_def)
  have plain: "plain_tx t" using assms(2) by (simp add: user_tx_def)
  have "\<forall>n \<in> set t. is_ok (validateRangeQueries env (NameSpace n) (kvrw_RangeQueriesInfo (KvRwSet n)) ?u)"
    using assms(2) inv(1) unfolding user_tx_def by blast
  from validateTx_plain [OF assms(1) plain inv(1,2) this, of "b_st b"]
  obtain code u where u: "validateTx env t (?u, b_st b) = Inr (code, t, u, b_st b)"
    "code = VALID \<longleftrightarrow> tx_current env ?u t" "batch_Get u = batch_Get ?u" "batch_ok u" "no_cals u" by blast
  have cur: "tx_current env ?u t \<longleftrightarrow> tx_ok env f t" by (rule tx_current_ok [OF assms(1,2) inv(1,3)])
  have v: "validateEndorserTX env envBytes True (?u, b_st b) =
      Inr (if code \<noteq> VALID then None else Some t, code, u, b_st b)"
    using assms(5,6) u(1) by (simp add: validateEndorserTX_def)
  show ?thesis
  proof (cases "code = VALID")
    case False
    with v u cur assms(4) inv(3) show ?thesis
      by (auto simp: process_endorser_tx_def block_inv_def)
  next
    case True
    obtain u' where u': "addWriteSetToBatch t ?h u = Inr u'" "batch_Get u' = apply_tx ?h t (batch_Get u)"
      "batch_ok u'" "no_cals u'" using addWriteSetToBatch_plain [OF plain u(4,5)] by blast
    have "batch_Get u' ns = apply_tx ?h t f ns" if "ns \<noteq> ''qscc''" for ns
      unfolding u'(2) u(3) by (rule apply_tx_other(2)) (use inv(3) that in simp)
    with True v u u' cur assms(4) show ?thesis
      by (auto simp: process_endorser_tx_def block_inv_def)
  qed
qed

lemma process_good_tx:
  assumes "versionedDB_ok (v_db env)" "good_tx env envBytes t" "block_inv b f" "i < length (b_flags b)" "b_flags b ! i = VALID"
  shows "\<exists>b' code. process_tx env True number vh b (i, envBytes) = Inr b'
    \<and> block_inv b' (if tx_ok env f t then apply_tx (NewHeight number (of_nat i)) t f else f)
    \<and> b_flags b' = (b_flags b)[i := code] \<and> (code = VALID \<longleftrightarrow> tx_ok env f t)"
proof -
  obtain e payload hb chdr r where p: "user_tx env t" "pu_GetEnvelopeFromBlock env envBytes = Inr e"
    "pu_GetPayload env e = Inr payload" "pl_Header payload = Some hb"
    "pu_UnmarshalChannelHeader env (hd_ChannelHeader hb) = Inr chdr" "ch_Type chdr = ENDORSER_TRANSACTION"
    "pu_GetActionFromEnvelope env envBytes = Inr r" "FromProtoBytes (ve_codec env) (ca_Results r) = Inr t"
    "is_ok (stat_func env (str_of (pl_Data payload)))" "pu_UnmarshalChaincodeSpec env (ch_Extension chdr) \<noteq> None"
    using assms(2) unfolding good_tx_def by blast
  obtain b1 code where b1: "process_endorser_tx env True number i envBytes b = Inr b1"
    "block_inv b1 (if tx_ok env f t then apply_tx (NewHeight number (of_nat i)) t f else f)"
    "b_flags b1 = (b_flags b)[i := code]" "code = VALID \<longleftrightarrow> tx_ok env f t"
    using process_endorser_ok [OF assms(1) p(1) assms(3,4) p(7,8)] by blast
  have "i < length (b_flags b1)" using b1(3) assms(4) by simp
  from record_statistics_ok [OF p(9) this p(10), of vh]
  obtain b2 where b2: "record_statistics env vh i chdr (str_of (pl_Data payload)) b1 = Inr b2" "b_flags b2 = b_flags b1"
    "agree (b_updates b1) (b_updates b2)" by blast
  have "block_inv b2 g" if "block_inv b1 g" for g
    using that b2(3) by (auto simp: block_inv_def agree_def)
  with b1 b2 p assms(4,5) show ?thesis by (auto simp: process_tx_def)
qed
lemma process_tx_ok:
  assumes "versionedDB_ok (v_db env)" "block_tx env envBytes t" "block_inv b f" "i < length (b_flags b)" "b_flags b ! i = VALID"
  shows "\<exists>b' code. process_tx env True number vh b (i, envBytes) = Inr b'
    \<and> block_inv b' (if tx_ok env f t then apply_tx (NewHeight number (of_nat i)) t f else f)
    \<and> b_flags b' = (b_flags b)[i := code] \<and> (code = VALID \<longleftrightarrow> tx_ok env f t)"
proof (cases "good_tx env envBytes t")
  case True
  then show ?thesis using process_good_tx [OF assms(1) _ assms(3-5)] by blast
next
  case False
  with assms(2) have "other_tx env envBytes" "t = []" by (simp_all add: block_tx_def)
  with process_other_tx [OF this(1) assms(4,5)] assms(3,5) show ?thesis
    by (intro exI [of _ b] exI [of _ VALID]) (simp add: list_update_id [of "b_flags b" i, unfolded assms(5)])
qed

lemma spec_run_indices: "j \<in> set (snd (spec_run env number f its)) \<Longrightarrow> j \<in> fst ` set its"
  by (induction env number f its rule: spec_run.induct) (auto simp: Let_def split: prod.splits if_splits)

lemma enumerate_index: "(j, t) \<in> set (enumerate k ts) \<Longrightarrow> k \<le> j \<and> j < k + length ts"
  by (auto simp: in_set_enumerate_eq)

lemma process_txs_ok:
  assumes "versionedDB_ok (v_db env)" "length ts = length envs"
    and "\<forall>j < length envs. flags ! (k + j) = VALID \<longrightarrow> block_tx env (envs ! j) (ts ! j)"
    and "\<forall>j. k \<le> j \<longrightarrow> b_flags b ! j = flags ! j" "k + length envs \<le> length (b_flags b)" "block_inv b f"
  defines "its \<equiv> filter (\<lambda>(i, t). flags ! i = VALID) (enumerate k ts)"
  shows "\<exists>b'. foldM (process_tx env True number vh) b (enumerate k envs) = Inr b'
    \<and> block_inv b' (fst (spec_run env number f its)) \<and> length (b_flags b') = length (b_flags b)
    \<and> (\<forall>j < k. b_flags b' ! j = b_flags b ! j)
    \<and> (\<forall>j. k \<le> j \<and> j < k + length envs \<longrightarrow> (b_flags b' ! j = VALID \<longleftrightarrow> j \<in> set (snd (spec_run env number f its))))"
  using assms(2-6) unfolding its_def
proof (induction envs arbitrary: k ts b f)
  case Nil
  then show ?case by auto
next
  case (Cons e envs)
  obtain t ts' where ts: "ts = t # ts'" "length ts' = length envs" using Cons.prems(1) by (cases ts) auto
  let ?its = "filter (\<lambda>(i, t). flags ! i = VALID) (enumerate (Suc k) ts')"
  have k: "k < length (b_flags b)" using Cons.prems(4) by simp
  have sub: "\<forall>j < length envs. flags ! (Suc k + j) = VALID \<longrightarrow> block_tx env (envs ! j) (ts' ! j)"
  proof (intro allI impI)
    fix j assume "j < length envs" "flags ! (Suc k + j) = VALID"
    then show "block_tx env (envs ! j) (ts' ! j)" using Cons.prems(2) [rule_format, of "Suc j"] ts(1) by simp
  qed
  have notk: "k \<notin> set (snd (spec_run env number g ?its))" for g
    using spec_run_indices [of k env number g ?its] enumerate_index [of k _ "Suc k" ts'] by fastforce
  show ?case
  proof (cases "flags ! k = VALID")
    case False
    then have inv: "process_tx env True number vh b (k, e) = Inr b"
      using k Cons.prems(3) by (simp add: process_tx_def)
    have "\<forall>j. Suc k \<le> j \<longrightarrow> b_flags b ! j = flags ! j" "Suc k + length envs \<le> length (b_flags b)"
      using Cons.prems(3,4) by auto
    from Cons.IH [OF ts(2) sub this Cons.prems(5)] obtain b' where
      b': "foldM (process_tx env True number vh) b (enumerate (Suc k) envs) = Inr b'"
      "block_inv b' (fst (spec_run env number f ?its))" "length (b_flags b') = length (b_flags b)"
      "\<forall>j < Suc k. b_flags b' ! j = b_flags b ! j"
      "\<forall>j. Suc k \<le> j \<and> j < Suc k + length envs \<longrightarrow> (b_flags b' ! j = VALID \<longleftrightarrow> j \<in> set (snd (spec_run env number f ?its)))"
      by blast
    have "b_flags b' ! k \<noteq> VALID" using b'(4) Cons.prems(3) False by auto
    then have "\<forall>j. k \<le> j \<and> j < k + length (e # envs) \<longrightarrow> (b_flags b' ! j = VALID \<longleftrightarrow> j \<in> set (snd (spec_run env number f ?its)))"
      using b'(5) notk by (metis Suc_leI add_Suc_shift le_neq_implies_less length_Cons)
    with b' inv False ts(1) show ?thesis by simp
  next
    case True
    then have good: "block_tx env e t" using Cons.prems(2) ts(1) by auto
    have bk: "b_flags b ! k = VALID" using True Cons.prems(3) by simp
    obtain b1 code where b1: "process_tx env True number vh b (k, e) = Inr b1"
      "block_inv b1 (if tx_ok env f t then apply_tx (NewHeight number (of_nat k)) t f else f)"
      "b_flags b1 = (b_flags b)[k := code]" "code = VALID \<longleftrightarrow> tx_ok env f t"
      using process_tx_ok [OF assms(1) good Cons.prems(5) k bk] by blast
    let ?f = "if tx_ok env f t then apply_tx (NewHeight number (of_nat k)) t f else f"
    have "\<forall>j. Suc k \<le> j \<longrightarrow> b_flags b1 ! j = flags ! j" "Suc k + length envs \<le> length (b_flags b1)"
      using Cons.prems(3,4) b1(3) by auto
    from Cons.IH [OF ts(2) sub this b1(2)] obtain b' where
      b': "foldM (process_tx env True number vh) b1 (enumerate (Suc k) envs) = Inr b'"
      "block_inv b' (fst (spec_run env number ?f ?its))" "length (b_flags b') = length (b_flags b1)"
      "\<forall>j < Suc k. b_flags b' ! j = b_flags b1 ! j"
      "\<forall>j. Suc k \<le> j \<and> j < Suc k + length envs \<longrightarrow> (b_flags b' ! j = VALID \<longleftrightarrow> j \<in> set (snd (spec_run env number ?f ?its)))"
      by blast
    have run: "spec_run env number f ((k, t) # ?its) =
        (fst (spec_run env number ?f ?its), (if tx_ok env f t then [k] else []) @ snd (spec_run env number ?f ?its))"
      by (simp add: Let_def split: prod.split)
    have "b_flags b' ! k = code" using b'(4) b1(3) k by simp
    then have "\<forall>j. k \<le> j \<and> j < k + length (e # envs) \<longrightarrow>
        (b_flags b' ! j = VALID \<longleftrightarrow> j \<in> set (snd (spec_run env number f ((k, t) # ?its))))"
      using b'(5) notk [of ?f] b1(4) unfolding run
      by (auto simp: le_Suc_eq Suc_le_eq) (metis Suc_leI add_Suc_shift le_neq_implies_less)+
    moreover have "\<forall>j < k. b_flags b' ! j = b_flags b ! j" using b'(4) b1(3) by auto
    ultimately show ?thesis
      using b'(1-3) b1(1,3) True ts(1) run by (simp del: spec_run.simps)
  qed
qed
text \<open>The flags the block arrives with.\<close>

definition initial_flags :: "Block \<Rightarrow> TxValidationFlags" where
  "initial_flags block = (if blk_TxFilter block = [] then NewTxValidationFlags (length (blk_Data block)) else blk_TxFilter block)"

lemma ValidateAndPrepareBatch_spec:
  assumes "versionedDB_ok (v_db env)" "length ts = length (blk_Data block)"
    and "length (initial_flags block) = length (blk_Data block)"
    and "\<forall>j < length ts. initial_flags block ! j = VALID \<longrightarrow> block_tx env (blk_Data block ! j) (ts ! j)"
  defines "run \<equiv> spec_run env (blk_Number block) (\<lambda>_ _. None)
      (filter (\<lambda>(i, t). initial_flags block ! i = VALID) (enumerate 0 ts))"
  shows "\<exists>upd block' st'. ValidateAndPrepareBatch env block True st = Inr (upd, block', st') \<and> batch_ok upd
    \<and> (\<forall>ns. ns \<noteq> ''qscc'' \<longrightarrow> batch_Get upd ns = fst run ns)
    \<and> (\<forall>j < length ts. blk_TxFilter block' ! j = VALID \<longleftrightarrow> j \<in> set (snd run))"
proof -
  let ?u0 = "fst (GetOrCreateNsUpdates NewUpdateBatch ''qscc'')"
  define cur where "cur = (load_statistics env st)\<lparr>bs_Number := blk_Number block\<rparr>"
  define b where "b = \<lparr>b_updates = ?u0, b_flags = initial_flags block,
     b_st = st\<lparr>g_curBlockStatistics := Some cur\<rparr>, b_mapTransStatic = stat_index (bs_List cur)\<rparr>"
  have "no_cals NewUpdateBatch" by (simp add: no_cals_def NewUpdateBatch_def GetCals_def GetRLists_def)
  then have "no_cals ?u0" by (simp add: no_cals_def)
  moreover have "batch_ok ?u0"
    using GetOrCreate_ok(1) [of NewUpdateBatch "''qscc''" ?u0 "snd (GetOrCreateNsUpdates NewUpdateBatch ''qscc'')"] by simp
  ultimately have "block_inv b (\<lambda>_ _. None)" by (auto simp: block_inv_def b_def fun_eq_iff)
  moreover have "\<forall>j. 0 \<le> j \<longrightarrow> b_flags b ! j = initial_flags block ! j"
    "0 + length (blk_Data block) \<le> length (b_flags b)" using assms(3) by (simp_all add: b_def)
  moreover have "\<forall>j < length (blk_Data block). initial_flags block ! (0 + j) = VALID \<longrightarrow> block_tx env (blk_Data block ! j) (ts ! j)"
    using assms(2,4) by simp
  ultimately obtain b' where
    b': "foldM (process_tx env True (blk_Number block) (save_point env)) b (enumerate 0 (blk_Data block)) = Inr b'"
    "block_inv b' (fst run)" "\<forall>j < length (blk_Data block). b_flags b' ! j = VALID \<longleftrightarrow> j \<in> set (snd run)"
    using process_txs_ok [OF assms(1,2), of "initial_flags block" 0 b "\<lambda>_ _. None" "blk_Number block" "save_point env"]
    unfolding run_def by auto
  obtain u where u: "moveCalsToUpdate env (b_updates b', b_st b') = (u, b_st b')"
    "batch_Get u = batch_Get (b_updates b')" "batch_ok u"
    using moveCals_none [of "b_updates b'" env "b_st b'"] b'(2) by (auto simp: block_inv_def)
  let ?r = "save_statistics env (save_point env) (u, b_st b')"
  have "ValidateAndPrepareBatch env block True st = Inr (?r, block\<lparr>blk_TxFilter := b_flags b'\<rparr>, b_st b')"
    using b'(1) u(1) by (simp add: ValidateAndPrepareBatch_def Let_def initial_flags_def [symmetric] cur_def b_def)
  moreover have "agree u ?r" by (rule save_statistics_agree)
  ultimately show ?thesis
    using b'(2,3) u(2,3) assms(2) by (auto simp: block_inv_def agree_def)
qed
end
