(* ===== verification/LevelDB.thy ===== *)
theory LevelDB
  imports RangeQuery
begin

text \<open>
  \<^verbatim>\<open>core/ledger/kvledger/txmgmt/statedb/stateleveldb/stateleveldb.go\<close>: the state database on top
  of a sorted byte store. The store itself (\<^verbatim>\<open>leveldbhelper.DBHandle\<close>) is outside the repository:
  its operations are the record \<open>leveldb\<close> over an arbitrary type of contents, and what is relied
  on is the locale \<open>leveldb_ok\<close> (a read after a batch write, and an iterator that lists a key
  interval in order). The locale is interpreted on a sorted association list.

  Results: a written batch is read back as the overlay of the old state, with its save point
  (\<open>apply_overlay\<close>), and the database is a \<open>versionedDB_ok\<close> snapshot, so everything proved of the
  combined iterator and of the validator applies to it.
\<close>

record 'db leveldb =
  ldb_Get :: "'db \<Rightarrow> bytes \<Rightarrow> bytes option res"
  ldb_GetIterator :: "'db \<Rightarrow> bytes \<Rightarrow> bytes \<Rightarrow> (bytes \<times> bytes) list"
  ldb_WriteBatch :: "'db \<Rightarrow> (bytes \<times> bytes option) list \<Rightarrow> 'db res"

record codec =
  c_enc :: "u64 \<Rightarrow> bytes"
  c_dec :: "bytes \<Rightarrow> u64 \<times> nat"

definition compositeKeySep :: bytes where
  "compositeKeySep = [CHR 0x00]"

definition lastKeyIndicator :: char where
  "lastKeyIndicator = CHR 0x01"

definition savePointKey :: bytes where
  "savePointKey = [CHR 0x00]"

definition constructCompositeKey :: "bytes \<Rightarrow> bytes \<Rightarrow> bytes" where
  "constructCompositeKey ns key = (ns @ compositeKeySep) @ key"

text \<open>\<^verbatim>\<open>bytes.SplitN(compositeKey, sep, 2)\<close>; the second part is missing without a separator.\<close>

definition splitCompositeKey :: "bytes \<Rightarrow> (bytes \<times> bytes) res" where
  "splitCompositeKey compositeKey =
     (case dropWhile (\<lambda>c. c \<noteq> CHR 0x00) compositeKey of
        [] \<Rightarrow> Inl (Panic ''index out of range'')
      | _ # rest \<Rightarrow> Inr (takeWhile (\<lambda>c. c \<noteq> CHR 0x00) compositeKey, rest))"

definition ldb_GetState ::
    "'db leveldb \<Rightarrow> codec \<Rightarrow> 'db \<Rightarrow> bytes \<Rightarrow> bytes \<Rightarrow> VersionedValue option res" where
  "ldb_GetState ops c db namespace key =
     res_bind (ldb_Get ops db (constructCompositeKey namespace key)) (\<lambda>dbVal.
       case dbVal of
         None \<Rightarrow> Inr None
       | Some dbVal \<Rightarrow>
           res_bind (DecodeValue (c_dec c) dbVal) (\<lambda>(val, ver).
             Inr (Some \<lparr>vv_Value = Some val, vv_Version = Some ver\<rparr>)))"

definition ldb_GetStateMultipleKeys ::
    "'db leveldb \<Rightarrow> codec \<Rightarrow> 'db \<Rightarrow> bytes \<Rightarrow> bytes list \<Rightarrow> VersionedValue option list res" where
  "ldb_GetStateMultipleKeys ops c db namespace keys =
     mapM (\<lambda>key. ldb_GetState ops c db namespace key) keys"

definition kvScanner_item :: "codec \<Rightarrow> bytes \<Rightarrow> bytes \<times> bytes \<Rightarrow> VersionedKV res" where
  "kvScanner_item c namespace kv =
     res_bind (splitCompositeKey (fst kv)) (\<lambda>(_, key).
     res_bind (DecodeValue (c_dec c) (snd kv)) (\<lambda>(value, version).
       Inr \<lparr>kv_Namespace = namespace, kv_Key = key, kv_Value = Some value, kv_Version = Some version\<rparr>))"

definition ldb_GetStateRangeScanIterator ::
    "'db leveldb \<Rightarrow> codec \<Rightarrow> 'db \<Rightarrow> bytes \<Rightarrow> bytes \<Rightarrow> bytes \<Rightarrow> db_iterator res" where
  "ldb_GetStateRangeScanIterator ops c db namespace startKey endKey =
     (let compositeStartKey = constructCompositeKey namespace startKey;
          compositeEndKey = constructCompositeKey namespace endKey;
          compositeEndKey =
            (if endKey = [] then compositeEndKey[length compositeEndKey - 1 := lastKeyIndicator]
             else compositeEndKey)
      in Inr (map (kvScanner_item c namespace) (ldb_GetIterator ops db compositeStartKey compositeEndKey)))"

definition update_op :: "codec \<Rightarrow> bytes \<Rightarrow> bytes \<times> VersionedValue \<Rightarrow> (bytes \<times> bytes option) res" where
  "update_op c ns kvv =
     (let compositeKey = constructCompositeKey ns (fst kvv); vv = snd kvv in
      if vv_Value vv = None then Inr (compositeKey, None)
      else (case vv_Version vv of
              None \<Rightarrow> Inl (Panic ''nil pointer dereference'')
            | Some h \<Rightarrow> Inr (compositeKey, Some (EncodeValue (c_enc c) (vv_Value vv) h))))"

definition ldb_ApplyUpdates ::
    "'db leveldb \<Rightarrow> codec \<Rightarrow> 'db \<Rightarrow> UpdateBatch \<Rightarrow> Height \<Rightarrow> 'db res" where
  "ldb_ApplyUpdates ops c db batch height =
     res_bind
       (foldM (\<lambda>dbBatch ns.
          res_bind (mapM (update_op c ns) (GetUpdates batch ns)) (\<lambda>ops. Inr (dbBatch @ ops)))
          [] (GetUpdatedNamespaces batch))
       (\<lambda>dbBatch. ldb_WriteBatch ops db (dbBatch @ [(savePointKey, Some (ToBytes (c_enc c) height))]))"

definition ldb_GetLatestSavePoint :: "'db leveldb \<Rightarrow> codec \<Rightarrow> 'db \<Rightarrow> Height option res" where
  "ldb_GetLatestSavePoint ops c db =
     res_bind (ldb_Get ops db savePointKey) (\<lambda>versionBytes.
       case versionBytes of
         None \<Rightarrow> Inr None
       | Some b \<Rightarrow> res_bind (NewHeightFromBytes (c_dec c) b) (\<lambda>(version, _). Inr (Some version)))"

definition ldb_ValidateKey :: "bytes \<Rightarrow> unit res" where
  "ldb_ValidateKey key = Inr ()"

text \<open>The snapshot of the contents \<open>db\<close> that the other components read.\<close>

definition ldb_view :: "'db leveldb \<Rightarrow> codec \<Rightarrow> 'db \<Rightarrow> versionedDB" where
  "ldb_view ops c db =
     \<lparr>db_GetState = ldb_GetState ops c db,
      db_GetStateRangeScanIterator = ldb_GetStateRangeScanIterator ops c db,
      db_GetLatestSavePoint = ldb_GetLatestSavePoint ops c db,
      db_ValidateKey = ldb_ValidateKey\<rparr>"

section \<open>Composite keys\<close>

lemma split_construct: "ns_ok ns \<Longrightarrow> splitCompositeKey (constructCompositeKey ns k) = Inr (ns, k)"
proof -
  assume "ns_ok ns"
  then have z: "\<forall>c \<in> set ns. c \<noteq> CHR 0x00" by (auto simp: ns_ok_def)
  then have "takeWhile (\<lambda>c. c \<noteq> CHR 0x00) (ns @ CHR 0x00 # k) = ns"
    "dropWhile (\<lambda>c. c \<noteq> CHR 0x00) (ns @ CHR 0x00 # k) = CHR 0x00 # k"
    by (simp_all add: takeWhile_append2 dropWhile_append2)
  then show ?thesis
    by (simp add: splitCompositeKey_def constructCompositeKey_def compositeKeySep_def)
qed

lemma construct_inj:
  "ns_ok ns \<Longrightarrow> ns_ok ns' \<Longrightarrow> constructCompositeKey ns k = constructCompositeKey ns' k' \<longleftrightarrow> ns = ns' \<and> k = k'"
  using split_construct by (metis Inr_inject prod.inject)

lemma construct_not_savepoint: "ns_ok ns \<Longrightarrow> constructCompositeKey ns k \<noteq> savePointKey"
  by (cases ns) (auto simp: constructCompositeKey_def compositeKeySep_def savePointKey_def ns_ok_def)

lemma less_append_same [simp]: "(p @ a < p @ b) = (a < (b :: bytes))"
  by (induction p) (simp_all add: list_less_def)

lemma le_append_same [simp]: "(p @ a \<le> p @ b) = (a \<le> (b :: bytes))"
  by (auto simp: le_less)

lemma char_less_1: "c < CHR 0x01 \<longleftrightarrow> c = CHR 0x00"
proof -
  have "(of_char c :: nat) = 0 \<longleftrightarrow> c = CHR 0x00"
    using of_char_eq_iff [where ?'a = nat, of c "CHR 0x00"] by simp
  then show ?thesis by (simp add: char_less_iff)
qed

lemma ns_interval:
  assumes "ns @ CHR 0x00 # s \<le> ck" "ck < ns @ [CHR 0x01]"
  shows "\<exists>k. ck = ns @ CHR 0x00 # k \<and> s \<le> k"
  using assms
proof (induction ns arbitrary: ck)
  case Nil
  then obtain c cs where ck: "ck = c # cs" by (cases ck) auto
  with Nil have "c = CHR 0x00" by (simp add: char_less_1)
  with ck Nil show ?case by simp
next
  case (Cons a ns)
  then obtain c cs where ck: "ck = c # cs" by (cases ck) auto
  with Cons.prems have "c = a" by auto
  with Cons.prems ck have "ns @ CHR 0x00 # s \<le> cs" "cs < ns @ [CHR 0x01]" by simp_all
  with Cons.IH \<open>c = a\<close> ck show ?case by auto
qed

definition scan_end :: "bytes \<Rightarrow> bytes \<Rightarrow> bytes" where
  "scan_end ns e = (if e = [] then ns @ [CHR 0x01] else constructCompositeKey ns e)"

lemma scan_end_eq:
  "(if e = [] then (constructCompositeKey ns e)[length (constructCompositeKey ns e) - 1 := lastKeyIndicator]
    else constructCompositeKey ns e) = scan_end ns e"
  by (simp add: scan_end_def constructCompositeKey_def compositeKeySep_def lastKeyIndicator_def
      list_update_append)

lemma composite_range:
  "constructCompositeKey ns s \<le> ck \<and> ck < scan_end ns e \<longleftrightarrow>
   (\<exists>k. ck = constructCompositeKey ns k \<and> in_range s e k)"
proof
  assume r: "constructCompositeKey ns s \<le> ck \<and> ck < scan_end ns e"
  have "scan_end ns e \<le> ns @ [CHR 0x01]"
    by (simp add: scan_end_def constructCompositeKey_def compositeKeySep_def char_less_1)
  with r have "ns @ CHR 0x00 # s \<le> ck" "ck < ns @ [CHR 0x01]"
    by (auto simp: constructCompositeKey_def compositeKeySep_def)
  from ns_interval [OF this] obtain k where k: "ck = ns @ CHR 0x00 # k" "s \<le> k" by blast
  with r have "e = [] \<or> k < e"
    by (auto simp: scan_end_def constructCompositeKey_def compositeKeySep_def split: if_splits)
  with k show "\<exists>k. ck = constructCompositeKey ns k \<and> in_range s e k"
    by (auto simp: in_range_def constructCompositeKey_def compositeKeySep_def)
next
  assume "\<exists>k. ck = constructCompositeKey ns k \<and> in_range s e k"
  then show "constructCompositeKey ns s \<le> ck \<and> ck < scan_end ns e"
    by (auto simp: in_range_def scan_end_def constructCompositeKey_def compositeKeySep_def char_less_1)
qed

section \<open>What the store promises\<close>

definition lget :: "'db leveldb \<Rightarrow> 'db \<Rightarrow> bytes \<Rightarrow> bytes option" where
  "lget ops db k = (case ldb_Get ops db k of Inr v \<Rightarrow> v | Inl _ \<Rightarrow> None)"

locale leveldb_ok =
  fixes ops :: "'db leveldb"
  assumes get_ok: "ldb_Get ops db k = Inr (lget ops db k)"
    and iter_sorted: "strict_sorted (map fst (ldb_GetIterator ops db s e))"
    and iter_mem: "(k, v) \<in> set (ldb_GetIterator ops db s e) \<longleftrightarrow> s \<le> k \<and> k < e \<and> lget ops db k = Some v"
    and write_ok: "\<exists>db'. ldb_WriteBatch ops db w = Inr db'"
    and write_get: "ldb_WriteBatch ops db w = Inr db' \<Longrightarrow>
      lget ops db' k = (case map_of (rev w) k of None \<Rightarrow> lget ops db k | Some v \<Rightarrow> v)"

text \<open>Every stored entry is a value with its version (the save point is a version alone).\<close>

definition stored_ok :: "'db leveldb \<Rightarrow> codec \<Rightarrow> 'db \<Rightarrow> bool" where
  "stored_ok ops c db \<longleftrightarrow>
     (\<forall>k v. lget ops db k = Some v \<longrightarrow> (\<exists>val h. v = EncodeValue (c_enc c) (Some val) h))"

text \<open>The batches a validator prepares: well-formed namespaces, and a version with every value.\<close>

definition batch_storable :: "UpdateBatch \<Rightarrow> bool" where
  "batch_storable b \<longleftrightarrow> batch_ok b \<and> (\<forall>ns \<in> set (gm_keys (updates b)). ns_ok ns) \<and>
     (\<forall>ns k vv. batch_Get b ns k = Some vv \<longrightarrow> vv_Value vv \<noteq> None \<longrightarrow> vv_Version vv \<noteq> None)"

text \<open>What \<^verbatim>\<open>ApplyUpdates\<close> writes: a put or a delete for every entry of the batch.\<close>

definition op_of :: "codec \<Rightarrow> bytes \<Rightarrow> bytes \<times> VersionedValue \<Rightarrow> bytes \<times> bytes option" where
  "op_of c ns kvv = (constructCompositeKey ns (fst kvv),
     map_option (\<lambda>v. EncodeValue (c_enc c) (Some v) (the (vv_Version (snd kvv)))) (vv_Value (snd kvv)))"

definition batch_ops :: "codec \<Rightarrow> UpdateBatch \<Rightarrow> (bytes \<times> bytes option) list" where
  "batch_ops c b = concat (map (\<lambda>ns. map (op_of c ns) (GetUpdates b ns)) (gm_keys (updates b)))"

locale stateleveldb = leveldb_ok ops + varuint "c_enc c" "c_dec c"
  for ops :: "'db leveldb" and c :: codec
begin

lemma GetState_stored:
  assumes "lget ops db (constructCompositeKey ns k) = Some (EncodeValue (c_enc c) (Some val) h)"
  shows "ldb_GetState ops c db ns k = Inr (Some \<lparr>vv_Value = Some val, vv_Version = Some h\<rparr>)"
  using assms by (simp add: ldb_GetState_def get_ok value_decode)

lemma GetState_missing:
  assumes "lget ops db (constructCompositeKey ns k) = None"
  shows "ldb_GetState ops c db ns k = Inr None"
  using assms by (simp add: ldb_GetState_def get_ok)

lemma dlook_stored:
  assumes "stored_ok ops c db"
  shows "dlook (ldb_view ops c db) ns k = Some vv \<longleftrightarrow>
    (\<exists>val h. vv = \<lparr>vv_Value = Some val, vv_Version = Some h\<rparr> \<and>
       lget ops db (constructCompositeKey ns k) = Some (EncodeValue (c_enc c) (Some val) h))"
proof (cases "lget ops db (constructCompositeKey ns k)")
  case None
  then show ?thesis by (simp add: dlook_def ldb_view_def GetState_missing)
next
  case (Some v)
  then obtain val h where v: "v = EncodeValue (c_enc c) (Some val) h"
    using assms unfolding stored_ok_def by blast
  have inj: "EncodeValue (c_enc c) (Some val) h = EncodeValue (c_enc c) (Some val') h' \<Longrightarrow> val = val' \<and> h = h'"
    for val' h' using value_decode by (metis Inr_inject prod.inject)
  with Some v show ?thesis by (auto simp: dlook_def ldb_view_def GetState_stored)
qed

lemma scanner_item:
  assumes "ns_ok ns"
  shows "kvScanner_item c ns (constructCompositeKey ns k, EncodeValue (c_enc c) (Some val) h)
    = Inr \<lparr>kv_Namespace = ns, kv_Key = k, kv_Value = Some val, kv_Version = Some h\<rparr>"
  by (simp add: kvScanner_item_def split_construct [OF assms] value_decode)

lemma scan_items:
  fixes db :: 'db and ns s e :: bytes
  assumes "stored_ok ops c db" "ns_ok ns"
  defines "its \<equiv> ldb_GetIterator ops db (constructCompositeKey ns s) (scan_end ns e)"
  defines "kvs \<equiv> map (\<lambda>kv. projr (kvScanner_item c ns kv)) its"
  shows "map (kvScanner_item c ns) its = map Inr kvs"
    and "map fst its = map (\<lambda>kv. constructCompositeKey ns (kv_Key kv)) kvs"
    and "kv \<in> set kvs \<longleftrightarrow> kv_Namespace kv = ns \<and> in_range s e (kv_Key kv)
      \<and> dlook (ldb_view ops c db) ns (kv_Key kv) = Some (vv_of kv)"
proof -
  have item: "\<exists>k val h. p = (constructCompositeKey ns k, EncodeValue (c_enc c) (Some val) h) \<and> in_range s e k"
    if "p \<in> set its" for p
  proof -
    obtain ck v where p: "p = (ck, v)" by force
    with that have m: "constructCompositeKey ns s \<le> ck \<and> ck < scan_end ns e" "lget ops db ck = Some v"
      by (simp_all add: its_def iter_mem)
    then show ?thesis
      using composite_range assms(1) p unfolding stored_ok_def by blast
  qed
  show "map (kvScanner_item c ns) its = map Inr kvs"
    using item scanner_item [OF assms(2)] by (fastforce simp: kvs_def)
  show "map fst its = map (\<lambda>kv. constructCompositeKey ns (kv_Key kv)) kvs"
    using item scanner_item [OF assms(2)] by (fastforce simp: kvs_def)
  show "kv \<in> set kvs \<longleftrightarrow> kv_Namespace kv = ns \<and> in_range s e (kv_Key kv)
      \<and> dlook (ldb_view ops c db) ns (kv_Key kv) = Some (vv_of kv)" (is "_ \<longleftrightarrow> ?r")
  proof
    assume "kv \<in> set kvs"
    then obtain p where p: "p \<in> set its" "kv = projr (kvScanner_item c ns p)" by (auto simp: kvs_def)
    then obtain k val h where k: "p = (constructCompositeKey ns k, EncodeValue (c_enc c) (Some val) h)"
      "in_range s e k" using item by blast
    then have "lget ops db (constructCompositeKey ns k) = Some (EncodeValue (c_enc c) (Some val) h)"
      using p(1) by (simp add: its_def iter_mem)
    with p k show ?r
      by (auto simp: scanner_item [OF assms(2)] dlook_stored [OF assms(1)] vv_of_def)
  next
    assume r: ?r
    then obtain val h where vh: "vv_of kv = \<lparr>vv_Value = Some val, vv_Version = Some h\<rparr>"
      "lget ops db (constructCompositeKey ns (kv_Key kv)) = Some (EncodeValue (c_enc c) (Some val) h)"
      using dlook_stored [OF assms(1)] by blast
    let ?p = "(constructCompositeKey ns (kv_Key kv), EncodeValue (c_enc c) (Some val) h)"
    have "?p \<in> set its" using vh(2) r composite_range by (auto simp: its_def iter_mem)
    moreover have "projr (kvScanner_item c ns ?p) = kv"
      using vh(1) r by (simp add: scanner_item [OF assms(2)] vv_of_def)
    ultimately show "kv \<in> set kvs" unfolding kvs_def set_map by (metis image_eqI)
  qed
qed

lemma view_ok:
  assumes "stored_ok ops c db"
  shows "versionedDB_ok (ldb_view ops c db)"
  unfolding versionedDB_ok_def
proof (intro conjI allI impI)
  fix ns k
  show "is_ok (db_GetState (ldb_view ops c db) ns k)"
  proof (cases "lget ops db (constructCompositeKey ns k)")
    case None
    then show ?thesis by (simp add: ldb_view_def GetState_missing)
  next
    case (Some v)
    then obtain val h where "v = EncodeValue (c_enc c) (Some val) h"
      using assms unfolding stored_ok_def by blast
    with Some show ?thesis by (simp add: ldb_view_def GetState_stored)
  qed
next
  fix ns k vv
  assume "dlook (ldb_view ops c db) ns k = Some vv"
  then show "vv_Value vv \<noteq> None" using dlook_stored [OF assms] by auto
next
  fix ns s e
  assume ns: "ns_ok ns"
  define its where "its = ldb_GetIterator ops db (constructCompositeKey ns s) (scan_end ns e)"
  define kvs where "kvs = map (\<lambda>kv. projr (kvScanner_item c ns kv)) its"
  note S = scan_items [OF assms ns, where s = s and e = e, folded its_def, folded kvs_def]
  have "db_GetStateRangeScanIterator (ldb_view ops c db) ns s e = Inr (map Inr kvs)"
    using S(1) by (simp add: ldb_view_def ldb_GetStateRangeScanIterator_def Let_def scan_end_eq its_def)
  moreover have "strict_sorted (map kv_Key kvs)"
  proof -
    have "strict_sorted (map (\<lambda>kv. constructCompositeKey ns (kv_Key kv)) kvs)"
      using iter_sorted S(2) by (metis its_def)
    then show ?thesis
      by (simp add: sorted_wrt_map constructCompositeKey_def del: append_assoc)
  qed
  ultimately show "\<exists>kvs. db_GetStateRangeScanIterator (ldb_view ops c db) ns s e = Inr (map Inr kvs)
      \<and> strict_sorted (map kv_Key kvs)
      \<and> (\<forall>kv. (kv \<in> set kvs) = (kv_Namespace kv = ns \<and> in_range s e (kv_Key kv)
           \<and> dlook (ldb_view ops c db) ns (kv_Key kv) = Some (vv_of kv)))"
    using S(3) by blast
qed

section \<open>Writing a batch\<close>

lemma GetUpdates_mem:
  "batch_ok b \<Longrightarrow> (k, vv) \<in> set (GetUpdates b ns) \<longleftrightarrow> batch_Get b ns k = Some vv"
  unfolding GetUpdates_get [symmetric]
  by (rule gm_get_mem) (auto simp: GetUpdates_def split: option.split dest: batch_ok_ns)

lemma batch_Get_ns: "batch_Get b ns k = Some vv \<Longrightarrow> ns \<in> set (gm_keys (updates b))"
  unfolding batch_Get_def by (metis gm_get_keys option.simps(3,4))

lemma update_ops:
  assumes "batch_storable b"
  shows "mapM (update_op c ns) (GetUpdates b ns) = Inr (map (op_of c ns) (GetUpdates b ns))"
proof (rule mapM_total)
  fix kvv assume "kvv \<in> set (GetUpdates b ns)"
  then have "batch_Get b ns (fst kvv) = Some (snd kvv)"
    using assms GetUpdates_mem [of b "fst kvv" "snd kvv"] by (simp add: batch_storable_def)
  then have "vv_Value (snd kvv) \<noteq> None \<Longrightarrow> vv_Version (snd kvv) \<noteq> None"
    using assms unfolding batch_storable_def by blast
  then show "update_op c ns kvv = Inr (op_of c ns kvv)"
    by (cases "vv_Value (snd kvv)"; cases "vv_Version (snd kvv)")
      (auto simp: update_op_def op_of_def Let_def)
qed

lemma ApplyUpdates_write:
  assumes "batch_storable b"
  shows "ldb_ApplyUpdates ops c db b h =
    ldb_WriteBatch ops db (batch_ops c b @ [(savePointKey, Some (ToBytes (c_enc c) h))])"
proof -
  have "foldM (\<lambda>dbBatch ns. res_bind (mapM (update_op c ns) (GetUpdates b ns)) (\<lambda>ops. Inr (dbBatch @ ops)))
      acc nss = Inr (acc @ concat (map (\<lambda>ns. map (op_of c ns) (GetUpdates b ns)) nss))" for acc nss
    by (induction nss arbitrary: acc) (simp_all add: update_ops [OF assms])
  then show ?thesis by (simp add: ldb_ApplyUpdates_def GetUpdatedNamespaces_def batch_ops_def)
qed

lemma batch_ops_mem:
  assumes "batch_storable b"
  shows "(ck, v) \<in> set (batch_ops c b) \<longleftrightarrow>
    (\<exists>ns k vv. ns_ok ns \<and> batch_Get b ns k = Some vv \<and> (ck, v) = op_of c ns (k, vv))"
proof
  assume "(ck, v) \<in> set (batch_ops c b)"
  then obtain ns kvv where "ns \<in> set (gm_keys (updates b))" "kvv \<in> set (GetUpdates b ns)"
    "(ck, v) = op_of c ns kvv" by (auto simp: batch_ops_def)
  with assms show "\<exists>ns k vv. ns_ok ns \<and> batch_Get b ns k = Some vv \<and> (ck, v) = op_of c ns (k, vv)"
    using GetUpdates_mem [of b "fst kvv" "snd kvv" ns] unfolding batch_storable_def
    by (metis prod.collapse)
next
  assume "\<exists>ns k vv. ns_ok ns \<and> batch_Get b ns k = Some vv \<and> (ck, v) = op_of c ns (k, vv)"
  then obtain ns k vv where r: "batch_Get b ns k = Some vv" "(ck, v) = op_of c ns (k, vv)" by blast
  then have "ns \<in> set (gm_keys (updates b))" "(k, vv) \<in> set (GetUpdates b ns)"
    using assms GetUpdates_mem [of b k vv ns] batch_Get_ns unfolding batch_storable_def by blast+
  with r(2) show "(ck, v) \<in> set (batch_ops c b)"
    by (auto simp: batch_ops_def intro!: bexI [of _ "(k, vv)"])
qed

lemma batch_ops_get:
  assumes "batch_storable b" "ns_ok ns"
  shows "map_of (rev (batch_ops c b @ [(savePointKey, sp)])) (constructCompositeKey ns k) =
    map_option (\<lambda>vv. snd (op_of c ns (k, vv))) (batch_Get b ns k)"
proof -
  have fn: "v = v'" if m: "(ck, v) \<in> set (batch_ops c b)" "(ck, v') \<in> set (batch_ops c b)" for ck v v'
  proof -
    obtain n k vv where a: "ns_ok n" "batch_Get b n k = Some vv" "(ck, v) = op_of c n (k, vv)"
      using m(1) batch_ops_mem [OF assms(1)] by auto
    obtain n' k' vv' where a':
      "ns_ok n'" "batch_Get b n' k' = Some vv'" "(ck, v') = op_of c n' (k', vv')"
      using m(2) batch_ops_mem [OF assms(1)] by auto
    have "n = n' \<and> k = k'" using construct_inj [OF a(1) a'(1), of k k'] a(3) a'(3) by (simp add: op_of_def)
    with a(2) a'(2) have "op_of c n (k, vv) = op_of c n' (k', vv')" by simp
    then show ?thesis using a(3) a'(3) by (metis snd_conv)
  qed
  have "map_of (rev (batch_ops c b)) (constructCompositeKey ns k) = Some v \<longleftrightarrow>
      (constructCompositeKey ns k, v) \<in> set (batch_ops c b)" for v
    using fn map_of_functional [of "rev (batch_ops c b)"] by simp
  moreover have "(constructCompositeKey ns k, v) \<in> set (batch_ops c b) \<longleftrightarrow>
      (\<exists>vv. batch_Get b ns k = Some vv \<and> v = snd (op_of c ns (k, vv)))" for v
    using construct_inj [OF assms(2)] assms(2) unfolding batch_ops_mem [OF assms(1)] op_of_def by auto
  ultimately have "map_of (rev (batch_ops c b)) (constructCompositeKey ns k) =
      map_option (\<lambda>vv. snd (op_of c ns (k, vv))) (batch_Get b ns k)"
    by (cases "batch_Get b ns k"; cases "map_of (rev (batch_ops c b)) (constructCompositeKey ns k)") auto
  then show ?thesis using construct_not_savepoint [OF assms(2), of k] by auto
qed

lemma apply_lookup:
  assumes "batch_storable b" "ns_ok ns" "ldb_ApplyUpdates ops c db b h = Inr db'"
  shows "lget ops db' (constructCompositeKey ns k) =
    (case batch_Get b ns k of None \<Rightarrow> lget ops db (constructCompositeKey ns k)
     | Some vv \<Rightarrow> snd (op_of c ns (k, vv)))"
  using assms(3) write_get batch_ops_get [OF assms(1,2)]
  unfolding ApplyUpdates_write [OF assms(1)] by (simp split: option.split)

lemma apply_stored:
  assumes "batch_storable b" "stored_ok ops c db" "ldb_ApplyUpdates ops c db b h = Inr db'"
  shows "stored_ok ops c db'"
  unfolding stored_ok_def
proof (intro allI impI)
  fix k v
  let ?w = "batch_ops c b @ [(savePointKey, Some (ToBytes (c_enc c) h))]"
  assume "lget ops db' k = Some v"
  then consider "lget ops db k = Some v" | "map_of (rev ?w) k = Some (Some v)"
    using assms(3) write_get unfolding ApplyUpdates_write [OF assms(1)] by (auto split: option.splits)
  then show "\<exists>val h. v = EncodeValue (c_enc c) (Some val) h"
  proof cases
    case 1
    with assms(2) show ?thesis unfolding stored_ok_def by blast
  next
    case 2
    then have "(k, Some v) \<in> set ?w" by (metis map_of_SomeD set_rev)
    then consider "v = ToBytes (c_enc c) h" | "(k, Some v) \<in> set (batch_ops c b)" by auto
    then show ?thesis
    proof cases
      case 1
      then have "v = EncodeValue (c_enc c) (Some []) h" by (simp add: EncodeValue_def)
      then show ?thesis by blast
    next
      case 2
      then show ?thesis
        unfolding batch_ops_mem [OF assms(1)] op_of_def by (auto simp: map_option_case split: option.splits)
    qed
  qed
qed

lemma apply_total:
  "batch_storable b \<Longrightarrow> \<exists>db'. ldb_ApplyUpdates ops c db b h = Inr db'"
  unfolding ApplyUpdates_write by (rule write_ok)

lemma apply_savepoint:
  assumes "batch_storable b" "ldb_ApplyUpdates ops c db b h = Inr db'"
  shows "ldb_GetLatestSavePoint ops c db' = Inr (Some h)"
proof -
  have "lget ops db' savePointKey = Some (ToBytes (c_enc c) h)"
    using assms(2) write_get unfolding ApplyUpdates_write [OF assms(1)] by simp
  then show ?thesis by (simp add: ldb_GetLatestSavePoint_def get_ok height_decode0)
qed

text \<open>A state database refines the abstract one: applying a batch is overlaying the lookups.\<close>

lemma apply_overlay:
  assumes "batch_storable b" "stored_ok ops c db" "ns_ok ns" "ldb_ApplyUpdates ops c db b h = Inr db'"
  shows "dlook (ldb_view ops c db') ns k = overlay (dlook (ldb_view ops c db)) b ns k"
proof (cases "batch_Get b ns k")
  case None
  then have "lget ops db' (constructCompositeKey ns k) = lget ops db (constructCompositeKey ns k)"
    using apply_lookup [OF assms(1,3,4), of k] by simp
  then have "ldb_GetState ops c db' ns k = ldb_GetState ops c db ns k"
    by (simp add: ldb_GetState_def get_ok)
  with None show ?thesis by (simp add: overlay_def dlook_def ldb_view_def)
next
  case (Some vv)
  then have l: "lget ops db' (constructCompositeKey ns k) = snd (op_of c ns (k, vv))"
    using apply_lookup [OF assms(1,3,4), of k] by simp
  show ?thesis
  proof (cases "vv_Value vv")
    case None
    with Some l show ?thesis by (simp add: overlay_def dlook_def ldb_view_def op_of_def GetState_missing)
  next
    case v: (Some val)
    then obtain h where "vv_Version vv = Some h"
      using assms(1) Some unfolding batch_storable_def by blast
    then have "vv = \<lparr>vv_Value = Some val, vv_Version = Some h\<rparr>" using v by simp
    with Some l show ?thesis by (simp add: overlay_def dlook_def ldb_view_def op_of_def GetState_stored)
  qed
qed

end

section \<open>An in-memory store\<close>

text \<open>
  A list of entries sorted by key, the shape of the memory table. It discharges the laws of
  \<open>leveldb_ok\<close>, so the hypotheses of the theorems about the state database can hold.
\<close>

typedef memdb = "{m :: (bytes \<times> bytes) list. strict_sorted (map fst m)}"
  by (rule exI [of _ "[]"]) simp

setup_lifting type_definition_memdb

fun ins :: "bytes \<Rightarrow> bytes \<Rightarrow> (bytes \<times> bytes) list \<Rightarrow> (bytes \<times> bytes) list" where
  "ins k v [] = [(k, v)]"
| "ins k v ((k', v') # m) =
     (if k < k' then (k, v) # (k', v') # m else if k = k' then (k, v) # m else (k', v') # ins k v m)"

lemma ins_keys: "fst ` set (ins k v m) = insert k (fst ` set m)"
  by (induction k v m rule: ins.induct) auto

lemma ins_sorted: "strict_sorted (map fst m) \<Longrightarrow> strict_sorted (map fst (ins k v m))"
proof (induction k v m rule: ins.induct)
  case (2 k v k' v' m)
  have tail: "strict_sorted (map fst m)" "\<forall>x \<in> fst ` set m. k' < x" using "2.prems" by auto
  consider "k < k'" | "k = k'" | "k' < k" by (rule linorder_cases)
  then show ?case
  proof cases
    case 1
    with tail show ?thesis by (auto intro: order.strict_trans)
  next
    case 2
    with tail show ?thesis by auto
  next
    case 3
    then have "\<forall>x \<in> fst ` set (ins k v m). k' < x" using tail(2) by (simp add: ins_keys)
    with 3 "2.IH" tail show ?thesis by auto
  qed
qed simp

lemma ins_get: "strict_sorted (map fst m) \<Longrightarrow> map_of (ins k v m) k'' = ((map_of m)(k \<mapsto> v)) k''"
  by (induction k v m rule: ins.induct) auto

lift_definition mem_empty :: memdb is "[]" by simp

lift_definition mem_get :: "memdb \<Rightarrow> bytes \<Rightarrow> bytes option" is map_of .

lift_definition mem_list :: "memdb \<Rightarrow> (bytes \<times> bytes) list" is "\<lambda>m. m" .

lift_definition mem_put :: "memdb \<Rightarrow> bytes \<Rightarrow> bytes \<Rightarrow> memdb" is "\<lambda>m k v. ins k v m"
  by (rule ins_sorted)

lift_definition mem_del :: "memdb \<Rightarrow> bytes \<Rightarrow> memdb" is "\<lambda>m k. filter (\<lambda>kv. fst kv \<noteq> k) m"
  by (simp add: sorted_wrt_map sorted_wrt_filter)

definition mem_write :: "memdb \<Rightarrow> bytes \<times> bytes option \<Rightarrow> memdb" where
  "mem_write db kv = (case snd kv of None \<Rightarrow> mem_del db (fst kv) | Some v \<Rightarrow> mem_put db (fst kv) v)"

definition mem_ops :: "memdb leveldb" where
  "mem_ops = \<lparr>ldb_Get = (\<lambda>db k. Inr (mem_get db k)),
     ldb_GetIterator = (\<lambda>db s e. filter (\<lambda>kv. s \<le> fst kv \<and> fst kv < e) (mem_list db)),
     ldb_WriteBatch = (\<lambda>db w. Inr (foldl mem_write db w))\<rparr>"

definition lp_codec :: codec where
  "lp_codec = \<lparr>c_enc = lp_enc, c_dec = lp_dec\<rparr>"

lemma mem_list_sorted: "strict_sorted (map fst (mem_list db))"
  by transfer

lemma mem_list_mem: "(k, v) \<in> set (mem_list db) \<longleftrightarrow> mem_get db k = Some v"
  by transfer (rule gm_get_mem, rule strict_sorted_distinct)

lemma mem_get_empty [simp]: "mem_get mem_empty k = None"
  by transfer simp

lemma mem_get_put: "mem_get (mem_put db k v) k' = (if k' = k then Some v else mem_get db k')"
  by transfer (simp add: ins_get)

lemma mem_get_del: "mem_get (mem_del db k) k' = (if k' = k then None else mem_get db k')"
proof transfer
  fix m :: "(bytes \<times> bytes) list" and k k'
  show "map_of (filter (\<lambda>kv. fst kv \<noteq> k) m) k' = (if k' = k then None else map_of m k')"
    by (induction m) auto
qed

lemma mem_get_writes:
  "mem_get (foldl mem_write db w) k = (case map_of (rev w) k of None \<Rightarrow> mem_get db k | Some v \<Rightarrow> v)"
proof (induction w rule: rev_induct)
  case (snoc kv w)
  then show ?case
    by (cases "snd kv") (auto simp: mem_write_def mem_get_put mem_get_del split: option.split)
qed simp

lemma lget_mem [simp]: "lget mem_ops db k = mem_get db k"
  by (simp add: lget_def mem_ops_def)

interpretation mem: stateleveldb mem_ops lp_codec
proof
  show "strict_sorted (map fst (ldb_GetIterator mem_ops db s e))" for db s e
    by (simp add: mem_ops_def sorted_wrt_map sorted_wrt_filter mem_list_sorted [unfolded sorted_wrt_map])
  show "lget mem_ops db' k = (case map_of (rev w) k of None \<Rightarrow> lget mem_ops db k | Some v \<Rightarrow> v)"
    if "ldb_WriteBatch mem_ops db w = Inr db'" for db db' w k
  proof -
    have "db' = foldl mem_write db w" using that by (simp add: mem_ops_def)
    then show ?thesis unfolding lget_mem by (simp only: mem_get_writes)
  qed
  show "ldb_Get mem_ops db k = Inr (lget mem_ops db k)" for db k
    unfolding lget_mem by (simp add: mem_ops_def)
  show "((k, v) \<in> set (ldb_GetIterator mem_ops db s e)) = (s \<le> k \<and> k < e \<and> lget mem_ops db k = Some v)"
    for k v db s e
    unfolding lget_mem mem_list_mem [symmetric] by (auto simp: mem_ops_def)
  show "\<exists>db'. ldb_WriteBatch mem_ops db w = Inr db'" for db w by (simp add: mem_ops_def)
  show "c_dec lp_codec (c_enc lp_codec n @ r) = (n, length (c_enc lp_codec n))" for n r
    by (simp add: lp_codec_def lp.dec_enc)
qed

lemma mem_empty_stored [simp]: "stored_ok mem_ops c mem_empty"
  by (simp add: stored_ok_def)

end
