(* ===== verification/TxMgr.thy ===== *)
theory TxMgr
  imports Serial LevelDB
begin

text \<open>
  \<^verbatim>\<open>core/ledger/kvledger/txmgmt/txmgr/lockbasedtxmgr\<close>: the query helper behind query executors and
  transaction simulators (\<^verbatim>\<open>helper.go\<close>, \<^verbatim>\<open>lockbased_query_executer.go\<close>,
  \<^verbatim>\<open>lockbased_tx_simulator.go\<close>) and the transaction manager that validates, commits and recovers
  (\<^verbatim>\<open>lockbased_txmgr.go\<close>).

  A helper is the record \<open>queryHelper\<close>; its \<^verbatim>\<open>rwsetBuilder\<close> is nil for a query executor. The
  iterators it hands out are addressed by their position in \<open>qh_itrs\<close>. Record lists that a helper
  opens are its own, so it has a heap of its own. The transaction manager runs on the LevelDB state
  database of \<open>LevelDB\<close>; its read-write lock is a counter of readers, and the interleavings of
  simulations and commits that the lock admits are a step relation in the theory \<open>Sessions\<close>.
\<close>

record tm_env =
  te_rl :: rl_env
  te_fuel :: nat
  te_db :: bytes
  te_merkle :: merkle_env
  te_codec :: rw_codec
  te_hashing :: bool
  te_maxDegree :: u32

definition te_vdb :: "tm_env \<Rightarrow> versionedDB" where
  "te_vdb env = e_dbs (te_rl env) (te_db env)"

record resultsItr =
  ri_ns :: bytes
  ri_endKey :: bytes
  ri_dbItr :: db_iterator
  ri_capture :: bool
  ri_info :: RangeQueryInfo
  ri_helper :: "RangeQueryResultsHelper option"

record queryHelper =
  qh_rwset :: "RWSetBuilder option"
  qh_itrs :: "resultsItr list"
  qh_err :: "error option"
  qh_done :: bool
  qh_rLists :: "(bytes, (bytes, rlist_ptr) gomap) gomap"
  qh_heap :: rheap

definition newQueryExecutor :: queryHelper where
  "newQueryExecutor = \<lparr>qh_rwset = None, qh_itrs = [], qh_err = None, qh_done = False,
     qh_rLists = [], qh_heap = empty_rheap\<rparr>"

definition newLockBasedTxSimulator :: queryHelper where
  "newLockBasedTxSimulator = newQueryExecutor\<lparr>qh_rwset := Some NewRWSetBuilder\<rparr>"

definition checkDone :: "queryHelper \<Rightarrow> unit res" where
  "checkDone h = (if qh_done h then Inl (Panic ''This instance should not be used after calling Done()'') else Inr ())"

definition decomposeVersionedValue :: "VersionedValue option \<Rightarrow> slice \<times> Height option" where
  "decomposeVersionedValue v = (case v of None \<Rightarrow> (None, None) | Some vv \<Rightarrow> (vv_Value vv, vv_Version vv))"

definition add_read :: "queryHelper \<Rightarrow> bytes \<Rightarrow> bytes \<Rightarrow> Height option \<Rightarrow> queryHelper" where
  "add_read h ns key ver =
     (case qh_rwset h of None \<Rightarrow> h | Some b \<Rightarrow> h\<lparr>qh_rwset := Some (AddToReadSet b ns key ver)\<rparr>)"

text \<open>Reading through a record list; the answer is not recorded in the read set.\<close>

definition qh_rlist :: "tm_env \<Rightarrow> queryHelper \<Rightarrow> bytes \<Rightarrow> bytes \<Rightarrow> (rlist_ptr \<times> queryHelper) res" where
  "qh_rlist env h ns name =
     (let m = (case gm_get (qh_rLists h) ns of None \<Rightarrow> [] | Some m \<Rightarrow> m);
          h = h\<lparr>qh_rLists := gm_put ns m (qh_rLists h)\<rparr>
      in case gm_get m name of
           Some p \<Rightarrow> Inr (p, h)
         | None \<Rightarrow>
             res_bind (NewRList (te_rl env) (te_fuel env) (te_db env) ns name (qh_heap h)) (\<lambda>(p, heap).
               Inr (p, h\<lparr>qh_heap := heap, qh_rLists := gm_put ns (gm_put name p m) (qh_rLists h)\<rparr>)))"

definition getState_rlist :: "tm_env \<Rightarrow> queryHelper \<Rightarrow> bytes \<Rightarrow> bytes \<Rightarrow> (slice \<times> queryHelper) res" where
  "getState_rlist env h ns lisParamStr =
     res_bind (slice_to lisParamStr 3) (\<lambda>lisMethod.
     res_bind (slice_from lisParamStr 4) (\<lambda>rest.
       let lisParam = split_on CHR '','' rest in
     res_bind (qh_rlist env h ns (hd lisParam)) (\<lambda>(p, h).
       let rl = te_rl env; n = te_fuel env; heap = qh_heap h in
       if EqualFold lisMethod ''LEN'' then Inr (Some (FormatInt (rl_Size (nd heap p))), h)
       else if EqualFold lisMethod ''GET'' then
         res_bind (index_at lisParam 1) (\<lambda>arg.
           let (b, err) = ParseInt arg; b = (if err then 0 else b) in
           res_bind (rl_GetIdByIndex rl n p b heap) (\<lambda>(x, heap). Inr (Some x, h\<lparr>qh_heap := heap\<rparr>)))
       else if EqualFold lisMethod ''IDX'' then
         res_bind (index_at lisParam 1) (\<lambda>arg.
           res_bind (rl_IndexOf rl n p arg heap) (\<lambda>(x, heap). Inr (Some (FormatInt x), h\<lparr>qh_heap := heap\<rparr>)))
       else Inr (Some [], h))))"

definition getState :: "tm_env \<Rightarrow> queryHelper \<Rightarrow> bytes \<Rightarrow> bytes \<Rightarrow> (slice \<times> queryHelper) res" where
  "getState env h ns key =
     res_bind (checkDone h) (\<lambda>_.
       if HasPrefix key RLIST_PREFIX then getState_rlist env h ns (drop 8 key)
       else
         res_bind (db_GetState (te_vdb env) ns key) (\<lambda>versionedValue.
           let (val, ver) = decomposeVersionedValue versionedValue in Inr (val, add_read h ns key ver)))"

text \<open>An error of the database is answered with no values and no error.\<close>

definition getStateMultipleKeys ::
    "tm_env \<Rightarrow> queryHelper \<Rightarrow> bytes \<Rightarrow> bytes list \<Rightarrow> (slice list option \<times> queryHelper) res" where
  "getStateMultipleKeys env h ns keys =
     res_bind (checkDone h) (\<lambda>_.
       case mapM (db_GetState (te_vdb env) ns) keys of
         Inl _ \<Rightarrow> Inr (None, h)
       | Inr vvs \<Rightarrow>
           Inr (Some (map (fst \<circ> decomposeVersionedValue) vvs),
                foldl (\<lambda>h (key, vv). add_read h ns key (snd (decomposeVersionedValue vv))) h (zip keys vvs)))"

definition newResultsItr :: "tm_env \<Rightarrow> bytes \<Rightarrow> bytes \<Rightarrow> bytes \<Rightarrow> bool \<Rightarrow> resultsItr res" where
  "newResultsItr env ns startKey endKey capture =
     res_bind (db_GetStateRangeScanIterator (te_vdb env) ns startKey endKey) (\<lambda>dbItr.
       let info = \<lparr>rq_StartKey = startKey, rq_EndKey = [], rq_ItrExhausted = False, rq_ReadsInfo = NoReads\<rparr> in
       if capture then
         res_bind (NewRangeQueryResultsHelper (te_hashing env) (te_maxDegree env)) (\<lambda>helper.
           Inr \<lparr>ri_ns = ns, ri_endKey = endKey, ri_dbItr = dbItr, ri_capture = True, ri_info = info,
                ri_helper = Some helper\<rparr>)
       else Inr \<lparr>ri_ns = ns, ri_endKey = [], ri_dbItr = dbItr, ri_capture = False, ri_info = info, ri_helper = None\<rparr>)"

definition getStateRangeScanIterator :: "tm_env \<Rightarrow> queryHelper \<Rightarrow> bytes \<Rightarrow> bytes \<Rightarrow> bytes \<Rightarrow> (nat \<times> queryHelper) res" where
  "getStateRangeScanIterator env h ns startKey endKey =
     res_bind (checkDone h) (\<lambda>_.
     res_bind (newResultsItr env ns startKey endKey (qh_rwset h \<noteq> None)) (\<lambda>itr.
       Inr (length (qh_itrs h), h\<lparr>qh_itrs := qh_itrs h @ [itr]\<rparr>)))"

definition updateRangeQueryInfo :: "tm_env \<Rightarrow> VersionedKV option \<Rightarrow> resultsItr \<Rightarrow> resultsItr res" where
  "updateRangeQueryInfo env queryResult itr =
     (if \<not> ri_capture itr then Inr itr
      else (case queryResult of
              None \<Rightarrow> Inr (itr\<lparr>ri_info := (ri_info itr)\<lparr>rq_ItrExhausted := True, rq_EndKey := ri_endKey itr\<rparr>\<rparr>)
            | Some kv \<Rightarrow>
                (case ri_helper itr of
                   None \<Rightarrow> Inl (Panic ''nil pointer dereference'')
                 | Some helper \<Rightarrow>
                     res_bind (AddResult (te_merkle env) helper (NewKVRead (kv_Key kv) (kv_Version kv))) (\<lambda>(helper, _).
                       Inr (itr\<lparr>ri_helper := Some helper, ri_info := (ri_info itr)\<lparr>rq_EndKey := kv_Key kv\<rparr>\<rparr>)))))"

definition resultsItr_Next :: "tm_env \<Rightarrow> resultsItr \<Rightarrow> (resultsItr \<times> (bytes \<times> bytes \<times> slice) option) res" where
  "resultsItr_Next env itr =
     res_bind (db_Next (ri_dbItr itr)) (\<lambda>(dbItr, queryResult).
     res_bind (updateRangeQueryInfo env queryResult (itr\<lparr>ri_dbItr := dbItr\<rparr>)) (\<lambda>itr.
       Inr (itr, map_option (\<lambda>kv. (kv_Namespace kv, kv_Key kv, kv_Value kv)) queryResult)))"

text \<open>\<^verbatim>\<open>Next\<close> on an iterator the helper handed out.\<close>

definition itr_Next :: "tm_env \<Rightarrow> nat \<Rightarrow> queryHelper \<Rightarrow> ((bytes \<times> bytes \<times> slice) option \<times> queryHelper) res" where
  "itr_Next env i h =
     res_bind (index_at (qh_itrs h) i) (\<lambda>itr.
     res_bind (resultsItr_Next env itr) (\<lambda>(itr, r). Inr (r, h\<lparr>qh_itrs := (qh_itrs h)[i := itr]\<rparr>)))"

text \<open>\<^verbatim>\<open>SetRawReads\<close> and \<^verbatim>\<open>SetMerkelSummary\<close> choose the kind of the recorded reads; no reads is nil.\<close>

definition finish_itr :: "KVRead list \<Rightarrow> MerkleSummary option \<Rightarrow> RangeQueryInfo \<Rightarrow> RangeQueryInfo" where
  "finish_itr results hash info =
     (let info = (if results \<noteq> [] then info\<lparr>rq_ReadsInfo := RawReads results\<rparr> else info)
      in case hash of None \<Rightarrow> info | Some ms \<Rightarrow> info\<lparr>rq_ReadsInfo := MerkleReads ms\<rparr>)"

fun done_itrs :: "tm_env \<Rightarrow> resultsItr list \<Rightarrow> RWSetBuilder \<Rightarrow> (RWSetBuilder \<times> error option) res" where
  "done_itrs env [] b = Inr (b, None)"
| "done_itrs env (itr # itrs) b =
     (case ri_helper itr of
        None \<Rightarrow> Inl (Panic ''nil pointer dereference'')
      | Some helper \<Rightarrow>
          res_bind (helper_Done (te_merkle env) helper) (\<lambda>(results, hash, err).
            case err of
              Some e \<Rightarrow> Inr (b, Some e)
            | None \<Rightarrow> done_itrs env itrs (AddToRangeQuerySet b (ri_ns itr) (finish_itr results hash (ri_info itr)))))"

text \<open>Releasing the read lock is the step \<open>Done\<close> of the transaction manager below.\<close>

definition qh_Done :: "tm_env \<Rightarrow> queryHelper \<Rightarrow> queryHelper res" where
  "qh_Done env h =
     (if qh_done h then Inr h
      else (case qh_rwset h of
              None \<Rightarrow> Inr (h\<lparr>qh_done := True\<rparr>)
            | Some b \<Rightarrow>
                res_bind (done_itrs env (qh_itrs h) b) (\<lambda>(b, err).
                  Inr (h\<lparr>qh_rwset := Some b, qh_err := (case err of None \<Rightarrow> qh_err h | Some e \<Rightarrow> Some e),
                         qh_done := True\<rparr>))))"

definition SetState :: "tm_env \<Rightarrow> queryHelper \<Rightarrow> bytes \<Rightarrow> bytes \<Rightarrow> slice \<Rightarrow> queryHelper res" where
  "SetState env h ns key val =
     res_bind (checkDone h) (\<lambda>_.
     res_bind (db_ValidateKey (te_vdb env) key) (\<lambda>_.
       case qh_rwset h of
         None \<Rightarrow> Inl (Panic ''nil pointer dereference'')
       | Some b \<Rightarrow> Inr (h\<lparr>qh_rwset := Some (AddToWriteSet b ns key val)\<rparr>)))"

definition DeleteState :: "tm_env \<Rightarrow> queryHelper \<Rightarrow> bytes \<Rightarrow> bytes \<Rightarrow> queryHelper res" where
  "DeleteState env h ns key = SetState env h ns key None"

definition SetStateMultipleKeys :: "tm_env \<Rightarrow> queryHelper \<Rightarrow> bytes \<Rightarrow> (bytes, slice) gomap \<Rightarrow> queryHelper res" where
  "SetStateMultipleKeys env h ns kvs = foldM (\<lambda>h (k, v). SetState env h ns k v) h kvs"

definition GetTxSimulationResults :: "tm_env \<Rightarrow> queryHelper \<Rightarrow> (bytes res \<times> queryHelper) res" where
  "GetTxSimulationResults env h =
     res_bind (qh_Done env h) (\<lambda>h.
       case qh_err h of
         Some e \<Rightarrow> Inr (Inl e, h)
       | None \<Rightarrow>
           (case qh_rwset h of
              None \<Rightarrow> Inl (Panic ''nil pointer dereference'')
            | Some b \<Rightarrow> Inr (ToProtoBytes (te_codec env) (GetTxReadWriteSet b), h)))"

text \<open>
  \<^verbatim>\<open>ExecuteQuery\<close> of the database is a parameter (only the CouchDB state database answers it); each
  record its iterator yields is added to the read set.
\<close>

definition executeQuery :: "(bytes \<Rightarrow> bytes \<Rightarrow> db_iterator res) \<Rightarrow> bytes \<Rightarrow> bytes \<Rightarrow> db_iterator res" where
  "executeQuery db_ExecuteQuery namespace query = db_ExecuteQuery namespace query"

definition queryResultsItr_Next ::
    "db_iterator \<Rightarrow> queryHelper \<Rightarrow> (db_iterator \<times> (bytes \<times> bytes \<times> slice) option \<times> queryHelper) res" where
  "queryResultsItr_Next dbItr h =
     res_bind (db_Next dbItr) (\<lambda>(dbItr, queryResult).
       case queryResult of
         None \<Rightarrow> Inr (dbItr, None, h)
       | Some kv \<Rightarrow> Inr (dbItr, Some (kv_Namespace kv, kv_Key kv, kv_Value kv),
                          add_read h (kv_Namespace kv) (kv_Key kv) (kv_Version kv)))"

definition ExecuteUpdate :: "bytes \<Rightarrow> unit res" where
  "ExecuteUpdate query = Inl (Err ''Not supported'')"

section \<open>The transaction manager\<close>

text \<open>
  The manager owns the contents of the state database and the package state of the validator.
  \<open>tm_readers\<close> is the number of holders of the read lock; \<^verbatim>\<open>Commit\<close> runs with the write lock held.
\<close>

record 'db LockBasedTxMgr =
  tm_db :: 'db
  tm_vstate :: vstate
  tm_batch :: "UpdateBatch option"
  tm_currentBlock :: "Block option"
  tm_readers :: nat

definition NewLockBasedTxMgr :: "'db \<Rightarrow> vstate \<Rightarrow> 'db LockBasedTxMgr" where
  "NewLockBasedTxMgr db st =
     \<lparr>tm_db = db, tm_vstate = st, tm_batch = None, tm_currentBlock = None, tm_readers = 0\<rparr>"

text \<open>The environment of the validator when the database holds \<open>db\<close>.\<close>

definition env_at :: "'db leveldb \<Rightarrow> codec \<Rightarrow> val_env \<Rightarrow> 'db \<Rightarrow> val_env" where
  "env_at ops c env db = env\<lparr>ve_rl := (ve_rl env)\<lparr>e_dbs := (e_dbs (ve_rl env))(ve_db env := ldb_view ops c db)\<rparr>\<rparr>"

definition tenv_at :: "'db leveldb \<Rightarrow> codec \<Rightarrow> tm_env \<Rightarrow> 'db \<Rightarrow> tm_env" where
  "tenv_at ops c env db = env\<lparr>te_rl := (te_rl env)\<lparr>e_dbs := (e_dbs (te_rl env))(te_db env := ldb_view ops c db)\<rparr>\<rparr>"

lemma v_db_at [simp]: "v_db (env_at ops c env db) = ldb_view ops c db"
  by (simp add: v_db_def env_at_def)

lemma te_vdb_at [simp]: "te_vdb (tenv_at ops c env db) = ldb_view ops c db"
  by (simp add: te_vdb_def tenv_at_def)

definition GetLastSavepoint :: "'db leveldb \<Rightarrow> codec \<Rightarrow> 'db LockBasedTxMgr \<Rightarrow> Height option res" where
  "GetLastSavepoint ops c tm = ldb_GetLatestSavePoint ops c (tm_db tm)"

definition tm_NewQueryExecutor :: "'db LockBasedTxMgr \<Rightarrow> queryHelper \<times> 'db LockBasedTxMgr" where
  "tm_NewQueryExecutor tm = (newQueryExecutor, tm\<lparr>tm_readers := tm_readers tm + 1\<rparr>)"

definition tm_NewTxSimulator :: "'db LockBasedTxMgr \<Rightarrow> queryHelper \<times> 'db LockBasedTxMgr" where
  "tm_NewTxSimulator tm = (newLockBasedTxSimulator, tm\<lparr>tm_readers := tm_readers tm + 1\<rparr>)"

text \<open>The block comes back with the flags the validation has set in its metadata.\<close>

definition ValidateAndPrepare ::
    "'db leveldb \<Rightarrow> codec \<Rightarrow> val_env \<Rightarrow> Block \<Rightarrow> bool \<Rightarrow> 'db LockBasedTxMgr \<Rightarrow> (Block \<times> 'db LockBasedTxMgr) res" where
  "ValidateAndPrepare ops c env block doMVCCValidation tm =
     res_bind (ValidateAndPrepareBatch (env_at ops c env (tm_db tm)) block doMVCCValidation (tm_vstate tm))
       (\<lambda>(batch, block, st).
          Inr (block, tm\<lparr>tm_currentBlock := Some block, tm_batch := Some batch, tm_vstate := st\<rparr>))"

definition commit_height :: "Block \<Rightarrow> Height" where
  "commit_height block = NewHeight (blk_Number block) (of_int (int (length (blk_Data block)) - 1))"

text \<open>The batch is dropped whether or not the database accepted it; an error leaves the contents.\<close>

definition tm_Commit :: "'db leveldb \<Rightarrow> codec \<Rightarrow> 'db LockBasedTxMgr \<Rightarrow> (error option \<times> 'db LockBasedTxMgr) res" where
  "tm_Commit ops c tm =
     (case (tm_batch tm, tm_currentBlock tm) of
        (None, _) \<Rightarrow> Inl (Panic ''validateAndPrepare() method should have been called before calling commit()'')
      | (Some batch, None) \<Rightarrow> Inl (Panic ''nil pointer dereference'')
      | (Some batch, Some block) \<Rightarrow>
          (case ldb_ApplyUpdates ops c (tm_db tm) batch (commit_height block) of
             Inl (Err e) \<Rightarrow> Inr (Some (Err e), tm\<lparr>tm_batch := None\<rparr>)
           | Inl e \<Rightarrow> Inl e
           | Inr db \<Rightarrow> Inr (None, tm\<lparr>tm_db := db, tm_batch := None\<rparr>)))"

definition tm_Rollback :: "'db LockBasedTxMgr \<Rightarrow> 'db LockBasedTxMgr" where
  "tm_Rollback tm = tm\<lparr>tm_batch := None\<rparr>"

definition tm_ShouldRecover :: "'db leveldb \<Rightarrow> codec \<Rightarrow> 'db LockBasedTxMgr \<Rightarrow> u64 \<Rightarrow> (bool \<times> u64) res" where
  "tm_ShouldRecover ops c tm lastAvailableBlock =
     res_bind (GetLastSavepoint ops c tm) (\<lambda>savepoint.
       case savepoint of
         None \<Rightarrow> Inr (True, 0)
       | Some h \<Rightarrow> Inr (BlockNum h \<noteq> lastAvailableBlock, BlockNum h + 1))"

definition tm_CommitLostBlock ::
    "'db leveldb \<Rightarrow> codec \<Rightarrow> val_env \<Rightarrow> Block \<Rightarrow> 'db LockBasedTxMgr \<Rightarrow> 'db LockBasedTxMgr res" where
  "tm_CommitLostBlock ops c env block tm =
     res_bind (ValidateAndPrepare ops c env block False tm) (\<lambda>(_, tm).
     res_bind (tm_Commit ops c tm) (\<lambda>(err, tm).
       case err of None \<Rightarrow> Inr tm | Some e \<Rightarrow> Inl e))"

end
