(* ===== verification/Commit.thy ===== *)
theory Commit
  imports TxMgr
begin

text \<open>
  What a commit does to the state database. Every batch the validator prepares, computed keys and
  statistics included, is one the database can store (\<open>prepare_storable\<close>); so a commit after a
  successful preparation does not fail, and leaves the overlay of the batch with the height of the
  block as its save point (\<open>commit_effect\<close>).
\<close>

section \<open>The prepared batch can be stored\<close>

definition vmap :: "nsUpdates \<Rightarrow> bool" where
  "vmap m \<longleftrightarrow> gm_ok m \<and> (\<forall>kv \<in> set m. vv_Version (snd kv) \<noteq> None)"

definition bstore :: "UpdateBatch \<Rightarrow> bool" where
  "bstore b \<longleftrightarrow> gm_ok (updates b) \<and> (\<forall>nm \<in> set (updates b). ns_ok (fst nm) \<and> vmap (snd nm))
     \<and> (\<forall>nm \<in> set (cals b). ns_ok (fst nm) \<and> vmap (snd nm)) \<and> (\<forall>nm \<in> set (rLists b). ns_ok (fst nm))"

text \<open>What is read from the database has a version, and there is a save point.\<close>

definition store_env :: "val_env \<Rightarrow> bool" where
  "store_env env \<longleftrightarrow> save_point env \<noteq> None
     \<and> (\<forall>ns k vv. db_read env ns k = Some vv \<longrightarrow> vv_Version vv \<noteq> None)"

named_theorems store_intros

lemma vmap_Nil [simp]: "vmap []"
  by (simp add: vmap_def)

lemma vmap_put [store_intros]: "vmap m \<Longrightarrow> vv_Version v \<noteq> None \<Longrightarrow> vmap (gm_put k v m)"
  using gm_put_subset [of k v m] by (auto simp: vmap_def)

lemma vmap_del [store_intros]: "vmap m \<Longrightarrow> vmap (gm_del k m)"
  using gm_del_subset [of k m] by (auto simp: vmap_def)

lemma vmap_get: "vmap m \<Longrightarrow> gm_get m k = Some v \<Longrightarrow> vv_Version v \<noteq> None"
  unfolding vmap_def by (metis map_of_SomeD snd_conv)

lemma all_put: "\<forall>x \<in> set m. P x \<Longrightarrow> P (k, v) \<Longrightarrow> \<forall>x \<in> set (gm_put k v m). P x"
  using gm_put_subset [of k v m] by auto

lemma bstore_set [store_intros]:
  "bstore b \<Longrightarrow> ns_ok ns \<Longrightarrow> vmap m \<Longrightarrow> bstore (set_ns_updates ns m b)"
  "bstore b \<Longrightarrow> ns_ok ns \<Longrightarrow> vmap m \<Longrightarrow> bstore (set_ns_cals ns m b)"
  "bstore b \<Longrightarrow> ns_ok ns \<Longrightarrow> bstore (set_ns_rlists ns r b)"
  by (auto simp: bstore_def set_ns_updates_def set_ns_cals_def set_ns_rlists_def dest: gm_put_subset [THEN subsetD])

lemma bstore_num [store_intros]:
  "bstore b \<Longrightarrow> bstore (b\<lparr>CalNum := i\<rparr>)" "bstore b \<Longrightarrow> bstore (b\<lparr>RListNum := i\<rparr>)" "bstore b \<Longrightarrow> bstore (b\<lparr>UpdateNum := i\<rparr>)"
  by (simp_all add: bstore_def)

lemma bstore_create [store_intros]:
  "bstore b \<Longrightarrow> ns_ok ns \<Longrightarrow> bstore (fst (GetOrCreateNsUpdates b ns))"
  "bstore b \<Longrightarrow> ns_ok ns \<Longrightarrow> bstore (fst (GetOrCreateNsCals b ns))"
  "bstore b \<Longrightarrow> ns_ok ns \<Longrightarrow> bstore (fst (GetOrCreateNsRLists b ns))"
  using bstore_set [of b ns "[]"]
  by (auto simp: GetOrCreateNsUpdates_def GetOrCreateNsCals_def GetOrCreateNsRLists_def
      set_ns_updates_def set_ns_cals_def set_ns_rlists_def split: option.split)

lemma bstore_vmap [store_intros]: "bstore b \<Longrightarrow> vmap (GetUpdates b ns)" "bstore b \<Longrightarrow> vmap (GetCals b ns)"
  by (auto simp: bstore_def GetUpdates_def GetCals_def split: option.split dest!: map_of_SomeD)

lemma bstore_storable: "bstore b \<Longrightarrow> batch_storable b"
proof -
  assume b: "bstore b"
  have "vv_Version vv \<noteq> None" if "batch_Get b ns k = Some vv" for ns k vv
    using that vmap_get [OF bstore_vmap(1) [OF b], of ns k vv] by (simp add: GetUpdates_get)
  with b show ?thesis by (auto simp: batch_storable_def batch_ok_def bstore_def vmap_def)
qed

lemma cal_step_vmap:
  assumes "cal_step env ns vh vStr val (mu, mc) = Inr (mu', mc')" "vmap mu" "vmap mc" "vh \<noteq> None" "store_env env"
  shows "vmap mu' \<and> vmap mc'"
proof -
  have v: "vv_Version (case (case gm_get mc key of Some vv \<Rightarrow> Some vv
      | None \<Rightarrow> (case gm_get mu key of Some vv \<Rightarrow> Some vv | None \<Rightarrow> db_read env ns key)) of
      None \<Rightarrow> \<lparr>vv_Value = Some ''0'', vv_Version = vh\<rparr> | Some vv \<Rightarrow> vv) \<noteq> None" for key
    using assms(2-5) by (auto simp: store_env_def split: option.split dest: vmap_get)
  from assms(1) v show ?thesis
    by (auto simp: cal_step_def Let_def res_bind_Inr_conv intro!: store_intros assms(2,3))
qed

lemma cal_write_vmap:
  assumes "cal_write env ns vh (mu, mc, mr, st) w = Inr (mu', mc', mr', st')" "vmap mu" "vmap mc" "vh \<noteq> None" "store_env env"
  shows "vmap mu' \<and> vmap mc'"
  using assms cal_step_vmap [OF _ assms(2-5)]
  by (auto simp: cal_write_def Let_def res_bind_Inr_conv split: if_splits)

lemma rcount_loop_vmap:
  "vmap mc \<Longrightarrow> vh \<noteq> None \<Longrightarrow> store_env env \<Longrightarrow> vmap (fst (rcount_loop env ns vh mc rs vs))"
proof (induction env ns vh mc rs vs rule: rcount_loop.induct)
  case (1 env ns vh mc rs vs)
  have v: "vv_Version (case gm_get mc key of Some vv \<Rightarrow> vv | None \<Rightarrow> (case db_read env ns key of Some vv \<Rightarrow> vv
      | None \<Rightarrow> \<lparr>vv_Value = Some ''0'', vv_Version = vh\<rparr>)) \<noteq> None" for key
    using "1.prems" by (auto simp: store_env_def split: option.split dest: vmap_get)
  show ?case
  proof (cases "str_index rs RCOUNT")
    case None
    then show ?thesis using "1.prems" by (subst rcount_loop.simps) simp
  next
    case b: (Some i)
    show ?thesis
    proof (cases "str_index (drop (i + 10) rs) RCOUNT")
      case None
      then show ?thesis using "1.prems" b by (subst rcount_loop.simps) simp
    next
      case e: (Some j)
      show ?thesis
      proof (cases "j \<le> 0 \<or> j > 64")
        case True
        then show ?thesis using "1.prems" b e by (subst rcount_loop.simps) auto
      next
        case False
        from "1.IH" [OF b refl e False refl refl refl refl vmap_put [OF "1.prems"(1) v] "1.prems"(2,3)] b e False
        show ?thesis by (subst rcount_loop.simps) (simp add: Let_def)
      qed
    qed
  qed
qed

lemma rcount_writes_vmap:
  "vmap mc \<Longrightarrow> vh \<noteq> None \<Longrightarrow> store_env env \<Longrightarrow> vmap (fst (rcount_writes env ns vh mc ws))"
proof (induction ws arbitrary: mc)
  case (Cons w ws)
  have "vmap (fst (rcount_write env ns vh mc w))"
    using rcount_loop_vmap [OF Cons.prems] Cons.prems(1) by (simp add: rcount_write_def Let_def split: prod.split) (metis fst_conv)
  from Cons.IH [OF this Cons.prems(2,3)] show ?case by (simp add: Let_def split: prod.split) (metis fst_conv)
qed simp

text \<open>
  Without a save point (the first block) computed keys have no version; so either there is one, or no
  computed value is pending.
\<close>

definition cals_ok :: "val_env \<Rightarrow> UpdateBatch \<Rightarrow> bool" where
  "cals_ok env b \<longleftrightarrow> bstore b \<and> (store_env env \<or> no_cals b)"

lemma cals_ok_bstore [simp]: "cals_ok env b \<Longrightarrow> bstore b"
  by (simp add: cals_ok_def)

lemma calWriteSet_store:
  assumes "calWriteSet env ns ws (upd, st) = Inr (ws', upd', st')" "cals_ok env upd" "ns_ok ns"
    and "store_env env \<or> (\<forall>w \<in> set ws. plain_write w)"
  shows "cals_ok env upd'"
proof -
  let ?u = "fst (GetOrCreateNsRLists (fst (GetOrCreateNsCals (fst (GetOrCreateNsUpdates upd ns)) ns)) ns)"
  have u: "bstore ?u" using assms(2,3) by (intro store_intros) simp_all
  obtain m where m: "foldM (cal_write env ns (save_point env)) (GetUpdates ?u ns, GetCals ?u ns, GetRLists ?u ns, st) ws = Inr m"
    "upd' = set_ns_rlists ns (fst (snd (snd m))) (set_ns_cals ns (fst (rcount_writes env ns (save_point env) (fst (snd m)) ws))
        (set_ns_updates ns (fst m) ?u))"
    using assms(1) unfolding calWriteSet_def Let_def case_prod_beta fst_conv snd_conv res_bind_Inr_conv by blast
  have v: "vmap (fst m) \<and> vmap (fst (rcount_writes env ns (save_point env) (fst (snd m)) ws))"
  proof (cases "store_env env")
    case True
    then have vh: "save_point env \<noteq> None" by (simp add: store_env_def)
    have "vmap (fst m) \<and> vmap (fst (snd m))"
      by (rule foldM_invariant [OF m(1), of "\<lambda>m. vmap (fst m) \<and> vmap (fst (snd m))"])
        (use bstore_vmap [OF u] cal_write_vmap [OF _ _ _ vh True] in auto)
    with rcount_writes_vmap [OF _ vh True] show ?thesis by blast
  next
    case False
    with assms(4) m(1) bstore_vmap [OF u] show ?thesis
      by (auto simp: foldM_cal_write_plain rcount_writes_plain)
  qed
  then have "bstore upd'"
    using bstore_set(1) [OF u assms(3)] bstore_set(2) [OF _ assms(3)] bstore_set(3) [OF _ assms(3)]
    unfolding m(2) by blast
  moreover have "store_env env \<or> no_cals upd'"
  proof (cases "store_env env")
    case False
    then have "no_cals upd" "batch_ok upd" "\<forall>w \<in> set ws. plain_write w"
      using assms(2,4) bstore_storable by (auto simp: cals_ok_def batch_storable_def)
    then obtain u' where "calWriteSet env ns ws (upd, st) = Inr (ws, u', st)" "no_cals u'"
      using calWriteSet_plain by metis
    with assms(1) show ?thesis by simp
  qed simp
  ultimately show ?thesis by (simp add: cals_ok_def)
qed

lemma validateTx_store:
  "validateTx env t (upd, st) = Inr (code, t', upd', st') \<Longrightarrow> cals_ok env upd \<Longrightarrow> store_env env \<or> plain_tx t \<Longrightarrow>
   \<forall>n \<in> set t. ns_ok (NameSpace n) \<Longrightarrow> cals_ok env upd' \<and> map NameSpace t' = map NameSpace t"
proof (induction t arbitrary: upd st t')
  case (Cons n t)
  show ?case
  proof (cases "validateReadSet env (NameSpace n) (kvrw_Reads (KvRwSet n)) upd \<and>
      validateRangeQueries env (NameSpace n) (kvrw_RangeQueriesInfo (KvRwSet n)) upd = Inr True")
    case False
    with Cons.prems show ?thesis by (auto simp: Let_def res_bind_Inr_conv split: if_splits)
  next
    case True
    then obtain ws u s t1 where r: "calWriteSet env (NameSpace n) (kvrw_Writes (KvRwSet n)) (upd, st) = Inr (ws, u, s)"
      "validateTx env t (u, s) = Inr (code, t1, upd', st')" "t' = n\<lparr>KvRwSet := (KvRwSet n)\<lparr>kvrw_Writes := ws\<rparr>\<rparr> # t1"
      using Cons.prems(1) by (auto simp: Let_def res_bind_Inr_conv)
    have p: "store_env env \<or> (\<forall>w \<in> set (kvrw_Writes (KvRwSet n)). plain_write w)" "store_env env \<or> plain_tx t"
      using Cons.prems(3) by (auto simp: plain_tx_def)
    have "cals_ok env u" using calWriteSet_store [OF r(1) Cons.prems(2) _ p(1)] Cons.prems(4) by simp
    with Cons.IH [OF r(2) _ p(2)] Cons.prems(4) r(3) show ?thesis by simp
  qed
qed simp

lemma add_write_store:
  assumes "add_write ns h b w = Inr b'" "bstore b" "ns_ok ns"
  shows "bstore b'"
proof -
  obtain b1 m where g: "GetOrCreateNsUpdates b ns = (b1, m)" by force
  have "bstore b1" using bstore_create(1) [OF assms(2,3)] g by simp
  moreover have "vmap m"
    using g bstore_vmap(1) [OF assms(2), of ns]
    by (auto simp: GetOrCreateNsUpdates_def GetUpdates_def split: option.splits)
  ultimately show ?thesis
    using assms(1,2) by (auto simp: add_write_def batch_Put_def batch_Delete_def g split: if_splits
        intro!: store_intros assms(3))
qed

lemma add_write_no_cals:
  assumes "add_write ns h b w = Inr b'" "no_cals b"
  shows "no_cals b'"
proof -
  obtain b1 m where g: "GetOrCreateNsUpdates b ns = (b1, m)" by force
  then have "no_cals b1" using assms(2) cals_simps(1) [of b ns] rlists_simps(1) [of b ns] by (simp add: no_cals_def)
  then show ?thesis
    using assms by (auto simp: add_write_def batch_Put_def batch_Delete_def g no_cals_def split: if_splits)
qed

lemma addWriteSet_store:
  assumes "addWriteSetToBatch t h b = Inr b'" "cals_ok env b" "\<forall>n \<in> set t. ns_ok (NameSpace n)"
  shows "cals_ok env b'"
  using assms(1) unfolding addWriteSetToBatch_def
proof (rule foldM_invariant)
  fix b n b'
  assume n: "n \<in> set t" "cals_ok env b" "foldM (add_write (NameSpace n) h) b (kvrw_Writes (KvRwSet n)) = Inr b'"
  show "cals_ok env b'"
    by (rule foldM_invariant [OF n(3), of "cals_ok env"])
      (use n assms(3) add_write_store add_write_no_cals in \<open>auto simp: cals_ok_def\<close>)
qed (rule assms(2))

text \<open>The namespaces a transaction of the block names.\<close>

definition tx_ns_ok :: "val_env \<Rightarrow> bytes \<Rightarrow> bool" where
  "tx_ns_ok env envBytes \<longleftrightarrow> (\<forall>r t. pu_GetActionFromEnvelope env envBytes = Inr r \<longrightarrow>
     FromProtoBytes (ve_codec env) (ca_Results r) = Inr t \<longrightarrow> (\<forall>n \<in> set t. ns_ok (NameSpace n)))"

definition tx_plain :: "val_env \<Rightarrow> bytes \<Rightarrow> bool" where
  "tx_plain env envBytes \<longleftrightarrow> (\<forall>r t. pu_GetActionFromEnvelope env envBytes = Inr r \<longrightarrow>
     FromProtoBytes (ve_codec env) (ca_Results r) = Inr t \<longrightarrow> plain_tx t)"

lemma process_endorser_cases:
  assumes "process_endorser_tx env mvcc number i e b = Inr b'"
  obtains t code u st where "validateEndorserTX env e mvcc (b_updates b, b_st b) = Inr (t, code, u, st)"
    "t = None \<Longrightarrow> b_updates b' = u"
    "\<And>t'. t = Some t' \<Longrightarrow> addWriteSetToBatch t' (NewHeight number (of_nat i)) u = Inr (b_updates b')"
proof -
  obtain t code u st where v: "validateEndorserTX env e mvcc (b_updates b, b_st b) = Inr (t, code, u, st)"
    using assms by (auto simp: process_endorser_tx_def res_bind_Inr_conv)
  show ?thesis
    by (rule that [OF v]) (use assms v in \<open>auto simp: process_endorser_tx_def res_bind_Inr_conv\<close>)
qed

lemma process_endorser_store:
  assumes "process_endorser_tx env mvcc number i e b = Inr b'" "cals_ok env (b_updates b)"
    "store_env env \<or> tx_plain env e" "tx_ns_ok env e"
  shows "cals_ok env (b_updates b')"
proof -
  obtain t code u st where v: "validateEndorserTX env e mvcc (b_updates b, b_st b) = Inr (t, code, u, st)"
    "t = None \<Longrightarrow> b_updates b' = u"
    "\<And>t'. t = Some t' \<Longrightarrow> addWriteSetToBatch t' (NewHeight number (of_nat i)) u = Inr (b_updates b')"
    using process_endorser_cases [OF assms(1)] by blast
  have "cals_ok env u \<and> (\<forall>t'. t = Some t' \<longrightarrow> (\<forall>n \<in> set t'. ns_ok (NameSpace n)))"
  proof (cases "\<exists>r t0. pu_GetActionFromEnvelope env e = Inr r \<and> FromProtoBytes (ve_codec env) (ca_Results r) = Inr t0")
    case False
    with v(1) assms(2) show ?thesis by (auto simp: validateEndorserTX_def split: sum.splits)
  next
    case True
    then obtain r t0 where r: "pu_GetActionFromEnvelope env e = Inr r" "FromProtoBytes (ve_codec env) (ca_Results r) = Inr t0" by blast
    then have ok: "\<forall>n \<in> set t0. ns_ok (NameSpace n)" using assms(4) unfolding tx_ns_ok_def by blast
    show ?thesis
    proof (cases mvcc)
      case False
      with v(1) r ok assms(2) show ?thesis by (auto simp: validateEndorserTX_def)
    next
      case True
      with v(1) r obtain t1 where t1: "validateTx env t0 (b_updates b, b_st b) = Inr (code, t1, u, st)"
        "t = (if code \<noteq> VALID then None else Some t1)" by (auto simp: validateEndorserTX_def res_bind_Inr_conv)
      have "store_env env \<or> plain_tx t0" using assms(3) r unfolding tx_plain_def by blast
      from validateTx_store [OF t1(1) assms(2) this ok]
      have m: "cals_ok env u" "map NameSpace t1 = map NameSpace t0" by blast+
      then have "NameSpace ` set t1 = NameSpace ` set t0" by (metis list.set_map)
      with ok have "\<forall>n \<in> set t1. ns_ok (NameSpace n)" by (metis image_iff)
      with m t1(2) show ?thesis by simp
    qed
  qed
  then show ?thesis using v(2,3) addWriteSet_store by (cases t) auto
qed

lemma ns_ok_qscc [simp]: "ns_ok ''qscc''"
  by (simp add: ns_ok_def)

lemma calStatistics1_vmap: "vmap mu \<Longrightarrow> vmap (fst (calStatistics1 vh txId cc f code (mu, ss)))"
  by (cases ss) (auto simp: calStatistics1_def Let_def split: option.split intro!: store_intros)

lemma calStatistics_vmap: "vmap mu \<Longrightarrow> vmap (fst (calStatistics vh txId cc f code (mu, ss)))"
proof -
  have s: "vmap (fst x) \<Longrightarrow> vmap (fst (calStatistics1 h txId cc f code x))" for h cc f code and x :: stat_state
    using calStatistics1_vmap by (cases x) simp
  show "vmap mu \<Longrightarrow> ?thesis" unfolding calStatistics_def Let_def by (cases vh) (auto intro!: s)
qed

lemma record_statistics_store:
  assumes "record_statistics env vh i chdr data b = Inr b'" "cals_ok env (b_updates b)"
  shows "cals_ok env (b_updates b')"
proof -
  have "bstore (b_updates b')"
    using assms(1) unfolding record_statistics_def Let_def res_bind_Inr_conv case_prod_beta
    by (auto split: option.splits intro!: bstore_set(1) bstore_vmap(1) calStatistics_vmap cals_ok_bstore [OF assms(2)])
  moreover have "no_cals (b_updates b) \<Longrightarrow> no_cals (b_updates b')"
    using assms(1) unfolding record_statistics_def Let_def res_bind_Inr_conv case_prod_beta
    by (auto simp: no_cals_def split: option.splits)
  ultimately show ?thesis using assms(2) by (auto simp: cals_ok_def)
qed

lemma process_tx_store:
  assumes "process_tx env mvcc number vh b (i, e) = Inr b'" "cals_ok env (b_updates b)"
    "store_env env \<or> tx_plain env e" "tx_ns_ok env e"
  shows "cals_ok env (b_updates b')"
  using assms(1) process_endorser_store [OF _ assms(2-4)] record_statistics_store assms(2)
  by (auto simp: process_tx_def res_bind_Inr_conv split: if_splits option.splits)

lemma foldl_invariant: "P s \<Longrightarrow> (\<And>s x. x \<in> set xs \<Longrightarrow> P s \<Longrightarrow> P (f s x)) \<Longrightarrow> P (foldl f s xs)"
  by (induction xs arbitrary: s) auto

lemma move_cals_store:
  assumes "bstore b" "ns_ok ns"
  shows "bstore (move_cals b ns)"
proof -
  let ?u = "fst (GetOrCreateNsCals (fst (GetOrCreateNsUpdates b ns)) ns)"
  have u: "bstore ?u" using assms by (intro store_intros)
  have mem: "vv_Version (snd kv) \<noteq> None" if "kv \<in> set (GetCals ?u ns)" for kv
    using bstore_vmap(2) [OF u, of ns] that unfolding vmap_def by blast
  have "vmap (fst (foldl (\<lambda>s kv. if gm_get (fst s) (fst kv) = None then (gm_put (fst kv) (snd kv) (fst s), snd s + 1)
        else (fst s, snd s)) (GetUpdates ?u ns, CalNum ?u) (GetCals ?u ns)))"
    by (rule foldl_invariant [of "\<lambda>s. vmap (fst s)"])
      (use bstore_vmap(1) [OF u, of ns] vmap_put mem in auto)
  from bstore_set(1) [OF bstore_num(1) [OF u] assms(2) this] show ?thesis
    unfolding move_cals_def Let_def case_prod_beta by (rule bstore_set(2) [OF _ assms(2)]) simp
qed

lemma move_rlists_store:
  assumes "bstore b" "ns_ok ns" "store_env env"
  shows "bstore (fst (move_rlists env (b, st) ns))"
proof -
  let ?u = "fst (GetOrCreateNsRLists (fst (GetOrCreateNsUpdates b ns)) ns)"
  have u: "bstore ?u" using assms by (intro store_intros)
  have inner: "vmap (foldl (\<lambda>m p. gm_put (fst p) \<lparr>vv_Value = snd p, vv_Version = save_point env\<rparr> m) m stub)"
    if "vmap m" for m and stub :: "(bytes \<times> slice) list"
    by (rule foldl_invariant [of vmap]) (use that assms(3) in \<open>auto simp: store_env_def intro!: store_intros\<close>)
  show ?thesis
    unfolding move_rlists_def Let_def case_prod_beta fst_conv snd_conv
    by (rule bstore_set(3) [OF bstore_set(1) [OF bstore_num(2) [OF u] assms(2)] assms(2)],
        rule foldl_invariant [of "\<lambda>s. vmap (fst s)"]) (simp_all add: bstore_vmap(1) [OF u] inner)
qed

lemma foldl_move_store:
  "bstore (fst us) \<Longrightarrow> \<forall>ns \<in> set nss. ns_ok ns \<Longrightarrow> store_env env \<Longrightarrow> bstore (fst (foldl (move_rlists env) us nss))"
  by (rule foldl_invariant [of "\<lambda>s. bstore (fst s)"]) (auto simp: move_rlists_store)

lemma move_rlists_none_store:
  assumes "bstore b" "ns_ok ns" "no_cals b"
  shows "bstore (fst (move_rlists env (b, st) ns)) \<and> no_cals (fst (move_rlists env (b, st) ns))"
proof -
  let ?u = "fst (GetOrCreateNsRLists (fst (GetOrCreateNsUpdates b ns)) ns)"
  have u: "bstore ?u" using assms by (intro store_intros)
  have r: "GetRLists ?u ns = []" using assms(3) by (simp add: no_cals_def)
  have e: "fst (move_rlists env (b, st) ns) =
      set_ns_rlists ns [] (set_ns_updates ns (GetUpdates ?u ns) (?u\<lparr>RListNum := RListNum ?u\<rparr>))"
    using r by (simp add: move_rlists_def Let_def)
  have "bstore (set_ns_rlists ns [] (set_ns_updates ns (GetUpdates ?u ns) (?u\<lparr>RListNum := RListNum ?u\<rparr>)))"
    using bstore_set(3) [OF bstore_set(1) [OF bstore_num(2) [OF u] assms(2)] assms(2)] bstore_vmap(1) [OF u] by blast
  with e assms(3) show ?thesis by (simp add: no_cals_def)
qed

lemma moveCals_store:
  assumes "cals_ok env b"
  shows "bstore (fst (moveCalsToUpdate env (b, st)))"
proof -
  let ?c = "foldl move_cals (b\<lparr>CalNum := 0, RListNum := 0\<rparr>) (GetCaledNamespaces b)"
  have ns: "\<forall>ns \<in> set (GetCaledNamespaces b). ns_ok ns"
    using assms by (auto simp: cals_ok_def bstore_def GetCaledNamespaces_def)
  then have c: "bstore ?c"
    by (intro foldl_invariant [of bstore] move_cals_store bstore_num cals_ok_bstore [OF assms]) auto
  then have rns: "\<forall>ns \<in> set (GetRListsNamespaces ?c). ns_ok ns"
    by (auto simp: bstore_def GetRListsNamespaces_def)
  have "bstore (fst (foldl (move_rlists env) (?c, st) (GetRListsNamespaces ?c)))"
  proof (cases "store_env env")
    case True
    from foldl_move_store [of "(?c, st)", OF _ rns True] c show ?thesis by simp
  next
    case False
    then have "no_cals b" using assms by (simp add: cals_ok_def)
    then have "no_cals (b\<lparr>CalNum := 0, RListNum := 0\<rparr>)" by (simp add: no_cals_def GetCals_def GetRLists_def)
    then have "no_cals ?c" by (intro foldl_invariant [of no_cals]) (simp_all add: move_cals_none)
    have step: "bstore (fst (move_rlists env s ns)) \<and> no_cals (fst (move_rlists env s ns))"
      if "bstore (fst s) \<and> no_cals (fst s)" "ns_ok ns" for s ns
      using move_rlists_none_store [of "fst s" ns env "snd s"] that by simp
    have "bstore (fst (foldl (move_rlists env) (?c, st) nss)) \<and> no_cals (fst (foldl (move_rlists env) (?c, st) nss))"
      if "\<forall>ns \<in> set nss. ns_ok ns" for nss
      by (rule foldl_invariant [where P = "\<lambda>s. bstore (fst s) \<and> no_cals (fst s)"])
        (use that c \<open>no_cals ?c\<close> step in auto)
    with rns show ?thesis by blast
  qed
  then show ?thesis by (simp add: moveCalsToUpdate_def Let_def case_prod_beta bstore_num)
qed

lemma save_statistics_store: "bstore b \<Longrightarrow> bstore (save_statistics env vh (b, st))"
  by (auto simp: save_statistics_def Let_def split: option.split intro!: bstore_set(1) vmap_put bstore_vmap(1))

text \<open>Whatever a block does, computed keys included, the batch prepared for it can be stored.\<close>

lemma prepare_storable:
  assumes "ValidateAndPrepareBatch env block mvcc st = Inr (upd, block', st')"
    and "\<forall>e \<in> set (blk_Data block). (store_env env \<or> tx_plain env e) \<and> tx_ns_ok env e"
  shows "batch_storable upd"
proof -
  define cur where "cur = (load_statistics env st)\<lparr>bs_Number := blk_Number block\<rparr>"
  obtain b where b: "foldM (process_tx env mvcc (blk_Number block) (save_point env))
      \<lparr>b_updates = fst (GetOrCreateNsUpdates NewUpdateBatch ''qscc''), b_flags = initial_flags block,
       b_st = st\<lparr>g_curBlockStatistics := Some cur\<rparr>, b_mapTransStatic = stat_index (bs_List cur)\<rparr>
      (enumerate 0 (blk_Data block)) = Inr b"
    "upd = save_statistics env (save_point env) (moveCalsToUpdate env (b_updates b, b_st b))"
    using assms(1) unfolding ValidateAndPrepareBatch_def Let_def case_prod_beta res_bind_Inr_conv initial_flags_def cur_def
    by auto
  have "bstore NewUpdateBatch" by (simp add: bstore_def NewUpdateBatch_def)
  then have "bstore (fst (GetOrCreateNsUpdates NewUpdateBatch ''qscc''))" by (simp add: bstore_create)
  moreover have "no_cals (fst (GetOrCreateNsUpdates NewUpdateBatch ''qscc''))"
    by (simp add: no_cals_def) (simp add: GetCals_def GetRLists_def NewUpdateBatch_def)
  ultimately have i: "cals_ok env (fst (GetOrCreateNsUpdates NewUpdateBatch ''qscc''))" by (simp add: cals_ok_def)
  have "cals_ok env (b_updates b)"
  proof (rule foldM_invariant [OF b(1), of "\<lambda>b. cals_ok env (b_updates b)"])
    fix b ie b'
    assume ie: "ie \<in> set (enumerate 0 (blk_Data block))" "cals_ok env (b_updates b)"
      "process_tx env mvcc (blk_Number block) (save_point env) b ie = Inr b'"
    then have "snd ie \<in> set (blk_Data block)" using nth_mem [of "fst ie" "blk_Data block"] by (auto simp: in_set_enumerate_eq)
    with assms(2) process_tx_store [of env mvcc "blk_Number block" "save_point env" b "fst ie" "snd ie" b'] ie
    show "cals_ok env (b_updates b')" by simp
  qed (use i in simp)
  with moveCals_store save_statistics_store show ?thesis
    unfolding b(2) by (metis bstore_storable prod.collapse)
qed

section \<open>The effect of a commit\<close>

lemma tm_Commit_ok:
  assumes "stateleveldb ops c" "stored_ok ops c (tm_db tm)" "batch_storable upd"
    and "tm_batch tm = Some upd" "tm_currentBlock tm = Some block"
  shows "\<exists>db. tm_Commit ops c tm = Inr (None, tm\<lparr>tm_db := db, tm_batch := None\<rparr>) \<and> stored_ok ops c db
    \<and> ldb_GetLatestSavePoint ops c db = Inr (Some (commit_height block))
    \<and> (\<forall>ns k. ns_ok ns \<longrightarrow> dlook (ldb_view ops c db) ns k = overlay (dlook (ldb_view ops c (tm_db tm))) upd ns k)"
proof -
  obtain db where db: "ldb_ApplyUpdates ops c (tm_db tm) upd (commit_height block) = Inr db"
    using stateleveldb.apply_total [OF assms(1,3)] by blast
  show ?thesis
    using stateleveldb.apply_stored [OF assms(1,3,2) db] stateleveldb.apply_savepoint [OF assms(1,3) db]
      stateleveldb.apply_overlay [OF assms(1,3,2) _ db] db assms(4,5)
    by (intro exI [of _ db]) (simp add: tm_Commit_def)
qed

lemma store_env_at:
  assumes "stateleveldb ops c" "stored_ok ops c db" "ldb_GetLatestSavePoint ops c db = Inr (Some h)"
  shows "store_env (env_at ops c env db)"
proof -
  have "save_point (env_at ops c env db) \<noteq> None" using assms(3) by (simp add: save_point_def ldb_view_def)
  moreover have "db_read (env_at ops c env db) ns k = dlook (ldb_view ops c db) ns k" for ns k
    by (simp add: db_read_def dlook_def split: sum.split)
  ultimately show ?thesis
    using stateleveldb.dlook_stored [OF assms(1,2)] by (auto simp: store_env_def)
qed

text \<open>Preparing a block and committing it.\<close>

lemma commit_effect:
  assumes "stateleveldb ops c" "stored_ok ops c (tm_db tm)"
    and "(\<exists>h. ldb_GetLatestSavePoint ops c (tm_db tm) = Inr (Some h)) \<or> (\<forall>e \<in> set (blk_Data block). tx_plain env e)"
    and "\<forall>e \<in> set (blk_Data block). tx_ns_ok env e"
    and "ValidateAndPrepare ops c env block mvcc tm = Inr (block', tm')"
  shows "\<exists>upd db. tm_batch tm' = Some upd
    \<and> tm_Commit ops c tm' = Inr (None, tm'\<lparr>tm_db := db, tm_batch := None\<rparr>) \<and> stored_ok ops c db
    \<and> ldb_GetLatestSavePoint ops c db = Inr (Some (commit_height block))
    \<and> (\<forall>ns k. ns_ok ns \<longrightarrow> dlook (ldb_view ops c db) ns k = overlay (dlook (ldb_view ops c (tm_db tm))) upd ns k)"
proof -
  let ?e = "env_at ops c env (tm_db tm)"
  obtain upd st where v: "ValidateAndPrepareBatch ?e block mvcc (tm_vstate tm) = Inr (upd, block', st)"
    "tm' = tm\<lparr>tm_currentBlock := Some block', tm_batch := Some upd, tm_vstate := st\<rparr>"
    using assms(5) by (auto simp: ValidateAndPrepare_def res_bind_Inr_conv)
  have "tx_ns_ok ?e e = tx_ns_ok env e" "tx_plain ?e e = tx_plain env e" for e
    by (simp_all add: tx_ns_ok_def tx_plain_def env_at_def)
  with assms(3,4) store_env_at [OF assms(1,2)]
  have "\<forall>e \<in> set (blk_Data block). (store_env ?e \<or> tx_plain ?e e) \<and> tx_ns_ok ?e e" by metis
  from prepare_storable [OF v(1) this] have "batch_storable upd" .
  moreover have "commit_height block' = commit_height block"
    using v(1) by (auto simp: ValidateAndPrepareBatch_def Let_def case_prod_beta res_bind_Inr_conv commit_height_def)
  ultimately show ?thesis
    using tm_Commit_ok [OF assms(1), of tm' upd block'] assms(2) v(2) by (intro exI [of _ upd]) simp
qed

end
