(* ===== verification/Recovery.thy ===== *)
theory Recovery
  imports Commit
begin

text \<open>
  Committing a stored block again. Recovery prepares the block from the block store without MVCC
  checks, trusting the flags the first validation left in it. For plain transactions the batch is the
  same, outside the statistics, as the one the first validation prepared (\<open>recommit_same\<close>).
\<close>

text \<open>What recovery needs of an entry: it decodes, and its writes are plain. The state does not matter.\<close>

definition endorser_tx :: "val_env \<Rightarrow> bytes \<Rightarrow> TxRwSet \<Rightarrow> bool" where
  "endorser_tx env envBytes t \<longleftrightarrow> plain_tx t \<and>
     (\<exists>e payload hb chdr r. pu_GetEnvelopeFromBlock env envBytes = Inr e \<and> pu_GetPayload env e = Inr payload
       \<and> pl_Header payload = Some hb \<and> pu_UnmarshalChannelHeader env (hd_ChannelHeader hb) = Inr chdr
       \<and> ch_Type chdr = ENDORSER_TRANSACTION \<and> pu_GetActionFromEnvelope env envBytes = Inr r
       \<and> FromProtoBytes (ve_codec env) (ca_Results r) = Inr t \<and> is_ok (stat_func env (str_of (pl_Data payload)))
       \<and> pu_UnmarshalChaincodeSpec env (ch_Extension chdr) \<noteq> None)"

definition replay_tx :: "val_env \<Rightarrow> bytes \<Rightarrow> TxRwSet \<Rightarrow> bool" where
  "replay_tx env envBytes t \<longleftrightarrow> endorser_tx env envBytes t \<or> other_tx env envBytes \<and> t = []"

lemma block_tx_replay: "block_tx env e t \<Longrightarrow> replay_tx env e t"
  unfolding block_tx_def replay_tx_def good_tx_def endorser_tx_def user_tx_def by blast

lemma stat_func_at [simp]: "stat_func (env_at ops c env db) data = stat_func env data"
  by (simp add: stat_func_def env_at_def cong: option.case_cong sum.case_cong)

lemma replay_tx_at [simp]: "replay_tx (env_at ops c env db) e t \<longleftrightarrow> replay_tx env e t"
  unfolding replay_tx_def endorser_tx_def other_tx_def stat_func_at by (simp add: env_at_def)

definition apply_all :: "u64 \<Rightarrow> batch_fun \<Rightarrow> (nat \<times> TxRwSet) list \<Rightarrow> batch_fun" where
  "apply_all number f its = foldl (\<lambda>f it. apply_tx (NewHeight number (of_nat (fst it))) (snd it) f) f its"

lemma apply_all_simps [simp]:
  "apply_all number f [] = f"
  "apply_all number f ((i, t) # its) = apply_all number (apply_tx (NewHeight number (of_nat i)) t f) its"
  by (simp_all add: apply_all_def)

lemma spec_run_apply_all:
  assumes "distinct (map fst its)"
  shows "fst (spec_run env number f its) =
    apply_all number f (filter (\<lambda>it. fst it \<in> set (snd (spec_run env number f its))) its)"
  using assms
proof (induction env number f its rule: spec_run.induct)
  case (2 env number f i t rest)
  have d: "distinct (map fst rest)" and i: "\<forall>it \<in> set rest. fst it \<noteq> i" using "2.prems" by auto
  have no: "i \<notin> set (snd (spec_run env number g rest))" for g
    using spec_run_indices [of i env number g rest] i by auto
  show ?case
  proof (cases "tx_ok env f t")
    case True
    let ?g = "apply_tx (NewHeight number (of_nat i)) t f"
    have "filter (\<lambda>it. fst it = i \<or> fst it \<in> set (snd (spec_run env number ?g rest))) rest
        = filter (\<lambda>it. fst it \<in> set (snd (spec_run env number ?g rest))) rest"
      using i by (intro filter_cong) auto
    with True "2.IH"(1) [OF True d] show ?thesis by (simp add: Let_def case_prod_beta)
  next
    case False
    with "2.IH"(2) [OF False d] no show ?thesis by simp
  qed
qed simp

lemma process_endorser_recommit:
  assumes "endorser_tx env e t" "block_inv b f" "i < length (b_flags b)" "b_flags b ! i = VALID"
  shows "\<exists>b'. process_tx env False number vh b (i, e) = Inr b'
    \<and> block_inv b' (apply_tx (NewHeight number (of_nat i)) t f) \<and> b_flags b' = b_flags b"
proof -
  let ?h = "NewHeight number (of_nat i)"
  obtain ev payload hb chdr r where p: "plain_tx t" "pu_GetEnvelopeFromBlock env e = Inr ev"
    "pu_GetPayload env ev = Inr payload" "pl_Header payload = Some hb"
    "pu_UnmarshalChannelHeader env (hd_ChannelHeader hb) = Inr chdr" "ch_Type chdr = ENDORSER_TRANSACTION"
    "pu_GetActionFromEnvelope env e = Inr r" "FromProtoBytes (ve_codec env) (ca_Results r) = Inr t"
    "is_ok (stat_func env (str_of (pl_Data payload)))" "pu_UnmarshalChaincodeSpec env (ch_Extension chdr) \<noteq> None"
    using assms(1) unfolding endorser_tx_def by blast
  have inv: "batch_ok (b_updates b)" "no_cals (b_updates b)" "\<forall>ns. ns \<noteq> ''qscc'' \<longrightarrow> batch_Get (b_updates b) ns = f ns"
    using assms(2) by (simp_all add: block_inv_def)
  from addWriteSetToBatch_plain [OF p(1) inv(1,2)] obtain u where u: "addWriteSetToBatch t ?h (b_updates b) = Inr u"
    "batch_Get u = apply_tx ?h t (batch_Get (b_updates b))" "batch_ok u" "no_cals u" by blast
  define b1 where "b1 = b\<lparr>b_updates := u, b_flags := (b_flags b)[i := VALID]\<rparr>"
  have b1: "process_endorser_tx env False number i e b = Inr b1"
    using p(7,8) u(1) assms(3) by (simp add: process_endorser_tx_def validateEndorserTX_def b1_def)
  have "batch_Get u ns = apply_tx ?h t f ns" if "ns \<noteq> ''qscc''" for ns
    unfolding u(2) by (rule apply_tx_other(2)) (use inv(3) that in simp)
  then have inv1: "block_inv b1 (apply_tx ?h t f)" using u by (simp add: block_inv_def b1_def)
  have flags: "b_flags b1 = b_flags b" using assms(4) by (simp add: b1_def list_update_same_conv assms(3))
  obtain b2 where b2: "record_statistics env vh i chdr (str_of (pl_Data payload)) b1 = Inr b2" "b_flags b2 = b_flags b1"
    "agree (b_updates b1) (b_updates b2)"
    using record_statistics_ok [OF p(9) _ p(10), of i b1 vh] flags assms(3) by auto
  have "block_inv b2 (apply_tx ?h t f)" using inv1 b2(3) by (auto simp: block_inv_def agree_def)
  with b1 b2 p assms(3,4) flags show ?thesis by (auto simp: process_tx_def)
qed

lemma process_tx_recommit:
  assumes "replay_tx env e t" "block_inv b f" "i < length (b_flags b)" "b_flags b ! i = VALID"
  shows "\<exists>b'. process_tx env False number vh b (i, e) = Inr b'
    \<and> block_inv b' (apply_tx (NewHeight number (of_nat i)) t f) \<and> b_flags b' = b_flags b"
proof (cases "endorser_tx env e t")
  case True
  then show ?thesis using process_endorser_recommit [OF _ assms(2-4)] by blast
next
  case False
  with assms(1) have "other_tx env e" "t = []" by (simp_all add: replay_tx_def)
  with process_other_tx [OF this(1) assms(3,4)] assms(2) show ?thesis by (intro exI [of _ b]) simp
qed

lemma process_txs_recommit:
  assumes "length ts = length envs" "k + length envs \<le> length (b_flags b)" "block_inv b f"
    and "\<forall>j < length envs. b_flags b ! (k + j) = VALID \<longrightarrow> replay_tx env (envs ! j) (ts ! j)"
  shows "\<exists>b'. foldM (process_tx env False number vh) b (enumerate k envs) = Inr b'
    \<and> block_inv b' (apply_all number f (filter (\<lambda>it. b_flags b ! fst it = VALID) (enumerate k ts))) \<and> b_flags b' = b_flags b"
  using assms
proof (induction envs arbitrary: k ts b f)
  case Nil
  then show ?case by auto
next
  case (Cons e envs)
  obtain t ts' where ts: "ts = t # ts'" "length ts' = length envs" using Cons.prems(1) by (cases ts) auto
  have k: "k < length (b_flags b)" "Suc k + length envs \<le> length (b_flags b)" using Cons.prems(2) by simp_all
  have sub: "\<forall>j < length envs. b_flags b ! (Suc k + j) = VALID \<longrightarrow> replay_tx env (envs ! j) (ts' ! j)"
  proof (intro allI impI)
    fix j assume "j < length envs" "b_flags b ! (Suc k + j) = VALID"
    then show "replay_tx env (envs ! j) (ts' ! j)" using Cons.prems(4) [rule_format, of "Suc j"] ts(1) by simp
  qed
  show ?case
  proof (cases "b_flags b ! k = VALID")
    case False
    then have "process_tx env False number vh b (k, e) = Inr b" using k by (simp add: process_tx_def)
    with Cons.IH [OF ts(2) k(2) Cons.prems(3) sub] False ts(1) show ?thesis by simp
  next
    case True
    have "replay_tx env e t" using Cons.prems(4) [rule_format, of 0] True ts(1) by simp
    from process_tx_recommit [OF this Cons.prems(3) k(1) True] obtain b1 where
      b1: "process_tx env False number vh b (k, e) = Inr b1"
      "block_inv b1 (apply_tx (NewHeight number (of_nat k)) t f)" "b_flags b1 = b_flags b" by blast
    from Cons.IH [OF ts(2) _ b1(2), of "Suc k"] k(2) sub b1(1,3) True ts(1) show ?thesis by auto
  qed
qed

text \<open>The batch of a block prepared without MVCC checks.\<close>

lemma recommit_batch:
  assumes "length ts = length (blk_Data block)" "length (initial_flags block) = length (blk_Data block)"
    and "\<forall>j < length ts. initial_flags block ! j = VALID \<longrightarrow> replay_tx env (blk_Data block ! j) (ts ! j)"
  shows "\<exists>upd st'. ValidateAndPrepareBatch env block False st = Inr (upd, block\<lparr>blk_TxFilter := initial_flags block\<rparr>, st')
    \<and> batch_ok upd \<and> (\<forall>ns. ns \<noteq> ''qscc'' \<longrightarrow> batch_Get upd ns =
      apply_all (blk_Number block) (\<lambda>_ _. None) (filter (\<lambda>it. initial_flags block ! fst it = VALID) (enumerate 0 ts)) ns)"
proof -
  let ?u0 = "fst (GetOrCreateNsUpdates NewUpdateBatch ''qscc'')"
  define cur where "cur = (load_statistics env st)\<lparr>bs_Number := blk_Number block\<rparr>"
  define b where "b = \<lparr>b_updates = ?u0, b_flags = initial_flags block,
     b_st = st\<lparr>g_curBlockStatistics := Some cur\<rparr>, b_mapTransStatic = stat_index (bs_List cur)\<rparr>"
  have "no_cals ?u0" by (simp add: no_cals_def) (simp add: NewUpdateBatch_def GetCals_def GetRLists_def)
  moreover have "batch_ok ?u0"
    using GetOrCreate_ok(1) [of NewUpdateBatch "''qscc''" ?u0 "snd (GetOrCreateNsUpdates NewUpdateBatch ''qscc'')"] by simp
  ultimately have "block_inv b (\<lambda>_ _. None)" by (auto simp: block_inv_def b_def fun_eq_iff)
  from process_txs_recommit [OF assms(1) _ this, of 0 env "blk_Number block" "save_point env"] assms
  obtain b' where b': "foldM (process_tx env False (blk_Number block) (save_point env)) b (enumerate 0 (blk_Data block)) = Inr b'"
    "block_inv b' (apply_all (blk_Number block) (\<lambda>_ _. None)
       (filter (\<lambda>it. initial_flags block ! fst it = VALID) (enumerate 0 ts)))" "b_flags b' = initial_flags block"
    by (auto simp: b_def)
  obtain u where u: "moveCalsToUpdate env (b_updates b', b_st b') = (u, b_st b')"
    "batch_Get u = batch_Get (b_updates b')" "batch_ok u"
    using moveCals_none [of "b_updates b'" env "b_st b'"] b'(2) by (auto simp: block_inv_def)
  let ?r = "save_statistics env (save_point env) (u, b_st b')"
  have "ValidateAndPrepareBatch env block False st = Inr (?r, block\<lparr>blk_TxFilter := initial_flags block\<rparr>, b_st b')"
    using b'(1,3) u(1) by (simp add: ValidateAndPrepareBatch_def Let_def initial_flags_def [symmetric] cur_def b_def)
  moreover have "agree u ?r" by (rule save_statistics_agree)
  ultimately show ?thesis using b'(2) u(2,3) by (auto simp: block_inv_def agree_def)
qed

lemma prepare_block_fields:
  assumes "ValidateAndPrepareBatch env block mvcc st = Inr (upd, block', st')"
  shows "blk_Number block' = blk_Number block" "blk_Data block' = blk_Data block"
  using assms by (auto simp: ValidateAndPrepareBatch_def Let_def case_prod_beta res_bind_Inr_conv)

lemma process_tx_flags:
  assumes "process_tx env mvcc number vh b ie = Inr b'"
  shows "length (b_flags b') = length (b_flags b)"
proof -
  have r: "b_flags b2 = b_flags b1" if "record_statistics env vh i chdr data b1 = Inr b2" for i chdr data b1 b2
    using that unfolding record_statistics_def Let_def res_bind_Inr_conv case_prod_beta by (auto split: option.splits)
  have e: "length (b_flags b1) = length (b_flags b0)" if "process_endorser_tx env mvcc number i ev b0 = Inr b1" for i ev b0 b1
    using that by (auto simp: process_endorser_tx_def res_bind_Inr_conv SetFlag_def split: option.splits if_splits)
  show ?thesis
    using assms r e by (cases ie) (auto simp: process_tx_def res_bind_Inr_conv split: if_splits option.splits)
qed

lemma prepare_flags_length:
  assumes "ValidateAndPrepareBatch env block mvcc st = Inr (upd, block', st')"
    and "length (initial_flags block) = length (blk_Data block)"
  shows "length (blk_TxFilter block') = length (blk_Data block)"
proof -
  define cur where "cur = (load_statistics env st)\<lparr>bs_Number := blk_Number block\<rparr>"
  obtain b where b: "foldM (process_tx env mvcc (blk_Number block) (save_point env))
      \<lparr>b_updates = fst (GetOrCreateNsUpdates NewUpdateBatch ''qscc''), b_flags = initial_flags block,
       b_st = st\<lparr>g_curBlockStatistics := Some cur\<rparr>, b_mapTransStatic = stat_index (bs_List cur)\<rparr>
      (enumerate 0 (blk_Data block)) = Inr b" "blk_TxFilter block' = b_flags b"
    using assms(1) unfolding ValidateAndPrepareBatch_def Let_def case_prod_beta res_bind_Inr_conv initial_flags_def cur_def
    by auto
  have "length (b_flags b) = length (initial_flags block)"
    by (rule foldM_invariant [OF b(1), of "\<lambda>b. length (b_flags b) = length (initial_flags block)"])
      (auto dest: process_tx_flags)
  with b(2) assms(2) show ?thesis by simp
qed

lemma filter_valid_run:
  fixes fs :: TxValidationFlags and ts :: "TxRwSet list"
  assumes "\<forall>j < length ts. fs' ! j = VALID \<longleftrightarrow> j \<in> set (snd (spec_run env number f (filter (\<lambda>(i, t). fs ! i = VALID) (enumerate 0 ts))))"
  shows "apply_all number f (filter (\<lambda>it. fs' ! fst it = VALID) (enumerate 0 ts)) =
    fst (spec_run env number f (filter (\<lambda>(i, t). fs ! i = VALID) (enumerate 0 ts)))"
proof -
  let ?its = "filter (\<lambda>(i, t). fs ! i = VALID) (enumerate 0 ts)"
  have "distinct (map fst (enumerate 0 ts))" by simp
  then have d: "distinct (map fst ?its)" by (rule distinct_map_filter)
  have "filter (\<lambda>it. fs' ! fst it = VALID) (enumerate 0 ts) =
      filter (\<lambda>it. fst it \<in> set (snd (spec_run env number f ?its))) ?its"
    unfolding filter_filter
  proof (rule filter_cong [OF refl])
    fix it assume it: "it \<in> set (enumerate 0 ts)"
    then have "fst it < length ts" by (simp add: in_set_enumerate_eq)
    then have a: "fs' ! fst it = VALID \<longleftrightarrow> fst it \<in> set (snd (spec_run env number f ?its))" using assms by blast
    have "fs ! fst it = VALID" if "fst it \<in> set (snd (spec_run env number f ?its))"
      using spec_run_indices [OF that] by auto
    with a show "(fs' ! fst it = VALID) = ((case it of (i, t) \<Rightarrow> fs ! i = VALID) \<and> fst it \<in> set (snd (spec_run env number f ?its)))"
      by (auto simp: case_prod_beta)
  qed
  then show ?thesis using spec_run_apply_all [OF d] by simp
qed

text \<open>
  Validating a block and preparing the flagged block again without validation give the same entries
  in every namespace but that of the statistics.
\<close>

lemma recommit_same:
  assumes "versionedDB_ok (v_db env)" "length ts = length (blk_Data block)" "blk_Data block \<noteq> []"
    and "length (initial_flags block) = length (blk_Data block)"
    and "\<forall>j < length ts. initial_flags block ! j = VALID \<longrightarrow> block_tx env (blk_Data block ! j) (ts ! j)"
  shows "\<exists>upd block' st' upd2 st2. ValidateAndPrepareBatch env block True st = Inr (upd, block', st')
    \<and> ValidateAndPrepareBatch env block' False st0 = Inr (upd2, block', st2)
    \<and> (\<forall>ns. ns \<noteq> ''qscc'' \<longrightarrow> batch_Get upd2 ns = batch_Get upd ns)"
proof -
  let ?run = "spec_run env (blk_Number block) (\<lambda>_ _. None)
      (filter (\<lambda>(i, t). initial_flags block ! i = VALID) (enumerate 0 ts))"
  obtain upd block' st' where p: "ValidateAndPrepareBatch env block True st = Inr (upd, block', st')"
    "\<forall>ns. ns \<noteq> ''qscc'' \<longrightarrow> batch_Get upd ns = fst ?run ns"
    "\<forall>j < length ts. blk_TxFilter block' ! j = VALID \<longleftrightarrow> j \<in> set (snd ?run)"
    using ValidateAndPrepareBatch_spec [OF assms(1,2,4,5), of st] by blast
  have len: "length (blk_TxFilter block') = length (blk_Data block)"
    using p(1) assms(4) by (rule prepare_flags_length)
  note f = prepare_block_fields [OF p(1)]
  have i: "initial_flags block' = blk_TxFilter block'" using len assms(3) by (auto simp: initial_flags_def)
  have g: "\<forall>j < length ts. initial_flags block' ! j = VALID \<longrightarrow> replay_tx env (blk_Data block' ! j) (ts ! j)"
  proof (intro allI impI)
    fix j assume j: "j < length ts" "initial_flags block' ! j = VALID"
    then have "j \<in> set (snd ?run)" using p(3) i by simp
    from spec_run_indices [OF this] have "initial_flags block ! j = VALID" by auto
    with assms(5) j(1) f(2) show "replay_tx env (blk_Data block' ! j) (ts ! j)" by (auto intro: block_tx_replay)
  qed
  have "length (initial_flags block') = length (blk_Data block')" "length ts = length (blk_Data block')"
    using len i f(2) assms(2) by simp_all
  from recommit_batch [OF this(2,1) g, of st0] obtain upd2 st2 where
    r: "ValidateAndPrepareBatch env block' False st0 = Inr (upd2, block'\<lparr>blk_TxFilter := initial_flags block'\<rparr>, st2)"
    "\<forall>ns. ns \<noteq> ''qscc'' \<longrightarrow> batch_Get upd2 ns = apply_all (blk_Number block') (\<lambda>_ _. None)
       (filter (\<lambda>it. initial_flags block' ! fst it = VALID) (enumerate 0 ts)) ns" by blast
  have "apply_all (blk_Number block) (\<lambda>_ _. None) (filter (\<lambda>it. blk_TxFilter block' ! fst it = VALID) (enumerate 0 ts)) = fst ?run"
    by (rule filter_valid_run) (rule p(3))
  with r p(1,2) i f(1) show ?thesis by auto
qed

end
