(* ===== verification/History.thy ===== *)
theory History
  imports TxMgr
begin

text \<open>
  \<^verbatim>\<open>core/ledger/kvledger/history\<close>: the index from a key to the transactions that wrote it.
  \<^verbatim>\<open>histmgr_helper.go\<close> builds composite keys, \<^verbatim>\<open>historyleveldb.go\<close> writes one entry per write of a
  valid transaction, \<^verbatim>\<open>historyleveldb_query_executer.go\<close> scans them and looks the transactions up in
  the block store.

  The store is the same interface as for the state database. The abstract content of a history
  database is the set of \<open>(namespace, key, height)\<close> triples it records; the relation \<open>hist_holds\<close>
  ties the two. A commit adds exactly the writes of the valid transactions of the block
  (\<open>hist_Commit_log\<close>) and a query lists the heights of a key in increasing order
  (\<open>history_scan\<close>), for keys without the separator byte.
\<close>

record hist_env =
  he_val :: val_env
  he_enabled :: bool

record KeyModification =
  km_TxId :: bytes
  km_Value :: slice
  km_Timestamp :: bytes
  km_IsDelete :: bool

section \<open>Composite keys\<close>

definition ConstructCompositeHistoryKey :: "(u64 \<Rightarrow> bytes) \<Rightarrow> bytes \<Rightarrow> bytes \<Rightarrow> u64 \<Rightarrow> u64 \<Rightarrow> bytes" where
  "ConstructCompositeHistoryKey enc ns key blocknum trannum =
     ns @ compositeKeySep @ key @ compositeKeySep @ enc blocknum @ enc trannum"

definition ConstructPartialCompositeHistoryKey :: "bytes \<Rightarrow> bytes \<Rightarrow> bool \<Rightarrow> bytes" where
  "ConstructPartialCompositeHistoryKey ns key endkey =
     ns @ compositeKeySep @ key @ compositeKeySep @ (if endkey then [CHR 0xFF] else [])"

text \<open>\<^verbatim>\<open>bytes.SplitN(b, sep, 2)\<close> at the first occurrence of a non-empty separator.\<close>

definition SplitCompositeHistoryKey :: "bytes \<Rightarrow> bytes \<Rightarrow> (bytes \<times> bytes) res" where
  "SplitCompositeHistoryKey bytesToSplit separator =
     (case str_index bytesToSplit separator of
        None \<Rightarrow> Inl (Panic ''index out of range'')
      | Some i \<Rightarrow> Inr (take i bytesToSplit, drop (i + length separator) bytesToSplit))"

section \<open>Committing a block\<close>

definition hist_writes :: "codec \<Rightarrow> u64 \<Rightarrow> u64 \<Rightarrow> TxRwSet \<Rightarrow> (bytes \<times> bytes option) list" where
  "hist_writes c blockNo tranNo txRWSet =
     concat (map (\<lambda>nsRWSet. map (\<lambda>kvWrite.
        (ConstructCompositeHistoryKey (c_enc c) (NameSpace nsRWSet) (wr_Key kvWrite) blockNo tranNo, Some []))
        (kvrw_Writes (KvRwSet nsRWSet))) txRWSet)"

text \<open>One round of the loop: the batch so far and the transaction number.\<close>

definition hist_tx ::
    "codec \<Rightarrow> val_env \<Rightarrow> u64 \<Rightarrow> TxValidationFlags \<Rightarrow> (bytes \<times> bytes option) list \<times> u64 \<Rightarrow> bytes
     \<Rightarrow> ((bytes \<times> bytes option) list \<times> u64) res" where
  "hist_tx c env blockNo txsFilter bt envBytes =
     (let (dbBatch, tranNo) = bt in
      res_bind (IsInvalid txsFilter (unat tranNo)) (\<lambda>invalid.
        if invalid then Inr (dbBatch, tranNo + 1)
        else
          res_bind (pu_GetEnvelopeFromBlock env envBytes) (\<lambda>e.
          res_bind (pu_GetPayload env e) (\<lambda>payload.
          res_bind (case pl_Header payload of
                      None \<Rightarrow> Inl (Panic ''nil pointer dereference'')
                    | Some hb \<Rightarrow> pu_UnmarshalChannelHeader env (hd_ChannelHeader hb)) (\<lambda>chdr.
            if ch_Type chdr = ENDORSER_TRANSACTION then
              res_bind (pu_GetActionFromEnvelope env envBytes) (\<lambda>results.
              res_bind (FromProtoBytes (ve_codec env) (ca_Results results)) (\<lambda>txRWSet.
                Inr (dbBatch @ hist_writes c blockNo tranNo txRWSet, tranNo + 1)))
            else Inr (dbBatch, tranNo + 1))))))"

definition hist_Commit :: "'db leveldb \<Rightarrow> codec \<Rightarrow> val_env \<Rightarrow> Block \<Rightarrow> 'db \<Rightarrow> 'db res" where
  "hist_Commit ops c env block db =
     (let blockNo = blk_Number block;
          txsFilter = (if blk_TxFilter block = [] then NewTxValidationFlags (length (blk_Data block))
                       else blk_TxFilter block)
      in res_bind (foldM (hist_tx c env blockNo txsFilter) ([], 0) (blk_Data block)) (\<lambda>(dbBatch, tranNo).
           ldb_WriteBatch ops db (dbBatch @ [(savePointKey, Some (ToBytes (c_enc c) (NewHeight blockNo tranNo)))])))"

definition hist_GetLastSavepoint :: "'db leveldb \<Rightarrow> codec \<Rightarrow> 'db \<Rightarrow> Height option res" where
  "hist_GetLastSavepoint ops c db =
     res_bind (ldb_Get ops db savePointKey) (\<lambda>versionBytes.
       case versionBytes of
         None \<Rightarrow> Inr None
       | Some b \<Rightarrow> res_bind (NewHeightFromBytes (c_dec c) b) (\<lambda>(height, _). Inr (Some height)))"

definition hist_ShouldRecover :: "'db leveldb \<Rightarrow> codec \<Rightarrow> hist_env \<Rightarrow> 'db \<Rightarrow> u64 \<Rightarrow> (bool \<times> u64) res" where
  "hist_ShouldRecover ops c henv db lastAvailableBlock =
     (if \<not> he_enabled henv then Inr (False, 0)
      else
        res_bind (hist_GetLastSavepoint ops c db) (\<lambda>savepoint.
          case savepoint of
            None \<Rightarrow> Inr (True, 0)
          | Some h \<Rightarrow> Inr (BlockNum h \<noteq> lastAvailableBlock, BlockNum h + 1)))"

definition hist_CommitLostBlock :: "'db leveldb \<Rightarrow> codec \<Rightarrow> val_env \<Rightarrow> Block \<Rightarrow> 'db \<Rightarrow> 'db res" where
  "hist_CommitLostBlock ops c env block db = hist_Commit ops c env block db"

section \<open>Queries\<close>

record historyScanner =
  hs_compositePartialKey :: bytes
  hs_namespace :: bytes
  hs_key :: bytes
  hs_dbItr :: "(bytes \<times> bytes) list"

definition GetHistoryForKey :: "'db leveldb \<Rightarrow> hist_env \<Rightarrow> 'db \<Rightarrow> bytes \<Rightarrow> bytes \<Rightarrow> historyScanner res" where
  "GetHistoryForKey ops henv db namespace key =
     (if \<not> he_enabled henv then Inl (Err ''History tracking not enabled - historyDatabase is false'')
      else
        let compositeStartKey = ConstructPartialCompositeHistoryKey namespace key False;
            compositeEndKey = ConstructPartialCompositeHistoryKey namespace key True
        in Inr \<lparr>hs_compositePartialKey = compositeStartKey, hs_namespace = namespace, hs_key = key,
                hs_dbItr = ldb_GetIterator ops db compositeStartKey compositeEndKey\<rparr>)"

definition getKeyModificationFromTran ::
    "hist_env \<Rightarrow> Envelope \<Rightarrow> bytes \<Rightarrow> bytes \<Rightarrow> KeyModification res" where
  "getKeyModificationFromTran henv tranEnvelope namespace key =
     (let env = he_val henv in
      res_bind (pu_GetPayload env tranEnvelope) (\<lambda>payload.
      res_bind (pu_GetTransaction env (str_of (pl_Data payload))) (\<lambda>actions.
      res_bind (index_at actions 0) (\<lambda>a0.
      res_bind (deref a0) (\<lambda>action.
      res_bind (pu_GetPayloads env action) (\<lambda>results.
      res_bind (case pl_Header payload of
                  None \<Rightarrow> Inl (Panic ''nil pointer dereference'')
                | Some hb \<Rightarrow> pu_UnmarshalChannelHeader env (hd_ChannelHeader hb)) (\<lambda>chdr.
      res_bind (FromProtoBytes (ve_codec env) (ca_Results results)) (\<lambda>txRWSet.
        case find (\<lambda>n. NameSpace n = namespace) txRWSet of
          None \<Rightarrow> Inl (Err ''Namespace not found in transaction's ReadWriteSets'')
        | Some n \<Rightarrow>
            (case find (\<lambda>w. wr_Key w = key) (kvrw_Writes (KvRwSet n)) of
               None \<Rightarrow> Inl (Err ''Key not found in namespace's writeset'')
             | Some w \<Rightarrow> Inr \<lparr>km_TxId = ch_TxId chdr, km_Value = wr_Value w,
                               km_Timestamp = ch_Timestamp chdr, km_IsDelete = wr_IsDelete w\<rparr>)))))))))"

text \<open>The height a composite key carries after the partial key.\<close>

definition hist_height :: "codec \<Rightarrow> bytes \<Rightarrow> bytes \<Rightarrow> (u64 \<times> u64) res" where
  "hist_height c partialKey historyKey =
     res_bind (SplitCompositeHistoryKey historyKey partialKey) (\<lambda>(_, blockNumTranNumBytes).
       let (blockNum, bytesConsumed) = c_dec c blockNumTranNumBytes in
       res_bind (slice_from blockNumTranNumBytes bytesConsumed) (\<lambda>rest.
         Inr (blockNum, fst (c_dec c rest))))"

text \<open>\<open>retrieve\<close> is \<^verbatim>\<open>RetrieveTxByBlockNumTranNum\<close> of the block store.\<close>

definition historyScanner_Next ::
    "codec \<Rightarrow> hist_env \<Rightarrow> (u64 \<Rightarrow> u64 \<Rightarrow> Envelope res) \<Rightarrow> historyScanner \<Rightarrow> (historyScanner \<times> KeyModification option) res" where
  "historyScanner_Next c henv retrieve scanner =
     (case hs_dbItr scanner of
        [] \<Rightarrow> Inr (scanner, None)
      | (historyKey, _) # rest \<Rightarrow>
          res_bind (hist_height c (hs_compositePartialKey scanner) historyKey) (\<lambda>(blockNum, tranNum).
          res_bind (retrieve blockNum tranNum) (\<lambda>tranEnvelope.
          res_bind (getKeyModificationFromTran henv tranEnvelope (hs_namespace scanner) (hs_key scanner)) (\<lambda>km.
            Inr (scanner\<lparr>hs_dbItr := rest\<rparr>, Some km)))))"

section \<open>The abstract history\<close>

type_synonym hist_log = "(bytes \<times> bytes \<times> Height) set"

definition hkey :: "codec \<Rightarrow> bytes \<Rightarrow> bytes \<Rightarrow> Height \<Rightarrow> bytes" where
  "hkey c ns k h = ConstructCompositeHistoryKey (c_enc c) ns k (BlockNum h) (TxNum h)"

definition hist_holds :: "'db leveldb \<Rightarrow> codec \<Rightarrow> 'db \<Rightarrow> hist_log \<Rightarrow> bool" where
  "hist_holds ops c db L \<longleftrightarrow> (\<forall>x v. x \<noteq> savePointKey \<longrightarrow>
     (lget ops db x = Some v \<longleftrightarrow> v = [] \<and> (\<exists>ns k h. (ns, k, h) \<in> L \<and> x = hkey c ns k h)))"

text \<open>Namespaces are chaincode names; the keys do not contain the separator byte.\<close>

definition log_ok :: "hist_log \<Rightarrow> bool" where
  "log_ok L \<longleftrightarrow> (\<forall>(ns, k, h) \<in> L. ns_ok ns \<and> CHR 0x00 \<notin> set k)"

definition partial_key :: "bytes \<Rightarrow> bytes \<Rightarrow> bytes" where
  "partial_key ns k = ConstructPartialCompositeHistoryKey ns k False"

lemma partial_key_end: "ConstructPartialCompositeHistoryKey ns k True = partial_key ns k @ [CHR 0xFF]"
  by (simp add: partial_key_def ConstructPartialCompositeHistoryKey_def)

lemma hkey_partial: "hkey c ns k h = partial_key ns k @ ToBytes (c_enc c) h"
  by (simp add: hkey_def partial_key_def ConstructCompositeHistoryKey_def
      ConstructPartialCompositeHistoryKey_def ToBytes_def)

lemma sep_split:
  assumes "CHR 0x00 \<notin> set a" "CHR 0x00 \<notin> set b" "a @ CHR 0x00 # s = b @ CHR 0x00 # t"
  shows "a = b \<and> s = t"
  using assms by (induction a arbitrary: b) (case_tac b; auto)+

lemma partial_key_inj:
  assumes "ns_ok ns" "ns_ok ns'" "CHR 0x00 \<notin> set k" "CHR 0x00 \<notin> set k'" "partial_key ns k @ s = partial_key ns' k' @ t"
  shows "ns = ns' \<and> k = k' \<and> s = t"
proof -
  have e: "ns @ CHR 0x00 # (k @ CHR 0x00 # s) = ns' @ CHR 0x00 # (k' @ CHR 0x00 # t)"
    using assms(5) by (simp add: partial_key_def ConstructPartialCompositeHistoryKey_def compositeKeySep_def)
  then have "ns = ns' \<and> k @ CHR 0x00 # s = k' @ CHR 0x00 # t"
    using assms(1,2) by (intro sep_split) (simp_all add: ns_ok_def)
  with sep_split [OF assms(3,4)] show ?thesis by blast
qed

lemma char_zero_le [simp]: "CHR 0x00 \<le> (a :: char)"
  by (rule leI) (simp add: char_less_iff)

lemma keys_mem: "x \<in> set (gm_keys m) \<longleftrightarrow> (\<exists>v. (x, v) \<in> set m)"
  by force

lemma prefix_interval:
  fixes p x :: bytes
  assumes "p \<le> x" "x < p @ [c]"
  shows "\<exists>t. x = p @ t \<and> t < [c]"
  using assms
proof (induction p arbitrary: x)
  case (Cons a p)
  then obtain b y where x: "x = b # y" by (cases x) auto
  with Cons.prems have "b = a" "p \<le> y" "y < p @ [c]" by auto
  with Cons.IH x show ?case by auto
qed simp

text \<open>What a transaction of a block contributes: its read-write set when it is an endorser one.\<close>

definition endorser_rwset :: "val_env \<Rightarrow> bytes \<Rightarrow> TxRwSet option res" where
  "endorser_rwset env envBytes =
     res_bind (pu_GetEnvelopeFromBlock env envBytes) (\<lambda>e.
     res_bind (pu_GetPayload env e) (\<lambda>payload.
     res_bind (case pl_Header payload of
                 None \<Rightarrow> Inl (Panic ''nil pointer dereference'')
               | Some hb \<Rightarrow> pu_UnmarshalChannelHeader env (hd_ChannelHeader hb)) (\<lambda>chdr.
       if ch_Type chdr = ENDORSER_TRANSACTION then
         res_bind (pu_GetActionFromEnvelope env envBytes) (\<lambda>results.
         res_bind (FromProtoBytes (ve_codec env) (ca_Results results)) (\<lambda>t. Inr (Some t)))
       else Inr None)))"

lemma hist_tx_valid:
  assumes "unat tranNo < length fs" "fs ! unat tranNo = VALID"
  shows "hist_tx c env number fs (ops, tranNo) e = res_bind (endorser_rwset env e) (\<lambda>t.
    Inr (ops @ (case t of None \<Rightarrow> [] | Some t \<Rightarrow> hist_writes c number tranNo t), tranNo + 1))"
  using assms by (auto simp: hist_tx_def endorser_rwset_def res_bind_assoc intro!: res_bind_cong)

definition rw_keys :: "TxRwSet \<Rightarrow> (bytes \<times> bytes) set" where
  "rw_keys t = {(NameSpace n, wr_Key w) | n w. n \<in> set t \<and> w \<in> set (kvrw_Writes (KvRwSet n))}"

lemma hist_writes_set:
  "set (hist_writes c number i t) = (\<lambda>(ns, k). (hkey c ns k (NewHeight number i), Some [])) ` rw_keys t"
  by (force simp: hist_writes_def rw_keys_def hkey_def)

text \<open>The history a block adds, from position \<open>k\<close> on.\<close>

definition log_from :: "val_env \<Rightarrow> u64 \<Rightarrow> TxValidationFlags \<Rightarrow> nat \<Rightarrow> bytes list \<Rightarrow> hist_log" where
  "log_from env number fs k envs = {(ns, key, NewHeight number (of_nat (k + i))) | ns key i t. i < length envs
     \<and> fs ! (k + i) = VALID \<and> endorser_rwset env (envs ! i) = Inr (Some t) \<and> (ns, key) \<in> rw_keys t}"

definition block_log :: "val_env \<Rightarrow> Block \<Rightarrow> hist_log" where
  "block_log env block = log_from env (blk_Number block) (initial_flags block) 0 (blk_Data block)"

lemma log_from_Cons:
  "log_from env number fs k (e # envs) = log_from env number fs (Suc k) envs \<union>
     (if fs ! k = VALID then {(ns, key, NewHeight number (of_nat k)) | ns key t.
        endorser_rwset env e = Inr (Some t) \<and> (ns, key) \<in> rw_keys t} else {})" (is "?l = ?a \<union> ?b")
proof
  show "?l \<subseteq> ?a \<union> ?b"
  proof
    fix x assume "x \<in> ?l"
    then obtain ns key i t where x: "x = (ns, key, NewHeight number (of_nat (k + i)))" "i < Suc (length envs)"
      "fs ! (k + i) = VALID" "endorser_rwset env ((e # envs) ! i) = Inr (Some t)" "(ns, key) \<in> rw_keys t"
      by (auto simp: log_from_def)
    show "x \<in> ?a \<union> ?b"
    proof (cases i)
      case 0
      with x show ?thesis by auto
    next
      case (Suc j)
      with x have "x \<in> ?a" unfolding log_from_def by (intro CollectI exI [of _ ns] exI [of _ key] exI [of _ j] exI [of _ t]) simp
      then show ?thesis by blast
    qed
  qed
  show "?a \<union> ?b \<subseteq> ?l"
  proof
    fix x assume "x \<in> ?a \<union> ?b"
    then consider "x \<in> ?a" | "x \<in> ?b" by blast
    then show "x \<in> ?l"
    proof cases
      case 1
      then obtain ns key i t where "x = (ns, key, NewHeight number (of_nat (Suc k + i)))" "i < length envs"
        "fs ! (Suc k + i) = VALID" "endorser_rwset env (envs ! i) = Inr (Some t)" "(ns, key) \<in> rw_keys t"
        by (auto simp: log_from_def)
      then show ?thesis unfolding log_from_def
        by (intro CollectI exI [of _ ns] exI [of _ key] exI [of _ "Suc i"] exI [of _ t]) simp
    next
      case 2
      then obtain ns key t where "x = (ns, key, NewHeight number (of_nat k))" "fs ! k = VALID"
        "endorser_rwset env e = Inr (Some t)" "(ns, key) \<in> rw_keys t" by (auto split: if_splits)
      then show ?thesis unfolding log_from_def
        by (intro CollectI exI [of _ ns] exI [of _ key] exI [of _ 0] exI [of _ t]) simp
    qed
  qed
qed

lemma hist_txs_run:
  assumes "k + length envs \<le> length fs" "k + length envs < 2 ^ 64"
    and "\<forall>i < length envs. fs ! (k + i) = VALID \<longrightarrow> is_ok (endorser_rwset env (envs ! i))"
  shows "\<exists>new. foldM (hist_tx c env number fs) (acc, of_nat k) envs = Inr (acc @ new, of_nat (k + length envs))
    \<and> set new = (\<lambda>(ns, key, h). (hkey c ns key h, Some [])) ` log_from env number fs k envs"
  using assms
proof (induction envs arbitrary: k acc)
  case Nil
  then show ?case by (simp add: log_from_def)
next
  case (Cons e envs)
  have k: "unat (of_nat k :: u64) = k" using Cons.prems(2) by (simp add: unat_of_nat take_bit_nat_eq_self)
  have "k < length fs" using Cons.prems(1) by simp
  have tail: "\<forall>i < length envs. fs ! (Suc k + i) = VALID \<longrightarrow> is_ok (endorser_rwset env (envs ! i))"
    using Cons.prems(3) by (metis Suc_less_eq add_Suc_right add_Suc_shift length_Cons nth_Cons_Suc)
  have suc: "of_nat k + 1 = (of_nat (Suc k) :: u64)" by simp
  show ?case
  proof (cases "fs ! k = VALID")
    case False
    then have step: "hist_tx c env number fs (acc, of_nat k) e = Inr (acc, of_nat (Suc k))"
      using k \<open>k < length fs\<close> by (simp add: hist_tx_def)
    obtain new where "foldM (hist_tx c env number fs) (acc, of_nat (Suc k)) envs = Inr (acc @ new, of_nat (Suc k + length envs))"
      "set new = (\<lambda>(ns, key, h). (hkey c ns key h, Some [])) ` log_from env number fs (Suc k) envs"
      using Cons.IH [of "Suc k" acc] Cons.prems(1,2) tail by auto
    with step False show ?thesis by (intro exI [of _ new]) (simp add: log_from_Cons)
  next
    case True
    then obtain t where t: "endorser_rwset env e = Inr t"
      using Cons.prems(3) [rule_format, of 0] by (cases "endorser_rwset env e") auto
    define w where "w = (case t of None \<Rightarrow> [] | Some t \<Rightarrow> hist_writes c number (of_nat k) t)"
    have step: "hist_tx c env number fs (acc, of_nat k) e = Inr (acc @ w, of_nat (Suc k))"
      using hist_tx_valid [of "of_nat k" fs c env number acc e] k \<open>k < length fs\<close> True t suc by (simp add: w_def)
    obtain new where new: "foldM (hist_tx c env number fs) (acc @ w, of_nat (Suc k)) envs
        = Inr ((acc @ w) @ new, of_nat (Suc k + length envs))"
      "set new = (\<lambda>(ns, key, h). (hkey c ns key h, Some [])) ` log_from env number fs (Suc k) envs"
      using Cons.IH [of "Suc k" "acc @ w"] Cons.prems(1,2) tail by auto
    have "set w = (\<lambda>(ns, key, h). (hkey c ns key h, Some [])) `
        {(ns, key, NewHeight number (of_nat k)) | ns key t. endorser_rwset env e = Inr (Some t) \<and> (ns, key) \<in> rw_keys t}"
      using t by (cases t) (force simp: w_def hist_writes_set)+
    with new step True show ?thesis
      by (intro exI [of _ "w @ new"]) (auto simp: log_from_Cons image_Un)
  qed
qed

section \<open>What the history database guarantees\<close>

text \<open>
  The order-preserving encoding starts with the number of bytes that follow, so its first byte is
  below the bound \<^verbatim>\<open>0xff\<close> of the scan.
\<close>

locale historyleveldb = leveldb_ok ops + ordered_varuint "c_enc c" "c_dec c"
  for ops :: "'db leveldb" and c :: codec +
  assumes enc_first: "\<exists>a s. c_enc c n = a # s \<and> a < CHR 0xFF"
begin

lemma ToBytes_bound: "ToBytes (c_enc c) h < [CHR 0xFF]"
  using enc_first [of "BlockNum h"] by (auto simp: ToBytes_def)

lemma hkey_not_savepoint: "ns_ok ns \<Longrightarrow> hkey c ns k h \<noteq> savePointKey"
  by (cases ns) (auto simp: hkey_def ConstructCompositeHistoryKey_def savePointKey_def ns_ok_def compositeKeySep_def)

lemma hkey_less: "h < h' \<longleftrightarrow> hkey c ns k h < hkey c ns k h'"
proof
  show "h < h' \<Longrightarrow> hkey c ns k h < hkey c ns k h'" using ToBytes_less [of h h' "[]" "[]"] by (simp add: hkey_partial)
  show "hkey c ns k h < hkey c ns k h' \<Longrightarrow> h < h'"
    using ToBytes_less [of h' h "[]" "[]"] by (cases h h' rule: linorder_cases) (auto simp: hkey_partial)
qed

lemma hkey_height: "hist_height c (partial_key ns k) (hkey c ns k h) = Inr (BlockNum h, TxNum h)"
proof -
  obtain a p where p: "partial_key ns k = a # p"
    by (cases "partial_key ns k")
      (auto simp: partial_key_def ConstructPartialCompositeHistoryKey_def compositeKeySep_def)
  have "str_index (hkey c ns k h) (partial_key ns k) = Some 0"
    using HasPrefix_append [of "a # p" "ToBytes (c_enc c) h"] by (simp add: hkey_partial p)
  then show ?thesis
    by (simp add: hist_height_def SplitCompositeHistoryKey_def hkey_partial ToBytes_def dec_enc dec_enc0
        slice_from_def)
qed

lemma hkey_in_range:
  assumes "ns_ok ns" "ns_ok ns'" "CHR 0x00 \<notin> set k" "CHR 0x00 \<notin> set k'"
  shows "partial_key ns k \<le> hkey c ns' k' h \<and> hkey c ns' k' h < partial_key ns k @ [CHR 0xFF] \<longleftrightarrow> ns' = ns \<and> k' = k"
proof
  assume "partial_key ns k \<le> hkey c ns' k' h \<and> hkey c ns' k' h < partial_key ns k @ [CHR 0xFF]"
  then obtain t where "hkey c ns' k' h = partial_key ns k @ t" using prefix_interval by blast
  with partial_key_inj [OF assms(2,1,4,3)] show "ns' = ns \<and> k' = k" by (auto simp: hkey_partial)
next
  assume e: "ns' = ns \<and> k' = k"
  have "partial_key ns k @ [] \<le> partial_key ns k @ ToBytes (c_enc c) h" by (simp only: le_append_same) simp
  with e show "partial_key ns k \<le> hkey c ns' k' h \<and> hkey c ns' k' h < partial_key ns k @ [CHR 0xFF]"
    using ToBytes_bound by (simp add: hkey_partial)
qed

text \<open>The iterator of a history query holds the recorded heights of the key in increasing order.\<close>

lemma history_scan:
  assumes "hist_holds ops c db L" "log_ok L" "ns_ok ns" "CHR 0x00 \<notin> set k"
  shows "\<exists>hs. strict_sorted hs \<and> set hs = {h. (ns, k, h) \<in> L}
    \<and> map fst (ldb_GetIterator ops db (partial_key ns k) (partial_key ns k @ [CHR 0xFF])) = map (hkey c ns k) hs"
proof -
  let ?its = "map fst (ldb_GetIterator ops db (partial_key ns k) (partial_key ns k @ [CHR 0xFF]))"
  have np: "savePointKey \<noteq> x" if "partial_key ns k \<le> x" for x
  proof
    assume "savePointKey = x"
    moreover have "savePointKey < partial_key ns k"
      using assms(3) by (cases ns) (auto simp: savePointKey_def partial_key_def ns_ok_def compositeKeySep_def
          ConstructPartialCompositeHistoryKey_def less_le)
    ultimately show False using that by simp
  qed
  have mem: "x \<in> set ?its \<longleftrightarrow> (\<exists>h. (ns, k, h) \<in> L \<and> x = hkey c ns k h)" for x
  proof -
    have "x \<in> set ?its \<longleftrightarrow> partial_key ns k \<le> x \<and> x < partial_key ns k @ [CHR 0xFF] \<and> (\<exists>v. lget ops db x = Some v)"
      unfolding keys_mem iter_mem by blast
    also have "\<dots> \<longleftrightarrow> partial_key ns k \<le> x \<and> x < partial_key ns k @ [CHR 0xFF]
        \<and> (\<exists>ns' k' h. (ns', k', h) \<in> L \<and> x = hkey c ns' k' h)"
      using assms(1) np unfolding hist_holds_def by metis
    also have "\<dots> \<longleftrightarrow> (\<exists>h. (ns, k, h) \<in> L \<and> x = hkey c ns k h)"
      using hkey_in_range [OF assms(3) _ assms(4)] assms(2,3,4) unfolding log_ok_def by blast
    finally show ?thesis .
  qed
  then have "\<forall>x \<in> set ?its. \<exists>h. x = hkey c ns k h" by blast
  then obtain f where f: "\<forall>x \<in> set ?its. x = hkey c ns k (f x)" by metis
  define hs where "hs = map f ?its"
  have m: "?its = map (hkey c ns k) hs" using f by (simp add: hs_def map_idI)
  have "strict_sorted (map (hkey c ns k) hs)" unfolding m [symmetric] by (rule iter_sorted)
  then have s: "strict_sorted hs" by (simp add: sorted_wrt_map hkey_less [symmetric])
  have inj: "hkey c ns k h = hkey c ns k h' \<Longrightarrow> h = h'" for h h'
    using hkey_less [of h h' ns k] hkey_less [of h' h ns k] by (cases h h' rule: linorder_cases) auto
  have "h \<in> set hs \<longleftrightarrow> (ns, k, h) \<in> L" for h
    using mem [of "hkey c ns k h"] inj unfolding m by (auto simp: image_iff)
  with s m show ?thesis by blast
qed

text \<open>A commit adds the writes of the valid transactions, and nothing else.\<close>

lemma hist_Commit_log:
  assumes "hist_holds ops c db L" "log_ok (block_log env block)"
    and "length (initial_flags block) = length (blk_Data block)" "length (blk_Data block) < 2 ^ 64"
    and "\<forall>i < length (blk_Data block). initial_flags block ! i = VALID \<longrightarrow> is_ok (endorser_rwset env (blk_Data block ! i))"
  shows "\<exists>db'. hist_Commit ops c env block db = Inr db' \<and> hist_holds ops c db' (L \<union> block_log env block)
    \<and> hist_GetLastSavepoint ops c db' = Inr (Some (NewHeight (blk_Number block) (of_nat (length (blk_Data block)))))"
proof -
  let ?n = "blk_Number block" and ?fs = "initial_flags block"
  let ?sp = "ToBytes (c_enc c) (NewHeight ?n (of_nat (length (blk_Data block))))"
  obtain new where new: "foldM (hist_tx c env ?n ?fs) ([], 0) (blk_Data block) = Inr (new, of_nat (length (blk_Data block)))"
    "set new = (\<lambda>(ns, key, h). (hkey c ns key h, Some [])) ` block_log env block"
    using hist_txs_run [of 0 "blk_Data block" ?fs env c ?n "[]"] assms(3-5) by (auto simp: block_log_def)
  obtain db' where db': "ldb_WriteBatch ops db (new @ [(savePointKey, Some ?sp)]) = Inr db'" using write_ok by blast
  have c: "hist_Commit ops c env block db = Inr db'"
    using new(1) db' by (simp add: hist_Commit_def Let_def initial_flags_def [symmetric])
  have fn: "v = Some []" if "map_of (rev new) x = Some v" for x v
  proof -
    have "(x, v) \<in> set new" using map_of_SomeD [OF that] by simp
    then show ?thesis unfolding new(2) by auto
  qed
  have look: "lget ops db' x = (if map_of (rev new) x = None then lget ops db x else Some [])" if "x \<noteq> savePointKey" for x
    using write_get [OF db', of x] that fn by (auto split: option.splits)
  have dom: "map_of (rev new) x \<noteq> None \<longleftrightarrow> (\<exists>ns k h. (ns, k, h) \<in> block_log env block \<and> x = hkey c ns k h)" for x
    by (force simp: map_of_eq_None_iff new(2) image_iff)
  have "hist_holds ops c db' (L \<union> block_log env block)"
    unfolding hist_holds_def
  proof (intro allI impI)
    fix x v assume x: "x \<noteq> savePointKey"
    show "lget ops db' x = Some v \<longleftrightarrow> v = [] \<and> (\<exists>ns k h. (ns, k, h) \<in> L \<union> block_log env block \<and> x = hkey c ns k h)"
    proof (cases "map_of (rev new) x = None")
      case True
      then have "\<not> (\<exists>ns k h. (ns, k, h) \<in> block_log env block \<and> x = hkey c ns k h)" using dom [of x] by blast
      moreover have "lget ops db' x = lget ops db x" using look [OF x] True by simp
      ultimately show ?thesis using assms(1) x unfolding hist_holds_def by (metis UnCI UnE)
    next
      case False
      then have "\<exists>ns k h. (ns, k, h) \<in> block_log env block \<and> x = hkey c ns k h" using dom [of x] by blast
      with look [OF x] False show ?thesis by auto
    qed
  qed
  moreover have "lget ops db' savePointKey = Some ?sp" using write_get [OF db', of savePointKey] by simp
  ultimately show ?thesis using c by (simp add: hist_GetLastSavepoint_def get_ok height_decode0)
qed

end

text \<open>Draining a history query: the modifications it reports, oldest first.\<close>

fun hist_drain :: "codec \<Rightarrow> hist_env \<Rightarrow> (u64 \<Rightarrow> u64 \<Rightarrow> Envelope res) \<Rightarrow> nat \<Rightarrow> historyScanner \<Rightarrow> KeyModification list res" where
  "hist_drain c henv retrieve 0 s = Inl OutOfFuel"
| "hist_drain c henv retrieve (Suc n) s =
     res_bind (historyScanner_Next c henv retrieve s) (\<lambda>(s, r).
       case r of None \<Rightarrow> Inr [] | Some km \<Rightarrow> res_bind (hist_drain c henv retrieve n s) (\<lambda>kms. Inr (km # kms)))"

definition tx_modification ::
    "hist_env \<Rightarrow> (u64 \<Rightarrow> u64 \<Rightarrow> Envelope res) \<Rightarrow> bytes \<Rightarrow> bytes \<Rightarrow> Height \<Rightarrow> KeyModification res" where
  "tx_modification henv retrieve ns k h =
     res_bind (retrieve (BlockNum h) (TxNum h)) (\<lambda>e. getKeyModificationFromTran henv e ns k)"

context historyleveldb
begin

lemma drain_scan:
  assumes "map fst (hs_dbItr s) = map (hkey c ns k) hs" "hs_compositePartialKey s = partial_key ns k"
    "hs_namespace s = ns" "hs_key s = k" "length hs < n"
  shows "hist_drain c henv retrieve n s = mapM (tx_modification henv retrieve ns k) hs"
  using assms
proof (induction hs arbitrary: n s)
  case Nil
  then show ?case by (cases n) (simp_all add: historyScanner_Next_def)
next
  case (Cons h hs)
  obtain m where n: "n = Suc m" "length hs < m" using Cons.prems(5) by (cases n) auto
  obtain v rest where d: "hs_dbItr s = (hkey c ns k h, v) # rest" "map fst rest = map (hkey c ns k) hs"
    using Cons.prems(1) by (cases "hs_dbItr s") auto
  have "hist_drain c henv retrieve m (s\<lparr>hs_dbItr := rest\<rparr>) = mapM (tx_modification henv retrieve ns k) hs"
    using Cons.IH [of "s\<lparr>hs_dbItr := rest\<rparr>" m] Cons.prems(2-4) d(2) n(2) by simp
  then show ?case
    using Cons.prems(2-4) by (simp add: n(1) historyScanner_Next_def d(1) hkey_height res_bind_assoc tx_modification_def [of henv retrieve ns k h])
qed

lemma GetHistoryForKey_spec:
  assumes "hist_holds ops c db L" "log_ok L" "ns_ok ns" "CHR 0x00 \<notin> set k" "he_enabled henv"
  shows "\<exists>s hs. GetHistoryForKey ops henv db ns k = Inr s \<and> strict_sorted hs \<and> set hs = {h. (ns, k, h) \<in> L}
    \<and> (\<forall>n > length hs. hist_drain c henv retrieve n s = mapM (tx_modification henv retrieve ns k) hs)"
proof -
  obtain hs where hs: "strict_sorted hs" "set hs = {h. (ns, k, h) \<in> L}"
    "map fst (ldb_GetIterator ops db (partial_key ns k) (partial_key ns k @ [CHR 0xFF])) = map (hkey c ns k) hs"
    using history_scan [OF assms(1-4)] by blast
  define s where "s = \<lparr>hs_compositePartialKey = partial_key ns k, hs_namespace = ns, hs_key = k,
    hs_dbItr = ldb_GetIterator ops db (partial_key ns k) (partial_key ns k @ [CHR 0xFF])\<rparr>"
  have "GetHistoryForKey ops henv db ns k = Inr s"
    using assms(5) by (simp add: GetHistoryForKey_def Let_def partial_key_end partial_key_def [symmetric] s_def)
  moreover have "hist_drain c henv retrieve n s = mapM (tx_modification henv retrieve ns k) hs" if "length hs < n" for n
    using drain_scan [of s ns k hs n] hs(3) that by (simp add: s_def)
  ultimately show ?thesis using hs(1,2) by blast
qed

end

interpretation hmem: historyleveldb mem_ops lp_codec
proof
  show "\<exists>p a b s t. c_enc lp_codec m = p @ a # s \<and> c_enc lp_codec n = p @ b # t \<and> a < b" if "m < n" for m n
    using lp.enc_less [OF that] by (simp add: lp_codec_def)
  show "\<exists>a s. c_enc lp_codec n = a # s \<and> a < CHR 0xFF" for n
  proof -
    have "length (be_bytes (unat n)) \<le> 8" by (rule be_bytes_small)
    then have "(of_char (char_of (length (be_bytes (unat n)))) :: nat) < 255" by simp
    then show ?thesis by (simp add: lp_codec_def lp_enc_def char_less_iff Let_def)
  qed
qed

lemma hist_empty [simp]: "hist_holds mem_ops c mem_empty {}"
  by (simp add: hist_holds_def)

end
