(* ===== verification/KVLedger.thy ===== *)
theory KVLedger
  imports Recovery History
begin

text \<open>
  \<^verbatim>\<open>core/ledger/kvledger/kv_ledger.go\<close> and \<^verbatim>\<open>recovery.go\<close>: a ledger is a block store, a transaction
  manager over the state database and a history database. The block store
  (\<^verbatim>\<open>common/ledger/blkstorage\<close>) is outside the repository: its operations are the record
  \<open>blockstore\<close>, and what is relied on is the locale \<open>block_chain\<close> (blocks are appended and read back
  by number).

  Results: a commit keeps the three stores in step (\<open>Commit_synced\<close>), opening a ledger whose stores
  are in step changes nothing, and opening it after a crash between the three writes of a commit
  brings it to what the completed commit would have left, outside the statistics
  (\<open>recover_after_crash\<close>).
\<close>

record 's blockstore =
  bs_AddBlock :: "Block \<Rightarrow> 's \<Rightarrow> 's res"
  bs_GetBlockchainInfo :: "'s \<Rightarrow> u64 res"
  bs_RetrieveBlockByNumber :: "u64 \<Rightarrow> 's \<Rightarrow> Block res"
  bs_RetrieveBlockByHash :: "bytes \<Rightarrow> 's \<Rightarrow> Block res"
  bs_RetrieveBlockByTxID :: "bytes \<Rightarrow> 's \<Rightarrow> Block res"
  bs_RetrieveTxByID :: "bytes \<Rightarrow> 's \<Rightarrow> Envelope res"
  bs_RetrieveTxByBlockNumTranNum :: "u64 \<Rightarrow> u64 \<Rightarrow> 's \<Rightarrow> Envelope res"
  bs_RetrieveTxValidationCodeByTxID :: "bytes \<Rightarrow> 's \<Rightarrow> TxValidationCode res"

record ('s, 'db) kvl_env =
  ke_bs :: "'s blockstore"
  ke_ops :: "'db leveldb"
  ke_codec :: codec
  ke_hist :: hist_env

record ('s, 'db) kvLedger =
  kl_ledgerID :: bytes
  kl_blockStore :: 's
  kl_txtmgmt :: "'db LockBasedTxMgr"
  kl_historyDB :: 'db

abbreviation ke_val :: "('s, 'db) kvl_env \<Rightarrow> val_env" where
  "ke_val env \<equiv> he_val (ke_hist env)"

section \<open>Recovery\<close>

datatype recoverable = RTxMgr | RHistory

definition kl_ShouldRecover :: "('s, 'db) kvl_env \<Rightarrow> ('s, 'db) kvLedger \<Rightarrow> recoverable \<Rightarrow> u64 \<Rightarrow> (bool \<times> u64) res" where
  "kl_ShouldRecover env l r lastAvailableBlock =
     (case r of
        RTxMgr \<Rightarrow> tm_ShouldRecover (ke_ops env) (ke_codec env) (kl_txtmgmt l) lastAvailableBlock
      | RHistory \<Rightarrow> hist_ShouldRecover (ke_ops env) (ke_codec env) (ke_hist env) (kl_historyDB l) lastAvailableBlock)"

definition kl_CommitLostBlock :: "('s, 'db) kvl_env \<Rightarrow> Block \<Rightarrow> ('s, 'db) kvLedger \<Rightarrow> recoverable \<Rightarrow> ('s, 'db) kvLedger res" where
  "kl_CommitLostBlock env block l r =
     (case r of
        RTxMgr \<Rightarrow> res_bind (tm_CommitLostBlock (ke_ops env) (ke_codec env) (ke_val env) block (kl_txtmgmt l)) (\<lambda>tm.
          Inr (l\<lparr>kl_txtmgmt := tm\<rparr>))
      | RHistory \<Rightarrow> res_bind (hist_CommitLostBlock (ke_ops env) (ke_codec env) (ke_val env) block (kl_historyDB l)) (\<lambda>db.
          Inr (l\<lparr>kl_historyDB := db\<rparr>)))"

definition GetBlockByNumber :: "('s, 'db) kvl_env \<Rightarrow> ('s, 'db) kvLedger \<Rightarrow> u64 \<Rightarrow> Block res" where
  "GetBlockByNumber env l blockNumber = bs_RetrieveBlockByNumber (ke_bs env) blockNumber (kl_blockStore l)"

text \<open>
  The loop ends unless \<open>lastBlockNum\<close> is the greatest number; then at most \<open>unat lastBlockNum + 1\<close>
  blocks are committed, and one more test ends it.
\<close>

fun recommit_loop ::
    "nat \<Rightarrow> ('s, 'db) kvl_env \<Rightarrow> recoverable list \<Rightarrow> u64 \<Rightarrow> u64 \<Rightarrow> ('s, 'db) kvLedger \<Rightarrow> ('s, 'db) kvLedger res" where
  "recommit_loop 0 env rs blockNumber lastBlockNum l = Inl OutOfFuel"
| "recommit_loop (Suc n) env rs blockNumber lastBlockNum l =
     (if blockNumber \<le> lastBlockNum then
        res_bind (GetBlockByNumber env l blockNumber) (\<lambda>block.
        res_bind (foldM (kl_CommitLostBlock env block) l rs) (\<lambda>l.
          recommit_loop n env rs (blockNumber + 1) lastBlockNum l))
      else Inr l)"

definition recommitLostBlocks ::
    "('s, 'db) kvl_env \<Rightarrow> u64 \<Rightarrow> u64 \<Rightarrow> recoverable list \<Rightarrow> ('s, 'db) kvLedger \<Rightarrow> ('s, 'db) kvLedger res" where
  "recommitLostBlocks env firstBlockNum lastBlockNum rs l =
     recommit_loop (unat lastBlockNum + 2) env rs firstBlockNum lastBlockNum l"

definition recoverDBs :: "('s, 'db) kvl_env \<Rightarrow> ('s, 'db) kvLedger \<Rightarrow> ('s, 'db) kvLedger res" where
  "recoverDBs env l =
     (case bs_GetBlockchainInfo (ke_bs env) (kl_blockStore l) of
        Inl _ \<Rightarrow> Inl (Panic ''nil pointer dereference'')
      | Inr height \<Rightarrow>
          if height = 0 then Inr l
          else
            let lastAvailableBlockNum = height - 1 in
            res_bind (foldM (\<lambda>rs r. res_bind (kl_ShouldRecover env l r lastAvailableBlockNum) (\<lambda>(recoverFlag, firstBlockNum).
                Inr (if recoverFlag then rs @ [(firstBlockNum, r)] else rs))) [] [RTxMgr, RHistory])
              (\<lambda>recoverers.
                 case recoverers of
                   [] \<Rightarrow> Inr l
                 | [(f, r)] \<Rightarrow> recommitLostBlocks env f lastAvailableBlockNum [r] l
                 | a # b # _ \<Rightarrow>
                     let ((f0, r0), (f1, r1)) = (if fst a > fst b then (b, a) else (a, b)) in
                     res_bind (if f0 \<noteq> f1 then recommitLostBlocks env f0 (f1 - 1) [r0] l else Inr l) (\<lambda>l.
                       recommitLostBlocks env f1 lastAvailableBlockNum [r0, r1] l)))"

definition newKVLedger :: "('s, 'db) kvl_env \<Rightarrow> bytes \<Rightarrow> 's \<Rightarrow> 'db \<Rightarrow> 'db \<Rightarrow> vstate \<Rightarrow> ('s, 'db) kvLedger res" where
  "newKVLedger env ledgerID blockStore versionedDB historyDB st =
     (case recoverDBs env \<lparr>kl_ledgerID = ledgerID, kl_blockStore = blockStore,
               kl_txtmgmt = NewLockBasedTxMgr versionedDB st, kl_historyDB = historyDB\<rparr> of
        Inl (Err e) \<Rightarrow> Inl (Panic ''Error during state DB recovery'')
      | r \<Rightarrow> r)"

section \<open>Committing a block\<close>

text \<open>
  A returned error leaves the ledger as it is at that point; a failure after the block is in the
  store is a panic.
\<close>

definition kl_Commit :: "('s, 'db) kvl_env \<Rightarrow> Block \<Rightarrow> ('s, 'db) kvLedger \<Rightarrow> (error option \<times> ('s, 'db) kvLedger) res" where
  "kl_Commit env block l =
     (case ValidateAndPrepare (ke_ops env) (ke_codec env) (ke_val env) block True (kl_txtmgmt l) of
        Inl (Err e) \<Rightarrow> Inr (Some (Err e), l)
      | Inl p \<Rightarrow> Inl p
      | Inr (block, tm) \<Rightarrow>
          let l = l\<lparr>kl_txtmgmt := tm\<rparr> in
          (case bs_AddBlock (ke_bs env) block (kl_blockStore l) of
             Inl (Err e) \<Rightarrow> Inr (Some (Err e), l)
           | Inl p \<Rightarrow> Inl p
           | Inr s \<Rightarrow>
               let l = l\<lparr>kl_blockStore := s\<rparr> in
               res_bind (tm_Commit (ke_ops env) (ke_codec env) (kl_txtmgmt l)) (\<lambda>(err, tm).
                 case err of
                   Some _ \<Rightarrow> Inl (Panic ''Error during commit to txmgr'')
                 | None \<Rightarrow>
                     let l = l\<lparr>kl_txtmgmt := tm\<rparr> in
                     if he_enabled (ke_hist env) then
                       (case hist_Commit (ke_ops env) (ke_codec env) (ke_val env) block (kl_historyDB l) of
                          Inl _ \<Rightarrow> Inl (Panic ''Error during commit to history db'')
                        | Inr db \<Rightarrow> Inr (None, l\<lparr>kl_historyDB := db\<rparr>))
                     else Inr (None, l))))"

section \<open>Queries\<close>

definition GetTransactionByID :: "('s, 'db) kvl_env \<Rightarrow> ('s, 'db) kvLedger \<Rightarrow> bytes \<Rightarrow> (Envelope \<times> TxValidationCode) res" where
  "GetTransactionByID env l txID =
     res_bind (bs_RetrieveTxByID (ke_bs env) txID (kl_blockStore l)) (\<lambda>tranEnv.
     res_bind (bs_RetrieveTxValidationCodeByTxID (ke_bs env) txID (kl_blockStore l)) (\<lambda>txVResult.
       Inr (tranEnv, txVResult)))"

definition GetBlockchainInfo :: "('s, 'db) kvl_env \<Rightarrow> ('s, 'db) kvLedger \<Rightarrow> u64 res" where
  "GetBlockchainInfo env l = bs_GetBlockchainInfo (ke_bs env) (kl_blockStore l)"

definition GetBlockByHash :: "('s, 'db) kvl_env \<Rightarrow> ('s, 'db) kvLedger \<Rightarrow> bytes \<Rightarrow> Block res" where
  "GetBlockByHash env l blockHash = bs_RetrieveBlockByHash (ke_bs env) blockHash (kl_blockStore l)"

definition GetBlockByTxID :: "('s, 'db) kvl_env \<Rightarrow> ('s, 'db) kvLedger \<Rightarrow> bytes \<Rightarrow> Block res" where
  "GetBlockByTxID env l txID = bs_RetrieveBlockByTxID (ke_bs env) txID (kl_blockStore l)"

definition GetTxValidationCodeByTxID :: "('s, 'db) kvl_env \<Rightarrow> ('s, 'db) kvLedger \<Rightarrow> bytes \<Rightarrow> TxValidationCode res" where
  "GetTxValidationCodeByTxID env l txID = bs_RetrieveTxValidationCodeByTxID (ke_bs env) txID (kl_blockStore l)"

definition Prune :: "('s, 'db) kvLedger \<Rightarrow> unit res" where
  "Prune l = Inl (Err ''Not yet implemented'')"

definition kl_NewTxSimulator :: "('s, 'db) kvLedger \<Rightarrow> queryHelper \<times> ('s, 'db) kvLedger" where
  "kl_NewTxSimulator l = (let (s, tm) = tm_NewTxSimulator (kl_txtmgmt l) in (s, l\<lparr>kl_txtmgmt := tm\<rparr>))"

definition kl_NewQueryExecutor :: "('s, 'db) kvLedger \<Rightarrow> queryHelper \<times> ('s, 'db) kvLedger" where
  "kl_NewQueryExecutor l = (let (s, tm) = tm_NewQueryExecutor (kl_txtmgmt l) in (s, l\<lparr>kl_txtmgmt := tm\<rparr>))"

text \<open>A history query executor answers from the history database and the block store of the ledger.\<close>

definition kl_GetHistoryForKey :: "('s, 'db) kvl_env \<Rightarrow> ('s, 'db) kvLedger \<Rightarrow> bytes \<Rightarrow> bytes \<Rightarrow> historyScanner res" where
  "kl_GetHistoryForKey env l namespace key = GetHistoryForKey (ke_ops env) (ke_hist env) (kl_historyDB l) namespace key"

definition kl_history_Next :: "('s, 'db) kvl_env \<Rightarrow> ('s, 'db) kvLedger \<Rightarrow> historyScanner \<Rightarrow> (historyScanner \<times> KeyModification option) res" where
  "kl_history_Next env l scanner =
     historyScanner_Next (ke_codec env) (ke_hist env)
       (\<lambda>b t. bs_RetrieveTxByBlockNumTranNum (ke_bs env) b t (kl_blockStore l)) scanner"

section \<open>What the block store promises\<close>

locale block_chain =
  fixes bs :: "'s blockstore" and chain :: "'s \<Rightarrow> Block list"
  assumes info: "bs_GetBlockchainInfo bs s = Inr (of_nat (length (chain s)))"
    and add: "blk_Number b = of_nat (length (chain s)) \<Longrightarrow> \<exists>s'. bs_AddBlock bs b s = Inr s' \<and> chain s' = chain s @ [b]"
    and retrieve: "n < length (chain s) \<Longrightarrow> n < 2 ^ 64 \<Longrightarrow> bs_RetrieveBlockByNumber bs (of_nat n) s = Inr (chain s ! n)"

text \<open>A block of plain transactions, with the read-write sets its entries carry.\<close>

definition replayable :: "val_env \<Rightarrow> Block \<Rightarrow> TxRwSet list \<Rightarrow> bool" where
  "replayable env block ts \<longleftrightarrow> length ts = length (blk_Data block) \<and> length (blk_Data block) < 2 ^ 64
     \<and> length (initial_flags block) = length (blk_Data block)
     \<and> (\<forall>e \<in> set (blk_Data block). tx_plain env e) \<and> log_ok (block_log env block)
     \<and> (\<forall>j < length ts. initial_flags block ! j = VALID \<longrightarrow> replay_tx env (blk_Data block ! j) (ts ! j))"

text \<open>The entries a block writes, and the state they leave.\<close>

definition block_effect :: "Block \<Rightarrow> TxRwSet list \<Rightarrow> batch_fun" where
  "block_effect block ts = apply_all (blk_Number block) (\<lambda>_ _. None)
     (filter (\<lambda>it. initial_flags block ! fst it = VALID) (enumerate 0 ts))"

definition overlay_fun :: "batch_fun \<Rightarrow> batch_fun \<Rightarrow> batch_fun" where
  "overlay_fun look f ns k =
     (case f ns k of None \<Rightarrow> look ns k | Some vv \<Rightarrow> if vv_Value vv = None then None else Some vv)"

text \<open>A save point after \<open>n\<close> blocks.\<close>

definition sp_at :: "Height option res \<Rightarrow> nat \<Rightarrow> bool" where
  "sp_at r n \<longleftrightarrow> (case r of Inr None \<Rightarrow> n = 0 | Inr (Some h) \<Rightarrow> 0 < n \<and> BlockNum h = of_nat (n - 1) | Inl _ \<Rightarrow> False)"

lemma sp_at_cases:
  assumes "sp_at r n"
  obtains "r = Inr None" "n = 0" | h where "r = Inr (Some h)" "0 < n" "BlockNum h = of_nat (n - 1)"
  using assms by (auto simp: sp_at_def split: sum.splits option.splits)

lemma unat_u64 [simp]: "m < 2 ^ 64 \<Longrightarrow> unat (of_nat m :: u64) = m"
  by (simp add: unat_of_nat take_bit_nat_eq_self)

lemma of_nat_u64_eq:
  "m < 2 ^ 64 \<Longrightarrow> n < 2 ^ 64 \<Longrightarrow> (of_nat m = (of_nat n :: u64)) \<longleftrightarrow> m = n"
  "m < 2 ^ 64 \<Longrightarrow> n < 2 ^ 64 \<Longrightarrow> (of_nat m \<le> (of_nat n :: u64)) \<longleftrightarrow> m \<le> n"
  by (metis unat_u64) (simp add: word_le_nat_alt)

lemma of_nat_pred: "0 < n \<Longrightarrow> (of_nat n - 1 :: u64) = of_nat (n - 1)"
  by (cases n) simp_all

section \<open>Recovery replays the lost blocks\<close>

sublocale historyleveldb \<subseteq> st: stateleveldb ops c
  by unfold_locales

lemma overlay_as_fun: "overlay look b ns k = overlay_fun look (batch_Get b) ns k"
  by (simp add: overlay_def overlay_fun_def)

lemma overlay_fun_cong: "look ns k = look' ns k \<Longrightarrow> overlay_fun look f ns k = overlay_fun look' f ns k"
  by (simp add: overlay_fun_def cong: option.case_cong)

lemma plain_ns_ok: "tx_plain env e \<Longrightarrow> tx_ns_ok env e"
  unfolding tx_plain_def tx_ns_ok_def plain_tx_def by blast

lemma commit_lost_state:
  assumes "stateleveldb ops c" "stored_ok ops c (tm_db tm)" "replayable env block ts"
  shows "\<exists>tm'. tm_CommitLostBlock ops c env block tm = Inr tm' \<and> stored_ok ops c (tm_db tm')
    \<and> ldb_GetLatestSavePoint ops c (tm_db tm') = Inr (Some (commit_height block))
    \<and> (\<forall>ns k. ns_ok ns \<and> ns \<noteq> ''qscc'' \<longrightarrow> dlook (ldb_view ops c (tm_db tm')) ns k =
         overlay_fun (dlook (ldb_view ops c (tm_db tm))) (block_effect block ts) ns k)"
proof -
  let ?e = "env_at ops c env (tm_db tm)"
  have r: "length ts = length (blk_Data block)" "length (initial_flags block) = length (blk_Data block)"
    "\<forall>e \<in> set (blk_Data block). tx_plain env e"
    "\<forall>j < length ts. initial_flags block ! j = VALID \<longrightarrow> replay_tx ?e (blk_Data block ! j) (ts ! j)"
    using assms(3) by (simp_all add: replayable_def)
  obtain upd st where v: "ValidateAndPrepareBatch ?e block False (tm_vstate tm) =
      Inr (upd, block\<lparr>blk_TxFilter := initial_flags block\<rparr>, st)"
    "\<forall>ns. ns \<noteq> ''qscc'' \<longrightarrow> batch_Get upd ns = block_effect block ts ns"
    using recommit_batch [OF r(1,2,4), of "tm_vstate tm"] unfolding block_effect_def by blast
  define tm1 where "tm1 = tm\<lparr>tm_currentBlock := Some (block\<lparr>blk_TxFilter := initial_flags block\<rparr>),
    tm_batch := Some upd, tm_vstate := st\<rparr>"
  have p: "ValidateAndPrepare ops c env block False tm = Inr (block\<lparr>blk_TxFilter := initial_flags block\<rparr>, tm1)"
    using v(1) by (simp add: ValidateAndPrepare_def tm1_def)
  have "\<forall>e \<in> set (blk_Data block). tx_ns_ok env e" using r(3) plain_ns_ok by blast
  from commit_effect [OF assms(1,2) disjI2 [OF r(3)] this p]
  obtain upd' db where d: "tm_batch tm1 = Some upd'"
    "tm_Commit ops c tm1 = Inr (None, tm1\<lparr>tm_db := db, tm_batch := None\<rparr>)" "stored_ok ops c db"
    "ldb_GetLatestSavePoint ops c db = Inr (Some (commit_height block))"
    "\<forall>ns k. ns_ok ns \<longrightarrow> dlook (ldb_view ops c db) ns k = overlay (dlook (ldb_view ops c (tm_db tm))) upd' ns k" by blast
  then have "upd' = upd" by (simp add: tm1_def)
  with d p v(2) show ?thesis
    by (intro exI [of _ "tm1\<lparr>tm_db := db, tm_batch := None\<rparr>"])
      (auto simp: tm_CommitLostBlock_def overlay_as_fun overlay_fun_def)
qed

lemma replay_endorser_rwset: "replay_tx env e t \<Longrightarrow> is_ok (endorser_rwset env e)"
  unfolding replay_tx_def endorser_tx_def other_tx_def by (auto simp: endorser_rwset_def)

context historyleveldb
begin

lemma commit_lost_history:
  assumes "hist_holds ops c db L" "replayable env block ts"
  shows "\<exists>db'. hist_CommitLostBlock ops c env block db = Inr db' \<and> hist_holds ops c db' (L \<union> block_log env block)
    \<and> hist_GetLastSavepoint ops c db' = Inr (Some (NewHeight (blk_Number block) (of_nat (length (blk_Data block)))))"
  using hist_Commit_log [OF assms(1), of env block] assms(2) replay_endorser_rwset
  unfolding replayable_def hist_CommitLostBlock_def by metis

end

text \<open>A block that arrives: plain transactions that decode, keys without the separator byte.\<close>

definition fresh_block :: "('s, 'db) kvl_env \<Rightarrow> 'db \<Rightarrow> Block \<Rightarrow> TxRwSet list \<Rightarrow> bool" where
  "fresh_block env db block ts \<longleftrightarrow> length ts = length (blk_Data block) \<and> blk_Data block \<noteq> []
     \<and> length (blk_Data block) < 2 ^ 64 \<and> length (initial_flags block) = length (blk_Data block)
     \<and> (\<forall>e \<in> set (blk_Data block). tx_plain (ke_val env) e) \<and> log_ok (block_log (ke_val env) block)
     \<and> (\<forall>j < length ts. initial_flags block ! j = VALID \<longrightarrow>
          block_tx (env_at (ke_ops env) (ke_codec env) (ke_val env) db) (blk_Data block ! j) (ts ! j))"

lemma block_log_mono:
  assumes "blk_Data block' = blk_Data block" "blk_Number block' = blk_Number block"
    and "\<forall>j < length (blk_Data block). initial_flags block' ! j = VALID \<longrightarrow> initial_flags block ! j = VALID"
  shows "block_log env block' \<subseteq> block_log env block"
  using assms unfolding block_log_def log_from_def by auto

lemma validated_replayable:
  assumes "fresh_block env db block ts" "versionedDB_ok (ldb_view (ke_ops env) (ke_codec env) db)"
  shows "\<exists>upd block' st'. ValidateAndPrepareBatch (env_at (ke_ops env) (ke_codec env) (ke_val env) db) block True st = Inr (upd, block', st')
    \<and> replayable (ke_val env) block' ts \<and> (\<forall>ns. ns \<noteq> ''qscc'' \<longrightarrow> batch_Get upd ns = block_effect block' ts ns)
    \<and> (\<forall>j < length (blk_Data block). initial_flags block' ! j = VALID \<longrightarrow> initial_flags block ! j = VALID)"
proof -
  let ?e = "env_at (ke_ops env) (ke_codec env) (ke_val env) db"
  let ?run = "spec_run ?e (blk_Number block) (\<lambda>_ _. None)
      (filter (\<lambda>(i, t). initial_flags block ! i = VALID) (enumerate 0 ts))"
  have F: "length ts = length (blk_Data block)" "blk_Data block \<noteq> []" "length (initial_flags block) = length (blk_Data block)"
    "\<forall>j < length ts. initial_flags block ! j = VALID \<longrightarrow> block_tx ?e (blk_Data block ! j) (ts ! j)"
    "log_ok (block_log (ke_val env) block)"
    using assms(1) by (simp_all add: fresh_block_def)
  have db: "versionedDB_ok (v_db ?e)" using assms(2) by simp
  obtain upd block' st' where p: "ValidateAndPrepareBatch ?e block True st = Inr (upd, block', st')"
    "\<forall>ns. ns \<noteq> ''qscc'' \<longrightarrow> batch_Get upd ns = fst ?run ns"
    "\<forall>j < length ts. blk_TxFilter block' ! j = VALID \<longleftrightarrow> j \<in> set (snd ?run)"
    using ValidateAndPrepareBatch_spec [OF db F(1,3,4), of st] by blast
  note f = prepare_block_fields [OF p(1)]
  have len: "length (blk_TxFilter block') = length (blk_Data block)" using p(1) F(3) by (rule prepare_flags_length)
  have i: "initial_flags block' = blk_TxFilter block'" using len F(2) by (auto simp: initial_flags_def)
  have v: "initial_flags block ! j = VALID" if "j < length ts" "initial_flags block' ! j = VALID" for j
    using spec_run_indices [of j ?e] p(3) i that by fastforce
  then have "block_log (ke_val env) block' \<subseteq> block_log (ke_val env) block"
    using F(1) f by (intro block_log_mono) auto
  then have "log_ok (block_log (ke_val env) block')" using F(5) unfolding log_ok_def by blast
  moreover have "replay_tx (ke_val env) (blk_Data block' ! j) (ts ! j)" if "j < length ts" "initial_flags block' ! j = VALID" for j
    using F(4) v [OF that] that(1) f(2) block_tx_replay replay_tx_at by metis
  ultimately have "replayable (ke_val env) block' ts"
    using assms(1) len i f unfolding replayable_def fresh_block_def by simp
  moreover have "block_effect block' ts = fst ?run"
    unfolding block_effect_def i f(1) by (rule filter_valid_run) (rule p(3))
  ultimately show ?thesis using p(1,2) v F(1) by auto
qed

text \<open>
  The progress of the two databases: how many blocks of the chain each holds. \<open>W n\<close> is the state
  after the first \<open>n\<close> blocks, outside the namespace of the statistics.
\<close>

type_synonym progress = "recoverable \<Rightarrow> nat"

definition ledger_at ::
    "('s, 'db) kvl_env \<Rightarrow> Block list \<Rightarrow> (nat \<Rightarrow> batch_fun) \<Rightarrow> ('s, 'db) kvLedger \<Rightarrow> progress \<Rightarrow> bool" where
  "ledger_at env bl W l n \<longleftrightarrow>
     (let ops = ke_ops env; c = ke_codec env; db = tm_db (kl_txtmgmt l) in
      stored_ok ops c db \<and> sp_at (ldb_GetLatestSavePoint ops c db) (n RTxMgr)
      \<and> (\<forall>ns k. ns_ok ns \<and> ns \<noteq> ''qscc'' \<longrightarrow> dlook (ldb_view ops c db) ns k = W (n RTxMgr) ns k)
      \<and> hist_holds ops c (kl_historyDB l) (\<Union>i < n RHistory. block_log (ke_val env) (bl ! i))
      \<and> sp_at (hist_GetLastSavepoint ops c (kl_historyDB l)) (n RHistory))"

text \<open>A chain of replayable blocks numbered from 0, with the states between them.\<close>

definition chain_ok :: "('s, 'db) kvl_env \<Rightarrow> Block list \<Rightarrow> TxRwSet list list \<Rightarrow> (nat \<Rightarrow> batch_fun) \<Rightarrow> bool" where
  "chain_ok env bl tss W \<longleftrightarrow> length bl < 2 ^ 64 \<and> length tss = length bl
     \<and> (\<forall>i < length bl. blk_Number (bl ! i) = of_nat i \<and> replayable (ke_val env) (bl ! i) (tss ! i)
          \<and> W (Suc i) = overlay_fun (W i) (block_effect (bl ! i) (tss ! i)))"

lemma UN_snoc: "(\<Union>i < Suc (length xs). f ((xs @ [x]) ! i)) = (\<Union>i < length xs. f (xs ! i)) \<union> f x"
proof -
  have "(\<Union>i < length xs. f ((xs @ [x]) ! i)) = (\<Union>i < length xs. f (xs ! i))"
    by (intro SUP_cong) (simp_all add: nth_append)
  then show ?thesis by (simp add: lessThan_Suc Un_commute)
qed

text \<open>Which databases are recovered, and how.\<close>

definition recover_shape :: "('s, 'db) kvl_env \<Rightarrow> ('s, 'db) kvLedger \<Rightarrow> progress \<Rightarrow> nat \<Rightarrow> ('s, 'db) kvLedger res" where
  "recover_shape env l n m =
     (case (if n RTxMgr \<noteq> m then [(of_nat (n RTxMgr) :: u64, RTxMgr)] else [])
         @ (if n RHistory \<noteq> m then [(of_nat (n RHistory), RHistory)] else []) of
        [] \<Rightarrow> Inr l
      | [(f, r)] \<Rightarrow> recommitLostBlocks env f (of_nat (m - 1)) [r] l
      | a # b # _ \<Rightarrow>
          let ((f0, r0), (f1, r1)) = (if fst a > fst b then (b, a) else (a, b)) in
          res_bind (if f0 \<noteq> f1 then recommitLostBlocks env f0 (f1 - 1) [r0] l else Inr l) (\<lambda>l.
            recommitLostBlocks env f1 (of_nat (m - 1)) [r0, r1] l))"

locale kvledger_ok = block_chain "ke_bs env" chain + historyleveldb "ke_ops env" "ke_codec env"
  for env :: "('s, 'db) kvl_env" and chain :: "'s \<Rightarrow> Block list"
begin

lemma lost_block_step:
  assumes "chain_ok env (chain (kl_blockStore l)) tss W" "ledger_at env (chain (kl_blockStore l)) W l n"
    and "n r < length (chain (kl_blockStore l))"
  shows "\<exists>l'. kl_CommitLostBlock env (chain (kl_blockStore l) ! n r) l r = Inr l'
    \<and> kl_blockStore l' = kl_blockStore l \<and> ledger_at env (chain (kl_blockStore l)) W l' (n(r := Suc (n r)))"
proof -
  let ?bl = "chain (kl_blockStore l)" and ?ops = "ke_ops env" and ?c = "ke_codec env"
  let ?b = "?bl ! n r"
  have b: "blk_Number ?b = of_nat (n r)" "replayable (ke_val env) ?b (tss ! n r)"
    "W (Suc (n r)) = overlay_fun (W (n r)) (block_effect ?b (tss ! n r))"
    using assms(1,3) by (auto simp: chain_ok_def)
  show ?thesis
  proof (cases r)
    case RTxMgr
    have s: "stored_ok ?ops ?c (tm_db (kl_txtmgmt l))" using assms(2) by (simp add: ledger_at_def Let_def)
    obtain tm where tm: "tm_CommitLostBlock ?ops ?c (ke_val env) ?b (kl_txtmgmt l) = Inr tm" "stored_ok ?ops ?c (tm_db tm)"
      "ldb_GetLatestSavePoint ?ops ?c (tm_db tm) = Inr (Some (commit_height ?b))"
      "\<forall>ns k. ns_ok ns \<and> ns \<noteq> ''qscc'' \<longrightarrow> dlook (ldb_view ?ops ?c (tm_db tm)) ns k =
         overlay_fun (dlook (ldb_view ?ops ?c (tm_db (kl_txtmgmt l)))) (block_effect ?b (tss ! n r)) ns k"
      using commit_lost_state [OF st.stateleveldb_axioms s b(2)] by blast
    have v: "dlook (ldb_view ?ops ?c (tm_db tm)) ns k = W (Suc (n r)) ns k" if "ns_ok ns" "ns \<noteq> ''qscc''" for ns k
    proof -
      have "dlook (ldb_view ?ops ?c (tm_db (kl_txtmgmt l))) ns k = W (n r) ns k"
        using assms(2) that RTxMgr by (simp add: ledger_at_def Let_def)
      from overlay_fun_cong [of "dlook (ldb_view ?ops ?c (tm_db (kl_txtmgmt l)))" ns k "W (n r)", OF this] tm(4) that
      show ?thesis unfolding b(3) by simp
    qed
    show ?thesis
      using tm(1-3) v assms(2) b(1) RTxMgr
      by (intro exI [of _ "l\<lparr>kl_txtmgmt := tm\<rparr>"])
        (simp add: kl_CommitLostBlock_def ledger_at_def Let_def sp_at_def commit_height_def)
  next
    case RHistory
    let ?L = "\<Union>i < n r. block_log (ke_val env) (?bl ! i)"
    have h: "hist_holds ?ops ?c (kl_historyDB l) ?L" using assms(2) RHistory by (simp add: ledger_at_def Let_def)
    obtain db where db: "hist_CommitLostBlock ?ops ?c (ke_val env) ?b (kl_historyDB l) = Inr db"
      "hist_holds ?ops ?c db (?L \<union> block_log (ke_val env) ?b)"
      "hist_GetLastSavepoint ?ops ?c db = Inr (Some (NewHeight (blk_Number ?b) (of_nat (length (blk_Data ?b)))))"
      using commit_lost_history [OF h b(2)] by blast
    have "(\<Union>i < Suc (n r). block_log (ke_val env) (?bl ! i)) = ?L \<union> block_log (ke_val env) ?b"
      by (auto simp: less_Suc_eq)
    with db assms(2) b(1) RHistory show ?thesis
      by (intro exI [of _ "l\<lparr>kl_historyDB := db\<rparr>"])
        (simp add: kl_CommitLostBlock_def ledger_at_def Let_def sp_at_def)
  qed
qed

lemma lost_block_steps:
  assumes "chain_ok env (chain (kl_blockStore l)) tss W" "ledger_at env (chain (kl_blockStore l)) W l n"
    and "distinct rs" "\<forall>r \<in> set rs. n r = i" "i < length (chain (kl_blockStore l))"
  shows "\<exists>l'. foldM (kl_CommitLostBlock env (chain (kl_blockStore l) ! i)) l rs = Inr l'
    \<and> kl_blockStore l' = kl_blockStore l
    \<and> ledger_at env (chain (kl_blockStore l)) W l' (\<lambda>r. if r \<in> set rs then Suc i else n r)"
  using assms
proof (induction rs arbitrary: l n)
  case (Cons r rs)
  obtain l1 where l1: "kl_CommitLostBlock env (chain (kl_blockStore l) ! i) l r = Inr l1" "kl_blockStore l1 = kl_blockStore l"
    "ledger_at env (chain (kl_blockStore l)) W l1 (n(r := Suc i))"
    using lost_block_step [OF Cons.prems(1,2), of r] Cons.prems(4,5) by auto
  have "\<forall>r' \<in> set rs. (n(r := Suc i)) r' = i" using Cons.prems(3,4) by auto
  moreover have "distinct rs" using Cons.prems(3) by simp
  ultimately obtain l2 where
    l2: "foldM (kl_CommitLostBlock env (chain (kl_blockStore l) ! i)) l1 rs = Inr l2" "kl_blockStore l2 = kl_blockStore l"
    "ledger_at env (chain (kl_blockStore l)) W l2 (\<lambda>x. if x \<in> set rs then Suc i else (n(r := Suc i)) x)"
    using Cons.IH [of l1 "n(r := Suc i)", unfolded l1(2), OF Cons.prems(1) l1(3) _ _ Cons.prems(5)] by blast
  have "(\<lambda>x. if x \<in> set rs then Suc i else (n(r := Suc i)) x) = (\<lambda>x. if x \<in> set (r # rs) then Suc i else n x)"
    by (auto simp: fun_eq_iff)
  with l1(1) l2 show ?case by auto
qed simp

lemma recommit_loop_ok:
  assumes "chain_ok env (chain (kl_blockStore l)) tss W" "ledger_at env (chain (kl_blockStore l)) W l n"
    and "distinct rs" "\<forall>r \<in> set rs. n r = i" "i \<le> m" "0 < m" "m \<le> length (chain (kl_blockStore l))" "m < i + f"
  shows "\<exists>l'. recommit_loop f env rs (of_nat i) (of_nat (m - 1)) l = Inr l' \<and> kl_blockStore l' = kl_blockStore l
    \<and> ledger_at env (chain (kl_blockStore l)) W l' (\<lambda>r. if r \<in> set rs then m else n r)"
  using assms
proof (induction f arbitrary: i l n)
  case (Suc f)
  let ?bl = "chain (kl_blockStore l)"
  have bound: "length ?bl < 2 ^ 64" using Suc.prems(1) by (simp add: chain_ok_def)
  have cmp: "(of_nat i :: u64) \<le> of_nat (m - 1) \<longleftrightarrow> i \<le> m - 1"
    by (rule of_nat_u64_eq(2)) (use Suc.prems(5,7) bound in linarith)+
  show ?case
  proof (cases "i = m")
    case True
    then have "\<not> (of_nat i :: u64) \<le> of_nat (m - 1)" using Suc.prems(6) unfolding cmp by simp
    moreover have "(\<lambda>r. if r \<in> set rs then m else n r) = n" using Suc.prems(4) True by (auto simp: fun_eq_iff)
    ultimately show ?thesis using Suc.prems(2) by simp
  next
    case False
    then have i: "i < m" "i < length ?bl" "i < 2 ^ 64" using Suc.prems(5,7) bound by auto
    have le: "(of_nat i :: u64) \<le> of_nat (m - 1)" using i(1) unfolding cmp by simp
    have get: "GetBlockByNumber env l (of_nat i) = Inr (?bl ! i)"
      using retrieve [OF i(2,3)] by (simp add: GetBlockByNumber_def)
    obtain l1 where l1: "foldM (kl_CommitLostBlock env (?bl ! i)) l rs = Inr l1" "kl_blockStore l1 = kl_blockStore l"
      "ledger_at env ?bl W l1 (\<lambda>r. if r \<in> set rs then Suc i else n r)"
      using lost_block_steps [OF Suc.prems(1-4) i(2)] by blast
    have "\<forall>r \<in> set rs. (if r \<in> set rs then Suc i else n r) = Suc i" "Suc i \<le> m" "m < Suc i + f"
      using i(1) Suc.prems(8) by simp_all
    then obtain l2 where l2: "recommit_loop f env rs (of_nat (Suc i)) (of_nat (m - 1)) l1 = Inr l2"
      "kl_blockStore l2 = kl_blockStore l"
      "ledger_at env ?bl W l2 (\<lambda>r. if r \<in> set rs then m else if r \<in> set rs then Suc i else n r)"
      using Suc.IH [of l1 "\<lambda>r. if r \<in> set rs then Suc i else n r" "Suc i", unfolded l1(2),
          OF Suc.prems(1) l1(3) Suc.prems(3) _ _ Suc.prems(6,7)] by blast
    have "(\<lambda>r. if r \<in> set rs then m else if r \<in> set rs then Suc i else n r) = (\<lambda>r. if r \<in> set rs then m else n r)"
      by (auto simp: fun_eq_iff)
    moreover have "recommit_loop (Suc f) env rs (of_nat i) (of_nat (m - 1)) l
        = recommit_loop f env rs (of_nat i + 1) (of_nat (m - 1)) l1"
      using l1(1) le get by (simp only: recommit_loop.simps if_True res_bind_simps)
    moreover have "(of_nat i + 1 :: u64) = of_nat (Suc i)" by simp
    ultimately show ?thesis using l2 by metis
  qed
qed simp

lemma recommit_ok:
  assumes "chain_ok env (chain (kl_blockStore l)) tss W" "ledger_at env (chain (kl_blockStore l)) W l n"
    and "distinct rs" "\<forall>r \<in> set rs. n r = i" "i \<le> m" "0 < m" "m \<le> length (chain (kl_blockStore l))"
  shows "\<exists>l'. recommitLostBlocks env (of_nat i) (of_nat (m - 1)) rs l = Inr l' \<and> kl_blockStore l' = kl_blockStore l
    \<and> ledger_at env (chain (kl_blockStore l)) W l' (\<lambda>r. if r \<in> set rs then m else n r)"
proof -
  have "m - 1 < 2 ^ 64" using assms(1,7) by (auto simp: chain_ok_def)
  then have "m < i + (unat (of_nat (m - 1) :: u64) + 2)" by simp
  from recommit_loop_ok [OF assms this] show ?thesis unfolding recommitLostBlocks_def .
qed

lemma should_recover_tm:
  assumes "sp_at (ldb_GetLatestSavePoint (ke_ops env) (ke_codec env) (tm_db (kl_txtmgmt l))) i" "i \<le> m" "0 < m" "m < 2 ^ 64"
  shows "kl_ShouldRecover env l RTxMgr (of_nat (m - 1)) = Inr (i \<noteq> m, of_nat i)"
proof (rule sp_at_cases [OF assms(1)])
  assume "ldb_GetLatestSavePoint (ke_ops env) (ke_codec env) (tm_db (kl_txtmgmt l)) = Inr None" "i = 0"
  then show ?thesis using assms(3) by (simp add: kl_ShouldRecover_def tm_ShouldRecover_def GetLastSavepoint_def)
next
  fix h
  assume h: "ldb_GetLatestSavePoint (ke_ops env) (ke_codec env) (tm_db (kl_txtmgmt l)) = Inr (Some h)" "0 < i"
    "BlockNum h = of_nat (i - 1)"
  have "(of_nat (i - 1) :: u64) = of_nat (m - 1) \<longleftrightarrow> i - 1 = m - 1"
    by (rule of_nat_u64_eq(1)) (use assms(2,4) in linarith)+
  then have "(BlockNum h \<noteq> of_nat (m - 1)) = (i \<noteq> m)" using h(2,3) assms(3) by auto
  moreover have "BlockNum h + 1 = of_nat i" using h(2,3) by (cases i) simp_all
  ultimately show ?thesis using h(1)
    by (simp only: kl_ShouldRecover_def tm_ShouldRecover_def GetLastSavepoint_def recoverable.case res_bind_simps option.case)
qed

lemma should_recover_hist:
  assumes "sp_at (hist_GetLastSavepoint (ke_ops env) (ke_codec env) (kl_historyDB l)) i" "i \<le> m" "0 < m" "m < 2 ^ 64"
    and "he_enabled (ke_hist env)"
  shows "kl_ShouldRecover env l RHistory (of_nat (m - 1)) = Inr (i \<noteq> m, of_nat i)"
proof (rule sp_at_cases [OF assms(1)])
  assume "hist_GetLastSavepoint (ke_ops env) (ke_codec env) (kl_historyDB l) = Inr None" "i = 0"
  then show ?thesis using assms(3,5) by (simp add: kl_ShouldRecover_def hist_ShouldRecover_def)
next
  fix h
  assume h: "hist_GetLastSavepoint (ke_ops env) (ke_codec env) (kl_historyDB l) = Inr (Some h)" "0 < i"
    "BlockNum h = of_nat (i - 1)"
  have "(of_nat (i - 1) :: u64) = of_nat (m - 1) \<longleftrightarrow> i - 1 = m - 1"
    by (rule of_nat_u64_eq(1)) (use assms(2,4) in linarith)+
  then have "(BlockNum h \<noteq> of_nat (m - 1)) = (i \<noteq> m)" using h(2,3) assms(3) by auto
  moreover have "BlockNum h + 1 = of_nat i" using h(2,3) by (cases i) simp_all
  ultimately show ?thesis using h(1) assms(5)
    by (simp only: kl_ShouldRecover_def hist_ShouldRecover_def recoverable.case res_bind_simps option.case simp_thms if_False)
qed

lemma recoverDBs_shape:
  assumes "ledger_at env (chain (kl_blockStore l)) W l n" "\<forall>r. n r \<le> length (chain (kl_blockStore l))"
    and "he_enabled (ke_hist env)" "0 < length (chain (kl_blockStore l))" "length (chain (kl_blockStore l)) < 2 ^ 64"
  shows "recoverDBs env l = recover_shape env l n (length (chain (kl_blockStore l)))"
proof -
  let ?m = "length (chain (kl_blockStore l))"
  have h0: "(of_nat ?m :: u64) \<noteq> 0" using of_nat_u64_eq(1) [of ?m 0] assms(4,5) by simp
  have last: "(of_nat ?m :: u64) - 1 = of_nat (?m - 1)" by (rule of_nat_pred [OF assms(4)])
  have r0: "kl_ShouldRecover env l RTxMgr (of_nat (?m - 1)) = Inr (n RTxMgr \<noteq> ?m, of_nat (n RTxMgr))"
    by (rule should_recover_tm) (use assms in \<open>simp_all add: ledger_at_def Let_def\<close>)
  have r1: "kl_ShouldRecover env l RHistory (of_nat (?m - 1)) = Inr (n RHistory \<noteq> ?m, of_nat (n RHistory))"
    by (rule should_recover_hist) (use assms in \<open>simp_all add: ledger_at_def Let_def\<close>)
  show ?thesis
    unfolding recoverDBs_def recover_shape_def info sum.case Let_def last using h0 by (simp add: r0 r1 del: One_nat_def)
qed

lemma recover_one:
  assumes "chain_ok env (chain (kl_blockStore l)) tss W" "ledger_at env (chain (kl_blockStore l)) W l n"
    and "\<forall>r. n r \<le> m" "0 < m" "m = length (chain (kl_blockStore l))" "n y = m" "x \<noteq> y"
  shows "\<exists>l'. recommitLostBlocks env (of_nat (n x)) (of_nat (m - 1)) [x] l = Inr l' \<and> kl_blockStore l' = kl_blockStore l
    \<and> ledger_at env (chain (kl_blockStore l)) W l' (\<lambda>_. m)"
proof -
  have "(\<lambda>r. if r \<in> set [x] then m else n r) = (\<lambda>_. m)"
    using assms(6,7) by (auto simp: fun_eq_iff) (metis recoverable.exhaust)
  moreover have "\<exists>l'. recommitLostBlocks env (of_nat (n x)) (of_nat (m - 1)) [x] l = Inr l' \<and> kl_blockStore l' = kl_blockStore l
      \<and> ledger_at env (chain (kl_blockStore l)) W l' (\<lambda>r. if r \<in> set [x] then m else n r)"
    by (rule recommit_ok [OF assms(1,2)]) (use assms(3-5) in auto)
  ultimately show ?thesis by simp
qed

text \<open>The database that lags is first brought level with the other one.\<close>

lemma recover_level:
  assumes "chain_ok env (chain (kl_blockStore l)) tss W" "ledger_at env (chain (kl_blockStore l)) W l n"
    and "\<forall>r. n r \<le> length (chain (kl_blockStore l))" "n x \<le> n y"
  shows "\<exists>l1. (if (of_nat (n x) :: u64) \<noteq> of_nat (n y) then recommitLostBlocks env (of_nat (n x)) (of_nat (n y) - 1) [x] l
      else Inr l) = Inr l1
    \<and> kl_blockStore l1 = kl_blockStore l \<and> ledger_at env (chain (kl_blockStore l)) W l1 (\<lambda>r. if r \<in> set [x] then n y else n r)"
proof -
  have "n x < 2 ^ 64" "n y < 2 ^ 64" using assms(1,3) unfolding chain_ok_def by (meson le_less_trans)+
  then have eq: "(of_nat (n x) :: u64) = of_nat (n y) \<longleftrightarrow> n x = n y" by (rule of_nat_u64_eq(1))
  show ?thesis
  proof (cases "n x = n y")
    case True
    then have "(\<lambda>r. if r \<in> set [x] then n y else n r) = n" by (auto simp: fun_eq_iff)
    with True eq assms(2) show ?thesis by simp
  next
    case False
    then have y: "0 < n y" using assms(4) by simp
    have "\<exists>l1. recommitLostBlocks env (of_nat (n x)) (of_nat (n y - 1)) [x] l = Inr l1 \<and> kl_blockStore l1 = kl_blockStore l
        \<and> ledger_at env (chain (kl_blockStore l)) W l1 (\<lambda>r. if r \<in> set [x] then n y else n r)"
      by (rule recommit_ok [OF assms(1,2)]) (use assms(3,4) y in auto)
    with False eq of_nat_pred [OF y] show ?thesis by (simp del: of_nat_diff)
  qed
qed

lemma recover_two:
  assumes "chain_ok env (chain (kl_blockStore l)) tss W" "ledger_at env (chain (kl_blockStore l)) W l n"
    and "\<forall>r. n r \<le> m" "0 < m" "m = length (chain (kl_blockStore l))" "n x \<le> n y" "x \<noteq> y"
  shows "\<exists>l'. res_bind (if (of_nat (n x) :: u64) \<noteq> of_nat (n y)
        then recommitLostBlocks env (of_nat (n x)) (of_nat (n y) - 1) [x] l else Inr l)
      (\<lambda>l. recommitLostBlocks env (of_nat (n y)) (of_nat (m - 1)) [x, y] l) = Inr l'
    \<and> kl_blockStore l' = kl_blockStore l \<and> ledger_at env (chain (kl_blockStore l)) W l' (\<lambda>_. m)"
proof -
  have all: "(\<lambda>r. if r \<in> set [x, y] then m else n' r) = (\<lambda>_. m)" for n' :: progress
    using assms(7) by (auto simp: fun_eq_iff) (metis recoverable.exhaust)
  have le: "\<forall>r. n r \<le> length (chain (kl_blockStore l))" using assms(3,5) by simp
  from recover_level [OF assms(1,2) le assms(6)] obtain l1 where
    l1: "(if (of_nat (n x) :: u64) \<noteq> of_nat (n y) then recommitLostBlocks env (of_nat (n x)) (of_nat (n y) - 1) [x] l
      else Inr l) = Inr l1"
    "kl_blockStore l1 = kl_blockStore l" "ledger_at env (chain (kl_blockStore l)) W l1 (\<lambda>r. if r \<in> set [x] then n y else n r)"
    by blast
  have "\<exists>l'. recommitLostBlocks env (of_nat (n y)) (of_nat (m - 1)) [x, y] l1 = Inr l' \<and> kl_blockStore l' = kl_blockStore l1
      \<and> ledger_at env (chain (kl_blockStore l1)) W l' (\<lambda>r. if r \<in> set [x, y] then m else (if r \<in> set [x] then n y else n r))"
    by (rule recommit_ok [where tss = tss]) (use l1 assms in auto)
  then show ?thesis using l1 all by auto
qed

text \<open>
  Opening a ledger brings both databases, wherever they were left, to the end of the chain: the state
  is that after the last block, the history is that of all blocks.
\<close>

lemma recoverDBs_ok:
  assumes "chain_ok env (chain (kl_blockStore l)) tss W" "ledger_at env (chain (kl_blockStore l)) W l n"
    and "\<forall>r. n r \<le> length (chain (kl_blockStore l))" "he_enabled (ke_hist env)"
  shows "\<exists>l'. recoverDBs env l = Inr l' \<and> kl_blockStore l' = kl_blockStore l
    \<and> ledger_at env (chain (kl_blockStore l)) W l' (\<lambda>_. length (chain (kl_blockStore l)))"
proof (cases "length (chain (kl_blockStore l)) = 0")
  case True
  then have "n = (\<lambda>_. length (chain (kl_blockStore l)))" using assms(3) by (auto simp: fun_eq_iff)
  with True assms(2) info [of "kl_blockStore l"] show ?thesis by (simp add: recoverDBs_def)
next
  case False
  define m where "m = length (chain (kl_blockStore l))"
  have m: "0 < m" "m < 2 ^ 64" "\<forall>r. n r \<le> m" using False assms(1,3) by (auto simp: m_def chain_ok_def)
  have rec: "recoverDBs env l = recover_shape env l n m"
    unfolding m_def by (rule recoverDBs_shape) (use assms m in \<open>auto simp: m_def\<close>)
  note one = recover_one [OF assms(1,2) m(3,1) m_def] and two = recover_two [OF assms(1,2) m(3,1) m_def]
  have lt: "(of_nat (n RHistory) :: u64) < of_nat (n RTxMgr) \<longleftrightarrow> n RHistory < n RTxMgr"
    using of_nat_u64_eq(2) [of "n RTxMgr" "n RHistory"] m by (meson le_less_trans not_le)
  consider "n RTxMgr = m" "n RHistory = m" | "n RTxMgr \<noteq> m" "n RHistory = m" | "n RTxMgr = m" "n RHistory \<noteq> m"
    | "n RTxMgr \<noteq> m" "n RHistory \<noteq> m" "n RHistory < n RTxMgr" | "n RTxMgr \<noteq> m" "n RHistory \<noteq> m" "\<not> n RHistory < n RTxMgr"
    by blast
  then show ?thesis unfolding m_def [symmetric] rec
  proof cases
    case 1
    then have "n = (\<lambda>_. m)" by (auto simp: fun_eq_iff) (metis recoverable.exhaust)
    with 1 assms(2) show "\<exists>l'. recover_shape env l n m = Inr l' \<and> kl_blockStore l' = kl_blockStore l
        \<and> ledger_at env (chain (kl_blockStore l)) W l' (\<lambda>_. m)" by (auto simp: recover_shape_def)
  next
    case 2
    with one [of RHistory RTxMgr] show "\<exists>l'. recover_shape env l n m = Inr l' \<and> kl_blockStore l' = kl_blockStore l
        \<and> ledger_at env (chain (kl_blockStore l)) W l' (\<lambda>_. m)" by (simp add: recover_shape_def)
  next
    case 3
    with one [of RTxMgr RHistory] show "\<exists>l'. recover_shape env l n m = Inr l' \<and> kl_blockStore l' = kl_blockStore l
        \<and> ledger_at env (chain (kl_blockStore l)) W l' (\<lambda>_. m)" by (simp add: recover_shape_def)
  next
    case 4
    with lt two [of RHistory RTxMgr] show "\<exists>l'. recover_shape env l n m = Inr l' \<and> kl_blockStore l' = kl_blockStore l
        \<and> ledger_at env (chain (kl_blockStore l)) W l' (\<lambda>_. m)" by (simp add: recover_shape_def)
  next
    case 5
    with lt two [of RTxMgr RHistory] show "\<exists>l'. recover_shape env l n m = Inr l' \<and> kl_blockStore l' = kl_blockStore l
        \<and> ledger_at env (chain (kl_blockStore l)) W l' (\<lambda>_. m)" by (simp add: recover_shape_def)
  qed
qed

section \<open>A commit keeps the stores in step\<close>

lemma Commit_stages:
  assumes "stored_ok (ke_ops env) (ke_codec env) (tm_db (kl_txtmgmt l))"
    and "fresh_block env (tm_db (kl_txtmgmt l)) block ts" "blk_Number block = of_nat (length (chain (kl_blockStore l)))"
    and "hist_holds (ke_ops env) (ke_codec env) (kl_historyDB l) L" "he_enabled (ke_hist env)"
  shows "\<exists>l' block'. kl_Commit env block l = Inr (None, l') \<and> chain (kl_blockStore l') = chain (kl_blockStore l) @ [block']
    \<and> blk_Number block' = blk_Number block \<and> blk_Data block' = blk_Data block \<and> replayable (ke_val env) block' ts
    \<and> stored_ok (ke_ops env) (ke_codec env) (tm_db (kl_txtmgmt l'))
    \<and> ldb_GetLatestSavePoint (ke_ops env) (ke_codec env) (tm_db (kl_txtmgmt l')) = Inr (Some (commit_height block))
    \<and> (\<forall>ns k. ns_ok ns \<and> ns \<noteq> ''qscc'' \<longrightarrow> dlook (ldb_view (ke_ops env) (ke_codec env) (tm_db (kl_txtmgmt l'))) ns k =
         overlay_fun (dlook (ldb_view (ke_ops env) (ke_codec env) (tm_db (kl_txtmgmt l)))) (block_effect block' ts) ns k)
    \<and> hist_holds (ke_ops env) (ke_codec env) (kl_historyDB l') (L \<union> block_log (ke_val env) block')
    \<and> hist_GetLastSavepoint (ke_ops env) (ke_codec env) (kl_historyDB l')
        = Inr (Some (NewHeight (blk_Number block) (of_nat (length (blk_Data block)))))
    \<and> (\<forall>j < length (blk_Data block). initial_flags block' ! j = VALID \<longrightarrow> initial_flags block ! j = VALID)"
proof -
  let ?ops = "ke_ops env" and ?c = "ke_codec env" and ?tm = "kl_txtmgmt l"
  let ?e = "env_at ?ops ?c (ke_val env) (tm_db ?tm)"
  obtain upd block' st where v: "ValidateAndPrepareBatch ?e block True (tm_vstate ?tm) = Inr (upd, block', st)"
    "replayable (ke_val env) block' ts" "\<forall>ns. ns \<noteq> ''qscc'' \<longrightarrow> batch_Get upd ns = block_effect block' ts ns"
    "\<forall>j < length (blk_Data block). initial_flags block' ! j = VALID \<longrightarrow> initial_flags block ! j = VALID"
    using validated_replayable [OF assms(2) st.view_ok [OF assms(1)]] by blast
  define tm1 where "tm1 = ?tm\<lparr>tm_currentBlock := Some block', tm_batch := Some upd, tm_vstate := st\<rparr>"
  have p: "ValidateAndPrepare ?ops ?c (ke_val env) block True ?tm = Inr (block', tm1)"
    using v(1) by (simp add: ValidateAndPrepare_def tm1_def)
  note f = prepare_block_fields [OF v(1)]
  obtain s where s: "bs_AddBlock (ke_bs env) block' (kl_blockStore l) = Inr s" "chain s = chain (kl_blockStore l) @ [block']"
    using add [of block' "kl_blockStore l"] f(1) assms(3) by auto
  have plain: "\<forall>e \<in> set (blk_Data block). tx_plain (ke_val env) e" using assms(2) by (simp add: fresh_block_def)
  then have nsok: "\<forall>e \<in> set (blk_Data block). tx_ns_ok (ke_val env) e" using plain_ns_ok by blast
  obtain upd' db where d: "tm_batch tm1 = Some upd'" "tm_Commit ?ops ?c tm1 = Inr (None, tm1\<lparr>tm_db := db, tm_batch := None\<rparr>)"
    "stored_ok ?ops ?c db" "ldb_GetLatestSavePoint ?ops ?c db = Inr (Some (commit_height block))"
    "\<forall>ns k. ns_ok ns \<longrightarrow> dlook (ldb_view ?ops ?c db) ns k = overlay (dlook (ldb_view ?ops ?c (tm_db ?tm))) upd' ns k"
    using commit_effect [OF st.stateleveldb_axioms assms(1) disjI2 [OF plain] nsok p] by blast
  have u: "upd' = upd" using d(1) by (simp add: tm1_def)
  obtain hdb where h: "hist_Commit ?ops ?c (ke_val env) block' (kl_historyDB l) = Inr hdb"
    "hist_holds ?ops ?c hdb (L \<union> block_log (ke_val env) block')"
    "hist_GetLastSavepoint ?ops ?c hdb = Inr (Some (NewHeight (blk_Number block') (of_nat (length (blk_Data block')))))"
    using commit_lost_history [OF assms(4) v(2)] by (auto simp: hist_CommitLostBlock_def)
  define l' where "l' = l\<lparr>kl_txtmgmt := tm1\<lparr>tm_db := db, tm_batch := None\<rparr>, kl_blockStore := s, kl_historyDB := hdb\<rparr>"
  have "kl_Commit env block l = Inr (None, l')"
    using p s(1) d(2) h(1) assms(5) by (simp add: kl_Commit_def l'_def Let_def)
  then show ?thesis
    using s(2) d(3-5) h(2,3) v(2-4) f u
    by (intro exI [of _ l'] exI [of _ block']) (simp add: l'_def overlay_as_fun overlay_fun_def)
qed

text \<open>The stores are in step before and after; the new state is the old one under the block's writes.\<close>

lemma Commit_synced:
  assumes "chain_ok env (chain (kl_blockStore l)) tss W"
    and "ledger_at env (chain (kl_blockStore l)) W l (\<lambda>_. length (chain (kl_blockStore l)))"
    and "fresh_block env (tm_db (kl_txtmgmt l)) block ts" "blk_Number block = of_nat (length (chain (kl_blockStore l)))"
    and "he_enabled (ke_hist env)" "Suc (length (chain (kl_blockStore l))) < 2 ^ 64"
  shows "\<exists>l' block' W'. kl_Commit env block l = Inr (None, l') \<and> chain (kl_blockStore l') = chain (kl_blockStore l) @ [block']
    \<and> blk_Data block' = blk_Data block
    \<and> (\<forall>i \<le> length (chain (kl_blockStore l)). W' i = W i)
    \<and> chain_ok env (chain (kl_blockStore l')) (tss @ [ts]) W'
    \<and> ledger_at env (chain (kl_blockStore l')) W' l' (\<lambda>_. length (chain (kl_blockStore l')))
    \<and> (\<forall>j < length (blk_Data block). initial_flags block' ! j = VALID \<longrightarrow> initial_flags block ! j = VALID)"
proof -
  let ?ops = "ke_ops env" and ?c = "ke_codec env" and ?bl = "chain (kl_blockStore l)"
  let ?m = "length ?bl" and ?L = "\<Union>i < length (chain (kl_blockStore l)). block_log (ke_val env) (chain (kl_blockStore l) ! i)"
  have A: "stored_ok ?ops ?c (tm_db (kl_txtmgmt l))" "hist_holds ?ops ?c (kl_historyDB l) ?L"
    using assms(2) by (simp_all add: ledger_at_def Let_def)
  obtain l' block' where l': "kl_Commit env block l = Inr (None, l')" "chain (kl_blockStore l') = ?bl @ [block']"
    "blk_Number block' = blk_Number block" "blk_Data block' = blk_Data block" "replayable (ke_val env) block' ts"
    "stored_ok ?ops ?c (tm_db (kl_txtmgmt l'))"
    "ldb_GetLatestSavePoint ?ops ?c (tm_db (kl_txtmgmt l')) = Inr (Some (commit_height block))"
    "\<forall>ns k. ns_ok ns \<and> ns \<noteq> ''qscc'' \<longrightarrow> dlook (ldb_view ?ops ?c (tm_db (kl_txtmgmt l'))) ns k =
       overlay_fun (dlook (ldb_view ?ops ?c (tm_db (kl_txtmgmt l)))) (block_effect block' ts) ns k"
    "hist_holds ?ops ?c (kl_historyDB l') (?L \<union> block_log (ke_val env) block')"
    "hist_GetLastSavepoint ?ops ?c (kl_historyDB l') = Inr (Some (NewHeight (blk_Number block) (of_nat (length (blk_Data block)))))"
    "\<forall>j < length (blk_Data block). initial_flags block' ! j = VALID \<longrightarrow> initial_flags block ! j = VALID"
    using Commit_stages [OF A(1) assms(3,4) A(2) assms(5)] by blast
  define W' where "W' = W(Suc ?m := overlay_fun (W ?m) (block_effect block' ts))"
  have "length tss = ?m" using assms(1) by (simp add: chain_ok_def)
  then have C: "chain_ok env (?bl @ [block']) (tss @ [ts]) W'"
    using assms(1,4,6) l'(3,5) by (auto simp: chain_ok_def W'_def nth_append less_Suc_eq)
  have "dlook (ldb_view ?ops ?c (tm_db (kl_txtmgmt l'))) ns k = W' (Suc ?m) ns k" if "ns_ok ns" "ns \<noteq> ''qscc''" for ns k
  proof -
    have "dlook (ldb_view ?ops ?c (tm_db (kl_txtmgmt l))) ns k = W ?m ns k"
      using assms(2) that by (simp add: ledger_at_def Let_def)
    from overlay_fun_cong [of "dlook (ldb_view ?ops ?c (tm_db (kl_txtmgmt l)))" ns k "W ?m", OF this] l'(8) that
    show ?thesis by (simp add: W'_def)
  qed
  moreover note UN_snoc [of "block_log (ke_val env)" ?bl block']
  ultimately have "ledger_at env (?bl @ [block']) W' l' (\<lambda>_. Suc ?m)"
    using l'(6,7,9,10) assms(4) by (simp add: ledger_at_def Let_def sp_at_def commit_height_def)
  with l'(1,2,4,11) C show ?thesis
    by (intro exI [of _ l'] exI [of _ block'] exI [of _ W']) (simp add: W'_def)
qed

text \<open>
  A crash between the writes of a commit: the block is stored, each of the two databases holds the
  block or not. Opening the ledger again leaves the state and the history of the completed commit.
\<close>

lemma recover_after_crash:
  assumes "chain_ok env (chain (kl_blockStore l)) tss W"
    and "ledger_at env (chain (kl_blockStore l)) W l (\<lambda>_. length (chain (kl_blockStore l)))"
    and "fresh_block env (tm_db (kl_txtmgmt l)) block ts" "blk_Number block = of_nat (length (chain (kl_blockStore l)))"
    and "he_enabled (ke_hist env)" "Suc (length (chain (kl_blockStore l))) < 2 ^ 64"
  shows "\<exists>l'. kl_Commit env block l = Inr (None, l') \<and>
    (\<forall>db hdb st. db \<in> {tm_db (kl_txtmgmt l), tm_db (kl_txtmgmt l')} \<longrightarrow> hdb \<in> {kl_historyDB l, kl_historyDB l'} \<longrightarrow>
      (\<exists>l'' L. newKVLedger env (kl_ledgerID l) (kl_blockStore l') db hdb st = Inr l''
        \<and> kl_blockStore l'' = kl_blockStore l'
        \<and> (\<forall>ns k. ns_ok ns \<and> ns \<noteq> ''qscc'' \<longrightarrow>
             dlook (ldb_view (ke_ops env) (ke_codec env) (tm_db (kl_txtmgmt l''))) ns k =
             dlook (ldb_view (ke_ops env) (ke_codec env) (tm_db (kl_txtmgmt l'))) ns k)
        \<and> hist_holds (ke_ops env) (ke_codec env) (kl_historyDB l') L
        \<and> hist_holds (ke_ops env) (ke_codec env) (kl_historyDB l'') L))"
proof -
  let ?m = "length (chain (kl_blockStore l))"
  obtain l' block' W' where l': "kl_Commit env block l = Inr (None, l')"
    "chain (kl_blockStore l') = chain (kl_blockStore l) @ [block']" "\<forall>i \<le> ?m. W' i = W i"
    "chain_ok env (chain (kl_blockStore l')) (tss @ [ts]) W'"
    "ledger_at env (chain (kl_blockStore l')) W' l' (\<lambda>_. Suc ?m)"
    using Commit_synced [OF assms] by auto
  have "\<exists>l'' L. newKVLedger env (kl_ledgerID l) (kl_blockStore l') db hdb st = Inr l'' \<and> kl_blockStore l'' = kl_blockStore l'
        \<and> (\<forall>ns k. ns_ok ns \<and> ns \<noteq> ''qscc'' \<longrightarrow>
             dlook (ldb_view (ke_ops env) (ke_codec env) (tm_db (kl_txtmgmt l''))) ns k =
             dlook (ldb_view (ke_ops env) (ke_codec env) (tm_db (kl_txtmgmt l'))) ns k)
        \<and> hist_holds (ke_ops env) (ke_codec env) (kl_historyDB l') L
        \<and> hist_holds (ke_ops env) (ke_codec env) (kl_historyDB l'') L"
    if d: "db \<in> {tm_db (kl_txtmgmt l), tm_db (kl_txtmgmt l')}" "hdb \<in> {kl_historyDB l, kl_historyDB l'}" for db hdb st
  proof -
    define l0 where "l0 = \<lparr>kl_ledgerID = kl_ledgerID l, kl_blockStore = kl_blockStore l',
      kl_txtmgmt = NewLockBasedTxMgr db st, kl_historyDB = hdb\<rparr>"
    define n where "n = (\<lambda>r. case r of RTxMgr \<Rightarrow> if db = tm_db (kl_txtmgmt l') then Suc ?m else ?m
      | RHistory \<Rightarrow> if hdb = kl_historyDB l' then Suc ?m else ?m)"
    have logs: "(\<Union>i < ?m. block_log (ke_val env) ((chain (kl_blockStore l) @ [block']) ! i))
        = (\<Union>i < ?m. block_log (ke_val env) (chain (kl_blockStore l) ! i))" by (auto simp: nth_append)
    have "ledger_at env (chain (kl_blockStore l0)) W' l0 n"
      using d assms(2) l'(2,3,5) logs
      by (auto simp: ledger_at_def Let_def l0_def n_def NewLockBasedTxMgr_def)
    moreover have "chain_ok env (chain (kl_blockStore l0)) (tss @ [ts]) W'" using l'(4) by (simp add: l0_def)
    moreover have "\<forall>r. n r \<le> length (chain (kl_blockStore l0))" by (simp add: l0_def n_def l'(2) split: recoverable.split)
    ultimately obtain l'' where l'': "recoverDBs env l0 = Inr l''" "kl_blockStore l'' = kl_blockStore l'"
      "ledger_at env (chain (kl_blockStore l')) W' l'' (\<lambda>_. Suc ?m)"
      using recoverDBs_ok [of l0 "tss @ [ts]" W' n] assms(5) l'(2) by (auto simp: l0_def)
    have "newKVLedger env (kl_ledgerID l) (kl_blockStore l') db hdb st = Inr l''"
      using l''(1) by (simp add: newKVLedger_def l0_def)
    then show ?thesis
      using l''(2,3) l'(5)
      by (intro exI [of _ l''] exI [of _ "\<Union>i < Suc ?m. block_log (ke_val env) (chain (kl_blockStore l') ! i)"])
        (simp add: ledger_at_def Let_def)
  qed
  with l'(1) show ?thesis by blast
qed

end

section \<open>A block store that keeps the promise\<close>

text \<open>
  The promises can be kept: a store that is the list of its blocks. Queries by hash and by
  transaction are not used by what is proved here; it answers them with errors.
\<close>

definition list_blockstore :: "Block list blockstore" where
  "list_blockstore = \<lparr>
     bs_AddBlock = (\<lambda>b s. if blk_Number b = of_nat (length s) then Inr (s @ [b]) else Inl (Err ''unexpected block number'')),
     bs_GetBlockchainInfo = (\<lambda>s. Inr (of_nat (length s))),
     bs_RetrieveBlockByNumber = (\<lambda>n s. if unat n < length s then Inr (s ! unat n) else Inl (Err ''Entry not found in index'')),
     bs_RetrieveBlockByHash = (\<lambda>_ _. Inl (Err ''Entry not found in index'')),
     bs_RetrieveBlockByTxID = (\<lambda>_ _. Inl (Err ''Entry not found in index'')),
     bs_RetrieveTxByID = (\<lambda>_ _. Inl (Err ''Entry not found in index'')),
     bs_RetrieveTxByBlockNumTranNum = (\<lambda>b t s.
       if unat b < length s \<and> unat t < length (blk_Data (s ! unat b)) then Inr \<lparr>en_Payload = Some (blk_Data (s ! unat b) ! unat t), en_Signature = None\<rparr>
       else Inl (Err ''Entry not found in index'')),
     bs_RetrieveTxValidationCodeByTxID = (\<lambda>_ _. Inl (Err ''Entry not found in index''))\<rparr>"

definition list_env :: "hist_env \<Rightarrow> (Block list, memdb) kvl_env" where
  "list_env h = \<lparr>ke_bs = list_blockstore, ke_ops = mem_ops, ke_codec = lp_codec, ke_hist = h\<rparr>"

lemma list_env_simps [simp]:
  "ke_bs (list_env h) = list_blockstore" "ke_ops (list_env h) = mem_ops" "ke_codec (list_env h) = lp_codec"
  "ke_hist (list_env h) = h"
  by (simp_all add: list_env_def)

interpretation list_bs: block_chain list_blockstore "\<lambda>s. s"
  by unfold_locales (auto simp: list_blockstore_def)

interpretation list_kl: kvledger_ok "list_env h" "\<lambda>s. s" for h
  by (intro kvledger_ok.intro) (simp_all add: list_bs.block_chain_axioms hmem.historyleveldb_axioms)

end
