(* ===== verification/Provider.thy ===== *)
theory Provider
  imports KVLedger
begin

text \<open>
  \<^verbatim>\<open>core/ledger/kvledger/kv_ledger_provider.go\<close> and \<^verbatim>\<open>core/ledger/ledgermgmt/ledger_mgmt.go\<close>: the
  provider creates, opens and lists ledgers, with the inventory of ledger ids in a LevelDB store of
  its own; the ledger management keeps the map of the open ledgers.

  A \<open>Provider\<close> holds what is on disk: the id store, and for every ledger id its block store, state
  database and history database; \<open>pv_vstate\<close> is the package state of the validator, which all ledgers
  share. Closing a ledger releases file handles and changes no contents; it is the identity here,
  and of closing the provider only the closing of the id store is kept.
  The LevelDB of the id store is the record \<open>iddb\<close> (\<^verbatim>\<open>leveldbhelper.DB\<close>) with its laws in the
  locale \<open>id_db\<close>; opening a block store, reading the chain id of a genesis block and marshalling a
  block are functions of \<open>prov_env\<close>.

  Results: creating a ledger makes it exist with its genesis block and is atomic under a crash between
  its writes; creating it again is refused; listing returns the ids in order when no creation is under
  way, and never returns when the flag of a creation is set; no ledger is open twice.
\<close>

record 'i iddb =
  idb_Get :: "'i \<Rightarrow> bytes \<Rightarrow> bytes option res"
  idb_Put :: "'i \<Rightarrow> bytes \<Rightarrow> bytes \<Rightarrow> 'i res"
  idb_Delete :: "'i \<Rightarrow> bytes \<Rightarrow> 'i res"
  idb_WriteBatch :: "'i \<Rightarrow> (bytes \<times> bytes option) list \<Rightarrow> 'i res"
  idb_Entries :: "'i \<Rightarrow> (bytes \<times> bytes) list"
  idb_Close :: "'i \<Rightarrow> 'i"

record ('s, 'db, 'i) prov_env =
  pe_kvl :: "('s, 'db) kvl_env"
  pe_ids :: "'i iddb"
  pe_OpenBlockStore :: "bytes \<Rightarrow> 's \<Rightarrow> 's res"
  pe_GetChainIDFromBlock :: "Block \<Rightarrow> bytes res"
  pe_Marshal :: "Block \<Rightarrow> bytes res"

record ('s, 'db, 'i) Provider =
  pv_idStore :: 'i
  pv_blocks :: "bytes \<Rightarrow> 's"
  pv_state :: "bytes \<Rightarrow> 'db"
  pv_history :: "bytes \<Rightarrow> 'db"
  pv_vstate :: vstate

definition panicOnErr :: "'a res \<Rightarrow> 'a res" where
  "panicOnErr r = (case r of Inl (Err e) \<Rightarrow> Inl (Panic e) | _ \<Rightarrow> r)"

lemma panicOnErr_simps [simp]:
  "panicOnErr (Inr v) = Inr v" "panicOnErr (Inl (Err e)) = Inl (Panic e)" "panicOnErr (Inl (Panic m)) = Inl (Panic m)"
  by (simp_all add: panicOnErr_def)

definition ErrLedgerIDExists :: error where
  "ErrLedgerIDExists = Err ''LedgerID already exists''"

definition ErrNonExistingLedgerID :: error where
  "ErrNonExistingLedgerID = Err ''LedgerID does not exist''"

section \<open>The id store\<close>

definition underConstructionLedgerKey :: bytes where
  "underConstructionLedgerKey = ''underConstructionLedgerKey''"

definition ledgerKeyPrefix :: bytes where
  "ledgerKeyPrefix = ''l''"

definition encodeLedgerKey :: "bytes \<Rightarrow> bytes" where
  "encodeLedgerKey ledgerID = ledgerKeyPrefix @ ledgerID"

definition decodeLedgerID :: "bytes \<Rightarrow> bytes res" where
  "decodeLedgerID key = slice_from key (length ledgerKeyPrefix)"

definition setUnderConstructionFlag :: "'i iddb \<Rightarrow> bytes \<Rightarrow> 'i \<Rightarrow> 'i res" where
  "setUnderConstructionFlag ops ledgerID s = idb_Put ops s underConstructionLedgerKey ledgerID"

definition unsetUnderConstructionFlag :: "'i iddb \<Rightarrow> 'i \<Rightarrow> 'i res" where
  "unsetUnderConstructionFlag ops s = idb_Delete ops s underConstructionLedgerKey"

definition getUnderConstructionFlag :: "'i iddb \<Rightarrow> 'i \<Rightarrow> bytes res" where
  "getUnderConstructionFlag ops s =
     res_bind (idb_Get ops s underConstructionLedgerKey) (\<lambda>val. Inr (case val of None \<Rightarrow> [] | Some v \<Rightarrow> v))"

text \<open>
  The marshalled block is overwritten by the result of the lookup: what is stored under the id is the
  nil slice, which LevelDB keeps as an empty value.
\<close>

definition createLedgerID :: "'i iddb \<Rightarrow> (Block \<Rightarrow> bytes res) \<Rightarrow> bytes \<Rightarrow> Block \<Rightarrow> 'i \<Rightarrow> 'i res" where
  "createLedgerID ops marshal ledgerID gb s =
     (let key = encodeLedgerKey ledgerID in
      res_bind (marshal gb) (\<lambda>_.
      res_bind (idb_Get ops s key) (\<lambda>val.
        if val \<noteq> None then Inl ErrLedgerIDExists
        else idb_WriteBatch ops s
          [(key, Some (case val of None \<Rightarrow> [] | Some v \<Rightarrow> v)), (underConstructionLedgerKey, None)])))"

definition ledgerIDExists :: "'i iddb \<Rightarrow> bytes \<Rightarrow> 'i \<Rightarrow> bool res" where
  "ledgerIDExists ops ledgerID s =
     res_bind (idb_Get ops s (encodeLedgerKey ledgerID)) (\<lambda>val. Inr (val \<noteq> None))"

text \<open>
  The loop does not advance the iterator over the flag. One step of fuel is one test of the loop
  condition.
\<close>

fun ledger_ids_loop :: "nat \<Rightarrow> bytes list \<Rightarrow> bytes list \<Rightarrow> bytes list res" where
  "ledger_ids_loop 0 keys acc = Inl OutOfFuel"
| "ledger_ids_loop (Suc n) [] acc = Inr acc"
| "ledger_ids_loop (Suc n) (key # keys) acc =
     (if key = underConstructionLedgerKey then ledger_ids_loop n (key # keys) acc
      else res_bind (decodeLedgerID key) (\<lambda>ledgerID. ledger_ids_loop n keys (acc @ [ledgerID])))"

definition getAllLedgerIds :: "'i iddb \<Rightarrow> nat \<Rightarrow> 'i \<Rightarrow> bytes list res" where
  "getAllLedgerIds ops fuel s = ledger_ids_loop fuel (map fst (idb_Entries ops s)) []"

section \<open>The provider\<close>

text \<open>What an operation on a ledger leaves on disk.\<close>

definition put_ledger :: "bytes \<Rightarrow> ('s, 'db) kvLedger \<Rightarrow> ('s, 'db, 'i) Provider \<Rightarrow> ('s, 'db, 'i) Provider" where
  "put_ledger ledgerID l p = p\<lparr>pv_blocks := (pv_blocks p)(ledgerID := kl_blockStore l),
     pv_state := (pv_state p)(ledgerID := tm_db (kl_txtmgmt l)),
     pv_history := (pv_history p)(ledgerID := kl_historyDB l), pv_vstate := tm_vstate (kl_txtmgmt l)\<rparr>"

definition openInternal ::
    "('s, 'db, 'i) prov_env \<Rightarrow> bytes \<Rightarrow> ('s, 'db, 'i) Provider \<Rightarrow> (('s, 'db) kvLedger \<times> ('s, 'db, 'i) Provider) res" where
  "openInternal env ledgerID p =
     res_bind (pe_OpenBlockStore env ledgerID (pv_blocks p ledgerID)) (\<lambda>blockStore.
     res_bind (newKVLedger (pe_kvl env) ledgerID blockStore (pv_state p ledgerID) (pv_history p ledgerID) (pv_vstate p)) (\<lambda>l.
       Inr (l, put_ledger ledgerID l p)))"

definition runCleanup :: "bytes \<Rightarrow> unit res" where
  "runCleanup ledgerID = Inr ()"

text \<open>The outer result is a panic or the return; the inner one is the returned error or ledger.\<close>

definition Create ::
    "('s, 'db, 'i) prov_env \<Rightarrow> Block \<Rightarrow> ('s, 'db, 'i) Provider \<Rightarrow> (('s, 'db) kvLedger res \<times> ('s, 'db, 'i) Provider) res" where
  "Create env genesisBlock p =
     (let ops = pe_ids env in
      res_try (pe_GetChainIDFromBlock env genesisBlock) (\<lambda>e. Inr (Inl e, p)) (\<lambda>ledgerID.
      res_try (ledgerIDExists ops ledgerID (pv_idStore p)) (\<lambda>e. Inr (Inl e, p)) (\<lambda>exists.
      if exists then Inr (Inl ErrLedgerIDExists, p)
      else
        res_try (setUnderConstructionFlag ops ledgerID (pv_idStore p)) (\<lambda>e. Inr (Inl e, p)) (\<lambda>s.
        let p = p\<lparr>pv_idStore := s\<rparr> in
        res_try (openInternal env ledgerID p)
          (\<lambda>e.
             res_bind (panicOnErr (runCleanup ledgerID)) (\<lambda>_.
             res_bind (panicOnErr (unsetUnderConstructionFlag ops (pv_idStore p))) (\<lambda>s.
               Inr (Inl e, p\<lparr>pv_idStore := s\<rparr>))))
          (\<lambda>(l, p).
             res_bind (kl_Commit (pe_kvl env) genesisBlock l) (\<lambda>(err, l).
             let p = put_ledger ledgerID l p in
             case err of
               Some e \<Rightarrow> Inr (Inl e, p)
             | None \<Rightarrow>
                 res_bind (panicOnErr (createLedgerID ops (pe_Marshal env) ledgerID genesisBlock (pv_idStore p))) (\<lambda>s.
                   Inr (Inr l, p\<lparr>pv_idStore := s\<rparr>))))))))"

definition Open ::
    "('s, 'db, 'i) prov_env \<Rightarrow> bytes \<Rightarrow> ('s, 'db, 'i) Provider \<Rightarrow> (('s, 'db) kvLedger \<times> ('s, 'db, 'i) Provider) res" where
  "Open env ledgerID p =
     res_bind (ledgerIDExists (pe_ids env) ledgerID (pv_idStore p)) (\<lambda>exists.
       if \<not> exists then Inl ErrNonExistingLedgerID else openInternal env ledgerID p)"

definition Exists :: "('s, 'db, 'i) prov_env \<Rightarrow> bytes \<Rightarrow> ('s, 'db, 'i) Provider \<Rightarrow> bool res" where
  "Exists env ledgerID p = ledgerIDExists (pe_ids env) ledgerID (pv_idStore p)"

definition prov_List :: "('s, 'db, 'i) prov_env \<Rightarrow> nat \<Rightarrow> ('s, 'db, 'i) Provider \<Rightarrow> bytes list res" where
  "prov_List env fuel p = getAllLedgerIds (pe_ids env) fuel (pv_idStore p)"

definition recoverUnderConstructionLedger ::
    "('s, 'db, 'i) prov_env \<Rightarrow> ('s, 'db, 'i) Provider \<Rightarrow> ('s, 'db, 'i) Provider res" where
  "recoverUnderConstructionLedger env p =
     (let ops = pe_ids env in
      res_bind (panicOnErr (getUnderConstructionFlag ops (pv_idStore p))) (\<lambda>ledgerID.
      if ledgerID = [] then Inr p
      else
        res_bind (panicOnErr (openInternal env ledgerID p)) (\<lambda>(l, p).
        res_bind (panicOnErr (GetBlockchainInfo (pe_kvl env) l)) (\<lambda>height.
        if height = 0 then
          res_bind (panicOnErr (runCleanup ledgerID)) (\<lambda>_.
          res_bind (panicOnErr (unsetUnderConstructionFlag ops (pv_idStore p))) (\<lambda>s. Inr (p\<lparr>pv_idStore := s\<rparr>)))
        else if height = 1 then
          res_bind (panicOnErr (GetBlockByNumber (pe_kvl env) l 0)) (\<lambda>genesisBlock.
          res_bind (panicOnErr (createLedgerID ops (pe_Marshal env) ledgerID genesisBlock (pv_idStore p))) (\<lambda>s.
            Inr (p\<lparr>pv_idStore := s\<rparr>)))
        else Inl (Panic ''Data inconsistency'')))))"

text \<open>\<open>NewProvider\<close> opens the stores that are on disk and recovers.\<close>

definition NewProvider :: "('s, 'db, 'i) prov_env \<Rightarrow> ('s, 'db, 'i) Provider \<Rightarrow> ('s, 'db, 'i) Provider res" where
  "NewProvider env disk = recoverUnderConstructionLedger env disk"

definition prov_Close :: "('s, 'db, 'i) prov_env \<Rightarrow> ('s, 'db, 'i) Provider \<Rightarrow> ('s, 'db, 'i) Provider" where
  "prov_Close env p = p\<lparr>pv_idStore := idb_Close (pe_ids env) (pv_idStore p)\<rparr>"

section \<open>Ledger management\<close>

text \<open>
  The package variables; \<open>mg_opened = None\<close> is the nil map, \<open>mg_provider = None\<close> the nil provider.
\<close>

record ('s, 'db, 'i) mgmt =
  mg_initialized :: bool
  mg_opened :: "(bytes \<rightharpoonup> ('s, 'db) kvLedger) option"
  mg_provider :: "('s, 'db, 'i) Provider option"

definition ErrLedgerAlreadyOpened :: error where
  "ErrLedgerAlreadyOpened = Err ''Ledger already opened''"

definition ErrLedgerMgmtNotInitialized :: error where
  "ErrLedgerMgmtNotInitialized = Err ''ledger mgmt should be initialized before using''"

definition mg_initialize :: "('s, 'db, 'i) prov_env \<Rightarrow> ('s, 'db, 'i) Provider \<Rightarrow> ('s, 'db, 'i) mgmt res" where
  "mg_initialize env disk =
     res_bind (panicOnErr (NewProvider env disk)) (\<lambda>provider.
       Inr \<lparr>mg_initialized = True, mg_opened = Some (\<lambda>_. None), mg_provider = Some provider\<rparr>)"

definition set_opened :: "bytes \<Rightarrow> ('s, 'db) kvLedger \<Rightarrow> ('s, 'db, 'i) mgmt \<Rightarrow> ('s, 'db, 'i) mgmt res" where
  "set_opened ledgerID l m =
     (case mg_opened m of
        None \<Rightarrow> Inl (Panic ''assignment to entry in nil map'')
      | Some opened \<Rightarrow> Inr (m\<lparr>mg_opened := Some (opened(ledgerID \<mapsto> l))\<rparr>))"

definition CreateLedger ::
    "('s, 'db, 'i) prov_env \<Rightarrow> Block \<Rightarrow> ('s, 'db, 'i) mgmt \<Rightarrow> (('s, 'db) kvLedger res \<times> ('s, 'db, 'i) mgmt) res" where
  "CreateLedger env genesisBlock m =
     (if \<not> mg_initialized m then Inr (Inl ErrLedgerMgmtNotInitialized, m)
      else
        res_try (pe_GetChainIDFromBlock env genesisBlock) (\<lambda>e. Inr (Inl e, m)) (\<lambda>ledgerID.
        case mg_provider m of
          None \<Rightarrow> Inl (Panic ''nil pointer dereference'')
        | Some provider \<Rightarrow>
            res_bind (Create env genesisBlock provider) (\<lambda>(r, provider).
            let m = m\<lparr>mg_provider := Some provider\<rparr> in
            case r of
              Inl e \<Rightarrow> Inr (Inl e, m)
            | Inr l \<Rightarrow> res_bind (set_opened ledgerID l m) (\<lambda>m. Inr (Inr l, m)))))"

definition OpenLedger ::
    "('s, 'db, 'i) prov_env \<Rightarrow> bytes \<Rightarrow> ('s, 'db, 'i) mgmt \<Rightarrow> (('s, 'db) kvLedger res \<times> ('s, 'db, 'i) mgmt) res" where
  "OpenLedger env ledgerID m =
     (if \<not> mg_initialized m then Inr (Inl ErrLedgerMgmtNotInitialized, m)
      else if (case mg_opened m of None \<Rightarrow> False | Some opened \<Rightarrow> opened ledgerID \<noteq> None) then Inr (Inl ErrLedgerAlreadyOpened, m)
      else
        case mg_provider m of
          None \<Rightarrow> Inl (Panic ''nil pointer dereference'')
        | Some provider \<Rightarrow>
            res_try (Open env ledgerID provider) (\<lambda>e. Inr (Inl e, m)) (\<lambda>(l, provider).
              res_bind (set_opened ledgerID l (m\<lparr>mg_provider := Some provider\<rparr>)) (\<lambda>m. Inr (Inr l, m))))"

definition GetLedgerIDs :: "('s, 'db, 'i) prov_env \<Rightarrow> nat \<Rightarrow> ('s, 'db, 'i) mgmt \<Rightarrow> bytes list res" where
  "GetLedgerIDs env fuel m =
     (if \<not> mg_initialized m then Inl ErrLedgerMgmtNotInitialized
      else case mg_provider m of
        None \<Rightarrow> Inl (Panic ''nil pointer dereference'')
      | Some provider \<Rightarrow> prov_List env fuel provider)"

definition closeWithoutLock :: "bytes \<Rightarrow> ('s, 'db, 'i) mgmt \<Rightarrow> ('s, 'db, 'i) mgmt" where
  "closeWithoutLock ledgerID m = m\<lparr>mg_opened := map_option (\<lambda>opened. opened(ledgerID := None)) (mg_opened m)\<rparr>"

definition closableLedger_Close :: "bytes \<Rightarrow> ('s, 'db, 'i) mgmt \<Rightarrow> ('s, 'db, 'i) mgmt" where
  "closableLedger_Close ledgerID m = closeWithoutLock ledgerID m"

definition mg_Close :: "('s, 'db, 'i) prov_env \<Rightarrow> ('s, 'db, 'i) mgmt \<Rightarrow> ('s, 'db, 'i) mgmt" where
  "mg_Close env m =
     (if \<not> mg_initialized m then m
      else m\<lparr>mg_opened := None, mg_provider := map_option (prov_Close env) (mg_provider m)\<rparr>)"

text \<open>A commit through an open ledger; the validator's package state is the one the last operation left.\<close>

definition mg_Commit ::
    "('s, 'db, 'i) prov_env \<Rightarrow> bytes \<Rightarrow> Block \<Rightarrow> ('s, 'db, 'i) mgmt \<Rightarrow> (error option \<times> ('s, 'db, 'i) mgmt) res" where
  "mg_Commit env ledgerID block m =
     (case (mg_opened m, mg_provider m) of
        (Some opened, Some p) \<Rightarrow>
          (case opened ledgerID of
             None \<Rightarrow> Inl (Panic ''ledger is not open'')
           | Some l \<Rightarrow>
               res_bind (kl_Commit (pe_kvl env) block
                   (l\<lparr>kl_txtmgmt := kl_txtmgmt l\<lparr>tm_vstate := pv_vstate p\<rparr>\<rparr>)) (\<lambda>(err, l).
                 Inr (err, m\<lparr>mg_opened := Some (opened(ledgerID \<mapsto> l)), mg_provider := Some (put_ledger ledgerID l p)\<rparr>)))
      | _ \<Rightarrow> Inl (Panic ''ledger is not open''))"

section \<open>What the id store promises\<close>

locale id_db =
  fixes ops :: "'i iddb" and lk :: "'i \<Rightarrow> bytes \<rightharpoonup> bytes"
  assumes get: "idb_Get ops d k = Inr (lk d k)"
    and put: "\<exists>d'. idb_Put ops d k v = Inr d' \<and> lk d' = (lk d)(k \<mapsto> v)"
    and delete: "\<exists>d'. idb_Delete ops d k = Inr d' \<and> lk d' = (lk d)(k := None)"
    and batch: "\<exists>d'. idb_WriteBatch ops d w = Inr d'
      \<and> (\<forall>k. lk d' k = (case map_of (rev w) k of None \<Rightarrow> lk d k | Some v \<Rightarrow> v))"
    and entries_sorted: "strict_sorted (map fst (idb_Entries ops d))"
    and entries: "(k, v) \<in> set (idb_Entries ops d) \<longleftrightarrow> lk d k = Some v"

lemma encode_not_flag [simp]:
  "encodeLedgerKey i \<noteq> underConstructionLedgerKey" "underConstructionLedgerKey \<noteq> encodeLedgerKey i"
  by (simp_all add: encodeLedgerKey_def underConstructionLedgerKey_def ledgerKeyPrefix_def)

lemma encode_inject [simp]: "encodeLedgerKey i = encodeLedgerKey j \<longleftrightarrow> i = j"
  by (simp add: encodeLedgerKey_def)

lemma decode_encode [simp]: "decodeLedgerID (encodeLedgerKey i) = Inr i"
  by (simp add: decodeLedgerID_def encodeLedgerKey_def ledgerKeyPrefix_def slice_from_def)

text \<open>The keys of an id store: encoded ids, and the flag while a creation is under way.\<close>

definition id_keys_ok :: "(bytes \<rightharpoonup> bytes) \<Rightarrow> bool" where
  "id_keys_ok m \<longleftrightarrow> dom m \<subseteq> insert underConstructionLedgerKey (range encodeLedgerKey)"

definition ledger_ids :: "(bytes \<rightharpoonup> bytes) \<Rightarrow> bytes set" where
  "ledger_ids m = {i. m (encodeLedgerKey i) \<noteq> None}"

lemma ids_loop_encoded:
  "ledger_ids_loop (Suc (length is + n)) (map encodeLedgerKey is) acc = Inr (acc @ is)"
  by (induction "is" arbitrary: acc) simp_all

text \<open>Over the flag the loop never advances.\<close>

lemma ids_loop_stuck:
  assumes "underConstructionLedgerKey \<in> set keys" "set keys \<subseteq> insert underConstructionLedgerKey (range encodeLedgerKey)"
  shows "ledger_ids_loop n keys acc = Inl OutOfFuel"
  using assms
proof (induction n keys acc rule: ledger_ids_loop.induct)
  case (3 n key keys acc)
  then show ?case by (cases "key = underConstructionLedgerKey") auto
qed simp_all

lemma encode_less_iff [simp]: "encodeLedgerKey i < encodeLedgerKey j \<longleftrightarrow> i < j"
  by (simp add: encodeLedgerKey_def ledgerKeyPrefix_def)

context id_db
begin

lemma exists_eq: "ledgerIDExists ops i d = Inr (i \<in> ledger_ids (lk d))"
  by (simp add: ledgerIDExists_def get ledger_ids_def)

lemma flag_eq: "getUnderConstructionFlag ops d = Inr (case lk d underConstructionLedgerKey of None \<Rightarrow> [] | Some v \<Rightarrow> v)"
  by (simp add: getUnderConstructionFlag_def get)

lemma create_id:
  assumes "i \<notin> ledger_ids (lk d)" "marshal gb = Inr b"
  shows "\<exists>d'. createLedgerID ops marshal i gb d = Inr d'
    \<and> lk d' = (lk d)(encodeLedgerKey i \<mapsto> [], underConstructionLedgerKey := None)"
proof -
  obtain d' where d': "idb_WriteBatch ops d [(encodeLedgerKey i, Some []), (underConstructionLedgerKey, None)] = Inr d'"
    "\<forall>k. lk d' k = (case map_of (rev [(encodeLedgerKey i, Some []), (underConstructionLedgerKey, None)]) k of
        None \<Rightarrow> lk d k | Some v \<Rightarrow> v)"
    using batch by blast
  have "createLedgerID ops marshal i gb d = Inr d'"
    using d'(1) assms by (simp add: createLedgerID_def get Let_def ledger_ids_def)
  moreover have "lk d' = (lk d)(encodeLedgerKey i \<mapsto> [], underConstructionLedgerKey := None)"
    using d'(2) by (auto simp: fun_eq_iff)
  ultimately show ?thesis by blast
qed

lemma keys_set: "set (map fst (idb_Entries ops d)) = dom (lk d)"
  using entries [of _ _ d] by (force simp: dom_def image_iff)

lemma list_ids:
  assumes "id_keys_ok (lk d)" "lk d underConstructionLedgerKey = None"
  shows "\<exists>is. strict_sorted is \<and> set is = ledger_ids (lk d) \<and> (\<forall>n > length is. getAllLedgerIds ops n d = Inr is)"
proof -
  let ?ks = "map fst (idb_Entries ops d)"
  have sub: "set ?ks \<subseteq> range encodeLedgerKey"
    using assms unfolding keys_set id_keys_ok_def by auto
  have inj: "inj encodeLedgerKey" by (rule injI) simp
  obtain js where ks: "?ks = map encodeLedgerKey js"
    using sub ex_map_conv [of ?ks encodeLedgerKey] by blast
  have sorted: "strict_sorted js"
    using entries_sorted [of d] unfolding ks by (simp add: sorted_wrt_map)
  have "set js = ledger_ids (lk d)"
  proof -
    have "encodeLedgerKey ` set js = dom (lk d)" using keys_set [of d] unfolding ks by simp
    then have "i \<in> set js \<longleftrightarrow> encodeLedgerKey i \<in> dom (lk d)" for i
      using inj_image_mem_iff [OF inj, of i "set js"] by simp
    then show ?thesis by (auto simp: ledger_ids_def dom_def)
  qed
  moreover have "getAllLedgerIds ops n d = Inr js" if "length js < n" for n
    using ids_loop_encoded [of js "n - Suc (length js)" "[]"] that by (simp add: getAllLedgerIds_def ks)
  ultimately show ?thesis using sorted by blast
qed

lemma list_stuck:
  assumes "id_keys_ok (lk d)" "lk d underConstructionLedgerKey \<noteq> None"
  shows "getAllLedgerIds ops n d = Inl OutOfFuel"
  unfolding getAllLedgerIds_def
  using assms keys_set [of d] by (intro ids_loop_stuck) (auto simp: id_keys_ok_def dom_def)

end

text \<open>The sorted association lists of \<^theory_text>\<open>LevelDB\<close> are such a store.\<close>

definition mem_iddb :: "memdb iddb" where
  "mem_iddb = \<lparr>idb_Get = (\<lambda>d k. Inr (mem_get d k)), idb_Put = (\<lambda>d k v. Inr (mem_put d k v)),
     idb_Delete = (\<lambda>d k. Inr (mem_del d k)), idb_WriteBatch = (\<lambda>d w. Inr (foldl mem_write d w)),
     idb_Entries = mem_list, idb_Close = (\<lambda>d. d)\<rparr>"

interpretation mem_ids: id_db mem_iddb mem_get
proof
  show "\<exists>d'. idb_WriteBatch mem_iddb d w = Inr d' \<and> (\<forall>k. mem_get d' k = (case map_of (rev w) k of None \<Rightarrow> mem_get d k | Some v \<Rightarrow> v))"
    for d w
    by (simp add: mem_iddb_def mem_get_writes)
qed (auto simp: mem_iddb_def mem_get_put mem_get_del mem_list_sorted mem_list_mem fun_eq_iff)

section \<open>Creation, opening and recovery of a ledger\<close>

definition disk_ledger :: "('s, 'db, 'i) Provider \<Rightarrow> bytes \<Rightarrow> ('s, 'db) kvLedger" where
  "disk_ledger p i = \<lparr>kl_ledgerID = i, kl_blockStore = pv_blocks p i,
     kl_txtmgmt = NewLockBasedTxMgr (pv_state p i) (pv_vstate p), kl_historyDB = pv_history p i\<rparr>"

lemma ledger_at_stores:
  assumes "tm_db (kl_txtmgmt l) = tm_db (kl_txtmgmt l')" "kl_historyDB l = kl_historyDB l'"
  shows "ledger_at env bl W l n \<longleftrightarrow> ledger_at env bl W l' n"
  using assms by (simp add: ledger_at_def)

lemma put_ledger_simps [simp]:
  "pv_idStore (put_ledger i l p) = pv_idStore p" "pv_blocks (put_ledger i l p) i = kl_blockStore l"
  "pv_state (put_ledger i l p) i = tm_db (kl_txtmgmt l)" "pv_history (put_ledger i l p) i = kl_historyDB l"
  "pv_vstate (put_ledger i l p) = tm_vstate (kl_txtmgmt l)"
  by (simp_all add: put_ledger_def)

text \<open>The other ledgers of a provider are untouched.\<close>

definition same_others :: "bytes \<Rightarrow> ('s, 'db, 'i) Provider \<Rightarrow> ('s, 'db, 'i) Provider \<Rightarrow> bool" where
  "same_others i p q \<longleftrightarrow> (\<forall>j. j \<noteq> i \<longrightarrow> pv_blocks q j = pv_blocks p j \<and> pv_state q j = pv_state p j \<and> pv_history q j = pv_history p j)"

lemma same_others_put [simp]: "same_others i p (put_ledger i l p)"
  by (simp add: same_others_def put_ledger_def)

lemma same_others_ids [simp]:
  "same_others i p (q\<lparr>pv_idStore := s\<rparr>) \<longleftrightarrow> same_others i p q" "same_others i (p\<lparr>pv_idStore := s\<rparr>) q \<longleftrightarrow> same_others i p q"
  by (simp_all add: same_others_def)

lemma same_others_trans: "same_others i p q \<Longrightarrow> same_others i q r \<Longrightarrow> same_others i p r"
  by (simp add: same_others_def)

lemma ledger_at_disk_put [simp]: "ledger_at env bl W (disk_ledger (put_ledger i l p) i) n \<longleftrightarrow> ledger_at env bl W l n"
  by (rule ledger_at_stores) (simp_all add: disk_ledger_def NewLockBasedTxMgr_def)

lemma disk_ledger_ids [simp]: "disk_ledger (p\<lparr>pv_idStore := s\<rparr>) i = disk_ledger p i"
  by (simp add: disk_ledger_def)

lemma kl_blockStore_disk [simp]: "kl_blockStore (disk_ledger p i) = pv_blocks p i"
  by (simp add: disk_ledger_def)

text \<open>A new ledger: no blocks, empty databases, a genesis block that can be committed.\<close>

definition creatable ::
    "('s, 'db, 'i) prov_env \<Rightarrow> ('s \<Rightarrow> Block list) \<Rightarrow> ('i \<Rightarrow> bytes \<rightharpoonup> bytes)
     \<Rightarrow> Block \<Rightarrow> TxRwSet list \<Rightarrow> bytes \<Rightarrow> ('s, 'db, 'i) Provider \<Rightarrow> bool" where
  "creatable env chain lk gb ts i p \<longleftrightarrow> pe_GetChainIDFromBlock env gb = Inr i \<and> i \<noteq> [] \<and> i \<notin> ledger_ids (lk (pv_idStore p))
     \<and> chain (pv_blocks p i) = [] \<and> ledger_at (pe_kvl env) [] (\<lambda>_ _ _. None) (disk_ledger p i) (\<lambda>_. 0)
     \<and> fresh_block (pe_kvl env) (pv_state p i) gb ts \<and> blk_Number gb = 0 \<and> he_enabled (ke_hist (pe_kvl env))"

text \<open>
  What a crash during the creation can leave: the flag is set; the block store is empty and the
  databases untouched, or it holds the genesis block and each database is before or after its commit.
\<close>

definition crash_disk ::
    "('s \<Rightarrow> Block list) \<Rightarrow> ('i \<Rightarrow> bytes \<rightharpoonup> bytes) \<Rightarrow> bytes \<Rightarrow> ('s, 'db, 'i) Provider \<Rightarrow> ('s, 'db, 'i) Provider \<Rightarrow> ('s, 'db, 'i) Provider \<Rightarrow> bool" where
  "crash_disk chain lk i p p' q \<longleftrightarrow> lk (pv_idStore q) = (lk (pv_idStore p))(underConstructionLedgerKey \<mapsto> i) \<and> same_others i p q
     \<and> (chain (pv_blocks q i) = [] \<and> pv_state q i = pv_state p i \<and> pv_history q i = pv_history p i
        \<or> chain (pv_blocks q i) = chain (pv_blocks p' i) \<and> pv_state q i \<in> {pv_state p i, pv_state p' i}
          \<and> pv_history q i \<in> {pv_history p i, pv_history p' i})"

locale provider_ok = kv: kvledger_ok "pe_kvl env" chain + ids: id_db "pe_ids env" lk
  for env :: "('s, 'db, 'i) prov_env" and chain :: "'s \<Rightarrow> Block list" and lk :: "'i \<Rightarrow> bytes \<rightharpoonup> bytes" +
  assumes open_store: "\<exists>s'. pe_OpenBlockStore env i s = Inr s' \<and> chain s' = chain s"
    and marshal: "\<exists>b. pe_Marshal env gb = Inr b"
begin

lemma open_ok:
  assumes "chain_ok (pe_kvl env) (chain (pv_blocks p i)) tss W" "ledger_at (pe_kvl env) (chain (pv_blocks p i)) W (disk_ledger p i) n"
    and "\<forall>r. n r \<le> length (chain (pv_blocks p i))" "he_enabled (ke_hist (pe_kvl env))"
  shows "\<exists>l. openInternal env i p = Inr (l, put_ledger i l p) \<and> chain (kl_blockStore l) = chain (pv_blocks p i)
    \<and> ledger_at (pe_kvl env) (chain (pv_blocks p i)) W l (\<lambda>_. length (chain (pv_blocks p i)))
    \<and> (chain (pv_blocks p i) = [] \<longrightarrow> tm_db (kl_txtmgmt l) = pv_state p i)"
proof -
  obtain s where s: "pe_OpenBlockStore env i (pv_blocks p i) = Inr s" "chain s = chain (pv_blocks p i)"
    using open_store by blast
  define l0 where "l0 = (disk_ledger p i)\<lparr>kl_blockStore := s\<rparr>"
  have c: "chain (kl_blockStore l0) = chain (pv_blocks p i)" by (simp add: l0_def s(2))
  have "ledger_at (pe_kvl env) (chain (pv_blocks p i)) W l0 n"
    using assms(2) ledger_at_stores [of l0 "disk_ledger p i"] by (simp add: l0_def)
  then obtain l where l: "recoverDBs (pe_kvl env) l0 = Inr l" "kl_blockStore l = kl_blockStore l0"
    "ledger_at (pe_kvl env) (chain (pv_blocks p i)) W l (\<lambda>_. length (chain (pv_blocks p i)))"
    using kv.recoverDBs_ok [of l0 tss W n] assms unfolding c by blast
  have "newKVLedger (pe_kvl env) i s (pv_state p i) (pv_history p i) (pv_vstate p) = Inr l"
    using l(1) by (simp add: newKVLedger_def l0_def disk_ledger_def)
  then have "openInternal env i p = Inr (l, put_ledger i l p)" by (simp add: openInternal_def s(1))
  moreover have "tm_db (kl_txtmgmt l) = pv_state p i" if "chain (pv_blocks p i) = []"
    using l(1) kv.info [of s] that s(2)
    by (auto simp: recoverDBs_def l0_def disk_ledger_def NewLockBasedTxMgr_def)
  ultimately show ?thesis using l(2,3) c by metis
qed

text \<open>
  The start of the provider completes or undoes the creation that a crash interrupted: a ledger
  without its genesis block is forgotten, one with it is entered in the list.
\<close>

lemma recover_construction:
  assumes "lk (pv_idStore p) underConstructionLedgerKey = Some i" "i \<noteq> []" "i \<notin> ledger_ids (lk (pv_idStore p))"
    and "chain_ok (pe_kvl env) (chain (pv_blocks p i)) tss W" "ledger_at (pe_kvl env) (chain (pv_blocks p i)) W (disk_ledger p i) n"
    and "\<forall>r. n r \<le> length (chain (pv_blocks p i))" "he_enabled (ke_hist (pe_kvl env))" "length (chain (pv_blocks p i)) \<le> 1"
  shows "\<exists>p'. NewProvider env p = Inr p' \<and> same_others i p p' \<and> chain (pv_blocks p' i) = chain (pv_blocks p i)
    \<and> ledger_at (pe_kvl env) (chain (pv_blocks p i)) W (disk_ledger p' i) (\<lambda>_. length (chain (pv_blocks p i)))
    \<and> lk (pv_idStore p') = (if chain (pv_blocks p i) = [] then (lk (pv_idStore p))(underConstructionLedgerKey := None)
         else (lk (pv_idStore p))(encodeLedgerKey i \<mapsto> [], underConstructionLedgerKey := None))"
proof -
  obtain l where l: "openInternal env i p = Inr (l, put_ledger i l p)" "chain (kl_blockStore l) = chain (pv_blocks p i)"
    "ledger_at (pe_kvl env) (chain (pv_blocks p i)) W l (\<lambda>_. length (chain (pv_blocks p i)))"
    using open_ok [OF assms(4-7)] by blast
  have h: "GetBlockchainInfo (pe_kvl env) l = Inr (of_nat (length (chain (pv_blocks p i))))"
    using kv.info [of "kl_blockStore l"] l(2) by (simp add: GetBlockchainInfo_def)
  note start = NewProvider_def recoverUnderConstructionLedger_def Let_def ids.flag_eq assms(1,2) l(1) h
  show ?thesis
  proof (cases "chain (pv_blocks p i) = []")
    case True
    obtain s where s: "unsetUnderConstructionFlag (pe_ids env) (pv_idStore p) = Inr s"
      "lk s = (lk (pv_idStore p))(underConstructionLedgerKey := None)"
      using ids.delete unfolding unsetUnderConstructionFlag_def by blast
    have "NewProvider env p = Inr (put_ledger i l p\<lparr>pv_idStore := s\<rparr>)"
      using True s(1) by (simp add: start runCleanup_def)
    then show ?thesis using True l(2,3) s(2) by simp
  next
    case False
    then have one: "length (chain (pv_blocks p i)) = 1" using assms(8) by (cases "chain (pv_blocks p i)") auto
    then have "GetBlockByNumber (pe_kvl env) l 0 = Inr (chain (pv_blocks p i) ! 0)"
      using kv.retrieve [of 0 "kl_blockStore l"] l(2) by (simp add: GetBlockByNumber_def)
    moreover obtain s where "createLedgerID (pe_ids env) (pe_Marshal env) i (chain (pv_blocks p i) ! 0) (pv_idStore p) = Inr s"
      "lk s = (lk (pv_idStore p))(encodeLedgerKey i \<mapsto> [], underConstructionLedgerKey := None)"
      using ids.create_id [OF assms(3)] marshal by metis
    ultimately show ?thesis using False one l(2,3) by (simp add: start)
  qed
qed

lemma create_ok:
  assumes "creatable env chain lk gb ts i p"
  shows "\<exists>l p' gb' W. Create env gb p = Inr (Inr l, p') \<and> same_others i p p' \<and> chain (pv_blocks p' i) = [gb']
    \<and> blk_Data gb' = blk_Data gb \<and> lk (pv_idStore p') = (lk (pv_idStore p))(encodeLedgerKey i \<mapsto> [], underConstructionLedgerKey := None)
    \<and> W 0 = (\<lambda>_ _. None) \<and> chain_ok (pe_kvl env) [gb'] [ts] W \<and> ledger_at (pe_kvl env) [gb'] W (disk_ledger p' i) (\<lambda>_. 1)"
proof -
  have a: "pe_GetChainIDFromBlock env gb = Inr i" "i \<notin> ledger_ids (lk (pv_idStore p))" "chain (pv_blocks p i) = []"
    "ledger_at (pe_kvl env) [] (\<lambda>_ _ _. None) (disk_ledger p i) (\<lambda>_. 0)" "fresh_block (pe_kvl env) (pv_state p i) gb ts"
    "blk_Number gb = 0" "he_enabled (ke_hist (pe_kvl env))"
    using assms by (simp_all add: creatable_def)
  obtain s where s: "setUnderConstructionFlag (pe_ids env) i (pv_idStore p) = Inr s"
    "lk s = (lk (pv_idStore p))(underConstructionLedgerKey \<mapsto> i)"
    using ids.put unfolding setUnderConstructionFlag_def by blast
  define q where "q = p\<lparr>pv_idStore := s\<rparr>"
  have q: "chain (pv_blocks q i) = []" "ledger_at (pe_kvl env) (chain (pv_blocks q i)) (\<lambda>_ _ _. None) (disk_ledger q i) (\<lambda>_. 0)"
    "\<forall>r. 0 \<le> length (chain (pv_blocks q i))" "chain_ok (pe_kvl env) (chain (pv_blocks q i)) [] (\<lambda>_ _ _. None)" "pv_state q i = pv_state p i"
    using a(3,4) by (simp_all add: q_def chain_ok_def)
  obtain l where l: "openInternal env i q = Inr (l, put_ledger i l q)" "chain (kl_blockStore l) = []"
    "ledger_at (pe_kvl env) [] (\<lambda>_ _ _. None) l (\<lambda>_. 0)" "tm_db (kl_txtmgmt l) = pv_state p i"
    using open_ok [OF q(4,2) _ a(7)] q(1,5) by auto
  obtain l' gb' W where c: "kl_Commit (pe_kvl env) gb l = Inr (None, l')" "chain (kl_blockStore l') = [gb']"
    "blk_Data gb' = blk_Data gb" "W 0 = (\<lambda>_ _. None)" "chain_ok (pe_kvl env) [gb'] [ts] W" "ledger_at (pe_kvl env) [gb'] W l' (\<lambda>_. 1)"
    using kv.Commit_synced [of l "[]" "\<lambda>_ _ _. None" gb ts] l(2-4) q(1,4) a(5-7) by auto
  have "i \<notin> ledger_ids (lk s)" using a(2) s(2) by (simp add: ledger_ids_def)
  then obtain s' where s': "createLedgerID (pe_ids env) (pe_Marshal env) i gb s = Inr s'"
    "lk s' = (lk s)(encodeLedgerKey i \<mapsto> [], underConstructionLedgerKey := None)"
    using ids.create_id marshal by metis
  define p' where "p' = put_ledger i l' (put_ledger i l q)\<lparr>pv_idStore := s'\<rparr>"
  have "Create env gb p = Inr (Inr l', p')"
    using a(1,2) s(1) l(1) c(1) s'(1) by (simp add: Create_def Let_def ids.exists_eq q_def p'_def)
  moreover have "same_others i p p'"
    unfolding p'_def q_def by (simp add: same_others_def put_ledger_def)
  moreover have "lk (pv_idStore p') = (lk (pv_idStore p))(encodeLedgerKey i \<mapsto> [], underConstructionLedgerKey := None)"
    using s(2) s'(2) by (simp add: p'_def fun_eq_iff)
  ultimately show ?thesis using c by (intro exI [of _ l'] exI [of _ p'] exI [of _ gb'] exI [of _ W]) (simp add: p'_def)
qed

lemma create_crash:
  assumes "creatable env chain lk gb ts i p" "Create env gb p = Inr (Inr l, p')" "crash_disk chain lk i p p' q"
  shows "\<exists>q'. NewProvider env q = Inr q' \<and> same_others i p q'
    \<and> (if chain (pv_blocks q i) = [] then lk (pv_idStore q') = (lk (pv_idStore p))(underConstructionLedgerKey := None)
       else lk (pv_idStore q') = lk (pv_idStore p') \<and> chain (pv_blocks q' i) = chain (pv_blocks p' i)
         \<and> (\<forall>ns k. ns_ok ns \<and> ns \<noteq> ''qscc'' \<longrightarrow>
              dlook (ldb_view (ke_ops (pe_kvl env)) (ke_codec (pe_kvl env)) (pv_state q' i)) ns k
              = dlook (ldb_view (ke_ops (pe_kvl env)) (ke_codec (pe_kvl env)) (pv_state p' i)) ns k))"
proof -
  obtain gb' W where c: "chain (pv_blocks p' i) = [gb']" "W 0 = (\<lambda>_ _. None)" "chain_ok (pe_kvl env) [gb'] [ts] W"
    "ledger_at (pe_kvl env) [gb'] W (disk_ledger p' i) (\<lambda>_. 1)"
    "lk (pv_idStore p') = (lk (pv_idStore p))(encodeLedgerKey i \<mapsto> [], underConstructionLedgerKey := None)"
    using create_ok [OF assms(1)] assms(2) by auto
  have a: "i \<noteq> []" "i \<notin> ledger_ids (lk (pv_idStore p))" "ledger_at (pe_kvl env) [] (\<lambda>_ _ _. None) (disk_ledger p i) (\<lambda>_. 0)"
    "he_enabled (ke_hist (pe_kvl env))"
    using assms(1) by (simp_all add: creatable_def)
  have q: "lk (pv_idStore q) underConstructionLedgerKey = Some i" "i \<notin> ledger_ids (lk (pv_idStore q))" "same_others i p q"
    using assms(3) a(2) by (simp_all add: crash_disk_def ledger_ids_def)
  show ?thesis
  proof (cases "chain (pv_blocks q i) = []")
    case True
    then have e: "pv_state q i = pv_state p i" "pv_history q i = pv_history p i"
      using assms(3) c(1) by (auto simp: crash_disk_def)
    have "ledger_at (pe_kvl env) (chain (pv_blocks q i)) (\<lambda>_ _ _. None) (disk_ledger q i) (\<lambda>_. 0)"
      using a(3) True e ledger_at_stores [of "disk_ledger q i" "disk_ledger p i"]
      by (simp add: disk_ledger_def NewLockBasedTxMgr_def)
    then obtain q' where "NewProvider env q = Inr q'" "same_others i q q'" "lk (pv_idStore q') = (lk (pv_idStore q))(underConstructionLedgerKey := None)"
      using recover_construction [OF q(1) a(1) q(2), of "[]" "\<lambda>_ _ _. None" "\<lambda>_. 0"] True a(4) by (auto simp: chain_ok_def)
    then show ?thesis using True assms(3) q(3) same_others_trans by (auto simp: crash_disk_def)
  next
    case False
    then have e: "chain (pv_blocks q i) = [gb']" "pv_state q i \<in> {pv_state p i, pv_state p' i}" "pv_history q i \<in> {pv_history p i, pv_history p' i}"
      using assms(3) c(1) by (auto simp: crash_disk_def)
    define n where "n r = (case r of RTxMgr \<Rightarrow> if pv_state q i = pv_state p' i then 1 else 0
      | RHistory \<Rightarrow> if pv_history q i = pv_history p' i then 1 else (0 :: nat))" for r
    have at: "ledger_at (pe_kvl env) (chain (pv_blocks q i)) W (disk_ledger q i) n"
      using a(3) c(2,4) e
      by (auto simp: ledger_at_def Let_def disk_ledger_def NewLockBasedTxMgr_def n_def)
    have n: "\<forall>r. n r \<le> length (chain (pv_blocks q i))" by (simp add: n_def e(1) split: recoverable.split)
    obtain q' where q': "NewProvider env q = Inr q'" "same_others i q q'" "chain (pv_blocks q' i) = [gb']"
      "ledger_at (pe_kvl env) [gb'] W (disk_ledger q' i) (\<lambda>_. 1)"
      "lk (pv_idStore q') = (lk (pv_idStore q))(encodeLedgerKey i \<mapsto> [], underConstructionLedgerKey := None)"
      using recover_construction [OF q(1) a(1) q(2) _ at n a(4), of "[ts]"] c(3) e(1) by auto
    then have "lk (pv_idStore q') = lk (pv_idStore p')" using c(5) assms(3) by (simp add: crash_disk_def fun_eq_iff)
    moreover have "same_others i p q'" using q(3) q'(2) same_others_trans by blast
    ultimately show ?thesis
      using False q'(1,3,4) c(1,4) by (simp add: ledger_at_def Let_def disk_ledger_def NewLockBasedTxMgr_def)
  qed
qed

lemma create_exists:
  assumes "pe_GetChainIDFromBlock env gb = Inr i" "i \<in> ledger_ids (lk (pv_idStore p))"
  shows "Create env gb p = Inr (Inl ErrLedgerIDExists, p)"
  using assms by (simp add: Create_def Let_def ids.exists_eq)

text \<open>
  A genesis block whose commit is refused with an error leaves the flag set: from then on the ids
  cannot be listed.
\<close>

lemma create_refused_blocks_list:
  assumes "pe_GetChainIDFromBlock env gb = Inr i" "i \<notin> ledger_ids (lk (pv_idStore p))" "id_keys_ok (lk (pv_idStore p))"
    and "Create env gb p = Inr (Inl (Err e), p')" "openInternal env i (p\<lparr>pv_idStore := s\<rparr>) = Inr (l, q)"
    and "setUnderConstructionFlag (pe_ids env) i (pv_idStore p) = Inr s"
  shows "prov_List env n p' = Inl OutOfFuel"
proof -
  obtain d where d: "setUnderConstructionFlag (pe_ids env) i (pv_idStore p) = Inr d" "lk d = (lk (pv_idStore p))(underConstructionLedgerKey \<mapsto> i)"
    using ids.put unfolding setUnderConstructionFlag_def by blast
  have s: "lk s = (lk (pv_idStore p))(underConstructionLedgerKey \<mapsto> i)" using d assms(6) by simp
  have "pv_idStore q = s" using assms(5) by (auto simp: openInternal_def res_bind_def split: sum.splits)
  then have "pv_idStore p' = s"
    using assms(1,2,4-6) by (auto simp: Create_def Let_def ids.exists_eq res_bind_def split: sum.splits option.splits)
  then show ?thesis unfolding prov_List_def using s assms(3) by (intro ids.list_stuck) (auto simp: id_keys_ok_def)
qed

end

text \<open>The promises can be kept: lists of blocks and sorted association lists.\<close>

definition list_penv :: "hist_env \<Rightarrow> (Block \<Rightarrow> bytes res) \<Rightarrow> (Block list, memdb, memdb) prov_env" where
  "list_penv h chainID = \<lparr>pe_kvl = list_env h, pe_ids = mem_iddb, pe_OpenBlockStore = (\<lambda>_ s. Inr s),
     pe_GetChainIDFromBlock = chainID, pe_Marshal = (\<lambda>_. Inr [])\<rparr>"

lemma list_penv_simps [simp]:
  "pe_kvl (list_penv h chainID) = list_env h" "pe_ids (list_penv h chainID) = mem_iddb"
  "pe_OpenBlockStore (list_penv h chainID) i s = Inr s" "pe_GetChainIDFromBlock (list_penv h chainID) = chainID"
  "pe_Marshal (list_penv h chainID) gb = Inr []"
  by (simp_all add: list_penv_def)

interpretation list_pv: provider_ok "list_penv h chainID" "\<lambda>s. s" mem_get for h chainID
  by (intro provider_ok.intro provider_ok_axioms.intro)
    (simp_all add: list_kl.kvledger_ok_axioms mem_ids.id_db_axioms)

section \<open>No ledger is open twice\<close>

text \<open>The calls the peer makes, one after another: the package lock serialises them.\<close>

inductive mg_step :: "('s, 'db, 'i) prov_env \<Rightarrow> ('s, 'db, 'i) mgmt \<Rightarrow> ('s, 'db, 'i) mgmt \<Rightarrow> bool" for env where
  create: "CreateLedger env gb m = Inr (r, m') \<Longrightarrow> mg_step env m m'"
| open_step: "OpenLedger env ledgerID m = Inr (r, m') \<Longrightarrow> mg_step env m m'"
| closing: "mg_step env m (closableLedger_Close ledgerID m)"
| commit: "mg_Commit env ledgerID block m = Inr (e, m') \<Longrightarrow> mg_step env m m'"

inductive mg_reachable :: "('s, 'db, 'i) prov_env \<Rightarrow> ('s, 'db, 'i) Provider \<Rightarrow> ('s, 'db, 'i) mgmt \<Rightarrow> bool" for env disk where
  init: "mg_initialize env disk = Inr m \<Longrightarrow> mg_reachable env disk m"
| step: "mg_reachable env disk m \<Longrightarrow> mg_step env m m' \<Longrightarrow> mg_reachable env disk m'"

definition mg_inv :: "('i \<Rightarrow> bytes \<rightharpoonup> bytes) \<Rightarrow> ('s, 'db, 'i) mgmt \<Rightarrow> bool" where
  "mg_inv lk m \<longleftrightarrow> mg_initialized m \<and> (\<exists>p opened. mg_provider m = Some p \<and> mg_opened m = Some opened
     \<and> (\<forall>i l. opened i = Some l \<longrightarrow> i \<in> ledger_ids (lk (pv_idStore p)) \<and> pv_blocks p i = kl_blockStore l
          \<and> pv_state p i = tm_db (kl_txtmgmt l) \<and> pv_history p i = kl_historyDB l))"

lemma openInternal_put:
  assumes "openInternal env i p = Inr (l, q)"
  shows "q = put_ledger i l p"
  using assms by (auto simp: openInternal_def res_bind_def split: sum.splits)

context provider_ok
begin

lemma create_any:
  assumes "Create env gb p = Inr (r, p')" "pe_GetChainIDFromBlock env gb = Inr i"
  shows "same_others i p p' \<and> ledger_ids (lk (pv_idStore p)) \<subseteq> ledger_ids (lk (pv_idStore p'))
    \<and> (i \<in> ledger_ids (lk (pv_idStore p)) \<longrightarrow> p' = p \<and> r = Inl ErrLedgerIDExists)
    \<and> (\<forall>l. r = Inr l \<longrightarrow> i \<in> ledger_ids (lk (pv_idStore p')) \<and> pv_blocks p' i = kl_blockStore l
         \<and> pv_state p' i = tm_db (kl_txtmgmt l) \<and> pv_history p' i = kl_historyDB l)"
proof (cases "i \<in> ledger_ids (lk (pv_idStore p))")
  case True
  then have "p' = p" "r = Inl ErrLedgerIDExists" using create_exists [OF assms(2)] assms(1) by simp_all
  then show ?thesis by (simp add: same_others_def)
next
  case False
  obtain s where s: "setUnderConstructionFlag (pe_ids env) i (pv_idStore p) = Inr s"
    "lk s = (lk (pv_idStore p))(underConstructionLedgerKey \<mapsto> i)"
    using ids.put unfolding setUnderConstructionFlag_def by blast
  obtain s0 where s0: "unsetUnderConstructionFlag (pe_ids env) s = Inr s0" "lk s0 = (lk s)(underConstructionLedgerKey := None)"
    using ids.delete unfolding unsetUnderConstructionFlag_def by blast
  have "i \<notin> ledger_ids (lk s)" using False s(2) by (simp add: ledger_ids_def)
  then obtain s1 where s1: "createLedgerID (pe_ids env) (pe_Marshal env) i gb s = Inr s1"
    "lk s1 = (lk s)(encodeLedgerKey i \<mapsto> [], underConstructionLedgerKey := None)"
    using ids.create_id marshal by metis
  have ids: "ledger_ids (lk s) = ledger_ids (lk (pv_idStore p))" "ledger_ids (lk s0) = ledger_ids (lk (pv_idStore p))"
    "ledger_ids (lk s1) = insert i (ledger_ids (lk (pv_idStore p)))"
    using s(2) s0(2) s1(2) by (auto simp: ledger_ids_def)
  show ?thesis
  proof (cases "openInternal env i (p\<lparr>pv_idStore := s\<rparr>)")
    case (Inl e)
    then have "\<exists>m. r = Inl (Err m) \<and> p' = p\<lparr>pv_idStore := s0\<rparr>"
      using assms False s(1) s0(1) by (cases e) (auto simp: Create_def Let_def ids.exists_eq runCleanup_def)
    then show ?thesis using False ids by (auto simp: same_others_def)
  next
    case (Inr lq)
    obtain l where lq: "lq = (l, put_ledger i l (p\<lparr>pv_idStore := s\<rparr>))"
      using openInternal_put Inr by (metis surj_pair)
    obtain err l' where c: "kl_Commit (pe_kvl env) gb l = Inr (err, l')"
      using assms False s(1) Inr lq by (cases "kl_Commit (pe_kvl env) gb l") (auto simp: Create_def Let_def ids.exists_eq)
    have "case err of Some e \<Rightarrow> r = Inl e \<and> p' = put_ledger i l' (put_ledger i l (p\<lparr>pv_idStore := s\<rparr>))
      | None \<Rightarrow> r = Inr l' \<and> p' = put_ledger i l' (put_ledger i l (p\<lparr>pv_idStore := s\<rparr>))\<lparr>pv_idStore := s1\<rparr>"
      using assms False s(1) Inr lq c s1(1) by (auto simp: Create_def Let_def ids.exists_eq split: option.splits)
    then show ?thesis using False ids by (cases err) (auto simp: same_others_def put_ledger_def)
  qed
qed

lemma mg_step_inv:
  assumes "mg_step env m m'" "mg_inv lk m"
  shows "mg_inv lk m'"
proof -
  obtain p opened where m: "mg_initialized m" "mg_provider m = Some p" "mg_opened m = Some opened"
    "\<forall>i l. opened i = Some l \<longrightarrow> i \<in> ledger_ids (lk (pv_idStore p)) \<and> pv_blocks p i = kl_blockStore l
          \<and> pv_state p i = tm_db (kl_txtmgmt l) \<and> pv_history p i = kl_historyDB l"
    using assms(2) by (auto simp: mg_inv_def)
  show ?thesis using assms(1)
  proof cases
    case (create gb r)
    show ?thesis
    proof (cases "pe_GetChainIDFromBlock env gb")
      case (Inl e)
      then show ?thesis using create assms(2) m(1) by (cases e) (auto simp: CreateLedger_def)
    next
      case (Inr i)
      obtain r' p' where c: "Create env gb p = Inr (r', p')"
        using create m(1,2) Inr by (cases "Create env gb p") (auto simp: CreateLedger_def)
      note any = create_any [OF c Inr]
      show ?thesis
      proof (cases r')
        case (Inl e)
        then have m': "m' = m\<lparr>mg_provider := Some p'\<rparr>" using create m(1,2) Inr c by (auto simp: CreateLedger_def)
        have "opened i = None" if "p' \<noteq> p" using any that m(4) by (cases "opened i") auto
        then have i: "p' = p \<or> j \<noteq> i" if "opened j = Some l" for j l using that by auto
        have "j \<in> ledger_ids (lk (pv_idStore p')) \<and> pv_blocks p' j = kl_blockStore l
          \<and> pv_state p' j = tm_db (kl_txtmgmt l) \<and> pv_history p' j = kl_historyDB l" if "opened j = Some l" for j l
          using i [OF that] m(4) [rule_format, OF that] any by (elim disjE) (auto simp: same_others_def)
        with m(1,3) show ?thesis unfolding m' mg_inv_def by simp
      next
        case (Inr l)
        then have "m' = m\<lparr>mg_provider := Some p', mg_opened := Some (opened(i \<mapsto> l))\<rparr>"
          using create m(1-3) \<open>pe_GetChainIDFromBlock env gb = Inr i\<close> c by (auto simp: CreateLedger_def set_opened_def)
        with any m Inr show ?thesis unfolding mg_inv_def same_others_def by (auto split: if_splits)
      qed
    qed
  next
    case (open_step i r)
    show ?thesis
    proof (cases "opened i = None \<and> is_ok (Open env i p)")
      case False
      then have "m' = m" using open_step m(1-3)
        by (cases "Open env i p" rule: sum.exhaust) (auto simp: OpenLedger_def is_ok_def res_try_def split: error.splits if_splits option.splits)
      then show ?thesis using assms(2) by simp
    next
      case True
      then obtain l q where o: "Open env i p = Inr (l, q)" by (cases "Open env i p") (auto simp: is_ok_def)
      then have i: "i \<in> ledger_ids (lk (pv_idStore p))" "q = put_ledger i l p"
        using openInternal_put by (auto simp: Open_def ids.exists_eq split: if_splits)
      have "m' = m\<lparr>mg_provider := Some q, mg_opened := Some (opened(i \<mapsto> l))\<rparr>"
        using open_step True o m(1-3) by (auto simp: OpenLedger_def set_opened_def)
      with i m show ?thesis unfolding mg_inv_def put_ledger_def by (auto split: if_splits)
    qed
  next
    case (closing i)
    then show ?thesis using m by (auto simp: closableLedger_Close_def closeWithoutLock_def mg_inv_def split: if_splits)
  next
    case (commit i block e)
    then obtain l where l: "opened i = Some l" using m(2,3) by (cases "opened i") (auto simp: mg_Commit_def)
    then obtain l' where "m' = m\<lparr>mg_opened := Some (opened(i \<mapsto> l')), mg_provider := Some (put_ledger i l' p)\<rparr>"
      using commit m(2,3) by (auto simp: mg_Commit_def res_bind_def split: sum.splits)
    with l m show ?thesis unfolding mg_inv_def put_ledger_def by (auto split: if_splits)
  qed
qed

lemma mg_reachable_inv: "mg_reachable env disk m \<Longrightarrow> mg_inv lk m"
proof (induction rule: mg_reachable.induct)
  case (init m)
  then show ?case by (auto simp: mg_initialize_def mg_inv_def res_bind_def split: sum.splits)
next
  case (step m m')
  then show ?case using mg_step_inv by blast
qed

end

end
