(* ===== verification/Counters.thy ===== *)
theory Counters
  imports Commit "HOL-Library.Multiset"
begin

text \<open>
  The computed writes of \<^verbatim>\<open>calWriteSet\<close> (\<^verbatim>\<open>state_based_validator.go\<close>): a write to
  \<^verbatim>\<open>__CAL_ADD_k\<close> adds to the number under \<^verbatim>\<open>k\<close> instead of replacing it, so that transactions of one
  block that only add do not read and do not conflict. The number is an int64: additions wrap.

  Results: any sequence of additions leaves under every key the old number plus the sum of what was
  added to it, modulo \<open>2^64\<close>, independently of the order (\<open>adds_sum\<close>, \<open>adds_perm\<close>).
\<close>

definition counter :: "val_env \<Rightarrow> bytes \<Rightarrow> nsUpdates \<Rightarrow> nsUpdates \<Rightarrow> bytes \<Rightarrow> int" where
  "counter env ns mapUpdates mapCals k =
     (case gm_get mapCals k of
        Some vv \<Rightarrow> cal_value vv
      | None \<Rightarrow> (case gm_get mapUpdates k of
          Some vv \<Rightarrow> cal_value vv
        | None \<Rightarrow> (case db_read env ns k of Some vv \<Rightarrow> cal_value vv | None \<Rightarrow> 0)))"

definition add_of :: "bytes \<times> int \<Rightarrow> KVWrite" where
  "add_of kd = \<lparr>wr_Key = ''__CAL_ADD_'' @ fst kd, wr_IsDelete = False, wr_Value = Some (FormatInt (snd kd))\<rparr>"

definition sum_for :: "bytes \<Rightarrow> (bytes \<times> int) list \<Rightarrow> int" where
  "sum_for k kds = sum_list (map snd (filter (\<lambda>kd. fst kd = k) kds))"

lemma cal_value_Format: "is_i64 v \<Longrightarrow> cal_value (vv\<lparr>vv_Value := Some (FormatInt v)\<rparr>) = v"
  by (simp add: cal_value_def str_of_def ParseInt_FormatInt)

lemma cal_value_i64: "is_i64 (cal_value vv)"
  using ParseInt_i64 [of "str_of (vv_Value vv)"]
  by (auto simp: cal_value_def Let_def case_prod_beta is_i64_def i64_min_def i64_max_def)

lemma counter_i64: "is_i64 (counter env ns mu mc k)"
  by (auto simp: counter_def cal_value_i64 is_i64_def [of 0] i64_min_def i64_max_def split: option.splits)

lemma split_on_no_sep: "c \<notin> set s \<Longrightarrow> split_on c s = [s]"
  by (induction s) auto

lemma zero_value [simp]: "cal_value \<lparr>vv_Value = Some ''0'', vv_Version = v\<rparr> = 0"
proof -
  have "FormatInt 0 = ''0''" by code_simp
  then have "ParseInt ''0'' = (0, False)" using ParseInt_FormatInt [of 0] by (simp add: is_i64_def i64_min_def i64_max_def)
  then show ?thesis by (simp add: cal_value_def str_of_def)
qed

lemma cal_step_add:
  assumes "CHR '','' \<notin> set k" "is_i64 d"
  shows "\<exists>vv. cal_step env ns vh (''ADD_'' @ k) (Some (FormatInt d)) (mu, mc) = Inr (gm_del k mu, gm_put k vv mc)
    \<and> cal_value vv = wrap64 (counter env ns mu mc k + d)"
proof -
  define ex where "ex = (case (case gm_get mc k of Some vv \<Rightarrow> Some vv
     | None \<Rightarrow> (case gm_get mu k of Some vv \<Rightarrow> Some vv | None \<Rightarrow> db_read env ns k)) of
       None \<Rightarrow> \<lparr>vv_Value = Some ''0'', vv_Version = vh\<rparr> | Some vv \<Rightarrow> vv)"
  define vv where "vv = ex\<lparr>vv_Value := Some (FormatInt (wrap64 (cal_value ex + d)))\<rparr>"
  have ex: "cal_value ex = counter env ns mu mc k"
    by (simp add: ex_def counter_def split: option.split)
  have m: "EqualFold ''ADD'' ''ADD''" "\<not> EqualFold ''ADD'' ''MUL''" by code_simp+
  have "cal_step env ns vh (''ADD_'' @ k) (Some (FormatInt d)) (mu, mc) = Inr (gm_del k mu, gm_put k vv mc)"
    using assms m
    by (simp add: cal_step_def slice_to_def slice_from_def split_on_no_sep str_of_def ParseInt_FormatInt Let_def
        vv_def ex_def cong: option.case_cong)
  moreover have "cal_value vv = wrap64 (counter env ns mu mc k + d)"
    unfolding vv_def ex by (rule cal_value_Format) (rule wrap64_i64)
  ultimately show ?thesis by blast
qed

lemma cal_write_add:
  assumes "CHR '','' \<notin> set k" "is_i64 d"
  shows "\<exists>mu' mc'. cal_write env ns vh (mu, mc, rl, st) (add_of (k, d)) = Inr (mu', mc', rl, st)
    \<and> (\<forall>k'. counter env ns mu' mc' k' = (if k' = k then wrap64 (counter env ns mu mc k + d) else counter env ns mu mc k'))"
proof -
  obtain vv where vv: "cal_step env ns vh (''ADD_'' @ k) (Some (FormatInt d)) (mu, mc) = Inr (gm_del k mu, gm_put k vv mc)"
    "cal_value vv = wrap64 (counter env ns mu mc k + d)"
    using cal_step_add [OF assms, of env ns vh mu mc] by blast
  have "cal_write env ns vh (mu, mc, rl, st) (add_of (k, d)) = Inr (gm_del k mu, gm_put k vv mc, rl, st)"
    using vv(1) by (simp add: cal_write_def add_of_def CAL_PREFIX_def RLIST_PREFIX_def HasPrefix_def)
  moreover have "counter env ns (gm_del k mu) (gm_put k vv mc) k' =
      (if k' = k then wrap64 (counter env ns mu mc k + d) else counter env ns mu mc k')" for k'
    using vv(2) by (simp add: counter_def cong: option.case_cong)
  ultimately show ?thesis by blast
qed

lemma adds_sum:
  assumes "\<forall>kd \<in> set kds. CHR '','' \<notin> set (fst kd) \<and> is_i64 (snd kd)"
  shows "\<exists>mu' mc'. foldM (cal_write env ns vh) (mu, mc, rl, st) (map add_of kds) = Inr (mu', mc', rl, st)
    \<and> (\<forall>k. counter env ns mu' mc' k = wrap64 (counter env ns mu mc k + sum_for k kds))"
  using assms
proof (induction kds arbitrary: mu mc)
  case Nil
  show ?case using counter_i64 by (intro exI [of _ mu] exI [of _ mc]) (simp add: sum_for_def)
next
  case (Cons kd kds)
  obtain k d where kd: "kd = (k, d)" by (cases kd)
  obtain mu1 mc1 where s: "cal_write env ns vh (mu, mc, rl, st) (add_of (k, d)) = Inr (mu1, mc1, rl, st)"
    "\<forall>k'. counter env ns mu1 mc1 k' = (if k' = k then wrap64 (counter env ns mu mc k + d) else counter env ns mu mc k')"
    using cal_write_add [of k d env ns vh mu mc rl st] Cons.prems kd by auto
  obtain mu' mc' where r: "foldM (cal_write env ns vh) (mu1, mc1, rl, st) (map add_of kds) = Inr (mu', mc', rl, st)"
    "\<forall>k. counter env ns mu' mc' k = wrap64 (counter env ns mu1 mc1 k + sum_for k kds)"
    using Cons.IH [of mu1 mc1] Cons.prems by auto
  have "counter env ns mu' mc' k' = wrap64 (counter env ns mu mc k' + sum_for k' (kd # kds))" for k'
    using s(2) r(2) by (simp add: kd sum_for_def wrap64_add_wrap algebra_simps)
  then show ?case using s(1) r(1) by (simp add: kd)
qed

lemma sum_for_perm: "mset kds = mset kds' \<Longrightarrow> sum_for k kds = sum_for k kds'"
proof -
  assume "mset kds = mset kds'"
  then have "mset (map snd (filter (\<lambda>kd. fst kd = k) kds)) = mset (map snd (filter (\<lambda>kd. fst kd = k) kds'))" by simp
  then show ?thesis unfolding sum_for_def sum_mset_sum_list [symmetric] by (rule arg_cong)
qed

section \<open>Additions through validation\<close>

lemma digit_not_hash: "is_digit c \<Longrightarrow> c \<noteq> CHR ''#''"
  by (auto simp: is_digit_def)

lemma str_index_first: "str_index s p \<noteq> None \<Longrightarrow> p \<noteq> [] \<Longrightarrow> hd p \<in> set s"
proof (induction s)
  case (Cons x xs)
  show ?case
  proof (cases "HasPrefix (x # xs) p")
    case True
    then show ?thesis using Cons.prems(2) by (cases p) (auto simp: HasPrefix_def)
  next
    case False
    then show ?thesis using Cons by auto
  qed
qed simp

lemma FormatInt_chars: "c \<in> set (FormatInt d) \<Longrightarrow> c = CHR ''-'' \<or> is_digit c"
  using nat_str_digits by (auto simp: FormatInt_def split: if_splits)

lemma add_no_rcount: "\<not> str_contains (FormatInt d) RCOUNT"
proof
  assume "str_contains (FormatInt d) RCOUNT"
  then have "CHR ''#'' \<in> set (FormatInt d)"
    using str_index_first [of "FormatInt d" RCOUNT] by (simp add: str_contains_def RCOUNT_def)
  then show False using FormatInt_chars digit_not_hash by fastforce
qed

lemma rcount_adds: "rcount_writes env ns vh mc (map add_of kds) = (mc, map add_of kds)"
  by (induction kds) (simp_all add: rcount_write_def add_of_def str_of_def add_no_rcount)

lemma GetUpdates_create [simp]: "GetUpdates (fst (GetOrCreateNsUpdates b ns)) ns' = GetUpdates b ns'"
  by (auto simp: GetOrCreateNsUpdates_def GetUpdates_def split: option.split)

lemma GetUpdates_set [simp]:
  "GetUpdates (set_ns_updates ns m b) ns' = (if ns' = ns then m else GetUpdates b ns')"
  "GetUpdates (set_ns_cals ns m b) = GetUpdates b" "GetUpdates (set_ns_rlists ns r b) = GetUpdates b"
  "GetUpdates (fst (GetOrCreateNsCals b ns)) = GetUpdates b" "GetUpdates (fst (GetOrCreateNsRLists b ns)) = GetUpdates b"
  by (auto simp: set_ns_updates_def GetUpdates_def fun_eq_iff intro!: batch_cong(3) [unfolded GetUpdates_def fun_eq_iff, rule_format])

abbreviation batch_counter :: "val_env \<Rightarrow> UpdateBatch \<Rightarrow> bytes \<Rightarrow> bytes \<Rightarrow> int" where
  "batch_counter env upd ns k \<equiv> counter env ns (GetUpdates upd ns) (GetCals upd ns) k"

lemma calWriteSet_adds:
  assumes "\<forall>kd \<in> set kds. CHR '','' \<notin> set (fst kd) \<and> is_i64 (snd kd)"
  shows "\<exists>upd'. calWriteSet env ns (map add_of kds) (upd, st) = Inr (map add_of kds, upd', st)
    \<and> (\<forall>k. batch_counter env upd' ns k = wrap64 (batch_counter env upd ns k + sum_for k kds))"
proof -
  define u where "u = fst (GetOrCreateNsRLists (fst (GetOrCreateNsCals (fst (GetOrCreateNsUpdates upd ns)) ns)) ns)"
  have u: "GetUpdates u ns = GetUpdates upd ns" "GetCals u ns = GetCals upd ns" "GetRLists u ns = GetRLists upd ns" by (simp_all add: u_def)
  obtain mu mc where m: "foldM (cal_write env ns (save_point env)) (GetUpdates u ns, GetCals u ns, GetRLists u ns, st)
      (map add_of kds) = Inr (mu, mc, GetRLists u ns, st)"
    "\<forall>k. counter env ns mu mc k = wrap64 (counter env ns (GetUpdates u ns) (GetCals u ns) k + sum_for k kds)"
    using adds_sum [OF assms] by blast
  let ?u' = "set_ns_rlists ns (GetRLists u ns) (set_ns_cals ns mc (set_ns_updates ns mu u))"
  have "calWriteSet env ns (map add_of kds) (upd, st) = Inr (map add_of kds, ?u', st)"
    using m(1) unfolding u by (simp add: calWriteSet_def Let_def u_def [symmetric] rcount_adds)
  then show ?thesis using m(2) u by auto
qed

text \<open>A namespace of a transaction that only adds.\<close>

definition adds_ns :: "bytes \<Rightarrow> (bytes \<times> int) list \<Rightarrow> NsRwSet" where
  "adds_ns ns kds = \<lparr>NameSpace = ns, KvRwSet = \<lparr>kvrw_Reads = [], kvrw_Writes = map add_of kds, kvrw_RangeQueriesInfo = []\<rparr>\<rparr>"

text \<open>
  Adding never conflicts; but what a transaction added stays in the batch when a later namespace of
  the same transaction is in conflict.
\<close>

lemma adds_valid:
  assumes "\<forall>kd \<in> set kds. CHR '','' \<notin> set (fst kd) \<and> is_i64 (snd kd)"
  shows "\<exists>upd'. validateTx env [adds_ns ns kds] (upd, st) = Inr (VALID, [adds_ns ns kds], upd', st)
    \<and> (\<forall>k. batch_counter env upd' ns k = wrap64 (batch_counter env upd ns k + sum_for k kds))"
  using calWriteSet_adds [OF assms, of env ns upd st] by (auto simp: adds_ns_def)

lemma adds_before_conflict:
  assumes "\<forall>kd \<in> set kds. CHR '','' \<notin> set (fst kd) \<and> is_i64 (snd kd)" "versionedDB_ok (v_db env)" "ns_ok (NameSpace n)"
    and "r \<in> set (kvrw_Reads (KvRwSet n))" "version_of (dlook (v_db env) (NameSpace n) (rd_Key r)) \<noteq> NewVersion (rd_Version r)"
  shows "\<exists>upd'. validateTx env [adds_ns ns kds, n] (upd, st) = Inr (MVCC_READ_CONFLICT, [adds_ns ns kds, n], upd', st)
    \<and> (\<forall>k. batch_counter env upd' ns k = wrap64 (batch_counter env upd ns k + sum_for k kds))"
proof -
  have "\<not> validateReadSet env (NameSpace n) (kvrw_Reads (KvRwSet n)) u" for u
  proof -
    have "\<not> read_ok env u (NameSpace n) r"
      using assms(5) by (auto simp: read_ok_def cur_state_def overlay_def split: option.splits)
    then show ?thesis using validateReadSet_spec [OF assms(2,3)] assms(4) by blast
  qed
  then show ?thesis using calWriteSet_adds [OF assms(1), of env ns upd st] by (auto simp: adds_ns_def)
qed

text \<open>At the end of the block the computed values go where no other write of the block went.\<close>

lemma move_cals_fold:
  assumes "gm_ok cs"
  shows "gm_get (fst (foldl (\<lambda>(m, n) (k, vv). if gm_get m k = None then (gm_put k vv m, n + 1) else (m, n)) (m, n) cs)) k =
    (case gm_get m k of Some vv \<Rightarrow> Some vv | None \<Rightarrow> gm_get cs k)"
  using assms
proof (induction cs arbitrary: m n)
  case (Cons c cs)
  obtain k' vv where c: "c = (k', vv)" by (cases c)
  have "gm_ok cs" "gm_get cs k' = None" using Cons.prems by (auto simp: c map_of_eq_None_iff)
  then show ?case using Cons.IH by (auto simp: c split: option.split)
qed (simp split: option.split)

lemma move_cals_get:
  assumes "gm_ok (GetCals upd ns)"
  shows "batch_Get (move_cals upd ns) ns k =
    (case batch_Get upd ns k of Some vv \<Rightarrow> Some vv | None \<Rightarrow> gm_get (GetCals upd ns) k)"
  using move_cals_fold [OF assms, of "GetUpdates upd ns" _ k]
  by (simp add: move_cals_def Let_def case_prod_beta GetUpdates_get [symmetric])

text \<open>
  Recovery does not compute: a replayed transaction of additions is accepted and writes nothing.
\<close>

lemma add_writes_nothing: "foldM (add_write ns h) upd (map add_of kds) = Inr upd"
  by (induction kds) (simp_all add: add_write_def add_of_def CAL_PREFIX_def HasPrefix_def)

lemma replay_loses_adds:
  assumes "\<forall>kd \<in> set kds. CHR '','' \<notin> set (fst kd) \<and> is_i64 (snd kd)"
    and "pu_GetActionFromEnvelope env e = Inr r" "FromProtoBytes (ve_codec env) (ca_Results r) = Inr [adds_ns ns kds]"
  shows "(\<exists>upd'. validateEndorserTX env e True (upd, st) = Inr (Some [adds_ns ns kds], VALID, upd', st)
      \<and> addWriteSetToBatch [adds_ns ns kds] h upd' = Inr upd'
      \<and> (\<forall>k. batch_counter env upd' ns k = wrap64 (batch_counter env upd ns k + sum_for k kds)))
    \<and> validateEndorserTX env e False (upd, st) = Inr (Some [adds_ns ns kds], VALID, upd, st)
    \<and> addWriteSetToBatch [adds_ns ns kds] h upd = Inr upd"
proof -
  obtain upd' where v: "validateTx env [adds_ns ns kds] (upd, st) = Inr (VALID, [adds_ns ns kds], upd', st)"
    "\<forall>k. batch_counter env upd' ns k = wrap64 (batch_counter env upd ns k + sum_for k kds)"
    using adds_valid [OF assms(1)] by blast
  have w: "addWriteSetToBatch [adds_ns ns kds] h u = Inr u" for u
    by (simp add: addWriteSetToBatch_def adds_ns_def add_writes_nothing)
  have "validateEndorserTX env e True (upd, st) = Inr (Some [adds_ns ns kds], VALID, upd', st)"
    using v(1) assms(2,3) by (simp add: validateEndorserTX_def)
  moreover have "validateEndorserTX env e False (upd, st) = Inr (Some [adds_ns ns kds], VALID, upd, st)"
    using assms(2,3) by (simp add: validateEndorserTX_def)
  ultimately show ?thesis using v(2) w by blast
qed

end
