(* ===== verification/Sessions.thy ===== *)
theory Sessions
  imports Commit
begin

text \<open>
  The transaction manager under concurrent use (\<^verbatim>\<open>lockbased_txmgr.go\<close>, \<^verbatim>\<open>helper.go\<close>): simulators and
  query executors hold the read lock of \<^verbatim>\<open>commitRWLock\<close> from their creation to \<^verbatim>\<open>Done\<close>, \<^verbatim>\<open>Commit\<close> holds the
  write lock. An interleaving is a sequence of steps of \<open>tm_step\<close>: opening a session, one access of an
  open session, \<open>Done\<close>, and the steps of the committer. The step of a commit is possible only without
  readers. Every session carries, as a ghost value, the database contents at its opening.

  Results: the lock counts the open sessions (\<open>lock_inv\<close>); as long as a session is open the database is
  the one it started with; the read set a simulator collects, whatever runs in between, is the one of a
  single state, that of its opening (\<open>snapshot_inv\<close>); hence a transaction whose keys were not written
  since its simulation began passes the check of its reads.
\<close>

record 'db session =
  se_helper :: queryHelper
  se_opened :: 'db

record 'db tm_system =
  sy_tm :: "'db LockBasedTxMgr"
  sy_sessions :: "'db session list"

datatype access =
    AGet bytes bytes
  | AGetMany bytes "bytes list"
  | ARange bytes bytes bytes
  | ANext nat
  | ASet bytes bytes slice
  | ADelete bytes bytes

text \<open>One call on an open session against the database as it is; the answer is dropped.\<close>

definition run_access :: "tm_env \<Rightarrow> access \<Rightarrow> queryHelper \<Rightarrow> queryHelper res" where
  "run_access env a h =
     (case a of
        AGet ns key \<Rightarrow> res_bind (getState env h ns key) (\<lambda>(_, h). Inr h)
      | AGetMany ns keys \<Rightarrow> res_bind (getStateMultipleKeys env h ns keys) (\<lambda>(_, h). Inr h)
      | ARange ns s e \<Rightarrow> res_bind (getStateRangeScanIterator env h ns s e) (\<lambda>(_, h). Inr h)
      | ANext i \<Rightarrow> res_bind (itr_Next env i h) (\<lambda>(_, h). Inr h)
      | ASet ns key val \<Rightarrow> SetState env h ns key val
      | ADelete ns key \<Rightarrow> DeleteState env h ns key)"

definition open_session :: "queryHelper \<times> 'db LockBasedTxMgr \<Rightarrow> 'db tm_system \<Rightarrow> 'db tm_system" where
  "open_session r s = \<lparr>sy_tm = snd r, sy_sessions = sy_sessions s @ [\<lparr>se_helper = fst r, se_opened = tm_db (snd r)\<rparr>]\<rparr>"

definition set_helper :: "nat \<Rightarrow> queryHelper \<Rightarrow> 'db tm_system \<Rightarrow> 'db tm_system" where
  "set_helper i h s = s\<lparr>sy_sessions := (sy_sessions s)[i := (sy_sessions s ! i)\<lparr>se_helper := h\<rparr>]\<rparr>"

text \<open>\<^verbatim>\<open>Done\<close> releases the read lock unless it was called before.\<close>

definition release :: "nat \<Rightarrow> 'db tm_system \<Rightarrow> 'db tm_system" where
  "release i s = (if qh_done (se_helper (sy_sessions s ! i)) then s
     else s\<lparr>sy_tm := (sy_tm s)\<lparr>tm_readers := tm_readers (sy_tm s) - 1\<rparr>\<rparr>)"

inductive tm_step ::
    "'db leveldb \<Rightarrow> codec \<Rightarrow> tm_env \<Rightarrow> val_env \<Rightarrow> 'db tm_system \<Rightarrow> 'db tm_system \<Rightarrow> bool" for ops c tenv venv where
  executor: "tm_step ops c tenv venv s (open_session (tm_NewQueryExecutor (sy_tm s)) s)"
| simulator: "tm_step ops c tenv venv s (open_session (tm_NewTxSimulator (sy_tm s)) s)"
| access: "i < length (sy_sessions s) \<Longrightarrow>
    run_access (tenv_at ops c tenv (tm_db (sy_tm s))) a (se_helper (sy_sessions s ! i)) = Inr h \<Longrightarrow>
    tm_step ops c tenv venv s (set_helper i h s)"
| finish: "i < length (sy_sessions s) \<Longrightarrow>
    qh_Done (tenv_at ops c tenv (tm_db (sy_tm s))) (se_helper (sy_sessions s ! i)) = Inr h \<Longrightarrow>
    tm_step ops c tenv venv s (set_helper i h (release i s))"
| prepare: "ValidateAndPrepare ops c venv block mvcc (sy_tm s) = Inr (block', tm) \<Longrightarrow>
    tm_step ops c tenv venv s (s\<lparr>sy_tm := tm\<rparr>)"
| rollback: "tm_step ops c tenv venv s (s\<lparr>sy_tm := tm_Rollback (sy_tm s)\<rparr>)"
| commit: "tm_readers (sy_tm s) = 0 \<Longrightarrow> tm_Commit ops c (sy_tm s) = Inr (e, tm) \<Longrightarrow>
    tm_step ops c tenv venv s (s\<lparr>sy_tm := tm\<rparr>)"

inductive tm_reachable ::
    "'db leveldb \<Rightarrow> codec \<Rightarrow> tm_env \<Rightarrow> val_env \<Rightarrow> 'db tm_system \<Rightarrow> bool" for ops c tenv venv where
  start: "tm_reachable ops c tenv venv \<lparr>sy_tm = NewLockBasedTxMgr db st, sy_sessions = []\<rparr>"
| next_step: "tm_reachable ops c tenv venv s \<Longrightarrow> tm_step ops c tenv venv s s' \<Longrightarrow> tm_reachable ops c tenv venv s'"

section \<open>The lock\<close>

definition open_count :: "'db tm_system \<Rightarrow> nat" where
  "open_count s = length (filter (\<lambda>x. \<not> qh_done (se_helper x)) (sy_sessions s))"

definition lock_inv :: "'db tm_system \<Rightarrow> bool" where
  "lock_inv s \<longleftrightarrow> tm_readers (sy_tm s) = open_count s"

text \<open>The reads a builder has recorded are those of one database state.\<close>

definition reads_match :: "versionedDB \<Rightarrow> RWSetBuilder \<Rightarrow> bool" where
  "reads_match db b \<longleftrightarrow> (\<forall>ns k r. gm_get (readMap (ns_of b ns)) k = Some r \<longrightarrow>
     rd_Key r = k \<and> NewVersion (rd_Version r) = version_of (dlook db ns k))"

definition session_ok :: "'db leveldb \<Rightarrow> codec \<Rightarrow> 'db \<Rightarrow> 'db session \<Rightarrow> bool" where
  "session_ok ops c db x \<longleftrightarrow> (qh_done (se_helper x) \<or> se_opened x = db)
     \<and> (\<forall>b. qh_rwset (se_helper x) = Some b \<longrightarrow> reads_match (ldb_view ops c (se_opened x)) b)"

definition snapshot_inv :: "'db leveldb \<Rightarrow> codec \<Rightarrow> 'db tm_system \<Rightarrow> bool" where
  "snapshot_inv ops c s \<longleftrightarrow> lock_inv s \<and> (\<forall>x \<in> set (sy_sessions s). session_ok ops c (tm_db (sy_tm s)) x)"

lemma add_read_match:
  assumes "\<forall>b. qh_rwset h = Some b \<longrightarrow> reads_match db b" "ver = version_of (dlook db ns k)"
  shows "\<forall>b. qh_rwset (add_read h ns k ver) = Some b \<longrightarrow> reads_match db b"
  using assms
  by (auto simp: add_read_def reads_match_def ns_of_AddToReadSet NewKVRead_def split: option.splits if_splits)

lemma add_read_done [simp]: "qh_done (add_read h ns k ver) = qh_done h"
  by (simp add: add_read_def split: option.split)

lemma dlook_read:
  assumes "db_GetState db ns k = Inr vv"
  shows "snd (decomposeVersionedValue vv) = version_of (dlook db ns k)"
  using assms by (simp add: dlook_def decomposeVersionedValue_def version_of_def split: option.split)

lemma qh_rlist_keeps:
  assumes "qh_rlist env h ns name = Inr (p, h')"
  shows "qh_rwset h' = qh_rwset h \<and> qh_done h' = qh_done h"
  using assms by (auto simp: qh_rlist_def Let_def res_bind_Inr_conv split: option.splits)

lemma getState_rlist_keeps:
  assumes "getState_rlist env h ns s = Inr (v, h')"
  shows "qh_rwset h' = qh_rwset h \<and> qh_done h' = qh_done h"
  using assms qh_rlist_keeps
  by (fastforce simp: getState_rlist_def Let_def res_bind_Inr_conv case_prod_beta split: if_splits)

lemma add_reads_match:
  assumes "\<forall>b. qh_rwset h = Some b \<longrightarrow> reads_match db b" "length vvs = length keys"
    and "\<forall>i < length keys. db_GetState db ns (keys ! i) = Inr (vvs ! i)"
    and "h' = foldl (\<lambda>h (key, vv). add_read h ns key (snd (decomposeVersionedValue vv))) h (zip keys vvs)"
  shows "(\<forall>b. qh_rwset h' = Some b \<longrightarrow> reads_match db b) \<and> qh_done h' = qh_done h"
  using assms
proof (induction keys arbitrary: vvs h)
  case (Cons k keys)
  obtain vv rest where v: "vvs = vv # rest" "length rest = length keys" using Cons.prems(2) by (cases vvs) auto
  have "db_GetState db ns k = Inr vv" "\<forall>i < length keys. db_GetState db ns (keys ! i) = Inr (rest ! i)"
    using Cons.prems(3) v(1) by (auto simp: nth_Cons' split: if_splits)
  then show ?case
    using Cons.IH [of "add_read h ns k (snd (decomposeVersionedValue vv))" rest] Cons.prems(1,4) v
      add_read_match [OF Cons.prems(1), of _ ns k] dlook_read by auto
qed simp

lemma mapM_nth: "mapM f xs = Inr ys \<Longrightarrow> length ys = length xs \<and> (\<forall>i < length xs. f (xs ! i) = Inr (ys ! i))"
  by (induction xs arbitrary: ys) (auto simp: res_bind_Inr_conv nth_Cons' less_Suc_eq_0_disj)

lemma write_match:
  "reads_match db b \<Longrightarrow> reads_match db (AddToWriteSet b ns k v)"
  by (simp add: reads_match_def ns_of_AddToWriteSet)

lemma run_access_ok:
  assumes "run_access env a h = Inr h'" "\<forall>b. qh_rwset h = Some b \<longrightarrow> reads_match (te_vdb env) b"
  shows "(\<forall>b. qh_rwset h' = Some b \<longrightarrow> reads_match (te_vdb env) b) \<and> qh_done h' = qh_done h"
proof (cases a)
  case (AGet ns k)
  show ?thesis
  proof (cases "HasPrefix k RLIST_PREFIX")
    case True
    then show ?thesis using assms AGet getState_rlist_keeps
      by (fastforce simp: run_access_def getState_def res_bind_Inr_conv)
  next
    case False
    then obtain vv where "db_GetState (te_vdb env) ns k = Inr vv" "h' = add_read h ns k (snd (decomposeVersionedValue vv))"
      using assms(1) AGet by (auto simp: run_access_def getState_def res_bind_Inr_conv case_prod_beta)
    then show ?thesis using add_read_match [OF assms(2)] dlook_read by auto
  qed
next
  case (AGetMany ns ks)
  then consider "h' = h" | vvs where "mapM (db_GetState (te_vdb env) ns) ks = Inr vvs"
    "h' = foldl (\<lambda>h (key, vv). add_read h ns key (snd (decomposeVersionedValue vv))) h (zip ks vvs)"
    using assms(1) by (auto simp: run_access_def getStateMultipleKeys_def res_bind_Inr_conv split: sum.splits)
  then show ?thesis
  proof cases
    case 2
    then show ?thesis using add_reads_match [OF assms(2)] mapM_nth by blast
  qed (use assms(2) in simp)
next
  case (ARange ns s e)
  then show ?thesis using assms by (auto simp: run_access_def getStateRangeScanIterator_def res_bind_Inr_conv)
next
  case (ANext i)
  then show ?thesis using assms by (auto simp: run_access_def itr_Next_def res_bind_Inr_conv)
next
  case (ASet ns k v)
  then show ?thesis using assms write_match
    by (auto simp: run_access_def SetState_def res_bind_Inr_conv split: option.splits)
next
  case (ADelete ns k)
  then show ?thesis using assms write_match
    by (auto simp: run_access_def DeleteState_def SetState_def res_bind_Inr_conv split: option.splits)
qed

lemma run_access_done:
  assumes "run_access env a h = Inr h'" "qh_done h"
  shows "qh_rwset h' = qh_rwset h \<and> qh_done h'"
  using assms
  by (cases a) (auto simp: run_access_def getState_def getStateMultipleKeys_def getStateRangeScanIterator_def
      itr_Next_def DeleteState_def SetState_def checkDone_def res_bind_Inr_conv)

lemma ns_of_AddToRangeQuerySet [simp]: "readMap (ns_of (AddToRangeQuerySet b ns rqi) ns') = readMap (ns_of b ns')"
proof -
  obtain r n where g: "getOrCreateNsRW b ns = (r, n)" by force
  show ?thesis
    using getOrCreate_ns [OF g]
    by (auto simp: AddToRangeQuerySet_def g Let_def ns_of_def split: option.splits)
qed

lemma range_match: "reads_match db b \<Longrightarrow> reads_match db (AddToRangeQuerySet b ns rqi)"
  by (simp add: reads_match_def)

lemma done_itrs_match:
  assumes "done_itrs env itrs b = Inr (b', e)" "reads_match db b"
  shows "reads_match db b'"
  using assms
proof (induction itrs arbitrary: b)
  case (Cons itr itrs)
  then obtain helper results hash err where "helper_Done (te_merkle env) helper = Inr (results, hash, err)"
    and d: "(case err of Some e \<Rightarrow> Inr (b, Some e)
      | None \<Rightarrow> done_itrs env itrs (AddToRangeQuerySet b (ri_ns itr) (finish_itr results hash (ri_info itr)))) = Inr (b', e)"
    by (auto simp: res_bind_Inr_conv split: option.splits)
  then show ?case using Cons.IH range_match [OF Cons.prems(2)] Cons.prems(2) by (cases err) auto
qed simp

lemma qh_Done_ok:
  assumes "qh_Done env h = Inr h'" "\<forall>b. qh_rwset h = Some b \<longrightarrow> reads_match db b"
  shows "qh_done h' \<and> (\<forall>b. qh_rwset h' = Some b \<longrightarrow> reads_match db b)"
  using assms done_itrs_match
  by (auto simp: qh_Done_def res_bind_Inr_conv split: if_splits option.splits)

lemma count_update:
  assumes "i < length xs"
  shows "length (filter P (xs[i := y])) + (if P (xs ! i) then 1 else 0) = length (filter P xs) + (if P y then 1 else 0)"
  using assms
proof (induction xs arbitrary: i)
  case (Cons x xs)
  show ?case
  proof (cases i)
    case (Suc j)
    then show ?thesis using Cons.IH [of j] Cons.prems by (auto split: if_splits)
  qed simp
qed simp

lemma open_count_set:
  assumes "i < length (sy_sessions s)"
  shows "open_count (set_helper i h s) + (if qh_done (se_helper (sy_sessions s ! i)) then 0 else 1)
    = open_count s + (if qh_done h then 0 else 1)"
  using count_update [OF assms, of "\<lambda>x. \<not> qh_done (se_helper x)" "(sy_sessions s ! i)\<lparr>se_helper := h\<rparr>"]
  by (auto simp: open_count_def set_helper_def split: if_splits)

lemma all_set_helper:
  assumes "\<forall>x \<in> set (sy_sessions s). P x" "P ((sy_sessions s ! i)\<lparr>se_helper := h\<rparr>)"
  shows "\<forall>x \<in> set (sy_sessions (set_helper i h s)). P x"
  using assms set_update_subset_insert [of "sy_sessions s" i] by (auto simp: set_helper_def)

lemma set_helper_tm [simp]: "sy_tm (set_helper i h s) = sy_tm s"
  by (simp add: set_helper_def)

lemma release_simps [simp]:
  "sy_sessions (release i s) = sy_sessions s" "tm_db (sy_tm (release i s)) = tm_db (sy_tm s)"
  "open_count (release i s) = open_count s"
  "tm_readers (sy_tm (release i s)) = tm_readers (sy_tm s) - (if qh_done (se_helper (sy_sessions s ! i)) then 0 else 1)"
  by (simp_all add: release_def open_count_def)

lemma open_session_inv:
  assumes "snapshot_inv ops c s" "r = (h, (sy_tm s)\<lparr>tm_readers := tm_readers (sy_tm s) + 1\<rparr>)" "\<not> qh_done h"
    and "\<forall>b. qh_rwset h = Some b \<longrightarrow> b = NewRWSetBuilder"
  shows "snapshot_inv ops c (open_session r s)"
proof -
  have "reads_match db NewRWSetBuilder" for db
    by (simp add: reads_match_def ns_of_def NewRWSetBuilder_def newNsRWs_def)
  then show ?thesis
    using assms by (auto simp: snapshot_inv_def lock_inv_def open_count_def session_ok_def open_session_def)
qed

lemma tm_step_inv:
  assumes "tm_step ops c tenv venv s s'" "snapshot_inv ops c s"
  shows "snapshot_inv ops c s'"
  using assms(1)
proof cases
  case executor
  show ?thesis unfolding executor
    by (rule open_session_inv [OF assms(2)]) (auto simp: tm_NewQueryExecutor_def newQueryExecutor_def)
next
  case simulator
  show ?thesis unfolding simulator
    by (rule open_session_inv [OF assms(2)])
      (auto simp: tm_NewTxSimulator_def newLockBasedTxSimulator_def newQueryExecutor_def)
next
  case (access i a h)
  let ?x = "sy_sessions s ! i"
  have x: "session_ok ops c (tm_db (sy_tm s)) ?x" using assms(2) access(2) by (simp add: snapshot_inv_def)
  have h: "qh_done h = qh_done (se_helper ?x) \<and> (\<forall>b. qh_rwset h = Some b \<longrightarrow> reads_match (ldb_view ops c (se_opened ?x)) b)"
  proof (cases "qh_done (se_helper ?x)")
    case True
    then show ?thesis using run_access_done [OF access(3)] x by (auto simp: session_ok_def)
  next
    case False
    then have db: "se_opened ?x = tm_db (sy_tm s)" using x by (simp add: session_ok_def)
    then have "\<forall>b. qh_rwset (se_helper ?x) = Some b \<longrightarrow> reads_match (te_vdb (tenv_at ops c tenv (tm_db (sy_tm s)))) b"
      using x by (simp add: session_ok_def)
    from run_access_ok [OF access(3) this] db show ?thesis by simp
  qed
  have "open_count (set_helper i h s) = open_count s" using open_count_set [OF access(2), of h] h by (auto split: if_splits)
  moreover have "\<forall>y \<in> set (sy_sessions (set_helper i h s)). session_ok ops c (tm_db (sy_tm s)) y"
    by (rule all_set_helper) (use assms(2) x h in \<open>simp_all add: snapshot_inv_def session_ok_def\<close>)
  ultimately show ?thesis using assms(2) access(1) by (simp add: snapshot_inv_def lock_inv_def)
next
  case (finish i h)
  let ?x = "sy_sessions s ! i"
  have x: "session_ok ops c (tm_db (sy_tm s)) ?x" using assms(2) finish(2) by (simp add: snapshot_inv_def)
  have h: "qh_done h \<and> (\<forall>b. qh_rwset h = Some b \<longrightarrow> reads_match (ldb_view ops c (se_opened ?x)) b)"
    by (rule qh_Done_ok [OF finish(3)]) (use x in \<open>simp add: session_ok_def\<close>)
  have "open_count (set_helper i h (release i s)) = tm_readers (sy_tm (release i s))"
  proof -
    have "open_count (set_helper i h (release i s)) + (if qh_done (se_helper ?x) then 0 else 1) = open_count s"
      using open_count_set [of i "release i s" h] finish(2) h by simp
    moreover have "tm_readers (sy_tm s) = open_count s" using assms(2) by (simp add: snapshot_inv_def lock_inv_def)
    ultimately show ?thesis by (cases "qh_done (se_helper ?x)") simp_all
  qed
  moreover have "\<forall>y \<in> set (sy_sessions (set_helper i h (release i s))). session_ok ops c (tm_db (sy_tm s)) y"
    by (rule all_set_helper) (use assms(2) x h in \<open>simp_all add: snapshot_inv_def session_ok_def\<close>)
  ultimately show ?thesis using finish(1) by (simp add: snapshot_inv_def lock_inv_def)
next
  case (prepare block mvcc block' tm)
  then have "tm_db tm = tm_db (sy_tm s)" "tm_readers tm = tm_readers (sy_tm s)"
    by (auto simp: ValidateAndPrepare_def res_bind_Inr_conv)
  then show ?thesis using assms(2) prepare(1) by (simp add: snapshot_inv_def lock_inv_def open_count_def)
next
  case rollback
  then show ?thesis using assms(2) by (simp add: snapshot_inv_def lock_inv_def open_count_def tm_Rollback_def)
next
  case (commit e tm)
  then have "open_count s = 0" using assms(2) by (simp add: snapshot_inv_def lock_inv_def)
  then have "\<forall>x \<in> set (sy_sessions s). qh_done (se_helper x)" by (simp add: open_count_def filter_empty_conv)
  moreover have "tm_readers tm = tm_readers (sy_tm s)"
    using commit(3) by (auto simp: tm_Commit_def split: option.splits sum.splits error.splits)
  ultimately show ?thesis
    using assms(2) commit(1,2) by (auto simp: snapshot_inv_def lock_inv_def open_count_def session_ok_def)
qed

lemma tm_reachable_inv: "tm_reachable ops c tenv venv s \<Longrightarrow> snapshot_inv ops c s"
proof (induction rule: tm_reachable.induct)
  case (start db st)
  show ?case by (simp add: snapshot_inv_def lock_inv_def open_count_def NewLockBasedTxMgr_def)
next
  case (next_step s s')
  then show ?case using tm_step_inv by blast
qed

text \<open>The database does not change under an open session.\<close>

lemma open_session_db_fixed:
  assumes "tm_reachable ops c tenv venv s" "tm_step ops c tenv venv s s'" "i < length (sy_sessions s)"
    and "\<not> qh_done (se_helper (sy_sessions s ! i))"
  shows "tm_db (sy_tm s') = tm_db (sy_tm s) \<and> tm_db (sy_tm s) = se_opened (sy_sessions s ! i)"
proof -
  have inv: "snapshot_inv ops c s" using assms(1) by (rule tm_reachable_inv)
  have "session_ok ops c (tm_db (sy_tm s)) (sy_sessions s ! i)" using inv assms(3) by (simp add: snapshot_inv_def)
  moreover have r: "tm_readers (sy_tm s) \<noteq> 0"
  proof -
    have "sy_sessions s ! i \<in> set (filter (\<lambda>x. \<not> qh_done (se_helper x)) (sy_sessions s))" using assms(3,4) by simp
    then have "open_count s \<noteq> 0" unfolding open_count_def by (metis empty_iff empty_set length_0_conv)
    then show ?thesis using inv by (simp add: snapshot_inv_def lock_inv_def)
  qed
  moreover have "tm_db (sy_tm s') = tm_db (sy_tm s)" using assms(2)
    by cases (use r in \<open>auto simp: open_session_def tm_NewQueryExecutor_def tm_NewTxSimulator_def
        ValidateAndPrepare_def res_bind_Inr_conv tm_Rollback_def\<close>)
  ultimately show ?thesis using assms(4) by (simp add: session_ok_def)
qed

section \<open>From the simulation to the verdict\<close>

lemma results_reads:
  assumes "reads_match db b" "n \<in> set (GetTxReadWriteSet b)" "r \<in> set (kvrw_Reads (KvRwSet n))"
  shows "NewVersion (rd_Version r) = version_of (dlook db (NameSpace n) (rd_Key r))"
proof -
  obtain nr where "gm_get b (NameSpace n) = Some nr" "r \<in> set (List.map_filter (gm_get (readMap nr)) (GetSortedKeys (readMap nr)))"
    using assms(2,3) by (auto simp: GetTxReadWriteSet_def List.map_filter_def split: option.splits)
  then obtain k where "gm_get (readMap (ns_of b (NameSpace n))) k = Some r"
    by (auto simp: List.map_filter_def ns_of_def)
  with assms(1) show ?thesis by (auto simp: reads_match_def)
qed

text \<open>
  A read set collected by a session, against a database in which the keys it read have the versions they
  had at its opening, and a batch that does not write them.
\<close>

lemma simulated_reads_ok:
  assumes "tm_reachable ops c tenv venv s" "x \<in> set (sy_sessions s)" "qh_rwset (se_helper x) = Some b"
    and "n \<in> set (GetTxReadWriteSet b)" "versionedDB_ok (v_db env)" "ns_ok (NameSpace n)"
    and "\<forall>r \<in> set (kvrw_Reads (KvRwSet n)). version_of (dlook (v_db env) (NameSpace n) (rd_Key r))
      = version_of (dlook (ldb_view ops c (se_opened x)) (NameSpace n) (rd_Key r))"
    and "\<forall>r \<in> set (kvrw_Reads (KvRwSet n)). batch_Get upd (NameSpace n) (rd_Key r) = None"
  shows "validateReadSet env (NameSpace n) (kvrw_Reads (KvRwSet n)) upd"
proof -
  have "reads_match (ldb_view ops c (se_opened x)) b"
    using tm_reachable_inv [OF assms(1)] assms(2,3) by (auto simp: snapshot_inv_def session_ok_def)
  from results_reads [OF this assms(4)] assms(7,8)
  have "\<forall>r \<in> set (kvrw_Reads (KvRwSet n)). read_ok env upd (NameSpace n) r"
    by (simp add: read_ok_def cur_state_def overlay_def)
  then show ?thesis using validateReadSet_spec [OF assms(5,6)] by blast
qed

end
