(* ===== verification/Demo.thy ===== *)
theory Demo
  imports Provider Counters Sessions
begin

text \<open>
  Concrete instances for the witnesses: an environment in which an envelope is the encoded read-write
  set itself (the codec of \<open>Wire\<close>), the state database is the sorted association list of \<open>LevelDB\<close>, a
  block of two transactions that both read and write the key \<^verbatim>\<open>k\<close>, and the empty ledger it is
  committed to.
\<close>

definition demo_batch :: UpdateBatch where
  "demo_batch = batch_Delete (projr (batch_Put NewUpdateBatch ''cc'' ''k'' (Some ''v'') (Some (NewHeight 1 0))))
     ''cc'' ''j'' (Some (NewHeight 1 1))"

lemma demo_batch_storable: "batch_storable demo_batch"
  by (auto simp: demo_batch_def batch_storable_def batch_Delete_def batch_Put_def NewUpdateBatch_def
      GetOrCreateNsUpdates_def set_ns_updates_def batch_ok_def batch_Get_def ns_ok_def split: if_splits)

lemma demo_batch_ok: "batch_ok demo_batch"
  using demo_batch_storable by (simp add: batch_storable_def)

lemma ns_ok_cc [simp]: "ns_ok ''cc''"
  by (simp add: ns_ok_def)

definition demo_db :: versionedDB where
  "demo_db = ldb_view mem_ops lp_codec mem_empty"

lemma demo_db_ok: "versionedDB_ok demo_db"
  unfolding demo_db_def by (rule mem.view_ok) (rule mem_empty_stored)

lemma mem_empty_get [simp]: "ldb_Get mem_ops mem_empty k = Inr None"
  by (simp add: mem_ops_def)

lemma demo_db_empty [simp]: "dlook (ldb_view mem_ops c mem_empty) ns k = None"
  by (simp add: dlook_def ldb_view_def ldb_GetState_def)

definition demo_rl :: rl_env where
  "demo_rl = \<lparr>e_BUCKET_NUM = 4, e_grow = (\<lambda>old need. max (2 * old) need), e_marshal = (\<lambda>_. Some []),
     e_unmarshal = (\<lambda>_. \<lparr>ld_BucketId = [], ld_BucketSeqNo = 0, ld_ParentBucketId = [], ld_BucketListData = [],
       ld_IdList = [], ld_Size = 0\<rparr>), e_dbs = (\<lambda>_. demo_db)\<rparr>"

definition demo_chdr :: ChannelHeader where
  "demo_chdr = \<lparr>ch_Type = ENDORSER_TRANSACTION, ch_ChannelId = ''ch'', ch_TxId = ''tx'', ch_Timestamp = [], ch_Epoch = 0,
     ch_Extension = []\<rparr>"

definition demo_cc :: ChaincodeID where
  "demo_cc = \<lparr>cc_Path = [], cc_Name = ''rbccustomer'', cc_Version = ''1''\<rparr>"

definition demo_action :: "bytes \<Rightarrow> ChaincodeAction" where
  "demo_action e = \<lparr>ca_Results = e, ca_ChaincodeId = Some demo_cc\<rparr>"

text \<open>An envelope here is its read-write set, signed, from an invocation of the chaincode \<^verbatim>\<open>rbccustomer\<close>.\<close>

definition demo_utils :: proto_utils where
  "demo_utils = \<lparr>pu_GetEnvelopeFromBlock = (\<lambda>d. Inr \<lparr>en_Payload = Some d, en_Signature = Some ''sig''\<rparr>),
     pu_GetPayload = (\<lambda>e. Inr \<lparr>pl_Header = Some \<lparr>hd_ChannelHeader = [], hd_SignatureHeader = []\<rparr>, pl_Data = en_Payload e\<rparr>),
     pu_UnmarshalChannelHeader = (\<lambda>_. Inr demo_chdr),
     pu_GetSignatureHeader = (\<lambda>_. Inr \<lparr>sh_Creator = Some ''me'', sh_Nonce = Some ''1''\<rparr>),
     pu_GetHeader = (\<lambda>_. Inr \<lparr>hd_ChannelHeader = [], hd_SignatureHeader = []\<rparr>),
     pu_GetProposal = (\<lambda>_. Inr \<lparr>pp_Header = [], pp_Payload = []\<rparr>),
     pu_GetChaincodeHeaderExtension =
       (\<lambda>_. Inr \<lparr>hx_PayloadVisibility = None, hx_ChaincodeId = Some demo_cc\<rparr>),
     pu_GetTransaction = (\<lambda>e. Inr [Some \<lparr>ta_Header = [], ta_Payload = e\<rparr>]),
     pu_GetChaincodeActionPayload = (\<lambda>e. Inr \<lparr>cap_ChaincodeProposalPayload = [],
       cap_Action = Some \<lparr>ea_ProposalResponsePayload = Some e, ea_Endorsements = []\<rparr>\<rparr>),
     pu_GetChaincodeProposalPayload = Inr,
     pu_UnmarshalInvocationSpec = (\<lambda>_. Inr \<lparr>cis_ChaincodeSpec =
       Some \<lparr>cs_ChaincodeId = None, cs_Input = Some \<lparr>in_Args = [''set'']\<rparr>, cs_Desc = []\<rparr>\<rparr>),
     pu_UnmarshalChaincodeSpec = (\<lambda>_. Some ''cc''),
     pu_GetChaincodeDeploymentSpec = (\<lambda>_. Inr \<lparr>cds_ChaincodeSpec = None, cds_CodePackage = []\<rparr>),
     pu_GetProposalResponsePayload = (\<lambda>e. Inr \<lparr>prp_ProposalHash = [], prp_Extension = Some e\<rparr>),
     pu_GetChaincodeAction = (\<lambda>e. Inr (demo_action e)),
     pu_GetActionFromEnvelope = (\<lambda>e. Inr (demo_action e)),
     pu_GetPayloads = (\<lambda>a. Inr (demo_action (ta_Payload a)))\<rparr>"

definition demo_val :: val_env where
  "demo_val = proto_utils.extend demo_utils (val_env.fields demo_rl 20 ''ch'' id_env wire_codec int
     (\<lambda>c. if c = VALID then 0 else 1) (\<lambda>_. Some ''s'') (\<lambda>_. \<lparr>bs_Number = 0, bs_BlockTime = [], bs_List = []\<rparr>))"

lemmas demo_val_defs = demo_val_def demo_utils_def demo_chdr_def demo_action_def proto_utils.defs val_env.defs

definition demo_rw :: "ProtoVersion option \<Rightarrow> bytes \<Rightarrow> TxRwSet" where
  "demo_rw ver v = [\<lparr>NameSpace = ''cc'', KvRwSet = \<lparr>kvrw_Reads = [\<lparr>rd_Key = ''k'', rd_Version = ver\<rparr>],
     kvrw_Writes = [\<lparr>wr_Key = ''k'', wr_IsDelete = False, wr_Value = Some v\<rparr>], kvrw_RangeQueriesInfo = []\<rparr>\<rparr>]"

definition demo_enc :: "TxRwSet \<Rightarrow> bytes" where
  "demo_enc t = projr (ToProtoBytes wire_codec t)"

definition demo_ts :: "TxRwSet list" where
  "demo_ts = [demo_rw None ''a'', demo_rw None ''b'']"

definition demo_block :: Block where
  "demo_block = \<lparr>blk_Number = 0, blk_Data = map demo_enc demo_ts, blk_TxFilter = []\<rparr>"

definition demo_st :: vstate where
  "demo_st = \<lparr>g_rListCache = None, g_curBlockStatistics = None, g_heap = empty_rheap, g_ticks = 0\<rparr>"

definition demo_hist :: hist_env where
  "demo_hist = \<lparr>he_val = demo_val, he_enabled = True\<rparr>"

definition demo_ledger :: "(Block list, memdb) kvLedger" where
  "demo_ledger = \<lparr>kl_ledgerID = ''ch'', kl_blockStore = [], kl_txtmgmt = NewLockBasedTxMgr mem_empty demo_st,
     kl_historyDB = mem_empty\<rparr>"

definition demo_disk :: "(Block list, memdb, memdb) Provider" where
  "demo_disk = \<lparr>pv_idStore = mem_empty, pv_blocks = (\<lambda>_. []), pv_state = (\<lambda>_. mem_empty), pv_history = (\<lambda>_. mem_empty),
     pv_vstate = demo_st\<rparr>"

abbreviation demo_env :: "(Block list, memdb) kvl_env" where
  "demo_env \<equiv> list_env demo_hist"

abbreviation demo_penv :: "(Block list, memdb, memdb) prov_env" where
  "demo_penv \<equiv> list_penv demo_hist (\<lambda>_. Inr ''ch'')"

lemma demo_vdb [simp]: "v_db demo_val = demo_db"
  by (simp add: v_db_def demo_val_defs demo_rl_def)

lemma demo_wire:
  assumes "t \<in> set demo_ts"
  shows "FromProtoBytes wire_codec (demo_enc t) = Inr t"
proof -
  have "\<exists>b. ToProtoBytes wire_codec t = Inr b"
    using assms by (auto simp: demo_ts_def demo_rw_def ToProtoBytes_def wire_codec_def)
  then obtain b where b: "ToProtoBytes wire_codec t = Inr b" ..
  have "\<forall>n \<in> set t. no_empty_value (KvRwSet n)"
    using assms by (auto simp: demo_ts_def demo_rw_def no_empty_value_def)
  from wire.proto_roundtrip [OF this b] b show ?thesis by (simp add: demo_enc_def)
qed

lemma demo_user: "t \<in> set demo_ts \<Longrightarrow> user_tx env t" "t \<in> set demo_ts \<Longrightarrow> plain_tx t"
  by (auto simp: demo_ts_def demo_rw_def user_tx_def plain_tx_def plain_write_def is_ok_def HasPrefix_def
      CAL_PREFIX_def RLIST_PREFIX_def str_contains_def RCOUNT_def str_of_def)

lemma demo_good: "t \<in> set demo_ts \<Longrightarrow> good_tx (env_at ops c demo_val db) (demo_enc t) t"
  unfolding good_tx_def using demo_user(1) demo_wire
  by (simp add: env_at_def demo_val_defs stat_func_def index_at_def is_ok_def)

lemma demo_good_val: "t \<in> set demo_ts \<Longrightarrow> good_tx demo_val (demo_enc t) t"
  unfolding good_tx_def using demo_user(1) demo_wire
  by (simp add: demo_val_defs stat_func_def index_at_def is_ok_def)

lemma demo_block_simps [simp]:
  "blk_Number demo_block = 0" "blk_Data demo_block = map demo_enc demo_ts" "blk_TxFilter demo_block = []"
  "length demo_ts = 2" "demo_ts \<noteq> []" "initial_flags demo_block = [VALID, VALID]"
  by (simp_all add: demo_block_def demo_ts_def initial_flags_def NewTxValidationFlags_def numeral_2_eq_2)

lemma demo_nth: "j < 2 \<Longrightarrow> demo_ts ! j \<in> set demo_ts"
  by simp

lemma demo_keys: "t \<in> set demo_ts \<Longrightarrow> (ns, k) \<in> rw_keys t \<Longrightarrow> ns_ok ns \<and> CHR 0x00 \<notin> set k"
  by (auto simp: demo_ts_def demo_rw_def rw_keys_def)

lemma rw_keys_UN: "rw_keys t = (\<Union>n \<in> set t. Pair (NameSpace n) ` wr_Key ` set (kvrw_Writes (KvRwSet n)))"
  by (auto simp: rw_keys_def)

lemma demo_key: "t \<in> set demo_ts \<Longrightarrow> (''cc'', ''k'') \<in> rw_keys t"
  by (auto simp: rw_keys_UN demo_ts_def demo_rw_def)

lemma demo_endorser: "t \<in> set demo_ts \<Longrightarrow> endorser_rwset demo_val (demo_enc t) = Inr (Some t)"
  using demo_wire [of t] by (simp add: endorser_rwset_def demo_val_defs)

lemma demo_log: "log_ok (block_log demo_val demo_block)"
proof -
  have "ns_ok ns \<and> CHR 0x00 \<notin> set k" if l: "(ns, k, h) \<in> block_log demo_val demo_block" for ns k h
  proof -
    from l obtain i t where i: "i < 2" "endorser_rwset demo_val (demo_enc (demo_ts ! i)) = Inr (Some t)" "(ns, k) \<in> rw_keys t"
      by (auto simp: block_log_def log_from_def)
    then have "t = demo_ts ! i" using demo_endorser [OF demo_nth [OF i(1)]] by simp
    with i(3) demo_nth [OF i(1)] show ?thesis using demo_keys by blast
  qed
  then show ?thesis unfolding log_ok_def by blast
qed

lemma demo_fresh: "fresh_block demo_env mem_empty demo_block demo_ts"
proof -
  have "tx_plain demo_val e" if "e \<in> demo_enc ` set demo_ts" for e
    using that demo_wire demo_user(2) by (auto simp: tx_plain_def demo_val_defs)
  then show ?thesis
    using demo_log demo_good [of "demo_ts ! _" mem_ops lp_codec mem_empty]
    by (auto simp: fresh_block_def block_tx_def demo_hist_def)
qed

lemma demo_at: "ledger_at demo_env bl (\<lambda>_ _ _. None) demo_ledger (\<lambda>_. 0)"
  by (simp add: ledger_at_def Let_def demo_ledger_def NewLockBasedTxMgr_def sp_at_def
      ldb_GetLatestSavePoint_def hist_GetLastSavepoint_def)

lemma demo_lagging: "W 0 = (\<lambda>_ _. None) \<Longrightarrow> ledger_at demo_env bl W (demo_ledger\<lparr>kl_blockStore := bs\<rparr>) (\<lambda>_. 0)"
  by (simp add: ledger_at_def Let_def demo_ledger_def NewLockBasedTxMgr_def sp_at_def
      ldb_GetLatestSavePoint_def hist_GetLastSavepoint_def)

lemma demo_chain: "chain_ok demo_env [] [] W"
  by (simp add: chain_ok_def)

lemma demo_ledger_simps [simp]:
  "kl_blockStore demo_ledger = []" "tm_db (kl_txtmgmt demo_ledger) = mem_empty" "kl_ledgerID demo_ledger = ''ch''"
  "kl_historyDB demo_ledger = mem_empty"
  by (simp_all add: demo_ledger_def NewLockBasedTxMgr_def)

lemma demo_enabled [simp]: "he_enabled demo_hist" "he_val demo_hist = demo_val"
  by (simp_all add: demo_hist_def)

lemma demo_committed:
  "\<exists>l' block' W'. kl_Commit demo_env demo_block demo_ledger = Inr (None, l') \<and> kl_blockStore l' = [block']
    \<and> W' 0 = (\<lambda>_ _. None) \<and> chain_ok demo_env [block'] [demo_ts] W' \<and> ledger_at demo_env [block'] W' l' (\<lambda>_. 1)"
  using list_kl.Commit_synced [of demo_hist demo_ledger "[]" "\<lambda>_ _ _. None" demo_block demo_ts]
    demo_chain demo_at demo_fresh by fastforce

lemma demo_creatable: "creatable demo_penv (\<lambda>s. s) mem_get demo_block demo_ts ''ch'' demo_disk"
proof -
  have "ledger_at demo_env [] (\<lambda>_ _ _. None) (disk_ledger demo_disk ''ch'') (\<lambda>_. 0)"
    using demo_at [of "[]"] ledger_at_stores [of "disk_ledger demo_disk ''ch''" demo_ledger]
    by (simp add: disk_ledger_def demo_disk_def NewLockBasedTxMgr_def)
  then show ?thesis using demo_fresh by (simp add: creatable_def demo_disk_def ledger_ids_def)
qed

section \<open>Range queries\<close>

definition demo_kvs :: "nat \<Rightarrow> VersionedKV list" where
  "demo_kvs n = map (\<lambda>i. \<lparr>kv_Namespace = ''cc'', kv_Key = nat_str i, kv_Value = Some ''v'', kv_Version = Some (NewHeight 1 0)\<rparr>) [0..<n]"

definition demo_summary :: MerkleSummary where
  "demo_summary = the (fst (snd (projr (merkle_of id_env 2 (reads_of (demo_kvs 6))))))"

text \<open>A batch whose entries are the results of a query of the whole namespace.\<close>

definition kvs_batch :: "VersionedKV list \<Rightarrow> UpdateBatch" where
  "kvs_batch kvs = NewUpdateBatch\<lparr>updates := [(''cc'', map (\<lambda>kv. (kv_Key kv, vv_of kv)) kvs)]\<rparr>"

definition raw_rqi :: "ReadsInfo \<Rightarrow> RangeQueryInfo" where
  "raw_rqi ri = \<lparr>rq_StartKey = ''0'', rq_EndKey = ''z'', rq_ItrExhausted = True, rq_ReadsInfo = ri\<rparr>"

lemma kvs_batch_ok: "distinct (map kv_Key kvs) \<Longrightarrow> batch_ok (kvs_batch kvs)"
  by (simp add: kvs_batch_def batch_ok_def NewUpdateBatch_def comp_def)

lemma kvs_batch_current:
  assumes "strict_sorted (map kv_Key kvs)" "\<forall>kv \<in> set kvs. kv_Namespace kv = ''cc'' \<and> kv_Value kv \<noteq> None \<and> covers rqi (kv_Key kv)"
  shows "current_entries demo_val (kvs_batch kvs) ''cc'' rqi kvs"
proof -
  let ?m = "map (\<lambda>kv. (kv_Key kv, vv_of kv)) kvs"
  have d: "distinct (map fst ?m)" using strict_sorted_distinct [OF assms(1)] by (simp add: comp_def)
  have g: "batch_Get (kvs_batch kvs) ''cc'' k = map_of ?m k" for k by (simp add: kvs_batch_def batch_Get_def)
  have cs: "cur_state demo_val (kvs_batch kvs) ''cc'' k = Some vv \<longleftrightarrow> (k, vv) \<in> set ?m" for k vv
  proof -
    have "vv_Value w \<noteq> None" if "(k, w) \<in> set ?m" for w using that assms(2) by (auto simp: vv_of_def)
    then show ?thesis unfolding cur_state_def overlay_def g map_of_eq_Some_iff [OF d, symmetric]
      by (auto simp: demo_db_def split: option.split dest: map_of_SomeD)
  qed
  have mem: "kv \<in> set kvs \<longleftrightarrow> kv_Namespace kv = ''cc'' \<and> (kv_Key kv, vv_of kv) \<in> set ?m" for kv
  proof
    assume r: "kv_Namespace kv = ''cc'' \<and> (kv_Key kv, vv_of kv) \<in> set ?m"
    then obtain kv' where k: "kv' \<in> set kvs" "kv_Key kv = kv_Key kv'" "vv_of kv = vv_of kv'" by auto
    have "kv_Namespace kv = kv_Namespace kv'" using r k(1) assms(2) by simp
    then have "kv = kv'" using kv_of_vv_of [of kv] kv_of_vv_of [of kv'] k(2,3) by argo
    then show "kv \<in> set kvs" using k(1) by simp
  qed (use assms(2) in auto)
  show ?thesis unfolding current_entries_def cs using assms(1,2) mem by blast
qed

lemma demo_kvs_keys: "n \<le> 9 \<Longrightarrow> map kv_Key (demo_kvs n) = take n [''0'', ''1'', ''2'', ''3'', ''4'', ''5'', ''6'', ''7'', ''8'']"
proof -
  have "map kv_Key (demo_kvs 9) = [''0'', ''1'', ''2'', ''3'', ''4'', ''5'', ''6'', ''7'', ''8'']" by code_simp
  moreover assume "n \<le> 9"
  then have "demo_kvs n = take n (demo_kvs 9)" by (simp add: demo_kvs_def take_map)
  ultimately show ?thesis by (simp add: take_map [symmetric])
qed

lemma demo_kvs_batch:
  assumes "n \<le> 9"
  shows "batch_ok (kvs_batch (demo_kvs n))"
  by (rule kvs_batch_ok) (simp add: demo_kvs_keys [OF assms] distinct_take)

lemma demo_kvs_current:
  assumes "n \<le> 9"
  shows "current_entries demo_val (kvs_batch (demo_kvs n)) ''cc'' (raw_rqi ri) (demo_kvs n)"
proof (rule kvs_batch_current)
  show "strict_sorted (map kv_Key (demo_kvs n))" unfolding demo_kvs_keys [OF assms] by (rule sorted_wrt_take) simp
  have "covers (raw_rqi ri) k" if "k \<in> set (map kv_Key (demo_kvs n))" for k
    using that set_take_subset unfolding demo_kvs_keys [OF assms] by (fastforce simp: covers_def raw_rqi_def in_range_def)
  then show "\<forall>kv \<in> set (demo_kvs n). kv_Namespace kv = ''cc'' \<and> kv_Value kv \<noteq> None \<and> covers (raw_rqi ri) (kv_Key kv)"
    by (auto simp: demo_kvs_def)
qed

lemma demo_query_batch: "batch_ok (kvs_batch (demo_kvs 4))"
  by (rule demo_kvs_batch) simp

lemma demo_query_current: "current_entries demo_val (kvs_batch (demo_kvs 4)) ''cc'' (raw_rqi ri) (demo_kvs 4)"
  by (rule demo_kvs_current) simp

section \<open>Computed writes\<close>

definition demo_adds :: "(bytes \<times> int) list" where
  "demo_adds = [(''n'', 5), (''n'', 3)]"

lemma demo_adds_ok: "\<forall>kd \<in> set demo_adds. CHR '','' \<notin> set (fst kd) \<and> is_i64 (snd kd)"
  by (simp add: demo_adds_def is_i64_def i64_min_def i64_max_def)

lemma demo_adds_sum: "batch_counter demo_val NewUpdateBatch ''cc'' ''n'' = 0" "sum_for ''n'' demo_adds = 8"
  by (simp_all add: counter_def NewUpdateBatch_def GetUpdates_def GetCals_def db_read_def demo_db_def ldb_view_def
      ldb_GetState_def sum_for_def demo_adds_def)

lemma demo_adds_wire: "FromProtoBytes wire_codec (demo_enc [adds_ns ''cc'' demo_adds]) = Inr [adds_ns ''cc'' demo_adds]"
proof -
  let ?t = "[adds_ns ''cc'' demo_adds]"
  obtain b where b: "ToProtoBytes wire_codec ?t = Inr b" by (auto simp: ToProtoBytes_def wire_codec_def)
  have "FormatInt d \<noteq> []" for d by (simp add: FormatInt_def)
  then have "\<forall>n \<in> set ?t. no_empty_value (KvRwSet n)"
    by (auto simp: adds_ns_def demo_adds_def no_empty_value_def add_of_def)
  from wire.proto_roundtrip [OF this b] b show ?thesis by (simp add: demo_enc_def)
qed

section \<open>A transaction manager on a database with one entry\<close>

definition one_db :: versionedDB where
  "one_db = ldb_view mem_ops lp_codec
     (mem_put mem_empty (constructCompositeKey ''cc'' ''5'') (EncodeValue lp_enc (Some ''v'') (NewHeight 1 0)))"

definition one_tm :: tm_env where
  "one_tm = \<lparr>te_rl = demo_rl\<lparr>e_dbs := (\<lambda>_. one_db)\<rparr>, te_fuel = 20, te_db = ''ch'', te_merkle = id_env,
     te_codec = wire_codec, te_hashing = True, te_maxDegree = 2\<rparr>"

section \<open>A session\<close>

text \<open>A simulator is opened on the empty database and reads the key \<^verbatim>\<open>k\<close>.\<close>

definition demo_opened :: "memdb tm_system" where
  "demo_opened = open_session (tm_NewTxSimulator (NewLockBasedTxMgr mem_empty demo_st))
     \<lparr>sy_tm = NewLockBasedTxMgr mem_empty demo_st, sy_sessions = []\<rparr>"

definition demo_read :: "memdb tm_system" where
  "demo_read = set_helper 0 (add_read newLockBasedTxSimulator ''cc'' ''k'' None) demo_opened"

lemma demo_opened_reachable: "tm_reachable mem_ops lp_codec one_tm demo_val demo_opened"
proof -
  let ?s = "\<lparr>sy_tm = NewLockBasedTxMgr mem_empty demo_st, sy_sessions = []\<rparr>"
  have "tm_step mem_ops lp_codec one_tm demo_val ?s demo_opened"
    using tm_step.simulator [of mem_ops lp_codec one_tm demo_val ?s] by (simp add: demo_opened_def)
  then show ?thesis by (rule tm_reachable.next_step [OF tm_reachable.start])
qed

lemma demo_sessions: "sy_sessions demo_opened = [\<lparr>se_helper = newLockBasedTxSimulator, se_opened = mem_empty\<rparr>]"
  "tm_db (sy_tm demo_opened) = mem_empty"
  by (simp_all add: demo_opened_def open_session_def tm_NewTxSimulator_def NewLockBasedTxMgr_def)

lemma demo_read_step: "tm_step mem_ops lp_codec one_tm demo_val demo_opened demo_read"
proof -
  have "run_access (tenv_at mem_ops lp_codec one_tm mem_empty) (AGet ''cc'' ''k'') newLockBasedTxSimulator
      = Inr (add_read newLockBasedTxSimulator ''cc'' ''k'' None)"
    by (simp add: run_access_def getState_def checkDone_def newLockBasedTxSimulator_def newQueryExecutor_def
        HasPrefix_def RLIST_PREFIX_def ldb_view_def ldb_GetState_def decomposeVersionedValue_def)
  then show ?thesis
    using tm_step.access [of 0 demo_opened mem_ops lp_codec one_tm "AGet ''cc'' ''k''" _ demo_val]
    by (simp add: demo_sessions demo_read_def)
qed

lemma demo_read_reachable: "tm_reachable mem_ops lp_codec one_tm demo_val demo_read"
  using demo_opened_reachable demo_read_step by (rule tm_reachable.next_step)

lemma demo_read_session:
  "sy_sessions demo_read = [\<lparr>se_helper = add_read newLockBasedTxSimulator ''cc'' ''k'' None, se_opened = mem_empty\<rparr>]"
  by (simp add: demo_read_def set_helper_def demo_sessions)

section \<open>A refused genesis block\<close>

definition bad_hist :: hist_env where
  "bad_hist = demo_hist\<lparr>he_val := demo_val\<lparr>pu_GetEnvelopeFromBlock := (\<lambda>_. Inl (Err ''bad envelope''))\<rparr>\<rparr>"

abbreviation bad_penv :: "(Block list, memdb, memdb) prov_env" where
  "bad_penv \<equiv> list_penv bad_hist (\<lambda>_. Inr ''ch'')"

definition bad_block :: Block where
  "bad_block = \<lparr>blk_Number = 0, blk_Data = [''x''], blk_TxFilter = []\<rparr>"

lemma bad_commit: "kl_Commit (list_env bad_hist) bad_block l = Inr (Some (Err ''bad envelope''), l)"
proof -
  have "ValidateAndPrepareBatch (env_at mem_ops lp_codec (he_val bad_hist) db) bad_block True st = Inl (Err ''bad envelope'')" for db st
    by (simp add: ValidateAndPrepareBatch_def Let_def bad_block_def process_tx_def IsInvalid_def Flag_def index_at_def
        NewTxValidationFlags_def bad_hist_def env_at_def)
  then show ?thesis by (simp add: kl_Commit_def ValidateAndPrepare_def)
qed

lemma bad_open: "openInternal bad_penv ''ch'' (demo_disk\<lparr>pv_idStore := s\<rparr>) = Inr (demo_ledger, put_ledger ''ch'' demo_ledger (demo_disk\<lparr>pv_idStore := s\<rparr>))"
  by (simp add: openInternal_def newKVLedger_def recoverDBs_def list_blockstore_def demo_disk_def demo_ledger_def)

lemma bad_create:
  "Create bad_penv bad_block demo_disk = Inr (Inl (Err ''bad envelope''),
     put_ledger ''ch'' demo_ledger (put_ledger ''ch'' demo_ledger (demo_disk\<lparr>pv_idStore := mem_put mem_empty underConstructionLedgerKey ''ch''\<rparr>)))"
  by (simp add: Create_def Let_def mem_ids.exists_eq ledger_ids_def setUnderConstructionFlag_def bad_open bad_commit)
    (simp add: mem_iddb_def demo_disk_def)

end
