(* ===== verification/MsgValidation.thy ===== *)
theory MsgValidation
  imports Messages TxFlags
begin

text \<open>
  \<^verbatim>\<open>core/common/validation/msgvalidation.go\<close>: the checks of a proposal and of a transaction envelope
  before anything is executed or committed: the headers, the signature of the creator, the id of the
  transaction, and the hash that binds the endorsed response to the proposal.

  The membership service (deserializing an identity, its certificate check, its signature check) and
  the two hash functions of \<^verbatim>\<open>protos/utils\<close> are the record \<open>msg_env\<close>. A pointer argument is an
  option. An error is \<open>Inl (Err _)\<close>, the dereference of a nil field \<open>Inl (Panic _)\<close>.

  Results: an envelope is accepted exactly if it is well formed in the sense of the declarative
  predicates \<open>signed_envelope\<close> and \<open>typed_ok\<close> (\<open>ValidateTransaction_VALID\<close>), and an
  action without its endorsed part stops the peer (\<open>missing_action_panics\<close>).
\<close>

record identity =
  id_Validate :: "unit res"
  id_Verify :: "bytes \<Rightarrow> bytes \<Rightarrow> unit res"

record msg_env =
  mv_GetIdentityDeserializer :: "bytes \<Rightarrow> (bytes \<Rightarrow> identity res) option"
  mv_CheckProposalTxID :: "bytes \<Rightarrow> bytes \<Rightarrow> bytes \<Rightarrow> unit res"
  mv_GetProposalHash2 :: "Header \<Rightarrow> bytes \<Rightarrow> bytes res"

section \<open>Headers and signatures\<close>

definition checkSignatureFromCreator :: "msg_env \<Rightarrow> slice \<Rightarrow> slice \<Rightarrow> slice \<Rightarrow> bytes \<Rightarrow> unit res" where
  "checkSignatureFromCreator mv creatorBytes sig msg ChainID =
     (case (creatorBytes, sig, msg) of
        (Some c, Some s, Some m) \<Rightarrow>
          (case mv_GetIdentityDeserializer mv ChainID of
             None \<Rightarrow> Inl (Err ''could not get msp for chain'')
           | Some deserialize \<Rightarrow>
               res_try (deserialize c) (\<lambda>_. Inl (Err ''Failed to deserialize creator identity'')) (\<lambda>creator.
               res_try (id_Validate creator) (\<lambda>_. Inl (Err ''The creator certificate is not valid'')) (\<lambda>_.
               res_try (id_Verify creator m s) (\<lambda>_. Inl (Err ''The creator's signature over the proposal is not valid'')) (\<lambda>_.
                 Inr ()))))
      | _ \<Rightarrow> Inl (Err ''Nil arguments''))"

definition validateSignatureHeader :: "SignatureHeader option \<Rightarrow> unit res" where
  "validateSignatureHeader sHdr =
     (case sHdr of
        None \<Rightarrow> Inl (Err ''Nil SignatureHeader provided'')
      | Some h \<Rightarrow>
          if str_of (sh_Nonce h) = [] then Inl (Err ''Invalid nonce specified in the header'')
          else if str_of (sh_Creator h) = [] then Inl (Err ''Invalid creator specified in the header'')
          else Inr ())"

definition validateChannelHeader :: "ChannelHeader option \<Rightarrow> unit res" where
  "validateChannelHeader cHdr =
     (case cHdr of
        None \<Rightarrow> Inl (Err ''Nil ChannelHeader provided'')
      | Some h \<Rightarrow>
          if ch_Type h \<noteq> ENDORSER_TRANSACTION \<and> ch_Type h \<noteq> CONFIG_UPDATE \<and> ch_Type h \<noteq> CONFIG
          then Inl (Err ''invalid header type'')
          else if ch_Epoch h \<noteq> 0 then Inl (Err ''Invalid Epoch in ChannelHeader. It must be 0'')
          else Inr ())"

definition validateCommonHeader ::
    "'z proto_utils_scheme \<Rightarrow> Header option \<Rightarrow> (ChannelHeader \<times> SignatureHeader) res" where
  "validateCommonHeader pu hdr =
     (case hdr of
        None \<Rightarrow> Inl (Err ''Nil header'')
      | Some h \<Rightarrow>
          res_bind (pu_UnmarshalChannelHeader pu (hd_ChannelHeader h)) (\<lambda>chdr.
          res_bind (pu_GetSignatureHeader pu (hd_SignatureHeader h)) (\<lambda>shdr.
          res_bind (validateChannelHeader (Some chdr)) (\<lambda>_.
          res_bind (validateSignatureHeader (Some shdr)) (\<lambda>_.
            Inr (chdr, shdr))))))"

section \<open>Proposals\<close>

definition validateChaincodeProposalMessage ::
    "'z proto_utils_scheme \<Rightarrow> Proposal option \<Rightarrow> Header option \<Rightarrow> ChaincodeHeaderExtension res" where
  "validateChaincodeProposalMessage pu prop hdr =
     (case (prop, hdr) of
        (Some _, Some h) \<Rightarrow>
          res_try (pu_GetChaincodeHeaderExtension pu h)
            (\<lambda>_. Inl (Err ''Invalid header extension for type CHAINCODE''))
            (\<lambda>chaincodeHdrExt.
               if hx_PayloadVisibility chaincodeHdrExt \<noteq> None then Inl (Err ''Invalid payload visibility field'')
               else Inr chaincodeHdrExt)
      | _ \<Rightarrow> Inl (Err ''Nil arguments''))"

definition ValidateProposalMessage ::
    "'z proto_utils_scheme \<Rightarrow> msg_env \<Rightarrow> SignedProposal option
     \<Rightarrow> (Proposal \<times> Header \<times> ChaincodeHeaderExtension) res" where
  "ValidateProposalMessage pu mv signedProp =
     (case signedProp of
        None \<Rightarrow> Inl (Err ''Nil arguments'')
      | Some sp \<Rightarrow>
          res_bind (pu_GetProposal pu (str_of (sp_ProposalBytes sp))) (\<lambda>prop.
          res_bind (pu_GetHeader pu (pp_Header prop)) (\<lambda>hdr.
          res_bind (validateCommonHeader pu (Some hdr)) (\<lambda>(chdr, shdr).
          res_bind (checkSignatureFromCreator mv (sh_Creator shdr) (sp_Signature sp) (sp_ProposalBytes sp) (ch_ChannelId chdr)) (\<lambda>_.
          res_bind (mv_CheckProposalTxID mv (ch_TxId chdr) (str_of (sh_Nonce shdr)) (str_of (sh_Creator shdr))) (\<lambda>_.
            if ch_Type chdr = CONFIG \<or> ch_Type chdr = ENDORSER_TRANSACTION then
              res_bind (validateChaincodeProposalMessage pu (Some prop) (Some hdr)) (\<lambda>chaincodeHdrExt.
                Inr (prop, hdr, chaincodeHdrExt))
            else Inl (Err ''Unsupported proposal type'')))))))"

section \<open>Transactions\<close>

definition validateConfigTransaction :: "slice \<Rightarrow> Header option \<Rightarrow> unit res" where
  "validateConfigTransaction data hdr =
     (if data = None \<or> hdr = None then Inl (Err ''Nil arguments'') else Inr ())"

definition validate_action ::
    "'z proto_utils_scheme \<Rightarrow> msg_env \<Rightarrow> Header \<Rightarrow> TransactionAction option \<Rightarrow> unit res" where
  "validate_action pu mv hdr act =
     (case act of
        None \<Rightarrow> Inl (Err ''Nil action'')
      | Some a \<Rightarrow>
          res_bind (pu_GetSignatureHeader pu (ta_Header a)) (\<lambda>sHdr.
          res_bind (validateSignatureHeader (Some sHdr)) (\<lambda>_.
          res_bind (pu_GetChaincodeActionPayload pu (ta_Payload a)) (\<lambda>ccActionPayload.
          res_bind (deref (cap_Action ccActionPayload)) (\<lambda>action.
          res_bind (pu_GetProposalResponsePayload pu (str_of (ea_ProposalResponsePayload action))) (\<lambda>prp.
          res_bind (mv_GetProposalHash2 mv \<lparr>hd_ChannelHeader = hd_ChannelHeader hdr, hd_SignatureHeader = ta_Header a\<rparr>
              (cap_ChaincodeProposalPayload ccActionPayload)) (\<lambda>pHash.
            if pHash \<noteq> prp_ProposalHash prp then Inl (Err ''proposal hash does not match'') else Inr ())))))))"

definition validateEndorserTransaction ::
    "'z proto_utils_scheme \<Rightarrow> msg_env \<Rightarrow> slice \<Rightarrow> Header option \<Rightarrow> unit res" where
  "validateEndorserTransaction pu mv data hdr =
     (case (data, hdr) of
        (Some d, Some h) \<Rightarrow>
          res_bind (pu_GetTransaction pu d) (\<lambda>actions.
            if length actions \<noteq> 1 then Inl (Err ''Only one action per transaction is supported'')
            else foldM (\<lambda>_ act. validate_action pu mv h act) () actions)
      | _ \<Rightarrow> Inl (Err ''Nil arguments''))"

text \<open>The switch on the type of the header.\<close>

definition validate_typed ::
    "'z proto_utils_scheme \<Rightarrow> msg_env \<Rightarrow> Payload \<Rightarrow> ChannelHeader \<Rightarrow> SignatureHeader
     \<Rightarrow> (Payload option \<times> TxValidationCode) res" where
  "validate_typed pu mv payload chdr shdr =
     (if ch_Type chdr = ENDORSER_TRANSACTION then
        res_try (mv_CheckProposalTxID mv (ch_TxId chdr) (str_of (sh_Nonce shdr)) (str_of (sh_Creator shdr)))
          (\<lambda>_. Inr (None, BAD_PROPOSAL_TXID)) (\<lambda>_.
        res_try (validateEndorserTransaction pu mv (pl_Data payload) (pl_Header payload))
          (\<lambda>_. Inr (Some payload, INVALID_ENDORSER_TRANSACTION)) (\<lambda>_.
            Inr (Some payload, VALID)))
      else if ch_Type chdr = CONFIG then
        res_try (validateConfigTransaction (pl_Data payload) (pl_Header payload))
          (\<lambda>_. Inr (Some payload, INVALID_CONFIG_TRANSACTION)) (\<lambda>_.
            Inr (Some payload, VALID))
      else Inr (None, UNSUPPORTED_TX_PAYLOAD))"

definition ValidateTransaction ::
    "'z proto_utils_scheme \<Rightarrow> msg_env \<Rightarrow> Envelope option \<Rightarrow> (Payload option \<times> TxValidationCode) res" where
  "ValidateTransaction pu mv e =
     (case e of
        None \<Rightarrow> Inr (None, NIL_ENVELOPE)
      | Some e \<Rightarrow>
          res_try (pu_GetPayload pu e) (\<lambda>_. Inr (None, BAD_PAYLOAD)) (\<lambda>payload.
          res_try (validateCommonHeader pu (pl_Header payload)) (\<lambda>_. Inr (None, BAD_COMMON_HEADER)) (\<lambda>(chdr, shdr).
          res_try (checkSignatureFromCreator mv (sh_Creator shdr) (en_Signature e) (en_Payload e) (ch_ChannelId chdr))
            (\<lambda>_. Inr (None, BAD_CREATOR_SIGNATURE)) (\<lambda>_.
            validate_typed pu mv payload chdr shdr))))"

section \<open>What an accepted envelope is\<close>

text \<open>The creator of the header signed these bytes: its certificate is valid on the channel and the signature verifies.\<close>

definition signed_by :: "msg_env \<Rightarrow> bytes \<Rightarrow> bytes \<Rightarrow> bytes \<Rightarrow> bytes \<Rightarrow> bool" where
  "signed_by mv chain c m s \<longleftrightarrow> (\<exists>des who. mv_GetIdentityDeserializer mv chain = Some des \<and> des c = Inr who
     \<and> id_Validate who = Inr () \<and> id_Verify who m s = Inr ())"

lemma checkSignature_iff:
  "checkSignatureFromCreator mv cr sg msg chain = Inr () \<longleftrightarrow>
     (\<exists>c s m. cr = Some c \<and> sg = Some s \<and> msg = Some m \<and> signed_by mv chain c m s)"
  unfolding checkSignatureFromCreator_def signed_by_def
  by (cases cr; cases sg; cases msg) (auto simp: res_try_Inr_conv split: option.split)

lemma validateSignatureHeader_iff:
  "validateSignatureHeader (Some h) = Inr () \<longleftrightarrow> str_of (sh_Nonce h) \<noteq> [] \<and> str_of (sh_Creator h) \<noteq> []"
  by (simp add: validateSignatureHeader_def)

lemma validateChannelHeader_iff:
  "validateChannelHeader (Some h) = Inr () \<longleftrightarrow> ch_Type h \<in> {ENDORSER_TRANSACTION, CONFIG_UPDATE, CONFIG} \<and> ch_Epoch h = 0"
  by (auto simp: validateChannelHeader_def)

definition common_header :: "'z proto_utils_scheme \<Rightarrow> Header \<Rightarrow> ChannelHeader \<Rightarrow> SignatureHeader \<Rightarrow> bool" where
  "common_header pu h chdr shdr \<longleftrightarrow> pu_UnmarshalChannelHeader pu (hd_ChannelHeader h) = Inr chdr
     \<and> pu_GetSignatureHeader pu (hd_SignatureHeader h) = Inr shdr
     \<and> ch_Type chdr \<in> {ENDORSER_TRANSACTION, CONFIG_UPDATE, CONFIG} \<and> ch_Epoch chdr = 0
     \<and> str_of (sh_Nonce shdr) \<noteq> [] \<and> str_of (sh_Creator shdr) \<noteq> []"

lemma validateCommonHeader_iff:
  "validateCommonHeader pu hdr = Inr (chdr, shdr) \<longleftrightarrow> (\<exists>h. hdr = Some h \<and> common_header pu h chdr shdr)"
  by (cases hdr) (auto simp: validateCommonHeader_def res_bind_Inr_conv common_header_def
      validateChannelHeader_iff validateSignatureHeader_iff)

text \<open>The envelope is signed by the creator its header names.\<close>

definition signed_envelope ::
    "'z proto_utils_scheme \<Rightarrow> msg_env \<Rightarrow> Envelope \<Rightarrow> Payload \<Rightarrow> Header \<Rightarrow> ChannelHeader \<Rightarrow> SignatureHeader \<Rightarrow> bool" where
  "signed_envelope pu mv e payload h chdr shdr \<longleftrightarrow> pu_GetPayload pu e = Inr payload \<and> pl_Header payload = Some h
     \<and> common_header pu h chdr shdr
     \<and> (\<exists>c s m. sh_Creator shdr = Some c \<and> en_Signature e = Some s \<and> en_Payload e = Some m
          \<and> signed_by mv (ch_ChannelId chdr) c m s)"

text \<open>The endorsed response answers exactly this proposal.\<close>

definition bound_action :: "'z proto_utils_scheme \<Rightarrow> msg_env \<Rightarrow> Header \<Rightarrow> TransactionAction \<Rightarrow> bool" where
  "bound_action pu mv h a \<longleftrightarrow> (\<exists>shdr cap action prp. pu_GetSignatureHeader pu (ta_Header a) = Inr shdr
     \<and> str_of (sh_Nonce shdr) \<noteq> [] \<and> str_of (sh_Creator shdr) \<noteq> []
     \<and> pu_GetChaincodeActionPayload pu (ta_Payload a) = Inr cap \<and> cap_Action cap = Some action
     \<and> pu_GetProposalResponsePayload pu (str_of (ea_ProposalResponsePayload action)) = Inr prp
     \<and> mv_GetProposalHash2 mv \<lparr>hd_ChannelHeader = hd_ChannelHeader h, hd_SignatureHeader = ta_Header a\<rparr>
         (cap_ChaincodeProposalPayload cap) = Inr (prp_ProposalHash prp))"

lemma validate_action_iff: "validate_action pu mv h act = Inr () \<longleftrightarrow> (\<exists>a. act = Some a \<and> bound_action pu mv h a)"
  by (cases act) (auto simp: validate_action_def res_bind_Inr_conv bound_action_def validateSignatureHeader_iff)

lemma validateEndorserTransaction_iff:
  "validateEndorserTransaction pu mv data (Some h) = Inr () \<longleftrightarrow>
     (\<exists>d a. data = Some d \<and> pu_GetTransaction pu d = Inr [Some a] \<and> bound_action pu mv h a)"
  by (cases data) (auto simp: validateEndorserTransaction_def res_bind_Inr_conv validate_action_iff length_Suc_conv
      split: if_splits)

text \<open>What the type of the header asks for.\<close>

definition typed_ok :: "'z proto_utils_scheme \<Rightarrow> msg_env \<Rightarrow> Payload \<Rightarrow> Header \<Rightarrow> ChannelHeader \<Rightarrow> SignatureHeader \<Rightarrow> bool" where
  "typed_ok pu mv payload h chdr shdr \<longleftrightarrow>
     ch_Type chdr = ENDORSER_TRANSACTION
       \<and> mv_CheckProposalTxID mv (ch_TxId chdr) (str_of (sh_Nonce shdr)) (str_of (sh_Creator shdr)) = Inr ()
       \<and> (\<exists>d a. pl_Data payload = Some d \<and> pu_GetTransaction pu d = Inr [Some a] \<and> bound_action pu mv h a)
     \<or> ch_Type chdr = CONFIG \<and> pl_Data payload \<noteq> None"

lemma validate_typed_VALID:
  assumes "pl_Header payload = Some h"
  shows "validate_typed pu mv payload chdr shdr = Inr (p, VALID) \<longleftrightarrow> p = Some payload \<and> typed_ok pu mv payload h chdr shdr"
  using assms
  by (auto simp: validate_typed_def typed_ok_def res_try_Inr_conv validateEndorserTransaction_iff validateConfigTransaction_def)

lemma ValidateTransaction_VALID:
  "ValidateTransaction pu mv (Some e) = Inr (p, VALID) \<longleftrightarrow>
     (\<exists>payload h chdr shdr. p = Some payload \<and> signed_envelope pu mv e payload h chdr shdr \<and> typed_ok pu mv payload h chdr shdr)"
proof
  assume "ValidateTransaction pu mv (Some e) = Inr (p, VALID)"
  then obtain payload chdr shdr where r: "pu_GetPayload pu e = Inr payload"
    "validateCommonHeader pu (pl_Header payload) = Inr (chdr, shdr)"
    "checkSignatureFromCreator mv (sh_Creator shdr) (en_Signature e) (en_Payload e) (ch_ChannelId chdr) = Inr ()"
    "validate_typed pu mv payload chdr shdr = Inr (p, VALID)"
    unfolding ValidateTransaction_def by (auto simp: res_try_Inr_conv)
  from r(2) obtain h where h: "pl_Header payload = Some h" "common_header pu h chdr shdr" by (auto simp: validateCommonHeader_iff)
  have "signed_envelope pu mv e payload h chdr shdr"
    using r(1,3) h by (simp add: signed_envelope_def checkSignature_iff)
  then show "\<exists>payload h chdr shdr. p = Some payload \<and> signed_envelope pu mv e payload h chdr shdr \<and> typed_ok pu mv payload h chdr shdr"
    using r(4) validate_typed_VALID [OF h(1)] by blast
next
  assume "\<exists>payload h chdr shdr. p = Some payload \<and> signed_envelope pu mv e payload h chdr shdr \<and> typed_ok pu mv payload h chdr shdr"
  then obtain payload h chdr shdr where s: "p = Some payload" "signed_envelope pu mv e payload h chdr shdr"
    "typed_ok pu mv payload h chdr shdr" by blast
  then have "validate_typed pu mv payload chdr shdr = Inr (p, VALID)"
    using validate_typed_VALID [of payload h pu mv chdr shdr p] by (simp add: signed_envelope_def)
  moreover have "validateCommonHeader pu (pl_Header payload) = Inr (chdr, shdr)"
    "checkSignatureFromCreator mv (sh_Creator shdr) (en_Signature e) (en_Payload e) (ch_ChannelId chdr) = Inr ()"
    using s(2) by (auto simp: signed_envelope_def validateCommonHeader_iff checkSignature_iff)
  ultimately show "ValidateTransaction pu mv (Some e) = Inr (p, VALID)"
    using s(2) by (simp add: ValidateTransaction_def signed_envelope_def)
qed

text \<open>
  Every refusal is a code, unless a library call panics or the endorsed part of the action is
  missing: that field is read without a test.
\<close>

lemma missing_action_panics:
  assumes "signed_envelope pu mv e payload h chdr shdr" "ch_Type chdr = ENDORSER_TRANSACTION"
    and "mv_CheckProposalTxID mv (ch_TxId chdr) (str_of (sh_Nonce shdr)) (str_of (sh_Creator shdr)) = Inr ()"
    and "pl_Data payload = Some d" "pu_GetTransaction pu d = Inr [Some a]"
    and "pu_GetSignatureHeader pu (ta_Header a) = Inr ash" "str_of (sh_Nonce ash) \<noteq> []" "str_of (sh_Creator ash) \<noteq> []"
    and "pu_GetChaincodeActionPayload pu (ta_Payload a) = Inr cap" "cap_Action cap = None"
  shows "ValidateTransaction pu mv (Some e) = Inl (Panic ''nil pointer dereference'')"
proof -
  have h: "pl_Header payload = Some h" "pu_GetPayload pu e = Inr payload" using assms(1) by (simp_all add: signed_envelope_def)
  have "validateCommonHeader pu (Some h) = Inr (chdr, shdr)"
    "checkSignatureFromCreator mv (sh_Creator shdr) (en_Signature e) (en_Payload e) (ch_ChannelId chdr) = Inr ()"
    using assms(1) by (auto simp: validateCommonHeader_iff checkSignature_iff signed_envelope_def)
  moreover have "validateEndorserTransaction pu mv (Some d) (Some h) = Inl (Panic ''nil pointer dereference'')"
    using assms(5-10) by (simp add: validateEndorserTransaction_def validate_action_def validateSignatureHeader_def)
  ultimately show ?thesis
    using assms(2-4) h by (simp add: ValidateTransaction_def validate_typed_def)
qed

end
