(* ===== verification/SysCC.thy ===== *)
theory SysCC
  imports Messages
begin

text \<open>
  The system chaincodes of the peer (\<^verbatim>\<open>core/scc/importsysccs.go\<close>, \<^verbatim>\<open>sysccapi.go\<close>), the record of an
  instantiated chaincode that the lifecycle chaincode keeps on the ledger
  (\<^verbatim>\<open>ChaincodeData\<close> of \<^verbatim>\<open>core/common/ccprovider/ccprovider.go\<close>), and the responses of a chaincode
  (\<^verbatim>\<open>core/chaincode/shim/response.go\<close>). The chaincode object of a system chaincode is not a field
  here: its code is modelled in the theory of that chaincode.
\<close>

record SystemChaincode =
  sys_Name :: bytes
  sys_Path :: bytes
  sys_InitArgs :: "bytes list"
  sys_InvokableExternal :: bool
  sys_InvokableCC2CC :: bool
  sys_Enabled :: bool

definition systemChaincodes :: "SystemChaincode list" where
  "systemChaincodes =
    [\<lparr>sys_Name = ''cscc'', sys_Path = ''github.com/hyperledger/fabric/core/scc/cscc'', sys_InitArgs = [[]],
      sys_InvokableExternal = True, sys_InvokableCC2CC = False, sys_Enabled = True\<rparr>,
     \<lparr>sys_Name = ''lscc'', sys_Path = ''github.com/hyperledger/fabric/core/scc/lscc'', sys_InitArgs = [[]],
      sys_InvokableExternal = True, sys_InvokableCC2CC = True, sys_Enabled = True\<rparr>,
     \<lparr>sys_Name = ''escc'', sys_Path = ''github.com/hyperledger/fabric/core/scc/escc'', sys_InitArgs = [[]],
      sys_InvokableExternal = False, sys_InvokableCC2CC = False, sys_Enabled = True\<rparr>,
     \<lparr>sys_Name = ''vscc'', sys_Path = ''github.com/hyperledger/fabric/core/scc/vscc'', sys_InitArgs = [[]],
      sys_InvokableExternal = False, sys_InvokableCC2CC = False, sys_Enabled = True\<rparr>,
     \<lparr>sys_Name = ''qscc'', sys_Path = ''github.com/hyperledger/fabric/core/chaincode/qscc'', sys_InitArgs = [[]],
      sys_InvokableExternal = True, sys_InvokableCC2CC = True, sys_Enabled = True\<rparr>,
     \<lparr>sys_Name = ''rbccustomer'', sys_Path = ''github.com/hyperledger/fabric/core/chaincode/rbccustomer'', sys_InitArgs = [[]],
      sys_InvokableExternal = True, sys_InvokableCC2CC = True, sys_Enabled = True\<rparr>,
     \<lparr>sys_Name = ''rbcapproval'', sys_Path = ''github.com/hyperledger/fabric/core/chaincode/rbcapproval'', sys_InitArgs = [[]],
      sys_InvokableExternal = True, sys_InvokableCC2CC = True, sys_Enabled = True\<rparr>]"

text \<open>\<open>chaincodes\<close> is the configured map \<^verbatim>\<open>chaincode.system\<close>.\<close>

definition isWhitelisted :: "(bytes, bytes) gomap \<Rightarrow> SystemChaincode \<Rightarrow> bool" where
  "isWhitelisted chaincodes syscc =
     (if HasPrefix (sys_Name syscc) ''rbc'' then True
      else (case gm_get chaincodes (sys_Name syscc) of
              None \<Rightarrow> False
            | Some val \<Rightarrow> val = ''enable'' \<or> val = ''true'' \<or> val = ''yes''))"

fun sys_find :: "SystemChaincode list \<Rightarrow> bytes \<Rightarrow> SystemChaincode option" where
  "sys_find [] name = None"
| "sys_find (s # ss) name = (if sys_Name s = name then Some s else sys_find ss name)"

definition IsSysCC :: "bytes \<Rightarrow> bool" where
  "IsSysCC name = (case sys_find systemChaincodes name of None \<Rightarrow> False | Some _ \<Rightarrow> True)"

definition IsSysCCAndNotInvokableExternal :: "bytes \<Rightarrow> bool" where
  "IsSysCCAndNotInvokableExternal name =
     (case sys_find systemChaincodes name of None \<Rightarrow> False | Some s \<Rightarrow> \<not> sys_InvokableExternal s)"

definition IsSysCCAndNotInvokableCC2CC :: "bytes \<Rightarrow> bool" where
  "IsSysCCAndNotInvokableCC2CC name =
     (case sys_find systemChaincodes name of None \<Rightarrow> False | Some s \<Rightarrow> \<not> sys_InvokableCC2CC s)"

lemma sys_names:
  "IsSysCC n \<longleftrightarrow> n \<in> {''cscc'', ''lscc'', ''escc'', ''vscc'', ''qscc'', ''rbccustomer'', ''rbcapproval''}"
  "IsSysCCAndNotInvokableExternal n \<longleftrightarrow> n \<in> {''escc'', ''vscc''}"
  "IsSysCCAndNotInvokableCC2CC n \<longleftrightarrow> n \<in> {''cscc'', ''escc'', ''vscc''}"
  by (auto simp: IsSysCC_def IsSysCCAndNotInvokableExternal_def IsSysCCAndNotInvokableCC2CC_def systemChaincodes_def)

section \<open>Chaincode instances and their record on the ledger\<close>

record ChaincodeInstance =
  ci_ChainID :: bytes
  ci_ChaincodeName :: bytes
  ci_ChaincodeVersion :: bytes

record ChaincodeData =
  cd_Name :: bytes
  cd_Version :: bytes
  cd_Escc :: bytes
  cd_Vscc :: bytes
  cd_Policy :: bytes
  cd_Data :: slice
  cd_Id :: slice
  cd_InstantiationPolicy :: slice
  cd_Buf :: slice
  cd_TxID :: bytes
  cd_Timestamp :: bytes
  cd_Desc :: bytes

section \<open>Responses\<close>

record Response =
  rs_Status :: int
  rs_Message :: bytes
  rs_Payload :: slice

definition shim_OK :: int where
  "shim_OK = 200"

definition shim_ERROR :: int where
  "shim_ERROR = 500"

definition shim_ERRORTHRESHOLD :: int where
  "shim_ERRORTHRESHOLD = 400"

definition shim_Success :: "slice \<Rightarrow> Response" where
  "shim_Success payload = \<lparr>rs_Status = shim_OK, rs_Message = [], rs_Payload = payload\<rparr>"

definition shim_Error :: "bytes \<Rightarrow> Response" where
  "shim_Error msg = \<lparr>rs_Status = shim_ERROR, rs_Message = msg, rs_Payload = None\<rparr>"

lemma response_status [simp]: "rs_Status (shim_Success p) = shim_OK" "rs_Status (shim_Error m) = shim_ERROR" "shim_ERROR \<noteq> shim_OK"
  by (simp_all add: shim_Success_def shim_Error_def shim_OK_def shim_ERROR_def)

end
