(* ===== verification/TxValidator.thy ===== *)
theory TxValidator
  imports MsgValidation SysCC KVLedger
begin

text \<open>
  \<^verbatim>\<open>core/committer/txvalidator/validator.go\<close>: the check of every transaction of a block before the
  ledger sees it. An envelope must be well formed (theory \<open>MsgValidation\<close>), its id unknown to the
  ledger, its writes endorsed as the validation chaincode demands, and no chaincode it names may be
  upgraded in the same block.

  The ledger is the one of \<open>KVLedger\<close>; reads go through its query executor. The channel
  configuration has the type \<open>'c\<close>: a configuration transaction changes it (\<^verbatim>\<open>support.Apply\<close>), and
  the membership service and the evaluation of policies depend on it. What is outside the
  repository, and the execution of the validation chaincode, are the record \<open>txv_env\<close>.

  A pair \<open>(err, code)\<close> is what \<^verbatim>\<open>VSCCValidateTx\<close> returns. \<^verbatim>\<open>Validate\<close> returns the error that
  ends it, with the configuration as it is then; the flags are written to the block at its end only.

  Results: transactions are judged one by one (\<open>txv_Validate_spec\<close>); what a valid verdict
  means (\<open>judge_VALID\<close>, \<open>vscc_named_iff\<close>); the flags that the upgrade rule
  gives are the same for every order \<open>tv_order\<close> in which Go ranges over its maps (\<open>invalidTXs_spec\<close>); and three gaps: a transaction
  that occurs twice in one block is accepted twice, an invocation of \<^verbatim>\<open>rbccustomer\<close> or
  \<^verbatim>\<open>rbcapproval\<close> may write to any namespace, and a write to a namespace that starts like a list
  operation can stop the peer.
\<close>

record ('s, 'db, 'c) txv_env =
  tv_kvl :: "('s, 'db) kvl_env"
  tv_tenv :: tm_env
  tv_mv :: "'c \<Rightarrow> msg_env"
  tv_GetMSPIDs :: "'c \<Rightarrow> bytes \<Rightarrow> bytes list"
  tv_SignedByAnyMember :: "bytes list \<Rightarrow> bytes res"
  tv_SysCCVersion :: bytes
  tv_UnmarshalChaincodeData :: "bytes \<Rightarrow> ChaincodeData res"
  tv_UnmarshalConfigEnvelope :: "bytes \<Rightarrow> bytes res"
  tv_Apply :: "bytes \<Rightarrow> 'c \<Rightarrow> 'c res"
  tv_MarshalEnvelope :: "Envelope \<Rightarrow> bytes res"
  tv_ExecuteChaincode :: "'c \<Rightarrow> ('s, 'db) kvLedger \<Rightarrow> bytes \<Rightarrow> bytes \<Rightarrow> bytes \<Rightarrow> slice list \<Rightarrow> Response res"
  tv_order :: "nat \<Rightarrow> nat \<Rightarrow> nat"

abbreviation tv_pu :: "('s, 'db, 'c) txv_env \<Rightarrow> val_env" where
  "tv_pu env \<equiv> ke_val (tv_kvl env)"

section \<open>The validation chaincode of a transaction\<close>

text \<open>\<^verbatim>\<open>qe.GetState\<close> on a query executor that is opened for it and closed after it.\<close>

definition qe_GetState :: "('s, 'db, 'c) txv_env \<Rightarrow> ('s, 'db) kvLedger \<Rightarrow> bytes \<Rightarrow> bytes \<Rightarrow> slice res" where
  "qe_GetState env l ns key =
     (let (qe, l) = kl_NewQueryExecutor l in
      res_bind (getState (tenv_at (ke_ops (tv_kvl env)) (ke_codec (tv_kvl env)) (tv_tenv env) (tm_db (kl_txtmgmt l))) qe ns key)
        (\<lambda>(value, qe). Inr value))"

definition getCDataForCC :: "('s, 'db, 'c) txv_env \<Rightarrow> ('s, 'db) kvLedger \<Rightarrow> bytes \<Rightarrow> ChaincodeData res" where
  "getCDataForCC env l ccid =
     res_try (qe_GetState env l ''lscc'' ccid) (\<lambda>_. Inl (Err ''Could not retrieve state for chaincode'')) (\<lambda>value.
       case value of
         None \<Rightarrow> Inl (Err ''lscc's state not found.'')
       | Some b \<Rightarrow>
           res_try (tv_UnmarshalChaincodeData env b) (\<lambda>_. Inl (Err ''Unmarshalling ChaincodeQueryResponse failed'')) (\<lambda>cd.
             if cd_Vscc cd = [] then Inl (Err ''lscc's state is invalid, vscc field must be set.'')
             else if cd_Policy cd = [] then Inl (Err ''lscc's state is invalid, policy field must be set.'')
             else Inr cd))"

definition GetInfoForValidate ::
    "('s, 'db, 'c) txv_env \<Rightarrow> 'c \<Rightarrow> ('s, 'db) kvLedger \<Rightarrow> bytes \<Rightarrow> bytes
     \<Rightarrow> (ChaincodeInstance \<times> ChaincodeInstance \<times> bytes) res" where
  "GetInfoForValidate env cfg l chID ccID =
     (if ccID \<noteq> ''lscc'' \<and> ccID \<noteq> ''rbccustomer'' \<and> ccID \<noteq> ''rbcapproval'' then
        res_bind (getCDataForCC env l ccID) (\<lambda>cd.
          Inr (\<lparr>ci_ChainID = chID, ci_ChaincodeName = cd_Name cd, ci_ChaincodeVersion = cd_Version cd\<rparr>,
               \<lparr>ci_ChainID = chID, ci_ChaincodeName = cd_Vscc cd, ci_ChaincodeVersion = tv_SysCCVersion env\<rparr>,
               cd_Policy cd))
      else
        res_bind (tv_SignedByAnyMember env (tv_GetMSPIDs env cfg chID)) (\<lambda>policy.
          Inr (\<lparr>ci_ChainID = chID, ci_ChaincodeName = ccID, ci_ChaincodeVersion = tv_SysCCVersion env\<rparr>,
               \<lparr>ci_ChainID = chID, ci_ChaincodeName = ''vscc'', ci_ChaincodeVersion = tv_SysCCVersion env\<rparr>,
               policy)))"

text \<open>The chaincode runs in a simulation of its own, released afterwards: the ledger stays as it is.\<close>

definition VSCCValidateTxForCC ::
    "('s, 'db, 'c) txv_env \<Rightarrow> 'c \<Rightarrow> ('s, 'db) kvLedger \<Rightarrow> bytes \<Rightarrow> bytes \<Rightarrow> bytes \<Rightarrow> bytes \<Rightarrow> bytes \<Rightarrow> unit res" where
  "VSCCValidateTxForCC env cfg l envBytes chid vsccName vsccVer policy =
     (if vsccVer = [] then Inl (Panic ''---empty version---'')
      else
        res_bind (tv_ExecuteChaincode env cfg (snd (kl_NewTxSimulator l)) chid vsccName vsccVer [Some [], Some envBytes, Some policy])
          (\<lambda>res. if rs_Status res \<noteq> shim_OK then Inl (Err (rs_Message res)) else Inr ()))"

definition written :: "TxRwSet \<Rightarrow> bytes list" where
  "written t = map NameSpace (filter (\<lambda>ns. kvrw_Writes (KvRwSet ns) \<noteq> []) t)"

text \<open>The loop over the namespaces an application chaincode writes to.\<close>

fun vscc_namespaces ::
    "('s, 'db, 'c) txv_env \<Rightarrow> 'c \<Rightarrow> ('s, 'db) kvLedger \<Rightarrow> bytes \<Rightarrow> ChannelHeader \<Rightarrow> bytes \<Rightarrow> bytes \<Rightarrow> bytes list
     \<Rightarrow> (error option \<times> TxValidationCode) res" where
  "vscc_namespaces env cfg l envBytes chdr ccID ccVer [] = Inr (None, VALID)"
| "vscc_namespaces env cfg l envBytes chdr ccID ccVer (ns # rest) =
     res_try (GetInfoForValidate env cfg l (ch_ChannelId chdr) ns)
       (\<lambda>e. Inr (Some e, INVALID_OTHER_REASON)) (\<lambda>(txcc, vscc, policy).
       if ns = ccID \<and> ci_ChaincodeVersion txcc \<noteq> ccVer
       then Inr (Some (Err ''Chaincode didn't match in lscc''), EXPIRED_CHAINCODE)
       else
         res_try (VSCCValidateTxForCC env cfg l envBytes (ch_ChannelId chdr) (ci_ChaincodeName vscc) (ci_ChaincodeVersion vscc) policy)
           (\<lambda>e. Inr (Some e, ENDORSEMENT_POLICY_FAILURE)) (\<lambda>_.
             vscc_namespaces env cfg l envBytes chdr ccID ccVer rest))"

definition vscc_system ::
    "('s, 'db, 'c) txv_env \<Rightarrow> 'c \<Rightarrow> ('s, 'db) kvLedger \<Rightarrow> bytes \<Rightarrow> ChannelHeader \<Rightarrow> bytes
     \<Rightarrow> (error option \<times> TxValidationCode) res" where
  "vscc_system env cfg l envBytes chdr ccID =
     (if IsSysCCAndNotInvokableExternal ccID
      then Inr (Some (Err ''Committing an invocation of cc is illegal''), ILLEGAL_WRITESET)
      else
        res_try (GetInfoForValidate env cfg l (ch_ChannelId chdr) ccID)
          (\<lambda>e. Inr (Some e, INVALID_OTHER_REASON)) (\<lambda>(_, vscc, policy).
        res_try (VSCCValidateTxForCC env cfg l envBytes (ci_ChainID vscc) (ci_ChaincodeName vscc) (ci_ChaincodeVersion vscc) policy)
          (\<lambda>e. Inr (Some e, ENDORSEMENT_POLICY_FAILURE)) (\<lambda>_.
            Inr (None, VALID))))"

text \<open>From the checks on the names of the chaincode on.\<close>

definition vscc_named ::
    "('s, 'db, 'c) txv_env \<Rightarrow> 'c \<Rightarrow> ('s, 'db) kvLedger \<Rightarrow> bytes \<Rightarrow> ChannelHeader \<Rightarrow> ChaincodeID \<Rightarrow> ChaincodeID \<Rightarrow> TxRwSet
     \<Rightarrow> (error option \<times> TxValidationCode) res" where
  "vscc_named env cfg l envBytes chdr hdrCC respCC txRWSet =
     (let ccID = cc_Name hdrCC; ccVer = cc_Version respCC; wrNamespace = written txRWSet in
      if ccID = [] then Inr (Some (Err ''invalid chaincode ID''), INVALID_OTHER_REASON)
      else if ccID \<noteq> cc_Name respCC then Inr (Some (Err ''inconsistent ccid info''), INVALID_OTHER_REASON)
      else if ccVer = [] then Inr (Some (Err ''invalid chaincode version''), INVALID_OTHER_REASON)
      else if \<not> IsSysCC ccID then
        if list_ex (\<lambda>ns. ns = ''lscc'') wrNamespace
        then Inr (Some (Err ''Chaincode attempted to write to the namespace of LSCC''), ILLEGAL_WRITESET)
        else if list_ex (\<lambda>ns. IsSysCCAndNotInvokableCC2CC ns \<or> IsSysCCAndNotInvokableExternal ns) wrNamespace
        then Inr (Some (Err ''Chaincode attempted to write to the namespace of a system chaincode that cannot be invoked''), ILLEGAL_WRITESET)
        else vscc_namespaces env cfg l envBytes chdr ccID ccVer wrNamespace
      else vscc_system env cfg l envBytes chdr ccID)"

definition VSCCValidateTx ::
    "('s, 'db, 'c) txv_env \<Rightarrow> 'c \<Rightarrow> ('s, 'db) kvLedger \<Rightarrow> Payload \<Rightarrow> bytes \<Rightarrow> (error option \<times> TxValidationCode) res" where
  "VSCCValidateTx env cfg l payload envBytes =
     res_bind (deref (pl_Header payload)) (\<lambda>hdr.
     res_try (pu_GetChaincodeHeaderExtension (tv_pu env) hdr) (\<lambda>e. Inr (Some e, BAD_HEADER_EXTENSION)) (\<lambda>hdrExt.
     res_try (pu_UnmarshalChannelHeader (tv_pu env) (hd_ChannelHeader hdr)) (\<lambda>e. Inr (Some e, BAD_CHANNEL_HEADER)) (\<lambda>chdr.
     res_try (pu_GetActionFromEnvelope (tv_pu env) envBytes) (\<lambda>e. Inr (Some e, BAD_RESPONSE_PAYLOAD)) (\<lambda>respPayload.
     res_try (FromProtoBytes (ve_codec (tv_pu env)) (ca_Results respPayload)) (\<lambda>e. Inr (Some e, BAD_RWSET)) (\<lambda>txRWSet.
     res_bind (deref (hx_ChaincodeId hdrExt)) (\<lambda>hdrCC.
     res_bind (deref (ca_ChaincodeId respPayload)) (\<lambda>respCC.
       vscc_named env cfg l envBytes chdr hdrCC respCC txRWSet)))))))"

section \<open>Upgrades in the same block\<close>

definition generateCCKey :: "bytes \<Rightarrow> bytes \<Rightarrow> bytes" where
  "generateCCKey ccName chainID = ccName @ ''/'' @ chainID"

abbreviation cc_key :: "ChaincodeInstance \<Rightarrow> bytes" where
  "cc_key cc \<equiv> generateCCKey (ci_ChaincodeName cc) (ci_ChainID cc)"

type_synonym cc_map = "(nat, ChaincodeInstance option) gomap"

text \<open>One round of the loop over the upgrades: the flags, the last upgrade of a key, the upgraded chaincodes.\<close>

definition upgrade_step ::
    "TxValidationFlags \<times> (bytes, nat) gomap \<times> (bytes, ChaincodeInstance) gomap \<Rightarrow> nat \<times> ChaincodeInstance option
     \<Rightarrow> (TxValidationFlags \<times> (bytes, nat) gomap \<times> (bytes, ChaincodeInstance) gomap) res" where
  "upgrade_step s itx =
     (let (txsfltr, finalValidUpgradeTXs, upgradedChaincodes) = s; (tIdx, cc) = itx in
      case cc of
        None \<Rightarrow> Inr s
      | Some cc \<Rightarrow>
          (let upgradedCCKey = cc_key cc in
           case gm_get finalValidUpgradeTXs upgradedCCKey of
             None \<Rightarrow> Inr (txsfltr, gm_put upgradedCCKey tIdx finalValidUpgradeTXs, gm_put upgradedCCKey cc upgradedChaincodes)
           | Some finalIdx \<Rightarrow>
               if finalIdx < tIdx then
                 res_bind (SetFlag txsfltr finalIdx CHAINCODE_VERSION_CONFLICT) (\<lambda>txsfltr.
                   Inr (txsfltr, gm_put upgradedCCKey tIdx finalValidUpgradeTXs, gm_put upgradedCCKey cc upgradedChaincodes))
               else
                 res_bind (SetFlag txsfltr tIdx CHAINCODE_VERSION_CONFLICT) (\<lambda>txsfltr.
                   Inr (txsfltr, finalValidUpgradeTXs, upgradedChaincodes))))"

definition invoked_step ::
    "(bytes, ChaincodeInstance) gomap \<Rightarrow> TxValidationFlags \<Rightarrow> nat \<times> ChaincodeInstance option \<Rightarrow> TxValidationFlags res" where
  "invoked_step upgradedChaincodes txsfltr itx =
     (let (tIdx, cc) = itx in
      case cc of
        None \<Rightarrow> Inr txsfltr
      | Some cc \<Rightarrow>
          if gm_get upgradedChaincodes (cc_key cc) \<noteq> None then
            res_bind (IsValid txsfltr tIdx) (\<lambda>valid.
              if valid then SetFlag txsfltr tIdx CHAINCODE_VERSION_CONFLICT else Inr txsfltr)
          else Inr txsfltr)"

text \<open>
  Go ranges over a map in an order of its own choice, anew in every loop: the entries in the order of the
  ranks that the choice gives their keys. Every order of the entries is the walk of some ranks
  (\<open>map_walk_any\<close>). The ranks \<open>ord 0\<close> are those of the loop over the upgrades,
  \<open>ord 1\<close> those of the loop over the names.
\<close>

definition map_walk :: "('k \<Rightarrow> nat) \<Rightarrow> ('k, 'v) gomap \<Rightarrow> ('k, 'v) gomap" where
  "map_walk rank m = sort_key (\<lambda>kv. rank (fst kv)) m"

definition invalidTXsForUpgradeCC :: "(nat \<Rightarrow> nat \<Rightarrow> nat) \<Rightarrow> cc_map \<Rightarrow> cc_map \<Rightarrow> TxValidationFlags \<Rightarrow> TxValidationFlags res" where
  "invalidTXsForUpgradeCC ord txsChaincodeNames txsUpgradedChaincodes txsfltr =
     (if length txsUpgradedChaincodes = 0 then Inr txsfltr
      else
        res_bind (foldM upgrade_step (txsfltr, [], []) (map_walk (ord 0) txsUpgradedChaincodes)) (\<lambda>(txsfltr, _, upgradedChaincodes).
          foldM (invoked_step upgradedChaincodes) txsfltr (map_walk (ord 1) txsChaincodeNames)))"

definition getUpgradeTxInstance :: "('s, 'db, 'c) txv_env \<Rightarrow> bytes \<Rightarrow> bytes \<Rightarrow> ChaincodeInstance res" where
  "getUpgradeTxInstance env chainID cdsBytes =
     res_bind (pu_GetChaincodeDeploymentSpec (tv_pu env) cdsBytes) (\<lambda>cds.
     res_bind (deref (cds_ChaincodeSpec cds)) (\<lambda>spec.
     res_bind (deref (cs_ChaincodeId spec)) (\<lambda>cc.
       Inr \<lparr>ci_ChainID = chainID, ci_ChaincodeName = cc_Name cc, ci_ChaincodeVersion = cc_Version cc\<rparr>)))"

definition getTxCCInstance ::
    "('s, 'db, 'c) txv_env \<Rightarrow> Payload \<Rightarrow> (ChaincodeInstance option \<times> ChaincodeInstance option) res" where
  "getTxCCInstance env payload =
     res_bind (deref (pl_Header payload)) (\<lambda>hdr.
     res_bind (pu_UnmarshalChannelHeader (tv_pu env) (hd_ChannelHeader hdr)) (\<lambda>chdr.
     res_bind (pu_GetChaincodeHeaderExtension (tv_pu env) hdr) (\<lambda>hdrExt.
     res_bind (deref (hx_ChaincodeId hdrExt)) (\<lambda>invokeCC.
       let invokeIns = \<lparr>ci_ChainID = ch_ChannelId chdr, ci_ChaincodeName = cc_Name invokeCC, ci_ChaincodeVersion = cc_Version invokeCC\<rparr> in
     res_try (pu_GetTransaction (tv_pu env) (str_of (pl_Data payload))) (\<lambda>_. Inr (Some invokeIns, None)) (\<lambda>actions.
     res_bind (index_at actions 0) (\<lambda>a0.
     res_bind (deref a0) (\<lambda>action.
     res_try (pu_GetChaincodeActionPayload (tv_pu env) (ta_Payload action)) (\<lambda>_. Inr (Some invokeIns, None)) (\<lambda>cap.
     res_try (pu_GetChaincodeProposalPayload (tv_pu env) (cap_ChaincodeProposalPayload cap)) (\<lambda>_. Inr (Some invokeIns, None)) (\<lambda>input.
     res_try (pu_UnmarshalInvocationSpec (tv_pu env) input) (\<lambda>_. Inr (Some invokeIns, None)) (\<lambda>cis.
       if cc_Name invokeCC = ''lscc'' then
         res_bind (deref (cis_ChaincodeSpec cis)) (\<lambda>spec.
         res_bind (deref (cs_Input spec)) (\<lambda>inp.
         res_bind (index_at (in_Args inp) 0) (\<lambda>fn.
           if fn = ''upgrade'' then
             res_bind (index_at (in_Args inp) 2) (\<lambda>cdsBytes.
             res_try (getUpgradeTxInstance env (ch_ChannelId chdr) cdsBytes) (\<lambda>_. Inr (Some invokeIns, None)) (\<lambda>upgradeIns.
               Inr (Some invokeIns, Some upgradeIns)))
           else Inr (Some invokeIns, None))))
       else Inr (Some invokeIns, None)))))))))))"

section \<open>Validating a block\<close>

record 'c vt_state =
  vs_flags :: TxValidationFlags
  vs_invoked :: cc_map
  vs_upgraded :: cc_map
  vs_cfg :: 'c

definition chainExists :: "bytes \<Rightarrow> bool" where
  "chainExists chain = True"

text \<open>\<^verbatim>\<open>txsfltr.SetFlag(tIdx, code); continue\<close>\<close>

definition flag_tx :: "'c vt_state \<Rightarrow> nat \<Rightarrow> TxValidationCode \<Rightarrow> (error option \<times> 'c vt_state) res" where
  "flag_tx vs tIdx code = res_bind (SetFlag (vs_flags vs) tIdx code) (\<lambda>f. Inr (None, vs\<lparr>vs_flags := f\<rparr>))"

text \<open>The end of the loop body, for a transaction that has passed everything before it.\<close>

definition pass_tx ::
    "('s, 'db, 'c) txv_env \<Rightarrow> 'c vt_state \<Rightarrow> nat \<Rightarrow> Envelope \<Rightarrow> (error option \<times> 'c vt_state) res" where
  "pass_tx env vs tIdx e =
     res_try (tv_MarshalEnvelope env e) (\<lambda>_. flag_tx vs tIdx MARSHAL_TX_ERROR) (\<lambda>_. flag_tx vs tIdx VALID)"

definition check_endorser_tx ::
    "('s, 'db, 'c) txv_env \<Rightarrow> ('s, 'db) kvLedger \<Rightarrow> 'c vt_state \<Rightarrow> nat \<Rightarrow> bytes \<Rightarrow> Envelope \<Rightarrow> Payload \<Rightarrow> ChannelHeader
     \<Rightarrow> (error option \<times> 'c vt_state) res" where
  "check_endorser_tx env l vs tIdx d e payload chdr =
     res_try (GetTransactionByID (tv_kvl env) l (ch_TxId chdr))
       (\<lambda>_.
          res_bind (VSCCValidateTx env (vs_cfg vs) l payload d) (\<lambda>(err, cde).
            if err \<noteq> None then flag_tx vs tIdx cde
            else
              res_try (getTxCCInstance env payload) (\<lambda>_. flag_tx vs tIdx INVALID_OTHER_REASON) (\<lambda>(invokeCC, upgradeCC).
                let vs = vs\<lparr>vs_invoked := gm_put tIdx invokeCC (vs_invoked vs)\<rparr>;
                    vs = (if upgradeCC \<noteq> None then vs\<lparr>vs_upgraded := gm_put tIdx upgradeCC (vs_upgraded vs)\<rparr> else vs)
                in pass_tx env vs tIdx e)))
       (\<lambda>_. flag_tx vs tIdx DUPLICATE_TXID)"

definition check_config_tx ::
    "('s, 'db, 'c) txv_env \<Rightarrow> 'c vt_state \<Rightarrow> nat \<Rightarrow> Envelope \<Rightarrow> Payload \<Rightarrow> (error option \<times> 'c vt_state) res" where
  "check_config_tx env vs tIdx e payload =
     res_try (tv_UnmarshalConfigEnvelope env (str_of (pl_Data payload)))
       (\<lambda>_. Inr (Some (Err ''Error unmarshaling config which passed initial validity checks''), vs)) (\<lambda>configEnvelope.
     res_try (tv_Apply env configEnvelope (vs_cfg vs))
       (\<lambda>_. Inr (Some (Err ''Error validating config which passed initial validity checks''), vs)) (\<lambda>cfg.
       pass_tx env (vs\<lparr>vs_cfg := cfg\<rparr>) tIdx e))"

definition check_envelope ::
    "('s, 'db, 'c) txv_env \<Rightarrow> ('s, 'db) kvLedger \<Rightarrow> 'c vt_state \<Rightarrow> nat \<Rightarrow> bytes \<Rightarrow> Envelope
     \<Rightarrow> (error option \<times> 'c vt_state) res" where
  "check_envelope env l vs tIdx d e =
     res_bind (ValidateTransaction (tv_pu env) (tv_mv env (vs_cfg vs)) (Some e)) (\<lambda>(payload, txResult).
       if txResult \<noteq> VALID then flag_tx vs tIdx txResult
       else
         res_bind (deref payload) (\<lambda>payload.
         res_bind (deref (pl_Header payload)) (\<lambda>hdr.
         res_try (pu_UnmarshalChannelHeader (tv_pu env) (hd_ChannelHeader hdr)) (\<lambda>_. flag_tx vs tIdx INVALID_OTHER_REASON) (\<lambda>chdr.
           if \<not> chainExists (ch_ChannelId chdr) then flag_tx vs tIdx TARGET_CHAIN_NOT_FOUND
           else if ch_Type chdr = ENDORSER_TRANSACTION then check_endorser_tx env l vs tIdx d e payload chdr
           else if ch_Type chdr = CONFIG then check_config_tx env vs tIdx e payload
           else flag_tx vs tIdx UNKNOWN_TX_TYPE))))"

text \<open>An envelope that \<^verbatim>\<open>GetEnvelopeFromBlock\<close> returns without an error is not nil.\<close>

definition check_tx ::
    "('s, 'db, 'c) txv_env \<Rightarrow> ('s, 'db) kvLedger \<Rightarrow> 'c vt_state \<Rightarrow> nat \<Rightarrow> slice \<Rightarrow> (error option \<times> 'c vt_state) res" where
  "check_tx env l vs tIdx d =
     (case d of
        None \<Rightarrow> Inr (None, vs)
      | Some d \<Rightarrow>
          res_try (pu_GetEnvelopeFromBlock (tv_pu env) d) (\<lambda>_. flag_tx vs tIdx INVALID_OTHER_REASON) (\<lambda>e.
            check_envelope env l vs tIdx d e))"

fun check_txs ::
    "('s, 'db, 'c) txv_env \<Rightarrow> ('s, 'db) kvLedger \<Rightarrow> 'c vt_state \<Rightarrow> nat \<Rightarrow> slice list \<Rightarrow> (error option \<times> 'c vt_state) res" where
  "check_txs env l vs tIdx [] = Inr (None, vs)"
| "check_txs env l vs tIdx (d # ds) =
     res_bind (check_tx env l vs tIdx d) (\<lambda>(err, vs).
       if err \<noteq> None then Inr (err, vs) else check_txs env l vs (Suc tIdx) ds)"

definition txv_Validate ::
    "('s, 'db, 'c) txv_env \<Rightarrow> ('s, 'db) kvLedger \<Rightarrow> Block \<Rightarrow> 'c \<Rightarrow> (error option \<times> Block \<times> 'c) res" where
  "txv_Validate env l block cfg =
     res_bind (check_txs env l \<lparr>vs_flags = NewTxValidationFlags (length (blk_Data block)), vs_invoked = [], vs_upgraded = [], vs_cfg = cfg\<rparr>
         0 (map Some (blk_Data block))) (\<lambda>(err, vs).
       if err \<noteq> None then Inr (err, block, vs_cfg vs)
       else
         res_bind (invalidTXsForUpgradeCC (tv_order env) (vs_invoked vs) (vs_upgraded vs) (vs_flags vs)) (\<lambda>txsfltr.
           Inr (None, block\<lparr>blk_TxFilter := txsfltr\<rparr>, vs_cfg vs)))"

section \<open>The upgrade rule\<close>

definition upgraded_key :: "cc_map \<Rightarrow> bytes \<Rightarrow> bool" where
  "upgraded_key us k \<longleftrightarrow> (\<exists>i cc. (i, Some cc) \<in> set us \<and> cc_key cc = k)"

definition superseded :: "cc_map \<Rightarrow> nat \<Rightarrow> bool" where
  "superseded us i \<longleftrightarrow> (\<exists>cc j cc'. (i, Some cc) \<in> set us \<and> (j, Some cc') \<in> set us \<and> cc_key cc = cc_key cc' \<and> i < j)"

definition last_upgrade :: "cc_map \<Rightarrow> bytes \<Rightarrow> nat \<Rightarrow> bool" where
  "last_upgrade us k m \<longleftrightarrow> (\<exists>cc. (m, Some cc) \<in> set us \<and> cc_key cc = k)
     \<and> (\<forall>j cc. (j, Some cc) \<in> set us \<and> cc_key cc = k \<longrightarrow> j \<le> m)"

definition upgrade_inv ::
    "cc_map \<Rightarrow> TxValidationFlags \<Rightarrow> TxValidationFlags \<times> (bytes, nat) gomap \<times> (bytes, ChaincodeInstance) gomap \<Rightarrow> bool" where
  "upgrade_inv us f0 s \<longleftrightarrow> (case s of (f, fin, upg) \<Rightarrow> length f = length f0
     \<and> (\<forall>i < length f0. f ! i = (if superseded us i then CHAINCODE_VERSION_CONFLICT else f0 ! i))
     \<and> (\<forall>k. gm_get fin k = None \<longleftrightarrow> \<not> upgraded_key us k) \<and> (\<forall>k m. gm_get fin k = Some m \<longrightarrow> last_upgrade us k m)
     \<and> (\<forall>k. gm_get upg k = None \<longleftrightarrow> \<not> upgraded_key us k))"

lemma upgraded_key_snoc:
  "upgraded_key (us @ [(t, None)]) k = upgraded_key us k"
  "upgraded_key (us @ [(t, Some cc)]) k \<longleftrightarrow> upgraded_key us k \<or> cc_key cc = k"
  by (auto simp: upgraded_key_def)

lemma superseded_snoc:
  "superseded (us @ [(t, None)]) i = superseded us i"
  "superseded (us @ [(t, Some cc)]) i \<longleftrightarrow> superseded us i
     \<or> (\<exists>cc'. (i, Some cc') \<in> set us \<and> cc_key cc' = cc_key cc \<and> i < t)
     \<or> i = t \<and> (\<exists>j cc'. (j, Some cc') \<in> set us \<and> cc_key cc' = cc_key cc \<and> t < j)"
  by (auto simp: superseded_def) metis

lemma last_upgrade_snoc:
  "last_upgrade us k m \<Longrightarrow> last_upgrade (us @ [(t, None)]) k m"
  "last_upgrade us k m \<Longrightarrow> cc_key cc \<noteq> k \<Longrightarrow> last_upgrade (us @ [(t, Some cc)]) k m"
  "last_upgrade us (cc_key cc) m \<Longrightarrow> t \<le> m \<Longrightarrow> last_upgrade (us @ [(t, Some cc)]) (cc_key cc) m"
  "last_upgrade us (cc_key cc) m \<Longrightarrow> m < t \<Longrightarrow> last_upgrade (us @ [(t, Some cc)]) (cc_key cc) t"
  "\<not> upgraded_key us (cc_key cc) \<Longrightarrow> last_upgrade (us @ [(t, Some cc)]) (cc_key cc) t"
  by (auto simp: last_upgrade_def upgraded_key_def)

lemma last_supersedes:
  assumes "last_upgrade us k m" "(i, Some cc) \<in> set us" "cc_key cc = k" "i \<noteq> m"
  shows "superseded us i"
  using assms unfolding last_upgrade_def superseded_def by (metis le_neq_implies_less)

lemma upgrade_step_inv:
  assumes inv: "upgrade_inv us f0 s" and t: "t \<notin> fst ` set us" "t < length f0" "\<forall>x \<in> set us. fst x < length f0"
  shows "\<exists>s'. upgrade_step s (t, cc) = Inr s' \<and> upgrade_inv (us @ [(t, cc)]) f0 s'"
proof (cases cc)
  case None
  then show ?thesis using inv
    by (auto simp: upgrade_step_def upgrade_inv_def upgraded_key_snoc superseded_snoc last_upgrade_snoc(1) split: prod.splits)
next
  case (Some c)
  obtain f fin upg where s: "s = (f, fin, upg)" by (metis prod_cases3)
  note i = inv [unfolded upgrade_inv_def s prod.case]
  show ?thesis
  proof (cases "gm_get fin (cc_key c)")
    case None
    then have n: "\<not> upgraded_key us (cc_key c)" using i by blast
    then have "superseded (us @ [(t, Some c)]) j = superseded us j" for j
      by (auto simp: superseded_snoc upgraded_key_def)
    then have "upgrade_inv (us @ [(t, Some c)]) f0 (f, gm_put (cc_key c) t fin, gm_put (cc_key c) c upg)"
      using i last_upgrade_snoc(5) [OF n] last_upgrade_snoc(2) by (auto simp: upgrade_inv_def upgraded_key_snoc)
    then show ?thesis using None Some s by (simp add: upgrade_step_def Let_def)
  next
    case m: (Some m)
    then have last: "last_upgrade us (cc_key c) m" using i by blast
    then obtain mc where mc: "(m, Some mc) \<in> set us" "cc_key mc = cc_key c" by (auto simp: last_upgrade_def)
    have ml: "m < length f0" using mc(1) t(3) by fastforce
    have up: "upgraded_key us (cc_key c)" using mc by (auto simp: upgraded_key_def)
    have tm: "t \<noteq> m" using mc(1) t(1) by force
    have not_t: "(t, x) \<notin> set us" for x using t(1) by force
    show ?thesis
    proof (cases "m < t")
      case True
      have "superseded (us @ [(t, Some c)]) j \<longleftrightarrow> superseded us j \<or> j = m" for j
        using True mc last_supersedes [OF last] last by (auto simp: superseded_snoc last_upgrade_def)
      then have "upgrade_inv (us @ [(t, Some c)]) f0 (f[m := CHAINCODE_VERSION_CONFLICT], gm_put (cc_key c) t fin, gm_put (cc_key c) c upg)"
        using i ml last_upgrade_snoc(4) [OF last True] last_upgrade_snoc(2) by (auto simp: upgrade_inv_def upgraded_key_snoc nth_list_update)
      then show ?thesis using True Some m s ml i by (simp add: upgrade_step_def Let_def)
    next
      case False
      then have later: "\<exists>j cc'. (j, Some cc') \<in> set us \<and> cc_key cc' = cc_key c \<and> t < j" using mc tm by (metis linorder_neqE_nat)
      have "superseded (us @ [(t, Some c)]) j \<longleftrightarrow> superseded us j \<or> j = t" for j
        using False later last_supersedes [OF last] by (auto simp: superseded_snoc)
      moreover have "last_upgrade (us @ [(t, Some c)]) k n" if "gm_get fin k = Some n" for k n
        using that i last_upgrade_snoc(2,3) False m by (cases "k = cc_key c") auto
      ultimately have "upgrade_inv (us @ [(t, Some c)]) f0 (f[t := CHAINCODE_VERSION_CONFLICT], fin, upg)"
        using i t(2) up by (auto simp: upgrade_inv_def upgraded_key_snoc nth_list_update)
      then show ?thesis using False Some m s t(2) i by (simp add: upgrade_step_def Let_def)
    qed
  qed
qed

lemma upgrades_inv:
  assumes "gm_ok us" "\<forall>x \<in> set us. fst x < length f0"
  shows "\<exists>s. foldM upgrade_step (f0, [], []) us = Inr s \<and> upgrade_inv us f0 s"
  using assms
proof (induction us rule: rev_induct)
  case Nil
  then show ?case by (simp add: upgrade_inv_def superseded_def upgraded_key_def)
next
  case (snoc x us)
  then obtain s where s: "foldM upgrade_step (f0, [], []) us = Inr s" "upgrade_inv us f0 s" by auto
  show ?case
    using upgrade_step_inv [OF s(2), of "fst x" "snd x"] snoc.prems s(1) by (auto simp: foldM_append)
qed

lemma invoked_fold:
  assumes "gm_ok invs" "\<forall>x \<in> set invs. fst x < length f"
  shows "\<exists>f'. foldM (invoked_step upg) f invs = Inr f' \<and> length f' = length f
    \<and> (\<forall>i < length f. f' ! i = (if f ! i = VALID \<and> (\<exists>cc. (i, Some cc) \<in> set invs \<and> gm_get upg (cc_key cc) \<noteq> None)
          then CHAINCODE_VERSION_CONFLICT else f ! i))"
  using assms
proof (induction invs arbitrary: f)
  case (Cons x invs)
  obtain t cc where x: "x = (t, cc)" by force
  define f1 where "f1 = (if f ! t = VALID \<and> (\<exists>c. cc = Some c \<and> gm_get upg (cc_key c) \<noteq> None) then f[t := CHAINCODE_VERSION_CONFLICT] else f)"
  have t: "t < length f" "\<And>y. (t, y) \<notin> set invs" using Cons.prems x by force+
  have step: "invoked_step upg f x = Inr f1"
    using t(1) by (auto simp: x invoked_step_def f1_def split: option.split)
  have "length f1 = length f" by (simp add: f1_def)
  then obtain f' where f': "foldM (invoked_step upg) f1 invs = Inr f'" "length f' = length f"
    "\<forall>i < length f. f' ! i = (if f1 ! i = VALID \<and> (\<exists>cc. (i, Some cc) \<in> set invs \<and> gm_get upg (cc_key cc) \<noteq> None)
          then CHAINCODE_VERSION_CONFLICT else f1 ! i)"
    using Cons.IH [of f1] Cons.prems by auto
  have "f' ! i = (if f ! i = VALID \<and> (\<exists>cc. (i, Some cc) \<in> set (x # invs) \<and> gm_get upg (cc_key cc) \<noteq> None)
          then CHAINCODE_VERSION_CONFLICT else f ! i)" if "i < length f" for i
  proof (cases "i = t")
    case True
    then have "f' ! i = f1 ! t" using f'(3) that t(2) by auto
    then show ?thesis using True t by (auto simp: x f1_def)
  next
    case False
    then have "f1 ! i = f ! i" "(i, y) \<in> set (x # invs) \<longleftrightarrow> (i, y) \<in> set invs" for y by (auto simp: f1_def x)
    then show ?thesis using f'(3) that by simp
  qed
  then show ?case using step f'(1,2) by simp
qed simp

lemma map_walk_set [simp]: "set (map_walk rank m) = set m"
  by (simp add: map_walk_def)

lemma map_walk_ok: "gm_ok m \<Longrightarrow> gm_ok (map_walk rank m)"
  by (simp add: map_walk_def distinct_map)

lemma map_walk_any:
  assumes "gm_ok ys" "set ys = set m" "distinct m"
  shows "\<exists>rank. map_walk rank m = ys"
proof -
  define rank where "rank k = (LEAST i. i < length ys \<and> fst (ys ! i) = k)" for k
  let ?f = "\<lambda>kv. rank (fst kv)"
  have "rank (fst (ys ! i)) = i" if "i < length ys" for i
    unfolding rank_def using that assms(1) by (intro Least_equality) (auto simp: distinct_conv_nth)
  then have f: "map ?f ys = [0..<length ys]" by (intro nth_equalityI) auto
  have "distinct (map ?f ys)" unfolding f by simp
  then have inj: "inj_on ?f (set m)" using assms(2) by (simp add: distinct_map)
  have "map ?f (sort_key ?f m) = map ?f ys"
  proof (rule sorted_distinct_set_unique)
    show "sorted (map ?f ys)" "distinct (map ?f ys)" unfolding f by simp_all
    show "distinct (map ?f (sort_key ?f m))" using assms(3) inj by (simp add: distinct_map)
  qed (simp_all add: assms(2))
  then have "sort_key ?f m = ys" using inj assms(2) by (intro map_inj_on [of ?f]) simp_all
  then show ?thesis unfolding map_walk_def by blast
qed

lemma superseded_walk [simp]: "superseded (map_walk rank us) = superseded us" "upgraded_key (map_walk rank us) = upgraded_key us"
  by (auto simp: superseded_def upgraded_key_def fun_eq_iff)

lemma invalidTXs_spec:
  assumes "gm_ok invs" "gm_ok us" "\<forall>x \<in> set invs. fst x < length f" "\<forall>x \<in> set us. fst x < length f"
  shows "\<exists>f'. invalidTXsForUpgradeCC ord invs us f = Inr f' \<and> length f' = length f
    \<and> (\<forall>i < length f. f' ! i = (if superseded us i \<or> f ! i = VALID \<and> (\<exists>cc. (i, Some cc) \<in> set invs \<and> upgraded_key us (cc_key cc))
          then CHAINCODE_VERSION_CONFLICT else f ! i))"
proof (cases "us = []")
  case True
  then show ?thesis by (simp add: invalidTXsForUpgradeCC_def superseded_def upgraded_key_def)
next
  case False
  have "\<forall>x \<in> set (map_walk (ord 0) us). fst x < length f" using assms(4) by simp
  from upgrades_inv [OF map_walk_ok [OF assms(2)] this] obtain f1 fin upg
    where u: "foldM upgrade_step (f, [], []) (map_walk (ord 0) us) = Inr (f1, fin, upg)" "upgrade_inv (map_walk (ord 0) us) f (f1, fin, upg)"
    by (metis prod_cases3)
  note i = u(2) [unfolded upgrade_inv_def prod.case superseded_walk]
  obtain f' where f': "foldM (invoked_step upg) f1 (map_walk (ord 1) invs) = Inr f'" "length f' = length f1"
    "\<forall>i < length f1. f' ! i = (if f1 ! i = VALID \<and> (\<exists>cc. (i, Some cc) \<in> set invs \<and> gm_get upg (cc_key cc) \<noteq> None)
          then CHAINCODE_VERSION_CONFLICT else f1 ! i)"
    using invoked_fold [OF map_walk_ok [OF assms(1)], of "ord 1" f1 upg] assms(3) i by auto
  have "f' ! j = (if superseded us j \<or> f ! j = VALID \<and> (\<exists>cc. (j, Some cc) \<in> set invs \<and> upgraded_key us (cc_key cc))
          then CHAINCODE_VERSION_CONFLICT else f ! j)" if "j < length f" for j
    using f'(3) i that by auto
  then show ?thesis using u(1) f'(1,2) i False by (simp add: invalidTXsForUpgradeCC_def)
qed

section \<open>One transaction at a time\<close>

text \<open>What the body of the loop finds out about one transaction, on its own.\<close>

record judgement =
  j_code :: TxValidationCode
  j_invoked :: "ChaincodeInstance option"
  j_upgraded :: "ChaincodeInstance option"

definition join :: "'a option option \<Rightarrow> 'a option" where
  "join x = (case x of None \<Rightarrow> None | Some y \<Rightarrow> y)"

definition judge :: "('s, 'db, 'c) txv_env \<Rightarrow> ('s, 'db) kvLedger \<Rightarrow> 'c \<Rightarrow> bytes \<Rightarrow> (error option \<times> judgement \<times> 'c) res" where
  "judge env l cfg d =
     res_bind (check_tx env l \<lparr>vs_flags = [VALID], vs_invoked = [], vs_upgraded = [], vs_cfg = cfg\<rparr> 0 (Some d)) (\<lambda>(err, vs).
       Inr (err, \<lparr>j_code = hd (vs_flags vs), j_invoked = join (gm_get (vs_invoked vs) 0), j_upgraded = join (gm_get (vs_upgraded vs) 0)\<rparr>,
            vs_cfg vs))"

fun judges :: "('s, 'db, 'c) txv_env \<Rightarrow> ('s, 'db) kvLedger \<Rightarrow> 'c \<Rightarrow> bytes list \<Rightarrow> (error option \<times> judgement list \<times> 'c) res" where
  "judges env l cfg [] = Inr (None, [], cfg)"
| "judges env l cfg (d # ds) =
     res_bind (judge env l cfg d) (\<lambda>(err, j, cfg).
       if err \<noteq> None then Inr (err, [], cfg)
       else res_bind (judges env l cfg ds) (\<lambda>(err, js, cfg). Inr (err, j # js, cfg)))"

definition put_some :: "nat \<Rightarrow> ChaincodeInstance option \<Rightarrow> cc_map \<Rightarrow> cc_map" where
  "put_some i x m = (if x = None then m else gm_put i x m)"

definition apply_judgement :: "'c vt_state \<Rightarrow> nat \<Rightarrow> judgement \<Rightarrow> 'c \<Rightarrow> 'c vt_state" where
  "apply_judgement vs i j cfg = \<lparr>vs_flags = (vs_flags vs)[i := j_code j], vs_invoked = put_some i (j_invoked j) (vs_invoked vs),
     vs_upgraded = put_some i (j_upgraded j) (vs_upgraded vs), vs_cfg = cfg\<rparr>"

lemma getTxCCInstance_some: "getTxCCInstance env payload = Inr (x, u) \<Longrightarrow> \<exists>c. x = Some c"
  unfolding getTxCCInstance_def by (auto simp: res_bind_Inr_conv res_try_Inr_conv Let_def split: if_splits)

definition lift :: "'c vt_state \<Rightarrow> nat \<Rightarrow> 'c vt_state \<Rightarrow> 'c vt_state" where
  "lift vs i v = apply_judgement vs i
     \<lparr>j_code = hd (vs_flags v), j_invoked = join (gm_get (vs_invoked v) 0), j_upgraded = join (gm_get (vs_upgraded v) 0)\<rparr> (vs_cfg v)"

definition lifted :: "'c vt_state \<Rightarrow> nat \<Rightarrow> (error option \<times> 'c vt_state) res \<Rightarrow> (error option \<times> 'c vt_state) res" where
  "lifted vs i r = res_bind r (\<lambda>(err, v). Inr (err, lift vs i v))"

abbreviation solo :: "'c \<Rightarrow> 'c vt_state" where
  "solo cfg \<equiv> \<lparr>vs_flags = [VALID], vs_invoked = [], vs_upgraded = [], vs_cfg = cfg\<rparr>"

lemma lifted_simps:
  "lifted vs i (Inr (err, v)) = Inr (err, lift vs i v)" "lifted vs i (Inl e) = Inl e"
  "lifted vs i (res_try x h f) = res_try x (\<lambda>e. lifted vs i (h e)) (\<lambda>v. lifted vs i (f v))"
  "lifted vs i (res_bind y g) = res_bind y (\<lambda>v. lifted vs i (g v))"
  "lifted vs i (if b then p else q) = (if b then lifted vs i p else lifted vs i q)"
  "lifted vs i (case z of (a, b) \<Rightarrow> k a b) = (case z of (a, b) \<Rightarrow> lifted vs i (k a b))"
  by (simp_all add: lifted_def res_bind_try res_bind_assoc split: prod.split)

lemma flag_lift:
  assumes "i < length (vs_flags vs)" "length (vs_flags v) = 1"
  shows "flag_tx (lift vs i v) i code = lifted vs i (flag_tx v 0 code)"
  using assms by (auto simp: flag_tx_def lifted_def lift_def apply_judgement_def SetFlag_def length_Suc_conv)

lemma pass_lift:
  assumes "i < length (vs_flags vs)" "length (vs_flags v) = 1"
  shows "pass_tx env (lift vs i v) i e = lifted vs i (pass_tx env v 0 e)"
  using flag_lift [OF assms] by (simp add: pass_tx_def lifted_simps)

lemma lift_cfg [simp]: "vs_cfg (lift vs i v) = vs_cfg v"
  by (simp add: lift_def apply_judgement_def)

lemma endorser_lift:
  assumes "i < length (vs_flags vs)"
  shows "check_endorser_tx env l (lift vs i (solo cfg)) i d e payload chdr
    = lifted vs i (check_endorser_tx env l (solo cfg) 0 d e payload chdr)"
proof -
  have "pass_tx env ((lift vs i (solo cfg))\<lparr>vs_invoked := gm_put i (Some x) (vs_invoked (lift vs i (solo cfg)))\<rparr>) i e
      = lifted vs i (pass_tx env ((solo cfg)\<lparr>vs_invoked := [(0, Some x)]\<rparr>) 0 e)"
    "pass_tx env ((lift vs i (solo cfg))\<lparr>vs_invoked := gm_put i (Some x) (vs_invoked (lift vs i (solo cfg))),
        vs_upgraded := gm_put i (Some u) (vs_upgraded (lift vs i (solo cfg)))\<rparr>) i e
      = lifted vs i (pass_tx env ((solo cfg)\<lparr>vs_invoked := [(0, Some x)], vs_upgraded := [(0, Some u)]\<rparr>) 0 e)"
    for x u
    using pass_lift [OF assms, of "(solo cfg)\<lparr>vs_invoked := [(0, Some x)]\<rparr>" env e]
      pass_lift [OF assms, of "(solo cfg)\<lparr>vs_invoked := [(0, Some x)], vs_upgraded := [(0, Some u)]\<rparr>" env e]
    by (simp_all add: lift_def apply_judgement_def put_some_def join_def)
  then show ?thesis
    unfolding check_endorser_tx_def lifted_simps
    by (intro res_try_cong res_bind_cong refl)
      (auto simp: flag_lift [OF assms] lifted_simps Let_def dest!: getTxCCInstance_some intro!: res_try_cong split: prod.split)
qed


lemma config_lift:
  assumes "i < length (vs_flags vs)"
  shows "check_config_tx env (lift vs i (solo cfg)) i e payload = lifted vs i (check_config_tx env (solo cfg) 0 e payload)"
proof -
  have "(lift vs i (solo cfg))\<lparr>vs_cfg := c\<rparr> = lift vs i (solo c)" for c by (simp add: lift_def apply_judgement_def)
  then show ?thesis
    unfolding check_config_tx_def lifted_simps using pass_lift [OF assms, of "solo _" env e] by simp
qed

lemma check_tx_lift:
  assumes "i < length (vs_flags vs)"
  shows "check_tx env l (lift vs i (solo cfg)) i (Some d) = lifted vs i (check_tx env l (solo cfg) 0 (Some d))"
  unfolding check_tx_def check_envelope_def option.case lifted_simps
  by (simp add: flag_lift [OF assms] endorser_lift [OF assms] config_lift [OF assms] case_prod_unfold lifted_simps cong: if_cong)

lemma check_tx_judge:
  assumes "i < length (vs_flags vs)" "vs_flags vs ! i = VALID"
  shows "check_tx env l vs i (Some d) = res_bind (judge env l (vs_cfg vs) d) (\<lambda>(err, j, cfg).
     Inr (err, apply_judgement vs i j cfg))"
proof -
  have "lift vs i (solo (vs_cfg vs)) = vs"
    using assms by (simp add: lift_def apply_judgement_def put_some_def join_def list_update_same_conv)
  then show ?thesis
    using check_tx_lift [OF assms(1), of env l "vs_cfg vs" d]
    by (simp add: lifted_def judge_def res_bind_assoc lift_def case_prod_unfold)
qed

section \<open>The whole block\<close>

lemma shift_entries:
  "{(n + i, Some cc) | i cc. i < length (x # xs) \<and> f ((x # xs) ! i) = Some cc}
     = {(n, Some cc) | cc. f x = Some cc} \<union> {(Suc n + i, Some cc) | i cc. i < length xs \<and> f (xs ! i) = Some cc}"
  (is "?A = ?B")
proof (intro subset_antisym subsetI)
  fix p assume "p \<in> ?A"
  then obtain i cc where "p = (n + i, Some cc)" "i < length (x # xs)" "f ((x # xs) ! i) = Some cc" by blast
  then show "p \<in> ?B" by (cases i) auto
next
  have sub: "(n + i, Some cc) \<in> ?A" if "i < length (x # xs)" "f ((x # xs) ! i) = Some cc" for i cc using that by blast
  fix p assume "p \<in> ?B"
  then show "p \<in> ?A" using sub [of 0] sub [of "Suc _"] by auto
qed

lemma check_txs_judges:
  assumes "judges env l cfg ds = Inr (None, js, cfg')" "length (vs_flags vs) = n + length ds"
    and "\<forall>i < length ds. vs_flags vs ! (n + i) = VALID" "vs_cfg vs = cfg"
    and "gm_ok (vs_invoked vs)" "gm_ok (vs_upgraded vs)" "\<forall>x \<in> set (vs_invoked vs) \<union> set (vs_upgraded vs). fst x < n"
  shows "\<exists>vs'. check_txs env l vs n (map Some ds) = Inr (None, vs') \<and> vs_cfg vs' = cfg' \<and> length js = length ds
    \<and> vs_flags vs' = take n (vs_flags vs) @ map j_code js
    \<and> gm_ok (vs_invoked vs') \<and> gm_ok (vs_upgraded vs')
    \<and> set (vs_invoked vs') = set (vs_invoked vs) \<union> {(n + i, Some cc) | i cc. i < length js \<and> j_invoked (js ! i) = Some cc}
    \<and> set (vs_upgraded vs') = set (vs_upgraded vs) \<union> {(n + i, Some cc) | i cc. i < length js \<and> j_upgraded (js ! i) = Some cc}"
  using assms
proof (induction ds arbitrary: vs n cfg js)
  case (Cons d ds)
  from Cons.prems(1) obtain j cfg1 js1 where j: "judge env l cfg d = Inr (None, j, cfg1)"
    "judges env l cfg1 ds = Inr (None, js1, cfg')" "js = j # js1"
    by (auto simp: res_bind_Inr_conv split: if_splits)
  let ?v = "apply_judgement vs n j cfg1"
  have n: "n < length (vs_flags vs)" "vs_flags vs ! n = VALID" using Cons.prems(2,3) by force+
  have step: "check_tx env l vs n (Some d) = Inr (None, ?v)"
    using check_tx_judge [OF n, of env l d] j(1) Cons.prems(4) by simp
  have new: "gm_ok (put_some n x m) \<and> set (put_some n x m) = set m \<union> {(n, Some cc) | cc. x = Some cc}"
    if "gm_ok m" "\<forall>y \<in> set m. fst y < n" for x m
  proof -
    have "n \<notin> fst ` set m" using that(2) by force
    then show ?thesis using that(1) by (auto simp: put_some_def distinct_update gm_put_new)
  qed
  have v: "gm_ok (vs_invoked ?v)" "gm_ok (vs_upgraded ?v)"
    "set (vs_invoked ?v) = set (vs_invoked vs) \<union> {(n, Some cc) | cc. j_invoked j = Some cc}"
    "set (vs_upgraded ?v) = set (vs_upgraded vs) \<union> {(n, Some cc) | cc. j_upgraded j = Some cc}"
    using new [of "vs_invoked vs" "j_invoked j"] new [of "vs_upgraded vs" "j_upgraded j"] Cons.prems(5-7) by (auto simp: apply_judgement_def)
  have flags: "\<forall>i < length ds. vs_flags ?v ! (Suc n + i) = VALID" "length (vs_flags ?v) = Suc n + length ds" "vs_cfg ?v = cfg1"
    using Cons.prems(2,3) by (auto simp: apply_judgement_def)
  have "\<forall>x \<in> set (vs_invoked ?v) \<union> set (vs_upgraded ?v). fst x < Suc n"
    unfolding v(3,4) using Cons.prems(7) by (auto intro: less_SucI)
  from Cons.IH [OF j(2) flags(2,1,3) v(1,2) this] obtain vs' where vs': "check_txs env l ?v (Suc n) (map Some ds) = Inr (None, vs')" "vs_cfg vs' = cfg'" "length js1 = length ds"
    "vs_flags vs' = take (Suc n) (vs_flags ?v) @ map j_code js1" "gm_ok (vs_invoked vs')" "gm_ok (vs_upgraded vs')"
    "set (vs_invoked vs') = set (vs_invoked ?v) \<union> {(Suc n + i, Some cc) | i cc. i < length js1 \<and> j_invoked (js1 ! i) = Some cc}"
    "set (vs_upgraded vs') = set (vs_upgraded ?v) \<union> {(Suc n + i, Some cc) | i cc. i < length js1 \<and> j_upgraded (js1 ! i) = Some cc}"
    by blast
  have "take (Suc n) (vs_flags ?v) = take n (vs_flags vs) @ [j_code j]"
    using n(1) by (simp add: apply_judgement_def take_Suc_conv_app_nth)
  moreover have "set (vs_invoked vs') = set (vs_invoked vs) \<union> {(n + i, Some cc) | i cc. i < length js \<and> j_invoked (js ! i) = Some cc}"
    "set (vs_upgraded vs') = set (vs_upgraded vs) \<union> {(n + i, Some cc) | i cc. i < length js \<and> j_upgraded (js ! i) = Some cc}"
    unfolding j(3) shift_entries vs'(7,8) v(3,4) by (rule Un_assoc)+
  ultimately show ?case
    using vs'(1-6) step by (intro exI [of _ vs']) (simp add: j(3))
qed simp


text \<open>The final verdict of a transaction, from the judgements of the block.\<close>

definition upgraded_later :: "judgement list \<Rightarrow> nat \<Rightarrow> bool" where
  "upgraded_later js i \<longleftrightarrow> (\<exists>j cc cc'. i < j \<and> j < length js \<and> j_upgraded (js ! i) = Some cc \<and> j_upgraded (js ! j) = Some cc'
     \<and> cc_key cc = cc_key cc')"

definition names_upgraded :: "judgement list \<Rightarrow> nat \<Rightarrow> bool" where
  "names_upgraded js i \<longleftrightarrow> (\<exists>j cc cc'. j < length js \<and> j_invoked (js ! i) = Some cc \<and> j_upgraded (js ! j) = Some cc'
     \<and> cc_key cc = cc_key cc')"

definition final_code :: "judgement list \<Rightarrow> nat \<Rightarrow> TxValidationCode" where
  "final_code js i = (if upgraded_later js i \<or> j_code (js ! i) = VALID \<and> names_upgraded js i
     then CHAINCODE_VERSION_CONFLICT else j_code (js ! i))"

lemma txv_Validate_spec:
  assumes "judges env l cfg (blk_Data block) = Inr (None, js, cfg')"
  shows "txv_Validate env l block cfg = Inr (None, block\<lparr>blk_TxFilter := map (final_code js) [0..<length js]\<rparr>, cfg')"
    and "length js = length (blk_Data block)"
proof -
  let ?vs = "\<lparr>vs_flags = NewTxValidationFlags (length (blk_Data block)), vs_invoked = [], vs_upgraded = [], vs_cfg = cfg\<rparr>"
  obtain vs' where vs': "check_txs env l ?vs 0 (map Some (blk_Data block)) = Inr (None, vs')" "vs_cfg vs' = cfg'"
    "length js = length (blk_Data block)" "vs_flags vs' = map j_code js" "gm_ok (vs_invoked vs')" "gm_ok (vs_upgraded vs')"
    "set (vs_invoked vs') = {(i, Some cc) | i cc. i < length js \<and> j_invoked (js ! i) = Some cc}"
    "set (vs_upgraded vs') = {(i, Some cc) | i cc. i < length js \<and> j_upgraded (js ! i) = Some cc}"
    using check_txs_judges [OF assms, of ?vs 0] by (auto simp: NewTxValidationFlags_def)
  have b: "\<forall>x \<in> set (vs_invoked vs'). fst x < length (vs_flags vs')" "\<forall>x \<in> set (vs_upgraded vs'). fst x < length (vs_flags vs')"
    unfolding vs'(4,7,8) by auto
  obtain f' where f': "invalidTXsForUpgradeCC (tv_order env) (vs_invoked vs') (vs_upgraded vs') (vs_flags vs') = Inr f'" "length f' = length js"
    "\<forall>i < length js. f' ! i = (if superseded (vs_upgraded vs') i \<or> vs_flags vs' ! i = VALID
          \<and> (\<exists>cc. (i, Some cc) \<in> set (vs_invoked vs') \<and> upgraded_key (vs_upgraded vs') (cc_key cc))
        then CHAINCODE_VERSION_CONFLICT else vs_flags vs' ! i)"
    using invalidTXs_spec [OF vs'(5,6) b] vs'(4) by (metis length_map)
  have "superseded (vs_upgraded vs') i \<longleftrightarrow> upgraded_later js i" if "i < length js" for i
    unfolding superseded_def vs'(8) upgraded_later_def using that by auto
  moreover have "(\<exists>cc. (i, Some cc) \<in> set (vs_invoked vs') \<and> upgraded_key (vs_upgraded vs') (cc_key cc)) \<longleftrightarrow> names_upgraded js i"
    if "i < length js" for i
    unfolding upgraded_key_def vs'(7,8) names_upgraded_def using that by auto metis
  ultimately have "f' = map (final_code js) [0..<length js]"
    using f'(2,3) vs'(4) by (intro nth_equalityI) (auto simp: final_code_def)
  then show "txv_Validate env l block cfg = Inr (None, block\<lparr>blk_TxFilter := map (final_code js) [0..<length js]\<rparr>, cfg')"
    using vs'(1,2) f'(1) by (simp add: txv_Validate_def)
  show "length js = length (blk_Data block)" by (rule vs'(3))
qed

section \<open>What a valid verdict means\<close>

text \<open>One namespace an application chaincode writes to has the endorsement its own chaincode demands.\<close>

definition namespace_endorsed ::
    "('s, 'db, 'c) txv_env \<Rightarrow> 'c \<Rightarrow> ('s, 'db) kvLedger \<Rightarrow> bytes \<Rightarrow> bytes \<Rightarrow> bytes \<Rightarrow> bytes \<Rightarrow> bytes \<Rightarrow> bool" where
  "namespace_endorsed env cfg l d chain ccID ccVer ns \<longleftrightarrow> (\<exists>txcc vscc policy.
     GetInfoForValidate env cfg l chain ns = Inr (txcc, vscc, policy)
     \<and> (ns = ccID \<longrightarrow> ci_ChaincodeVersion txcc = ccVer)
     \<and> VSCCValidateTxForCC env cfg l d chain (ci_ChaincodeName vscc) (ci_ChaincodeVersion vscc) policy = Inr ())"

lemma vscc_namespaces_iff:
  "vscc_namespaces env cfg l d chdr ccID ccVer nss = Inr (None, c) \<longleftrightarrow>
     c = VALID \<and> (\<forall>ns \<in> set nss. namespace_endorsed env cfg l d (ch_ChannelId chdr) ccID ccVer ns)"
  by (induction nss) (auto simp: res_try_Inr_conv namespace_endorsed_def split: if_splits)

lemma vscc_namespaces_code: "vscc_namespaces env cfg l d chdr ccID ccVer nss = Inr (Some e, c) \<Longrightarrow> c \<noteq> VALID"
  by (induction nss) (auto simp: res_try_Inr_conv split: if_splits)

lemma vscc_system_iff:
  "vscc_system env cfg l d chdr ccID = Inr (None, c) \<longleftrightarrow> c = VALID \<and> \<not> IsSysCCAndNotInvokableExternal ccID
     \<and> (\<exists>txcc vscc policy. GetInfoForValidate env cfg l (ch_ChannelId chdr) ccID = Inr (txcc, vscc, policy)
          \<and> VSCCValidateTxForCC env cfg l d (ci_ChainID vscc) (ci_ChaincodeName vscc) (ci_ChaincodeVersion vscc) policy = Inr ())"
  by (auto simp: vscc_system_def res_try_Inr_conv)

lemma vscc_system_code: "vscc_system env cfg l d chdr ccID = Inr (Some e, c) \<Longrightarrow> c \<noteq> VALID"
  by (auto simp: vscc_system_def res_try_Inr_conv split: if_splits)

lemma vscc_named_code: "vscc_named env cfg l d chdr h r t = Inr (Some e, c) \<Longrightarrow> c \<noteq> VALID"
  unfolding vscc_named_def Let_def by (auto dest: vscc_namespaces_code vscc_system_code split: if_splits)

lemma vscc_named_iff:
  "vscc_named env cfg l d chdr h r t = Inr (None, c) \<longleftrightarrow> c = VALID \<and> cc_Name h \<noteq> [] \<and> cc_Name h = cc_Name r \<and> cc_Version r \<noteq> []
     \<and> (if IsSysCC (cc_Name h) then vscc_system env cfg l d chdr (cc_Name h) = Inr (None, VALID)
        else ''lscc'' \<notin> set (written t)
          \<and> (\<forall>ns \<in> set (written t). \<not> IsSysCCAndNotInvokableCC2CC ns \<and> \<not> IsSysCCAndNotInvokableExternal ns
               \<and> namespace_endorsed env cfg l d (ch_ChannelId chdr) (cc_Name h) (cc_Version r) ns))"
  unfolding vscc_named_def Let_def
  by (auto simp: vscc_namespaces_iff list_ex_iff vscc_system_iff)

lemma VSCCValidateTx_code: "VSCCValidateTx env cfg l payload d = Inr (Some e, c) \<Longrightarrow> c \<noteq> VALID"
  unfolding VSCCValidateTx_def by (auto simp: res_bind_Inr_conv res_try_Inr_conv dest: vscc_named_code)

lemma VSCCValidateTx_None:
  assumes "pl_Header payload = Some h" "pu_UnmarshalChannelHeader (tv_pu env) (hd_ChannelHeader h) = Inr chdr"
  shows "VSCCValidateTx env cfg l payload d = Inr (None, c) \<longleftrightarrow>
    (\<exists>x a t hcc rcc. pu_GetChaincodeHeaderExtension (tv_pu env) h = Inr x \<and> pu_GetActionFromEnvelope (tv_pu env) d = Inr a
       \<and> FromProtoBytes (ve_codec (tv_pu env)) (ca_Results a) = Inr t \<and> hx_ChaincodeId x = Some hcc \<and> ca_ChaincodeId a = Some rcc
       \<and> vscc_named env cfg l d chdr hcc rcc t = Inr (None, c))"
  unfolding VSCCValidateTx_def using assms by (auto simp: res_bind_Inr_conv res_try_Inr_conv)

lemma solo_flag [simp]: "flag_tx v i c = Inr (err, v') \<longleftrightarrow> err = None \<and> i < length (vs_flags v) \<and> v' = v\<lparr>vs_flags := (vs_flags v)[i := c]\<rparr>"
  by (auto simp: flag_tx_def SetFlag_def)

lemma pass_VALID:
  assumes "pass_tx env v 0 e = Inr (None, v')" "length (vs_flags v) = 1"
  shows "vs_invoked v' = vs_invoked v" "vs_upgraded v' = vs_upgraded v" "vs_cfg v' = vs_cfg v"
  using assms by (auto simp: pass_tx_def res_try_Inr_conv)

lemma check_endorser_VALID:
  assumes "check_endorser_tx env l (solo cfg) 0 d e payload chdr = Inr (err, v)" "hd (vs_flags v) = VALID"
  shows "err = None \<and> vs_cfg v = cfg \<and> (\<exists>er. GetTransactionByID (tv_kvl env) l (ch_TxId chdr) = Inl (Err er))
    \<and> (\<exists>c. VSCCValidateTx env cfg l payload d = Inr (None, c))
    \<and> getTxCCInstance env payload = Inr (join (gm_get (vs_invoked v) 0), join (gm_get (vs_upgraded v) 0))"
  using assms VSCCValidateTx_code [of env cfg l payload d]
  by (auto simp: check_endorser_tx_def res_try_Inr_conv res_bind_Inr_conv pass_tx_def Let_def join_def split: if_splits)

lemma check_config_VALID:
  assumes "check_config_tx env (solo cfg) 0 e payload = Inr (None, v)"
  shows "\<exists>ce. tv_UnmarshalConfigEnvelope env (str_of (pl_Data payload)) = Inr ce \<and> tv_Apply env ce cfg = Inr (vs_cfg v)"
  using assms by (auto simp: check_config_tx_def res_try_Inr_conv pass_tx_def)

lemma judge_VALID:
  assumes "judge env l cfg d = Inr (None, j, cfg')" "j_code j = VALID"
  shows "\<exists>e payload h chdr shdr. pu_GetEnvelopeFromBlock (tv_pu env) d = Inr e
    \<and> signed_envelope (tv_pu env) (tv_mv env cfg) e payload h chdr shdr \<and> typed_ok (tv_pu env) (tv_mv env cfg) payload h chdr shdr
    \<and> (ch_Type chdr = ENDORSER_TRANSACTION \<longrightarrow> cfg' = cfg \<and> (\<exists>er. GetTransactionByID (tv_kvl env) l (ch_TxId chdr) = Inl (Err er))
         \<and> (\<exists>c. VSCCValidateTx env cfg l payload d = Inr (None, c)) \<and> getTxCCInstance env payload = Inr (j_invoked j, j_upgraded j))
    \<and> (ch_Type chdr = CONFIG \<longrightarrow> (\<exists>ce. tv_UnmarshalConfigEnvelope env (str_of (pl_Data payload)) = Inr ce \<and> tv_Apply env ce cfg = Inr cfg'))"
proof -
  from assms(1) obtain v where v: "check_tx env l (solo cfg) 0 (Some d) = Inr (None, v)" "vs_cfg v = cfg'" "hd (vs_flags v) = VALID"
    "j_invoked j = join (gm_get (vs_invoked v) 0)" "j_upgraded j = join (gm_get (vs_upgraded v) 0)"
    using assms(2) by (auto simp: judge_def res_bind_Inr_conv)
  from v(1,3) obtain e where e: "pu_GetEnvelopeFromBlock (tv_pu env) d = Inr e" "check_envelope env l (solo cfg) 0 d e = Inr (None, v)"
    by (auto simp: check_tx_def res_try_Inr_conv)
  from e(2) v(3) obtain p where p: "ValidateTransaction (tv_pu env) (tv_mv env cfg) (Some e) = Inr (p, VALID)"
    by (auto simp: check_envelope_def res_bind_Inr_conv split: if_splits)
  from p [unfolded ValidateTransaction_VALID] obtain payload h chdr shdr where s: "p = Some payload"
    "signed_envelope (tv_pu env) (tv_mv env cfg) e payload h chdr shdr" "typed_ok (tv_pu env) (tv_mv env cfg) payload h chdr shdr" by blast
  have h: "pl_Header payload = Some h" "pu_UnmarshalChannelHeader (tv_pu env) (hd_ChannelHeader h) = Inr chdr"
    using s(2) by (simp_all add: signed_envelope_def common_header_def)
  have t: "(if ch_Type chdr = ENDORSER_TRANSACTION then check_endorser_tx env l (solo cfg) 0 d e payload chdr
      else if ch_Type chdr = CONFIG then check_config_tx env (solo cfg) 0 e payload else flag_tx (solo cfg) 0 UNKNOWN_TX_TYPE) = Inr (None, v)"
    using e(2) p s(1) h by (simp add: check_envelope_def chainExists_def)
  show ?thesis
  proof (cases "ch_Type chdr = ENDORSER_TRANSACTION")
    case True
    then have "check_endorser_tx env l (solo cfg) 0 d e payload chdr = Inr (None, v)" using t by simp
    from check_endorser_VALID [OF this v(3)] show ?thesis
      using e(1) s(2,3) v True by (intro exI [of _ e] exI [of _ payload] exI [of _ h] exI [of _ chdr] exI [of _ shdr]) auto
  next
    case False
    then have c: "ch_Type chdr = CONFIG" using s(3) by (auto simp: typed_ok_def)
    then have "check_config_tx env (solo cfg) 0 e payload = Inr (None, v)" using t False by simp
    from check_config_VALID [OF this] show ?thesis
      using e(1) s(2,3) v c by (intro exI [of _ e] exI [of _ payload] exI [of _ h] exI [of _ chdr] exI [of _ shdr]) auto
  qed
qed


section \<open>Gaps\<close>

text \<open>The ids of a block are compared with the ledger only, so a transaction may occur twice in a block.\<close>

lemma duplicate_accepted:
  assumes "judge env l cfg d = Inr (None, j, cfg)" "j_code j = VALID" "j_upgraded j = None"
  shows "txv_Validate env l (block\<lparr>blk_Data := [d, d]\<rparr>) cfg
    = Inr (None, block\<lparr>blk_Data := [d, d], blk_TxFilter := [VALID, VALID]\<rparr>, cfg)"
proof -
  have "judges env l cfg (blk_Data (block\<lparr>blk_Data := [d, d]\<rparr>)) = Inr (None, [j, j], cfg)" using assms(1) by simp
  moreover have "\<not> upgraded_later [j, j] i" "\<not> names_upgraded [j, j] i" for i
    using assms(3) by (auto simp: upgraded_later_def names_upgraded_def nth_Cons split: nat.splits)
  ultimately show ?thesis
    using txv_Validate_spec(1) [of env l cfg "block\<lparr>blk_Data := [d, d]\<rparr>" "[j, j]" cfg] assms(2)
    by (simp add: final_code_def upt_rec)
qed

text \<open>What an invocation of one of the two chaincodes of the fork writes, and where, is not looked at.\<close>

lemma system_writes_unchecked:
  assumes "cc_Name h \<in> {''rbccustomer'', ''rbcapproval''}" "cc_Name r = cc_Name h" "cc_Version r \<noteq> []"
    and "tv_SignedByAnyMember env (tv_GetMSPIDs env cfg (ch_ChannelId chdr)) = Inr policy"
    and "VSCCValidateTxForCC env cfg l d (ch_ChannelId chdr) ''vscc'' (tv_SysCCVersion env) policy = Inr ()"
  shows "vscc_named env cfg l d chdr h r t = Inr (None, VALID)"
  using assms by (auto simp: vscc_named_def vscc_system_def GetInfoForValidate_def sys_names)

text \<open>A namespace that looks like a list operation cut short makes the query executor slice out of range.\<close>

lemma rlist_namespace_panics:
  assumes "written t = ns # rest" "HasPrefix ns RLIST_PREFIX" "length ns < 11"
    and "\<not> IsSysCC (cc_Name h)" "cc_Name h \<noteq> []" "cc_Name r = cc_Name h" "cc_Version r \<noteq> []" "''lscc'' \<notin> set rest"
    and "\<forall>n \<in> set rest. \<not> IsSysCCAndNotInvokableCC2CC n \<and> \<not> IsSysCCAndNotInvokableExternal n"
  shows "vscc_named env cfg l d chdr h r t = Inl (Panic ''slice bounds out of range'')"
proof -
  have ns: "ns \<noteq> ''lscc''" "ns \<noteq> ''rbccustomer''" "ns \<noteq> ''rbcapproval''" "\<not> IsSysCCAndNotInvokableCC2CC ns" "\<not> IsSysCCAndNotInvokableExternal ns"
    using assms(2) by (auto simp: HasPrefix_def RLIST_PREFIX_def sys_names)
  have "\<not> 3 \<le> length (drop 8 ns)" using assms(3) by simp
  then have "slice_to (drop 8 ns) 3 = Inl (Panic ''slice bounds out of range'')" by (simp only: slice_to_def if_False)
  then have "getState tenv newQueryExecutor ''lscc'' ns = Inl (Panic ''slice bounds out of range'')" for tenv
    using assms(2) by (simp add: getState_def checkDone_def newQueryExecutor_def getState_rlist_def)
  then have "GetInfoForValidate env cfg l (ch_ChannelId chdr) ns = Inl (Panic ''slice bounds out of range'')"
    using ns by (simp add: GetInfoForValidate_def getCDataForCC_def qe_GetState_def kl_NewQueryExecutor_def tm_NewQueryExecutor_def)
  then show ?thesis
    using assms ns by (auto simp: vscc_named_def Let_def list_ex_iff)
qed

end
