(* ===== verification/Committer.thy ===== *)
theory Committer
  imports TxValidator Counters
begin

text \<open>
  \<^verbatim>\<open>core/committer/committer_impl.go\<close>: the path of a block into the ledger. The block is validated
  (theory \<open>TxValidator\<close>), a configuration block is announced to its listener, the block is
  committed (theory \<open>KVLedger\<close>), and an event is sent whose failure is ignored. \<^verbatim>\<open>IsConfigBlock\<close>
  and the event hub are outside the repository; the listener is the function value the committer is
  built with. The commit of the committer must not run twice at a time, and does not here.

  Results: a block whose transactions can be judged is committed, keeps the stores in step, and no
  transaction the validation has refused is valid in the stored block (\<open>commit_block_ok\<close>); a
  transaction of additions that occurs twice in a block is counted twice
  (\<open>duplicate_counts_twice\<close>).
\<close>

record ('s, 'db, 'c) LedgerCommitter =
  co_txv :: "('s, 'db, 'c) txv_env"
  co_IsConfigBlock :: "Block \<Rightarrow> bool"
  co_eventer :: "Block \<Rightarrow> 'c \<Rightarrow> 'c res"
  co_SendProducerBlockEvent :: "Block \<Rightarrow> unit res"

definition commit_validated ::
    "('s, 'db, 'c) LedgerCommitter \<Rightarrow> Block \<Rightarrow> ('s, 'db) kvLedger \<Rightarrow> 'c \<Rightarrow> (error option \<times> ('s, 'db) kvLedger \<times> 'c) res" where
  "commit_validated lc block l cfg =
     res_bind (kl_Commit (tv_kvl (co_txv lc)) block l) (\<lambda>(err, l).
       if err \<noteq> None then Inr (err, l, cfg)
       else res_try (co_SendProducerBlockEvent lc block) (\<lambda>_. Inr (None, l, cfg)) (\<lambda>_. Inr (None, l, cfg)))"

definition lc_Commit ::
    "('s, 'db, 'c) LedgerCommitter \<Rightarrow> Block \<Rightarrow> ('s, 'db) kvLedger \<Rightarrow> 'c \<Rightarrow> (error option \<times> ('s, 'db) kvLedger \<times> 'c) res" where
  "lc_Commit lc block l cfg =
     res_bind (txv_Validate (co_txv lc) l block cfg) (\<lambda>(err, block, cfg).
       if err \<noteq> None then Inr (err, l, cfg)
       else if co_IsConfigBlock lc block then
         res_try (co_eventer lc block cfg)
           (\<lambda>_. Inr (Some (Err ''Could not update CSCC with new configuration update''), l, cfg))
           (\<lambda>cfg. commit_validated lc block l cfg)
       else commit_validated lc block l cfg)"

definition LedgerHeight :: "('s, 'db, 'c) LedgerCommitter \<Rightarrow> ('s, 'db) kvLedger \<Rightarrow> u64 res" where
  "LedgerHeight lc l = GetBlockchainInfo (tv_kvl (co_txv lc)) l"

definition GetBlocks :: "('s, 'db, 'c) LedgerCommitter \<Rightarrow> ('s, 'db) kvLedger \<Rightarrow> u64 list \<Rightarrow> Block list res" where
  "GetBlocks lc l blockSeqs =
     foldM (\<lambda>blocks seqNum.
       res_try (GetBlockByNumber (tv_kvl (co_txv lc)) l seqNum) (\<lambda>_. Inr blocks) (\<lambda>b. Inr (blocks @ [b])))
       [] blockSeqs"

section \<open>From a received block to the stores\<close>

context kvledger_ok
begin

lemma GetBlocks_spec:
  assumes "tv_kvl (co_txv lc) = env" "length (chain (kl_blockStore l)) < 2 ^ 64"
    and "\<forall>n \<in> set ns. unat n < length (chain (kl_blockStore l))"
  shows "GetBlocks lc l ns = Inr (map (\<lambda>n. chain (kl_blockStore l) ! unat n) ns)"
proof -
  have "GetBlockByNumber env l n = Inr (chain (kl_blockStore l) ! unat n)" if "unat n < length (chain (kl_blockStore l))" for n
    using retrieve [of "unat n" "kl_blockStore l"] that assms(2) by (simp add: GetBlockByNumber_def)
  then have "foldM (\<lambda>blocks seqNum. res_try (GetBlockByNumber env l seqNum) (\<lambda>_. Inr blocks) (\<lambda>b. Inr (blocks @ [b]))) acc ns
      = Inr (acc @ map (\<lambda>n. chain (kl_blockStore l) ! unat n) ns)" for acc
    using assms(3) by (induction ns arbitrary: acc) auto
  then show ?thesis using assms(1) by (simp add: GetBlocks_def)
qed

lemma commit_block_ok:
  assumes lc: "tv_kvl (co_txv lc) = env" "judges (co_txv lc) l cfg (blk_Data block) = Inr (None, js, cfg1)"
    and quiet: "\<not> co_IsConfigBlock lc (block\<lparr>blk_TxFilter := map (final_code js) [0..<length js]\<rparr>)"
      "\<And>b. \<exists>r. co_SendProducerBlockEvent lc b = Inr r \<or> co_SendProducerBlockEvent lc b = Inl (Err (msg b))"
    and led: "chain_ok env (chain (kl_blockStore l)) tss W"
      "ledger_at env (chain (kl_blockStore l)) W l (\<lambda>_. length (chain (kl_blockStore l)))"
    and blk: "fresh_block env (tm_db (kl_txtmgmt l)) (block\<lparr>blk_TxFilter := map (final_code js) [0..<length js]\<rparr>) ts"
      "blk_Number block = of_nat (length (chain (kl_blockStore l)))"
    and cfg: "he_enabled (ke_hist env)" "Suc (length (chain (kl_blockStore l))) < 2 ^ 64"
  shows "\<exists>l' block' W'. lc_Commit lc block l cfg = Inr (None, l', cfg1) \<and> chain (kl_blockStore l') = chain (kl_blockStore l) @ [block']
    \<and> blk_Data block' = blk_Data block \<and> chain_ok env (chain (kl_blockStore l')) (tss @ [ts]) W'
    \<and> ledger_at env (chain (kl_blockStore l')) W' l' (\<lambda>_. length (chain (kl_blockStore l')))
    \<and> (\<forall>i < length (blk_Data block). initial_flags block' ! i = VALID \<longrightarrow> final_code js i = VALID \<and> j_code (js ! i) = VALID)"
proof -
  let ?b = "block\<lparr>blk_TxFilter := map (final_code js) [0..<length js]\<rparr>"
  note v = txv_Validate_spec [OF lc(2)]
  have num: "blk_Number ?b = of_nat (length (chain (kl_blockStore l)))" using blk(2) by simp
  obtain l' block' W' where c: "kl_Commit env ?b l = Inr (None, l')" "chain (kl_blockStore l') = chain (kl_blockStore l) @ [block']"
    "blk_Data block' = blk_Data ?b" "chain_ok env (chain (kl_blockStore l')) (tss @ [ts]) W'"
    "ledger_at env (chain (kl_blockStore l')) W' l' (\<lambda>_. length (chain (kl_blockStore l')))"
    "\<forall>j < length (blk_Data ?b). initial_flags block' ! j = VALID \<longrightarrow> initial_flags ?b ! j = VALID"
    using Commit_synced [OF led blk(1) num cfg] by blast
  have "blk_Data block \<noteq> []" using blk(1) by (simp add: fresh_block_def)
  then have "initial_flags ?b = map (final_code js) [0..<length js]" using v(2) by (auto simp: initial_flags_def)
  then have f: "final_code js i = VALID \<and> j_code (js ! i) = VALID" if "i < length (blk_Data block)" "initial_flags block' ! i = VALID" for i
    using c(6) that v(2) by (auto simp: final_code_def split: if_splits)
  have "lc_Commit lc block l cfg = Inr (None, l', cfg1)"
    using v(1) c(1) quiet(1) quiet(2) [of ?b] lc(1) by (auto simp: lc_Commit_def commit_validated_def)
  with c(2-5) f show ?thesis
    by (intro exI [of _ l'] exI [of _ block'] exI [of _ W']) simp
qed

end

section \<open>A transaction that occurs twice\<close>

lemma duplicate_counts_twice:
  assumes dup: "judge env l cfg d = Inr (None, j, cfg)" "j_code j = VALID" "j_upgraded j = None"
    and adds: "\<forall>kd \<in> set kds. CHR '','' \<notin> set (fst kd) \<and> is_i64 (snd kd)"
      "pu_GetActionFromEnvelope venv d = Inr r" "FromProtoBytes (ve_codec venv) (ca_Results r) = Inr [adds_ns ns kds]"
  shows "txv_Validate env l (block\<lparr>blk_Data := [d, d]\<rparr>) cfg
      = Inr (None, block\<lparr>blk_Data := [d, d], blk_TxFilter := [VALID, VALID]\<rparr>, cfg)
    \<and> (\<exists>upd1 upd2. validateEndorserTX venv d True (upd, st) = Inr (Some [adds_ns ns kds], VALID, upd1, st)
        \<and> validateEndorserTX venv d True (upd1, st) = Inr (Some [adds_ns ns kds], VALID, upd2, st)
        \<and> (\<forall>k. batch_counter venv upd2 ns k = wrap64 (batch_counter venv upd ns k + 2 * sum_for k kds)))"
proof -
  have valid: "\<exists>u'. validateEndorserTX venv d True (u, st) = Inr (Some [adds_ns ns kds], VALID, u', st)
      \<and> (\<forall>k. batch_counter venv u' ns k = wrap64 (batch_counter venv u ns k + sum_for k kds))" for u
    using replay_loses_adds [OF adds] by blast
  obtain upd1 where u1: "validateEndorserTX venv d True (upd, st) = Inr (Some [adds_ns ns kds], VALID, upd1, st)"
    "\<forall>k. batch_counter venv upd1 ns k = wrap64 (batch_counter venv upd ns k + sum_for k kds)" using valid [of upd] by blast
  obtain upd2 where u2: "validateEndorserTX venv d True (upd1, st) = Inr (Some [adds_ns ns kds], VALID, upd2, st)"
    "\<forall>k. batch_counter venv upd2 ns k = wrap64 (batch_counter venv upd1 ns k + sum_for k kds)" using valid [of upd1] by blast
  have "wrap64 (wrap64 (a + b) + b) = wrap64 (a + 2 * b)" for a b
  proof -
    have "wrap64 (wrap64 (a + b) + b) = wrap64 ((a + b) + b)" unfolding wrap64_def by (simp add: mod_simps algebra_simps)
    then show ?thesis by (simp add: algebra_simps)
  qed
  then show ?thesis using duplicate_accepted [OF dup] u1 u2 by auto
qed

end
