(* ===== verification/Vscc.thy ===== *)
theory Vscc
  imports MsgValidation SysCC RWSet
begin

text \<open>
  \<^verbatim>\<open>core/scc/vscc/validator_onevalidsignature.go\<close>: the validation chaincode. It evaluates the
  endorsement policy over the endorsements of a transaction, each identity counted once, and checks
  what an invocation of the lifecycle chaincode writes.

  The policy language (\<^verbatim>\<open>common/cauthdsl\<close>), the managers of the membership service and the query
  executors of the channels are the record \<open>vscc_env\<close>; a policy is its function \<^verbatim>\<open>Evaluate\<close>. The
  data of a signature is built with \<^verbatim>\<open>append\<close> on one slice for all endorsements: it is shared between
  them when that slice has spare capacity (\<open>vc_spare\<close>), and the model keeps that sharing.

  Results: the signature set holds every identity once and, without spare capacity, each entry is the
  response followed by its endorser (\<open>deduplicate_spec\<close>); what an accepted transaction is
  (\<open>vscc_Invoke_accepts\<close>, \<open>accepted_endorsements\<close>), and an accepted deployment or upgrade
  (\<open>check_lscc_rwset_iff\<close>, \<open>validate_lifecycle_ok\<close>); with spare capacity every
  endorsement writes over the one before it (\<open>shared_data_overwritten\<close>), and a second read-write
  set of the lifecycle namespace is not looked at (\<open>second_lscc_rwset_unchecked\<close>).
\<close>

record SignedData =
  sd_Data :: bytes
  sd_Identity :: bytes
  sd_Signature :: bytes

record 'm vscc_env =
  vc_GetManagerForChain :: "bytes \<Rightarrow> 'm option"
  vc_NewPolicy :: "'m option \<Rightarrow> bytes \<Rightarrow> (SignedData list \<Rightarrow> unit res) res"
  vc_UnmarshalSerializedIdentity :: "bytes \<Rightarrow> (bytes \<times> bytes) res"
  vc_UnmarshalChaincodeData :: "bytes \<Rightarrow> ChaincodeData res"
  vc_GetQueryExecutorForLedger :: "bytes \<Rightarrow> (bytes \<Rightarrow> bytes \<Rightarrow> slice res) res"
  vc_codec :: rw_codec
  vc_spare :: nat

section \<open>The signature set\<close>

text \<open>The bytes after the response: in the array all share, or in one of its own.\<close>

datatype sig_data = SharedData nat | OwnData bytes

definition append_endorser :: "nat \<Rightarrow> bytes \<Rightarrow> bytes \<Rightarrow> sig_data \<times> bytes" where
  "append_endorser spare endorser backing =
     (if length endorser \<le> spare then (SharedData (length endorser), endorser @ drop (length endorser) backing)
      else (OwnData endorser, backing))"

fun read_data :: "bytes \<Rightarrow> bytes \<Rightarrow> sig_data \<Rightarrow> bytes" where
  "read_data presp backing (SharedData n) = presp @ take n backing"
| "read_data presp backing (OwnData e) = presp @ e"

fun dedup_loop ::
    "'m vscc_env \<Rightarrow> Endorsement list \<Rightarrow> (sig_data \<times> Endorsement) list \<Rightarrow> bytes list \<Rightarrow> bytes
     \<Rightarrow> ((sig_data \<times> Endorsement) list \<times> bytes) res" where
  "dedup_loop env [] signatureSet signatureMap backing = Inr (signatureSet, backing)"
| "dedup_loop env (endorsement # rest) signatureSet signatureMap backing =
     res_try (vc_UnmarshalSerializedIdentity env (ed_Endorser endorsement))
       (\<lambda>_. Inl (Err ''Unmarshal endorser error'')) (\<lambda>(mspid, idBytes).
       let ident = mspid @ idBytes in
       if ident \<in> set signatureMap then dedup_loop env rest signatureSet signatureMap backing
       else
         let (d, backing) = append_endorser (vc_spare env) (ed_Endorser endorsement) backing
         in dedup_loop env rest (signatureSet @ [(d, endorsement)]) (ident # signatureMap) backing)"

definition deduplicateIdentity :: "'m vscc_env \<Rightarrow> ChaincodeActionPayload \<Rightarrow> SignedData list res" where
  "deduplicateIdentity env cap =
     res_bind (deref (cap_Action cap)) (\<lambda>action.
     res_bind (dedup_loop env (ea_Endorsements action) [] [] (replicate (vc_spare env) CHR 0x00)) (\<lambda>(set, backing).
       Inr (map (\<lambda>(d, e). \<lparr>sd_Data = read_data (str_of (ea_ProposalResponsePayload action)) backing d,
                            sd_Identity = ed_Endorser e, sd_Signature = ed_Signature e\<rparr>) set)))"

section \<open>Invocations of the lifecycle chaincode\<close>

definition DEPLOY :: bytes where "DEPLOY = ''deploy''"

definition UPGRADE :: bytes where "UPGRADE = ''upgrade''"

definition getInstantiatedCC :: "'m vscc_env \<Rightarrow> bytes \<Rightarrow> bytes \<Rightarrow> ChaincodeData option res" where
  "getInstantiatedCC env chid ccid =
     res_try (vc_GetQueryExecutorForLedger env chid) (\<lambda>_. Inl (Err ''Could not retrieve QueryExecutor for channel'')) (\<lambda>qe_GetState.
     res_try (qe_GetState ''lscc'' ccid) (\<lambda>_. Inl (Err ''Could not retrieve state for chaincode'')) (\<lambda>value.
       case value of
         None \<Rightarrow> Inr None
       | Some b \<Rightarrow>
           res_try (vc_UnmarshalChaincodeData env b) (\<lambda>_. Inl (Err ''Unmarshalling ChaincodeQueryResponse failed'')) (\<lambda>cd.
             Inr (Some cd))))"

definition checkInstantiationPolicy ::
    "'z proto_utils_scheme \<Rightarrow> 'm vscc_env \<Rightarrow> bytes \<Rightarrow> Envelope \<Rightarrow> bytes \<Rightarrow> Payload \<Rightarrow> unit res" where
  "checkInstantiationPolicy pu env chainName e instantiationPolicy payl =
     need (vc_GetManagerForChain env chainName) ''MSP manager for channel is nil, aborting'' (\<lambda>mgr.
          res_bind (vc_NewPolicy env (Some mgr) instantiationPolicy) (\<lambda>instPol.
          res_bind (deref (pl_Header payl)) (\<lambda>hdr.
          res_bind (pu_GetSignatureHeader pu (hd_SignatureHeader hdr)) (\<lambda>shdr.
          res_try (instPol [\<lparr>sd_Data = str_of (en_Payload e), sd_Identity = str_of (sh_Creator shdr),
                             sd_Signature = str_of (en_Signature e)\<rparr>])
            (\<lambda>_. Inl (Err ''chaincode instantiation policy violated'')) (\<lambda>_. Inr ())))))"

text \<open>The checks on the read-write set, up to the switch between deployment and upgrade.\<close>

definition check_lscc_rwset :: "'m vscc_env \<Rightarrow> ChaincodeID \<Rightarrow> TxRwSet \<Rightarrow> ChaincodeData res" where
  "check_lscc_rwset env cc txRWSet =
     need (find (\<lambda>ns. NameSpace ns = ''lscc'') txRWSet) ''No read write set for lscc was found'' (\<lambda>lsccrwset.
     if length (kvrw_Writes (KvRwSet lsccrwset)) \<noteq> 1
     then Inl (Err ''LSCC can only issue a single putState upon deploy/upgrade'')
     else
       let w = kvrw_Writes (KvRwSet lsccrwset) ! 0 in
       if wr_Key w \<noteq> cc_Name cc then Inl (Err ''Expected key'')
       else
         res_try (vc_UnmarshalChaincodeData env (str_of (wr_Value w)))
           (\<lambda>_. Inl (Err ''Unmarhsalling of ChaincodeData failed'')) (\<lambda>cdRWSet.
           if cd_Name cdRWSet \<noteq> cc_Name cc then Inl (Err ''Expected cc name'')
           else if cd_Version cdRWSet \<noteq> cc_Version cc then Inl (Err ''Expected cc version'')
           else if list_ex (\<lambda>ns. NameSpace ns \<noteq> ''lscc'' \<and> NameSpace ns \<noteq> cd_Name cdRWSet \<and> kvrw_Writes (KvRwSet ns) \<noteq> []) txRWSet
           then Inl (Err ''LSCC invocation is attempting to write to namespace'')
           else Inr cdRWSet))"

definition check_lscc_func ::
    "'z proto_utils_scheme \<Rightarrow> 'm vscc_env \<Rightarrow> bytes \<Rightarrow> bytes \<Rightarrow> Envelope \<Rightarrow> Payload \<Rightarrow> ChaincodeID \<Rightarrow> ChaincodeData
     \<Rightarrow> ChaincodeData option \<Rightarrow> unit res" where
  "check_lscc_func pu env lsccFunc chid e payl cc cdRWSet cdLedger =
     (if lsccFunc = DEPLOY then
        need (cd_InstantiationPolicy cdRWSet) ''No installation policy was specified'' (\<lambda>pol.
        res_bind (checkInstantiationPolicy pu env chid e pol payl) (\<lambda>_.
          if cdLedger \<noteq> None then Inl (Err ''Chaincode is already instantiated'') else Inr ()))
      else
        need cdLedger ''Upgrading non-existent chaincode'' (\<lambda>cd.
        need (cd_InstantiationPolicy cd) ''No installation policy was specified'' (\<lambda>pol.
        res_bind (checkInstantiationPolicy pu env chid e pol payl) (\<lambda>_.
          if cd_Version cd = cc_Version cc
          then Inl (Err ''Existing version of the cc on the ledger should be different from the upgraded one'')
          else Inr ()))))"

text \<open>The case of a deployment or an upgrade.\<close>

definition validate_lifecycle ::
    "'z proto_utils_scheme \<Rightarrow> 'm vscc_env \<Rightarrow> bytes \<Rightarrow> bytes list \<Rightarrow> bytes \<Rightarrow> Envelope \<Rightarrow> ChaincodeActionPayload \<Rightarrow> Payload \<Rightarrow> unit res" where
  "validate_lifecycle pu env lsccFunc lsccArgs chid e cap payl =
     (if length lsccArgs < 2 \<or> length lsccArgs > 5 then Inl (Err ''Wrong number of arguments for invocation lscc'')
      else
        let bad = ''VSCC error: invocation of lscc does not have appropriate arguments'' in
        res_try (pu_GetChaincodeDeploymentSpec pu (lsccArgs ! 1)) (\<lambda>_. Inl (Err ''GetChaincodeDeploymentSpec error'')) (\<lambda>cdsArgs.
        need (cds_ChaincodeSpec cdsArgs) bad (\<lambda>cspec.
        need (cs_ChaincodeId cspec) bad (\<lambda>cc.
        need (cap_Action cap) bad (\<lambda>action.
        need (ea_ProposalResponsePayload action) bad (\<lambda>prpBytes.
        res_try (pu_GetProposalResponsePayload pu prpBytes) (\<lambda>_. Inl (Err ''GetProposalResponsePayload error'')) (\<lambda>pRespPayload.
        need (prp_Extension pRespPayload) ''nil pRespPayload.Extension'' (\<lambda>ext.
        res_try (pu_GetChaincodeAction pu ext) (\<lambda>_. Inl (Err ''GetChaincodeAction error'')) (\<lambda>respPayload.
        res_try (FromProtoBytes (vc_codec env) (ca_Results respPayload)) (\<lambda>_. Inl (Err ''txRWSet.FromProtoBytes error'')) (\<lambda>txRWSet.
        res_bind (getInstantiatedCC env chid (cc_Name cc)) (\<lambda>cdLedger.
        res_bind (check_lscc_rwset env cc txRWSet) (\<lambda>cdRWSet.
          check_lscc_func pu env lsccFunc chid e payl cc cdRWSet cdLedger))))))))))))"

definition ValidateLSCCInvocation ::
    "'z proto_utils_scheme \<Rightarrow> 'm vscc_env \<Rightarrow> bytes \<Rightarrow> Envelope \<Rightarrow> ChaincodeActionPayload \<Rightarrow> Payload \<Rightarrow> unit res" where
  "ValidateLSCCInvocation pu env chid e cap payl =
     res_bind (pu_GetChaincodeProposalPayload pu (cap_ChaincodeProposalPayload cap)) (\<lambda>input.
     res_bind (pu_UnmarshalInvocationSpec pu input) (\<lambda>cis.
     need (cis_ChaincodeSpec cis) ''VSCC error: committing invalid vscc invocation'' (\<lambda>spec.
     need (cs_Input spec) ''VSCC error: committing invalid vscc invocation'' (\<lambda>inp.
       if in_Args inp = [] then Inl (Err ''VSCC error: committing invalid vscc invocation'')
       else
         let lsccFunc = in_Args inp ! 0; lsccArgs = drop 1 (in_Args inp) in
         if lsccFunc = UPGRADE \<or> lsccFunc = DEPLOY then validate_lifecycle pu env lsccFunc lsccArgs chid e cap payl
         else Inl (Err ''VSCC error: committing an invocation of function of lscc is invalid'')))))"

section \<open>The chaincode\<close>

definition DUPLICATED_IDENTITY_ERROR :: bytes where
  "DUPLICATED_IDENTITY_ERROR = ''Endorsement policy evaluation failure might be caused by duplicated identities''"

text \<open>A returned error becomes an error response; the rest of the call goes on otherwise.\<close>

definition or_error :: "'a res \<Rightarrow> ('a \<Rightarrow> Response res) \<Rightarrow> Response res" where
  "or_error r f = res_try r (\<lambda>e. case e of Err m \<Rightarrow> Inr (shim_Error m) | _ \<Rightarrow> Inl e) f"

fun vscc_actions ::
    "'z proto_utils_scheme \<Rightarrow> 'm vscc_env \<Rightarrow> Envelope \<Rightarrow> Payload \<Rightarrow> Header \<Rightarrow> ChannelHeader \<Rightarrow> (SignedData list \<Rightarrow> unit res)
     \<Rightarrow> TransactionAction option list \<Rightarrow> Response res" where
  "vscc_actions pu env e payl hdr chdr evaluate [] = Inr (shim_Success None)"
| "vscc_actions pu env e payl hdr chdr evaluate (act # rest) =
     res_bind (deref act) (\<lambda>act.
     or_error (pu_GetChaincodeActionPayload pu (ta_Payload act)) (\<lambda>cap.
     or_error (deduplicateIdentity env cap) (\<lambda>signatureSet.
     res_bind (deref (cap_Action cap)) (\<lambda>action.
     res_try (evaluate signatureSet)
       (\<lambda>_. if length signatureSet < length (ea_Endorsements action) then Inr (shim_Error DUPLICATED_IDENTITY_ERROR)
            else Inr (shim_Error ''VSCC error: policy evaluation failed''))
       (\<lambda>_.
     or_error (pu_GetChaincodeHeaderExtension pu hdr) (\<lambda>hdrExt.
     res_bind (deref (hx_ChaincodeId hdrExt)) (\<lambda>cc.
       if cc_Name cc = ''lscc'' then
         or_error (ValidateLSCCInvocation pu env (ch_ChannelId chdr) e cap payl) (\<lambda>_.
           vscc_actions pu env e payl hdr chdr evaluate rest)
       else vscc_actions pu env e payl hdr chdr evaluate rest)))))))"

definition vscc_Invoke :: "'z proto_utils_scheme \<Rightarrow> 'm vscc_env \<Rightarrow> slice list \<Rightarrow> Response res" where
  "vscc_Invoke pu env args =
     (if length args < 3 then Inr (shim_Error ''Incorrect number of arguments'')
      else
        (case (args ! 1, args ! 2) of
           (None, _) \<Rightarrow> Inr (shim_Error ''No block to validate'')
         | (Some envBytes, None) \<Rightarrow> Inr (shim_Error ''No policy supplied'')
         | (Some envBytes, Some policyBytes) \<Rightarrow>
             or_error (pu_GetEnvelopeFromBlock pu envBytes) (\<lambda>e.
             or_error (pu_GetPayload pu e) (\<lambda>payl.
             res_bind (deref (pl_Header payl)) (\<lambda>hdr.
             or_error (pu_UnmarshalChannelHeader pu (hd_ChannelHeader hdr)) (\<lambda>chdr.
             or_error (vc_NewPolicy env (vc_GetManagerForChain env (ch_ChannelId chdr)) policyBytes) (\<lambda>evaluate.
               if ch_Type chdr \<noteq> ENDORSER_TRANSACTION
               then Inr (shim_Error ''Only Endorser Transactions are supported'')
               else
                 or_error (pu_GetTransaction pu (str_of (pl_Data payl))) (\<lambda>actions.
                   vscc_actions pu env e payl hdr chdr evaluate actions))))))))"

section \<open>Each identity counts once\<close>

fun first_by :: "('a \<Rightarrow> 'k) \<Rightarrow> 'k list \<Rightarrow> 'a list \<Rightarrow> 'a list" where
  "first_by f seen [] = []"
| "first_by f seen (x # xs) = (if f x \<in> set seen then first_by f seen xs else x # first_by f (f x # seen) xs)"

lemma first_by_distinct: "distinct (map f (first_by f seen xs)) \<and> set (map f (first_by f seen xs)) \<inter> set seen = {}"
  by (induction f seen xs rule: first_by.induct) auto

lemma first_by_complete: "x \<in> set xs \<Longrightarrow> f x \<in> set seen \<union> f ` set (first_by f seen xs)"
  by (induction f seen xs rule: first_by.induct) auto

lemma first_by_subset: "set (first_by f seen xs) \<subseteq> set xs"
  by (induction f seen xs rule: first_by.induct) auto

definition ident :: "'m vscc_env \<Rightarrow> Endorsement \<Rightarrow> bytes" where
  "ident env e = (case vc_UnmarshalSerializedIdentity env (ed_Endorser e) of Inl _ \<Rightarrow> [] | Inr (m, i) \<Rightarrow> m @ i)"

lemma dedup_loop_ok:
  assumes "\<forall>e \<in> set es. is_ok (vc_UnmarshalSerializedIdentity env (ed_Endorser e))"
  shows "\<exists>ds backing'. dedup_loop env es acc seen backing = Inr (acc @ ds, backing')
    \<and> map snd ds = first_by (ident env) seen es
    \<and> (vc_spare env = 0 \<longrightarrow> (\<forall>(d, e) \<in> set ds. \<forall>b p. read_data p b d = p @ ed_Endorser e))"
  using assms
proof (induction es arbitrary: acc seen backing)
  case (Cons e es)
  obtain m i where mi: "vc_UnmarshalSerializedIdentity env (ed_Endorser e) = Inr (m, i)"
    using Cons.prems by (auto simp: is_ok_def split: sum.splits)
  then have key: "ident env e = m @ i" by (simp add: ident_def)
  show ?case
  proof (cases "m @ i \<in> set seen")
    case True
    then show ?thesis using Cons.IH [of acc seen backing] Cons.prems mi key by (simp add: Let_def)
  next
    case False
    obtain d b where d: "append_endorser (vc_spare env) (ed_Endorser e) backing = (d, b)" by force
    have r: "vc_spare env = 0 \<Longrightarrow> read_data p b' d = p @ ed_Endorser e" for p b'
      using d by (auto simp: append_endorser_def split: if_splits)
    from Cons.IH [of "acc @ [(d, e)]" "(m @ i) # seen" b] Cons.prems
    obtain ds backing' where ds: "dedup_loop env es (acc @ [(d, e)]) ((m @ i) # seen) b = Inr ((acc @ [(d, e)]) @ ds, backing')"
      "map snd ds = first_by (ident env) ((m @ i) # seen) es"
      "vc_spare env = 0 \<longrightarrow> (\<forall>(d, e) \<in> set ds. \<forall>b p. read_data p b d = p @ ed_Endorser e)" by auto
    show ?thesis
      using ds r False mi key d by (intro exI [of _ "(d, e) # ds"] exI [of _ backing']) (auto simp: Let_def)
  qed
qed simp

lemma dedup_loop_err:
  assumes "dedup_loop env es acc seen backing = Inr r" "e \<in> set es"
  shows "is_ok (vc_UnmarshalSerializedIdentity env (ed_Endorser e))"
  using assms
proof (induction es arbitrary: acc seen backing)
  case (Cons x es)
  from Cons.prems(1) obtain m i where mi: "vc_UnmarshalSerializedIdentity env (ed_Endorser x) = Inr (m, i)"
    by (auto simp: res_try_Inr_conv)
  then have "\<exists>acc' seen' b'. dedup_loop env es acc' seen' b' = Inr r"
    using Cons.prems(1) by (auto simp: Let_def case_prod_beta split: if_splits)
  then show ?case using Cons.IH Cons.prems(2) mi by auto
qed simp

lemma deduplicate_spec:
  assumes "deduplicateIdentity env cap = Inr sigs"
  shows "\<exists>action. cap_Action cap = Some action
    \<and> map (\<lambda>s. (sd_Identity s, sd_Signature s)) sigs
        = map (\<lambda>e. (ed_Endorser e, ed_Signature e)) (first_by (ident env) [] (ea_Endorsements action))
    \<and> (vc_spare env = 0 \<longrightarrow> (\<forall>s \<in> set sigs. sd_Data s = str_of (ea_ProposalResponsePayload action) @ sd_Identity s))"
proof -
  let ?b = "replicate (vc_spare env) CHR 0x00"
  from assms obtain action r where a: "cap_Action cap = Some action" "dedup_loop env (ea_Endorsements action) [] [] ?b = Inr r"
    by (auto simp: deduplicateIdentity_def res_bind_Inr_conv)
  have "\<forall>e \<in> set (ea_Endorsements action). is_ok (vc_UnmarshalSerializedIdentity env (ed_Endorser e))"
    using dedup_loop_err [OF a(2)] by blast
  from dedup_loop_ok [OF this, of "[]" "[]" ?b] obtain ds b where ds:
    "dedup_loop env (ea_Endorsements action) [] [] ?b = Inr (ds, b)" "map snd ds = first_by (ident env) [] (ea_Endorsements action)"
    "vc_spare env = 0 \<longrightarrow> (\<forall>(d, e) \<in> set ds. \<forall>b p. read_data p b d = p @ ed_Endorser e)" by auto
  have sigs: "sigs = map (\<lambda>(d, e). \<lparr>sd_Data = read_data (str_of (ea_ProposalResponsePayload action)) b d,
      sd_Identity = ed_Endorser e, sd_Signature = ed_Signature e\<rparr>) ds"
    using assms a(1) ds(1) by (simp add: deduplicateIdentity_def)
  have "map (\<lambda>s. (sd_Identity s, sd_Signature s)) sigs = map (\<lambda>e. (ed_Endorser e, ed_Signature e)) (map snd ds)"
    by (simp add: sigs case_prod_beta)
  then show ?thesis using a(1) ds(2,3) by (auto simp: sigs)
qed

text \<open>With spare capacity every endorsement writes over the one before it.\<close>

lemma shared_data_overwritten:
  assumes "vc_spare env = length e2" "length e1 = length e2" "e1 \<noteq> []"
    and "vc_UnmarshalSerializedIdentity env e1 = Inr i1" "vc_UnmarshalSerializedIdentity env e2 = Inr i2" "fst i1 @ snd i1 \<noteq> fst i2 @ snd i2"
  shows "deduplicateIdentity env \<lparr>cap_ChaincodeProposalPayload = p, cap_Action = Some \<lparr>ea_ProposalResponsePayload = Some r,
      ea_Endorsements = [\<lparr>ed_Endorser = e1, ed_Signature = s1\<rparr>, \<lparr>ed_Endorser = e2, ed_Signature = s2\<rparr>]\<rparr>\<rparr>
    = Inr [\<lparr>sd_Data = r @ e2, sd_Identity = e1, sd_Signature = s1\<rparr>, \<lparr>sd_Data = r @ e2, sd_Identity = e2, sd_Signature = s2\<rparr>]"
  using assms by (simp add: deduplicateIdentity_def append_endorser_def str_of_def case_prod_unfold Let_def)

section \<open>What the lifecycle chaincode may write\<close>

lemma check_lscc_rwset_iff:
  "check_lscc_rwset env cc t = Inr cd \<longleftrightarrow> (\<exists>n w. find (\<lambda>ns. NameSpace ns = ''lscc'') t = Some n \<and> kvrw_Writes (KvRwSet n) = [w]
     \<and> wr_Key w = cc_Name cc \<and> vc_UnmarshalChaincodeData env (str_of (wr_Value w)) = Inr cd
     \<and> cd_Name cd = cc_Name cc \<and> cd_Version cd = cc_Version cc
     \<and> (\<forall>ns \<in> set t. kvrw_Writes (KvRwSet ns) \<noteq> [] \<longrightarrow> NameSpace ns \<in> {''lscc'', cc_Name cc}))"
  unfolding check_lscc_rwset_def Let_def
  by (auto simp: res_try_Inr_conv need_Inr_conv if_err_conv list_ex_iff length_Suc_conv simp del: if_split)

lemma second_lscc_rwset_unchecked:
  assumes "check_lscc_rwset env cc t = Inr cd" "NameSpace n = ''lscc''"
  shows "check_lscc_rwset env cc (t @ [n]) = Inr cd"
proof -
  have "find (\<lambda>ns. NameSpace ns = ''lscc'') (t @ [n]) = Some m" if "find (\<lambda>ns. NameSpace ns = ''lscc'') t = Some m" for m
    using that by (induction t) auto
  then show ?thesis using assms unfolding check_lscc_rwset_iff by force
qed

lemma checkInstantiationPolicy_iff:
  "checkInstantiationPolicy pu env chain e pol payl = Inr () \<longleftrightarrow> (\<exists>mgr evaluate h shdr. vc_GetManagerForChain env chain = Some mgr
     \<and> vc_NewPolicy env (Some mgr) pol = Inr evaluate \<and> pl_Header payl = Some h \<and> pu_GetSignatureHeader pu (hd_SignatureHeader h) = Inr shdr
     \<and> evaluate [\<lparr>sd_Data = str_of (en_Payload e), sd_Identity = str_of (sh_Creator shdr), sd_Signature = str_of (en_Signature e)\<rparr>] = Inr ())"
  by (auto simp: checkInstantiationPolicy_def res_bind_Inr_conv res_try_Inr_conv need_Inr_conv)

text \<open>A deployment is of a new chaincode under the policy it brings, an upgrade of an existing one under the policy on the ledger.\<close>

definition lifecycle_ok ::
    "'z proto_utils_scheme \<Rightarrow> 'm vscc_env \<Rightarrow> bytes \<Rightarrow> bytes \<Rightarrow> Envelope \<Rightarrow> Payload \<Rightarrow> ChaincodeID \<Rightarrow> ChaincodeData \<Rightarrow> ChaincodeData option \<Rightarrow> bool" where
  "lifecycle_ok pu env fn chain e payl cc new old \<longleftrightarrow>
     (if fn = DEPLOY then old = None \<and> (\<exists>pol. cd_InstantiationPolicy new = Some pol \<and> checkInstantiationPolicy pu env chain e pol payl = Inr ())
      else (\<exists>cd pol. old = Some cd \<and> cd_Version cd \<noteq> cc_Version cc \<and> cd_InstantiationPolicy cd = Some pol
              \<and> checkInstantiationPolicy pu env chain e pol payl = Inr ()))"

lemma check_lscc_func_iff:
  "check_lscc_func pu env fn chain e payl cc new old = Inr () \<longleftrightarrow> lifecycle_ok pu env fn chain e payl cc new old"
  by (auto simp: check_lscc_func_def lifecycle_ok_def res_bind_Inr_conv need_Inr_conv)

lemma validate_lifecycle_ok:
  assumes "validate_lifecycle pu env fn args chain e cap payl = Inr ()"
  shows "\<exists>cc t new old action prp ext ca. getInstantiatedCC env chain (cc_Name cc) = Inr old
    \<and> check_lscc_rwset env cc t = Inr new \<and> lifecycle_ok pu env fn chain e payl cc new old
    \<and> cap_Action cap = Some action \<and> pu_GetProposalResponsePayload pu (str_of (ea_ProposalResponsePayload action)) = Inr prp
    \<and> prp_Extension prp = Some ext \<and> pu_GetChaincodeAction pu ext = Inr ca \<and> FromProtoBytes (vc_codec env) (ca_Results ca) = Inr t"
  using assms unfolding validate_lifecycle_def Let_def
  by (auto simp: res_try_Inr_conv res_bind_Inr_conv need_Inr_conv check_lscc_func_iff str_of_def split: if_splits) blast

lemma ValidateLSCCInvocation_ok:
  assumes "ValidateLSCCInvocation pu env chain e cap payl = Inr ()"
  shows "\<exists>fn args. fn \<in> {DEPLOY, UPGRADE} \<and> validate_lifecycle pu env fn args chain e cap payl = Inr ()"
  using assms unfolding ValidateLSCCInvocation_def
  by (auto simp: res_bind_Inr_conv need_Inr_conv Let_def split: if_splits)

section \<open>What an accepted transaction is\<close>

definition accepts :: "Response res \<Rightarrow> bool" where
  "accepts r \<longleftrightarrow> (\<exists>resp. r = Inr resp \<and> rs_Status resp = shim_OK)"

lemma accepts_simps [simp]:
  "accepts (Inr (shim_Success p))" "\<not> accepts (Inr (shim_Error m))" "\<not> accepts (Inl e)"
  "accepts (or_error r f) \<longleftrightarrow> (\<exists>v. r = Inr v \<and> accepts (f v))"
  "accepts (res_bind r f) \<longleftrightarrow> (\<exists>v. r = Inr v \<and> accepts (f v))"
  by (cases r; auto simp: accepts_def or_error_def res_try_def split: error.split)+

definition action_accepted ::
    "'z proto_utils_scheme \<Rightarrow> 'm vscc_env \<Rightarrow> Envelope \<Rightarrow> Payload \<Rightarrow> Header \<Rightarrow> ChannelHeader \<Rightarrow> (SignedData list \<Rightarrow> unit res)
     \<Rightarrow> TransactionAction \<Rightarrow> bool" where
  "action_accepted pu env e payl hdr chdr evaluate a \<longleftrightarrow> (\<exists>cap sigs x cc. pu_GetChaincodeActionPayload pu (ta_Payload a) = Inr cap
     \<and> deduplicateIdentity env cap = Inr sigs \<and> evaluate sigs = Inr ()
     \<and> pu_GetChaincodeHeaderExtension pu hdr = Inr x \<and> hx_ChaincodeId x = Some cc
     \<and> (cc_Name cc = ''lscc'' \<longrightarrow> ValidateLSCCInvocation pu env (ch_ChannelId chdr) e cap payl = Inr ()))"

lemma vscc_actions_accepts:
  "accepts (vscc_actions pu env e payl hdr chdr evaluate acts) \<longleftrightarrow>
     (\<forall>act \<in> set acts. \<exists>a. act = Some a \<and> action_accepted pu env e payl hdr chdr evaluate a)"
proof (induction acts)
  case (Cons act acts)
  have tried: "accepts (res_try r h f) \<longleftrightarrow> (\<exists>v. r = Inr v \<and> accepts (f v))" if "\<And>e. \<not> accepts (h e)" for r h f
    using that by (cases r) (auto simp: res_try_def split: error.split)
  have "accepts (vscc_actions pu env e payl hdr chdr evaluate (Some a # acts)) \<longleftrightarrow>
      action_accepted pu env e payl hdr chdr evaluate a \<and> accepts (vscc_actions pu env e payl hdr chdr evaluate acts)" for a
  proof
    assume "accepts (vscc_actions pu env e payl hdr chdr evaluate (Some a # acts))"
    then show "action_accepted pu env e payl hdr chdr evaluate a \<and> accepts (vscc_actions pu env e payl hdr chdr evaluate acts)"
      by (auto simp: tried action_accepted_def split: if_splits)
  next
    assume r: "action_accepted pu env e payl hdr chdr evaluate a \<and> accepts (vscc_actions pu env e payl hdr chdr evaluate acts)"
    then obtain cap sigs x cc where c: "pu_GetChaincodeActionPayload pu (ta_Payload a) = Inr cap" "deduplicateIdentity env cap = Inr sigs"
      "evaluate sigs = Inr ()" "pu_GetChaincodeHeaderExtension pu hdr = Inr x" "hx_ChaincodeId x = Some cc"
      "cc_Name cc = ''lscc'' \<longrightarrow> ValidateLSCCInvocation pu env (ch_ChannelId chdr) e cap payl = Inr ()"
      unfolding action_accepted_def by blast
    obtain action where "cap_Action cap = Some action" using deduplicate_spec [OF c(2)] by blast
    then show "accepts (vscc_actions pu env e payl hdr chdr evaluate (Some a # acts))" using c r by (simp add: tried)
  qed
  then show ?case using Cons.IH by (cases act) auto
qed simp

lemma vscc_Invoke_accepts:
  "accepts (vscc_Invoke pu env [x, Some d, Some policy]) \<longleftrightarrow> (\<exists>e payl hdr chdr evaluate acts.
     pu_GetEnvelopeFromBlock pu d = Inr e \<and> pu_GetPayload pu e = Inr payl \<and> pl_Header payl = Some hdr
     \<and> pu_UnmarshalChannelHeader pu (hd_ChannelHeader hdr) = Inr chdr
     \<and> vc_NewPolicy env (vc_GetManagerForChain env (ch_ChannelId chdr)) policy = Inr evaluate
     \<and> ch_Type chdr = ENDORSER_TRANSACTION \<and> pu_GetTransaction pu (str_of (pl_Data payl)) = Inr acts
     \<and> (\<forall>act \<in> set acts. \<exists>a. act = Some a \<and> action_accepted pu env e payl hdr chdr evaluate a))"
  by (auto simp: vscc_Invoke_def vscc_actions_accepts)

lemma accepted_endorsements:
  assumes "accepts (vscc_Invoke pu env [x, Some d, Some policy])"
  shows "\<exists>e payl hdr chdr evaluate acts. pu_GetEnvelopeFromBlock pu d = Inr e \<and> pu_GetPayload pu e = Inr payl
    \<and> pl_Header payl = Some hdr \<and> pu_UnmarshalChannelHeader pu (hd_ChannelHeader hdr) = Inr chdr
    \<and> vc_NewPolicy env (vc_GetManagerForChain env (ch_ChannelId chdr)) policy = Inr evaluate
    \<and> pu_GetTransaction pu (str_of (pl_Data payl)) = Inr acts
    \<and> (\<forall>act \<in> set acts. \<exists>a cap action es sigs. act = Some a \<and> pu_GetChaincodeActionPayload pu (ta_Payload a) = Inr cap
         \<and> cap_Action cap = Some action \<and> evaluate sigs = Inr ()
         \<and> map (\<lambda>s. (sd_Identity s, sd_Signature s)) sigs = map (\<lambda>e. (ed_Endorser e, ed_Signature e)) es
         \<and> (vc_spare env = 0 \<longrightarrow> (\<forall>s \<in> set sigs. sd_Data s = str_of (ea_ProposalResponsePayload action) @ sd_Identity s))
         \<and> es = first_by (ident env) [] (ea_Endorsements action) \<and> distinct (map (ident env) es)
         \<and> ident env ` set es = ident env ` set (ea_Endorsements action))"
proof -
  from assms [unfolded vscc_Invoke_accepts] obtain e payl hdr chdr evaluate acts where v:
    "pu_GetEnvelopeFromBlock pu d = Inr e" "pu_GetPayload pu e = Inr payl" "pl_Header payl = Some hdr"
    "pu_UnmarshalChannelHeader pu (hd_ChannelHeader hdr) = Inr chdr"
    "vc_NewPolicy env (vc_GetManagerForChain env (ch_ChannelId chdr)) policy = Inr evaluate"
    "pu_GetTransaction pu (str_of (pl_Data payl)) = Inr acts"
    "\<forall>act \<in> set acts. \<exists>a. act = Some a \<and> action_accepted pu env e payl hdr chdr evaluate a" by blast
  have "\<exists>a cap action es sigs. act = Some a \<and> pu_GetChaincodeActionPayload pu (ta_Payload a) = Inr cap
      \<and> cap_Action cap = Some action \<and> evaluate sigs = Inr ()
      \<and> map (\<lambda>s. (sd_Identity s, sd_Signature s)) sigs = map (\<lambda>e. (ed_Endorser e, ed_Signature e)) es
      \<and> (vc_spare env = 0 \<longrightarrow> (\<forall>s \<in> set sigs. sd_Data s = str_of (ea_ProposalResponsePayload action) @ sd_Identity s))
      \<and> es = first_by (ident env) [] (ea_Endorsements action) \<and> distinct (map (ident env) es)
      \<and> ident env ` set es = ident env ` set (ea_Endorsements action)" if act: "act \<in> set acts" for act
  proof -
    obtain a cap sigs where a: "act = Some a" "pu_GetChaincodeActionPayload pu (ta_Payload a) = Inr cap"
      "deduplicateIdentity env cap = Inr sigs" "evaluate sigs = Inr ()"
      using v(7) act unfolding action_accepted_def by blast
    obtain action where c: "cap_Action cap = Some action"
      "map (\<lambda>s. (sd_Identity s, sd_Signature s)) sigs
        = map (\<lambda>e. (ed_Endorser e, ed_Signature e)) (first_by (ident env) [] (ea_Endorsements action))"
      "vc_spare env = 0 \<longrightarrow> (\<forall>s \<in> set sigs. sd_Data s = str_of (ea_ProposalResponsePayload action) @ sd_Identity s)"
      using deduplicate_spec [OF a(3)] by (elim exE conjE)
    have "ident env ` set (first_by (ident env) [] (ea_Endorsements action)) = ident env ` set (ea_Endorsements action)"
      using first_by_complete [of _ "ea_Endorsements action" "ident env" "[]"] first_by_subset [of "ident env" "[]"] by auto
    moreover have "distinct (map (ident env) (first_by (ident env) [] (ea_Endorsements action)))"
      using first_by_distinct [of "ident env" "[]"] by blast
    ultimately show ?thesis using a c
      by (intro exI [of _ a] exI [of _ cap] exI [of _ action] exI [of _ "first_by (ident env) [] (ea_Endorsements action)"] exI [of _ sigs]) simp
  qed
  then show ?thesis using v(1-6) by blast
qed

end
