(* ===== verification/DemoTx.thy ===== *)
theory DemoTx
  imports Demo Committer Vscc
begin

text \<open>
  The instance of \<open>Demo\<close> continued to the committer: every identity is valid and every signature
  verifies, the validation chaincode answers with success, and the channel has no configuration of its
  own. A second environment of the validation chaincode is one whose policy asks for two distinct
  identities.
\<close>

definition demo_identity :: identity where
  "demo_identity = \<lparr>id_Validate = Inr (), id_Verify = (\<lambda>_ _. Inr ())\<rparr>"

definition demo_msg :: msg_env where
  "demo_msg = \<lparr>mv_GetIdentityDeserializer = (\<lambda>_. Some (\<lambda>_. Inr demo_identity)), mv_CheckProposalTxID = (\<lambda>_ _ _. Inr ()),
     mv_GetProposalHash2 = (\<lambda>_ _. Inr [])\<rparr>"

definition demo_txv :: "(Block list, memdb, unit) txv_env" where
  "demo_txv = \<lparr>tv_kvl = demo_env, tv_tenv = one_tm, tv_mv = (\<lambda>_. demo_msg), tv_GetMSPIDs = (\<lambda>_ _. [''msp'']),
     tv_SignedByAnyMember = (\<lambda>_. Inr ''any''), tv_SysCCVersion = ''1'',
     tv_UnmarshalChaincodeData = (\<lambda>_. Inl (Err ''bad'')), tv_UnmarshalConfigEnvelope = Inr, tv_Apply = (\<lambda>_ c. Inr c),
     tv_MarshalEnvelope = (\<lambda>e. Inr (str_of (en_Payload e))),
     tv_ExecuteChaincode = (\<lambda>_ _ _ _ _ _. Inr (shim_Success None)), tv_order = (\<lambda>_ i. i)\<rparr>"

definition demo_committer :: "(Block list, memdb, unit) LedgerCommitter" where
  "demo_committer = \<lparr>co_txv = demo_txv, co_IsConfigBlock = (\<lambda>_. False), co_eventer = (\<lambda>_ c. Inr c),
     co_SendProducerBlockEvent = (\<lambda>_. Inl (Err ''no producer''))\<rparr>"

definition demo_instance :: ChaincodeInstance where
  "demo_instance = \<lparr>ci_ChainID = ''ch'', ci_ChaincodeName = ''rbccustomer'', ci_ChaincodeVersion = ''1''\<rparr>"

definition demo_judgement :: judgement where
  "demo_judgement = \<lparr>j_code = VALID, j_invoked = Some demo_instance, j_upgraded = None\<rparr>"

lemma demo_ke_val [simp]: "ke_val demo_env = demo_val"
  by (simp add: demo_hist_def)

lemma demo_tv [simp]: "tv_kvl demo_txv = demo_env" "tv_mv demo_txv c = demo_msg"
  by (simp_all add: demo_txv_def)

lemma demo_ValidateTransaction:
  "ValidateTransaction demo_val demo_msg (Some \<lparr>en_Payload = Some d, en_Signature = Some ''sig''\<rparr>)
    = Inr (Some \<lparr>pl_Header = Some \<lparr>hd_ChannelHeader = [], hd_SignatureHeader = []\<rparr>, pl_Data = Some d\<rparr>, VALID)"
  by (simp add: ValidateTransaction_def validateCommonHeader_def validateChannelHeader_def validateSignatureHeader_def
      checkSignatureFromCreator_def validate_typed_def validateEndorserTransaction_def validate_action_def
      demo_msg_def demo_identity_def str_of_def demo_val_defs)

lemma demo_VSCC:
  assumes "FromProtoBytes wire_codec d = Inr t"
  shows "VSCCValidateTx demo_txv c l \<lparr>pl_Header = Some \<lparr>hd_ChannelHeader = [], hd_SignatureHeader = []\<rparr>, pl_Data = Some d\<rparr> d = Inr (None, VALID)"
  using assms
  by (simp add: VSCCValidateTx_def vscc_named_def vscc_system_def GetInfoForValidate_def VSCCValidateTxForCC_def
      demo_txv_def demo_val_defs demo_hist_def demo_cc_def sys_names shim_Success_def)

lemma demo_judge:
  assumes "FromProtoBytes wire_codec d = Inr t"
  shows "judge demo_txv demo_ledger () d = Inr (None, demo_judgement, ())"
proof -
  have env: "pu_GetEnvelopeFromBlock demo_val d = Inr \<lparr>en_Payload = Some d, en_Signature = Some ''sig''\<rparr>" by (simp add: demo_val_defs)
  have "GetTransactionByID demo_env demo_ledger tx = Inl (Err ''Entry not found in index'')" for tx
    by (simp add: GetTransactionByID_def list_blockstore_def)
  moreover have "getTxCCInstance demo_txv \<lparr>pl_Header = Some \<lparr>hd_ChannelHeader = [], hd_SignatureHeader = []\<rparr>, pl_Data = Some d\<rparr>
      = Inr (Some demo_instance, None)"
    by (simp add: getTxCCInstance_def demo_val_defs demo_cc_def index_at_def demo_instance_def)
  ultimately show ?thesis
    using demo_VSCC [OF assms] demo_ValidateTransaction [of d] env
    by (simp add: judge_def check_tx_def check_envelope_def check_endorser_tx_def pass_tx_def flag_tx_def demo_judgement_def
        SetFlag_def chainExists_def demo_txv_def demo_val_defs join_def)
qed

lemma demo_judges:
  "judges demo_txv demo_ledger () (blk_Data demo_block) = Inr (None, [demo_judgement, demo_judgement], ())"
  using demo_judge [OF demo_wire [of "demo_ts ! 0"]] demo_judge [OF demo_wire [of "demo_ts ! 1"]]
  by (simp add: demo_ts_def)

lemma demo_final [simp]: "i < 2 \<Longrightarrow> final_code [demo_judgement, demo_judgement] i = VALID"
proof -
  have "\<not> upgraded_later [demo_judgement, demo_judgement] i" "\<not> names_upgraded [demo_judgement, demo_judgement] i" for i
    by (auto simp: upgraded_later_def names_upgraded_def nth_Cons demo_judgement_def split: nat.splits)
  then show "i < 2 \<Longrightarrow> final_code [demo_judgement, demo_judgement] i = VALID"
    by (auto simp: final_code_def demo_judgement_def nth_Cons split: nat.splits)
qed

lemma demo_flagged: "fresh_block demo_env mem_empty (demo_block\<lparr>blk_TxFilter := [VALID, VALID]\<rparr>) demo_ts"
proof -
  have f: "initial_flags (demo_block\<lparr>blk_TxFilter := [VALID, VALID]\<rparr>) = initial_flags demo_block"
    by (simp add: initial_flags_def NewTxValidationFlags_def numeral_2_eq_2)
  then have "block_log demo_val (demo_block\<lparr>blk_TxFilter := [VALID, VALID]\<rparr>) = block_log demo_val demo_block"
    by (simp add: block_log_def)
  then show ?thesis using demo_fresh f unfolding fresh_block_def by simp
qed

text \<open>Three endorsements of two identities.\<close>

definition two_of_three :: "unit vscc_env" where
  "two_of_three = \<lparr>vc_GetManagerForChain = (\<lambda>_. Some ()),
     vc_NewPolicy = (\<lambda>_ _. Inr (\<lambda>sigs. if length sigs = 2 then Inr () else Inl (Err ''not satisfied''))),
     vc_UnmarshalSerializedIdentity = (\<lambda>b. Inr (''msp'', b)), vc_UnmarshalChaincodeData = (\<lambda>_. Inl (Err ''bad'')),
     vc_GetQueryExecutorForLedger = (\<lambda>_. Inl (Err ''none'')), vc_codec = wire_codec, vc_spare = 0\<rparr>"

definition demo_endorsed :: proto_utils where
  "demo_endorsed = demo_utils\<lparr>pu_GetChaincodeActionPayload := (\<lambda>e. Inr \<lparr>cap_ChaincodeProposalPayload = [],
     cap_Action = Some \<lparr>ea_ProposalResponsePayload = Some e,
       ea_Endorsements = map (\<lambda>i. \<lparr>ed_Endorser = i, ed_Signature = ''s''\<rparr>) [''a'', ''a'', ''b'']\<rparr>\<rparr>)\<rparr>"

lemma demo_endorsed_accepted: "accepts (vscc_Invoke demo_endorsed two_of_three [None, Some ''e'', Some ''p''])"
  by (simp add: vscc_Invoke_def two_of_three_def demo_endorsed_def demo_utils_def demo_chdr_def deduplicateIdentity_def
      append_endorser_def Let_def demo_cc_def or_error_def)

end
