(* ===== verification/CCPackage.thy ===== *)
theory CCPackage
  imports SysCC Messages
begin

text \<open>
  Chaincode packages: \<^verbatim>\<open>core/common/ccpackage/ccpackage.go\<close> (owners sign a package),
  \<^verbatim>\<open>core/common/ccprovider/cdspackage.go\<close> and \<^verbatim>\<open>sigcdspackage.go\<close> (the raw and the signed package),
  \<^verbatim>\<open>ccprovider.go\<close> (finding the right kind, the packages on the file system) and \<^verbatim>\<open>ccinfocache.go\<close>.

  The file system is a map from paths to contents; whether the operating system lets a write
  through, the protobuf codecs and the hash of the crypto provider are the record \<open>pkg_env\<close>.
  \<^verbatim>\<open>Marshal\<close> returns no nil slice.

  Results: a package that is installed is found again (\<open>install_found\<close>), and installing one keeps
  the others if names hold no period (\<open>install_keeps_others\<close>); a package validates the record it
  yields, and what it validates has the hash of its code (\<open>validates_own_data\<close>,
  \<open>validated_code\<close>); what the directory lists is readable and under its own name
  (\<open>installed_listed\<close>). Packages endorsed by their owners lose these endorsements when they
  are collated (\<open>collated_endorsements_missing\<close>), a buffer without a chaincode spec stops the peer
  (\<open>package_without_spec_panics\<close>), and the cache keeps serving a package that has been replaced
  (\<open>cache_serves_replaced\<close>).
\<close>

type_synonym ccfs = "(bytes, bytes) gomap"

record CDSData =
  dt_CodeHash :: bytes
  dt_MetaDataHash :: bytes

record SignedCDSData =
  sdt_CodeHash :: bytes
  sdt_MetaDataHash :: bytes
  sdt_SignatureHash :: bytes

record pkg_env =
  pk_UnmarshalCDS :: "bytes \<Rightarrow> ChaincodeDeploymentSpec res"
  pk_MarshalCDS :: "ChaincodeDeploymentSpec \<Rightarrow> bytes res"
  pk_UnmarshalEnvelope :: "bytes \<Rightarrow> Envelope res"
  pk_UnmarshalPayload :: "bytes \<Rightarrow> Payload res"
  pk_GetBytesPayload :: "Payload \<Rightarrow> bytes res"
  pk_UnmarshalChannelHeader :: "bytes \<Rightarrow> ChannelHeader res"
  pk_MakeChannelHeader :: "HeaderType \<Rightarrow> bytes"
  pk_UnmarshalSCDS :: "bytes \<Rightarrow> SignedChaincodeDeploymentSpec res"
  pk_MarshalSCDS :: "SignedChaincodeDeploymentSpec \<Rightarrow> bytes res"
  pk_UnmarshalCDSData :: "bytes \<Rightarrow> CDSData res"
  pk_MarshalCDSData :: "CDSData \<Rightarrow> bytes res"
  pk_UnmarshalSignedCDSData :: "bytes \<Rightarrow> SignedCDSData res"
  pk_MarshalSignedCDSData :: "SignedCDSData \<Rightarrow> bytes res"
  pk_GetHash :: "(bytes \<Rightarrow> bytes) res"
  pk_WriteFile :: "bytes \<Rightarrow> bytes \<Rightarrow> unit res"
  pk_InstallPath :: bytes

text \<open>\<^verbatim>\<open>cds.ChaincodeSpec.ChaincodeId\<close>, read through two pointers.\<close>

definition spec_id :: "ChaincodeDeploymentSpec \<Rightarrow> ChaincodeID res" where
  "spec_id cds = res_bind (deref (cds_ChaincodeSpec cds)) (\<lambda>spec. deref (cs_ChaincodeId spec))"

section \<open>Owners sign a package\<close>

definition ExtractSignedCCDepSpec ::
    "pkg_env \<Rightarrow> Envelope \<Rightarrow> (ChannelHeader \<times> SignedChaincodeDeploymentSpec) res" where
  "ExtractSignedCCDepSpec env e =
     res_bind (pk_UnmarshalPayload env (str_of (en_Payload e))) (\<lambda>p.
     res_bind (deref (pl_Header p)) (\<lambda>hdr.
     res_bind (pk_UnmarshalChannelHeader env (hd_ChannelHeader hdr)) (\<lambda>ch.
     res_bind (pk_UnmarshalSCDS env (str_of (pl_Data p))) (\<lambda>sp.
       Inr (ch, sp)))))"

text \<open>A decoded list of endorsements is nil exactly if it is empty.\<close>

definition ValidateCip :: "SignedChaincodeDeploymentSpec option \<Rightarrow> SignedChaincodeDeploymentSpec option \<Rightarrow> unit res" where
  "ValidateCip baseCip otherCip =
     (case (baseCip, otherCip) of
        (Some b, Some c) \<Rightarrow>
          let bN = length (sds_OwnerEndorsements b); oN = length (sds_OwnerEndorsements c) in
          if bN = 0 \<and> oN \<noteq> 0 \<or> bN \<noteq> 0 \<and> oN = 0 then Inl (Err ''endorsements should either be both nil or not nil'')
          else if bN > 1 \<or> oN > 1 then Inl (Err ''expect utmost 1 endorsement from a owner'')
          else if bN \<noteq> oN then Inl (Err ''Rule-all packages should be endorsed or none should be endorsed failed'')
          else if str_of (sds_ChaincodeDeploymentSpec b) \<noteq> str_of (sds_ChaincodeDeploymentSpec c)
          then Inl (Err ''Rule-all deployment specs should match'')
          else if str_of (sds_InstantiationPolicy b) \<noteq> str_of (sds_InstantiationPolicy c)
          then Inl (Err ''Rule-all instantiation policies should match'')
          else Inr ()
      | _ \<Rightarrow> Inl (Panic ''do not call with nil parameters''))"

text \<open>\<^verbatim>\<open>utils.MarshalOrPanic\<close>\<close>

definition MarshalOrPanic :: "'a res \<Rightarrow> 'a res" where
  "MarshalOrPanic r = res_try r (\<lambda>_. Inl (Panic ''marshal'')) Inr"

definition createSignedCCDepSpec :: "pkg_env \<Rightarrow> slice \<Rightarrow> slice \<Rightarrow> Endorsement option list \<Rightarrow> Envelope res" where
  "createSignedCCDepSpec env cdsbytes instpolicybytes endorsements =
     need cdsbytes ''nil chaincode deployment spec'' (\<lambda>_.
     need instpolicybytes ''nil instantiation policy'' (\<lambda>_.
     res_bind (MarshalOrPanic (pk_MarshalSCDS env \<lparr>sds_ChaincodeDeploymentSpec = cdsbytes,
         sds_InstantiationPolicy = instpolicybytes, sds_OwnerEndorsements = endorsements\<rparr>)) (\<lambda>cipbytes.
     res_bind (pk_GetBytesPayload env \<lparr>pl_Header = Some \<lparr>hd_ChannelHeader = pk_MakeChannelHeader env CHAINCODE_PACKAGE,
         hd_SignatureHeader = []\<rparr>, pl_Data = Some cipbytes\<rparr>) (\<lambda>paylBytes.
       Inr \<lparr>en_Payload = Some paylBytes, en_Signature = None\<rparr>))))"

text \<open>One round of the loop that collates packages: the base package and the endorsements so far.\<close>

definition collate_step ::
    "pkg_env \<Rightarrow> nat \<Rightarrow> bool \<Rightarrow> SignedChaincodeDeploymentSpec option \<times> Endorsement option list \<Rightarrow> nat \<times> Envelope
     \<Rightarrow> (SignedChaincodeDeploymentSpec option \<times> Endorsement option list) res" where
  "collate_step env num endorsementExists s nr =
     (let (baseCip, endorsements) = s; (n, r) = nr in
      res_bind (pk_UnmarshalPayload env (str_of (en_Payload r))) (\<lambda>p.
      res_bind (pk_UnmarshalSCDS env (str_of (pl_Data p))) (\<lambda>cip.
      res_bind (if n = 0 then Inr (Some cip, if length (sds_OwnerEndorsements cip) > 0 then replicate num None else endorsements)
                else res_bind (ValidateCip baseCip (Some cip)) (\<lambda>_. Inr (baseCip, endorsements))) (\<lambda>(baseCip, endorsements).
        if endorsementExists then
          res_bind (index_at (sds_OwnerEndorsements cip) 0) (\<lambda>e. Inr (baseCip, endorsements[n := e]))
        else Inr (baseCip, endorsements)))))"

text \<open>The variable \<^verbatim>\<open>endorsementExists\<close> is declared and never assigned.\<close>

definition CreateSignedCCDepSpecForInstall :: "pkg_env \<Rightarrow> Envelope list \<Rightarrow> Envelope res" where
  "CreateSignedCCDepSpecForInstall env pack =
     (if length pack = 0 then Inl (Err ''no packages provided to collate'')
      else
        res_bind (foldM (collate_step env (length pack) False) (None, []) (enumerate 0 pack)) (\<lambda>(baseCip, endorsements).
        res_bind (deref baseCip) (\<lambda>baseCip.
          createSignedCCDepSpec env (sds_ChaincodeDeploymentSpec baseCip) (sds_InstantiationPolicy baseCip) endorsements)))"

record SigningIdentity =
  si_Serialize :: "bytes res"
  si_Sign :: "bytes \<Rightarrow> bytes res"

definition sign_package :: "SigningIdentity \<Rightarrow> bytes \<Rightarrow> bytes \<Rightarrow> Endorsement res" where
  "sign_package owner cdsbytes instpolicybytes =
     res_try (si_Serialize owner) (\<lambda>_. Inl (Err ''Could not serialize the signing identity'')) (\<lambda>endorser.
     res_try (si_Sign owner (cdsbytes @ instpolicybytes @ endorser)) (\<lambda>_. Inl (Err ''Could not sign the ccpackage'')) (\<lambda>signature.
       Inr \<lparr>ed_Endorser = endorser, ed_Signature = signature\<rparr>))"

definition OwnerCreateSignedCCDepSpec ::
    "pkg_env \<Rightarrow> ChaincodeDeploymentSpec option \<Rightarrow> bytes res option \<Rightarrow> SigningIdentity option \<Rightarrow> Envelope res" where
  "OwnerCreateSignedCCDepSpec env cds instPolicy owner =
     need cds ''invalid chaincode deployment spec'' (\<lambda>cds.
     need instPolicy ''must provide an instantiation policy'' (\<lambda>instPolicy.
     res_bind (MarshalOrPanic (pk_MarshalCDS env cds)) (\<lambda>cdsbytes.
     res_bind (MarshalOrPanic instPolicy) (\<lambda>instpolicybytes.
     res_bind (case owner of None \<Rightarrow> Inr []
               | Some owner \<Rightarrow> res_bind (sign_package owner cdsbytes instpolicybytes) (\<lambda>e. Inr [Some e])) (\<lambda>endorsements.
       createSignedCCDepSpec env (Some cdsbytes) (Some instpolicybytes) endorsements)))))"

definition SignExistingPackage :: "pkg_env \<Rightarrow> Envelope \<Rightarrow> SigningIdentity option \<Rightarrow> Envelope res" where
  "SignExistingPackage env e owner =
     need owner ''owner not provided'' (\<lambda>owner.
     res_bind (ExtractSignedCCDepSpec env e) (\<lambda>(ch, sdepspec).
       need (sds_ChaincodeDeploymentSpec sdepspec) ''invalid signed deployment spec'' (\<lambda>cds.
       need (sds_InstantiationPolicy sdepspec) ''invalid signed deployment spec'' (\<lambda>pol.
         if sds_OwnerEndorsements sdepspec = [] then Inl (Err ''invalid signed deployment spec'')
         else
           res_bind (sign_package owner cds pol) (\<lambda>en.
             createSignedCCDepSpec env (Some cds) (Some pol) (sds_OwnerEndorsements sdepspec @ [Some en]))))))"

section \<open>The raw package\<close>

record CDSPackage =
  cp_buf :: slice
  cp_depSpec :: "ChaincodeDeploymentSpec option"
  cp_data :: "CDSData option"
  cp_datab :: slice
  cp_id :: slice

definition CDSData_Equals :: "CDSData \<Rightarrow> CDSData option \<Rightarrow> bool" where
  "CDSData_Equals d other = (case other of None \<Rightarrow> False
     | Some o' \<Rightarrow> dt_CodeHash d = dt_CodeHash o' \<and> dt_MetaDataHash d = dt_MetaDataHash o')"

definition or_panic :: "'a option \<Rightarrow> string \<Rightarrow> 'a res" where
  "or_panic x msg = (case x of None \<Rightarrow> Inl (Panic msg) | Some v \<Rightarrow> Inr v)"

definition cds_GetId :: "CDSPackage \<Rightarrow> bytes res" where
  "cds_GetId p = or_panic (cp_id p) ''GetId called on uninitialized package''"

definition cds_GetDepSpec :: "CDSPackage \<Rightarrow> ChaincodeDeploymentSpec res" where
  "cds_GetDepSpec p = or_panic (cp_depSpec p) ''GetDepSpec called on uninitialized package''"

definition cds_GetDepSpecBytes :: "CDSPackage \<Rightarrow> bytes res" where
  "cds_GetDepSpecBytes p = or_panic (cp_buf p) ''GetDepSpecBytes called on uninitialized package''"

definition new_ChaincodeData :: "ChaincodeID \<Rightarrow> bytes \<Rightarrow> bytes \<Rightarrow> slice \<Rightarrow> ChaincodeData" where
  "new_ChaincodeData cc datab fp instPolicy = \<lparr>cd_Name = cc_Name cc, cd_Version = cc_Version cc, cd_Escc = [], cd_Vscc = [],
     cd_Policy = [], cd_Data = Some datab, cd_Id = Some fp, cd_InstantiationPolicy = instPolicy, cd_Buf = None, cd_TxID = [],
     cd_Timestamp = [], cd_Desc = []\<rparr>"

definition cds_GetChaincodeData :: "CDSPackage \<Rightarrow> ChaincodeData res" where
  "cds_GetChaincodeData p =
     (case (cp_depSpec p, cp_datab p, cp_id p) of
        (Some cds, Some datab, Some fp) \<Rightarrow> res_bind (spec_id cds) (\<lambda>cc. Inr (new_ChaincodeData cc datab fp None))
      | _ \<Rightarrow> Inl (Panic ''GetChaincodeData called on uninitialized package''))"

text \<open>The marshalled data, the fingerprint, and the data.\<close>

definition getCDSData :: "pkg_env \<Rightarrow> ChaincodeDeploymentSpec \<Rightarrow> (bytes \<times> bytes \<times> CDSData) res" where
  "getCDSData env cds =
     res_bind (pk_MarshalCDS env cds) (\<lambda>_.
     res_bind (pk_GetHash env) (\<lambda>hash.
     res_bind (spec_id cds) (\<lambda>cc.
       let cdsdata = \<lparr>dt_CodeHash = hash (cds_CodePackage cds), dt_MetaDataHash = hash (cc_Name cc @ cc_Version cc)\<rparr> in
     res_bind (pk_MarshalCDSData env cdsdata) (\<lambda>b.
       Inr (b, hash (dt_CodeHash cdsdata @ dt_MetaDataHash cdsdata), cdsdata)))))"

definition cds_ValidateCC :: "pkg_env \<Rightarrow> CDSPackage \<Rightarrow> ChaincodeData \<Rightarrow> unit res" where
  "cds_ValidateCC env p ccdata =
     need (cp_depSpec p) ''uninitialized package'' (\<lambda>cds.
     need (cp_data p) ''nil data'' (\<lambda>d.
     res_bind (spec_id cds) (\<lambda>cc.
       if cd_Name ccdata \<noteq> cc_Name cc \<or> cd_Version ccdata \<noteq> cc_Version cc then Inl (Err ''invalid chaincode data'')
       else
         res_bind (pk_UnmarshalCDSData env (str_of (cd_Data ccdata))) (\<lambda>otherdata.
           if \<not> CDSData_Equals d (Some otherdata) then Inl (Err ''data mismatch'') else Inr ()))))"

definition cds_InitFromBuffer :: "pkg_env \<Rightarrow> slice \<Rightarrow> (ChaincodeData \<times> CDSPackage) res" where
  "cds_InitFromBuffer env buf =
     res_try (pk_UnmarshalCDS env (str_of buf)) (\<lambda>_. Inl (Err ''failed to unmarshal deployment spec from bytes'')) (\<lambda>depSpec.
     res_bind (getCDSData env depSpec) (\<lambda>(databytes, fp, d).
       let p = \<lparr>cp_buf = buf, cp_depSpec = Some depSpec, cp_data = Some d, cp_datab = Some databytes, cp_id = Some fp\<rparr> in
       res_bind (cds_GetChaincodeData p) (\<lambda>cd. Inr (cd, p))))"

text \<open>\<^verbatim>\<open>fmt.Sprintf("%s/%s.%s", chaincodeInstallPath, ccname, ccversion)\<close>\<close>

definition package_path :: "pkg_env \<Rightarrow> bytes \<Rightarrow> bytes \<Rightarrow> bytes" where
  "package_path env ccname ccversion = pk_InstallPath env @ ''/'' @ ccname @ ''.'' @ ccversion"

definition GetChaincodePackage :: "pkg_env \<Rightarrow> bytes \<Rightarrow> bytes \<Rightarrow> ccfs \<Rightarrow> bytes res" where
  "GetChaincodePackage env ccname ccversion fs = need (gm_get fs (package_path env ccname ccversion)) ''no such file'' Inr"

definition ChaincodePackageExists :: "pkg_env \<Rightarrow> bytes \<Rightarrow> bytes \<Rightarrow> ccfs \<Rightarrow> bool res" where
  "ChaincodePackageExists env ccname ccversion fs = need (gm_get fs (package_path env ccname ccversion)) ''no such file'' (\<lambda>_. Inr True)"

definition cds_InitFromFS :: "pkg_env \<Rightarrow> bytes \<Rightarrow> bytes \<Rightarrow> ccfs \<Rightarrow> CDSPackage res" where
  "cds_InitFromFS env ccname ccversion fs =
     res_bind (GetChaincodePackage env ccname ccversion fs) (\<lambda>buf.
     res_bind (cds_InitFromBuffer env (Some buf)) (\<lambda>(_, p). Inr p))"

definition write_package :: "pkg_env \<Rightarrow> ChaincodeDeploymentSpec \<Rightarrow> bytes \<Rightarrow> ccfs \<Rightarrow> ccfs res" where
  "write_package env cds buf fs =
     res_bind (spec_id cds) (\<lambda>cc.
       let path = package_path env (cc_Name cc) (cc_Version cc) in
       res_bind (pk_WriteFile env path buf) (\<lambda>_. Inr (gm_put path buf fs)))"

definition cds_PutChaincodeToFS :: "pkg_env \<Rightarrow> CDSPackage \<Rightarrow> ccfs \<Rightarrow> ccfs res" where
  "cds_PutChaincodeToFS env p fs =
     need (cp_buf p) ''uninitialized package'' (\<lambda>buf.
     need (cp_id p) ''id cannot be nil if buf is not nil'' (\<lambda>_.
     need (cp_depSpec p) ''depspec cannot be nil if buf is not nil'' (\<lambda>cds.
     need (cp_data p) ''nil data'' (\<lambda>_.
     need (cp_datab p) ''nil data bytes'' (\<lambda>_.
       write_package env cds buf fs)))))"

section \<open>The signed package\<close>

record SignedCDSPackage =
  sp_buf :: slice
  sp_depSpec :: "ChaincodeDeploymentSpec option"
  sp_sDepSpec :: "SignedChaincodeDeploymentSpec option"
  sp_env :: "Envelope option"
  sp_data :: "SignedCDSData option"
  sp_datab :: slice
  sp_id :: slice

definition SignedCDSData_Equals :: "SignedCDSData \<Rightarrow> SignedCDSData option \<Rightarrow> bool" where
  "SignedCDSData_Equals d other = (case other of None \<Rightarrow> False
     | Some o' \<Rightarrow> sdt_CodeHash d = sdt_CodeHash o' \<and> sdt_MetaDataHash d = sdt_MetaDataHash o'
         \<and> sdt_SignatureHash d = sdt_SignatureHash o')"

definition scds_GetId :: "SignedCDSPackage \<Rightarrow> bytes res" where
  "scds_GetId p = or_panic (sp_id p) ''GetId called on uninitialized package''"

definition scds_GetDepSpec :: "SignedCDSPackage \<Rightarrow> ChaincodeDeploymentSpec res" where
  "scds_GetDepSpec p = or_panic (sp_depSpec p) ''GetDepSpec called on uninitialized package''"

definition scds_GetInstantiationPolicy :: "SignedCDSPackage \<Rightarrow> slice res" where
  "scds_GetInstantiationPolicy p =
     res_bind (or_panic (sp_sDepSpec p) ''GetInstantiationPolicy called on uninitialized package'') (\<lambda>s.
       Inr (sds_InstantiationPolicy s))"

definition scds_GetDepSpecBytes :: "SignedCDSPackage \<Rightarrow> bytes res" where
  "scds_GetDepSpecBytes p =
     res_bind (or_panic (sp_sDepSpec p) ''GetDepSpecBytes called on uninitialized package'') (\<lambda>s.
       or_panic (sds_ChaincodeDeploymentSpec s) ''GetDepSpecBytes called on uninitialized package'')"

definition scds_GetChaincodeData :: "SignedCDSPackage \<Rightarrow> ChaincodeData res" where
  "scds_GetChaincodeData p =
     (case (sp_depSpec p, sp_datab p, sp_id p) of
        (Some cds, Some datab, Some fp) \<Rightarrow>
          let instPolicy = (case sp_sDepSpec p of None \<Rightarrow> None | Some s \<Rightarrow> sds_InstantiationPolicy s) in
          res_bind (spec_id cds) (\<lambda>cc. Inr (new_ChaincodeData cc datab fp instPolicy))
      | _ \<Rightarrow> Inl (Panic ''GetChaincodeData called on uninitialized package''))"

definition scds_getCDSData :: "pkg_env \<Rightarrow> SignedChaincodeDeploymentSpec \<Rightarrow> (bytes \<times> bytes \<times> SignedCDSData) res" where
  "scds_getCDSData env scds =
     res_bind (pk_UnmarshalCDS env (str_of (sds_ChaincodeDeploymentSpec scds))) (\<lambda>cds.
     res_bind (pk_GetHash env) (\<lambda>hash.
     res_bind (spec_id cds) (\<lambda>cc.
     need (sds_InstantiationPolicy scds) ''instantiation policy cannot be nil for chaincode'' (\<lambda>pol.
     res_bind (mapM deref (sds_OwnerEndorsements scds)) (\<lambda>owners.
       let scdsdata = \<lparr>sdt_CodeHash = hash (cds_CodePackage cds), sdt_MetaDataHash = hash (cc_Name cc @ cc_Version cc),
                       sdt_SignatureHash = hash (pol @ concat (map ed_Endorser owners))\<rparr> in
     res_bind (pk_MarshalSignedCDSData env scdsdata) (\<lambda>b.
       Inr (b, hash (sdt_CodeHash scdsdata @ sdt_MetaDataHash scdsdata @ sdt_SignatureHash scdsdata), scdsdata)))))))"

text \<open>The data of the package is read without a test.\<close>

definition scds_ValidateCC :: "pkg_env \<Rightarrow> SignedCDSPackage \<Rightarrow> ChaincodeData \<Rightarrow> unit res" where
  "scds_ValidateCC env p ccdata =
     need (sp_sDepSpec p) ''uninitialized package'' (\<lambda>s.
     need (sds_ChaincodeDeploymentSpec s) ''signed chaincode deployment spec cannot be nil in a package'' (\<lambda>_.
     need (sp_depSpec p) ''chaincode deployment spec cannot be nil in a package'' (\<lambda>cds.
     res_bind (spec_id cds) (\<lambda>cc.
       if cd_Name ccdata \<noteq> cc_Name cc \<or> cd_Version ccdata \<noteq> cc_Version cc then Inl (Err ''invalid chaincode data'')
       else
         res_bind (pk_UnmarshalSignedCDSData env (str_of (cd_Data ccdata))) (\<lambda>otherdata.
         res_bind (deref (sp_data p)) (\<lambda>d.
           if \<not> SignedCDSData_Equals d (Some otherdata) then Inl (Err ''data mismatch'') else Inr ()))))))"

definition scds_InitFromBuffer :: "pkg_env \<Rightarrow> slice \<Rightarrow> (ChaincodeData \<times> SignedCDSPackage) res" where
  "scds_InitFromBuffer env buf =
     res_try (pk_UnmarshalEnvelope env (str_of buf)) (\<lambda>_. Inl (Err ''failed to unmarshal envelope from bytes'')) (\<lambda>e.
     res_bind (ExtractSignedCCDepSpec env e) (\<lambda>(cHdr, sDepSpec).
       if ch_Type cHdr \<noteq> CHAINCODE_PACKAGE then Inl (Err ''invalid type of envelope for chaincode package'')
       else
         res_try (pk_UnmarshalCDS env (str_of (sds_ChaincodeDeploymentSpec sDepSpec)))
           (\<lambda>_. Inl (Err ''error getting deployment spec'')) (\<lambda>depSpec.
         res_bind (scds_getCDSData env sDepSpec) (\<lambda>(databytes, fp, d).
           let p = \<lparr>sp_buf = buf, sp_depSpec = Some depSpec, sp_sDepSpec = Some sDepSpec, sp_env = Some e, sp_data = Some d,
                    sp_datab = Some databytes, sp_id = Some fp\<rparr> in
           res_bind (scds_GetChaincodeData p) (\<lambda>cd. Inr (cd, p))))))"

definition scds_InitFromFS :: "pkg_env \<Rightarrow> bytes \<Rightarrow> bytes \<Rightarrow> ccfs \<Rightarrow> SignedCDSPackage res" where
  "scds_InitFromFS env ccname ccversion fs =
     res_bind (GetChaincodePackage env ccname ccversion fs) (\<lambda>buf.
     res_bind (scds_InitFromBuffer env (Some buf)) (\<lambda>(_, p). Inr p))"

definition scds_PutChaincodeToFS :: "pkg_env \<Rightarrow> SignedCDSPackage \<Rightarrow> ccfs \<Rightarrow> ccfs res" where
  "scds_PutChaincodeToFS env p fs =
     need (sp_buf p) ''uninitialized package'' (\<lambda>buf.
     need (sp_id p) ''id cannot be nil if buf is not nil'' (\<lambda>_.
     need (sp_sDepSpec p) ''depspec cannot be nil if buf is not nil'' (\<lambda>_.
     need (sp_depSpec p) ''depspec cannot be nil if buf is not nil'' (\<lambda>cds.
     need (sp_env p) ''env cannot be nil if buf and depspec are not nil'' (\<lambda>_.
     need (sp_data p) ''nil data'' (\<lambda>_.
     need (sp_datab p) ''nil data bytes'' (\<lambda>_.
       write_package env cds buf fs)))))))"

section \<open>Either package\<close>

datatype CCPackage = RawPackage CDSPackage | SignedPackage SignedCDSPackage

primrec GetDepSpec :: "CCPackage \<Rightarrow> ChaincodeDeploymentSpec res" where
  "GetDepSpec (RawPackage p) = cds_GetDepSpec p"
| "GetDepSpec (SignedPackage p) = scds_GetDepSpec p"

primrec GetDepSpecBytes :: "CCPackage \<Rightarrow> bytes res" where
  "GetDepSpecBytes (RawPackage p) = cds_GetDepSpecBytes p"
| "GetDepSpecBytes (SignedPackage p) = scds_GetDepSpecBytes p"

primrec pack_GetChaincodeData :: "CCPackage \<Rightarrow> ChaincodeData res" where
  "pack_GetChaincodeData (RawPackage p) = cds_GetChaincodeData p"
| "pack_GetChaincodeData (SignedPackage p) = scds_GetChaincodeData p"

primrec ValidateCC :: "pkg_env \<Rightarrow> CCPackage \<Rightarrow> ChaincodeData \<Rightarrow> unit res" where
  "ValidateCC env (RawPackage p) = cds_ValidateCC env p"
| "ValidateCC env (SignedPackage p) = scds_ValidateCC env p"

primrec PutChaincodeToFS :: "pkg_env \<Rightarrow> CCPackage \<Rightarrow> ccfs \<Rightarrow> ccfs res" where
  "PutChaincodeToFS env (RawPackage p) = cds_PutChaincodeToFS env p"
| "PutChaincodeToFS env (SignedPackage p) = scds_PutChaincodeToFS env p"

definition GetCCPackage :: "pkg_env \<Rightarrow> slice \<Rightarrow> CCPackage res" where
  "GetCCPackage env buf =
     res_try (cds_InitFromBuffer env buf)
       (\<lambda>_. res_bind (scds_InitFromBuffer env buf) (\<lambda>(_, p). Inr (SignedPackage p)))
       (\<lambda>(_, p). Inr (RawPackage p))"

definition GetChaincodeFromFS :: "pkg_env \<Rightarrow> bytes \<Rightarrow> bytes \<Rightarrow> ccfs \<Rightarrow> CCPackage res" where
  "GetChaincodeFromFS env ccname ccversion fs =
     res_try (cds_InitFromFS env ccname ccversion fs)
       (\<lambda>_. res_bind (scds_InitFromFS env ccname ccversion fs) (\<lambda>p. Inr (SignedPackage p)))
       (\<lambda>p. Inr (RawPackage p))"

definition PutChaincodeIntoFS :: "pkg_env \<Rightarrow> ChaincodeDeploymentSpec \<Rightarrow> ccfs \<Rightarrow> ccfs res" where
  "PutChaincodeIntoFS env depSpec fs =
     res_bind (pk_MarshalCDS env depSpec) (\<lambda>buf.
     res_bind (cds_InitFromBuffer env (Some buf)) (\<lambda>(_, p).
       cds_PutChaincodeToFS env p fs))"

section \<open>The cache of chaincode data\<close>

type_synonym ccInfoCache = "(bytes, ChaincodeData) gomap"

definition cache_GetChaincodeData ::
    "pkg_env \<Rightarrow> bytes \<Rightarrow> bytes \<Rightarrow> ccfs \<Rightarrow> ccInfoCache \<Rightarrow> (ChaincodeData \<times> ccInfoCache) res" where
  "cache_GetChaincodeData env ccname ccversion fs cache =
     (let key = ccname @ ''/'' @ ccversion in
      case gm_get cache key of
        Some ccdata \<Rightarrow> Inr (ccdata, cache)
      | None \<Rightarrow>
          res_try (GetChaincodeFromFS env ccname ccversion fs)
            (\<lambda>_. Inl (Err ''cannot retrieve package for chaincode'')) (\<lambda>ccpack.
          res_bind (pack_GetChaincodeData ccpack) (\<lambda>ccdata.
            Inr (ccdata, gm_put key ccdata cache))))"

definition GetChaincodeData ::
    "pkg_env \<Rightarrow> bool \<Rightarrow> bytes \<Rightarrow> bytes \<Rightarrow> ccfs \<Rightarrow> ccInfoCache \<Rightarrow> (ChaincodeData \<times> ccInfoCache) res" where
  "GetChaincodeData env ccInfoCacheEnabled ccname ccversion fs cache =
     (if ccInfoCacheEnabled then cache_GetChaincodeData env ccname ccversion fs cache
      else
        res_bind (GetChaincodeFromFS env ccname ccversion fs) (\<lambda>ccpack.
        res_bind (pack_GetChaincodeData ccpack) (\<lambda>ccdata.
          Inr (ccdata, cache))))"

definition check_policies :: "ChaincodeData \<Rightarrow> ChaincodeData \<Rightarrow> unit res" where
  "check_policies ccdata cdLedger =
     (case cd_InstantiationPolicy ccdata of
        None \<Rightarrow> Inr ()
      | Some pol \<Rightarrow>
          if pol \<noteq> str_of (cd_InstantiationPolicy cdLedger) then Inl (Err ''Instantiation policy mismatch'') else Inr ())"

text \<open>The package on the ledger is taken when the peer has none; its error is dropped and its value used.\<close>

definition CheckInsantiationPolicy ::
    "pkg_env \<Rightarrow> bool \<Rightarrow> bytes \<Rightarrow> bytes \<Rightarrow> ChaincodeData \<Rightarrow> ccfs \<Rightarrow> ccInfoCache \<Rightarrow> ccInfoCache res" where
  "CheckInsantiationPolicy env ccInfoCacheEnabled name version cdLedger fs cache =
     res_try (GetChaincodeData env ccInfoCacheEnabled name version fs cache)
       (\<lambda>_. case cd_Buf cdLedger of
              None \<Rightarrow> Inl (Err ''Chaincode data was not found'')
            | Some buf \<Rightarrow>
                res_try (GetCCPackage env (Some buf)) (\<lambda>_. Inl (Panic ''nil pointer dereference'')) (\<lambda>ccpack.
                res_bind (pack_GetChaincodeData ccpack) (\<lambda>ccdata.
                res_bind (check_policies ccdata cdLedger) (\<lambda>_. Inr cache))))
       (\<lambda>(ccdata, cache). res_bind (check_policies ccdata cdLedger) (\<lambda>_. Inr cache))"

section \<open>What is installed\<close>

record ChaincodeInfo =
  nf_Name :: bytes
  nf_Version :: bytes
  nf_Path :: bytes
  nf_Input :: bytes
  nf_Escc :: bytes
  nf_Vscc :: bytes

text \<open>\<^verbatim>\<open>ioutil.ReadDir\<close>: the names of the files of a directory, in order.\<close>

definition ReadDir :: "bytes \<Rightarrow> ccfs \<Rightarrow> bytes list" where
  "ReadDir dir fs =
     sort (map (drop (Suc (length dir))) (filter (\<lambda>p. HasPrefix p (dir @ ''/'') \<and> CHR ''/'' \<notin> set (drop (Suc (length dir)) p)) (map fst fs)))"

text \<open>\<^verbatim>\<open>strings.SplitN(s, ".", 2)\<close>, when it has two parts.\<close>

fun split_period :: "bytes \<Rightarrow> (bytes \<times> bytes) option" where
  "split_period [] = None"
| "split_period (c # cs) = (if c = CHR ''.'' then Some ([], cs)
     else (case split_period cs of None \<Rightarrow> None | Some (a, b) \<Rightarrow> Some (c # a, b)))"

definition installed_entry :: "pkg_env \<Rightarrow> ccfs \<Rightarrow> bytes \<Rightarrow> ChaincodeInfo list res" where
  "installed_entry env fs file =
     (case split_period file of
        None \<Rightarrow> Inr []
      | Some (ccname, ccversion) \<Rightarrow>
          res_try (GetChaincodeFromFS env ccname ccversion fs) (\<lambda>_. Inr []) (\<lambda>ccpack.
          res_bind (GetDepSpec ccpack) (\<lambda>cdsfs.
          res_bind (spec_id cdsfs) (\<lambda>cc.
            if cc_Name cc \<noteq> ccname \<or> cc_Version cc \<noteq> ccversion then Inr []
            else Inr [\<lparr>nf_Name = cc_Name cc, nf_Version = cc_Version cc, nf_Path = cc_Path cc, nf_Input = [], nf_Escc = [], nf_Vscc = []\<rparr>]))))"

definition GetInstalledChaincodes :: "pkg_env \<Rightarrow> ccfs \<Rightarrow> ChaincodeInfo list res" where
  "GetInstalledChaincodes env fs =
     foldM (\<lambda>ccInfoArray file. res_bind (installed_entry env fs file) (\<lambda>new. Inr (ccInfoArray @ new)))
       [] (ReadDir (pk_InstallPath env) fs)"

section \<open>Chaincode contexts\<close>

record CCContext =
  cx_ChainID :: bytes
  cx_Name :: bytes
  cx_Version :: bytes
  cx_TxID :: bytes
  cx_Syscc :: bool
  cx_SignedProposal :: "SignedProposal option"
  cx_Proposal :: "Proposal option"
  cx_canonicalName :: bytes

definition NewCCContext ::
    "bytes \<Rightarrow> bytes \<Rightarrow> bytes \<Rightarrow> bytes \<Rightarrow> bool \<Rightarrow> SignedProposal option \<Rightarrow> Proposal option \<Rightarrow> CCContext res" where
  "NewCCContext cid name version txid syscc signedProp prop =
     (if version = [] then Inl (Panic ''---empty version---'')
      else Inr \<lparr>cx_ChainID = cid, cx_Name = name, cx_Version = version, cx_TxID = txid, cx_Syscc = syscc,
        cx_SignedProposal = signedProp, cx_Proposal = prop, cx_canonicalName = name @ '':'' @ version\<rparr>)"

definition GetCanonicalName :: "CCContext \<Rightarrow> bytes res" where
  "GetCanonicalName c = (if cx_canonicalName c = [] then Inl (Panic ''cccid not constructed using NewCCContext'')
     else Inr (cx_canonicalName c))"

section \<open>What a package holds\<close>

lemma or_panic_Inr [simp]: "or_panic x msg = Inr v \<longleftrightarrow> x = Some v" "or_panic (Some v) msg = Inr v" "or_panic None msg = Inl (Panic msg)"
  by (cases x) (auto simp: or_panic_def)

lemma getCDSData_Inr:
  "getCDSData env cds = Inr (b, fp, d) \<longleftrightarrow> is_ok (pk_MarshalCDS env cds) \<and> (\<exists>hash cc. pk_GetHash env = Inr hash \<and> spec_id cds = Inr cc
     \<and> d = \<lparr>dt_CodeHash = hash (cds_CodePackage cds), dt_MetaDataHash = hash (cc_Name cc @ cc_Version cc)\<rparr>
     \<and> pk_MarshalCDSData env d = Inr b \<and> fp = hash (dt_CodeHash d @ dt_MetaDataHash d))"
  by (auto simp: getCDSData_def res_bind_Inr_conv Let_def is_ok_def split: sum.splits)

lemma scds_getCDSData_Inr:
  "scds_getCDSData env s = Inr (b, fp, d) \<longleftrightarrow> (\<exists>cds hash cc pol owners. pk_UnmarshalCDS env (str_of (sds_ChaincodeDeploymentSpec s)) = Inr cds
     \<and> pk_GetHash env = Inr hash \<and> spec_id cds = Inr cc \<and> sds_InstantiationPolicy s = Some pol \<and> mapM deref (sds_OwnerEndorsements s) = Inr owners
     \<and> d = \<lparr>sdt_CodeHash = hash (cds_CodePackage cds), sdt_MetaDataHash = hash (cc_Name cc @ cc_Version cc),
           sdt_SignatureHash = hash (pol @ concat (map ed_Endorser owners))\<rparr>
     \<and> pk_MarshalSignedCDSData env d = Inr b \<and> fp = hash (sdt_CodeHash d @ sdt_MetaDataHash d @ sdt_SignatureHash d))"
  by (auto simp: scds_getCDSData_def res_bind_Inr_conv need_Inr_conv Let_def)

text \<open>A package read from a buffer: the specification, its chaincode, the data and their encoding, the fingerprint.\<close>

definition raw_from :: "pkg_env \<Rightarrow> slice \<Rightarrow> CDSPackage \<Rightarrow> ChaincodeDeploymentSpec \<Rightarrow> ChaincodeID \<Rightarrow> bool" where
  "raw_from env buf p cds cc \<longleftrightarrow> spec_id cds = Inr cc \<and> (\<exists>d b fp. getCDSData env cds = Inr (b, fp, d)
     \<and> p = \<lparr>cp_buf = buf, cp_depSpec = Some cds, cp_data = Some d, cp_datab = Some b, cp_id = Some fp\<rparr>)"

definition signed_from :: "pkg_env \<Rightarrow> slice \<Rightarrow> SignedCDSPackage \<Rightarrow> ChaincodeDeploymentSpec \<Rightarrow> ChaincodeID \<Rightarrow> bool" where
  "signed_from env buf p cds cc \<longleftrightarrow> spec_id cds = Inr cc \<and> (\<exists>e s d b fp. scds_getCDSData env s = Inr (b, fp, d)
     \<and> pk_UnmarshalCDS env (str_of (sds_ChaincodeDeploymentSpec s)) = Inr cds
     \<and> p = \<lparr>sp_buf = buf, sp_depSpec = Some cds, sp_sDepSpec = Some s, sp_env = Some e, sp_data = Some d, sp_datab = Some b, sp_id = Some fp\<rparr>)"

primrec package_from :: "pkg_env \<Rightarrow> slice \<Rightarrow> CCPackage \<Rightarrow> ChaincodeDeploymentSpec \<Rightarrow> ChaincodeID \<Rightarrow> bool" where
  "package_from env buf (RawPackage p) = raw_from env buf p"
| "package_from env buf (SignedPackage p) = signed_from env buf p"

lemma cds_Init_from: "cds_InitFromBuffer env buf = Inr (cd, p) \<Longrightarrow> \<exists>cds cc. raw_from env buf p cds cc"
  by (auto simp: cds_InitFromBuffer_def res_try_Inr_conv res_bind_Inr_conv Let_def cds_GetChaincodeData_def raw_from_def)

lemma scds_Init_from: "scds_InitFromBuffer env buf = Inr (cd, p) \<Longrightarrow> \<exists>cds cc. signed_from env buf p cds cc"
  by (auto simp: scds_InitFromBuffer_def res_try_Inr_conv res_bind_Inr_conv if_err_conv Let_def scds_GetChaincodeData_def signed_from_def)

lemma GetCCPackage_from:
  assumes "GetCCPackage env buf = Inr p"
  shows "\<exists>cds cc. package_from env buf p cds cc"
  using assms cds_Init_from [of env buf] scds_Init_from [of env buf]
  by (auto simp: GetCCPackage_def res_try_Inr_conv res_bind_Inr_conv)

lemma package_from_simps:
  assumes "package_from env buf p cds cc"
  shows "GetDepSpec p = Inr cds" "spec_id cds = Inr cc" "buf = Some b \<Longrightarrow> PutChaincodeToFS env p fs = write_package env cds b fs"
  using assms
  by (cases p; auto simp: raw_from_def signed_from_def cds_GetDepSpec_def scds_GetDepSpec_def cds_PutChaincodeToFS_def
      scds_PutChaincodeToFS_def)+

lemma package_data:
  assumes "package_from env buf p cds cc" "pack_GetChaincodeData p = Inr cd"
  shows "cd_Name cd = cc_Name cc" "cd_Version cd = cc_Version cc"
  using assms
  by (cases p; auto simp: raw_from_def signed_from_def cds_GetChaincodeData_def scds_GetChaincodeData_def new_ChaincodeData_def)+

section \<open>Installing and finding packages\<close>

lemma package_path_inj:
  assumes "package_path env n v = package_path env n' v'" "CHR ''.'' \<notin> set n" "CHR ''.'' \<notin> set n'"
  shows "n = n' \<and> v = v'"
proof -
  have "n @ CHR ''.'' # v = n' @ CHR ''.'' # v'" using assms(1) by (simp add: package_path_def)
  with assms(2,3) show ?thesis by (induction n arbitrary: n') (auto simp: Cons_eq_append_conv append_eq_Cons_conv)
qed

lemma GetChaincodeFromFS_read:
  "GetChaincodeFromFS env n v fs = (case gm_get fs (package_path env n v) of
     None \<Rightarrow> Inl (Err ''no such file'') | Some buf \<Rightarrow> GetCCPackage env (Some buf))"
proof (cases "gm_get fs (package_path env n v)")
  case None
  then show ?thesis by (simp add: GetChaincodeFromFS_def cds_InitFromFS_def scds_InitFromFS_def GetChaincodePackage_def)
next
  case (Some buf)
  have "res_try (res_bind r (\<lambda>(_, p). Inr p)) h f = res_try r h (\<lambda>(_, p). f p)" for r :: "(ChaincodeData \<times> CDSPackage) res" and h and f :: "CDSPackage \<Rightarrow> CCPackage res"
    by (cases r) (auto simp: res_try_def split: error.split)
  then show ?thesis using Some
    by (simp add: GetChaincodeFromFS_def cds_InitFromFS_def scds_InitFromFS_def GetChaincodePackage_def GetCCPackage_def)
      (auto simp: res_try_def res_bind_def split: sum.splits error.splits)
qed

lemma write_package_Inr:
  assumes "spec_id cds = Inr cc" "write_package env cds buf fs = Inr fs'"
  shows "fs' = gm_put (package_path env (cc_Name cc) (cc_Version cc)) buf fs"
  using assms by (auto simp: write_package_def Let_def res_bind_Inr_conv)

lemma install_found:
  assumes "package_from env (Some buf) p cds cc" "GetCCPackage env (Some buf) = Inr p" "PutChaincodeToFS env p fs = Inr fs'"
  shows "GetChaincodeFromFS env (cc_Name cc) (cc_Version cc) fs' = Inr p"
  using assms(2) write_package_Inr [of cds cc env buf fs fs'] package_from_simps [OF assms(1)] assms(3)
  by (simp add: GetChaincodeFromFS_read)

lemma install_keeps_others:
  assumes "package_from env (Some buf) p cds cc" "PutChaincodeToFS env p fs = Inr fs'"
    and "CHR ''.'' \<notin> set (cc_Name cc)" "CHR ''.'' \<notin> set n" "(n, v) \<noteq> (cc_Name cc, cc_Version cc)"
  shows "GetChaincodeFromFS env n v fs' = GetChaincodeFromFS env n v fs"
proof -
  have "package_path env n v \<noteq> package_path env (cc_Name cc) (cc_Version cc)" using package_path_inj assms(3-5) by blast
  then show ?thesis
    using write_package_Inr [of cds cc env buf fs fs'] package_from_simps [OF assms(1)] assms(2) by (simp add: GetChaincodeFromFS_read)
qed

text \<open>A buffer that decodes to a specification without a chaincode is no error but a nil pointer.\<close>

lemma package_without_spec_panics:
  assumes "pk_UnmarshalCDS env buf = Inr cds" "cds_ChaincodeSpec cds = None" "is_ok (pk_MarshalCDS env cds)" "is_ok (pk_GetHash env)"
  shows "GetCCPackage env (Some buf) = Inl (Panic ''nil pointer dereference'')"
  using assms by (auto simp: GetCCPackage_def cds_InitFromBuffer_def getCDSData_def spec_id_def str_of_def is_ok_def split: sum.splits)

section \<open>Validating a package against the ledger\<close>

text \<open>What is relied on of the codecs: a decoded message is the one encoded, and no bytes decode to an empty message.\<close>

locale package_codec =
  fixes env :: pkg_env
  assumes data_codec: "pk_MarshalCDSData env d = Inr b \<Longrightarrow> pk_UnmarshalCDSData env b = Inr d"
    and signed_data_codec: "pk_MarshalSignedCDSData env sd = Inr b \<Longrightarrow> pk_UnmarshalSignedCDSData env b = Inr sd"
    and empty_spec: "pk_UnmarshalCDS env [] = Inr cds \<Longrightarrow> cds_ChaincodeSpec cds = None"
begin

lemma validates_own_data:
  assumes "package_from env buf p cds cc" "pack_GetChaincodeData p = Inr cd"
  shows "ValidateCC env p cd = Inr ()"
proof (cases p)
  case (RawPackage r)
  then obtain d b fp where d: "getCDSData env cds = Inr (b, fp, d)" "spec_id cds = Inr cc"
    "r = \<lparr>cp_buf = buf, cp_depSpec = Some cds, cp_data = Some d, cp_datab = Some b, cp_id = Some fp\<rparr>"
    using assms(1) by (auto simp: raw_from_def)
  then have "cd = new_ChaincodeData cc b fp None" using assms(2) RawPackage by (simp add: cds_GetChaincodeData_def)
  moreover have "pk_UnmarshalCDSData env b = Inr d" using d(1) data_codec by (auto simp: getCDSData_Inr)
  ultimately show ?thesis
    using RawPackage d by (simp add: cds_ValidateCC_def new_ChaincodeData_def CDSData_Equals_def str_of_def)
next
  case (SignedPackage r)
  then obtain e s d b fp where d: "scds_getCDSData env s = Inr (b, fp, d)" "spec_id cds = Inr cc"
    "pk_UnmarshalCDS env (str_of (sds_ChaincodeDeploymentSpec s)) = Inr cds"
    "r = \<lparr>sp_buf = buf, sp_depSpec = Some cds, sp_sDepSpec = Some s, sp_env = Some e, sp_data = Some d, sp_datab = Some b, sp_id = Some fp\<rparr>"
    using assms(1) by (auto simp: signed_from_def)
  have "cds_ChaincodeSpec cds \<noteq> None" using d(2) by (auto simp: spec_id_def res_bind_Inr_conv)
  then have "sds_ChaincodeDeploymentSpec s \<noteq> None" using empty_spec [of cds] d(3)
    by (cases "sds_ChaincodeDeploymentSpec s") (auto simp: str_of_def)
  moreover have "cd = new_ChaincodeData cc b fp (sds_InstantiationPolicy s)" using assms(2) SignedPackage d by (simp add: scds_GetChaincodeData_def)
  moreover have "pk_UnmarshalSignedCDSData env b = Inr d" using d(1) signed_data_codec by (auto simp: scds_getCDSData_Inr)
  ultimately show ?thesis
    using SignedPackage d by (auto simp: scds_ValidateCC_def new_ChaincodeData_def SignedCDSData_Equals_def str_of_def)
qed

end

text \<open>Two packages of the same kind that pass for one record have the same chaincode, and the same hash of their code.\<close>

lemma validated_code:
  assumes "package_from env buf (RawPackage p) cds cc" "package_from env buf' (RawPackage p') cds' cc'"
    and "ValidateCC env (RawPackage p) cd = Inr ()" "ValidateCC env (RawPackage p') cd = Inr ()" "pk_GetHash env = Inr hash"
  shows "cc_Name cc = cc_Name cc' \<and> cc_Version cc = cc_Version cc' \<and> hash (cds_CodePackage cds) = hash (cds_CodePackage cds')"
proof -
  have "cd_Name cd = cc_Name x \<and> cd_Version cd = cc_Version x
      \<and> (\<exists>o'. pk_UnmarshalCDSData env (str_of (cd_Data cd)) = Inr o' \<and> dt_CodeHash o' = hash (cds_CodePackage c))"
    if "package_from env b (RawPackage q) c x" "ValidateCC env (RawPackage q) cd = Inr ()" for b q c x
    using that assms(5)
    by (auto simp: raw_from_def cds_ValidateCC_def getCDSData_Inr need_Inr_conv res_bind_Inr_conv if_err_conv CDSData_Equals_def)
  from this [OF assms(1,3)] this [OF assms(2,4)] show ?thesis by auto
qed

section \<open>The directory and the cache\<close>

lemma split_period_Some: "split_period s = Some (a, b) \<longleftrightarrow> s = a @ CHR ''.'' # b \<and> CHR ''.'' \<notin> set a"
proof
  show "split_period s = Some (a, b) \<Longrightarrow> s = a @ CHR ''.'' # b \<and> CHR ''.'' \<notin> set a"
    by (induction s arbitrary: a) (auto split: if_splits option.splits)
  have "CHR ''.'' \<notin> set a \<Longrightarrow> split_period (a @ CHR ''.'' # b) = Some (a, b)" by (induction a) auto
  then show "s = a @ CHR ''.'' # b \<and> CHR ''.'' \<notin> set a \<Longrightarrow> split_period s = Some (a, b)" by simp
qed

lemma installed_entry_Inr:
  assumes "installed_entry env fs file = Inr is" "i \<in> set is"
  shows "\<exists>p cds cc. file = nf_Name i @ CHR ''.'' # nf_Version i \<and> CHR ''.'' \<notin> set (nf_Name i) \<and> GetChaincodeFromFS env (nf_Name i) (nf_Version i) fs = Inr p
    \<and> GetDepSpec p = Inr cds \<and> spec_id cds = Inr cc
    \<and> i = \<lparr>nf_Name = cc_Name cc, nf_Version = cc_Version cc, nf_Path = cc_Path cc, nf_Input = [], nf_Escc = [], nf_Vscc = []\<rparr>"
  using assms
  by (auto simp: installed_entry_def res_try_Inr_conv res_bind_Inr_conv split_period_Some split: option.splits if_splits)

lemma foldM_collect:
  assumes "foldM (\<lambda>acc x. res_bind (f x) (\<lambda>new. Inr (acc @ new))) acc xs = Inr r"
  shows "set r = set acc \<union> (\<Union>x \<in> set xs. set (projr (f x))) \<and> (\<forall>x \<in> set xs. is_ok (f x))"
  using assms by (induction xs arbitrary: acc) (fastforce simp: res_bind_Inr_conv is_ok_def)+

lemma ReadDir_mem:
  "file \<in> set (ReadDir dir fs) \<longleftrightarrow> dir @ CHR ''/'' # file \<in> fst ` set fs \<and> CHR ''/'' \<notin> set file"
  proof
  assume "file \<in> set (ReadDir dir fs)"
  then obtain p where p: "p \<in> fst ` set fs" "HasPrefix p (dir @ ''/'')" "CHR ''/'' \<notin> set (drop (Suc (length dir)) p)" "file = drop (Suc (length dir)) p"
    unfolding ReadDir_def by auto
  from p(2) obtain t where "p = dir @ CHR ''/'' # t" by (auto simp: HasPrefix_iff)
  with p show "dir @ CHR ''/'' # file \<in> fst ` set fs \<and> CHR ''/'' \<notin> set file" by simp
next
  assume f: "dir @ CHR ''/'' # file \<in> fst ` set fs \<and> CHR ''/'' \<notin> set file"
  have "HasPrefix (dir @ CHR ''/'' # file) (dir @ ''/'')" by (simp add: HasPrefix_iff)
  with f have "dir @ CHR ''/'' # file \<in> {p \<in> fst ` set fs. HasPrefix p (dir @ ''/'') \<and> CHR ''/'' \<notin> set (drop (Suc (length dir)) p)}" by simp
  then have "drop (Suc (length dir)) (dir @ CHR ''/'' # file) \<in> set (ReadDir dir fs)" unfolding ReadDir_def set_sort set_map set_filter by (rule imageI)
  then show "file \<in> set (ReadDir dir fs)" by simp
qed

lemma installed_listed:
  assumes "GetInstalledChaincodes env fs = Inr infos"
  shows "i \<in> set infos \<longleftrightarrow> CHR ''.'' \<notin> set (nf_Name i) \<and> CHR ''/'' \<notin> set (nf_Name i @ nf_Version i)
    \<and> (\<exists>p cds cc. GetChaincodeFromFS env (nf_Name i) (nf_Version i) fs = Inr p \<and> GetDepSpec p = Inr cds \<and> spec_id cds = Inr cc
    \<and> i = \<lparr>nf_Name = cc_Name cc, nf_Version = cc_Version cc, nf_Path = cc_Path cc, nf_Input = [], nf_Escc = [], nf_Vscc = []\<rparr>)"
    (is "_ \<longleftrightarrow> ?ok i")
proof -
  have c: "set infos = (\<Union>x \<in> set (ReadDir (pk_InstallPath env) fs). set (projr (installed_entry env fs x)))"
    "\<forall>x \<in> set (ReadDir (pk_InstallPath env) fs). is_ok (installed_entry env fs x)"
    using foldM_collect [OF assms [unfolded GetInstalledChaincodes_def]] by auto
  show ?thesis
  proof
    assume "i \<in> set infos"
    then obtain f where f: "f \<in> set (ReadDir (pk_InstallPath env) fs)" "i \<in> set (projr (installed_entry env fs f))" using c(1) by blast
    then obtain l where l: "installed_entry env fs f = Inr l" "i \<in> set l" using c(2) by (fastforce simp: is_ok_def split: sum.splits)
    then show "?ok i" using installed_entry_Inr [OF l] f(1) by (auto simp: ReadDir_mem)
  next
    assume ok: "?ok i"
    let ?f = "nf_Name i @ CHR ''.'' # nf_Version i"
    from ok have "gm_get fs (package_path env (nf_Name i) (nf_Version i)) \<noteq> None"
      by (auto simp: GetChaincodeFromFS_read split: option.splits)
    then have "pk_InstallPath env @ CHR ''/'' # ?f \<in> fst ` set fs" by (auto simp: map_of_eq_None_iff package_path_def)
    then have "?f \<in> set (ReadDir (pk_InstallPath env) fs)" using ok by (auto simp: ReadDir_mem)
    moreover have "split_period ?f = Some (nf_Name i, nf_Version i)" using ok by (simp add: split_period_Some)
    then have "i \<in> set (projr (installed_entry env fs ?f))" using ok by (auto simp: installed_entry_def)
    ultimately show "i \<in> set infos" using c(1) by blast
  qed
qed

lemma cache_serves_replaced:
  assumes "cache_GetChaincodeData env n v fs cache = Inr (cd, cache')"
  shows "cache_GetChaincodeData env n v fs' cache' = Inr (cd, cache')"
  using assms by (auto simp: cache_GetChaincodeData_def Let_def res_try_Inr_conv res_bind_Inr_conv split: option.splits)

section \<open>Collating endorsed packages\<close>

lemma collate_invariant:
  assumes "foldM (collate_step env n False) (b, eds) xs = Inr (b', eds')" "\<forall>x \<in> set eds. x = None"
  shows "\<forall>x \<in> set eds'. x = None"
  using assms
proof (induction xs arbitrary: b eds)
  case (Cons x xs)
  obtain b1 eds1 where s: "collate_step env n False (b, eds) x = Inr (b1, eds1)" "foldM (collate_step env n False) (b1, eds1) xs = Inr (b', eds')"
    using Cons.prems(1) by (auto simp: res_bind_Inr_conv)
  have "\<forall>x \<in> set eds1. x = None"
    using s(1) Cons.prems(2) by (auto simp: collate_step_def Let_def res_bind_Inr_conv split: prod.splits if_splits)
  then show ?case using Cons.IH [OF s(2)] by blast
qed simp

lemma collated_endorsements_missing:
  assumes "CreateSignedCCDepSpecForInstall env pack = Inr e"
  shows "\<exists>s b. pk_MarshalSCDS env s = Inr b \<and> (\<forall>x \<in> set (sds_OwnerEndorsements s). x = None)
    \<and> pk_GetBytesPayload env \<lparr>pl_Header = Some \<lparr>hd_ChannelHeader = pk_MakeChannelHeader env CHAINCODE_PACKAGE, hd_SignatureHeader = []\<rparr>,
         pl_Data = Some b\<rparr> = Inr (str_of (en_Payload e))"
proof -
  from assms obtain base eds where f: "foldM (collate_step env (length pack) False) (None, []) (enumerate 0 pack) = Inr (Some base, eds)"
    "createSignedCCDepSpec env (sds_ChaincodeDeploymentSpec base) (sds_InstantiationPolicy base) eds = Inr e"
    by (auto simp: CreateSignedCCDepSpecForInstall_def res_bind_Inr_conv split: if_splits)
  have "\<forall>x \<in> set eds. x = None" using collate_invariant [OF f(1)] by simp
  then show ?thesis using f(2)
    by (fastforce simp: createSignedCCDepSpec_def need_Inr_conv res_bind_Inr_conv MarshalOrPanic_def res_try_Inr_conv str_of_def)
qed

end
