(* ===== verification/Lscc.thy ===== *)
theory Lscc
  imports CCPackage Vscc
begin

text \<open>
  \<^verbatim>\<open>core/scc/lscc/lscc.go\<close>: the lifecycle chaincode. It installs packages on the peer, instantiates and
  upgrades chaincodes on a channel under their instantiation policies, and, in this fork, switches a
  chaincode to an earlier version and answers queries about the versions on record.

  The stub a chaincode is invoked with is an interface: it is the record \<open>stub\<close>, over a state \<open>'st\<close> that
  its operations read and write. An iterator is the list of what its calls of \<^verbatim>\<open>Next\<close> return. An
  operation of the chaincode maps a state (that of the stub and the file system) to a result and a
  state, so that an error still carries the reads that were made.

  Results: which names and versions are valid (\<open>valid_name\<close>); what a successful instantiation and
  upgrade are and what they write (\<open>executeDeploy_ok\<close>, \<open>executeUpgrade_ok\<close>); the one
  write of either is what the validation chaincode accepts (\<open>lifecycle_write_accepted\<close>); installing
  keeps the other packages (\<open>install_isolated\<close>). Deployment is not closed although the code means to
  close it (\<open>deploy_not_closed\<close>); a chaincode of fewer than a hundred bytes stops the peer
  (\<open>short_package_panics\<close>); and switching a version reports success although nothing was written
  (\<open>update_reports_success\<close>).
\<close>

section \<open>Operations with a state and errors\<close>

type_synonym ('s, 'a) lsm = "'s \<Rightarrow> 'a res \<times> 's"

definition lift_res :: "'a res \<Rightarrow> ('s, 'a) lsm" where
  "lift_res r s = (r, s)"

definition lsm_bind :: "('s, 'a) lsm \<Rightarrow> ('a \<Rightarrow> ('s, 'b) lsm) \<Rightarrow> ('s, 'b) lsm" where
  "lsm_bind m f s = (case m s of (Inl e, s') \<Rightarrow> (Inl e, s') | (Inr v, s') \<Rightarrow> f v s')"

text \<open>A returned error is handled; a panic is not.\<close>

definition lsm_try :: "('s, 'a) lsm \<Rightarrow> (error \<Rightarrow> ('s, 'b) lsm) \<Rightarrow> ('a \<Rightarrow> ('s, 'b) lsm) \<Rightarrow> ('s, 'b) lsm" where
  "lsm_try m h f s =
     (case m s of (Inl (Err e), s') \<Rightarrow> h (Err e) s' | (Inl p, s') \<Rightarrow> (Inl p, s') | (Inr v, s') \<Rightarrow> f v s')"

abbreviation ret :: "'a \<Rightarrow> ('s, 'a) lsm" where
  "ret x \<equiv> lift_res (Inr x)"

abbreviation fail :: "error \<Rightarrow> ('s, 'a) lsm" where
  "fail e \<equiv> lift_res (Inl e)"

text \<open>\<^verbatim>\<open>return shim.Error(err.Error())\<close> on an error.\<close>

definition or_respond :: "('s, 'a) lsm \<Rightarrow> ('a \<Rightarrow> ('s, Response) lsm) \<Rightarrow> ('s, Response) lsm" where
  "or_respond m f = lsm_try m (\<lambda>e. case e of Err msg \<Rightarrow> ret (shim_Error msg) | _ \<Rightarrow> fail e) f"

definition or_respond_with :: "bytes \<Rightarrow> ('s, 'a) lsm \<Rightarrow> ('a \<Rightarrow> ('s, Response) lsm) \<Rightarrow> ('s, Response) lsm" where
  "or_respond_with prefix m f = lsm_try m (\<lambda>e. case e of Err msg \<Rightarrow> ret (shim_Error (prefix @ msg)) | _ \<Rightarrow> fail e) f"

record 'st stub =
  sb_GetArgs :: "slice list"
  sb_GetSignedProposal :: "SignedProposal option res"
  sb_GetTxID :: bytes
  sb_GetTxTimestamp :: "bytes res"
  sb_GetChannelHeader :: "ChannelHeader res"
  sb_GetState :: "bytes \<Rightarrow> ('st, slice) lsm"
  sb_PutState :: "bytes \<Rightarrow> bytes \<Rightarrow> ('st, unit) lsm"
  sb_GetStateByRange :: "bytes \<Rightarrow> bytes \<Rightarrow> ('st, bytes res list) lsm"
  sb_GetHistoryForKey :: "bytes \<Rightarrow> ('st, bytes res list) lsm"

record 'm lscc_env =
  lc_pu :: proto_utils
  lc_pkg :: pkg_env
  lc_GetManagerForChain :: "bytes \<Rightarrow> 'm option"
  lc_NewPolicy :: "'m \<Rightarrow> bytes \<Rightarrow> (SignedData list \<Rightarrow> unit res) res"
  lc_GetMSPIDs :: "bytes \<Rightarrow> bytes list"
  lc_SignedByAnyAdmin :: "bytes list \<Rightarrow> bytes res"
  lc_SignedByAnyMember :: "bytes list \<Rightarrow> bytes res"
  lc_UnmarshalChaincodeData :: "bytes \<Rightarrow> ChaincodeData res"
  lc_MarshalChaincodeData :: "ChaincodeData \<Rightarrow> slice res"
  lc_UnmarshalChaincodeSpec :: "bytes \<Rightarrow> ChaincodeSpec res"
  lc_MarshalQueryResponse :: "ChaincodeInfo list \<Rightarrow> bytes res"
  lc_MarshalInput :: "slice list \<Rightarrow> slice res"
  lc_InputString :: "ChaincodeInput option \<Rightarrow> bytes"
  lc_DecodeBase64 :: "bytes \<Rightarrow> bytes res"

text \<open>The state of the stub and the packages of the peer.\<close>

type_synonym 'st peer_state = "'st \<times> ccfs"

definition on_stub :: "('st, 'a) lsm \<Rightarrow> ('st peer_state, 'a) lsm" where
  "on_stub m s = (case m (fst s) of (r, st) \<Rightarrow> (r, st, snd s))"

text \<open>Reading from the file system.\<close>

definition from_fs :: "(ccfs \<Rightarrow> 'a res) \<Rightarrow> ('st peer_state, 'a) lsm" where
  "from_fs f s = (f (snd s), s)"

section \<open>Errors\<close>

definition InvalidFunctionErr :: "bytes \<Rightarrow> error" where
  "InvalidFunctionErr f = Err (''invalid function to lscc '' @ f)"

definition InvalidArgsLenErr :: "nat \<Rightarrow> error" where
  "InvalidArgsLenErr i = Err (''invalid number of argument to lscc '' @ nat_str i)"

definition TXNotFoundErr :: "bytes \<Rightarrow> error" where
  "TXNotFoundErr t = Err (''transaction not found '' @ t)"

definition InvalidDeploymentSpecErr :: "bytes \<Rightarrow> error" where
  "InvalidDeploymentSpecErr f = Err (''invalid deployment spec : '' @ f)"

definition ExistsErr :: "bytes \<Rightarrow> error" where
  "ExistsErr t = Err (''chaincode exists '' @ t)"

definition NotFoundErr :: "bytes \<Rightarrow> error" where
  "NotFoundErr t = Err (''could not find chaincode with name '' @ [CHR 0x27] @ t @ [CHR 0x27])"

definition InvalidChainNameErr :: "bytes \<Rightarrow> error" where
  "InvalidChainNameErr f = Err (''invalid chain name '' @ f)"

definition InvalidChaincodeNameErr :: "bytes \<Rightarrow> error" where
  "InvalidChaincodeNameErr f = Err (''invalid chaincode name '' @ [CHR 0x27] @ f @ [CHR 0x27]
     @ ''. Names can only consist of alphanumerics, '' @ [CHR 0x27] @ ''_'' @ [CHR 0x27] @ '', and '' @ [CHR 0x27] @ ''-'' @ [CHR 0x27])"

definition EmptyChaincodeNameErr :: error where
  "EmptyChaincodeNameErr = Err ''chaincode name not provided''"

definition InvalidVersionErr :: "bytes \<Rightarrow> error" where
  "InvalidVersionErr f = Err (''invalid chaincode version '' @ [CHR 0x27] @ f @ [CHR 0x27] @ ''. Versions can only consist of alphanumerics, ''
     @ [CHR 0x27] @ ''_'' @ [CHR 0x27] @ '',  '' @ [CHR 0x27] @ ''-'' @ [CHR 0x27] @ '', and '' @ [CHR 0x27] @ ''.'' @ [CHR 0x27])"

definition ChaincodeMismatchErr :: "bytes \<Rightarrow> error" where
  "ChaincodeMismatchErr f = Err (''chaincode name mismatch '' @ f)"

definition EmptyVersionErr :: "bytes \<Rightarrow> error" where
  "EmptyVersionErr f = Err (''version not provided for chaincode with name '' @ [CHR 0x27] @ f @ [CHR 0x27])"

definition MarshallErr :: "bytes \<Rightarrow> error" where
  "MarshallErr m = Err (''error while marshalling '' @ m)"

definition IdenticalVersionErr :: "bytes \<Rightarrow> error" where
  "IdenticalVersionErr f = Err (''version already exists for chaincode with name '' @ [CHR 0x27] @ f @ [CHR 0x27])"

definition InvalidCCOnFSError :: "bytes \<Rightarrow> error" where
  "InvalidCCOnFSError f = Err (''chaincode fingerprint mismatch '' @ f)"

definition InstantiationPolicyViolatedErr :: "bytes \<Rightarrow> error" where
  "InstantiationPolicyViolatedErr f = Err (''chaincode instantiation policy violated('' @ f @ '')'')"

definition InstantiationPolicyMissing :: error where
  "InstantiationPolicyMissing = Err ''instantiation policy missing''"

text \<open>\<^verbatim>\<open>err.Error()\<close>\<close>

definition err_msg :: "error \<Rightarrow> bytes" where
  "err_msg e = (case e of Err m \<Rightarrow> m | _ \<Rightarrow> [])"

section \<open>Names and versions\<close>

definition alnum :: "char \<Rightarrow> bool" where
  "alnum c \<longleftrightarrow> CHR ''A'' \<le> c \<and> c \<le> CHR ''Z'' \<or> CHR ''a'' \<le> c \<and> c \<le> CHR ''z'' \<or> CHR ''0'' \<le> c \<and> c \<le> CHR ''9''"

definition allowedCharsChaincodeName :: "char \<Rightarrow> bool" where
  "allowedCharsChaincodeName c \<longleftrightarrow> alnum c \<or> c \<in> {CHR ''_'', CHR ''-''}"

definition allowedCharsVersion :: "char \<Rightarrow> bool" where
  "allowedCharsVersion c \<longleftrightarrow> alnum c \<or> c \<in> {CHR ''_'', CHR ''.'', CHR ''-''}"

text \<open>\<^verbatim>\<open>FindString\<close> of a class of characters repeated: the leftmost longest run.\<close>

definition FindString :: "(char \<Rightarrow> bool) \<Rightarrow> bytes \<Rightarrow> bytes" where
  "FindString cls s = takeWhile cls (dropWhile (\<lambda>c. \<not> cls c) s)"

definition isValidCCNameOrVersion :: "bytes \<Rightarrow> (char \<Rightarrow> bool) \<Rightarrow> bool" where
  "isValidCCNameOrVersion ccNameOrVersion regExp \<longleftrightarrow> length (FindString regExp ccNameOrVersion) = length ccNameOrVersion"

definition isValidChainName :: "bytes \<Rightarrow> bool" where
  "isValidChainName chainname \<longleftrightarrow> chainname \<noteq> []"

definition isValidChaincodeName :: "bytes \<Rightarrow> unit res" where
  "isValidChaincodeName chaincodeName =
     (if chaincodeName = [] then Inl EmptyChaincodeNameErr
      else if \<not> isValidCCNameOrVersion chaincodeName allowedCharsChaincodeName then Inl (InvalidChaincodeNameErr chaincodeName)
      else Inr ())"

definition isValidChaincodeVersion :: "bytes \<Rightarrow> bytes \<Rightarrow> unit res" where
  "isValidChaincodeVersion chaincodeName version =
     (if version = [] then Inl (EmptyVersionErr chaincodeName)
      else if \<not> isValidCCNameOrVersion version allowedCharsVersion then Inl (InvalidVersionErr version)
      else Inr ())"

section \<open>The records of the channel\<close>

definition putChaincodeData :: "'m lscc_env \<Rightarrow> 'st stub \<Rightarrow> ChaincodeData \<Rightarrow> ('st peer_state, unit) lsm" where
  "putChaincodeData env stub cd =
     (if \<not> IsSysCC (cd_Escc cd) then fail (Err (cd_Escc cd @ '' is not a valid endorsement system chaincode''))
      else if \<not> IsSysCC (cd_Vscc cd) then fail (Err (cd_Vscc cd @ '' is not a valid validation system chaincode''))
      else
        lsm_bind (lift_res (lc_MarshalChaincodeData env cd)) (\<lambda>cdbytes.
          case cdbytes of
            None \<Rightarrow> fail (MarshallErr (cd_Name cd))
          | Some b \<Rightarrow> on_stub (sb_PutState stub (cd_Name cd) b)))"

definition createChaincode :: "'m lscc_env \<Rightarrow> 'st stub \<Rightarrow> ChaincodeData \<Rightarrow> ('st peer_state, unit) lsm" where
  "createChaincode env stub cd = putChaincodeData env stub cd"

definition upgradeChaincode :: "'m lscc_env \<Rightarrow> 'st stub \<Rightarrow> ChaincodeData \<Rightarrow> ('st peer_state, unit) lsm" where
  "upgradeChaincode env stub cd = putChaincodeData env stub cd"

definition getCCInstance :: "'st stub \<Rightarrow> bytes \<Rightarrow> ('st peer_state, bytes) lsm" where
  "getCCInstance stub ccname =
     lsm_try (on_stub (sb_GetState stub ccname)) (\<lambda>e. fail (TXNotFoundErr (err_msg e))) (\<lambda>cdbytes.
       case cdbytes of None \<Rightarrow> fail (NotFoundErr ccname) | Some b \<Rightarrow> ret b)"

definition getChaincodeData :: "'m lscc_env \<Rightarrow> bytes \<Rightarrow> bytes \<Rightarrow> ChaincodeData res" where
  "getChaincodeData env ccname cdbytes =
     res_try (lc_UnmarshalChaincodeData env cdbytes) (\<lambda>_. Inl (MarshallErr ccname)) (\<lambda>cd.
       if cd_Name cd \<noteq> ccname then Inl (ChaincodeMismatchErr (ccname @ ''!='' @ cd_Name cd)) else Inr cd)"

text \<open>
  The second test of the buffer calls a method of an error that is nil, and the package of the file
  system is used whether it was found or not.
\<close>

definition getCCCode ::
    "'m lscc_env \<Rightarrow> bytes \<Rightarrow> bytes \<Rightarrow> ccfs \<Rightarrow> (ChaincodeData \<times> ChaincodeDeploymentSpec \<times> bytes) res" where
  "getCCCode env ccname cdbytes fs =
     res_bind (getChaincodeData env ccname cdbytes) (\<lambda>cd.
     res_bind (if length (str_of (cd_Buf cd)) < 100 then
                 res_try (GetChaincodeFromFS (lc_pkg env) ccname (cd_Version cd) fs)
                   (\<lambda>_. Inl (Panic ''nil pointer dereference'')) GetDepSpecBytes
               else Inr (str_of (cd_Buf cd))) (\<lambda>buf.
       if length buf < 100 then Inl (Panic ''nil pointer dereference'')
       else
         res_try (GetCCPackage (lc_pkg env) (Some buf)) (\<lambda>e. Inl (InvalidDeploymentSpecErr (err_msg e))) (\<lambda>ccpack.
         res_try (ValidateCC (lc_pkg env) ccpack cd) (\<lambda>e. Inl (InvalidCCOnFSError (err_msg e))) (\<lambda>_.
         res_bind (GetDepSpec ccpack) (\<lambda>depspec.
         res_bind (GetDepSpecBytes ccpack) (\<lambda>depspecbytes.
           Inr (cd, depspec, depspecbytes)))))))"

definition chaincode_info :: "'m lscc_env \<Rightarrow> ccfs \<Rightarrow> bytes \<Rightarrow> ChaincodeInfo res" where
  "chaincode_info env fs value =
     res_bind (lc_UnmarshalChaincodeData env value) (\<lambda>ccdata.
     res_bind (res_try (GetChaincodeFromFS (lc_pkg env) (cd_Name ccdata) (cd_Version ccdata) fs) (\<lambda>_. Inr ([], [])) (\<lambda>ccpack.
         res_bind (GetDepSpec ccpack) (\<lambda>cds.
         res_bind (deref (cds_ChaincodeSpec cds)) (\<lambda>spec.
         res_bind (deref (cs_ChaincodeId spec)) (\<lambda>cc.
           Inr (cc_Path cc, lc_InputString env (cs_Input spec))))))) (\<lambda>(path, input).
       Inr \<lparr>nf_Name = cd_Name ccdata, nf_Version = cd_Version ccdata, nf_Path = path, nf_Input = input,
            nf_Escc = cd_Escc ccdata, nf_Vscc = cd_Vscc ccdata\<rparr>))"

definition getChaincodes :: "'m lscc_env \<Rightarrow> 'st stub \<Rightarrow> ('st peer_state, Response) lsm" where
  "getChaincodes env stub =
     or_respond (on_stub (sb_GetStateByRange stub [] [])) (\<lambda>itr.
     or_respond (from_fs (\<lambda>fs. mapM (\<lambda>response. res_bind response (chaincode_info env fs)) itr)) (\<lambda>ccInfoArray.
     or_respond (lift_res (lc_MarshalQueryResponse env ccInfoArray)) (\<lambda>cqrbytes.
       ret (shim_Success (Some cqrbytes)))))"

definition getInstalledChaincodes :: "'m lscc_env \<Rightarrow> ('st peer_state, Response) lsm" where
  "getInstalledChaincodes env =
     or_respond (from_fs (GetInstalledChaincodes (lc_pkg env))) (\<lambda>cqr.
     or_respond (lift_res (lc_MarshalQueryResponse env cqr)) (\<lambda>cqrbytes.
       ret (shim_Success (Some cqrbytes))))"

section \<open>Installing\<close>

definition executeInstall :: "'m lscc_env \<Rightarrow> slice \<Rightarrow> ('st peer_state, unit) lsm" where
  "executeInstall env ccbytes s =
     (case res_bind (GetCCPackage (lc_pkg env) ccbytes) (\<lambda>ccpack.
           res_bind (GetDepSpec ccpack) (\<lambda>cds.
           res_bind (spec_id cds) (\<lambda>cc.
           res_bind (isValidChaincodeName (cc_Name cc)) (\<lambda>_.
           res_bind (isValidChaincodeVersion (cc_Name cc) (cc_Version cc)) (\<lambda>_.
           res_try (PutChaincodeToFS (lc_pkg env) ccpack (snd s)) (\<lambda>_. Inl (Err ''Error installing chaincode code'')) Inr))))) of
        Inl e \<Rightarrow> (Inl e, s)
      | Inr fs \<Rightarrow> (Inr (), fst s, fs))"

section \<open>Instantiation policies\<close>

definition getInstantiationPolicy :: "'m lscc_env \<Rightarrow> bytes \<Rightarrow> CCPackage \<Rightarrow> slice res" where
  "getInstantiationPolicy env channel ccpack =
     (case ccpack of
        SignedPackage sccpack \<Rightarrow>
          res_bind (scds_GetInstantiationPolicy sccpack) (\<lambda>ip.
            if ip = None then Inl (Err ''Instantiation policy cannot be null for a SignedCCDeploymentSpec'') else Inr ip)
      | RawPackage _ \<Rightarrow>
          res_try (lc_SignedByAnyAdmin env (lc_GetMSPIDs env channel))
            (\<lambda>_. Inl (Err ''Error marshalling default instantiation policy'')) (\<lambda>ip. Inr (Some ip)))"

definition lscc_checkInstantiationPolicy :: "'m lscc_env \<Rightarrow> 'st stub \<Rightarrow> bytes \<Rightarrow> slice \<Rightarrow> unit res" where
  "lscc_checkInstantiationPolicy env stub chainName instantiationPolicy =
     need (lc_GetManagerForChain env chainName) ''Error checking chaincode instantiation policy: MSP manager for chain not found'' (\<lambda>mgr.
     res_bind (lc_NewPolicy env mgr (str_of instantiationPolicy)) (\<lambda>instPol.
     res_bind (sb_GetSignedProposal stub) (\<lambda>signedProp.
     res_bind (deref signedProp) (\<lambda>sp.
     res_bind (pu_GetProposal (lc_pu env) (str_of (sp_ProposalBytes sp))) (\<lambda>proposal.
     res_bind (pu_GetHeader (lc_pu env) (pp_Header proposal)) (\<lambda>header.
     res_bind (pu_GetSignatureHeader (lc_pu env) (hd_SignatureHeader header)) (\<lambda>shdr.
     res_try (instPol [\<lparr>sd_Data = str_of (sp_ProposalBytes sp), sd_Identity = str_of (sh_Creator shdr),
                        sd_Signature = str_of (sp_Signature sp)\<rparr>])
       (\<lambda>e. Inl (InstantiationPolicyViolatedErr (err_msg e))) (\<lambda>_. Inr ()))))))))"

section \<open>Deployment and upgrade\<close>

text \<open>\<^verbatim>\<open>GetTxTimestamp\<close> with its error dropped: no timestamp then.\<close>

definition tx_time :: "'st stub \<Rightarrow> bytes res" where
  "tx_time stub = res_try (sb_GetTxTimestamp stub) (\<lambda>_. Inr []) Inr"

text \<open>The record of a package, filled with what belongs to the channel.\<close>

definition fill_data :: "'st stub \<Rightarrow> CCPackage \<Rightarrow> bytes \<Rightarrow> bytes \<Rightarrow> bytes \<Rightarrow> ChaincodeData res" where
  "fill_data stub ccpack policy escc vscc =
     res_bind (pack_GetChaincodeData ccpack) (\<lambda>cd.
     res_bind (GetDepSpecBytes ccpack) (\<lambda>buf.
     res_bind (tx_time stub) (\<lambda>txTime.
     res_bind (GetDepSpec ccpack) (\<lambda>cds.
     res_bind (deref (cds_ChaincodeSpec cds)) (\<lambda>spec.
       Inr (cd\<lparr>cd_Escc := escc, cd_Vscc := vscc, cd_Policy := policy, cd_Buf := Some buf, cd_TxID := sb_GetTxID stub,
               cd_Timestamp := txTime, cd_Desc := cs_Desc spec\<rparr>))))))"

definition acl :: "'st stub \<Rightarrow> bytes \<Rightarrow> ChaincodeDeploymentSpec \<Rightarrow> unit res" where
  "acl stub chainname cds = Inr ()"

definition executeDeploy ::
    "'m lscc_env \<Rightarrow> 'st stub \<Rightarrow> bytes \<Rightarrow> bytes \<Rightarrow> bytes \<Rightarrow> bytes \<Rightarrow> bytes \<Rightarrow> ('st peer_state, ChaincodeData) lsm" where
  "executeDeploy env stub chainname depSpec policy escc vscc =
     lsm_bind (lift_res (pu_GetChaincodeDeploymentSpec (lc_pu env) depSpec)) (\<lambda>cds.
     lsm_bind (lift_res (spec_id cds)) (\<lambda>cc.
     lsm_bind (lift_res (isValidChaincodeName (cc_Name cc))) (\<lambda>_.
     lsm_bind (lift_res (isValidChaincodeVersion (cc_Name cc) (cc_Version cc))) (\<lambda>_.
     lsm_bind (lift_res (acl stub chainname cds)) (\<lambda>_.
     lsm_try (getCCInstance stub (cc_Name cc))
       (\<lambda>_.
     lsm_try (from_fs (GetChaincodeFromFS (lc_pkg env) (cc_Name cc) (cc_Version cc)))
       (\<lambda>_. fail (Err ''cannot get package for the chaincode to be instantiated'')) (\<lambda>ccpack.
     lsm_bind (lift_res (fill_data stub ccpack policy escc vscc)) (\<lambda>cd.
     lsm_bind (lift_res (getInstantiationPolicy env chainname ccpack)) (\<lambda>ip.
     lsm_bind (lift_res (lscc_checkInstantiationPolicy env stub chainname ip)) (\<lambda>_.
       let cd = cd\<lparr>cd_InstantiationPolicy := ip\<rparr> in
       lsm_bind (createChaincode env stub cd) (\<lambda>_. ret cd))))))
       (\<lambda>_. fail (ExistsErr (cc_Name cc))))))))"

definition executeUpgrade ::
    "'m lscc_env \<Rightarrow> 'st stub \<Rightarrow> bytes \<Rightarrow> bytes \<Rightarrow> bytes \<Rightarrow> bytes \<Rightarrow> bytes \<Rightarrow> ('st peer_state, ChaincodeData) lsm" where
  "executeUpgrade env stub chainName depSpec policy escc vscc =
     lsm_bind (lift_res (pu_GetChaincodeDeploymentSpec (lc_pu env) depSpec)) (\<lambda>cds.
     lsm_bind (lift_res (acl stub chainName cds)) (\<lambda>_.
     lsm_bind (lift_res (spec_id cds)) (\<lambda>cc.
     lsm_bind (lift_res (isValidChaincodeName (cc_Name cc))) (\<lambda>_.
     lsm_bind (lift_res (isValidChaincodeVersion (cc_Name cc) (cc_Version cc))) (\<lambda>_.
     lsm_try (getCCInstance stub (cc_Name cc)) (\<lambda>_. fail (NotFoundErr chainName)) (\<lambda>cdbytes.
     lsm_bind (lift_res (getChaincodeData env (cc_Name cc) cdbytes)) (\<lambda>cd.
       if cd_Version cd = cc_Version cc then fail (IdenticalVersionErr (cc_Name cc))
       else if cd_InstantiationPolicy cd = None then fail InstantiationPolicyMissing
       else
     lsm_bind (lift_res (lscc_checkInstantiationPolicy env stub chainName (cd_InstantiationPolicy cd))) (\<lambda>_.
     lsm_try (from_fs (GetChaincodeFromFS (lc_pkg env) (cc_Name cc) (cc_Version cc)))
       (\<lambda>_. fail (Err ''cannot get package for the chaincode to be upgraded'')) (\<lambda>ccpack.
     lsm_bind (lift_res (fill_data stub ccpack policy escc vscc)) (\<lambda>cd.
     lsm_bind (lift_res (getInstantiationPolicy env chainName ccpack)) (\<lambda>ip.
     lsm_bind (lift_res (lscc_checkInstantiationPolicy env stub chainName ip)) (\<lambda>_.
       let cd = cd\<lparr>cd_InstantiationPolicy := ip\<rparr> in
       lsm_bind (upgradeChaincode env stub cd) (\<lambda>_. ret cd)))))))))))))"

section \<open>The history of a chaincode\<close>

text \<open>The first version of that name in the history; a failing \<^verbatim>\<open>Next\<close> leaves a nil response that is read.\<close>

fun find_version :: "'m lscc_env \<Rightarrow> bytes \<Rightarrow> bytes \<Rightarrow> bytes res list \<Rightarrow> ChaincodeData option res" where
  "find_version env ccname ccversion [] = Inr None"
| "find_version env ccname ccversion (r # rs) =
     res_try r (\<lambda>_. Inl (Panic ''nil pointer dereference'')) (\<lambda>value.
     res_try (getChaincodeData env ccname value) (\<lambda>_. find_version env ccname ccversion rs) (\<lambda>hiscd.
       if cd_Version hiscd = ccversion then Inr (Some hiscd) else find_version env ccname ccversion rs))"

fun history_records :: "'m lscc_env \<Rightarrow> bytes res list \<Rightarrow> slice list \<Rightarrow> slice list res" where
  "history_records env [] acc = Inr acc"
| "history_records env (r # rs) acc =
     res_try r (\<lambda>_. Inl (Err ''query operation failed. Error accessing state: %!s(<nil>)'')) (\<lambda>value.
     res_try (lc_UnmarshalChaincodeData env value) (\<lambda>e. Inl (Err (''unmarshal ccdata err: '' @ err_msg e))) (\<lambda>cd.
     res_try (lc_MarshalChaincodeData env (cd\<lparr>cd_Buf := None\<rparr>)) (\<lambda>_. history_records env rs (acc @ [None])) (\<lambda>ccbytes.
       history_records env rs (acc @ [ccbytes]))))"

text \<open>The first record of a version, with the bytes it was read from.\<close>

fun find_record :: "'m lscc_env \<Rightarrow> bytes \<Rightarrow> bytes res list \<Rightarrow> (bytes \<times> ChaincodeData) option res" where
  "find_record env ccversion [] = Inr None"
| "find_record env ccversion (r # rs) =
     res_try r (\<lambda>_. Inl (Err ''query operation failed. Error accessing state: %!s(<nil>)'')) (\<lambda>value.
     res_try (lc_UnmarshalChaincodeData env value) (\<lambda>e. Inl (Err (''unmarshal ccdata err: '' @ err_msg e))) (\<lambda>cd.
       if cd_Version cd = ccversion then Inr (Some (value, cd)) else find_record env ccversion rs))"

section \<open>The chaincode\<close>

text \<open>The optional arguments: a policy (any member by default) and the names of two system chaincodes.\<close>

definition policy_arg :: "'m lscc_env \<Rightarrow> slice list \<Rightarrow> nat \<Rightarrow> bytes \<Rightarrow> bytes res" where
  "policy_arg env args i chainname =
     (if length args > i \<and> length (str_of (args ! i)) > 0 then Inr (str_of (args ! i))
      else lc_SignedByAnyMember env (lc_GetMSPIDs env chainname))"

definition name_arg :: "slice list \<Rightarrow> nat \<Rightarrow> bytes \<Rightarrow> bytes" where
  "name_arg args i dflt = (if length args > i \<and> args ! i \<noteq> None then str_of (args ! i) else dflt)"

definition bad_len :: "slice list \<Rightarrow> ('s, Response) lsm" where
  "bad_len args = ret (shim_Error (err_msg (InvalidArgsLenErr (length args))))"

definition invoke_install :: "'m lscc_env \<Rightarrow> slice list \<Rightarrow> ('st peer_state, Response) lsm" where
  "invoke_install env args =
     (if length args < 2 then bad_len args
      else or_respond (executeInstall env (args ! 1)) (\<lambda>_. ret (shim_Success (Some ''OK''))))"

text \<open>
  Deployment and upgrade take their arguments in the same way. The responses that are meant to close
  the two functions are built and dropped.
\<close>

definition invoke_change ::
    "(bytes \<Rightarrow> bytes \<Rightarrow> bytes \<Rightarrow> bytes \<Rightarrow> bytes \<Rightarrow> ('st peer_state, ChaincodeData) lsm) \<Rightarrow> 'm lscc_env \<Rightarrow> slice list
     \<Rightarrow> ('st peer_state, Response) lsm" where
  "invoke_change execute env args =
     (if length args < 3 \<or> length args > 6 then bad_len args
      else
        let chainname = str_of (args ! 1) in
        if \<not> isValidChainName chainname then ret (shim_Error (err_msg (InvalidChainNameErr chainname)))
        else
          or_respond (lift_res (policy_arg env args 3 chainname)) (\<lambda>policy.
          or_respond (execute chainname (str_of (args ! 2)) policy (name_arg args 4 ''escc'') (name_arg args 5 ''vscc'')) (\<lambda>cd.
          or_respond (lift_res (lc_MarshalChaincodeData env cd)) (\<lambda>cdbytes.
            ret (shim_Success cdbytes)))))"

text \<open>\<^verbatim>\<open>lscc.putChaincodeData(stub, cd)\<close> as a statement: its error is dropped.\<close>

definition put_dropping_error :: "'m lscc_env \<Rightarrow> 'st stub \<Rightarrow> ChaincodeData \<Rightarrow> ('st peer_state, unit) lsm" where
  "put_dropping_error env stub cd = lsm_try (putChaincodeData env stub cd) (\<lambda>_. ret ()) ret"

definition update_from_history ::
    "'m lscc_env \<Rightarrow> 'st stub \<Rightarrow> bytes \<Rightarrow> bytes \<Rightarrow> ('st peer_state, Response) lsm" where
  "update_from_history env stub ccname ccversion =
     or_respond (getCCInstance stub ccname) (\<lambda>cdbytes.
     or_respond (lift_res (getChaincodeData env ccname cdbytes)) (\<lambda>cd.
       if cd_Version cd = ccversion then ret (shim_Error (''current chaincode '' @ ccname @ '' version is '' @ ccversion))
       else
         or_respond_with ''query operation failed. Error accessing state: '' (on_stub (sb_GetHistoryForKey stub ccname)) (\<lambda>keysIter.
         lsm_bind (lift_res (find_version env ccname ccversion keysIter)) (\<lambda>found.
           case found of
             None \<Rightarrow> ret (shim_Error (''can't found chaincode '' @ ccname @ '' version is '' @ ccversion))
           | Some cd \<Rightarrow>
               lsm_bind (put_dropping_error env stub cd) (\<lambda>_. ret (shim_Success (Some ''update version success'')))))))"

definition invoke_updateToVersion :: "'m lscc_env \<Rightarrow> 'st stub \<Rightarrow> slice list \<Rightarrow> ('st peer_state, Response) lsm" where
  "invoke_updateToVersion env stub args =
     (if length args \<noteq> 4 \<and> length args \<noteq> 5 then bad_len args
      else
        let ccname = str_of (args ! 2); ccversion = str_of (args ! 3) in
        lsm_try (lift_res (sb_GetChannelHeader stub)) (\<lambda>_. ret (shim_Error ''get channel header has err'')) (\<lambda>chr.
        lsm_try (lift_res (lc_UnmarshalChaincodeSpec env (ch_Extension chr))) (\<lambda>_. ret (shim_Error ''get chaincode spec has err'')) (\<lambda>spec.
        lsm_bind (lift_res (deref (cs_ChaincodeId spec))) (\<lambda>cc.
          if cc_Name cc \<noteq> ''rbcapproval'' then ret (shim_Error ''updateToVersion must from rbcapproval'')
          else if length args = 5 then
            or_respond (lift_res (lc_DecodeBase64 env (str_of (args ! 4)))) (\<lambda>bPayload.
            or_respond (lift_res (getChaincodeData env ccname bPayload)) (\<lambda>cd.
            lsm_bind (put_dropping_error env stub cd) (\<lambda>_.
              ret (shim_Success (Some ''update version form  bytes success'')))))
          else update_from_history env stub ccname ccversion))))"

definition invoke_getInstallChainCode :: "'m lscc_env \<Rightarrow> 'st stub \<Rightarrow> slice list \<Rightarrow> ('st peer_state, Response) lsm" where
  "invoke_getInstallChainCode env stub args =
     (if length args < 4 \<or> length args > 7 then bad_len args
      else
        or_respond (lift_res (policy_arg env args 4 (str_of (args ! 1)))) (\<lambda>policy.
        or_respond_with ''getInstallChainCode has err '' (from_fs (GetChaincodeFromFS (lc_pkg env) (str_of (args ! 2)) (str_of (args ! 3)))) (\<lambda>ccpack.
        or_respond (lift_res (fill_data stub ccpack policy (name_arg args 5 ''escc'') (name_arg args 6 ''vscc''))) (\<lambda>cd.
        or_respond_with ''marphal chaincode data has err '' (lift_res (lc_MarshalChaincodeData env cd)) (\<lambda>cdbytes.
          ret (shim_Success cdbytes))))))"

definition invoke_query :: "'m lscc_env \<Rightarrow> 'st stub \<Rightarrow> bytes \<Rightarrow> slice list \<Rightarrow> ('st peer_state, Response) lsm" where
  "invoke_query env stub function args =
     (if length args \<noteq> 3 then bad_len args
      else
        let ccname = str_of (args ! 2) in
        or_respond (getCCInstance stub ccname) (\<lambda>cdbytes.
          if function = ''getid'' then
            or_respond (lift_res (getChaincodeData env ccname cdbytes)) (\<lambda>cd. ret (shim_Success (Some (cd_Name cd))))
          else if function = ''getccdata'' then ret (shim_Success (Some cdbytes))
          else
            or_respond (from_fs (getCCCode env ccname cdbytes)) (\<lambda>(_, _, depspecbytes). ret (shim_Success (Some depspecbytes)))))"

definition invoke_getccdatahis :: "'m lscc_env \<Rightarrow> 'st stub \<Rightarrow> slice list \<Rightarrow> ('st peer_state, Response) lsm" where
  "invoke_getccdatahis env stub args =
     (if length args \<noteq> 3 then bad_len args
      else
        or_respond_with ''query operation failed. Error accessing state: '' (on_stub (sb_GetHistoryForKey stub (str_of (args ! 2)))) (\<lambda>keysIter.
        or_respond (lift_res (history_records env keysIter [])) (\<lambda>ccbytesArgs.
        lsm_try (lift_res (lc_MarshalInput env ccbytesArgs)) (\<lambda>_. ret (shim_Success None)) (\<lambda>ccbytess.
          ret (shim_Success ccbytess)))))"

text \<open>\<^verbatim>\<open>getvccdata\<close> answers with the record as it was stored, \<^verbatim>\<open>getvccdatainfo\<close> without the code.\<close>

definition invoke_getvccdata :: "'m lscc_env \<Rightarrow> 'st stub \<Rightarrow> bool \<Rightarrow> slice list \<Rightarrow> ('st peer_state, Response) lsm" where
  "invoke_getvccdata env stub info args =
     (if length args \<noteq> 4 then bad_len args
      else
        or_respond_with ''query operation failed. Error accessing state: '' (on_stub (sb_GetHistoryForKey stub (str_of (args ! 2)))) (\<lambda>keysIter.
        or_respond (lift_res (find_record env (str_of (args ! 3)) keysIter)) (\<lambda>found.
          case found of
            None \<Rightarrow> ret (shim_Success None)
          | Some (value, cd) \<Rightarrow>
              if info then
                lsm_try (lift_res (lc_MarshalChaincodeData env (cd\<lparr>cd_Buf := None\<rparr>))) (\<lambda>_. ret (shim_Success None)) (\<lambda>ccbytes.
                  ret (shim_Success ccbytes))
              else ret (shim_Success (Some value)))))"

definition lscc_Invoke :: "'m lscc_env \<Rightarrow> 'st stub \<Rightarrow> ('st peer_state, Response) lsm" where
  "lscc_Invoke env stub =
     (let args = sb_GetArgs stub in
      if length args < 1 then bad_len args
      else
        let function = str_of (args ! 0) in
        lsm_try (lift_res (sb_GetSignedProposal stub))
          (\<lambda>e. ret (shim_Error (''Failed retrieving signed proposal on executing '' @ function @ '' with error '' @ err_msg e))) (\<lambda>_.
          if function = ''install'' then invoke_install env args
          else if function = DEPLOY then invoke_change (executeDeploy env stub) env args
          else if function = UPGRADE then invoke_change (executeUpgrade env stub) env args
          else if function = ''updateToVersion'' then invoke_updateToVersion env stub args
          else if function = ''getInstallChainCode'' then invoke_getInstallChainCode env stub args
          else if function = ''getid'' \<or> function = ''getdepspec'' \<or> function = ''getccdata'' then invoke_query env stub function args
          else if function = ''getccdatahis'' then invoke_getccdatahis env stub args
          else if function = ''getvccdata'' then invoke_getvccdata env stub False args
          else if function = ''getvccdatainfo'' then invoke_getvccdata env stub True args
          else if function = ''getchaincodes'' then (if length args \<noteq> 1 then bad_len args else getChaincodes env stub)
          else if function = ''getinstalledchaincodes'' then (if length args \<noteq> 1 then bad_len args else getInstalledChaincodes env)
          else ret (shim_Error (err_msg (InvalidFunctionErr function)))))"

section \<open>Reasoning about operations\<close>

lemma lift_res_eq [simp]: "lift_res r s = (r, s)"
  by (simp add: lift_res_def)

lemma from_fs_eq [simp]: "from_fs f s = (f (snd s), s)"
  by (simp add: from_fs_def)

lemma lsm_bind_Inr:
  "lsm_bind m f s = (Inr y, s') \<longleftrightarrow> (\<exists>x s1. m s = (Inr x, s1) \<and> f x s1 = (Inr y, s'))"
  by (auto simp: lsm_bind_def split: prod.splits sum.splits)

lemma lsm_try_Inr:
  "lsm_try m h f s = (Inr y, s') \<longleftrightarrow>
     (\<exists>e s1. m s = (Inl (Err e), s1) \<and> h (Err e) s1 = (Inr y, s')) \<or> (\<exists>x s1. m s = (Inr x, s1) \<and> f x s1 = (Inr y, s'))"
  by (auto simp: lsm_try_def split: prod.splits sum.splits error.splits)

lemma lsm_bind_simps [simp]:
  "m s = (Inr x, s1) \<Longrightarrow> lsm_bind m f s = f x s1" "m s = (Inl e, s1) \<Longrightarrow> lsm_bind m f s = (Inl e, s1)"
  by (simp_all add: lsm_bind_def)

lemma lsm_try_simps [simp]:
  "m s = (Inr x, s1) \<Longrightarrow> lsm_try m h f s = f x s1" "m s = (Inl (Err e), s1) \<Longrightarrow> lsm_try m h f s = h (Err e) s1"
  "m s = (Inl (Panic p), s1) \<Longrightarrow> lsm_try m h f s = (Inl (Panic p), s1)"
  by (simp_all add: lsm_try_def)

lemma or_respond_simps [simp]:
  "m s = (Inr x, s1) \<Longrightarrow> or_respond m f s = f x s1" "m s = (Inl (Err e), s1) \<Longrightarrow> or_respond m f s = (Inr (shim_Error e), s1)"
  "m s = (Inl (Panic p), s1) \<Longrightarrow> or_respond m f s = (Inl (Panic p), s1)"
  by (simp_all add: or_respond_def)

lemma on_stub_conv: "on_stub m (st, fs) = (r, s') \<longleftrightarrow> (\<exists>st'. m st = (r, st') \<and> s' = (st', fs))"
  by (auto simp: on_stub_def split: prod.splits)

lemmas lsm_convs = lsm_bind_Inr lsm_try_Inr on_stub_conv

section \<open>Valid names\<close>

lemma FindString_all: "length (FindString cls s) = length s \<longleftrightarrow> (\<forall>c \<in> set s. cls c)"
proof (cases s)
  case (Cons c cs)
  have all: "length (takeWhile cls xs) = length xs \<longleftrightarrow> (\<forall>c \<in> set xs. cls c)" for xs by (induction xs) auto
  show ?thesis
  proof (cases "cls c")
    case False
    have "length (FindString cls s) \<le> length cs"
      unfolding FindString_def using Cons False length_takeWhile_le length_dropWhile_le
      by (metis (no_types, lifting) dropWhile.simps(2) le_trans)
    then show ?thesis using Cons False by auto
  qed (use Cons all [of cs] in \<open>simp add: FindString_def\<close>)
qed (simp add: FindString_def)

lemma valid_name:
  "isValidChaincodeName n = Inr () \<longleftrightarrow> n \<noteq> [] \<and> (\<forall>c \<in> set n. allowedCharsChaincodeName c)"
  "isValidChaincodeVersion n v = Inr () \<longleftrightarrow> v \<noteq> [] \<and> (\<forall>c \<in> set v. allowedCharsVersion c)"
  by (auto simp: isValidChaincodeName_def isValidChaincodeVersion_def isValidCCNameOrVersion_def FindString_all)

lemma allowed_chars: "\<not> allowedCharsChaincodeName CHR ''.''" "\<not> allowedCharsChaincodeName CHR ''/''" "\<not> allowedCharsVersion CHR ''/''"
  by (simp_all add: allowedCharsChaincodeName_def allowedCharsVersion_def alnum_def)

lemma valid_no_period: "isValidChaincodeName n = Inr () \<Longrightarrow> CHR ''.'' \<notin> set n"
  using allowed_chars(1) by (auto simp: valid_name)

section \<open>Installing\<close>

lemma executeInstall_ok:
  assumes "executeInstall env b s = (Inr (), s')"
  shows "\<exists>p cds cc. GetCCPackage (lc_pkg env) b = Inr p \<and> GetDepSpec p = Inr cds \<and> spec_id cds = Inr cc
    \<and> isValidChaincodeName (cc_Name cc) = Inr () \<and> isValidChaincodeVersion (cc_Name cc) (cc_Version cc) = Inr ()
    \<and> PutChaincodeToFS (lc_pkg env) p (snd s) = Inr (snd s') \<and> fst s' = fst s"
  using assms unfolding executeInstall_def
  by (auto simp: res_bind_Inr_conv res_try_Inr_conv split: sum.splits)

text \<open>Every readable package lies under its own name and version.\<close>

definition fs_named :: "pkg_env \<Rightarrow> ccfs \<Rightarrow> bool" where
  "fs_named env fs \<longleftrightarrow> (\<forall>n v p. CHR ''.'' \<notin> set n \<and> GetChaincodeFromFS env n v fs = Inr p \<longrightarrow>
     (\<exists>cds cc. GetDepSpec p = Inr cds \<and> spec_id cds = Inr cc \<and> cc_Name cc = n \<and> cc_Version cc = v))"

lemma install_isolated:
  assumes inst: "executeInstall env (Some b) (st, fs) = (Inr (), st', fs')"
  shows "\<exists>p cds cc. GetCCPackage (lc_pkg env) (Some b) = Inr p \<and> GetDepSpec p = Inr cds \<and> spec_id cds = Inr cc \<and> st' = st
    \<and> fs' = gm_put (package_path (lc_pkg env) (cc_Name cc) (cc_Version cc)) b fs
    \<and> GetChaincodeFromFS (lc_pkg env) (cc_Name cc) (cc_Version cc) fs' = Inr p
    \<and> (\<forall>n v. isValidChaincodeName n = Inr () \<and> (n, v) \<noteq> (cc_Name cc, cc_Version cc) \<longrightarrow>
         GetChaincodeFromFS (lc_pkg env) n v fs' = GetChaincodeFromFS (lc_pkg env) n v fs)
    \<and> (fs_named (lc_pkg env) fs \<longrightarrow> fs_named (lc_pkg env) fs')"
proof -
  let ?e = "lc_pkg env"
  from executeInstall_ok [OF inst] obtain p cds cc where p: "GetCCPackage ?e (Some b) = Inr p" "GetDepSpec p = Inr cds" "spec_id cds = Inr cc"
    "isValidChaincodeName (cc_Name cc) = Inr ()" "PutChaincodeToFS ?e p fs = Inr fs'" "st' = st" by auto
  obtain cds' cc' where f: "package_from ?e (Some b) p cds' cc'" using GetCCPackage_from [OF p(1)] by blast
  then have same: "cds' = cds" "cc' = cc" using package_from_simps(1,2) [OF f] p(2,3) by auto
  note f = f [unfolded same]
  have found: "GetChaincodeFromFS ?e (cc_Name cc) (cc_Version cc) fs' = Inr p" by (rule install_found [OF f p(1,5)])
  have others: "GetChaincodeFromFS ?e n v fs' = GetChaincodeFromFS ?e n v fs" if "CHR ''.'' \<notin> set n" "(n, v) \<noteq> (cc_Name cc, cc_Version cc)" for n v
    by (rule install_keeps_others [OF f p(5) valid_no_period [OF p(4)] that])
  have "fs_named ?e fs'" if "fs_named ?e fs"
    unfolding fs_named_def
  proof (intro allI impI)
    fix n v q
    assume q: "CHR ''.'' \<notin> set n \<and> GetChaincodeFromFS ?e n v fs' = Inr q"
    show "\<exists>cds cc. GetDepSpec q = Inr cds \<and> spec_id cds = Inr cc \<and> cc_Name cc = n \<and> cc_Version cc = v"
    proof (cases "(n, v) = (cc_Name cc, cc_Version cc)")
      case True
      then show ?thesis using q found p(2,3) by auto
    next
      case False
      then show ?thesis using q others [of n v] that unfolding fs_named_def by auto
    qed
  qed
  moreover have "fs' = gm_put (package_path ?e (cc_Name cc) (cc_Version cc)) b fs"
    using write_package_Inr [of cds cc ?e b fs fs'] package_from_simps [OF f] p(5) by simp
  ultimately show ?thesis using p(1,2,3,6) found others valid_no_period by blast
qed

text \<open>Nobody is asked before a package is taken apart, and one without a chaincode spec stops the peer.\<close>

lemma install_panics:
  assumes "sb_GetArgs stub = [Some ''install'', Some buf]" "sb_GetSignedProposal stub = Inr sp"
    and "pk_UnmarshalCDS (lc_pkg env) buf = Inr cds" "cds_ChaincodeSpec cds = None"
    and "is_ok (pk_MarshalCDS (lc_pkg env) cds)" "is_ok (pk_GetHash (lc_pkg env))"
  shows "lscc_Invoke env stub s = (Inl (Panic ''nil pointer dereference''), s)"
  using assms(1,2) package_without_spec_panics [OF assms(3-6)]
  by (simp add: lscc_Invoke_def invoke_install_def executeInstall_def str_of_def)

section \<open>Deployment and upgrade\<close>

lemma fill_data_Inr:
  assumes "fill_data stub p pol escc vscc = Inr cd"
  shows "\<exists>cd0 buf. pack_GetChaincodeData p = Inr cd0 \<and> GetDepSpecBytes p = Inr buf \<and> cd_Name cd = cd_Name cd0 \<and> cd_Version cd = cd_Version cd0
    \<and> cd_Data cd = cd_Data cd0 \<and> cd_Escc cd = escc \<and> cd_Vscc cd = vscc \<and> cd_Policy cd = pol \<and> cd_Buf cd = Some buf \<and> cd_TxID cd = sb_GetTxID stub"
  using assms by (auto simp: fill_data_def res_bind_Inr_conv)

lemma putChaincodeData_ok:
  "putChaincodeData env stub cd (st, fs) = (Inr (), s') \<longleftrightarrow> IsSysCC (cd_Escc cd) \<and> IsSysCC (cd_Vscc cd)
     \<and> (\<exists>b st'. lc_MarshalChaincodeData env cd = Inr (Some b) \<and> sb_PutState stub (cd_Name cd) b st = (Inr (), st') \<and> s' = (st', fs))"
  by (auto simp: putChaincodeData_def lsm_convs split: option.splits)

lemma getCCInstance_state: "getCCInstance stub n (st, fs) = (r, s1) \<Longrightarrow> snd s1 = fs"
  by (auto simp: getCCInstance_def lsm_try_def on_stub_def split: prod.splits sum.splits error.splits option.splits)

lemma getCCInstance_Inr:
  "getCCInstance stub n (st, fs) = (Inr b, s1) \<longleftrightarrow> (\<exists>st1. sb_GetState stub n st = (Inr (Some b), st1) \<and> s1 = (st1, fs))"
  by (auto simp: getCCInstance_def lsm_convs split: option.splits)

text \<open>A package found on a file system that keeps packages under their names yields a record of that name.\<close>

lemma found_data_name:
  assumes "fs_named env fs" "CHR ''.'' \<notin> set n" "GetChaincodeFromFS env n v fs = Inr p" "pack_GetChaincodeData p = Inr cd"
  shows "cd_Name cd = n \<and> cd_Version cd = v"
proof -
  obtain cds cc where c: "GetDepSpec p = Inr cds" "spec_id cds = Inr cc" "cc_Name cc = n" "cc_Version cc = v"
    using assms(1-3) unfolding fs_named_def by blast
  obtain buf where "GetCCPackage env (Some buf) = Inr p" using assms(3) by (auto simp: GetChaincodeFromFS_read split: option.splits)
  then obtain cds' cc' where f: "package_from env (Some buf) p cds' cc'" using GetCCPackage_from by blast
  then show ?thesis using package_data [OF f assms(4)] package_from_simps(1,2) [OF f] c by auto
qed

text \<open>What a deployment or an upgrade to \<open>cc\<close> writes, and the policies it has satisfied.\<close>

definition lifecycle_write ::
    "'m lscc_env \<Rightarrow> 'st stub \<Rightarrow> bytes \<Rightarrow> bytes \<Rightarrow> bytes \<Rightarrow> bytes \<Rightarrow> ChaincodeID \<Rightarrow> ChaincodeData \<Rightarrow> ccfs \<Rightarrow> 'st \<Rightarrow> 'st \<Rightarrow> bool" where
  "lifecycle_write env stub chain pol escc vscc cc cd fs st st' \<longleftrightarrow>
     isValidChaincodeName (cc_Name cc) = Inr () \<and> isValidChaincodeVersion (cc_Name cc) (cc_Version cc) = Inr ()
     \<and> IsSysCC escc \<and> IsSysCC vscc \<and> cd_Escc cd = escc \<and> cd_Vscc cd = vscc \<and> cd_Policy cd = pol \<and> cd_TxID cd = sb_GetTxID stub
     \<and> (\<exists>p cd0 buf ip b. GetChaincodeFromFS (lc_pkg env) (cc_Name cc) (cc_Version cc) fs = Inr p \<and> pack_GetChaincodeData p = Inr cd0
          \<and> GetDepSpecBytes p = Inr buf \<and> cd_Buf cd = Some buf \<and> cd_Data cd = cd_Data cd0 \<and> cd_Name cd = cd_Name cd0 \<and> cd_Version cd = cd_Version cd0
          \<and> getInstantiationPolicy env chain p = Inr (Some ip) \<and> lscc_checkInstantiationPolicy env stub chain (Some ip) = Inr ()
          \<and> cd_InstantiationPolicy cd = Some ip
          \<and> lc_MarshalChaincodeData env cd = Inr (Some b) \<and> sb_PutState stub (cd_Name cd) b st = (Inr (), st'))"

lemma getInstantiationPolicy_Some: "getInstantiationPolicy env chain p = Inr ip \<Longrightarrow> \<exists>x. ip = Some x"
  by (cases p) (auto simp: getInstantiationPolicy_def res_bind_Inr_conv res_try_Inr_conv split: if_splits)

lemma executeDeploy_ok:
  assumes "executeDeploy env stub chain dep pol escc vscc (st, fs) = (Inr cd, s')"
  shows "\<exists>cds cc e st1. pu_GetChaincodeDeploymentSpec (lc_pu env) dep = Inr cds \<and> spec_id cds = Inr cc
    \<and> getCCInstance stub (cc_Name cc) (st, fs) = (Inl (Err e), st1, fs) \<and> snd s' = fs
    \<and> lifecycle_write env stub chain pol escc vscc cc cd fs st1 (fst s')"
proof -
  from assms obtain cds cc e s1 p cd0 ip where d: "pu_GetChaincodeDeploymentSpec (lc_pu env) dep = Inr cds" "spec_id cds = Inr cc"
    "isValidChaincodeName (cc_Name cc) = Inr ()" "isValidChaincodeVersion (cc_Name cc) (cc_Version cc) = Inr ()"
    "getCCInstance stub (cc_Name cc) (st, fs) = (Inl (Err e), s1)" "GetChaincodeFromFS (lc_pkg env) (cc_Name cc) (cc_Version cc) (snd s1) = Inr p"
    "fill_data stub p pol escc vscc = Inr cd0" "getInstantiationPolicy env chain p = Inr ip"
    "lscc_checkInstantiationPolicy env stub chain ip = Inr ()" "cd = cd0\<lparr>cd_InstantiationPolicy := ip\<rparr>"
    "putChaincodeData env stub cd s1 = (Inr (), s')"
    unfolding executeDeploy_def createChaincode_def Let_def by (auto simp: lsm_convs)
  obtain st1 where s1: "s1 = (st1, fs)" using getCCInstance_state [OF d(5)] by (cases s1) auto
  obtain x where x: "ip = Some x" using getInstantiationPolicy_Some [OF d(8)] by blast
  have "lifecycle_write env stub chain pol escc vscc cc cd fs st1 (fst s')"
    using d fill_data_Inr [OF d(7)] s1 x unfolding lifecycle_write_def by (auto simp: putChaincodeData_ok)
  then show ?thesis using d s1 by (auto simp: putChaincodeData_ok)
qed

lemma executeUpgrade_ok:
  assumes "executeUpgrade env stub chain dep pol escc vscc (st, fs) = (Inr cd, s')"
  shows "\<exists>cds cc old b st1. pu_GetChaincodeDeploymentSpec (lc_pu env) dep = Inr cds \<and> spec_id cds = Inr cc
    \<and> sb_GetState stub (cc_Name cc) st = (Inr (Some b), st1) \<and> getChaincodeData env (cc_Name cc) b = Inr old
    \<and> cd_Version old \<noteq> cc_Version cc \<and> cd_InstantiationPolicy old \<noteq> None
    \<and> lscc_checkInstantiationPolicy env stub chain (cd_InstantiationPolicy old) = Inr () \<and> snd s' = fs
    \<and> lifecycle_write env stub chain pol escc vscc cc cd fs st1 (fst s')"
proof -
  from assms obtain cds cc b s1 old p cd0 ip where d: "pu_GetChaincodeDeploymentSpec (lc_pu env) dep = Inr cds" "spec_id cds = Inr cc"
    "isValidChaincodeName (cc_Name cc) = Inr ()" "isValidChaincodeVersion (cc_Name cc) (cc_Version cc) = Inr ()"
    "getCCInstance stub (cc_Name cc) (st, fs) = (Inr b, s1)" "getChaincodeData env (cc_Name cc) b = Inr old"
    "cd_Version old \<noteq> cc_Version cc" "cd_InstantiationPolicy old \<noteq> None"
    "lscc_checkInstantiationPolicy env stub chain (cd_InstantiationPolicy old) = Inr ()"
    "GetChaincodeFromFS (lc_pkg env) (cc_Name cc) (cc_Version cc) (snd s1) = Inr p"
    "fill_data stub p pol escc vscc = Inr cd0" "getInstantiationPolicy env chain p = Inr ip"
    "lscc_checkInstantiationPolicy env stub chain ip = Inr ()" "cd = cd0\<lparr>cd_InstantiationPolicy := ip\<rparr>"
    "putChaincodeData env stub cd s1 = (Inr (), s')"
    unfolding executeUpgrade_def upgradeChaincode_def Let_def by (auto simp: lsm_convs split: if_splits)
  obtain st1 where s1: "sb_GetState stub (cc_Name cc) st = (Inr (Some b), st1)" "s1 = (st1, fs)"
    using d(5) by (auto simp: getCCInstance_Inr)
  obtain x where x: "ip = Some x" using getInstantiationPolicy_Some [OF d(12)] by blast
  have "lifecycle_write env stub chain pol escc vscc cc cd fs st1 (fst s')"
    using d fill_data_Inr [OF d(11)] s1 x unfolding lifecycle_write_def by (auto simp: putChaincodeData_ok)
  then show ?thesis using d s1 by (auto simp: putChaincodeData_ok)
qed

lemma lifecycle_write_name:
  assumes "lifecycle_write env stub chain pol escc vscc cc cd fs st st'" "fs_named (lc_pkg env) fs"
  shows "cd_Name cd = cc_Name cc \<and> cd_Version cd = cc_Version cc"
proof -
  from assms(1) obtain p cd0 where w: "isValidChaincodeName (cc_Name cc) = Inr ()"
    "GetChaincodeFromFS (lc_pkg env) (cc_Name cc) (cc_Version cc) fs = Inr p" "pack_GetChaincodeData p = Inr cd0"
    "cd_Name cd = cd_Name cd0" "cd_Version cd = cd_Version cd0"
    unfolding lifecycle_write_def by blast
  then show ?thesis using found_data_name [OF assms(2) valid_no_period [OF w(1)] w(2,3)] by simp
qed

text \<open>
  The one write of a deployment or an upgrade is what the validation chaincode asks of it, where the
  validating peer decodes what this one has encoded.
\<close>

lemma lifecycle_write_accepted:
  assumes "lifecycle_write env stub chain pol escc vscc cc cd fs st st'" "fs_named (lc_pkg env) fs"
    and "\<And>b. lc_MarshalChaincodeData env cd = Inr (Some b) \<Longrightarrow> vc_UnmarshalChaincodeData venv b = Inr cd"
  shows "\<exists>b. sb_PutState stub (cc_Name cc) b st = (Inr (), st') \<and> cd_InstantiationPolicy cd \<noteq> None
    \<and> (\<forall>rs qs. check_lscc_rwset venv cc [\<lparr>NameSpace = ''lscc'', KvRwSet = \<lparr>kvrw_Reads = rs,
        kvrw_Writes = [\<lparr>wr_Key = cc_Name cc, wr_IsDelete = False, wr_Value = Some b\<rparr>], kvrw_RangeQueriesInfo = qs\<rparr>\<rparr>] = Inr cd)"
proof -
  from assms(1) obtain ip b where w: "cd_InstantiationPolicy cd = Some ip"
    "lc_MarshalChaincodeData env cd = Inr (Some b)" "sb_PutState stub (cd_Name cd) b st = (Inr (), st')"
    unfolding lifecycle_write_def by blast
  with lifecycle_write_name [OF assms(1,2)] assms(3) show ?thesis by (intro exI [of _ b]) (auto simp: check_lscc_rwset_iff str_of_def)
qed

section \<open>Where the code does not do what it means to\<close>

text \<open>The two functions are meant to be closed; the response that says so is dropped.\<close>

lemma deploy_not_closed:
  assumes "sb_GetArgs stub = [Some DEPLOY, Some chain, Some dep]" "sb_GetSignedProposal stub = Inr sp" "chain \<noteq> []"
    and "lc_SignedByAnyMember env (lc_GetMSPIDs env chain) = Inr pol"
    and "executeDeploy env stub chain dep pol ''escc'' ''vscc'' s = (Inr cd, s')" "lc_MarshalChaincodeData env cd = Inr b"
  shows "lscc_Invoke env stub s = (Inr (shim_Success b), s')"
  using assms
  by (simp add: lscc_Invoke_def invoke_change_def str_of_def DEPLOY_def UPGRADE_def policy_arg_def name_arg_def isValidChainName_def)

text \<open>The code of a chaincode is fetched: neither the record nor the peer has a hundred bytes of it.\<close>

lemma short_package_panics:
  assumes "getChaincodeData env n b = Inr cd" "length (str_of (cd_Buf cd)) < 100"
    and "(\<exists>e. GetChaincodeFromFS (lc_pkg env) n (cd_Version cd) fs = Inl (Err e))
      \<or> (\<exists>p buf. GetChaincodeFromFS (lc_pkg env) n (cd_Version cd) fs = Inr p \<and> GetDepSpecBytes p = Inr buf \<and> length buf < 100)"
  shows "getCCCode env n b fs = Inl (Panic ''nil pointer dereference'')"
  using assms by (auto simp: getCCCode_def)

text \<open>A record that names no system chaincode is not stored, and the answer is success.\<close>

lemma update_reports_success:
  assumes "sb_GetArgs stub = [Some ''updateToVersion'', c, Some n, v, Some enc]" "sb_GetSignedProposal stub = Inr sp"
    and "sb_GetChannelHeader stub = Inr chr" "lc_UnmarshalChaincodeSpec env (ch_Extension chr) = Inr spec"
      "cs_ChaincodeId spec = Some cc" "cc_Name cc = ''rbcapproval''"
    and "lc_DecodeBase64 env enc = Inr payload" "getChaincodeData env n payload = Inr cd" "\<not> IsSysCC (cd_Escc cd)"
  shows "lscc_Invoke env stub s = (Inr (shim_Success (Some ''update version form  bytes success'')), s)"
  using assms
  by (simp add: lscc_Invoke_def invoke_updateToVersion_def str_of_def DEPLOY_def UPGRADE_def put_dropping_error_def putChaincodeData_def Let_def)

end
