(* ===== verification/Lifecycle.thy ===== *)
theory Lifecycle
  imports Lscc TxMgr
begin

text \<open>
  The lifecycle chaincode on the transaction simulator, and what the validation chaincode makes of the
  result. Where a chaincode runs in the peer, the stub's \<^verbatim>\<open>GetState\<close> and \<^verbatim>\<open>PutState\<close> reach the
  simulator of the transaction (\<^verbatim>\<open>core/chaincode/handler.go\<close>, in the namespace of the chaincode): the
  functions \<open>sim_get\<close> and \<open>sim_put\<close>.

  Results: the read-write set of a deployment or an upgrade has one write, under the name of the
  chaincode, and passes the check of the validation chaincode (\<open>deploy_passes_vscc\<close>,
  \<open>upgrade_passes_vscc\<close>).
\<close>

definition sim_get :: "tm_env \<Rightarrow> bytes \<Rightarrow> bytes \<Rightarrow> (queryHelper, slice) lsm" where
  "sim_get tenv ns key h = (case getState tenv h ns key of Inl e \<Rightarrow> (Inl e, h) | Inr (v, h') \<Rightarrow> (Inr v, h'))"

definition sim_put :: "tm_env \<Rightarrow> bytes \<Rightarrow> bytes \<Rightarrow> bytes \<Rightarrow> (queryHelper, unit) lsm" where
  "sim_put tenv ns key v h = (case SetState tenv h ns key (Some v) of Inl e \<Rightarrow> (Inl e, h) | Inr h' \<Rightarrow> (Inr (), h'))"

definition sim_stub :: "tm_env \<Rightarrow> bytes \<Rightarrow> queryHelper stub \<Rightarrow> queryHelper stub" where
  "sim_stub tenv ns base = base\<lparr>sb_GetState := sim_get tenv ns, sb_PutState := sim_put tenv ns\<rparr>"

lemma sim_stub_simps [simp]:
  "sb_GetState (sim_stub tenv ns base) = sim_get tenv ns" "sb_PutState (sim_stub tenv ns base) = sim_put tenv ns"
  "sb_GetArgs (sim_stub tenv ns base) = sb_GetArgs base" "sb_GetSignedProposal (sim_stub tenv ns base) = sb_GetSignedProposal base"
  by (simp_all add: sim_stub_def)

text \<open>A simulation that has read at most one key, and written nothing.\<close>

definition read_only :: "bytes \<Rightarrow> bytes \<Rightarrow> queryHelper \<Rightarrow> bool" where
  "read_only ns k h \<longleftrightarrow> qh_rwset h = Some [] \<or> (\<exists>ver. qh_rwset h = Some (AddToReadSet [] ns k ver))"

lemma sim_get_read_only:
  assumes "sim_get tenv ns k newLockBasedTxSimulator = (r, h)" "\<not> HasPrefix k RLIST_PREFIX"
  shows "read_only ns k h"
  using assms
  by (auto simp: sim_get_def getState_def checkDone_def newLockBasedTxSimulator_def newQueryExecutor_def add_read_def
      read_only_def NewRWSetBuilder_def res_bind_def split: sum.splits prod.splits)

lemma sim_put_rwset:
  assumes "sim_put tenv ns k v h = (Inr (), h')" "read_only ns k h"
  shows "\<exists>rws rs. qh_rwset h' = Some rws \<and> GetTxReadWriteSet rws = [\<lparr>NameSpace = ns, KvRwSet = \<lparr>kvrw_Reads = rs,
    kvrw_Writes = [\<lparr>wr_Key = k, wr_IsDelete = False, wr_Value = Some v\<rparr>], kvrw_RangeQueriesInfo = []\<rparr>\<rparr>]"
proof -
  obtain b where b: "qh_rwset h = Some b" "qh_rwset h' = Some (AddToWriteSet b ns k (Some v))"
    using assms(1) by (auto simp: sim_put_def SetState_def res_bind_Inr_conv split: sum.splits option.splits)
  then show ?thesis using assms(2)
    by (auto simp: read_only_def AddToWriteSet_def AddToReadSet_def getOrCreateNsRW_def newNsRWs_def newKVWrite_def
        GetTxReadWriteSet_def GetSortedKeys_def List.map_filter_simps)
qed

lemma getCCInstance_read_only:
  assumes "getCCInstance (sim_stub tenv ns base) n (newLockBasedTxSimulator, fs) = (r, s)" "\<not> HasPrefix n RLIST_PREFIX"
  shows "read_only ns n (fst s)"
proof -
  obtain r' h where g: "sim_get tenv ns n newLockBasedTxSimulator = (r', h)" by force
  have "fst s = h" using assms(1) g
    by (auto simp: getCCInstance_def lsm_try_def on_stub_def split: sum.splits error.splits option.splits)
  then show ?thesis using sim_get_read_only [OF g assms(2)] by simp
qed

text \<open>A lifecycle write after at most the read of the chaincode's own record.\<close>

lemma lifecycle_rwset:
  assumes "lifecycle_write env (sim_stub tenv ''lscc'' base) chain pol escc vscc cc cd fs h h'" "fs_named (lc_pkg env) fs"
    and "\<And>b. lc_MarshalChaincodeData env cd = Inr (Some b) \<Longrightarrow> vc_UnmarshalChaincodeData venv b = Inr cd"
    and "read_only ''lscc'' (cc_Name cc) h"
  shows "\<exists>rws. qh_rwset h' = Some rws \<and> check_lscc_rwset venv cc (GetTxReadWriteSet rws) = Inr cd \<and> cd_InstantiationPolicy cd \<noteq> None"
proof -
  obtain b where b: "sim_put tenv ''lscc'' (cc_Name cc) b h = (Inr (), h')" "cd_InstantiationPolicy cd \<noteq> None"
    "\<forall>rs qs. check_lscc_rwset venv cc [\<lparr>NameSpace = ''lscc'', KvRwSet = \<lparr>kvrw_Reads = rs,
        kvrw_Writes = [\<lparr>wr_Key = cc_Name cc, wr_IsDelete = False, wr_Value = Some b\<rparr>], kvrw_RangeQueriesInfo = qs\<rparr>\<rparr>] = Inr cd"
    using lifecycle_write_accepted [OF assms(1-3)] by auto
  from sim_put_rwset [OF b(1) assms(4)] b(2,3) show ?thesis by fastforce
qed

lemma deploy_passes_vscc:
  assumes "executeDeploy env (sim_stub tenv ''lscc'' base) chain dep pol escc vscc (newLockBasedTxSimulator, fs) = (Inr cd, h', fs')"
    and "fs_named (lc_pkg env) fs"
    and "\<And>b. lc_MarshalChaincodeData env cd = Inr (Some b) \<Longrightarrow> vc_UnmarshalChaincodeData venv b = Inr cd"
    and "\<not> HasPrefix (cd_Name cd) RLIST_PREFIX"
  shows "\<exists>cds cc rws. pu_GetChaincodeDeploymentSpec (lc_pu env) dep = Inr cds \<and> spec_id cds = Inr cc
    \<and> qh_rwset h' = Some rws \<and> check_lscc_rwset venv cc (GetTxReadWriteSet rws) = Inr cd
    \<and> (\<exists>ip. cd_InstantiationPolicy cd = Some ip \<and> lscc_checkInstantiationPolicy env (sim_stub tenv ''lscc'' base) chain (Some ip) = Inr ())"
proof -
  from executeDeploy_ok [OF assms(1)] obtain cds cc e h1 where d: "pu_GetChaincodeDeploymentSpec (lc_pu env) dep = Inr cds" "spec_id cds = Inr cc"
    "getCCInstance (sim_stub tenv ''lscc'' base) (cc_Name cc) (newLockBasedTxSimulator, fs) = (Inl (Err e), h1, fs)"
    "lifecycle_write env (sim_stub tenv ''lscc'' base) chain pol escc vscc cc cd fs h1 h'" by auto
  have "cd_Name cd = cc_Name cc" using lifecycle_write_name [OF d(4) assms(2)] by simp
  then have "read_only ''lscc'' (cc_Name cc) h1" using getCCInstance_read_only [OF d(3)] assms(4) by simp
  from lifecycle_rwset [OF d(4) assms(2,3) this] d(1,2,4) show ?thesis unfolding lifecycle_write_def by fastforce
qed

lemma upgrade_passes_vscc:
  assumes "executeUpgrade env (sim_stub tenv ''lscc'' base) chain dep pol escc vscc (newLockBasedTxSimulator, fs) = (Inr cd, h', fs')"
    and "fs_named (lc_pkg env) fs"
    and "\<And>b. lc_MarshalChaincodeData env cd = Inr (Some b) \<Longrightarrow> vc_UnmarshalChaincodeData venv b = Inr cd"
    and "\<not> HasPrefix (cd_Name cd) RLIST_PREFIX"
  shows "\<exists>cds cc rws (old :: ChaincodeData) ip. pu_GetChaincodeDeploymentSpec (lc_pu env) dep = Inr cds \<and> spec_id cds = Inr cc
    \<and> qh_rwset h' = Some rws \<and> check_lscc_rwset venv cc (GetTxReadWriteSet rws) = Inr cd
    \<and> cd_Name old = cc_Name cc \<and> cd_Version old \<noteq> cc_Version cc \<and> cd_InstantiationPolicy old = Some ip
    \<and> lscc_checkInstantiationPolicy env (sim_stub tenv ''lscc'' base) chain (Some ip) = Inr ()"
proof -
  from executeUpgrade_ok [OF assms(1)] obtain cds cc old b h1 where d: "pu_GetChaincodeDeploymentSpec (lc_pu env) dep = Inr cds" "spec_id cds = Inr cc"
    "sim_get tenv ''lscc'' (cc_Name cc) newLockBasedTxSimulator = (Inr (Some b), h1)" "getChaincodeData env (cc_Name cc) b = Inr old"
    "cd_Version old \<noteq> cc_Version cc" "cd_InstantiationPolicy old \<noteq> None"
    "lscc_checkInstantiationPolicy env (sim_stub tenv ''lscc'' base) chain (cd_InstantiationPolicy old) = Inr ()"
    "lifecycle_write env (sim_stub tenv ''lscc'' base) chain pol escc vscc cc cd fs h1 h'" by auto
  have "cd_Name cd = cc_Name cc" using lifecycle_write_name [OF d(8) assms(2)] by simp
  then have "read_only ''lscc'' (cc_Name cc) h1" using sim_get_read_only [OF d(3)] assms(4) by simp
  moreover have "cd_Name old = cc_Name cc" using d(4) by (auto simp: getChaincodeData_def res_try_Inr_conv split: if_splits)
  moreover obtain ip where "cd_InstantiationPolicy old = Some ip" using d(6) by blast
  moreover obtain rws where "qh_rwset h' = Some rws" "check_lscc_rwset venv cc (GetTxReadWriteSet rws) = Inr cd"
    using lifecycle_rwset [OF d(8) assms(2,3) calculation(1)] by blast
  ultimately show ?thesis using d(1,2,5,7) by (intro exI [of _ cds] exI [of _ cc] exI [of _ rws] exI [of _ old] exI [of _ ip]) simp
qed

end
