(* ===== verification/WirePkg.thy ===== *)
theory WirePkg
  imports Wire Lifecycle
begin

text \<open>
  Chaincode packages and chaincode records in the wire format of \<open>Wire\<close>: the interface
  \<open>package_codec\<close> is interpreted on it, and witnesses evaluate it. A message of no bytes is the empty
  message, a list with a nil element has no encoding, and the hash is the identity.
\<close>

definition e_slice :: "slice \<Rightarrow> bytes" where "e_slice = e_opt e_bytes"

definition d_slice :: "slice decoder" where "d_slice = d_opt d_bytes"

definition e_ccid :: "ChaincodeID \<Rightarrow> bytes" where
  "e_ccid = e_map (\<lambda>c. (cc_Path c, cc_Name c, cc_Version c)) (e_pair e_bytes (e_pair e_bytes e_bytes))"

definition d_ccid :: "ChaincodeID decoder" where
  "d_ccid = d_map (\<lambda>(p, n, v). \<lparr>cc_Path = p, cc_Name = n, cc_Version = v\<rparr>) (d_pair d_bytes (d_pair d_bytes d_bytes))"

definition e_input :: "ChaincodeInput \<Rightarrow> bytes" where
  "e_input = e_map in_Args (e_list e_bytes)"

definition d_input :: "ChaincodeInput decoder" where
  "d_input = d_map (\<lambda>a. \<lparr>in_Args = a\<rparr>) (d_list d_bytes)"

definition e_spec :: "ChaincodeSpec \<Rightarrow> bytes" where
  "e_spec = e_map (\<lambda>s. (cs_ChaincodeId s, cs_Input s, cs_Desc s)) (e_pair (e_opt e_ccid) (e_pair (e_opt e_input) e_bytes))"

definition d_spec :: "ChaincodeSpec decoder" where
  "d_spec = d_map (\<lambda>(c, i, d). \<lparr>cs_ChaincodeId = c, cs_Input = i, cs_Desc = d\<rparr>) (d_pair (d_opt d_ccid) (d_pair (d_opt d_input) d_bytes))"

definition e_cds :: "ChaincodeDeploymentSpec \<Rightarrow> bytes" where
  "e_cds = e_map (\<lambda>s. (cds_ChaincodeSpec s, cds_CodePackage s)) (e_pair (e_opt e_spec) e_bytes)"

definition d_cds :: "ChaincodeDeploymentSpec decoder" where
  "d_cds = d_map (\<lambda>(s, c). \<lparr>cds_ChaincodeSpec = s, cds_CodePackage = c\<rparr>) (d_pair (d_opt d_spec) d_bytes)"

definition e_endorsement :: "Endorsement \<Rightarrow> bytes" where
  "e_endorsement = e_map (\<lambda>e. (ed_Endorser e, ed_Signature e)) (e_pair e_bytes e_bytes)"

definition d_endorsement :: "Endorsement decoder" where
  "d_endorsement = d_map (\<lambda>(e, s). \<lparr>ed_Endorser = e, ed_Signature = s\<rparr>) (d_pair d_bytes d_bytes)"

definition e_scds :: "SignedChaincodeDeploymentSpec \<Rightarrow> bytes" where
  "e_scds = e_map (\<lambda>s. (sds_ChaincodeDeploymentSpec s, sds_InstantiationPolicy s, sds_OwnerEndorsements s))
     (e_pair e_slice (e_pair e_slice (e_list (e_opt e_endorsement))))"

definition d_scds :: "SignedChaincodeDeploymentSpec decoder" where
  "d_scds = d_map (\<lambda>(c, p, o'). \<lparr>sds_ChaincodeDeploymentSpec = c, sds_InstantiationPolicy = p, sds_OwnerEndorsements = o'\<rparr>)
     (d_pair d_slice (d_pair d_slice (d_list (d_opt d_endorsement))))"

definition e_cdsdata :: "CDSData \<Rightarrow> bytes" where
  "e_cdsdata = e_map (\<lambda>d. (dt_CodeHash d, dt_MetaDataHash d)) (e_pair e_bytes e_bytes)"

definition d_cdsdata :: "CDSData decoder" where
  "d_cdsdata = d_map (\<lambda>(c, m). \<lparr>dt_CodeHash = c, dt_MetaDataHash = m\<rparr>) (d_pair d_bytes d_bytes)"

definition e_scdsdata :: "SignedCDSData \<Rightarrow> bytes" where
  "e_scdsdata = e_map (\<lambda>d. (sdt_CodeHash d, sdt_MetaDataHash d, sdt_SignatureHash d)) (e_pair e_bytes (e_pair e_bytes e_bytes))"

definition d_scdsdata :: "SignedCDSData decoder" where
  "d_scdsdata = d_map (\<lambda>(c, m, s). \<lparr>sdt_CodeHash = c, sdt_MetaDataHash = m, sdt_SignatureHash = s\<rparr>) (d_pair d_bytes (d_pair d_bytes d_bytes))"

definition e_payload :: "Payload \<Rightarrow> bytes" where
  "e_payload = e_map (\<lambda>p. (map_option (\<lambda>h. (hd_ChannelHeader h, hd_SignatureHeader h)) (pl_Header p), pl_Data p))
     (e_pair (e_opt (e_pair e_bytes e_bytes)) e_slice)"

definition d_payload :: "Payload decoder" where
  "d_payload = d_map (\<lambda>(h, d). \<lparr>pl_Header = map_option (\<lambda>(c, s). \<lparr>hd_ChannelHeader = c, hd_SignatureHeader = s\<rparr>) h, pl_Data = d\<rparr>)
     (d_pair (d_opt (d_pair d_bytes d_bytes)) d_slice)"

definition e_envelope :: "Envelope \<Rightarrow> bytes" where
  "e_envelope = e_map (\<lambda>e. (en_Payload e, en_Signature e)) (e_pair e_slice e_slice)"

definition d_envelope :: "Envelope decoder" where
  "d_envelope = d_map (\<lambda>(p, s). \<lparr>en_Payload = p, en_Signature = s\<rparr>) (d_pair d_slice d_slice)"

definition e_ccdata :: "ChaincodeData \<Rightarrow> bytes" where
  "e_ccdata = e_map (\<lambda>c. (cd_Name c, cd_Version c, cd_Escc c, cd_Vscc c, cd_Policy c, cd_Data c, cd_Id c, cd_InstantiationPolicy c,
       cd_Buf c, cd_TxID c, cd_Timestamp c, cd_Desc c))
     (e_pair e_bytes (e_pair e_bytes (e_pair e_bytes (e_pair e_bytes (e_pair e_bytes (e_pair e_slice (e_pair e_slice (e_pair e_slice
       (e_pair e_slice (e_pair e_bytes (e_pair e_bytes e_bytes)))))))))))"

definition d_ccdata :: "ChaincodeData decoder" where
  "d_ccdata = d_map (\<lambda>(n, v, es, vs, p, d, i, ip, b, t, ts, ds). \<lparr>cd_Name = n, cd_Version = v, cd_Escc = es, cd_Vscc = vs, cd_Policy = p,
       cd_Data = d, cd_Id = i, cd_InstantiationPolicy = ip, cd_Buf = b, cd_TxID = t, cd_Timestamp = ts, cd_Desc = ds\<rparr>)
     (d_pair d_bytes (d_pair d_bytes (d_pair d_bytes (d_pair d_bytes (d_pair d_bytes (d_pair d_slice (d_pair d_slice (d_pair d_slice
       (d_pair d_slice (d_pair d_bytes (d_pair d_bytes d_bytes)))))))))))"

definition package_header :: ChannelHeader where
  "package_header = \<lparr>ch_Type = CHAINCODE_PACKAGE, ch_ChannelId = [], ch_TxId = [], ch_Timestamp = [], ch_Epoch = 0, ch_Extension = []\<rparr>"

definition wire_pkg :: pkg_env where
  "wire_pkg = \<lparr>pk_UnmarshalCDS = (\<lambda>b. if b = [] then Inr \<lparr>cds_ChaincodeSpec = None, cds_CodePackage = []\<rparr> else unmarshal d_cds b),
     pk_MarshalCDS = (\<lambda>c. Inr (e_cds c)), pk_UnmarshalEnvelope = unmarshal d_envelope, pk_UnmarshalPayload = unmarshal d_payload,
     pk_GetBytesPayload = (\<lambda>p. Inr (e_payload p)), pk_UnmarshalChannelHeader = (\<lambda>_. Inr package_header),
     pk_MakeChannelHeader = (\<lambda>_. []), pk_UnmarshalSCDS = unmarshal d_scds,
     pk_MarshalSCDS = (\<lambda>s. if None \<in> set (sds_OwnerEndorsements s) then Inl (Err ''proto: repeated field has nil element'') else Inr (e_scds s)),
     pk_UnmarshalCDSData = unmarshal d_cdsdata, pk_MarshalCDSData = (\<lambda>d. Inr (e_cdsdata d)),
     pk_UnmarshalSignedCDSData = unmarshal d_scdsdata, pk_MarshalSignedCDSData = (\<lambda>d. Inr (e_scdsdata d)),
     pk_GetHash = Inr (\<lambda>b. b), pk_WriteFile = (\<lambda>_ _. Inr ()), pk_InstallPath = ''/cc''\<rparr>"

lemma rt_slice: "rt e_slice d_slice UNIV"
  unfolding e_slice_def d_slice_def by (intro rt_intros)

lemma rt_ccid: "rt e_ccid d_ccid UNIV"
  unfolding e_ccid_def d_ccid_def by (intro rt_intros) simp

lemma rt_input: "rt e_input d_input UNIV"
  unfolding e_input_def d_input_def by (intro rt_intros) simp

lemma rt_spec: "rt e_spec d_spec UNIV"
  unfolding e_spec_def d_spec_def by (intro rt_intros rt_ccid rt_input) simp

lemma rt_cds: "rt e_cds d_cds UNIV"
  unfolding e_cds_def d_cds_def by (intro rt_intros rt_spec) simp

lemma rt_endorsement: "rt e_endorsement d_endorsement UNIV"
  unfolding e_endorsement_def d_endorsement_def by (intro rt_intros) simp

lemma rt_scds: "rt e_scds d_scds UNIV"
  unfolding e_scds_def d_scds_def by (intro rt_intros rt_slice rt_endorsement) simp

lemma rt_cdsdata: "rt e_cdsdata d_cdsdata UNIV"
  unfolding e_cdsdata_def d_cdsdata_def by (intro rt_intros) simp

lemma rt_scdsdata: "rt e_scdsdata d_scdsdata UNIV"
  unfolding e_scdsdata_def d_scdsdata_def by (intro rt_intros) simp

lemma rt_payload: "rt e_payload d_payload UNIV"
proof -
  have "map_option (\<lambda>x. \<lparr>hd_ChannelHeader = hd_ChannelHeader x, hd_SignatureHeader = hd_SignatureHeader x\<rparr>) h = h" for h :: "Header option"
    by (cases h) simp_all
  then show ?thesis unfolding e_payload_def d_payload_def by (intro rt_intros rt_slice) (simp add: option.map_comp comp_def)
qed

lemma rt_envelope: "rt e_envelope d_envelope UNIV"
  unfolding e_envelope_def d_envelope_def by (intro rt_intros rt_slice) simp

lemma rt_ccdata: "rt e_ccdata d_ccdata UNIV"
  unfolding e_ccdata_def d_ccdata_def by (intro rt_intros rt_slice) simp

lemmas wire_rts = rt_cds rt_scds rt_cdsdata rt_scdsdata rt_payload rt_envelope rt_ccdata

lemma wire_unmarshal [simp]:
  "unmarshal d_cds (e_cds c) = Inr c" "unmarshal d_scds (e_scds s) = Inr s" "unmarshal d_cdsdata (e_cdsdata d) = Inr d"
  "unmarshal d_scdsdata (e_scdsdata sd) = Inr sd" "unmarshal d_payload (e_payload p) = Inr p"
  "unmarshal d_envelope (e_envelope e) = Inr e" "unmarshal d_ccdata (e_ccdata cd) = Inr cd"
  by (simp_all add: unmarshal_rt [OF rt_cds] unmarshal_rt [OF rt_scds] unmarshal_rt [OF rt_cdsdata] unmarshal_rt [OF rt_scdsdata]
      unmarshal_rt [OF rt_payload] unmarshal_rt [OF rt_envelope] unmarshal_rt [OF rt_ccdata])

interpretation wire_pkg: package_codec wire_pkg
  by unfold_locales (auto simp: wire_pkg_def)

section \<open>A deployment\<close>

definition demo_ccid :: ChaincodeID where
  "demo_ccid = \<lparr>cc_Path = ''p'', cc_Name = ''loan'', cc_Version = ''1.0''\<rparr>"

definition demo_cds :: ChaincodeDeploymentSpec where
  "demo_cds = \<lparr>cds_ChaincodeSpec = Some \<lparr>cs_ChaincodeId = Some demo_ccid, cs_Input = None, cs_Desc = ''d''\<rparr>,
     cds_CodePackage = ''code''\<rparr>"

lemma e_cds_nonempty: "e_cds c \<noteq> []"
proof
  assume "e_cds c = []"
  then have "unmarshal d_cds [] = Inr c" using wire_unmarshal(1) [of c] by simp
  then show False by (simp add: unmarshal_def d_cds_def d_map_def d_pair_def d_opt_def d_list_def d_nat_def)
qed

definition demo_data :: CDSData where
  "demo_data = \<lparr>dt_CodeHash = ''code'', dt_MetaDataHash = ''loan1.0''\<rparr>"

definition demo_package :: CDSPackage where
  "demo_package = \<lparr>cp_buf = Some (e_cds demo_cds), cp_depSpec = Some demo_cds, cp_data = Some demo_data,
     cp_datab = Some (e_cdsdata demo_data), cp_id = Some ''codeloan1.0''\<rparr>"

lemma demo_spec_id: "spec_id demo_cds = Inr demo_ccid"
  by (simp add: spec_id_def demo_cds_def)

lemma demo_GetCCPackage: "GetCCPackage wire_pkg (Some (e_cds demo_cds)) = Inr (RawPackage demo_package)"
proof -
  have "getCDSData wire_pkg demo_cds = Inr (e_cdsdata demo_data, ''codeloan1.0'', demo_data)"
    by (simp add: getCDSData_def spec_id_def Let_def wire_pkg_def demo_data_def demo_ccid_def demo_cds_def)
  then show ?thesis
    by (simp add: GetCCPackage_def cds_InitFromBuffer_def str_of_def e_cds_nonempty cds_GetChaincodeData_def demo_spec_id demo_package_def
        wire_pkg_def)
qed

lemma demo_from: "package_from wire_pkg (Some (e_cds demo_cds)) (RawPackage demo_package) demo_cds demo_ccid"
  using GetCCPackage_from [OF demo_GetCCPackage] demo_spec_id
  by (auto simp: raw_from_def demo_package_def)

end
