(* ===== verification/DemoCC.thy ===== *)
theory DemoCC
  imports DemoTx WirePkg
begin

text \<open>
  The instance continued to the lifecycle chaincode: the package of \<open>WirePkg\<close> installed on an empty
  peer and instantiated on a channel whose policies accept everything, over a new simulator.
\<close>

definition demo_lscc :: "unit lscc_env" where
  "demo_lscc = \<lparr>lc_pu = demo_utils\<lparr>pu_GetChaincodeDeploymentSpec := pk_UnmarshalCDS wire_pkg\<rparr>, lc_pkg = wire_pkg,
     lc_GetManagerForChain = (\<lambda>_. Some ()), lc_NewPolicy = (\<lambda>_ _. Inr (\<lambda>_. Inr ())), lc_GetMSPIDs = (\<lambda>_. [''msp'']),
     lc_SignedByAnyAdmin = (\<lambda>_. Inr ''admin''), lc_SignedByAnyMember = (\<lambda>_. Inr ''any''),
     lc_UnmarshalChaincodeData = unmarshal d_ccdata, lc_MarshalChaincodeData = (\<lambda>cd. Inr (Some (e_ccdata cd))),
     lc_UnmarshalChaincodeSpec = unmarshal d_spec, lc_MarshalQueryResponse = (\<lambda>_. Inr []), lc_MarshalInput = (\<lambda>_. Inr (Some [])),
     lc_InputString = (\<lambda>_. []), lc_DecodeBase64 = Inr\<rparr>"

definition demo_stub :: "slice list \<Rightarrow> queryHelper stub" where
  "demo_stub args = \<lparr>sb_GetArgs = args, sb_GetSignedProposal = Inr (Some \<lparr>sp_ProposalBytes = Some ''p'', sp_Signature = Some ''s''\<rparr>),
     sb_GetTxID = ''tx'', sb_GetTxTimestamp = Inr ''now'', sb_GetChannelHeader = Inr demo_chdr,
     sb_GetState = (\<lambda>_. ret None), sb_PutState = (\<lambda>_ _. ret ()), sb_GetStateByRange = (\<lambda>_ _. ret []),
     sb_GetHistoryForKey = (\<lambda>_. ret [])\<rparr>"

definition demo_fs :: ccfs where
  "demo_fs = [(''/cc/loan.1.0'', e_cds demo_cds)]"

definition demo_record :: ChaincodeData where
  "demo_record = (new_ChaincodeData demo_ccid (e_cdsdata demo_data) ''codeloan1.0'' (Some ''admin''))\<lparr>cd_Escc := ''escc'', cd_Vscc := ''vscc'',
     cd_Policy := ''any'', cd_Buf := Some (e_cds demo_cds), cd_TxID := ''tx'', cd_Timestamp := ''now'', cd_Desc := ''d''\<rparr>"

lemma demo_valid: "isValidChaincodeName ''loan'' = Inr ()" "isValidChaincodeVersion n ''1.0'' = Inr ()"
  by (simp_all add: valid_name allowedCharsChaincodeName_def allowedCharsVersion_def alnum_def)

lemma demo_ccid_simps [simp]: "cc_Name demo_ccid = ''loan''" "cc_Version demo_ccid = ''1.0''"
  by (simp_all add: demo_ccid_def)

lemma demo_install: "executeInstall demo_lscc (Some (e_cds demo_cds)) (st, []) = (Inr (), st, demo_fs)"
  using package_from_simps(1) [OF demo_from] package_from_simps(3) [OF demo_from refl] demo_GetCCPackage demo_spec_id
  by (simp add: executeInstall_def demo_lscc_def demo_valid write_package_def package_path_def wire_pkg_def demo_fs_def)

lemma demo_found: "GetChaincodeFromFS wire_pkg ''loan'' ''1.0'' demo_fs = Inr (RawPackage demo_package)"
  using demo_GetCCPackage by (simp add: GetChaincodeFromFS_read package_path_def wire_pkg_def demo_fs_def)

lemma demo_fs_named: "fs_named wire_pkg demo_fs"
proof -
  have "fs_named wire_pkg []" by (simp add: fs_named_def GetChaincodeFromFS_read)
  moreover have "executeInstall demo_lscc (Some (e_cds demo_cds)) ((), []) = (Inr (), (), demo_fs)" by (rule demo_install)
  moreover have "lc_pkg demo_lscc = wire_pkg" by (simp add: demo_lscc_def)
  ultimately show ?thesis using install_isolated [of demo_lscc "e_cds demo_cds" "()" "[]" "()" demo_fs] by auto
qed

abbreviation demo_sim :: tm_env where
  "demo_sim \<equiv> tenv_at mem_ops lp_codec one_tm mem_empty"

lemma demo_not_instantiated:
  "\<exists>h. getCCInstance (sim_stub demo_sim ''lscc'' (demo_stub args)) ''loan'' (newLockBasedTxSimulator, fs)
     = (Inl (NotFoundErr ''loan''), h, fs) \<and> qh_rwset h = Some (AddToReadSet [] ''lscc'' ''loan'' None) \<and> qh_done h = False"
  by (simp add: getCCInstance_def sim_get_def getState_def checkDone_def newLockBasedTxSimulator_def newQueryExecutor_def
      HasPrefix_def RLIST_PREFIX_def ldb_view_def ldb_GetState_def decomposeVersionedValue_def add_read_def NewRWSetBuilder_def
      lsm_try_def on_stub_def tenv_at_def te_vdb_def)

lemma demo_deploy:
  "\<exists>h. executeDeploy demo_lscc (sim_stub demo_sim ''lscc'' (demo_stub args)) ''ch'' (e_cds demo_cds) ''any'' ''escc'' ''vscc''
     (newLockBasedTxSimulator, demo_fs) = (Inr demo_record, h, demo_fs)"
proof -
  let ?stub = "sim_stub demo_sim ''lscc'' (demo_stub args)"
  obtain h where h: "getCCInstance ?stub ''loan'' (newLockBasedTxSimulator, demo_fs) = (Inl (NotFoundErr ''loan''), h, demo_fs)"
    "qh_rwset h = Some (AddToReadSet [] ''lscc'' ''loan'' None)" "qh_done h = False" using demo_not_instantiated by blast
  have cds: "pu_GetChaincodeDeploymentSpec (lc_pu demo_lscc) (e_cds demo_cds) = Inr demo_cds"
    by (simp add: demo_lscc_def demo_utils_def wire_pkg_def e_cds_nonempty)
  have fill: "fill_data ?stub (RawPackage demo_package) ''any'' ''escc'' ''vscc'' = Inr (demo_record\<lparr>cd_InstantiationPolicy := None\<rparr>)"
    by (simp add: fill_data_def cds_GetChaincodeData_def demo_package_def demo_spec_id cds_GetDepSpecBytes_def cds_GetDepSpec_def tx_time_def
        sim_stub_def demo_stub_def demo_record_def new_ChaincodeData_def) (simp add: demo_cds_def)
  have pol: "getInstantiationPolicy demo_lscc ''ch'' (RawPackage demo_package) = Inr (Some ''admin'')"
    "lscc_checkInstantiationPolicy demo_lscc ?stub ''ch'' (Some ''admin'') = Inr ()"
    by (simp_all add: getInstantiationPolicy_def lscc_checkInstantiationPolicy_def demo_lscc_def demo_stub_def demo_utils_def)
  obtain h' where put: "sim_put demo_sim ''lscc'' ''loan'' (e_ccdata demo_record) h = (Inr (), h')"
    using h by (simp add: sim_put_def SetState_def checkDone_def ldb_view_def tenv_at_def te_vdb_def one_tm_def demo_rl_def ldb_ValidateKey_def)
  have "putChaincodeData demo_lscc ?stub demo_record (h, demo_fs) = (Inr (), h', demo_fs)"
    unfolding putChaincodeData_ok using put by (simp add: demo_record_def sys_names demo_lscc_def new_ChaincodeData_def)
  moreover have "demo_record\<lparr>cd_InstantiationPolicy := Some ''admin''\<rparr> = demo_record" by (simp add: demo_record_def new_ChaincodeData_def)
  moreover have "lc_pkg demo_lscc = wire_pkg" by (simp add: demo_lscc_def)
  ultimately show ?thesis
    using h(1) cds fill pol demo_found demo_spec_id demo_valid
    by (simp add: executeDeploy_def createChaincode_def acl_def NotFoundErr_def)
qed

end
