(* ===== verification/Execute.thy ===== *)
theory Execute
  imports Lscc TxMgr
begin

text \<open>
  \<^verbatim>\<open>core/chaincode/exectransaction.go\<close> and \<^verbatim>\<open>chaincodeexec.go\<close>: running a chaincode and reading its answer.
  The support that launches a chaincode and exchanges messages with it (\<^verbatim>\<open>theChaincodeSupport\<close>) is the
  argument \<open>cc_support\<close>; what it does to the simulator of the transaction, the packages and the cache
  of the peer is its effect on \<open>exec_state\<close>.

  Results: only a completed call is a response (\<open>Execute_ok\<close>), and the record of a chaincode is
  taken from a successful answer of the lifecycle chaincode only (\<open>GetChaincodeData_ok\<close>).
\<close>

record ChaincodeEvent =
  ev_ChaincodeId :: bytes
  ev_TxId :: bytes
  ev_EventName :: bytes
  ev_Payload :: bytes

datatype MessageType =
    MSG_UNDEFINED | MSG_REGISTER | MSG_REGISTERED | MSG_INIT | MSG_READY | MSG_TRANSACTION | MSG_COMPLETED | MSG_ERROR
  | MSG_GET_STATE | MSG_PUT_STATE | MSG_DEL_STATE | MSG_INVOKE_CHAINCODE | MSG_RESPONSE | MSG_GET_STATE_BY_RANGE
  | MSG_GET_QUERY_RESULT | MSG_QUERY_STATE_NEXT | MSG_QUERY_STATE_CLOSE | MSG_KEEPALIVE | MSG_GET_HISTORY_FOR_KEY

record ChaincodeMessage =
  cm_Type :: MessageType
  cm_Payload :: slice
  cm_Txid :: bytes
  cm_Proposal :: "SignedProposal option"
  cm_ChaincodeEvent :: "ChaincodeEvent option"

datatype exec_spec = DeploymentSpec ChaincodeDeploymentSpec | InvocationSpec ChaincodeInvocationSpec

record exec_state =
  xs_txsim :: "queryHelper option"
  xs_fs :: ccfs
  xs_cache :: ccInfoCache

record cc_support =
  cc_Launch :: "CCContext \<Rightarrow> exec_spec \<Rightarrow> (exec_state, ChaincodeInput) lsm"
  cc_Execute :: "CCContext \<Rightarrow> ChaincodeMessage \<Rightarrow> (exec_state, ChaincodeMessage option) lsm"
  cc_MarshalInput :: "ChaincodeInput \<Rightarrow> bytes res"
  cc_UnmarshalResponse :: "bytes \<Rightarrow> Response res"
  cc_UnmarshalChaincodeData :: "bytes \<Rightarrow> ChaincodeData res"
  cc_SysCCVersion :: bytes

definition createCCMessage :: "cc_support \<Rightarrow> MessageType \<Rightarrow> bytes \<Rightarrow> ChaincodeInput \<Rightarrow> ChaincodeMessage res" where
  "createCCMessage cs typ txid cMsg =
     res_bind (cc_MarshalInput cs cMsg) (\<lambda>payload.
       Inr \<lparr>cm_Type = typ, cm_Payload = Some payload, cm_Txid = txid, cm_Proposal = None, cm_ChaincodeEvent = None\<rparr>)"

text \<open>The answer of a chaincode: only a completed call carries a response.\<close>

definition read_answer :: "cc_support \<Rightarrow> CCContext \<Rightarrow> ChaincodeMessage option \<Rightarrow> (Response \<times> ChaincodeEvent option) res" where
  "read_answer cs cccid resp =
     need resp ''Failed to receive a response'' (\<lambda>resp.
       let event = map_option (\<lambda>e. e\<lparr>ev_ChaincodeId := cx_Name cccid, ev_TxId := cx_TxID cccid\<rparr>) (cm_ChaincodeEvent resp) in
       if cm_Type resp = MSG_COMPLETED then
         res_try (cc_UnmarshalResponse cs (str_of (cm_Payload resp))) (\<lambda>_. Inl (Err ''Failed to unmarshal response'')) (\<lambda>res. Inr (res, event))
       else if cm_Type resp = MSG_ERROR then Inl (Err (''Transaction returned with failure: '' @ str_of (cm_Payload resp)))
       else Inl (Err ''receive a response but in invalid state''))"

definition Execute :: "cc_support \<Rightarrow> CCContext \<Rightarrow> exec_spec \<Rightarrow> (exec_state, Response \<times> ChaincodeEvent option) lsm" where
  "Execute cs cccid spec =
     (let cctyp = (case spec of DeploymentSpec _ \<Rightarrow> MSG_INIT | InvocationSpec _ \<Rightarrow> MSG_TRANSACTION) in
      lsm_bind (cc_Launch cs cccid spec) (\<lambda>cMsg.
      lsm_try (lift_res (createCCMessage cs cctyp (cx_TxID cccid) cMsg)) (\<lambda>_. fail (Err ''Failed to transaction message'')) (\<lambda>ccMsg.
      lsm_try (cc_Execute cs cccid ccMsg) (\<lambda>_. fail (Err ''Failed to execute transaction'')) (\<lambda>resp.
        lift_res (read_answer cs cccid resp)))))"

definition ExecuteWithErrorFilter :: "cc_support \<Rightarrow> CCContext \<Rightarrow> exec_spec \<Rightarrow> (exec_state, slice \<times> ChaincodeEvent option) lsm" where
  "ExecuteWithErrorFilter cs cccid spec =
     lsm_bind (Execute cs cccid spec) (\<lambda>(res, event).
       if rs_Status res \<noteq> shim_OK then fail (Err (rs_Message res)) else ret (rs_Payload res, event))"

definition createCIS :: "bytes \<Rightarrow> bytes list \<Rightarrow> ChaincodeInvocationSpec" where
  "createCIS ccname args = \<lparr>cis_ChaincodeSpec = Some \<lparr>cs_ChaincodeId = Some \<lparr>cc_Path = [], cc_Name = ccname, cc_Version = []\<rparr>,
     cs_Input = Some \<lparr>in_Args = args\<rparr>, cs_Desc = []\<rparr>\<rparr>"

definition ExecuteChaincode :: "cc_support \<Rightarrow> CCContext \<Rightarrow> bytes list \<Rightarrow> (exec_state, Response \<times> ChaincodeEvent option) lsm" where
  "ExecuteChaincode cs cccid args =
     lsm_try (Execute cs cccid (InvocationSpec (createCIS (cx_Name cccid) args)))
       (\<lambda>e. fail (Err (''Error executing chaincode: '' @ err_msg e))) ret"

text \<open>A call of the lifecycle chaincode for a transaction.\<close>

definition ask_lscc ::
    "cc_support \<Rightarrow> bytes \<Rightarrow> bytes \<Rightarrow> SignedProposal option \<Rightarrow> Proposal option \<Rightarrow> bytes \<Rightarrow> bytes
     \<Rightarrow> (exec_state, Response \<times> ChaincodeEvent option) lsm" where
  "ask_lscc cs function txid signedProp prop chainID chaincodeID =
     lsm_bind (lift_res (NewCCContext chainID ''lscc'' (cc_SysCCVersion cs) txid True signedProp prop)) (\<lambda>cccid.
       ExecuteChaincode cs cccid [function, chainID, chaincodeID])"

definition GetCDSFromLSCC ::
    "cc_support \<Rightarrow> bytes \<Rightarrow> SignedProposal option \<Rightarrow> Proposal option \<Rightarrow> bytes \<Rightarrow> bytes \<Rightarrow> (exec_state, slice) lsm" where
  "GetCDSFromLSCC cs txid signedProp prop chainID chaincodeID =
     lsm_try (ask_lscc cs ''getdepspec'' txid signedProp prop chainID chaincodeID)
       (\<lambda>_. fail (Err ''Execute getdepspec of LSCC error'')) (\<lambda>(res, _).
       if rs_Status res \<noteq> shim_OK then fail (Err ''Get ChaincodeDeploymentSpec from LSCC error'') else ret (rs_Payload res))"

definition GetChaincodeDataFromLSCC ::
    "cc_support \<Rightarrow> bytes \<Rightarrow> SignedProposal option \<Rightarrow> Proposal option \<Rightarrow> bytes \<Rightarrow> bytes \<Rightarrow> (exec_state, ChaincodeData) lsm" where
  "GetChaincodeDataFromLSCC cs txid signedProp prop chainID chaincodeID =
     lsm_bind (ask_lscc cs ''getccdata'' txid signedProp prop chainID chaincodeID) (\<lambda>(res, _).
       if rs_Status res \<noteq> shim_OK then fail (Err (rs_Message res))
       else lift_res (cc_UnmarshalChaincodeData cs (str_of (rs_Payload res))))"

text \<open>\<^verbatim>\<open>ccproviderimpl.go\<close>: what the validation of a transaction asks of the lifecycle chaincode.\<close>

definition GetCCValidationInfoFromLSCC ::
    "cc_support \<Rightarrow> bytes \<Rightarrow> SignedProposal option \<Rightarrow> Proposal option \<Rightarrow> bytes \<Rightarrow> bytes \<Rightarrow> (exec_state, bytes \<times> bytes) lsm" where
  "GetCCValidationInfoFromLSCC cs txid signedProp prop chainID chaincodeID =
     (if chaincodeID = ''lscc'' then fail (Panic ''GetCCValidationInfoFromLSCC invoke for LSCC'')
      else
        lsm_bind (GetChaincodeDataFromLSCC cs txid signedProp prop chainID chaincodeID) (\<lambda>d.
          if cd_Vscc d = [] \<or> cd_Policy d = [] then fail (Err ''Incorrect validation info in LSCC'')
          else ret (cd_Vscc d, cd_Policy d)))"

section \<open>What a response is\<close>

lemma read_answer_Inr:
  "read_answer cs c r = Inr (res, ev) \<longleftrightarrow> (\<exists>resp. r = Some resp \<and> cm_Type resp = MSG_COMPLETED \<and> cc_UnmarshalResponse cs (str_of (cm_Payload resp)) = Inr res
     \<and> ev = map_option (\<lambda>e. e\<lparr>ev_ChaincodeId := cx_Name c, ev_TxId := cx_TxID c\<rparr>) (cm_ChaincodeEvent resp))"
  by (cases r) (auto simp: read_answer_def Let_def res_try_Inr_conv)

lemma Execute_ok:
  assumes "Execute cs c spec s = (Inr (res, ev), s')"
  shows "\<exists>cMsg msg resp s1. cc_Launch cs c spec s = (Inr cMsg, s1)
    \<and> createCCMessage cs (case spec of DeploymentSpec _ \<Rightarrow> MSG_INIT | InvocationSpec _ \<Rightarrow> MSG_TRANSACTION) (cx_TxID c) cMsg = Inr msg
    \<and> cc_Execute cs c msg s1 = (Inr (Some resp), s') \<and> cm_Type resp = MSG_COMPLETED \<and> cc_UnmarshalResponse cs (str_of (cm_Payload resp)) = Inr res
    \<and> (\<forall>e. ev = Some e \<longrightarrow> ev_ChaincodeId e = cx_Name c \<and> ev_TxId e = cx_TxID c)"
  using assms unfolding Execute_def Let_def
  by (auto simp: lsm_bind_Inr lsm_try_Inr read_answer_Inr)

lemma ExecuteChaincode_Inr:
  "ExecuteChaincode cs c args s = (Inr r, s') \<longleftrightarrow> Execute cs c (InvocationSpec (createCIS (cx_Name c) args)) s = (Inr r, s')"
  by (cases r) (simp add: ExecuteChaincode_def lsm_try_Inr)

lemma GetChaincodeData_ok:
  assumes "GetChaincodeDataFromLSCC cs txid sp prop chain n s = (Inr cd, s')"
  shows "\<exists>res ev. ask_lscc cs ''getccdata'' txid sp prop chain n s = (Inr (res, ev), s') \<and> rs_Status res = shim_OK
    \<and> cc_UnmarshalChaincodeData cs (str_of (rs_Payload res)) = Inr cd"
  using assms by (auto simp: GetChaincodeDataFromLSCC_def lsm_bind_Inr split: if_splits)

end
