(* ===== verification/Policy.thy ===== *)
theory Policy
  imports Vscc
begin

text \<open>
  \<^verbatim>\<open>core/policy/policy.go\<close>: who may do what. A proposal on a channel is checked against a named policy of
  the channel, one without a channel against a principal of the peer's own membership service.
  Policies, principals and identities are outside the sources: a policy is its function \<^verbatim>\<open>Evaluate\<close>.

  Result: \<open>CheckPolicy_ok\<close>, what a check that passes has established.
\<close>

record local_identity =
  li_SatisfiesPrincipal :: "bytes \<Rightarrow> unit res"
  li_Verify :: "bytes \<Rightarrow> bytes \<Rightarrow> unit res"

record policyChecker =
  po_Manager :: "bytes \<Rightarrow> (bytes \<Rightarrow> SignedData list \<Rightarrow> unit res) option"
  po_DeserializeIdentity :: "bytes \<Rightarrow> local_identity res"
  po_GetPrincipal :: "bytes \<Rightarrow> bytes res"

text \<open>The proposal's bytes, the creator its header names, and the signature.\<close>

definition proposal_data :: "'z proto_utils_scheme \<Rightarrow> SignedProposal \<Rightarrow> SignedData res" where
  "proposal_data pu sp =
     res_try (pu_GetProposal pu (str_of (sp_ProposalBytes sp))) (\<lambda>_. Inl (Err ''Failing extracting proposal'')) (\<lambda>proposal.
     res_try (pu_GetHeader pu (pp_Header proposal)) (\<lambda>_. Inl (Err ''Failing extracting header'')) (\<lambda>header.
     res_try (pu_GetSignatureHeader pu (hd_SignatureHeader header)) (\<lambda>_. Inl (Err ''Invalid SignatureHeader of the proposal'')) (\<lambda>shdr.
       Inr \<lparr>sd_Data = str_of (sp_ProposalBytes sp), sd_Identity = str_of (sh_Creator shdr), sd_Signature = str_of (sp_Signature sp)\<rparr>)))"

definition CheckPolicyNoChannel :: "'z proto_utils_scheme \<Rightarrow> policyChecker \<Rightarrow> bytes \<Rightarrow> SignedProposal option \<Rightarrow> unit res" where
  "CheckPolicyNoChannel pu p policyName signedProp =
     (if policyName = [] then Inl (Err ''Invalid policy name during channelless check policy. Name must be different from nil.'')
      else
        need signedProp ''Invalid signed proposal during channelless check policy'' (\<lambda>sp.
        res_bind (proposal_data pu sp) (\<lambda>sd.
        res_try (po_DeserializeIdentity p (sd_Identity sd)) (\<lambda>_. Inl (Err ''Failed deserializing proposal creator'')) (\<lambda>who.
        res_try (po_GetPrincipal p policyName) (\<lambda>_. Inl (Err ''Failed getting local MSP principal'')) (\<lambda>principal.
        res_try (li_SatisfiesPrincipal who principal)
          (\<lambda>_. Inl (Err ''Failed verifying that the creator of the proposal satisfies local MSP principal'')) (\<lambda>_.
          li_Verify who (sd_Data sd) (sd_Signature sd)))))))"

definition CheckPolicyBySignedData :: "policyChecker \<Rightarrow> bytes \<Rightarrow> bytes \<Rightarrow> SignedData list option \<Rightarrow> unit res" where
  "CheckPolicyBySignedData p channelID policyName sd =
     (if channelID = [] then Inl (Err ''Invalid channel ID name during check policy on signed data. Name must be different from nil.'')
      else if policyName = [] then Inl (Err ''Invalid policy name during check policy on signed data'')
      else
        need sd ''Invalid signed data during check policy'' (\<lambda>sd.
        need (po_Manager p channelID) ''Failed to get policy manager for channel'' (\<lambda>GetPolicy.
        res_try (GetPolicy policyName sd) (\<lambda>_. Inl (Err ''Failed evaluating policy on signed data'')) (\<lambda>_. Inr ()))))"

definition CheckPolicy :: "'z proto_utils_scheme \<Rightarrow> policyChecker \<Rightarrow> bytes \<Rightarrow> bytes \<Rightarrow> SignedProposal option \<Rightarrow> unit res" where
  "CheckPolicy pu p channelID policyName signedProp =
     (if channelID = [] then CheckPolicyNoChannel pu p policyName signedProp
      else if policyName = [] then Inl (Err ''Invalid policy name during check policy. Name must be different from nil.'')
      else
        need signedProp ''Invalid signed proposal during check policy'' (\<lambda>sp.
        need (po_Manager p channelID) ''Failed to get policy manager for channel'' (\<lambda>_.
        res_bind (proposal_data pu sp) (\<lambda>sd.
          CheckPolicyBySignedData p channelID policyName (Some [sd])))))"

lemma proposal_data_Inr:
  "proposal_data pu sp = Inr sd \<longleftrightarrow> (\<exists>prop h shdr. pu_GetProposal pu (str_of (sp_ProposalBytes sp)) = Inr prop \<and> pu_GetHeader pu (pp_Header prop) = Inr h
     \<and> pu_GetSignatureHeader pu (hd_SignatureHeader h) = Inr shdr
     \<and> sd = \<lparr>sd_Data = str_of (sp_ProposalBytes sp), sd_Identity = str_of (sh_Creator shdr), sd_Signature = str_of (sp_Signature sp)\<rparr>)"
  by (auto simp: proposal_data_def res_try_Inr_conv)

text \<open>On a channel the policy holds of the proposal; without one the creator satisfies the principal and has signed.\<close>

lemma CheckPolicy_ok:
  "CheckPolicy pu p chan pol sp = Inr () \<longleftrightarrow> pol \<noteq> [] \<and> (\<exists>s sd. sp = Some s \<and> proposal_data pu s = Inr sd
     \<and> (if chan = [] then (\<exists>who pr. po_DeserializeIdentity p (sd_Identity sd) = Inr who \<and> po_GetPrincipal p pol = Inr pr
            \<and> li_SatisfiesPrincipal who pr = Inr () \<and> li_Verify who (sd_Data sd) (sd_Signature sd) = Inr ())
        else (\<exists>get. po_Manager p chan = Some get \<and> get pol [sd] = Inr ())))"
  by (auto simp: CheckPolicy_def CheckPolicyNoChannel_def CheckPolicyBySignedData_def res_try_Inr_conv res_bind_Inr_conv need_Inr_conv)

lemma CheckPolicyNoChannel_ok:
  "CheckPolicyNoChannel pu p pol sp = CheckPolicy pu p [] pol sp"
  by (simp add: CheckPolicy_def)

end
