(* ===== verification/Endorser.thy ===== *)
theory Endorser
  imports Execute Policy KVLedger
begin

text \<open>
  \<^verbatim>\<open>core/endorser/endorser.go\<close> and \<^verbatim>\<open>core/scc/escc/endorser_onevalidsignature.go\<close>: a signed proposal is
  checked, simulated on a new transaction simulator of its channel, and its result endorsed by the
  endorsement chaincode.

  The endorser returns a response and an error, either of which may be nil. The codecs, the signing
  identity of the peer and the construction of a proposal response are parameters, as is the support
  that runs chaincodes (theory \<open>Execute\<close>).

  Results: what a proposal that is endorsed without error has passed (\<open>ProcessProposal_endorsed\<close>);
  the endorsement chaincode signs no failed execution (\<open>escc_signs_success_only\<close>); and a
  proposal to the lifecycle chaincode without its argument stops the peer
  (\<open>missing_argument_panics\<close>).
\<close>

record ProposalResponse =
  pr_Response :: "Response option"
  pr_Payload :: bytes
  pr_Endorsement :: "Endorsement option"

section \<open>The endorsement chaincode\<close>

record escc_env =
  es_UnmarshalChaincodeID :: "bytes \<Rightarrow> ChaincodeID res"
  es_GetResponse :: "bytes \<Rightarrow> Response res"
  es_LocalMSP :: "SigningIdentity res option"
  es_CreateProposalResponse ::
    "bytes \<Rightarrow> bytes \<Rightarrow> Response \<Rightarrow> bytes \<Rightarrow> bytes \<Rightarrow> ChaincodeID \<Rightarrow> slice \<Rightarrow> SigningIdentity \<Rightarrow> ProposalResponse res"
  es_GetBytesProposalResponse :: "ProposalResponse \<Rightarrow> bytes res"
  es_GetProposalResponse :: "bytes \<Rightarrow> ProposalResponse res"

definition escc_Invoke :: "escc_env \<Rightarrow> slice list \<Rightarrow> Response res" where
  "escc_Invoke env args =
     (if length args < 6 then Inr (shim_Error (''Incorrect number of arguments (expected a minimum of 5, provided '' @ nat_str (length args) @ '')''))
      else if length args > 8 then Inr (shim_Error (''Incorrect number of arguments (expected a maximum of 7, provided '' @ nat_str (length args) @ '')''))
      else
        or_error (need (args ! 1) ''serialized Header object is null'' Inr) (\<lambda>hdr.
        or_error (need (args ! 2) ''serialized ChaincodeProposalPayload object is null'' Inr) (\<lambda>payl.
        or_error (need (args ! 3) ''ChaincodeID is null'' Inr) (\<lambda>ccidBytes.
        or_error (es_UnmarshalChaincodeID env ccidBytes) (\<lambda>ccid.
        or_error (need (args ! 4) ''Response of chaincode executing is null'' Inr) (\<lambda>respBytes.
        or_error (res_try (es_GetResponse env respBytes) (\<lambda>e. Inl (Err (''Failed to get Response of executing chaincode: '' @ err_msg e))) Inr) (\<lambda>response.
          if rs_Status response \<ge> shim_ERRORTHRESHOLD
          then Inr (shim_Error (''Status code less than '' @ FormatInt shim_ERRORTHRESHOLD @ '' will be endorsed, received status code: ''
            @ FormatInt (rs_Status response)))
          else
            or_error (need (args ! 5) ''simulation results are null'' Inr) (\<lambda>results.
              let events = (if length args > 6 then str_of (args ! 6) else []);
                  visibility = (if length args > 7 then args ! 7 else None) in
            or_error (need (es_LocalMSP env) ''Nil local MSP manager'' Inr) (\<lambda>signer.
            or_error (res_try signer (\<lambda>e. Inl (Err (''Could not obtain the default signing identity, err '' @ err_msg e))) Inr) (\<lambda>signingEndorser.
            or_error (es_CreateProposalResponse env hdr payl response results events ccid visibility signingEndorser) (\<lambda>presp.
            or_error (res_try (es_GetBytesProposalResponse env presp) (\<lambda>e. Inl (Err (''Could not marshal ProposalResponse: err '' @ err_msg e))) Inr) (\<lambda>prBytes.
            or_error (es_GetProposalResponse env prBytes) (\<lambda>_.
              Inr (shim_Success (Some prBytes))))))))))))))) "

section \<open>The endorser\<close>

record ('s, 'db) endorser_env =
  ee_pu :: proto_utils
  ee_mv :: msg_env
  ee_policyChecker :: policyChecker
  ee_pkg :: pkg_env
  ee_cacheEnabled :: bool
  ee_kvl :: "('s, 'db) kvl_env"
  ee_GetLedger :: "bytes \<Rightarrow> ('s, 'db) kvLedger option"
  ee_tenv :: tm_env
  ee_support :: cc_support
  ee_Writers :: bytes
  ee_GetChaincodeInvocationSpec :: "Proposal \<Rightarrow> ChaincodeInvocationSpec res"
  ee_GetBytesChaincodeEvent :: "ChaincodeEvent \<Rightarrow> bytes res"
  ee_GetBytesResponse :: "Response \<Rightarrow> bytes res"
  ee_MarshalChaincodeID :: "ChaincodeID \<Rightarrow> bytes res"
  ee_GetProposalResponse :: "bytes \<Rightarrow> ProposalResponse res"
  ee_CreateProposalResponseFailure ::
    "bytes \<Rightarrow> bytes \<Rightarrow> Response \<Rightarrow> slice \<Rightarrow> slice \<Rightarrow> ChaincodeID \<Rightarrow> slice \<Rightarrow> ProposalResponse res"

definition checkACL :: "('s, 'db) endorser_env \<Rightarrow> SignedProposal option \<Rightarrow> ChannelHeader \<Rightarrow> unit res" where
  "checkACL ee signedProp chdr = CheckPolicy (ee_pu ee) (ee_policyChecker ee) (ch_ChannelId chdr) (ee_Writers ee) signedProp"

definition callChaincode ::
    "('s, 'db) endorser_env \<Rightarrow> bytes \<Rightarrow> bytes \<Rightarrow> bytes \<Rightarrow> SignedProposal option \<Rightarrow> Proposal option \<Rightarrow> ChaincodeInvocationSpec \<Rightarrow> ChaincodeID
     \<Rightarrow> (exec_state, Response \<times> ChaincodeEvent option) lsm" where
  "callChaincode ee chainID version txid signedProp prop cis cid =
     lsm_bind (lift_res (NewCCContext chainID (cc_Name cid) version txid (IsSysCC (cc_Name cid)) signedProp prop)) (\<lambda>cccid.
     lsm_bind (lift_res (deref (cis_ChaincodeSpec cis))) (\<lambda>spec.
     lsm_bind (lift_res (deref (cs_Input spec))) (\<lambda>inp.
     lsm_bind (ExecuteChaincode (ee_support ee) cccid (in_Args inp)) (\<lambda>(res, ccevent).
       if rs_Status res \<ge> shim_ERRORTHRESHOLD then ret (res, None)
       else if cc_Name cid = ''lscc'' \<and> length (in_Args inp) \<ge> 3 \<and> (in_Args inp ! 0 = ''deploy'' \<or> in_Args inp ! 0 = ''upgrade'') then
         lsm_bind (lift_res (pu_GetChaincodeDeploymentSpec (ee_pu ee) (in_Args inp ! 2))) (\<lambda>cds.
         lsm_bind (lift_res (spec_id cds)) (\<lambda>cc.
           if IsSysCC (cc_Name cc) then fail (Err (''attempting to deploy a system chaincode '' @ cc_Name cc @ ''/'' @ chainID))
           else
             lsm_bind (lift_res (NewCCContext chainID (cc_Name cc) (cc_Version cc) txid False signedProp prop)) (\<lambda>cccid.
             lsm_bind (Execute (ee_support ee) cccid (DeploymentSpec cds)) (\<lambda>_.
               ret (res, ccevent)))))
       else ret (res, ccevent)))))"

text \<open>A test whose refusal the fork has taken out; it still reads the argument it tests.\<close>

definition disableJavaCCInst :: "('s, 'db) endorser_env \<Rightarrow> ChaincodeID \<Rightarrow> ChaincodeInvocationSpec \<Rightarrow> unit res" where
  "disableJavaCCInst ee cid cis =
     (if cc_Name cid \<noteq> ''lscc'' then Inr ()
      else
        (case cis_ChaincodeSpec cis of
           None \<Rightarrow> Inr ()
         | Some spec \<Rightarrow>
             (case cs_Input spec of
                None \<Rightarrow> Inr ()
              | Some inp \<Rightarrow>
                  if length (in_Args inp) < 1 then Inr ()
                  else
                    let check = (\<lambda>argNo.
                      res_bind (index_at (in_Args inp) argNo) (\<lambda>arg.
                      res_bind (pu_GetChaincodeDeploymentSpec (ee_pu ee) arg) (\<lambda>cds.
                      res_bind (deref (cds_ChaincodeSpec cds)) (\<lambda>_. Inr ()))))
                    in if in_Args inp ! 0 = ''install'' then check 1
                       else if in_Args inp ! 0 = ''deploy'' \<or> in_Args inp ! 0 = ''upgrade'' then check 2
                       else Inr ())))"

definition getCDSFromLSCC ::
    "('s, 'db) endorser_env \<Rightarrow> bytes \<Rightarrow> bytes \<Rightarrow> SignedProposal option \<Rightarrow> Proposal option \<Rightarrow> bytes \<Rightarrow> (exec_state, ChaincodeData) lsm" where
  "getCDSFromLSCC ee chainID txid signedProp prop chaincodeID =
     GetChaincodeDataFromLSCC (ee_support ee) txid signedProp prop chainID chaincodeID"

definition check_instantiation :: "('s, 'db) endorser_env \<Rightarrow> bytes \<Rightarrow> bytes \<Rightarrow> ChaincodeData \<Rightarrow> (exec_state, unit) lsm" where
  "check_instantiation ee name version cdLedger s =
     (case CheckInsantiationPolicy (ee_pkg ee) (ee_cacheEnabled ee) name version cdLedger (xs_fs s) (xs_cache s) of
        Inl e \<Rightarrow> (Inl e, s)
      | Inr cache \<Rightarrow> (Inr (), s\<lparr>xs_cache := cache\<rparr>))"

text \<open>\<^verbatim>\<open>txsim.GetTxSimulationResults()\<close>, if there is a simulator.\<close>

definition sim_results :: "('s, 'db) endorser_env \<Rightarrow> (exec_state, slice) lsm" where
  "sim_results ee s =
     (case xs_txsim s of
        None \<Rightarrow> (Inr None, s)
      | Some h \<Rightarrow>
          (case GetTxSimulationResults (ee_tenv ee) h of
             Inl e \<Rightarrow> (Inl e, s)
           | Inr (r, h) \<Rightarrow> (res_bind r (\<lambda>b. Inr (Some b)), s\<lparr>xs_txsim := Some h\<rparr>)))"

definition simulateProposal ::
    "('s, 'db) endorser_env \<Rightarrow> bytes \<Rightarrow> bytes \<Rightarrow> SignedProposal option \<Rightarrow> Proposal \<Rightarrow> ChaincodeID
     \<Rightarrow> (exec_state, ChaincodeData option \<times> Response \<times> slice \<times> ChaincodeEvent option) lsm" where
  "simulateProposal ee chainID txid signedProp prop cid =
     lsm_bind (lift_res (ee_GetChaincodeInvocationSpec ee prop)) (\<lambda>cis.
     lsm_bind (lift_res (disableJavaCCInst ee cid cis)) (\<lambda>_.
     lsm_bind (if \<not> IsSysCC (cc_Name cid) then
                 lsm_try (getCDSFromLSCC ee chainID txid signedProp (Some prop) (cc_Name cid))
                   (\<lambda>e. fail (Err (err_msg e @ '' - make sure the chaincode '' @ cc_Name cid @ '' has been successfully instantiated and try again'')))
                   (\<lambda>cdLedger.
                     lsm_bind (check_instantiation ee (cc_Name cid) (cd_Version cdLedger) cdLedger) (\<lambda>_.
                       ret (Some cdLedger, cd_Version cdLedger)))
               else ret (None, cc_SysCCVersion (ee_support ee))) (\<lambda>(cdLedger, version).
     lsm_bind (callChaincode ee chainID version txid signedProp (Some prop) cis cid) (\<lambda>(res, ccevent).
     lsm_bind (sim_results ee) (\<lambda>simResult.
       ret (cdLedger, res, simResult, ccevent))))))"

text \<open>The arguments the endorsement chaincode is called with.\<close>

definition escc_args :: "Proposal \<Rightarrow> bytes \<Rightarrow> bytes \<Rightarrow> slice \<Rightarrow> slice \<Rightarrow> slice \<Rightarrow> bytes list" where
  "escc_args proposal ccidBytes resBytes simRes eventBytes visibility =
     [[], pp_Header proposal, pp_Payload proposal, ccidBytes, resBytes, str_of simRes, str_of eventBytes, str_of visibility]"

definition endorseProposal ::
    "('s, 'db) endorser_env \<Rightarrow> bytes \<Rightarrow> bytes \<Rightarrow> SignedProposal option \<Rightarrow> Proposal \<Rightarrow> Response \<Rightarrow> slice \<Rightarrow> ChaincodeEvent option \<Rightarrow> slice
     \<Rightarrow> ChaincodeID \<Rightarrow> ChaincodeData option \<Rightarrow> (exec_state, ProposalResponse) lsm" where
  "endorseProposal ee chainID txid signedProp proposal response simRes event visibility ccid cd =
     lsm_bind (lift_res (case cd of None \<Rightarrow> Inr ''escc''
                 | Some d \<Rightarrow> if cd_Escc d = [] then Inl (Panic ''No ESCC specified in ChaincodeData'') else Inr (cd_Escc d))) (\<lambda>escc.
     lsm_bind (case event of None \<Rightarrow> ret None
               | Some ev \<Rightarrow> lsm_try (lift_res (ee_GetBytesChaincodeEvent ee ev)) (\<lambda>e. fail (Err (''failed to marshal event bytes - '' @ err_msg e)))
                   (\<lambda>b. ret (Some b))) (\<lambda>eventBytes.
     lsm_try (lift_res (ee_GetBytesResponse ee response)) (\<lambda>e. fail (Err (''failed to marshal response bytes - '' @ err_msg e))) (\<lambda>resBytes.
     let ver = cc_SysCCVersion (ee_support ee) in
     lsm_try (lift_res (ee_MarshalChaincodeID ee (ccid\<lparr>cc_Version := (case cd of None \<Rightarrow> ver | Some d \<Rightarrow> cd_Version d)\<rparr>)))
       (\<lambda>e. fail (Err (''failed to marshal ChaincodeID - '' @ err_msg e))) (\<lambda>ccidBytes.
     lsm_bind (callChaincode ee chainID ver txid signedProp (Some proposal)
         (createCIS escc (escc_args proposal ccidBytes resBytes simRes eventBytes visibility))
         \<lparr>cc_Path = [], cc_Name = escc, cc_Version = []\<rparr>) (\<lambda>(res, _).
       if rs_Status res \<ge> shim_ERRORTHRESHOLD
       then ret \<lparr>pr_Response = Some res, pr_Payload = [], pr_Endorsement = None\<rparr>
       else lift_res (ee_GetProposalResponse ee (str_of (rs_Payload res))))))))"

text \<open>
  A failed call answers with an error and, mostly, a response of status 500; \<open>refuse\<close> and
  \<open>withdraw\<close> are the two ways to return an error.
\<close>

type_synonym outcome = "ProposalResponse option \<times> error option"

definition failure_response :: "error \<Rightarrow> ProposalResponse" where
  "failure_response e = \<lparr>pr_Response = Some \<lparr>rs_Status = 500, rs_Message = err_msg e, rs_Payload = None\<rparr>, pr_Payload = [], pr_Endorsement = None\<rparr>"

definition refuse :: "error \<Rightarrow> ('x, outcome) lsm" where
  "refuse e = ret (Some (failure_response e), Some e)"

definition withdraw :: "error \<Rightarrow> ('x, outcome) lsm" where
  "withdraw e = ret (None, Some e)"

definition chaincodeError :: "Response \<Rightarrow> error" where
  "chaincodeError r = Err (''chaincode error (status: '' @ FormatInt (rs_Status r) @ '', message: '' @ rs_Message r @ '')'')"

definition getTxSimulator :: "('s, 'db) endorser_env \<Rightarrow> bytes \<Rightarrow> queryHelper res" where
  "getTxSimulator ee ledgername =
     need (ee_GetLedger ee ledgername) (''channel does not exist: '' @ ledgername) (\<lambda>lgr. Inr (fst (kl_NewTxSimulator lgr)))"

definition getHistoryQueryExecutor :: "('s, 'db) endorser_env \<Rightarrow> bytes \<Rightarrow> (bytes \<Rightarrow> bytes \<Rightarrow> historyScanner res) res" where
  "getHistoryQueryExecutor ee ledgername =
     need (ee_GetLedger ee ledgername) (''channel does not exist: '' @ ledgername) (\<lambda>lgr. Inr (kl_GetHistoryForKey (ee_kvl ee) lgr))"

text \<open>What comes after the simulation: the failure of a chaincode, a chainless answer, or an endorsement.\<close>

definition respond ::
    "('s, 'db) endorser_env \<Rightarrow> bytes \<Rightarrow> bytes \<Rightarrow> SignedProposal option \<Rightarrow> Proposal \<Rightarrow> ChaincodeHeaderExtension \<Rightarrow> ChaincodeID
     \<Rightarrow> ChaincodeData option \<times> Response \<times> slice \<times> ChaincodeEvent option \<Rightarrow> (exec_state, outcome) lsm" where
  "respond ee chainID txid signedProp prop hdrExt ccid sim =
     (let (cd, res, simulationResult, ccevent) = sim;
          set_payload = (\<lambda>pResp. lsm_bind (lift_res (deref (pr_Response pResp))) (\<lambda>r.
            ret (Some (pResp\<lparr>pr_Response := Some (r\<lparr>rs_Payload := rs_Payload res\<rparr>)\<rparr>), None))) in
      if rs_Status res \<ge> shim_ERROR then
        lsm_try (lift_res (case ccevent of None \<Rightarrow> Inr None | Some ev \<Rightarrow> res_bind (ee_GetBytesChaincodeEvent ee ev) (\<lambda>b. Inr (Some b))))
          (\<lambda>e. withdraw (Err (''failed to marshal event bytes - '' @ err_msg e))) (\<lambda>cceventBytes.
        lsm_try (lift_res (ee_CreateProposalResponseFailure ee (pp_Header prop) (pp_Payload prop) res simulationResult cceventBytes ccid
            (hx_PayloadVisibility hdrExt))) refuse (\<lambda>pResp.
          ret (Some pResp, Some (chaincodeError res))))
      else if chainID = [] then set_payload \<lparr>pr_Response = Some res, pr_Payload = [], pr_Endorsement = None\<rparr>
      else
        lsm_try (endorseProposal ee chainID txid signedProp prop res simulationResult ccevent (hx_PayloadVisibility hdrExt) ccid cd) refuse (\<lambda>pResp.
          if rs_Status res \<ge> shim_ERRORTHRESHOLD then ret (Some pResp, Some (chaincodeError res))
          else set_payload pResp))"

text \<open>
  \<^verbatim>\<open>defer txsim.Done()\<close>: the simulator of the proposal is opened before \<open>m\<close> and closed after it; the
  lock it holds on the database of the channel is released when it is closed for the first time.
\<close>

definition open_sim :: "queryHelper \<Rightarrow> (exec_state, unit) lsm" where
  "open_sim h s = (Inr (), s\<lparr>xs_txsim := Some h\<rparr>)"

definition close_sim :: "('s, 'db) endorser_env \<Rightarrow> (exec_state, unit) lsm" where
  "close_sim ee s =
     (case xs_txsim s of
        None \<Rightarrow> (Inr (), s)
      | Some h \<Rightarrow> (case qh_Done (ee_tenv ee) h of Inl e \<Rightarrow> (Inl e, s) | Inr h' \<Rightarrow> (Inr (), s\<lparr>xs_txsim := Some h'\<rparr>)))"

definition simulate_and_respond ::
    "('s, 'db) endorser_env \<Rightarrow> bytes \<Rightarrow> bytes \<Rightarrow> SignedProposal option \<Rightarrow> Proposal \<Rightarrow> ChaincodeHeaderExtension \<Rightarrow> ChaincodeID
     \<Rightarrow> (exec_state, outcome) lsm" where
  "simulate_and_respond ee chainID txid signedProp prop hdrExt ccid =
     lsm_bind (lsm_try (simulateProposal ee chainID txid signedProp prop ccid) refuse
                 (respond ee chainID txid signedProp prop hdrExt ccid)) (\<lambda>out.
     lsm_bind (close_sim ee) (\<lambda>_. ret out))"

definition ProcessProposal :: "('s, 'db) endorser_env \<Rightarrow> SignedProposal option \<Rightarrow> (exec_state, outcome) lsm" where
  "ProcessProposal ee signedProp =
     lsm_try (lift_res (ValidateProposalMessage (ee_pu ee) (ee_mv ee) signedProp)) refuse (\<lambda>(prop, hdr, hdrExt).
     lsm_try (lift_res (pu_UnmarshalChannelHeader (ee_pu ee) (hd_ChannelHeader hdr))) refuse (\<lambda>chdr.
     lsm_try (lift_res (pu_GetSignatureHeader (ee_pu ee) (hd_SignatureHeader hdr))) refuse (\<lambda>shdr.
     lsm_bind (lift_res (deref (hx_ChaincodeId hdrExt))) (\<lambda>ccid.
     let chainID = ch_ChannelId chdr; txid = ch_TxId chdr in
     if IsSysCCAndNotInvokableExternal (cc_Name ccid)
     then refuse (Err (''Chaincode '' @ cc_Name ccid @ '' cannot be invoked through a proposal''))
     else if txid = [] then refuse (Err ''Invalid txID. It must be different from the empty string.'')
     else if chainID = [] then simulate_and_respond ee chainID txid signedProp prop hdrExt ccid
     else
       (case ee_GetLedger ee chainID of
          None \<Rightarrow> withdraw (Err (''failure while looking up the ledger '' @ chainID))
        | Some lgr \<Rightarrow>
            lsm_try (lift_res (GetTransactionByID (ee_kvl ee) lgr txid))
              (\<lambda>_. lsm_try (lift_res (if IsSysCC (cc_Name ccid) then Inr () else checkACL ee signedProp chdr)) refuse (\<lambda>_.
                   lsm_try (lift_res (getTxSimulator ee chainID)) refuse (\<lambda>txsim.
                   lsm_try (lift_res (getHistoryQueryExecutor ee chainID)) refuse (\<lambda>_.
                   lsm_bind (open_sim txsim) (\<lambda>_.
                     simulate_and_respond ee chainID txid signedProp prop hdrExt ccid)))))
              (\<lambda>_. withdraw (Err (''Duplicate transaction found ['' @ txid @ '']'')))))))) "

section \<open>What an endorsement means\<close>

text \<open>An error that is answered, and one that is passed on without a response, are both errors.\<close>

lemma answered_error [simp]:
  "refuse e s = (Inr (r, None), s') \<longleftrightarrow> False" "withdraw e s = (Inr (r, None), s') \<longleftrightarrow> False"
  by (simp_all add: refuse_def withdraw_def)

lemma refuse_Inr: "refuse e s = (Inr out, s') \<longleftrightarrow> out = (Some (failure_response e), Some e) \<and> s' = s"
  by (auto simp: refuse_def)

lemma withdraw_Inr: "withdraw e s = (Inr out, s') \<longleftrightarrow> out = (None, Some e) \<and> s' = s"
  by (auto simp: withdraw_def)

lemma open_sim_Inr [simp]: "open_sim h s = (Inr u, s') \<longleftrightarrow> s' = s\<lparr>xs_txsim := Some h\<rparr>"
  by (auto simp: open_sim_def)

text \<open>The simulation of a proposal that was answered without an error.\<close>

lemma simulate_and_respond_ok:
  assumes "simulate_and_respond ee chain txid sp prop hx cid s = (Inr (r, None), s')"
  shows "\<exists>cd res sim ev p rr s1. simulateProposal ee chain txid sp prop cid s = (Inr (cd, res, sim, ev), s1)
    \<and> rs_Status res < (if chain = [] then shim_ERROR else shim_ERRORTHRESHOLD)
    \<and> r = Some p \<and> pr_Response p = Some rr \<and> rs_Payload rr = rs_Payload res"
proof -
  obtain cd res sim ev s1 s2 where sim: "simulateProposal ee chain txid sp prop cid s = (Inr (cd, res, sim, ev), s1)"
    and resp: "respond ee chain txid sp prop hx cid (cd, res, sim, ev) s1 = (Inr (r, None), s2)"
    using assms unfolding simulate_and_respond_def by (auto simp: lsm_bind_Inr lsm_try_Inr)
  have below: "\<not> rs_Status res \<ge> shim_ERROR"
    using resp by (auto simp: respond_def Let_def lsm_try_Inr)
  show ?thesis
  proof (cases "chain = []")
    case True
    then show ?thesis using sim resp below by (auto simp: respond_def Let_def lsm_bind_Inr)
  next
    case False
    then obtain p rr where "r = Some p" "pr_Response p = Some rr" "rs_Payload rr = rs_Payload res" "\<not> rs_Status res \<ge> shim_ERRORTHRESHOLD"
      using resp below by (auto simp: respond_def Let_def lsm_bind_Inr lsm_try_Inr split: if_splits)
    then show ?thesis using sim False by fastforce
  qed
qed

text \<open>What has been checked of a proposal before it is simulated.\<close>

definition admitted :: "('s, 'db) endorser_env \<Rightarrow> SignedProposal option \<Rightarrow> ChannelHeader \<Rightarrow> ChaincodeID \<Rightarrow> bool" where
  "admitted ee sp chdr cid \<longleftrightarrow> \<not> IsSysCCAndNotInvokableExternal (cc_Name cid) \<and> ch_TxId chdr \<noteq> []
     \<and> (ch_ChannelId chdr \<noteq> [] \<longrightarrow> (case ee_GetLedger ee (ch_ChannelId chdr) of None \<Rightarrow> False
          | Some lgr \<Rightarrow> (\<not> is_ok (GetTransactionByID (ee_kvl ee) lgr (ch_TxId chdr))
              \<and> (\<not> IsSysCC (cc_Name cid) \<longrightarrow> checkACL ee sp chdr = Inr ()))))"

lemma ProcessProposal_endorsed:
  assumes "ProcessProposal ee sp s = (Inr (r, None), s')"
  shows "\<exists>prop hdr hx chdr cid s0. ValidateProposalMessage (ee_pu ee) (ee_mv ee) sp = Inr (prop, hdr, hx)
    \<and> pu_UnmarshalChannelHeader (ee_pu ee) (hd_ChannelHeader hdr) = Inr chdr \<and> hx_ChaincodeId hx = Some cid \<and> admitted ee sp chdr cid
    \<and> simulate_and_respond ee (ch_ChannelId chdr) (ch_TxId chdr) sp prop hx cid s0 = (Inr (r, None), s')"
proof -
  obtain pp hdr hx chdr shdr cid where
    v: "ValidateProposalMessage (ee_pu ee) (ee_mv ee) sp = Inr (pp, hdr, hx)"
      "pu_UnmarshalChannelHeader (ee_pu ee) (hd_ChannelHeader hdr) = Inr chdr" "hx_ChaincodeId hx = Some cid"
      "pu_GetSignatureHeader (ee_pu ee) (hd_SignatureHeader hdr) = Inr shdr"
    using assms unfolding ProcessProposal_def by (auto simp: lsm_bind_Inr lsm_try_Inr)
  have x: "\<not> IsSysCCAndNotInvokableExternal (cc_Name cid)" "ch_TxId chdr \<noteq> []"
    using assms v by (auto simp: ProcessProposal_def Let_def split: if_splits)
  show ?thesis
  proof (cases "ch_ChannelId chdr = []")
    case True
    then show ?thesis using assms v x by (auto simp: ProcessProposal_def Let_def admitted_def)
  next
    case False
    then obtain lgr where l: "ee_GetLedger ee (ch_ChannelId chdr) = Some lgr"
      using assms v x by (cases "ee_GetLedger ee (ch_ChannelId chdr)") (auto simp: ProcessProposal_def Let_def)
    then show ?thesis using assms v x False
      by (auto simp: ProcessProposal_def Let_def admitted_def lsm_try_Inr lsm_bind_Inr is_ok_def split: if_splits)
  qed
qed

text \<open>Whatever the outcome, the simulator of a proposal is closed.\<close>

lemma qh_Done_done: "qh_Done env h = Inr h' \<Longrightarrow> qh_done h'"
  by (auto simp: qh_Done_def res_bind_Inr_conv split: if_splits option.splits)

lemma close_sim_closed:
  assumes "close_sim ee s = (Inr u, s')"
  shows "case xs_txsim s' of None \<Rightarrow> True | Some h \<Rightarrow> qh_done h"
proof (cases "xs_txsim s")
  case None
  then show ?thesis using assms by (simp add: close_sim_def)
next
  case (Some h)
  then show ?thesis using assms by (cases "qh_Done (ee_tenv ee) h") (auto simp: close_sim_def qh_Done_done)
qed

lemma simulate_and_respond_closes:
  assumes "simulate_and_respond ee chain txid sp prop hx cid s = (Inr out, s')"
  shows "case xs_txsim s' of None \<Rightarrow> True | Some h \<Rightarrow> qh_done h"
  using assms by (auto simp: simulate_and_respond_def lsm_bind_Inr dest: close_sim_closed)

lemma ProcessProposal_closes:
  assumes "ProcessProposal ee sp s = (Inr out, s')" "xs_txsim s = None"
  shows "case xs_txsim s' of None \<Rightarrow> True | Some h \<Rightarrow> qh_done h"
  using assms
  by (auto simp: ProcessProposal_def Let_def lsm_bind_Inr lsm_try_Inr refuse_Inr withdraw_Inr
      split: if_splits option.splits dest: simulate_and_respond_closes)

text \<open>A successful answer of the endorsement chaincode is a signed response to a successful execution.\<close>

lemma or_error_success:
  assumes "rs_Status x = shim_OK"
  shows "or_error r f = Inr x \<longleftrightarrow> (\<exists>v. r = Inr v \<and> f v = Inr x)" "(if b then Inr (shim_Error m) else q) = Inr x \<longleftrightarrow> \<not> b \<and> q = Inr x"
  using assms by (auto simp: or_error_def res_try_def split: sum.splits error.splits)

lemma escc_signs_success_only:
  assumes "escc_Invoke env args = Inr r" "rs_Status r = shim_OK"
  shows "\<exists>hdr payl ccid ccidBytes resp respBytes sim signer pr prBytes. args ! 1 = Some hdr \<and> args ! 2 = Some payl
    \<and> args ! 3 = Some ccidBytes \<and> es_UnmarshalChaincodeID env ccidBytes = Inr ccid
    \<and> args ! 4 = Some respBytes \<and> es_GetResponse env respBytes = Inr resp \<and> rs_Status resp < shim_ERRORTHRESHOLD
    \<and> args ! 5 = Some sim \<and> es_LocalMSP env = Some (Inr signer)
    \<and> es_CreateProposalResponse env hdr payl resp sim (if length args > 6 then str_of (args ! 6) else []) ccid
        (if length args > 7 then args ! 7 else None) signer = Inr pr
    \<and> es_GetBytesProposalResponse env pr = Inr prBytes \<and> r = shim_Success (Some prBytes)"
  using assms(1) unfolding escc_Invoke_def Let_def
  by (simp only: or_error_success [OF assms(2)] need_Inr_conv res_try_Inr_conv not_le
      sum.inject sum.distinct simp_thms ex_simps) blast

text \<open>A proposal to the lifecycle chaincode that names a function and nothing else stops the peer.\<close>

lemma missing_argument_panics:
  assumes "ee_GetChaincodeInvocationSpec ee prop = Inr cis" "cis_ChaincodeSpec cis = Some spec" "cs_Input spec = Some inp"
    and "cc_Name cid = ''lscc''" "in_Args inp = [f]" "f \<in> {''install'', ''deploy'', ''upgrade''}"
  shows "\<exists>p. simulateProposal ee chain txid sp prop cid s = (Inl (Panic p), s)"
proof -
  have "\<exists>p. disableJavaCCInst ee cid cis = Inl (Panic p)"
    using assms by (auto simp: disableJavaCCInst_def index_at_def Let_def)
  then show ?thesis using assms(1) by (auto simp: simulateProposal_def)
qed

end
