(* ===== verification/Fsm.thy ===== *)
theory Fsm
  imports Lscc
begin

text \<open>
  The state machine library the two ends of a chaincode stream run on. The Go library is not part of the
  sources; the definitions follow the port of it in
  \<^verbatim>\<open>core/chaincode/shim/java/src/main/java/org/hyperledger/fabric/shim/fsm/FSM.java\<close>, the other end of a stream to
  a Java chaincode. An event looks up its transition, runs the callback before the event, which may
  cancel it, and then either moves to another state, running the callbacks for entering it and after
  the event, or stays, running the latter alone and reporting \<^verbatim>\<open>NoTransition\<close>.

  Results: an event never takes the machine off its table (\<open>fsm_Event_state\<close>), and one without a
  transition changes nothing (\<open>fsm_Event_refused\<close>).
\<close>

datatype fsm_error = InvalidEvent | UnknownEvent | NoTransition | Canceled error

record ('ev, 'st, 's) fsm =
  f_current :: "'s \<Rightarrow> 'st"
  f_set :: "'st \<Rightarrow> 's \<Rightarrow> 's"
  f_transitions :: "(('ev \<times> 'st) \<times> 'st) list"
  f_before :: "'ev \<Rightarrow> ('s, error option) lsm"
  f_enter :: "'st \<Rightarrow> ('s, unit) lsm"
  f_after :: "'ev \<Rightarrow> ('s, unit) lsm"

definition fsm_dst :: "('ev, 'st, 's) fsm \<Rightarrow> 'ev \<Rightarrow> 's \<Rightarrow> 'st option" where
  "fsm_dst m ev s = map_of (f_transitions m) (ev, f_current m s)"

definition fsm_Cannot :: "('ev, 'st, 's) fsm \<Rightarrow> 'ev \<Rightarrow> 's \<Rightarrow> bool" where
  "fsm_Cannot m ev s = (fsm_dst m ev s = None)"

definition fsm_transition :: "('ev, 'st, 's) fsm \<Rightarrow> 'ev \<Rightarrow> 'st \<Rightarrow> ('s, fsm_error option) lsm" where
  "fsm_transition m ev dst s =
     (if f_current m s = dst then lsm_bind (f_after m ev) (\<lambda>_. ret (Some NoTransition)) s
      else lsm_bind (f_enter m dst) (\<lambda>_. lsm_bind (f_after m ev) (\<lambda>_. ret None)) (f_set m dst s))"

definition fsm_Event :: "('ev, 'st, 's) fsm \<Rightarrow> 'ev \<Rightarrow> ('s, fsm_error option) lsm" where
  "fsm_Event m ev s =
     (case fsm_dst m ev s of
        None \<Rightarrow> (Inr (Some (if ev \<in> (fst \<circ> fst) ` set (f_transitions m) then InvalidEvent else UnknownEvent)), s)
      | Some dst \<Rightarrow>
          lsm_bind (f_before m ev) (\<lambda>cancelled.
            case cancelled of Some e \<Rightarrow> ret (Some (Canceled e)) | None \<Rightarrow> fsm_transition m ev dst) s)"

lemma fsm_Event_refused:
  assumes "fsm_Cannot m ev s"
  shows "\<exists>e. fsm_Event m ev s = (Inr (Some e), s)"
  using assms by (simp add: fsm_Cannot_def fsm_Event_def)

text \<open>The callbacks leave the state of the machine alone.\<close>

definition keeps_current :: "('s \<Rightarrow> 'st) \<Rightarrow> ('s, 'a) lsm \<Rightarrow> bool" where
  "keeps_current cur m \<longleftrightarrow> (\<forall>s r s'. m s = (r, s') \<longrightarrow> cur s' = cur s)"

lemma keeps_currentD: "keeps_current cur m \<Longrightarrow> m s = (r, s') \<Longrightarrow> cur s' = cur s"
  by (simp add: keeps_current_def)

lemma fsm_Event_state:
  assumes "\<And>ev. keeps_current (f_current m) (f_before m ev)" "\<And>st. keeps_current (f_current m) (f_enter m st)"
    and "\<And>ev. keeps_current (f_current m) (f_after m ev)" "\<And>st s. f_current m (f_set m st s) = st"
    and "fsm_Event m ev s = (r, s')"
  shows "f_current m s' = f_current m s \<or> Some (f_current m s') = fsm_dst m ev s"
proof -
  have trans: "f_current m s2 = f_current m s1 \<or> f_current m s2 = dst" if "fsm_transition m ev dst s1 = (r, s2)" for s1 s2 dst
    using that assms(2,3)[THEN keeps_currentD] assms(4)
    by (auto simp: fsm_transition_def lsm_bind_def split: if_splits prod.splits sum.splits)
  show ?thesis
    using assms(5) assms(1)[THEN keeps_currentD]
    by (auto simp: fsm_Event_def lsm_bind_def split: option.splits prod.splits sum.splits dest!: trans)
qed

end
