(* ===== verification/CCHandler.thy ===== *)
theory CCHandler
  imports Execute Policy Fsm
begin

text \<open>
  \<^verbatim>\<open>core/chaincode/handler.go\<close>: the peer's end of the stream to a chaincode. A handler holds the state machine
  of the stream, the contexts of the transactions the chaincode is running, and the requests of the
  chaincode that are being served.

  The simulators, the history executors and the iterators a transaction opens are interfaces: a
  handle of each is a number, and the operations on them are functions of the environment \<open>h_env\<close>
  over a state \<open>'w\<close>. The goroutines that serve requests are values: \<open>h_tasks\<close> are those started,
  \<open>h_serving\<close> those that have entered their transaction, \<open>h_nextState\<close> the messages handed to
  the unbuffered channel of the same name. A channel is the list of its buffered values. A send to a
  full channel waits with the lock of the handler held: \<open>h_blocked\<close> is the message. \<open>tc_waiting\<close>
  tells whether the goroutine that runs the transaction is still going to receive.

  Results are in theory \<open>CCSupport\<close>.
\<close>

datatype handler_state = createdstate | establishedstate | readystate | endstate

record transactionContext =
  tc_chainID :: bytes
  tc_signedProp :: "SignedProposal option"
  tc_proposal :: "Proposal option"
  tc_responseNotifier :: "ChaincodeMessage list"
  tc_waiting :: bool
  tc_queryIteratorMap :: "(bytes, nat) gomap"
  tc_txsimulator :: "nat option"
  tc_historyQueryExecutor :: "nat option"

record nextStateInfo =
  ns_msg :: ChaincodeMessage
  ns_sendToCC :: bool
  ns_sendSync :: bool

record Handler =
  h_FSM :: handler_state
  h_ChaincodeID :: "ChaincodeID option"
  h_ccInstance :: "ChaincodeInstance option"
  h_registered :: bool
  h_readyNotify :: "bool list option"
  h_txCtxs :: "(bytes, transactionContext) gomap option"
  h_txidMap :: "(bytes, bool) gomap option"
  h_nextState :: "nextStateInfo list"
  h_sent :: "ChaincodeMessage list"
  h_tasks :: "ChaincodeMessage list"
  h_serving :: "ChaincodeMessage list"
  h_blocked :: "ChaincodeMessage option"
  h_ended :: bool

record QueryResponse =
  qr_Results :: "bytes list"
  qr_HasMore :: bool
  qr_Id :: bytes

record ('w, 'q) h_env =
  he_userRunsCC :: bool
  he_Send :: "ChaincodeMessage list \<Rightarrow> ChaincodeMessage \<Rightarrow> unit res"
  he_pu :: proto_utils
  he_policyChecker :: policyChecker
  he_Writers :: bytes
  he_SysCCVersion :: bytes
  he_GenerateUUID :: "'w \<Rightarrow> bytes \<times> 'w"
  he_UnmarshalChaincodeID :: "bytes \<Rightarrow> ChaincodeID res"
  he_UnmarshalGetStateByRange :: "bytes \<Rightarrow> (bytes \<times> bytes) res"
  he_UnmarshalQueryStateNext :: "bytes \<Rightarrow> bytes res"
  he_UnmarshalQueryStateClose :: "bytes \<Rightarrow> bytes res"
  he_UnmarshalGetQueryResult :: "bytes \<Rightarrow> bytes res"
  he_UnmarshalGetHistoryForKey :: "bytes \<Rightarrow> bytes res"
  he_UnmarshalPutStateInfo :: "bytes \<Rightarrow> (bytes \<times> slice) res"
  he_UnmarshalChaincodeSpec :: "bytes \<Rightarrow> ChaincodeSpec res"
  he_MarshalQueryResponse :: "QueryResponse \<Rightarrow> bytes res"
  he_MarshalResult :: "'q \<Rightarrow> bytes res"
  he_MarshalMessage :: "ChaincodeMessage option \<Rightarrow> bytes res"
  he_MarshalInput :: "ChaincodeInput \<Rightarrow> bytes res"
  he_GetState :: "nat \<Rightarrow> bytes \<Rightarrow> bytes \<Rightarrow> ('w, slice) lsm"
  he_SetState :: "nat \<Rightarrow> bytes \<Rightarrow> bytes \<Rightarrow> slice \<Rightarrow> ('w, unit) lsm"
  he_DeleteState :: "nat \<Rightarrow> bytes \<Rightarrow> bytes \<Rightarrow> ('w, unit) lsm"
  he_GetStateRangeScanIterator :: "nat \<Rightarrow> bytes \<Rightarrow> bytes \<Rightarrow> bytes \<Rightarrow> ('w, nat) lsm"
  he_ExecuteQuery :: "nat \<Rightarrow> bytes \<Rightarrow> bytes \<Rightarrow> ('w, nat) lsm"
  he_GetHistoryForKey :: "nat \<Rightarrow> bytes \<Rightarrow> bytes \<Rightarrow> ('w, nat) lsm"
  he_Next :: "nat \<Rightarrow> ('w, 'q option) lsm"
  he_Close :: "nat \<Rightarrow> 'w \<Rightarrow> 'w"
  he_GetLedger :: "bytes \<Rightarrow> ('w, nat) lsm option"
  he_Done :: "nat \<Rightarrow> 'w \<Rightarrow> 'w"
  he_GetChaincodeDataFromLSCC :: "nat \<Rightarrow> nat option \<Rightarrow> bytes \<Rightarrow> SignedProposal option \<Rightarrow> Proposal option \<Rightarrow> bytes \<Rightarrow> bytes \<Rightarrow> ('w, ChaincodeData) lsm"
  he_CheckInsantiationPolicy :: "bytes \<Rightarrow> bytes \<Rightarrow> ChaincodeData \<Rightarrow> ('w, unit) lsm"
  he_Launch :: "nat \<Rightarrow> nat option \<Rightarrow> CCContext \<Rightarrow> exec_spec \<Rightarrow> ('w, ChaincodeInput) lsm"
  he_Execute :: "nat \<Rightarrow> nat option \<Rightarrow> CCContext \<Rightarrow> ChaincodeMessage \<Rightarrow> ('w, ChaincodeMessage option) lsm"

definition newHandler :: "bool list option \<Rightarrow> Handler" where
  "newHandler notfy = \<lparr>h_FSM = createdstate, h_ChaincodeID = None, h_ccInstance = None, h_registered = False, h_readyNotify = notfy,
     h_txCtxs = None, h_txidMap = None, h_nextState = [], h_sent = [], h_tasks = [], h_serving = [], h_blocked = None, h_ended = False\<rparr>"

section \<open>Names, contexts and entries\<close>

definition shorttxid :: "bytes \<Rightarrow> bytes" where
  "shorttxid txid = (if length txid < 8 then txid else take 8 txid)"

text \<open>The part of a name before the first occurrence of a character, and what follows it.\<close>

definition cut_at :: "char \<Rightarrow> bytes \<Rightarrow> bytes \<times> bytes" where
  "cut_at c b = (takeWhile (\<lambda>x. x \<noteq> c) b, drop 1 (dropWhile (\<lambda>x. x \<noteq> c) b))"

definition getChaincodeInstance :: "bytes \<Rightarrow> ChaincodeInstance" where
  "getChaincodeInstance ccName =
     (let (b, chain) = cut_at CHR ''/'' ccName; (name, version) = cut_at CHR '':'' b
      in \<lparr>ci_ChainID = chain, ci_ChaincodeName = name, ci_ChaincodeVersion = version\<rparr>)"

definition decomposeRegisteredName :: "ChaincodeID \<Rightarrow> Handler \<Rightarrow> Handler" where
  "decomposeRegisteredName cid h = h\<lparr>h_ccInstance := Some (getChaincodeInstance (cc_Name cid))\<rparr>"

definition getCCRootName :: "Handler \<Rightarrow> bytes res" where
  "getCCRootName h = res_bind (deref (h_ccInstance h)) (\<lambda>ci. Inr (ci_ChaincodeName ci))"

definition serialSend :: "('w, 'q) h_env \<Rightarrow> ChaincodeMessage \<Rightarrow> Handler \<Rightarrow> error option \<times> Handler" where
  "serialSend env msg h =
     (case he_Send env (h_sent h) msg of
        Inl e \<Rightarrow> (Some (Err (''['' @ shorttxid (cm_Txid msg) @ '']Error sending: '' @ err_msg e)), h)
      | Inr _ \<Rightarrow> (None, h\<lparr>h_sent := h_sent h @ [msg]\<rparr>))"

definition get_ctx :: "Handler \<Rightarrow> bytes \<Rightarrow> transactionContext option" where
  "get_ctx h txid = (case h_txCtxs h of None \<Rightarrow> None | Some m \<Rightarrow> gm_get m txid)"

definition set_ctx :: "bytes \<Rightarrow> transactionContext \<Rightarrow> Handler \<Rightarrow> Handler" where
  "set_ctx txid c h = h\<lparr>h_txCtxs := map_option (gm_put txid c) (h_txCtxs h)\<rparr>"

definition createTxContext ::
    "bytes \<Rightarrow> bytes \<Rightarrow> SignedProposal option \<Rightarrow> Proposal option \<Rightarrow> nat option \<Rightarrow> nat option \<Rightarrow> (Handler, unit) lsm" where
  "createTxContext chainID txid signedProp prop txsim hqe h =
     (if h_txCtxs h = None then (Inl (Err (''cannot create notifier for txid:'' @ txid)), h)
      else if get_ctx h txid \<noteq> None then (Inl (Err (''txid:'' @ txid @ '' exists'')), h)
      else (Inr (), set_ctx txid \<lparr>tc_chainID = chainID, tc_signedProp = signedProp, tc_proposal = prop, tc_responseNotifier = [], tc_waiting = True,
         tc_queryIteratorMap = [], tc_txsimulator = txsim, tc_historyQueryExecutor = hqe\<rparr> h))"

definition deleteTxContext :: "bytes \<Rightarrow> Handler \<Rightarrow> Handler" where
  "deleteTxContext txid h = h\<lparr>h_txCtxs := map_option (gm_del txid) (h_txCtxs h)\<rparr>"

definition upd_iterators :: "((bytes, nat) gomap \<Rightarrow> (bytes, nat) gomap) \<Rightarrow> bytes \<Rightarrow> Handler \<Rightarrow> Handler" where
  "upd_iterators f txid h =
     (case get_ctx h txid of None \<Rightarrow> h | Some c \<Rightarrow> set_ctx txid (c\<lparr>tc_queryIteratorMap := f (tc_queryIteratorMap c)\<rparr>) h)"

definition putQueryIterator :: "bytes \<Rightarrow> bytes \<Rightarrow> nat \<Rightarrow> Handler \<Rightarrow> Handler" where
  "putQueryIterator txid iterID iter = upd_iterators (gm_put iterID iter) txid"

definition getQueryIterator :: "transactionContext \<Rightarrow> bytes \<Rightarrow> nat option" where
  "getQueryIterator c iterID = gm_get (tc_queryIteratorMap c) iterID"

definition deleteQueryIterator :: "bytes \<Rightarrow> bytes \<Rightarrow> Handler \<Rightarrow> Handler" where
  "deleteQueryIterator txid iterID = upd_iterators (gm_del iterID) txid"

definition handler_checkACL :: "('w, 'q) h_env \<Rightarrow> SignedProposal option \<Rightarrow> ChaincodeInstance \<Rightarrow> unit res" where
  "handler_checkACL env signedProp ccIns =
     (if IsSysCCAndNotInvokableCC2CC (ci_ChaincodeName ccIns)
      then Inl (Err (''System chaincode '' @ ci_ChaincodeName ccIns @ '' cannot be invoked with a cc2cc invocation''))
      else if IsSysCC (ci_ChaincodeName ccIns) then Inr ()
      else if signedProp = None then Inl (Err ''Signed Proposal must not be nil from caller'')
      else CheckPolicy (he_pu env) (he_policyChecker env) (ci_ChainID ccIns) (he_Writers env) signedProp)"

definition triggerNextState :: "ChaincodeMessage \<Rightarrow> bool \<Rightarrow> Handler \<Rightarrow> Handler" where
  "triggerNextState msg send h = h\<lparr>h_nextState := h_nextState h @ [\<lparr>ns_msg = msg, ns_sendToCC = send, ns_sendSync = False\<rparr>]\<rparr>"

definition triggerNextStateSync :: "ChaincodeMessage \<Rightarrow> Handler \<Rightarrow> Handler" where
  "triggerNextStateSync msg h = h\<lparr>h_nextState := h_nextState h @ [\<lparr>ns_msg = msg, ns_sendToCC = True, ns_sendSync = True\<rparr>]\<rparr>"

text \<open>At most one request of a transaction is served at a time.\<close>

definition createTXIDEntry :: "bytes \<Rightarrow> Handler \<Rightarrow> bool \<times> Handler" where
  "createTXIDEntry txid h =
     (case h_txidMap h of
        None \<Rightarrow> (False, h)
      | Some m \<Rightarrow> if gm_get m txid = Some True then (False, h) else (True, h\<lparr>h_txidMap := Some (gm_put txid True m)\<rparr>))"

definition deleteTXIDEntry :: "bytes \<Rightarrow> Handler \<Rightarrow> Handler" where
  "deleteTXIDEntry txid h = h\<lparr>h_txidMap := map_option (gm_del txid) (h_txidMap h)\<rparr>"

text \<open>The channel of the launching goroutine has room for one value.\<close>

definition notifyDuringStartup :: "('w, 'q) h_env \<Rightarrow> bool \<Rightarrow> Handler \<Rightarrow> Handler" where
  "notifyDuringStartup env val h =
     (case h_readyNotify h of
        Some q \<Rightarrow> h\<lparr>h_readyNotify := Some (q @ [val])\<rparr>
      | None \<Rightarrow>
          if he_userRunsCC env \<and> val
          then triggerNextState \<lparr>cm_Type = MSG_READY, cm_Payload = None, cm_Txid = [], cm_Proposal = None, cm_ChaincodeEvent = None\<rparr> True h
          else h)"

section \<open>Serving requests\<close>

type_synonym 'w hstate = "Handler \<times> 'w"

definition error_msg :: "bytes \<Rightarrow> bytes \<Rightarrow> ChaincodeMessage" where
  "error_msg payload txid = \<lparr>cm_Type = MSG_ERROR, cm_Payload = Some payload, cm_Txid = txid, cm_Proposal = None, cm_ChaincodeEvent = None\<rparr>"

definition response_msg :: "slice \<Rightarrow> bytes \<Rightarrow> ChaincodeMessage" where
  "response_msg payload txid = \<lparr>cm_Type = MSG_RESPONSE, cm_Payload = payload, cm_Txid = txid, cm_Proposal = None, cm_ChaincodeEvent = None\<rparr>"

text \<open>An operation on the ledger, and the answer to a failed one.\<close>

definition on_ledger :: "('w, 'a) lsm \<Rightarrow> ('w hstate, 'a) lsm" where
  "on_ledger m s = (case m (snd s) of (r, w) \<Rightarrow> (r, fst s, w))"

definition on_handler :: "(Handler \<Rightarrow> Handler) \<Rightarrow> ('w hstate, unit) lsm" where
  "on_handler f s = (Inr (), f (fst s), snd s)"

definition or_answer :: "bytes \<Rightarrow> ('s, 'a) lsm \<Rightarrow> ('a \<Rightarrow> ('s, ChaincodeMessage) lsm) \<Rightarrow> ('s, ChaincodeMessage) lsm" where
  "or_answer txid m f = lsm_try m (\<lambda>e. ret (error_msg (err_msg e) txid)) f"

text \<open>The context of a transaction with a simulator, or the error that is sent back.\<close>

definition isValidTxSim :: "bytes \<Rightarrow> bytes \<Rightarrow> Handler \<Rightarrow> ChaincodeMessage + transactionContext \<times> nat" where
  "isValidTxSim what txid h =
     (case get_ctx h txid of
        Some c \<Rightarrow> (case tc_txsimulator c of Some sim \<Rightarrow> Inr (c, sim)
          | None \<Rightarrow> Inl (error_msg (''['' @ shorttxid txid @ '']No ledger context for '' @ what @ ''. Sending ERROR'') txid))
      | None \<Rightarrow> Inl (error_msg (''['' @ shorttxid txid @ '']No ledger context for '' @ what @ ''. Sending ERROR'') txid))"

definition with_sim ::
    "bytes \<Rightarrow> bytes \<Rightarrow> (transactionContext \<Rightarrow> nat \<Rightarrow> bytes \<Rightarrow> ('w hstate, ChaincodeMessage) lsm) \<Rightarrow> ('w hstate, ChaincodeMessage) lsm" where
  "with_sim what txid f s =
     (case isValidTxSim what txid (fst s) of
        Inl msg \<Rightarrow> (Inr msg, s)
      | Inr (c, sim) \<Rightarrow> lsm_bind (lift_res (getCCRootName (fst s))) (\<lambda>chaincodeID. f c sim chaincodeID) s)"

definition handleGetState :: "('w, 'q) h_env \<Rightarrow> ChaincodeMessage \<Rightarrow> ('w hstate, ChaincodeMessage) lsm" where
  "handleGetState env msg =
     (let txid = cm_Txid msg in
      with_sim ''GetState'' txid (\<lambda>c sim chaincodeID.
        or_answer txid (on_ledger (he_GetState env sim chaincodeID (str_of (cm_Payload msg)))) (\<lambda>res.
          ret (response_msg res txid))))"

definition maxResultLimit :: nat where
  "maxResultLimit = 100"

text \<open>The loop that fills a page; it tells whether the iterator may have more.\<close>

fun query_loop :: "('w, 'q) h_env \<Rightarrow> nat \<Rightarrow> nat \<Rightarrow> bytes list \<Rightarrow> ('w, bytes list \<times> bool) lsm" where
  "query_loop env iter 0 acc w = (Inr (acc, True), w)"
| "query_loop env iter (Suc n) acc w =
     (case he_Next env iter w of
        (Inl e, w') \<Rightarrow> (Inl e, w')
      | (Inr None, w') \<Rightarrow> (Inr (acc, False), w')
      | (Inr (Some queryResult), w') \<Rightarrow>
          (case he_MarshalResult env queryResult of
             Inl e \<Rightarrow> (Inl e, w')
           | Inr b \<Rightarrow> query_loop env iter n (acc @ [b]) w'))"

definition closeIterator :: "('w, 'q) h_env \<Rightarrow> bytes \<Rightarrow> bytes \<Rightarrow> nat \<Rightarrow> 'w hstate \<Rightarrow> 'w hstate" where
  "closeIterator env txid iterID iter s = (deleteQueryIterator txid iterID (fst s), he_Close env iter (snd s))"

definition getQueryResponse :: "('w, 'q) h_env \<Rightarrow> bytes \<Rightarrow> nat \<Rightarrow> bytes \<Rightarrow> ('w hstate, QueryResponse) lsm" where
  "getQueryResponse env txid iter iterID s =
     (case on_ledger (query_loop env iter maxResultLimit []) s of
        (Inl (Err e), s) \<Rightarrow> (Inl (Err e), closeIterator env txid iterID iter s)
      | (Inl p, s) \<Rightarrow> (Inl p, s)
      | (Inr (results, hasMore), s) \<Rightarrow>
          (Inr \<lparr>qr_Results = results, qr_HasMore = hasMore, qr_Id = iterID\<rparr>,
           if hasMore then s else closeIterator env txid iterID iter s))"

text \<open>A page of an iterator as an answer; on an error the iterator is closed and forgotten.\<close>

definition answer_page :: "('w, 'q) h_env \<Rightarrow> bytes \<Rightarrow> nat \<Rightarrow> bytes \<Rightarrow> ('w hstate, ChaincodeMessage) lsm" where
  "answer_page env txid iter iterID =
     lsm_try (lsm_bind (getQueryResponse env txid iter iterID) (\<lambda>payload. lift_res (he_MarshalQueryResponse env payload)))
       (\<lambda>e s. (Inr (error_msg (err_msg e) txid), closeIterator env txid iterID iter s))
       (\<lambda>payloadBytes. ret (response_msg (Some payloadBytes) txid))"

definition generateUUID :: "('w, 'q) h_env \<Rightarrow> ('w hstate, bytes) lsm" where
  "generateUUID env s = (case he_GenerateUUID env (snd s) of (u, w) \<Rightarrow> (Inr u, fst s, w))"

text \<open>An iterator that has been opened is entered under a new identifier, and its first page sent.\<close>

definition first_page :: "('w, 'q) h_env \<Rightarrow> bytes \<Rightarrow> bytes \<Rightarrow> ('w, nat) lsm \<Rightarrow> ('w hstate, ChaincodeMessage) lsm" where
  "first_page env txid iterID opened =
     or_answer txid (on_ledger opened) (\<lambda>iter.
     lsm_bind (on_handler (putQueryIterator txid iterID iter)) (\<lambda>_.
       answer_page env txid iter iterID))"

definition handleGetStateByRange :: "('w, 'q) h_env \<Rightarrow> ChaincodeMessage \<Rightarrow> ('w hstate, ChaincodeMessage) lsm" where
  "handleGetStateByRange env msg =
     (let txid = cm_Txid msg in
      or_answer txid (lift_res (he_UnmarshalGetStateByRange env (str_of (cm_Payload msg)))) (\<lambda>(startKey, endKey).
      lsm_bind (generateUUID env) (\<lambda>iterID.
      with_sim ''GetStateByRange'' txid (\<lambda>c sim chaincodeID.
        first_page env txid iterID (he_GetStateRangeScanIterator env sim chaincodeID startKey endKey)))))"

definition handleGetQueryResult :: "('w, 'q) h_env \<Rightarrow> ChaincodeMessage \<Rightarrow> ('w hstate, ChaincodeMessage) lsm" where
  "handleGetQueryResult env msg =
     (let txid = cm_Txid msg in
      or_answer txid (lift_res (he_UnmarshalGetQueryResult env (str_of (cm_Payload msg)))) (\<lambda>query.
      lsm_bind (generateUUID env) (\<lambda>iterID.
      with_sim ''GetQueryResult'' txid (\<lambda>c sim chaincodeID.
        first_page env txid iterID (he_ExecuteQuery env sim chaincodeID query)))))"

definition handleGetHistoryForKey :: "('w, 'q) h_env \<Rightarrow> ChaincodeMessage \<Rightarrow> ('w hstate, ChaincodeMessage) lsm" where
  "handleGetHistoryForKey env msg =
     (let txid = cm_Txid msg in
      or_answer txid (lift_res (he_UnmarshalGetHistoryForKey env (str_of (cm_Payload msg)))) (\<lambda>key.
      lsm_bind (generateUUID env) (\<lambda>iterID.
      with_sim ''GetHistoryForKey'' txid (\<lambda>c sim chaincodeID.
      lsm_bind (lift_res (deref (tc_historyQueryExecutor c))) (\<lambda>hqe.
        first_page env txid iterID (he_GetHistoryForKey env hqe chaincodeID key))))))"

definition with_ctx :: "bytes \<Rightarrow> (transactionContext \<Rightarrow> ('w hstate, ChaincodeMessage) lsm) \<Rightarrow> ('w hstate, ChaincodeMessage) lsm" where
  "with_ctx txid f s =
     (case get_ctx (fst s) txid of
        None \<Rightarrow> (Inr (error_msg ''transaction context not found (timed out ?)'' txid), s)
      | Some c \<Rightarrow> f c s)"

definition handleQueryStateNext :: "('w, 'q) h_env \<Rightarrow> ChaincodeMessage \<Rightarrow> ('w hstate, ChaincodeMessage) lsm" where
  "handleQueryStateNext env msg =
     (let txid = cm_Txid msg in
      or_answer txid (lift_res (he_UnmarshalQueryStateNext env (str_of (cm_Payload msg)))) (\<lambda>iterID.
      with_ctx txid (\<lambda>c.
        case getQueryIterator c iterID of
          None \<Rightarrow> ret (error_msg ''query iterator not found'' txid)
        | Some iter \<Rightarrow> answer_page env txid iter iterID)))"

definition handleQueryStateClose :: "('w, 'q) h_env \<Rightarrow> ChaincodeMessage \<Rightarrow> ('w hstate, ChaincodeMessage) lsm" where
  "handleQueryStateClose env msg =
     (let txid = cm_Txid msg in
      or_answer txid (lift_res (he_UnmarshalQueryStateClose env (str_of (cm_Payload msg)))) (\<lambda>iterID.
      with_ctx txid (\<lambda>c.
      lsm_bind (\<lambda>s. (Inr (), case getQueryIterator c iterID of None \<Rightarrow> s | Some iter \<Rightarrow> closeIterator env txid iterID iter s)) (\<lambda>_.
      or_answer txid (lift_res (he_MarshalQueryResponse env \<lparr>qr_Results = [], qr_HasMore = False, qr_Id = iterID\<rparr>)) (\<lambda>payloadBytes.
        ret (response_msg (Some payloadBytes) txid))))))"

section \<open>Writes and calls of other chaincodes\<close>

text \<open>
  A call runs on the simulator of the caller, or on a new one if it names another channel, which is
  closed when the call returns. The error of the execution is assigned to a variable of the inner
  block that hides the one tested at the end: it is lost.
\<close>

definition call_simulator :: "('w, 'q) h_env \<Rightarrow> transactionContext \<Rightarrow> nat \<Rightarrow> bytes \<Rightarrow> ('w, nat) lsm" where
  "call_simulator env c sim chainID =
     (if chainID = tc_chainID c then ret sim
      else (case he_GetLedger env chainID of
              None \<Rightarrow> fail (Err (''Failed to find ledger for called channel '' @ chainID))
            | Some newTxSimulator \<Rightarrow> newTxSimulator))"

definition called_data ::
    "('w, 'q) h_env \<Rightarrow> transactionContext \<Rightarrow> nat \<Rightarrow> bytes \<Rightarrow> ChaincodeInstance \<Rightarrow> ('w, bytes) lsm" where
  "called_data env c txsim txid called =
     (if IsSysCC (ci_ChaincodeName called) then ret (he_SysCCVersion env)
      else
        lsm_bind (he_GetChaincodeDataFromLSCC env txsim (tc_historyQueryExecutor c) txid (tc_signedProp c) (tc_proposal c)
            (ci_ChainID called) (ci_ChaincodeName called)) (\<lambda>cd.
        lsm_bind (he_CheckInsantiationPolicy env (ci_ChaincodeName called) (cd_Version cd) cd) (\<lambda>_.
          ret (cd_Version cd))))"

definition run_called ::
    "('w, 'q) h_env \<Rightarrow> transactionContext \<Rightarrow> nat \<Rightarrow> bytes \<Rightarrow> ChaincodeInstance \<Rightarrow> ChaincodeSpec \<Rightarrow> ('w, slice) lsm" where
  "run_called env c txsim txid called spec =
     lsm_bind (called_data env c txsim txid called) (\<lambda>version.
     lsm_bind (lift_res (NewCCContext (ci_ChainID called) (ci_ChaincodeName called) version txid False (tc_signedProp c) (tc_proposal c))) (\<lambda>cccid.
     lsm_bind (he_Launch env txsim (tc_historyQueryExecutor c) cccid (InvocationSpec \<lparr>cis_ChaincodeSpec = Some spec\<rparr>)) (\<lambda>chaincodeInput.
     lsm_bind (lift_res (case he_MarshalInput env chaincodeInput of Inl _ \<Rightarrow> Inl (Panic ''nil pointer dereference'') | Inr b \<Rightarrow> Inr b)) (\<lambda>payload.
     lsm_try (he_Execute env txsim (tc_historyQueryExecutor c) cccid
         \<lparr>cm_Type = MSG_TRANSACTION, cm_Payload = Some payload, cm_Txid = txid, cm_Proposal = None, cm_ChaincodeEvent = None\<rparr>)
       (\<lambda>execErr. ret None)
       (\<lambda>response. lift_res (Inr (case he_MarshalMessage env response of Inl _ \<Rightarrow> None | Inr b \<Rightarrow> Some b)))))))"

definition invoke_called :: "('w, 'q) h_env \<Rightarrow> bytes \<Rightarrow> transactionContext \<Rightarrow> nat \<Rightarrow> ChaincodeSpec \<Rightarrow> ('w, slice) lsm" where
  "invoke_called env txid c sim spec =
     lsm_bind (lift_res (deref (cs_ChaincodeId spec))) (\<lambda>cid.
     let called = getChaincodeInstance (cc_Name cid);
         called = (if ci_ChainID called = [] then called\<lparr>ci_ChainID := tc_chainID c\<rparr> else called);
         spec = spec\<lparr>cs_ChaincodeId := Some (cid\<lparr>cc_Name := ci_ChaincodeName called\<rparr>)\<rparr> in
     lsm_bind (lift_res (handler_checkACL env (tc_signedProp c) called)) (\<lambda>_.
     lsm_bind (call_simulator env c sim (ci_ChainID called)) (\<lambda>txsim.
       \<lambda>w. case run_called env c txsim txid called spec w of
             (r, w') \<Rightarrow> (r, if ci_ChainID called = tc_chainID c then w' else he_Done env txsim w'))))"

definition enterBusyState :: "('w, 'q) h_env \<Rightarrow> ChaincodeMessage \<Rightarrow> ('w hstate, ChaincodeMessage) lsm" where
  "enterBusyState env msg =
     (let txid = cm_Txid msg; payload = str_of (cm_Payload msg) in
      with_sim (if cm_Type msg = MSG_PUT_STATE then ''PUT_STATE'' else if cm_Type msg = MSG_DEL_STATE then ''DEL_STATE'' else ''INVOKE_CHAINCODE'') txid (\<lambda>c sim chaincodeID.
        if cm_Type msg = MSG_PUT_STATE then
          or_answer txid (lift_res (he_UnmarshalPutStateInfo env payload)) (\<lambda>(key, value).
          or_answer txid (on_ledger (he_SetState env sim chaincodeID key value)) (\<lambda>_. ret (response_msg None txid)))
        else if cm_Type msg = MSG_DEL_STATE then
          or_answer txid (on_ledger (he_DeleteState env sim chaincodeID payload)) (\<lambda>_. ret (response_msg None txid))
        else if cm_Type msg = MSG_INVOKE_CHAINCODE then
          or_answer txid (lift_res (he_UnmarshalChaincodeSpec env payload)) (\<lambda>spec.
          or_answer txid (on_ledger (invoke_called env txid c sim spec)) (\<lambda>res. ret (response_msg res txid)))
        else ret (response_msg None txid)))"

section \<open>The stream\<close>

text \<open>The handlers of the peer, the table of the chaincodes that are running or being launched, and the ledgers.\<close>

record 'w world =
  w_handlers :: "Handler list"
  w_chaincodeMap :: "(bytes, nat) gomap"
  w_ledger :: 'w

definition the_handler :: "nat \<Rightarrow> 'w world \<Rightarrow> Handler" where
  "the_handler i w = w_handlers w ! i"

definition set_handler :: "nat \<Rightarrow> Handler \<Rightarrow> 'w world \<Rightarrow> 'w world" where
  "set_handler i h w = w\<lparr>w_handlers := (w_handlers w)[i := h]\<rparr>"

definition upd_handler :: "nat \<Rightarrow> (Handler \<Rightarrow> Handler) \<Rightarrow> 'w world \<Rightarrow> 'w world" where
  "upd_handler i f w = set_handler i (f (the_handler i w)) w"

definition at_handler :: "nat \<Rightarrow> ('w hstate, 'a) lsm \<Rightarrow> ('w world, 'a) lsm" where
  "at_handler i m w = (case m (the_handler i w, w_ledger w) of (r, h, l) \<Rightarrow> (r, (set_handler i h w)\<lparr>w_ledger := l\<rparr>))"

text \<open>
  Delivering a message to the goroutine that waits for its transaction. The channel has room for one
  message; a second one waits, and with it whoever needs the lock.
\<close>

definition close_all :: "('w, 'q) h_env \<Rightarrow> (bytes, nat) gomap \<Rightarrow> 'w \<Rightarrow> 'w" where
  "close_all env m w = foldl (\<lambda>w (_, iter). he_Close env iter w) w m"

definition deliver :: "('w, 'q) h_env \<Rightarrow> ChaincodeMessage \<Rightarrow> transactionContext \<Rightarrow> 'w hstate \<Rightarrow> 'w hstate" where
  "deliver env msg c s =
     (set_ctx (cm_Txid msg) (c\<lparr>tc_responseNotifier := tc_responseNotifier c @ [msg]\<rparr>) (fst s),
      close_all env (tc_queryIteratorMap c) (snd s))"

definition notify :: "('w, 'q) h_env \<Rightarrow> ChaincodeMessage \<Rightarrow> 'w hstate \<Rightarrow> 'w hstate" where
  "notify env msg s =
     (case get_ctx (fst s) (cm_Txid msg) of
        None \<Rightarrow> s
      | Some c \<Rightarrow>
          if tc_responseNotifier c = [] then deliver env msg c s
          else ((fst s)\<lparr>h_blocked := Some msg\<rparr>, snd s))"

text \<open>\<^verbatim>\<open>registerHandler\<close> of \<^verbatim>\<open>chaincode_support.go\<close>: a placeholder of a launch is replaced by the handler of the stream.\<close>

definition mark_registered :: "bool list option \<Rightarrow> Handler \<Rightarrow> Handler" where
  "mark_registered notfy h = h\<lparr>h_readyNotify := notfy, h_registered := True, h_txCtxs := Some [], h_txidMap := Some []\<rparr>"

definition registerHandler :: "('w, 'q) h_env \<Rightarrow> nat \<Rightarrow> ChaincodeID \<Rightarrow> ('w world, unit) lsm" where
  "registerHandler env i cid w =
     (let key = cc_Name cid in
      case gm_get (w_chaincodeMap w) key of
        Some j \<Rightarrow>
          if h_registered (the_handler j w) then (Inl (Err (''Duplicate chaincodeID error: '' @ key)), w)
          else (Inr (), upd_handler i (mark_registered (h_readyNotify (the_handler j w)))
                  (w\<lparr>w_chaincodeMap := gm_put key i (w_chaincodeMap w)\<rparr>))
      | None \<Rightarrow>
          if \<not> he_userRunsCC env then (Inl (Err ''peer will not accepting external chaincode connection (except in dev mode)''), w)
          else (Inr (), upd_handler i (\<lambda>h. mark_registered (h_readyNotify h) h) (w\<lparr>w_chaincodeMap := gm_put key i (w_chaincodeMap w)\<rparr>)))"

definition beforeRegisterEvent :: "('w, 'q) h_env \<Rightarrow> nat \<Rightarrow> ChaincodeMessage \<Rightarrow> ('w world, error option) lsm" where
  "beforeRegisterEvent env i msg =
     lsm_try (lift_res (he_UnmarshalChaincodeID env (str_of (cm_Payload msg))))
       (\<lambda>e. ret (Some (Err (''Error in received REGISTER, could NOT unmarshal registration info: '' @ err_msg e)))) (\<lambda>cid.
     \<lambda>w. lsm_try (registerHandler env i cid)
       (\<lambda>e w. (Inr (Some e), upd_handler i (notifyDuringStartup env False) w))
       (\<lambda>_ w. case serialSend env \<lparr>cm_Type = MSG_REGISTERED, cm_Payload = None, cm_Txid = [], cm_Proposal = None, cm_ChaincodeEvent = None\<rparr>
                    (decomposeRegisteredName cid (the_handler i w)) of
                (Some e, h) \<Rightarrow> (Inr (Some (Err (''Error sending REGISTERED: '' @ err_msg e))), set_handler i (notifyDuringStartup env False h) w)
              | (None, h) \<Rightarrow> (Inr None, set_handler i h w))
       (upd_handler i (\<lambda>h. h\<lparr>h_ChaincodeID := Some cid\<rparr>) w))"

definition request_types :: "MessageType list" where
  "request_types = [MSG_GET_STATE, MSG_GET_STATE_BY_RANGE, MSG_GET_QUERY_RESULT, MSG_GET_HISTORY_FOR_KEY, MSG_QUERY_STATE_NEXT,
     MSG_QUERY_STATE_CLOSE, MSG_PUT_STATE, MSG_DEL_STATE, MSG_INVOKE_CHAINCODE]"

text \<open>The machine of the handler; the goroutine that serves a request is started after its event.\<close>

definition handler_fsm :: "('w, 'q) h_env \<Rightarrow> nat \<Rightarrow> ChaincodeMessage \<Rightarrow> (MessageType, handler_state, 'w world) fsm" where
  "handler_fsm env i msg =
     \<lparr>f_current = (\<lambda>w. h_FSM (the_handler i w)),
      f_set = (\<lambda>st. upd_handler i (\<lambda>h. h\<lparr>h_FSM := st\<rparr>)),
      f_transitions = [((MSG_REGISTER, createdstate), establishedstate), ((MSG_READY, establishedstate), readystate)]
        @ map (\<lambda>t. ((t, readystate), readystate))
            [MSG_PUT_STATE, MSG_DEL_STATE, MSG_INVOKE_CHAINCODE, MSG_COMPLETED, MSG_GET_STATE, MSG_GET_STATE_BY_RANGE,
             MSG_GET_QUERY_RESULT, MSG_GET_HISTORY_FOR_KEY, MSG_QUERY_STATE_NEXT, MSG_QUERY_STATE_CLOSE, MSG_ERROR, MSG_RESPONSE,
             MSG_INIT, MSG_TRANSACTION],
      f_before = (\<lambda>t. if t = MSG_REGISTER then beforeRegisterEvent env i msg else ret None),
      f_enter = (\<lambda>st w. (Inr (),
        if st = establishedstate then upd_handler i (notifyDuringStartup env True) w
        else if st = readystate then snd (at_handler i (\<lambda>s. (Inr (), notify env msg s)) w)
        else w)),
      f_after = (\<lambda>t w. (Inr (), if t \<in> set request_types then upd_handler i (\<lambda>h. h\<lparr>h_tasks := h_tasks h @ [msg]\<rparr>) w else w))\<rparr>"

definition filterError :: "fsm_error option \<Rightarrow> error option" where
  "filterError e = (case e of Some (Canceled err) \<Rightarrow> Some err | _ \<Rightarrow> None)"

definition HandleMessage :: "('w, 'q) h_env \<Rightarrow> nat \<Rightarrow> ChaincodeMessage \<Rightarrow> ('w world, error option) lsm" where
  "HandleMessage env i msg w =
     (if (cm_Type msg = MSG_COMPLETED \<or> cm_Type msg = MSG_ERROR) \<and> h_FSM (the_handler i w) = readystate
      then (Inr None, snd (at_handler i (\<lambda>s. (Inr (), notify env msg s)) w))
      else if fsm_Cannot (handler_fsm env i msg) (cm_Type msg) w
      then (Inr (Some (Err (''['' @ cm_Txid msg @ '']Chaincode handler validator FSM cannot handle message''))), w)
      else lsm_bind (fsm_Event (handler_fsm env i msg) (cm_Type msg)) (\<lambda>e. ret (filterError e)) w)"

end
