(* ===== verification/CCSupport.thy ===== *)
theory CCSupport
  imports CCHandler CCPackage
begin

text \<open>
  \<^verbatim>\<open>core/chaincode/chaincode_support.go\<close> and the loop \<^verbatim>\<open>processStream\<close> of \<^verbatim>\<open>handler.go\<close>: launching, running and
  stopping chaincodes. Waiting for other goroutines is a function of the environment that takes the
  world to what it is when the wait is over. The step relation \<open>h_step\<close> lets the goroutines around
  one handler interleave.
\<close>

section \<open>The loop of the stream\<close>

text \<open>All iterators of all transactions are closed; the entry under the name goes, whoever it belongs to.\<close>

definition deregisterHandler :: "('w, 'q) h_env \<Rightarrow> nat \<Rightarrow> ('w world, unit) lsm" where
  "deregisterHandler env i w =
     (let h = the_handler i w;
          w = w\<lparr>w_ledger := foldl (\<lambda>l (_, c). close_all env (tc_queryIteratorMap c) l) (w_ledger w) (case h_txCtxs h of None \<Rightarrow> [] | Some m \<Rightarrow> m)\<rparr> in
      case h_ChaincodeID h of
        None \<Rightarrow> (Inl (Panic ''nil pointer dereference''), w)
      | Some cid \<Rightarrow>
          if gm_get (w_chaincodeMap w) (cc_Name cid) = None
          then (Inl (Err (''Error deregistering handler, could not find handler with key: '' @ cc_Name cid)), w)
          else (Inr (), w\<lparr>w_chaincodeMap := gm_del (cc_Name cid) (w_chaincodeMap w)\<rparr>))"

definition deregister :: "('w, 'q) h_env \<Rightarrow> nat \<Rightarrow> ('w world, unit) lsm" where
  "deregister env i w =
     (if h_registered (the_handler i w) then lsm_try (deregisterHandler env i) (\<lambda>_. ret ()) ret w else (Inr (), w))"

definition end_stream :: "('w, 'q) h_env \<Rightarrow> nat \<Rightarrow> ('w world, unit) lsm" where
  "end_stream env i = lsm_bind (deregister env i) (\<lambda>_ w. (Inr (), upd_handler i (\<lambda>h. h\<lparr>h_ended := True\<rparr>) w))"

text \<open>A message from the chaincode.\<close>

definition processStream_recv :: "('w, 'q) h_env \<Rightarrow> nat \<Rightarrow> ChaincodeMessage option \<Rightarrow> ('w world, unit) lsm" where
  "processStream_recv env i msg =
     (case msg of
        None \<Rightarrow> end_stream env i
      | Some m \<Rightarrow>
          if cm_Type m = MSG_KEEPALIVE then ret ()
          else lsm_bind (HandleMessage env i m) (\<lambda>err. if err \<noteq> None then end_stream env i else ret ()))"

definition remove_nth :: "nat \<Rightarrow> 'a list \<Rightarrow> 'a list" where
  "remove_nth k xs = take k xs @ drop (Suc k) xs"

text \<open>A message another goroutine of the peer has put into the channel \<^verbatim>\<open>nextState\<close>.\<close>

definition processStream_next :: "('w, 'q) h_env \<Rightarrow> nat \<Rightarrow> nat \<Rightarrow> ('w world, unit) lsm" where
  "processStream_next env i k w =
     (let info = h_nextState (the_handler i w) ! k; m = ns_msg info in
      lsm_bind (HandleMessage env i m) (\<lambda>err.
        if err \<noteq> None then end_stream env i
        else if \<not> ns_sendToCC info then ret ()
        else if ns_sendSync info \<and> cm_Type m \<noteq> MSG_READY then fail (Panic ''Sync send can only be for READY state'')
        else (\<lambda>w. case serialSend env m (the_handler i w) of
                    (Some _, h) \<Rightarrow> end_stream env i w
                  | (None, h) \<Rightarrow> (Inr (), set_handler i h w)))
        (upd_handler i (\<lambda>h. h\<lparr>h_nextState := remove_nth k (h_nextState h)\<rparr>) w))"

section \<open>The goroutines that serve requests\<close>

definition triggers :: "MessageType \<Rightarrow> bool" where
  "triggers t \<longleftrightarrow> t \<in> {MSG_PUT_STATE, MSG_DEL_STATE, MSG_INVOKE_CHAINCODE}"

definition serve :: "('w, 'q) h_env \<Rightarrow> ChaincodeMessage \<Rightarrow> ('w hstate, ChaincodeMessage) lsm" where
  "serve env msg =
     (case cm_Type msg of
        MSG_GET_STATE \<Rightarrow> handleGetState env msg
      | MSG_GET_STATE_BY_RANGE \<Rightarrow> handleGetStateByRange env msg
      | MSG_GET_QUERY_RESULT \<Rightarrow> handleGetQueryResult env msg
      | MSG_GET_HISTORY_FOR_KEY \<Rightarrow> handleGetHistoryForKey env msg
      | MSG_QUERY_STATE_NEXT \<Rightarrow> handleQueryStateNext env msg
      | MSG_QUERY_STATE_CLOSE \<Rightarrow> handleQueryStateClose env msg
      | _ \<Rightarrow> enterBusyState env msg)"

text \<open>A request for a transaction that has another one pending is dropped.\<close>

definition start_request :: "nat \<Rightarrow> Handler \<Rightarrow> Handler" where
  "start_request k h =
     (let msg = h_tasks h ! k; h = h\<lparr>h_tasks := remove_nth k (h_tasks h)\<rparr> in
      case createTXIDEntry (cm_Txid msg) h of
        (False, h) \<Rightarrow> h
      | (True, h) \<Rightarrow> h\<lparr>h_serving := h_serving h @ [msg]\<rparr>)"

text \<open>A write or a call is answered through the state machine, which also notifies of an error; the others directly.\<close>

definition answer_request :: "('w, 'q) h_env \<Rightarrow> ChaincodeMessage \<Rightarrow> ChaincodeMessage \<Rightarrow> Handler \<Rightarrow> Handler" where
  "answer_request env msg answer h =
     (let h = deleteTXIDEntry (cm_Txid msg) h in
      if triggers (cm_Type msg) then triggerNextState answer True h else snd (serialSend env answer h))"

definition finish_request :: "('w, 'q) h_env \<Rightarrow> nat \<Rightarrow> ('w hstate, unit) lsm" where
  "finish_request env k s =
     (let msg = h_serving (fst s) ! k in
      lsm_bind (serve env msg) (\<lambda>answer. on_handler (answer_request env msg answer))
        ((fst s)\<lparr>h_serving := remove_nth k (h_serving (fst s))\<rparr>, snd s))"

section \<open>Running a transaction\<close>

definition setChaincodeProposal :: "SignedProposal option \<Rightarrow> Proposal option \<Rightarrow> ChaincodeMessage \<Rightarrow> ChaincodeMessage res" where
  "setChaincodeProposal signedProp prop msg =
     (if prop = None then Inr msg
      else if signedProp = None then Inl (Err ''Failed getting proposal context. Signed proposal is nil.'')
      else Inr (msg\<lparr>cm_Proposal := signedProp\<rparr>))"

definition sendExecuteMessage ::
    "nat option \<Rightarrow> nat option \<Rightarrow> bytes \<Rightarrow> ChaincodeMessage \<Rightarrow> SignedProposal option \<Rightarrow> Proposal option \<Rightarrow> (Handler, unit) lsm" where
  "sendExecuteMessage txsim hqe chainID msg signedProp prop =
     lsm_bind (createTxContext chainID (cm_Txid msg) signedProp prop txsim hqe) (\<lambda>_.
     lsm_bind (lift_res (setChaincodeProposal signedProp prop msg)) (\<lambda>msg.
       \<lambda>h. (Inr (), triggerNextState msg True h)))"

definition ready_msg :: "bytes \<Rightarrow> ChaincodeMessage" where
  "ready_msg txid = \<lparr>cm_Type = MSG_READY, cm_Payload = None, cm_Txid = txid, cm_Proposal = None, cm_ChaincodeEvent = None\<rparr>"

definition ready ::
    "nat option \<Rightarrow> nat option \<Rightarrow> bytes \<Rightarrow> bytes \<Rightarrow> SignedProposal option \<Rightarrow> Proposal option \<Rightarrow> (Handler, unit) lsm" where
  "ready txsim hqe chainID txid signedProp prop =
     lsm_bind (createTxContext chainID txid signedProp prop txsim hqe) (\<lambda>_.
     lsm_bind (lift_res (setChaincodeProposal signedProp prop (ready_msg txid))) (\<lambda>ccMsg.
       \<lambda>h. (Inr (), triggerNextStateSync ccMsg h)))"

definition isRunning :: "Handler \<Rightarrow> bool" where
  "isRunning h = (case h_FSM h of createdstate \<Rightarrow> True | establishedstate \<Rightarrow> True | _ \<Rightarrow> True)"

text \<open>Receiving the answer; a message that waits for room in the channel moves up and releases the lock.\<close>

definition receive_response :: "('w, 'q) h_env \<Rightarrow> bytes \<Rightarrow> 'w hstate \<Rightarrow> ChaincodeMessage option \<times> 'w hstate" where
  "receive_response env txid s =
     (case get_ctx (fst s) txid of
        None \<Rightarrow> (None, s)
      | Some c \<Rightarrow>
          (case tc_responseNotifier c of
             [] \<Rightarrow> (None, s)
           | m # ms \<Rightarrow>
               let c = c\<lparr>tc_responseNotifier := ms, tc_waiting := False\<rparr>; h = set_ctx txid c (fst s) in
               (Some m,
                case h_blocked h of
                  Some b \<Rightarrow> if cm_Txid b = txid then deliver env b c (h\<lparr>h_blocked := None\<rparr>, snd s) else (h, snd s)
                | None \<Rightarrow> (h, snd s))))"

definition stop_waiting :: "bytes \<Rightarrow> Handler \<Rightarrow> Handler" where
  "stop_waiting txid h = (case get_ctx h txid of None \<Rightarrow> h | Some c \<Rightarrow> set_ctx txid (c\<lparr>tc_waiting := False\<rparr>) h)"

section \<open>Launching, stopping and executing\<close>

datatype cc_lang = CC_UNDEFINED | CC_GOLANG | CC_NODE | CC_CAR | CC_JAVA

record support_config =
  sc_userRunsCC :: bool
  sc_peerTLS :: bool
  sc_peerTLSSvrHostOrd :: bytes
  sc_chaincodeLogLevel :: bytes
  sc_shimLogLevel :: bytes
  sc_logFormat :: bytes
  sc_peerAddress :: bytes

text \<open>
  The containers, the package of a chaincode and the waits: \<open>se_WaitRegister\<close> for the channel of the
  launch (nothing after the timeout), \<open>se_Wait\<close> for the answer to a transaction.
\<close>

record 'w support_env =
  se_config :: support_config
  se_IsSystem :: "ChaincodeDeploymentSpec \<Rightarrow> bool"
  se_Lang :: "ChaincodeDeploymentSpec \<Rightarrow> cc_lang"
  se_StartImage :: "bytes \<Rightarrow> ChaincodeDeploymentSpec \<Rightarrow> bytes list \<Rightarrow> bytes list \<Rightarrow> ('w world \<Rightarrow> 'w world) \<Rightarrow> ('w world, unit) lsm"
  se_StopImage :: "bytes \<Rightarrow> ChaincodeDeploymentSpec \<Rightarrow> ('w world, unit) lsm"
  se_WaitRegister :: "nat \<Rightarrow> 'w world \<Rightarrow> bool option \<times> 'w world"
  se_Wait :: "nat \<Rightarrow> bytes \<Rightarrow> 'w world \<Rightarrow> ChaincodeMessage option \<times> 'w world"
  se_UnmarshalResponse :: "bytes \<Rightarrow> Response"
  se_UnmarshalDeploymentSpec :: "bytes \<Rightarrow> ChaincodeDeploymentSpec res"
  se_GetCDSFromLSCC :: "CCContext \<Rightarrow> bytes \<Rightarrow> ('w world, slice) lsm"
  se_GetChaincodeFromFS :: "bytes \<Rightarrow> bytes \<Rightarrow> CCPackage res"

text \<open>A value of the configuration that is not a positive number turns the keepalive off.\<close>

definition keepalive_of :: "bytes \<Rightarrow> int" where
  "keepalive_of ka = (if ka = [] then 0 else (let (t, err) = ParseInt ka in if err \<or> t \<le> 0 then 0 else t))"

definition getArgsAndEnv :: "support_config \<Rightarrow> bytes \<Rightarrow> cc_lang \<Rightarrow> (bytes list \<times> bytes list) res" where
  "getArgsAndEnv sc canName cLang =
     (let envs = [''CORE_CHAINCODE_ID_NAME='' @ canName]
            @ (if sc_peerTLS sc
               then ''CORE_PEER_TLS_ENABLED=true'' # (if sc_peerTLSSvrHostOrd sc \<noteq> [] then [''CORE_PEER_TLS_SERVERHOSTOVERRIDE='' @ sc_peerTLSSvrHostOrd sc] else [])
               else [''CORE_PEER_TLS_ENABLED=false''])
            @ (if sc_chaincodeLogLevel sc \<noteq> [] then [''CORE_CHAINCODE_LOGGING_LEVEL='' @ sc_chaincodeLogLevel sc] else [])
            @ (if sc_shimLogLevel sc \<noteq> [] then [''CORE_CHAINCODE_LOGGING_SHIM='' @ sc_shimLogLevel sc] else [])
            @ (if sc_logFormat sc \<noteq> [] then [''CORE_CHAINCODE_LOGGING_FORMAT='' @ sc_logFormat sc] else []) in
      if cLang = CC_GOLANG \<or> cLang = CC_CAR then Inr ([''chaincode'', ''-peer.address='' @ sc_peerAddress sc], envs)
      else if cLang = CC_JAVA
      then Inr ([''java'', ''-Dfile.encoding=utf-8'', ''-Duser.timezone=GMT+8'', ''-jar'', ''chaincode.jar'', ''--peerAddress'', sc_peerAddress sc], envs)
      else Inl (Err ''Unknown chaincodeType''))"

definition getVMType :: "'w support_env \<Rightarrow> ChaincodeDeploymentSpec \<Rightarrow> bytes" where
  "getVMType se cds = (if se_IsSystem se cds then ''System'' else ''Docker'')"

text \<open>The placeholder of a launch is a handler that is not registered, with the channel the launch waits on.\<close>

definition preLaunchSetup :: "bytes \<Rightarrow> 'w world \<Rightarrow> 'w world" where
  "preLaunchSetup chaincode w = w\<lparr>w_handlers := w_handlers w @ [newHandler (Some [])],
     w_chaincodeMap := gm_put chaincode (length (w_handlers w)) (w_chaincodeMap w)\<rparr>"

definition forget :: "bytes \<Rightarrow> ('w world, unit) lsm" where
  "forget canName w = (Inr (), w\<lparr>w_chaincodeMap := gm_del canName (w_chaincodeMap w)\<rparr>)"

definition support_Stop :: "'w support_env \<Rightarrow> CCContext \<Rightarrow> ChaincodeDeploymentSpec \<Rightarrow> ('w world, unit) lsm" where
  "support_Stop se cccid cds =
     lsm_bind (lift_res (GetCanonicalName cccid)) (\<lambda>canName.
     lsm_bind (lsm_try (se_StopImage se (getVMType se cds) cds) (\<lambda>e. ret (Some (Err (''Error stopping container: '' @ err_msg e)))) (\<lambda>_. ret None)) (\<lambda>err.
       \<lambda>w. if gm_get (w_chaincodeMap w) canName = None then (Inr (), w)
            else lsm_bind (forget canName) (\<lambda>_. case err of None \<Rightarrow> ret () | Some e \<Rightarrow> fail e) w))"

text \<open>\<open>after_error\<close> runs the clean-up that follows an error, whose own error is logged.\<close>

definition after_error :: "('s, unit) lsm \<Rightarrow> ('s, 'a) lsm \<Rightarrow> ('s, 'a) lsm" where
  "after_error cleanup m = lsm_try m (\<lambda>e. lsm_bind (lsm_try cleanup (\<lambda>_. ret ()) ret) (\<lambda>_. fail e)) ret"

definition launchAndWaitForRegister :: "'w support_env \<Rightarrow> CCContext \<Rightarrow> ChaincodeDeploymentSpec \<Rightarrow> cc_lang \<Rightarrow> ('w world, unit) lsm" where
  "launchAndWaitForRegister se cccid cds cLang w =
     lsm_bind (lift_res (GetCanonicalName cccid)) (\<lambda>canName.
       if gm_get (w_chaincodeMap w) canName \<noteq> None then fail (Err (''Error chaincode is being launched: '' @ canName))
       else
         lsm_bind (lift_res (getArgsAndEnv (se_config se) canName cLang)) (\<lambda>(args, env).
         lsm_bind (lsm_try (se_StartImage se (getVMType se cds) cds args env (preLaunchSetup canName))
             (\<lambda>e. lsm_bind (forget canName) (\<lambda>_. fail (Err (''Error starting container: '' @ err_msg e)))) ret) (\<lambda>_.
         after_error (support_Stop se cccid cds)
           (\<lambda>w'. case se_WaitRegister se (length (w_handlers w)) w' of
              (Some True, w') \<Rightarrow> (Inr (), w')
            | (Some False, w') \<Rightarrow> (Inl (Err (''registration failed for '' @ canName)), w')
            | (None, w') \<Rightarrow> (Inl (Err (''Timeout expired while starting chaincode '' @ canName)), w'))))) w"

definition with_handler :: "nat \<Rightarrow> (Handler, 'a) lsm \<Rightarrow> ('w world, 'a) lsm" where
  "with_handler i m w = (case m (the_handler i w) of (r, h) \<Rightarrow> (r, set_handler i h w))"

text \<open>What the answer to \<^verbatim>\<open>READY\<close> says of the initialisation.\<close>

definition ready_answer :: "'w support_env \<Rightarrow> bytes \<Rightarrow> ChaincodeMessage option \<Rightarrow> unit res" where
  "ready_answer se canName ccMsg =
     (case ccMsg of
        None \<Rightarrow> Inl (Err ''Timeout expired while executing send init message'')
      | Some m \<Rightarrow>
          if cm_Type m = MSG_ERROR then Inl (Err (''Error initializing container '' @ canName @ '': '' @ str_of (cm_Payload m)))
          else if cm_Type m = MSG_COMPLETED \<and> rs_Status (se_UnmarshalResponse se (str_of (cm_Payload m))) \<noteq> shim_OK
          then Inl (Err (''Error initializing container '' @ canName @ '': '' @ rs_Message (se_UnmarshalResponse se (str_of (cm_Payload m)))))
          else Inr ())"

definition sendReady :: "'w support_env \<Rightarrow> nat option \<Rightarrow> nat option \<Rightarrow> CCContext \<Rightarrow> ('w world, unit) lsm" where
  "sendReady se txsim hqe cccid w =
     lsm_bind (lift_res (GetCanonicalName cccid)) (\<lambda>canName.
       case gm_get (w_chaincodeMap w) canName of
         None \<Rightarrow> fail (Err (''handler not found for chaincode '' @ canName))
       | Some i \<Rightarrow>
           lsm_bind (lsm_try (with_handler i (ready txsim hqe (cx_ChainID cccid) (cx_TxID cccid) (cx_SignedProposal cccid) (cx_Proposal cccid)))
               (\<lambda>e. fail (Err (''Error sending READY: '' @ err_msg e))) ret) (\<lambda>_.
             \<lambda>w. case se_Wait se i (cx_TxID cccid) w of
                   (ccMsg, w') \<Rightarrow> (ready_answer se canName ccMsg, upd_handler i (deleteTxContext (cx_TxID cccid)) w'))) w"

definition support_Execute :: "'w support_env \<Rightarrow> nat option \<Rightarrow> nat option \<Rightarrow> CCContext \<Rightarrow> ChaincodeMessage \<Rightarrow> ('w world, ChaincodeMessage) lsm" where
  "support_Execute se txsim hqe cccid msg w =
     lsm_bind (lift_res (GetCanonicalName cccid)) (\<lambda>canName.
       case gm_get (w_chaincodeMap w) canName of
         None \<Rightarrow> fail (Err (''Cannot execute transaction for '' @ canName))
       | Some i \<Rightarrow>
           lsm_bind (lsm_try (with_handler i (sendExecuteMessage txsim hqe (cx_ChainID cccid) msg (cx_SignedProposal cccid) (cx_Proposal cccid)))
               (\<lambda>e. fail (Err (''Error sending: '' @ err_msg e))) ret) (\<lambda>_.
             \<lambda>w. case se_Wait se i (cm_Txid msg) w of
                   (ccresp, w') \<Rightarrow>
                     (case ccresp of None \<Rightarrow> Inl (Err ''Timeout expired while executing transaction'') | Some m \<Rightarrow> Inr m,
                      upd_handler i (deleteTxContext (cm_Txid msg)) w'))) w"

text \<open>The specification to launch from: that of a deployment, or the one the lifecycle chaincode has on record.\<close>

definition launch_spec :: "'w support_env \<Rightarrow> CCContext \<Rightarrow> bytes \<Rightarrow> ChaincodeID option \<Rightarrow> exec_spec \<Rightarrow> ('w world, ChaincodeDeploymentSpec) lsm" where
  "launch_spec se cccid canName cID spec =
     (case spec of
        DeploymentSpec cds \<Rightarrow> ret cds
      | InvocationSpec _ \<Rightarrow>
          if cx_Syscc cccid then fail (Err (''a syscc should be running (it cannot be launched) '' @ canName))
          else
            lsm_bind (lift_res (deref cID)) (\<lambda>cID.
            lsm_try (se_GetCDSFromLSCC se cccid (cc_Name cID))
              (\<lambda>e. fail (Err (''Could not get deployment transaction from LSCC for '' @ canName @ '' - '' @ err_msg e))) (\<lambda>depPayload.
            lsm_bind (lift_res (need depPayload (''failed to get deployment payload '' @ canName) Inr)) (\<lambda>b.
            lsm_try (lift_res (se_UnmarshalDeploymentSpec se b))
              (\<lambda>e. fail (Err (''failed to unmarshal deployment transactions for '' @ canName @ '' - '' @ err_msg e))) ret))))"

primrec pack_GetDepSpec :: "CCPackage \<Rightarrow> ChaincodeDeploymentSpec res" where
  "pack_GetDepSpec (RawPackage p) = cds_GetDepSpec p"
| "pack_GetDepSpec (SignedPackage p) = scds_GetDepSpec p"

definition code_spec :: "'w support_env \<Rightarrow> ChaincodeID option \<Rightarrow> ChaincodeDeploymentSpec \<Rightarrow> ChaincodeDeploymentSpec res" where
  "code_spec se cID cds =
     (if cds_CodePackage cds = [] \<and> \<not> (sc_userRunsCC (se_config se) \<or> se_IsSystem se cds) then
        res_bind (deref cID) (\<lambda>cID.
        res_bind (se_GetChaincodeFromFS se (cc_Name cID) (cc_Version cID)) (\<lambda>ccpack. pack_GetDepSpec ccpack))
      else Inr cds)"

definition spec_parts :: "exec_spec \<Rightarrow> (ChaincodeID option \<times> ChaincodeInput option) res" where
  "spec_parts spec =
     res_bind (deref (case spec of DeploymentSpec cds \<Rightarrow> cds_ChaincodeSpec cds | InvocationSpec cis \<Rightarrow> cis_ChaincodeSpec cis)) (\<lambda>cs.
       Inr (cs_ChaincodeId cs, cs_Input cs))"

definition support_Launch :: "'w support_env \<Rightarrow> nat option \<Rightarrow> nat option \<Rightarrow> CCContext \<Rightarrow> exec_spec \<Rightarrow> ('w world, ChaincodeInput option) lsm" where
  "support_Launch se txsim hqe cccid spec w =
     lsm_bind (lift_res (spec_parts spec)) (\<lambda>(cID, cMsg).
     lsm_bind (lift_res (GetCanonicalName cccid)) (\<lambda>canName.
     let running = gm_get (w_chaincodeMap w) canName in
     if (case running of None \<Rightarrow> False | Some i \<Rightarrow> \<not> h_registered (the_handler i w))
     then fail (Err (''premature execution - chaincode ('' @ canName @ '') is being launched''))
     else if (case running of None \<Rightarrow> False | Some i \<Rightarrow> isRunning (the_handler i w)) then ret cMsg
     else
       lsm_bind (launch_spec se cccid canName cID spec) (\<lambda>cds.
       lsm_bind (if \<not> sc_userRunsCC (se_config se) \<or> se_IsSystem se cds then
                   lsm_bind (lift_res (code_spec se cID cds)) (\<lambda>cds.
                   lsm_bind (lift_res (deref (cds_ChaincodeSpec cds))) (\<lambda>_.
                   lsm_bind (launchAndWaitForRegister se cccid cds (se_Lang se cds)) (\<lambda>_. ret cds)))
                 else ret cds) (\<lambda>cds.
       lsm_bind (after_error (support_Stop se cccid cds)
           (lsm_try (sendReady se txsim hqe cccid) (\<lambda>e. fail (Err (''Failed to init chaincode('' @ err_msg e @ '')''))) ret)) (\<lambda>_.
         ret cMsg))))) w"

end
