(* ===== verification/Streams.thy ===== *)
theory Streams
  imports CCSupport
begin

text \<open>
  The goroutines around one handler of the peer, interleaved: the loop of its stream, the requests of the
  chaincode, and the transactions that wait for their answers. Every step that takes the lock of the
  handler needs it to be free.

  Results: what a handler does with a message in each state (\<open>HandleMessage_ready\<close> and the lemmas
  around it); the invariant of every reachable state (\<open>h_reachable_inv\<close>), among it that a transaction
  has at most one request being served; the answer to a request goes to its transaction and is a
  response or an error (\<open>serve_answers\<close>). A transaction that reaches the chaincode before it is ready
  ends its stream (\<open>early_transaction_ends_stream\<close>); the failure of a called chaincode is answered as
  success (\<open>failed_call_answered\<close>); the error of a write ends the transaction whatever the chaincode
  makes of it (\<open>failed_write_ends_transaction\<close>); a chaincode that answers a transaction too often
  freezes its handler (\<open>surplus_answer_blocks\<close>, \<open>blocked_forever\<close>).
\<close>

inductive h_step :: "('w, 'q) h_env \<Rightarrow> nat \<Rightarrow> 'w world \<Rightarrow> 'w world \<Rightarrow> bool" for env i where
  recv: "\<not> h_ended (the_handler i w) \<Longrightarrow> h_blocked (the_handler i w) = None \<Longrightarrow>
    processStream_recv env i m w = (Inr (), w') \<Longrightarrow> h_step env i w w'"
| move: "\<not> h_ended (the_handler i w) \<Longrightarrow> h_blocked (the_handler i w) = None \<Longrightarrow> k < length (h_nextState (the_handler i w)) \<Longrightarrow>
    processStream_next env i k w = (Inr (), w') \<Longrightarrow> h_step env i w w'"
| start: "h_blocked (the_handler i w) = None \<Longrightarrow> k < length (h_tasks (the_handler i w)) \<Longrightarrow>
    h_step env i w (upd_handler i (start_request k) w)"
| finish: "h_blocked (the_handler i w) = None \<Longrightarrow> k < length (h_serving (the_handler i w)) \<Longrightarrow>
    at_handler i (finish_request env k) w = (Inr (), w') \<Longrightarrow> h_step env i w w'"
| execute: "h_blocked (the_handler i w) = None \<Longrightarrow>
    with_handler i (sendExecuteMessage txsim hqe chainID msg signedProp prp) w = (r, w') \<Longrightarrow> h_step env i w w'"
| ready: "h_blocked (the_handler i w) = None \<Longrightarrow>
    with_handler i (ready txsim hqe chainID txid signedProp prp) w = (r, w') \<Longrightarrow> h_step env i w w'"
| receive: "get_ctx (the_handler i w) txid = Some c \<Longrightarrow> tc_waiting c \<Longrightarrow>
    at_handler i (\<lambda>s. case receive_response env txid s of (m, s') \<Rightarrow> (Inr m, s')) w = (Inr (Some m), w') \<Longrightarrow> h_step env i w w'"
| timeout: "h_step env i w (upd_handler i (stop_waiting txid) w)"
| cleanup: "h_blocked (the_handler i w) = None \<Longrightarrow> get_ctx (the_handler i w) txid = Some c \<Longrightarrow> \<not> tc_waiting c \<Longrightarrow>
    h_step env i w (upd_handler i (deleteTxContext txid) w)"

inductive h_reachable :: "('w, 'q) h_env \<Rightarrow> nat \<Rightarrow> 'w world \<Rightarrow> bool" for env i where
  opened: "i < length (w_handlers w) \<Longrightarrow> the_handler i w = newHandler None \<Longrightarrow> h_reachable env i w"
| step: "h_reachable env i w \<Longrightarrow> h_step env i w w' \<Longrightarrow> h_reachable env i w'"

section \<open>Worlds and contexts\<close>

lemma set_handler_simps [simp]:
  "i < length (w_handlers w) \<Longrightarrow> the_handler i (set_handler i h w) = h"
  "length (w_handlers (set_handler i h w)) = length (w_handlers w)" "w_ledger (set_handler i h w) = w_ledger w"
  "w_chaincodeMap (set_handler i h w) = w_chaincodeMap w"
  by (simp_all add: the_handler_def set_handler_def)

lemma upd_handler_simps [simp]:
  "i < length (w_handlers w) \<Longrightarrow> the_handler i (upd_handler i f w) = f (the_handler i w)"
  "length (w_handlers (upd_handler i f w)) = length (w_handlers w)" "w_ledger (upd_handler i f w) = w_ledger w"
  "w_chaincodeMap (upd_handler i f w) = w_chaincodeMap w"
  by (simp_all add: upd_handler_def)

lemma world_upd_simps [simp]:
  "the_handler i (w\<lparr>w_ledger := l\<rparr>) = the_handler i w" "the_handler i (w\<lparr>w_chaincodeMap := m\<rparr>) = the_handler i w"
  by (simp_all add: the_handler_def)

text \<open>What an operation on a handler and the ledger does to the world.\<close>

lemma at_handler_simps [simp]:
  assumes "i < length (w_handlers w)"
  shows "the_handler i (snd (at_handler i m w)) = fst (snd (m (the_handler i w, w_ledger w)))"
    and "length (w_handlers (snd (at_handler i m w))) = length (w_handlers w)"
    and "fst (at_handler i m w) = fst (m (the_handler i w, w_ledger w))"
  using assms by (simp_all add: at_handler_def split: prod.splits)

lemma with_handler_simps [simp]:
  assumes "i < length (w_handlers w)"
  shows "the_handler i (snd (with_handler i m w)) = snd (m (the_handler i w))"
    and "length (w_handlers (snd (with_handler i m w))) = length (w_handlers w)"
  using assms by (simp_all add: with_handler_def split: prod.splits)

lemma get_set_ctx [simp]:
  "get_ctx (set_ctx t c h) t' = (if t' = t \<and> h_txCtxs h \<noteq> None then Some c else get_ctx h t')"
  by (auto simp: get_ctx_def set_ctx_def split: option.splits)

lemma get_ctx_delete [simp]: "get_ctx (deleteTxContext t h) t' = (if t' = t then None else get_ctx h t')"
  by (auto simp: get_ctx_def deleteTxContext_def split: option.splits)

text \<open>Operations on contexts touch nothing else of a handler.\<close>

definition same_but_ctxs :: "Handler \<Rightarrow> Handler \<Rightarrow> bool" where
  "same_but_ctxs h h' \<longleftrightarrow> h_FSM h' = h_FSM h \<and> h_ChaincodeID h' = h_ChaincodeID h \<and> h_ccInstance h' = h_ccInstance h
     \<and> h_registered h' = h_registered h \<and> h_txidMap h' = h_txidMap h \<and> h_tasks h' = h_tasks h \<and> h_serving h' = h_serving h
     \<and> h_blocked h' = h_blocked h \<and> h_ended h' = h_ended h \<and> (h_txCtxs h' = None \<longleftrightarrow> h_txCtxs h = None)"

lemma same_but_ctxs_refl [simp]: "same_but_ctxs h h"
  by (simp add: same_but_ctxs_def)

lemma same_but_ctxs_trans: "same_but_ctxs h h' \<Longrightarrow> same_but_ctxs h' h'' \<Longrightarrow> same_but_ctxs h h''"
  by (simp add: same_but_ctxs_def)

lemma same_but_ctxs_ops [simp]:
  "same_but_ctxs h (set_ctx t c h)" "same_but_ctxs h (deleteTxContext t h)" "same_but_ctxs h (upd_iterators f t h)"
  "same_but_ctxs h (triggerNextState m b h)" "same_but_ctxs h (triggerNextStateSync m h)" "same_but_ctxs h (stop_waiting t h)"
  "same_but_ctxs h (snd (serialSend env m h))"
  by (simp_all add: same_but_ctxs_def set_ctx_def deleteTxContext_def upd_iterators_def triggerNextState_def triggerNextStateSync_def
      stop_waiting_def serialSend_def split: option.splits sum.splits)

section \<open>Serving a request\<close>

text \<open>Serving touches the open iterators of a transaction and nothing else of the handler.\<close>

definition channel :: "Handler \<Rightarrow> bytes \<Rightarrow> (ChaincodeMessage list \<times> bool) option" where
  "channel h t = map_option (\<lambda>c. (tc_responseNotifier c, tc_waiting c)) (get_ctx h t)"

definition quiet :: "Handler \<Rightarrow> Handler \<Rightarrow> bool" where
  "quiet h h' \<longleftrightarrow> same_but_ctxs h h' \<and> channel h' = channel h"

definition quiet_op :: "('w hstate, 'a) lsm \<Rightarrow> bool" where
  "quiet_op m \<longleftrightarrow> (\<forall>s. quiet (fst s) (fst (snd (m s))))"

lemma quiet_refl [simp]: "quiet h h"
  by (simp add: quiet_def)

lemma quiet_trans: "quiet h h' \<Longrightarrow> quiet h' h'' \<Longrightarrow> quiet h h''"
  by (auto simp: quiet_def intro: same_but_ctxs_trans)

lemma quiet_iterators [simp]: "quiet h (upd_iterators f t h)"
  by (auto simp: quiet_def channel_def fun_eq_iff upd_iterators_def split: option.splits)

lemma quiet_op_lift [simp]: "quiet_op (lift_res r)" "quiet_op (on_ledger m)"
  by (auto simp: quiet_op_def on_ledger_def lift_res_def split: prod.splits)

lemma quiet_opD: "quiet_op m \<Longrightarrow> quiet (fst s) (fst (snd (m s)))"
  unfolding quiet_op_def by (rule spec)

lemma quiet_op_bind:
  assumes "quiet_op m" "\<And>x. quiet_op (f x)"
  shows "quiet_op (lsm_bind m f)"
  unfolding quiet_op_def
proof
  fix s
  obtain r s1 where m: "m s = (r, s1)" by (rule prod.exhaust)
  then have "quiet (fst s) (fst s1)" using assms(1) unfolding quiet_op_def by (metis snd_conv)
  then show "quiet (fst s) (fst (snd (lsm_bind m f s)))"
    using m by (cases r) (auto simp: lsm_bind_def intro: quiet_trans quiet_opD [OF assms(2)])
qed

lemma quiet_op_try:
  assumes "quiet_op m" "\<And>e. quiet_op (h e)" "\<And>x. quiet_op (f x)"
  shows "quiet_op (lsm_try m h f)"
  unfolding quiet_op_def
proof
  fix s
  obtain r s1 where m: "m s = (r, s1)" by (rule prod.exhaust)
  then have "quiet (fst s) (fst s1)" using assms(1) unfolding quiet_op_def by (metis snd_conv)
  then show "quiet (fst s) (fst (snd (lsm_try m h f s)))"
    using m
    by (cases r) (auto simp: lsm_try_def intro: quiet_trans quiet_opD [OF assms(2)] quiet_opD [OF assms(3)] split: error.split)
qed

lemma quiet_op_answer: "quiet_op m \<Longrightarrow> (\<And>x. quiet_op (f x)) \<Longrightarrow> quiet_op (or_answer t m f)"
  by (simp add: or_answer_def quiet_op_try)

lemma quiet_op_sim: "(\<And>c sim n. quiet_op (f c sim n)) \<Longrightarrow> quiet_op (with_sim what t f)"
  unfolding quiet_op_def with_sim_def
  by (auto simp: lsm_bind_def split: sum.splits prod.splits)

lemma quiet_op_ctx: "(\<And>c. quiet_op (f c)) \<Longrightarrow> quiet_op (with_ctx t f)"
  unfolding quiet_op_def with_ctx_def by (auto split: option.splits)

lemma quiet_close [simp]: "quiet (fst s) (fst (closeIterator env t n k s))"
  by (simp add: closeIterator_def deleteQueryIterator_def)

lemma quiet_op_page: "quiet_op (answer_page env t iter n)"
proof -
  have "quiet_op (getQueryResponse env t iter n)"
    unfolding quiet_op_def getQueryResponse_def
    by (auto simp: on_ledger_def closeIterator_def deleteQueryIterator_def split: prod.splits sum.splits error.splits)
  moreover have "quiet_op (\<lambda>s. (Inr m, closeIterator env t n iter s))" for m :: ChaincodeMessage
    unfolding quiet_op_def snd_conv by (rule allI, rule quiet_close)
  ultimately show ?thesis
    unfolding answer_page_def by (intro quiet_op_try quiet_op_bind) simp_all
qed

lemma quiet_op_first: "quiet_op (first_page env t n m)"
proof -
  have "quiet_op (on_handler (putQueryIterator t n iter))" for iter
    by (auto simp: quiet_op_def on_handler_def putQueryIterator_def)
  then show ?thesis unfolding first_page_def by (intro quiet_op_answer quiet_op_bind quiet_op_page) simp_all
qed

lemma quiet_op_uuid: "quiet_op (generateUUID env)"
  by (auto simp: quiet_op_def generateUUID_def split: prod.splits)

lemmas quiet_ops = quiet_op_bind quiet_op_answer quiet_op_sim quiet_op_ctx quiet_op_page quiet_op_first quiet_op_uuid

lemma serve_quiet: "quiet_op (serve env msg)"
proof -
  have "quiet_op (handleGetState env msg)" by (simp add: handleGetState_def Let_def quiet_ops)
  moreover have "quiet_op (handleGetStateByRange env msg)" by (simp add: handleGetStateByRange_def Let_def quiet_ops split: prod.splits)
  moreover have "quiet_op (handleGetQueryResult env msg)" by (simp add: handleGetQueryResult_def Let_def quiet_ops)
  moreover have "quiet_op (handleGetHistoryForKey env msg)" by (simp add: handleGetHistoryForKey_def Let_def quiet_ops)
  moreover have "quiet_op (handleQueryStateNext env msg)"
    by (auto simp: handleQueryStateNext_def Let_def intro!: quiet_ops split: option.splits)
  moreover have "quiet_op (handleQueryStateClose env msg)"
    unfolding handleQueryStateClose_def Let_def
    by (intro quiet_ops) (auto simp: quiet_op_def closeIterator_def deleteQueryIterator_def or_answer_def lsm_try_def
        split: option.splits sum.splits error.splits prod.splits)
  moreover have "quiet_op (enterBusyState env msg)" by (simp add: enterBusyState_def Let_def quiet_ops split: prod.splits)
  ultimately show ?thesis by (simp add: serve_def split: MessageType.split)
qed

text \<open>The answer goes to the transaction of the request and is a response or an error.\<close>

definition answers :: "bytes \<Rightarrow> ('s, ChaincodeMessage) lsm \<Rightarrow> bool" where
  "answers t m \<longleftrightarrow> (\<forall>s a s'. m s = (Inr a, s') \<longrightarrow> cm_Txid a = t \<and> cm_Type a \<in> {MSG_RESPONSE, MSG_ERROR})"

lemma answers_ret [simp]:
  "answers t (ret (response_msg p t))" "answers t (ret (error_msg e t))" "answers t (\<lambda>s. (Inr (error_msg e t), f s))"
  by (auto simp: answers_def response_msg_def error_msg_def)

lemma answers_bind: "(\<And>x. answers t (f x)) \<Longrightarrow> answers t (lsm_bind m f)"
  by (auto simp: answers_def lsm_bind_Inr)

lemma answers_try: "(\<And>e. answers t (h e)) \<Longrightarrow> (\<And>x. answers t (f x)) \<Longrightarrow> answers t (lsm_try m h f)"
  by (fastforce simp: answers_def lsm_try_Inr)

lemma answers_answer: "(\<And>x. answers t (f x)) \<Longrightarrow> answers t (or_answer t m f)"
  by (simp add: or_answer_def answers_try)

lemma answers_sim: "(\<And>c sim n. answers t (f c sim n)) \<Longrightarrow> answers t (with_sim what t f)"
  unfolding answers_def with_sim_def isValidTxSim_def
  by (simp add: lsm_bind_Inr error_msg_def split: sum.splits prod.splits option.splits) blast

lemma answers_ctx: "(\<And>c. answers t (f c)) \<Longrightarrow> answers t (with_ctx t f)"
  unfolding answers_def with_ctx_def by (auto simp: error_msg_def split: option.splits)

lemma answers_page: "answers t (answer_page env t iter n)"
  by (simp add: answer_page_def answers_try)

lemma answers_first: "answers t (first_page env t n m)"
  by (simp add: first_page_def answers_answer answers_bind answers_page)

lemmas answers_ops = answers_bind answers_answer answers_sim answers_ctx answers_page answers_first

lemma serve_answers: "answers (cm_Txid msg) (serve env msg)"
  unfolding serve_def handleGetState_def handleGetStateByRange_def handleGetQueryResult_def handleGetHistoryForKey_def
    handleQueryStateNext_def handleQueryStateClose_def enterBusyState_def Let_def
  by (auto intro!: answers_ops split: MessageType.split option.splits)

section \<open>Messages and states\<close>

lemma handler_fsm_simps [simp]:
  "f_current (handler_fsm env i msg) w = h_FSM (the_handler i w)"
  "f_set (handler_fsm env i msg) st w = upd_handler i (\<lambda>h. h\<lparr>h_FSM := st\<rparr>) w"
  "f_before (handler_fsm env i msg) t = (if t = MSG_REGISTER then beforeRegisterEvent env i msg else ret None)"
  "f_enter (handler_fsm env i msg) st w = (Inr (),
     if st = establishedstate then upd_handler i (notifyDuringStartup env True) w
     else if st = readystate then snd (at_handler i (\<lambda>s. (Inr (), notify env msg s)) w) else w)"
  "f_after (handler_fsm env i msg) t w =
     (Inr (), if t \<in> set request_types then upd_handler i (\<lambda>h. h\<lparr>h_tasks := h_tasks h @ [msg]\<rparr>) w else w)"
  by (simp_all add: handler_fsm_def)

text \<open>The moves of the machine.\<close>

definition handler_move :: "MessageType \<Rightarrow> handler_state \<Rightarrow> handler_state option" where
  "handler_move t st =
     (if t = MSG_REGISTER \<and> st = createdstate then Some establishedstate
      else if t = MSG_READY \<and> st = establishedstate then Some readystate
      else if st = readystate \<and> (t \<in> set request_types \<or> t \<in> {MSG_COMPLETED, MSG_ERROR, MSG_RESPONSE, MSG_INIT, MSG_TRANSACTION})
      then Some readystate else None)"

lemma fsm_dst_handler: "fsm_dst (handler_fsm env i msg) t w = handler_move t (h_FSM (the_handler i w))"
  by (cases t; cases "h_FSM (the_handler i w)") (simp_all add: fsm_dst_def handler_fsm_def handler_move_def request_types_def)

lemmas handle_defs = HandleMessage_def fsm_Cannot_def fsm_Event_def fsm_dst_handler handler_move_def fsm_transition_def filterError_def
  lsm_bind_def

lemma HandleMessage_notify:
  assumes "cm_Type msg = MSG_COMPLETED \<or> cm_Type msg = MSG_ERROR" "h_FSM (the_handler i w) = readystate"
  shows "HandleMessage env i msg w = (Inr None, snd (at_handler i (\<lambda>s. (Inr (), notify env msg s)) w))"
  using assms by (simp add: HandleMessage_def)

lemma HandleMessage_request:
  assumes "cm_Type msg \<in> set request_types" "h_FSM (the_handler i w) = readystate"
  shows "HandleMessage env i msg w = (Inr None, upd_handler i (\<lambda>h. h\<lparr>h_tasks := h_tasks h @ [msg]\<rparr>) w)"
proof -
  have "cm_Type msg \<noteq> MSG_COMPLETED" "cm_Type msg \<noteq> MSG_ERROR" "cm_Type msg \<noteq> MSG_REGISTER"
    using assms(1) by (auto simp: request_types_def)
  then show ?thesis using assms
    by (simp add: handle_defs)
qed

lemma HandleMessage_pass:
  assumes "cm_Type msg \<in> {MSG_RESPONSE, MSG_INIT, MSG_TRANSACTION}" "h_FSM (the_handler i w) = readystate"
  shows "HandleMessage env i msg w = (Inr None, w)"
  using assms
  by (auto simp: handle_defs request_types_def)

lemma HandleMessage_READY:
  assumes "cm_Type msg = MSG_READY" "h_FSM (the_handler i w) = establishedstate" "i < length (w_handlers w)"
  shows "HandleMessage env i msg w
    = (Inr None, snd (at_handler i (\<lambda>s. (Inr (), notify env msg s)) (upd_handler i (\<lambda>h. h\<lparr>h_FSM := readystate\<rparr>) w)))"
  using assms
  by (simp add: handle_defs request_types_def)

lemma HandleMessage_REGISTER:
  assumes "cm_Type msg = MSG_REGISTER" "h_FSM (the_handler i w) = createdstate"
  shows "HandleMessage env i msg w = lsm_bind (beforeRegisterEvent env i msg) (\<lambda>c. case c of Some e \<Rightarrow> ret (Some e)
     | None \<Rightarrow> lsm_bind (fsm_transition (handler_fsm env i msg) MSG_REGISTER establishedstate) (\<lambda>e. ret (filterError e))) w"
  using assms
  by (auto simp: HandleMessage_def fsm_Cannot_def fsm_Event_def fsm_dst_handler handler_move_def filterError_def lsm_bind_def
      split: prod.splits sum.splits option.splits)

text \<open>Any other message is refused and changes nothing.\<close>

lemma HandleMessage_refused:
  assumes "handler_move (cm_Type msg) (h_FSM (the_handler i w)) = None"
  shows "\<exists>e. HandleMessage env i msg w = (Inr (Some (Err e)), w)"
proof -
  have "\<not> ((cm_Type msg = MSG_COMPLETED \<or> cm_Type msg = MSG_ERROR) \<and> h_FSM (the_handler i w) = readystate)"
    using assms by (auto simp: handler_move_def)
  then show ?thesis using assms by (simp add: HandleMessage_def fsm_Cannot_def fsm_dst_handler)
qed

lemma handler_move_cases:
  assumes "handler_move t st = Some st'"
  obtains (register) "t = MSG_REGISTER" "st = createdstate" | (ready) "t = MSG_READY" "st = establishedstate"
    | (request) "t \<in> set request_types" "st = readystate" | (answer) "t = MSG_COMPLETED \<or> t = MSG_ERROR" "st = readystate"
    | (pass) "t \<in> {MSG_RESPONSE, MSG_INIT, MSG_TRANSACTION}" "st = readystate"
  using assms by (auto simp: handler_move_def split: if_splits)

section \<open>The invariant\<close>

definition pending :: "Handler \<Rightarrow> bytes \<Rightarrow> bool" where
  "pending h t = (case h_txidMap h of None \<Rightarrow> False | Some m \<Rightarrow> gm_get m t = Some True)"

definition machine_inv :: "Handler \<Rightarrow> bool" where
  "machine_inv h \<longleftrightarrow> (h_txCtxs h = None \<longleftrightarrow> \<not> h_registered h) \<and> (h_txidMap h = None \<longleftrightarrow> \<not> h_registered h)
     \<and> (h_registered h \<longrightarrow> h_ChaincodeID h \<noteq> None) \<and> h_FSM h \<noteq> endstate
     \<and> (h_FSM h \<noteq> createdstate \<longrightarrow> h_registered h \<and> h_ccInstance h \<noteq> None)
     \<and> (h_tasks h \<noteq> [] \<or> h_serving h \<noteq> [] \<longrightarrow> h_FSM h = readystate)"

text \<open>The entries are those of the requests being served, of which no two belong to one transaction.\<close>

definition request_inv :: "Handler \<Rightarrow> bool" where
  "request_inv h \<longleftrightarrow> distinct (map cm_Txid (h_serving h)) \<and> (\<forall>t. pending h t \<longleftrightarrow> t \<in> cm_Txid ` set (h_serving h))"

definition channel_inv :: "Handler \<Rightarrow> bool" where
  "channel_inv h \<longleftrightarrow> (\<forall>t q b. channel h t = Some (q, b) \<longrightarrow> length q \<le> 1)
     \<and> (\<forall>m. h_blocked h = Some m \<longrightarrow> (\<exists>x b. channel h (cm_Txid m) = Some ([x], b)))"

definition handler_inv :: "Handler \<Rightarrow> bool" where
  "handler_inv h \<longleftrightarrow> machine_inv h \<and> request_inv h \<and> channel_inv h"

lemmas inv_defs = handler_inv_def machine_inv_def request_inv_def channel_inv_def

lemma inv_same:
  assumes "same_but_ctxs h h'"
  shows "machine_inv h \<Longrightarrow> machine_inv h'" "request_inv h \<Longrightarrow> request_inv h'"
  using assms by (auto simp: same_but_ctxs_def machine_inv_def request_inv_def pending_def)

lemma inv_quiet: "quiet h h' \<Longrightarrow> handler_inv h \<Longrightarrow> handler_inv h'"
  using inv_same by (auto simp: handler_inv_def quiet_def channel_inv_def same_but_ctxs_def)

lemma quiet_moves [simp]: "quiet h (triggerNextState m b h)" "quiet h (triggerNextStateSync m h)" "quiet h (snd (serialSend env m h))"
  by (simp_all add: quiet_def same_but_ctxs_def channel_def fun_eq_iff get_ctx_def triggerNextState_def triggerNextStateSync_def serialSend_def
      split: sum.splits)

lemma channel_set_ctx [simp]:
  "channel (set_ctx t c h) t' = (if t' = t \<and> h_txCtxs h \<noteq> None then Some (tc_responseNotifier c, tc_waiting c) else channel h t')"
  by (auto simp: channel_def)

lemma channel_delete [simp]: "channel (deleteTxContext t h) t' = (if t' = t then None else channel h t')"
  by (simp add: channel_def)

lemma inv_set_ctx:
  assumes "handler_inv h" "h_blocked h = None" "length (tc_responseNotifier c) \<le> 1"
  shows "handler_inv (set_ctx t c h)"
  using assms inv_same[OF same_but_ctxs_ops(1)] by (auto simp: handler_inv_def channel_inv_def set_ctx_def split: if_splits)
     (auto simp: channel_def get_ctx_def split: if_splits option.splits)

lemma inv_delete:
  assumes "handler_inv h" "h_blocked h = None"
  shows "handler_inv (deleteTxContext t h)"
  using assms inv_same[OF same_but_ctxs_ops(2)] by (auto simp: handler_inv_def channel_inv_def split: if_splits)
     (auto simp: deleteTxContext_def)

lemma inv_notify:
  assumes "handler_inv (fst s)" "h_blocked (fst s) = None"
  shows "handler_inv (fst (notify env msg s))"
proof (cases "get_ctx (fst s) (cm_Txid msg)")
  case None
  then show ?thesis using assms by (simp add: notify_def)
next
  case (Some c)
  show ?thesis
  proof (cases "tc_responseNotifier c")
    case Nil
    then show ?thesis using Some assms by (simp add: notify_def deliver_def inv_set_ctx)
  next
    case (Cons x xs)
    then have "channel (fst s) (cm_Txid msg) = Some (x # xs, tc_waiting c)" using Some by (simp add: channel_def)
    moreover from this have "xs = []" using assms(1) by (fastforce simp: handler_inv_def channel_inv_def)
    moreover have "channel ((fst s)\<lparr>h_blocked := Some msg\<rparr>) = channel (fst s)" by (simp add: channel_def get_ctx_def fun_eq_iff)
    ultimately show ?thesis using Some Cons assms
      by (simp add: notify_def handler_inv_def machine_inv_def request_inv_def pending_def channel_inv_def)
  qed
qed

lemma inv_upd_tasks:
  assumes "handler_inv h" "h_FSM h = readystate"
  shows "handler_inv (h\<lparr>h_tasks := ts\<rparr>)"
proof -
  have "channel (h\<lparr>h_tasks := ts\<rparr>) = channel h" by (simp add: channel_def get_ctx_def fun_eq_iff)
  then show ?thesis using assms by (simp add: inv_defs pending_def)
qed

lemma remove_nth_subset: "set (remove_nth k xs) \<subseteq> set xs"
  by (auto simp: remove_nth_def dest: in_set_takeD in_set_dropD)

lemma remove_nth_distinct:
  assumes "distinct (map f xs)" "k < length xs"
  shows "distinct (map f (remove_nth k xs))" "f ` set (remove_nth k xs) = f ` set xs - {f (xs ! k)}"
proof -
  have "xs = take k xs @ xs ! k # drop (Suc k) xs" using assms(2) by (rule id_take_nth_drop)
  then have "map f xs = map f (take k xs) @ f (xs ! k) # map f (drop (Suc k) xs)" by (metis list.simps(9) map_append)
  then have *: "distinct (map f (take k xs) @ f (xs ! k) # map f (drop (Suc k) xs))"
    and **: "f ` set xs = insert (f (xs ! k)) (f ` set (remove_nth k xs))"
    using assms(1) \<open>xs = _\<close> by (metis, metis (no_types, lifting) Un_insert_right image_insert list.simps(15) remove_nth_def set_append)
  from * show "distinct (map f (remove_nth k xs))" by (simp add: remove_nth_def)
  from * have "f (xs ! k) \<notin> f ` set (remove_nth k xs)" by (auto simp: remove_nth_def)
  with ** show "f ` set (remove_nth k xs) = f ` set xs - {f (xs ! k)}" by auto
qed

lemma pending_create:
  assumes "createTXIDEntry t h = (True, h')"
  shows "\<not> pending h t" "pending h' t' \<longleftrightarrow> t' = t \<or> pending h t'" "h' = h\<lparr>h_txidMap := h_txidMap h'\<rparr>" "h_txidMap h' \<noteq> None" "h_txidMap h \<noteq> None"
  using assms by (auto simp: createTXIDEntry_def pending_def split: option.splits if_splits)

lemma inv_start:
  assumes "handler_inv h" "k < length (h_tasks h)"
  shows "handler_inv (start_request k h)"
proof -
  let ?h = "h\<lparr>h_tasks := remove_nth k (h_tasks h)\<rparr>" and ?t = "cm_Txid (h_tasks h ! k)"
  have ready: "h_FSM h = readystate" using assms by (auto simp: handler_inv_def machine_inv_def)
  then have inv: "handler_inv ?h" using assms(1) by (rule inv_upd_tasks[rotated])
  obtain b h' where c: "createTXIDEntry ?t ?h = (b, h')" by (rule prod.exhaust)
  show ?thesis
  proof (cases b)
    case False
    then have "h' = ?h" using c by (auto simp: createTXIDEntry_def split: option.splits if_splits)
    then show ?thesis using c False inv by (simp add: start_request_def Let_def)
  next
    case True
    then have c': "createTXIDEntry ?t ?h = (True, h')" using c by simp
    note p = pending_create[OF c']
    obtain m where h': "h' = ?h\<lparr>h_txidMap := m\<rparr>" "m \<noteq> None" using p(3,4) by blast
    have "channel (h'\<lparr>h_serving := h_serving h' @ [h_tasks h ! k]\<rparr>) = channel ?h"
      by (simp add: h'(1) channel_def get_ctx_def fun_eq_iff)
    moreover have "pending (h'\<lparr>h_serving := h_serving h' @ [h_tasks h ! k]\<rparr>) = pending h'" by (simp add: pending_def fun_eq_iff)
    ultimately show ?thesis using c True inv p(1,2,5) ready h'
      by (auto simp: start_request_def Let_def inv_defs)
  qed
qed

lemma inv_finish:
  assumes "handler_inv h" "k < length (h_serving h)" "quiet (h\<lparr>h_serving := remove_nth k (h_serving h)\<rparr>) h2"
  shows "handler_inv (answer_request env (h_serving h ! k) answer h2)"
proof -
  let ?t = "cm_Txid (h_serving h ! k)"
  have h2: "machine_inv h2" "h_serving h2 = remove_nth k (h_serving h)" "pending h2 = pending h" "channel_inv h2" "h_txidMap h2 = h_txidMap h"
    using assms inv_same(1)[of "h\<lparr>h_serving := remove_nth k (h_serving h)\<rparr>" h2]
    by (auto simp: quiet_def same_but_ctxs_def handler_inv_def machine_inv_def channel_inv_def channel_def get_ctx_def pending_def fun_eq_iff)
  have p: "pending (deleteTXIDEntry ?t h2) t \<longleftrightarrow> t \<noteq> ?t \<and> pending h t" for t
    using h2(3) by (auto simp: pending_def deleteTXIDEntry_def fun_eq_iff split: option.splits)
  have serving: "h_serving (deleteTXIDEntry ?t h2) = remove_nth k (h_serving h)" using h2(2) by (simp add: deleteTXIDEntry_def)
  have "machine_inv (deleteTXIDEntry ?t h2)" using h2(1) by (simp add: machine_inv_def deleteTXIDEntry_def)
  moreover have "request_inv (deleteTXIDEntry ?t h2)"
    using remove_nth_distinct[of cm_Txid "h_serving h" k] assms(1,2) unfolding request_inv_def p serving handler_inv_def by auto
  moreover have "channel (deleteTXIDEntry ?t h2) = channel h2" by (simp add: deleteTXIDEntry_def channel_def get_ctx_def fun_eq_iff)
  then have "channel_inv (deleteTXIDEntry ?t h2)" using h2(4) unfolding channel_inv_def by (simp add: deleteTXIDEntry_def)
  ultimately have "handler_inv (deleteTXIDEntry ?t h2)" by (simp add: handler_inv_def)
  then show ?thesis by (simp add: answer_request_def Let_def inv_quiet[OF quiet_moves(1)] inv_quiet[OF quiet_moves(3)])
qed

lemma finish_request_inv:
  assumes "finish_request env k s = (Inr (), s')" "handler_inv (fst s)" "k < length (h_serving (fst s))"
  shows "handler_inv (fst s')"
proof -
  let ?s = "((fst s)\<lparr>h_serving := remove_nth k (h_serving (fst s))\<rparr>, snd s)" and ?m = "h_serving (fst s) ! k"
  obtain a s1 where a: "serve env ?m ?s = (Inr a, s1)" "s' = (answer_request env ?m a (fst s1), snd s1)"
    using assms(1) by (auto simp: finish_request_def Let_def lsm_bind_Inr on_handler_def)
  have "quiet (fst ?s) (fst s1)" using quiet_opD[OF serve_quiet, of ?s env ?m] a(1) by simp
  then show ?thesis using inv_finish[OF assms(2,3)] a(2) by simp
qed

lemma registerHandler_handler:
  assumes "registerHandler env i cid w = (r, w')" "i < length (w_handlers w)"
  shows "length (w_handlers w') = length (w_handlers w)"
    and "r = Inr () \<Longrightarrow> \<exists>q. the_handler i w' = mark_registered q (the_handler i w)" "r \<noteq> Inr () \<Longrightarrow> w' = w"
  using assms by (cases "gm_get (w_chaincodeMap w) (cc_Name cid)"; auto simp: registerHandler_def Let_def split: if_splits)+

lemma quiet_startup [simp]: "quiet h (notifyDuringStartup env b h)"
  by (simp add: notifyDuringStartup_def quiet_moves split: option.splits)
     (simp add: quiet_def same_but_ctxs_def channel_def get_ctx_def fun_eq_iff)

lemma inv_registered:
  assumes "handler_inv h" "h_FSM h = createdstate" "h_blocked h = None"
  shows "handler_inv (h\<lparr>h_ChaincodeID := Some cid\<rparr>)" "handler_inv (mark_registered q (h\<lparr>h_ChaincodeID := Some cid\<rparr>))"
proof -
  have "h_tasks h = []" "h_serving h = []" using assms(1,2) by (auto simp: handler_inv_def machine_inv_def)
  moreover have "channel (h\<lparr>h_ChaincodeID := Some cid\<rparr>) = channel h" by (simp add: channel_def get_ctx_def fun_eq_iff)
  moreover have "channel (mark_registered q (h\<lparr>h_ChaincodeID := Some cid\<rparr>)) t = None" for t
    by (simp add: mark_registered_def channel_def get_ctx_def)
  ultimately show "handler_inv (h\<lparr>h_ChaincodeID := Some cid\<rparr>)" "handler_inv (mark_registered q (h\<lparr>h_ChaincodeID := Some cid\<rparr>))"
    using assms by (auto simp: inv_defs pending_def mark_registered_def)
qed

definition world_inv :: "nat \<Rightarrow> 'w world \<Rightarrow> bool" where
  "world_inv i w \<longleftrightarrow> i < length (w_handlers w) \<and> handler_inv (the_handler i w)"

lemma world_inv_upd: "world_inv i w \<Longrightarrow> handler_inv (f (the_handler i w)) \<Longrightarrow> world_inv i (upd_handler i f w)"
  by (simp add: world_inv_def)

lemma world_inv_set: "world_inv i w \<Longrightarrow> handler_inv h \<Longrightarrow> world_inv i (set_handler i h w)"
  by (simp add: world_inv_def)

lemma world_inv_at:
  "world_inv i w \<Longrightarrow> handler_inv (fst (snd (m (the_handler i w, w_ledger w)))) \<Longrightarrow> world_inv i (snd (at_handler i m w))"
  by (simp add: world_inv_def)

lemma inv_established:
  assumes "handler_inv h" "h_registered h" "h_ccInstance h \<noteq> None" "h_FSM h = createdstate"
  shows "handler_inv (h\<lparr>h_FSM := establishedstate\<rparr>)"
proof -
  have "channel (h\<lparr>h_FSM := establishedstate\<rparr>) = channel h" by (simp add: channel_def get_ctx_def fun_eq_iff)
  then show ?thesis using assms by (auto simp: inv_defs pending_def)
qed

lemma inv_ready:
  assumes "handler_inv h" "h_FSM h = establishedstate"
  shows "handler_inv (h\<lparr>h_FSM := readystate\<rparr>)"
proof -
  have "channel (h\<lparr>h_FSM := readystate\<rparr>) = channel h" by (simp add: channel_def get_ctx_def fun_eq_iff)
  then show ?thesis using assms by (auto simp: inv_defs pending_def)
qed

text \<open>A registration that is not cancelled leaves a registered handler with the parts of its name.\<close>

lemma beforeRegister_inv:
  assumes "beforeRegisterEvent env i msg w = (Inr c, w')" "world_inv i w" "h_FSM (the_handler i w) = createdstate"
    "h_blocked (the_handler i w) = None"
  shows "world_inv i w' \<and> (c = None \<longrightarrow> h_registered (the_handler i w') \<and> h_ccInstance (the_handler i w') \<noteq> None
    \<and> h_FSM (the_handler i w') = createdstate)"
proof (cases "he_UnmarshalChaincodeID env (str_of (cm_Payload msg))")
  case (Inl e)
  then show ?thesis using assms by (auto simp: beforeRegisterEvent_def lsm_try_Inr)
next
  case (Inr cid)
  let ?w1 = "upd_handler i (\<lambda>h. h\<lparr>h_ChaincodeID := Some cid\<rparr>) w"
  obtain r w2 where r: "registerHandler env i cid ?w1 = (r, w2)" by (rule prod.exhaust)
  have i: "i < length (w_handlers w)" and inv: "handler_inv (the_handler i w)" using assms(2) by (simp_all add: world_inv_def)
  have reg: "length (w_handlers w2) = length (w_handlers w)"
    "r = Inr () \<Longrightarrow> \<exists>q. the_handler i w2 = mark_registered q ((the_handler i w)\<lparr>h_ChaincodeID := Some cid\<rparr>)" "r \<noteq> Inr () \<Longrightarrow> w2 = ?w1"
    using registerHandler_handler[OF r] i by simp_all
  show ?thesis
  proof (cases r)
    case (Inl e)
    then show ?thesis using assms(1) Inr r i reg(3) inv_registered(1)[OF inv assms(3,4), where cid = cid]
      by (auto simp: beforeRegisterEvent_def lsm_try_Inr world_inv_def intro: inv_quiet[OF quiet_startup])
  next
    case (Inr u)
    then obtain q where h2: "the_handler i w2 = mark_registered q ((the_handler i w)\<lparr>h_ChaincodeID := Some cid\<rparr>)" using reg(2) by auto
    let ?h = "decomposeRegisteredName cid (the_handler i w2)"
    have "handler_inv (the_handler i w2)" unfolding h2 by (rule inv_registered(2)[OF inv assms(3,4)])
    moreover have "channel ?h = channel (the_handler i w2)" by (simp add: decomposeRegisteredName_def channel_def get_ctx_def fun_eq_iff)
    ultimately have h: "handler_inv ?h" by (auto simp: inv_defs pending_def decomposeRegisteredName_def)
    obtain e h3 where s: "serialSend env \<lparr>cm_Type = MSG_REGISTERED, cm_Payload = None, cm_Txid = [], cm_Proposal = None, cm_ChaincodeEvent = None\<rparr> ?h = (e, h3)"
      by (rule prod.exhaust)
    then have "quiet ?h h3" using quiet_moves(3) by (metis snd_conv)
    moreover from this have "h_registered h3" "h_ccInstance h3 \<noteq> None" "h_FSM h3 = createdstate"
      using assms(3) by (simp_all add: quiet_def same_but_ctxs_def decomposeRegisteredName_def h2 mark_registered_def)
    moreover have "handler_inv h3" "handler_inv (notifyDuringStartup env False h3)"
      using inv_quiet[OF \<open>quiet ?h h3\<close> h] inv_quiet[OF quiet_startup] by simp_all
    ultimately show ?thesis
      using assms(1) \<open>he_UnmarshalChaincodeID _ _ = Inr cid\<close> r Inr s i reg(1)
      by (cases e) (auto simp: beforeRegisterEvent_def lsm_try_Inr world_inv_def)
  qed
qed

lemma HandleMessage_inv:
  assumes "HandleMessage env i msg w = (Inr e, w')" "world_inv i w" "h_blocked (the_handler i w) = None"
  shows "world_inv i w'"
proof (cases "handler_move (cm_Type msg) (h_FSM (the_handler i w))")
  case None
  then show ?thesis using HandleMessage_refused[OF None, of env] assms by auto
next
  case (Some st)
  have i: "i < length (w_handlers w)" and inv: "handler_inv (the_handler i w)" using assms(2) by (simp_all add: world_inv_def)
  from Some show ?thesis
  proof (cases rule: handler_move_cases)
    case register
    obtain c w1 where b: "beforeRegisterEvent env i msg w = (Inr c, w1)"
      using assms(1) register by (auto simp: HandleMessage_REGISTER lsm_bind_Inr)
    note r = beforeRegister_inv[OF b assms(2) register(2) assms(3)]
    show ?thesis
    proof (cases c)
      case (Some e')
      then show ?thesis using assms(1) register b r by (simp add: HandleMessage_REGISTER)
    next
      case None
      then have w1: "i < length (w_handlers w1)" "handler_inv ((the_handler i w1)\<lparr>h_FSM := establishedstate\<rparr>)" "h_FSM (the_handler i w1) = createdstate"
        using r inv_established by (auto simp: world_inv_def)
      then have "w' = upd_handler i (notifyDuringStartup env True) (upd_handler i (\<lambda>h. h\<lparr>h_FSM := establishedstate\<rparr>) w1)"
        using assms(1) register b None by (simp add: HandleMessage_REGISTER fsm_transition_def lsm_bind_def request_types_def)
      then show ?thesis using w1 inv_quiet[OF quiet_startup] by (simp add: world_inv_def)
    qed
  next
    case ready
    then show ?thesis using assms i inv_ready[OF inv ready(2)]
      by (auto simp: HandleMessage_READY intro!: world_inv_at inv_notify) (simp add: world_inv_def)
  next
    case request
    then show ?thesis using assms i inv_upd_tasks[OF inv request(2)] by (auto simp: HandleMessage_request world_inv_def)
  next
    case answer
    then show ?thesis using assms inv by (auto simp: HandleMessage_notify intro!: world_inv_at inv_notify)
  next
    case pass
    then show ?thesis using assms by (simp add: HandleMessage_pass)
  qed
qed

lemma end_stream_inv:
  assumes "end_stream env i w = (Inr u, w')" "world_inv i w"
  shows "world_inv i w'"
proof -
  obtain w1 where w1: "deregister env i w = (Inr (), w1)" "w' = upd_handler i (\<lambda>h. h\<lparr>h_ended := True\<rparr>) w1"
    using assms(1) by (auto simp: end_stream_def lsm_bind_Inr)
  have "the_handler i w1 = the_handler i w" "length (w_handlers w1) = length (w_handlers w)"
    using w1(1) by (auto simp: deregister_def deregisterHandler_def lsm_try_Inr Let_def split: if_splits option.splits)
  moreover have "channel (h\<lparr>h_ended := True\<rparr>) = channel h" for h by (simp add: channel_def get_ctx_def fun_eq_iff)
  ultimately show ?thesis using assms(2) w1(2) by (auto simp: world_inv_def inv_defs pending_def)
qed

lemma createTxContext_inv:
  assumes "handler_inv h" "h_blocked h = None"
  shows "handler_inv (snd (createTxContext chain t sp prp sim hqe h))" "h_blocked (snd (createTxContext chain t sp prp sim hqe h)) = None"
  using assms inv_set_ctx by (auto simp: createTxContext_def set_ctx_def)

lemma execute_inv:
  assumes "handler_inv h" "h_blocked h = None"
  shows "handler_inv (snd (sendExecuteMessage sim hqe chain msg sp prp h))" "handler_inv (snd (ready sim hqe chain t sp prp h))"
  using createTxContext_inv(1)[OF assms]
  by (auto simp: sendExecuteMessage_def ready_def lsm_bind_def split: prod.splits sum.splits intro: inv_quiet[OF quiet_moves(1)] inv_quiet[OF quiet_moves(2)])
     (metis inv_quiet quiet_moves(1,2) snd_conv)+

lemma receive_inv:
  assumes "handler_inv (fst s)" "receive_response env t s = (Some m, s')"
  shows "handler_inv (fst s')"
proof -
  obtain c ms where c: "get_ctx (fst s) t = Some c" "tc_responseNotifier c = m # ms"
    using assms(2) by (auto simp: receive_response_def Let_def split: option.splits list.splits)
  let ?c = "c\<lparr>tc_responseNotifier := ms, tc_waiting := False\<rparr>" let ?h = "set_ctx t ?c (fst s)"
  have ms: "ms = []" using assms(1) c unfolding handler_inv_def channel_inv_def by (fastforce simp: channel_def)
  have ctxs: "h_txCtxs (fst s) \<noteq> None" using c(1) by (cases "h_txCtxs (fst s)") (simp_all add: get_ctx_def)
  have h: "machine_inv ?h" "request_inv ?h" "h_blocked ?h = h_blocked (fst s)"
    using assms(1) inv_same[OF same_but_ctxs_ops(1)] by (auto simp: handler_inv_def set_ctx_def)
  have other: "\<forall>t' q b. channel ?h t' = Some (q, b) \<longrightarrow> length q \<le> 1"
    using assms(1) ms ctxs by (auto simp: handler_inv_def channel_inv_def)
  show ?thesis
  proof (cases "h_blocked (fst s)")
    case None
    then have "fst s' = ?h" using assms(2) c h(3) by (auto simp: receive_response_def Let_def)
    then show ?thesis using h other None by (simp add: handler_inv_def channel_inv_def)
  next
    case (Some b)
    show ?thesis
    proof (cases "cm_Txid b = t")
      case True
      have "handler_inv (?h\<lparr>h_blocked := None\<rparr>)"
        using h(1,2) other by (auto simp: inv_defs pending_def channel_def get_ctx_def)
      then have "handler_inv (set_ctx t (?c\<lparr>tc_responseNotifier := [b]\<rparr>) (?h\<lparr>h_blocked := None\<rparr>))"
        by (rule inv_set_ctx) simp_all
      then show ?thesis using assms(2) c h(3) Some True ms by (auto simp: receive_response_def Let_def deliver_def)
    next
      case False
      then have "fst s' = ?h" using assms(2) c h(3) Some by (auto simp: receive_response_def Let_def)
      moreover have "\<exists>x w. channel ?h (cm_Txid b) = Some ([x], w)"
        using assms(1) Some False by (auto simp: handler_inv_def channel_inv_def)
      ultimately show ?thesis using h other Some by (simp add: handler_inv_def channel_inv_def)
    qed
  qed
qed

lemma stop_waiting_inv:
  assumes "handler_inv h"
  shows "handler_inv (stop_waiting t h)"
proof (cases "get_ctx h t")
  case None
  then show ?thesis using assms by (simp add: stop_waiting_def)
next
  case (Some c)
  let ?h = "stop_waiting t h"
  have ctxs: "h_txCtxs h \<noteq> None" using Some by (cases "h_txCtxs h") (simp_all add: get_ctx_def)
  have q: "channel h t = Some (tc_responseNotifier c, tc_waiting c)" using Some by (simp add: channel_def)
  have ch: "channel ?h t' = (if t' = t then Some (tc_responseNotifier c, False) else channel h t')" for t'
    using Some ctxs by (simp add: stop_waiting_def)
  have "h_blocked ?h = h_blocked h" using same_but_ctxs_ops(6)[of h t] by (simp add: same_but_ctxs_def)
  moreover have "length (tc_responseNotifier c) \<le> 1" using assms q by (auto simp: handler_inv_def channel_inv_def)
  ultimately have "channel_inv ?h" using assms q by (auto simp: handler_inv_def channel_inv_def ch)
  then show ?thesis using assms inv_same[OF same_but_ctxs_ops(6)] by (simp add: handler_inv_def)
qed

lemma upd_nextState_inv: "handler_inv h \<Longrightarrow> handler_inv (h\<lparr>h_nextState := ns\<rparr>)"
  by (rule inv_quiet) (auto simp: quiet_def same_but_ctxs_def channel_def get_ctx_def fun_eq_iff)

lemma processStream_next_inv:
  assumes "processStream_next env i k w = (Inr (), w')" "world_inv i w" "h_blocked (the_handler i w) = None"
  shows "world_inv i w'"
proof -
  let ?w = "upd_handler i (\<lambda>h. h\<lparr>h_nextState := remove_nth k (h_nextState h)\<rparr>) w"
  let ?info = "h_nextState (the_handler i w) ! k"
  obtain e w1 where e: "HandleMessage env i (ns_msg ?info) ?w = (Inr e, w1)"
    using assms(1) by (auto simp: processStream_next_def Let_def lsm_bind_Inr)
  have "world_inv i ?w" "h_blocked (the_handler i ?w) = None" using assms(2,3) upd_nextState_inv by (auto simp: world_inv_def)
  then have w1: "world_inv i w1" by (rule HandleMessage_inv[OF e])
  obtain se h where se: "serialSend env (ns_msg ?info) (the_handler i w1) = (se, h)" by (rule prod.exhaust)
  then have "handler_inv h" using w1 inv_quiet[OF quiet_moves(3)] by (metis snd_conv world_inv_def)
  then show ?thesis using assms(1) e se w1 end_stream_inv[OF _ w1]
    by (cases se) (auto simp: processStream_next_def Let_def world_inv_set split: if_splits)
qed

lemma h_step_inv:
  assumes "h_step env i w w'" "world_inv i w"
  shows "world_inv i w'"
  using assms
proof (cases rule: h_step.cases)
  case (recv m)
  then show ?thesis using assms(2) HandleMessage_inv end_stream_inv
    by (fastforce simp: processStream_recv_def lsm_bind_Inr split: option.splits if_splits)
next
  case (move k)
  then show ?thesis using assms(2) processStream_next_inv by blast
next
  case (start k)
  then show ?thesis using assms(2) by (auto intro!: world_inv_upd inv_start simp: world_inv_def)
next
  case (finish k)
  obtain s' where s': "finish_request env k (the_handler i w, w_ledger w) = (Inr (), s')"
    using finish(3) by (cases "finish_request env k (the_handler i w, w_ledger w)") (auto simp: at_handler_def)
  then have "handler_inv (fst s')" using finish_request_inv[OF s'] assms(2) finish(2) by (simp add: world_inv_def)
  then show ?thesis using world_inv_at[OF assms(2), of "finish_request env k"] s' finish(3) by simp
next
  case (execute txsim hqe chainID msg signedProp prp r)
  then have "w' = snd (with_handler i (sendExecuteMessage txsim hqe chainID msg signedProp prp) w)" by simp
  then show ?thesis using assms(2) execute(1) execute_inv(1) by (simp add: world_inv_def)
next
  case (ready txsim hqe chainID txid signedProp prp r)
  then have "w' = snd (with_handler i (CCSupport.ready txsim hqe chainID txid signedProp prp) w)" by simp
  then show ?thesis using assms(2) ready(1) execute_inv(2) by (simp add: world_inv_def)
next
  case (receive txid c m)
  obtain r s' where s': "receive_response env txid (the_handler i w, w_ledger w) = (r, s')" by (rule prod.exhaust)
  then have "r = Some m" using receive(3) by (auto simp: at_handler_def split: prod.splits)
  then have "handler_inv (fst s')" using receive_inv[of "(the_handler i w, w_ledger w)" env txid m s'] assms(2) s' by (simp add: world_inv_def)
  then show ?thesis
    using world_inv_at[OF assms(2), of "\<lambda>s. case receive_response env txid s of (m, s') \<Rightarrow> (Inr m, s')"] s' receive(3) by simp
next
  case (timeout txid)
  then show ?thesis using assms(2) by (auto intro!: world_inv_upd stop_waiting_inv simp: world_inv_def)
next
  case (cleanup txid c)
  then show ?thesis using assms(2) by (auto intro!: world_inv_upd inv_delete simp: world_inv_def)
qed

lemma h_reachable_inv: "h_reachable env i w \<Longrightarrow> world_inv i w"
proof (induction rule: h_reachable.induct)
  case (opened w)
  then show ?case by (auto simp: world_inv_def inv_defs newHandler_def pending_def channel_def get_ctx_def)
next
  case (step w w')
  then show ?case using h_step_inv by blast
qed

section \<open>Transactions before the chaincode is ready\<close>

lemma launch_running:
  assumes "spec_parts spec = Inr (cID, cMsg)" "GetCanonicalName cccid = Inr n" "gm_get (w_chaincodeMap w) n = Some i" "h_registered (the_handler i w)"
  shows "support_Launch se sim hqe cccid spec w = (Inr cMsg, w)"
proof -
  have "isRunning (the_handler i w)" by (simp add: isRunning_def split: handler_state.split)
  then show ?thesis using assms by (simp add: support_Launch_def Let_def)
qed

lemma end_stream_removes:
  assumes "i < length (w_handlers w)" "h_registered (the_handler i w)" "h_ChaincodeID (the_handler i w) = Some cid"
  shows "\<exists>w'. end_stream env i w = (Inr (), w') \<and> h_ended (the_handler i w') \<and> gm_get (w_chaincodeMap w') (cc_Name cid) = None"
proof -
  obtain w1 where "deregister env i w = (Inr (), w1)" "gm_get (w_chaincodeMap w1) (cc_Name cid) = None"
    "length (w_handlers w1) = length (w_handlers w)"
    using assms(2,3) by (cases "gm_get (w_chaincodeMap w) (cc_Name cid)") (auto simp: deregister_def deregisterHandler_def Let_def)
  then show ?thesis using assms(1) by (simp add: end_stream_def)
qed

text \<open>A chaincode that has registered counts as running; the transaction sent to it ends the stream.\<close>

lemma early_transaction_ends_stream:
  assumes "world_inv i w" "h_FSM (the_handler i w) = establishedstate" "h_ChaincodeID (the_handler i w) = Some cid"
    and "h_nextState (the_handler i w) = []" "get_ctx (the_handler i w) (cm_Txid msg) = None"
    and "cm_Type msg = MSG_TRANSACTION" "sp \<noteq> None \<or> prp = None"
  shows "\<exists>w1 w2. with_handler i (sendExecuteMessage sim hqe chain msg sp prp) w = (Inr (), w1)
    \<and> processStream_next env i 0 w1 = (Inr (), w2) \<and> h_ended (the_handler i w2) \<and> gm_get (w_chaincodeMap w2) (cc_Name cid) = None"
proof -
  have i: "i < length (w_handlers w)" and reg: "h_registered (the_handler i w)" "h_txCtxs (the_handler i w) \<noteq> None"
    using assms(1,2) by (auto simp: world_inv_def handler_inv_def machine_inv_def)
  obtain msg' where msg': "setChaincodeProposal sp prp msg = Inr msg'" "cm_Type msg' = MSG_TRANSACTION"
    using assms(6,7) by (cases "prp = None") (auto simp: setChaincodeProposal_def)
  obtain h1 where h1: "sendExecuteMessage sim hqe chain msg sp prp (the_handler i w) = (Inr (), h1)"
    "h_nextState h1 = [\<lparr>ns_msg = msg', ns_sendToCC = True, ns_sendSync = False\<rparr>]" "h_FSM h1 = establishedstate" "h_registered h1" "h_ChaincodeID h1 = Some cid"
    using assms(2-5) reg msg'(1)
    by (simp add: sendExecuteMessage_def lsm_bind_def createTxContext_def triggerNextState_def set_ctx_def)
  let ?w1 = "set_handler i h1 w"
  have w1: "with_handler i (sendExecuteMessage sim hqe chain msg sp prp) w = (Inr (), ?w1)"
    using h1(1) by (simp add: with_handler_def)
  let ?w = "upd_handler i (\<lambda>h. h\<lparr>h_nextState := remove_nth 0 (h_nextState h)\<rparr>) ?w1"
  have at: "the_handler i ?w = h1\<lparr>h_nextState := []\<rparr>" using i h1(2) by (simp add: remove_nth_def)
  obtain e where e: "HandleMessage env i msg' ?w = (Inr (Some (Err e)), ?w)"
    using HandleMessage_refused[of msg' i ?w env] at h1(3) msg'(2) by (auto simp: handler_move_def request_types_def)
  moreover obtain w2 where "end_stream env i ?w = (Inr (), w2)" "h_ended (the_handler i w2)" "gm_get (w_chaincodeMap w2) (cc_Name cid) = None"
    using end_stream_removes[of i ?w cid env] at h1(4,5) i by auto
  ultimately show ?thesis using w1 h1(2) i by (simp add: processStream_next_def Let_def)
qed

section \<open>Errors\<close>

text \<open>The error of the execution of a called chaincode is answered with an empty response.\<close>

lemma failed_call_answered:
  assumes "called_data env c sim txid called w = (Inr version, w1)"
    and "NewCCContext (ci_ChainID called) (ci_ChaincodeName called) version txid False (tc_signedProp c) (tc_proposal c) = Inr cccid"
    and "he_Launch env sim (tc_historyQueryExecutor c) cccid (InvocationSpec \<lparr>cis_ChaincodeSpec = Some spec\<rparr>) w1 = (Inr inp, w2)"
    and "he_MarshalInput env inp = Inr payload"
    and "he_Execute env sim (tc_historyQueryExecutor c) cccid
      \<lparr>cm_Type = MSG_TRANSACTION, cm_Payload = Some payload, cm_Txid = txid, cm_Proposal = None, cm_ChaincodeEvent = None\<rparr> w2 = (Inl (Err e), w3)"
  shows "run_called env c sim txid called spec w = (Inr None, w3)"
  using assms by (simp add: run_called_def)

text \<open>
  The error of a write is answered to the chaincode and also delivered to the goroutine that waits for
  the transaction, which so ends with it.
\<close>

lemma failed_write_answer:
  assumes "isValidTxSim ''PUT_STATE'' (cm_Txid msg) h = Inr (c, sim)" "getCCRootName h = Inr n" "cm_Type msg = MSG_PUT_STATE"
    and "he_UnmarshalPutStateInfo env (str_of (cm_Payload msg)) = Inr (key, value)"
    and "he_SetState env sim n key value l = (Inl (Err e), l')"
  shows "serve env msg (h, l) = (Inr (error_msg e (cm_Txid msg)), h, l')"
  using assms by (simp add: serve_def enterBusyState_def Let_def with_sim_def or_answer_def on_ledger_def err_msg_def)

lemma deliver_channel:
  assumes "get_ctx (fst s) (cm_Txid msg) = Some c" "tc_responseNotifier c = []"
  shows "channel (fst (notify env msg s)) (cm_Txid msg) = Some ([msg], tc_waiting c)"
proof -
  have "h_txCtxs (fst s) \<noteq> None" using assms(1) by (cases "h_txCtxs (fst s)") (simp_all add: get_ctx_def)
  then show ?thesis using assms by (simp add: notify_def deliver_def)
qed

lemma failed_write_ends_transaction:
  assumes "i < length (w_handlers w)" "h_FSM (the_handler i w) = readystate"
    and "h_nextState (the_handler i w) ! k = \<lparr>ns_msg = error_msg e t, ns_sendToCC = True, ns_sendSync = False\<rparr>"
    and "channel (the_handler i w) t = Some ([], b)" "\<And>sent m. he_Send env sent m = Inr ()"
  shows "\<exists>w'. processStream_next env i k w = (Inr (), w') \<and> channel (the_handler i w') t = Some ([error_msg e t], b)
    \<and> h_sent (the_handler i w') = h_sent (the_handler i w) @ [error_msg e t]"
proof -
  let ?w = "upd_handler i (\<lambda>h. h\<lparr>h_nextState := remove_nth k (h_nextState h)\<rparr>) w" and ?m = "error_msg e t"
  let ?w1 = "snd (at_handler i (\<lambda>s. (Inr (), notify env ?m s)) ?w)"
  obtain c where c: "get_ctx (the_handler i ?w) t = Some c" "tc_responseNotifier c = []" "tc_waiting c = b"
    using assms(1,4) by (auto simp: channel_def get_ctx_def)
  have "channel (the_handler i ?w1) t = Some ([?m], b)"
    using deliver_channel[of "(the_handler i ?w, w_ledger ?w)" ?m c env] c assms(1) by (simp add: error_msg_def)
  moreover have "h_sent (the_handler i ?w1) = h_sent (the_handler i w)"
    using assms(1) by (auto simp: notify_def deliver_def set_ctx_def split: option.splits)
  moreover have "HandleMessage env i ?m ?w = (Inr None, ?w1)"
    using assms(1,2) by (intro HandleMessage_notify) (simp_all add: error_msg_def)
  moreover have "channel (h\<lparr>h_sent := sent\<rparr>) = channel h" for h sent by (simp add: channel_def get_ctx_def fun_eq_iff)
  ultimately show ?thesis using assms(1,3,5) by (simp add: processStream_next_def Let_def serialSend_def)
qed

section \<open>Surplus answers\<close>

lemma surplus_answer_blocks:
  assumes "i < length (w_handlers w)" "h_FSM (the_handler i w) = readystate" "channel (the_handler i w) (cm_Txid m) = Some (x # xs, b)"
    and "cm_Type m = MSG_COMPLETED"
  shows "processStream_recv env i (Some m) w = (Inr (), upd_handler i (\<lambda>h. h\<lparr>h_blocked := Some m\<rparr>) w)"
proof -
  obtain c where "get_ctx (the_handler i w) (cm_Txid m) = Some c" "tc_responseNotifier c = x # xs" using assms(3) by (auto simp: channel_def)
  then have "notify env m (the_handler i w, w_ledger w) = ((the_handler i w)\<lparr>h_blocked := Some m\<rparr>, w_ledger w)" by (simp add: notify_def)
  then have "snd (at_handler i (\<lambda>s. (Inr (), notify env m s)) w) = upd_handler i (\<lambda>h. h\<lparr>h_blocked := Some m\<rparr>) w"
    by (simp add: at_handler_def upd_handler_def set_handler_def)
  then show ?thesis using assms(2,4) by (simp add: processStream_recv_def HandleMessage_notify)
qed

text \<open>Nobody is left to make room in the channel, and everybody else waits for the lock.\<close>

definition frozen :: "Handler \<Rightarrow> bool" where
  "frozen h \<longleftrightarrow> (\<exists>m q. h_blocked h = Some m \<and> channel h (cm_Txid m) = Some (q, False))"

lemma frozen_step:
  assumes "h_step env i w w'" "i < length (w_handlers w)" "frozen (the_handler i w)"
  shows "i < length (w_handlers w') \<and> frozen (the_handler i w')"
proof -
  obtain m q where m: "h_blocked (the_handler i w) = Some m" "channel (the_handler i w) (cm_Txid m) = Some (q, False)"
    using assms(3) by (auto simp: frozen_def)
  from assms(1) show ?thesis
  proof (cases rule: h_step.cases)
    case (receive txid c a)
    let ?s = "(the_handler i w, w_ledger w)"
    obtain b ms where c: "tc_responseNotifier c = b # ms"
      using receive by (auto simp: at_handler_def receive_response_def Let_def split: option.splits list.splits)
    have ne: "cm_Txid m \<noteq> txid" using m(2) receive(1,2) by (auto simp: channel_def)
    let ?h = "set_ctx txid (c\<lparr>tc_responseNotifier := ms, tc_waiting := False\<rparr>) (the_handler i w)"
    have b: "h_blocked ?h = Some m" using m(1) by (simp add: set_ctx_def)
    then have "receive_response env txid ?s = (Some b, ?h, w_ledger w)"
      using receive(1) c ne by (simp add: receive_response_def Let_def)
    then have w': "w' = (set_handler i ?h w)\<lparr>w_ledger := w_ledger w\<rparr>" using receive(3) by (simp add: at_handler_def)
    have "frozen ?h" using b m(2) ne unfolding frozen_def by auto
    then show ?thesis using w' assms(2) by simp
  next
    case (timeout txid)
    have "channel (stop_waiting txid h) t = Some (q, False)" if "channel h t = Some (q, False)" for h t
      using that by (auto simp: stop_waiting_def channel_def split: option.splits)
    moreover have "h_blocked (stop_waiting txid h) = h_blocked h" for h using same_but_ctxs_ops(6)[of h txid] by (simp add: same_but_ctxs_def)
    ultimately show ?thesis using m timeout assms(2) by (auto simp: frozen_def)
  qed (use m(1) in simp_all)
qed

lemma blocked_forever:
  assumes "(h_step env i)\<^sup>*\<^sup>* w w'" "i < length (w_handlers w)" "frozen (the_handler i w)"
  shows "i < length (w_handlers w') \<and> frozen (the_handler i w')"
  using assms(1)
proof (induction rule: rtranclp_induct)
  case base
  then show ?case using assms(2,3) by simp
next
  case (step u v)
  then show ?case using frozen_step by blast
qed

text \<open>A handler that is ready, with what the channel of a transaction holds and whether somebody waits on it.\<close>

definition serves :: "nat \<Rightarrow> bytes \<Rightarrow> ChaincodeMessage list \<Rightarrow> bool \<Rightarrow> 'w world \<Rightarrow> bool" where
  "serves i t q b w \<longleftrightarrow> i < length (w_handlers w) \<and> h_FSM (the_handler i w) = readystate \<and> h_blocked (the_handler i w) = None
     \<and> \<not> h_ended (the_handler i w) \<and> channel (the_handler i w) t = Some (q, b)"

lemma completed_step:
  assumes "serves i t [] b w" "cm_Type m = MSG_COMPLETED" "cm_Txid m = t"
  shows "\<exists>w'. h_step env i w w' \<and> serves i t [m] b w'"
proof -
  let ?w = "snd (at_handler i (\<lambda>s. (Inr (), notify env m s)) w)" and ?s = "(the_handler i w, w_ledger w)"
  obtain c where c: "get_ctx (the_handler i w) t = Some c" "tc_responseNotifier c = []" "tc_waiting c = b"
    using assms(1) by (auto simp: serves_def channel_def)
  have "processStream_recv env i (Some m) w = (Inr (), ?w)"
    using assms by (simp add: processStream_recv_def serves_def HandleMessage_notify)
  then have "h_step env i w ?w" using assms(1) by (auto simp: serves_def intro: h_step.recv)
  moreover have "channel (the_handler i ?w) t = Some ([m], b)"
    using deliver_channel[of ?s m c env] c assms by (simp add: serves_def)
  moreover have "same_but_ctxs (the_handler i w) (the_handler i ?w)"
    using c assms by (simp add: serves_def notify_def deliver_def)
  ultimately show ?thesis using assms(1) unfolding serves_def same_but_ctxs_def by (metis at_handler_simps(2))
qed

lemma receive_step:
  assumes "serves i t [m] True w"
  shows "\<exists>w'. h_step env i w w' \<and> serves i t [] False w'"
proof -
  obtain c where c: "get_ctx (the_handler i w) t = Some c" "tc_responseNotifier c = [m]" "tc_waiting c"
    using assms by (auto simp: serves_def channel_def)
  have ctxs: "h_txCtxs (the_handler i w) \<noteq> None" using c(1) by (cases "h_txCtxs (the_handler i w)") (simp_all add: get_ctx_def)
  let ?h = "set_ctx t (c\<lparr>tc_responseNotifier := [], tc_waiting := False\<rparr>) (the_handler i w)"
  let ?w = "(set_handler i ?h w)\<lparr>w_ledger := w_ledger w\<rparr>"
  have b: "h_blocked ?h = None" using assms by (simp add: serves_def set_ctx_def)
  then have "receive_response env t (the_handler i w, w_ledger w) = (Some m, ?h, w_ledger w)"
    using c by (simp add: receive_response_def Let_def)
  then have "at_handler i (\<lambda>s. case receive_response env t s of (m, s') \<Rightarrow> (Inr m, s')) w = (Inr (Some m), ?w)" by (simp add: at_handler_def)
  then have "h_step env i w ?w" using h_step.receive[OF c(1,3)] by blast
  moreover have "serves i t [] False ?w" using assms b ctxs by (simp add: serves_def) (simp add: set_ctx_def)
  ultimately show ?thesis by blast
qed

text \<open>Three answers to one transaction, of which the first is taken, are enough.\<close>

lemma surplus_answers_freeze:
  fixes m :: ChaincodeMessage
  assumes "serves i t [] True w" "cm_Type m = MSG_COMPLETED" "cm_Txid m = t"
  shows "\<exists>w'. (h_step env i)\<^sup>*\<^sup>* w w' \<and> i < length (w_handlers w') \<and> frozen (the_handler i w')"
proof -
  obtain w1 where w1: "h_step env i w w1" "serves i t [m] True w1" using completed_step[OF assms] by blast
  obtain w2 where w2: "h_step env i w1 w2" "serves i t [] False w2" using receive_step[OF w1(2)] by blast
  obtain w3 where w3: "h_step env i w2 w3" "serves i t [m] False w3" using completed_step[OF w2(2) assms(2,3)] by blast
  let ?w4 = "upd_handler i (\<lambda>h. h\<lparr>h_blocked := Some m\<rparr>) w3"
  have "processStream_recv env i (Some m) w3 = (Inr (), ?w4)"
    using surplus_answer_blocks[of i w3 m m "[]" False env] w3(2) assms(2,3) by (simp add: serves_def)
  then have "h_step env i w3 ?w4" using w3(2) by (auto simp: serves_def intro: h_step.recv)
  then have "(h_step env i)\<^sup>*\<^sup>* w ?w4" using w1(1) w2(1) w3(1) by (meson converse_rtranclp_into_rtranclp rtranclp.rtrancl_refl)
  moreover have "frozen (the_handler i ?w4)"
    using w3(2) assms(3) by (simp add: serves_def frozen_def) (auto simp: channel_def get_ctx_def)
  ultimately show ?thesis using w3(2) by (auto simp: serves_def)
qed

end
