(* ===== verification/CompositeKey.thy ===== *)
theory CompositeKey
  imports Messages History
begin

text \<open>
  The keys of \<^verbatim>\<open>core/chaincode/shim/chaincode.go\<close>: composite keys, built from a type and attributes with a zero byte
  after each, and simple keys, which may not begin with a zero byte. Strings are checked to be UTF-8;
  \<open>runes\<close> decodes them as Go does.

  Results: splitting a composite key gives its parts (\<open>split_create\<close>); no simple key is a composite
  one (\<open>composite_not_simple\<close>); the range that is scanned for a partial key holds exactly the
  keys that extend it (\<open>partial_key_range\<close>); a key without a zero byte after the first stops the chaincode
  (\<open>split_panics\<close>).
\<close>

section \<open>UTF-8\<close>

definition byte :: "char \<Rightarrow> nat" where
  "byte c = of_char c"

definition cont :: "char \<Rightarrow> bool" where
  "cont c \<longleftrightarrow> 0x80 \<le> byte c \<and> byte c \<le> 0xBF"

definition conts :: "nat \<Rightarrow> bytes \<Rightarrow> bool" where
  "conts k bs \<longleftrightarrow> k \<le> length bs \<and> (\<forall>c \<in> set (take k bs). cont c)"

definition low6 :: "char \<Rightarrow> nat" where
  "low6 c = byte c - 0x80"

text \<open>The rune that starts with a byte, and the number of bytes that follow it.\<close>

definition decode_rune :: "char \<Rightarrow> bytes \<Rightarrow> (nat \<times> nat) option" where
  "decode_rune b bs =
     (let n = byte b in
      if n < 0x80 then Some (n, 0)
      else if 0xC2 \<le> n \<and> n \<le> 0xDF \<and> conts 1 bs then Some ((n - 0xC0) * 64 + low6 (bs ! 0), 1)
      else if 0xE0 \<le> n \<and> n \<le> 0xEF \<and> conts 2 bs \<and> (n = 0xE0 \<longrightarrow> 0xA0 \<le> byte (bs ! 0)) \<and> (n = 0xED \<longrightarrow> byte (bs ! 0) \<le> 0x9F)
      then Some (((n - 0xE0) * 64 + low6 (bs ! 0)) * 64 + low6 (bs ! 1), 2)
      else if 0xF0 \<le> n \<and> n \<le> 0xF4 \<and> conts 3 bs \<and> (n = 0xF0 \<longrightarrow> 0x90 \<le> byte (bs ! 0)) \<and> (n = 0xF4 \<longrightarrow> byte (bs ! 0) \<le> 0x8F)
      then Some ((((n - 0xF0) * 64 + low6 (bs ! 0)) * 64 + low6 (bs ! 1)) * 64 + low6 (bs ! 2), 3)
      else None)"

function runes :: "bytes \<Rightarrow> nat list option" where
  "runes [] = Some []"
| "runes (b # bs) = (case decode_rune b bs of None \<Rightarrow> None | Some (r, k) \<Rightarrow> map_option (Cons r) (runes (drop k bs)))"
  by pat_completeness auto
termination by (relation "measure length") auto

section \<open>Keys\<close>

definition minUnicodeRuneValue :: char where
  "minUnicodeRuneValue = CHR 0x00"

definition maxUnicodeRuneValue :: bytes where
  "maxUnicodeRuneValue = [CHR 0xF4, CHR 0x8F, CHR 0xBF, CHR 0xBF]"

definition emptyKeySubstitute :: bytes where
  "emptyKeySubstitute = [CHR 0x01]"

definition validateCompositeKeyAttribute :: "bytes \<Rightarrow> unit res" where
  "validateCompositeKeyAttribute str =
     (case runes str of
        None \<Rightarrow> Inl (Err ''Not a valid utf8 string'')
      | Some rs \<Rightarrow> if 0 \<in> set rs \<or> 0x10FFFF \<in> set rs then Inl (Err ''Input contain unicode not allowed in the input attribute of a composite key'')
          else Inr ())"

definition createCompositeKey :: "bytes \<Rightarrow> bytes list \<Rightarrow> bytes res" where
  "createCompositeKey objectType attributes =
     res_bind (validateCompositeKeyAttribute objectType) (\<lambda>_.
       foldM (\<lambda>ck att. res_bind (validateCompositeKeyAttribute att) (\<lambda>_. Inr (ck @ att @ [minUnicodeRuneValue])))
         ([minUnicodeRuneValue] @ objectType @ [minUnicodeRuneValue]) attributes)"

text \<open>The loop of \<^verbatim>\<open>splitCompositeKey\<close>: the components are what a zero byte ends.\<close>

fun components :: "bytes \<Rightarrow> bytes \<Rightarrow> bytes list" where
  "components acc [] = []"
| "components acc (c # cs) = (if c = minUnicodeRuneValue then acc # components [] cs else components (acc @ [c]) cs)"

definition splitCompositeKey :: "bytes \<Rightarrow> (bytes \<times> bytes list) res" where
  "splitCompositeKey compositeKey =
     (case components [] (drop 1 compositeKey) of
        [] \<Rightarrow> Inl (Panic ''index out of range'')
      | t # atts \<Rightarrow> Inr (t, atts))"

definition validateSimpleKeys :: "bytes list \<Rightarrow> unit res" where
  "validateSimpleKeys simpleKeys =
     foldM (\<lambda>_ key. case key of c # _ \<Rightarrow> if c = minUnicodeRuneValue then Inl (Err ''First character of the key contains a null character which is not allowed'') else Inr ()
         | [] \<Rightarrow> Inr ()) () simpleKeys"

section \<open>Composite keys and their parts\<close>

lemma decode_rune_zero: "decode_rune b bs = Some (r, k) \<Longrightarrow> b = CHR 0x00 \<Longrightarrow> r = 0"
  by (simp add: decode_rune_def byte_def)

lemma decode_rune_conts: "decode_rune b bs = Some (r, k) \<Longrightarrow> conts k bs"
  by (auto simp: decode_rune_def Let_def conts_def split: if_splits)

lemma not_cont_zero: "\<not> cont (CHR 0x00)"
  by (simp add: cont_def byte_def)

lemma runes_zero_byte:
  assumes "runes s = Some rs" "CHR 0x00 \<in> set s"
  shows "0 \<in> set rs"
  using assms
proof (induction s arbitrary: rs rule: runes.induct)
  case (2 b bs)
  obtain r k rs' where d: "decode_rune b bs = Some (r, k)" "runes (drop k bs) = Some rs'" "rs = r # rs'"
    using 2(2) by (auto split: option.splits)
  show ?case
  proof (cases "b = CHR 0x00")
    case False
    then have "CHR 0x00 \<in> set (take k bs) \<union> set (drop k bs)" using 2(3) by (metis append_take_drop_id set_ConsD set_append)
    moreover have "CHR 0x00 \<notin> set (take k bs)" using decode_rune_conts[OF d(1)] not_cont_zero by (auto simp: conts_def)
    ultimately have "0 \<in> set rs'" using 2(1)[OF d(1)] d(2) by auto
    then show ?thesis using d(3) by simp
  qed (use d decode_rune_zero in auto)
qed simp

lemma valid_attribute_no_zero: "validateCompositeKeyAttribute s = Inr () \<Longrightarrow> CHR 0x00 \<notin> set s"
  using runes_zero_byte by (auto simp: validateCompositeKeyAttribute_def split: option.splits if_splits)

abbreviation sep :: char where
  "sep \<equiv> minUnicodeRuneValue"

lemma components_part: "sep \<notin> set x \<Longrightarrow> components acc (x @ sep # rest) = (acc @ x) # components [] rest"
  by (induction x arbitrary: acc) auto

lemma create_accepted:
  "createCompositeKey t atts = Inr ck \<longleftrightarrow> (\<forall>a \<in> set (t # atts). validateCompositeKeyAttribute a = Inr ())
     \<and> ck = sep # concat (map (\<lambda>a. a @ [sep]) (t # atts))"
proof -
  have "foldM (\<lambda>ck att. res_bind (validateCompositeKeyAttribute att) (\<lambda>_. Inr (ck @ att @ [sep]))) acc as = Inr ck
    \<longleftrightarrow> (\<forall>a \<in> set as. validateCompositeKeyAttribute a = Inr ()) \<and> ck = acc @ concat (map (\<lambda>a. a @ [sep]) as)" for acc as
    by (induction as arbitrary: acc) (auto simp: res_bind_Inr_conv)
  then show ?thesis by (auto simp: createCompositeKey_def res_bind_Inr_conv)
qed

lemma components_concat:
  "\<forall>a \<in> set as. sep \<notin> set a \<Longrightarrow> components [] (concat (map (\<lambda>a. a @ [sep]) as)) = as"
  by (induction as) (auto simp: components_part)

lemma split_create:
  assumes "createCompositeKey t atts = Inr ck"
  shows "splitCompositeKey ck = Inr (t, atts)"
proof -
  have ck: "drop 1 ck = concat (map (\<lambda>a. a @ [sep]) (t # atts))" "\<forall>a \<in> set (t # atts). sep \<notin> set a"
    using assms valid_attribute_no_zero by (auto simp: create_accepted minUnicodeRuneValue_def)
  have "components [] (drop 1 ck) = t # atts" unfolding ck(1) by (rule components_concat[OF ck(2)])
  then show ?thesis by (simp add: splitCompositeKey_def)
qed

lemma validate_simple: "validateSimpleKeys ks = Inr () \<longleftrightarrow> (\<forall>k \<in> set ks. take 1 k \<noteq> [sep])"
  unfolding validateSimpleKeys_def by (induction ks) (auto simp: res_bind_Inr_conv split: list.splits if_splits)

lemma composite_not_simple:
  assumes "createCompositeKey t atts = Inr ck" "validateSimpleKeys ks = Inr ()"
  shows "ck \<notin> set ks"
proof -
  have "take 1 ck = [sep]" using assms(1) by (auto simp: create_accepted)
  then show ?thesis using assms(2) by (auto simp: validate_simple)
qed

lemma split_panics: "sep \<notin> set (drop 1 ck) \<Longrightarrow> splitCompositeKey ck = Inl (Panic ''index out of range'')"
proof -
  have "sep \<notin> set xs \<Longrightarrow> components acc xs = []" for xs acc by (induction xs arbitrary: acc) auto
  then show "sep \<notin> set (drop 1 ck) \<Longrightarrow> ?thesis" by (simp add: splitCompositeKey_def)
qed

section \<open>The range of a partial key\<close>

lemma byte_char: "byte (char_of n) = n mod 256"
  by (simp add: byte_def)

lemma byte_eq: "byte c = byte d \<longleftrightarrow> c = d"
  by (simp add: byte_def)

lemma byte_less: "c < d \<longleftrightarrow> byte c < byte d"
  by (simp add: char_less_iff byte_def)

lemma byte_consts: "byte (CHR 0xF4) = 0xF4" "byte (CHR 0x8F) = 0x8F" "byte (CHR 0xBF) = 0xBF" "byte (CHR 0x00) = 0"
  by (simp_all add: byte_def)

text \<open>A rune other than the largest one, and whatever follows it, comes before the largest one.\<close>

lemma decode_rune_below_max:
  assumes "decode_rune b bs = Some (r, k)" "r \<noteq> 0x10FFFF"
  shows "b # bs < maxUnicodeRuneValue"
proof (cases "byte b < 0xF4")
  case True
  then show ?thesis by (simp add: maxUnicodeRuneValue_def byte_less byte_consts)
next
  case False
  then have d: "byte b = 0xF4" "conts 3 bs" "byte (bs ! 0) \<le> 0x8F"
    "r = (((0xF4 - 0xF0) * 64 + low6 (bs ! 0)) * 64 + low6 (bs ! 1)) * 64 + low6 (bs ! 2)"
    using assms(1) by (auto simp: decode_rune_def Let_def split: if_splits)
  then obtain b0 b1 b2 rest where bs: "bs = b0 # b1 # b2 # rest"
    by (cases bs rule: list.exhaust; cases "tl bs" rule: list.exhaust; cases "tl (tl bs)" rule: list.exhaust) (auto simp: conts_def)
  have c: "byte b1 \<le> 0xBF" "byte b2 \<le> 0xBF" "0x80 \<le> byte b0" using d(2) by (auto simp: bs conts_def cont_def numeral_3_eq_3)
  have b: "b = CHR 0xF4" using d(1) byte_eq[of b "CHR 0xF4"] by (simp add: byte_consts)
  have ne: "\<not> (byte b0 = 0x8F \<and> byte b1 = 0xBF \<and> byte b2 = 0xBF)" using assms(2) d(4) by (auto simp: bs low6_def)
  have eqs: "c = CHR 0x8F \<longleftrightarrow> byte c = 0x8F" "c = CHR 0xBF \<longleftrightarrow> byte c = 0xBF" for c
    using byte_eq[of c "CHR 0x8F"] byte_eq[of c "CHR 0xBF"] by (simp_all add: byte_consts)
  show ?thesis using c ne d(3)
    by (auto simp: maxUnicodeRuneValue_def bs b byte_less byte_consts eqs)
qed

lemma conts_append: "conts j (bs @ sep # rest) \<longleftrightarrow> conts j bs"
proof -
  have "\<not> cont sep" by (simp add: not_cont_zero minUnicodeRuneValue_def)
  then show ?thesis by (cases "j \<le> length bs") (auto simp: conts_def take_Cons')
qed

lemma decode_rune_append: "decode_rune b (bs @ sep # rest) = decode_rune b bs"
proof -
  have "conts 1 bs \<Longrightarrow> (bs @ sep # rest) ! 0 = bs ! 0" "conts 2 bs \<Longrightarrow> (bs @ sep # rest) ! 0 = bs ! 0" "conts 2 bs \<Longrightarrow> (bs @ sep # rest) ! 1 = bs ! 1"
    "conts 3 bs \<Longrightarrow> (bs @ sep # rest) ! 0 = bs ! 0" "conts 3 bs \<Longrightarrow> (bs @ sep # rest) ! 1 = bs ! 1" "conts 3 bs \<Longrightarrow> (bs @ sep # rest) ! 2 = bs ! 2"
    by (auto simp: conts_def nth_append)
  then show ?thesis unfolding decode_rune_def Let_def conts_append by (simp cong: conj_cong if_cong)
qed

lemma attribute_below_max:
  assumes "validateCompositeKeyAttribute a = Inr ()"
  shows "a @ sep # rest < maxUnicodeRuneValue"
proof (cases a)
  case Nil
  then show ?thesis by (simp add: maxUnicodeRuneValue_def minUnicodeRuneValue_def byte_less byte_consts)
next
  case (Cons b bs)
  then obtain r k rs where "decode_rune b bs = Some (r, k)" "runes (drop k bs) = Some rs" "r \<noteq> 0x10FFFF"
    using assms by (auto simp: validateCompositeKeyAttribute_def split: option.splits if_splits)
  moreover have "decode_rune b (bs @ sep # rest) = Some (r, k)"
    using calculation(1) by (simp add: decode_rune_append)
  ultimately show ?thesis using Cons decode_rune_below_max by (metis append_Cons)
qed

lemma prefix_interval_list:
  fixes p x m :: bytes
  assumes "p \<le> x" "x < p @ m"
  shows "\<exists>t. x = p @ t \<and> t < m"
  using assms
proof (induction p arbitrary: x)
  case (Cons a p)
  then show ?case by (cases x) auto
qed simp

text \<open>
  The range that \<^verbatim>\<open>GetStateByPartialCompositeKey\<close> scans holds exactly the composite keys of the type whose
  attributes begin with those given, the key of these attributes alone included.
\<close>

lemma partial_key_range:
  assumes "createCompositeKey t atts = Inr pk" "createCompositeKey t' atts' = Inr ck"
  shows "pk \<le> ck \<and> ck < pk @ maxUnicodeRuneValue \<longleftrightarrow> t' = t \<and> (\<exists>more. atts' = atts @ more)"
proof
  assume "pk \<le> ck \<and> ck < pk @ maxUnicodeRuneValue"
  then obtain x where x: "ck = pk @ x" using prefix_interval_list by blast
  have pk: "pk = sep # concat (map (\<lambda>a. a @ [sep]) (t # atts))" "\<forall>a \<in> set (t # atts). sep \<notin> set a"
    using assms(1) valid_attribute_no_zero by (auto simp: create_accepted minUnicodeRuneValue_def)
  have "components [] (concat (map (\<lambda>a. a @ [sep]) as) @ x) = as @ components [] x" if "\<forall>a \<in> set as. sep \<notin> set a" for as
    using that by (induction as) (auto simp: components_part)
  from this[OF pk(2)] have "components [] (drop 1 ck) = (t # atts) @ components [] x" by (simp add: x pk(1))
  then show "t' = t \<and> (\<exists>more. atts' = atts @ more)" using split_create[OF assms(2)] by (auto simp: splitCompositeKey_def)
next
  assume "t' = t \<and> (\<exists>more. atts' = atts @ more)"
  then obtain more where more: "t' = t" "atts' = atts @ more" by blast
  let ?x = "concat (map (\<lambda>a. a @ [sep]) more)"
  have ck: "ck = pk @ ?x" "\<forall>a \<in> set more. validateCompositeKeyAttribute a = Inr ()"
    using assms more by (auto simp: create_accepted)
  have "?x < maxUnicodeRuneValue"
  proof (cases more)
    case Nil
    then show ?thesis by (simp add: maxUnicodeRuneValue_def)
  next
    case (Cons a as)
    then show ?thesis using attribute_below_max[of a] ck(2) by simp
  qed
  moreover have "pk @ [] \<le> pk @ ?x" by (simp only: le_append_same) simp
  ultimately show "pk \<le> ck \<and> ck < pk @ maxUnicodeRuneValue" unfolding ck(1) by simp
qed

end
