(* ===== verification/Shim.thy ===== *)
theory Shim
  imports CCHandler CompositeKey
begin

text \<open>
  The chaincode's end of the stream: \<^verbatim>\<open>core/chaincode/shim/handler.go\<close>, \<^verbatim>\<open>chaincode.go\<close>, \<^verbatim>\<open>chaincoderlist.go\<close> and
  \<^verbatim>\<open>inprocstream.go\<close>. A call of the stub sends a request and waits for its answer on the channel of its
  transaction; what the peer does in between is the function \<open>sm_sendReceive\<close> over a state \<open>'p\<close>.

  Results: a stub leaves no channel behind (\<open>request_channels\<close>) and a request is one exchange with the
  peer (\<open>request_answer\<close>); the results of a query that is fetched page by page are in theory
  \<open>Paging\<close>. A failed call of another chaincode reports its
  reason as the payload, not the message (\<open>failed_invocation_response\<close>), and the error of fetching
  the next page loses the result it was fetched with (\<open>prefetch_error_loses_result\<close>).
\<close>

section \<open>Requests\<close>

record 'p shim_state =
  ss_responseChannel :: "bytes list option"
  ss_peer :: 'p

record 'p shim_env =
  sm_sendReceive :: "ChaincodeMessage \<Rightarrow> ('p, ChaincodeMessage) lsm"
  sm_MarshalPutStateInfo :: "bytes \<Rightarrow> slice \<Rightarrow> bytes"
  sm_MarshalGetStateByRange :: "bytes \<Rightarrow> bytes \<Rightarrow> bytes"
  sm_MarshalQueryStateNext :: "bytes \<Rightarrow> bytes"
  sm_MarshalQueryStateClose :: "bytes \<Rightarrow> bytes"
  sm_MarshalGetQueryResult :: "bytes \<Rightarrow> bytes"
  sm_MarshalGetHistoryForKey :: "bytes \<Rightarrow> bytes"
  sm_MarshalChaincodeSpec :: "bytes \<Rightarrow> bytes list \<Rightarrow> bytes"
  sm_UnmarshalQueryResponse :: "bytes \<Rightarrow> QueryResponse res"
  sm_UnmarshalMessage :: "bytes \<Rightarrow> ChaincodeMessage res"
  sm_UnmarshalResponse :: "bytes \<Rightarrow> Response res"
  sm_UnmarshalInput :: "bytes \<Rightarrow> ChaincodeInput res"
  sm_MarshalResponse :: "Response \<Rightarrow> bytes res"

definition createChannel :: "bytes \<Rightarrow> ('p shim_state, unit) lsm" where
  "createChannel txid s =
     (case ss_responseChannel s of
        None \<Rightarrow> (Inl (Err (''['' @ shorttxid txid @ '']Cannot create response channel'')), s)
      | Some cs \<Rightarrow> if txid \<in> set cs then (Inl (Err (''['' @ shorttxid txid @ '']Channel exists'')), s)
          else (Inr (), s\<lparr>ss_responseChannel := Some (txid # cs)\<rparr>))"

definition deleteChannel :: "bytes \<Rightarrow> 'p shim_state \<Rightarrow> 'p shim_state" where
  "deleteChannel txid s = s\<lparr>ss_responseChannel := map_option (removeAll txid) (ss_responseChannel s)\<rparr>"

text \<open>Whether a message from the peer finds the channel of its transaction.\<close>

definition sendChannel :: "ChaincodeMessage \<Rightarrow> 'p shim_state \<Rightarrow> unit res" where
  "sendChannel msg s =
     (case ss_responseChannel s of
        None \<Rightarrow> Inl (Err (''['' @ shorttxid (cm_Txid msg) @ '']Cannot send message response channel''))
      | Some cs \<Rightarrow> if cm_Txid msg \<in> set cs then Inr () else Inl (Err (''['' @ shorttxid (cm_Txid msg) @ '']sendChannel does not exist'')))"

definition sendReceive :: "'p shim_env \<Rightarrow> ChaincodeMessage \<Rightarrow> ('p shim_state, ChaincodeMessage) lsm" where
  "sendReceive env msg s = (case sm_sendReceive env msg (ss_peer s) of (r, p) \<Rightarrow> (r, s\<lparr>ss_peer := p\<rparr>))"

definition request_msg :: "MessageType \<Rightarrow> bytes \<Rightarrow> bytes \<Rightarrow> ChaincodeMessage" where
  "request_msg typ payload txid = \<lparr>cm_Type = typ, cm_Payload = Some payload, cm_Txid = txid, cm_Proposal = None, cm_ChaincodeEvent = None\<rparr>"

text \<open>
  The frame of all requests: open the channel, exchange the messages with the channel closed whatever
  comes, and read the answer. \<open>on_error\<close> is what a failure of the stream is reported as.
\<close>

definition exchange :: "'p shim_env \<Rightarrow> (error \<Rightarrow> error) \<Rightarrow> ChaincodeMessage \<Rightarrow> ('p shim_state, ChaincodeMessage) lsm" where
  "exchange env on_error msg =
     lsm_bind (createChannel (cm_Txid msg)) (\<lambda>_ s.
       case sendReceive env msg s of
         (Inl (Err e), s) \<Rightarrow> (Inl (on_error (Err e)), deleteChannel (cm_Txid msg) s)
       | (r, s) \<Rightarrow> (r, deleteChannel (cm_Txid msg) s))"

definition read_response :: "ChaincodeMessage \<Rightarrow> slice res" where
  "read_response m =
     (if cm_Type m = MSG_RESPONSE then Inr (cm_Payload m)
      else if cm_Type m = MSG_ERROR then Inl (Err (str_of (cm_Payload m)))
      else Inl (Err (''['' @ shorttxid (cm_Txid m) @ '']Incorrect chaincode message received. Expecting RESPONSE or ERROR'')))"

definition error_sending :: "bytes \<Rightarrow> bytes \<Rightarrow> error \<Rightarrow> error" where
  "error_sending txid what e = Err (''['' @ shorttxid txid @ '']error sending '' @ what)"

definition request :: "'p shim_env \<Rightarrow> bytes \<Rightarrow> MessageType \<Rightarrow> bytes \<Rightarrow> bytes \<Rightarrow> ('p shim_state, slice) lsm" where
  "request env what typ payload txid =
     lsm_bind (exchange env (error_sending txid what) (request_msg typ payload txid)) (\<lambda>m. lift_res (read_response m))"

definition shim_handleGetState :: "'p shim_env \<Rightarrow> bytes \<Rightarrow> bytes \<Rightarrow> ('p shim_state, slice) lsm" where
  "shim_handleGetState env key txid = request env ''GET_STATE'' MSG_GET_STATE key txid"

definition shim_handlePutState :: "'p shim_env \<Rightarrow> bytes \<Rightarrow> slice \<Rightarrow> bytes \<Rightarrow> ('p shim_state, unit) lsm" where
  "shim_handlePutState env key value txid =
     lsm_bind (request env ''PUT_STATE'' MSG_PUT_STATE (sm_MarshalPutStateInfo env key value) txid) (\<lambda>_. ret ())"

definition shim_handleDelState :: "'p shim_env \<Rightarrow> bytes \<Rightarrow> bytes \<Rightarrow> ('p shim_state, unit) lsm" where
  "shim_handleDelState env key txid = lsm_bind (request env ''DEL_STATE'' MSG_DEL_STATE key txid) (\<lambda>_. ret ())"

definition query_request :: "'p shim_env \<Rightarrow> bytes \<Rightarrow> MessageType \<Rightarrow> bytes \<Rightarrow> bytes \<Rightarrow> ('p shim_state, QueryResponse) lsm" where
  "query_request env what typ payload txid =
     lsm_bind (request env what typ payload txid) (\<lambda>b.
       lsm_try (lift_res (sm_UnmarshalQueryResponse env (str_of b))) (\<lambda>_. fail (Err (''['' @ shorttxid txid @ '']unmarshall error''))) ret)"

definition shim_handleGetStateByRange :: "'p shim_env \<Rightarrow> bytes \<Rightarrow> bytes \<Rightarrow> bytes \<Rightarrow> ('p shim_state, QueryResponse) lsm" where
  "shim_handleGetStateByRange env startKey endKey txid =
     query_request env ''GET_STATE_BY_RANGE'' MSG_GET_STATE_BY_RANGE (sm_MarshalGetStateByRange env startKey endKey) txid"

definition shim_handleQueryStateNext :: "'p shim_env \<Rightarrow> bytes \<Rightarrow> bytes \<Rightarrow> ('p shim_state, QueryResponse) lsm" where
  "shim_handleQueryStateNext env iterID txid =
     query_request env ''QUERY_STATE_NEXT'' MSG_QUERY_STATE_NEXT (sm_MarshalQueryStateNext env iterID) txid"

definition shim_handleQueryStateClose :: "'p shim_env \<Rightarrow> bytes \<Rightarrow> bytes \<Rightarrow> ('p shim_state, QueryResponse) lsm" where
  "shim_handleQueryStateClose env iterID txid =
     query_request env ''QUERY_STATE_CLOSE'' MSG_QUERY_STATE_CLOSE (sm_MarshalQueryStateClose env iterID) txid"

definition shim_handleGetQueryResult :: "'p shim_env \<Rightarrow> bytes \<Rightarrow> bytes \<Rightarrow> ('p shim_state, QueryResponse) lsm" where
  "shim_handleGetQueryResult env query txid =
     query_request env ''GET_QUERY_RESULT'' MSG_GET_QUERY_RESULT (sm_MarshalGetQueryResult env query) txid"

definition shim_handleGetHistoryForKey :: "'p shim_env \<Rightarrow> bytes \<Rightarrow> bytes \<Rightarrow> ('p shim_state, QueryResponse) lsm" where
  "shim_handleGetHistoryForKey env key txid =
     query_request env ''GET_HISTORY_FOR_KEY'' MSG_GET_HISTORY_FOR_KEY (sm_MarshalGetHistoryForKey env key) txid"

definition createResponse :: "int \<Rightarrow> slice \<Rightarrow> Response" where
  "createResponse status payload = \<lparr>rs_Status = status, rs_Message = [], rs_Payload = payload\<rparr>"

text \<open>What the answer to a call means; a failure is a response of status 500 with the reason as payload.\<close>

definition invoked_response :: "'p shim_env \<Rightarrow> ChaincodeMessage \<Rightarrow> Response res" where
  "invoked_response env m =
     (if cm_Type m = MSG_RESPONSE then
        res_try (sm_UnmarshalMessage env (str_of (cm_Payload m))) (\<lambda>e. Inr (createResponse shim_ERROR (Some (err_msg e)))) (\<lambda>respMsg.
          if cm_Type respMsg = MSG_COMPLETED then
            res_try (sm_UnmarshalResponse env (str_of (cm_Payload respMsg))) (\<lambda>e. Inr (createResponse shim_ERROR (Some (err_msg e)))) Inr
          else Inr (createResponse shim_ERROR (cm_Payload m)))
      else if cm_Type m = MSG_ERROR then Inr (createResponse shim_ERROR (cm_Payload m))
      else Inr (createResponse shim_ERROR (Some (''['' @ shorttxid (cm_Txid m) @ '']Incorrect chaincode message received. Expecting RESPONSE or ERROR''))))"

definition handleInvokeChaincode :: "'p shim_env \<Rightarrow> bytes \<Rightarrow> bytes list \<Rightarrow> bytes \<Rightarrow> ('p shim_state, Response) lsm" where
  "handleInvokeChaincode env chaincodeName args txid =
     lsm_try (exchange env (error_sending txid ''INVOKE_CHAINCODE'')
         (request_msg MSG_INVOKE_CHAINCODE (sm_MarshalChaincodeSpec env chaincodeName args) txid))
       (\<lambda>e. ret (createResponse shim_ERROR (Some (err_msg e)))) (\<lambda>m. lift_res (invoked_response env m))"

section \<open>The stub\<close>

record ChaincodeStub =
  cst_TxID :: bytes
  cst_args :: "bytes list"
  cst_signedProposal :: "SignedProposal option"
  cst_proposal :: "Proposal option"
  cst_creator :: bytes
  cst_transient :: "(bytes, bytes) gomap"
  cst_binding :: bytes
  cst_chaincodeEvent :: "ChaincodeEvent option"
  cst_seq :: int

record stub_env =
  su_pu :: proto_utils
  su_GetChaincodeProposalContext :: "Proposal \<Rightarrow> (bytes \<times> (bytes, bytes) gomap) res"
  su_ComputeProposalBinding :: "Proposal \<Rightarrow> bytes res"

definition stub_init :: "stub_env \<Rightarrow> bytes \<Rightarrow> ChaincodeInput \<Rightarrow> SignedProposal option \<Rightarrow> ChaincodeStub res" where
  "stub_init su txid inp signedProposal =
     (let stub = \<lparr>cst_TxID = txid, cst_args = in_Args inp, cst_signedProposal = signedProposal, cst_proposal = None, cst_creator = [],
            cst_transient = [], cst_binding = [], cst_chaincodeEvent = None, cst_seq = 0\<rparr> in
      case signedProposal of
        None \<Rightarrow> Inr stub
      | Some sp \<Rightarrow>
          res_try (pu_GetProposal (su_pu su) (str_of (sp_ProposalBytes sp))) (\<lambda>_. Inl (Err ''Failed extracting signedProposal from signed signedProposal.'')) (\<lambda>prp.
          res_try (su_GetChaincodeProposalContext su prp) (\<lambda>_. Inl (Err ''Failed extracting signedProposal fields.'')) (\<lambda>(creator, transient).
          res_try (su_ComputeProposalBinding su prp) (\<lambda>_. Inl (Err ''Failed computing binding from signedProposal.'')) (\<lambda>binding.
            Inr (stub\<lparr>cst_proposal := Some prp, cst_creator := creator, cst_transient := transient, cst_binding := binding\<rparr>)))))"

definition stub_InvokeChaincode :: "'p shim_env \<Rightarrow> ChaincodeStub \<Rightarrow> bytes \<Rightarrow> bytes list \<Rightarrow> bytes \<Rightarrow> ('p shim_state, Response) lsm" where
  "stub_InvokeChaincode env stub chaincodeName args chan =
     handleInvokeChaincode env (if chan \<noteq> [] then chaincodeName @ ''/'' @ chan else chaincodeName) args (cst_TxID stub)"

definition stub_GetState :: "'p shim_env \<Rightarrow> ChaincodeStub \<Rightarrow> bytes \<Rightarrow> ('p shim_state, slice) lsm" where
  "stub_GetState env stub key = shim_handleGetState env key (cst_TxID stub)"

definition stub_PutState :: "'p shim_env \<Rightarrow> ChaincodeStub \<Rightarrow> bytes \<Rightarrow> slice \<Rightarrow> ('p shim_state, unit) lsm" where
  "stub_PutState env stub key value =
     (if key = [] then fail (Err ''key must not be an empty string'') else shim_handlePutState env key value (cst_TxID stub))"

definition stub_DelState :: "'p shim_env \<Rightarrow> ChaincodeStub \<Rightarrow> bytes \<Rightarrow> ('p shim_state, unit) lsm" where
  "stub_DelState env stub key = shim_handleDelState env key (cst_TxID stub)"

definition GetFunctionAndParameters :: "ChaincodeStub \<Rightarrow> bytes \<times> bytes list" where
  "GetFunctionAndParameters stub = (case cst_args stub of [] \<Rightarrow> ([], []) | f # params \<Rightarrow> (f, params))"

definition GetArgsSlice :: "ChaincodeStub \<Rightarrow> bytes" where
  "GetArgsSlice stub = concat (cst_args stub)"

definition stub_GetChannelHeader :: "stub_env \<Rightarrow> ChaincodeStub \<Rightarrow> ChannelHeader res" where
  "stub_GetChannelHeader su stub =
     res_bind (deref (cst_proposal stub)) (\<lambda>prp.
     res_bind (pu_GetHeader (su_pu su) (pp_Header prp)) (\<lambda>hdr.
       pu_UnmarshalChannelHeader (su_pu su) (hd_ChannelHeader hdr)))"

definition SetEvent :: "bytes \<Rightarrow> bytes \<Rightarrow> ChaincodeStub \<Rightarrow> ChaincodeStub res" where
  "SetEvent name payload stub =
     (if name = [] then Inl (Err ''Event name can not be nil string.'')
      else Inr (stub\<lparr>cst_chaincodeEvent := Some \<lparr>ev_ChaincodeId = [], ev_TxId = [], ev_EventName = name, ev_Payload = payload\<rparr>\<rparr>))"

section \<open>Iterators\<close>

record CommonIterator =
  it_uuid :: bytes
  it_response :: QueryResponse
  it_currentLoc :: nat

definition new_iterator :: "ChaincodeStub \<Rightarrow> QueryResponse \<Rightarrow> CommonIterator" where
  "new_iterator stub response = \<lparr>it_uuid = cst_TxID stub, it_response = response, it_currentLoc = 0\<rparr>"

definition stub_handleGetStateByRange :: "'p shim_env \<Rightarrow> ChaincodeStub \<Rightarrow> bytes \<Rightarrow> bytes \<Rightarrow> ('p shim_state, CommonIterator) lsm" where
  "stub_handleGetStateByRange env stub startKey endKey =
     lsm_bind (shim_handleGetStateByRange env startKey endKey (cst_TxID stub)) (\<lambda>response. ret (new_iterator stub response))"

definition stub_GetStateByRange :: "'p shim_env \<Rightarrow> ChaincodeStub \<Rightarrow> bytes \<Rightarrow> bytes \<Rightarrow> ('p shim_state, CommonIterator) lsm" where
  "stub_GetStateByRange env stub startKey endKey =
     (let startKey = (if startKey = [] then emptyKeySubstitute else startKey) in
      lsm_bind (lift_res (validateSimpleKeys [startKey, endKey])) (\<lambda>_. stub_handleGetStateByRange env stub startKey endKey))"

definition stub_GetStateByPartialCompositeKey :: "'p shim_env \<Rightarrow> ChaincodeStub \<Rightarrow> bytes \<Rightarrow> bytes list \<Rightarrow> ('p shim_state, CommonIterator) lsm" where
  "stub_GetStateByPartialCompositeKey env stub objectType attributes =
     lsm_bind (lift_res (createCompositeKey objectType attributes)) (\<lambda>pk.
       stub_handleGetStateByRange env stub pk (pk @ maxUnicodeRuneValue))"

definition stub_GetQueryResult :: "'p shim_env \<Rightarrow> ChaincodeStub \<Rightarrow> bytes \<Rightarrow> ('p shim_state, CommonIterator) lsm" where
  "stub_GetQueryResult env stub query =
     lsm_bind (shim_handleGetQueryResult env query (cst_TxID stub)) (\<lambda>response. ret (new_iterator stub response))"

definition stub_GetHistoryForKey :: "'p shim_env \<Rightarrow> ChaincodeStub \<Rightarrow> bytes \<Rightarrow> ('p shim_state, CommonIterator) lsm" where
  "stub_GetHistoryForKey env stub key =
     lsm_bind (shim_handleGetHistoryForKey env key (cst_TxID stub)) (\<lambda>response. ret (new_iterator stub response))"

definition HasNext :: "CommonIterator \<Rightarrow> bool" where
  "HasNext it = (it_currentLoc it < length (qr_Results (it_response it)) \<or> qr_HasMore (it_response it))"

definition fetchNextQueryResult :: "'p shim_env \<Rightarrow> CommonIterator \<Rightarrow> ('p shim_state, CommonIterator) lsm" where
  "fetchNextQueryResult env it =
     lsm_bind (shim_handleQueryStateNext env (qr_Id (it_response it)) (it_uuid it)) (\<lambda>response.
       ret (it\<lparr>it_currentLoc := 0, it_response := response\<rparr>))"

text \<open>
  \<^verbatim>\<open>nextResult\<close>: the result type decides how its bytes are decoded (\<open>decode\<close>). The iterator is a
  pointer: it has moved on even if an error is returned.
\<close>

definition nextResult :: "'p shim_env \<Rightarrow> (bytes \<Rightarrow> 'r res) \<Rightarrow> CommonIterator \<Rightarrow> 'p shim_state \<Rightarrow> 'r res \<times> CommonIterator \<times> 'p shim_state" where
  "nextResult env decode it s =
     (if it_currentLoc it < length (qr_Results (it_response it)) then
        (case decode (qr_Results (it_response it) ! it_currentLoc it) of
           Inl e \<Rightarrow> (Inl e, it, s)
         | Inr queryResult \<Rightarrow>
             let it = it\<lparr>it_currentLoc := it_currentLoc it + 1\<rparr> in
             if it_currentLoc it = length (qr_Results (it_response it)) \<and> qr_HasMore (it_response it) then
               (case fetchNextQueryResult env it s of
                  (Inl e, s) \<Rightarrow> (Inl e, it, s)
                | (Inr it, s) \<Rightarrow> (Inr queryResult, it, s))
             else (Inr queryResult, it, s))
      else if \<not> qr_HasMore (it_response it) then (Inl (Err ''No such key''), it, s)
      else (Inl (Err ''Invalid iterator state''), it, s))"

definition iterator_Close :: "'p shim_env \<Rightarrow> CommonIterator \<Rightarrow> ('p shim_state, unit) lsm" where
  "iterator_Close env it = lsm_bind (shim_handleQueryStateClose env (qr_Id (it_response it)) (it_uuid it)) (\<lambda>_. ret ())"

section \<open>Record lists\<close>

text \<open>
  The fork's record lists are reached through keys with a prefix; \<^verbatim>\<open>seq\<close> tells the operations of one
  transaction apart. The errors of the writes are dropped.
\<close>

definition rlist_key :: "bytes \<Rightarrow> bytes \<Rightarrow> bytes" where
  "rlist_key operation rest = ''__RLIST_'' @ operation @ '':'' @ rest"

definition drop_error :: "('s, unit) lsm \<Rightarrow> ('s, unit) lsm" where
  "drop_error m = lsm_try m (\<lambda>_. ret ()) ret"

definition next_seq :: "ChaincodeStub \<Rightarrow> ChaincodeStub" where
  "next_seq stub = stub\<lparr>cst_seq := cst_seq stub + 1\<rparr>"

definition rlist_put :: "'p shim_env \<Rightarrow> ChaincodeStub \<Rightarrow> bytes \<Rightarrow> bytes \<Rightarrow> bytes \<Rightarrow> ('p shim_state, ChaincodeStub) lsm" where
  "rlist_put env stub operation rlistName val =
     (let stub = next_seq stub in
      lsm_bind (drop_error (stub_PutState env stub (rlist_key operation (rlistName @ '','' @ FormatInt (cst_seq stub))) (Some val))) (\<lambda>_.
        ret stub))"

definition stub_Add :: "'p shim_env \<Rightarrow> ChaincodeStub \<Rightarrow> bytes \<Rightarrow> bytes \<Rightarrow> ('p shim_state, ChaincodeStub) lsm" where
  "stub_Add env stub rlistName rid = rlist_put env stub ''ADD'' rlistName rid"

definition stub_AddByIndex :: "'p shim_env \<Rightarrow> ChaincodeStub \<Rightarrow> bytes \<Rightarrow> int \<Rightarrow> bytes \<Rightarrow> ('p shim_state, ChaincodeStub) lsm" where
  "stub_AddByIndex env stub rlistName nIndex rid = rlist_put env stub ''ADD'' rlistName (FormatInt nIndex @ '','' @ rid)"

definition stub_Remove :: "'p shim_env \<Rightarrow> ChaincodeStub \<Rightarrow> bytes \<Rightarrow> bytes \<Rightarrow> ('p shim_state, ChaincodeStub) lsm" where
  "stub_Remove env stub rlistName rid = rlist_put env stub ''DEL'' rlistName rid"

definition number_or :: "int \<Rightarrow> slice \<Rightarrow> int" where
  "number_or d b = (let (n, err) = ParseInt (str_of b) in if err then d else n)"

definition stub_Size :: "'p shim_env \<Rightarrow> ChaincodeStub \<Rightarrow> bytes \<Rightarrow> ('p shim_state, int) lsm" where
  "stub_Size env stub rListName =
     lsm_try (stub_GetState env stub (rlist_key ''LEN'' rListName)) (\<lambda>_. ret 0) (\<lambda>b. ret (number_or 0 b))"

definition stub_Get :: "'p shim_env \<Rightarrow> ChaincodeStub \<Rightarrow> bytes \<Rightarrow> int \<Rightarrow> ('p shim_state, bytes) lsm" where
  "stub_Get env stub rListName nIndex =
     lsm_try (stub_GetState env stub (rlist_key ''GET'' (rListName @ '','' @ FormatInt nIndex))) (\<lambda>_. ret []) (\<lambda>b. ret (str_of b))"

definition stub_IndexOf :: "'p shim_env \<Rightarrow> ChaincodeStub \<Rightarrow> bytes \<Rightarrow> bytes \<Rightarrow> ('p shim_state, int) lsm" where
  "stub_IndexOf env stub rListName rid =
     lsm_try (stub_GetState env stub (rlist_key ''IDX'' (rListName @ '','' @ rid))) (\<lambda>_. ret (- 1)) (\<lambda>b. ret (number_or (- 1) b))"

text \<open>
  \<^verbatim>\<open>QueryStateHistory\<close>: the changes of a key as a JSON text. What a change is printed as, time and base64
  included, is \<open>entity\<close>, a panic for a change without a time; \<open>json\<close> prints the whole list. Every error
  gives the empty text. The loop is given fuel; theory \<open>Paging\<close> shows how much it needs.
\<close>

record HistoryEntity =
  he_TxId :: bytes
  he_TxTime :: bytes
  he_Value :: bytes

record 'e PageList =
  pl_Cpno :: bytes
  pl_Rnum :: bytes
  pl_List :: "'e list"

fun history_loop ::
    "'p shim_env \<Rightarrow> (bytes \<Rightarrow> 'r res) \<Rightarrow> ('r \<Rightarrow> HistoryEntity res) \<Rightarrow> nat \<Rightarrow> CommonIterator \<Rightarrow> HistoryEntity list \<Rightarrow> 'p shim_state
     \<Rightarrow> HistoryEntity list res \<times> CommonIterator \<times> 'p shim_state" where
  "history_loop env decode entity 0 it acc s = (Inl OutOfFuel, it, s)"
| "history_loop env decode entity (Suc n) it acc s =
     (if \<not> HasNext it then (Inr acc, it, s)
      else (case nextResult env decode it s of
              (Inl e, it, s) \<Rightarrow> (Inl e, it, s)
            | (Inr r, it, s) \<Rightarrow>
                (case entity r of Inl e \<Rightarrow> (Inl e, it, s) | Inr h \<Rightarrow> history_loop env decode entity n it (acc @ [h]) s)))"

definition stub_QueryStateHistory ::
    "'p shim_env \<Rightarrow> (bytes \<Rightarrow> 'r res) \<Rightarrow> ('r \<Rightarrow> HistoryEntity res) \<Rightarrow> (HistoryEntity PageList \<Rightarrow> bytes) \<Rightarrow> nat \<Rightarrow> ChaincodeStub \<Rightarrow> bytes \<Rightarrow> ('p shim_state, bytes) lsm" where
  "stub_QueryStateHistory env decode entity json fuel stub idKey =
     (if idKey = [] then ret []
      else lsm_try (stub_GetHistoryForKey env stub idKey) (\<lambda>_. ret []) (\<lambda>it s.
        case history_loop env decode entity fuel it [] s of
          (r, it, s) \<Rightarrow>
            let s = snd (iterator_Close env it s) in
            (case r of Inl (Err _) \<Rightarrow> (Inr [], s) | Inl p \<Rightarrow> (Inl p, s)
             | Inr hs \<Rightarrow> (Inr (json \<lparr>pl_Cpno = ''0'', pl_Rnum = FormatInt (int (length hs)), pl_List = hs\<rparr>), s))))"

section \<open>Running a transaction\<close>

datatype shim_fsm_state = shim_created | shim_established | shim_ready | shim_init

text \<open>The chaincode itself: it is given a stub and the state and returns a response, with the event it has set.\<close>

type_synonym 'p chaincode = "ChaincodeStub \<Rightarrow> ('p shim_state, Response \<times> ChaincodeEvent option) lsm"

definition shim_error_msg :: "bytes \<Rightarrow> bytes \<Rightarrow> ChaincodeEvent option \<Rightarrow> ChaincodeMessage" where
  "shim_error_msg payload txid ev = \<lparr>cm_Type = MSG_ERROR, cm_Payload = Some payload, cm_Txid = txid, cm_Proposal = None, cm_ChaincodeEvent = ev\<rparr>"

definition completed_msg :: "bytes \<Rightarrow> bytes \<Rightarrow> ChaincodeEvent option \<Rightarrow> ChaincodeMessage" where
  "completed_msg payload txid ev = \<lparr>cm_Type = MSG_COMPLETED, cm_Payload = Some payload, cm_Txid = txid, cm_Proposal = None, cm_ChaincodeEvent = ev\<rparr>"

definition run_chaincode ::
    "'p shim_env \<Rightarrow> stub_env \<Rightarrow> bool \<Rightarrow> 'p chaincode \<Rightarrow> ChaincodeMessage \<Rightarrow> ('p shim_state, ChaincodeMessage) lsm" where
  "run_chaincode env su errors_are_errors cc msg =
     (let txid = cm_Txid msg; refused = (\<lambda>ev e. ret (shim_error_msg (err_msg e) txid ev)) in
      lsm_try (lift_res (sm_UnmarshalInput env (str_of (cm_Payload msg)))) (refused None) (\<lambda>inp.
      lsm_try (lift_res (stub_init su txid inp (cm_Proposal msg))) (refused None) (\<lambda>stub.
      lsm_bind (cc stub) (\<lambda>(res, ev).
        if errors_are_errors \<and> rs_Status res \<ge> shim_ERROR then ret (shim_error_msg (rs_Message res) txid ev)
        else lsm_try (lift_res (sm_MarshalResponse env res)) (refused ev) (\<lambda>resBytes. ret (completed_msg resBytes txid ev))))))"

text \<open>An initialisation that fails is an error; the response of a transaction is left to the endorser.\<close>

definition shim_handleInit :: "'p shim_env \<Rightarrow> stub_env \<Rightarrow> 'p chaincode \<Rightarrow> ChaincodeMessage \<Rightarrow> ('p shim_state, ChaincodeMessage) lsm" where
  "shim_handleInit env su Init msg = run_chaincode env su True Init msg"

definition shim_handleTransaction :: "'p shim_env \<Rightarrow> stub_env \<Rightarrow> 'p chaincode \<Rightarrow> ChaincodeMessage \<Rightarrow> ('p shim_state, ChaincodeMessage) lsm" where
  "shim_handleTransaction env su Invoke msg = run_chaincode env su False Invoke msg"

text \<open>
  The machine of the shim. \<open>sf_started\<close> are the initialisations and transactions that were started,
  \<open>sf_delivered\<close> the answers given to waiting requests, \<open>sf_sent\<close> the messages sent to the peer.
\<close>

record 'p shim_handler =
  sf_FSM :: shim_fsm_state
  sf_shim :: "'p shim_state"
  sf_started :: "ChaincodeMessage list"
  sf_delivered :: "ChaincodeMessage list"
  sf_sent :: "ChaincodeMessage list"

definition deliver_answer :: "ChaincodeMessage \<Rightarrow> 'p shim_handler \<Rightarrow> 'p shim_handler" where
  "deliver_answer msg h = (case sendChannel msg (sf_shim h) of Inl _ \<Rightarrow> h | Inr _ \<Rightarrow> h\<lparr>sf_delivered := sf_delivered h @ [msg]\<rparr>)"

definition shim_fsm :: "ChaincodeMessage \<Rightarrow> (MessageType, shim_fsm_state, 'p shim_handler) fsm" where
  "shim_fsm msg =
     \<lparr>f_current = sf_FSM, f_set = (\<lambda>st h. h\<lparr>sf_FSM := st\<rparr>),
      f_transitions =
        [((MSG_REGISTERED, shim_created), shim_established), ((MSG_READY, shim_established), shim_ready),
         ((MSG_ERROR, shim_init), shim_established), ((MSG_RESPONSE, shim_init), shim_init), ((MSG_INIT, shim_ready), shim_ready),
         ((MSG_TRANSACTION, shim_ready), shim_ready), ((MSG_RESPONSE, shim_ready), shim_ready), ((MSG_ERROR, shim_ready), shim_ready),
         ((MSG_COMPLETED, shim_init), shim_ready), ((MSG_COMPLETED, shim_ready), shim_ready)],
      f_before = (\<lambda>t h. (Inr None, if t = MSG_INIT \<or> t = MSG_TRANSACTION then h\<lparr>sf_started := sf_started h @ [msg]\<rparr> else h)),
      f_enter = (\<lambda>st. ret ()),
      f_after = (\<lambda>t h. (Inr (), if t = MSG_RESPONSE \<or> t = MSG_ERROR then deliver_answer msg h else h))\<rparr>"

definition handleMessage :: "ChaincodeMessage \<Rightarrow> ('p shim_handler, error option) lsm" where
  "handleMessage msg h =
     (if cm_Type msg = MSG_KEEPALIVE then (Inr None, h)
      else if fsm_Cannot (shim_fsm msg) (cm_Type msg) h then
        let e = ''['' @ cm_Txid msg @ '']Chaincode handler FSM cannot handle message'' in
        (Inr (Some (Err e)), h\<lparr>sf_sent := sf_sent h @ [shim_error_msg e (cm_Txid msg) None]\<rparr>)
      else lsm_bind (fsm_Event (shim_fsm msg) (cm_Type msg)) (\<lambda>e. ret (filterError e)) h)"

text \<open>
  The loop of \<^verbatim>\<open>chatWithPeer\<close>: a message of the peer, one handed over by a goroutine of the shim, or the
  error of an earlier send, which is reported through a message that is nil.
\<close>

datatype shim_input = FromPeer "ChaincodeMessage option" | MoveState ChaincodeMessage bool | SendError "error option"

definition chat_step :: "shim_input \<Rightarrow> ('p shim_handler, bool) lsm" where
  "chat_step inp =
     (let handle = (\<lambda>m send. lsm_bind (handleMessage m) (\<lambda>err.
            if err \<noteq> None then ret False
            else (\<lambda>h. (Inr True, if cm_Type m = MSG_KEEPALIVE \<or> send then h\<lparr>sf_sent := sf_sent h @ [m]\<rparr> else h)))) in
      case inp of
        SendError None \<Rightarrow> ret True
      | SendError (Some e) \<Rightarrow> fail (Panic ''nil pointer dereference'')
      | FromPeer None \<Rightarrow> ret False
      | FromPeer (Some m) \<Rightarrow> handle m False
      | MoveState m send \<Rightarrow> handle m send)"

section \<open>What the stub guarantees\<close>

lemma exchange_channels [simp]: "ss_responseChannel (snd (exchange env f msg s)) = ss_responseChannel s"
  by (auto simp: exchange_def lsm_bind_def createChannel_def sendReceive_def deleteChannel_def removeAll_id split: option.splits prod.splits sum.splits error.splits)

lemma snd_bind_res [simp]: "snd (lsm_bind m (\<lambda>x. lift_res (f x)) s) = snd (m s)"
  by (simp add: lsm_bind_def lift_res_def split: prod.split sum.split)

lemma request_channels [simp]:
  "ss_responseChannel (snd (request env what typ payload txid s)) = ss_responseChannel s"
  "ss_responseChannel (snd (query_request env what typ payload txid s)) = ss_responseChannel s"
proof -
  show one: "ss_responseChannel (snd (request env what typ payload txid s)) = ss_responseChannel s" for s
    by (simp add: request_def)
  show "ss_responseChannel (snd (query_request env what typ payload txid s)) = ss_responseChannel s"
    using one [of s] by (auto simp: query_request_def lsm_bind_def lsm_try_def lift_res_def split: prod.splits sum.splits error.splits)
qed

text \<open>A second request of a transaction that is waiting for an answer is refused and not sent.\<close>

lemma request_while_waiting:
  "ss_responseChannel s = Some cs \<Longrightarrow> txid \<in> set cs \<Longrightarrow>
     request env what typ payload txid s = (Inl (Err (''['' @ shorttxid txid @ '']Channel exists'')), s)"
  by (simp add: request_def exchange_def createChannel_def lsm_bind_def request_msg_def)

text \<open>A request on a free channel is exactly one exchange with the peer.\<close>

lemma request_answer:
  assumes "ss_responseChannel s = Some cs" "txid \<notin> set cs" "sm_sendReceive env (request_msg typ payload txid) (ss_peer s) = (Inr m, p)"
  shows "request env what typ payload txid s = (read_response m, s\<lparr>ss_peer := p\<rparr>)"
proof -
  have "cm_Txid (request_msg typ payload txid) = txid" by (simp add: request_msg_def)
  then show ?thesis
    using assms by (simp add: request_def exchange_def createChannel_def sendReceive_def deleteChannel_def lsm_bind_def lift_res_def)
qed

lemma failed_invocation_response:
  "invoked_response env (error_msg reason txid) = Inr \<lparr>rs_Status = shim_ERROR, rs_Message = [], rs_Payload = Some reason\<rparr>"
  by (simp add: invoked_response_def error_msg_def createResponse_def)

lemma prefetch_error_loses_result:
  assumes "decode (qr_Results (it_response it) ! it_currentLoc it) = Inr r" "Suc (it_currentLoc it) = length (qr_Results (it_response it))"
    "qr_HasMore (it_response it)" "fetchNextQueryResult env (it\<lparr>it_currentLoc := it_currentLoc it + 1\<rparr>) s = (Inl e, s')"
  shows "\<exists>it'. nextResult env decode it s = (Inl e, it', s') \<and> HasNext it'
    \<and> (\<forall>t. nextResult env decode it' t = (Inl (Err ''Invalid iterator state''), it', t))"
proof (intro exI conjI allI)
  let ?it = "it\<lparr>it_currentLoc := it_currentLoc it + 1\<rparr>"
  show "nextResult env decode it s = (Inl e, ?it, s')" using assms by (simp add: nextResult_def)
  show "HasNext ?it" using assms by (simp add: HasNext_def)
  show "nextResult env decode ?it t = (Inl (Err ''Invalid iterator state''), ?it, t)" for t
    using assms(2,3) by (simp add: nextResult_def)
qed

text \<open>A transaction that ends answers with exactly one message, with the identifier of the transaction.\<close>

lemma run_chaincode_answer:
  assumes "run_chaincode env su b cc msg s = (Inr m, s')"
  shows "cm_Txid m = cm_Txid msg \<and> (cm_Type m = MSG_COMPLETED \<or> cm_Type m = MSG_ERROR)"
  using assms
  by (auto simp: run_chaincode_def Let_def lsm_try_def lsm_bind_def lift_res_def shim_error_msg_def completed_msg_def
      split: prod.splits sum.splits error.splits if_splits)

end
