(* ===== verification/Paging.thy ===== *)
theory Paging
  imports Shim CCSupport
begin

text \<open>
  A query of a chaincode from end to end: the stub of theory \<open>Shim\<close> sends the request, the handler of
  theory \<open>CCHandler\<close> opens an iterator on the ledger and answers with its first hundred results, and the
  stub asks for the next page when the last result of a page is taken.

  Results: whatever the number of results, the chaincode sees exactly those of the iterator of the
  ledger, in its order, and at the end the iterator is closed and forgotten (\<open>paged_range_exact\<close> for a
  range, \<open>paged_history_exact\<close> for the history of a key). The loop that fills a page ends at the limit
  (\<open>query_loop_page\<close>).
\<close>

section \<open>The iterator of the ledger and the codecs\<close>

text \<open>The results an iterator of the ledger yields from a state on, followed by its end.\<close>

fun yields :: "('w, 'q) h_env \<Rightarrow> nat \<Rightarrow> 'q list \<Rightarrow> 'w \<Rightarrow> bool" where
  "yields env iter [] w = (\<exists>w'. he_Next env iter w = (Inr None, w'))"
| "yields env iter (q # qs) w = (\<exists>w'. he_Next env iter w = (Inr (Some q), w') \<and> yields env iter qs w')"

text \<open>What both ends of the stream assume of the encodings: a message that was encoded is decoded to what it was.\<close>

definition query_codecs :: "('w, 'q) h_env \<Rightarrow> 'p shim_env \<Rightarrow> (bytes \<Rightarrow> 'r res) \<Rightarrow> ('q \<Rightarrow> bytes) \<Rightarrow> ('q \<Rightarrow> 'r) \<Rightarrow> bool" where
  "query_codecs env sm decode enc val \<longleftrightarrow>
     (\<forall>q. he_MarshalResult env q = Inr (enc q)) \<and> (\<forall>q. decode (enc q) = Inr (val q))
     \<and> (\<forall>r. \<exists>b. he_MarshalQueryResponse env r = Inr b \<and> sm_UnmarshalQueryResponse sm b = Inr r)
     \<and> (\<forall>i. he_UnmarshalQueryStateNext env (sm_MarshalQueryStateNext sm i) = Inr i)
     \<and> (\<forall>a b. he_UnmarshalGetStateByRange env (sm_MarshalGetStateByRange sm a b) = Inr (a, b))
     \<and> (\<forall>k. he_UnmarshalGetHistoryForKey env (sm_MarshalGetHistoryForKey sm k) = Inr k)"

text \<open>
  The loop of a chaincode over an iterator, \<^verbatim>\<open>for iter.HasNext() { iter.Next() }\<close>, that takes \<open>n\<close> results
  and ends there.
\<close>

fun take_results ::
    "'p shim_env \<Rightarrow> (bytes \<Rightarrow> 'r res) \<Rightarrow> nat \<Rightarrow> CommonIterator \<Rightarrow> 'p shim_state \<Rightarrow> ('r list \<times> CommonIterator \<times> 'p shim_state) option" where
  "take_results sm decode 0 it s = (if HasNext it then None else Some ([], it, s))"
| "take_results sm decode (Suc n) it s =
     (if \<not> HasNext it then None
      else (case nextResult sm decode it s of
              (Inl _, _) \<Rightarrow> None
            | (Inr r, it', s') \<Rightarrow> map_option (\<lambda>(rs, x). (r # rs, x)) (take_results sm decode n it' s')))"

section \<open>One page\<close>

lemma query_loop_page:
  assumes "yields env iter qs w" "\<And>q. he_MarshalResult env q = Inr (enc q)"
  shows "\<exists>w'. query_loop env iter n acc w = (Inr (acc @ map enc (take n qs), n \<le> length qs), w') \<and> (n \<le> length qs \<longrightarrow> yields env iter (drop n qs) w')"
  using assms(1)
proof (induction n arbitrary: qs acc w)
  case 0
  then show ?case by simp
next
  case (Suc n)
  show ?case
  proof (cases qs)
    case Nil
    then show ?thesis using Suc.prems by auto
  next
    case (Cons q qs')
    then obtain w1 where "he_Next env iter w = (Inr (Some q), w1)" "yields env iter qs' w1" using Suc.prems by auto
    then show ?thesis using Suc.IH [of qs' w1 "acc @ [enc q]"] Cons assms(2) by simp
  qed
qed

text \<open>The page of an iterator with the results \<open>qs\<close> left, and whether the iterator is entered in the context afterwards.\<close>

definition page :: "('q \<Rightarrow> bytes) \<Rightarrow> bytes \<Rightarrow> 'q list \<Rightarrow> QueryResponse" where
  "page enc iterID qs = \<lparr>qr_Results = map enc (take maxResultLimit qs), qr_HasMore = maxResultLimit \<le> length qs, qr_Id = iterID\<rparr>"

definition entered :: "bytes \<Rightarrow> bytes \<Rightarrow> nat option \<Rightarrow> Handler \<Rightarrow> bool" where
  "entered txid iterID i h \<longleftrightarrow> (\<exists>c. get_ctx h txid = Some c \<and> getQueryIterator c iterID = i)"

lemma get_ctx_iterators:
  "get_ctx h t = Some c \<Longrightarrow> get_ctx (upd_iterators f t h) t = Some (c\<lparr>tc_queryIteratorMap := f (tc_queryIteratorMap c)\<rparr>)"
  by (auto simp: upd_iterators_def get_ctx_def set_ctx_def split: option.splits)

lemma entered_put: "entered t i x h \<Longrightarrow> entered t i (Some k) (putQueryIterator t i k h)"
  by (auto simp: entered_def putQueryIterator_def getQueryIterator_def get_ctx_iterators)

lemma entered_delete: "entered t i x h \<Longrightarrow> entered t i None (deleteQueryIterator t i h)"
  by (auto simp: entered_def deleteQueryIterator_def getQueryIterator_def get_ctx_iterators)

lemma answer_page_exact:
  assumes "yields env iter qs w" "query_codecs env sm decode enc val" "entered txid iterID (Some iter) h"
  shows "\<exists>b h' w'. answer_page env txid iter iterID (h, w) = (Inr (response_msg (Some b) txid), h', w')
    \<and> sm_UnmarshalQueryResponse sm b = Inr (page enc iterID qs)
    \<and> (if maxResultLimit \<le> length qs then entered txid iterID (Some iter) h' \<and> yields env iter (drop maxResultLimit qs) w'
        else entered txid iterID None h')"
proof -
  have marshal: "he_MarshalResult env q = Inr (enc q)" for q using assms(2) by (simp add: query_codecs_def)
  obtain w1 where loop: "query_loop env iter maxResultLimit [] w = (Inr (map enc (take maxResultLimit qs), maxResultLimit \<le> length qs), w1)"
      and rest: "maxResultLimit \<le> length qs \<longrightarrow> yields env iter (drop maxResultLimit qs) w1"
    using query_loop_page [OF assms(1) marshal, of maxResultLimit "[]"] by auto
  obtain b where "he_MarshalQueryResponse env (page enc iterID qs) = Inr b" "sm_UnmarshalQueryResponse sm b = Inr (page enc iterID qs)"
    using assms(2) unfolding query_codecs_def by blast
  then show ?thesis
    using loop rest assms(3) entered_delete [OF assms(3)]
    by (auto simp: answer_page_def getQueryResponse_def on_ledger_def lsm_try_def lsm_bind_def lift_res_def closeIterator_def page_def)
qed

section \<open>All pages\<close>

text \<open>
  Between two calls of the chaincode: the answer held by the stub, of which the results from
  \<open>it_currentLoc\<close> on are still to be taken, and the results the iterator of the ledger has left.
\<close>

definition paged ::
    "('w, 'q) h_env \<Rightarrow> ('q \<Rightarrow> bytes) \<Rightarrow> bytes \<Rightarrow> bytes \<Rightarrow> 'q list \<Rightarrow> CommonIterator \<Rightarrow> 'w hstate shim_state \<Rightarrow> bool" where
  "paged env enc txid iterID todo it s \<longleftrightarrow>
     (\<exists>cs ps rest h w iter. ss_responseChannel s = Some cs \<and> txid \<notin> set cs \<and> ss_peer s = (h, w) \<and> it_uuid it = txid
        \<and> qr_Id (it_response it) = iterID \<and> drop (it_currentLoc it) (qr_Results (it_response it)) = map enc ps \<and> todo = ps @ rest
        \<and> (if qr_HasMore (it_response it) then ps \<noteq> [] \<and> entered txid iterID (Some iter) h \<and> yields env iter rest w
            else rest = [] \<and> entered txid iterID None h))"

lemma paged_page:
  assumes "if maxResultLimit \<le> length qs then entered txid iterID (Some iter) h \<and> yields env iter (drop maxResultLimit qs) w
      else entered txid iterID None h"
    "ss_responseChannel s = Some cs" "txid \<notin> set cs" "ss_peer s = (h, w)"
  shows "paged env enc txid iterID qs \<lparr>it_uuid = txid, it_response = page enc iterID qs, it_currentLoc = 0\<rparr> s"
  unfolding paged_def
  by (rule exI [of _ cs], rule exI [of _ "take maxResultLimit qs"], rule exI [of _ "drop maxResultLimit qs"], rule exI [of _ h], rule exI [of _ w],
      rule exI [of _ iter]) (use assms in \<open>auto simp: page_def maxResultLimit_def\<close>)

lemma query_request_page:
  assumes "ss_responseChannel s = Some cs" "txid \<notin> set cs" "ss_peer s = (h, w)"
    "sm_sendReceive sm (request_msg mt payload txid) (h, w) = (Inr (response_msg (Some b) txid), h', w')"
    "sm_UnmarshalQueryResponse sm b = Inr r"
  shows "query_request sm what mt payload txid s = (Inr r, s\<lparr>ss_peer := (h', w')\<rparr>)"
proof -
  have "request sm what mt payload txid s = (read_response (response_msg (Some b) txid), s\<lparr>ss_peer := (h', w')\<rparr>)"
    using assms(1-4) by (intro request_answer) simp_all
  then show ?thesis
    using assms(5) by (simp add: query_request_def lsm_bind_def lsm_try_def lift_res_def read_response_def response_msg_def str_of_def)
qed

lemma fetch_page:
  assumes "query_codecs env sm decode enc val" "sm_sendReceive sm = serve env" "entered txid iterID (Some iter) h" "yields env iter qs w"
    "ss_responseChannel s = Some cs" "txid \<notin> set cs" "ss_peer s = (h, w)" "it_uuid it = txid" "qr_Id (it_response it) = iterID"
  shows "\<exists>it' s'. fetchNextQueryResult sm it s = (Inr it', s') \<and> paged env enc txid iterID qs it' s'"
proof -
  obtain b h' w' where page: "answer_page env txid iter iterID (h, w) = (Inr (response_msg (Some b) txid), h', w')"
      and b: "sm_UnmarshalQueryResponse sm b = Inr (page enc iterID qs)"
      and rest: "if maxResultLimit \<le> length qs then entered txid iterID (Some iter) h' \<and> yields env iter (drop maxResultLimit qs) w'
        else entered txid iterID None h'"
    using answer_page_exact [OF assms(4,1,3)] by blast
  have "he_UnmarshalQueryStateNext env (sm_MarshalQueryStateNext sm iterID) = Inr iterID" using assms(1) by (simp add: query_codecs_def)
  then have "serve env (request_msg MSG_QUERY_STATE_NEXT (sm_MarshalQueryStateNext sm iterID) txid) (h, w) = (Inr (response_msg (Some b) txid), h', w')"
    using page assms(3)
    by (auto simp: serve_def request_msg_def handleQueryStateNext_def Let_def or_answer_def lsm_try_def lift_res_def with_ctx_def entered_def str_of_def)
  then have "shim_handleQueryStateNext sm iterID txid s = (Inr (page enc iterID qs), s\<lparr>ss_peer := (h', w')\<rparr>)"
    unfolding shim_handleQueryStateNext_def using assms(2,5-7) b by (intro query_request_page) auto
  then have "fetchNextQueryResult sm it s = (Inr \<lparr>it_uuid = txid, it_response = page enc iterID qs, it_currentLoc = 0\<rparr>, s\<lparr>ss_peer := (h', w')\<rparr>)"
    using assms(8,9) by (cases it) (simp add: fetchNextQueryResult_def lsm_bind_def lift_res_def)
  then show ?thesis using paged_page [OF rest, of "s\<lparr>ss_peer := (h', w')\<rparr>"] assms(5,6) by auto
qed

lemma nextResult_paged:
  assumes "query_codecs env sm decode enc val" "sm_sendReceive sm = serve env" "paged env enc txid iterID (q # qs) it s"
  shows "HasNext it \<and> (\<exists>it' s'. nextResult sm decode it s = (Inr (val q), it', s') \<and> paged env enc txid iterID qs it' s')"
proof -
  obtain cs ps rest h w iter where s: "ss_responseChannel s = Some cs" "txid \<notin> set cs" "ss_peer s = (h, w)" "it_uuid it = txid"
      "qr_Id (it_response it) = iterID" and ps: "drop (it_currentLoc it) (qr_Results (it_response it)) = map enc ps" "q # qs = ps @ rest"
      and more: "if qr_HasMore (it_response it) then ps \<noteq> [] \<and> entered txid iterID (Some iter) h \<and> yields env iter rest w
        else rest = [] \<and> entered txid iterID None h"
    using assms(3) unfolding paged_def by blast
  obtain ps' where ps': "ps = q # ps'" "qs = ps' @ rest" using ps(2) more by (cases ps) (auto split: if_splits)
  let ?it = "it\<lparr>it_currentLoc := it_currentLoc it + 1\<rparr>"
  have loc: "it_currentLoc it < length (qr_Results (it_response it))" using ps(1) ps'(1) by (metis drop_eq_Nil linorder_not_less list.distinct(1) list.simps(9))
  have here: "qr_Results (it_response it) ! it_currentLoc it = enc q" "drop (Suc (it_currentLoc it)) (qr_Results (it_response it)) = map enc ps'"
    using Cons_nth_drop_Suc [OF loc] ps(1) ps'(1) by simp_all
  have dec: "decode (enc q) = Inr (val q)" using assms(1) by (simp add: query_codecs_def)
  have last: "Suc (it_currentLoc it) = length (qr_Results (it_response it)) \<longleftrightarrow> ps' = []" using here(2) loc by (metis Suc_leI drop_eq_Nil le_antisym map_is_Nil_conv order_refl)
  have "\<exists>it' s'. nextResult sm decode it s = (Inr (val q), it', s') \<and> paged env enc txid iterID qs it' s'"
  proof (cases "ps' = [] \<and> qr_HasMore (it_response it)")
    case True
    then obtain it' s' where "fetchNextQueryResult sm ?it s = (Inr it', s')" "paged env enc txid iterID rest it' s'"
      using fetch_page [OF assms(1,2), of txid iterID iter h rest w s cs ?it] more s by auto
    then show ?thesis using True loc here dec last ps'(2) by (auto simp: nextResult_def Let_def)
  next
    case False
    have "paged env enc txid iterID qs ?it s"
      unfolding paged_def by (rule exI [of _ cs], rule exI [of _ ps'], rule exI [of _ rest], rule exI [of _ h], rule exI [of _ w], rule exI [of _ iter])
        (use s here ps' more False in \<open>auto split: if_splits\<close>)
    then show ?thesis using False loc here dec last by (auto simp: nextResult_def Let_def)
  qed
  then show ?thesis using loc by (simp add: HasNext_def)
qed

lemma paged_end:
  assumes "paged env enc txid iterID [] it s"
  shows "\<not> HasNext it \<and> entered txid iterID None (fst (ss_peer s))"
  using assms by (auto simp: paged_def HasNext_def split: if_splits)

lemma take_results_paged:
  assumes "query_codecs env sm decode enc val" "sm_sendReceive sm = serve env" "paged env enc txid iterID qs it s"
  shows "\<exists>it' s'. take_results sm decode (length qs) it s = Some (map val qs, it', s') \<and> entered txid iterID None (fst (ss_peer s'))"
  using assms(3)
proof (induction qs arbitrary: it s)
  case Nil
  then show ?case using paged_end by fastforce
next
  case (Cons q qs)
  obtain it1 s1 where step: "HasNext it" "nextResult sm decode it s = (Inr (val q), it1, s1)" "paged env enc txid iterID qs it1 s1"
    using nextResult_paged [OF assms(1,2) Cons.prems] by blast
  then show ?case using Cons.IH [OF step(3)] by auto
qed

section \<open>Queries\<close>

text \<open>A transaction that may ask: its context, its simulator, the name of its chaincode and a free channel.\<close>

definition may_ask :: "bytes \<Rightarrow> transactionContext \<Rightarrow> nat \<Rightarrow> bytes \<Rightarrow> 'w hstate shim_state \<Rightarrow> bool" where
  "may_ask txid c sim ns s \<longleftrightarrow>
     (\<exists>cs. ss_responseChannel s = Some cs \<and> txid \<notin> set cs) \<and> get_ctx (fst (ss_peer s)) txid = Some c \<and> tc_txsimulator c = Some sim
     \<and> getCCRootName (fst (ss_peer s)) = Inr ns"

lemma first_page_exact:
  assumes "query_codecs env sm decode enc val" "get_ctx h txid = Some c" "opened w = (Inr iter, w1)" "yields env iter qs w1"
  shows "\<exists>b h' w'. first_page env txid iterID opened (h, w) = (Inr (response_msg (Some b) txid), h', w')
    \<and> sm_UnmarshalQueryResponse sm b = Inr (page enc iterID qs)
    \<and> (if maxResultLimit \<le> length qs then entered txid iterID (Some iter) h' \<and> yields env iter (drop maxResultLimit qs) w'
        else entered txid iterID None h')"
proof -
  have "entered txid iterID (getQueryIterator c iterID) h" using assms(2) by (simp add: entered_def)
  from answer_page_exact [OF assms(4,1) entered_put [OF this]]
  show ?thesis by (simp add: first_page_def or_answer_def lsm_try_def lsm_bind_def on_ledger_def on_handler_def assms(3))
qed

text \<open>Asking for a query that has \<open>qs\<close> as its results, whatever kind of query it is.\<close>

lemma query_exact:
  assumes codecs: "query_codecs env sm decode enc val" and peer: "sm_sendReceive sm = serve env" and ask: "may_ask txid c sim ns s"
    and served: "serve env (request_msg mt payload txid) (ss_peer s) = first_page env txid iterID opened (fst (ss_peer s), w1)"
    and opened: "opened w1 = (Inr iter, w2)" "yields env iter qs w2" and stub: "cst_TxID stub = txid"
    and query: "m s = lsm_bind (query_request sm what mt payload txid) (\<lambda>response. ret (new_iterator stub response)) s"
  shows "\<exists>it s1 it' s2. m s = (Inr it, s1) \<and> take_results sm decode (length qs) it s1 = Some (map val qs, it', s2)
    \<and> entered txid iterID None (fst (ss_peer s2))"
proof -
  obtain cs where cs: "ss_responseChannel s = Some cs" "txid \<notin> set cs" and ctx: "get_ctx (fst (ss_peer s)) txid = Some c"
    using ask by (auto simp: may_ask_def)
  obtain b h' w' where page: "first_page env txid iterID opened (fst (ss_peer s), w1) = (Inr (response_msg (Some b) txid), h', w')"
      and b: "sm_UnmarshalQueryResponse sm b = Inr (page enc iterID qs)"
      and rest: "if maxResultLimit \<le> length qs then entered txid iterID (Some iter) h' \<and> yields env iter (drop maxResultLimit qs) w'
        else entered txid iterID None h'"
    using first_page_exact [OF codecs ctx, of opened w1 iter w2 qs iterID] opened by blast
  let ?s = "s\<lparr>ss_peer := (h', w')\<rparr>" and ?it = "\<lparr>it_uuid = txid, it_response = page enc iterID qs, it_currentLoc = 0\<rparr>"
  have "query_request sm what mt payload txid s = (Inr (page enc iterID qs), ?s)"
    using query_request_page [OF cs surjective_pairing, of sm mt payload b h' w'] b peer served page by simp
  then have "m s = (Inr ?it, ?s)" using query stub by (simp add: lsm_bind_def lift_res_def new_iterator_def)
  moreover have "paged env enc txid iterID qs ?it ?s" using paged_page [OF rest, of ?s] cs by simp
  ultimately show ?thesis using take_results_paged [OF codecs peer] by blast
qed

lemma paged_range_exact:
  assumes "query_codecs env sm decode enc val" "sm_sendReceive sm = serve env" "may_ask (cst_TxID stub) c sim ns s"
    and keys: "validateSimpleKeys [if startKey = [] then emptyKeySubstitute else startKey, endKey] = Inr ()"
    and uuid: "he_GenerateUUID env (snd (ss_peer s)) = (iterID, w1)"
    and scan: "he_GetStateRangeScanIterator env sim ns (if startKey = [] then emptyKeySubstitute else startKey) endKey w1 = (Inr iter, w2)"
      "yields env iter qs w2"
  shows "\<exists>it s1 it' s2. stub_GetStateByRange sm stub startKey endKey s = (Inr it, s1)
    \<and> take_results sm decode (length qs) it s1 = Some (map val qs, it', s2) \<and> entered (cst_TxID stub) iterID None (fst (ss_peer s2))"
proof -
  let ?start = "if startKey = [] then emptyKeySubstitute else startKey"
  have codec: "he_UnmarshalGetStateByRange env (sm_MarshalGetStateByRange sm ?start endKey) = Inr (?start, endKey)"
    using assms(1) by (simp add: query_codecs_def)
  have "serve env (request_msg MSG_GET_STATE_BY_RANGE (sm_MarshalGetStateByRange sm ?start endKey) (cst_TxID stub)) (ss_peer s)
      = first_page env (cst_TxID stub) iterID (he_GetStateRangeScanIterator env sim ns ?start endKey) (fst (ss_peer s), w1)"
    using assms(3) codec uuid
    by (cases "ss_peer s") (auto simp: serve_def request_msg_def handleGetStateByRange_def Let_def or_answer_def lsm_try_def lsm_bind_def lift_res_def
        generateUUID_def with_sim_def isValidTxSim_def may_ask_def str_of_def)
  from query_exact [OF assms(1-3) this scan refl]
  show ?thesis using keys
    by (simp add: stub_GetStateByRange_def Let_def lsm_bind_def [of "lift_res _"] lift_res_def [of "validateSimpleKeys _"]
        stub_handleGetStateByRange_def shim_handleGetStateByRange_def)
qed

lemma paged_history_exact:
  assumes "query_codecs env sm decode enc val" "sm_sendReceive sm = serve env" "may_ask (cst_TxID stub) c sim ns s"
    and hqe: "tc_historyQueryExecutor c = Some hqe" and uuid: "he_GenerateUUID env (snd (ss_peer s)) = (iterID, w1)"
    and scan: "he_GetHistoryForKey env hqe ns key w1 = (Inr iter, w2)" "yields env iter qs w2"
  shows "\<exists>it s1 it' s2. stub_GetHistoryForKey sm stub key s = (Inr it, s1)
    \<and> take_results sm decode (length qs) it s1 = Some (map val qs, it', s2) \<and> entered (cst_TxID stub) iterID None (fst (ss_peer s2))"
proof -
  have codec: "he_UnmarshalGetHistoryForKey env (sm_MarshalGetHistoryForKey sm key) = Inr key"
    using assms(1) by (simp add: query_codecs_def)
  have "serve env (request_msg MSG_GET_HISTORY_FOR_KEY (sm_MarshalGetHistoryForKey sm key) (cst_TxID stub)) (ss_peer s)
      = first_page env (cst_TxID stub) iterID (he_GetHistoryForKey env hqe ns key) (fst (ss_peer s), w1)"
    using assms(3) codec uuid hqe
    by (cases "ss_peer s") (auto simp: serve_def request_msg_def handleGetHistoryForKey_def Let_def or_answer_def lsm_try_def lsm_bind_def lift_res_def
        generateUUID_def with_sim_def isValidTxSim_def may_ask_def str_of_def deref_def)
  from query_exact [OF assms(1-3) this scan refl]
  show ?thesis by (simp add: stub_GetHistoryForKey_def shim_handleGetHistoryForKey_def)
qed

text \<open>The printed history of a key: one entry per change, and a fuel of one more than the changes is enough.\<close>

lemma history_loop_all:
  assumes "take_results sm decode (length rs) it s = Some (rs, it', s')" "length rs < fuel" "\<And>r. r \<in> set rs \<Longrightarrow> entity r = Inr (f r)"
  shows "history_loop sm decode entity fuel it acc s = (Inr (acc @ map f rs), it', s')"
  using assms
proof (induction rs arbitrary: it s acc fuel)
  case Nil
  then show ?case by (cases fuel) (auto split: if_splits)
next
  case (Cons r rs)
  then obtain n where n: "fuel = Suc n" "length rs < n" by (cases fuel) auto
  have step: "HasNext it" using Cons.prems(1) by (auto split: if_splits)
  then obtain it1 s1 where one: "nextResult sm decode it s = (Inr r, it1, s1)" "take_results sm decode (length rs) it1 s1 = Some (rs, it', s')"
    using Cons.prems(1) by (auto split: prod.splits sum.splits)
  then show ?case using Cons.IH [OF one(2) n(2)] Cons.prems(3) step n(1) by simp
qed

lemma query_state_history_exact:
  assumes "query_codecs env sm decode enc val" "sm_sendReceive sm = serve env" "may_ask (cst_TxID stub) c sim ns s"
    and "tc_historyQueryExecutor c = Some hqe" "he_GenerateUUID env (snd (ss_peer s)) = (iterID, w1)"
    and "he_GetHistoryForKey env hqe ns key w1 = (Inr iter, w2)" "yields env iter qs w2"
    and "key \<noteq> []" "length qs < fuel" "\<And>q. q \<in> set qs \<Longrightarrow> entity (val q) = Inr (f (val q))"
  shows "fst (stub_QueryStateHistory sm decode entity json fuel stub key s)
    = Inr (json \<lparr>pl_Cpno = ''0'', pl_Rnum = FormatInt (int (length qs)), pl_List = map (f \<circ> val) qs\<rparr>)"
proof -
  obtain it s1 it' s2 where stub: "stub_GetHistoryForKey sm stub key s = (Inr it, s1)"
      and all: "take_results sm decode (length (map val qs)) it s1 = Some (map val qs, it', s2)"
    using paged_history_exact [OF assms(1-7)] by auto
  have "history_loop sm decode entity fuel it [] s1 = (Inr (map f (map val qs)), it', s2)"
    using history_loop_all [OF all, of fuel entity f "[]"] assms(9,10) by auto
  then show ?thesis using stub assms(8) by (simp add: stub_QueryStateHistory_def lsm_try_def Let_def)
qed

end
