(* ===== verification/ContractStub.thy ===== *)
theory ContractStub
  imports Shim
begin

text \<open>
  The interface a chaincode is written against (\<^verbatim>\<open>ChaincodeStubInterface\<close> of
  \<^verbatim>\<open>core/chaincode/shim/interfaces.go\<close>), as far as the system chaincodes of the fork use it, and the
  transaction it works on.

  A transaction reads the committed state and collects its writes; the operations on record lists
  are reads and writes of keys with a prefix, as in \<^verbatim>\<open>chaincoderlist.go\<close>. The locale \<open>snapshot_stub\<close>
  states this of a stub, and \<open>tx\<close> interprets it on \<open>tx_stub\<close>, a stub over the committed state and the
  list of writes.
\<close>

record 's contract_stub =
  ct_GetArgs :: "bytes list"
  ct_GetTxID :: bytes
  ct_GetCreator :: bytes
  ct_GetTxTimestamp :: "bytes option"
  ct_GetChannelHeader :: "ChannelHeader res"
  ct_GetState :: "bytes \<Rightarrow> ('s, slice) lsm"
  ct_PutState :: "bytes \<Rightarrow> slice \<Rightarrow> ('s, unit) lsm"
  ct_DelState :: "bytes \<Rightarrow> ('s, unit) lsm"
  ct_Add :: "bytes \<Rightarrow> bytes \<Rightarrow> ('s, unit) lsm"
  ct_Remove :: "bytes \<Rightarrow> bytes \<Rightarrow> ('s, unit) lsm"
  ct_Size :: "bytes \<Rightarrow> ('s, int) lsm"
  ct_Get :: "bytes \<Rightarrow> int \<Rightarrow> ('s, bytes) lsm"
  ct_QueryStateHistory :: "bytes \<Rightarrow> ('s, bytes) lsm"
  ct_InvokeChaincode :: "bytes \<Rightarrow> bytes list \<Rightarrow> bytes \<Rightarrow> ('s, Response) lsm"

text \<open>\<^verbatim>\<open>return shim.Error(msg)\<close>.\<close>

definition refuse_with :: "bytes \<Rightarrow> ('s, Response) lsm" where
  "refuse_with msg = ret (shim_Error msg)"

text \<open>Reads and writes whose error is not looked at, and sequences of them.\<close>

definition read_state :: "'s contract_stub \<Rightarrow> bytes \<Rightarrow> ('s, slice) lsm" where
  "read_state st key = lsm_try (ct_GetState st key) (\<lambda>_. ret None) ret"

definition put_state :: "'s contract_stub \<Rightarrow> bytes \<Rightarrow> bytes \<Rightarrow> ('s, unit) lsm" where
  "put_state st key value = drop_error (ct_PutState st key (Some value))"

fun do_all :: "('s, unit) lsm list \<Rightarrow> ('s, unit) lsm" where
  "do_all [] = ret ()"
| "do_all (m # ms) = lsm_bind m (\<lambda>_. do_all ms)"

text \<open>Integer division of Go rounds towards zero.\<close>

definition go_quot :: "int \<Rightarrow> int \<Rightarrow> int" where
  "go_quot a b = sgn a * sgn b * (\<bar>a\<bar> div \<bar>b\<bar>)"

text \<open>The page of a listing: the number of the page, brought into range, and the first and last index of it.\<close>

definition page_bounds :: "int \<Rightarrow> int \<Rightarrow> bytes \<Rightarrow> int \<times> int \<times> int" where
  "page_bounds perPage nSize cpnoStr =
     (let cpno = (if cpnoStr = [] then 0 else fst (ParseInt cpnoStr)); cpno = (if cpno < 0 then 0 else cpno);
          cpno = (if cpno > go_quot nSize perPage then go_quot nSize perPage else cpno)
      in (cpno, cpno * perPage, if (cpno + 1) * perPage > nSize then nSize else (cpno + 1) * perPage))"

definition param :: "(bytes, bytes) gomap \<Rightarrow> bytes \<Rightarrow> bytes" where
  "param m k = (case gm_get m k of None \<Rightarrow> [] | Some v \<Rightarrow> v)"

text \<open>The loop of a listing over the indices of a record list; \<open>entry\<close> looks up what is listed for a member.\<close>

fun collect :: "'s contract_stub \<Rightarrow> bytes \<Rightarrow> (bytes \<Rightarrow> ('s, 'e option) lsm) \<Rightarrow> int list \<Rightarrow> ('s, 'e list) lsm" where
  "collect st rListName entry [] = ret []"
| "collect st rListName entry (i # is') =
     lsm_bind (ct_Get st rListName i) (\<lambda>member.
     lsm_bind (entry member) (\<lambda>e.
     lsm_bind (collect st rListName entry is') (\<lambda>es. ret (case e of None \<Rightarrow> es | Some x \<Rightarrow> x # es))))"

definition stored :: "'s contract_stub \<Rightarrow> (bytes \<Rightarrow> bytes) \<Rightarrow> (bytes \<Rightarrow> 'e res) \<Rightarrow> bytes \<Rightarrow> ('s, 'e option) lsm" where
  "stored st key decode member =
     (if member = [] then ret None
      else lsm_bind (read_state st (key member)) (\<lambda>b.
        ret (case b of None \<Rightarrow> None | Some b \<Rightarrow> (case decode b of Inl _ \<Rightarrow> None | Inr e \<Rightarrow> Some e))))"

text \<open>A result that is not a panic.\<close>

definition no_panic :: "'a res \<Rightarrow> bool" where
  "no_panic r \<longleftrightarrow> (\<forall>e. r = Inl e \<longrightarrow> (\<exists>m. e = Err m))"

lemma no_panic_cases:
  assumes "no_panic r"
  obtains (ok) x where "r = Inr x" | (err) m where "r = Inl (Err m)"
  using assms by (cases r) (auto simp: no_panic_def)

section \<open>Transactions\<close>

record tx_state =
  tx_committed :: "bytes \<Rightarrow> slice"
  tx_writes :: "(bytes \<times> slice) list"
  tx_seq :: int

definition tx_write :: "bytes \<Rightarrow> slice \<Rightarrow> (tx_state, unit) lsm" where
  "tx_write key value s =
     (if key = [] then (Inl (Err ''key must not be an empty string''), s) else (Inr (), s\<lparr>tx_writes := tx_writes s @ [(key, value)]\<rparr>))"

definition tx_list_write :: "bytes \<Rightarrow> bytes \<Rightarrow> bytes \<Rightarrow> (tx_state, unit) lsm" where
  "tx_list_write operation l v s =
     tx_write (rlist_key operation (l @ '','' @ FormatInt (tx_seq s + 1))) (Some v) (s\<lparr>tx_seq := tx_seq s + 1\<rparr>)"

record tx_info =
  ti_Args :: "bytes list"
  ti_TxID :: bytes
  ti_Creator :: bytes
  ti_Timestamp :: "bytes option"
  ti_ChannelHeader :: "ChannelHeader res"
  ti_Invoke :: "bytes \<Rightarrow> bytes list \<Rightarrow> bytes \<Rightarrow> (tx_state, Response) lsm"
  ti_History :: "bytes \<Rightarrow> bytes"

definition tx_stub :: "tx_info \<Rightarrow> tx_state contract_stub" where
  "tx_stub ti =
     \<lparr>ct_GetArgs = ti_Args ti, ct_GetTxID = ti_TxID ti, ct_GetCreator = ti_Creator ti, ct_GetTxTimestamp = ti_Timestamp ti,
      ct_GetChannelHeader = ti_ChannelHeader ti,
      ct_GetState = (\<lambda>key s. (Inr (tx_committed s key), s)), ct_PutState = tx_write, ct_DelState = (\<lambda>key. tx_write key None),
      ct_Add = tx_list_write ''ADD'', ct_Remove = tx_list_write ''DEL'',
      ct_Size = (\<lambda>l s. (Inr (number_or 0 (tx_committed s (rlist_key ''LEN'' l))), s)),
      ct_Get = (\<lambda>l i s. (Inr (str_of (tx_committed s (rlist_key ''GET'' (l @ '','' @ FormatInt i)))), s)),
      ct_QueryStateHistory = (\<lambda>key. ret (ti_History ti key)), ct_InvokeChaincode = ti_Invoke ti\<rparr>"

definition begin_tx :: "(bytes \<Rightarrow> slice) \<Rightarrow> tx_state" where
  "begin_tx cm = \<lparr>tx_committed = cm, tx_writes = [], tx_seq = 0\<rparr>"

lemma begin_tx_simps [simp]: "tx_committed (begin_tx cm) = cm" "tx_writes (begin_tx cm) = []"
  by (simp_all add: begin_tx_def)

text \<open>The state after the writes of a transaction, in their order.\<close>

definition after :: "(bytes \<times> slice) list \<Rightarrow> (bytes \<Rightarrow> slice) \<Rightarrow> bytes \<Rightarrow> slice" where
  "after ws cm = foldl (\<lambda>m (k, v). m(k := v)) cm ws"

lemma after_simps [simp]: "after [] cm = cm" "after ((k, v) # ws) cm = after ws (cm(k := v))"
  by (simp_all add: after_def)

lemma after_append [simp]: "after (ws @ ws') cm = after ws' (after ws cm)"
  by (simp add: after_def)

lemma after_other: "k \<notin> fst ` set ws \<Longrightarrow> after ws cm k = cm k"
  by (induction ws arbitrary: cm) auto

lemma rlist_key_nonempty [simp]: "rlist_key op l \<noteq> []"
  by (simp add: rlist_key_def)

lemma error_not_success [simp]: "shim_Error m \<noteq> shim_Success v" "shim_Success v \<noteq> shim_Error m"
  by (simp_all add: shim_Error_def shim_Success_def shim_OK_def shim_ERROR_def)

definition succeeded :: "Response res \<Rightarrow> bool" where
  "succeeded r \<longleftrightarrow> (\<exists>v. r = Inr (shim_Success v))"

definition refused :: "Response res \<Rightarrow> bool" where
  "refused r \<longleftrightarrow> (\<exists>m. r = Inr (shim_Error m))"

lemma outcome_simps [simp]:
  "succeeded (Inr (shim_Success v))" "\<not> succeeded (Inr (shim_Error m))" "\<not> succeeded (Inl e)" "refused (Inr (shim_Error m))"
  by (auto simp: succeeded_def refused_def)

section \<open>What a stub promises\<close>

text \<open>
  \<open>cm\<close> is the state a transaction reads and \<open>ws\<close> its writes so far: reads change neither, and a write
  is appended to the writes and not read back.
\<close>

locale snapshot_stub =
  fixes st :: "'s contract_stub" and cm :: "'s \<Rightarrow> bytes \<Rightarrow> slice" and ws :: "'s \<Rightarrow> (bytes \<times> slice) list"
  assumes GetState: "ct_GetState st key s = (Inr (cm s key), s)"
    and PutState: "key \<noteq> [] \<Longrightarrow> \<exists>s'. ct_PutState st key value s = (Inr (), s') \<and> cm s' = cm s \<and> ws s' = ws s @ [(key, value)]"
    and DelState: "key \<noteq> [] \<Longrightarrow> \<exists>s'. ct_DelState st key s = (Inr (), s') \<and> cm s' = cm s \<and> ws s' = ws s @ [(key, None)]"
    and Add: "\<exists>s' n. ct_Add st l i s = (Inr (), s') \<and> cm s' = cm s \<and> ws s' = ws s @ [(rlist_key ''ADD'' (l @ '','' @ n), Some i)]"
    and Remove: "\<exists>s' n. ct_Remove st l i s = (Inr (), s') \<and> cm s' = cm s \<and> ws s' = ws s @ [(rlist_key ''DEL'' (l @ '','' @ n), Some i)]"
    and Size: "ct_Size st l s = (Inr (number_or 0 (cm s (rlist_key ''LEN'' l))), s)"
begin

lemma read_state [simp]: "read_state st key s = (Inr (cm s key), s)"
  by (simp add: read_state_def lsm_try_def GetState lift_res_def)

lemma put_state:
  assumes "key \<noteq> []"
  shows "\<exists>s'. put_state st key v s = (Inr (), s') \<and> cm s' = cm s \<and> ws s' = ws s @ [(key, Some v)]"
  using PutState [OF assms, of "Some v" s] by (auto simp: put_state_def drop_error_def lsm_try_def lift_res_def)

text \<open>
  A sequence of operations each of which appends one write leaves the state that was read as it is.
  \<open>appends\<close> says this of one operation: \<open>P\<close> is what is known of the entry it appends.
\<close>

definition appends :: "(bytes \<times> slice \<Rightarrow> bool) \<Rightarrow> ('s, unit) lsm \<Rightarrow> bool" where
  "appends P m \<longleftrightarrow> (\<forall>s. \<exists>s' e. m s = (Inr (), s') \<and> cm s' = cm s \<and> ws s' = ws s @ [e] \<and> P e)"

lemma appends_put: "key \<noteq> [] \<Longrightarrow> appends (\<lambda>e. e = (key, Some v)) (put_state st key v)"
  unfolding appends_def using put_state by blast

lemma appends_add: "appends (\<lambda>e. \<exists>n. e = (rlist_key ''ADD'' (l @ '','' @ n), Some i)) (ct_Add st l i)"
  unfolding appends_def using Add by blast

lemma appends_remove: "appends (\<lambda>e. \<exists>n. e = (rlist_key ''DEL'' (l @ '','' @ n), Some i)) (ct_Remove st l i)"
  unfolding appends_def using Remove by blast

lemma appends_delete: "key \<noteq> [] \<Longrightarrow> appends (\<lambda>e. e = (key, None)) (ct_DelState st key)"
  unfolding appends_def using DelState by blast

lemma do_all_appends:
  assumes "list_all2 appends Ps ms"
  shows "\<exists>s' es. do_all ms s = (Inr (), s') \<and> cm s' = cm s \<and> ws s' = ws s @ es \<and> list_all2 (\<lambda>P e. P e) Ps es"
  using assms
proof (induction arbitrary: s rule: list_all2_induct)
  case Nil
  then show ?case by (simp add: lift_res_def)
next
  case (Cons P Ps m ms)
  obtain s1 e where one: "m s = (Inr (), s1)" "cm s1 = cm s" "ws s1 = ws s @ [e]" "P e"
    using Cons.hyps(1) unfolding appends_def by blast
  obtain s2 es where rest: "do_all ms s1 = (Inr (), s2)" "cm s2 = cm s1" "ws s2 = ws s1 @ es" "list_all2 (\<lambda>P e. P e) Ps es"
    using Cons.IH by blast
  show ?case by (rule exI [of _ s2], rule exI [of _ "e # es"]) (use one rest in \<open>simp add: lsm_bind_def\<close>)
qed

text \<open>
  What an operation returns and writes when it reads the state \<open>M\<close>. The rules follow the structure of an
  operation.
\<close>

definition effect :: "(bytes \<Rightarrow> slice) \<Rightarrow> ('s, 'a) lsm \<Rightarrow> ('a res \<Rightarrow> (bytes \<times> slice) list \<Rightarrow> bool) \<Rightarrow> bool" where
  "effect M m P \<longleftrightarrow> (\<forall>s. cm s = M \<longrightarrow> (\<exists>r s' es. m s = (r, s') \<and> cm s' = M \<and> ws s' = ws s @ es \<and> P r es))"

lemma effectD: "effect M m P \<Longrightarrow> cm s = M \<Longrightarrow> \<exists>r s' es. m s = (r, s') \<and> cm s' = M \<and> ws s' = ws s @ es \<and> P r es"
  unfolding effect_def by blast

lemma effect_mono: "effect M m P \<Longrightarrow> (\<And>r es. P r es \<Longrightarrow> Q r es) \<Longrightarrow> effect M m Q"
  unfolding effect_def by blast

lemma effect_lift: "P r [] \<Longrightarrow> effect M (lift_res r) P"
  by (auto simp: effect_def)

lemma effect_read: "P (Inr (M k)) [] \<Longrightarrow> effect M (read_state st k) P" "P (Inr (M k)) [] \<Longrightarrow> effect M (ct_GetState st k) P"
  by (auto simp: effect_def GetState)

lemma effect_append:
  assumes "appends Q m" "\<And>e. Q e \<Longrightarrow> P (Inr ()) [e]"
  shows "effect M m P"
  using assms unfolding effect_def appends_def by metis

lemmas effect_put = effect_append [OF appends_put]
lemmas effect_add = effect_append [OF appends_add]
lemmas effect_remove = effect_append [OF appends_remove]

lemma effect_bind:
  assumes "effect M m (\<lambda>r es. case r of Inl e \<Rightarrow> P (Inl e) es | Inr x \<Rightarrow> effect M (f x) (\<lambda>r' es'. P r' (es @ es')))"
  shows "effect M (lsm_bind m f) P"
  unfolding effect_def
proof (intro allI impI)
  fix s assume "cm s = M"
  from effectD [OF assms this] obtain r s1 es where one: "m s = (r, s1)" "cm s1 = M" "ws s1 = ws s @ es"
      "case r of Inl e \<Rightarrow> P (Inl e) es | Inr x \<Rightarrow> effect M (f x) (\<lambda>r' es'. P r' (es @ es'))" by blast
  show "\<exists>r s' es. lsm_bind m f s = (r, s') \<and> cm s' = M \<and> ws s' = ws s @ es \<and> P r es"
  proof (cases r)
    case (Inr x)
    then have "effect M (f x) (\<lambda>r' es'. P r' (es @ es'))" using one(4) by simp
    from effectD [OF this one(2)] show ?thesis using one Inr by (auto simp: lsm_bind_def)
  qed (use one in \<open>auto simp: lsm_bind_def\<close>)
qed

lemma effect_try:
  assumes "effect M m (\<lambda>r es. case r of Inr x \<Rightarrow> effect M (f x) (\<lambda>r' es'. P r' (es @ es'))
    | Inl e \<Rightarrow> (case e of Err x \<Rightarrow> effect M (h (Err x)) (\<lambda>r' es'. P r' (es @ es')) | _ \<Rightarrow> P (Inl e) es))"
  shows "effect M (lsm_try m h f) P"
  unfolding effect_def
proof (intro allI impI)
  fix s assume "cm s = M"
  from effectD [OF assms this] obtain r s1 es where one: "m s = (r, s1)" "cm s1 = M" "ws s1 = ws s @ es"
      "case r of Inr x \<Rightarrow> effect M (f x) (\<lambda>r' es'. P r' (es @ es'))
        | Inl e \<Rightarrow> (case e of Err x \<Rightarrow> effect M (h (Err x)) (\<lambda>r' es'. P r' (es @ es')) | _ \<Rightarrow> P (Inl e) es)" by blast
  show "\<exists>r s' es. lsm_try m h f s = (r, s') \<and> cm s' = M \<and> ws s' = ws s @ es \<and> P r es"
  proof (cases r)
    case (Inr x)
    then have "effect M (f x) (\<lambda>r' es'. P r' (es @ es'))" using one(4) by simp
    from effectD [OF this one(2)] show ?thesis using one Inr by (auto simp: lsm_try_def)
  next
    case (Inl e)
    show ?thesis
    proof (cases e)
      case (Err x)
      then have "effect M (h (Err x)) (\<lambda>r' es'. P r' (es @ es'))" using one(4) Inl by simp
      from effectD [OF this one(2)] show ?thesis using one Inl Err by (auto simp: lsm_try_def)
    qed (use one Inl in \<open>auto simp: lsm_try_def\<close>)
  qed
qed

end

text \<open>Calls of other chaincodes write to namespaces of their own: they are answered, and leave this one alone.\<close>

locale quiet_calls = snapshot_stub +
  fixes reply :: "bytes \<Rightarrow> bytes list \<Rightarrow> bytes \<Rightarrow> Response"
  assumes Invoke: "\<exists>s'. ct_InvokeChaincode st n args chan s = (Inr (reply n args chan), s') \<and> cm s' = cm s \<and> ws s' = ws s"
begin

lemma effect_invoke: "P (Inr (reply n args chan)) [] \<Longrightarrow> effect M (ct_InvokeChaincode st n args chan) P"
  using Invoke by (fastforce simp: effect_def)

end

lemma tx_write_ok: "key \<noteq> [] \<Longrightarrow> tx_write key v s = (Inr (), s\<lparr>tx_writes := tx_writes s @ [(key, v)]\<rparr>)"
  by (simp add: tx_write_def)

lemma tx_list_write_ok:
  "tx_list_write op l v s = (Inr (), s\<lparr>tx_seq := tx_seq s + 1, tx_writes := tx_writes s @ [(rlist_key op (l @ '','' @ FormatInt (tx_seq s + 1)), Some v)]\<rparr>)"
  by (simp add: tx_list_write_def tx_write_def)

interpretation tx: snapshot_stub "tx_stub ti" tx_committed tx_writes for ti
  by unfold_locales (auto simp: tx_stub_def tx_write_ok tx_list_write_ok)

definition answering :: "(bytes \<Rightarrow> bytes list \<Rightarrow> bytes \<Rightarrow> Response) \<Rightarrow> tx_info \<Rightarrow> tx_info" where
  "answering reply ti = ti\<lparr>ti_Invoke := (\<lambda>n args chan s. (Inr (reply n args chan), s))\<rparr>"

lemma answering_simps [simp]:
  "ct_GetCreator (tx_stub (answering reply ti)) = ti_Creator ti" "ct_GetTxTimestamp (tx_stub (answering reply ti)) = ti_Timestamp ti"
  "ct_GetChannelHeader (tx_stub (answering reply ti)) = ti_ChannelHeader ti"
  by (simp_all add: tx_stub_def answering_def)

interpretation calls: quiet_calls "tx_stub (answering reply ti)" tx_committed tx_writes reply for reply ti
  by unfold_locales (auto simp: tx_stub_def answering_def)

end
