(* ===== verification/Customers.thy ===== *)
theory Customers
  imports ContractStub
begin

text \<open>
  The system chaincode of the members of a channel, \<^verbatim>\<open>core/scc/rbccustomer/rbccustomer.go\<close>. A customer is
  a JSON record under its id; the keys \<^verbatim>\<open>__IDX_\<close> lead from the id, the number and the digest of the
  certificate of a customer to its id. JSON, protobuf, digests and the printing of a time are
  functions of \<open>rbc_env\<close>.

  Results: who may register whom (\<open>registrant_authorised\<close>, \<open>register_success\<close>), and a registered customer is found by its id,
  its number and its certificate (\<open>registered_is_found\<close>). A malformed change stops the peer
  (\<open>modifyDict_malformed_panics\<close>, \<open>modify_malformed_panics\<close>) since the error is built and dropped; a
  registration takes over the certificate of another customer (\<open>register_takes_over_certificate\<close>); the
  test function writes any key (\<open>testPerform_writes\<close>), by which a customer of the lowest kind becomes a
  super user (\<open>customer_becomes_super_user\<close>).
\<close>

record CustomerEntity =
  cu_TxId :: bytes
  cu_TxTime :: bytes
  cu_IdKey :: bytes
  cu_CustomerId :: bytes
  cu_CustomerNo :: bytes
  cu_CustomerName :: bytes
  cu_CustomerType :: bytes
  cu_CustomerStatus :: bytes
  cu_CustomerSignCert :: bytes
  cu_CustomerAuth :: bytes
  cu_RegCustomerNo :: bytes
  cu_RegTime :: bytes
  cu_Dict :: "(bytes, bytes) gomap option"

record rbc_env =
  rx_IdBytes :: "bytes \<Rightarrow> bytes res"
  rx_md5hex :: "bytes \<Rightarrow> bytes"
  rx_TrimSpace :: "bytes \<Rightarrow> bytes"
  rx_FormatTime :: "bytes \<Rightarrow> bytes"
  rx_UnmarshalCustomer :: "bytes \<Rightarrow> CustomerEntity res"
  rx_MarshalCustomer :: "CustomerEntity \<Rightarrow> bytes res"
  rx_UnmarshalMap :: "bytes \<Rightarrow> (bytes, bytes) gomap res"
  rx_MarshalCustomers :: "CustomerEntity PageList \<Rightarrow> slice"
  rx_UnmarshalSpecName :: "bytes \<Rightarrow> bytes option res"

definition idx_key :: "bytes \<Rightarrow> bytes" where
  "idx_key k = ''__IDX_'' @ k"

definition cert_digest :: "rbc_env \<Rightarrow> bytes \<Rightarrow> bytes" where
  "cert_digest env cert = rx_md5hex env (rx_TrimSpace env cert)"

text \<open>The time of a transaction; the error of reading it is dropped and the missing time dereferenced.\<close>

definition time_of_tx :: "rbc_env \<Rightarrow> 's contract_stub \<Rightarrow> bytes res" where
  "time_of_tx env st = res_bind (deref (ct_GetTxTimestamp st)) (\<lambda>t. Inr (rx_FormatTime env t))"

section \<open>Looking up customers\<close>

definition getTxCustomerEntity :: "rbc_env \<Rightarrow> 's contract_stub \<Rightarrow> ('s, CustomerEntity option) lsm" where
  "getTxCustomerEntity env st =
     lsm_try (lift_res (rx_IdBytes env (ct_GetCreator st))) (\<lambda>_. ret None) (\<lambda>idBytes.
     lsm_try (ct_GetState st (idx_key (cert_digest env idBytes))) (\<lambda>_. ret None) (\<lambda>customerBuf.
       let customerId = str_of customerBuf in
       if customerId = [] then ret None
       else
         lsm_bind (read_state st customerId) (\<lambda>existBytes.
           case existBytes of
             None \<Rightarrow> ret None
           | Some b \<Rightarrow> ret (case rx_UnmarshalCustomer env b of Inl _ \<Rightarrow> None | Inr c \<Rightarrow> Some c))))"

definition queryOne :: "'s contract_stub \<Rightarrow> bytes \<Rightarrow> ('s, Response) lsm" where
  "queryOne st params =
     lsm_try (ct_GetState st (idx_key params)) (\<lambda>e. refuse_with (''customer not found '' @ err_msg e)) (\<lambda>customerBuf.
       let customerId = str_of customerBuf in
       if customerId = [] then ret (shim_Success None)
       else
         lsm_bind (read_state st customerId) (\<lambda>existBytes.
           ret (shim_Success (case existBytes of None \<Rightarrow> Some [] | Some b \<Rightarrow> Some b))))"

section \<open>Registration\<close>

text \<open>The number of the one who registers a customer, or why it may not.\<close>

definition registrant :: "CustomerEntity \<Rightarrow> CustomerEntity option \<Rightarrow> bytes + bytes" where
  "registrant c txCustomer =
     (case txCustomer of
        None \<Rightarrow> Inl ''tx user is not a customer''
      | Some tx \<Rightarrow>
          let (customerType, err) = ParseInt (cu_CustomerType c); (txCustomerType, txErr) = ParseInt (cu_CustomerType tx) in
          if err then Inl ''customer type is invalid''
          else if txErr then Inl ''tx customer type is invalid''
          else if txCustomerType > 3 \<or> txCustomerType < 1 then Inl (''tx user customer type is '' @ cu_CustomerType tx @ '' not in [1,2,3]'')
          else if customerType < 4 \<and> txCustomerType \<noteq> 1 then Inl (''customer type '' @ cu_CustomerType c @ '' must regist by 1'')
          else Inr (cu_CustomerNo tx))"

text \<open>The writes of a registration.\<close>

definition register_writes :: "rbc_env \<Rightarrow> 's contract_stub \<Rightarrow> CustomerEntity \<Rightarrow> bytes \<Rightarrow> ('s, unit) lsm list" where
  "register_writes env st c customerBytes =
     [put_state st (cu_CustomerId c) customerBytes,
      put_state st (idx_key (cu_CustomerId c)) (cu_CustomerId c),
      put_state st (idx_key (cu_CustomerNo c)) (cu_CustomerId c),
      put_state st (idx_key (cert_digest env (cu_CustomerSignCert c))) (cu_CustomerId c),
      ct_Add st ''customer'' (cu_CustomerId c),
      ct_Add st (''customer_'' @ cu_CustomerType c) (cu_CustomerId c),
      ct_Add st (''customer_'' @ cu_CustomerType c @ ''_'' @ cu_CustomerStatus c) (cu_CustomerId c),
      ct_Add st (''customer__'' @ cu_CustomerStatus c) (cu_CustomerId c)]"

definition enter_customer :: "rbc_env \<Rightarrow> 's contract_stub \<Rightarrow> CustomerEntity \<Rightarrow> ('s, Response) lsm" where
  "enter_customer env st c =
     (if cu_CustomerId c = [] then refuse_with ''customerId is nil''
      else
        lsm_bind (read_state st (cu_CustomerId c)) (\<lambda>existBytes.
        if existBytes \<noteq> None then refuse_with (''the customerId '' @ cu_CustomerId c @ '' has exist'')
        else
          lsm_bind (read_state st (idx_key (cu_CustomerNo c))) (\<lambda>existBytes.
          if existBytes \<noteq> None then refuse_with (''the customerNo '' @ cu_CustomerNo c @ '' has exist'')
          else
            lsm_bind (lift_res (time_of_tx env st)) (\<lambda>txTimeStr.
            let c = c\<lparr>cu_IdKey := cu_CustomerId c, cu_TxId := ct_GetTxID st, cu_TxTime := txTimeStr, cu_RegTime := txTimeStr\<rparr> in
            lsm_try (lift_res (rx_MarshalCustomer env c)) (\<lambda>_. refuse_with ''convert customer entity to json err'') (\<lambda>customerBytes.
            lsm_bind (do_all (register_writes env st c customerBytes)) (\<lambda>_.
              ret (shim_Success (Some ''regist success''))))))))"

definition register :: "rbc_env \<Rightarrow> 's contract_stub \<Rightarrow> bytes \<Rightarrow> ('s, Response) lsm" where
  "register env st params =
     lsm_bind (ct_Size st ''customer'') (\<lambda>nCustomerSize.
     lsm_try (lift_res (rx_UnmarshalCustomer env params)) (\<lambda>_. refuse_with ''register param is not a json'') (\<lambda>c.
     lsm_bind (if nCustomerSize > 0 then lsm_bind (getTxCustomerEntity env st) (\<lambda>tx. ret (registrant c tx)) else ret (Inr ''system'')) (\<lambda>r.
       case r of
         Inl msg \<Rightarrow> refuse_with msg
       | Inr regNo \<Rightarrow> enter_customer env st (c\<lparr>cu_RegCustomerNo := regNo, cu_CustomerStatus := ''1''\<rparr>))))"

section \<open>Changes\<close>

definition getCustomerInfo :: "rbc_env \<Rightarrow> 's contract_stub \<Rightarrow> bytes \<Rightarrow> ('s, CustomerEntity \<times> CustomerEntity) lsm" where
  "getCustomerInfo env st params =
     lsm_try (lift_res (rx_UnmarshalCustomer env params)) (\<lambda>_. fail (Err ''register param is not a json'')) (\<lambda>c.
     lsm_bind (read_state st (cu_CustomerId c)) (\<lambda>existBytes.
     lsm_bind (lift_res (need existBytes (''the customerId '' @ cu_CustomerId c @ '' not exist'') Inr)) (\<lambda>b.
     lsm_try (lift_res (rx_UnmarshalCustomer env b)) (\<lambda>_. fail (Err ''exist customer is not a json'')) (\<lambda>existCustomer.
       ret (c, existCustomer)))))"

text \<open>Attributes of a customer may only be changed by a super user and through \<^verbatim>\<open>rbcapproval\<close>.\<close>

definition changes_attributes :: "CustomerEntity \<Rightarrow> bool" where
  "changes_attributes c \<longleftrightarrow>
     cu_CustomerName c \<noteq> [] \<or> cu_CustomerType c \<noteq> [] \<or> cu_CustomerStatus c \<noteq> [] \<or> cu_CustomerAuth c \<noteq> [] \<or> cu_CustomerSignCert c \<noteq> []"

definition may_change :: "rbc_env \<Rightarrow> 's contract_stub \<Rightarrow> CustomerEntity \<Rightarrow> (bytes + unit) res" where
  "may_change env st tx =
     (if cu_CustomerType tx \<noteq> ''1'' then Inr (Inl ''modify customer attribute must be 1'')
      else
        res_try (ct_GetChannelHeader st) (\<lambda>_. Inr (Inl ''get channel header has err'')) (\<lambda>chr.
        res_try (rx_UnmarshalSpecName env (ch_Extension chr)) (\<lambda>_. Inr (Inl ''get chaincode spec has err'')) (\<lambda>name.
        res_bind (deref name) (\<lambda>n.
          if n \<noteq> ''rbcapproval'' then Inr (Inl ''modify customer attribute must from rbcapproval'') else Inr (Inr ())))))"

definition or_old :: "bytes \<Rightarrow> bytes \<Rightarrow> bytes" where
  "or_old new old = (if new = [] then old else new)"

definition changed :: "CustomerEntity \<Rightarrow> CustomerEntity \<Rightarrow> CustomerEntity" where
  "changed c ex = ex\<lparr>cu_CustomerName := or_old (cu_CustomerName c) (cu_CustomerName ex),
     cu_CustomerAuth := or_old (cu_CustomerAuth c) (cu_CustomerAuth ex),
     cu_CustomerType := or_old (cu_CustomerType c) (cu_CustomerType ex),
     cu_CustomerStatus := or_old (cu_CustomerStatus c) (cu_CustomerStatus ex),
     cu_CustomerSignCert := or_old (cu_CustomerSignCert c) (cu_CustomerSignCert ex),
     cu_Dict := (case cu_Dict c of None \<Rightarrow> cu_Dict ex | Some d \<Rightarrow> Some d), cu_IdKey := cu_CustomerId c\<rparr>"

definition cert_writes :: "rbc_env \<Rightarrow> 's contract_stub \<Rightarrow> CustomerEntity \<Rightarrow> CustomerEntity \<Rightarrow> ('s, unit) lsm list" where
  "cert_writes env st c ex =
     (if cu_CustomerSignCert c = [] then []
      else [drop_error (ct_DelState st (idx_key (cert_digest env (cu_CustomerSignCert ex)))),
            put_state st (idx_key (cert_digest env (cu_CustomerSignCert c))) (cu_CustomerId c)])"

text \<open>The lists of a customer, from what it was (\<open>ex\<close>) to what it is (\<open>new\<close>).\<close>

definition list_writes :: "'s contract_stub \<Rightarrow> CustomerEntity \<Rightarrow> CustomerEntity \<Rightarrow> ('s, unit) lsm list" where
  "list_writes st ex new =
     (let i = cu_CustomerId new; oldType = cu_CustomerType ex; oldStatus = cu_CustomerStatus ex; newType = cu_CustomerType new; newStatus = cu_CustomerStatus new in
      if oldType \<noteq> newType then
        [ct_Remove st (''customer_'' @ oldType) i, ct_Add st (''customer_'' @ newType) i,
         ct_Remove st (''customer_'' @ oldType @ ''_'' @ oldStatus) i, ct_Add st (''customer_'' @ newType @ ''_'' @ newStatus) i]
      else if oldStatus \<noteq> newStatus then
        [ct_Remove st (''customer_'' @ oldType @ ''_'' @ oldStatus) i, ct_Add st (''customer_'' @ newType @ ''_'' @ newStatus) i,
         ct_Remove st (''customer__'' @ oldStatus) i, ct_Add st (''customer__'' @ newStatus) i]
      else [])"

definition modifyInfo :: "rbc_env \<Rightarrow> 's contract_stub \<Rightarrow> CustomerEntity option \<Rightarrow> CustomerEntity option \<Rightarrow> ('s, Response) lsm" where
  "modifyInfo env st customerEntity existCustomer =
     lsm_bind (getTxCustomerEntity env st) (\<lambda>tx.
       case tx of
         None \<Rightarrow> refuse_with ''tx user is not a customer''
       | Some tx \<Rightarrow>
           lsm_bind (lift_res (deref customerEntity)) (\<lambda>c.
           lsm_bind (lift_res (if changes_attributes c then may_change env st tx else Inr (Inr ()))) (\<lambda>allowed.
           case allowed of
             Inl msg \<Rightarrow> refuse_with msg
           | Inr _ \<Rightarrow>
               lsm_bind (lift_res (deref existCustomer)) (\<lambda>ex.
               let new = changed c ex in
               lsm_bind (do_all (cert_writes env st c ex @ list_writes st ex new)) (\<lambda>_.
               lsm_bind (lift_res (time_of_tx env st)) (\<lambda>txTimeStr.
               lsm_try (lift_res (rx_MarshalCustomer env (new\<lparr>cu_TxId := ct_GetTxID st, cu_TxTime := txTimeStr\<rparr>)))
                 (\<lambda>_. refuse_with ''convert customer entity to json err'') (\<lambda>customerBytes.
               lsm_bind (put_state st (cu_CustomerId c) customerBytes) (\<lambda>_.
                 ret (shim_Success (Some ''regist success''))))))))))"

section \<open>Listings and the entry point\<close>

definition customer_list :: "bytes \<Rightarrow> bytes \<Rightarrow> bytes" where
  "customer_list customerType customerStatus =
     (if customerType \<noteq> [] then ''customer_'' @ customerType @ (if customerStatus \<noteq> [] then ''_'' @ customerStatus else [])
      else if customerStatus \<noteq> [] then ''customer__'' @ customerStatus else ''customer'')"

definition queryAll :: "rbc_env \<Rightarrow> 's contract_stub \<Rightarrow> bytes \<Rightarrow> ('s, Response) lsm" where
  "queryAll env st params =
     lsm_try (lift_res (rx_UnmarshalMap env params)) (\<lambda>_. refuse_with ''query param is err'') (\<lambda>m.
     let rListName = customer_list (param m ''customerType'') (param m ''customerStatus'') in
     lsm_bind (ct_Size st rListName) (\<lambda>nSize.
     let (cpno, bNo, eNo) = page_bounds 20 nSize (param m ''cpno'') in
     lsm_bind (collect st rListName (stored st (\<lambda>i. i) (rx_UnmarshalCustomer env)) [bNo..eNo - 1]) (\<lambda>customers.
       ret (shim_Success (rx_MarshalCustomers env \<lparr>pl_Cpno = FormatInt cpno, pl_Rnum = FormatInt nSize, pl_List = customers\<rparr>)))))"

definition blank_customer :: "bytes \<Rightarrow> CustomerEntity" where
  "blank_customer i = \<lparr>cu_TxId = [], cu_TxTime = [], cu_IdKey = [], cu_CustomerId = i, cu_CustomerNo = [], cu_CustomerName = [], cu_CustomerType = [],
     cu_CustomerStatus = [], cu_CustomerSignCert = [], cu_CustomerAuth = [], cu_RegCustomerNo = [], cu_RegTime = [], cu_Dict = None\<rparr>"

definition queryPerform :: "rbc_env \<Rightarrow> 's contract_stub \<Rightarrow> bytes \<Rightarrow> ('s, Response) lsm" where
  "queryPerform env st params =
     lsm_try (lift_res (rx_UnmarshalMap env params)) (\<lambda>_. refuse_with ''query param is err'') (\<lambda>m.
     lsm_bind (ct_Size st ''testPerform'') (\<lambda>nSize.
     let (cpno, bNo, eNo) = page_bounds 100 nSize (param m ''cpno'') in
     lsm_bind (collect st ''testPerform'' (\<lambda>i. ret (Some (blank_customer i))) (map (\<lambda>i. nSize - i - 1) [bNo..eNo - 1])) (\<lambda>customers.
       ret (shim_Success (rx_MarshalCustomers env \<lparr>pl_Cpno = FormatInt cpno, pl_Rnum = FormatInt nSize, pl_List = customers\<rparr>)))))"

definition testPerform :: "'s contract_stub \<Rightarrow> bytes \<Rightarrow> ('s, Response) lsm" where
  "testPerform st arg =
     lsm_bind (put_state st arg arg) (\<lambda>_.
     lsm_bind (if HasPrefix arg ''RLIST'' then ct_Add st ''testPerform'' arg else ret ()) (\<lambda>_.
       ret (shim_Success None)))"

text \<open>The error of \<^verbatim>\<open>getCustomerInfo\<close> is made a response that is dropped: the missing records are passed on.\<close>

definition customer_info :: "rbc_env \<Rightarrow> 's contract_stub \<Rightarrow> bytes \<Rightarrow> ('s, CustomerEntity option \<times> CustomerEntity option) lsm" where
  "customer_info env st params = lsm_try (getCustomerInfo env st params) (\<lambda>_. ret (None, None)) (\<lambda>(c, ex). ret (Some c, Some ex))"

definition customer_Invoke :: "rbc_env \<Rightarrow> 's contract_stub \<Rightarrow> ('s, Response) lsm" where
  "customer_Invoke env st =
     (let args = ct_GetArgs st in
      if length args < 3 then refuse_with ''Incorrect number of arguments''
      else
        let f = args ! 1; a = args ! 2 in
        if f = ''queryRBCCName'' then ret (shim_Success (Some ''rbccustomer''))
        else if f = ''queryStateHistory'' then lsm_bind (ct_QueryStateHistory st a) (\<lambda>b. ret (shim_Success (Some b)))
        else if f = ''register'' then register env st a
        else if f = ''modify'' then lsm_bind (customer_info env st a) (\<lambda>(c, ex). modifyInfo env st c ex)
        else if f = ''modifyDict'' then
          lsm_bind (customer_info env st a) (\<lambda>(c, ex).
          lsm_bind (lift_res (deref c)) (\<lambda>c.
            modifyInfo env st (Some (c\<lparr>cu_CustomerName := [], cu_CustomerType := [], cu_CustomerStatus := [], cu_CustomerSignCert := [], cu_CustomerAuth := []\<rparr>)) ex))
        else if f = ''queryOne'' then queryOne st a
        else if f = ''queryAll'' then queryAll env st a
        else if f = ''testPerform'' then testPerform st a
        else if f = ''queryPerform'' then queryPerform env st a
        else refuse_with (''function '' @ f @ '' is not found''))"

section \<open>Who may register whom\<close>

lemma registrant_authorised:
  assumes "registrant c tx = Inr no"
  shows "\<exists>t n m. tx = Some t \<and> no = cu_CustomerNo t \<and> ParseInt (cu_CustomerType t) = (n, False) \<and> ParseInt (cu_CustomerType c) = (m, False)
    \<and> n \<in> {1..3} \<and> (m < 4 \<longrightarrow> n = 1)"
  using assms by (auto simp: registrant_def split: option.splits prod.splits if_splits)

text \<open>The lookup of a customer by the digest of a certificate, as a function of the state.\<close>

definition customer_at :: "rbc_env \<Rightarrow> (bytes \<Rightarrow> slice) \<Rightarrow> bytes \<Rightarrow> CustomerEntity option" where
  "customer_at env m digest =
     (let i = str_of (m (idx_key digest)) in
      if i = [] then None
      else (case m i of None \<Rightarrow> None | Some b \<Rightarrow> (case rx_UnmarshalCustomer env b of Inl _ \<Rightarrow> None | Inr c \<Rightarrow> Some c)))"

definition sender :: "rbc_env \<Rightarrow> bytes \<Rightarrow> (bytes \<Rightarrow> slice) \<Rightarrow> CustomerEntity option" where
  "sender env creator m = (case rx_IdBytes env creator of Inr i \<Rightarrow> customer_at env m (cert_digest env i) | Inl _ \<Rightarrow> None)"

lemma idx_key_simps [simp]: "idx_key k \<noteq> []" "idx_key k = idx_key k' \<longleftrightarrow> k = k'" "rlist_key op l \<noteq> idx_key k" "idx_key k \<noteq> rlist_key op l"
  by (simp_all add: idx_key_def rlist_key_def)

context snapshot_stub
begin

lemma getTxCustomerEntity_sender:
  assumes "no_panic (rx_IdBytes env (ct_GetCreator st))"
  shows "getTxCustomerEntity env st s = (Inr (sender env (ct_GetCreator st) (cm s)), s)"
  using assms
  by (cases rule: no_panic_cases)
    (auto simp: getTxCustomerEntity_def lsm_try_def lift_res_def GetState Let_def lsm_bind_def sender_def customer_at_def
      split: option.splits sum.splits)

text \<open>The writes of a registration, the lists last.\<close>

definition registered :: "rbc_env \<Rightarrow> CustomerEntity \<Rightarrow> bytes \<Rightarrow> (bytes \<times> slice) list \<Rightarrow> bool" where
  "registered env c b es \<longleftrightarrow>
     (\<exists>ls. es = [(cu_CustomerId c, Some b), (idx_key (cu_CustomerId c), Some (cu_CustomerId c)), (idx_key (cu_CustomerNo c), Some (cu_CustomerId c)),
              (idx_key (cert_digest env (cu_CustomerSignCert c)), Some (cu_CustomerId c))] @ ls
        \<and> (\<forall>e \<in> set ls. \<exists>l. fst e = rlist_key ''ADD'' l))"

lemma register_writes_all:
  assumes "cu_CustomerId c \<noteq> []"
  shows "\<exists>s' es. do_all (register_writes env st c b) s = (Inr (), s') \<and> cm s' = cm s \<and> ws s' = ws s @ es \<and> registered env c b es"
proof -
  have "list_all2 appends
      [\<lambda>e. e = (cu_CustomerId c, Some b), \<lambda>e. e = (idx_key (cu_CustomerId c), Some (cu_CustomerId c)),
       \<lambda>e. e = (idx_key (cu_CustomerNo c), Some (cu_CustomerId c)), \<lambda>e. e = (idx_key (cert_digest env (cu_CustomerSignCert c)), Some (cu_CustomerId c)),
       \<lambda>e. \<exists>n. e = (rlist_key ''ADD'' (''customer'' @ '','' @ n), Some (cu_CustomerId c)),
       \<lambda>e. \<exists>n. e = (rlist_key ''ADD'' ((''customer_'' @ cu_CustomerType c) @ '','' @ n), Some (cu_CustomerId c)),
       \<lambda>e. \<exists>n. e = (rlist_key ''ADD'' ((''customer_'' @ cu_CustomerType c @ ''_'' @ cu_CustomerStatus c) @ '','' @ n), Some (cu_CustomerId c)),
       \<lambda>e. \<exists>n. e = (rlist_key ''ADD'' ((''customer__'' @ cu_CustomerStatus c) @ '','' @ n), Some (cu_CustomerId c))]
      (register_writes env st c b)"
    unfolding register_writes_def list_all2_Cons list_all2_Nil
    by (intro conjI appends_put appends_add assms refl idx_key_simps(1))
  from do_all_appends [OF this, of s] obtain s' es where es: "do_all (register_writes env st c b) s = (Inr (), s')" "cm s' = cm s" "ws s' = ws s @ es"
      "registered env c b es"
    unfolding registered_def list_all2_Cons1 list_all2_Nil by fastforce
  then show ?thesis by blast
qed

lemma enter_customer_success:
  assumes "enter_customer env st c s = (Inr (shim_Success v), s')"
  shows "\<exists>t b es. time_of_tx env st = Inr t \<and> cu_CustomerId c \<noteq> [] \<and> cm s (cu_CustomerId c) = None \<and> cm s (idx_key (cu_CustomerNo c)) = None
    \<and> rx_MarshalCustomer env (c\<lparr>cu_IdKey := cu_CustomerId c, cu_TxId := ct_GetTxID st, cu_TxTime := t, cu_RegTime := t\<rparr>) = Inr b
    \<and> cm s' = cm s \<and> ws s' = ws s @ es \<and> registered env c b es"
proof -
  have new: "cu_CustomerId c \<noteq> []" "cm s (cu_CustomerId c) = None" "cm s (idx_key (cu_CustomerNo c)) = None"
    using assms by (auto simp: enter_customer_def refuse_with_def lift_res_def lsm_bind_def split: if_splits)
  then obtain t b where tb: "time_of_tx env st = Inr t" "rx_MarshalCustomer env (c\<lparr>cu_IdKey := cu_CustomerId c, cu_TxId := ct_GetTxID st, cu_TxTime := t, cu_RegTime := t\<rparr>) = Inr b"
      and w: "fst (do_all (register_writes env st (c\<lparr>cu_IdKey := cu_CustomerId c, cu_TxId := ct_GetTxID st, cu_TxTime := t, cu_RegTime := t\<rparr>) b) s) = Inr ()
        \<longrightarrow> s' = snd (do_all (register_writes env st (c\<lparr>cu_IdKey := cu_CustomerId c, cu_TxId := ct_GetTxID st, cu_TxTime := t, cu_RegTime := t\<rparr>) b) s)"
    using assms by (auto simp: enter_customer_def refuse_with_def lift_res_def lsm_bind_def lsm_try_def Let_def split: if_splits sum.splits error.splits prod.splits)
  let ?c = "c\<lparr>cu_IdKey := cu_CustomerId c, cu_TxId := ct_GetTxID st, cu_TxTime := t, cu_RegTime := t\<rparr>"
  obtain s1 es where "do_all (register_writes env st ?c b) s = (Inr (), s1)" "cm s1 = cm s" "ws s1 = ws s @ es" "registered env ?c b es"
    using register_writes_all [of ?c env b s] new(1) by auto
  moreover from this w have "s' = s1" by simp
  ultimately show ?thesis using new tb by (auto simp: registered_def)
qed

lemma register_success:
  assumes "register env st params s = (Inr (shim_Success v), s')" "no_panic (rx_IdBytes env (ct_GetCreator st))"
  shows "\<exists>c no t b es. rx_UnmarshalCustomer env params = Inr c
    \<and> (if number_or 0 (cm s (rlist_key ''LEN'' ''customer'')) > 0 then registrant c (sender env (ct_GetCreator st) (cm s)) = Inr no else no = ''system'')
    \<and> time_of_tx env st = Inr t \<and> cu_CustomerId c \<noteq> [] \<and> cm s (cu_CustomerId c) = None \<and> cm s (idx_key (cu_CustomerNo c)) = None
    \<and> rx_MarshalCustomer env (c\<lparr>cu_RegCustomerNo := no, cu_CustomerStatus := ''1'', cu_IdKey := cu_CustomerId c, cu_TxId := ct_GetTxID st, cu_TxTime := t, cu_RegTime := t\<rparr>) = Inr b
    \<and> cm s' = cm s \<and> ws s' = ws s @ es \<and> registered env c b es"
proof -
  obtain c no where c: "rx_UnmarshalCustomer env params = Inr c"
      "if number_or 0 (cm s (rlist_key ''LEN'' ''customer'')) > 0 then registrant c (sender env (ct_GetCreator st) (cm s)) = Inr no else no = ''system''"
      and enter: "enter_customer env st (c\<lparr>cu_RegCustomerNo := no, cu_CustomerStatus := ''1''\<rparr>) s = (Inr (shim_Success v), s')"
    using assms(1) getTxCustomerEntity_sender [OF assms(2), of s]
    by (auto simp: register_def lsm_bind_def lsm_try_def lift_res_def Size refuse_with_def split: if_splits sum.splits error.splits)
  from enter_customer_success [OF enter] show ?thesis using c by (force simp: registered_def)
qed

lemma testPerform_writes:
  assumes "key \<noteq> []" "\<not> HasPrefix key ''RLIST''"
  shows "\<exists>s'. testPerform st key s = (Inr (shim_Success None), s') \<and> cm s' = cm s \<and> ws s' = ws s @ [(key, Some key)]"
  using put_state [OF assms(1), of key s] assms(2) by (auto simp: testPerform_def lsm_bind_def)

lemma modify_malformed_panics:
  assumes "ct_GetArgs st = [a, ''modify'', params]" "rx_UnmarshalCustomer env params = Inl (Err e)" "no_panic (rx_IdBytes env (ct_GetCreator st))"
    and "sender env (ct_GetCreator st) (cm s) = Some tx"
  shows "customer_Invoke env st s = (Inl (Panic ''nil pointer dereference''), s)"
  using assms getTxCustomerEntity_sender [OF assms(3), of s]
  by (simp add: customer_Invoke_def customer_info_def getCustomerInfo_def lsm_bind_def lsm_try_def modifyInfo_def)

end

lemma modifyDict_malformed_panics:
  assumes "ct_GetArgs st = [a, ''modifyDict'', params]" "rx_UnmarshalCustomer env params = Inl (Err e)"
  shows "customer_Invoke env st s = (Inl (Panic ''nil pointer dereference''), s)"
  using assms by (simp add: customer_Invoke_def customer_info_def getCustomerInfo_def lsm_bind_def lsm_try_def)

section \<open>Registered customers\<close>

text \<open>The state after a registration: the record under the id, and the three indices that lead to it.\<close>

lemma after_registered:
  assumes "tx.registered env c b es" "\<not> HasPrefix (cu_CustomerId c) ''__''" "k \<in> {cu_CustomerId c, cu_CustomerNo c, cert_digest env (cu_CustomerSignCert c)}"
  shows "after es m (cu_CustomerId c) = Some b" "after es m (idx_key k) = Some (cu_CustomerId c)"
proof -
  obtain ls where es: "es = [(cu_CustomerId c, Some b), (idx_key (cu_CustomerId c), Some (cu_CustomerId c)), (idx_key (cu_CustomerNo c), Some (cu_CustomerId c)),
      (idx_key (cert_digest env (cu_CustomerSignCert c)), Some (cu_CustomerId c))] @ ls"
      and ls: "\<forall>e \<in> set ls. \<exists>l. fst e = rlist_key ''ADD'' l"
    using assms(1) unfolding tx.registered_def by blast
  have plain: "cu_CustomerId c \<noteq> idx_key j" "cu_CustomerId c \<noteq> rlist_key op l" for j op l
    using assms(2) by (auto simp: idx_key_def rlist_key_def HasPrefix_def)
  have keys: "\<exists>l. fst e = rlist_key ''ADD'' l" if "e \<in> set ls" for e using ls that by blast
  have "cu_CustomerId c \<notin> fst ` set ls" "idx_key k \<notin> fst ` set ls" by (auto dest!: keys simp: plain)
  then show "after es m (cu_CustomerId c) = Some b" "after es m (idx_key k) = Some (cu_CustomerId c)"
    using plain assms(3) by (auto simp: es after_other)
qed

lemma registered_is_found:
  assumes "register env (tx_stub ti) params (begin_tx m) = (Inr (shim_Success v), s')" "no_panic (rx_IdBytes env (ti_Creator ti))"
    and "rx_UnmarshalCustomer env params = Inr c" "\<not> HasPrefix (cu_CustomerId c) ''__''"
    and "k \<in> {cu_CustomerId c, cu_CustomerNo c, cert_digest env (cu_CustomerSignCert c)}"
  shows "\<exists>no t b. rx_MarshalCustomer env (c\<lparr>cu_RegCustomerNo := no, cu_CustomerStatus := ''1'', cu_IdKey := cu_CustomerId c, cu_TxId := ti_TxID ti, cu_TxTime := t, cu_RegTime := t\<rparr>) = Inr b
    \<and> queryOne (tx_stub ti') k (begin_tx (after (tx_writes s') m)) = (Inr (shim_Success (Some b)), begin_tx (after (tx_writes s') m))"
proof -
  obtain no t b es where b: "rx_MarshalCustomer env (c\<lparr>cu_RegCustomerNo := no, cu_CustomerStatus := ''1'', cu_IdKey := cu_CustomerId c, cu_TxId := ti_TxID ti, cu_TxTime := t, cu_RegTime := t\<rparr>) = Inr b"
      and es: "tx_writes s' = es" "tx.registered env c b es" and c: "cu_CustomerId c \<noteq> []"
    using tx.register_success [OF assms(1)] assms(2,3) by (auto simp: tx_stub_def begin_tx_def)
  have "queryOne (tx_stub ti') k (begin_tx (after es m)) = (Inr (shim_Success (Some b)), begin_tx (after es m))"
    using after_registered [OF es(2) assms(4,5), of m] c
    by (auto simp: queryOne_def tx.GetState tx.read_state lsm_try_def lsm_bind_def Let_def begin_tx_def str_of_def split: option.splits)
  then show ?thesis using b es(1) by blast
qed

text \<open>
  Nothing keeps a registration from naming the certificate of another customer: its holder is the new
  customer from then on.
\<close>

lemma register_takes_over_certificate:
  assumes "register env (tx_stub ti) params (begin_tx m) = (Inr (shim_Success v), s')" "no_panic (rx_IdBytes env (ti_Creator ti))"
    and "rx_UnmarshalCustomer env params = Inr c" "\<not> HasPrefix (cu_CustomerId c) ''__''"
    and "rx_IdBytes env creator = Inr cert" "cert_digest env cert = cert_digest env (cu_CustomerSignCert c)"
    and "\<And>x b. rx_MarshalCustomer env x = Inr b \<Longrightarrow> rx_UnmarshalCustomer env b = Inr x"
  shows "\<exists>x. sender env creator (after (tx_writes s') m) = Some x \<and> cu_CustomerId x = cu_CustomerId c \<and> cu_CustomerType x = cu_CustomerType c"
proof -
  obtain no t b es where b: "rx_MarshalCustomer env (c\<lparr>cu_RegCustomerNo := no, cu_CustomerStatus := ''1'', cu_IdKey := cu_CustomerId c, cu_TxId := ti_TxID ti, cu_TxTime := t, cu_RegTime := t\<rparr>) = Inr b"
      and es: "tx_writes s' = es" "tx.registered env c b es" and c: "cu_CustomerId c \<noteq> []"
    using tx.register_success [OF assms(1)] assms(2,3) by (auto simp: tx_stub_def begin_tx_def)
  from assms(7) [OF b] show ?thesis
    using after_registered [OF es(2) assms(4), of "cert_digest env cert" m] assms(5,6) es(1) c
    by (auto simp: sender_def customer_at_def Let_def str_of_def)
qed

text \<open>
  A customer of any kind whose id is the JSON text of a super user becomes one: the test function
  stores the text under itself, over the record of the customer.
\<close>

lemma customer_becomes_super_user:
  assumes "register env (tx_stub ti) params (begin_tx m) = (Inr (shim_Success v), s1)" "no_panic (rx_IdBytes env (ti_Creator ti))"
    and "rx_UnmarshalCustomer env params = Inr c" "\<not> HasPrefix (cu_CustomerId c) ''__''" "\<not> HasPrefix (cu_CustomerId c) ''RLIST''"
    and "rx_UnmarshalCustomer env (cu_CustomerId c) = Inr super"
    and "rx_IdBytes env creator = Inr cert" "cert_digest env cert = cert_digest env (cu_CustomerSignCert c)"
    and "ct_GetArgs (tx_stub ti') = [a, ''testPerform'', cu_CustomerId c]"
    and "customer_Invoke env (tx_stub ti') (begin_tx (after (tx_writes s1) m)) = (r, s2)"
  shows "sender env creator (after (tx_writes s2) (after (tx_writes s1) m)) = Some super"
proof -
  obtain b es where es: "tx_writes s1 = es" "tx.registered env c b es" and c: "cu_CustomerId c \<noteq> []"
    using tx.register_success [OF assms(1)] assms(2,3) by (auto simp: tx_stub_def begin_tx_def)
  obtain s where s: "testPerform (tx_stub ti') (cu_CustomerId c) (begin_tx (after es m)) = (Inr (shim_Success None), s)"
      "tx_writes s = [(cu_CustomerId c, Some (cu_CustomerId c))]"
    using tx.testPerform_writes [OF c assms(5), of ti' "begin_tx (after es m)"] by (auto simp: begin_tx_def)
  have "s2 = s" using assms(9,10) s(1) es(1) by (simp add: customer_Invoke_def)
  moreover have "cu_CustomerId c \<noteq> idx_key j" for j using assms(4) by (auto simp: idx_key_def HasPrefix_def)
  ultimately show ?thesis
    using s(2) after_registered [OF es(2) assms(4), of "cert_digest env cert" m] assms(6-8) es(1) c
    by (auto simp: sender_def customer_at_def Let_def str_of_def)
qed

end
