(* ===== verification/Approval.thy ===== *)
theory Approval
  imports Customers
begin

text \<open>
  The system chaincode for joint decisions, \<^verbatim>\<open>core/scc/rbcapproval/rbcapproval.go\<close>: a proposal to call a
  chaincode is put to the super users of the channel, collects their signatures, and is carried out
  once enough agree.

  Results: in every state the chaincode reaches the signatures of a proposal are by different
  customers and its status follows from them (\<open>approvals_inv\<close>); a decided proposal stays as it is
  (\<open>decided_is_final\<close>); a signature is only taken from an active super user that has not signed
  (\<open>approval_success\<close>). The rules are not the documented ones: a third of the votes is enough where
  two thirds are asked for (\<open>two_thirds_is_one_third\<close>); a majority against a proposal leaves it
  undecided for good (\<open>majority_against_undecided\<close>, \<open>all_signed_refused\<close>); and if the super users cannot
  be counted, anyone's proposal is carried out without a vote (\<open>uncounted_proposal_passes\<close>).
\<close>

record Sign =
  sg_TxId :: bytes
  sg_TxTime :: bytes
  sg_CustomerNo :: bytes
  sg_Status :: bytes
  sg_Desc :: bytes
  sg_ApprovalTime :: bytes

record ApprovalEntity =
  ap_TxId :: bytes
  ap_TxTime :: bytes
  ap_IdKey :: bytes
  ap_ApprovalId :: bytes
  ap_ApprovalName :: bytes
  ap_ApprovalType :: bytes
  ap_VetoType :: bytes
  ap_Chaincode :: bytes
  ap_Func :: bytes
  ap_Args :: "bytes list"
  ap_Creater :: bytes
  ap_CreateTime :: bytes
  ap_Status :: bytes
  ap_Signs :: "Sign list"
  ap_Desc :: bytes
  ap_Dict :: bytes

record approval_env = rbc_env +
  ax_UnmarshalApproval :: "bytes \<Rightarrow> ApprovalEntity res"
  ax_MarshalApproval :: "ApprovalEntity \<Rightarrow> bytes res"
  ax_MarshalApprovals :: "ApprovalEntity PageList \<Rightarrow> slice"
  ax_UnmarshalRnum :: "bytes \<Rightarrow> bytes res"
  ax_base64 :: "bytes \<Rightarrow> bytes"
  ax_ReadMap :: "bytes \<Rightarrow> (bytes, bytes) gomap"

definition approval_key :: "bytes \<Rightarrow> bytes" where
  "approval_key i = ''approval_'' @ i"

section \<open>Questions to the chaincode of the customers\<close>

definition getCustomerEntity :: "approval_env \<Rightarrow> 's contract_stub \<Rightarrow> bytes \<Rightarrow> ('s, CustomerEntity option) lsm" where
  "getCustomerEntity env st params =
     lsm_bind (ct_InvokeChaincode st ''rbccustomer'' [''query'', ''queryOne'', params] []) (\<lambda>resp.
       ret (if rs_Status resp \<noteq> shim_OK then None
            else (case rx_UnmarshalCustomer (rbc_env.truncate env) (str_of (rs_Payload resp)) of Inl _ \<Rightarrow> None | Inr c \<Rightarrow> Some c)))"

definition super_query :: bytes where
  \<open>super_query = ''{"cpno":"0","customerType":"1","customerStatus":"1"}''\<close>

text \<open>The number of super users, \<open>-1\<close> if it cannot be told.\<close>

definition getSuperCustomerNum :: "approval_env \<Rightarrow> 's contract_stub \<Rightarrow> ('s, int) lsm" where
  "getSuperCustomerNum env st =
     lsm_bind (ct_InvokeChaincode st ''rbccustomer'' [''query'', ''queryAll'', super_query] []) (\<lambda>resp.
       ret (if rs_Status resp \<noteq> shim_OK then - 1
            else (case ax_UnmarshalRnum env (str_of (rs_Payload resp)) of Inl _ \<Rightarrow> - 1 | Inr rnum \<Rightarrow> fst (ParseInt rnum))))"

text \<open>The customer that sends the transaction; it has to be an active one.\<close>

definition with_customer ::
    "approval_env \<Rightarrow> 's contract_stub \<Rightarrow> bytes \<Rightarrow> (CustomerEntity \<Rightarrow> ('s, Response) lsm) \<Rightarrow> ('s, Response) lsm" where
  "with_customer env st unknown f =
     lsm_try (lift_res (rx_IdBytes (rbc_env.truncate env) (ct_GetCreator st))) (\<lambda>_. refuse_with ''Could not deserialize a SerializedIdentity'') (\<lambda>idBytes.
     lsm_bind (getCustomerEntity env st (cert_digest (rbc_env.truncate env) idBytes)) (\<lambda>c.
       case c of
         None \<Rightarrow> refuse_with unknown
       | Some cu \<Rightarrow>
           if cu_CustomerStatus cu \<noteq> ''1'' then refuse_with (''tx customer status '' @ cu_CustomerStatus cu @ '' is invalid'') else f cu))"

section \<open>Votes\<close>

definition votes_for :: "Sign list \<Rightarrow> int" where
  "votes_for signs = int (length (filter (\<lambda>s. sg_Status s = ''1'') signs))"

definition votes_against :: "Sign list \<Rightarrow> int" where
  "votes_against signs = int (length (filter (\<lambda>s. sg_Status s \<noteq> ''1'') signs))"

text \<open>
  The status after counting: \<^verbatim>\<open>1\<close> undecided, \<^verbatim>\<open>2\<close> passed, \<^verbatim>\<open>3\<close> rejected. The code has this rule twice, in
  \<^verbatim>\<open>newApproval\<close> and, the same, in \<^verbatim>\<open>approval\<close>.
\<close>

definition decide :: "bytes \<Rightarrow> Sign list \<Rightarrow> int \<Rightarrow> bytes \<Rightarrow> bytes" where
  "decide vetoType signs superUserSize status =
     (let approvalIn = votes_for signs; approvalOut = votes_against signs in
      if vetoType = ''1'' then
        (if approvalOut > 0 then ''3'' else if approvalIn \<ge> superUserSize then ''2'' else status)
      else if vetoType = ''2'' then
        (if approvalOut > go_quot (superUserSize + 1) 3 then ''3'' else if approvalIn \<ge> go_quot (superUserSize + 2) 3 then ''2'' else status)
      else if vetoType = ''3'' then
        (if approvalOut > go_quot (superUserSize + 1) 2 then ''3'' else if approvalIn \<ge> go_quot (superUserSize + 1) 2 then ''2'' else status)
      else status)"

text \<open>A proposal that has passed is carried out; what comes of it is only logged.\<close>

definition carry_out :: "'s contract_stub \<Rightarrow> ApprovalEntity \<Rightarrow> ('s, Response) lsm \<Rightarrow> ('s, Response) lsm" where
  "carry_out st a k =
     (if ap_Status a = ''2'' then
        lsm_try (lift_res (ct_GetChannelHeader st)) (\<lambda>_. refuse_with ''get channel header err'') (\<lambda>chdr.
        lsm_bind (ct_InvokeChaincode st (ap_Chaincode a) (ap_Func a # ap_Args a) (ch_ChannelId chdr)) (\<lambda>_. k))
      else k)"

section \<open>New proposals\<close>

text \<open>The package of a chaincode that is to be deployed or upgraded becomes an argument of the proposal.\<close>

definition with_package :: "approval_env \<Rightarrow> 's contract_stub \<Rightarrow> ApprovalEntity \<Rightarrow> (ApprovalEntity \<Rightarrow> ('s, Response) lsm) \<Rightarrow> ('s, Response) lsm" where
  "with_package env st a k =
     (if ap_Chaincode a = ''lscc'' \<and> (ap_ApprovalType a = ''deployChainCode'' \<or> ap_ApprovalType a = ''upgradeChainCode'') then
        lsm_try (lift_res (ct_GetChannelHeader st)) (\<lambda>_. refuse_with ''get channel header err'') (\<lambda>chdr.
        lsm_bind (ct_InvokeChaincode st ''lscc'' (''getInstallChainCode'' # ap_Args a) (ch_ChannelId chdr)) (\<lambda>resp.
          if rs_Status resp \<noteq> shim_OK then refuse_with (''Failed to invoke chaincode. Got error: '' @ rs_Message resp)
          else
            lsm_bind (lift_res (if length (ap_Args a) < 3 then Inl (Panic ''index out of range'') else Inr ())) (\<lambda>_.
              k (a\<lparr>ap_Args := take 3 (ap_Args a) @ [ax_base64 env (str_of (rs_Payload resp))]\<rparr>))))
      else k a)"

definition new_sign :: "'s contract_stub \<Rightarrow> CustomerEntity \<Rightarrow> bytes \<Rightarrow> bytes \<Rightarrow> bytes \<Rightarrow> bytes \<Rightarrow> Sign" where
  "new_sign st cu txTime status desc approvalTime =
     \<lparr>sg_TxId = ct_GetTxID st, sg_TxTime = txTime, sg_CustomerNo = cu_CustomerNo cu, sg_Status = status, sg_Desc = desc, sg_ApprovalTime = approvalTime\<rparr>"

definition save_new :: "approval_env \<Rightarrow> 's contract_stub \<Rightarrow> bytes \<Rightarrow> ApprovalEntity \<Rightarrow> ('s, Response) lsm" where
  "save_new env st txTimeStr a =
     lsm_try (lift_res (ax_MarshalApproval env (a\<lparr>ap_IdKey := approval_key (ap_ApprovalId a), ap_TxId := ct_GetTxID st, ap_TxTime := txTimeStr\<rparr>)))
       (\<lambda>_. refuse_with ''convert approval entity to json err'') (\<lambda>approvalBytes.
     lsm_bind (do_all [put_state st (approval_key (ap_ApprovalId a)) approvalBytes, ct_Add st ''approval'' (ap_ApprovalId a),
         ct_Add st (''approval_'' @ ap_Status a) (ap_ApprovalId a)]) (\<lambda>_.
       ret (shim_Success (Some ''new approval success''))))"

definition counted_new :: "int \<Rightarrow> ApprovalEntity \<Rightarrow> ApprovalEntity" where
  "counted_new superUserSize a =
     (if superUserSize \<le> int (length (ap_Signs a)) then a\<lparr>ap_Status := decide (ap_VetoType a) (ap_Signs a) superUserSize (ap_Status a)\<rparr> else a)"

definition settle_new :: "approval_env \<Rightarrow> 's contract_stub \<Rightarrow> bytes \<Rightarrow> ApprovalEntity \<Rightarrow> ('s, Response) lsm" where
  "settle_new env st txTimeStr a =
     lsm_bind (getSuperCustomerNum env st) (\<lambda>superUserSize.
     let a = counted_new superUserSize a in
     carry_out st a (save_new env st txTimeStr a))"

definition newApproval :: "approval_env \<Rightarrow> 's contract_stub \<Rightarrow> bytes \<Rightarrow> ('s, Response) lsm" where
  "newApproval env st params =
     lsm_try (lift_res (ax_UnmarshalApproval env params)) (\<lambda>_. refuse_with ''new approval param is not a json'') (\<lambda>a.
     let a = a\<lparr>ap_Signs := [], ap_Status := ''1'', ap_Args := map (rx_TrimSpace (rbc_env.truncate env)) (ap_Args a)\<rparr> in
     lsm_bind (read_state st (approval_key (ap_ApprovalId a))) (\<lambda>existByte.
     if existByte \<noteq> None then refuse_with (''the approval '' @ ap_ApprovalId a @ '' has exist'')
     else
       with_customer env st ''new approval customer is not exist'' (\<lambda>cu.
       lsm_bind (lift_res (time_of_tx (rbc_env.truncate env) st)) (\<lambda>txTimeStr.
       let a = a\<lparr>ap_CreateTime := txTimeStr, ap_Creater := cu_CustomerNo cu,
                 ap_Signs := if cu_CustomerType cu = ''1'' then [new_sign st cu [] ''1'' (ap_Desc a) txTimeStr] else []\<rparr> in
       with_package env st a (settle_new env st txTimeStr)))))"

section \<open>Voting\<close>

definition voted :: "int \<Rightarrow> Sign \<Rightarrow> ApprovalEntity \<Rightarrow> ApprovalEntity" where
  "voted superUserSize sign a =
     (let signs = ap_Signs a @ [sign] in a\<lparr>ap_Signs := signs, ap_Status := decide (ap_VetoType a) signs superUserSize (ap_Status a)\<rparr>)"

definition status_writes :: "'s contract_stub \<Rightarrow> ApprovalEntity \<Rightarrow> ('s, unit) lsm list" where
  "status_writes st a =
     (if ap_Status a \<noteq> ''1'' then [ct_Remove st ''approval_1'' (ap_ApprovalId a), ct_Add st (''approval_'' @ ap_Status a) (ap_ApprovalId a)] else [])"

definition save_vote :: "approval_env \<Rightarrow> 's contract_stub \<Rightarrow> ApprovalEntity \<Rightarrow> ('s, Response) lsm" where
  "save_vote env st a =
     lsm_try (lift_res (ax_MarshalApproval env a)) (\<lambda>_. refuse_with ''convert customer entity to json err'') (\<lambda>approvalBytes.
     lsm_bind (put_state st (approval_key (ap_ApprovalId a)) approvalBytes) (\<lambda>_.
       ret (shim_Success (Some ''approval success''))))"

definition cast_vote :: "approval_env \<Rightarrow> 's contract_stub \<Rightarrow> ApprovalEntity \<Rightarrow> ApprovalEntity \<Rightarrow> CustomerEntity \<Rightarrow> ('s, Response) lsm" where
  "cast_vote env st a existEntity cu =
     lsm_bind (lift_res (time_of_tx (rbc_env.truncate env) st)) (\<lambda>txTimeStr.
       if cu_CustomerType cu \<noteq> ''1'' then refuse_with (''approval customer '' @ cu_CustomerNo cu @ '' is not super user'')
       else if cu_CustomerNo cu \<in> sg_CustomerNo ` set (ap_Signs existEntity) then refuse_with (''customer '' @ cu_CustomerNo cu @ '' have approvaled'')
       else
         lsm_bind (getSuperCustomerNum env st) (\<lambda>superUserSize.
         let new = voted superUserSize (new_sign st cu txTimeStr (ap_Status a) (ap_Desc a) txTimeStr) existEntity in
         lsm_bind (do_all (status_writes st new)) (\<lambda>_.
           carry_out st new (save_vote env st new))))"

definition approval :: "approval_env \<Rightarrow> 's contract_stub \<Rightarrow> bytes \<Rightarrow> ('s, Response) lsm" where
  "approval env st params =
     lsm_try (lift_res (ax_UnmarshalApproval env params)) (\<lambda>_. refuse_with ''new approval param is not a json'') (\<lambda>a.
     if ap_Status a \<noteq> ''1'' \<and> ap_Status a \<noteq> ''2'' then refuse_with (''approval status '' @ ap_Status a @ '' is not invalid'')
     else
       lsm_try (ct_GetState st (approval_key (ap_ApprovalId a))) (\<lambda>e. refuse_with (''approval is not exist, '' @ err_msg e)) (\<lambda>existBytes.
       lsm_try (lift_res (ax_UnmarshalApproval env (str_of existBytes))) (\<lambda>_. refuse_with ''approval param is not a json'') (\<lambda>existEntity.
       if ap_Status existEntity \<noteq> ''1'' then refuse_with (''approval '' @ ap_ApprovalId existEntity @ '' has over'')
       else with_customer env st ''approval customer is not exist'' (cast_vote env st a existEntity))))"

section \<open>Queries and the entry point\<close>

definition queryOneApproval :: "'s contract_stub \<Rightarrow> bytes \<Rightarrow> ('s, Response) lsm" where
  "queryOneApproval st params =
     lsm_try (ct_GetState st (approval_key params)) (\<lambda>e. refuse_with (''approval '' @ params @ '' found err: '' @ err_msg e)) (\<lambda>b. ret (shim_Success b))"

text \<open>The error of reading the parameters is dropped; \<open>ax_ReadMap\<close> is the map that is left.\<close>

definition queryAllApproval :: "approval_env \<Rightarrow> 's contract_stub \<Rightarrow> bytes \<Rightarrow> ('s, Response) lsm" where
  "queryAllApproval env st params =
     (let m = ax_ReadMap env params;
          status = param m ''approvalStatus''; rListName = ''approval'' @ (if status \<noteq> [] then ''_'' @ status else []) in
     lsm_bind (ct_Size st rListName) (\<lambda>nSize.
     let (cpno, bNo, eNo) = page_bounds 100 nSize (param m ''cpno'') in
     lsm_bind (collect st rListName (stored st approval_key (ax_UnmarshalApproval env)) (map (\<lambda>i. nSize - i - 1) [bNo..eNo - 1])) (\<lambda>approvals.
       ret (shim_Success (ax_MarshalApprovals env \<lparr>pl_Cpno = FormatInt cpno, pl_Rnum = FormatInt nSize, pl_List = approvals\<rparr>)))))"

definition approval_Invoke :: "approval_env \<Rightarrow> 's contract_stub \<Rightarrow> ('s, Response) lsm" where
  "approval_Invoke env st =
     (let args = ct_GetArgs st in
      if length args < 3 then refuse_with ''Incorrect number of arguments. Expecting 1''
      else
        let f = args ! 1; a = args ! 2 in
        if f = ''queryRBCCName'' then ret (shim_Success (Some ''rbcapproval''))
        else if f = ''queryStateHistory'' then lsm_bind (ct_QueryStateHistory st a) (\<lambda>b. ret (shim_Success (Some b)))
        else if f = ''newApproval'' then newApproval env st a
        else if f = ''approval'' then approval env st a
        else if f = ''queryOneApproval'' then queryOneApproval st a
        else if f = ''queryAllApproval'' then queryAllApproval env st a
        else refuse_with (''function '' @ f @ '' is not found''))"

section \<open>The rules of a vote\<close>

lemma go_quot_pos: "0 \<le> a \<Longrightarrow> 0 < b \<Longrightarrow> go_quot a b = a div b"
  by (auto simp: go_quot_def sgn_if)

lemma decide_cases: "decide v signs n status \<in> {''2'', ''3'', status}"
  by (simp add: decide_def Let_def)

lemma veto_respected: "decide ''1'' signs n ''1'' = ''2'' \<Longrightarrow> votes_against signs = 0"
  by (auto simp: decide_def Let_def votes_against_def split: if_splits)

text \<open>The rule documented as two thirds: a third of the super users is enough.\<close>

lemma two_thirds_is_one_third:
  assumes "0 \<le> n" "votes_against signs \<le> (n + 1) div 3"
  shows "decide ''2'' signs n ''1'' = ''2'' \<longleftrightarrow> n \<le> 3 * votes_for signs"
proof -
  have "(n + 2) div 3 \<le> votes_for signs \<longleftrightarrow> n \<le> 3 * votes_for signs" by presburger
  then show ?thesis using assms by (simp add: decide_def Let_def go_quot_pos)
qed

text \<open>The rule documented as half of the votes: of an odd number of super users, a majority against leaves a proposal open.\<close>

lemma majority_against_undecided:
  assumes "0 \<le> k" "votes_for signs = k" "votes_against signs = k + 1"
  shows "decide ''3'' signs (2 * k + 1) ''1'' = ''1''"
proof -
  have "(2 * k + 1 + 1) div 2 = k + 1" using assms(1) by presburger
  then show ?thesis using assms by (simp add: decide_def Let_def go_quot_pos)
qed

section \<open>What a transaction writes\<close>

definition list_key :: "bytes \<Rightarrow> bool" where
  "list_key k \<longleftrightarrow> (\<exists>op l. k = rlist_key op l)"

lemma list_key_simp [simp]: "list_key (rlist_key op l)"
  by (auto simp: list_key_def)

definition lists_only :: "(bytes \<times> slice) list \<Rightarrow> bool" where
  "lists_only es \<longleftrightarrow> (\<forall>e \<in> set es. list_key (fst e))"

lemma lists_only_simps [simp]: "lists_only []" "lists_only (e # es) \<longleftrightarrow> list_key (fst e) \<and> lists_only es"
  "lists_only (es @ es') \<longleftrightarrow> lists_only es \<and> lists_only es'"
  by (auto simp: lists_only_def)

lemma approval_key_simps [simp]:
  "approval_key i \<noteq> []" "approval_key i = approval_key j \<longleftrightarrow> i = j" "approval_key i \<noteq> rlist_key op l" "rlist_key op l \<noteq> approval_key i"
  by (simp_all add: approval_key_def rlist_key_def)

lemma after_lists [simp]: "lists_only es \<Longrightarrow> after es m (approval_key i) = m (approval_key i)"
  by (rule after_other) (auto simp: lists_only_def list_key_def)

text \<open>The signature of an active super user, one that has not signed before.\<close>

definition fresh_vote :: "ApprovalEntity \<Rightarrow> CustomerEntity \<Rightarrow> Sign \<Rightarrow> bool" where
  "fresh_vote a cu sign \<longleftrightarrow> cu_CustomerType cu = ''1'' \<and> cu_CustomerStatus cu = ''1'' \<and> sg_CustomerNo sign = cu_CustomerNo cu
     \<and> sg_CustomerNo sign \<notin> sg_CustomerNo ` set (ap_Signs a) \<and> sg_Status sign \<in> {''1'', ''2''}"

text \<open>What the chaincode of the customers tells of the sender of a transaction and of the number of super users, if calls are answered by \<open>reply\<close>.\<close>

definition known_customer :: "(bytes \<Rightarrow> bytes list \<Rightarrow> bytes \<Rightarrow> Response) \<Rightarrow> approval_env \<Rightarrow> bytes \<Rightarrow> CustomerEntity option" where
  "known_customer reply env creator =
     (case rx_IdBytes (rbc_env.truncate env) creator of
        Inl _ \<Rightarrow> None
      | Inr i \<Rightarrow> let resp = reply ''rbccustomer'' [''query'', ''queryOne'', cert_digest (rbc_env.truncate env) i] [] in
          if rs_Status resp \<noteq> shim_OK then None
          else (case rx_UnmarshalCustomer (rbc_env.truncate env) (str_of (rs_Payload resp)) of Inl _ \<Rightarrow> None | Inr c \<Rightarrow> Some c))"

definition super_users :: "(bytes \<Rightarrow> bytes list \<Rightarrow> bytes \<Rightarrow> Response) \<Rightarrow> approval_env \<Rightarrow> int" where
  "super_users reply env =
     (let resp = reply ''rbccustomer'' [''query'', ''queryAll'', super_query] [] in
      if rs_Status resp \<noteq> shim_OK then - 1
      else (case ax_UnmarshalRnum env (str_of (rs_Payload resp)) of Inl _ \<Rightarrow> - 1 | Inr rnum \<Rightarrow> fst (ParseInt rnum)))"

text \<open>A vote that succeeds: the record with the signature added and the votes counted, after at most entries in lists.\<close>

definition vote_cast :: "(bytes \<Rightarrow> bytes list \<Rightarrow> bytes \<Rightarrow> Response) \<Rightarrow> approval_env \<Rightarrow> ApprovalEntity \<Rightarrow> CustomerEntity \<Rightarrow> (bytes \<times> slice) list \<Rightarrow> bool" where
  "vote_cast reply env old cu es \<longleftrightarrow>
     (\<exists>sign new b ls. fresh_vote old cu sign \<and> new = voted (super_users reply env) sign old \<and> ax_MarshalApproval env new = Inr b
        \<and> lists_only ls \<and> es = ls @ [(approval_key (ap_ApprovalId new), Some b)])"

text \<open>The record of a new proposal: nobody but its author can have signed it, and the votes have been counted.\<close>

definition proposed :: "(bytes \<Rightarrow> bytes list \<Rightarrow> bytes \<Rightarrow> Response) \<Rightarrow> approval_env \<Rightarrow> (bytes \<Rightarrow> slice) \<Rightarrow> (bytes \<times> slice) list \<Rightarrow> bool" where
  "proposed reply env M es \<longleftrightarrow>
     (\<exists>a b ls. M (approval_key (ap_ApprovalId a)) = None \<and> ax_MarshalApproval env a = Inr b \<and> lists_only ls
        \<and> es = (approval_key (ap_ApprovalId a), Some b) # ls \<and> length (ap_Signs a) \<le> 1
        \<and> ap_Status a \<in> {''1'', decide (ap_VetoType a) (ap_Signs a) (super_users reply env) ''1''})"

definition passed_unvoted :: "approval_env \<Rightarrow> ApprovalEntity \<Rightarrow> Response res \<Rightarrow> (bytes \<times> slice) list \<Rightarrow> bool" where
  "passed_unvoted env a r es \<longleftrightarrow> succeeded r \<and> (\<exists>x b ls. ap_Status x = ''2'' \<and> ap_Signs x = [] \<and> ap_Func x = ap_Func a
     \<and> ax_MarshalApproval env x = Inr b \<and> es = (approval_key (ap_ApprovalId a), Some b) # ls)"

context quiet_calls
begin

lemma effect_super: "P (Inr (super_users reply env)) [] \<Longrightarrow> effect M (getSuperCustomerNum env st) P"
  unfolding getSuperCustomerNum_def by (intro effect_bind effect_invoke) (simp add: effect_lift super_users_def Let_def)

lemma effect_customer:
  assumes "\<And>m. P (Inr (shim_Error m)) []" "\<And>e. \<forall>m. e \<noteq> Err m \<Longrightarrow> P (Inl e) []"
    "\<And>cu. known_customer reply env (ct_GetCreator st) = Some cu \<Longrightarrow> cu_CustomerStatus cu = ''1'' \<Longrightarrow> effect M (f cu) P"
  shows "effect M (with_customer env st unknown f) P"
  unfolding with_customer_def getCustomerEntity_def refuse_with_def
  by (intro effect_try effect_lift)
    (auto simp: assms(1,2) effect_lift known_customer_def Let_def intro!: effect_bind effect_invoke effect_lift assms
      split: sum.splits error.splits option.splits)

lemma effect_carry_out:
  assumes "effect M k P" "\<And>m. P (Inr (shim_Error m)) []" "\<And>e. \<forall>m. e \<noteq> Err m \<Longrightarrow> P (Inl e) []"
  shows "effect M (carry_out st a k) P"
  unfolding carry_out_def refuse_with_def
  using assms by (auto intro!: effect_try effect_bind effect_invoke effect_lift split: sum.splits error.splits)

lemma vote_castI:
  "fresh_vote old cu sign \<Longrightarrow> ax_MarshalApproval env (voted (super_users reply env) sign old) = Inr b \<Longrightarrow> lists_only ls
   \<Longrightarrow> vote_cast reply env old cu (ls @ [(approval_key (ap_ApprovalId (voted (super_users reply env) sign old)), Some b)])"
  unfolding vote_cast_def by blast

lemma effect_cast_vote:
  assumes "cu_CustomerStatus cu = ''1''" "ap_Status a \<in> {''1'', ''2''}"
  shows "effect M (cast_vote env st a old cu)
    (\<lambda>r es. if succeeded r then vote_cast reply env old cu es else lists_only es)"
proof -
  let ?P = "\<lambda>r es. if succeeded r then vote_cast reply env old cu es else lists_only es"
  have main: "effect M (lsm_bind (getSuperCustomerNum env st) (\<lambda>n.
      let new = voted n (new_sign st cu t (ap_Status a) (ap_Desc a) t) old in
      lsm_bind (do_all (status_writes st new)) (\<lambda>_. carry_out st new (save_vote env st new)))) ?P"
    if "cu_CustomerType cu = ''1''" "cu_CustomerNo cu \<notin> sg_CustomerNo ` set (ap_Signs old)" for t
  proof -
    let ?sign = "new_sign st cu t (ap_Status a) (ap_Desc a) t"
    let ?new = "voted (super_users reply env) ?sign old"
    have fresh: "fresh_vote old cu ?sign" using that assms by (simp add: fresh_vote_def new_sign_def)
    have save: "effect M (carry_out st ?new (save_vote env st ?new)) (\<lambda>r es. ?P r (ls @ es))" if "lists_only ls" for ls
      unfolding save_vote_def refuse_with_def
      by (intro effect_carry_out effect_try effect_lift)
        (use that fresh in \<open>auto intro!: effect_bind effect_put effect_lift vote_castI split: sum.splits error.splits\<close>)
    have lists: "effect M (do_all (status_writes st ?new)) (\<lambda>r es. r = Inr () \<and> lists_only es)"
      unfolding status_writes_def by (auto intro!: effect_bind effect_remove effect_add effect_lift)
    show ?thesis
      unfolding Let_def
      by (intro effect_bind effect_super) (auto intro!: effect_bind effect_mono [OF lists] effect_mono [OF save] split: if_splits)
  qed
  show ?thesis
    unfolding cast_vote_def refuse_with_def
    by (intro effect_bind effect_lift) (auto intro!: effect_lift effect_mono [OF main] split: sum.splits if_splits)
qed

lemma approval_success:
  "effect M (approval env st params)
     (\<lambda>r es. if succeeded r
       then \<exists>a old cu. ax_UnmarshalApproval env params = Inr a \<and> ax_UnmarshalApproval env (str_of (M (approval_key (ap_ApprovalId a)))) = Inr old
         \<and> ap_Status old = ''1'' \<and> known_customer reply env (ct_GetCreator st) = Some cu \<and> vote_cast reply env old cu es
       else lists_only es)"
  (is "effect M _ ?P")
proof -
  have vote: "effect M (with_customer env st unknown (cast_vote env st a old)) ?P"
    if "ax_UnmarshalApproval env params = Inr a" "ax_UnmarshalApproval env (str_of (M (approval_key (ap_ApprovalId a)))) = Inr old" "ap_Status old = ''1''"
      "ap_Status a \<in> {''1'', ''2''}" for a old unknown
    by (intro effect_customer) (use that in \<open>auto intro!: effect_mono [OF effect_cast_vote] split: if_splits\<close>)
  show ?thesis
    unfolding approval_def refuse_with_def
    by (intro effect_try effect_lift) (auto intro!: effect_lift effect_try effect_read effect_mono [OF vote] split: sum.splits error.splits if_splits)
qed

text \<open>A proposal that has been decided takes no more votes.\<close>

lemma decided_is_final:
  assumes "ax_UnmarshalApproval env params = Inr a" "ax_UnmarshalApproval env (str_of (M (approval_key (ap_ApprovalId a)))) = Inr old"
    "ap_Status old \<noteq> ''1''"
  shows "effect M (approval env st params) (\<lambda>r es. es = [] \<and> refused r)"
  unfolding approval_def refuse_with_def
  by (intro effect_try effect_lift) (use assms in \<open>auto intro!: effect_lift effect_try effect_read split: sum.splits error.splits\<close>)

text \<open>Neither does one that every super user has signed, decided or not.\<close>

lemma all_signed_refused:
  assumes "ax_UnmarshalApproval env params = Inr a" "ax_UnmarshalApproval env (str_of (M (approval_key (ap_ApprovalId a)))) = Inr old"
    and "\<And>cu. known_customer reply env (ct_GetCreator st) = Some cu \<Longrightarrow> cu_CustomerType cu = ''1'' \<Longrightarrow> cu_CustomerNo cu \<in> sg_CustomerNo ` set (ap_Signs old)"
  shows "effect M (approval env st params) (\<lambda>r es. es = [] \<and> \<not> succeeded r)"
  (is "effect M _ ?P")
proof -
  have vote: "effect M (with_customer env st unknown (cast_vote env st a old)) ?P" for unknown
    by (intro effect_customer) (use assms(3) in \<open>auto simp: cast_vote_def refuse_with_def intro!: effect_bind effect_lift split: sum.splits\<close>)
  show ?thesis
    unfolding approval_def refuse_with_def
    by (intro effect_try effect_lift) (use assms(1,2) in \<open>auto intro!: effect_lift effect_try effect_read vote split: sum.splits error.splits\<close>)
qed

section \<open>The record of a new proposal\<close>

lemma effect_save_new:
  assumes "M (approval_key (ap_ApprovalId a)) = None" "length (ap_Signs a) \<le> 1"
    "ap_Status a \<in> {''1'', decide (ap_VetoType a) (ap_Signs a) (super_users reply env) ''1''}"
  shows "effect M (save_new env st t a) (\<lambda>r es. if succeeded r then proposed reply env M es else lists_only es)"
proof -
  let ?a = "a\<lparr>ap_IdKey := approval_key (ap_ApprovalId a), ap_TxId := ct_GetTxID st, ap_TxTime := t\<rparr>"
  have "proposed reply env M ((approval_key (ap_ApprovalId a), Some b) # ls)" if "ax_MarshalApproval env ?a = Inr b" "lists_only ls" for b ls
    unfolding proposed_def by (rule exI [of _ ?a]) (use assms that in auto)
  then show ?thesis
    unfolding save_new_def refuse_with_def
    by (intro effect_try effect_lift) (auto intro!: effect_bind effect_put effect_add effect_lift split: sum.splits error.splits)
qed

lemma effect_package:
  assumes "\<And>args. effect M (k (a\<lparr>ap_Args := args\<rparr>)) P" "\<And>m. P (Inr (shim_Error m)) []" "\<And>e. \<forall>m. e \<noteq> Err m \<Longrightarrow> P (Inl e) []"
  shows "effect M (with_package env st a k) P"
proof -
  have "effect M (k a) P" using assms(1) [of "ap_Args a"] by simp
  then show ?thesis
    unfolding with_package_def refuse_with_def
    using assms by (auto intro!: effect_try effect_bind effect_invoke effect_lift split: sum.splits error.splits)
qed

lemma newApproval_success:
  "effect M (newApproval env st params) (\<lambda>r es. if succeeded r then proposed reply env M es else lists_only es)"
  (is "effect M _ ?P")
proof -
  have count: "effect M (settle_new env st t a) ?P"
    if "M (approval_key (ap_ApprovalId a)) = None" "length (ap_Signs a) \<le> 1" "ap_Status a = ''1''" for a t
    unfolding settle_new_def Let_def
    by (intro effect_bind effect_super)
      (use that in \<open>auto simp: counted_new_def intro!: effect_carry_out effect_mono [OF effect_save_new] split: if_splits\<close>)
  show ?thesis
    unfolding newApproval_def refuse_with_def Let_def
    by (intro effect_try effect_lift)
      (auto intro!: effect_bind effect_read effect_lift effect_customer effect_package effect_mono [OF count] split: sum.splits error.splits if_splits)
qed

end

section \<open>Every state the chaincode reaches\<close>

definition approval_ok :: "ApprovalEntity \<Rightarrow> bool" where
  "approval_ok a \<longleftrightarrow> distinct (map sg_CustomerNo (ap_Signs a)) \<and> ap_Status a \<in> {''1'', ''2'', ''3''}
     \<and> (ap_VetoType a = ''1'' \<and> ap_Status a = ''2'' \<longrightarrow> votes_against (ap_Signs a) = 0)"

definition approvals_ok :: "approval_env \<Rightarrow> (bytes \<Rightarrow> slice) \<Rightarrow> bool" where
  "approvals_ok env M \<longleftrightarrow>
     (\<forall>i b. M (approval_key i) = Some b \<longrightarrow> (\<exists>a. ax_UnmarshalApproval env b = Inr a \<and> ap_ApprovalId a = i \<and> approval_ok a))"

text \<open>The states after transactions on proposals, whoever sends them and whatever the called chaincodes answer.\<close>

inductive approvals_reachable :: "approval_env \<Rightarrow> (bytes \<Rightarrow> slice) \<Rightarrow> bool" for env where
  start: "(\<And>i. M (approval_key i) = None) \<Longrightarrow> approvals_reachable env M"
| propose: "approvals_reachable env M \<Longrightarrow> newApproval env (tx_stub (answering reply ti)) params (begin_tx M) = (r, s)
    \<Longrightarrow> approvals_reachable env (after (tx_writes s) M)"
| vote: "approvals_reachable env M \<Longrightarrow> approval env (tx_stub (answering reply ti)) params (begin_tx M) = (r, s)
    \<Longrightarrow> approvals_reachable env (after (tx_writes s) M)"

lemma approval_ok_new:
  assumes "length (ap_Signs a) \<le> 1" "ap_Status a \<in> {''1'', decide (ap_VetoType a) (ap_Signs a) n ''1''}"
  shows "approval_ok a"
proof -
  have "distinct (map sg_CustomerNo (ap_Signs a))" using assms(1) by (cases "ap_Signs a") auto
  then show ?thesis using assms(2) decide_cases [of "ap_VetoType a" "ap_Signs a" n "''1''"] veto_respected [of "ap_Signs a" n]
    by (auto simp: approval_ok_def)
qed

lemma approval_ok_voted:
  assumes "approval_ok a" "fresh_vote a cu sign" "ap_Status a = ''1''"
  shows "approval_ok (voted n sign a)"
  using assms decide_cases [of "ap_VetoType a" "ap_Signs a @ [sign]" n "''1''"] veto_respected [of "ap_Signs a @ [sign]" n]
  by (auto simp: approval_ok_def fresh_vote_def voted_def Let_def)

lemma approvals_ok_write:
  assumes "approvals_ok env M" "lists_only ls" "lists_only ls'" "ax_UnmarshalApproval env b = Inr a" "approval_ok a"
  shows "approvals_ok env (after (ls @ (approval_key (ap_ApprovalId a), Some b) # ls') M)"
  using assms by (auto simp: approvals_ok_def)

lemma approvals_ok_lists: "approvals_ok env M \<Longrightarrow> lists_only es \<Longrightarrow> approvals_ok env (after es M)"
  by (simp add: approvals_ok_def)

lemma approvals_ok_proposed:
  assumes "approvals_ok env M" "proposed reply env M es" "\<And>a b. ax_MarshalApproval env a = Inr b \<Longrightarrow> ax_UnmarshalApproval env b = Inr a"
  shows "approvals_ok env (after es M)"
proof -
  obtain a b ls where a: "ax_MarshalApproval env a = Inr b" "lists_only ls" "es = (approval_key (ap_ApprovalId a), Some b) # ls"
      "length (ap_Signs a) \<le> 1" "ap_Status a \<in> {''1'', decide (ap_VetoType a) (ap_Signs a) (super_users reply env) ''1''}"
    using assms(2) unfolding proposed_def by blast
  from approvals_ok_write [OF assms(1), of "[]" ls b a] approval_ok_new [OF a(4,5)] assms(3) [OF a(1)] show ?thesis using a(2,3) by simp
qed

lemma approvals_ok_vote:
  assumes "approvals_ok env M" "vote_cast reply env old cu es" "approval_ok old" "ap_Status old = ''1''"
    and "\<And>a b. ax_MarshalApproval env a = Inr b \<Longrightarrow> ax_UnmarshalApproval env b = Inr a"
  shows "approvals_ok env (after es M)"
proof -
  obtain sign b ls where v: "fresh_vote old cu sign" "ax_MarshalApproval env (voted (super_users reply env) sign old) = Inr b" "lists_only ls"
      "es = ls @ [(approval_key (ap_ApprovalId (voted (super_users reply env) sign old)), Some b)]"
    using assms(2) unfolding vote_cast_def by blast
  from approvals_ok_write [OF assms(1) v(3), of "[]"] approval_ok_voted [OF assms(3) v(1) assms(4)] assms(5) [OF v(2)] show ?thesis using v(4) by simp
qed

text \<open>What is written by a transaction from a committed state.\<close>

lemma begin_effect:
  assumes "snapshot_stub.effect tx_committed tx_writes M m P" "m (begin_tx M) = (r, s)"
  shows "P r (tx_writes s)"
  using tx.effectD [OF assms(1), of "begin_tx M"] assms(2) by auto

lemma approvals_inv:
  assumes "approvals_reachable env M" and codec: "\<And>a b. ax_MarshalApproval env a = Inr b \<Longrightarrow> ax_UnmarshalApproval env b = Inr a"
    and "\<And>a. ax_UnmarshalApproval env [] \<noteq> Inr a"
  shows "approvals_ok env M"
  using assms(1)
proof induction
  case (start M)
  then show ?case by (simp add: approvals_ok_def)
next
  case (propose M reply ti params r s)
  have "if succeeded r then proposed reply env M (tx_writes s) else lists_only (tx_writes s)"
    using begin_effect [OF calls.newApproval_success propose.hyps(2)] .
  then show ?case using approvals_ok_proposed [OF propose.IH _ codec] approvals_ok_lists [OF propose.IH] by (auto split: if_splits)
next
  case (vote M reply ti params r s)
  have out: "if succeeded r
      then \<exists>a old cu. ax_UnmarshalApproval env params = Inr a \<and> ax_UnmarshalApproval env (str_of (M (approval_key (ap_ApprovalId a)))) = Inr old
        \<and> ap_Status old = ''1'' \<and> known_customer reply env (ti_Creator ti) = Some cu \<and> vote_cast reply env old cu (tx_writes s)
      else lists_only (tx_writes s)"
    using begin_effect [OF calls.approval_success vote.hyps(2)] unfolding answering_simps .
  show ?case
  proof (cases "succeeded r")
    case True
    then obtain a :: ApprovalEntity and old cu where v: "ax_UnmarshalApproval env (str_of (M (approval_key (ap_ApprovalId a)))) = Inr old" "ap_Status old = ''1''"
        "vote_cast reply env old cu (tx_writes s)" using out by auto
    then obtain b where "M (approval_key (ap_ApprovalId a)) = Some b" "ax_UnmarshalApproval env b = Inr old"
      using assms(3) by (cases "M (approval_key (ap_ApprovalId a))") (auto simp: str_of_def)
    then have "approval_ok old" using vote.IH unfolding approvals_ok_def by fastforce
    then show ?thesis using approvals_ok_vote [OF vote.IH v(3) _ v(2) codec] by blast
  next
    case False
    then show ?thesis using out approvals_ok_lists [OF vote.IH] by simp
  qed
qed

section \<open>Super users that cannot be counted\<close>

text \<open>
  If the chaincode of the customers does not answer, their number is \<open>-1\<close>: a proposal of any active
  customer, without a single vote, has passed and is carried out.
\<close>

context quiet_calls
begin

lemma decide_uncounted: "v \<in> {''1'', ''2'', ''3''} \<Longrightarrow> decide v [] (- 1) ''1'' = ''2''"
  by (auto simp: decide_def votes_for_def votes_against_def go_quot_def)

lemma effect_known_customer:
  assumes "known_customer reply env (ct_GetCreator st) = Some cu" "cu_CustomerStatus cu = ''1''" "effect M (f cu) P"
  shows "effect M (with_customer env st unknown f) P"
proof -
  obtain i where i: "rx_IdBytes (rbc_env.truncate env) (ct_GetCreator st) = Inr i" using assms(1) by (auto simp: known_customer_def split: sum.splits)
  have "effect M (getCustomerEntity env st (cert_digest (rbc_env.truncate env) i)) (\<lambda>r es. r = Inr (Some cu) \<and> es = [])"
    unfolding getCustomerEntity_def
    by (intro effect_bind effect_invoke) (use assms(1) i in \<open>auto simp: known_customer_def Let_def intro!: effect_lift split: if_splits sum.splits\<close>)
  then show ?thesis
    unfolding with_customer_def by (intro effect_try effect_lift) (auto simp: i intro!: effect_bind elim!: effect_mono simp: assms(2,3))
qed

lemma uncounted_proposal_passes:
  assumes "super_users reply env = - 1" "ax_UnmarshalApproval env params = Inr a" "ap_VetoType a \<in> {''1'', ''2'', ''3''}" "M (approval_key (ap_ApprovalId a)) = None"
    and "known_customer reply env (ct_GetCreator st) = Some cu" "cu_CustomerStatus cu = ''1''" "cu_CustomerType cu \<noteq> ''1''" "ct_GetTxTimestamp st = Some t"
    and "ap_Chaincode a \<noteq> ''lscc''" "ct_GetChannelHeader st = Inr chdr" "\<And>x. \<exists>b. ax_MarshalApproval env x = Inr b"
  shows "effect M (newApproval env st params) (passed_unvoted env a)"
  (is "effect M _ ?P")
proof -
  have save: "effect M (save_new env st time x) ?P"
    if "ap_Status x = ''2''" "ap_Signs x = []" "ap_Func x = ap_Func a" "ap_ApprovalId x = ap_ApprovalId a" for x time
  proof -
    let ?x = "x\<lparr>ap_IdKey := approval_key (ap_ApprovalId x), ap_TxId := ct_GetTxID st, ap_TxTime := time\<rparr>"
    obtain b where b: "ax_MarshalApproval env ?x = Inr b" using assms(11) by blast
    have "effect M (save_new env st time x) (\<lambda>r es. succeeded r \<and> (\<exists>ls. es = (approval_key (ap_ApprovalId x), Some b) # ls))"
      unfolding save_new_def by (intro effect_try effect_lift) (auto simp: b intro!: effect_bind effect_put effect_add effect_lift)
    moreover have "?P r ((approval_key (ap_ApprovalId x), Some b) # ls)" if "succeeded r" for r ls
      unfolding passed_unvoted_def by (intro conjI exI [of _ ?x] exI [of _ b] exI [of _ ls]) (use that \<open>ap_Status x = ''2''\<close> \<open>ap_Signs x = []\<close> \<open>ap_Func x = ap_Func a\<close> \<open>ap_ApprovalId x = ap_ApprovalId a\<close> b in simp_all)
    ultimately show ?thesis by (auto elim: effect_mono)
  qed
  have settle: "effect M (settle_new env st time x) ?P"
    if "ap_VetoType x = ap_VetoType a" "ap_Status x = ''1''" "ap_Signs x = []" "ap_Func x = ap_Func a" "ap_ApprovalId x = ap_ApprovalId a" for x time
  proof -
    have "counted_new (- 1) x = x\<lparr>ap_Status := ''2''\<rparr>" using that decide_uncounted [OF assms(3)] by (simp add: counted_new_def)
    then show ?thesis
      unfolding settle_new_def Let_def carry_out_def
      by (intro effect_bind effect_super) (use that assms(1,10) in \<open>auto intro!: effect_try effect_bind effect_invoke effect_lift effect_mono [OF save]\<close>)
  qed
  show ?thesis
    unfolding newApproval_def Let_def with_package_def
    by (intro effect_try effect_lift)
      (use assms in \<open>auto simp: time_of_tx_def intro!: effect_bind effect_read effect_lift effect_known_customer [OF assms(5,6)] effect_mono [OF settle]\<close>)
qed

end

lemmas vote_from = begin_effect [OF calls.approval_success]
lemmas vote_refused_from = begin_effect [OF calls.all_signed_refused]
lemmas decided_from = begin_effect [OF calls.decided_is_final]
lemmas uncounted_from = begin_effect [OF calls.uncounted_proposal_passes]

end
