(* ===== verification/PeerChains.thy ===== *)
theory PeerChains
  imports Policy ContractStub
begin

text \<open>
  The channels of a peer (\<^verbatim>\<open>core/peer/peer.go\<close>) and the two system chaincodes that give access to them:
  \<^verbatim>\<open>core/scc/cscc/configure.go\<close> for joining and \<^verbatim>\<open>core/scc/qscc/query.go\<close> for queries.

  A channel is a ledger, a manager of its configuration and its current configuration block. Ledger
  management, the configuration language and gossip are functions of the environment, over a state \<open>'w\<close>.

  Results: a channel is only joined with the approval of the local administrators and a block that
  configures an application (\<open>join_authorised\<close>); a joined channel is found and no other is changed
  (\<open>join_adds_channel\<close>). A join that fails after its ledger was created cannot be repeated
  (\<open>failed_join_sticks\<close>); a restart goes on after a channel that cannot be loaded
  (\<open>Initialize_goes_on\<close>). Asking for the list of peers while the orderer does not
  answer stops the peer (\<open>peer_list_panics\<close>), and any client may read the blocks of any channel
  (\<open>queries_unchecked\<close>). The list of the predecessors of a transaction ends (\<open>statistics_chain\<close>).
\<close>

section \<open>Channels\<close>

record ('l, 'c) chain =
  cn_ledger :: 'l
  cn_config :: 'c
  cn_cb :: "Block option"

record ('l, 'c, 'w) peer_env =
  pz_GetChainIDFromBlock :: "Block \<Rightarrow> bytes res"
  pz_ExtractEnvelope :: "Block \<Rightarrow> Envelope res"
  pz_NewManager :: "Envelope \<Rightarrow> ('w, 'c) lsm"
  pz_ChainID :: "'c \<Rightarrow> bytes"
  pz_SetMSPManager :: "bytes \<Rightarrow> 'c \<Rightarrow> 'w \<Rightarrow> 'w"
  pz_OrdererAddresses :: "'c \<Rightarrow> bytes list"
  pz_Organizations :: "'c \<Rightarrow> bytes list option"
  pz_InitializeChannel :: "bytes \<Rightarrow> bytes list \<Rightarrow> 'w \<Rightarrow> 'w"
  pz_sendOrdererTimer :: "bytes \<Rightarrow> 'w \<Rightarrow> 'w"
  pz_chainInitializer :: "bytes \<Rightarrow> 'w \<Rightarrow> 'w"
  pz_CreateLedger :: "Block \<Rightarrow> ('w, 'l) lsm"
  pz_OpenLedger :: "bytes \<Rightarrow> ('w, 'l) lsm"
  pz_GetLedgerIDs :: "('w, bytes list) lsm"
  pz_Height :: "'l \<Rightarrow> ('w, u64) lsm"
  pz_GetBlockByNumber :: "'l \<Rightarrow> u64 \<Rightarrow> ('w, Block) lsm"
  pz_GetLastConfigIndex :: "Block \<Rightarrow> u64 res"

record ('l, 'c, 'w) peer_state =
  ps_chains :: "(bytes, ('l, 'c) chain) gomap"
  ps_world :: 'w

definition on_world :: "('w, 'a) lsm \<Rightarrow> (('l, 'c, 'w) peer_state, 'a) lsm" where
  "on_world m s = (case m (ps_world s) of (r, w) \<Rightarrow> (r, s\<lparr>ps_world := w\<rparr>))"

definition createChain :: "('l, 'c, 'w) peer_env \<Rightarrow> bytes \<Rightarrow> 'l \<Rightarrow> Block \<Rightarrow> (('l, 'c, 'w) peer_state, unit) lsm" where
  "createChain env cid l cb =
     lsm_bind (lift_res (pz_ExtractEnvelope env cb)) (\<lambda>envelopeConfig.
     lsm_bind (on_world (pz_NewManager env envelopeConfig)) (\<lambda>configtxManager s.
     let ordererAddresses = pz_OrdererAddresses env configtxManager; chainID = pz_ChainID env configtxManager;
         s = s\<lparr>ps_world := pz_SetMSPManager env cid configtxManager (ps_world s)\<rparr> in
     if ordererAddresses = [] then (Inl (Err ''No ordering service endpoint provided in configuration block''), s)
     else (Inr (), s\<lparr>ps_world := pz_sendOrdererTimer env chainID (pz_InitializeChannel env chainID ordererAddresses (ps_world s)),
             ps_chains := gm_put cid \<lparr>cn_ledger = l, cn_config = configtxManager, cn_cb = Some cb\<rparr> (ps_chains s)\<rparr>)))"

definition CreateChainFromBlock :: "('l, 'c, 'w) peer_env \<Rightarrow> Block \<Rightarrow> (('l, 'c, 'w) peer_state, unit) lsm" where
  "CreateChainFromBlock env cb =
     lsm_bind (lift_res (pz_GetChainIDFromBlock env cb)) (\<lambda>cid.
     lsm_try (on_world (pz_CreateLedger env cb)) (\<lambda>e. fail (Err (''Cannot create ledger from genesis block, due to '' @ err_msg e))) (\<lambda>l.
       createChain env cid l cb))"

definition InitChain :: "('l, 'c, 'w) peer_env \<Rightarrow> bytes \<Rightarrow> ('l, 'c, 'w) peer_state \<Rightarrow> ('l, 'c, 'w) peer_state" where
  "InitChain env cid s = s\<lparr>ps_world := pz_chainInitializer env cid (ps_world s)\<rparr>"

definition getCurrConfigBlockFromLedger :: "('l, 'c, 'w) peer_env \<Rightarrow> 'l \<Rightarrow> (('l, 'c, 'w) peer_state, Block) lsm" where
  "getCurrConfigBlockFromLedger env l =
     lsm_bind (on_world (pz_Height env l)) (\<lambda>height.
     lsm_bind (on_world (pz_GetBlockByNumber env l (height - 1))) (\<lambda>lastBlock.
     lsm_bind (lift_res (pz_GetLastConfigIndex env lastBlock)) (\<lambda>configBlockIndex.
       on_world (pz_GetBlockByNumber env l configBlockIndex))))"

text \<open>One channel of a restart; an error is logged and the next one loaded.\<close>

definition load_chain :: "('l, 'c, 'w) peer_env \<Rightarrow> bytes \<Rightarrow> (('l, 'c, 'w) peer_state, unit) lsm" where
  "load_chain env cid =
     lsm_bind (on_world (pz_OpenLedger env cid)) (\<lambda>l.
     lsm_bind (getCurrConfigBlockFromLedger env l) (\<lambda>cb.
     lsm_bind (createChain env cid l cb) (\<lambda>_ s. (Inr (), InitChain env cid s))))"

definition Initialize :: "('l, 'c, 'w) peer_env \<Rightarrow> (('l, 'c, 'w) peer_state, unit) lsm" where
  "Initialize env =
     lsm_try (on_world (pz_GetLedgerIDs env)) (\<lambda>e. fail (Panic (''Error in initializing ledgermgmt: '' @ err_msg e))) (\<lambda>ledgerIds.
       do_all (map (\<lambda>cid. drop_error (load_chain env cid)) ledgerIds))"

definition GetLedger :: "('l, 'c, 'w) peer_state \<Rightarrow> bytes \<Rightarrow> 'l option" where
  "GetLedger s cid = map_option cn_ledger (gm_get (ps_chains s) cid)"

definition GetCurrConfigBlock :: "('l, 'c, 'w) peer_state \<Rightarrow> bytes \<Rightarrow> Block option" where
  "GetCurrConfigBlock s cid = (case gm_get (ps_chains s) cid of None \<Rightarrow> None | Some c \<Rightarrow> cn_cb c)"

definition GetMSPIDs :: "('l, 'c, 'w) peer_env \<Rightarrow> ('l, 'c, 'w) peer_state \<Rightarrow> bytes \<Rightarrow> bytes list" where
  "GetMSPIDs env s cid =
     (case gm_get (ps_chains s) cid of
        None \<Rightarrow> []
      | Some c \<Rightarrow> (case pz_Organizations env (cn_config c) of None \<Rightarrow> [] | Some orgs \<Rightarrow> orgs))"

definition SetCurrConfigBlock :: "Block \<Rightarrow> bytes \<Rightarrow> (('l, 'c, 'w) peer_state, unit) lsm" where
  "SetCurrConfigBlock block cid s =
     (case gm_get (ps_chains s) cid of
        Some c \<Rightarrow> (Inr (), s\<lparr>ps_chains := gm_put cid (c\<lparr>cn_cb := Some block\<rparr>) (ps_chains s)\<rparr>)
      | None \<Rightarrow> (Inl (Err (''Chain '' @ cid @ '' doesn't exist on the peer'')), s))"

definition GetChannelsInfo :: "('l, 'c, 'w) peer_state \<Rightarrow> bytes list" where
  "GetChannelsInfo s = map fst (ps_chains s)"

section \<open>Trusted roots\<close>

record msp_roots =
  mr_fabric :: bool
  mr_TLSRootCerts :: "bytes list"
  mr_TLSIntermediateCerts :: "bytes list"

record CASupport =
  ca_AppRootCAsByChain :: "(bytes, bytes list) gomap"
  ca_OrdererRootCAsByChain :: "(bytes, bytes list) gomap"

definition roots_of :: "(bytes, msp_roots) gomap \<Rightarrow> (bytes \<Rightarrow> bool) \<Rightarrow> bytes list" where
  "roots_of msps wanted =
     concat (map (\<lambda>(k, v). if mr_fabric v \<and> wanted k then mr_TLSRootCerts v @ mr_TLSIntermediateCerts v else []) msps)"

definition buildTrustedRootsForChain :: "bytes \<Rightarrow> bytes list \<Rightarrow> (bytes, msp_roots) gomap res \<Rightarrow> CASupport \<Rightarrow> CASupport" where
  "buildTrustedRootsForChain cid appOrgMSPs msps ca =
     (case msps of
        Inl _ \<Rightarrow> ca
      | Inr ms \<Rightarrow>
          ca\<lparr>ca_AppRootCAsByChain := gm_put cid (roots_of ms (\<lambda>k. k \<in> set appOrgMSPs)) (ca_AppRootCAsByChain ca),
             ca_OrdererRootCAsByChain := gm_put cid (roots_of ms (\<lambda>k. k \<notin> set appOrgMSPs)) (ca_OrdererRootCAsByChain ca)\<rparr>)"

definition trusted_roots :: "CASupport \<Rightarrow> bytes list \<Rightarrow> bytes list \<Rightarrow> bytes list" where
  "trusted_roots ca clientRoots serverRoots = concat (map snd (ca_AppRootCAsByChain ca)) @ clientRoots @ serverRoots"

section \<open>Joining and asking for the configuration\<close>

text \<open>What a configuration holds: each level may be missing.\<close>

record config_env =
  cf_Config :: "bytes list option option option"

record ('l, 'c, 'w) cscc_env =
  cs_peer :: "('l, 'c, 'w) peer_env"
  cs_pu :: proto_utils
  cs_policyChecker :: policyChecker
  cs_Admins :: bytes
  cs_Members :: bytes
  cs_Readers :: bytes
  cs_ApplicationGroupKey :: bytes
  cs_GetBlockFromBlockBytes :: "bytes \<Rightarrow> Block res"
  cs_UnmarshalConfigEnvelope :: "Envelope \<Rightarrow> config_env res"
  cs_SendProducerBlockEvent :: "Block \<Rightarrow> 'w \<Rightarrow> 'w"
  cs_MarshalBlock :: "Block \<Rightarrow> bytes res"
  cs_MarshalChannels :: "bytes list \<Rightarrow> bytes res"

definition validateConfigBlock :: "('l, 'c, 'w) cscc_env \<Rightarrow> Block \<Rightarrow> unit res" where
  "validateConfigBlock env block =
     res_try (pz_ExtractEnvelope (cs_peer env) block) (\<lambda>e. Inl (Err (''Failed to '' @ err_msg e))) (\<lambda>envelopeConfig.
     res_try (cs_UnmarshalConfigEnvelope env envelopeConfig) (\<lambda>e. Inl (Err (''Bad configuration envelope: '' @ err_msg e))) (\<lambda>configEnv.
     need (cf_Config configEnv) ''Nil config envelope Config'' (\<lambda>channelGroup.
     need channelGroup ''Nil channel group'' (\<lambda>groups.
     need groups ''No channel configuration groups are available'' (\<lambda>groups.
       if cs_ApplicationGroupKey env \<in> set groups then Inr () else Inl (Err ''Invalid configuration block, missing configuration group''))))))"

definition joinChain :: "('l, 'c, 'w) cscc_env \<Rightarrow> bytes \<Rightarrow> Block \<Rightarrow> (('l, 'c, 'w) peer_state, Response) lsm" where
  "joinChain env chainID block =
     lsm_try (CreateChainFromBlock (cs_peer env) block) (\<lambda>e. refuse_with (err_msg e)) (\<lambda>_ s.
       let s = InitChain (cs_peer env) chainID s in
       (Inr (shim_Success None), s\<lparr>ps_world := cs_SendProducerBlockEvent env block (ps_world s)\<rparr>))"

definition cscc_getConfigBlock :: "('l, 'c, 'w) cscc_env \<Rightarrow> slice \<Rightarrow> (('l, 'c, 'w) peer_state, Response) lsm" where
  "cscc_getConfigBlock env chainID s =
     (case chainID of
        None \<Rightarrow> refuse_with ''ChainID must not be nil.'' s
      | Some cid \<Rightarrow>
          (case GetCurrConfigBlock s cid of
             None \<Rightarrow> refuse_with (''Unknown chain ID, '' @ cid) s
           | Some block \<Rightarrow> or_respond (lift_res (cs_MarshalBlock env block)) (\<lambda>b. ret (shim_Success (Some b))) s))"

definition cscc_getChannels :: "('l, 'c, 'w) cscc_env \<Rightarrow> (('l, 'c, 'w) peer_state, Response) lsm" where
  "cscc_getChannels env s = or_respond (lift_res (cs_MarshalChannels env (GetChannelsInfo s))) (\<lambda>b. ret (shim_Success (Some b))) s"

definition cscc_join :: "('l, 'c, 'w) cscc_env \<Rightarrow> SignedProposal option \<Rightarrow> slice \<Rightarrow> (('l, 'c, 'w) peer_state, Response) lsm" where
  "cscc_join env sp arg =
     (case arg of
        None \<Rightarrow> refuse_with ''Cannot join the channel <nil> configuration block provided''
      | Some b \<Rightarrow>
          or_respond_with ''Failed to reconstruct the genesis block, '' (lift_res (cs_GetBlockFromBlockBytes env b)) (\<lambda>block.
          or_respond_with ''JoinChain request failed to extract channel id from the block due to '' (lift_res (pz_GetChainIDFromBlock (cs_peer env) block)) (\<lambda>cid.
          or_respond_with ''JoinChain failed because of validation of configuration block, because of '' (lift_res (validateConfigBlock env block)) (\<lambda>_.
          or_respond_with ''JoinChain request failed authorization check: '' (lift_res (CheckPolicyNoChannel (cs_pu env) (cs_policyChecker env) (cs_Admins env) sp)) (\<lambda>_.
            joinChain env cid block)))))"

definition cscc_Invoke :: "('l, 'c, 'w) cscc_env \<Rightarrow> slice list \<Rightarrow> SignedProposal option res \<Rightarrow> (('l, 'c, 'w) peer_state, Response) lsm" where
  "cscc_Invoke env args signedProposal =
     (if args = [] then refuse_with ''Incorrect number of arguments, 0''
      else
        let fname = str_of (args ! 0) in
        if fname \<noteq> ''GetChannels'' \<and> length args < 2 then refuse_with ''Incorrect number of arguments, 1''
        else
          or_respond_with ''Failed getting signed proposal from stub: '' (lift_res signedProposal) (\<lambda>sp.
            if fname = ''JoinChain'' then cscc_join env sp (args ! 1)
            else if fname = ''GetConfigBlock'' then
              or_respond_with ''GetConfigBlock request failed authorization check: ''
                (lift_res (CheckPolicy (cs_pu env) (cs_policyChecker env) (str_of (args ! 1)) (cs_Readers env) sp)) (\<lambda>_. cscc_getConfigBlock env (args ! 1))
            else if fname = ''GetChannels'' then
              or_respond_with ''GetChannels request failed authorization check: ''
                (lift_res (CheckPolicyNoChannel (cs_pu env) (cs_policyChecker env) (cs_Members env) sp)) (\<lambda>_. cscc_getChannels env)
            else refuse_with (''Requested function '' @ fname @ '' not found.'')))"

section \<open>Queries\<close>

text \<open>The answer of the orderer is a message or none, with or without an error.\<close>

record ('l, 't, 'i) qscc_env =
  qe_SendToOrderer :: "bytes \<Rightarrow> slice option \<times> error option"
  qe_GetLedger :: "bytes \<Rightarrow> 'l option"
  qe_GetTransactionByID :: "'l \<Rightarrow> bytes \<Rightarrow> 't res"
  qe_GetBlockByNumber :: "'l \<Rightarrow> u64 \<Rightarrow> Block res"
  qe_GetBlockByHash :: "'l \<Rightarrow> bytes \<Rightarrow> Block res"
  qe_GetBlockByTxID :: "'l \<Rightarrow> bytes \<Rightarrow> Block res"
  qe_GetBlockchainInfo :: "'l \<Rightarrow> 'i res"
  qe_MarshalTransaction :: "'t \<Rightarrow> bytes res"
  qe_MarshalBlock :: "Block \<Rightarrow> bytes res"
  qe_MarshalInfo :: "'i \<Rightarrow> bytes res"

definition marshalled :: "bytes \<Rightarrow> 'x res \<Rightarrow> ('x \<Rightarrow> bytes res) \<Rightarrow> ('s, Response) lsm" where
  "marshalled failure r marshal =
     or_respond_with failure (lift_res r) (\<lambda>x. or_respond (lift_res (marshal x)) (\<lambda>b. ret (shim_Success (Some b))))"

definition getPeerList :: "('l, 't, 'i) qscc_env \<Rightarrow> bytes \<Rightarrow> ('s, Response) lsm" where
  "getPeerList env cid =
     (let (res, err) = qe_SendToOrderer env cid in
      lsm_bind (lift_res (deref res)) (\<lambda>data. ret (shim_Success data)))"

definition qscc_getTransactionByID :: "('l, 't, 'i) qscc_env \<Rightarrow> 'l \<Rightarrow> slice \<Rightarrow> ('s, Response) lsm" where
  "qscc_getTransactionByID env l tid =
     (case tid of
        None \<Rightarrow> refuse_with ''Transaction ID must not be nil.''
      | Some t \<Rightarrow> marshalled (''Failed to get transaction with id '' @ t @ '', error '') (qe_GetTransactionByID env l t) (qe_MarshalTransaction env))"

definition qscc_getBlockByNumber :: "('l, 't, 'i) qscc_env \<Rightarrow> 'l \<Rightarrow> slice \<Rightarrow> ('s, Response) lsm" where
  "qscc_getBlockByNumber env l number =
     (case number of
        None \<Rightarrow> refuse_with ''Block number must not be nil.''
      | Some b \<Rightarrow>
          (case ParseUint b of
             ParseOk n \<Rightarrow> marshalled ''Failed to get block number, error '' (qe_GetBlockByNumber env l (of_nat n)) (qe_MarshalBlock env)
           | _ \<Rightarrow> refuse_with ''Failed to parse block number with error''))"

definition qscc_getBlockByHash :: "('l, 't, 'i) qscc_env \<Rightarrow> 'l \<Rightarrow> slice \<Rightarrow> ('s, Response) lsm" where
  "qscc_getBlockByHash env l hash =
     (case hash of
        None \<Rightarrow> refuse_with ''Block hash must not be nil.''
      | Some h \<Rightarrow> marshalled (''Failed to get block hash '' @ h @ '', error '') (qe_GetBlockByHash env l h) (qe_MarshalBlock env))"

definition qscc_getChainInfo :: "('l, 't, 'i) qscc_env \<Rightarrow> 'l \<Rightarrow> ('s, Response) lsm" where
  "qscc_getChainInfo env l = marshalled ''Failed to get block info with error '' (qe_GetBlockchainInfo env l) (qe_MarshalInfo env)"

definition qscc_getBlockByTxID :: "('l, 't, 'i) qscc_env \<Rightarrow> 'l \<Rightarrow> slice \<Rightarrow> ('s, Response) lsm" where
  "qscc_getBlockByTxID env l rawTxID =
     marshalled (''Failed to get block for txID '' @ str_of rawTxID @ '', error '') (qe_GetBlockByTxID env l (str_of rawTxID)) (qe_MarshalBlock env)"

text \<open>The predecessors of a transaction: a hundred rounds, each of which follows one link if there is one.\<close>

fun statistics_loop :: "'s contract_stub \<Rightarrow> bytes \<Rightarrow> nat \<Rightarrow> bytes \<Rightarrow> bytes \<Rightarrow> ('s, bytes) lsm" where
  "statistics_loop st transStaticKey 0 txId lisTxId = ret lisTxId"
| "statistics_loop st transStaticKey (Suc n) txId lisTxId =
     lsm_bind (read_state st (txId @ ''-'' @ transStaticKey)) (\<lambda>preTxBuf.
       case preTxBuf of
         None \<Rightarrow> statistics_loop st transStaticKey n txId lisTxId
       | Some p \<Rightarrow> statistics_loop st transStaticKey n p (lisTxId @ '','' @ p))"

definition queryStatisticsTransaction :: "'s contract_stub \<Rightarrow> bytes \<Rightarrow> bytes \<Rightarrow> ('s, Response) lsm" where
  "queryStatisticsTransaction st txId transStaticKey =
     lsm_bind (statistics_loop st transStaticKey 100 txId txId) (\<lambda>lisTxId. ret (shim_Success (Some lisTxId)))"

text \<open>\<^verbatim>\<open>string(blockIndex)\<close> is the character with that code point, as where the statistics are written (theory \<open>Validator\<close>).\<close>

definition getBlockStatistics :: "'s contract_stub \<Rightarrow> bytes \<Rightarrow> ('s, Response) lsm" where
  "getBlockStatistics st arg =
     (let (n, err) = ParseInt arg; blockIndex = (if err then - 1 else n);
          key = (if blockIndex \<ge> 0 then ''BlockStatistics_'' @ rune_str (of_int blockIndex) else ''curBlockStatistics'') in
      lsm_bind (read_state st key) (\<lambda>b. ret (shim_Success (Some (str_of b)))))"

definition qscc_Invoke :: "('l, 't, 'i) qscc_env \<Rightarrow> SignedProposal option res \<Rightarrow> 's contract_stub \<Rightarrow> slice list \<Rightarrow> ('s, Response) lsm" where
  "qscc_Invoke env signedProposal st args =
     (if length args < 2 then refuse_with ''Incorrect number of arguments''
      else
        let fname = str_of (args ! 0); cid = str_of (args ! 1) in
        if fname = ''GetPeerList'' then getPeerList env cid
        else if fname \<noteq> ''GetChainInfo'' \<and> length args < 3 then refuse_with (''missing 3rd argument for '' @ fname)
        else
          (case qe_GetLedger env cid of
             None \<Rightarrow> refuse_with (''Invalid chain ID, '' @ cid)
           | Some l \<Rightarrow>
               or_respond_with (''Failed getting signed proposal from stub, '' @ cid @ '': '') (lift_res signedProposal) (\<lambda>_.
                 if fname = ''GetTransactionByID'' then qscc_getTransactionByID env l (args ! 2)
                 else if fname = ''GetBlockByNumber'' then qscc_getBlockByNumber env l (args ! 2)
                 else if fname = ''GetBlockByHash'' then qscc_getBlockByHash env l (args ! 2)
                 else if fname = ''GetChainInfo'' then qscc_getChainInfo env l
                 else if fname = ''GetBlockByTxID'' then qscc_getBlockByTxID env l (args ! 2)
                 else if fname = ''GetBlockStatistics'' then getBlockStatistics st (str_of (args ! 2))
                 else if fname = ''QueryStatisticsTransaction'' then
                   (if length args < 4 then refuse_with (''missing 4rd argument for '' @ fname)
                    else if length (str_of (args ! 2)) < 32 then refuse_with (''txId params is error '' @ fname)
                    else queryStatisticsTransaction st (str_of (args ! 2)) (str_of (args ! 3)))
                 else refuse_with (''Requested function '' @ fname @ '' not found.''))))"

section \<open>Joining\<close>

lemma or_respond_with_success:
  "or_respond_with pre (lift_res r) f s = (Inr (shim_Success v), s') \<longleftrightarrow> (\<exists>x. r = Inr x \<and> f x s = (Inr (shim_Success v), s'))"
  by (auto simp: or_respond_with_def lsm_try_def split: sum.splits error.splits)

lemma join_authorised:
  assumes "cscc_Invoke env [Some ''JoinChain'', arg] (Inr sp) s = (Inr (shim_Success v), s')"
  shows "\<exists>b block cid. arg = Some b \<and> cs_GetBlockFromBlockBytes env b = Inr block \<and> pz_GetChainIDFromBlock (cs_peer env) block = Inr cid
    \<and> validateConfigBlock env block = Inr () \<and> CheckPolicyNoChannel (cs_pu env) (cs_policyChecker env) (cs_Admins env) sp = Inr ()
    \<and> joinChain env cid block s = (Inr (shim_Success v), s')"
  using assms
  by (auto simp: cscc_Invoke_def cscc_join_def refuse_with_def or_respond_with_success str_of_def split: option.splits)

lemma createChain_ok:
  assumes "createChain env cid l cb s = (Inr (), s')"
  shows "GetLedger s' cid = Some l \<and> GetCurrConfigBlock s' cid = Some cb \<and> (\<forall>c. c \<noteq> cid \<longrightarrow> gm_get (ps_chains s') c = gm_get (ps_chains s) c)"
  using assms
  by (auto simp: createChain_def lsm_bind_Inr Let_def on_world_def GetLedger_def GetCurrConfigBlock_def split: if_splits prod.splits)

lemma CreateChain_ok:
  assumes "CreateChainFromBlock env cb s = (Inr (), s')" "pz_GetChainIDFromBlock env cb = Inr cid"
  shows "\<exists>l w. pz_CreateLedger env cb (ps_world s) = (Inr l, w) \<and> GetLedger s' cid = Some l \<and> GetCurrConfigBlock s' cid = Some cb
    \<and> (\<forall>c. c \<noteq> cid \<longrightarrow> gm_get (ps_chains s') c = gm_get (ps_chains s) c)"
proof -
  obtain l w where l: "pz_CreateLedger env cb (ps_world s) = (Inr l, w)" "createChain env cid l cb (s\<lparr>ps_world := w\<rparr>) = (Inr (), s')"
    using assms by (auto simp: CreateChainFromBlock_def lsm_try_Inr on_world_def split: prod.splits)
  from createChain_ok [OF this(2)] l(1) show ?thesis by auto
qed

lemma join_adds_channel:
  assumes "joinChain env cid block s = (Inr (shim_Success v), s')" "pz_GetChainIDFromBlock (cs_peer env) block = Inr cid"
  shows "\<exists>l w. pz_CreateLedger (cs_peer env) block (ps_world s) = (Inr l, w) \<and> GetLedger s' cid = Some l \<and> GetCurrConfigBlock s' cid = Some block
    \<and> (\<forall>c. c \<noteq> cid \<longrightarrow> gm_get (ps_chains s') c = gm_get (ps_chains s) c)"
proof -
  obtain s1 where s1: "CreateChainFromBlock (cs_peer env) block s = (Inr (), s1)" "ps_chains s' = ps_chains s1"
    using assms(1) by (auto simp: joinChain_def lsm_try_Inr refuse_with_def InitChain_def Let_def)
  from CreateChain_ok [OF s1(1) assms(2)] show ?thesis by (simp add: GetLedger_def GetCurrConfigBlock_def s1(2))
qed

text \<open>
  A ledger can be created once. A join that fails after that leaves it behind: the channel cannot be
  joined any more, though it was not entered.
\<close>

lemma failed_join_sticks:
  assumes "pz_GetChainIDFromBlock (cs_peer env) block = Inr cid" "pz_CreateLedger (cs_peer env) block (ps_world s) = (Inr l, w)"
    and "pz_ExtractEnvelope (cs_peer env) block = Inr e" "pz_NewManager (cs_peer env) e w = (Inr m, w1)" "pz_OrdererAddresses (cs_peer env) m = []"
    and "w2 = pz_SetMSPManager (cs_peer env) cid m w1" and once: "pz_CreateLedger (cs_peer env) block w2 = (Inl (Err x), w2)"
  shows "joinChain env cid block s = (Inr (shim_Error ''No ordering service endpoint provided in configuration block''), s\<lparr>ps_world := w2\<rparr>)"
    and "joinChain env cid block (s\<lparr>ps_world := w2\<rparr>) = (Inr (shim_Error (''Cannot create ledger from genesis block, due to '' @ x)), s\<lparr>ps_world := w2\<rparr>)"
  using assms
  by (auto simp: joinChain_def CreateChainFromBlock_def createChain_def lsm_bind_def lsm_try_def on_world_def Let_def refuse_with_def err_msg_def)

text \<open>A restart: an error with one channel does not keep the others from being loaded.\<close>

lemma drop_error_total: "no_panic (fst (m s)) \<Longrightarrow> \<exists>s'. drop_error m s = (Inr (), s')"
  by (erule no_panic_cases) (auto simp: drop_error_def lsm_try_def split: prod.splits)

lemma do_all_total:
  assumes "\<And>m s. m \<in> set ms \<Longrightarrow> \<exists>s'. m s = (Inr (), s')"
  shows "\<exists>s'. do_all ms s = (Inr (), s')"
  using assms
proof (induction ms arbitrary: s)
  case (Cons m ms)
  obtain s1 where "m s = (Inr (), s1)" using Cons.prems by fastforce
  moreover obtain s2 where "do_all ms s1 = (Inr (), s2)" using Cons.IH [of s1] Cons.prems by fastforce
  ultimately show ?case by (simp add: lsm_bind_def)
qed simp

lemma Initialize_goes_on:
  assumes "pz_GetLedgerIDs env (ps_world s) = (Inr cids, w)" "\<And>cid t. no_panic (fst (load_chain env cid t))"
  shows "\<exists>s'. Initialize env s = (Inr (), s')"
proof -
  have "\<exists>s'. do_all (map (\<lambda>cid. drop_error (load_chain env cid)) cids) (s\<lparr>ps_world := w\<rparr>) = (Inr (), s')"
    using drop_error_total [OF assms(2)] by (intro do_all_total) auto
  then show ?thesis using assms(1) by (simp add: Initialize_def lsm_try_def on_world_def)
qed

section \<open>Queries by anyone\<close>

lemma peer_list_panics:
  assumes "qe_SendToOrderer env (str_of cid) = (None, err)"
  shows "qscc_Invoke env sp st [Some ''GetPeerList'', cid] s = (Inl (Panic ''nil pointer dereference''), s)"
  using assms by (simp add: qscc_Invoke_def getPeerList_def lsm_bind_def str_of_def)

lemma or_respond_with_ret: "or_respond_with pre (ret x) f = f x"
  by (rule ext) (simp add: or_respond_with_def lsm_try_def)

lemma queries_unchecked: "qscc_Invoke env (Inr sp) st args = qscc_Invoke env (Inr sp') st args"
  unfolding qscc_Invoke_def or_respond_with_ret by (rule refl)

fun predecessors :: "(bytes \<Rightarrow> slice) \<Rightarrow> bytes \<Rightarrow> nat \<Rightarrow> bytes \<Rightarrow> bytes list" where
  "predecessors m key 0 txId = []"
| "predecessors m key (Suc n) txId = (case m (txId @ ''-'' @ key) of None \<Rightarrow> [] | Some p \<Rightarrow> p # predecessors m key n p)"

lemma predecessors_bounded: "length (predecessors m key n txId) \<le> n"
  by (induction n arbitrary: txId) (auto split: option.splits)

lemma predecessors_none: "m (txId @ ''-'' @ key) = None \<Longrightarrow> predecessors m key n txId = []"
  by (cases n) simp_all

context snapshot_stub
begin

lemma statistics_loop_chain:
  "statistics_loop st key n txId acc s = (Inr (acc @ concat (map (\<lambda>p. '','' @ p) (predecessors (cm s) key n txId))), s)"
  by (induction n arbitrary: txId acc) (auto simp: lsm_bind_def predecessors_none split: option.splits)

lemma statistics_chain:
  "queryStatisticsTransaction st txId key s
     = (Inr (shim_Success (Some (txId @ concat (map (\<lambda>p. '','' @ p) (predecessors (cm s) key 100 txId))))), s)"
  by (simp add: queryStatisticsTransaction_def lsm_bind_def statistics_loop_chain)

end

end
