(* ===== verification/GossipCrypto.thy ===== *)
theory GossipCrypto
  imports Policy
begin

text \<open>
  The checks on what comes from other peers and from the orderer: \<^verbatim>\<open>peer/gossip/mcs.go\<close> and
  \<^verbatim>\<open>peer/gossip/sa.go\<close>. Identities, policies, hashes and protobuf are outside the sources.

  Results: what a block that passes \<open>VerifyBlock\<close> has (\<open>VerifyBlock_ok\<close>): the claimed number, the channel,
  data that fit the header, and signatures that satisfy the policy of the channel on the header that
  names the data (\<open>signed_header\<close>). A message passes \<open>Verify\<close> only with an identity that some membership
  service has validated (\<open>Verify_validated\<close>), and the organisation of a peer that is told without a
  check is the one the check would find, or the local membership service knows the identity under a
  foreign name (\<open>org_of_validated\<close>).
\<close>

record BlockHeader =
  bh_Number :: u64
  bh_PreviousHash :: bytes
  bh_DataHash :: bytes

text \<open>A block as it arrives: each part may be missing.\<close>

record raw_block =
  rb_Header :: "BlockHeader option"
  rb_Data :: "bytes list option"
  rb_Metadata :: "bytes list option"

record MetadataSignature =
  ms_SignatureHeader :: bytes
  ms_Signature :: bytes

record Metadata =
  md_Value :: bytes
  md_Signatures :: "MetadataSignature list"

record gossip_identity =
  gi_GetMSPIdentifier :: bytes
  gi_Validate :: "unit res"
  gi_Verify :: "bytes \<Rightarrow> bytes \<Rightarrow> unit res"

type_synonym deserializer = "bytes \<Rightarrow> gossip_identity res"

record mspMessageCryptoService =
  mc_Manager :: "bytes \<Rightarrow> (bytes \<Rightarrow> SignedData list \<Rightarrow> unit res) option"
  mc_LocalDeserializer :: deserializer
  mc_LocalMSPIdentifier :: bytes
  mc_ChannelDeserializers :: "(bytes, deserializer) gomap"
  mc_Deserialize :: "bytes \<Rightarrow> (bytes \<times> bytes) res"
  mc_Hash :: "bytes \<Rightarrow> bytes res"
  mc_GetBlockFromBlockBytes :: "bytes \<Rightarrow> raw_block res"
  mc_GetChainIDFromBlock :: "raw_block \<Rightarrow> bytes res"
  mc_GetSignatures :: "raw_block \<Rightarrow> Metadata res"
  mc_DataHash :: "bytes list option \<Rightarrow> bytes res"
  mc_HeaderBytes :: "BlockHeader \<Rightarrow> bytes"
  mc_GetSignatureHeader :: "bytes \<Rightarrow> SignatureHeader res"
  mc_BlockValidation :: bytes
  mc_ChannelApplicationReaders :: bytes

section \<open>Identities\<close>

text \<open>The loop over the channels: the first whose membership service accepts the identity.\<close>

fun channel_identity :: "(bytes, deserializer) gomap \<Rightarrow> bytes \<Rightarrow> (gossip_identity \<times> bytes) res" where
  "channel_identity [] peerIdentity = Inl (Err ''Peer Identity cannot be validated. No MSP found able to do that.'')"
| "channel_identity ((chainID, mspManager) # rest) peerIdentity =
     res_try (mspManager peerIdentity) (\<lambda>_. channel_identity rest peerIdentity) (\<lambda>who.
     res_try (gi_Validate who) (\<lambda>_. channel_identity rest peerIdentity) (\<lambda>_. Inr (who, chainID)))"

definition getValidatedIdentity :: "mspMessageCryptoService \<Rightarrow> bytes \<Rightarrow> (gossip_identity \<times> bytes) res" where
  "getValidatedIdentity s peerIdentity =
     (if peerIdentity = [] then Inl (Err ''Invalid Peer Identity. It must be different from nil.'')
      else
        res_try (mc_LocalDeserializer s peerIdentity) (\<lambda>_. channel_identity (mc_ChannelDeserializers s) peerIdentity) (\<lambda>who.
          if gi_GetMSPIdentifier who = mc_LocalMSPIdentifier s then res_bind (gi_Validate who) (\<lambda>_. Inr (who, []))
          else channel_identity (mc_ChannelDeserializers s) peerIdentity))"

definition ValidateIdentity :: "mspMessageCryptoService \<Rightarrow> bytes \<Rightarrow> unit res" where
  "ValidateIdentity s peerIdentity = res_bind (getValidatedIdentity s peerIdentity) (\<lambda>_. Inr ())"

definition GetPKIidOfCert :: "mspMessageCryptoService \<Rightarrow> bytes \<Rightarrow> slice res" where
  "GetPKIidOfCert s peerIdentity =
     (if peerIdentity = [] then Inr None
      else
        res_try (mc_Deserialize s peerIdentity) (\<lambda>_. Inr None) (\<lambda>(mspId, idBytes).
        res_try (mc_Hash s (mspId @ idBytes)) (\<lambda>_. Inr None) (\<lambda>digest. Inr (Some digest))))"

definition VerifyByChannel :: "mspMessageCryptoService \<Rightarrow> bytes \<Rightarrow> bytes \<Rightarrow> bytes \<Rightarrow> bytes \<Rightarrow> unit res" where
  "VerifyByChannel s chainID peerIdentity signature message =
     (if peerIdentity = [] then Inl (Err ''Invalid Peer Identity. It must be different from nil.'')
      else
        need (mc_Manager s chainID) (''Could not acquire policy manager for channel '' @ chainID) (\<lambda>GetPolicy.
          GetPolicy (mc_ChannelApplicationReaders s) [\<lparr>sd_Data = message, sd_Identity = peerIdentity, sd_Signature = signature\<rparr>]))"

definition Verify :: "mspMessageCryptoService \<Rightarrow> bytes \<Rightarrow> bytes \<Rightarrow> bytes \<Rightarrow> unit res" where
  "Verify s peerIdentity signature message =
     res_bind (getValidatedIdentity s peerIdentity) (\<lambda>(who, chainID).
       if chainID = [] then gi_Verify who message signature else VerifyByChannel s chainID peerIdentity signature message)"

fun channel_org :: "(bytes, deserializer) gomap \<Rightarrow> bytes \<Rightarrow> slice res" where
  "channel_org [] peerIdentity = Inr None"
| "channel_org ((chainID, mspManager) # rest) peerIdentity =
     res_try (mspManager peerIdentity) (\<lambda>_. channel_org rest peerIdentity) (\<lambda>who. Inr (Some (gi_GetMSPIdentifier who)))"

definition OrgByPeerIdentity :: "mspMessageCryptoService \<Rightarrow> bytes \<Rightarrow> slice res" where
  "OrgByPeerIdentity s peerIdentity =
     (if peerIdentity = [] then Inr None
      else res_try (mc_LocalDeserializer s peerIdentity) (\<lambda>_. channel_org (mc_ChannelDeserializers s) peerIdentity) (\<lambda>who. Inr (Some (gi_GetMSPIdentifier who))))"

section \<open>Blocks\<close>

text \<open>What an orderer signs of a block: the metadata, the header of its signature and the header of the block.\<close>

definition signed_header :: "mspMessageCryptoService \<Rightarrow> Metadata \<Rightarrow> BlockHeader \<Rightarrow> MetadataSignature \<Rightarrow> SignedData res" where
  "signed_header s metadata header sig =
     res_try (mc_GetSignatureHeader s (ms_SignatureHeader sig)) (\<lambda>_. Inl (Err ''Failed unmarshalling signature header'')) (\<lambda>shdr.
       Inr \<lparr>sd_Data = md_Value metadata @ ms_SignatureHeader sig @ mc_HeaderBytes s header, sd_Identity = str_of (sh_Creator shdr), sd_Signature = ms_Signature sig\<rparr>)"

fun signature_set :: "mspMessageCryptoService \<Rightarrow> Metadata \<Rightarrow> BlockHeader \<Rightarrow> MetadataSignature list \<Rightarrow> SignedData list res" where
  "signature_set s metadata header [] = Inr []"
| "signature_set s metadata header (sig # sigs) =
     res_bind (signed_header s metadata header sig) (\<lambda>sd. res_bind (signature_set s metadata header sigs) (\<lambda>sds. Inr (sd # sds)))"

definition VerifyBlock :: "mspMessageCryptoService \<Rightarrow> bytes \<Rightarrow> u64 \<Rightarrow> bytes \<Rightarrow> unit res" where
  "VerifyBlock s chainID seqNum signedBlock =
     res_try (mc_GetBlockFromBlockBytes s signedBlock) (\<lambda>_. Inl (Err ''Failed unmarshalling block bytes'')) (\<lambda>block.
     need (rb_Header block) ''Invalid Block. Header must be different from nil.'' (\<lambda>header.
     if seqNum \<noteq> bh_Number header then Inl (Err ''Claimed seqNum is not the actual seqNum inside block'')
     else
       res_try (mc_GetChainIDFromBlock s block) (\<lambda>_. Inl (Err ''Failed getting channel id from block'')) (\<lambda>channelID.
       if channelID \<noteq> chainID then Inl (Err ''Invalid block's channel id.'')
       else if rb_Metadata block = None \<or> rb_Metadata block = Some [] then Inl (Err ''Block does not have metadata. Block not valid.'')
       else
         res_try (mc_GetSignatures s block) (\<lambda>_. Inl (Err ''Failed unmarshalling medatata for signatures'')) (\<lambda>metadata.
         res_bind (mc_DataHash s (rb_Data block)) (\<lambda>dataHash.
         if dataHash \<noteq> bh_DataHash header then Inl (Err ''Header.DataHash is different from Hash(block.Data)'')
         else
           need (mc_Manager s channelID) (''Could not acquire policy manager for channel '' @ channelID) (\<lambda>GetPolicy.
           res_bind (signature_set s metadata header (md_Signatures metadata)) (\<lambda>signatureSet.
             GetPolicy (mc_BlockValidation s) signatureSet)))))))"

section \<open>What the checks establish\<close>

lemma channel_identity_Inr:
  assumes "channel_identity cs p = Inr (who, chainID)"
  shows "\<exists>d. (chainID, d) \<in> set cs \<and> d p = Inr who \<and> gi_Validate who = Inr ()"
  using assms by (induction cs p rule: channel_identity.induct) (auto simp: res_try_def split: sum.splits error.splits)

lemma getValidatedIdentity_Inr:
  assumes "getValidatedIdentity s p = Inr (who, chainID)"
  shows "p \<noteq> [] \<and> gi_Validate who = Inr () \<and>
    (chainID = [] \<and> mc_LocalDeserializer s p = Inr who \<and> gi_GetMSPIdentifier who = mc_LocalMSPIdentifier s
     \<or> (\<exists>d. (chainID, d) \<in> set (mc_ChannelDeserializers s) \<and> d p = Inr who))"
  using assms channel_identity_Inr [of "mc_ChannelDeserializers s" p who chainID]
  by (auto simp: getValidatedIdentity_def res_try_Inr_conv res_bind_Inr_conv split: if_splits)

lemma VerifyByChannel_ok:
  "VerifyByChannel s chan p sig m = Inr () \<longleftrightarrow> p \<noteq> []
     \<and> (\<exists>get. mc_Manager s chan = Some get \<and> get (mc_ChannelApplicationReaders s) [\<lparr>sd_Data = m, sd_Identity = p, sd_Signature = sig\<rparr>] = Inr ())"
  by (auto simp: VerifyByChannel_def need_Inr_conv)

text \<open>A message is accepted from a validated identity, on the word of the local service or by the readers' policy of a channel.\<close>

lemma Verify_validated:
  assumes "Verify s p sig m = Inr ()"
  shows "\<exists>who chan. getValidatedIdentity s p = Inr (who, chan) \<and> gi_Validate who = Inr ()
    \<and> (if chan = [] then gi_Verify who m sig = Inr () else VerifyByChannel s chan p sig m = Inr ())"
proof -
  obtain who chan where v: "getValidatedIdentity s p = Inr (who, chan)"
      "if chan = [] then gi_Verify who m sig = Inr () else VerifyByChannel s chan p sig m = Inr ()"
    using assms by (auto simp: Verify_def res_bind_Inr_conv split: if_splits)
  from getValidatedIdentity_Inr [OF v(1)] v show ?thesis by blast
qed

lemma channel_org_of_identity:
  assumes "channel_identity cs p = Inr (who, chan)" "\<And>c d x. (c, d) \<in> set cs \<Longrightarrow> d p = Inr x \<Longrightarrow> gi_GetMSPIdentifier x = org"
  shows "channel_org cs p = Inr (Some org)"
  using assms by (induction cs p rule: channel_identity.induct) (fastforce simp: res_try_def split: sum.splits error.splits)+

text \<open>If the channels agree on the organisation of an identity, the unchecked answer is the checked one.\<close>

lemma org_of_validated:
  assumes "getValidatedIdentity s p = Inr (who, chan)"
    and "\<And>c d x. (c, d) \<in> set (mc_ChannelDeserializers s) \<Longrightarrow> d p = Inr x \<Longrightarrow> gi_GetMSPIdentifier x = org"
    and "\<And>x. mc_LocalDeserializer s p = Inr x \<Longrightarrow> gi_GetMSPIdentifier x = org"
  shows "OrgByPeerIdentity s p = Inr (Some org)"
  using assms channel_org_of_identity [of "mc_ChannelDeserializers s" p who chan org]
  by (auto simp: getValidatedIdentity_def OrgByPeerIdentity_def res_try_def split: if_splits sum.splits error.splits)

lemma signature_set_Inr:
  "signature_set s metadata header sigs = Inr sds \<longleftrightarrow> list_all2 (\<lambda>sig sd. signed_header s metadata header sig = Inr sd) sigs sds"
  by (induction sigs arbitrary: sds) (auto simp: res_bind_Inr_conv list_all2_Cons1)

definition block_verified :: "mspMessageCryptoService \<Rightarrow> bytes \<Rightarrow> u64 \<Rightarrow> bytes \<Rightarrow> bool" where
  "block_verified s chainID seqNum signedBlock \<longleftrightarrow>
     (\<exists>block header metadata get sds. mc_GetBlockFromBlockBytes s signedBlock = Inr block \<and> rb_Header block = Some header
        \<and> bh_Number header = seqNum \<and> mc_GetChainIDFromBlock s block = Inr chainID \<and> mc_DataHash s (rb_Data block) = Inr (bh_DataHash header)
        \<and> mc_GetSignatures s block = Inr metadata \<and> mc_Manager s chainID = Some get
        \<and> list_all2 (\<lambda>sig sd. signed_header s metadata header sig = Inr sd) (md_Signatures metadata) sds \<and> get (mc_BlockValidation s) sds = Inr ())"

lemma VerifyBlock_ok:
  assumes "VerifyBlock s chainID seqNum signedBlock = Inr ()"
  shows "block_verified s chainID seqNum signedBlock"
  using assms unfolding VerifyBlock_def block_verified_def
  by (auto simp: res_try_Inr_conv res_bind_Inr_conv need_Inr_conv signature_set_Inr split: if_splits)

end
