(* ===== verification/Delivery.thy ===== *)
theory Delivery
  imports GossipCrypto ContractStub
begin

text \<open>
  How blocks come from the orderer: \<^verbatim>\<open>core/comm/producer.go\<close> (connections), \<^verbatim>\<open>core/deliverservice\<close>
  (\<^verbatim>\<open>client.go\<close>, the client that connects again; \<^verbatim>\<open>requester.go\<close>, what it asks for; \<^verbatim>\<open>deliveryclient.go\<close>, the
  service of all channels) and \<^verbatim>\<open>core/deliverservice/blocksprovider\<close> (the loop that hands blocks on).

  Whatever takes time is an operation of \<open>dc_env\<close> on a world \<open>'w\<close>; \<open>busy\<close> lets another routine close the
  client meanwhile, if the world says so. Durations are in milliseconds. The loops have fuel.

  Results: only verified blocks are handed on (locale \<open>block_feed\<close>, \<open>delivered_verified\<close>); a stream that only
  refuses ends after eleven answers (\<open>refusals_end\<close>), and the pauses are bounded
  (\<open>status_pause\<close>, \<open>backoff_bounded\<close>). The client keeps its connection and its stream together and never
  blocks when it is closed (\<open>client_ok\<close>, \<open>try_sound\<close>), and does not give up before it is closed
  (\<open>try_error\<close>). Flaws: a block without a header stops the peer before it is checked
  (\<open>headerless_block_panics\<close>); a block that is refused is skipped and not asked for again
  (\<open>refused_block_skipped\<close>); a channel whose loop has ended cannot be started again (\<open>start_again_refused\<close>).
\<close>

section \<open>Connections\<close>

fun try_endpoints :: "(bytes \<Rightarrow> ('w, 'k) lsm) \<Rightarrow> bytes list \<Rightarrow> ('w, 'k) lsm" where
  "try_endpoints connect [] = fail (Err ''Could not connect to any of the endpoints'')"
| "try_endpoints connect (e # es) = lsm_try (connect e) (\<lambda>_. try_endpoints connect es) ret"

text \<open>The order of the endpoints is drawn at random: it is given by a list of indices.\<close>

definition shuffle_by :: "nat list \<Rightarrow> 'a list \<Rightarrow> 'a list" where
  "shuffle_by indices a = map (\<lambda>i. a ! i) indices"

definition NewConnection :: "(bytes \<Rightarrow> ('w, 'k) lsm) \<Rightarrow> ('w \<Rightarrow> nat list) \<Rightarrow> bytes list \<Rightarrow> ('w, 'k) lsm" where
  "NewConnection connect perm endpoints w = try_endpoints connect (shuffle_by (perm w) endpoints) w"

definition UpdateEndpoints :: "bytes list \<Rightarrow> bytes list \<Rightarrow> bytes list" where
  "UpdateEndpoints endpoints old = (if endpoints = [] then old else endpoints)"

section \<open>Messages\<close>

datatype orderer_status = ST_SUCCESS | ST_BAD_REQUEST | ST_FORBIDDEN | ST_other int

datatype DeliverResponse = DR_Status orderer_status | DR_Block "raw_block option" | DR_unknown

datatype SeekPosition = SeekOldest | SeekSpecified u64

record SeekInfo =
  sk_Start :: SeekPosition
  sk_Stop :: SeekPosition

definition seekOldest :: SeekInfo where
  "seekOldest = \<lparr>sk_Start = SeekOldest, sk_Stop = SeekSpecified (- 1)\<rparr>"

definition seekLatestFromCommitter :: "u64 \<Rightarrow> SeekInfo" where
  "seekLatestFromCommitter height = \<lparr>sk_Start = SeekSpecified height, sk_Stop = SeekSpecified (- 1)\<rparr>"

section \<open>The client\<close>

record 'k broadcastClient =
  bc_stopFlag :: bool
  bc_stopChan :: nat
  bc_conn :: "('k \<times> bool) option"
  bc_BlocksDeliverer :: "'k option"
  bc_ABC :: "'k option"

text \<open>The client with the counter of attempts, which all clients share, and the world.\<close>

record ('k, 'w) client_run = "'k broadcastClient" +
  bc_Attempt :: int
  bc_world :: 'w

record ('k, 'w) dc_env =
  dc_chainID :: bytes
  dc_NewConnection :: "('w, 'k) lsm"
  dc_Deliver :: "'k \<Rightarrow> ('w, unit) lsm"
  dc_StreamRecv :: "'k \<Rightarrow> ('w, DeliverResponse) lsm"
  dc_StreamSend :: "'k \<Rightarrow> Envelope \<Rightarrow> ('w, unit) lsm"
  dc_CloseConn :: "'k \<Rightarrow> 'w \<Rightarrow> 'w"
  dc_wait :: "int \<Rightarrow> 'w \<Rightarrow> 'w"
  dc_closing :: "'w \<Rightarrow> bool"
  dc_shouldRetry :: "int \<Rightarrow> int \<times> bool"
  dc_LedgerHeight :: "('w, u64) lsm"
  dc_CreateSignedEnvelope :: "bytes \<Rightarrow> SeekInfo \<Rightarrow> Envelope res"

definition NewBroadcastClient :: "'k broadcastClient" where
  "NewBroadcastClient = \<lparr>bc_stopFlag = False, bc_stopChan = 0, bc_conn = None, bc_BlocksDeliverer = None, bc_ABC = None\<rparr>"

text \<open>A connection is closed once.\<close>

definition connection_Close :: "('k, 'w) dc_env \<Rightarrow> ('k, 'w) client_run \<Rightarrow> ('k, 'w) client_run" where
  "connection_Close env s =
     (case bc_conn s of
        None \<Rightarrow> s
      | Some (k, closed) \<Rightarrow> if closed then s else s\<lparr>bc_conn := Some (k, True), bc_world := dc_CloseConn env k (bc_world s)\<rparr>)"

definition bc_Close :: "('k, 'w) dc_env \<Rightarrow> ('k, 'w) client_run \<Rightarrow> ('k, 'w) client_run" where
  "bc_Close env s =
     (if bc_stopFlag s then s else connection_Close env (s\<lparr>bc_stopFlag := True, bc_stopChan := bc_stopChan s + 1\<rparr>))"

definition bc_Disconnect :: "('k, 'w) dc_env \<Rightarrow> ('k, 'w) client_run \<Rightarrow> ('k, 'w) client_run" where
  "bc_Disconnect env s =
     (if bc_conn s = None then s else (connection_Close env s)\<lparr>bc_conn := None, bc_BlocksDeliverer := None\<rparr>)"

definition busy :: "('k, 'w) dc_env \<Rightarrow> ('w, 'a) lsm \<Rightarrow> (('k, 'w) client_run, 'a) lsm" where
  "busy env m s =
     (case m (bc_world s) of
        (r, w) \<Rightarrow> let s = s\<lparr>bc_world := w\<rparr> in (r, if dc_closing env w then bc_Close env s else s))"

definition bc_sleep :: "('k, 'w) dc_env \<Rightarrow> int \<Rightarrow> ('k, 'w) client_run \<Rightarrow> ('k, 'w) client_run" where
  "bc_sleep env d s =
     (let s = (if bc_stopChan s > 0 then s else snd (busy env (\<lambda>w. (Inr (), dc_wait env d w)) s)) in s\<lparr>bc_stopChan := bc_stopChan s - 1\<rparr>)"

datatype bc_action = ActRecv | ActSend Envelope

definition bc_act :: "('k, 'w) dc_env \<Rightarrow> bc_action \<Rightarrow> (('k, 'w) client_run, DeliverResponse option) lsm" where
  "bc_act env act s =
     (if bc_stopFlag s then (Inl (Err ''closing''), s)
      else
        lsm_bind (lift_res (deref (bc_BlocksDeliverer s))) (\<lambda>k.
          case act of
            ActRecv \<Rightarrow> lsm_bind (busy env (dc_StreamRecv env k)) (\<lambda>r. ret (Some r))
          | ActSend e \<Rightarrow> lsm_bind (busy env (dc_StreamSend env k e)) (\<lambda>_. ret None)) s)"

definition bc_afterConnect :: "(('k, 'w) client_run, unit) lsm \<Rightarrow> 'k \<Rightarrow> (('k, 'w) client_run, unit) lsm" where
  "bc_afterConnect onConnect k s =
     (let s = s\<lparr>bc_conn := Some (k, False), bc_BlocksDeliverer := Some k\<rparr> in
      if bc_stopFlag s then (Inl (Err ''closing''), s)
      else
        lsm_try onConnect (\<lambda>e s. (Inl (if bc_stopFlag s then Err ''closing'' else e), s))
          (\<lambda>_ s. (if bc_stopFlag s then Inl (Err ''closing'') else Inr (), s)) s)"

definition bc_connect :: "('k, 'w) dc_env \<Rightarrow> (('k, 'w) client_run, unit) lsm \<Rightarrow> (('k, 'w) client_run, unit) lsm" where
  "bc_connect env onConnect =
     lsm_bind (busy env (dc_NewConnection env)) (\<lambda>k s.
       lsm_try (busy env (dc_Deliver env k)) (\<lambda>e s. (Inl e, s\<lparr>bc_world := dc_CloseConn env k (bc_world s)\<rparr>))
         (\<lambda>_. lsm_try (bc_afterConnect onConnect k) (\<lambda>e s. (Inl e, bc_Disconnect env s)) ret) (s\<lparr>bc_ABC := Some k\<rparr>))"

definition bc_doAction :: "('k, 'w) dc_env \<Rightarrow> (('k, 'w) client_run, unit) lsm \<Rightarrow> bc_action \<Rightarrow> (('k, 'w) client_run, DeliverResponse option) lsm" where
  "bc_doAction env onConnect act s =
     lsm_bind (if bc_conn s = None then bc_connect env onConnect else ret ()) (\<lambda>_.
       lsm_try (bc_act env act) (\<lambda>e s. (Inl e, bc_Disconnect env s)) ret) s"

text \<open>On every new connection the blocks from the height of the ledger on are asked for.\<close>

definition RequestBlocks :: "('k, 'w) dc_env \<Rightarrow> (Envelope \<Rightarrow> (('k, 'w) client_run, unit) lsm) \<Rightarrow> (('k, 'w) client_run, unit) lsm" where
  "RequestBlocks env send =
     lsm_bind (busy env (dc_LedgerHeight env)) (\<lambda>height.
     lsm_bind (lift_res (dc_CreateSignedEnvelope env (dc_chainID env) (if height > 0 then seekLatestFromCommitter height else seekOldest))) send)"

text \<open>
  The request goes through the same loop as every action, so a failing request connects again from
  within.
\<close>

fun bc_try :: "nat \<Rightarrow> ('k, 'w) dc_env \<Rightarrow> bc_action \<Rightarrow> (('k, 'w) client_run, DeliverResponse option) lsm" where
  "bc_try 0 env act s = (Inl OutOfFuel, s)"
| "bc_try (Suc n) env act s =
     (if bc_stopFlag s then (Inl (Err ''Client is closing''), s)
      else
        lsm_try (bc_doAction env (RequestBlocks env (\<lambda>e. lsm_bind (bc_try n env (ActSend e)) (\<lambda>_. ret ()))) act)
          (\<lambda>_ s. let (backoffDuration, retry) = dc_shouldRetry env (bc_Attempt s) in
             if \<not> retry then (Inl (Err (if bc_stopFlag s then ''Client is closing'' else ''Attempts or elapsed time exhausted'')), s)
             else bc_try n env act (bc_sleep env backoffDuration s))
          (\<lambda>r s. (Inr r, s\<lparr>bc_Attempt := 0\<rparr>)) (s\<lparr>bc_Attempt := bc_Attempt s + 1\<rparr>))"

definition bc_Recv :: "nat \<Rightarrow> ('k, 'w) dc_env \<Rightarrow> (('k, 'w) client_run, DeliverResponse) lsm" where
  "bc_Recv n env = lsm_bind (bc_try n env ActRecv) (\<lambda>o'. lift_res (deref o'))"

definition bc_Send :: "nat \<Rightarrow> ('k, 'w) dc_env \<Rightarrow> Envelope \<Rightarrow> (('k, 'w) client_run, unit) lsm" where
  "bc_Send n env msg = lsm_bind (bc_try n env (ActSend msg)) (\<lambda>_. ret ())"

text \<open>The policy of the clients of channels: it always tries again.\<close>

definition backoffPolicy :: "int \<Rightarrow> int \<times> bool" where
  "backoffPolicy attemptNum =
     (let attemptNum = (if attemptNum \<ge> 10 then 6 else attemptNum) in (min (2 ^ nat attemptNum * 500) 3600000, True))"

section \<open>The loop that hands blocks on\<close>

record gossip_payload =
  gp_SeqNum :: u64
  gp_Data :: bytes

definition createPayload :: "u64 \<Rightarrow> bytes \<Rightarrow> gossip_payload" where
  "createPayload seqNum marshaledBlock = \<lparr>gp_SeqNum = seqNum, gp_Data = marshaledBlock\<rparr>"

record gossip_message =
  gg_Nonce :: u64
  gg_Tag :: bytes
  gg_Channel :: bytes
  gg_Payload :: gossip_payload

definition createGossipMsg :: "bytes \<Rightarrow> gossip_payload \<Rightarrow> gossip_message" where
  "createGossipMsg chainID payload = \<lparr>gg_Nonce = 0, gg_Tag = ''CHAN_AND_ORG'', gg_Channel = chainID, gg_Payload = payload\<rparr>"

record 's blocks_env =
  bp_chainID :: bytes
  bp_Recv :: "('s, DeliverResponse) lsm"
  bp_Close :: "'s \<Rightarrow> 's"
  bp_Disconnect :: "'s \<Rightarrow> 's"
  bp_isDone :: "'s \<Rightarrow> bool"
  bp_Sleep :: "int \<Rightarrow> 's \<Rightarrow> 's"
  bp_mcs :: mspMessageCryptoService
  bp_Marshal :: "raw_block \<Rightarrow> bytes res"
  bp_AddPayload :: "gossip_payload \<Rightarrow> 's \<Rightarrow> 's"
  bp_Gossip :: "gossip_message \<Rightarrow> 's \<Rightarrow> 's"

definition wrongStatusThreshold :: nat where
  "wrongStatusThreshold = 10"

definition MaxRetryDelay :: int where
  "MaxRetryDelay = 10000"

definition currDelay :: "nat \<Rightarrow> int" where
  "currDelay statusCounter = 2 ^ statusCounter * 100"

text \<open>One answer; the two counters afterwards, or none if the loop ends.\<close>

definition on_status :: "'s blocks_env \<Rightarrow> orderer_status \<Rightarrow> nat \<times> nat \<Rightarrow> 's \<Rightarrow> (nat \<times> nat) option \<times> 's" where
  "on_status env t = (\<lambda>(errorStatusCounter, statusCounter) s.
     if t = ST_SUCCESS then (None, s)
     else
       let errorStatusCounter = (if t = ST_BAD_REQUEST \<or> t = ST_FORBIDDEN then errorStatusCounter + 1 else 0) in
       if errorStatusCounter > wrongStatusThreshold then (None, s)
       else
         (Some (errorStatusCounter, if currDelay statusCounter < MaxRetryDelay then statusCounter + 1 else statusCounter),
          bp_Disconnect env (bp_Sleep env (min MaxRetryDelay (currDelay statusCounter)) s)))"

definition on_block :: "'s blocks_env \<Rightarrow> raw_block option \<Rightarrow> ('s, unit) lsm" where
  "on_block env b =
     lsm_bind (lift_res (deref b)) (\<lambda>block.
     lsm_bind (lift_res (deref (rb_Header block))) (\<lambda>header.
     let seqNum = bh_Number header in
     lsm_try (lift_res (bp_Marshal env block)) (\<lambda>_. ret ()) (\<lambda>marshaledBlock.
     lsm_try (lift_res (VerifyBlock (bp_mcs env) (bp_chainID env) seqNum marshaledBlock)) (\<lambda>_. ret ()) (\<lambda>_ s.
       let payload = createPayload seqNum marshaledBlock in
       (Inr (), bp_Gossip env (createGossipMsg (bp_chainID env) payload) (bp_AddPayload env payload s))))))"

fun deliver_loop :: "nat \<Rightarrow> 's blocks_env \<Rightarrow> nat \<times> nat \<Rightarrow> ('s, unit) lsm" where
  "deliver_loop 0 env c s = (Inl OutOfFuel, s)"
| "deliver_loop (Suc n) env c s =
     (if bp_isDone env s then (Inr (), s)
      else
        lsm_try (bp_Recv env) (\<lambda>_. ret ()) (\<lambda>msg s.
          case msg of
            DR_Status t \<Rightarrow> (case on_status env t c s of (None, s) \<Rightarrow> (Inr (), s) | (Some c, s) \<Rightarrow> deliver_loop n env c s)
          | DR_Block b \<Rightarrow> lsm_bind (on_block env b) (\<lambda>_. deliver_loop n env (0, 0)) s
          | DR_unknown \<Rightarrow> (Inr (), s)) s)"

definition DeliverBlocks :: "nat \<Rightarrow> 's blocks_env \<Rightarrow> ('s, unit) lsm" where
  "DeliverBlocks n env s = (case deliver_loop n env (0, 0) s of (r, s) \<Rightarrow> (r, bp_Close env s))"

section \<open>The service of all channels\<close>

record dsConfig =
  co_Endpoints :: "bytes list"
  co_Gossip :: bool
  co_ABCFactory :: bool
  co_ConnFactory :: bool
  co_CryptoSvc :: bool

text \<open>Which parts of a configuration are present.\<close>

definition validateConfiguration :: "dsConfig \<Rightarrow> unit res" where
  "validateConfiguration conf =
     (if co_Endpoints conf = [] then Inl (Err ''No endpoints specified'')
      else if \<not> co_Gossip conf then Inl (Err ''No gossip provider specified'')
      else if \<not> co_ABCFactory conf then Inl (Err ''No AtomicBroadcast factory specified'')
      else if \<not> co_ConnFactory conf then Inl (Err ''No connection factory specified'')
      else if \<not> co_CryptoSvc conf then Inl (Err ''No crypto service specified'')
      else Inr ())"

record blocksProvider =
  pv_chainID :: bytes
  pv_client :: nat
  pv_done :: bool

text \<open>Providers and clients are objects: the maps hold their addresses. A provider in \<open>ds_providers\<close> has its loop running or ended.\<close>

record ('k, 'w) deliverService =
  ds_blockProviders :: "(bytes, nat) gomap"
  ds_broadcastClients :: "(bytes, nat) gomap"
  ds_stopping :: bool
  ds_providers :: "blocksProvider list"
  ds_clients :: "'k broadcastClient list"
  ds_Attempt :: int
  ds_world :: 'w

definition run_of :: "nat \<Rightarrow> ('k, 'w) deliverService \<Rightarrow> ('k, 'w) client_run" where
  "run_of i d = broadcastClient.extend (ds_clients d ! i) (client_run.fields (ds_Attempt d) (ds_world d))"

definition put_run :: "nat \<Rightarrow> ('k, 'w) client_run \<Rightarrow> ('k, 'w) deliverService \<Rightarrow> ('k, 'w) deliverService" where
  "put_run i s d = d\<lparr>ds_clients := (ds_clients d)[i := broadcastClient.truncate s], ds_Attempt := bc_Attempt s, ds_world := bc_world s\<rparr>"

definition provider_Stop :: "('k, 'w) dc_env \<Rightarrow> nat \<Rightarrow> ('k, 'w) deliverService \<Rightarrow> ('k, 'w) deliverService" where
  "provider_Stop env p d =
     (let i = pv_client (ds_providers d ! p); d = d\<lparr>ds_providers := (ds_providers d)[p := (ds_providers d ! p)\<lparr>pv_done := True\<rparr>]\<rparr> in
      put_run i (bc_Close env (run_of i d)) d)"

definition StartDeliverForChannel :: "bytes \<Rightarrow> (('k, 'w) deliverService, unit) lsm" where
  "StartDeliverForChannel chainID d =
     (if ds_stopping d then (Inl (Err (''Delivery service is stopping cannot join a new channel '' @ chainID)), d)
      else if gm_get (ds_blockProviders d) chainID \<noteq> None then
        (Inl (Err (''Delivery service - block provider already exists for '' @ chainID @ '' found, can't start delivery'')), d)
      else
        let i = length (ds_clients d); p = length (ds_providers d) in
        (Inr (), d\<lparr>ds_clients := ds_clients d @ [NewBroadcastClient], ds_broadcastClients := gm_put chainID i (ds_broadcastClients d),
           ds_providers := ds_providers d @ [\<lparr>pv_chainID = chainID, pv_client = i, pv_done = False\<rparr>], ds_blockProviders := gm_put chainID p (ds_blockProviders d)\<rparr>))"

definition StopDeliverForChannel :: "('k, 'w) dc_env \<Rightarrow> bytes \<Rightarrow> (('k, 'w) deliverService, unit) lsm" where
  "StopDeliverForChannel env chainID d =
     (if ds_stopping d then (Inl (Err (''Delivery service is stopping, cannot stop delivery for channel '' @ chainID)), d)
      else
        (case gm_get (ds_blockProviders d) chainID of
           Some p \<Rightarrow> (Inr (), (provider_Stop env p d)\<lparr>ds_blockProviders := gm_del chainID (ds_blockProviders d)\<rparr>)
         | None \<Rightarrow> (Inl (Err (''Delivery service - no block provider for '' @ chainID @ '' found, can't stop delivery'')), d)))"

definition ds_Stop :: "('k, 'w) dc_env \<Rightarrow> ('k, 'w) deliverService \<Rightarrow> ('k, 'w) deliverService" where
  "ds_Stop env d = foldl (\<lambda>d (_, p). provider_Stop env p d) (d\<lparr>ds_stopping := True\<rparr>) (ds_blockProviders d)"

record BroadcastResponse =
  br_Status :: orderer_status
  br_Data :: slice

definition usable :: "'k broadcastClient list \<Rightarrow> nat option \<Rightarrow> bool" where
  "usable clients i = (case i of None \<Rightarrow> False | Some i \<Rightarrow> bc_ABC (clients ! i) \<noteq> None \<and> \<not> bc_stopFlag (clients ! i))"

text \<open>A client that only connects, for a message to the orderer.\<close>

definition connect_for_message :: "('k, 'w) dc_env \<Rightarrow> bytes \<Rightarrow> (('k, 'w) deliverService, unit) lsm" where
  "connect_for_message env chainID d =
     (let i = length (ds_clients d); d = d\<lparr>ds_clients := ds_clients d @ [NewBroadcastClient]\<rparr> in
      case drop_error (bc_connect env (ret ())) (run_of i d) of
        (r, s) \<Rightarrow> (r, (put_run i s d)\<lparr>ds_broadcastClients := gm_put chainID i (ds_broadcastClients d)\<rparr>))"

definition send_message :: "('k \<Rightarrow> ('w, BroadcastResponse) lsm) \<Rightarrow> bytes \<Rightarrow> (('k, 'w) deliverService, BroadcastResponse option \<times> error option) lsm" where
  "send_message processEnvelope chainID d =
     (case gm_get (ds_broadcastClients d) chainID of
        None \<Rightarrow> (Inr (None, Some (Err ''client is nil'')), d)
      | Some i \<Rightarrow>
          let without = d\<lparr>ds_broadcastClients := gm_del chainID (ds_broadcastClients d)\<rparr> in
          (case bc_ABC (ds_clients d ! i) of
             None \<Rightarrow> (Inr (Some \<lparr>br_Status = ST_BAD_REQUEST, br_Data = None\<rparr>, None), without)
           | Some k \<Rightarrow>
               if bc_stopFlag (ds_clients d ! i) then (Inr (Some \<lparr>br_Status = ST_BAD_REQUEST, br_Data = None\<rparr>, None), without)
               else
                 (case processEnvelope k (ds_world d) of
                    (Inr res, w) \<Rightarrow> (Inr (Some res, None), d\<lparr>ds_world := w\<rparr>)
                  | (Inl (Err e), w) \<Rightarrow> (Inr (None, Some (Err e)), without\<lparr>ds_world := w\<rparr>)
                  | (Inl p, w) \<Rightarrow> (Inl p, d\<lparr>ds_world := w\<rparr>))))"

definition SendToOrderer ::
    "('k, 'w) dc_env \<Rightarrow> ('k \<Rightarrow> ('w, BroadcastResponse) lsm) \<Rightarrow> bytes \<Rightarrow> (('k, 'w) deliverService, BroadcastResponse option \<times> error option) lsm" where
  "SendToOrderer env processEnvelope chainID d =
     (if usable (ds_clients d) (gm_get (ds_broadcastClients d) chainID) then send_message processEnvelope chainID d
      else if ds_Attempt d > 3 then (Inr (None, Some (Err ''client is nil'')), d)
      else lsm_bind (connect_for_message env chainID) (\<lambda>_. send_message processEnvelope chainID) d)"

section \<open>Connections that succeed\<close>

lemma try_endpoints_ok:
  assumes "try_endpoints connect es w = (Inr k, w')"
  shows "\<exists>e \<in> set es. \<exists>v. connect e v = (Inr k, w')"
  using assms by (induction es arbitrary: w) (auto simp: lsm_try_Inr)

lemma try_endpoints_total:
  assumes "e \<in> set es" "\<And>v. \<exists>k v'. connect e v = (Inr k, v')" "\<And>e v. e \<in> set es \<Longrightarrow> no_panic (fst (connect e v))"
  shows "\<exists>k w'. try_endpoints connect es w = (Inr k, w')"
  using assms
proof (induction es arbitrary: w)
  case (Cons e' es)
  obtain r v where c: "connect e' w = (r, v)" by fastforce
  have "no_panic r" using Cons.prems(3) [of e' w] c by simp
  then show ?case
  proof (cases rule: no_panic_cases)
    case (ok k)
    then show ?thesis using c by simp
  next
    case (err m)
    then have "e \<noteq> e'" using Cons.prems(2) [of w] c by auto
    then show ?thesis using Cons.IH [of v] Cons.prems err c by (simp add: lsm_try_def)
  qed
qed simp

text \<open>One endpoint that accepts is enough, wherever the shuffling puts it.\<close>

lemma NewConnection_total:
  assumes "set (perm w) = {..<length endpoints}" "e \<in> set endpoints"
    and "\<And>v. \<exists>k v'. connect e v = (Inr k, v')" "\<And>e v. e \<in> set endpoints \<Longrightarrow> no_panic (fst (connect e v))"
  shows "\<exists>k w'. NewConnection connect perm endpoints w = (Inr k, w')"
proof -
  have "set (shuffle_by (perm w) endpoints) = set endpoints"
    unfolding shuffle_by_def set_map assms(1) lessThan_atLeast0 by (simp add: nth_image)
  then show ?thesis unfolding NewConnection_def using try_endpoints_total [of e _ connect] assms(2-4) by blast
qed

section \<open>Pauses and refusals\<close>

lemma backoff_bounded: "fst (backoffPolicy n) \<le> 256000" "n \<ge> 10 \<Longrightarrow> backoffPolicy n = (32000, True)"
proof -
  have "(2::int) ^ nat n \<le> 2 ^ 9" if "\<not> n \<ge> 10" using that by (intro power_increasing) auto
  then show "fst (backoffPolicy n) \<le> 256000" by (cases "n \<ge> 10") (simp_all add: backoffPolicy_def)
  show "n \<ge> 10 \<Longrightarrow> backoffPolicy n = (32000, True)" by (simp add: backoffPolicy_def)
qed

lemma status_pause:
  assumes "on_status env t (e, c) s = (Some (e', c'), s')" "c \<le> 7"
  shows "e' \<le> wrongStatusThreshold \<and> c' \<le> 7 \<and> s' = bp_Disconnect env (bp_Sleep env (min MaxRetryDelay (currDelay c)) s)"
proof -
  have "c' \<le> c + 1" "c = 7 \<Longrightarrow> c' = 7" "e' \<le> wrongStatusThreshold" "s' = bp_Disconnect env (bp_Sleep env (min MaxRetryDelay (currDelay c)) s)"
    using assms(1) by (auto simp: on_status_def Let_def MaxRetryDelay_def currDelay_def split: if_splits)
  then show ?thesis using assms(2) by (cases "c = 7") auto
qed

text \<open>An orderer that refuses every request is given up after eleven refusals.\<close>

lemma refusals_end:
  assumes "\<And>s. \<exists>t s'. bp_Recv env s = (Inr (DR_Status t), s') \<and> t \<in> {ST_BAD_REQUEST, ST_FORBIDDEN}" "e + n = wrongStatusThreshold"
  shows "\<exists>s'. deliver_loop (Suc n) env (e, c) s = (Inr (), s')"
  using assms(2)
proof (induction n arbitrary: e c s)
  case 0
  obtain t s' where "bp_Recv env s = (Inr (DR_Status t), s')" "t \<in> {ST_BAD_REQUEST, ST_FORBIDDEN}" using assms(1) by blast
  then show ?case using 0 by (auto simp: on_status_def)
next
  case (Suc n)
  obtain t s' where r: "bp_Recv env s = (Inr (DR_Status t), s')" "t \<in> {ST_BAD_REQUEST, ST_FORBIDDEN}" using assms(1) by blast
  then obtain c' s1 where "on_status env t (e, c) s' = (Some (Suc e, c'), s1)" using Suc.prems by (auto simp: on_status_def Let_def)
  moreover obtain s2 where "deliver_loop (Suc n) env (Suc e, c') s1 = (Inr (), s2)" using Suc.IH [of "Suc e" c' s1] Suc.prems by auto
  ultimately show ?case using r(1) by (simp only: deliver_loop.simps(2) [of "Suc n"]) (simp del: deliver_loop.simps)
qed

section \<open>Blocks that are handed on\<close>

lemma headerless_block_panics:
  assumes "bp_Recv env s = (Inr (DR_Block (Some b)), s')" "rb_Header b = None" "\<not> bp_isDone env s"
  shows "deliver_loop (Suc n) env c s = (Inl (Panic ''nil pointer dereference''), s')"
  using assms by (simp add: on_block_def)

text \<open>The loop goes on with the next block as if nothing had happened.\<close>

lemma refused_block_skipped:
  assumes "bp_Recv env s = (Inr (DR_Block (Some b)), s')" "rb_Header b = Some h" "\<not> bp_isDone env s"
    and "bp_Marshal env b = Inr m" "VerifyBlock (bp_mcs env) (bp_chainID env) (bh_Number h) m = Inl (Err e)"
  shows "deliver_loop (Suc n) env c s = deliver_loop n env (0, 0) s'"
proof -
  have "on_block env (Some b) s' = (Inr (), s')" using assms(2,4,5) by (simp add: on_block_def lsm_bind_def lsm_try_def Let_def)
  then show ?thesis using assms(1,3) by simp
qed

text \<open>
  \<open>added\<close> and \<open>gossiped\<close> are what the loop has handed on, here and to other peers: nothing but the two
  operations for it changes them.
\<close>

locale block_feed =
  fixes env :: "'s blocks_env" and added :: "'s \<Rightarrow> gossip_payload list" and gossiped :: "'s \<Rightarrow> gossip_message list"
  assumes Recv: "added (snd (bp_Recv env s)) = added s \<and> gossiped (snd (bp_Recv env s)) = gossiped s"
    and Pause: "added (bp_Sleep env d s) = added s \<and> gossiped (bp_Sleep env d s) = gossiped s"
    and Disconnect: "added (bp_Disconnect env s) = added s \<and> gossiped (bp_Disconnect env s) = gossiped s"
    and Close: "added (bp_Close env s) = added s \<and> gossiped (bp_Close env s) = gossiped s"
    and AddPayload: "added (bp_AddPayload env p s) = added s @ [p] \<and> gossiped (bp_AddPayload env p s) = gossiped s"
    and Gossip: "added (bp_Gossip env m s) = added s \<and> gossiped (bp_Gossip env m s) = gossiped s @ [m]"
begin

definition handed_on :: "'s \<Rightarrow> 's \<Rightarrow> bool" where
  "handed_on s s' \<longleftrightarrow> (\<exists>ps. added s' = added s @ ps \<and> gossiped s' = gossiped s @ map (createGossipMsg (bp_chainID env)) ps
     \<and> (\<forall>p \<in> set ps. block_verified (bp_mcs env) (bp_chainID env) (gp_SeqNum p) (gp_Data p)))"

lemma handed_onI:
  assumes "added s' = added s" "gossiped s' = gossiped s"
  shows "handed_on s s'"
  unfolding handed_on_def by (rule exI [of _ "[]"]) (simp add: assms)

lemma handed_on_trans: "handed_on s s1 \<Longrightarrow> handed_on s1 s2 \<Longrightarrow> handed_on s s2"
proof -
  assume "handed_on s s1" "handed_on s1 s2"
  then obtain ps qs where "added s1 = added s @ ps" "gossiped s1 = gossiped s @ map (createGossipMsg (bp_chainID env)) ps"
      "\<forall>p \<in> set ps. block_verified (bp_mcs env) (bp_chainID env) (gp_SeqNum p) (gp_Data p)"
      "added s2 = added s1 @ qs" "gossiped s2 = gossiped s1 @ map (createGossipMsg (bp_chainID env)) qs"
      "\<forall>p \<in> set qs. block_verified (bp_mcs env) (bp_chainID env) (gp_SeqNum p) (gp_Data p)"
    unfolding handed_on_def by blast
  then show "handed_on s s2" unfolding handed_on_def by (intro exI [of _ "ps @ qs"]) auto
qed

lemma on_status_hands: "handed_on s (snd (on_status env t c s))"
  by (rule handed_onI; cases c) (auto simp: on_status_def Let_def Pause Disconnect)

lemma on_block_hands: "handed_on s (snd (on_block env b s))"
proof (cases "snd (on_block env b s) = s")
  case True
  then show ?thesis using handed_onI [of s s] by simp
next
  case False
  then obtain block h m where b: "b = Some block" "rb_Header block = Some h" "bp_Marshal env block = Inr m"
      "VerifyBlock (bp_mcs env) (bp_chainID env) (bh_Number h) m = Inr ()"
    by (auto simp: on_block_def lsm_bind_def lsm_try_def deref_def lift_res_def Let_def split: option.splits sum.splits error.splits)
  let ?p = "createPayload (bh_Number h) m"
  have "snd (on_block env b s) = bp_Gossip env (createGossipMsg (bp_chainID env) ?p) (bp_AddPayload env ?p s)"
    by (simp add: on_block_def b Let_def)
  moreover have "block_verified (bp_mcs env) (bp_chainID env) (bh_Number h) m" using VerifyBlock_ok b(4) .
  ultimately show ?thesis unfolding handed_on_def by (intro exI [of _ "[?p]"]) (simp add: AddPayload Gossip createPayload_def)
qed

lemma loop_hands: "handed_on s (snd (deliver_loop n env c s))"
proof (induction n arbitrary: c s)
  case (Suc n)
  have recv: "handed_on s (snd (bp_Recv env s))" by (rule handed_onI) (simp_all add: Recv)
  show ?case
  proof (cases "bp_isDone env s")
    case False
    show ?thesis
    proof (cases "bp_Recv env s")
      case (Pair r s1)
      then have s1: "handed_on s s1" using recv by simp
      show ?thesis
      proof (cases "\<exists>msg. r = Inr msg")
        case True
        then obtain msg where msg: "bp_Recv env s = (Inr msg, s1)" using Pair by blast
        have st: "handed_on s1 (snd (case on_status env t c s1 of (None, s) \<Rightarrow> (Inr (), s) | (Some c, s) \<Rightarrow> deliver_loop n env c s))" for t
          using on_status_hands [of s1 t c] Suc.IH handed_on_trans by (fastforce split: prod.splits option.splits)
        have bl: "handed_on s1 (snd (lsm_bind (on_block env b) (\<lambda>_. deliver_loop n env (0, 0)) s1))" for b
          using on_block_hands [of s1 b] Suc.IH handed_on_trans by (fastforce simp: lsm_bind_def split: prod.splits sum.splits)
        have "handed_on s1 (snd (deliver_loop (Suc n) env c s))"
          using False msg st bl handed_onI [of s1 s1] by (cases msg) simp_all
        then show ?thesis by (rule handed_on_trans [OF s1])
      next
        case no: False
        then show ?thesis using False Pair s1 by (cases r) (auto simp: lsm_try_def split: error.splits)
      qed
    qed
  qed (simp add: handed_onI)
qed (simp add: handed_onI)

lemma delivered_verified: "handed_on s (snd (DeliverBlocks n env s))"
  using loop_hands [of s n "(0, 0)"] handed_on_trans [OF _ handed_onI [OF conjunct1 [OF Close] conjunct2 [OF Close]]]
  by (fastforce simp: DeliverBlocks_def split: prod.splits)

end

section \<open>The client stays in one piece\<close>

text \<open>
  The stream is there if and only if the connection is, and there is room in the channel \<^verbatim>\<open>stopChan\<close> for
  the one token that is sent, so that closing never waits.
\<close>

definition client_ok :: "('k, 'w) client_run \<Rightarrow> bool" where
  "client_ok s \<longleftrightarrow> (bc_conn s = None \<longleftrightarrow> bc_BlocksDeliverer s = None) \<and> bc_stopChan s \<le> 1 \<and> (\<not> bc_stopFlag s \<longrightarrow> bc_stopChan s = 0)"

lemma client_ok_Close: "client_ok s \<Longrightarrow> client_ok (bc_Close env s)" "bc_conn s \<noteq> None \<Longrightarrow> bc_conn (bc_Close env s) \<noteq> None"
  by (auto simp: client_ok_def bc_Close_def connection_Close_def split: option.splits)

lemma client_ok_Disconnect: "client_ok s \<Longrightarrow> client_ok (bc_Disconnect env s)"
  by (auto simp: client_ok_def bc_Disconnect_def connection_Close_def split: option.splits)

lemma client_ok_busy:
  assumes "client_ok s"
  shows "client_ok (snd (busy env m s))" "bc_conn s \<noteq> None \<Longrightarrow> bc_conn (snd (busy env m s)) \<noteq> None"
  using assms client_ok_Close [of "s\<lparr>bc_world := snd (m (bc_world s))\<rparr>" env] by (auto simp: busy_def Let_def client_ok_def split: prod.splits)

lemma client_ok_sleep: "client_ok s \<Longrightarrow> client_ok (bc_sleep env d s)"
proof -
  assume ok: "client_ok s"
  have "client_ok (s1\<lparr>bc_stopChan := bc_stopChan s1 - 1\<rparr>)" if "client_ok s1" for s1 :: "('a, 'b) client_run" using that by (auto simp: client_ok_def)
  then show ?thesis using ok client_ok_busy(1) [OF ok, of env "\<lambda>w. (Inr (), dc_wait env d w)"] by (auto simp: bc_sleep_def Let_def)
qed

text \<open>From a client in one piece, \<open>m\<close> leaves one, does not panic, and if it succeeds leaves a connection.\<close>

definition sound :: "(('k, 'w) client_run \<Rightarrow> bool) \<Rightarrow> (('k, 'w) client_run, 'a) lsm \<Rightarrow> bool" where
  "sound P m \<longleftrightarrow> (\<forall>s. client_ok s \<and> P s \<longrightarrow> client_ok (snd (m s)) \<and> (\<forall>p. fst (m s) \<noteq> Inl (Panic p)) \<and> (\<forall>x. fst (m s) = Inr x \<longrightarrow> bc_conn (snd (m s)) \<noteq> None))"

abbreviation connected :: "('k, 'w) client_run \<Rightarrow> bool" where
  "connected s \<equiv> bc_conn s \<noteq> None"

lemma soundD:
  assumes "sound P m" "client_ok s" "P s" "m s = (r, s')"
  shows "client_ok s'" "r \<noteq> Inl (Panic p)" "r = Inr x \<Longrightarrow> bc_conn s' \<noteq> None"
proof -
  have "client_ok (snd (m s)) \<and> (\<forall>p. fst (m s) \<noteq> Inl (Panic p)) \<and> (\<forall>x. fst (m s) = Inr x \<longrightarrow> bc_conn (snd (m s)) \<noteq> None)"
    using assms(1-3) unfolding sound_def by blast
  then show "client_ok s'" "r \<noteq> Inl (Panic p)" "r = Inr x \<Longrightarrow> bc_conn s' \<noteq> None" using assms(4) by simp_all
qed

lemma soundI:
  assumes "\<And>s r s'. client_ok s \<Longrightarrow> P s \<Longrightarrow> m s = (r, s') \<Longrightarrow> client_ok s' \<and> (\<forall>p. r \<noteq> Inl (Panic p)) \<and> (\<forall>x. r = Inr x \<longrightarrow> bc_conn s' \<noteq> None)"
  shows "sound P m"
  unfolding sound_def using assms by (metis prod.collapse)

lemma sound_busy:
  assumes "\<And>w. no_panic (fst (m w))"
  shows "sound connected (busy env m)"
proof (rule soundI)
  fix s :: "(_, _) client_run" and r s'
  assume s: "client_ok s" "connected s" "busy env m s = (r, s')"
  then have "r = fst (m (bc_world s))" by (auto simp: busy_def Let_def split: prod.splits)
  then have "\<forall>p. r \<noteq> Inl (Panic p)" using assms [of "bc_world s"] by (auto simp: no_panic_def)
  then show "client_ok s' \<and> (\<forall>p. r \<noteq> Inl (Panic p)) \<and> (\<forall>x. r = Inr x \<longrightarrow> bc_conn s' \<noteq> None)"
    using client_ok_busy [OF s(1), of env m] s(2,3) by simp
qed

lemma sound_bind:
  assumes "sound P m" "\<And>x. sound connected (f x)"
  shows "sound P (lsm_bind m f)"
proof (rule soundI)
  fix s :: "(_, _) client_run" and r s'
  assume s: "client_ok s" "P s" "lsm_bind m f s = (r, s')"
  obtain r1 s1 where m: "m s = (r1, s1)" by fastforce
  note d = soundD [OF assms(1) s(1,2) m]
  show "client_ok s' \<and> (\<forall>p. r \<noteq> Inl (Panic p)) \<and> (\<forall>x. r = Inr x \<longrightarrow> bc_conn s' \<noteq> None)"
  proof (cases r1)
    case (Inl e)
    then show ?thesis using s(3) m d by auto
  next
    case (Inr x)
    then have "f x s1 = (r, s')" using s(3) m by simp
    from soundD [OF assms(2) d(1) _ this] d(3) Inr show ?thesis by auto
  qed
qed

lemma sound_ret: "sound connected (ret x)"
  by (rule soundI) (auto simp: lift_res_def)

lemma sound_lift: "no_panic r \<Longrightarrow> sound connected (lift_res r)"
  by (rule soundI) (auto simp: lift_res_def no_panic_def)

text \<open>An error is passed on after something that keeps the client in one piece.\<close>

lemma sound_cleanup:
  assumes "sound P m" "\<And>s. client_ok s \<Longrightarrow> client_ok (g s)" "\<And>e s. \<exists>x. h e s = (Inl (Err x), g s)"
    "\<And>x s. client_ok s \<Longrightarrow> connected s \<Longrightarrow> client_ok (snd (f x s)) \<and> connected (snd (f x s)) \<and> (\<forall>p. fst (f x s) \<noteq> Inl (Panic p))"
  shows "sound P (lsm_try m h f)"
proof (rule soundI)
  fix s :: "(_, _) client_run" and r s'
  assume s: "client_ok s" "P s" "lsm_try m h f s = (r, s')"
  obtain r1 s1 where m: "m s = (r1, s1)" by fastforce
  note d = soundD [OF assms(1) s(1,2) m]
  show "client_ok s' \<and> (\<forall>p. r \<noteq> Inl (Panic p)) \<and> (\<forall>x. r = Inr x \<longrightarrow> bc_conn s' \<noteq> None)"
  proof (cases r1)
    case (Inl e)
    show ?thesis
    proof (cases e)
      case (Err x)
      then show ?thesis using s(3) m Inl assms(2) [OF d(1)] assms(3) [of "Err x" s1] by auto
    qed (use s(3) m Inl d in \<open>auto simp: lsm_try_def\<close>)
  next
    case (Inr x)
    then show ?thesis using s(3) m assms(4) [OF d(1), of x] d(3) by (cases "f x s1") auto
  qed
qed

locale sound_net =
  fixes env :: "('k, 'w) dc_env"
  assumes net: "no_panic (fst (dc_NewConnection env w))" "no_panic (fst (dc_Deliver env k w))" "no_panic (fst (dc_StreamRecv env k w))"
      "no_panic (fst (dc_StreamSend env k e w))" "no_panic (fst (dc_LedgerHeight env w))"
    and envelope: "no_panic (dc_CreateSignedEnvelope env c i)"
begin

lemma busy_no_panic: "no_panic (fst (m (bc_world s))) \<Longrightarrow> busy env m s = (r, s') \<Longrightarrow> r \<noteq> Inl (Panic p)"
  by (auto simp: busy_def Let_def no_panic_def split: prod.splits)

lemma sound_act: "sound connected (bc_act env act)"
proof (rule soundI)
  fix s :: "('k, 'w) client_run" and r s'
  assume s: "client_ok s" "connected s" "bc_act env act s = (r, s')"
  then obtain k where k: "bc_BlocksDeliverer s = Some k" by (auto simp: client_ok_def)
  have "sound connected (case act of ActRecv \<Rightarrow> lsm_bind (busy env (dc_StreamRecv env k)) (\<lambda>r. ret (Some r)) | ActSend e \<Rightarrow> lsm_bind (busy env (dc_StreamSend env k e)) (\<lambda>_. ret None))"
    by (cases act) (simp_all only: bc_action.case, (intro sound_bind sound_busy sound_ret net)+)
  from soundD [OF this s(1,2)] show "client_ok s' \<and> (\<forall>p. r \<noteq> Inl (Panic p)) \<and> (\<forall>x. r = Inr x \<longrightarrow> connected s')"
    using s k by (auto simp: bc_act_def split: if_splits)
qed

lemma sound_afterConnect:
  fixes k :: 'k and onConnect :: "(('k, 'w) client_run, unit) lsm"
  assumes "sound connected onConnect"
  shows "sound (\<lambda>_. True) (bc_afterConnect onConnect k)"
proof (rule soundI)
  fix s :: "('k, 'w) client_run" and r s'
  let ?s = "s\<lparr>bc_conn := Some (k, False), bc_BlocksDeliverer := Some k\<rparr>"
  assume s: "client_ok s" "bc_afterConnect onConnect k s = (r, s')"
  obtain r1 s1 where on: "onConnect ?s = (r1, s1)" by fastforce
  have ok: "client_ok ?s" using s(1) by (auto simp: client_ok_def)
  from soundD [OF assms ok _ on] have d: "client_ok s1" "\<And>p. r1 \<noteq> Inl (Panic p)" "\<And>x. r1 = Inr x \<Longrightarrow> connected s1" by simp_all
  show "client_ok s' \<and> (\<forall>p. r \<noteq> Inl (Panic p)) \<and> (\<forall>x. r = Inr x \<longrightarrow> connected s')"
    using s(2) on ok d by (auto simp: bc_afterConnect_def Let_def lsm_try_def split: if_splits sum.splits error.splits)
qed

lemma sound_connect:
  assumes "sound connected onConnect"
  shows "sound (\<lambda>_. True) (bc_connect env onConnect)"
proof (rule soundI)
  fix s :: "('k, 'w) client_run" and r s'
  assume s: "client_ok s" "bc_connect env onConnect s = (r, s')"
  obtain r1 s1 where new: "busy env (dc_NewConnection env) s = (r1, s1)" by fastforce
  have s1: "client_ok s1" using client_ok_busy(1) [OF s(1), of env "dc_NewConnection env"] new by simp
  show "client_ok s' \<and> (\<forall>p. r \<noteq> Inl (Panic p)) \<and> (\<forall>x. r = Inr x \<longrightarrow> connected s')"
  proof (cases r1)
    case (Inl e)
    then show ?thesis using s(2) new s1 busy_no_panic [OF net(1) new] by (auto simp: bc_connect_def)
  next
    case (Inr k)
    let ?s1 = "s1\<lparr>bc_ABC := Some k\<rparr>"
    obtain r2 s2 where del: "busy env (dc_Deliver env k) ?s1 = (r2, s2)" by fastforce
    have "client_ok ?s1" using s1 by (simp add: client_ok_def)
    then have s2: "client_ok s2" using client_ok_busy(1) [of ?s1 env "dc_Deliver env k"] del by simp
    have closed: "client_ok (s2\<lparr>bc_world := w\<rparr>)" for w using s2 by (simp add: client_ok_def)
    let ?after = "lsm_try (bc_afterConnect onConnect k) (\<lambda>e s. (Inl e, bc_Disconnect env s)) ret"
    have conv: "?after = lsm_try (bc_afterConnect onConnect k) (\<lambda>e s. (Inl (Err (err_msg e)), bc_Disconnect env s)) ret"
      by (rule ext) (simp add: lsm_try_def err_msg_def split: prod.splits sum.splits error.splits)
    have after: "sound (\<lambda>_. True) ?after"
      unfolding conv by (rule sound_cleanup [OF sound_afterConnect [OF assms], where g = "bc_Disconnect env"]) (auto simp: client_ok_Disconnect lift_res_def)
    have run: "lsm_try (busy env (dc_Deliver env k)) (\<lambda>e s. (Inl e, s\<lparr>bc_world := dc_CloseConn env k (bc_world s)\<rparr>)) (\<lambda>_. ?after) ?s1 = (r, s')"
      using s(2) new Inr unfolding bc_connect_def by simp
    show ?thesis
    proof (cases r2)
      case (Inl e)
      then show ?thesis using run del s2 closed busy_no_panic [OF net(2) del] by (cases e) (auto simp: lsm_try_def)
    next
      case (Inr u)
      then have "?after s2 = (r, s')" using run del by (simp only: lsm_try_simps(1))
      from soundD [OF after s2 TrueI this] show ?thesis by blast
    qed
  qed
qed

lemma sound_doAction:
  assumes "sound connected onConnect"
  shows "sound (\<lambda>_. True) (bc_doAction env onConnect act)"
proof -
  have conv: "lsm_try (bc_act env act) (\<lambda>e s. (Inl e, bc_Disconnect env s)) ret = lsm_try (bc_act env act) (\<lambda>e s. (Inl (Err (err_msg e)), bc_Disconnect env s)) ret"
    by (rule ext) (simp add: lsm_try_def err_msg_def split: prod.splits sum.splits error.splits)
  have act: "sound connected (lsm_try (bc_act env act) (\<lambda>e s. (Inl e, bc_Disconnect env s)) ret)"
    unfolding conv by (rule sound_cleanup [OF sound_act, where g = "bc_Disconnect env"]) (auto simp: client_ok_Disconnect lift_res_def)
  have "sound (\<lambda>s. \<not> connected s) (bc_connect env onConnect)" using sound_connect [OF assms] by (simp add: sound_def)
  note new = sound_bind [OF this act] and old = sound_bind [OF sound_ret act]
  show ?thesis
  proof (rule soundI)
    fix s :: "('k, 'w) client_run" and r s'
    assume s: "client_ok s" "bc_doAction env onConnect act s = (r, s')"
    show "client_ok s' \<and> (\<forall>p. r \<noteq> Inl (Panic p)) \<and> (\<forall>x. r = Inr x \<longrightarrow> connected s')"
    proof (cases "connected s")
      case True
      have "lsm_bind (ret ()) (\<lambda>_. lsm_try (bc_act env act) (\<lambda>e s. (Inl e, bc_Disconnect env s)) ret) s = (r, s')"
        using s(2) unfolding bc_doAction_def by (simp only: True if_False)
      from soundD [OF old s(1) True this] show ?thesis by blast
    next
      case False
      have "lsm_bind (bc_connect env onConnect) (\<lambda>_. lsm_try (bc_act env act) (\<lambda>e s. (Inl e, bc_Disconnect env s)) ret) s = (r, s')"
        using s(2) False unfolding bc_doAction_def by (simp only: if_True not_not simp_thms)
      from soundD [OF new s(1) False this] show ?thesis by blast
    qed
  qed
qed

lemma sound_request: "(\<And>e. sound connected (send e)) \<Longrightarrow> sound connected (RequestBlocks env send)"
  unfolding RequestBlocks_def by (intro sound_bind sound_busy sound_lift net envelope)

lemma try_sound: "sound (\<lambda>_. True) (bc_try n env act)"
proof (induction n arbitrary: act)
  case 0
  show ?case by (rule soundI) auto
next
  case (Suc n)
  let ?on = "RequestBlocks env (\<lambda>e. lsm_bind (bc_try n env (ActSend e)) (\<lambda>_. ret ()))"
  have "sound connected (bc_try n env a)" for a using Suc.IH [of a] by (simp add: sound_def)
  then have "sound connected ?on" by (intro sound_request sound_bind sound_ret)
  note act = sound_doAction [OF this, of act]
  show ?case
  proof (rule soundI)
    fix s :: "('k, 'w) client_run" and r s'
    let ?s = "s\<lparr>bc_Attempt := bc_Attempt s + 1\<rparr>"
    assume s: "client_ok s" "bc_try (Suc n) env act s = (r, s')"
    have ok: "client_ok ?s" using s(1) by (simp add: client_ok_def)
    obtain r1 s1 where do: "bc_doAction env ?on act ?s = (r1, s1)" by fastforce
    note d = soundD [OF act ok TrueI do]
    have again: "client_ok s'' \<and> (\<forall>p. r'' \<noteq> Inl (Panic p)) \<and> (\<forall>x. r'' = Inr x \<longrightarrow> connected s'')"
      if "bc_try n env act (bc_sleep env b s1) = (r'', s'')" for b r'' s''
      using soundD [OF Suc.IH client_ok_sleep [OF d(1)] TrueI that] by blast
    show "client_ok s' \<and> (\<forall>p. r \<noteq> Inl (Panic p)) \<and> (\<forall>x. r = Inr x \<longrightarrow> connected s')"
    proof (cases r1)
      case (Inl e)
      then show ?thesis using s do d again by (cases e) (auto simp: lsm_try_def split: if_splits prod.splits)
    next
      case (Inr x)
      then show ?thesis using s do d by (auto simp: client_ok_def split: if_splits)
    qed
  qed
qed

end

section \<open>The client of a channel\<close>

text \<open>What a network and the committer do: they succeed or fail with an error.\<close>

record ('k, 'w) orderer_net =
  on_Endpoints :: "bytes list"
  on_perm :: "'w \<Rightarrow> nat list"
  on_dial :: "bytes \<Rightarrow> 'w \<Rightarrow> 'k option \<times> 'w"
  on_Deliver :: "'k \<Rightarrow> 'w \<Rightarrow> unit option \<times> 'w"
  on_Recv :: "'k \<Rightarrow> 'w \<Rightarrow> DeliverResponse option \<times> 'w"
  on_Send :: "'k \<Rightarrow> Envelope \<Rightarrow> 'w \<Rightarrow> unit option \<times> 'w"
  on_Close :: "'k \<Rightarrow> 'w \<Rightarrow> 'w"
  on_wait :: "int \<Rightarrow> 'w \<Rightarrow> 'w"
  on_closing :: "'w \<Rightarrow> bool"
  on_LedgerHeight :: "'w \<Rightarrow> u64 option \<times> 'w"
  on_Sign :: "bytes \<Rightarrow> SeekInfo \<Rightarrow> Envelope option"

definition or_fail :: "bytes \<Rightarrow> ('w \<Rightarrow> 'a option \<times> 'w) \<Rightarrow> ('w, 'a) lsm" where
  "or_fail msg f w = (case f w of (r, w) \<Rightarrow> (case r of None \<Rightarrow> Inl (Err msg) | Some x \<Rightarrow> Inr x, w))"

definition newClient :: "('k, 'w) orderer_net \<Rightarrow> bytes \<Rightarrow> ('k, 'w) dc_env" where
  "newClient net chainID =
     \<lparr>dc_chainID = chainID,
      dc_NewConnection = NewConnection (\<lambda>endpoint. or_fail ''dial failed'' (on_dial net endpoint)) (on_perm net) (on_Endpoints net),
      dc_Deliver = (\<lambda>k. or_fail ''no stream'' (on_Deliver net k)),
      dc_StreamRecv = (\<lambda>k. or_fail ''stream broken'' (on_Recv net k)),
      dc_StreamSend = (\<lambda>k e. or_fail ''stream broken'' (on_Send net k e)),
      dc_CloseConn = on_Close net, dc_wait = on_wait net, dc_closing = on_closing net, dc_shouldRetry = backoffPolicy,
      dc_LedgerHeight = or_fail ''no height'' (on_LedgerHeight net),
      dc_CreateSignedEnvelope = (\<lambda>c i. case on_Sign net c i of None \<Rightarrow> Inl (Err ''cannot sign'') | Some e \<Rightarrow> Inr e)\<rparr>"

lemma or_fail_no_panic: "no_panic (fst (or_fail msg f w))"
  by (auto simp: or_fail_def no_panic_def split: prod.splits option.splits)

lemma try_endpoints_no_panic: "(\<And>e w. no_panic (fst (connect e w))) \<Longrightarrow> no_panic (fst (try_endpoints connect es w))"
proof (induction es arbitrary: w)
  case (Cons e es)
  obtain r w1 where c: "connect e w = (r, w1)" by fastforce
  then have "no_panic r" using Cons.prems [of e w] by simp
  then show ?case by (cases rule: no_panic_cases) (use c Cons.IH Cons.prems in \<open>simp_all add: lift_res_def no_panic_def\<close>)
qed (simp add: lift_res_def no_panic_def)

interpretation channel: sound_net "newClient net chainID" for net chainID
proof unfold_locales
  show "no_panic (fst (dc_NewConnection (newClient net chainID) w))" for w
    by (simp add: newClient_def NewConnection_def try_endpoints_no_panic or_fail_no_panic)
  show "no_panic (dc_CreateSignedEnvelope (newClient net chainID) c i)" for c i
    by (simp add: newClient_def no_panic_def split: option.splits)
qed (simp_all add: newClient_def or_fail_no_panic)

lemma try_error:
  assumes "bc_try n (newClient net chainID) act s = (Inl (Err e), s')"
  shows "e = ''Client is closing'' \<and> bc_stopFlag s'"
  using assms
proof (induction n arbitrary: s)
  case (Suc n)
  then show ?case
    by (auto simp: lsm_try_def newClient_def backoffPolicy_def Let_def split: if_splits prod.splits sum.splits error.splits)
qed simp

text \<open>The loop of a channel: its state is the client, and what was handed on.\<close>

record ('k, 'w) feed =
  fd_client :: "('k, 'w) client_run"
  fd_done :: bool
  fd_added :: "gossip_payload list"
  fd_gossiped :: "gossip_message list"

definition NewBlocksProvider ::
    "nat \<Rightarrow> ('k, 'w) dc_env \<Rightarrow> mspMessageCryptoService \<Rightarrow> (raw_block \<Rightarrow> bytes res) \<Rightarrow> ('k, 'w) feed blocks_env" where
  "NewBlocksProvider n env mcs marshal =
     \<lparr>bp_chainID = dc_chainID env,
      bp_Recv = (\<lambda>s. case bc_Recv n env (fd_client s) of (r, c) \<Rightarrow> (r, s\<lparr>fd_client := c\<rparr>)),
      bp_Close = (\<lambda>s. s\<lparr>fd_client := bc_Close env (fd_client s)\<rparr>),
      bp_Disconnect = (\<lambda>s. s\<lparr>fd_client := bc_Disconnect env (fd_client s)\<rparr>),
      bp_isDone = fd_done,
      bp_Sleep = (\<lambda>d s. s\<lparr>fd_client := snd (busy env (\<lambda>w. (Inr (), dc_wait env d w)) (fd_client s))\<rparr>),
      bp_mcs = mcs, bp_Marshal = marshal,
      bp_AddPayload = (\<lambda>p s. s\<lparr>fd_added := fd_added s @ [p]\<rparr>),
      bp_Gossip = (\<lambda>m s. s\<lparr>fd_gossiped := fd_gossiped s @ [m]\<rparr>)\<rparr>"

interpretation provider: block_feed "NewBlocksProvider n env mcs marshal" fd_added fd_gossiped for n env mcs marshal
  by unfold_locales (simp_all add: NewBlocksProvider_def split: prod.splits)

lemma provider_fields [simp]:
  "bp_mcs (NewBlocksProvider n env mcs marshal) = mcs" "bp_chainID (NewBlocksProvider n env mcs marshal) = dc_chainID env"
  by (simp_all add: NewBlocksProvider_def)

section \<open>The service\<close>

text \<open>
  The loop of a channel may end by itself, after too many refusals. Its provider stays in the table,
  and the channel cannot be started until it has been stopped.
\<close>

lemma start_again_refused:
  assumes "StartDeliverForChannel chainID d = (Inr (), d1)"
  shows "\<exists>m. StartDeliverForChannel chainID (d1\<lparr>ds_clients := cs, ds_Attempt := a, ds_world := w\<rparr>)
    = (Inl (Err m), d1\<lparr>ds_clients := cs, ds_Attempt := a, ds_world := w\<rparr>)"
  using assms by (auto simp: StartDeliverForChannel_def Let_def split: if_splits)

definition service_ok :: "('k, 'w) deliverService \<Rightarrow> bool" where
  "service_ok d \<longleftrightarrow> gm_ok (ds_blockProviders d) \<and> gm_ok (ds_broadcastClients d)
     \<and> (\<forall>p \<in> set (ds_providers d). pv_client p < length (ds_clients d))
     \<and> (\<forall>c p. gm_get (ds_blockProviders d) c = Some p \<longrightarrow> p < length (ds_providers d) \<and> pv_chainID (ds_providers d ! p) = c
          \<and> (\<not> ds_stopping d \<longrightarrow> \<not> pv_done (ds_providers d ! p)))
     \<and> (\<forall>c i. gm_get (ds_broadcastClients d) c = Some i \<longrightarrow> i < length (ds_clients d))"

lemma service_ok_start:
  assumes "service_ok d" "StartDeliverForChannel chainID d = (r, d')"
  shows "service_ok d'"
proof (cases r)
  case (Inl e)
  then show ?thesis using assms by (auto simp: StartDeliverForChannel_def Let_def split: if_splits)
next
  case (Inr u)
  then have d': "d' = d\<lparr>ds_clients := ds_clients d @ [NewBroadcastClient], ds_broadcastClients := gm_put chainID (length (ds_clients d)) (ds_broadcastClients d),
      ds_providers := ds_providers d @ [\<lparr>pv_chainID = chainID, pv_client = length (ds_clients d), pv_done = False\<rparr>],
      ds_blockProviders := gm_put chainID (length (ds_providers d)) (ds_blockProviders d)\<rparr>"
    using assms(2) by (auto simp: StartDeliverForChannel_def Let_def split: if_splits)
  show ?thesis
    using assms(1) unfolding service_ok_def d'
    by (auto simp: nth_append less_Suc_eq split: if_splits)
qed

lemma run_of_Close:
  "bc_stopFlag (bc_Close env s)" "length (ds_clients (put_run i s d)) = length (ds_clients d)"
  by (auto simp: bc_Close_def connection_Close_def put_run_def split: option.splits)

lemma truncate_flag [simp]: "bc_stopFlag (broadcastClient.truncate s) = bc_stopFlag s"
  by (simp add: broadcastClient.truncate_def)

text \<open>A stopped provider: its loop sees the flag, its client is closed, and nothing else of the service changes.\<close>

lemma provider_Stop_effect:
  assumes "p < length (ds_providers d)" "pv_client (ds_providers d ! p) < length (ds_clients d)"
  shows "pv_done (ds_providers (provider_Stop env p d) ! p)"
    "bc_stopFlag (ds_clients (provider_Stop env p d) ! pv_client (ds_providers d ! p))"
    "ds_blockProviders (provider_Stop env p d) = ds_blockProviders d" "ds_broadcastClients (provider_Stop env p d) = ds_broadcastClients d"
    "ds_stopping (provider_Stop env p d) = ds_stopping d"
    "ds_providers (provider_Stop env p d) = (ds_providers d)[p := (ds_providers d ! p)\<lparr>pv_done := True\<rparr>]"
    "length (ds_clients (provider_Stop env p d)) = length (ds_clients d)"
  using assms by (auto simp: provider_Stop_def Let_def put_run_def run_of_Close)

lemma service_ok_stop_channel:
  assumes "service_ok d" "StopDeliverForChannel env chainID d = (r, d')"
  shows "service_ok d'"
proof (cases r)
  case (Inl e)
  then show ?thesis using assms by (auto simp: StopDeliverForChannel_def split: if_splits option.splits)
next
  case (Inr u)
  then obtain p where p: "gm_get (ds_blockProviders d) chainID = Some p" "d' = (provider_Stop env p d)\<lparr>ds_blockProviders := gm_del chainID (ds_blockProviders d)\<rparr>"
    using assms(2) by (auto simp: StopDeliverForChannel_def split: if_splits option.splits)
  then have idx: "p < length (ds_providers d)" "pv_chainID (ds_providers d ! p) = chainID" using assms(1) by (auto simp: service_ok_def)
  then have "pv_client (ds_providers d ! p) < length (ds_clients d)" using assms(1) by (auto simp: service_ok_def)
  note e = provider_Stop_effect [OF idx(1) this, of env]
  have set: "pv_client q < length (ds_clients d)" if "q \<in> set ((ds_providers d)[p := (ds_providers d ! p)\<lparr>pv_done := True\<rparr>])" for q
    using that assms(1) idx(1) by (auto simp: service_ok_def dest!: set_update_subset_insert [THEN subsetD])
  let ?ps = "(ds_providers d)[p := (ds_providers d ! p)\<lparr>pv_done := True\<rparr>]"
  have entries: "q < length (ds_providers d) \<and> pv_chainID (?ps ! q) = c \<and> (\<not> ds_stopping d \<longrightarrow> \<not> pv_done (?ps ! q))"
    if "gm_get (ds_blockProviders d) c = Some q" "c \<noteq> chainID" for c q
  proof -
    have "q < length (ds_providers d) \<and> pv_chainID (ds_providers d ! q) = c \<and> (\<not> ds_stopping d \<longrightarrow> \<not> pv_done (ds_providers d ! q))"
      using assms(1) that(1) unfolding service_ok_def by blast
    moreover from this have "q \<noteq> p" using idx(2) that(2) by auto
    ultimately show ?thesis by simp
  qed
  show ?thesis using assms(1) set entries unfolding service_ok_def p(2) by (auto simp: e)
qed

text \<open>A channel can be stopped once; then its client is closed, and it can be started again with a new one.\<close>

lemma stop_then_start:
  assumes "service_ok d" "StopDeliverForChannel env chainID d = (Inr (), d')"
  shows "\<exists>p. gm_get (ds_blockProviders d) chainID = Some p \<and> pv_done (ds_providers d' ! p) \<and> bc_stopFlag (ds_clients d' ! pv_client (ds_providers d' ! p))"
    "\<exists>m. StopDeliverForChannel env chainID d' = (Inl (Err m), d')" "\<exists>d''. StartDeliverForChannel chainID d' = (Inr (), d'')"
proof -
  obtain p where p: "gm_get (ds_blockProviders d) chainID = Some p" "d' = (provider_Stop env p d)\<lparr>ds_blockProviders := gm_del chainID (ds_blockProviders d)\<rparr>" "\<not> ds_stopping d"
    using assms(2) by (auto simp: StopDeliverForChannel_def split: if_splits option.splits)
  then have idx: "p < length (ds_providers d)" using assms(1) by (auto simp: service_ok_def)
  then have "pv_client (ds_providers d ! p) < length (ds_clients d)" using assms(1) by (auto simp: service_ok_def)
  note e = provider_Stop_effect [OF idx this, of env]
  show "\<exists>p. gm_get (ds_blockProviders d) chainID = Some p \<and> pv_done (ds_providers d' ! p) \<and> bc_stopFlag (ds_clients d' ! pv_client (ds_providers d' ! p))"
    using p(1) e(2) idx unfolding p(2) by (auto simp: e)
  show "\<exists>m. StopDeliverForChannel env chainID d' = (Inl (Err m), d')" "\<exists>d''. StartDeliverForChannel chainID d' = (Inr (), d'')"
    unfolding StopDeliverForChannel_def StartDeliverForChannel_def using p(3) by (simp_all add: p(2) e Let_def)
qed

text \<open>
  Without a client, and with an orderer that no channel has reached in four attempts, a message is not
  sent: there is an error and no answer.
\<close>

lemma unreachable_no_answer:
  assumes "gm_get (ds_broadcastClients d) chainID = None" "ds_Attempt d > 3"
  shows "SendToOrderer env processEnvelope chainID d = (Inr (None, Some (Err ''client is nil'')), d)"
  using assms by (simp add: SendToOrderer_def usable_def)

end
