(* ===== verification/CouchDB.thy ===== *)
theory CouchDB
  imports Lscc LevelDB
begin

text \<open>
  The client of CouchDB, \<^verbatim>\<open>core/ledger/util/couchdb\<close> (\<^verbatim>\<open>couchdb.go\<close>, \<^verbatim>\<open>couchdbutil.go\<close>). HTTP is a function of the
  environment: what is sent is a method, a target, a document and a revision, what comes back a status,
  a revision and a body, already decoded; URLs and multipart messages are not written out. A body that
  cannot be decoded is \<open>BodyBroken\<close>.

  What is relied on of the server is the locale \<open>couch_server\<close>: a request that fails may or may not
  have been carried out, one that is answered was carried out or refused as the status says. \<open>couch\<close> interprets it on
  \<open>serve_request\<close>, documents with revisions and a plan of faults.

  Results: a document that was saved is stored and no other is changed, whatever is lost on the way
  (\<open>SaveDoc_stores\<close>); a document that could not be saved is the old one or the new one
  (\<open>SaveDoc_error\<close>); what is read is what is stored (\<open>ReadDoc_reads\<close>); different channels have different
  databases (\<open>database_names_distinct\<close>). Without retries a save stops the peer (\<open>no_retries_panics\<close>).
\<close>

datatype http_method = PUT | GET | POST | DELETE

datatype couch_url =
    U_root
  | U_db bytes
  | U_doc bytes bytes
  | U_commit bytes
  | U_range bytes bytes bytes int int
  | U_find bytes bytes

record Attachment =
  at_Name :: bytes
  at_ContentType :: bytes
  at_AttachmentBytes :: bytes

record CouchDoc =
  cd_JSONValue :: bytes
  cd_Attachments :: "Attachment list option"

record QueryRow =
  qw_ID :: bytes
  qw_Doc :: bytes
  qw_Attachments :: bool

record QueryResult =
  qr_ID :: bytes
  qr_Value :: bytes
  qr_Attachments :: "Attachment list option"

record http_request =
  rq_Method :: http_method
  rq_URL :: couch_url
  rq_Data :: "CouchDoc option"
  rq_Rev :: bytes

datatype http_body =
    BodyDoc CouchDoc
  | BodyOk bool
  | BodyInfo bytes
  | BodyVersion bytes
  | BodyRows "QueryRow list"
  | BodyBroken

record http_response =
  rp_StatusCode :: int
  rp_Etag :: bytes
  rp_Body :: http_body

datatype http_result = HttpErr bytes | HttpNothing | HttpResp http_response

record 'd couch_env =
  ce_Do :: "http_request \<Rightarrow> 'd \<Rightarrow> http_result \<times> 'd"
  ce_Sleep :: "int \<Rightarrow> 'd \<Rightarrow> 'd"
  ce_MaxRetries :: nat
  ce_MaxRetriesOnStartup :: nat
  ce_IsJSON :: "bytes \<Rightarrow> bool"
  ce_ValidString :: "bytes \<Rightarrow> bool"

section \<open>Requests\<close>

text \<open>The answer, or an error with the status if there is one.\<close>

datatype couch_result = CouchOK http_response | CouchErr "int option" bytes

text \<open>The last result is the one that counts; a failure is waited after, twice as long each time.\<close>

fun request_loop :: "'d couch_env \<Rightarrow> http_request \<Rightarrow> nat \<Rightarrow> int \<Rightarrow> http_result \<Rightarrow> 'd \<Rightarrow> http_result \<times> 'd" where
  "request_loop env req 0 wait last' s = (last', s)"
| "request_loop env req (Suc n) wait last' s =
     (case ce_Do env req s of
        (HttpNothing, s) \<Rightarrow> request_loop env req n wait HttpNothing s
      | (HttpErr e, s) \<Rightarrow> request_loop env req n (2 * wait) (HttpErr e) (ce_Sleep env wait s)
      | (HttpResp r, s) \<Rightarrow>
          if rp_StatusCode r < 500 then (HttpResp r, s)
          else request_loop env req n (2 * wait) (HttpResp r) (ce_Sleep env wait s))"

text \<open>The body of an answer with a status of 500 has been read and closed, and cannot be read again.\<close>

definition handleRequest :: "'d couch_env \<Rightarrow> http_request \<Rightarrow> nat \<Rightarrow> 'd \<Rightarrow> couch_result \<times> 'd" where
  "handleRequest env req maxRetries s =
     (if maxRetries < 1 then (CouchErr None ''Number of retries must be greater than zero.'', s)
      else
        (case request_loop env req maxRetries 125 HttpNothing s of
           (HttpErr e, s) \<Rightarrow> (CouchErr None e, s)
         | (HttpNothing, s) \<Rightarrow> (CouchErr None ''Unable to connect to CouchDB, check the hostname and port.'', s)
         | (HttpResp r, s) \<Rightarrow>
             if rp_StatusCode r \<ge> 500 then (CouchErr None ''http: read on closed response body'', s)
             else if rp_StatusCode r \<ge> 400 then (CouchErr (Some (rp_StatusCode r)) ''Couch DB Error'', s)
             else (CouchOK r, s)))"

definition couch_request :: "http_method \<Rightarrow> couch_url \<Rightarrow> http_request" where
  "couch_request method url = \<lparr>rq_Method = method, rq_URL = url, rq_Data = None, rq_Rev = []\<rparr>"

section \<open>Documents\<close>

text \<open>\<^verbatim>\<open>ReplaceAllString\<close> with \<^verbatim>\<open>"([^"]*)"\<close>: quotes are removed in pairs, from the left; a single one at the end stays.\<close>

definition unquote :: "bytes \<Rightarrow> bytes" where
  "unquote s =
     (let q = CHR 0x22; plain = filter (\<lambda>c. c \<noteq> q); tail = rev (takeWhile (\<lambda>c. c \<noteq> q) (rev s)) in
      if even (count_list s q) then plain s else plain (take (length s - length tail) s) @ [q] @ tail)"

definition getRevisionHeader :: "http_response \<Rightarrow> bytes res" where
  "getRevisionHeader resp =
     (if rp_Etag resp = [] then Inl (Err ''No revision tag detected'') else Inr (unquote (rp_Etag resp)))"

definition ReadDoc :: "'d couch_env \<Rightarrow> bytes \<Rightarrow> bytes \<Rightarrow> ('d, CouchDoc option \<times> bytes) lsm" where
  "ReadDoc env db i s =
     (if \<not> ce_ValidString env i then (Inl (Err ''doc id not a valid utf8 string''), s)
      else
        (case handleRequest env (couch_request GET (U_doc db i)) (ce_MaxRetries env) s of
           (CouchErr st e, s) \<Rightarrow> if st = Some 404 then (Inr (None, []), s) else (Inl (Err e), s)
         | (CouchOK resp, s) \<Rightarrow>
             (res_bind (getRevisionHeader resp) (\<lambda>revision.
                case rp_Body resp of BodyDoc d \<Rightarrow> Inr (Some d, revision) | _ \<Rightarrow> Inl (Err ''cannot read the body'')), s)))"

definition getDocumentRevision :: "'d couch_env \<Rightarrow> bytes \<Rightarrow> bytes \<Rightarrow> ('d, bytes) lsm" where
  "getDocumentRevision env db i = lsm_try (ReadDoc env db i) (\<lambda>_. ret []) (\<lambda>(_, rev). ret rev)"

text \<open>Saving and deleting: after a conflict the revision is read again. Without a single attempt there is no result.\<close>

fun revision_loop :: "'d couch_env \<Rightarrow> bytes \<Rightarrow> bytes \<Rightarrow> http_request \<Rightarrow> nat \<Rightarrow> bool \<Rightarrow> couch_result option \<Rightarrow> ('d, couch_result option) lsm" where
  "revision_loop env db i req 0 conflict last' = ret last'"
| "revision_loop env db i req (Suc n) conflict last' =
     lsm_bind (if rq_Rev req = [] \<or> conflict then getDocumentRevision env db i else ret (rq_Rev req)) (\<lambda>rev s.
       case handleRequest env (req\<lparr>rq_Rev := rev\<rparr>) (ce_MaxRetries env) s of
         (CouchErr st e, s) \<Rightarrow>
           if st = Some 409 then revision_loop env db i (req\<lparr>rq_Rev := rev\<rparr>) n True (Some (CouchErr st e)) s
           else (Inr (Some (CouchErr st e)), s)
       | (CouchOK r, s) \<Rightarrow> (Inr (Some (CouchOK r)), s))"

definition handleRequestWithRevisionRetry :: "'d couch_env \<Rightarrow> bytes \<Rightarrow> bytes \<Rightarrow> http_request \<Rightarrow> ('d, couch_result option) lsm" where
  "handleRequestWithRevisionRetry env db i req = revision_loop env db i req (ce_MaxRetries env) False None"

definition SaveDoc :: "'d couch_env \<Rightarrow> bytes \<Rightarrow> bytes \<Rightarrow> bytes \<Rightarrow> CouchDoc \<Rightarrow> ('d, bytes) lsm" where
  "SaveDoc env db i revision couchDoc =
     (if \<not> ce_ValidString env i then fail (Err ''doc id not a valid utf8 string'')
      else if cd_Attachments couchDoc = None \<and> \<not> ce_IsJSON env (cd_JSONValue couchDoc) then fail (Err ''JSON format is not valid'')
      else
        lsm_bind (handleRequestWithRevisionRetry env db i \<lparr>rq_Method = PUT, rq_URL = U_doc db i, rq_Data = Some couchDoc, rq_Rev = revision\<rparr>) (\<lambda>r.
          case r of
            None \<Rightarrow> fail (Panic ''nil pointer dereference'')
          | Some (CouchErr _ e) \<Rightarrow> fail (Err e)
          | Some (CouchOK resp) \<Rightarrow> lift_res (getRevisionHeader resp)))"

definition DeleteDoc :: "'d couch_env \<Rightarrow> bytes \<Rightarrow> bytes \<Rightarrow> ('d, unit) lsm" where
  "DeleteDoc env db i =
     lsm_bind (handleRequestWithRevisionRetry env db i (couch_request DELETE (U_doc db i))) (\<lambda>r.
       case r of
         None \<Rightarrow> fail (Panic ''nil pointer dereference'')
       | Some (CouchErr st e) \<Rightarrow> if st = Some 404 then ret () else fail (Err e)
       | Some (CouchOK _) \<Rightarrow> ret ())"

section \<open>Queries\<close>

text \<open>
  A document with attachments is read again, by its id; if it is gone by then, the missing document is
  dereferenced.
\<close>

fun read_rows :: "'d couch_env \<Rightarrow> bytes \<Rightarrow> QueryRow list \<Rightarrow> ('d, QueryResult list) lsm" where
  "read_rows env db [] = ret []"
| "read_rows env db (row # rows) =
     lsm_bind
       (if qw_Attachments row then
          lsm_bind (ReadDoc env db (qw_ID row)) (\<lambda>(d, _).
          lsm_bind (lift_res (deref d)) (\<lambda>d. ret \<lparr>qr_ID = qw_ID row, qr_Value = cd_JSONValue d, qr_Attachments = cd_Attachments d\<rparr>))
        else ret \<lparr>qr_ID = qw_ID row, qr_Value = qw_Doc row, qr_Attachments = None\<rparr>)
       (\<lambda>r. lsm_bind (read_rows env db rows) (\<lambda>rs. ret (r # rs)))"

definition query_rows :: "'d couch_env \<Rightarrow> bytes \<Rightarrow> http_request \<Rightarrow> ('d, QueryResult list) lsm" where
  "query_rows env db req s =
     (case handleRequest env req (ce_MaxRetries env) s of
        (CouchErr _ e, s) \<Rightarrow> (Inl (Err e), s)
      | (CouchOK resp, s) \<Rightarrow> (case rp_Body resp of BodyRows rows \<Rightarrow> read_rows env db rows s | _ \<Rightarrow> (Inl (Err ''cannot read the body''), s)))"

definition ReadDocRange :: "'d couch_env \<Rightarrow> bytes \<Rightarrow> bytes \<Rightarrow> bytes \<Rightarrow> int \<Rightarrow> int \<Rightarrow> ('d, QueryResult list) lsm" where
  "ReadDocRange env db startKey endKey limit skip = query_rows env db (couch_request GET (U_range db startKey endKey limit skip))"

definition QueryDocuments :: "'d couch_env \<Rightarrow> bytes \<Rightarrow> bytes \<Rightarrow> ('d, QueryResult list) lsm" where
  "QueryDocuments env db query = query_rows env db (couch_request POST (U_find db query))"

section \<open>Databases\<close>

text \<open>A body that cannot be decoded leaves the zero value of the response.\<close>

definition body_ok :: "http_response \<Rightarrow> bool" where
  "body_ok resp = (case rp_Body resp of BodyOk b \<Rightarrow> b | _ \<Rightarrow> False)"

definition EnsureFullCommit :: "'d couch_env \<Rightarrow> bytes \<Rightarrow> ('d, bool) lsm" where
  "EnsureFullCommit env db s =
     (case handleRequest env (couch_request POST (U_commit db)) (ce_MaxRetries env) s of
        (CouchErr _ e, s) \<Rightarrow> (Inl (Err e), s)
      | (CouchOK resp, s) \<Rightarrow> (if body_ok resp then Inr True else Inl (Err ''Error syncing database''), s))"

definition DropDatabase :: "'d couch_env \<Rightarrow> bytes \<Rightarrow> ('d, bool) lsm" where
  "DropDatabase env db s =
     (case handleRequest env (couch_request DELETE (U_db db)) (ce_MaxRetries env) s of
        (CouchErr _ e, s) \<Rightarrow> (Inl (Err e), s)
      | (CouchOK resp, s) \<Rightarrow> (if body_ok resp then Inr True else Inl (Err ''Error dropping database''), s))"

text \<open>The sequence number of the last update, of all the information about a database.\<close>

definition GetDatabaseInfo :: "'d couch_env \<Rightarrow> bytes \<Rightarrow> 'd \<Rightarrow> (couch_result \<times> bytes) \<times> 'd" where
  "GetDatabaseInfo env db s =
     (case handleRequest env (couch_request GET (U_db db)) (ce_MaxRetries env) s of
        (r, s) \<Rightarrow> ((r, case r of CouchOK resp \<Rightarrow> (case rp_Body resp of BodyInfo q \<Rightarrow> q | _ \<Rightarrow> []) | _ \<Rightarrow> []), s))"

definition CreateDatabaseIfNotExist :: "'d couch_env \<Rightarrow> bytes \<Rightarrow> ('d, bool option) lsm" where
  "CreateDatabaseIfNotExist env db s =
     (case GetDatabaseInfo env db s of
        ((CouchOK _, _), s) \<Rightarrow> (Inr None, s)
      | ((CouchErr st e, _), s) \<Rightarrow>
          if st \<noteq> Some 404 then (Inl (Err e), s)
          else
            (case handleRequest env (couch_request PUT (U_db db)) (ce_MaxRetries env) s of
               (CouchErr _ e, s) \<Rightarrow> (Inl (Err e), s)
             | (CouchOK resp, s) \<Rightarrow> (Inr (Some (body_ok resp)), s)))"

definition CreateSystemDatabasesIfNotExist :: "'d couch_env \<Rightarrow> ('d, unit) lsm" where
  "CreateSystemDatabasesIfNotExist env =
     lsm_bind (CreateDatabaseIfNotExist env ''_users'') (\<lambda>_.
     lsm_bind (CreateDatabaseIfNotExist env ''_replicator'') (\<lambda>_.
     lsm_bind (CreateDatabaseIfNotExist env ''_global_changes'') (\<lambda>_. ret ())))"

definition VerifyCouchConfig :: "'d couch_env \<Rightarrow> ('d, bytes \<times> int) lsm" where
  "VerifyCouchConfig env s =
     (case handleRequest env (couch_request GET U_root) (ce_MaxRetriesOnStartup env) s of
        (CouchErr _ e, s) \<Rightarrow> (Inl (Err (''Unable to connect to CouchDB, check the hostname and port: '' @ e)), s)
      | (CouchOK resp, s) \<Rightarrow>
          (case rp_Body resp of
             BodyVersion v \<Rightarrow>
               lsm_try (CreateSystemDatabasesIfNotExist env) (\<lambda>e. fail (Err (''Unable to connect to CouchDB,  error: '' @ err_msg e)))
                 (\<lambda>_. ret (v, rp_StatusCode resp)) s
           | _ \<Rightarrow> (Inl (Err ''Unable to connect to CouchDB, check the hostname and port''), s)))"

text \<open>The number before the first dot; one that cannot be read counts as zero.\<close>

definition checkCouchDBVersion :: "bytes \<Rightarrow> unit res" where
  "checkCouchDBVersion version =
     (if fst (ParseInt (takeWhile (\<lambda>c. c \<noteq> CHR ''.'') version)) < 2 then Inl (Err (''CouchDB must be at least version 2.0.0.  Detected version '' @ version))
      else Inr ())"

definition CreateCouchInstance :: "'d couch_env \<Rightarrow> ('d, unit) lsm" where
  "CreateCouchInstance env =
     lsm_bind (VerifyCouchConfig env) (\<lambda>(version, status).
       if status \<noteq> 200 then fail (Err ''CouchDB connection error, expecting return code of 200'') else lift_res (checkCouchDBVersion version))"

definition lower :: "char \<Rightarrow> bool" where
  "lower c \<longleftrightarrow> CHR ''a'' \<le> c \<and> c \<le> CHR ''z''"

definition name_char :: "char \<Rightarrow> bool" where
  "name_char c \<longleftrightarrow> lower c \<or> CHR ''0'' \<le> c \<and> c \<le> CHR ''9'' \<or> c = CHR ''.'' \<or> c = CHR ''-''"

text \<open>The first match of \<^verbatim>\<open>[a-z][a-z0-9.-]*\<close>.\<close>

definition channel_match :: "bytes \<Rightarrow> bytes" where
  "channel_match s = (case dropWhile (\<lambda>c. \<not> lower c) s of [] \<Rightarrow> [] | c # cs \<Rightarrow> c # takeWhile name_char cs)"

definition mapAndValidateDatabaseName :: "bytes \<Rightarrow> bytes res" where
  "mapAndValidateDatabaseName databaseName =
     (if databaseName = [] then Inl (Err ''Database name is illegal, cannot be empty'')
      else if length databaseName > 249 then Inl (Err ''Database name is illegal, cannot be longer than 249'')
      else if length (channel_match databaseName) \<noteq> length databaseName then Inl (Err ''databaseName does not matches pattern'')
      else Inr (map (\<lambda>c. if c = CHR ''.'' then CHR ''_'' else c) databaseName))"

definition CreateCouchDatabase :: "'d couch_env \<Rightarrow> bytes \<Rightarrow> ('d, bytes) lsm" where
  "CreateCouchDatabase env dbName =
     lsm_bind (lift_res (mapAndValidateDatabaseName dbName)) (\<lambda>db.
     lsm_bind (CreateDatabaseIfNotExist env db) (\<lambda>_. ret db))"

section \<open>Names\<close>

lemma channel_match_all:
  assumes "length (channel_match s) = length s" "c \<in> set s"
  shows "name_char c"
proof -
  obtain d ds where s: "s = d # ds" using assms(2) by (cases s) auto
  have "lower d"
  proof (rule ccontr)
    assume "\<not> lower d"
    then have "length (channel_match s) \<le> length ds"
      using length_dropWhile_le [of "\<lambda>c. \<not> lower c" ds] length_takeWhile_le [of name_char]
      by (auto simp: channel_match_def s split: list.splits intro: order_trans [OF _ length_dropWhile_le [of "\<lambda>c. \<not> lower c" ds]] dest!: arg_cong [where f = length])
    then show False using assms(1) s by simp
  qed
  then have "length (takeWhile name_char ds) = length ds" using assms(1) by (simp add: channel_match_def s)
  then have "takeWhile name_char ds = ds" by (metis takeWhile_eq_take take_all order_refl)
  then have "\<forall>c \<in> set ds. name_char c" by (simp add: takeWhile_eq_all_conv)
  then show ?thesis using assms(2) \<open>lower d\<close> by (auto simp: s name_char_def)
qed

lemma underscore_no_name: "\<not> name_char (CHR ''_'')"
  by (simp add: name_char_def lower_def less_eq_char_simp)

lemma database_names_distinct:
  assumes "mapAndValidateDatabaseName a = Inr x" "mapAndValidateDatabaseName b = Inr x"
  shows "a = b"
proof -
  let ?f = "\<lambda>c. if c = CHR ''.'' then CHR ''_'' else c"
  have ab: "length (channel_match a) = length a" "length (channel_match b) = length b" "map ?f a = map ?f b"
    using assms by (auto simp: mapAndValidateDatabaseName_def split: if_splits)
  have "inj_on ?f (set a \<union> set b)"
    using channel_match_all [OF ab(1)] channel_match_all [OF ab(2)] underscore_no_name by (auto simp: inj_on_def)
  then show ?thesis using ab(3) by (simp add: inj_on_map_eq_map)
qed

lemma no_retries_panics:
  assumes "ce_MaxRetries env = 0" "ce_ValidString env i" "cd_Attachments d \<noteq> None"
  shows "SaveDoc env db i revision d s = (Inl (Panic ''nil pointer dereference''), s)"
  using assms by (simp add: SaveDoc_def handleRequestWithRevisionRetry_def)

section \<open>What the server promises\<close>

definition set_doc :: "bytes \<Rightarrow> bytes \<Rightarrow> CouchDoc option \<Rightarrow> (bytes \<Rightarrow> bytes \<Rightarrow> CouchDoc option) \<Rightarrow> bytes \<Rightarrow> bytes \<Rightarrow> CouchDoc option" where
  "set_doc db i v D = D(db := (D db)(i := v))"

lemma set_doc_simps [simp]: "set_doc db i v D db i = v" "set_doc db i v (set_doc db i v' D) = set_doc db i v D"
    "j \<noteq> i \<Longrightarrow> set_doc db i v D db' j = D db' j"
  by (auto simp: set_doc_def)

text \<open>A request that sets the document \<open>i\<close> to \<open>v\<close>, or removes it.\<close>

definition write_of :: "http_request \<Rightarrow> bytes \<Rightarrow> bytes \<Rightarrow> CouchDoc option \<Rightarrow> bool" where
  "write_of req db i v \<longleftrightarrow> rq_URL req = U_doc db i \<and> (rq_Method req = PUT \<and> rq_Data req = v \<and> v \<noteq> None \<or> rq_Method req = DELETE \<and> v = None)"

lemma write_of_rev [simp]: "write_of (req\<lparr>rq_Rev := r\<rparr>) db i v = write_of req db i v"
  by (simp add: write_of_def)

locale couch_server =
  fixes env :: "'d couch_env" and docs :: "'d \<Rightarrow> bytes \<Rightarrow> bytes \<Rightarrow> CouchDoc option"
  assumes Sleep: "docs (ce_Sleep env w s) = docs s"
    and Get: "rq_Method req = GET \<Longrightarrow> ce_Do env req s = (res, s') \<Longrightarrow> docs s' = docs s"
    and Get_doc: "ce_Do env (couch_request GET (U_doc db i)) s = (HttpResp r, s') \<Longrightarrow>
      (rp_StatusCode r < 400 \<longrightarrow> rp_Etag r \<noteq> [] \<and> (\<exists>d. docs s db i = Some d \<and> rp_Body r = BodyDoc d)) \<and> (rp_StatusCode r = 404 \<longrightarrow> docs s db i = None)"
    and Write: "write_of req db i v \<Longrightarrow> ce_Do env req s = (res, s') \<Longrightarrow> docs s' \<in> {docs s, set_doc db i v (docs s)}"
    and Write_ok: "write_of req db i v \<Longrightarrow> ce_Do env req s = (HttpResp r, s') \<Longrightarrow> rp_StatusCode r < 400 \<Longrightarrow> docs s' = set_doc db i v (docs s)"
    and Delete_none: "write_of req db i None \<Longrightarrow> ce_Do env req s = (HttpResp r, s') \<Longrightarrow> rp_StatusCode r = 404 \<Longrightarrow> docs s' db i = None"
begin

lemma loop_read:
  assumes "rq_Method req = GET" "request_loop env req n w l s = (res, s')"
  shows "docs s' = docs s \<and> (res = l \<or> (\<exists>t t'. docs t = docs s \<and> ce_Do env req t = (res, t')))"
  using assms(2)
proof (induction n arbitrary: w l s)
  case (Suc n)
  obtain r t where do: "ce_Do env req s = (r, t)" by fastforce
  note t = Get [OF assms(1) do]
  show ?case
  proof (cases "\<exists>x. r = HttpResp x \<and> rp_StatusCode x < 500")
    case True
    then show ?thesis using Suc.prems do t by auto
  next
    case False
    then obtain w1 s1 where "request_loop env req n w1 r s1 = (res, s')" "docs s1 = docs t"
      using Suc.prems do by (cases r) (auto simp: Sleep)
    from Suc.IH [OF this(1)] this(2) t do show ?thesis by auto
  qed
qed simp

lemma loop_write:
  assumes "write_of req db i v" "request_loop env req n w l s = (res, s')"
  shows "docs s' \<in> {docs s, set_doc db i v (docs s)} \<and> (\<forall>r. res = HttpResp r \<and> rp_StatusCode r < 400 \<longrightarrow> docs s' = set_doc db i v (docs s) \<or> res = l)"
  using assms(2)
proof (induction n arbitrary: w l s)
  case (Suc n)
  obtain r t where do: "ce_Do env req s = (r, t)" by fastforce
  note t = Write [OF assms(1) do]
  show ?case
  proof (cases "\<exists>x. r = HttpResp x \<and> rp_StatusCode x < 500")
    case True
    then show ?thesis using Suc.prems do t Write_ok [OF assms(1)] by auto
  next
    case False
    then obtain w1 s1 where "request_loop env req n w1 r s1 = (res, s')" "docs s1 = docs t"
      using Suc.prems do by (cases r) (auto simp: Sleep)
    from Suc.IH [OF this(1)] this(2) t False show ?thesis by auto
  qed
qed simp

lemma handle_write:
  assumes "write_of req db i v" "handleRequest env req n s = (r, s')"
  shows "docs s' \<in> {docs s, set_doc db i v (docs s)} \<and> (\<forall>x. r = CouchOK x \<longrightarrow> docs s' = set_doc db i v (docs s))"
proof (cases "n < 1")
  case True
  then show ?thesis using assms(2) by (auto simp: handleRequest_def)
next
  case False
  obtain h t where h: "request_loop env req n 125 HttpNothing s = (h, t)" by fastforce
  from loop_write [OF assms(1) h] h assms(2) False show ?thesis
    by (cases h) (auto simp: handleRequest_def split: if_splits)
qed

lemma ReadDoc_reads:
  assumes "ReadDoc env db i s = (r, s')"
  shows "docs s' = docs s \<and> (\<forall>d x. r = Inr (d, x) \<longrightarrow> docs s db i = d)"
proof (cases "ce_ValidString env i \<and> ce_MaxRetries env \<ge> 1")
  case False
  then show ?thesis using assms by (auto simp: ReadDoc_def handleRequest_def split: if_splits)
next
  case True
  obtain h t where h: "request_loop env (couch_request GET (U_doc db i)) (ce_MaxRetries env) 125 HttpNothing s = (h, t)" by fastforce
  from loop_read [OF _ h] have t: "docs t = docs s" "h = HttpNothing \<or> (\<exists>u u'. docs u = docs s \<and> ce_Do env (couch_request GET (U_doc db i)) u = (h, u'))"
    by (simp_all add: couch_request_def)
  show ?thesis
  proof (cases h)
    case (HttpResp x)
    then obtain u u' where u: "docs u = docs s" "ce_Do env (couch_request GET (U_doc db i)) u = (HttpResp x, u')" using t(2) by auto
    from Get_doc [OF u(2)] u(1) HttpResp h t(1) True assms show ?thesis
      by (auto simp: ReadDoc_def handleRequest_def getRevisionHeader_def split: if_splits)
  qed (use h t(1) True assms in \<open>auto simp: ReadDoc_def handleRequest_def\<close>)
qed

lemma revision_reads: "getDocumentRevision env db i s = (r, s') \<Longrightarrow> docs s' = docs s \<and> (\<exists>x. r = Inr x)"
proof -
  assume a: "getDocumentRevision env db i s = (r, s')"
  obtain r1 s1 where rd: "ReadDoc env db i s = (r1, s1)" by fastforce
  have "r1 \<noteq> Inl (Panic p)" "r1 \<noteq> Inl OutOfFuel" for p
    using rd by (auto simp: ReadDoc_def getRevisionHeader_def split: if_splits prod.splits couch_result.splits http_body.splits)
  then show ?thesis using a rd ReadDoc_reads [OF rd]
    by (cases r1) (auto simp: getDocumentRevision_def lsm_try_def lift_res_def split: error.splits)
qed

lemma revision_write:
  assumes "write_of req db i v" "revision_loop env db i req n c l s = (r, s')"
  shows "docs s' \<in> {docs s, set_doc db i v (docs s)} \<and> (\<forall>x. r = Inr (Some (CouchOK x)) \<longrightarrow> docs s' = set_doc db i v (docs s) \<or> l = Some (CouchOK x))"
  using assms
proof (induction n arbitrary: req c l s)
  case (Suc n)
  obtain rv t where t: "(if rq_Rev req = [] \<or> c then getDocumentRevision env db i else ret (rq_Rev req)) s = (rv, t)" by fastforce
  then have "docs t = docs s \<and> (\<exists>x. rv = Inr x)" using revision_reads by (auto simp: lift_res_def split: if_splits)
  then obtain x where x: "docs t = docs s" "rv = Inr x" by blast
  obtain h u where h: "handleRequest env (req\<lparr>rq_Rev := x\<rparr>) (ce_MaxRetries env) t = (h, u)" by fastforce
  have w: "write_of (req\<lparr>rq_Rev := x\<rparr>) db i v" using Suc.prems(1) by simp
  note hw = handle_write [OF w h]
  show ?case
  proof (cases h)
    case (CouchOK y)
    then show ?thesis using Suc.prems(2) t x h hw by (auto simp: lsm_bind_def)
  next
    case (CouchErr st e)
    show ?thesis
    proof (cases "st = Some 409")
      case True
      then have "revision_loop env db i (req\<lparr>rq_Rev := x\<rparr>) n True (Some (CouchErr st e)) u = (r, s')"
        using Suc.prems(2) t x h CouchErr by (auto simp: lsm_bind_def)
      from Suc.IH [OF w this] x hw show ?thesis by auto
    next
      case False
      then show ?thesis using Suc.prems(2) t x h hw CouchErr by (auto simp: lsm_bind_def)
    qed
  qed
qed (auto simp: lift_res_def)

lemma SaveDoc_error:
  assumes "SaveDoc env db i revision d s = (r, s')"
  shows "docs s' \<in> {docs s, set_doc db i (Some d) (docs s)}"
proof -
  let ?req = "\<lparr>rq_Method = PUT, rq_URL = U_doc db i, rq_Data = Some d, rq_Rev = revision\<rparr>"
  obtain r1 t where t: "revision_loop env db i ?req (ce_MaxRetries env) False None s = (r1, t)" by fastforce
  have "write_of ?req db i (Some d)" by (simp add: write_of_def)
  from revision_write [OF this t] t assms show ?thesis
    by (auto simp: SaveDoc_def handleRequestWithRevisionRetry_def lift_res_def lsm_bind_def split: if_splits sum.splits option.splits couch_result.splits)
qed

lemma SaveDoc_stores:
  assumes "SaveDoc env db i revision d s = (Inr x, s')"
  shows "docs s' = set_doc db i (Some d) (docs s)"
proof -
  let ?req = "\<lparr>rq_Method = PUT, rq_URL = U_doc db i, rq_Data = Some d, rq_Rev = revision\<rparr>"
  obtain r1 t where t: "revision_loop env db i ?req (ce_MaxRetries env) False None s = (r1, t)" by fastforce
  have "write_of ?req db i (Some d)" by (simp add: write_of_def)
  from revision_write [OF this t] t assms show ?thesis
    by (auto simp: SaveDoc_def handleRequestWithRevisionRetry_def lift_res_def lsm_bind_def split: if_splits sum.splits option.splits couch_result.splits)
qed

lemma DeleteDoc_error:
  assumes "DeleteDoc env db i s = (r, s')"
  shows "docs s' \<in> {docs s, set_doc db i None (docs s)}"
proof -
  obtain r1 t where t: "revision_loop env db i (couch_request DELETE (U_doc db i)) (ce_MaxRetries env) False None s = (r1, t)" by fastforce
  have "write_of (couch_request DELETE (U_doc db i)) db i None" by (simp add: write_of_def couch_request_def)
  from revision_write [OF this t] t assms show ?thesis
    by (auto simp: DeleteDoc_def handleRequestWithRevisionRetry_def lift_res_def lsm_bind_def split: if_splits sum.splits option.splits couch_result.splits)
qed

lemma loop_gone:
  assumes "write_of req db i None" "request_loop env req n w l s = (HttpResp x, s')" "rp_StatusCode x = 404" "l \<noteq> HttpResp x"
  shows "docs s' db i = None"
  using assms(2,4)
proof (induction n arbitrary: w l s)
  case (Suc n)
  obtain r t where do: "ce_Do env req s = (r, t)" by fastforce
  show ?case
  proof (cases "\<exists>y. r = HttpResp y \<and> rp_StatusCode y < 500")
    case True
    then show ?thesis using Suc.prems do Delete_none [OF assms(1)] assms(3) by auto
  next
    case False
    then obtain w1 s1 where "request_loop env req n w1 r s1 = (HttpResp x, s')" using Suc.prems do by (cases r) auto
    moreover have "r \<noteq> HttpResp x" using False assms(3) by auto
    ultimately show ?thesis using Suc.IH by blast
  qed
qed simp

lemma handle_gone:
  assumes "write_of req db i None" "handleRequest env req n s = (CouchErr (Some 404) e, s')"
  shows "docs s' db i = None"
proof -
  obtain h t where h: "request_loop env req n 125 HttpNothing s = (h, t)" by fastforce
  with assms(2) obtain x where "h = HttpResp x" "rp_StatusCode x = 404" "t = s'"
    by (cases h) (auto simp: handleRequest_def split: if_splits)
  then show ?thesis using loop_gone [OF assms(1), of n 125 HttpNothing s x t] h by simp
qed

lemma revision_gone:
  assumes "write_of req db i None" "revision_loop env db i req n c l s = (Inr (Some (CouchErr (Some 404) e)), s')" "l \<noteq> Some (CouchErr (Some 404) e)"
  shows "docs s' db i = None"
  using assms
proof (induction n arbitrary: req c l s)
  case (Suc n)
  obtain rv t where t: "(if rq_Rev req = [] \<or> c then getDocumentRevision env db i else ret (rq_Rev req)) s = (rv, t)" by fastforce
  then obtain x where x: "rv = Inr x" using revision_reads by (fastforce simp: lift_res_def split: if_splits)
  obtain h u where h: "handleRequest env (req\<lparr>rq_Rev := x\<rparr>) (ce_MaxRetries env) t = (h, u)" by fastforce
  have w: "write_of (req\<lparr>rq_Rev := x\<rparr>) db i None" using Suc.prems(1) by simp
  show ?case
  proof (cases "\<exists>m. h = CouchErr (Some 409) m")
    case True
    then obtain m where "revision_loop env db i (req\<lparr>rq_Rev := x\<rparr>) n True (Some (CouchErr (Some 409) m)) u = (Inr (Some (CouchErr (Some 404) e)), s')"
      using Suc.prems(2) t x h by (auto simp: lsm_bind_def)
    from Suc.IH [OF w this] show ?thesis by simp
  next
    case False
    then have "h = CouchErr (Some 404) e" "u = s'"
      using Suc.prems(2) t x h by (cases h; auto simp: lsm_bind_def split: if_splits)+
    then show ?thesis using handle_gone [OF w] h by blast
  qed
qed (auto simp: lift_res_def)

lemma DeleteDoc_removes:
  assumes "DeleteDoc env db i s = (Inr (), s')"
  shows "docs s' = set_doc db i None (docs s)"
proof -
  let ?req = "couch_request DELETE (U_doc db i)"
  obtain r1 t where t: "revision_loop env db i ?req (ce_MaxRetries env) False None s = (r1, t)" by fastforce
  have w: "write_of ?req db i None" by (simp add: write_of_def couch_request_def)
  have "r1 = Inr (Some (CouchErr (Some 404) e)) \<Longrightarrow> docs t db i = None" for e using revision_gone [OF w, of "ce_MaxRetries env" False None s e t] t by simp
  moreover have "docs t = docs s \<Longrightarrow> docs t db i = None \<Longrightarrow> docs t = set_doc db i None (docs s)"
    by (auto simp: set_doc_def fun_eq_iff)
  ultimately show ?thesis using revision_write [OF w t] t assms
    by (auto simp: DeleteDoc_def handleRequestWithRevisionRetry_def lift_res_def lsm_bind_def split: if_splits sum.splits option.splits couch_result.splits)
qed

end

section \<open>A server\<close>

text \<open>
  Documents with their revisions. A request may be lost before or after it is carried out, or the
  server may break down over it: the plan of faults says which.
\<close>

datatype fault = Fine | LostRequest | LostAnswer | BrokenServer

record couch_store =
  st_docs :: "(bytes \<times> bytes, int \<times> CouchDoc) gomap"
  st_dbs :: "bytes list"
  st_faults :: "fault list"

definition answer :: "int \<Rightarrow> bytes \<Rightarrow> http_body \<Rightarrow> couch_store \<Rightarrow> http_response \<times> couch_store" where
  "answer status etag body st = (\<lparr>rp_StatusCode = status, rp_Etag = etag, rp_Body = body\<rparr>, st)"

definition rev_of :: "int \<Rightarrow> bytes" where
  "rev_of n = CHR 0x22 # FormatInt n @ [CHR 0x22]"

definition doc_request :: "http_request \<Rightarrow> bytes \<Rightarrow> bytes \<Rightarrow> couch_store \<Rightarrow> http_response \<times> couch_store" where
  "doc_request req db i st =
     (case gm_get (st_docs st) (db, i) of
        None \<Rightarrow>
          (case (rq_Method req, rq_Data req) of
             (PUT, Some d) \<Rightarrow> if rq_Rev req = [] then answer 201 (rev_of 1) (BodyOk True) (st\<lparr>st_docs := gm_put (db, i) (1, d) (st_docs st)\<rparr>) else answer 409 [] BodyBroken st
           | _ \<Rightarrow> answer 404 [] BodyBroken st)
      | Some (n, d) \<Rightarrow>
          (case (rq_Method req, rq_Data req) of
             (GET, _) \<Rightarrow> answer 200 (rev_of n) (BodyDoc d) st
           | (PUT, Some d) \<Rightarrow>
               if rq_Rev req = FormatInt n then answer 201 (rev_of (n + 1)) (BodyOk True) (st\<lparr>st_docs := gm_put (db, i) (n + 1, d) (st_docs st)\<rparr>)
               else answer 409 [] BodyBroken st
           | (DELETE, _) \<Rightarrow>
               if rq_Rev req = FormatInt n then answer 200 (rev_of (n + 1)) (BodyOk True) (st\<lparr>st_docs := gm_del (db, i) (st_docs st)\<rparr>)
               else answer 409 [] BodyBroken st
           | _ \<Rightarrow> answer 405 [] BodyBroken st))"

definition rows_between :: "bytes \<Rightarrow> bytes \<Rightarrow> bytes \<Rightarrow> couch_store \<Rightarrow> QueryRow list" where
  "rows_between db a b st =
     map (\<lambda>((_, i), (_, d)). \<lparr>qw_ID = i, qw_Doc = cd_JSONValue d, qw_Attachments = cd_Attachments d \<noteq> None\<rparr>)
       (sort_key (snd \<circ> fst) (filter (\<lambda>((db', i), _). db' = db \<and> a \<le> i \<and> (b = [] \<or> i < b)) (st_docs st)))"

definition carry_out_request :: "http_request \<Rightarrow> couch_store \<Rightarrow> http_response \<times> couch_store" where
  "carry_out_request req st =
     (case rq_URL req of
        U_doc db i \<Rightarrow> doc_request req db i st
      | U_db db \<Rightarrow>
          if rq_Method req = GET then (if db \<in> set (st_dbs st) then answer 200 [] (BodyInfo ''0'') st else answer 404 [] BodyBroken st)
          else if rq_Method req = PUT then (if db \<in> set (st_dbs st) then answer 412 [] BodyBroken st else answer 201 [] (BodyOk True) (st\<lparr>st_dbs := db # st_dbs st\<rparr>))
          else answer 405 [] BodyBroken st
      | U_range db a b limit skip \<Rightarrow> answer 200 [] (BodyRows (take (nat limit) (drop (nat skip) (rows_between db a b st)))) st
      | U_root \<Rightarrow> answer 200 [] (BodyVersion ''2.0.0'') st
      | U_commit _ \<Rightarrow> answer 201 [] (BodyOk True) st
      | U_find _ _ \<Rightarrow> answer 400 [] BodyBroken st)"

definition serve_request :: "http_request \<Rightarrow> couch_store \<Rightarrow> http_result \<times> couch_store" where
  "serve_request req st =
     (let fault = (case st_faults st of [] \<Rightarrow> Fine | f # _ \<Rightarrow> f); st = st\<lparr>st_faults := tl (st_faults st)\<rparr> in
      case fault of
        Fine \<Rightarrow> (case carry_out_request req st of (r, st) \<Rightarrow> (HttpResp r, st))
      | LostRequest \<Rightarrow> (HttpErr ''timeout'', st)
      | LostAnswer \<Rightarrow> (HttpErr ''timeout'', snd (carry_out_request req st))
      | BrokenServer \<Rightarrow> (HttpResp \<lparr>rp_StatusCode = 500, rp_Etag = [], rp_Body = BodyBroken\<rparr>, st))"

definition stored_docs :: "couch_store \<Rightarrow> bytes \<Rightarrow> bytes \<Rightarrow> CouchDoc option" where
  "stored_docs st db i = map_option snd (gm_get (st_docs st) (db, i))"

definition served :: "nat \<Rightarrow> nat \<Rightarrow> (bytes \<Rightarrow> bool) \<Rightarrow> (bytes \<Rightarrow> bool) \<Rightarrow> couch_store couch_env" where
  "served retries startup isJSON valid =
     \<lparr>ce_Do = serve_request, ce_Sleep = (\<lambda>_ s. s), ce_MaxRetries = retries, ce_MaxRetriesOnStartup = startup, ce_IsJSON = isJSON, ce_ValidString = valid\<rparr>"

lemma rev_of_nonempty [simp]: "rev_of n \<noteq> []"
  by (simp add: rev_of_def)

lemma carry_out_get: "rq_Method req = GET \<Longrightarrow> carry_out_request req st = (r, st') \<Longrightarrow> st' = st"
  by (auto simp: carry_out_request_def doc_request_def answer_def split: couch_url.splits option.splits prod.splits if_splits)

lemma carry_out_write:
  assumes "write_of req db i v" "carry_out_request req st = (r, st')"
  shows "(if rp_StatusCode r < 400 then stored_docs st' = set_doc db i v (stored_docs st) else stored_docs st' = stored_docs st)
    \<and> (rp_StatusCode r = 404 \<longrightarrow> stored_docs st db i = None)"
  using assms
  by (auto simp: write_of_def carry_out_request_def doc_request_def answer_def stored_docs_def set_doc_def fun_eq_iff
      map_of_delete AList.update_conv AList.delete_conv'
      split: option.splits prod.splits if_splits)

lemma serve_cases:
  assumes "serve_request req s = (res, s')"
  obtains (served) r where "res = HttpResp r" "carry_out_request req (s\<lparr>st_faults := tl (st_faults s)\<rparr>) = (r, s')"
    | (lost) r where "res = HttpErr ''timeout''" "carry_out_request req (s\<lparr>st_faults := tl (st_faults s)\<rparr>) = (r, s')"
    | (none) "\<And>r. res = HttpResp r \<Longrightarrow> rp_StatusCode r = 500" "s' = s\<lparr>st_faults := tl (st_faults s)\<rparr>"
proof (cases "case st_faults s of [] \<Rightarrow> Fine | f # _ \<Rightarrow> f")
  case Fine
  then show ?thesis using assms served by (auto simp: serve_request_def split: prod.splits)
next
  case LostAnswer
  then show ?thesis using assms lost by (cases "carry_out_request req (s\<lparr>st_faults := tl (st_faults s)\<rparr>)") (auto simp: serve_request_def)
qed (use assms none in \<open>auto simp: serve_request_def\<close>)

lemma stored_faults [simp]: "stored_docs (s\<lparr>st_faults := f\<rparr>) = stored_docs s"
  by (simp add: stored_docs_def fun_eq_iff)

interpretation couch: couch_server "served retries startup isJSON valid" stored_docs for retries startup isJSON valid
proof unfold_locales
  let ?env = "served retries startup isJSON valid"
  have do [simp]: "ce_Do ?env = serve_request" by (simp add: served_def)
  show "stored_docs (ce_Sleep ?env w s) = stored_docs s" for w s by (simp add: served_def)
  show "stored_docs s' = stored_docs s" if "rq_Method req = GET" "ce_Do ?env req s = (res, s')" for req s res s'
  proof -
    have "serve_request req s = (res, s')" using that(2) by simp
    then show ?thesis by (cases rule: serve_cases) (use carry_out_get [OF that(1)] in fastforce)+
  qed
  show "(rp_StatusCode r < 400 \<longrightarrow> rp_Etag r \<noteq> [] \<and> (\<exists>d. stored_docs s db i = Some d \<and> rp_Body r = BodyDoc d))
      \<and> (rp_StatusCode r = 404 \<longrightarrow> stored_docs s db i = None)"
    if "ce_Do ?env (couch_request GET (U_doc db i)) s = (HttpResp r, s')" for db i s r s'
  proof -
    have "serve_request (couch_request GET (U_doc db i)) s = (HttpResp r, s')" using that by simp
    then show ?thesis
      by (cases rule: serve_cases)
        (auto simp: carry_out_request_def couch_request_def doc_request_def answer_def stored_docs_def split: option.splits)
  qed
  fix req db i v s r s' res
  assume w: "write_of req db i v"
  have any: "stored_docs s' \<in> {stored_docs s, set_doc db i v (stored_docs s)}" if "carry_out_request req (s\<lparr>st_faults := f\<rparr>) = (r, s')" for f r
    using carry_out_write [OF w that] by (auto split: if_splits)
  show "stored_docs s' \<in> {stored_docs s, set_doc db i v (stored_docs s)}" if "ce_Do ?env req s = (res, s')"
  proof -
    have "serve_request req s = (res, s')" using that by simp
    then show ?thesis by (cases rule: serve_cases) (use any in auto)
  qed
  show "stored_docs s' = set_doc db i v (stored_docs s)" if "ce_Do ?env req s = (HttpResp r, s')" "rp_StatusCode r < 400"
  proof -
    have "serve_request req s = (HttpResp r, s')" using that(1) by simp
    then show ?thesis by (cases rule: serve_cases) (use carry_out_write [OF w] that(2) in fastforce)+
  qed
next
  let ?env = "served retries startup isJSON valid"
  show "stored_docs s' db i = None" if "write_of req db i None" "ce_Do ?env req s = (HttpResp r, s')" "rp_StatusCode r = 404" for req db i s r s'
  proof -
    have "serve_request req s = (HttpResp r, s')" using that(2) by (simp add: served_def)
    then show ?thesis by (cases rule: serve_cases) (use carry_out_write [OF that(1)] that(3) in fastforce)+
  qed
qed

section \<open>Without faults\<close>

definition couch_outcome :: "http_response \<Rightarrow> couch_result" where
  "couch_outcome r = (if rp_StatusCode r \<ge> 400 then CouchErr (Some (rp_StatusCode r)) ''Couch DB Error'' else CouchOK r)"

text \<open>
  A server that answers: a request with the current revision of a document (none for a missing one) is
  carried out. \<open>good\<close> says of a state that the server answers in it, \<open>revision\<close> is the current one.
\<close>

locale calm_server = couch_server env docs
  for env :: "'d couch_env" and docs :: "'d \<Rightarrow> bytes \<Rightarrow> bytes \<Rightarrow> CouchDoc option" +
  fixes db :: bytes and good :: "'d \<Rightarrow> bool" and revision :: "'d \<Rightarrow> bytes \<Rightarrow> bytes"
  assumes Retries: "0 < ce_MaxRetries env"
    and Answered: "good s \<Longrightarrow> \<exists>r s'. ce_Do env req s = (HttpResp r, s') \<and> rp_StatusCode r < 500 \<and> good s'"
    and Get_revision: "good s \<Longrightarrow> ce_Do env (couch_request GET (U_doc db i)) s = (HttpResp r, s') \<Longrightarrow> revision s' i = revision s i
      \<and> (if docs s db i = None then rp_StatusCode r = 404 \<and> revision s i = [] else rp_StatusCode r < 400 \<and> unquote (rp_Etag r) = revision s i)"
    and Put_current: "good s \<Longrightarrow> rq_Method req = PUT \<Longrightarrow> rq_URL req = U_doc db i \<Longrightarrow> rq_Data req \<noteq> None \<Longrightarrow> rq_Rev req = revision s i
      \<Longrightarrow> ce_Do env req s = (HttpResp r, s') \<Longrightarrow> rp_StatusCode r < 400 \<and> rp_Etag r \<noteq> []"
    and Delete_current: "good s \<Longrightarrow> rq_Method req = DELETE \<Longrightarrow> rq_URL req = U_doc db i \<Longrightarrow> rq_Rev req = revision s i
      \<Longrightarrow> ce_Do env req s = (HttpResp r, s') \<Longrightarrow> rp_StatusCode r < 400 \<or> rp_StatusCode r = 404"
    and Commit: "good s \<Longrightarrow> ce_Do env (couch_request POST (U_commit db)) s = (HttpResp r, s') \<Longrightarrow> rp_StatusCode r < 400 \<and> rp_Body r = BodyOk True \<and> docs s' = docs s"
    and Info: "good s \<Longrightarrow> ce_Do env (couch_request GET (U_db db)) s = (HttpResp r, s') \<Longrightarrow> rp_StatusCode r < 400"
    and Kept: "good s \<Longrightarrow> rq_Method req = GET \<or> rq_URL req = U_commit db \<or> (\<exists>j. rq_URL req = U_doc db j \<and> j \<noteq> i)
      \<Longrightarrow> ce_Do env req s = (HttpResp r, s') \<Longrightarrow> revision s' i = revision s i"
begin

lemma handled:
  assumes "good s"
  obtains r s' where "ce_Do env req s = (HttpResp r, s')" "good s'"
    "handleRequest env req (ce_MaxRetries env) s = (couch_outcome r, s')"
proof -
  obtain r s' where r: "ce_Do env req s = (HttpResp r, s')" "rp_StatusCode r < 500" "good s'" using Answered [OF assms] by blast
  moreover obtain n where "ce_MaxRetries env = Suc n" using Retries gr0_implies_Suc by blast
  ultimately show ?thesis using that by (simp add: handleRequest_def couch_outcome_def)
qed

lemma revision_current:
  assumes "good s" "ce_ValidString env i"
  shows "\<exists>s'. getDocumentRevision env db i s = (Inr (revision s i), s') \<and> good s' \<and> revision s' i = revision s i"
proof -
  obtain r s' where r: "ce_Do env (couch_request GET (U_doc db i)) s = (HttpResp r, s')" "good s'"
      "handleRequest env (couch_request GET (U_doc db i)) (ce_MaxRetries env) s = (couch_outcome r, s')"
    using handled [OF assms(1)] .
  from Get_revision [OF assms(1) r(1)] Get_doc [OF r(1)] r(2,3) assms(2) show ?thesis
    by (auto simp: getDocumentRevision_def ReadDoc_def getRevisionHeader_def lsm_try_def couch_outcome_def split: if_splits)
qed

text \<open>The first attempt to write has the current revision.\<close>

lemma first_attempt:
  assumes "good s" "ce_ValidString env i" "rq_Rev req = []"
  shows "\<exists>s1 r s'. good s1 \<and> good s' \<and> ce_Do env (req\<lparr>rq_Rev := revision s1 i\<rparr>) s1 = (HttpResp r, s')
    \<and> (rp_StatusCode r \<noteq> 409 \<longrightarrow> handleRequestWithRevisionRetry env db i req s = (Inr (Some (couch_outcome r)), s'))"
proof -
  obtain s1 where s1: "getDocumentRevision env db i s = (Inr (revision s i), s1)" "good s1" "revision s1 i = revision s i"
    using revision_current [OF assms(1,2)] by blast
  obtain r s' where r: "ce_Do env (req\<lparr>rq_Rev := revision s1 i\<rparr>) s1 = (HttpResp r, s')" "good s'"
      "handleRequest env (req\<lparr>rq_Rev := revision s1 i\<rparr>) (ce_MaxRetries env) s1 = (couch_outcome r, s')"
    using handled [OF s1(2)] .
  obtain n where n: "ce_MaxRetries env = Suc n" using Retries gr0_implies_Suc by blast
  have "handleRequestWithRevisionRetry env db i req s = (Inr (Some (couch_outcome r)), s')" if "rp_StatusCode r \<noteq> 409"
    using that r(3) s1 assms(3) by (simp add: handleRequestWithRevisionRetry_def n lsm_bind_def couch_outcome_def)
  then show ?thesis using s1(2) r(1,2) by blast
qed

lemma Save_good:
  assumes "good s" "ce_ValidString env i" "cd_Attachments x \<noteq> None \<or> ce_IsJSON env (cd_JSONValue x)"
  shows "\<exists>v s'. SaveDoc env db i [] x s = (Inr v, s') \<and> good s'"
proof -
  let ?req = "\<lparr>rq_Method = PUT, rq_URL = U_doc db i, rq_Data = Some x, rq_Rev = []\<rparr>"
  have "rq_Rev ?req = []" by simp
  from first_attempt [OF assms(1,2) this] obtain s1 r s' where r: "good s1" "good s'" "ce_Do env (?req\<lparr>rq_Rev := revision s1 i\<rparr>) s1 = (HttpResp r, s')"
      "rp_StatusCode r \<noteq> 409 \<longrightarrow> handleRequestWithRevisionRetry env db i ?req s = (Inr (Some (couch_outcome r)), s')" by blast
  from Put_current [OF r(1) _ _ _ _ r(3)] have "rp_StatusCode r < 400" "rp_Etag r \<noteq> []" by simp_all
  then show ?thesis using r(2,4) assms(2,3) by (auto simp: SaveDoc_def lsm_bind_def getRevisionHeader_def lift_res_def couch_outcome_def)
qed

lemma Delete_good:
  assumes "good s" "ce_ValidString env i"
  shows "\<exists>s'. DeleteDoc env db i s = (Inr (), s') \<and> good s'"
proof -
  let ?req = "couch_request DELETE (U_doc db i)"
  have "rq_Rev ?req = []" by (simp add: couch_request_def)
  from first_attempt [OF assms this] obtain s1 r s' where r: "good s1" "good s'" "ce_Do env (?req\<lparr>rq_Rev := revision s1 i\<rparr>) s1 = (HttpResp r, s')"
      "rp_StatusCode r \<noteq> 409 \<longrightarrow> handleRequestWithRevisionRetry env db i ?req s = (Inr (Some (couch_outcome r)), s')" by blast
  from Delete_current [OF r(1) _ _ _ r(3)] have "rp_StatusCode r < 400 \<or> rp_StatusCode r = 404" by (simp add: couch_request_def)
  then show ?thesis using r(2,4) by (auto simp: DeleteDoc_def lsm_bind_def lift_res_def couch_outcome_def)
qed

lemma Read_good:
  assumes "good s" "ce_ValidString env i"
  shows "\<exists>rv s'. ReadDoc env db i s = (Inr (docs s db i, rv), s')"
proof -
  obtain r s' where r: "ce_Do env (couch_request GET (U_doc db i)) s = (HttpResp r, s')" "good s'"
      "handleRequest env (couch_request GET (U_doc db i)) (ce_MaxRetries env) s = (couch_outcome r, s')"
    using handled [OF assms(1)] .
  from Get_revision [OF assms(1) r(1)] Get_doc [OF r(1)] r(3) assms(2) show ?thesis
    by (auto simp: ReadDoc_def getRevisionHeader_def couch_outcome_def split: if_splits)
qed

lemma Commit_good:
  assumes "good s"
  shows "\<exists>s'. EnsureFullCommit env db s = (Inr True, s') \<and> good s' \<and> docs s' = docs s"
proof -
  obtain r s' where r: "ce_Do env (couch_request POST (U_commit db)) s = (HttpResp r, s')" "good s'"
      "handleRequest env (couch_request POST (U_commit db)) (ce_MaxRetries env) s = (couch_outcome r, s')"
    using handled [OF assms] .
  from Commit [OF assms r(1)] r(2,3) show ?thesis by (simp add: EnsureFullCommit_def body_ok_def couch_outcome_def)
qed

lemma Info_good:
  assumes "good s"
  shows "\<exists>r q s'. GetDatabaseInfo env db s = ((CouchOK r, q), s') \<and> good s' \<and> docs s' = docs s"
proof -
  obtain r s' where r: "ce_Do env (couch_request GET (U_db db)) s = (HttpResp r, s')" "good s'"
      "handleRequest env (couch_request GET (U_db db)) (ce_MaxRetries env) s = (couch_outcome r, s')"
    using handled [OF assms] .
  from Info [OF assms r(1)] Get [OF _ r(1)] r(2,3) show ?thesis by (simp add: GetDatabaseInfo_def couch_request_def couch_outcome_def)
qed

end

definition calm :: "bytes \<Rightarrow> couch_store \<Rightarrow> bool" where
  "calm db st \<longleftrightarrow> st_faults st = [] \<and> db \<in> set (st_dbs st)"

definition stored_revision :: "bytes \<Rightarrow> couch_store \<Rightarrow> bytes \<Rightarrow> bytes" where
  "stored_revision db st i = (case gm_get (st_docs st) (db, i) of None \<Rightarrow> [] | Some (m, _) \<Rightarrow> FormatInt m)"

lemma FormatInt_plain: "CHR 0x22 \<notin> set (FormatInt n)"
  using nat_str_digits [of "CHR 0x22"] by (auto simp: FormatInt_def is_digit_def)

lemma unquote_rev [simp]: "unquote (rev_of n) = FormatInt n"
proof -
  have "count_list (FormatInt n) (CHR 0x22) = 0" using FormatInt_plain [of n] by (simp add: count_list_0_iff)
  moreover have "filter (\<lambda>c. c \<noteq> CHR 0x22) (FormatInt n) = FormatInt n" using FormatInt_plain [of n] by (simp add: filter_id_conv) blast
  ultimately show ?thesis by (simp add: unquote_def rev_of_def)
qed

lemma carry_out_status: "rp_StatusCode (fst (carry_out_request req st)) < 500"
  by (auto simp: carry_out_request_def doc_request_def answer_def split: couch_url.splits option.splits prod.splits http_method.splits)

lemma carry_out_calm: "calm db st \<Longrightarrow> calm db (snd (carry_out_request req st))"
  by (auto simp: calm_def carry_out_request_def doc_request_def answer_def split: couch_url.splits option.splits prod.splits http_method.splits)

lemma calm_serve: "calm db st \<Longrightarrow> ce_Do (served retries startup isJSON valid) req st = (HttpResp (fst (carry_out_request req st)), snd (carry_out_request req st))"
proof -
  assume "calm db st"
  then have none: "st_faults st = []" "st\<lparr>st_faults := []\<rparr> = st" by (simp_all add: calm_def)
  show ?thesis unfolding served_def serve_request_def couch_env.simps none Let_def list.case list.sel fault.case by (simp split: prod.splits)
qed

lemma carry_out_revision:
  assumes "rq_URL req = U_commit db \<or> (\<exists>j. rq_URL req = U_doc db j \<and> j \<noteq> i)" "carry_out_request req st = (r, st')"
  shows "stored_revision db st' i = stored_revision db st i"
  using assms
  by (auto simp: carry_out_request_def doc_request_def answer_def stored_revision_def AList.update_conv AList.delete_conv' map_of_delete
      split: option.splits prod.splits if_splits http_method.splits)

lemmas carry_out_simps = carry_out_request_def doc_request_def answer_def couch_request_def

interpretation calm: calm_server "served (Suc n) startup isJSON valid" stored_docs db "calm db" "stored_revision db" for n startup isJSON valid db
proof (unfold_locales, goal_cases)
  case (2 s req)
  then show ?case using carry_out_status [of req s] carry_out_calm [of db s req] by (simp add: calm_serve)
next
  case (3 s i r s')
  then show ?case by (auto simp: calm_serve carry_out_simps stored_revision_def stored_docs_def split: option.splits)
next
  case (4 s req i r s')
  then show ?case by (cases "gm_get (st_docs s) (db, i)") (auto simp: calm_serve carry_out_simps stored_revision_def)
next
  case (5 s req i r s')
  then show ?case by (cases "gm_get (st_docs s) (db, i)") (auto simp: calm_serve carry_out_simps stored_revision_def)
next
  case (6 s r s')
  then show ?case by (auto simp: calm_serve carry_out_simps)
next
  case (7 s r s')
  then show ?case by (auto simp: calm_serve carry_out_simps calm_def)
next
  case (8 s req i r s')
  then show ?case using carry_out_get [of req s r s'] carry_out_revision [of req db i s r s'] by (cases "carry_out_request req s") (auto simp: calm_serve)
qed (simp add: served_def)

end
