(* ===== verification/QueryWrapper.thy ===== *)
theory QueryWrapper
  imports GoLib
begin

text \<open>
  The rewriting of a query before it goes to CouchDB,
  \<^verbatim>\<open>core/ledger/kvledger/txmgmt/statedb/statecouchdb/query_wrapper.go\<close>: field names get the prefix of the wrapper,
  and the selector is restricted to the namespace. Parsing and printing JSON are parameters.

  A map of Go is walked through in any order: \<open>ord\<close> gives one. An object is changed in place while a
  copy of its entries is walked through, and entry and copy share the values below them: the model keeps
  the values under their old names and the new names beside them. Objects are nested, so the recursion
  has the depth of the query as fuel.

  Results: the depth is enough (\<open>processInterfaceMap_terminates\<close>); what comes out has the limit of the peer
  and is satisfied by documents of the namespace only, by those whose data satisfy the selector that was
  asked with if its objects have fields or one combination operator (\<open>query_rewritten\<close>, with the
  semantics of selectors as the locale \<open>mango\<close>). But every operator of an object walks through the whole
  object again, so that below two operators fields are wrapped twice (\<open>two_operators_wrap_twice\<close>), and
  values that are neither strings nor objects stop the peer (\<open>numbers_in_array_panic\<close>).
\<close>

datatype json =
    JNull
  | JBool bool
  | JNumber bytes
  | JString bytes
  | JArray "json list"
  | JObject "(bytes \<times> json) list"

type_synonym json_object = "(bytes, json) gomap"

definition dataWrapper :: bytes where
  "dataWrapper = ''data''"

definition validOperators :: "bytes list" where
  "validOperators = [''$and'', ''$or'', ''$not'', ''$nor'', ''$all'', ''$elemMatch'', ''$lt'', ''$lte'', ''$eq'', ''$ne'', ''$gte'', ''$gt'',
     ''$exits'', ''$type'', ''$in'', ''$nin'', ''$size'', ''$mod'', ''$regex'']"

definition wrapped_name :: "bytes \<Rightarrow> bytes" where
  "wrapped_name s = dataWrapper @ ''.'' @ s"

abbreviation conversion_panic :: "'a res" where
  "conversion_panic \<equiv> Inl (Panic ''interface conversion'')"

section \<open>The walk\<close>

text \<open>An item of an array; an array in an array is converted to an object, which fails.\<close>

definition wrap_item :: "(json_object \<Rightarrow> json_object res) \<Rightarrow> bytes \<Rightarrow> json \<Rightarrow> json res" where
  "wrap_item process jsonKey itemValue =
     (case itemValue of
        JString s \<Rightarrow> Inr (if jsonKey \<noteq> ''use_index'' then JString (wrapped_name s) else itemValue)
      | JObject m \<Rightarrow> res_bind (process m) (\<lambda>m'. Inr (JObject m'))
      | JNull \<Rightarrow> Inr JNull
      | _ \<Rightarrow> conversion_panic)"

definition wrap_value :: "(json_object \<Rightarrow> json_object res) \<Rightarrow> bytes \<Rightarrow> json \<Rightarrow> json res" where
  "wrap_value process jsonKey jsonValue =
     (case jsonValue of
        JArray items \<Rightarrow> res_bind (mapM (wrap_item process jsonKey) items) (\<lambda>items'. Inr (JArray items'))
      | JObject m \<Rightarrow> res_bind (process m) (\<lambda>m'. Inr (JObject m'))
      | JBool _ \<Rightarrow> conversion_panic
      | _ \<Rightarrow> Inr jsonValue)"

definition wrap_entry :: "(json_object \<Rightarrow> json_object res) \<Rightarrow> bytes \<times> json \<Rightarrow> (bytes \<times> json) res" where
  "wrap_entry process = (\<lambda>(k, v). res_bind (wrap_value process k v) (\<lambda>v'. Inr (k, v')))"

text \<open>The values of a fragment by their names in the copy, and for every name it has now the one in the copy.\<close>

type_synonym fragment = "json_object \<times> (bytes, bytes) gomap"

definition value_of :: "json_object \<Rightarrow> bytes \<Rightarrow> json" where
  "value_of vals k = (case gm_get vals k of None \<Rightarrow> JNull | Some v \<Rightarrow> v)"

definition wrap_all :: "(json_object \<Rightarrow> json_object res) \<Rightarrow> fragment \<Rightarrow> fragment res" where
  "wrap_all process = (\<lambda>(vals, names).
     res_bind (foldM (\<lambda>vals (k, old). res_bind (wrap_value process k (value_of vals old)) (\<lambda>v. Inr (gm_put old v vals))) vals names) (\<lambda>vals'.
       Inr (vals', names)))"

definition wrapFieldName :: "bytes \<Rightarrow> fragment \<Rightarrow> fragment" where
  "wrapFieldName key = (\<lambda>(vals, names). (vals, gm_put (wrapped_name key) key (gm_del key names)))"

definition fragment_step :: "(json_object \<Rightarrow> json_object res) \<Rightarrow> fragment \<Rightarrow> bytes \<Rightarrow> fragment res" where
  "fragment_step process fragment keyVal = (if keyVal \<in> set validOperators then wrap_all process fragment else Inr (wrapFieldName keyVal fragment))"

primrec processInterfaceMap :: "(bytes list \<Rightarrow> bytes list) \<Rightarrow> nat \<Rightarrow> json_object \<Rightarrow> json_object res" where
  "processInterfaceMap ord 0 = (\<lambda>jsonFragment. Inl OutOfFuel)"
| "processInterfaceMap ord (Suc n) = (\<lambda>jsonFragment.
     res_bind (foldM (fragment_step (processInterfaceMap ord n)) (jsonFragment, map (\<lambda>k. (k, k)) (gm_keys jsonFragment)) (ord (gm_keys jsonFragment)))
       (\<lambda>(vals, names). Inr (map (\<lambda>(k, old). (k, value_of vals old)) names)))"

definition processAndWrapQuery :: "(bytes list \<Rightarrow> bytes list) \<Rightarrow> nat \<Rightarrow> json_object \<Rightarrow> json_object res" where
  "processAndWrapQuery ord n jsonQueryMap = mapM (wrap_entry (processInterfaceMap ord n)) jsonQueryMap"

section \<open>The query\<close>

definition setNamespaceInSelector :: "bytes \<Rightarrow> json \<Rightarrow> json_object \<Rightarrow> json_object" where
  "setNamespaceInSelector namespace jsonValue jsonQueryMap =
     gm_put ''selector'' (JObject [(''$and'', JArray [JObject [(''chaincodeid'', JString namespace)], jsonValue])]) jsonQueryMap"

definition setDefaultNamespaceInSelector :: "bytes \<Rightarrow> json_object \<Rightarrow> json_object" where
  "setDefaultNamespaceInSelector namespace jsonQueryMap = gm_put ''selector'' (JObject [(''chaincodeid'', JString namespace)]) jsonQueryMap"

definition add_fields :: "json_object \<Rightarrow> json_object res" where
  "add_fields m =
     (case gm_get m ''fields'' of
        None \<Rightarrow> Inr m
      | Some JNull \<Rightarrow> Inl (Panic ''nil pointer dereference'')
      | Some (JArray xs) \<Rightarrow> Inr (gm_put ''fields'' (JArray (xs @ [JString ''_id'', JString ''version'', JString ''chaincodeid''])) m)
      | _ \<Rightarrow> Inr m)"

definition add_selector :: "bytes \<Rightarrow> json_object \<Rightarrow> json_object" where
  "add_selector namespace m =
     (case gm_get m ''selector'' of None \<Rightarrow> setDefaultNamespaceInSelector namespace m | Some v \<Rightarrow> setNamespaceInSelector namespace v m)"

primrec json_depth :: "json \<Rightarrow> nat" where
  "json_depth JNull = 0"
| "json_depth (JBool b) = 0"
| "json_depth (JNumber n) = 0"
| "json_depth (JString s) = 0"
| "json_depth (JArray xs) = Suc (foldr max (map json_depth xs) 0)"
| "json_depth (JObject m) = Suc (foldr max (map snd (map (map_prod id json_depth) m)) 0)"

record query_codec =
  qc_Decode :: "bytes \<Rightarrow> json_object option res"
  qc_Marshal :: "json_object \<Rightarrow> bytes"

text \<open>The query \<^verbatim>\<open>null\<close> leaves a nil map, which cannot be written to.\<close>

definition ApplyQueryWrapper :: "(bytes list \<Rightarrow> bytes list) \<Rightarrow> query_codec \<Rightarrow> bytes \<Rightarrow> bytes \<Rightarrow> int \<Rightarrow> int \<Rightarrow> bytes res" where
  "ApplyQueryWrapper ord qc namespace queryString queryLimit querySkip =
     res_bind (qc_Decode qc queryString) (\<lambda>q.
       case q of
         None \<Rightarrow> Inl (Panic ''assignment to entry in nil map'')
       | Some jsonQueryMap \<Rightarrow>
           res_bind (processAndWrapQuery ord (json_depth (JObject jsonQueryMap)) jsonQueryMap) (\<lambda>m.
           res_bind (add_fields m) (\<lambda>m.
             Inr (qc_Marshal qc (gm_put ''skip'' (JNumber (FormatInt querySkip)) (gm_put ''limit'' (JNumber (FormatInt queryLimit)) (add_selector namespace m)))))))"

section \<open>The depth is enough\<close>

definition res_all :: "('a \<Rightarrow> bool) \<Rightarrow> 'a res \<Rightarrow> bool" where
  "res_all P r \<longleftrightarrow> (case r of Inl e \<Rightarrow> e \<noteq> OutOfFuel | Inr x \<Rightarrow> P x)"

lemma res_all_simps [simp]: "res_all P (Inr x) = P x" "res_all P (Inl e) \<longleftrightarrow> e \<noteq> OutOfFuel"
  by (simp_all add: res_all_def)

lemma res_all_bind: "res_all P r \<Longrightarrow> (\<And>x. P x \<Longrightarrow> res_all Q (f x)) \<Longrightarrow> res_all Q (res_bind r f)"
  by (cases r) auto

lemma res_all_foldM: "P s \<Longrightarrow> (\<And>s x. P s \<Longrightarrow> x \<in> set xs \<Longrightarrow> res_all P (f s x)) \<Longrightarrow> res_all P (foldM f s xs)"
  by (induction xs arbitrary: s) (auto intro!: res_all_bind [of P])

lemma res_all_mapM: "(\<And>x. x \<in> set xs \<Longrightarrow> res_all P (f x)) \<Longrightarrow> res_all (\<lambda>ys. \<forall>y \<in> set ys. P y) (mapM f xs)"
  by (induction xs) (auto intro!: res_all_bind [of P] res_all_bind [of "\<lambda>ys. \<forall>y \<in> set ys. P y"])

definition object_le :: "nat \<Rightarrow> json_object \<Rightarrow> bool" where
  "object_le d m \<longleftrightarrow> (\<forall>p \<in> set m. json_depth (snd p) \<le> d)"

lemma max_le: "foldr max (map f xs) (0 :: nat) \<le> d \<longleftrightarrow> (\<forall>x \<in> set xs. f x \<le> d)"
  by (induction xs) auto

lemma depth_le [simp]:
  "json_depth (JArray xs) \<le> d \<longleftrightarrow> (\<exists>d'. d = Suc d' \<and> (\<forall>x \<in> set xs. json_depth x \<le> d'))"
  "json_depth (JObject m) \<le> d \<longleftrightarrow> (\<exists>d'. d = Suc d' \<and> object_le d' m)"
  by (cases d; auto simp: max_le object_le_def)+

text \<open>A function on objects that does what it should for objects of less than a depth.\<close>

definition tame :: "nat \<Rightarrow> (json_object \<Rightarrow> json_object res) \<Rightarrow> bool" where
  "tame n f \<longleftrightarrow> (\<forall>d m. d < n \<longrightarrow> object_le d m \<longrightarrow> res_all (object_le d) (f m))"

lemma wrap_item_tame:
  assumes "tame n f" "json_depth v \<le> d" "d \<le> n"
  shows "res_all (\<lambda>v'. json_depth v' \<le> d) (wrap_item f k v)"
proof (cases v)
  case (JObject m)
  then obtain d' where d: "d = Suc d'" "object_le d' m" using assms(2) unfolding JObject depth_le by blast
  then have "res_all (object_le d') (f m)" using assms(1,3) by (simp add: tame_def)
  then have "res_all (\<lambda>v'. json_depth v' \<le> d) (res_bind (f m) (\<lambda>m'. Inr (JObject m')))" by (rule res_all_bind) (simp add: d(1) del: json_depth.simps)
  then show ?thesis by (simp add: wrap_item_def JObject)
qed (simp_all add: wrap_item_def)

lemma wrap_value_tame:
  assumes "tame n f" "json_depth v \<le> d" "d \<le> n"
  shows "res_all (\<lambda>v'. json_depth v' \<le> d) (wrap_value f k v)"
proof (cases v)
  case (JObject m)
  then show ?thesis using wrap_item_tame [OF assms, of k] by (simp add: wrap_item_def wrap_value_def)
next
  case (JArray xs)
  then obtain d' where d: "d = Suc d'" "\<forall>x \<in> set xs. json_depth x \<le> d'" using assms(2) unfolding JArray depth_le by blast
  then have "res_all (\<lambda>ys. \<forall>y \<in> set ys. json_depth y \<le> d') (mapM (wrap_item f k) xs)"
    using wrap_item_tame [OF assms(1)] assms(3) by (intro res_all_mapM) simp
  then have "res_all (\<lambda>v'. json_depth v' \<le> d) (res_bind (mapM (wrap_item f k) xs) (\<lambda>items'. Inr (JArray items')))" by (rule res_all_bind) (simp add: d(1) del: json_depth.simps)
  then show ?thesis by (simp add: wrap_value_def JArray)
qed (simp_all add: wrap_value_def)

lemma value_le: "object_le d m \<Longrightarrow> json_depth (value_of m k) \<le> d"
  by (auto simp: object_le_def value_of_def dest!: map_of_SomeD split: option.split)

lemma object_le_put: "object_le d m \<Longrightarrow> json_depth v \<le> d \<Longrightarrow> object_le d (gm_put k v m)"
  using gm_put_subset [of k v m] by (fastforce simp: object_le_def)

lemma step_tame:
  assumes "tame n f" "object_le d vals" "d \<le> n"
  shows "res_all (\<lambda>(vals, names). object_le d vals) (fragment_step f (vals, names) k)"
proof -
  let ?g = "\<lambda>vals (k, old). res_bind (wrap_value f k (value_of vals old)) (\<lambda>v. Inr (gm_put old v vals))"
  have "res_all (object_le d) (?g vals p)" if "object_le d vals" for vals p
  proof (cases p)
    case (Pair k old)
    show ?thesis unfolding Pair prod.case
      by (rule res_all_bind [OF wrap_value_tame [OF assms(1) value_le [OF that] assms(3)]]) (simp add: object_le_put that)
  qed
  then have "res_all (object_le d) (foldM ?g vals names)" by (intro res_all_foldM assms(2))
  then have "res_all (\<lambda>(vals, names). object_le d vals) (wrap_all f (vals, names))" unfolding wrap_all_def prod.case by (rule res_all_bind) simp
  then show ?thesis using assms(2) by (simp add: fragment_step_def wrapFieldName_def)
qed

lemma process_tame: "tame n (processInterfaceMap ord n)"
proof (induction n)
  case (Suc n)
  have "res_all (object_le d) (processInterfaceMap ord (Suc n) m)" if "d < Suc n" "object_le d m" for d m
  proof -
    have "res_all (\<lambda>(vals, names). object_le d vals)
        (foldM (fragment_step (processInterfaceMap ord n)) (m, map (\<lambda>k. (k, k)) (gm_keys m)) (ord (gm_keys m)))"
      by (rule res_all_foldM) (use that step_tame [OF Suc] in auto)
    then show ?thesis unfolding processInterfaceMap.simps
      by (rule res_all_bind) (auto simp: object_le_def [of _ "map _ _"] value_le split: prod.splits)
  qed
  then show ?case unfolding tame_def by blast
qed (simp add: tame_def)

lemma processInterfaceMap_terminates:
  assumes "json_depth (JObject m) \<le> n"
  shows "processInterfaceMap ord n m \<noteq> Inl OutOfFuel"
proof -
  obtain d where "n = Suc d" "object_le d m" using assms unfolding depth_le by blast
  then have "res_all (object_le d) (processInterfaceMap ord n m)" using process_tame [of n ord] unfolding tame_def by blast
  then show ?thesis by auto
qed

lemma ApplyQueryWrapper_terminates:
  assumes "qc_Decode qc queryString \<noteq> Inl OutOfFuel"
  shows "ApplyQueryWrapper ord qc namespace queryString queryLimit querySkip \<noteq> Inl OutOfFuel"
proof -
  have wrap: "res_all (\<lambda>_. True) (processAndWrapQuery ord (json_depth (JObject m)) m)" for m
  proof -
    have "res_all (\<lambda>_. True) (wrap_entry (processInterfaceMap ord (json_depth (JObject m))) p)" if "p \<in> set m" for p
    proof -
      have "json_depth (snd p) \<le> json_depth (JObject m)" using depth_le(2) [of m "json_depth (JObject m)"] that by (auto simp: object_le_def)
      then show ?thesis unfolding wrap_entry_def case_prod_beta by (intro res_all_bind [OF wrap_value_tame [OF process_tame _ order_refl]]) simp_all
    qed
    then have "res_all (\<lambda>ys. \<forall>y \<in> set ys. True) (processAndWrapQuery ord (json_depth (JObject m)) m)" unfolding processAndWrapQuery_def by (rule res_all_mapM)
    then show ?thesis by (simp only: ball_triv simp_thms)
  qed
  have fields: "res_all (\<lambda>_. True) (add_fields m)" for m by (simp add: add_fields_def split: option.split json.split)
  have "res_all (\<lambda>_. True) (qc_Decode qc queryString)" using assms by (auto simp: res_all_def split: sum.split)
  then have "res_all (\<lambda>_. True) (ApplyQueryWrapper ord qc namespace queryString queryLimit querySkip)" unfolding ApplyQueryWrapper_def
  proof (rule res_all_bind)
    show "res_all (\<lambda>_. True) (case q of None \<Rightarrow> Inl (Panic ''assignment to entry in nil map'') | Some m \<Rightarrow>
      res_bind (processAndWrapQuery ord (json_depth (JObject m)) m) (\<lambda>m. res_bind (add_fields m) (\<lambda>m.
        Inr (qc_Marshal qc (gm_put ''skip'' (JNumber (FormatInt querySkip)) (gm_put ''limit'' (JNumber (FormatInt queryLimit)) (add_selector namespace m)))))))" for q
    proof (cases q)
      case (Some m)
      show ?thesis unfolding Some option.case by (rule res_all_bind [OF wrap], rule res_all_bind [OF fields]) simp
    qed simp
  qed
  then show ?thesis by auto
qed

section \<open>Fields\<close>

lemma wrapped_name_inj: "wrapped_name a = wrapped_name b \<longleftrightarrow> a = b"
  by (simp add: wrapped_name_def)

lemma wrapped_names:
  assumes "\<forall>k \<in> set ks. k \<notin> set validOperators \<and> wrapped_name k \<notin> set ks"
  shows "\<exists>names'. foldM (fragment_step f) (vals, names) ks = Inr (vals, names')
    \<and> (\<forall>x. gm_get names' x = (if \<exists>k \<in> set ks. x = wrapped_name k then Some (drop 5 x) else if x \<in> set ks then None else gm_get names x))"
  using assms
proof (induction ks arbitrary: names)
  case (Cons k ks)
  let ?names = "gm_put (wrapped_name k) k (gm_del k names)"
  obtain names' where IH: "foldM (fragment_step f) (vals, ?names) ks = Inr (vals, names')"
      "\<And>x. gm_get names' x = (if \<exists>k \<in> set ks. x = wrapped_name k then Some (drop 5 x) else if x \<in> set ks then None else gm_get ?names x)"
    using Cons.IH [of ?names] Cons.prems by auto
  have get: "gm_get names' x = (if \<exists>k' \<in> set (k # ks). x = wrapped_name k' then Some (drop 5 x) else if x \<in> set (k # ks) then None else gm_get names x)" for x
    unfolding IH(2) using Cons.prems by (auto simp: wrapped_name_def dataWrapper_def)
  have "foldM (fragment_step f) (vals, names) (k # ks) = Inr (vals, names')"
    using IH(1) Cons.prems by (simp add: fragment_step_def [of f "(vals, names)" k] wrapFieldName_def)
  with get show ?case by blast
qed simp

text \<open>A selector without operators: its fields keep their values under their wrapped names, and nothing else is in it.\<close>

lemma plain_selector:
  assumes "\<forall>k \<in> set (gm_keys m). k \<notin> set validOperators \<and> wrapped_name k \<notin> set (gm_keys m)" "set (ord (gm_keys m)) = set (gm_keys m)"
  shows "\<exists>m'. processInterfaceMap ord (Suc n) m = Inr m' \<and> (\<forall>k. gm_get m' (wrapped_name k) = gm_get m k) \<and> (\<forall>k. k \<notin> range wrapped_name \<longrightarrow> gm_get m' k = None)"
proof -
  let ?names = "map (\<lambda>k. (k, k)) (gm_keys m)"
  have plain: "\<forall>k \<in> set (ord (gm_keys m)). k \<notin> set validOperators \<and> wrapped_name k \<notin> set (ord (gm_keys m))" using assms by simp
  obtain names' where n: "foldM (fragment_step (processInterfaceMap ord n)) (m, ?names) (ord (gm_keys m)) = Inr (m, names')"
      "\<And>x. gm_get names' x = (if \<exists>k \<in> set (gm_keys m). x = wrapped_name k then Some (drop 5 x) else if x \<in> set (gm_keys m) then None else gm_get ?names x)"
    using wrapped_names [OF plain, of "processInterfaceMap ord n" m ?names] unfolding assms(2) by blast
  have none: "gm_get ?names x = None" if "x \<notin> set (gm_keys m)" for x using that by (simp add: map_of_eq_None_iff image_image)
  let ?m' = "map (\<lambda>(k, old). (k, value_of m old)) names'"
  have get: "gm_get ?m' x = map_option (value_of m) (gm_get names' x)" for x by (simp add: map_of_map)
  have "gm_get ?m' (wrapped_name k) = gm_get m k" for k
  proof (cases "gm_get m k")
    case None
    then have "k \<notin> set (gm_keys m)" by (simp only: gm_get_keys [symmetric])
    then show ?thesis using None none unfolding get n(2) by (auto simp: wrapped_name_inj)
  next
    case (Some v)
    then have "k \<in> set (gm_keys m)" by (metis gm_get_keys option.distinct(1))
    then show ?thesis using Some unfolding get n(2) by (auto simp: wrapped_name_def dataWrapper_def value_of_def)
  qed
  moreover have "gm_get ?m' x = None" if "x \<notin> range wrapped_name" for x using that none unfolding get n(2) by auto
  ultimately show ?thesis using n(1) by auto
qed

section \<open>What a rewritten query asks for\<close>

text \<open>
  What CouchDB documents of its selectors: \<open>sat sel d\<close> says that the document \<open>d\<close> satisfies the
  selector, \<open>look f d\<close> is the field that a name denotes, and \<open>meets v x\<close> says that a field with the
  content \<open>x\<close> meets the condition \<open>v\<close>. A name without a dot is the name of a member, a dot leads into
  an object; a text as a condition asks for that text; the combination operators combine the selectors of
  their array; and an object of several fields asks for all of them.
\<close>

definition plain_names :: "json_object \<Rightarrow> bool" where
  "plain_names m \<longleftrightarrow> (\<forall>k \<in> set (gm_keys m). \<not> HasPrefix k ''$'')"

locale mango =
  fixes sat :: "json \<Rightarrow> json_object \<Rightarrow> bool" and look :: "bytes \<Rightarrow> json_object \<Rightarrow> json option" and meets :: "json \<Rightarrow> json option \<Rightarrow> bool"
  assumes sat_and: "sat (JObject [(''$and'', JArray sels)]) d \<longleftrightarrow> (\<forall>sel \<in> set sels. sat sel d)"
    and sat_or: "sat (JObject [(''$or'', JArray sels)]) d \<longleftrightarrow> (\<exists>sel \<in> set sels. sat sel d)"
    and sat_nor: "sat (JObject [(''$nor'', JArray sels)]) d \<longleftrightarrow> \<not> (\<exists>sel \<in> set sels. sat sel d)"
    and sat_fields: "plain_names m \<Longrightarrow> sat (JObject m) d \<longleftrightarrow> (\<forall>k v. gm_get m k = Some v \<longrightarrow> meets v (look k d))"
    and meets_text: "meets (JString t) x \<longleftrightarrow> x = Some (JString t)"
    and look_member: "CHR ''.'' \<notin> set f \<Longrightarrow> look f d = gm_get d f"
    and look_nested: "CHR ''.'' \<notin> set f \<Longrightarrow> gm_get d f = Some (JObject o') \<Longrightarrow> look (f @ ''.'' @ g) d = look g o'"

text \<open>Selectors of fields, and combinations of such selectors with one operator in an object.\<close>

inductive good_selector :: "json_object \<Rightarrow> bool" where
  fields: "plain_names m \<Longrightarrow> \<forall>k \<in> set (gm_keys m). wrapped_name k \<notin> set (gm_keys m) \<Longrightarrow> good_selector m"
| combination: "op \<in> {''$and'', ''$or'', ''$nor''} \<Longrightarrow> \<forall>m \<in> set ms. good_selector m \<Longrightarrow> good_selector [(op, JArray (map JObject ms))]"

text \<open>The order in which a map is walked through is one of its keys.\<close>

definition walks_keys :: "(bytes list \<Rightarrow> bytes list) \<Rightarrow> bool" where
  "walks_keys ord \<longleftrightarrow> (\<forall>ks. set (ord ks) = set ks \<and> (distinct ks \<longrightarrow> distinct (ord ks)))"

lemma walks_one: "walks_keys ord \<Longrightarrow> ord [k] = [k]"
proof -
  assume "walks_keys ord"
  then have "set (ord [k]) = {k}" "distinct (ord [k])" by (auto simp: walks_keys_def)
  then show ?thesis by (cases "ord [k]"; cases "tl (ord [k])") auto
qed

lemma operators_dollar: "k \<in> set validOperators \<Longrightarrow> HasPrefix k ''$''"
  by (auto simp: validOperators_def HasPrefix_def)

text \<open>Under a single operator every selector of the array is rewritten.\<close>

lemma combination_rewritten:
  assumes "walks_keys ord" "op \<in> set validOperators" "mapM (processInterfaceMap ord n) ms = Inr ms'"
  shows "processInterfaceMap ord (Suc n) [(op, JArray (map JObject ms))] = Inr [(op, JArray (map JObject ms'))]"
proof -
  have "mapM (wrap_item f op) (map JObject ms) = res_bind (mapM f ms) (\<lambda>ms'. Inr (map JObject ms'))" for f
  proof (induction ms)
    case (Cons m ms)
    then show ?case by (cases "f m"; cases "mapM f ms") (simp_all add: wrap_item_def)
  qed simp
  then have "wrap_value (processInterfaceMap ord n) op (JArray (map JObject ms)) = Inr (JArray (map JObject ms'))"
    using assms(3) by (simp add: wrap_value_def)
  then show ?thesis using assms(2) by (simp add: walks_one [OF assms(1)] fragment_step_def wrap_all_def value_of_def)
qed

lemma wrapped_member:
  assumes "mapM (wrap_entry f) m = Inr m'" "gm_get m k = Some v"
  shows "\<exists>v'. wrap_value f k v = Inr v' \<and> gm_get m' k = Some v'"
  using assms
proof (induction m arbitrary: m')
  case (Cons p m)
  then show ?case by (cases p) (auto simp: wrap_entry_def res_bind_Inr_conv split: if_splits)
qed simp

context mango
begin

lemma fields_rewritten:
  assumes "plain_names m" "\<forall>k \<in> set (gm_keys m). wrapped_name k \<notin> set (gm_keys m)" "walks_keys ord"
  shows "\<exists>m'. processInterfaceMap ord (Suc n) m = Inr m' \<and> (\<forall>d obj. gm_get d ''data'' = Some (JObject obj) \<longrightarrow> sat (JObject m') d = sat (JObject m) obj)"
proof -
  have "\<forall>k \<in> set (gm_keys m). k \<notin> set validOperators \<and> wrapped_name k \<notin> set (gm_keys m)"
    using assms(1,2) operators_dollar unfolding plain_names_def by blast
  from plain_selector [OF this] obtain m' where m': "processInterfaceMap ord (Suc n) m = Inr m'" "\<And>k. gm_get m' (wrapped_name k) = gm_get m k"
    "\<And>k. k \<notin> range wrapped_name \<Longrightarrow> gm_get m' k = None" using assms(3) unfolding walks_keys_def by blast
  have "k \<in> range wrapped_name" if "k \<in> set (gm_keys m')" for k using m'(3) that by (metis gm_get_keys)
  moreover have "\<not> HasPrefix (wrapped_name k) ''$''" for k by (simp add: HasPrefix_def wrapped_name_def dataWrapper_def)
  ultimately have plain: "plain_names m'" unfolding plain_names_def by blast
  have "sat (JObject m') d = sat (JObject m) obj" if d: "gm_get d ''data'' = Some (JObject obj)" for d obj
  proof -
    have look: "look (wrapped_name k) d = look k obj" for k
      using look_nested [of "''data''" d obj k] d by (simp add: wrapped_name_def dataWrapper_def)
    have "(\<forall>k v. gm_get m' k = Some v \<longrightarrow> meets v (look k d)) \<longleftrightarrow> (\<forall>k v. gm_get m' (wrapped_name k) = Some v \<longrightarrow> meets v (look (wrapped_name k) d))"
      using m'(3) by (metis option.distinct(1) rangeE)
    then show ?thesis unfolding sat_fields [OF plain] sat_fields [OF assms(1)] look m'(2) .
  qed
  then show ?thesis using m'(1) by blast
qed

text \<open>The rewritten selector asks of the wrapped data what the selector asked of the data.\<close>

lemma selector_rewritten:
  assumes "good_selector m" "walks_keys ord" "json_depth (JObject m) \<le> n"
  shows "\<exists>m'. processInterfaceMap ord n m = Inr m' \<and> (\<forall>d obj. gm_get d ''data'' = Some (JObject obj) \<longrightarrow> sat (JObject m') d = sat (JObject m) obj)"
  using assms
proof (induction m arbitrary: n rule: good_selector.induct)
  case (fields m)
  then obtain n' where "n = Suc n'" unfolding depth_le by blast
  then show ?case using fields_rewritten [OF fields(1,2)] fields(3) by blast
next
  case (combination op ms)
  let ?ok = "\<lambda>m m'. \<forall>d obj. gm_get d ''data'' = Some (JObject obj) \<longrightarrow> sat (JObject m') d = sat (JObject m) obj"
  obtain n' where n': "n = Suc n'" "object_le n' [(op, JArray (map JObject ms))]"
    using combination.prems(2) unfolding depth_le(2) by blast
  then have "json_depth (JArray (map JObject ms)) \<le> n'" by (simp add: object_le_def del: json_depth.simps)
  then have n: "n = Suc n'" "\<forall>m \<in> set ms. json_depth (JObject m) \<le> n'"
    using n'(1) unfolding depth_le(1) by (auto simp del: json_depth.simps depth_le)
  have each: "\<forall>m \<in> set ms. \<exists>m'. processInterfaceMap ord n' m = Inr m' \<and> ?ok m m'"
    using combination.IH combination.prems(1) n(2) by blast
  have "\<exists>ms'. mapM (processInterfaceMap ord n') ms = Inr ms' \<and> list_all2 ?ok ms ms'"
    using each by (induction ms) auto
  then obtain ms' where ms': "mapM (processInterfaceMap ord n') ms = Inr ms'" "list_all2 ?ok ms ms'" by blast
  have op: "op \<in> set validOperators" using combination.hyps by (auto simp: validOperators_def)
  have "?ok [(op, JArray (map JObject ms))] [(op, JArray (map JObject ms'))]"
  proof (intro allI impI)
    fix d obj assume d: "gm_get d ''data'' = Some (JObject obj)"
    have "list_all2 (\<lambda>m m'. sat (JObject m') d = sat (JObject m) obj) ms ms'" using ms'(2) d by (auto elim: list_all2_mono)
    then have "(\<forall>m \<in> set ms'. sat (JObject m) d) = (\<forall>m \<in> set ms. sat (JObject m) obj)" "(\<exists>m \<in> set ms'. sat (JObject m) d) = (\<exists>m \<in> set ms. sat (JObject m) obj)"
      by (induction rule: list_all2_induct) auto
    then show "sat (JObject [(op, JArray (map JObject ms'))]) d = sat (JObject [(op, JArray (map JObject ms))]) obj"
      using combination.hyps by (auto simp: sat_and sat_or sat_nor)
  qed
  then show ?case using combination_rewritten [OF combination.prems(1) op ms'(1)] n(1) by blast
qed

lemma namespace_selector:
  "sat (JObject [(''chaincodeid'', JString ns)]) d \<longleftrightarrow> gm_get d ''chaincodeid'' = Some (JString ns)"
  using sat_fields [of "[(''chaincodeid'', JString ns)]" d] look_member [of "''chaincodeid''" d] meets_text
  by (simp add: plain_names_def HasPrefix_def)

text \<open>
  What comes out asks for documents of the namespace only, whatever the selector was, and, for a selector
  that the rewriting understands, for exactly those whose data satisfy it.
\<close>

lemma query_rewritten:
  assumes "walks_keys ord" "ApplyQueryWrapper ord qc namespace queryString queryLimit querySkip = Inr out"
  shows "\<exists>m s. out = qc_Marshal qc m \<and> gm_get m ''selector'' = Some s
    \<and> gm_get m ''limit'' = Some (JNumber (FormatInt queryLimit)) \<and> gm_get m ''skip'' = Some (JNumber (FormatInt querySkip))
    \<and> (\<forall>d. sat s d \<longrightarrow> gm_get d ''chaincodeid'' = Some (JString namespace))
    \<and> (\<forall>q sel d obj. qc_Decode qc queryString = Inr (Some q) \<and> gm_get q ''selector'' = Some (JObject sel) \<and> good_selector sel
         \<and> gm_get d ''data'' = Some (JObject obj) \<longrightarrow> (sat s d \<longleftrightarrow> gm_get d ''chaincodeid'' = Some (JString namespace) \<and> sat (JObject sel) obj))"
proof -
  from assms(2) obtain q m1 m2 where q: "qc_Decode qc queryString = Inr (Some q)"
    "processAndWrapQuery ord (json_depth (JObject q)) q = Inr m1" "add_fields m1 = Inr m2"
    "out = qc_Marshal qc (gm_put ''skip'' (JNumber (FormatInt querySkip)) (gm_put ''limit'' (JNumber (FormatInt queryLimit)) (add_selector namespace m2)))"
    by (auto simp: ApplyQueryWrapper_def res_bind_Inr_conv split: option.splits)
  let ?m = "gm_put ''skip'' (JNumber (FormatInt querySkip)) (gm_put ''limit'' (JNumber (FormatInt queryLimit)) (add_selector namespace m2))"
  define s where "s = (case gm_get m1 ''selector'' of None \<Rightarrow> JObject [(''chaincodeid'', JString namespace)]
    | Some v \<Rightarrow> JObject [(''$and'', JArray [JObject [(''chaincodeid'', JString namespace)], v])])"
  have "gm_get m2 ''selector'' = gm_get m1 ''selector''" using q(3) by (auto simp: add_fields_def split: option.splits json.splits)
  then have s: "gm_get ?m ''selector'' = Some s"
    by (simp add: s_def add_selector_def setNamespaceInSelector_def setDefaultNamespaceInSelector_def split: option.split)
  have ns: "sat s d \<longleftrightarrow> gm_get d ''chaincodeid'' = Some (JString namespace) \<and> (\<forall>v. gm_get m1 ''selector'' = Some v \<longrightarrow> sat v d)" for d
    by (auto simp: s_def sat_and namespace_selector split: option.split)
  have "sat s d \<longleftrightarrow> gm_get d ''chaincodeid'' = Some (JString namespace) \<and> sat (JObject sel) obj"
    if sel: "gm_get q ''selector'' = Some (JObject sel)" "good_selector sel" "gm_get d ''data'' = Some (JObject obj)" for sel d obj
  proof -
    have "json_depth (JObject sel) \<le> json_depth (JObject q)"
      using depth_le(2) [of q "json_depth (JObject q)"] map_of_SomeD [OF sel(1)] by (fastforce simp: object_le_def simp del: json_depth.simps)
    from selector_rewritten [OF sel(2) assms(1) this] obtain m'
      where m': "processInterfaceMap ord (json_depth (JObject q)) sel = Inr m'" "sat (JObject m') d = sat (JObject sel) obj" using sel(3) by blast
    have "gm_get m1 ''selector'' = Some (JObject m')"
      using wrapped_member [OF q(2) [unfolded processAndWrapQuery_def] sel(1)] m'(1) by (simp add: wrap_value_def)
    then show ?thesis using ns m'(2) by simp
  qed
  then show ?thesis using q(1,4) s ns by (intro exI [of _ ?m] exI [of _ s]) auto
qed

end

text \<open>An evaluation of selectors that behaves as documented; a condition is an equality.\<close>

function mango_look :: "bytes \<Rightarrow> json_object \<Rightarrow> json option" where
  "mango_look f d =
     (case dropWhile (\<lambda>c. c \<noteq> CHR ''.'') f of
        [] \<Rightarrow> gm_get d f
      | _ # g \<Rightarrow> (case gm_get d (takeWhile (\<lambda>c. c \<noteq> CHR ''.'') f) of Some (JObject obj) \<Rightarrow> mango_look g obj | _ \<Rightarrow> None))"
  by pat_completeness auto
termination
proof (relation "measure (\<lambda>(f, d). length f)")
  fix f :: bytes and c g
  assume "dropWhile (\<lambda>c. c \<noteq> CHR ''.'') f = c # g"
  then have "length (c # g) \<le> length f" using length_dropWhile_le [of "\<lambda>c. c \<noteq> CHR ''.''" f] by metis
  then show "((g, obj), f, d) \<in> measure (\<lambda>(f, d). length f)" for obj d by simp
qed simp

declare mango_look.simps [simp del]

definition mango_meets :: "json \<Rightarrow> json option \<Rightarrow> bool" where
  "mango_meets v x \<longleftrightarrow> x = Some v"

definition mango_fields :: "json_object \<Rightarrow> json_object \<Rightarrow> bool" where
  "mango_fields m d \<longleftrightarrow> (\<forall>k \<in> set (gm_keys m). mango_meets (value_of m k) (mango_look k d))"

fun mango_sat :: "json \<Rightarrow> json_object \<Rightarrow> bool" where
  "mango_sat (JObject [(k, JArray sels)]) d =
     (if k = ''$and'' then \<forall>sel \<in> set sels. mango_sat sel d
      else if k = ''$or'' then \<exists>sel \<in> set sels. mango_sat sel d
      else if k = ''$nor'' then \<not> (\<exists>sel \<in> set sels. mango_sat sel d)
      else mango_fields [(k, JArray sels)] d)"
| "mango_sat (JObject m) d = mango_fields m d"
| "mango_sat _ d = False"

interpretation mg: mango mango_sat mango_look mango_meets
proof
  fix m d
  assume "plain_names m"
  then have "mango_sat (JObject m) d = mango_fields m d"
    by (cases "(JObject m, d)" rule: mango_sat.cases) (auto simp: plain_names_def HasPrefix_def)
  moreover have "mango_fields m d \<longleftrightarrow> (\<forall>k v. gm_get m k = Some v \<longrightarrow> mango_meets v (mango_look k d))"
    unfolding mango_fields_def value_of_def by (metis gm_get_keys option.exhaust option.simps(3,5))
  ultimately show "mango_sat (JObject m) d \<longleftrightarrow> (\<forall>k v. gm_get m k = Some v \<longrightarrow> mango_meets v (mango_look k d))" by simp
next
  fix f d
  assume "CHR ''.'' \<notin> set f"
  then have "dropWhile (\<lambda>c. c \<noteq> CHR ''.'') f = []" by (auto simp: dropWhile_eq_Nil_conv)
  then show "mango_look f d = gm_get d f" unfolding mango_look.simps [of f] by (simp only: list.case)
next
  fix f d obj g
  assume f: "CHR ''.'' \<notin> set f" "gm_get d f = Some (JObject obj)"
  have "dropWhile (\<lambda>c. c \<noteq> CHR ''.'') (f @ ''.'' @ g) = CHR ''.'' # g" "takeWhile (\<lambda>c. c \<noteq> CHR ''.'') (f @ ''.'' @ g) = f"
    using f(1) by (induction f) auto
  then show "mango_look (f @ ''.'' @ g) d = mango_look g obj" using f(2) by (simp add: mango_look.simps [of "f @ _"])
qed (simp_all add: mango_meets_def)

text \<open>Two operators in one object.\<close>

lemma two_operators_wrap_twice:
  "processInterfaceMap id 3 [(''$and'', JArray [JObject [(''owner'', JString ''tom'')]]), (''$or'', JArray [JObject [(''size'', JNumber ''1'')]])]
    = Inr [(''$and'', JArray [JObject [(''data.data.owner'', JString ''tom'')]]), (''$or'', JArray [JObject [(''data.data.size'', JNumber ''1'')]])]"
  by code_simp

lemma numbers_in_array_panic: "jsonKey \<in> set validOperators \<Longrightarrow> processInterfaceMap id (Suc n) [(jsonKey, JArray (JNumber x # xs))] = conversion_panic"
  by (simp add: fragment_step_def wrap_all_def value_of_def wrap_value_def wrap_item_def)

end
