(* ===== verification/CouchState.thy ===== *)
theory CouchState
  imports CouchDB QueryWrapper
begin

text \<open>
  The state database on CouchDB, \<^verbatim>\<open>core/ledger/kvledger/txmgmt/statedb/statecouchdb/statecouchdb.go\<close>. A
  value is a document that wraps it with its version and its namespace; a value that is no JSON object is an
  attachment of such a document. JSON is a parameter (\<open>couch_codec\<close>), what is relied on of it is the locale \<open>couch_json\<close>.

  \<^verbatim>\<open>ApplyUpdates\<close> of the fork starts a routine for every write and does not wait for them. A routine is
  the requests it makes (\<open>routine\<close>), one turn each, a request with its retries; \<open>run_commit\<close> and \<open>run_savepoint\<close> say that a
  routine that runs alone is \<^verbatim>\<open>CommitThread\<close> and \<^verbatim>\<open>recordSavepoint\<close>. A schedule (\<open>couch_run\<close>) gives the turns,
  those of the caller among them, also after the caller has returned.

  Results: a value that was written is read back, with its version, a JSON value in the normal form of
  the codec (\<open>write_then_read\<close>). On a server without faults, when every routine has had its turns, in
  whatever order, the state is the old one with the batch over it (\<open>all_writes_applied\<close>, and \<open>applied_reads\<close> for what is read). But the
  savepoint may be recorded before any write is made (\<open>savepoint_before_writes\<close>): a peer that stops then takes the block for applied.
\<close>

record couch_codec =
  co_Wrap :: "bytes \<Rightarrow> bytes \<Rightarrow> slice \<Rightarrow> bytes"
  co_Data :: "bytes \<Rightarrow> slice"
  co_Version :: "bytes \<Rightarrow> bytes"
  co_Savepoint :: "Height \<Rightarrow> bytes \<Rightarrow> bytes"
  co_ReadSavepoint :: "bytes \<Rightarrow> Height res"

definition binaryWrapper :: bytes where
  "binaryWrapper = ''valueBytes''"

definition savepointDocID :: bytes where
  "savepointDocID = ''statedb_savepoint''"

section \<open>Values and documents\<close>

definition version_string :: "Height \<Rightarrow> bytes" where
  "version_string h = nat_str (unat (BlockNum h)) @ '':'' @ nat_str (unat (TxNum h))"

text \<open>\<^verbatim>\<open>ParseUint\<close> with the error dropped: zero, or the largest number if it is out of range.\<close>

definition uint_or_zero :: "bytes \<Rightarrow> u64" where
  "uint_or_zero s = (case ParseUint s of ParseOk n \<Rightarrow> of_nat n | ErrSyntax \<Rightarrow> 0 | ErrRange \<Rightarrow> - 1)"

definition parse_version :: "bytes \<Rightarrow> Height res" where
  "parse_version s =
     (case dropWhile (\<lambda>c. c \<noteq> CHR '':'') s of
        [] \<Rightarrow> Inl (Panic ''index out of range'')
      | _ # rest \<Rightarrow> Inr (NewHeight (uint_or_zero (takeWhile (\<lambda>c. c \<noteq> CHR '':'') s)) (uint_or_zero (takeWhile (\<lambda>c. c \<noteq> CHR '':'') rest))))"

definition addVersionAndChainCodeID :: "couch_codec \<Rightarrow> slice \<Rightarrow> bytes \<Rightarrow> Height \<Rightarrow> bytes" where
  "addVersionAndChainCodeID c value chaincodeID version = co_Wrap c (version_string version) chaincodeID value"

text \<open>The last attachment with the name of the wrapper; a document without data or attachments has the value \<^verbatim>\<open>null\<close>.\<close>

definition removeDataWrapper :: "couch_codec \<Rightarrow> bytes \<Rightarrow> Attachment list option \<Rightarrow> (bytes \<times> Height) res" where
  "removeDataWrapper c wrappedValue attachments =
     res_bind (parse_version (co_Version c wrappedValue)) (\<lambda>version.
       Inr (case (co_Data c wrappedValue, attachments) of
              (None, Some as) \<Rightarrow> foldl (\<lambda>v a. if at_Name a = binaryWrapper then at_AttachmentBytes a else v) [] as
            | (None, None) \<Rightarrow> ''null''
            | (Some v, _) \<Rightarrow> v, version))"

definition couch_doc_of :: "'d couch_env \<Rightarrow> couch_codec \<Rightarrow> bytes \<Rightarrow> bytes \<Rightarrow> Height \<Rightarrow> CouchDoc" where
  "couch_doc_of env c ns value version =
     (if ce_IsJSON env value then \<lparr>cd_JSONValue = addVersionAndChainCodeID c (Some value) ns version, cd_Attachments = None\<rparr>
      else
        \<lparr>cd_JSONValue = addVersionAndChainCodeID c None ns version,
         cd_Attachments = Some [\<lparr>at_Name = binaryWrapper, at_ContentType = ''application/octet-stream'', at_AttachmentBytes = value\<rparr>]\<rparr>)"

section \<open>Reading\<close>

definition couch_ValidateKey :: "'d couch_env \<Rightarrow> bytes \<Rightarrow> unit res" where
  "couch_ValidateKey env key = (if ce_ValidString env key then Inr () else Inl (Err ''Key should be a valid utf8 string''))"

definition couch_GetState :: "'d couch_env \<Rightarrow> couch_codec \<Rightarrow> bytes \<Rightarrow> bytes \<Rightarrow> bytes \<Rightarrow> ('d, VersionedValue option) lsm" where
  "couch_GetState env c db namespace key =
     lsm_bind (ReadDoc env db (constructCompositeKey namespace key)) (\<lambda>(couchDoc, _).
       case couchDoc of
         None \<Rightarrow> ret None
       | Some d \<Rightarrow>
           lsm_bind (lift_res (removeDataWrapper c (cd_JSONValue d) (cd_Attachments d))) (\<lambda>(v, h).
             ret (Some \<lparr>vv_Value = Some v, vv_Version = Some h\<rparr>)))"

fun couch_GetStateMultipleKeys :: "'d couch_env \<Rightarrow> couch_codec \<Rightarrow> bytes \<Rightarrow> bytes \<Rightarrow> bytes list \<Rightarrow> ('d, VersionedValue option list) lsm" where
  "couch_GetStateMultipleKeys env c db namespace [] = ret []"
| "couch_GetStateMultipleKeys env c db namespace (key # keys) =
     lsm_bind (couch_GetState env c db namespace key) (\<lambda>v.
     lsm_bind (couch_GetStateMultipleKeys env c db namespace keys) (\<lambda>vs. ret (v # vs)))"

text \<open>An entry of an iterator; the namespace of a range scan is the one asked for, that of a query the one of the id.\<close>

definition couch_scanner_item :: "couch_codec \<Rightarrow> bytes option \<Rightarrow> QueryResult \<Rightarrow> VersionedKV res" where
  "couch_scanner_item c namespace selected =
     res_bind (splitCompositeKey (qr_ID selected)) (\<lambda>(ns, key).
     res_bind (removeDataWrapper c (qr_Value selected) (qr_Attachments selected)) (\<lambda>(value, version).
       Inr \<lparr>kv_Namespace = (case namespace of None \<Rightarrow> ns | Some n \<Rightarrow> n), kv_Key = key, kv_Value = Some value, kv_Version = Some version\<rparr>))"

definition couch_GetStateRangeScanIterator ::
    "'d couch_env \<Rightarrow> couch_codec \<Rightarrow> bytes \<Rightarrow> int \<Rightarrow> bytes \<Rightarrow> bytes \<Rightarrow> bytes \<Rightarrow> ('d, db_iterator) lsm" where
  "couch_GetStateRangeScanIterator env c db queryLimit namespace startKey endKey =
     (let compositeStartKey = constructCompositeKey namespace startKey; compositeEndKey = constructCompositeKey namespace endKey;
          compositeEndKey = (if endKey = [] then compositeEndKey[length compositeEndKey - 1 := lastKeyIndicator] else compositeEndKey) in
      lsm_bind (ReadDocRange env db compositeStartKey compositeEndKey queryLimit 0) (\<lambda>queryResult.
        ret (map (couch_scanner_item c (Some namespace)) queryResult)))"

definition couch_ExecuteQuery ::
    "'d couch_env \<Rightarrow> couch_codec \<Rightarrow> (bytes list \<Rightarrow> bytes list) \<Rightarrow> query_codec \<Rightarrow> bytes \<Rightarrow> int \<Rightarrow> bytes \<Rightarrow> bytes \<Rightarrow> ('d, db_iterator) lsm" where
  "couch_ExecuteQuery env c ord qc db queryLimit namespace query =
     lsm_bind (lift_res (ApplyQueryWrapper ord qc namespace query queryLimit 0)) (\<lambda>queryString.
     lsm_bind (QueryDocuments env db queryString) (\<lambda>queryResult. ret (map (couch_scanner_item c None) queryResult)))"

definition couch_GetLatestSavePoint :: "'d couch_env \<Rightarrow> couch_codec \<Rightarrow> bytes \<Rightarrow> ('d, Height option) lsm" where
  "couch_GetLatestSavePoint env c db =
     lsm_bind (ReadDoc env db savepointDocID) (\<lambda>(couchDoc, _).
       case couchDoc of None \<Rightarrow> ret None | Some d \<Rightarrow> lsm_bind (lift_res (co_ReadSavepoint c (cd_JSONValue d))) (\<lambda>h. ret (Some h)))"

section \<open>Writing\<close>

type_synonym couch_write = "bytes \<times> bytes \<times> VersionedValue"

text \<open>One routine: the result of a deletion is not looked at.\<close>

definition CommitThread :: "'d couch_env \<Rightarrow> couch_codec \<Rightarrow> bytes \<Rightarrow> couch_write \<Rightarrow> ('d, unit) lsm" where
  "CommitThread env c db = (\<lambda>(ns, k, vv).
     case vv_Value vv of
       None \<Rightarrow> lsm_try (DeleteDoc env db (constructCompositeKey ns k)) (\<lambda>_. ret ()) ret
     | Some value \<Rightarrow>
         lsm_bind (lift_res (deref (vv_Version vv))) (\<lambda>version.
         lsm_bind (SaveDoc env db (constructCompositeKey ns k) [] (couch_doc_of env c ns value version)) (\<lambda>_. ret ())))"

definition recordSavepoint :: "'d couch_env \<Rightarrow> couch_codec \<Rightarrow> bytes \<Rightarrow> Height \<Rightarrow> ('d, unit) lsm" where
  "recordSavepoint env c db height =
     lsm_try (EnsureFullCommit env db) (\<lambda>_. fail (Err ''Failed to perform full commit'')) (\<lambda>_.
     lsm_bind (\<lambda>d. case GetDatabaseInfo env db d of ((CouchErr _ e, _), d) \<Rightarrow> (Inl (Err e), d) | ((CouchOK _, q), d) \<Rightarrow> (Inr q, d)) (\<lambda>updateSeq.
     lsm_bind (SaveDoc env db savepointDocID [] \<lparr>cd_JSONValue = co_Savepoint c height updateSeq, cd_Attachments = None\<rparr>) (\<lambda>_. ret ())))"

section \<open>Routines\<close>

text \<open>
  What runs beside other routines is written as the requests it makes: the next one, and what follows on
  its answer. Between two requests of a routine any other may make its own.
\<close>

datatype routine = Finished "unit res" | Asks http_request "couch_result \<Rightarrow> routine"

primrec run_routine :: "'d couch_env \<Rightarrow> routine \<Rightarrow> ('d, unit) lsm" where
  "run_routine env (Finished r) = lift_res r"
| "run_routine env (Asks req k) = (\<lambda>s. case handleRequest env req (ce_MaxRetries env) s of (a, s) \<Rightarrow> run_routine env (k a) s)"

definition revision_in :: "couch_result \<Rightarrow> bytes" where
  "revision_in a =
     (case a of
        CouchErr _ _ \<Rightarrow> []
      | CouchOK resp \<Rightarrow> (case (getRevisionHeader resp, rp_Body resp) of (Inr v, BodyDoc _) \<Rightarrow> v | _ \<Rightarrow> []))"

definition ask_revision :: "'d couch_env \<Rightarrow> bytes \<Rightarrow> bytes \<Rightarrow> (bytes \<Rightarrow> routine) \<Rightarrow> routine" where
  "ask_revision env db i f = (if ce_ValidString env i then Asks (couch_request GET (U_doc db i)) (\<lambda>a. f (revision_in a)) else f [])"

text \<open>The attempts of \<^verbatim>\<open>handleRequestWithRevisionRetry\<close> for a request without a revision.\<close>

fun attempts :: "'d couch_env \<Rightarrow> bytes \<Rightarrow> bytes \<Rightarrow> http_request \<Rightarrow> nat \<Rightarrow> couch_result option \<Rightarrow> (couch_result option \<Rightarrow> routine) \<Rightarrow> routine" where
  "attempts env db i req 0 last' k = k last'"
| "attempts env db i req (Suc n) last' k =
     ask_revision env db i (\<lambda>v. Asks (req\<lparr>rq_Rev := v\<rparr>) (\<lambda>a.
       case a of
         CouchErr st e \<Rightarrow> if st = Some 409 then attempts env db i req n (Some (CouchErr st e)) k else k (Some (CouchErr st e))
       | CouchOK r \<Rightarrow> k (Some (CouchOK r))))"

definition save_routine :: "'d couch_env \<Rightarrow> bytes \<Rightarrow> bytes \<Rightarrow> CouchDoc \<Rightarrow> routine" where
  "save_routine env db i couchDoc =
     (if \<not> ce_ValidString env i then Finished (Inl (Err ''doc id not a valid utf8 string''))
      else if cd_Attachments couchDoc = None \<and> \<not> ce_IsJSON env (cd_JSONValue couchDoc) then Finished (Inl (Err ''JSON format is not valid''))
      else
        attempts env db i \<lparr>rq_Method = PUT, rq_URL = U_doc db i, rq_Data = Some couchDoc, rq_Rev = []\<rparr> (ce_MaxRetries env) None (\<lambda>r. Finished
          (case r of
             None \<Rightarrow> Inl (Panic ''nil pointer dereference'')
           | Some (CouchErr _ e) \<Rightarrow> Inl (Err e)
           | Some (CouchOK resp) \<Rightarrow> res_bind (getRevisionHeader resp) (\<lambda>_. Inr ()))))"

definition commit_routine :: "'d couch_env \<Rightarrow> couch_codec \<Rightarrow> bytes \<Rightarrow> couch_write \<Rightarrow> routine" where
  "commit_routine env c db = (\<lambda>(ns, k, vv).
     case vv_Value vv of
       None \<Rightarrow>
         attempts env db (constructCompositeKey ns k) (couch_request DELETE (U_doc db (constructCompositeKey ns k))) (ce_MaxRetries env) None (\<lambda>r. Finished
           (case r of None \<Rightarrow> Inl (Panic ''nil pointer dereference'') | Some _ \<Rightarrow> Inr ()))
     | Some value \<Rightarrow>
         (case deref (vv_Version vv) of
            Inl e \<Rightarrow> Finished (Inl e)
          | Inr version \<Rightarrow> save_routine env db (constructCompositeKey ns k) (couch_doc_of env c ns value version)))"

definition savepoint_routine :: "'d couch_env \<Rightarrow> couch_codec \<Rightarrow> bytes \<Rightarrow> Height \<Rightarrow> routine" where
  "savepoint_routine env c db height =
     Asks (couch_request POST (U_commit db)) (\<lambda>a.
       if (case a of CouchErr _ _ \<Rightarrow> False | CouchOK resp \<Rightarrow> body_ok resp) then
         Asks (couch_request GET (U_db db)) (\<lambda>a.
           case a of
             CouchErr _ e \<Rightarrow> Finished (Inl (Err e))
           | CouchOK resp \<Rightarrow>
               save_routine env db savepointDocID
                 \<lparr>cd_JSONValue = co_Savepoint c height (case rp_Body resp of BodyInfo q \<Rightarrow> q | _ \<Rightarrow> []), cd_Attachments = None\<rparr>)
       else Finished (Inl (Err ''Failed to perform full commit'')))"

text \<open>
  The database with its routines: the caller of \<^verbatim>\<open>ApplyUpdates\<close>, which records the savepoint, and one
  for every write. \<^verbatim>\<open>ApplyUpdates\<close> has returned when \<open>cb_main\<close> is finished, whatever the others have done by then.
\<close>

record 'd couch_db =
  cb_store :: 'd
  cb_main :: routine
  cb_threads :: "routine list"

definition batch_writes :: "UpdateBatch \<Rightarrow> couch_write list" where
  "batch_writes batch = concat (map (\<lambda>ns. map (\<lambda>(k, vv). (ns, k, vv)) (GetUpdates batch ns)) (GetUpdatedNamespaces batch))"

definition couch_ApplyUpdates :: "'d couch_env \<Rightarrow> couch_codec \<Rightarrow> bytes \<Rightarrow> UpdateBatch \<Rightarrow> Height \<Rightarrow> 'd couch_db \<Rightarrow> 'd couch_db" where
  "couch_ApplyUpdates env c db batch height s =
     s\<lparr>cb_threads := cb_threads s @ map (commit_routine env c db) (batch_writes batch), cb_main := savepoint_routine env c db height\<rparr>"

text \<open>
  A schedule names the routines in the order in which they get their turns, 0 the caller. A turn is one request.
  A routine that failed has logged its error and does nothing any more; one that panics stops the peer.
\<close>

definition advance :: "'d couch_env \<Rightarrow> routine \<Rightarrow> 'd \<Rightarrow> (routine \<times> 'd) res" where
  "advance env t d =
     (case t of
        Asks req k \<Rightarrow> (case handleRequest env req (ce_MaxRetries env) d of (a, d) \<Rightarrow> Inr (k a, d))
      | Finished (Inl (Panic p)) \<Rightarrow> Inl (Panic p)
      | Finished r \<Rightarrow> Inr (Finished r, d))"

definition couch_step :: "'d couch_env \<Rightarrow> nat \<Rightarrow> ('d couch_db, unit) lsm" where
  "couch_step env n s =
     (case n of
        0 \<Rightarrow> (case advance env (cb_main s) (cb_store s) of Inl e \<Rightarrow> (Inl e, s) | Inr (t, d) \<Rightarrow> (Inr (), s\<lparr>cb_main := t, cb_store := d\<rparr>))
      | Suc m \<Rightarrow>
          if m < length (cb_threads s) then
            (case advance env (cb_threads s ! m) (cb_store s) of
               Inl e \<Rightarrow> (Inl e, s)
             | Inr (t, d) \<Rightarrow> (Inr (), s\<lparr>cb_threads := (cb_threads s)[m := t], cb_store := d\<rparr>))
          else (Inr (), s))"

primrec couch_run :: "'d couch_env \<Rightarrow> nat list \<Rightarrow> ('d couch_db, unit) lsm" where
  "couch_run env [] = ret ()"
| "couch_run env (n # ns) = lsm_bind (couch_step env n) (\<lambda>_. couch_run env ns)"

text \<open>A routine that runs alone is the code it was split from.\<close>

lemma run_ask: "run_routine env (ask_revision env db i f) = lsm_bind (getDocumentRevision env db i) (\<lambda>v. run_routine env (f v))"
  by (rule ext)
    (auto simp: ask_revision_def revision_in_def getDocumentRevision_def ReadDoc_def lsm_bind_def lsm_try_def lift_res_def getRevisionHeader_def
      split: prod.splits couch_result.splits http_body.splits)

lemma attempts_rev [simp]: "attempts env db i (req\<lparr>rq_Rev := v\<rparr>) n = attempts env db i req n"
  by (induction n) (simp_all add: fun_eq_iff cong: if_cong)

lemma run_attempts:
  assumes "rq_Rev req = [] \<or> conflict"
  shows "run_routine env (attempts env db i req n last' k) = lsm_bind (revision_loop env db i req n conflict last') (\<lambda>r. run_routine env (k r))"
  using assms
proof (induction n arbitrary: req conflict last')
  case 0
  show ?case by (simp add: lsm_bind_def lift_res_def fun_eq_iff)
next
  case (Suc n)
  have again: "run_routine env (attempts env db i req n l k) s
      = (case revision_loop env db i (req\<lparr>rq_Rev := v\<rparr>) n True l s of (Inl e, s') \<Rightarrow> (Inl e, s') | (Inr r, s') \<Rightarrow> run_routine env (k r) s')" for v l s
    using Suc.IH [of "req\<lparr>rq_Rev := v\<rparr>" True l] by (simp add: lsm_bind_def fun_eq_iff)
  have "run_routine env (attempts env db i req n l k) s = (Inl e, s')"
    if "revision_loop env db i (req\<lparr>rq_Rev := v\<rparr>) n True l s = (Inl e, s')" for v l s e s' using again [of l s v] that by simp
  moreover have "run_routine env (attempts env db i req n l k) s = run_routine env (k r) s'"
    if "revision_loop env db i (req\<lparr>rq_Rev := v\<rparr>) n True l s = (Inr r, s')" for v l s r s' using again [of l s v] that by simp
  ultimately show ?case using Suc.prems
    by (auto simp: run_ask fun_eq_iff lsm_bind_def lift_res_def split: prod.splits sum.splits couch_result.splits)
qed

lemma run_save: "run_routine env (save_routine env db i d) = lsm_bind (SaveDoc env db i [] d) (\<lambda>_. ret ())"
  by (rule ext)
    (auto simp: save_routine_def SaveDoc_def handleRequestWithRevisionRetry_def run_attempts [where conflict = False] lsm_bind_def lift_res_def
      split: prod.splits sum.splits couch_result.splits option.splits)

lemma run_commit: "run_routine env (commit_routine env c db w) = CommitThread env c db w"
proof -
  obtain ns k vv where w: "w = (ns, k, vv)" by (cases w) auto
  let ?i = "constructCompositeKey ns k"
  have rev: "rq_Rev (couch_request DELETE (U_doc db ?i)) = []" by (simp add: couch_request_def)
  have "revision_loop env db ?i req n cf l s \<noteq> (Inl (Err e), s')" for req n cf l s e s'
    by (induction n arbitrary: req cf l s)
      (auto simp: lsm_bind_def lift_res_def getDocumentRevision_def lsm_try_def split: if_splits prod.splits sum.splits couch_result.splits error.splits)
  then show ?thesis
    by (auto simp: w fun_eq_iff commit_routine_def CommitThread_def run_save DeleteDoc_def handleRequestWithRevisionRetry_def
        run_attempts [where conflict = False] rev lsm_bind_def lsm_try_def lift_res_def
        split: option.splits prod.splits sum.splits couch_result.splits error.splits)
qed

lemma run_savepoint: "run_routine env (savepoint_routine env c db height) = recordSavepoint env c db height"
  by (rule ext)
    (auto simp: savepoint_routine_def recordSavepoint_def EnsureFullCommit_def GetDatabaseInfo_def run_save lsm_bind_def lsm_try_def lift_res_def
      split: prod.splits sum.splits couch_result.splits option.splits)

section \<open>Versions\<close>

lemma uint_nat_str [simp]: "uint_or_zero (nat_str (unat x)) = x"
proof -
  have "parse_digits 0 (nat_str (unat x)) = ParseOk (unat x)"
    by (rule parse_nat_str) (use unsigned_less [of x] in simp)
  then show ?thesis by (simp add: uint_or_zero_def ParseUint_def)
qed

lemma nat_str_colon: "\<forall>c \<in> set (nat_str n). c \<noteq> CHR '':''"
  using nat_str_digits [of "CHR '':''" n] by (auto simp: is_digit_def)

lemma version_string_parses: "parse_version (version_string h) = Inr h"
proof -
  have parts: "takeWhile (\<lambda>c. c \<noteq> CHR '':'') (nat_str n @ CHR '':'' # rest) = nat_str n" "dropWhile (\<lambda>c. c \<noteq> CHR '':'') (nat_str n @ CHR '':'' # rest) = CHR '':'' # rest"
    "takeWhile (\<lambda>c. c \<noteq> CHR '':'') (nat_str n) = nat_str n" for n rest
    using nat_str_colon [of n] by (simp_all add: takeWhile_append2 dropWhile_append2 takeWhile_eq_all_conv)
  show ?thesis by (cases h) (simp add: parse_version_def version_string_def parts)
qed

section \<open>Writes\<close>

definition write_id :: "couch_write \<Rightarrow> bytes" where
  "write_id = (\<lambda>(ns, k, vv). constructCompositeKey ns k)"

definition write_doc :: "'d couch_env \<Rightarrow> couch_codec \<Rightarrow> couch_write \<Rightarrow> CouchDoc option" where
  "write_doc env c = (\<lambda>(ns, k, vv). case vv_Value vv of None \<Rightarrow> None | Some v \<Rightarrow> Some (couch_doc_of env c ns v (the (vv_Version vv))))"

text \<open>A write the database can take: a valid id, and a version with every value.\<close>

definition writable :: "'d couch_env \<Rightarrow> couch_write \<Rightarrow> bool" where
  "writable env w \<longleftrightarrow> ce_ValidString env (write_id w) \<and> (vv_Value (snd (snd w)) \<noteq> None \<longrightarrow> vv_Version (snd (snd w)) \<noteq> None)"

text \<open>
  What is relied on: JSON wraps and unwraps (\<open>normal\<close> is the form in which a JSON value comes back), and in
  a state that is \<open>good\<close> requests succeed.
\<close>

locale couch_json =
  fixes env :: "'d couch_env" and c :: couch_codec and normal :: "bytes \<Rightarrow> bytes"
  assumes Data: "ce_IsJSON env v \<Longrightarrow> (case co_Data c (co_Wrap c (version_string h) ns (Some v)) of None \<Rightarrow> ''null'' | Some x \<Rightarrow> x) = normal v"
    and No_data: "co_Data c (co_Wrap c (version_string h) ns None) = None"
    and Version: "co_Version c (co_Wrap c (version_string h) ns x) = version_string h"
    and Savepoint: "co_ReadSavepoint c (co_Savepoint c h q) = Inr h"
    and JSON: "ce_IsJSON env v \<Longrightarrow> ce_IsJSON env (co_Wrap c (version_string h) ns (Some v))" "ce_IsJSON env (co_Savepoint c h q)"
begin

lemma unwrap_doc:
  "removeDataWrapper c (cd_JSONValue (couch_doc_of env c ns v h)) (cd_Attachments (couch_doc_of env c ns v h))
     = Inr (if ce_IsJSON env v then normal v else v, h)"
  using Data [of v h ns]
  by (auto simp: removeDataWrapper_def couch_doc_of_def addVersionAndChainCodeID_def Version version_string_parses No_data split: option.splits)

end

locale couch_state = calm_server env docs db good revision + couch_json env c normal
  for env :: "'d couch_env" and docs :: "'d \<Rightarrow> bytes \<Rightarrow> bytes \<Rightarrow> CouchDoc option" and db :: bytes and good :: "'d \<Rightarrow> bool"
    and revision :: "'d \<Rightarrow> bytes \<Rightarrow> bytes" and c :: couch_codec and normal :: "bytes \<Rightarrow> bytes" +
  assumes Savepoint_id: "ce_ValidString env savepointDocID"
begin

lemma thread_effect:
  assumes "good d" "writable env w"
  shows "\<exists>d'. CommitThread env c db w d = (Inr (), d') \<and> good d' \<and> docs d' = set_doc db (write_id w) (write_doc env c w) (docs d)"
proof -
  obtain ns k vv where w: "w = (ns, k, vv)" by (cases w) auto
  have valid: "ce_ValidString env (constructCompositeKey ns k)" using assms(2) by (simp add: writable_def write_id_def w)
  show ?thesis
  proof (cases "vv_Value vv")
    case None
    obtain d' where d': "DeleteDoc env db (constructCompositeKey ns k) d = (Inr (), d')" "good d'" using Delete_good [OF assms(1) valid] by blast
    from DeleteDoc_removes [OF d'(1)] d' None show ?thesis by (simp add: CommitThread_def w write_id_def write_doc_def lift_res_def)
  next
    case (Some v)
    then obtain h where h: "vv_Version vv = Some h" using assms(2) by (auto simp: writable_def w)
    let ?x = "couch_doc_of env c ns v h"
    have "cd_Attachments ?x \<noteq> None \<or> ce_IsJSON env (cd_JSONValue ?x)" by (simp add: couch_doc_of_def addVersionAndChainCodeID_def JSON)
    then obtain r d' where d': "SaveDoc env db (constructCompositeKey ns k) [] ?x d = (Inr r, d')" "good d'" using Save_good [OF assms(1) valid] by blast
    from SaveDoc_stores [OF d'(1)] d' Some h show ?thesis by (simp add: CommitThread_def w write_id_def write_doc_def lift_res_def lsm_bind_def)
  qed
qed

lemma write_then_read:
  assumes "good d" "writable env (ns, k, vv)" "CommitThread env c db (ns, k, vv) d = (Inr (), d')" "couch_GetState env c db ns k d' = (Inr r, d'')"
  shows "r = (case vv_Value vv of None \<Rightarrow> None | Some v \<Rightarrow> Some \<lparr>vv_Value = Some (if ce_IsJSON env v then normal v else v), vv_Version = vv_Version vv\<rparr>)"
proof -
  let ?i = "constructCompositeKey ns k"
  have d': "docs d' db ?i = write_doc env c (ns, k, vv)" using thread_effect [OF assms(1,2)] assms(3) by (auto simp: write_id_def)
  obtain x t rv where rd: "ReadDoc env db ?i d' = (Inr (x, rv), t)" using assms(4) by (auto simp: couch_GetState_def lsm_bind_Inr)
  from ReadDoc_reads [OF rd] d' have x: "x = write_doc env c (ns, k, vv)" by simp
  show ?thesis
  proof (cases "vv_Value vv")
    case None
    then show ?thesis using assms(4) rd x by (simp add: couch_GetState_def write_doc_def lift_res_def lsm_bind_def)
  next
    case (Some v)
    moreover from this obtain h where "vv_Version vv = Some h" using assms(2) by (auto simp: writable_def)
    ultimately show ?thesis using assms(4) rd x
      by (auto simp: couch_GetState_def write_doc_def lift_res_def lsm_bind_def unwrap_doc)
  qed
qed

text \<open>What is read depends on the document alone.\<close>

lemma GetState_good:
  assumes "good d" "good d'" "docs d' db (constructCompositeKey ns k) = docs d db (constructCompositeKey ns k)"
  shows "fst (couch_GetState env c db ns k d') = fst (couch_GetState env c db ns k d)"
proof (cases "ce_ValidString env (constructCompositeKey ns k)")
  case True
  obtain rv t where "ReadDoc env db (constructCompositeKey ns k) d = (Inr (docs d db (constructCompositeKey ns k), rv), t)" using Read_good [OF assms(1) True] by blast
  moreover obtain rv' t' where "ReadDoc env db (constructCompositeKey ns k) d' = (Inr (docs d' db (constructCompositeKey ns k), rv'), t')" using Read_good [OF assms(2) True] by blast
  ultimately show ?thesis using assms(3) by (auto simp: couch_GetState_def lsm_bind_def lift_res_def split: option.splits sum.splits prod.splits)
qed (simp add: couch_GetState_def lsm_bind_def ReadDoc_def)

lemma GetState_written:
  assumes "good d" "writable env (ns, k, vv)" "docs d db (constructCompositeKey ns k) = write_doc env c (ns, k, vv)"
  shows "fst (couch_GetState env c db ns k d)
    = Inr (case vv_Value vv of None \<Rightarrow> None | Some v \<Rightarrow> Some \<lparr>vv_Value = Some (if ce_IsJSON env v then normal v else v), vv_Version = vv_Version vv\<rparr>)"
proof -
  have "ce_ValidString env (constructCompositeKey ns k)" using assms(2) by (simp add: writable_def write_id_def)
  then obtain rv t where rd: "ReadDoc env db (constructCompositeKey ns k) d = (Inr (write_doc env c (ns, k, vv), rv), t)"
    using Read_good [OF assms(1)] assms(3) by fastforce
  then show ?thesis using assms(2) unwrap_doc by (auto simp: couch_GetState_def write_doc_def writable_def lsm_bind_def lift_res_def split: option.splits)
qed

lemma savepoint_good:
  assumes "good d" "docs d db savepointDocID = Some \<lparr>cd_JSONValue = co_Savepoint c height q, cd_Attachments = None\<rparr>"
  shows "fst (couch_GetLatestSavePoint env c db d) = Inr (Some height)"
proof -
  obtain rv t where "ReadDoc env db savepointDocID d = (Inr (docs d db savepointDocID, rv), t)" using Read_good [OF assms(1) Savepoint_id] by blast
  then show ?thesis using assms(2) by (simp add: couch_GetLatestSavePoint_def lsm_bind_def lift_res_def Savepoint)
qed

lemma savepoint_not_key: "savepointDocID \<noteq> constructCompositeKey ns k"
proof -
  have "CHR 0x00 \<in> set (constructCompositeKey ns k)" "CHR 0x00 \<notin> set savepointDocID"
    by (simp_all add: constructCompositeKey_def compositeKeySep_def savepointDocID_def)
  then show ?thesis by metis
qed

end

section \<open>The writes of a batch\<close>

lemma updates_mem:
  assumes "batch_ok b"
  shows "(k, vv) \<in> set (GetUpdates b ns) \<longleftrightarrow> batch_Get b ns k = Some vv"
proof (cases "gm_get (updates b) ns")
  case (Some m)
  then show ?thesis using batch_ok_ns [OF assms Some] by (simp add: GetUpdates_def batch_Get_def)
qed (simp add: GetUpdates_def batch_Get_def)

lemma updated_ns: "batch_Get b ns k = Some vv \<Longrightarrow> ns \<in> set (gm_keys (updates b))"
  unfolding batch_Get_def by (cases "gm_get (updates b) ns") (auto dest!: map_of_SomeD intro: rev_image_eqI)

lemma batch_writes_mem:
  assumes "batch_ok b"
  shows "(ns, k, vv) \<in> set (batch_writes b) \<longleftrightarrow> batch_Get b ns k = Some vv"
proof
  assume "(ns, k, vv) \<in> set (batch_writes b)"
  then have "(k, vv) \<in> set (GetUpdates b ns)" by (auto simp: batch_writes_def)
  then show "batch_Get b ns k = Some vv" using updates_mem [OF assms] by blast
next
  assume g: "batch_Get b ns k = Some vv"
  then have "ns \<in> set (GetUpdatedNamespaces b)" "(k, vv) \<in> set (GetUpdates b ns)"
    using updates_mem [OF assms] updated_ns unfolding GetUpdatedNamespaces_def by blast+
  then show "(ns, k, vv) \<in> set (batch_writes b)" by (force simp: batch_writes_def)
qed

text \<open>Every document is written by one routine.\<close>

lemma batch_writes_ids:
  assumes "batch_storable b"
  shows "distinct (map write_id (batch_writes b))"
proof -
  have ok: "gm_ok (updates b)" "\<forall>(ns, m) \<in> set (updates b). gm_ok m" "\<forall>ns \<in> set (gm_keys (updates b)). ns_ok ns"
    using assms by (simp_all add: batch_storable_def batch_ok_def)
  have ns: "distinct (map write_id (map (\<lambda>(k, vv). (ns, k, vv)) (GetUpdates b ns)))" if "ns_ok ns" for ns
  proof -
    have "distinct (map fst (GetUpdates b ns))"
      using ok(2) map_of_SomeD [of "updates b" ns] by (fastforce simp: GetUpdates_def split: option.splits)
    moreover have "map write_id (map (\<lambda>(k, vv). (ns, k, vv)) (GetUpdates b ns)) = map (constructCompositeKey ns) (map fst (GetUpdates b ns))"
      by (simp add: write_id_def case_prod_beta)
    moreover have "inj (constructCompositeKey ns)" using construct_inj [OF that that] by (auto intro: injI)
    ultimately show ?thesis by (metis distinct_map inj_on_subset subset_UNIV)
  qed
  have "distinct (map write_id (concat (map (\<lambda>ns. map (\<lambda>(k, vv). (ns, k, vv)) (GetUpdates b ns)) nss)))"
    if "distinct nss" "\<forall>ns \<in> set nss. ns_ok ns" for nss
    using that
  proof (induction nss)
    case (Cons n nss)
    have "write_id (n, k, vv) \<noteq> write_id (m, k', vv')" if "m \<in> set nss" for m k vv k' vv'
      using construct_inj [of n m k k'] Cons.prems that by (auto simp: write_id_def)
    then have "set (map write_id (map (\<lambda>(k, vv). (n, k, vv)) (GetUpdates b n)))
        \<inter> set (map write_id (concat (map (\<lambda>ns. map (\<lambda>(k, vv). (ns, k, vv)) (GetUpdates b ns)) nss))) = {}" by fastforce
    then show ?case using Cons ns [of n] by simp
  qed simp
  then show ?thesis unfolding batch_writes_def GetUpdatedNamespaces_def using ok(1,3) by blast
qed

text \<open>CouchDB takes valid UTF-8 as the id of a document only.\<close>

definition keys_valid :: "'d couch_env \<Rightarrow> UpdateBatch \<Rightarrow> bool" where
  "keys_valid env b \<longleftrightarrow> (\<forall>ns k vv. batch_Get b ns k = Some vv \<longrightarrow> ce_ValidString env (constructCompositeKey ns k))"

lemma batch_writable:
  assumes "batch_storable b" "keys_valid env b" "w \<in> set (batch_writes b)"
  shows "writable env w"
proof -
  obtain ns k vv where w: "w = (ns, k, vv)" by (cases w) auto
  have "batch_Get b ns k = Some vv" using batch_writes_mem [of b] assms(1,3) by (simp add: w batch_storable_def)
  then show ?thesis using assms(1,2) unfolding batch_storable_def keys_valid_def writable_def w write_id_def by auto
qed

section \<open>Routines side by side\<close>

text \<open>
  A routine about to write the document \<open>v\<close> with the revision \<open>rv\<close>, and one about to ask for it. \<open>saving\<close>
  follows one through its turns: \<open>old\<close> is the document before, \<open>doc\<close> the one there now.
\<close>

definition ready :: "bytes \<Rightarrow> bytes \<Rightarrow> CouchDoc option \<Rightarrow> bytes \<Rightarrow> routine \<Rightarrow> bool" where
  "ready db i v rv t \<longleftrightarrow> (\<exists>req f. t = Asks req f \<and> write_of req db i v \<and> rq_Rev req = rv
     \<and> (\<forall>r. rp_StatusCode r < 400 \<and> rp_Etag r \<noteq> [] \<or> v = None \<and> (rp_StatusCode r < 400 \<or> rp_StatusCode r = 404) \<longrightarrow> f (couch_outcome r) = Finished (Inr ())))"

definition starts :: "bytes \<Rightarrow> bytes \<Rightarrow> CouchDoc option \<Rightarrow> routine \<Rightarrow> bool" where
  "starts db i v t \<longleftrightarrow> (\<exists>f. t = Asks (couch_request GET (U_doc db i)) f \<and> (\<forall>a. ready db i v (revision_in a) (f a)))"

definition saving :: "bytes \<Rightarrow> bytes \<Rightarrow> CouchDoc option \<Rightarrow> CouchDoc option \<Rightarrow> CouchDoc option \<Rightarrow> bytes \<Rightarrow> nat \<Rightarrow> routine \<Rightarrow> bool" where
  "saving db i v old doc rv j t \<longleftrightarrow>
     (if j = 0 then starts db i v t \<and> doc = old else if j = 1 then ready db i v rv t \<and> doc = old else t = Finished (Inr ()) \<and> doc = v)"

lemma attempts_start:
  assumes "ce_ValidString env i" "write_of req db i v"
    and "\<And>r. rp_StatusCode r < 400 \<and> rp_Etag r \<noteq> [] \<or> v = None \<and> (rp_StatusCode r < 400 \<or> rp_StatusCode r = 404) \<Longrightarrow> k (Some (couch_outcome r)) = Finished (Inr ())"
  shows "starts db i v (attempts env db i req (Suc n) l k)"
proof -
  have "(case couch_outcome r of CouchErr st e \<Rightarrow> if st = Some 409 then attempts env db i req n (Some (CouchErr st e)) k else k (Some (CouchErr st e))
      | CouchOK r \<Rightarrow> k (Some (CouchOK r))) = Finished (Inr ())"
    if "rp_StatusCode r < 400 \<and> rp_Etag r \<noteq> [] \<or> v = None \<and> (rp_StatusCode r < 400 \<or> rp_StatusCode r = 404)" for r
    using assms(3) [OF that] that by (auto simp: couch_outcome_def)
  then show ?thesis using assms(1,2) by (simp add: starts_def ready_def ask_revision_def)
qed

context couch_state
begin

lemma save_starts:
  assumes "ce_ValidString env i" "cd_Attachments x \<noteq> None \<or> ce_IsJSON env (cd_JSONValue x)"
  shows "starts db i (Some x) (save_routine env db i x)"
proof -
  obtain n where n: "ce_MaxRetries env = Suc n" using Retries gr0_implies_Suc by blast
  let ?req = "\<lparr>rq_Method = PUT, rq_URL = U_doc db i, rq_Data = Some x, rq_Rev = []\<rparr>"
  have w: "write_of ?req db i (Some x)" by (simp add: write_of_def)
  show ?thesis unfolding save_routine_def n using assms
    by (auto simp del: attempts.simps simp: couch_outcome_def getRevisionHeader_def intro!: attempts_start [OF assms(1) w])
qed

lemma commit_starts:
  assumes "writable env w"
  shows "starts db (write_id w) (write_doc env c w) (commit_routine env c db w)"
proof -
  obtain n where n: "ce_MaxRetries env = Suc n" using Retries gr0_implies_Suc by blast
  obtain ns k vv where w: "w = (ns, k, vv)" by (cases w) auto
  have valid: "ce_ValidString env (constructCompositeKey ns k)" using assms by (simp add: writable_def write_id_def w)
  show ?thesis
  proof (cases "vv_Value vv")
    case None
    have "write_of (couch_request DELETE (U_doc db (constructCompositeKey ns k))) db (constructCompositeKey ns k) None"
      by (simp add: write_of_def couch_request_def)
    from attempts_start [OF valid this] None show ?thesis by (simp del: attempts.simps add: w commit_routine_def write_id_def write_doc_def n)
  next
    case (Some v)
    then obtain h where h: "vv_Version vv = Some h" using assms by (auto simp: writable_def w)
    have "cd_Attachments (couch_doc_of env c ns v h) \<noteq> None \<or> ce_IsJSON env (cd_JSONValue (couch_doc_of env c ns v h))"
      by (simp add: couch_doc_of_def addVersionAndChainCodeID_def JSON)
    from save_starts [OF valid this] Some h show ?thesis by (simp add: w commit_routine_def write_id_def write_doc_def)
  qed
qed

text \<open>A turn of a routine that saves a document: it goes on, and no other document or revision changes.\<close>

lemma ask_turn:
  assumes "good d" "starts db i v t"
  shows "\<exists>t' d'. advance env t d = Inr (t', d') \<and> good d' \<and> ready db i v (revision d' i) t' \<and> docs d' = docs d \<and> (\<forall>j. revision d' j = revision d j)"
proof -
  obtain f where f: "t = Asks (couch_request GET (U_doc db i)) f" "\<forall>a. ready db i v (revision_in a) (f a)" using assms(2) unfolding starts_def by blast
  obtain r d' where r: "ce_Do env (couch_request GET (U_doc db i)) d = (HttpResp r, d')" "good d'"
      "handleRequest env (couch_request GET (U_doc db i)) (ce_MaxRetries env) d = (couch_outcome r, d')"
    using handled [OF assms(1)] .
  have get: "rq_Method (couch_request GET (U_doc db i)) = GET" by (simp add: couch_request_def)
  have "revision d' j = revision d j" for j using Kept [OF assms(1) _ r(1)] get by blast
  moreover have "revision_in (couch_outcome r) = revision d' i"
    using Get_revision [OF assms(1) r(1)] Get_doc [OF r(1)]
    by (auto simp: revision_in_def couch_outcome_def getRevisionHeader_def split: if_splits)
  moreover have "advance env t d = Inr (f (couch_outcome r), d')" using f(1) r(3) by (simp add: advance_def)
  ultimately show ?thesis using f(2) r(2) Get [OF get r(1)] by metis
qed

lemma write_turn:
  assumes "good d" "ready db i v (revision d i) t"
  shows "\<exists>d'. advance env t d = Inr (Finished (Inr ()), d') \<and> good d' \<and> docs d' = set_doc db i v (docs d) \<and> (\<forall>j. j \<noteq> i \<longrightarrow> revision d' j = revision d j)"
proof -
  obtain req f where f: "t = Asks req f" "write_of req db i v" "rq_Rev req = revision d i"
      "\<forall>r. rp_StatusCode r < 400 \<and> rp_Etag r \<noteq> [] \<or> v = None \<and> (rp_StatusCode r < 400 \<or> rp_StatusCode r = 404) \<longrightarrow> f (couch_outcome r) = Finished (Inr ())"
    using assms(2) unfolding ready_def by blast
  obtain r d' where r: "ce_Do env req d = (HttpResp r, d')" "good d'" "handleRequest env req (ce_MaxRetries env) d = (couch_outcome r, d')"
    using handled [OF assms(1)] .
  have url: "rq_URL req = U_doc db i" using f(2) by (simp add: write_of_def)
  have st: "rp_StatusCode r < 400 \<and> rp_Etag r \<noteq> [] \<or> v = None \<and> (rp_StatusCode r < 400 \<or> rp_StatusCode r = 404)"
  proof (cases "rq_Method req = PUT")
    case True
    then have "rq_Data req \<noteq> None" using f(2) by (auto simp: write_of_def)
    then show ?thesis using Put_current [OF assms(1) True url _ f(3) r(1)] by simp
  next
    case False
    then have "rq_Method req = DELETE" "v = None" using f(2) by (auto simp: write_of_def)
    then show ?thesis using Delete_current [OF assms(1) _ url f(3) r(1)] by simp
  qed
  have "docs d' = set_doc db i v (docs d)"
  proof (cases "rp_StatusCode r < 400")
    case True
    then show ?thesis using Write_ok [OF f(2) r(1)] by simp
  next
    case False
    then have "v = None" "rp_StatusCode r = 404" using st by auto
    then have "docs d' db i = None" "docs d' \<in> {docs d, set_doc db i None (docs d)}" using Delete_none [OF _ r(1)] Write [OF f(2) r(1)] f(2) by auto
    then show ?thesis using \<open>v = None\<close> by (auto simp: set_doc_def fun_eq_iff)
  qed
  moreover have "revision d' j = revision d j" if "j \<noteq> i" for j using Kept [OF assms(1) _ r(1)] url that by metis
  moreover have "f (couch_outcome r) = Finished (Inr ())" using f(4) st by blast
  then have "advance env t d = Inr (Finished (Inr ()), d')" using f(1) r(3) by (simp add: advance_def)
  ultimately show ?thesis using r(2) by blast
qed

lemma saving_turn:
  assumes "good d" "saving db i v old (docs d db i) (revision d i) m t"
  shows "\<exists>t' d'. advance env t d = Inr (t', d') \<and> good d' \<and> saving db i v old (docs d' db i) (revision d' i) (Suc m) t'
    \<and> (\<forall>db' j. db' \<noteq> db \<or> j \<noteq> i \<longrightarrow> docs d' db' j = docs d db' j) \<and> (\<forall>j. j \<noteq> i \<longrightarrow> revision d' j = revision d j)"
proof -
  consider "m = 0" | "m = 1" | "m > 1" by linarith
  then show ?thesis
  proof cases
    case 1
    then have "starts db i v t" "docs d db i = old" using assms(2) by (simp_all add: saving_def)
    from ask_turn [OF assms(1) this(1)] this(2) 1 show ?thesis by (fastforce simp: saving_def)
  next
    case 2
    then have "ready db i v (revision d i) t" using assms(2) by (simp add: saving_def)
    from write_turn [OF assms(1) this] 2 show ?thesis by (fastforce simp: saving_def set_doc_def)
  next
    case 3
    then show ?thesis using assms by (simp add: saving_def advance_def)
  qed
qed

text \<open>The caller of \<^verbatim>\<open>ApplyUpdates\<close>: two requests, then a document to save.\<close>

end

definition savepoint_doc :: "couch_codec \<Rightarrow> Height \<Rightarrow> bytes \<Rightarrow> CouchDoc" where
  "savepoint_doc c height q = \<lparr>cd_JSONValue = co_Savepoint c height q, cd_Attachments = None\<rparr>"

definition asks_info :: "bytes \<Rightarrow> (bytes \<Rightarrow> CouchDoc) \<Rightarrow> routine \<Rightarrow> bool" where
  "asks_info db x t \<longleftrightarrow> (\<exists>f. t = Asks (couch_request GET (U_db db)) f
     \<and> (\<forall>r. rp_StatusCode r < 400 \<longrightarrow> (\<exists>q. starts db savepointDocID (Some (x q)) (f (couch_outcome r)))))"

definition asks_commit :: "bytes \<Rightarrow> (bytes \<Rightarrow> CouchDoc) \<Rightarrow> routine \<Rightarrow> bool" where
  "asks_commit db x t \<longleftrightarrow> (\<exists>f. t = Asks (couch_request POST (U_commit db)) f
     \<and> (\<forall>r. rp_StatusCode r < 400 \<and> rp_Body r = BodyOk True \<longrightarrow> asks_info db x (f (couch_outcome r))))"

definition recording :: "bytes \<Rightarrow> (bytes \<Rightarrow> CouchDoc) \<Rightarrow> CouchDoc option \<Rightarrow> CouchDoc option \<Rightarrow> bytes \<Rightarrow> nat \<Rightarrow> routine \<Rightarrow> bool" where
  "recording db x old doc rv m t \<longleftrightarrow>
     (if m = 0 then asks_commit db x t \<and> doc = old else if m = 1 then asks_info db x t \<and> doc = old
      else (\<exists>q. saving db savepointDocID (Some (x q)) old doc rv (m - 2) t))"

context couch_state
begin

lemma savepoint_starts: "asks_commit db (savepoint_doc c height) (savepoint_routine env c db height)"
proof -
  have "starts db savepointDocID (Some (savepoint_doc c height q)) (save_routine env db savepointDocID (savepoint_doc c height q))" for q
    by (rule save_starts [OF Savepoint_id]) (simp add: savepoint_doc_def JSON)
  then show ?thesis
    unfolding asks_commit_def asks_info_def savepoint_routine_def by (auto simp: couch_outcome_def body_ok_def savepoint_doc_def)
qed

lemma commit_turn:
  assumes "good d" "asks_commit db x t"
  shows "\<exists>t' d'. advance env t d = Inr (t', d') \<and> good d' \<and> asks_info db x t' \<and> docs d' = docs d \<and> (\<forall>j. revision d' j = revision d j)"
proof -
  obtain f where f: "t = Asks (couch_request POST (U_commit db)) f"
      "\<forall>r. rp_StatusCode r < 400 \<and> rp_Body r = BodyOk True \<longrightarrow> asks_info db x (f (couch_outcome r))" using assms(2) unfolding asks_commit_def by blast
  obtain r d' where r: "ce_Do env (couch_request POST (U_commit db)) d = (HttpResp r, d')" "good d'"
      "handleRequest env (couch_request POST (U_commit db)) (ce_MaxRetries env) d = (couch_outcome r, d')"
    using handled [OF assms(1)] .
  have "rq_URL (couch_request POST (U_commit db)) = U_commit db" by (simp add: couch_request_def)
  then have "revision d' j = revision d j" for j using Kept [OF assms(1) _ r(1)] by blast
  moreover have "advance env t d = Inr (f (couch_outcome r), d')" using f(1) r(3) by (simp add: advance_def)
  ultimately show ?thesis using f(2) r(2) Commit [OF assms(1) r(1)] by blast
qed

lemma info_turn:
  assumes "good d" "asks_info db x t"
  shows "\<exists>t' d' q. advance env t d = Inr (t', d') \<and> good d' \<and> starts db savepointDocID (Some (x q)) t' \<and> docs d' = docs d \<and> (\<forall>j. revision d' j = revision d j)"
proof -
  obtain f where f: "t = Asks (couch_request GET (U_db db)) f"
      "\<forall>r. rp_StatusCode r < 400 \<longrightarrow> (\<exists>q. starts db savepointDocID (Some (x q)) (f (couch_outcome r)))" using assms(2) unfolding asks_info_def by blast
  obtain r d' where r: "ce_Do env (couch_request GET (U_db db)) d = (HttpResp r, d')" "good d'"
      "handleRequest env (couch_request GET (U_db db)) (ce_MaxRetries env) d = (couch_outcome r, d')"
    using handled [OF assms(1)] .
  have get: "rq_Method (couch_request GET (U_db db)) = GET" by (simp add: couch_request_def)
  then have "revision d' j = revision d j" for j using Kept [OF assms(1) _ r(1)] by blast
  moreover have "advance env t d = Inr (f (couch_outcome r), d')" using f(1) r(3) by (simp add: advance_def)
  ultimately show ?thesis using f(2) r(2) Info [OF assms(1) r(1)] Get [OF get r(1)] by blast
qed

lemma recording_turn:
  assumes "good d" "recording db x old (docs d db savepointDocID) (revision d savepointDocID) m t"
  shows "\<exists>t' d'. advance env t d = Inr (t', d') \<and> good d' \<and> recording db x old (docs d' db savepointDocID) (revision d' savepointDocID) (Suc m) t'
    \<and> (\<forall>db' j. db' \<noteq> db \<or> j \<noteq> savepointDocID \<longrightarrow> docs d' db' j = docs d db' j) \<and> (\<forall>j. j \<noteq> savepointDocID \<longrightarrow> revision d' j = revision d j)"
proof -
  consider "m = 0" | "m = 1" | "m > 1" by linarith
  then show ?thesis
  proof cases
    case 1
    then have "asks_commit db x t" "docs d db savepointDocID = old" using assms(2) by (simp_all add: recording_def)
    from commit_turn [OF assms(1) this(1)] this(2) 1 show ?thesis by (fastforce simp: recording_def)
  next
    case 2
    then have "asks_info db x t" "docs d db savepointDocID = old" using assms(2) by (simp_all add: recording_def)
    from info_turn [OF assms(1) this(1)] this(2) 2 show ?thesis by (fastforce simp: recording_def saving_def)
  next
    case 3
    then obtain q where "saving db savepointDocID (Some (x q)) old (docs d db savepointDocID) (revision d savepointDocID) (m - 2) t"
      using assms(2) by (auto simp: recording_def)
    from saving_turn [OF assms(1) this] obtain t' d' where t': "advance env t d = Inr (t', d')" "good d'"
        "saving db savepointDocID (Some (x q)) old (docs d' db savepointDocID) (revision d' savepointDocID) (Suc (m - 2)) t'"
        "\<forall>db' j. db' \<noteq> db \<or> j \<noteq> savepointDocID \<longrightarrow> docs d' db' j = docs d db' j" "\<forall>j. j \<noteq> savepointDocID \<longrightarrow> revision d' j = revision d j"
      by (elim exE conjE)
    have "Suc m - 2 = Suc (m - 2)" using 3 by simp
    then have "recording db x old (docs d' db savepointDocID) (revision d' savepointDocID) (Suc m) t'" using t'(3) 3 unfolding recording_def by auto
    then show ?thesis using t' by blast
  qed
qed

end

text \<open>
  After the schedule every routine is as far as the number of its turns says, the documents are as the
  routines have left them, and no other document has changed.
\<close>

definition turns_taken ::
    "'d couch_env \<Rightarrow> ('d \<Rightarrow> bytes \<Rightarrow> bytes \<Rightarrow> CouchDoc option) \<Rightarrow> bytes \<Rightarrow> ('d \<Rightarrow> bytes \<Rightarrow> bytes) \<Rightarrow> couch_codec \<Rightarrow> Height
     \<Rightarrow> (bytes \<Rightarrow> bytes \<Rightarrow> CouchDoc option) \<Rightarrow> couch_write list \<Rightarrow> (nat \<Rightarrow> nat) \<Rightarrow> 'd couch_db \<Rightarrow> bool" where
  "turns_taken env docs db revision c height D ws turns s \<longleftrightarrow>
     length (cb_threads s) = length ws
     \<and> (\<forall>n < length ws. saving db (write_id (ws ! n)) (write_doc env c (ws ! n)) (D db (write_id (ws ! n)))
          (docs (cb_store s) db (write_id (ws ! n))) (revision (cb_store s) (write_id (ws ! n))) (turns (Suc n)) (cb_threads s ! n))
     \<and> recording db (savepoint_doc c height) (D db savepointDocID) (docs (cb_store s) db savepointDocID) (revision (cb_store s) savepointDocID) (turns 0) (cb_main s)
     \<and> (\<forall>db' i. db' \<noteq> db \<or> i \<noteq> savepointDocID \<and> i \<notin> write_id ` set ws \<longrightarrow> docs (cb_store s) db' i = D db' i)"

lemma write_id_key: "\<exists>ns k. write_id w = constructCompositeKey ns k"
  by (cases w) (auto simp: write_id_def)

context couch_state
begin

lemma savepoint_not_written: "write_id w \<noteq> savepointDocID"
  using write_id_key [of w] savepoint_not_key by metis

lemma caller_turn:
  assumes "good (cb_store s)" "turns_taken env docs db revision c height D ws turns s"
  shows "\<exists>s'. couch_step env 0 s = (Inr (), s') \<and> good (cb_store s') \<and> turns_taken env docs db revision c height D ws (turns(0 := Suc (turns 0))) s'"
proof -
  have "recording db (savepoint_doc c height) (D db savepointDocID) (docs (cb_store s) db savepointDocID) (revision (cb_store s) savepointDocID) (turns 0) (cb_main s)"
    using assms(2) by (simp add: turns_taken_def)
  from recording_turn [OF assms(1) this] obtain t d where t: "advance env (cb_main s) (cb_store s) = Inr (t, d)" "good d"
      "recording db (savepoint_doc c height) (D db savepointDocID) (docs d db savepointDocID) (revision d savepointDocID) (Suc (turns 0)) t"
      "\<forall>db' j. db' \<noteq> db \<or> j \<noteq> savepointDocID \<longrightarrow> docs d db' j = docs (cb_store s) db' j" "\<forall>j. j \<noteq> savepointDocID \<longrightarrow> revision d j = revision (cb_store s) j"
    by (elim exE conjE)
  let ?s' = "s\<lparr>cb_main := t, cb_store := d\<rparr>"
  have "turns_taken env docs db revision c height D ws (turns(0 := Suc (turns 0))) ?s'"
    using assms(2) t(3,4,5) savepoint_not_written by (simp add: turns_taken_def)
  moreover have "couch_step env 0 s = (Inr (), ?s')" using t(1) by (simp add: couch_step_def)
  ultimately show ?thesis using t(2) by (intro exI [of _ ?s']) simp
qed

lemma thread_turn:
  assumes "good (cb_store s)" "turns_taken env docs db revision c height D ws turns s" "distinct (map write_id ws)" "m < length ws"
  shows "\<exists>s'. couch_step env (Suc m) s = (Inr (), s') \<and> good (cb_store s') \<and> turns_taken env docs db revision c height D ws (turns(Suc m := Suc (turns (Suc m)))) s'"
proof -
  let ?i = "write_id (ws ! m)"
  have "saving db ?i (write_doc env c (ws ! m)) (D db ?i) (docs (cb_store s) db ?i) (revision (cb_store s) ?i) (turns (Suc m)) (cb_threads s ! m)"
    using assms(2,4) by (simp add: turns_taken_def)
  from saving_turn [OF assms(1) this] obtain t d where t: "advance env (cb_threads s ! m) (cb_store s) = Inr (t, d)" "good d"
      "saving db ?i (write_doc env c (ws ! m)) (D db ?i) (docs d db ?i) (revision d ?i) (Suc (turns (Suc m))) t"
      "\<forall>db' j. db' \<noteq> db \<or> j \<noteq> ?i \<longrightarrow> docs d db' j = docs (cb_store s) db' j" "\<forall>j. j \<noteq> ?i \<longrightarrow> revision d j = revision (cb_store s) j"
    by (elim exE conjE)
  let ?s' = "s\<lparr>cb_threads := (cb_threads s)[m := t], cb_store := d\<rparr>"
  have len: "length (cb_threads s) = length ws" using assms(2) by (simp add: turns_taken_def)
  have other: "write_id (ws ! n) \<noteq> ?i" if "n < length ws" "n \<noteq> m" for n
    using assms(3,4) that by (metis length_map nth_eq_iff_index_eq nth_map)
  have "saving db (write_id (ws ! n)) (write_doc env c (ws ! n)) (D db (write_id (ws ! n))) (docs d db (write_id (ws ! n))) (revision d (write_id (ws ! n)))
      ((turns(Suc m := Suc (turns (Suc m)))) (Suc n)) ((cb_threads s)[m := t] ! n)" if "n < length ws" for n
    using t(3,4,5) that other [OF that] assms(2) len by (cases "n = m") (simp_all add: turns_taken_def)
  moreover have "docs d db' i = D db' i" if "db' \<noteq> db \<or> i \<noteq> savepointDocID \<and> i \<notin> write_id ` set ws" for db' i
  proof -
    have "db' \<noteq> db \<or> i \<noteq> ?i" using that assms(4) by auto
    then show ?thesis using t(4) assms(2) that by (simp add: turns_taken_def)
  qed
  ultimately have "turns_taken env docs db revision c height D ws (turns(Suc m := Suc (turns (Suc m)))) ?s'"
    using assms(2) t(4,5) savepoint_not_written [of "ws ! m"] len by (simp add: turns_taken_def)
  moreover have "couch_step env (Suc m) s = (Inr (), ?s')" using t(1) assms(4) len by (simp add: couch_step_def)
  ultimately show ?thesis using t(2) by (intro exI [of _ ?s']) simp
qed

lemma any_turn:
  assumes "good (cb_store s)" "turns_taken env docs db revision c height D ws turns s" "distinct (map write_id ws)"
  shows "\<exists>s'. couch_step env n s = (Inr (), s') \<and> good (cb_store s') \<and> turns_taken env docs db revision c height D ws (turns(n := Suc (turns n))) s'"
proof (cases n)
  case 0
  then show ?thesis using caller_turn [OF assms(1,2)] by simp
next
  case (Suc m)
  show ?thesis
  proof (cases "m < length ws")
    case True
    then show ?thesis using thread_turn [OF assms] Suc by simp
  next
    case False
    then have "couch_step env n s = (Inr (), s)" "turns_taken env docs db revision c height D ws (turns(n := Suc (turns n))) s"
      using assms(2) Suc by (simp_all add: couch_step_def turns_taken_def)
    then show ?thesis using assms(1) by blast
  qed
qed

lemma run_turns:
  assumes "good (cb_store s)" "turns_taken env docs db revision c height D ws turns s" "distinct (map write_id ws)"
  shows "\<exists>s'. couch_run env sched s = (Inr (), s') \<and> good (cb_store s') \<and> turns_taken env docs db revision c height D ws (\<lambda>n. turns n + count_list sched n) s'"
  using assms(1,2)
proof (induction sched arbitrary: s turns)
  case Nil
  then show ?case by (simp add: lift_res_def)
next
  case (Cons n sched)
  obtain s1 where s1: "couch_step env n s = (Inr (), s1)" "good (cb_store s1)" "turns_taken env docs db revision c height D ws (turns(n := Suc (turns n))) s1"
    using any_turn [OF Cons.prems assms(3)] by blast
  have "(\<lambda>m. (turns(n := Suc (turns n))) m + count_list sched m) = (\<lambda>m. turns m + count_list (n # sched) m)" by auto
  then show ?case using Cons.IH [OF s1(2,3)] s1(1) by (simp add: lsm_bind_def)
qed

lemma apply_turns:
  assumes "cb_threads s = []" "batch_storable batch" "keys_valid env batch"
  shows "turns_taken env docs db revision c height (docs (cb_store s)) (batch_writes batch) (\<lambda>_. 0) (couch_ApplyUpdates env c db batch height s)"
  using assms commit_starts [OF batch_writable [OF assms(2,3)]] savepoint_starts
  by (simp add: turns_taken_def couch_ApplyUpdates_def saving_def recording_def)

text \<open>
  When every routine has had the turns it needs, two for a write and four for the savepoint, in whatever
  order and whether or not \<^verbatim>\<open>ApplyUpdates\<close> had returned by then, all of them are done, every document of
  the batch is there and no other has changed but the savepoint.
\<close>

lemma all_writes_applied:
  assumes "good (cb_store s)" "cb_threads s = []" "batch_storable batch" "keys_valid env batch" "4 \<le> count_list sched 0"
    and "\<forall>n \<in> {1..length (batch_writes batch)}. 2 \<le> count_list sched n"
  shows "\<exists>s' q. couch_run env sched (couch_ApplyUpdates env c db batch height s) = (Inr (), s') \<and> good (cb_store s')
    \<and> cb_main s' = Finished (Inr ()) \<and> cb_threads s' = replicate (length (batch_writes batch)) (Finished (Inr ()))
    \<and> docs (cb_store s') db savepointDocID = Some (savepoint_doc c height q)
    \<and> (\<forall>w \<in> set (batch_writes batch). docs (cb_store s') db (write_id w) = write_doc env c w)
    \<and> (\<forall>i. i \<noteq> savepointDocID \<and> i \<notin> write_id ` set (batch_writes batch) \<longrightarrow> docs (cb_store s') db i = docs (cb_store s) db i)"
proof -
  let ?ws = "batch_writes batch" and ?D = "docs (cb_store s)"
  obtain s' where s': "couch_run env sched (couch_ApplyUpdates env c db batch height s) = (Inr (), s')" "good (cb_store s')"
      "turns_taken env docs db revision c height ?D ?ws (\<lambda>n. 0 + count_list sched n) s'"
    using run_turns [OF _ apply_turns [OF assms(2,3,4)] batch_writes_ids [OF assms(3)], of height sched] assms(1) by (auto simp: couch_ApplyUpdates_def)
  have ended: "cb_threads s' ! n = Finished (Inr ())" "docs (cb_store s') db (write_id (?ws ! n)) = write_doc env c (?ws ! n)" if "n < length ?ws" for n
  proof -
    have "2 \<le> count_list sched (Suc n)" using assms(6) that by simp
    then show "cb_threads s' ! n = Finished (Inr ())" "docs (cb_store s') db (write_id (?ws ! n)) = write_doc env c (?ws ! n)"
      using s'(3) that by (simp_all add: turns_taken_def saving_def split: if_splits)
  qed
  have "length (cb_threads s') = length ?ws" using s'(3) by (simp add: turns_taken_def)
  then have "cb_threads s' = replicate (length ?ws) (Finished (Inr ()))" using ended(1) by (simp add: list_eq_iff_nth_eq)
  moreover have "\<forall>w \<in> set ?ws. docs (cb_store s') db (write_id w) = write_doc env c w" using ended(2) by (metis in_set_conv_nth)
  moreover obtain q where "saving db savepointDocID (Some (savepoint_doc c height q)) (?D db savepointDocID) (docs (cb_store s') db savepointDocID)
      (revision (cb_store s') savepointDocID) (count_list sched 0 - 2) (cb_main s')"
    using s'(3) assms(5) by (auto simp: turns_taken_def recording_def)
  then have "cb_main s' = Finished (Inr ())" "docs (cb_store s') db savepointDocID = Some (savepoint_doc c height q)"
    using assms(5) by (simp_all add: saving_def split: if_splits)
  moreover have "\<forall>i. i \<noteq> savepointDocID \<and> i \<notin> write_id ` set ?ws \<longrightarrow> docs (cb_store s') db i = ?D db i" using s'(3) by (simp add: turns_taken_def)
  ultimately show ?thesis using s'(1,2) by blast
qed

text \<open>In terms of what is read: the overlay of the batch, and its height.\<close>

lemma applied_reads:
  assumes "good (cb_store s)" "cb_threads s = []" "batch_storable batch" "keys_valid env batch" "4 \<le> count_list sched 0"
    and "\<forall>n \<in> {1..length (batch_writes batch)}. 2 \<le> count_list sched n" "ns_ok ns"
  shows "\<exists>s'. couch_run env sched (couch_ApplyUpdates env c db batch height s) = (Inr (), s')
    \<and> cb_main s' = Finished (Inr ()) \<and> cb_threads s' = replicate (length (batch_writes batch)) (Finished (Inr ()))
    \<and> fst (couch_GetLatestSavePoint env c db (cb_store s')) = Inr (Some height)
    \<and> fst (couch_GetState env c db ns k (cb_store s')) = (case batch_Get batch ns k of None \<Rightarrow> fst (couch_GetState env c db ns k (cb_store s))
        | Some vv \<Rightarrow> Inr (case vv_Value vv of None \<Rightarrow> None | Some v \<Rightarrow> Some \<lparr>vv_Value = Some (if ce_IsJSON env v then normal v else v), vv_Version = vv_Version vv\<rparr>))"
proof -
  have ok: "batch_ok batch" using assms(3) by (simp add: batch_storable_def)
  obtain s' q where s': "couch_run env sched (couch_ApplyUpdates env c db batch height s) = (Inr (), s')" "good (cb_store s')"
      "cb_main s' = Finished (Inr ())" "cb_threads s' = replicate (length (batch_writes batch)) (Finished (Inr ()))"
      "docs (cb_store s') db savepointDocID = Some (savepoint_doc c height q)"
      "\<forall>w \<in> set (batch_writes batch). docs (cb_store s') db (write_id w) = write_doc env c w"
      "\<forall>i. i \<noteq> savepointDocID \<and> i \<notin> write_id ` set (batch_writes batch) \<longrightarrow> docs (cb_store s') db i = docs (cb_store s) db i"
    using all_writes_applied [OF assms(1-6), of height] by (elim exE conjE)
  have sp: "fst (couch_GetLatestSavePoint env c db (cb_store s')) = Inr (Some height)"
    using savepoint_good [OF s'(2)] s'(5) unfolding savepoint_doc_def .
  have "fst (couch_GetState env c db ns k (cb_store s')) = (case batch_Get batch ns k of None \<Rightarrow> fst (couch_GetState env c db ns k (cb_store s))
        | Some vv \<Rightarrow> Inr (case vv_Value vv of None \<Rightarrow> None | Some v \<Rightarrow> Some \<lparr>vv_Value = Some (if ce_IsJSON env v then normal v else v), vv_Version = vv_Version vv\<rparr>))"
  proof (cases "batch_Get batch ns k")
    case None
    have "constructCompositeKey ns k \<notin> write_id ` set (batch_writes batch)"
    proof
      assume "constructCompositeKey ns k \<in> write_id ` set (batch_writes batch)"
      then obtain ns' k' vv where w: "(ns', k', vv) \<in> set (batch_writes batch)" "constructCompositeKey ns k = constructCompositeKey ns' k'" by (auto simp: write_id_def)
      then have g: "batch_Get batch ns' k' = Some vv" using batch_writes_mem [OF ok] by blast
      then have "ns_ok ns'" using assms(3) updated_ns unfolding batch_storable_def by blast
      then show False using construct_inj [OF assms(7)] w(2) g None by auto
    qed
    then have "docs (cb_store s') db (constructCompositeKey ns k) = docs (cb_store s) db (constructCompositeKey ns k)" using s'(7) savepoint_not_key by metis
    from GetState_good [OF assms(1) s'(2) this] None show ?thesis by simp
  next
    case (Some vv)
    then have mem: "(ns, k, vv) \<in> set (batch_writes batch)" using batch_writes_mem [OF ok] by blast
    then have "docs (cb_store s') db (constructCompositeKey ns k) = write_doc env c (ns, k, vv)" using s'(6) by (fastforce simp: write_id_def)
    from GetState_written [OF s'(2) batch_writable [OF assms(3,4) mem] this] Some show ?thesis by simp
  qed
  then show ?thesis using s'(1,3,4) sp by blast
qed

text \<open>The caller's turns alone end with the savepoint recorded and every write still to be made.\<close>

lemma caller_alone:
  assumes "good (cb_store s)" "recording db x (D db savepointDocID) (docs (cb_store s) db savepointDocID) (revision (cb_store s) savepointDocID) m (cb_main s)"
    and "\<forall>i. i \<noteq> savepointDocID \<longrightarrow> docs (cb_store s) db i = D db i"
  shows "\<exists>s'. couch_run env (replicate n 0) s = (Inr (), s') \<and> good (cb_store s') \<and> cb_threads s' = cb_threads s
    \<and> recording db x (D db savepointDocID) (docs (cb_store s') db savepointDocID) (revision (cb_store s') savepointDocID) (m + n) (cb_main s')
    \<and> (\<forall>i. i \<noteq> savepointDocID \<longrightarrow> docs (cb_store s') db i = D db i)"
  using assms
proof (induction n arbitrary: s m)
  case 0
  then show ?case by (simp add: lift_res_def)
next
  case (Suc n)
  from recording_turn [OF Suc.prems(1,2)] obtain t d where t: "advance env (cb_main s) (cb_store s) = Inr (t, d)" "good d"
      "recording db x (D db savepointDocID) (docs d db savepointDocID) (revision d savepointDocID) (Suc m) t"
      "\<forall>db' j. db' \<noteq> db \<or> j \<noteq> savepointDocID \<longrightarrow> docs d db' j = docs (cb_store s) db' j" by (elim exE conjE)
  let ?s1 = "s\<lparr>cb_main := t, cb_store := d\<rparr>"
  have "couch_step env 0 s = (Inr (), ?s1)" using t(1) by (simp add: couch_step_def)
  moreover have "\<forall>i. i \<noteq> savepointDocID \<longrightarrow> docs d db i = D db i" using t(4) Suc.prems(3) by simp
  ultimately show ?case using Suc.IH [of ?s1 "Suc m"] t(2,3) by (simp add: lsm_bind_def)
qed

lemma savepoint_before_writes:
  assumes "good (cb_store s)" "cb_threads s = []"
  shows "\<exists>s'. couch_run env (replicate 4 0) (couch_ApplyUpdates env c db batch height s) = (Inr (), s')
    \<and> cb_main s' = Finished (Inr ()) \<and> cb_threads s' = map (commit_routine env c db) (batch_writes batch)
    \<and> fst (couch_GetLatestSavePoint env c db (cb_store s')) = Inr (Some height)
    \<and> fst (couch_GetState env c db ns k (cb_store s')) = fst (couch_GetState env c db ns k (cb_store s))"
proof -
  let ?s = "couch_ApplyUpdates env c db batch height s" and ?D = "docs (cb_store s)"
  have "recording db (savepoint_doc c height) (?D db savepointDocID) (docs (cb_store ?s) db savepointDocID) (revision (cb_store ?s) savepointDocID) 0 (cb_main ?s)"
    using savepoint_starts by (simp add: recording_def couch_ApplyUpdates_def)
  from caller_alone [of ?s "savepoint_doc c height" ?D 0 4, OF _ this] obtain s' where s': "couch_run env (replicate 4 0) ?s = (Inr (), s')" "good (cb_store s')" "cb_threads s' = cb_threads ?s"
      "recording db (savepoint_doc c height) (?D db savepointDocID) (docs (cb_store s') db savepointDocID) (revision (cb_store s') savepointDocID) (0 + 4) (cb_main s')"
      "\<forall>i. i \<noteq> savepointDocID \<longrightarrow> docs (cb_store s') db i = ?D db i"
    using assms(1) by (auto simp: couch_ApplyUpdates_def)
  then obtain q where q: "cb_main s' = Finished (Inr ())" "docs (cb_store s') db savepointDocID = Some (savepoint_doc c height q)"
    by (auto simp: recording_def saving_def)
  have "fst (couch_GetLatestSavePoint env c db (cb_store s')) = Inr (Some height)" using savepoint_good [OF s'(2)] q(2) unfolding savepoint_doc_def .
  moreover have "fst (couch_GetState env c db ns k (cb_store s')) = fst (couch_GetState env c db ns k (cb_store s))"
    using GetState_good [OF assms(1) s'(2)] savepoint_not_key s'(5) by metis
  moreover have "cb_threads s' = map (commit_routine env c db) (batch_writes batch)" using s'(3) assms(2) by (simp add: couch_ApplyUpdates_def)
  ultimately show ?thesis using s'(1) q(1) by blast
qed

end

section \<open>An instance\<close>

text \<open>A codec for values that are taken for JSON if they start with a brace.\<close>

definition brace_json :: "bytes \<Rightarrow> bool" where
  "brace_json v \<longleftrightarrow> v \<noteq> [] \<and> hd v = CHR ''{''"

definition text_codec :: couch_codec where
  "text_codec =
     \<lparr>co_Wrap = (\<lambda>ver ns data. ''{'' @ ver @ ''|'' @ (case data of None \<Rightarrow> [] | Some v \<Rightarrow> v)),
      co_Data = (\<lambda>b. case tl (dropWhile (\<lambda>c. c \<noteq> CHR ''|'') b) of [] \<Rightarrow> None | v \<Rightarrow> Some v),
      co_Version = (\<lambda>b. tl (takeWhile (\<lambda>c. c \<noteq> CHR ''|'') b)),
      co_Savepoint = (\<lambda>h q. ''{'' @ version_string h),
      co_ReadSavepoint = (\<lambda>b. parse_version (tl b))\<rparr>"

lemma version_string_bar: "\<forall>x \<in> set (version_string h). x \<noteq> CHR ''|''"
  using nat_str_digits [of "CHR ''|''"] by (auto simp: version_string_def is_digit_def)

lemma text_codec_json: "ce_IsJSON env = brace_json \<Longrightarrow> couch_json env text_codec id"
proof (unfold_locales, goal_cases)
  case (1 v h ns)
  then show ?case using version_string_bar [of h] by (cases v) (auto simp: text_codec_def brace_json_def dropWhile_append2)
next
  case (2 h ns)
  then show ?case using version_string_bar [of h] by (simp add: text_codec_def dropWhile_append2)
next
  case (3 h ns x)
  then show ?case using version_string_bar [of h] by (simp add: text_codec_def takeWhile_append2)
qed (simp_all add: text_codec_def version_string_parses brace_json_def)

text \<open>The server without faults, with any codec that keeps the laws.\<close>

lemma served_state:
  assumes "couch_json (served (Suc n) startup isJSON valid) c normal" "valid savepointDocID"
  shows "couch_state (served (Suc n) startup isJSON valid) stored_docs db (calm db) (stored_revision db) c normal"
  using assms by (intro couch_state.intro calm.calm_server_axioms couch_state_axioms.intro) (simp_all add: served_def)

interpretation couch_text: couch_state "served (Suc n) startup brace_json (\<lambda>_. True)" stored_docs db "calm db" "stored_revision db" text_codec id for n startup db
  by (rule served_state [OF text_codec_json]) (simp_all add: served_def)

end
