(* ===== verification/DemoCouch.thy ===== *)
theory DemoCouch
  imports Demo CouchState
begin

text \<open>
  The state database on CouchDB in use: a server without faults, and a batch that writes one key and
  deletes another, whose two routines run between the requests of the caller and after it has returned.
\<close>

definition demo_couch :: "couch_store couch_env" where
  "demo_couch = served 3 3 brace_json (\<lambda>_. True)"

definition demo_couch_db :: "couch_store couch_db" where
  "demo_couch_db = \<lparr>cb_store = \<lparr>st_docs = [], st_dbs = [''ch''], st_faults = []\<rparr>, cb_main = Finished (Inr ()), cb_threads = []\<rparr>"

definition demo_schedule :: "nat list" where
  "demo_schedule = [2, 0, 1, 0, 2, 0, 0, 1]"

lemma demo_couch_state: "couch_state demo_couch stored_docs ''ch'' (calm ''ch'') (stored_revision ''ch'') text_codec id"
  using couch_text.couch_state_axioms [of 2 3 "''ch''"] by (simp add: demo_couch_def numeral_eq_Suc)

lemma demo_couch_calm: "calm ''ch'' (cb_store demo_couch_db)"
  by (simp add: calm_def demo_couch_db_def)

lemma demo_couch_idle: "cb_threads demo_couch_db = []"
  by (simp add: demo_couch_db_def)

lemma demo_keys_valid: "keys_valid demo_couch demo_batch"
  by (simp add: keys_valid_def demo_couch_def served_def)

lemma demo_turns: "4 \<le> count_list demo_schedule 0" "\<forall>n \<in> {1..length (batch_writes demo_batch)}. 2 \<le> count_list demo_schedule n"
proof -
  show "4 \<le> count_list demo_schedule 0" by (simp add: demo_schedule_def)
  have "length (batch_writes demo_batch) = 2" by code_simp
  then have "{1..length (batch_writes demo_batch)} = {1, 2}" by auto
  then show "\<forall>n \<in> {1..length (batch_writes demo_batch)}. 2 \<le> count_list demo_schedule n" by (simp add: demo_schedule_def)
qed

lemma demo_batch_k: "batch_Get demo_batch ''cc'' ''k'' = Some \<lparr>vv_Value = Some ''v'', vv_Version = Some (NewHeight 1 0)\<rparr>"
  by code_simp

lemma demo_not_json: "\<not> ce_IsJSON demo_couch ''v''"
  by (simp add: demo_couch_def served_def brace_json_def)

text \<open>A query for the loans of an owner that asks for a hundred documents, and a document.\<close>

definition demo_selector :: json_object where
  "demo_selector = [(''$and'', JArray (map JObject [[(''owner'', JString ''tom'')]]))]"

definition demo_query_codec :: query_codec where
  "demo_query_codec = \<lparr>qc_Decode = (\<lambda>_. Inr (Some [(''selector'', JObject demo_selector), (''limit'', JNumber ''100'')])),
     qc_Marshal = (\<lambda>m. map (\<lambda>p. hd (fst p)) m)\<rparr>"

definition loan_doc :: "bytes \<Rightarrow> bytes \<Rightarrow> json_object" where
  "loan_doc ns owner = [(''_id'', JString (ns @ ''l1'')), (''chaincodeid'', JString ns), (''data'', JObject [(''owner'', JString owner)])]"

lemma demo_query: "\<exists>out. ApplyQueryWrapper id demo_query_codec ''cc'' ''q'' 10 0 = Inr out"
  by (simp add: ApplyQueryWrapper_def demo_query_codec_def demo_selector_def processAndWrapQuery_def wrap_entry_def wrap_value_def wrap_item_def
      add_fields_def fragment_step_def wrap_all_def value_of_def validOperators_def wrapFieldName_def)

lemma demo_selector_good: "good_selector demo_selector"
  unfolding demo_selector_def
  by (rule good_selector.combination) (auto intro!: good_selector.fields simp: plain_names_def HasPrefix_def wrapped_name_def dataWrapper_def)

lemma walks_id: "walks_keys id"
  by (simp add: walks_keys_def)

lemma demo_selector_sat: "mango_sat (JObject demo_selector) [(''owner'', JString owner)] \<longleftrightarrow> owner = ''tom''"
  by (simp add: demo_selector_def mango_fields_def mango_meets_def value_of_def mango_look.simps)

end
