(* ===== verification/RangeRecord.thy ===== *)
theory RangeRecord
  imports TxMgr
begin

text \<open>
  What a simulation records of a range scan (\<^verbatim>\<open>resultsItr\<close> in
  \<^verbatim>\<open>txmgr/lockbasedtxmgr/helper.go\<close>) and what the validation of the block makes of the record
  (\<^verbatim>\<open>validator/statebasedval\<close>).

  Results: a range that still holds the versions that the simulation saw is accepted, raw or as a
  Merkle summary (\<open>recorded_range_accepted\<close>); an iterator that was opened and not advanced is
  recorded as a scan of everything behind its first key that found nothing, and refuses the transaction if
  there is anything (\<open>unadvanced_range_refused\<close>); and a summary whose top level is full stops
  the validating peer as soon as the range has grown by another level of the tree
  (\<open>full_summary_panics\<close>). The last one rests on counting: the hashes of a Merkle tree and
  the pending results are the digits of the number of results to the base \<open>maxDegree + 1\<close>.
\<close>

section \<open>Digits\<close>

definition number :: "nat \<Rightarrow> nat \<Rightarrow> (nat \<Rightarrow> nat) \<Rightarrow> nat" where
  "number B K f = (\<Sum>i<K. f i * B ^ i)"

lemma number_Suc: "number B (Suc K) f = number B K f + f K * B ^ K"
  by (simp add: number_def)

lemma number_less: "\<forall>i < K. f i < B \<Longrightarrow> number B K f < B ^ K"
proof (induction K)
  case (Suc K)
  then have "number B K f < B ^ K" "f K * B ^ K + B ^ K \<le> B * B ^ K"
    using mult_le_mono1 [of "Suc (f K)" B "B ^ K"] by (auto simp: Suc_le_eq)
  then show ?case by (simp add: number_Suc)
qed (simp add: number_def)

lemma number_unique:
  assumes "\<forall>i < K. f i < B \<and> g i < B" "number B K f = number B K g" "i < K"
  shows "f i = g i"
  using assms
proof (induction K)
  case (Suc K)
  have less: "number B K f < B ^ K" "number B K g < B ^ K" using Suc.prems(1) by (auto intro: number_less)
  have nz: "B ^ K \<noteq> 0" using less(1) by linarith
  have "number B (Suc K) f div B ^ K = f K" "number B (Suc K) g div B ^ K = g K"
    unfolding number_Suc div_mult_self1 [OF nz] using less by simp_all
  then have "f K = g K" using Suc.prems(2) by simp
  then show ?case using Suc by (cases "i = K") (auto simp: number_Suc less_Suc_eq)
qed simp

lemma number_upd:
  assumes "l < K"
  shows "number B K (f(l := x)) + f l * B ^ l = number B K f + x * B ^ l"
proof -
  have "number B K (f(l := x)) = x * B ^ l + (\<Sum>i\<in>{..<K} - {l}. f i * B ^ i)"
    using assms unfolding number_def by (subst sum.remove [of _ l]) (auto intro!: sum.cong)
  moreover have "number B K f = f l * B ^ l + (\<Sum>i\<in>{..<K} - {l}. f i * B ^ i)"
    using assms unfolding number_def by (subst sum.remove [of _ l]) auto
  ultimately show ?thesis by simp
qed

section \<open>The number of results a tree stands for\<close>

text \<open>A hash at level \<open>l\<close> stands for \<open>(maxDegree + 1) ^ l\<close> results.\<close>

definition mt_base :: "merkleTree \<Rightarrow> nat" where
  "mt_base m = unat (mt_maxDegree m) + 1"

definition mt_lens :: "merkleTree \<Rightarrow> nat \<Rightarrow> nat" where
  "mt_lens m l = length (mt_level m l)"

definition mt_weight :: "nat \<Rightarrow> merkleTree \<Rightarrow> nat" where
  "mt_weight K m = number (mt_base m) K (mt_lens m)"

lemma weight_append:
  assumes "l < K"
  shows "mt_weight K (mt_append m l h) = mt_weight K m + mt_base m ^ l"
proof -
  have "mt_lens (mt_append m l h) = (mt_lens m)(l := Suc (mt_lens m l))" by (auto simp: mt_lens_def)
  moreover have "mt_base (mt_append m l h) = mt_base m" by (simp add: mt_base_def)
  ultimately show ?thesis
    using number_upd [OF assms, of "mt_base m" "mt_lens m" "Suc (mt_lens m l)"] by (simp add: mt_weight_def)
qed

lemma weight_carry:
  assumes "Suc l < K" "length (mt_level m l) = mt_base m"
  shows "mt_weight K (mt_carry m l h) = mt_weight K m"
proof -
  let ?f = "mt_lens m"
  have f: "mt_lens (mt_carry m l h) = ?f(l := 0, Suc l := Suc ((?f(l := 0)) (Suc l)))"
    by (auto simp: mt_lens_def mt_carry_simps)
  have b: "mt_base (mt_carry m l h) = mt_base m" by (simp add: mt_base_def mt_carry_simps)
  have "number (mt_base m) K (?f(l := 0)) + mt_base m ^ Suc l = number (mt_base m) K ?f"
    using number_upd [of l K "mt_base m" ?f 0] assms by (simp add: mt_lens_def)
  then show ?thesis
    using number_upd [OF assms(1), of "mt_base m" "?f(l := 0)" "Suc ((?f(l := 0)) (Suc l))"] unfolding mt_weight_def f b by simp
qed

lemma weight_ext:
  assumes "mt_ok m" "mt_maxLevel m < K" "mt_maxLevel m < K'"
  shows "mt_weight K m = mt_weight K' m"
proof -
  have "mt_weight K m = mt_weight (Suc (mt_maxLevel m)) m" if "mt_maxLevel m < K" for K
    unfolding mt_weight_def number_def using that assms(1)
    by (intro sum.mono_neutral_right) (auto simp: mt_ok_def mt_inv_def mt_lens_def)
  from this [OF assms(2)] this [OF assms(3)] show ?thesis by simp
qed

lemma update_loop_weight:
  assumes "mt_update_loop env n m l = Inr (m', None)" "mt_inv m l" "1 \<le> l" "l \<le> mt_maxLevel m" "mt_maxLevel m + n < K"
  shows "mt_weight K m' = mt_weight K m \<and> mt_maxDegree m' = mt_maxDegree m"
  using assms
proof (induction n arbitrary: m l)
  case (Suc n)
  show ?case
  proof (cases "length (mt_level m l) \<le> unat (mt_maxDegree m)")
    case True
    then show ?thesis using Suc.prems by (simp add: degree_le_iff)
  next
    case False
    then have full: "length (mt_level m l) = mt_base m" using Suc.prems(2) by (simp add: mt_inv_def mt_base_def)
    obtain h where c: "computeCombinedHash env (mt_level m l) = Inr h"
      using False Suc.prems(1,2) by (cases "computeCombinedHash env (mt_level m l)") (simp_all add: degree_le_iff Let_def)
    have h: "mt_update_loop env n (mt_carry m l h) (Suc l) = Inr (m', None)"
      using False Suc.prems(1,2) c by (simp add: degree_le_iff mt_carry_def Let_def split: if_splits)
    have "mt_maxLevel (mt_carry m l h) \<le> Suc (mt_maxLevel m)" using Suc.prems(4) by (simp add: mt_carry_simps)
    then have "mt_weight K m' = mt_weight K (mt_carry m l h) \<and> mt_maxDegree m' = mt_maxDegree (mt_carry m l h)"
      using Suc.IH [OF h mt_carry_inv [OF Suc.prems(2-4)]] Suc.prems(4,5) by (simp add: mt_carry_simps)
    then show ?thesis
      using weight_carry [OF _ full, of K h] Suc.prems(4,5) by (simp add: mt_carry_simps)
  qed
qed simp

definition helper_count :: "RangeQueryResultsHelper \<Rightarrow> nat" where
  "helper_count h = length (rh_pendingResults h) + mt_weight (Suc (mt_maxLevel (the (rh_mt h)))) (the (rh_mt h))"

context merkle_ok
begin

lemma update_weight:
  assumes "mt_ok m" "mt_update env m x = Inr (m', None)"
  shows "mt_weight (Suc (mt_maxLevel m')) m' = mt_weight (Suc (mt_maxLevel m)) m + mt_base m"
proof -
  let ?K = "max (Suc (mt_maxLevel m')) (2 * mt_maxLevel m + 3)"
  have M: "1 \<le> mt_maxLevel m" and ok': "mt_ok m'"
    using assms update_ok [OF assms(1), of x] by (auto simp: mt_ok_def mt_inv_def)
  have "mt_weight ?K m' = mt_weight ?K (mt_append m leafLevel x)"
    using update_loop_weight [of env "mt_maxLevel m + 2" "mt_append m leafLevel x" leafLevel m' ?K] assms M
      mt_inv_append [OF assms(1), of 1 x] by (simp add: mt_update_def leafLevel_def)
  also have "\<dots> = mt_weight ?K m + mt_base m" using weight_append [of leafLevel ?K m x] M by (simp add: leafLevel_def)
  finally show ?thesis
    using weight_ext [OF ok', of ?K "Suc (mt_maxLevel m')"] weight_ext [OF assms(1), of ?K "Suc (mt_maxLevel m)"] by simp
qed

lemma AddResult_count:
  assumes "helper_ok h" "AddResult env h r = Inr (h', None)"
  shows "helper_count h' = Suc (helper_count h)"
proof (cases "length (rh_pendingResults h) < unat (rh_maxDegree h)")
  case True
  then show ?thesis using AddResult_ok [OF assms(1), of r] assms(2) by (auto simp: helper_count_def)
next
  case False
  obtain m where m: "rh_mt h = Some m" "mt_ok m" "mt_maxDegree m = rh_maxDegree h" "length (rh_pendingResults h) = unat (rh_maxDegree h)"
    using assms(1) False by (auto simp: helper_ok_def)
  have p: "processPendingResults env (h\<lparr>rh_pendingResults := rh_pendingResults h @ [r]\<rparr>) = Inr (h', None)"
    using AddResult_ok [OF assms(1), of r] False assms(2) by (auto simp: AddResult_def Let_def split: if_splits)
  obtain x m' where x: "mt_update env m x = Inr (m', None)" "rh_mt h' = Some m'" "rh_pendingResults h' = []"
  proof -
    have "\<exists>x m' e. mt_update env m x = Inr (m', e) \<and> rh_mt h' = Some m' \<and> rh_pendingResults h' = []"
      using p m(1) by (auto simp: processPendingResults_def Let_def res_bind_Inr_conv split: sum.splits) blast
    then obtain x m' e where "mt_update env m x = Inr (m', e)" "rh_mt h' = Some m'" "rh_pendingResults h' = []" by blast
    then show ?thesis using update_ok [OF m(2), of x] that by auto
  qed
  show ?thesis using update_weight [OF m(2) x(1)] x(2,3) m by (simp add: helper_count_def mt_base_def)
qed

lemma add_results_weight:
  assumes "helper_ok h" "add_results env h rs = Inr h'"
  shows "helper_count h' = helper_count h + length rs"
  using assms
proof (induction rs arbitrary: h)
  case (Cons r rs)
  obtain h1 where h1: "AddResult env h r = Inr (h1, None)" "helper_ok h1" using AddResult_ok [OF Cons.prems(1)] by blast
  then have "add_results env h1 rs = Inr h'" using Cons.prems(2) by (simp add: add_results_def)
  from Cons.IH [OF h1(2) this] AddResult_count [OF Cons.prems(1) h1(1)] show ?case by simp
qed (simp add: add_results_def)

text \<open>The digits of the number of results: the pending ones, then the lengths of the levels.\<close>

lemma count_digits:
  assumes "helper_ok h" "mt_maxLevel (the (rh_mt h)) < K"
  defines "f \<equiv> (mt_lens (the (rh_mt h)))(0 := length (rh_pendingResults h))"
  shows "helper_count h = number (unat (rh_maxDegree h) + 1) K f" "\<forall>i < K. f i < unat (rh_maxDegree h) + 1"
proof -
  let ?m = "the (rh_mt h)"
  have m: "mt_ok ?m" "mt_maxDegree ?m = rh_maxDegree h" "length (rh_pendingResults h) \<le> unat (rh_maxDegree h)"
    using assms(1) by (auto simp: helper_ok_def)
  have "mt_lens ?m 0 = 0" using m(1) by (simp add: mt_ok_def mt_inv_def mt_lens_def)
  then have "number (mt_base ?m) K f = mt_weight K ?m + length (rh_pendingResults h)"
    using number_upd [of 0 K "mt_base ?m" "mt_lens ?m" "length (rh_pendingResults h)"] assms(2) by (simp add: f_def mt_weight_def)
  then show "helper_count h = number (unat (rh_maxDegree h) + 1) K f"
    using weight_ext [OF m(1) assms(2), of "Suc (mt_maxLevel ?m)"] m(2) by (simp add: helper_count_def mt_base_def)
  show "\<forall>i < K. f i < unat (rh_maxDegree h) + 1"
    using m mt_ok_len [OF m(1)] by (auto simp: f_def mt_lens_def less_Suc_eq_le)
qed

lemma count_bound:
  assumes "helper_ok h" "(unat (rh_maxDegree h) + 1) ^ Suc L \<le> helper_count h"
  shows "L < mt_maxLevel (the (rh_mt h))"
proof (rule ccontr)
  let ?B = "unat (rh_maxDegree h) + 1" and ?M = "mt_maxLevel (the (rh_mt h))"
  assume "\<not> L < ?M"
  then have "?B ^ Suc ?M \<le> ?B ^ Suc L" by (intro power_increasing) auto
  moreover have "helper_count h < ?B ^ Suc ?M" unfolding count_digits(1) [OF assms(1) lessI] by (rule number_less [OF count_digits(2) [OF assms(1) lessI]])
  ultimately show False using assms(2) by linarith
qed

text \<open>After \<open>maxDegree * (maxDegree + 1) ^ L\<close> results the tree is full at level \<open>L\<close> and empty below.\<close>

lemma count_full:
  assumes "helper_ok h" "helper_count h = unat (rh_maxDegree h) * (unat (rh_maxDegree h) + 1) ^ L" "1 \<le> L"
  shows "mt_maxLevel (the (rh_mt h)) = L" "length (mt_level (the (rh_mt h)) L) = unat (rh_maxDegree h)"
    "rh_pendingResults h = []" "k \<noteq> L \<Longrightarrow> mt_level (the (rh_mt h)) k = []"
proof -
  let ?m = "the (rh_mt h)" and ?D = "unat (rh_maxDegree h)"
  let ?K = "Suc (max (mt_maxLevel ?m) L)" and ?f = "(mt_lens ?m)(0 := length (rh_pendingResults h))"
  have m: "mt_ok ?m" "2 \<le> ?D" using assms(1) by (auto simp: helper_ok_def mt_ok_def mt_inv_def)
  have "number (?D + 1) ?K (\<lambda>i. if i = L then ?D else 0) = ?D * (?D + 1) ^ L"
    by (simp add: number_def if_distrib [of "\<lambda>x. x * _"] cong: if_cong)
  then have f: "?f i = (if i = L then ?D else 0)" if "i < ?K" for i
    using number_unique [of ?K ?f "?D + 1" "\<lambda>i. if i = L then ?D else 0" i] count_digits [OF assms(1), of ?K] assms(2) that by auto
  show L: "length (mt_level ?m L) = ?D" using f [of L] assms(3) by (auto simp: mt_lens_def)
  show "rh_pendingResults h = []" using f [of 0] assms(3) by simp
  show e: "mt_level ?m k = []" if "k \<noteq> L" for k
    using f [of k] that m(1) by (cases "k < ?K"; cases "k = 0") (auto simp: mt_lens_def mt_ok_def mt_inv_def)
  have "L \<le> mt_maxLevel ?m" using L m by (metis leI list.size(3) mt_inv_def mt_ok_def not_numeral_le_zero)
  then show "mt_maxLevel ?m = L" using e [of "mt_maxLevel ?m"] m(1) assms(3) by (auto simp: mt_ok_def mt_inv_def)
qed

lemma done_loop_empty:
  "\<forall>k. l \<le> k \<and> k < mt_maxLevel m \<longrightarrow> mt_level m k = [] \<Longrightarrow> mt_done_loop env m l = (m, None)"
proof (induction "mt_maxLevel m - l" arbitrary: l)
  case 0
  then show ?case by (simp add: mt_done_loop.simps [of env m l])
next
  case (Suc x)
  have "mt_done_loop env m l = mt_done_loop env m (l + 1)"
    using Suc by (simp add: mt_done_loop.simps [of env m l])
  then show ?case using Suc by simp
qed

lemma full_Done:
  assumes "helper_ok h" "helper_count h = unat (rh_maxDegree h) * (unat (rh_maxDegree h) + 1) ^ L" "1 \<le> L"
  shows "helper_Done env h = Inr ([], Some (getSummery (the (rh_mt h))), None)"
proof -
  note f = count_full [OF assms]
  obtain m where m: "rh_mt h = Some m" "mt_ok m" "mt_maxDegree m = rh_maxDegree h" "rh_hashingEnabled h" "mt_inv m 0"
    using assms(1) by (auto simp: helper_ok_def mt_ok_def)
  have "length (mt_level m (mt_maxLevel m)) = unat (mt_maxDegree m)" "2 \<le> unat (mt_maxDegree m)"
    using f m by (auto simp: mt_inv_def)
  moreover have "mt_done_loop env m leafLevel = (m, None)" using done_loop_empty [of leafLevel m] f m(1) by simp
  ultimately have "mt_done env m = (m, None)" "\<not> mt_isEmpty m"
    using degree_le_iff [OF m(5), of "mt_maxLevel m"] by (auto simp: mt_done_def mt_isEmpty_def)
  then show ?thesis using m f(3) by (simp add: helper_Done_def)
qed

end

section \<open>A full summary and a higher tree\<close>

context hash_validation
begin

text \<open>One round of the loop, with the tree of the helper before and after.\<close>

lemma loop_round:
  assumes "invar i" "items i = kv # kvs" "helper_ok h"
  shows "\<exists>i' h'. items i' = kvs \<and> invar i' \<and> helper_ok h' \<and> rh_maxDegree h' = rh_maxDegree h
    \<and> AddResult env h (NewKVRead (kv_Key kv) (kv_Version kv)) = Inr (h', None) \<and> mt_grows 0 (the (rh_mt h)) (the (rh_mt h'))
    \<and> (\<forall>s n j. hash_validate_loop env next_of s (Suc n) i h j =
      (let top = getMaxLevelHashes (the (rh_mt h')) in
       if mt_maxLevel (the (rh_mt h')) < ms_MaxLevel s \<or> j = int (length top) - 1 then hash_validate_loop env next_of s n i' h' j
       else if length top > length (ms_MaxLevelHashes s) then Inr False
       else res_bind (index_at top (nat (j + 1))) (\<lambda>x.
            res_bind (index_at (ms_MaxLevelHashes s) (nat (j + 1))) (\<lambda>y.
              if x \<noteq> y then Inr False else hash_validate_loop env next_of s n i' h' (j + 1)))))"
proof -
  obtain i' where i': "next_of i = Inr (i', Some kv)" "items i' = kvs" "invar i'" using next_cons [OF assms(1,2)] by blast
  obtain h' where h': "AddResult env h (NewKVRead (kv_Key kv) (kv_Version kv)) = Inr (h', None)" "helper_ok h'"
    "rh_maxDegree h' = rh_maxDegree h" "mt_grows 0 (the (rh_mt h)) (the (rh_mt h'))"
    using AddResult_ok [OF assms(3)] by blast
  moreover have "GetMerkleSummary h' = Inr (Some (getSummery (the (rh_mt h'))))"
    using h'(2) by (auto simp: GetMerkleSummary_def helper_ok_def)
  ultimately show ?thesis using i' by (intro exI [of _ i'] exI [of _ h']) (simp add: getSummery_def Let_def)
qed

text \<open>As long as the results are the recorded ones, nothing differs from the recorded tree.\<close>

lemma loop_along:
  assumes "invar i" "items i = xs @ ys" "helper_ok h" "cmp_inv (getSummery m) (the (rh_mt h)) j"
    and "add_results env h (reads_of xs) = Inr h1" "the (rh_mt h1) = m"
  shows "\<exists>i1 j1. invar i1 \<and> items i1 = ys \<and> helper_ok h1 \<and> cmp_inv (getSummery m) m j1 \<and> rh_maxDegree h1 = rh_maxDegree h
    \<and> hash_validate_loop env next_of (getSummery m) (length xs + n) i h j = hash_validate_loop env next_of (getSummery m) n i1 h1 j1"
  using assms
proof (induction xs arbitrary: i h j)
  case Nil
  then show ?case by (auto simp: reads_of_def add_results_def)
next
  case (Cons kv xs)
  obtain i' h' where r: "items i' = xs @ ys" "invar i'" "helper_ok h'" "rh_maxDegree h' = rh_maxDegree h"
    "AddResult env h (NewKVRead (kv_Key kv) (kv_Version kv)) = Inr (h', None)" "mt_grows 0 (the (rh_mt h)) (the (rh_mt h'))"
    "\<And>s n j. hash_validate_loop env next_of s (Suc n) i h j =
      (let top = getMaxLevelHashes (the (rh_mt h')) in
       if mt_maxLevel (the (rh_mt h')) < ms_MaxLevel s \<or> j = int (length top) - 1 then hash_validate_loop env next_of s n i' h' j
       else if length top > length (ms_MaxLevelHashes s) then Inr False
       else res_bind (index_at top (nat (j + 1))) (\<lambda>x.
            res_bind (index_at (ms_MaxLevelHashes s) (nat (j + 1))) (\<lambda>y.
              if x \<noteq> y then Inr False else hash_validate_loop env next_of s n i' h' (j + 1))))"
    using loop_round [OF Cons.prems(1) _ Cons.prems(3), of kv "xs @ ys"] Cons.prems(2) by auto
  let ?m' = "the (rh_mt h')"
  have a: "add_results env h' (reads_of xs) = Inr h1" using Cons.prems(5) r(5) by (simp add: add_results_def reads_of_def)
  have e: "mt_ext ?m' m" using add_results_ok [OF r(3), of "reads_of xs"] a Cons.prems(6) by auto
  have rec: "\<exists>i1 j1. invar i1 \<and> items i1 = ys \<and> helper_ok h1 \<and> cmp_inv (getSummery m) m j1 \<and> rh_maxDegree h1 = rh_maxDegree h
    \<and> hash_validate_loop env next_of (getSummery m) (length xs + n) i' h' j' = hash_validate_loop env next_of (getSummery m) n i1 h1 j1"
    if "cmp_inv (getSummery m) ?m' j'" for j'
    using Cons.IH [OF r(2,1,3) that a Cons.prems(6)] r(4) by simp
  have "mt_maxLevel ?m' \<le> ms_MaxLevel (getSummery m)" using e by (auto simp: mt_ext_def getSummery_def)
  from cmp_inv_step [OF Cons.prems(4) r(6)] this
  consider "cmp_inv (getSummery m) ?m' j" "mt_maxLevel ?m' < mt_maxLevel m \<or> j = int (length (getMaxLevelHashes ?m')) - 1"
    | x bs where "mt_maxLevel ?m' = mt_maxLevel m" "getMaxLevelHashes ?m' = bs @ [x]" "j = int (length bs) - 1"
    by (cases "getMaxLevelHashes ?m'" rule: rev_cases) (auto simp: cmp_inv_def getSummery_def)
  then show ?case
  proof cases
    case 1
    then show ?thesis using rec [OF 1(1)] r(7) [of "getSummery m" "length xs + n" j] by (simp add: getSummery_def)
  next
    case 2
    have p: "prefix (bs @ [x]) (getMaxLevelHashes m)" using e 2 by (simp add: mt_ext_def)
    then have "cmp_inv (getSummery m) ?m' (j + 1)" using 2 by (simp add: cmp_inv_def getSummery_def)
    then show ?thesis
      using rec [of "j + 1"] r(7) [of "getSummery m" "length xs + n" j] 2 p prefix_length_le [OF p]
      by (auto simp: getSummery_def index_at_def prefix_snoc_iff)
  qed
qed

text \<open>Once every hash of a full top level is matched, the next level makes the loop read behind its only hash.\<close>

lemma loop_above:
  assumes "invar i" "helper_ok h" "length (items i) < n" "cmp_inv s (the (rh_mt h)) j"
    and "ms_MaxLevelHashes s = getMaxLevelHashes (the (rh_mt h))" "ms_MaxLevel s = mt_maxLevel (the (rh_mt h))"
    and "length (ms_MaxLevelHashes s) = unat (rh_maxDegree h)"
    and "add_results env h (reads_of (items i)) = Inr h1" "ms_MaxLevel s < mt_maxLevel (the (rh_mt h1))"
  shows "hash_validate_loop env next_of s n i h j = Inl (Panic ''index out of range'')"
  using assms
proof (induction n arbitrary: i h)
  case 0
  then show ?case by simp
next
  case (Suc n)
  let ?m = "the (rh_mt h)"
  have d: "mt_maxDegree ?m = rh_maxDegree h" "2 \<le> unat (rh_maxDegree h)" and j: "j = int (unat (rh_maxDegree h)) - 1"
    using Suc.prems(2,4-7) by (auto simp: helper_ok_def mt_ok_def mt_inv_def cmp_inv_def)
  obtain kv kvs where items: "items i = kv # kvs"
    using Suc.prems(6,8,9) by (cases "items i") (auto simp: add_results_def reads_of_def)
  from loop_round [OF Suc.prems(1) items Suc.prems(2)] obtain i' h' where r: "items i' = kvs" "invar i'" "helper_ok h'"
    "rh_maxDegree h' = rh_maxDegree h" "AddResult env h (NewKVRead (kv_Key kv) (kv_Version kv)) = Inr (h', None)"
    "mt_grows 0 ?m (the (rh_mt h'))"
    "hash_validate_loop env next_of s (Suc n) i h j =
      (let top = getMaxLevelHashes (the (rh_mt h')) in
       if mt_maxLevel (the (rh_mt h')) < ms_MaxLevel s \<or> j = int (length top) - 1 then hash_validate_loop env next_of s n i' h' j
       else if length top > length (ms_MaxLevelHashes s) then Inr False
       else res_bind (index_at top (nat (j + 1))) (\<lambda>x.
            res_bind (index_at (ms_MaxLevelHashes s) (nat (j + 1))) (\<lambda>y.
              if x \<noteq> y then Inr False else hash_validate_loop env next_of s n i' h' (j + 1))))" by blast
  let ?m' = "the (rh_mt h')"
  have a: "add_results env h' (reads_of kvs) = Inr h1" using Suc.prems(8) r(5) items by (simp add: add_results_def reads_of_def)
  have len: "length (getMaxLevelHashes ?m') \<le> unat (rh_maxDegree h)"
    using mt_ok_len [of ?m'] r(3,4) by (auto simp: helper_ok_def getMaxLevelHashes_def)
  from r(6) show ?case
  proof (cases rule: mt_grows_E)
    case same
    then have "hash_validate_loop env next_of s n i' h' j = Inl (Panic ''index out of range'')"
      using Suc.prems(3,4,5,6,7,9) r(1,2,3,4) a items by (intro Suc.IH) (auto simp: cmp_inv_def)
    then show ?thesis using same r(7) j Suc.prems(5,7) by simp
  next
    case (add x)
    then show ?thesis using len Suc.prems(5,7) by simp
  next
    case (up x)
    have "j \<noteq> int (length [x]) - 1" "nat (j + 1) = unat (rh_maxDegree h)" using j d(2) by (simp_all del: of_nat_unat)
    moreover have "index_at [x] (unat (rh_maxDegree h)) = Inl (Panic ''index out of range'')" using d(2) by (simp add: index_at_def)
    ultimately show ?thesis unfolding r(7) up(1,2) Let_def using d(2) Suc.prems(6,7) by simp
  qed
qed

lemma hash_validate_full:
  assumes "invar i" "length (items i) < n" "GetReadsMerkleHashes rqi = Some s"
    and "2 \<le> unat (ms_MaxDegree s)" "unat (ms_MaxDegree s) + 1 < 2 ^ 32" "1 \<le> L"
    and "(unat (ms_MaxDegree s) + 1) ^ Suc L \<le> length (items i)" "k = unat (ms_MaxDegree s) * (unat (ms_MaxDegree s) + 1) ^ L"
    and "merkle_of env (ms_MaxDegree s) (reads_of (take k (items i))) = Inr (p, Some s, None)"
  shows "res_bind (hash_init rqi) (\<lambda>h. hash_validate env next_of n rqi h i) = Inl (Panic ''index out of range'')"
proof -
  obtain h where h: "NewRangeQueryResultsHelper True (ms_MaxDegree s) = Inr h" "helper_ok h" "rh_maxDegree h = ms_MaxDegree s"
    "mt_maxLevel (the (rh_mt h)) = 1" "getMaxLevelHashes (the (rh_mt h)) = []" "helper_count h = 0"
    using New_helper_ok [OF assms(4,5)] by (auto simp: helper_count_def mt_weight_def number_def mt_lens_def getMaxLevelHashes_def
        helper_ok_def mt_ok_def mt_inv_def numeral_2_eq_2)
  have "k \<le> (unat (ms_MaxDegree s) + 1) ^ Suc L" by (simp add: assms(8))
  then have k: "k \<le> length (items i)" using assms(7) by linarith
  obtain h1 where h1: "add_results env h (reads_of (take k (items i))) = Inr h1" "helper_ok h1" "rh_maxDegree h1 = ms_MaxDegree s"
    "helper_count h1 = k"
    using add_results_ok [OF h(2)] add_results_weight [OF h(2)] h(3,6) k by (fastforce simp: reads_of_def)
  then have c: "helper_count h1 = unat (rh_maxDegree h1) * (unat (rh_maxDegree h1) + 1) ^ L" using assms(8) by simp
  note full = count_full [OF h1(2) c assms(6)]
  have s: "s = getSummery (the (rh_mt h1))"
    using full_Done [OF h1(2) c assms(6)] assms(9) h(1) h1(1) by (simp add: merkle_of_def)
  have s': "ms_MaxLevelHashes s = getMaxLevelHashes (the (rh_mt h1))" "ms_MaxLevel s = mt_maxLevel (the (rh_mt h1))"
    by (simp_all add: s getSummery_def)
  have start: "cmp_inv (getSummery (the (rh_mt h1))) (the (rh_mt h)) (-1)"
    using h(4,5) full(1) assms(6) by (auto simp: cmp_inv_def getSummery_def)
  have split: "items i = take k (items i) @ drop k (items i)" by simp
  obtain i1 j1 where l: "invar i1" "items i1 = drop k (items i)" "cmp_inv s (the (rh_mt h1)) j1"
    "hash_validate_loop env next_of s (length (take k (items i)) + (n - k)) i h (-1) = hash_validate_loop env next_of s (n - k) i1 h1 j1"
    using loop_along [OF assms(1) split h(2) start h1(1) refl, of "n - k"] unfolding s by blast
  obtain h2 where h2: "add_results env h (reads_of (items i)) = Inr h2" "helper_ok h2" "rh_maxDegree h2 = ms_MaxDegree s"
    "helper_count h2 = length (items i)"
    using add_results_ok [OF h(2)] add_results_weight [OF h(2)] h(3,6) by (fastforce simp: reads_of_def)
  have "reads_of (items i) = reads_of (take k (items i)) @ reads_of (drop k (items i))" by (simp add: reads_of_def flip: map_append)
  then have more: "add_results env h1 (reads_of (items i1)) = Inr h2"
    using h2(1) h1(1) l(2) by (simp add: add_results_def foldM_append)
  have "ms_MaxLevel s < mt_maxLevel (the (rh_mt h2))" using count_bound [OF h2(2), of L] assms(7) h2(3,4) full(1) s'(2) by simp
  then have "hash_validate_loop env next_of s (n - k) i1 h1 j1 = Inl (Panic ''index out of range'')"
    using loop_above [OF l(1) h1(2) _ l(3) s' _ more] full(1,2) k l(2) h1(3) assms(2) s'(1) by (simp add: getMaxLevelHashes_def)
  then show ?thesis using l(4) assms(2,3) k h(1) by (simp add: hash_validate_def hash_init_def)
qed

end

lemma full_summary_panics:
  assumes "versionedDB_ok (v_db env)" "batch_ok upd" "ns_ok ns" "rq_ItrExhausted rqi \<or> rq_EndKey rqi \<noteq> []"
    and "merkle_ok (ve_merkle env)" "GetReadsMerkleHashes rqi = Some s"
    and "2 \<le> unat (ms_MaxDegree s)" "unat (ms_MaxDegree s) + 1 < 2 ^ 32" "1 \<le> L"
    and "current_entries env upd ns rqi kvs" "(unat (ms_MaxDegree s) + 1) ^ Suc L \<le> length kvs"
    and "merkle_of (ve_merkle env) (ms_MaxDegree s)
      (reads_of (take (unat (ms_MaxDegree s) * (unat (ms_MaxDegree s) + 1) ^ L) kvs)) = Inr (p, Some s, None)"
  shows "validateRangeQuery env ns rqi upd = Inl (Panic ''index out of range'')"
proof -
  obtain itr where itr: "newCombinedIterator (v_db env) upd ns (rq_StartKey rqi) (rq_EndKey rqi)
      (\<not> rq_ItrExhausted rqi) = Inr itr" "ci_ok itr" "current_entries env upd ns rqi (ci_items itr)"
    using combined_current [OF assms(1-4)] by blast
  have items: "ci_items itr = kvs" using current_entries_unique itr(3) assms(10) by blast
  have hv: "hash_validation (ve_merkle env) ci_Next ci_items ci_ok"
    by (rule hash_validation.intro [OF assms(5) comb.results_iterator_axioms])
  obtain h where h: "hash_init rqi = Inr h" using New_helper_ok [OF assms(7,8)] assms(6) by (auto simp: hash_init_def)
  have "length (ci_items itr) < ci_left itr + 2" using ci_items_length [of itr] by simp
  from hash_validation.hash_validate_full [OF hv itr(2) this assms(6-9) _ refl, unfolded items, OF assms(11,12)]
  show ?thesis using itr(1) assms(6) h by (simp add: validateRangeQuery_def)
qed

section \<open>What a scan records\<close>

text \<open>\<open>n\<close> calls of \<^verbatim>\<open>Next\<close> on an iterator of a simulation.\<close>

fun take_results :: "tm_env \<Rightarrow> nat \<Rightarrow> resultsItr \<Rightarrow> resultsItr res" where
  "take_results env 0 itr = Inr itr"
| "take_results env (Suc n) itr = res_bind (resultsItr_Next env itr) (\<lambda>(itr, _). take_results env n itr)"

definition scanned_info :: "nat \<Rightarrow> VersionedKV list \<Rightarrow> bytes \<Rightarrow> RangeQueryInfo \<Rightarrow> RangeQueryInfo" where
  "scanned_info n kvs endKey info =
     (if length kvs < n then info\<lparr>rq_ItrExhausted := True, rq_EndKey := endKey\<rparr>
      else if n = 0 then info else info\<lparr>rq_EndKey := kv_Key (kvs ! (n - 1))\<rparr>)"

lemma take_results_spec:
  assumes "ri_dbItr itr = map Inr kvs" "ri_capture itr" "ri_helper itr = Some h"
    and "add_results (te_merkle env) h (reads_of (take n kvs)) = Inr h'"
  shows "take_results env n itr = Inr (itr\<lparr>ri_dbItr := map Inr (drop n kvs), ri_helper := Some h',
    ri_info := scanned_info n kvs (ri_endKey itr) (ri_info itr)\<rparr>)"
  using assms
proof (induction n arbitrary: itr kvs h)
  case 0
  then show ?case by (simp add: scanned_info_def add_results_def reads_of_def)
next
  case (Suc n)
  show ?case
  proof (cases kvs)
    case Nil
    let ?itr = "itr\<lparr>ri_dbItr := [], ri_info := (ri_info itr)\<lparr>rq_ItrExhausted := True, rq_EndKey := ri_endKey itr\<rparr>\<rparr>"
    have "resultsItr_Next env itr = Inr (?itr, None)"
      using Suc.prems Nil by (simp add: resultsItr_Next_def updateRangeQueryInfo_def)
    then show ?thesis
      using Suc.IH [of ?itr "[]" h] Suc.prems Nil by (cases n) (simp_all add: scanned_info_def)
  next
    case (Cons kv rest)
    let ?r = "NewKVRead (kv_Key kv) (kv_Version kv)"
    obtain h1 e where h1: "AddResult (te_merkle env) h ?r = Inr (h1, e)" "add_results (te_merkle env) h1 (reads_of (take n rest)) = Inr h'"
      using Suc.prems(4) Cons by (auto simp: add_results_def reads_of_def res_bind_Inr_conv)
    let ?itr = "itr\<lparr>ri_dbItr := map Inr rest, ri_helper := Some h1, ri_info := (ri_info itr)\<lparr>rq_EndKey := kv_Key kv\<rparr>\<rparr>"
    have "resultsItr_Next env itr = Inr (?itr, Some (kv_Namespace kv, kv_Key kv, kv_Value kv))"
      using Suc.prems Cons h1(1) by (simp add: resultsItr_Next_def updateRangeQueryInfo_def)
    then show ?thesis
      using Suc.IH [of ?itr rest h1] Suc.prems Cons h1(2) by (cases n) (simp_all add: scanned_info_def)
  qed
qed

lemma add_results_plain:
  "\<not> rh_hashingEnabled h \<Longrightarrow> add_results env h rs = Inr (h\<lparr>rh_pendingResults := rh_pendingResults h @ rs\<rparr>)"
  by (induction rs arbitrary: h) (simp_all add: add_results_def AddResult_def)

text \<open>What \<^verbatim>\<open>Done\<close> makes of the results a helper has been given: the results or their summary.\<close>

lemma recorded_reads:
  assumes "merkle_ok env" "2 \<le> unat d" "unat d + 1 < 2 ^ 32" "NewRangeQueryResultsHelper hashing d = Inr h"
  shows "\<exists>h' results hash. add_results env h rs = Inr h' \<and> helper_Done env h' = Inr (results, hash, None)
    \<and> (results = rs \<and> hash = None \<or> (\<exists>s. results = [] \<and> hash = Some s \<and> merkle_of env d rs = Inr ([], Some s, None)))"
proof (cases hashing)
  case True
  then obtain h' where h': "add_results env h rs = Inr h'"
    using New_helper_ok [OF assms(2,3)] assms(4) merkle_ok.add_results_ok [OF assms(1)] by force
  have "helper_Done env h' = merkle_of env d rs" using True assms(4) h' by (simp add: merkle_of_def)
  then show ?thesis using merkle_ok.merkle_of_spec [OF assms(1-3), of rs] h' by (cases "length rs \<le> unat d") auto
next
  case False
  then have "\<not> rh_hashingEnabled h" "rh_pendingResults h = []" using assms(4) by (auto simp: NewRangeQueryResultsHelper_def)
  then show ?thesis by (simp add: add_results_plain helper_Done_def)
qed

lemma finish_itr_reads:
  assumes "rq_ReadsInfo info = NoReads"
    and "results = rs \<and> hash = None \<or> (\<exists>s. results = [] \<and> hash = Some s \<and> P s)"
  shows "\<exists>ri. finish_itr results hash info = info\<lparr>rq_ReadsInfo := ri\<rparr>
    \<and> (GetReadsMerkleHashes (finish_itr results hash info) = None \<and> GetRawReads (finish_itr results hash info) = rs
       \<or> (\<exists>s. GetReadsMerkleHashes (finish_itr results hash info) = Some s \<and> P s))"
  using assms
  by (cases info; cases "rs = []") (auto simp: finish_itr_def GetReadsMerkleHashes_def GetRawReads_def)

section \<open>The range of the record\<close>

lemma scanned_covers:
  assumes "strict_sorted (map kv_Key kvs)" "\<forall>kv \<in> set kvs. in_range s e (kv_Key kv)" "kv \<in> set kvs"
    and "info = scanned_info n kvs e \<lparr>rq_StartKey = s, rq_EndKey = [], rq_ItrExhausted = False, rq_ReadsInfo = NoReads\<rparr>"
    and "rq_ItrExhausted info \<or> rq_EndKey info \<noteq> []"
  shows "covers info (kv_Key kv) \<longleftrightarrow> kv \<in> set (take n kvs)"
proof (cases "length kvs < n")
  case True
  then show ?thesis using assms by (simp add: scanned_info_def covers_def)
next
  case False
  then have n: "0 < n" "n \<le> length kvs" using assms(4,5) by (auto simp: scanned_info_def split: if_splits)
  obtain i where i: "i < length kvs" "kv = kvs ! i" using assms(3) by (metis in_set_conv_nth)
  have less: "kv_Key (kvs ! a) < kv_Key (kvs ! b)" if "a < b" "b < length kvs" for a b
    using assms(1) that by (auto simp: sorted_wrt_iff_nth_less)
  have "kv_Key kv \<le> kv_Key (kvs ! (n - 1)) \<longleftrightarrow> i \<le> n - 1"
    using less [of i "n - 1"] less [of "n - 1" i] i n by (cases i "n - 1" rule: linorder_cases) (auto simp: less_imp_le)
  moreover have "i \<le> n - 1 \<longleftrightarrow> kv \<in> set (take n kvs)"
  proof
    assume "kv \<in> set (take n kvs)"
    then obtain k where k: "k < n" "kvs ! k = kvs ! i" using i by (auto simp: in_set_conv_nth)
    then have "k = i" using less [of k i] less [of i k] i n by (cases k i rule: linorder_cases) auto
    then show "i \<le> n - 1" using k by simp
  qed (use i n in \<open>auto simp: in_set_conv_nth intro!: exI [of _ i]\<close>)
  moreover have "s \<le> kv_Key kv" using assms(2,3) by (auto simp: in_range_def)
  ultimately show ?thesis
    using assms(4,5) n False by (auto simp: scanned_info_def covers_def in_range_def)
qed

lemma scanned_range:
  assumes "\<forall>kv \<in> set kvs. in_range s e (kv_Key kv)"
    and "info = scanned_info n kvs e \<lparr>rq_StartKey = s, rq_EndKey = [], rq_ItrExhausted = False, rq_ReadsInfo = NoReads\<rparr>"
    and "rq_ItrExhausted info \<or> rq_EndKey info \<noteq> []" "covers info k"
  shows "in_range s e k"
proof (cases "length kvs < n")
  case True
  then show ?thesis using assms(2,4) by (simp add: scanned_info_def covers_def)
next
  case False
  then have n: "0 < n" "n - 1 < length kvs" using assms(2,3) by (auto simp: scanned_info_def split: if_splits)
  then have "in_range s e (kv_Key (kvs ! (n - 1)))" using assms(1) nth_mem by blast
  then show ?thesis using n False assms(2-4) by (auto simp: scanned_info_def covers_def in_range_def)
qed

text \<open>Two sorted lists of entries with the versions of one state in one range record the same reads.\<close>

lemma reads_of_eqI:
  assumes "strict_sorted (map kv_Key xs)" "strict_sorted (map kv_Key ys)" "kv_Key ` set xs = kv_Key ` set ys"
    and "\<forall>kv \<in> set xs \<union> set ys. kv_Version kv = f (kv_Key kv)"
  shows "map (\<lambda>kv. (kv_Key kv, kv_Version kv)) xs = map (\<lambda>kv. (kv_Key kv, kv_Version kv)) ys"
proof -
  have x: "map (\<lambda>kv. (kv_Key kv, kv_Version kv)) xs = map (\<lambda>k. (k, f k)) (map kv_Key xs)" using assms(4) by simp
  have y: "map (\<lambda>kv. (kv_Key kv, kv_Version kv)) ys = map (\<lambda>k. (k, f k)) (map kv_Key ys)" using assms(4) by simp
  have "map kv_Key xs = map kv_Key ys" using assms(1-3) by (intro strict_sorted_eqI) auto
  then show ?thesis unfolding x y by (rule arg_cong)
qed

lemma unchanged_entries:
  assumes "versionedDB_ok db" "ns_ok ns" "kvs = dscan db ns s e"
    and "info = scanned_info n kvs e \<lparr>rq_StartKey = s, rq_EndKey = [], rq_ItrExhausted = False, rq_ReadsInfo = NoReads\<rparr>"
    and "rq_ItrExhausted info \<or> rq_EndKey info \<noteq> []"
    and "\<forall>k. covers info k \<longrightarrow> map_option vv_Version (cur_state env upd ns k) = map_option vv_Version (dlook db ns k)"
    and "current_entries env upd ns info now"
  shows "map (\<lambda>kv. (kv_Key kv, kv_Version kv)) now = map (\<lambda>kv. (kv_Key kv, kv_Version kv)) (take n kvs)"
proof (rule reads_of_eqI [where f = "\<lambda>k. version_of (cur_state env upd ns k)"])
  have sorted: "strict_sorted (map kv_Key kvs)" and mem: "\<And>kv. kv \<in> set kvs \<longleftrightarrow> kv_Namespace kv = ns \<and> in_range s e (kv_Key kv) \<and> dlook db ns (kv_Key kv) = Some (vv_of kv)"
    using vdb.scan_sorted [OF assms(1,2)] vdb.scan_mem [OF assms(1,2)] assms(3) by auto
  have range: "covers info k \<Longrightarrow> in_range s e k" for k using scanned_range [OF _ assms(4,5)] mem by blast
  have cov: "covers info (kv_Key kv) \<longleftrightarrow> kv \<in> set (take n kvs)" if "kv \<in> set kvs" for kv
    using scanned_covers [OF sorted _ that assms(4,5)] mem by blast
  have now: "kv \<in> set now \<longleftrightarrow> kv_Namespace kv = ns \<and> covers info (kv_Key kv) \<and> cur_state env upd ns (kv_Key kv) = Some (vv_of kv)" for kv
    using assms(7) by (auto simp: current_entries_def)
  show "strict_sorted (map kv_Key now)" using assms(7) by (simp add: current_entries_def)
  show "strict_sorted (map kv_Key (take n kvs))" using sorted by (simp add: take_map [symmetric] sorted_wrt_take)
  have past: "\<exists>kv' \<in> set now. kv_Key kv' = kv_Key kv" "kv_Version kv = version_of (cur_state env upd ns (kv_Key kv))"
    if "kv \<in> set (take n kvs)" for kv
  proof -
    have kv: "kv \<in> set kvs" using that by (rule in_set_takeD)
    then have cv: "covers info (kv_Key kv)" using cov that by simp
    have "dlook db ns (kv_Key kv) = Some (vv_of kv)" using kv mem by blast
    then have "map_option vv_Version (cur_state env upd ns (kv_Key kv)) = Some (kv_Version kv)"
      using assms(6) [rule_format, OF cv] by (simp add: vv_of_def)
    then obtain vv where vv: "cur_state env upd ns (kv_Key kv) = Some vv" "vv_Version vv = kv_Version kv" by auto
    then show "kv_Version kv = version_of (cur_state env upd ns (kv_Key kv))" by (simp add: version_of_def)
    have "kv_of ns (kv_Key kv) vv \<in> set now" using now cv vv(1) by simp
    then show "\<exists>kv' \<in> set now. kv_Key kv' = kv_Key kv" by (metis kv_of_simps(2))
  qed
  have future: "\<exists>kv' \<in> set (take n kvs). kv_Key kv' = kv_Key kv" if "kv \<in> set now" for kv
  proof -
    have c: "covers info (kv_Key kv)" using that now by blast
    moreover have "cur_state env upd ns (kv_Key kv) = Some (vv_of kv)" using that now by blast
    ultimately have "map_option vv_Version (dlook db ns (kv_Key kv)) = Some (vv_Version (vv_of kv))" using assms(6) [rule_format, OF c] by simp
    then obtain vv where "dlook db ns (kv_Key kv) = Some vv" by auto
    then have "kv_of ns (kv_Key kv) vv \<in> set kvs" using mem range [OF c] by simp
    then have "kv_of ns (kv_Key kv) vv \<in> set (take n kvs)" using cov [of "kv_of ns (kv_Key kv) vv"] c by simp
    then show ?thesis by (metis kv_of_simps(2))
  qed
  show "kv_Key ` set now = kv_Key ` set (take n kvs)"
  proof (intro equalityI image_subsetI)
    show "kv_Key kv \<in> kv_Key ` set (take n kvs)" if "kv \<in> set now" for kv using future [OF that] by (metis imageI)
    show "kv_Key kv \<in> kv_Key ` set now" if "kv \<in> set (take n kvs)" for kv using past(1) [OF that] by (metis imageI)
  qed
  show "\<forall>kv \<in> set now \<union> set (take n kvs). kv_Version kv = version_of (cur_state env upd ns (kv_Key kv))"
    using past(2) now by (auto simp: version_of_def vv_of_def)
qed

section \<open>The verdict on a record\<close>

lemma newResultsItr_ok:
  assumes "versionedDB_ok (te_vdb tenv)" "ns_ok ns" "newResultsItr tenv ns startKey endKey True = Inr itr"
  shows "\<exists>h. NewRangeQueryResultsHelper (te_hashing tenv) (te_maxDegree tenv) = Inr h
    \<and> itr = \<lparr>ri_ns = ns, ri_endKey = endKey, ri_dbItr = map Inr (dscan (te_vdb tenv) ns startKey endKey), ri_capture = True,
        ri_info = \<lparr>rq_StartKey = startKey, rq_EndKey = [], rq_ItrExhausted = False, rq_ReadsInfo = NoReads\<rparr>, ri_helper = Some h\<rparr>"
proof -
  obtain kvs where "db_GetStateRangeScanIterator (te_vdb tenv) ns startKey endKey = Inr (map Inr kvs)"
    using assms(1,2) unfolding versionedDB_ok_def by blast
  then show ?thesis using assms(3) by (auto simp: newResultsItr_def dscan_def res_bind_Inr_conv)
qed

text \<open>Scanning never fails, and a scan that has started behind a key ends behind a key.\<close>

lemma scan_succeeds:
  assumes "versionedDB_ok (te_vdb tenv)" "merkle_ok (te_merkle tenv)" "2 \<le> unat (te_maxDegree tenv)"
    "unat (te_maxDegree tenv) + 1 < 2 ^ 32" "ns_ok ns"
  shows "\<exists>itr0 itr. newResultsItr tenv ns startKey endKey True = Inr itr0 \<and> take_results tenv n itr0 = Inr itr
    \<and> (0 < n \<and> startKey \<noteq> [] \<longrightarrow> rq_ItrExhausted (ri_info itr) \<or> rq_EndKey (ri_info itr) \<noteq> [])"
proof -
  let ?kvs = "dscan (te_vdb tenv) ns startKey endKey"
  have "\<not> te_maxDegree tenv < 2" using assms(3) by (simp add: word_less_nat_alt)
  then obtain h where h: "NewRangeQueryResultsHelper (te_hashing tenv) (te_maxDegree tenv) = Inr h"
    by (cases "te_hashing tenv") (auto simp: NewRangeQueryResultsHelper_def newMerkleTree_def Let_def)
  obtain kvs where "db_GetStateRangeScanIterator (te_vdb tenv) ns startKey endKey = Inr (map Inr kvs)"
    using assms(1,5) unfolding versionedDB_ok_def by blast
  then have "\<exists>itr0. newResultsItr tenv ns startKey endKey True = Inr itr0" using h by (auto simp: newResultsItr_def)
  then obtain itr0 where itr0: "newResultsItr tenv ns startKey endKey True = Inr itr0" by blast
  obtain h' where h': "add_results (te_merkle tenv) h (reads_of (take n ?kvs)) = Inr h'"
    using recorded_reads [OF assms(2-4) h] by blast
  have key: "kv_Key (?kvs ! (n - 1)) \<noteq> []" if "0 < n" "n \<le> length ?kvs" "startKey \<noteq> []"
  proof -
    have "?kvs ! (n - 1) \<in> set ?kvs" using that by simp
    then have "startKey \<le> kv_Key (?kvs ! (n - 1))" using vdb.scan_mem [OF assms(1,5)] unfolding in_range_def by blast
    then show ?thesis using that(3) by auto
  qed
  show ?thesis
    using newResultsItr_ok [OF assms(1,5) itr0] itr0 h h' take_results_spec [of itr0 ?kvs h tenv n h'] key
    by (auto simp: scanned_info_def not_less)
qed

lemma same_reads_accepted:
  assumes "versionedDB_ok (v_db env)" "batch_ok upd" "ns_ok ns" "rq_ItrExhausted rqi \<or> rq_EndKey rqi \<noteq> []"
    and "merkle_ok (ve_merkle env)" "2 \<le> unat d" "unat d + 1 < 2 ^ 32" "current_entries env upd ns rqi now"
    and "map (\<lambda>kv. (kv_Key kv, kv_Version kv)) now = map (\<lambda>kv. (kv_Key kv, kv_Version kv)) kvs" "\<forall>kv \<in> set kvs. kv_Version kv \<noteq> None"
    and "GetReadsMerkleHashes rqi = None \<and> GetRawReads rqi = reads_of kvs
      \<or> (\<exists>s. GetReadsMerkleHashes rqi = Some s \<and> merkle_of (ve_merkle env) d (reads_of kvs) = Inr ([], Some s, None))"
  shows "validateRangeQuery env ns rqi upd = Inr True"
proof (cases "GetReadsMerkleHashes rqi")
  case None
  then have raw: "GetRawReads rqi = reads_of kvs" using assms(11) by simp
  then have "\<forall>q \<in> set (GetRawReads rqi). rd_Version q \<noteq> None"
    using assms(10) by (auto simp: reads_of_def NewKVRead_def newProtoVersion_def split: option.splits)
  from validateRangeQuery_raw [OF assms(1-4) None this] show ?thesis
    using current_entries_unique [OF assms(8)] assms(9) raw by (auto simp: reads_of_def NewKVRead_def)
next
  case (Some s)
  then have m: "merkle_of (ve_merkle env) d (reads_of kvs) = Inr ([], Some s, None)" using assms(11) by simp
  then have s: "ms_MaxDegree s = d" "1 \<le> ms_MaxLevel s"
    using merkle_ok.merkle_of_spec [OF assms(5-7), of "reads_of kvs"] by (auto split: if_splits)
  have r: "reads_of xs = map (\<lambda>(k, v). NewKVRead k v) (map (\<lambda>kv. (kv_Key kv, kv_Version kv)) xs)" for xs by (simp add: reads_of_def)
  have "reads_of now = reads_of kvs" unfolding r assms(9) ..
  then show ?thesis
    using validateRangeQuery_hash [OF assms(1-5) Some _ _ s(2) assms(8), of "[]" "Some s"] assms(6,7) s(1) m by simp
qed

text \<open>A scan whose range still holds the versions it saw is accepted, in either form of the record.\<close>

lemma recorded_range_accepted:
  assumes "versionedDB_ok (te_vdb tenv)" "\<forall>k vv. dlook (te_vdb tenv) ns k = Some vv \<longrightarrow> vv_Version vv \<noteq> None"
    and "merkle_ok (te_merkle tenv)" "2 \<le> unat (te_maxDegree tenv)" "unat (te_maxDegree tenv) + 1 < 2 ^ 32" "ns_ok ns"
    and "newResultsItr tenv ns startKey endKey True = Inr itr0" "take_results tenv n itr0 = Inr itr"
    and "rq_ItrExhausted (ri_info itr) \<or> rq_EndKey (ri_info itr) \<noteq> []"
    and "versionedDB_ok (v_db env)" "batch_ok upd" "ve_merkle env = te_merkle tenv"
    and "\<forall>k. covers (ri_info itr) k \<longrightarrow> map_option vv_Version (cur_state env upd ns k) = map_option vv_Version (dlook (te_vdb tenv) ns k)"
  shows "\<exists>rqi. done_itrs tenv [itr] b = Inr (AddToRangeQuerySet b ns rqi, None) \<and> validateRangeQuery env ns rqi upd = Inr True"
proof -
  define kvs where "kvs = dscan (te_vdb tenv) ns startKey endKey"
  let ?rs = "reads_of (take n kvs)" and ?env = "te_merkle tenv" and ?d = "te_maxDegree tenv"
  obtain h where h: "NewRangeQueryResultsHelper (te_hashing tenv) ?d = Inr h"
    "itr0 = \<lparr>ri_ns = ns, ri_endKey = endKey, ri_dbItr = map Inr kvs, ri_capture = True,
        ri_info = \<lparr>rq_StartKey = startKey, rq_EndKey = [], rq_ItrExhausted = False, rq_ReadsInfo = NoReads\<rparr>, ri_helper = Some h\<rparr>"
    using newResultsItr_ok [OF assms(1,6,7)] kvs_def by blast
  obtain h' results hash where r: "add_results ?env h ?rs = Inr h'" "helper_Done ?env h' = Inr (results, hash, None)"
    "results = ?rs \<and> hash = None \<or> (\<exists>s. results = [] \<and> hash = Some s \<and> merkle_of ?env ?d ?rs = Inr ([], Some s, None))"
    using recorded_reads [OF assms(3-5) h(1)] by blast
  let ?info = "scanned_info n kvs endKey \<lparr>rq_StartKey = startKey, rq_EndKey = [], rq_ItrExhausted = False, rq_ReadsInfo = NoReads\<rparr>"
  have itr: "ri_ns itr = ns" "ri_helper itr = Some h'" "ri_info itr = ?info"
    using take_results_spec [OF _ _ _ r(1), of itr0] assms(8) h(2) by auto
  have "rq_ReadsInfo ?info = NoReads" by (simp add: scanned_info_def)
  from finish_itr_reads [OF this r(3)] obtain ri where ri: "finish_itr results hash ?info = ?info\<lparr>rq_ReadsInfo := ri\<rparr>"
    "GetReadsMerkleHashes (?info\<lparr>rq_ReadsInfo := ri\<rparr>) = None \<and> GetRawReads (?info\<lparr>rq_ReadsInfo := ri\<rparr>) = ?rs
      \<or> (\<exists>s. GetReadsMerkleHashes (?info\<lparr>rq_ReadsInfo := ri\<rparr>) = Some s \<and> merkle_of ?env ?d ?rs = Inr ([], Some s, None))" by auto
  let ?rqi = "?info\<lparr>rq_ReadsInfo := ri\<rparr>"
  have fin: "rq_ItrExhausted ?rqi \<or> rq_EndKey ?rqi \<noteq> []" using assms(9) itr(3) by simp
  obtain now where "current_entries env upd ns ?info now"
    using combined_current [OF assms(10,11,6), of ?info] assms(9) itr(3) by metis
  moreover from this have now: "current_entries env upd ns ?rqi now" by (simp add: current_entries_def covers_def)
  ultimately have eq: "map (\<lambda>kv. (kv_Key kv, kv_Version kv)) now = map (\<lambda>kv. (kv_Key kv, kv_Version kv)) (take n kvs)"
    using unchanged_entries [OF assms(1,6) kvs_def refl _ _ , of n env upd now] assms(9,13) itr(3) by simp
  have "kv_Version kv \<noteq> None" if "kv \<in> set (take n kvs)" for kv
  proof -
    have "dlook (te_vdb tenv) ns (kv_Key kv) = Some (vv_of kv)"
      using in_set_takeD [OF that] vdb.scan_mem [OF assms(1,6)] unfolding kvs_def by blast
    from assms(2) [rule_format, OF this] show ?thesis by (simp add: vv_of_def)
  qed
  then have "validateRangeQuery env ns ?rqi upd = Inr True"
    using same_reads_accepted [OF assms(10,11,6) fin _ assms(4,5) now eq] ri(2) assms(3,12) by simp
  then show ?thesis using itr r(2) ri(1) by (intro exI [of _ ?rqi]) simp
qed

text \<open>An iterator that is opened and not advanced: the record has no end and no results.\<close>

lemma unadvanced_range_refused:
  assumes "versionedDB_ok (te_vdb tenv)" "ns_ok ns" "newResultsItr tenv ns startKey endKey True = Inr itr"
    and "merkle_ok (te_merkle tenv)" "2 \<le> unat (te_maxDegree tenv)" "unat (te_maxDegree tenv) + 1 < 2 ^ 32"
    and "versionedDB_ok (v_db env)" "batch_ok upd" "cur_state env upd ns k = Some vv" "startKey \<le> k"
  shows "\<exists>rqi. done_itrs tenv [itr] b = Inr (AddToRangeQuerySet b ns rqi, None) \<and> validateRangeQuery env ns rqi upd = Inr False"
proof -
  let ?rqi = "\<lparr>rq_StartKey = startKey, rq_EndKey = [], rq_ItrExhausted = False, rq_ReadsInfo = NoReads\<rparr>"
  obtain h where h: "NewRangeQueryResultsHelper (te_hashing tenv) (te_maxDegree tenv) = Inr h"
    "itr = \<lparr>ri_ns = ns, ri_endKey = endKey, ri_dbItr = map Inr (dscan (te_vdb tenv) ns startKey endKey), ri_capture = True,
        ri_info = ?rqi, ri_helper = Some h\<rparr>"
    using newResultsItr_ok [OF assms(1-3)] by blast
  obtain results hash where r: "helper_Done (te_merkle tenv) h = Inr (results, hash, None)"
    "results = [] \<and> hash = None \<or> (\<exists>s. results = [] \<and> hash = Some s \<and> merkle_of (te_merkle tenv) (te_maxDegree tenv) [] = Inr ([], Some s, None))"
    using recorded_reads [OF assms(4-6) h(1), of "[]"] by (auto simp: add_results_def)
  then have "finish_itr results hash ?rqi = ?rqi"
    using merkle_ok.merkle_of_spec [OF assms(4-6), of "[]"] by (auto simp: finish_itr_def)
  then have d: "done_itrs tenv [itr] b = Inr (AddToRangeQuerySet b ns ?rqi, None)" using h(2) r(1) by simp
  obtain i where i: "newCombinedIterator (v_db env) upd ns startKey [] True = Inr i" "ci_ok i"
    "set (filter (\<lambda>kv. \<not> isDelete kv) (merge_kv (dscan (v_db env) ns startKey []) (batch_scan upd ns startKey []))) \<subseteq> set (ci_items i)"
    using newCombinedIterator_ok [OF assms(7,2), of upd startKey "[]" True] by (metis set_append sup.cobounded1)
  have "kv_of ns k vv \<in> set (ci_items i)"
    using merge_overlay_mem [OF assms(7,8,2), of "kv_of ns k vv" startKey "[]"] i(3) assms(9,10)
    by (auto simp: cur_state_def in_range_def)
  then have "raw_validate ci_Next ?rqi i = Inr False"
    using comb.raw_validate_spec [OF i(2), of ?rqi] by (auto simp: GetRawReads_def)
  then have "validateRangeQuery env ns ?rqi upd = Inr False" using i(1) by (simp add: validateRangeQuery_def GetReadsMerkleHashes_def)
  then show ?thesis using d by blast
qed

end
