(* ===== verification/Spec2Isabelle.thy ===== *)
theory Spec2Isabelle
  imports DemoCC Endorser Streams Paging Approval PeerChains Delivery DemoCouch RangeRecord
begin

text \<open>
  This development models the peer of a Hyperledger Fabric fork: the path of a transaction from its
  proposal to the ledger, the stores it ends up in, the lifecycle of chaincodes, the streams that connect
  them to the peer, the system chaincodes of the fork, and the delivery of blocks. It is written from the
  Go sources under \<^verbatim>\<open>src/core\<close> and \<^verbatim>\<open>src/peer/gossip\<close>.

  \<^bold>\<open>The parts and how they interact.\<close> A client's proposal is run by a chaincode over a transaction
  simulator, which answers reads from the committed state and collects a read-write set. Ordered
  into blocks, transactions come back to the committer: every envelope is checked (signature, headers,
  binding to its proposal), its writes are checked against the endorsement policy by the validation
  chaincode, and the block is handed to the ledger. The ledger validates reads against the state
  (multi-version concurrency control), applies the writes of the valid transactions in one batch, and
  keeps three stores in step: the block store, the state database and the history database. After a
  crash they are brought in step again from the block store. Blocks come from the orderers through the
  delivery service, which verifies them and hands them on. A chaincode talks to the peer over a stream
  with a state machine at either end, and its requests are answered from the simulator of its
  transaction. System chaincodes run in the peer: they join channels, answer queries, and keep the
  customers of the fork and the proposals they vote on.

  \<^bold>\<open>Theories and sources.\<close>
  \<^item> \<open>Prelude\<close>, \<open>GoLib\<close>: results with errors, panics and exhausted fuel, Go maps and slices, the parts
    of the Go library the sources call (strings, strconv, sort, int64 arithmetic that wraps).
  \<^item> \<open>Version\<close> (\<^verbatim>\<open>version/version.go\<close>, \<^verbatim>\<open>statedb/util.go\<close>): heights and stored values.
  \<^item> \<open>StateDB\<close> (\<^verbatim>\<open>statedb/statedb.go\<close>): the update batch, its iterators, and the interface of a state
    database, whose iterators and range scans are the locales \<open>results_iterator\<close> and \<open>range_source\<close>.
  \<^item> \<open>RWSet\<close>, \<open>Wire\<close> (\<^verbatim>\<open>rwsetutil\<close>): the read-write set builder and its encoding; the locale
    \<open>rw_codec_ok\<close> says what is relied on of protobuf, \<open>Wire\<close> is a concrete format.
  \<^item> \<open>Merkle\<close>, \<open>RangeQuery\<close> (\<^verbatim>\<open>query_results_helper.go\<close>, \<^verbatim>\<open>combined_iterator.go\<close>,
    \<^verbatim>\<open>range_query_validator.go\<close>): range results as lists or as a Merkle summary, and their validation.
  \<^item> \<open>RangeRecord\<close> (\<^verbatim>\<open>helper.go\<close>, \<^verbatim>\<open>range_query_validator.go\<close>): the iterators of a simulation and the validation of
    what they have recorded, and what a full Merkle summary does to the validator.
  \<^item> \<open>RList\<close>, \<open>Cache\<close>, \<open>TxFlags\<close> (\<^verbatim>\<open>statedb/rlist.go\<close>, \<^verbatim>\<open>cache.go\<close>, \<^verbatim>\<open>txvalidationflags.go\<close>): the record
    lists of the fork over a heap of nodes and shared arrays, the expiring cache, the flags.
  \<^item> \<open>Messages\<close>, \<open>Validator\<close>, \<open>Serial\<close>, \<open>Counters\<close> (\<^verbatim>\<open>state_based_validator.go\<close>): the validation of a
    block, its equivalence with a sequential reference run, and the computed writes of the fork.
  \<^item> \<open>LevelDB\<close>, \<open>TxMgr\<close>, \<open>Sessions\<close>, \<open>Commit\<close> (\<^verbatim>\<open>stateleveldb.go\<close>, \<^verbatim>\<open>lockbasedtxmgr\<close>): the state
    database, simulators and query executors, and their interleavings under the commit lock as a step
    relation.
  \<^item> \<open>History\<close>, \<open>KVLedger\<close>, \<open>Recovery\<close>, \<open>Provider\<close> (\<^verbatim>\<open>historydb\<close>, \<^verbatim>\<open>kv_ledger.go\<close>, \<^verbatim>\<open>recovery.go\<close>,
    \<^verbatim>\<open>kv_ledger_provider.go\<close>, \<^verbatim>\<open>ledger_mgmt.go\<close>): the three stores, commit and recovery, and the
    creation, opening and listing of ledgers.
  \<^item> \<open>MsgValidation\<close>, \<open>SysCC\<close>, \<open>TxValidator\<close>, \<open>Vscc\<close>, \<open>Committer\<close> (\<^verbatim>\<open>msgvalidation.go\<close>,
    \<^verbatim>\<open>importsysccs.go\<close>, \<^verbatim>\<open>txvalidator/validator.go\<close>, \<^verbatim>\<open>validator_onevalidsignature.go\<close>,
    \<^verbatim>\<open>committer_impl.go\<close>): what happens to a block before the ledger sees it.
  \<^item> \<open>CCPackage\<close>, \<open>Lscc\<close>, \<open>Lifecycle\<close> (\<^verbatim>\<open>ccprovider\<close>, \<^verbatim>\<open>ccpackage.go\<close>, \<^verbatim>\<open>lscc.go\<close>): chaincode packages,
    the lifecycle chaincode, and its runs on the simulator.
  \<^item> \<open>Policy\<close>, \<open>Execute\<close>, \<open>Endorser\<close> (\<^verbatim>\<open>policy.go\<close>, \<^verbatim>\<open>exectransaction.go\<close>, \<^verbatim>\<open>chaincodeexec.go\<close>,
    \<^verbatim>\<open>endorser.go\<close>): who may do what, the execution of a chaincode, and what a proposal has passed that
    is endorsed.
  \<^item> \<open>Fsm\<close>, \<open>CCHandler\<close>, \<open>CCSupport\<close>, \<open>Streams\<close> (\<^verbatim>\<open>chaincode/handler.go\<close>, \<^verbatim>\<open>chaincode_support.go\<close>): the
    peer's end of a stream as a state machine and a step relation, with its invariant, and the table of
    running chaincodes.
  \<^item> \<open>CompositeKey\<close>, \<open>Shim\<close>, \<open>Paging\<close> (\<^verbatim>\<open>chaincode/shim\<close>): composite keys, the chaincode's end of a stream,
    and iterators that fetch their results page by page from the peer.
  \<^item> \<open>ContractStub\<close>, \<open>Customers\<close>, \<open>Approval\<close> (\<^verbatim>\<open>rbccustomer.go\<close>, \<^verbatim>\<open>rbcapproval.go\<close>): the customers of the
    fork, and proposals that are carried out when enough of them have voted.
  \<^item> \<open>PeerChains\<close> (\<^verbatim>\<open>peer.go\<close>, \<^verbatim>\<open>cscc/configure.go\<close>, \<^verbatim>\<open>qscc/query.go\<close>): the channels of the peer, joining
    them and querying their ledgers.
  \<^item> \<open>GossipCrypto\<close>, \<open>Delivery\<close> (\<^verbatim>\<open>peer/gossip/mcs.go\<close>, \<^verbatim>\<open>sa.go\<close>, \<^verbatim>\<open>deliverservice\<close>, \<^verbatim>\<open>comm/producer.go\<close>): the
    verification of blocks and messages, and the service that fetches blocks from the orderers.
  \<^item> \<open>CouchDB\<close>, \<open>QueryWrapper\<close>, \<open>CouchState\<close> (\<^verbatim>\<open>util/couchdb\<close>, \<^verbatim>\<open>query_wrapper.go\<close>, \<^verbatim>\<open>statecouchdb.go\<close>): the client of CouchDB with its retries over
    a server that may fail (the locales \<open>couch_server\<close> and \<open>calm_server\<close> say what is relied on), the
    rewriting of queries, with the meaning of selectors as the locale \<open>mango\<close>, and the state database on it, whose writes are
    routines that interleave request by request.
  \<^item> \<open>WirePkg\<close>, \<open>Demo\<close>, \<open>DemoTx\<close>, \<open>DemoCC\<close>, \<open>DemoCouch\<close>: concrete instances on which the interfaces are interpreted
    and the properties applied.

  \<^bold>\<open>State and errors.\<close> A struct is a record, state is passed and returned, and a fallible function
  returns \<open>error + 'a\<close>: \<open>Err\<close> for an error the code returns, \<open>Panic\<close> for a run-time panic (a nil
  pointer, an index out of range) and \<open>OutOfFuel\<close>. Fuel bounds the walk through the
  tree of a record list (\<open>ve_fuel\<close>, \<open>te_fuel\<close>), the listing of ledger ids, the loop of the delivery
  service, which has no end of its own, and the walk through a query, whose depth is shown to be enough; properties say explicitly when a result is reached. Block and transaction numbers are 64 bit words.

  \<^bold>\<open>Idealisations.\<close> Go walks a map in any order: where the order can be seen (the maps of upgrades, the maps
  of a query) it is an argument of the definitions, elsewhere maps are walked in the order of insertion. The
  package variables of the block validator (\<^verbatim>\<open>rListCache\<close>, \<^verbatim>\<open>curBlockStatistics\<close>) are a state that is passed with a ledger. When the
  validation of a block returns an error, what it has changed in place by then is dropped with the block. The counts of
  the statistics are integers without a bound; they live in the namespace \<^verbatim>\<open>qscc\<close>, which the properties leave out. The levels of a Merkle tree are
  natural numbers. An added payload of the delivery service is a call of gossip, whose error the code
  does not look at either. The steps of ledger management do not include \<^verbatim>\<open>Close\<close>. A server of CouchDB returns a document
  as it was sent. The routines of a batch on CouchDB interleave at requests, each with its retries.

  \<^bold>\<open>What the lemmas show.\<close> The section on blocks: validation is serial, a commit keeps the stores in
  step, and for ordinary transactions a crash loses nothing and a replay prepares the same writes. The section on received blocks: what
  a valid verdict means, from the signature to the endorsements. The section on the lifecycle: packages
  and deployments. Then the state database refines an overlay of maps, range queries are validated
  exactly, sessions see one state, histories are complete, and ledgers are created atomically; the
  state database on CouchDB applies a batch in whatever order its routines make their requests, queries
  stay in their namespace, delivered blocks are verified, and the stream of a chaincode keeps its invariant. Several theorems state what the code does
  where it does not do what it means to: recovery loses computed writes, a refused transaction leaves its
  additions, a duplicate counts twice, a savepoint on CouchDB may precede the writes it stands for, and two
  thirds of the votes are one. The theories hold more of either kind, listed in their headers.

  \<^bold>\<open>What is not modelled.\<close> Protobuf, JSON, hashes, signatures, the membership service, the policy language,
  the file system, LevelDB, CouchDB, gRPC and gossip are outside the sources and are parameters with the
  laws the code relies on. Containers and platforms, the set-up of servers, the configuration files and
  the command line are input and output around what is modelled here; the shim in Java, mocks and
  examples are left out.
\<close>

section \<open>Blocks\<close>

text \<open>
  C1. Validating a block of ordinary transactions never fails, and gives the verdicts and the writes of
  the sequential reference run: transactions are taken in order, each is valid exactly if everything it
  read (single keys and ranges) is as in the committed state and untouched by the valid transactions
  before it, and the batch holds, outside the namespace of the statistics, the writes of the valid
  ones, each with the height of its transaction. An ordinary transaction (\<open>user_tx\<close>) has plain writes,
  that is none that the validator computes (keys with \<^verbatim>\<open>__CAL_\<close> or \<^verbatim>\<open>__RLIST_\<close>, values with \<^verbatim>\<open>##RCOUNT##\<close>)
  and none of an empty value, does not touch the namespace of the statistics, and has range queries
  whose check does not panic.
\<close>

theorem block_validation_is_serial:
  assumes "versionedDB_ok (v_db env)" "length ts = length (blk_Data block)"
    and "length (initial_flags block) = length (blk_Data block)"
    and "\<forall>j < length ts. initial_flags block ! j = VALID \<longrightarrow> block_tx env (blk_Data block ! j) (ts ! j)"
    and "run = spec_run env (blk_Number block) (\<lambda>_ _. None)
      (filter (\<lambda>(i, t). initial_flags block ! i = VALID) (enumerate 0 ts))"
  shows "\<exists>upd block' st'. ValidateAndPrepareBatch env block True st = Inr (upd, block', st') \<and> batch_ok upd
    \<and> (\<forall>ns. ns \<noteq> ''qscc'' \<longrightarrow> batch_Get upd ns = fst run ns)
    \<and> (\<forall>j < length ts. blk_TxFilter block' ! j = VALID \<longleftrightarrow> j \<in> set (snd run))"
  using ValidateAndPrepareBatch_spec [OF assms(1-4)] unfolding assms(5) .

theorem block_validation_is_serial_witness:
  "\<exists>upd block' st'. ValidateAndPrepareBatch demo_val demo_block True demo_st = Inr (upd, block', st')
    \<and> (\<forall>j < 2. blk_TxFilter block' ! j = VALID \<longleftrightarrow> j \<in> set (snd (spec_run demo_val 0 (\<lambda>_ _. None)
        (filter (\<lambda>(i, t). initial_flags demo_block ! i = VALID) (enumerate 0 demo_ts)))))"
proof -
  have "\<forall>j < length demo_ts. block_tx demo_val (blk_Data demo_block ! j) (demo_ts ! j)"
    using demo_good_val demo_nth by (auto simp: block_tx_def)
  then show ?thesis
    using block_validation_is_serial [of demo_val demo_ts demo_block _ demo_st, OF _ _ _ _ refl] demo_db_ok by auto
qed

text \<open>
  C2. A commit keeps the block store, the state database and the history database in step: the block is
  appended with its verdicts, of which none turns valid that was not, the state becomes the old one under the writes of its valid transactions,
  the history gains its valid writes, and both save points name the new block. The block and the chain
  before it are of ordinary transactions, whose keys hold no zero byte, and the history is enabled.
\<close>

theorem commit_keeps_stores_in_step:
  assumes "kvledger_ok env chain"
    and "chain_ok env (chain (kl_blockStore l)) tss W"
    and "ledger_at env (chain (kl_blockStore l)) W l (\<lambda>_. length (chain (kl_blockStore l)))"
    and "fresh_block env (tm_db (kl_txtmgmt l)) block ts" "blk_Number block = of_nat (length (chain (kl_blockStore l)))"
    and "he_enabled (ke_hist env)" "Suc (length (chain (kl_blockStore l))) < 2 ^ 64"
  shows "\<exists>l' block' W'. kl_Commit env block l = Inr (None, l') \<and> chain (kl_blockStore l') = chain (kl_blockStore l) @ [block']
    \<and> blk_Data block' = blk_Data block \<and> (\<forall>i \<le> length (chain (kl_blockStore l)). W' i = W i)
    \<and> chain_ok env (chain (kl_blockStore l')) (tss @ [ts]) W'
    \<and> ledger_at env (chain (kl_blockStore l')) W' l' (\<lambda>_. length (chain (kl_blockStore l')))
    \<and> (\<forall>j < length (blk_Data block). initial_flags block' ! j = VALID \<longrightarrow> initial_flags block ! j = VALID)"
  by (rule kvledger_ok.Commit_synced [OF assms])

theorem commit_keeps_stores_in_step_witness:
  "\<exists>l' block'. kl_Commit demo_env demo_block demo_ledger = Inr (None, l') \<and> kl_blockStore l' = [block']
    \<and> blk_Data block' = map demo_enc demo_ts"
  using commit_keeps_stores_in_step [OF list_kl.kvledger_ok_axioms [of demo_hist], of demo_ledger "[]" "\<lambda>_ _ _. None" demo_block demo_ts]
    demo_chain demo_at demo_fresh by fastforce

text \<open>
  C3. A crash between the writes of a commit loses nothing, if the block and the chain before it are of ordinary
  transactions (no computed writes, which recovery loses, see C30, and no empty values), keys hold no zero byte and the
  history is enabled: with the block in the store and each of the two databases before or after its
  write, opening the ledger again succeeds and leaves the state (outside the statistics) and the
  history of the completed commit.
\<close>

theorem crash_during_commit_recovers:
  assumes "kvledger_ok env chain"
    and "chain_ok env (chain (kl_blockStore l)) tss W"
    and "ledger_at env (chain (kl_blockStore l)) W l (\<lambda>_. length (chain (kl_blockStore l)))"
    and "fresh_block env (tm_db (kl_txtmgmt l)) block ts" "blk_Number block = of_nat (length (chain (kl_blockStore l)))"
    and "he_enabled (ke_hist env)" "Suc (length (chain (kl_blockStore l))) < 2 ^ 64"
  shows "\<exists>l'. kl_Commit env block l = Inr (None, l') \<and>
    (\<forall>db hdb st. db \<in> {tm_db (kl_txtmgmt l), tm_db (kl_txtmgmt l')} \<longrightarrow> hdb \<in> {kl_historyDB l, kl_historyDB l'} \<longrightarrow>
      (\<exists>l'' L. newKVLedger env (kl_ledgerID l) (kl_blockStore l') db hdb st = Inr l''
        \<and> kl_blockStore l'' = kl_blockStore l'
        \<and> (\<forall>ns k. ns_ok ns \<and> ns \<noteq> ''qscc'' \<longrightarrow>
             dlook (ldb_view (ke_ops env) (ke_codec env) (tm_db (kl_txtmgmt l''))) ns k =
             dlook (ldb_view (ke_ops env) (ke_codec env) (tm_db (kl_txtmgmt l'))) ns k)
        \<and> hist_holds (ke_ops env) (ke_codec env) (kl_historyDB l') L
        \<and> hist_holds (ke_ops env) (ke_codec env) (kl_historyDB l'') L))"
  by (rule kvledger_ok.recover_after_crash [OF assms])

theorem crash_during_commit_recovers_witness:
  "\<exists>l' l''. kl_Commit demo_env demo_block demo_ledger = Inr (None, l')
    \<and> newKVLedger demo_env ''ch'' (kl_blockStore l') (tm_db (kl_txtmgmt demo_ledger)) (kl_historyDB l') demo_st = Inr l''
    \<and> (\<forall>ns k. ns_ok ns \<and> ns \<noteq> ''qscc'' \<longrightarrow> dlook (ldb_view mem_ops lp_codec (tm_db (kl_txtmgmt l''))) ns k
         = dlook (ldb_view mem_ops lp_codec (tm_db (kl_txtmgmt l'))) ns k)"
  using crash_during_commit_recovers [OF list_kl.kvledger_ok_axioms [of demo_hist], of demo_ledger "[]" "\<lambda>_ _ _. None" demo_block demo_ts]
    demo_chain demo_at demo_fresh by fastforce

text \<open>
  C4. Opening a ledger terminates and brings both databases, however far each of them lags behind the
  block store, to the state and the history after the last block. The chain is of plain transactions, whose
  keys hold no zero byte, and the history is enabled.
\<close>

theorem recovery_reaches_the_last_block:
  assumes "kvledger_ok env chain"
    and "chain_ok env (chain (kl_blockStore l)) tss W" "ledger_at env (chain (kl_blockStore l)) W l n"
    and "\<forall>r. n r \<le> length (chain (kl_blockStore l))" "he_enabled (ke_hist env)"
  shows "\<exists>l'. recoverDBs env l = Inr l' \<and> kl_blockStore l' = kl_blockStore l
    \<and> ledger_at env (chain (kl_blockStore l)) W l' (\<lambda>_. length (chain (kl_blockStore l)))"
  by (rule kvledger_ok.recoverDBs_ok [OF assms])

theorem recovery_reaches_the_last_block_witness:
  "\<exists>block' W l'. recoverDBs demo_env (demo_ledger\<lparr>kl_blockStore := [block']\<rparr>) = Inr l' \<and> ledger_at demo_env [block'] W l' (\<lambda>_. 1)"
proof -
  obtain block' W where c: "W 0 = (\<lambda>_ _. None)" "chain_ok demo_env [block'] [demo_ts] W" using demo_committed by blast
  show ?thesis
    using recovery_reaches_the_last_block [OF list_kl.kvledger_ok_axioms [of demo_hist],
        of "demo_ledger\<lparr>kl_blockStore := [block']\<rparr>" "[demo_ts]" W "\<lambda>_. 0"] demo_lagging [of W, OF c(1)] c(2) by auto
qed

text \<open>
  C5. Recovery replays a block without checking it again: on a block of ordinary transactions, with the verdicts
  of its validation, the second pass marks nothing and prepares the same writes, outside the
  statistics, whatever the package state is by then. Without the condition on the transactions it is
  not so: computed writes are skipped by a replay (C30).
\<close>

theorem replay_prepares_the_same_batch:
  assumes "versionedDB_ok (v_db env)" "length ts = length (blk_Data block)" "blk_Data block \<noteq> []"
    and "length (initial_flags block) = length (blk_Data block)"
    and "\<forall>j < length ts. initial_flags block ! j = VALID \<longrightarrow> block_tx env (blk_Data block ! j) (ts ! j)"
  shows "\<exists>upd block' st' upd2 st2. ValidateAndPrepareBatch env block True st = Inr (upd, block', st')
    \<and> ValidateAndPrepareBatch env block' False st0 = Inr (upd2, block', st2)
    \<and> (\<forall>ns. ns \<noteq> ''qscc'' \<longrightarrow> batch_Get upd2 ns = batch_Get upd ns)"
  by (rule recommit_same [OF assms])

theorem replay_prepares_the_same_batch_witness:
  "\<exists>upd block' st' upd2 st2. ValidateAndPrepareBatch demo_val demo_block True demo_st = Inr (upd, block', st')
    \<and> ValidateAndPrepareBatch demo_val block' False demo_st = Inr (upd2, block', st2)
    \<and> batch_Get upd2 ''cc'' = batch_Get upd ''cc''"
proof -
  have "\<forall>j < length demo_ts. block_tx demo_val (blk_Data demo_block ! j) (demo_ts ! j)"
    using demo_good_val demo_nth by (auto simp: block_tx_def)
  then show ?thesis
    using replay_prepares_the_same_batch [of demo_val demo_ts demo_block demo_st demo_st] demo_db_ok by auto
qed

section \<open>From a received block to the ledger\<close>

text \<open>
  C6. A received block whose transactions can be judged is committed: it is validated, appended to the
  block store, applied to the state and the history, and a transaction is valid in the stored block only
  if its own judgement was valid and no upgrade in the same block has superseded it. The block is no
  configuration block and has the next number; its transactions that were judged valid are ordinary ones, so their range
  checks do not panic, all of them have plain writes (no computed ones, no empty values) and keys without a zero byte, as have those
  of the chain; the history is enabled, and the event for the producer is sent or fails with an error, which is only logged.
\<close>

theorem received_block_is_committed:
  assumes "kvledger_ok env chain"
    and "tv_kvl (co_txv lc) = env" "judges (co_txv lc) l cfg (blk_Data block) = Inr (None, js, cfg1)"
    and "\<not> co_IsConfigBlock lc (block\<lparr>blk_TxFilter := map (final_code js) [0..<length js]\<rparr>)"
      "\<And>b. \<exists>r. co_SendProducerBlockEvent lc b = Inr r \<or> co_SendProducerBlockEvent lc b = Inl (Err (msg b))"
    and "chain_ok env (chain (kl_blockStore l)) tss W"
      "ledger_at env (chain (kl_blockStore l)) W l (\<lambda>_. length (chain (kl_blockStore l)))"
    and "fresh_block env (tm_db (kl_txtmgmt l)) (block\<lparr>blk_TxFilter := map (final_code js) [0..<length js]\<rparr>) ts"
      "blk_Number block = of_nat (length (chain (kl_blockStore l)))"
    and "he_enabled (ke_hist env)" "Suc (length (chain (kl_blockStore l))) < 2 ^ 64"
  shows "\<exists>l' block' W'. lc_Commit lc block l cfg = Inr (None, l', cfg1)
    \<and> chain (kl_blockStore l') = chain (kl_blockStore l) @ [block'] \<and> blk_Data block' = blk_Data block
    \<and> chain_ok env (chain (kl_blockStore l')) (tss @ [ts]) W'
    \<and> ledger_at env (chain (kl_blockStore l')) W' l' (\<lambda>_. length (chain (kl_blockStore l')))
    \<and> (\<forall>i < length (blk_Data block). initial_flags block' ! i = VALID \<longrightarrow> final_code js i = VALID \<and> j_code (js ! i) = VALID)"
  by (rule kvledger_ok.commit_block_ok [OF assms])

theorem received_block_is_committed_witness:
  "\<exists>l' block'. lc_Commit demo_committer demo_block demo_ledger () = Inr (None, l', ()) \<and> kl_blockStore l' = [block']
    \<and> blk_Data block' = blk_Data demo_block"
proof -
  have lc: "tv_kvl (co_txv demo_committer) = demo_env"
    "judges (co_txv demo_committer) demo_ledger () (blk_Data demo_block) = Inr (None, [demo_judgement, demo_judgement], ())"
    "\<not> co_IsConfigBlock demo_committer b"
    "\<exists>r. co_SendProducerBlockEvent demo_committer b = Inr r \<or> co_SendProducerBlockEvent demo_committer b = Inl (Err ''no producer'')" for b
    using demo_judges by (simp_all add: demo_committer_def del: demo_block_simps)
  have upd: "demo_block\<lparr>blk_TxFilter := map (final_code [demo_judgement, demo_judgement]) [0..<length [demo_judgement, demo_judgement]]\<rparr>
      = demo_block\<lparr>blk_TxFilter := [VALID, VALID]\<rparr>" by (simp add: upt_rec)
  have fresh: "fresh_block demo_env (tm_db (kl_txtmgmt demo_ledger))
      (demo_block\<lparr>blk_TxFilter := map (final_code [demo_judgement, demo_judgement]) [0..<length [demo_judgement, demo_judgement]]\<rparr>) demo_ts"
    unfolding upd using demo_flagged by simp
  have led: "kl_blockStore demo_ledger = []" by (simp add: demo_ledger_def)
  have "chain_ok demo_env (kl_blockStore demo_ledger) [] (\<lambda>_ _ _. None)"
    "ledger_at demo_env (kl_blockStore demo_ledger) (\<lambda>_ _ _. None) demo_ledger (\<lambda>_. length (kl_blockStore demo_ledger))"
    using demo_chain demo_at led by simp_all
  from received_block_is_committed [OF list_kl.kvledger_ok_axioms lc this fresh] show ?thesis
    by (auto simp: led demo_hist_def)
qed

text \<open>
  C7. The transactions of a block are judged one by one, each as if it were alone in the block, and the
  flags of the block are these judgements with the rule of upgrades applied: what names an upgraded
  chaincode, or is an upgrade that a later one replaces, is in conflict. The maps of upgrades and invocations are walked in
  the orders that \<open>tv_order\<close> gives, which may be any (\<open>map_walk_any\<close>), so the flags do not depend on them.
\<close>

theorem block_transactions_judged_alone:
  assumes "judges env l cfg (blk_Data block) = Inr (None, js, cfg')"
  shows "txv_Validate env l block cfg = Inr (None, block\<lparr>blk_TxFilter := map (final_code js) [0..<length js]\<rparr>, cfg')"
  by (rule txv_Validate_spec(1) [OF assms])

theorem block_transactions_judged_alone_witness:
  "txv_Validate demo_txv demo_ledger demo_block () = Inr (None, demo_block\<lparr>blk_TxFilter := [VALID, VALID]\<rparr>, ())"
  using block_transactions_judged_alone [OF demo_judges] by (simp add: upt_rec)

text \<open>
  C8. An envelope is accepted exactly if the creator its header names has signed it, its header is well
  formed, and it is a configuration transaction or a transaction of one action whose endorsed response
  is bound to the proposal by its hash, under the id that nonce and creator determine. The signature is
  asked of configuration transactions too, although a comment in the code says that they need none.
\<close>

theorem accepted_envelope_is_signed_and_bound:
  "ValidateTransaction pu mv (Some e) = Inr (p, VALID) \<longleftrightarrow>
     (\<exists>payload h chdr shdr. p = Some payload \<and> signed_envelope pu mv e payload h chdr shdr \<and> typed_ok pu mv payload h chdr shdr)"
  by (rule ValidateTransaction_VALID)

text \<open>
  C9. What the validation chaincode accepts is endorsed: for every action the policy holds of the
  signatures of the first endorsement of each identity key, and every key that occurs among the
  endorsements occurs there exactly once. The key is the name of the membership service followed by the
  identity's bytes, so two identities whose concatenations coincide count as one. If the response has no
  spare capacity behind it, each signature is checked over the response followed by its endorser.
\<close>

theorem accepted_endorsements_count_once:
  assumes "accepts (vscc_Invoke pu env [x, Some d, Some policy])"
  shows "\<exists>e payl hdr chdr evaluate acts. pu_GetEnvelopeFromBlock pu d = Inr e \<and> pu_GetPayload pu e = Inr payl
    \<and> pl_Header payl = Some hdr \<and> pu_UnmarshalChannelHeader pu (hd_ChannelHeader hdr) = Inr chdr
    \<and> vc_NewPolicy env (vc_GetManagerForChain env (ch_ChannelId chdr)) policy = Inr evaluate
    \<and> pu_GetTransaction pu (str_of (pl_Data payl)) = Inr acts
    \<and> (\<forall>act \<in> set acts. \<exists>a cap action es sigs. act = Some a \<and> pu_GetChaincodeActionPayload pu (ta_Payload a) = Inr cap
         \<and> cap_Action cap = Some action \<and> evaluate sigs = Inr ()
         \<and> map (\<lambda>s. (sd_Identity s, sd_Signature s)) sigs = map (\<lambda>e. (ed_Endorser e, ed_Signature e)) es
         \<and> (vc_spare env = 0 \<longrightarrow> (\<forall>s \<in> set sigs. sd_Data s = str_of (ea_ProposalResponsePayload action) @ sd_Identity s))
         \<and> es = first_by (ident env) [] (ea_Endorsements action) \<and> distinct (map (ident env) es)
         \<and> ident env ` set es = ident env ` set (ea_Endorsements action))"
  by (rule accepted_endorsements [OF assms])

theorem accepted_endorsements_count_once_witness:
  "\<exists>sigs :: SignedData list. map sd_Identity sigs = [''a'', ''b''] \<and> map sd_Data sigs = [''ea'', ''eb'']
    \<and> vc_NewPolicy two_of_three (Some ()) ''p'' = Inr (\<lambda>sigs. if length sigs = 2 then Inr () else Inl (Err ''not satisfied''))"
proof -
  have "\<exists>sigs :: SignedData list. map (\<lambda>s. (sd_Identity s, sd_Signature s)) sigs = [(''a'', ''s''), (''b'', ''s'')]
      \<and> (\<forall>s \<in> set sigs. sd_Data s = ''e'' @ sd_Identity s)"
    using accepted_endorsements_count_once [OF demo_endorsed_accepted]
    by (simp add: demo_endorsed_def demo_utils_def two_of_three_def ident_def str_of_def) (elim exE conjE, intro exI conjI)
  then obtain sigs :: "SignedData list" where sigs: "map (\<lambda>s. (sd_Identity s, sd_Signature s)) sigs = [(''a'', ''s''), (''b'', ''s'')]"
    "\<forall>s \<in> set sigs. sd_Data s = ''e'' @ sd_Identity s" by (elim exE conjE)
  then have "map fst (map (\<lambda>s. (sd_Identity s, sd_Signature s)) sigs) = [''a'', ''b'']" by simp
  then have "map sd_Identity sigs = [''a'', ''b'']" by (simp add: comp_def)
  moreover have "map sd_Data sigs = map (\<lambda>i. ''e'' @ i) (map sd_Identity sigs)" using sigs(2) by simp
  ultimately show ?thesis by (intro exI [of _ sigs]) (simp add: two_of_three_def)
qed

text \<open>
  C10. A transaction that occurs twice in one block is accepted twice: only the ledger is asked for its id,
  and the ledger does not hold the block yet. When it adds to numbers, it is counted twice.
\<close>

theorem duplicate_in_block_counts_twice:
  assumes "judge env l cfg d = Inr (None, j, cfg)" "j_code j = VALID" "j_upgraded j = None"
    and "\<forall>kd \<in> set kds. CHR '','' \<notin> set (fst kd) \<and> is_i64 (snd kd)"
      "pu_GetActionFromEnvelope venv d = Inr r" "FromProtoBytes (ve_codec venv) (ca_Results r) = Inr [adds_ns ns kds]"
  shows "txv_Validate env l (block\<lparr>blk_Data := [d, d]\<rparr>) cfg
      = Inr (None, block\<lparr>blk_Data := [d, d], blk_TxFilter := [VALID, VALID]\<rparr>, cfg)
    \<and> (\<exists>upd1 upd2. validateEndorserTX venv d True (upd, st) = Inr (Some [adds_ns ns kds], VALID, upd1, st)
        \<and> validateEndorserTX venv d True (upd1, st) = Inr (Some [adds_ns ns kds], VALID, upd2, st)
        \<and> (\<forall>k. batch_counter venv upd2 ns k = wrap64 (batch_counter venv upd ns k + 2 * sum_for k kds)))"
  by (rule duplicate_counts_twice [OF assms])

theorem duplicate_in_block_counts_twice_witness:
  "\<exists>d upd1 upd2. txv_Validate demo_txv demo_ledger (demo_block\<lparr>blk_Data := [d, d]\<rparr>) ()
      = Inr (None, demo_block\<lparr>blk_Data := [d, d], blk_TxFilter := [VALID, VALID]\<rparr>, ())
    \<and> validateEndorserTX demo_val d True (NewUpdateBatch, demo_st) = Inr (Some [adds_ns ''cc'' demo_adds], VALID, upd1, demo_st)
    \<and> validateEndorserTX demo_val d True (upd1, demo_st) = Inr (Some [adds_ns ''cc'' demo_adds], VALID, upd2, demo_st)
    \<and> batch_counter demo_val upd2 ''cc'' ''n'' = 16"
proof -
  let ?e = "demo_enc [adds_ns ''cc'' demo_adds]"
  have e: "pu_GetActionFromEnvelope demo_val ?e = Inr (demo_action ?e)" "ve_codec demo_val = wire_codec" "ca_Results (demo_action ?e) = ?e" by (simp_all add: demo_val_defs)
  have j: "judge demo_txv demo_ledger () ?e = Inr (None, demo_judgement, ())" using demo_judge demo_adds_wire by blast
  have "j_code demo_judgement = VALID" "j_upgraded demo_judgement = None" by (simp_all add: demo_judgement_def)
  from duplicate_in_block_counts_twice [OF j this demo_adds_ok, of demo_val "demo_action ?e" "''cc''" demo_block NewUpdateBatch demo_st] e demo_adds_wire
  show ?thesis using demo_adds_sum by (fastforce simp: is_i64_def i64_min_def i64_max_def)
qed

text \<open>
  C11. An invocation of \<^verbatim>\<open>rbccustomer\<close> or \<^verbatim>\<open>rbcapproval\<close> is exempt from the endorsement policies of what it
  writes to: whatever its write set, the signature of any member of the channel is enough.
\<close>

theorem exempt_chaincodes_write_anywhere:
  assumes "cc_Name h \<in> {''rbccustomer'', ''rbcapproval''}" "cc_Name r = cc_Name h" "cc_Version r \<noteq> []"
    and "tv_SignedByAnyMember env (tv_GetMSPIDs env cfg (ch_ChannelId chdr)) = Inr policy"
    and "VSCCValidateTxForCC env cfg l d (ch_ChannelId chdr) ''vscc'' (tv_SysCCVersion env) policy = Inr ()"
  shows "vscc_named env cfg l d chdr h r t = Inr (None, VALID)"
  by (rule system_writes_unchecked [OF assms])

theorem exempt_chaincodes_write_anywhere_witness:
  "vscc_named demo_txv () demo_ledger ''e'' demo_chdr demo_cc demo_cc [adds_ns ''other'' demo_adds] = Inr (None, VALID)"
  by (rule exempt_chaincodes_write_anywhere [where policy = "''any''"])
    (simp_all add: demo_cc_def demo_txv_def VSCCValidateTxForCC_def shim_Success_def)

text \<open>
  C12. Whatever the orderers send, the blocks that the delivery service adds to the state of the channel
  and hands on to other peers are the same, and each of them was verified: its data has the hash of its
  header, and the signatures on its header satisfy the policy for blocks of the channel.
\<close>

theorem delivered_blocks_are_verified:
  "\<exists>ps. fd_added (snd (DeliverBlocks n (NewBlocksProvider k env mcs marshal) s)) = fd_added s @ ps
    \<and> fd_gossiped (snd (DeliverBlocks n (NewBlocksProvider k env mcs marshal) s)) = fd_gossiped s @ map (createGossipMsg (dc_chainID env)) ps
    \<and> list_all (\<lambda>p. block_verified mcs (dc_chainID env) (gp_SeqNum p) (gp_Data p)) ps"
  using provider.delivered_verified [of k env mcs marshal s n] unfolding provider.handed_on_def list_all_iff provider_fields .

section \<open>Chaincode lifecycle\<close>

text \<open>
  C13. A deployment that the lifecycle chaincode carries out on the transaction simulator leaves a
  read-write set that the validation chaincode accepts on every peer: one write, under the name of the
  chaincode, of the record with its name, its version and the instantiation policy the proposal has
  satisfied.
\<close>

theorem deployment_passes_validation:
  assumes "executeDeploy env (sim_stub tenv ''lscc'' base) chain dep pol escc vscc (newLockBasedTxSimulator, fs) = (Inr cd, h', fs')"
    and "fs_named (lc_pkg env) fs"
    and "\<And>b. lc_MarshalChaincodeData env cd = Inr (Some b) \<Longrightarrow> vc_UnmarshalChaincodeData venv b = Inr cd"
    and "\<not> HasPrefix (cd_Name cd) RLIST_PREFIX"
  shows "\<exists>cds cc rws. pu_GetChaincodeDeploymentSpec (lc_pu env) dep = Inr cds \<and> spec_id cds = Inr cc
    \<and> qh_rwset h' = Some rws \<and> check_lscc_rwset venv cc (GetTxReadWriteSet rws) = Inr cd
    \<and> (\<exists>ip. cd_InstantiationPolicy cd = Some ip \<and> lscc_checkInstantiationPolicy env (sim_stub tenv ''lscc'' base) chain (Some ip) = Inr ())"
  by (rule deploy_passes_vscc [OF assms])

theorem deployment_passes_validation_witness:
  "\<exists>h rws. executeDeploy demo_lscc (sim_stub demo_sim ''lscc'' (demo_stub [])) ''ch'' (e_cds demo_cds) ''any'' ''escc'' ''vscc''
      (newLockBasedTxSimulator, demo_fs) = (Inr demo_record, h, demo_fs) \<and> qh_rwset h = Some rws
    \<and> check_lscc_rwset (two_of_three\<lparr>vc_UnmarshalChaincodeData := unmarshal d_ccdata\<rparr>) demo_ccid (GetTxReadWriteSet rws) = Inr demo_record"
proof -
  obtain h where h: "executeDeploy demo_lscc (sim_stub demo_sim ''lscc'' (demo_stub [])) ''ch'' (e_cds demo_cds) ''any'' ''escc'' ''vscc''
      (newLockBasedTxSimulator, demo_fs) = (Inr demo_record, h, demo_fs)" using demo_deploy by blast
  have "fs_named (lc_pkg demo_lscc) demo_fs" using demo_fs_named by (simp add: demo_lscc_def)
  moreover have "pu_GetChaincodeDeploymentSpec (lc_pu demo_lscc) (e_cds demo_cds) = Inr demo_cds"
    by (simp add: demo_lscc_def demo_utils_def wire_pkg_def e_cds_nonempty)
  moreover have "\<not> HasPrefix (cd_Name demo_record) RLIST_PREFIX"
    by (simp add: demo_record_def new_ChaincodeData_def HasPrefix_def RLIST_PREFIX_def)
  moreover have "vc_UnmarshalChaincodeData (two_of_three\<lparr>vc_UnmarshalChaincodeData := unmarshal d_ccdata\<rparr>) b = Inr demo_record"
    if "lc_MarshalChaincodeData demo_lscc demo_record = Inr (Some b)" for b using that by (auto simp: demo_lscc_def)
  ultimately show ?thesis
    using deployment_passes_validation [OF h, of "two_of_three\<lparr>vc_UnmarshalChaincodeData := unmarshal d_ccdata\<rparr>"] h demo_spec_id by auto
qed

text \<open>
  C14. An installation that succeeds stores exactly the bytes it is given under the name and the version
  of the package they decode to, in place of what may have been there, and makes that package the one that
  is found; it changes no other package and nothing of the channel, and keeps every package of the peer
  under its own name.
\<close>

theorem install_adds_one_package:
  assumes "executeInstall env (Some b) (st, fs) = (Inr (), st', fs')"
  shows "\<exists>p cds cc. GetCCPackage (lc_pkg env) (Some b) = Inr p \<and> GetDepSpec p = Inr cds \<and> spec_id cds = Inr cc \<and> st' = st
    \<and> fs' = gm_put (package_path (lc_pkg env) (cc_Name cc) (cc_Version cc)) b fs
    \<and> GetChaincodeFromFS (lc_pkg env) (cc_Name cc) (cc_Version cc) fs' = Inr p
    \<and> (\<forall>n v. isValidChaincodeName n = Inr () \<and> (n, v) \<noteq> (cc_Name cc, cc_Version cc) \<longrightarrow>
         GetChaincodeFromFS (lc_pkg env) n v fs' = GetChaincodeFromFS (lc_pkg env) n v fs)
    \<and> (fs_named (lc_pkg env) fs \<longrightarrow> fs_named (lc_pkg env) fs')"
  by (rule install_isolated [OF assms])

theorem install_adds_one_package_witness:
  "GetCCPackage (lc_pkg demo_lscc) (Some (e_cds demo_cds)) = Inr (RawPackage demo_package)
    \<and> GetChaincodeFromFS (lc_pkg demo_lscc) ''loan'' ''1.0'' demo_fs = Inr (RawPackage demo_package)"
proof -
  have pkg: "lc_pkg demo_lscc = wire_pkg" by (simp add: demo_lscc_def)
  have "GetDepSpec (RawPackage demo_package) = Inr demo_cds" using package_from_simps(1) [OF demo_from] by simp
  then show ?thesis
    using install_adds_one_package [OF demo_install [of "()"]] demo_GetCCPackage demo_spec_id by (auto simp: pkg)
qed

text \<open>
  C15. A package, raw or signed, passes the check against the record it yields: whoever stores that record
  on the channel will launch this package.
\<close>

theorem package_validates_own_record:
  assumes "package_codec env" "GetCCPackage env buf = Inr p" "pack_GetChaincodeData p = Inr cd"
  shows "ValidateCC env p cd = Inr ()"
  using GetCCPackage_from [OF assms(2)] package_codec.validates_own_data [OF assms(1) _ assms(3)] by blast

theorem package_validates_own_record_witness:
  "ValidateCC wire_pkg (RawPackage demo_package) (new_ChaincodeData demo_ccid (e_cdsdata demo_data) ''codeloan1.0'' None) = Inr ()"
  by (rule package_validates_own_record [OF wire_pkg.package_codec_axioms demo_GetCCPackage])
    (simp add: cds_GetChaincodeData_def demo_package_def demo_spec_id)

section \<open>State database\<close>

text \<open>
  C16. Applying a block's batch to the state database succeeds, records the height as the save
  point, keeps the stored entries decodable, and makes every later point read answer the overlay
  of the batch on the old state: a put value with its version, nothing for a deleted key, the old
  answer for any other key.
\<close>

theorem state_apply_refines_overlay:
  assumes "stateleveldb ops c" "batch_storable b" "stored_ok ops c db"
  shows "\<exists>db'. ldb_ApplyUpdates ops c db b h = Inr db' \<and> stored_ok ops c db'
    \<and> ldb_GetLatestSavePoint ops c db' = Inr (Some h)
    \<and> (\<forall>ns k. ns_ok ns \<longrightarrow>
         dlook (ldb_view ops c db') ns k = overlay (dlook (ldb_view ops c db)) b ns k)"
proof -
  obtain db' where a: "ldb_ApplyUpdates ops c db b h = Inr db'"
    using stateleveldb.apply_total [OF assms(1,2)] by blast
  then show ?thesis
    using stateleveldb.apply_stored [OF assms(1,2,3) a] stateleveldb.apply_savepoint [OF assms(1,2) a]
      stateleveldb.apply_overlay [OF assms(1,2,3) _ a] by blast
qed

theorem state_apply_refines_overlay_witness:
  "\<exists>db'. ldb_ApplyUpdates mem_ops lp_codec mem_empty demo_batch (NewHeight 1 1) = Inr db'
    \<and> dlook (ldb_view mem_ops lp_codec db') ''cc'' ''k''
      = overlay (dlook (ldb_view mem_ops lp_codec mem_empty)) demo_batch ''cc'' ''k''"
proof -
  have "ns_ok ''cc''" by (simp add: ns_ok_def)
  then show ?thesis
    using state_apply_refines_overlay
      [OF mem.stateleveldb_axioms demo_batch_storable mem_empty_stored, of "NewHeight 1 1"] by blast
qed



text \<open>
  C18. But \<^verbatim>\<open>ApplyUpdates\<close> does not wait for its routines: after the four requests of the caller alone it
  has returned without an error and the height of the block is the savepoint, while no routine has begun
  and every key still reads as before the block.
\<close>

theorem couch_savepoint_without_writes:
  assumes "couch_state env docs db good revision c normal" "good (cb_store s)" "cb_threads s = []"
  shows "\<exists>s'. couch_run env (replicate 4 0) (couch_ApplyUpdates env c db batch height s) = (Inr (), s')
    \<and> cb_main s' = Finished (Inr ()) \<and> cb_threads s' = map (commit_routine env c db) (batch_writes batch)
    \<and> fst (couch_GetLatestSavePoint env c db (cb_store s')) = Inr (Some height)
    \<and> fst (couch_GetState env c db ns k (cb_store s')) = fst (couch_GetState env c db ns k (cb_store s))"
  by (rule couch_state.savepoint_before_writes [OF assms])

theorem couch_savepoint_without_writes_witness:
  "\<exists>s'. couch_run demo_couch (replicate 4 0) (couch_ApplyUpdates demo_couch text_codec ''ch'' demo_batch (NewHeight 1 0) demo_couch_db) = (Inr (), s')
    \<and> cb_main s' = Finished (Inr ()) \<and> fst (couch_GetLatestSavePoint demo_couch text_codec ''ch'' (cb_store s')) = Inr (Some (NewHeight 1 0))
    \<and> fst (couch_GetState demo_couch text_codec ''ch'' ''cc'' ''k'' (cb_store s')) = fst (couch_GetState demo_couch text_codec ''ch'' ''cc'' ''k'' (cb_store demo_couch_db))"
  using couch_savepoint_without_writes [OF demo_couch_state demo_couch_calm demo_couch_idle, of demo_batch "NewHeight 1 0" "''cc''" "''k''"] by blast



section \<open>Range queries\<close>

text \<open>
  C20. The combined iterator over a well-behaved state database and a batch yields, without an
  error, in strictly increasing key order exactly the live entries of the overlay in the queried
  range (with the end key when it is asked for), and then nil.
\<close>

theorem combined_iterator_lists_overlay:
  assumes "versionedDB_ok db" "batch_ok b" "ns_ok ns" "incl \<longrightarrow> e \<noteq> []"
  shows "\<exists>itr kvs. newCombinedIterator db b ns s e incl = Inr itr
    \<and> (\<forall>n > length kvs. drain ci_Next n itr = Inr kvs) \<and> strict_sorted (map kv_Key kvs)
    \<and> (\<forall>kv. kv \<in> set kvs \<longleftrightarrow> kv_Namespace kv = ns \<and> (in_range s e (kv_Key kv) \<or> incl \<and> kv_Key kv = e)
          \<and> overlay (dlook db) b ns (kv_Key kv) = Some (vv_of kv))"
proof -
  obtain itr where itr: "newCombinedIterator db b ns s e incl = Inr itr" "ci_ok itr"
    "ci_items itr = filter (\<lambda>kv. \<not> isDelete kv) (merge_kv (dscan db ns s e) (batch_scan b ns s e)) @
       (if incl then (case overlay (dlook db) b ns e of None \<Rightarrow> [] | Some vv \<Rightarrow> [kv_of ns e vv]) else [])"
    using newCombinedIterator_ok [OF assms(1,3)] by blast
  show ?thesis
    using itr(1) comb.drain_items [OF itr(2)] combined_items_mem [OF assms itr(3)] by blast
qed

theorem combined_iterator_lists_overlay_witness:
  "\<exists>itr kvs. newCombinedIterator demo_db demo_batch ''cc'' '''' ''m'' False = Inr itr
    \<and> drain ci_Next (Suc (length kvs)) itr = Inr kvs \<and> strict_sorted (map kv_Key kvs)"
proof -
  show ?thesis
    using combined_iterator_lists_overlay [OF demo_db_ok demo_batch_ok ns_ok_cc, of False "''m''" "''''"] by blast
qed

text \<open>
  C21. Validating a range query recorded with raw reads decides exactly whether the entries the range
  holds now (committed state under the valid transactions before this one) are the recorded keys
  with the recorded versions, in order.
\<close>

theorem raw_range_query_exact:
  assumes "versionedDB_ok (v_db env)" "batch_ok upd" "ns_ok ns" "rq_ItrExhausted rqi \<or> rq_EndKey rqi \<noteq> []"
    and "GetReadsMerkleHashes rqi = None" "\<forall>q \<in> set (GetRawReads rqi). rd_Version q \<noteq> None"
    and "current_entries env upd ns rqi kvs"
  shows "validateRangeQuery env ns rqi upd =
    Inr (map (\<lambda>kv. (kv_Key kv, kv_Version kv)) kvs = map (\<lambda>q. (rd_Key q, NewVersion (rd_Version q))) (GetRawReads rqi))"
  using validateRangeQuery_raw [OF assms(1-6)] current_entries_unique [OF assms(7)] by blast

theorem raw_range_query_exact_witness:
  "validateRangeQuery demo_val ''cc'' (raw_rqi (RawReads (reads_of (demo_kvs 4)))) (kvs_batch (demo_kvs 4)) = Inr True"
proof -
  have "map (\<lambda>kv. (kv_Key kv, kv_Version kv)) (demo_kvs 4)
      = map (\<lambda>q. (rd_Key q, NewVersion (rd_Version q))) (reads_of (demo_kvs 4))"
    "\<forall>q \<in> set (reads_of (demo_kvs 4)). rd_Version q \<noteq> None"
    by code_simp+
  then show ?thesis
    using raw_range_query_exact [OF _ demo_query_batch ns_ok_cc _ _ _ demo_query_current, of "RawReads (reads_of (demo_kvs 4))"]
      demo_db_ok by (simp add: raw_rqi_def GetReadsMerkleHashes_def GetRawReads_def)
qed

text \<open>
  C22. Validating a range query recorded as a Merkle summary decides exactly whether the entries the
  range holds now have the recorded summary, as long as the tree of the current entries is not
  higher than the recorded one or the recorded top level is not full.
\<close>

theorem hashed_range_query_exact:
  assumes "versionedDB_ok (v_db env)" "batch_ok upd" "ns_ok ns" "rq_ItrExhausted rqi \<or> rq_EndKey rqi \<noteq> []"
    and "merkle_ok (ve_merkle env)" "GetReadsMerkleHashes rqi = Some s"
    and "2 \<le> unat (ms_MaxDegree s)" "unat (ms_MaxDegree s) + 1 < 2 ^ 32" "1 \<le> ms_MaxLevel s"
    and "current_entries env upd ns rqi kvs"
    and "merkle_of (ve_merkle env) (ms_MaxDegree s) (reads_of kvs) = Inr (p, fs, None)"
    and "length (ms_MaxLevelHashes s) < unat (ms_MaxDegree s) \<or> (\<forall>f. fs = Some f \<longrightarrow> ms_MaxLevel f \<le> ms_MaxLevel s)"
  shows "validateRangeQuery env ns rqi upd = Inr (fs = Some s)"
  by (rule validateRangeQuery_hash [OF assms])

theorem hashed_range_query_exact_witness:
  "validateRangeQuery demo_val ''cc'' (raw_rqi (MerkleReads demo_summary)) (kvs_batch (demo_kvs 4)) = Inr False"
proof -
  let ?fs = "fst (snd (projr (merkle_of id_env 2 (reads_of (demo_kvs 4)))))"
  have m: "merkle_of id_env 2 (reads_of (demo_kvs 4)) = Inr ([], ?fs, None)" by code_simp
  have s: "ms_MaxDegree demo_summary = 2" "ms_MaxLevel demo_summary = 1" "?fs \<noteq> Some demo_summary"
    "ms_MaxLevel (the ?fs) \<le> 1" by code_simp+
  then have "\<forall>f. ?fs = Some f \<longrightarrow> ms_MaxLevel f \<le> ms_MaxLevel demo_summary" by (metis option.sel)
  moreover have "ve_merkle demo_val = id_env" by (simp add: demo_val_defs)
  ultimately show ?thesis
    using hashed_range_query_exact [OF _ demo_query_batch ns_ok_cc _ _ _ _ _ _ demo_query_current,
        of "MerkleReads demo_summary" demo_summary "[]" ?fs] demo_db_ok mk.merkle_ok_axioms m s(1-3)
    by (simp add: raw_rqi_def GetReadsMerkleHashes_def)
qed

text \<open>
  C23. No spurious phantoms: a simulation opens an iterator on a range and calls it any number of times;
  if the keys of the part it has scanned have the versions it saw when its block is validated, what the
  iterator recorded passes, whether the results themselves or their Merkle summary were recorded. The
  iterator must have been advanced, and not have stopped on the empty key; one that was never advanced
  records a scan without end and without results.
\<close>

theorem unchanged_range_accepted:
  assumes "versionedDB_ok (te_vdb tenv)" "\<forall>k vv. dlook (te_vdb tenv) ns k = Some vv \<longrightarrow> vv_Version vv \<noteq> None"
    and "merkle_ok (te_merkle tenv)" "2 \<le> unat (te_maxDegree tenv)" "unat (te_maxDegree tenv) + 1 < 2 ^ 32" "ns_ok ns"
    and "newResultsItr tenv ns startKey endKey True = Inr itr0" "take_results tenv n itr0 = Inr itr"
    and "rq_ItrExhausted (ri_info itr) \<or> rq_EndKey (ri_info itr) \<noteq> []"
    and "versionedDB_ok (v_db env)" "batch_ok upd" "ve_merkle env = te_merkle tenv"
    and "\<forall>k. covers (ri_info itr) k \<longrightarrow> map_option vv_Version (cur_state env upd ns k) = map_option vv_Version (dlook (te_vdb tenv) ns k)"
  shows "\<exists>rqi. done_itrs tenv [itr] b = Inr (AddToRangeQuerySet b ns rqi, None) \<and> validateRangeQuery env ns rqi upd = Inr True"
  by (rule recorded_range_accepted [OF assms])

theorem unchanged_range_accepted_witness:
  "\<exists>db itr0 itr rqi. ldb_ApplyUpdates mem_ops lp_codec mem_empty demo_batch (NewHeight 1 1) = Inr db
    \<and> newResultsItr (tenv_at mem_ops lp_codec one_tm db) ''cc'' ''a'' ''z'' True = Inr itr0
    \<and> take_results (tenv_at mem_ops lp_codec one_tm db) 3 itr0 = Inr itr
    \<and> done_itrs (tenv_at mem_ops lp_codec one_tm db) [itr] [] = Inr (AddToRangeQuerySet [] ''cc'' rqi, None)
    \<and> validateRangeQuery (env_at mem_ops lp_codec demo_val db) ''cc'' rqi NewUpdateBatch = Inr True"
proof -
  obtain db where db: "ldb_ApplyUpdates mem_ops lp_codec mem_empty demo_batch (NewHeight 1 1) = Inr db"
    using mem.apply_total [OF demo_batch_storable] by blast
  have st: "stored_ok mem_ops lp_codec db" by (rule mem.apply_stored [OF demo_batch_storable mem_empty_stored db])
  let ?t = "tenv_at mem_ops lp_codec one_tm db"
  have t: "versionedDB_ok (te_vdb ?t)" "te_merkle ?t = id_env" "te_maxDegree ?t = 2"
    using mem.view_ok [OF st] by (simp_all add: tenv_at_def one_tm_def te_vdb_def)
  have v: "\<forall>k vv. dlook (te_vdb ?t) ''cc'' k = Some vv \<longrightarrow> vv_Version vv \<noteq> None" using mem.dlook_stored [OF st] by auto
  obtain itr0 itr where i: "newResultsItr ?t ''cc'' ''a'' ''z'' True = Inr itr0" "take_results ?t 3 itr0 = Inr itr"
    "rq_ItrExhausted (ri_info itr) \<or> rq_EndKey (ri_info itr) \<noteq> []"
    using scan_succeeds [of ?t "''cc''" "''a''" "''z''" 3] t mk.merkle_ok_axioms by auto
  have m: "merkle_ok (te_merkle ?t)" "ve_merkle (env_at mem_ops lp_codec demo_val db) = te_merkle ?t"
    using t(2) mk.merkle_ok_axioms by (simp_all add: env_at_def demo_val_defs)
  have "batch_ok NewUpdateBatch" "cur_state (env_at mem_ops lp_codec demo_val db) NewUpdateBatch = dlook (te_vdb ?t)"
    by (auto simp: batch_ok_def NewUpdateBatch_def cur_state_def overlay_def batch_Get_def fun_eq_iff)
  then show ?thesis
    using unchanged_range_accepted [OF t(1) v m(1) _ _ ns_ok_cc i _ _ m(2), of NewUpdateBatch "[]"] t(1,3) db i by auto
qed

text \<open>
  C24. The Merkle helper never fails on results of any number: up to the degree the raw results are
  kept, beyond it a summary of at most that many hashes and at least one is produced.
\<close>

theorem merkle_summary_bounded:
  assumes "merkle_ok env" "2 \<le> unat d" "unat d + 1 < 2 ^ 32"
  shows "if length rs \<le> unat d then merkle_of env d rs = Inr (rs, None, None)
    else \<exists>s. merkle_of env d rs = Inr ([], Some s, None) \<and> ms_MaxDegree s = d
      \<and> 1 \<le> length (ms_MaxLevelHashes s) \<and> length (ms_MaxLevelHashes s) \<le> unat d \<and> 1 \<le> ms_MaxLevel s"
  by (rule merkle_ok.merkle_of_spec [OF assms])

theorem merkle_summary_bounded_witness:
  "\<exists>s. merkle_of id_env 2 (reads_of (demo_kvs 9)) = Inr ([], Some s, None) \<and> length (ms_MaxLevelHashes s) \<le> 2"
  using merkle_summary_bounded [OF mk.merkle_ok_axioms, of 2 "reads_of (demo_kvs 9)"] by (auto simp: reads_of_def demo_kvs_def)

text \<open>
  C25. Outside the condition of C22 the validator can crash: if the recorded summary is the one of
  \<open>d * (d + 1) ^ L\<close> results, for a degree \<open>d\<close> of at least 2 and a level \<open>L\<close> of at least 1, which fill
  the top level of the tree, and the range now holds the same results followed by so many others that
  there are at least \<open>(d + 1) ^ (L + 1)\<close>, the comparison reads behind the only hash of the new top level.
\<close>

theorem hash_validator_index_panic:
  assumes "versionedDB_ok (v_db env)" "batch_ok upd" "ns_ok ns" "rq_ItrExhausted rqi \<or> rq_EndKey rqi \<noteq> []"
    and "merkle_ok (ve_merkle env)" "GetReadsMerkleHashes rqi = Some s"
    and "2 \<le> unat (ms_MaxDegree s)" "unat (ms_MaxDegree s) + 1 < 2 ^ 32" "1 \<le> L"
    and "current_entries env upd ns rqi kvs" "(unat (ms_MaxDegree s) + 1) ^ Suc L \<le> length kvs"
    and "merkle_of (ve_merkle env) (ms_MaxDegree s)
      (reads_of (take (unat (ms_MaxDegree s) * (unat (ms_MaxDegree s) + 1) ^ L) kvs)) = Inr (p, Some s, None)"
  shows "validateRangeQuery env ns rqi upd = Inl (Panic ''index out of range'')"
  by (rule full_summary_panics [OF assms])

theorem hash_validator_index_panic_witness:
  "validateRangeQuery demo_val ''cc'' (raw_rqi (MerkleReads demo_summary)) (kvs_batch (demo_kvs 9)) = Inl (Panic ''index out of range'')"
proof -
  have six: "take 6 (demo_kvs 9) = demo_kvs 6" "length (demo_kvs 9) = 9" by code_simp+
  have m: "merkle_of id_env 2 (reads_of (demo_kvs 6)) = Inr ([], Some demo_summary, None)" "ms_MaxDegree demo_summary = 2" by code_simp+
  have "ve_merkle demo_val = id_env" by (simp add: demo_val_defs)
  then show ?thesis
    using hash_validator_index_panic [of demo_val "kvs_batch (demo_kvs 9)" "''cc''" "raw_rqi (MerkleReads demo_summary)" demo_summary 1 "demo_kvs 9" "[]"]
      demo_kvs_batch [of 9] demo_kvs_current [of 9] demo_db_ok mk.merkle_ok_axioms m six
    by (simp add: raw_rqi_def GetReadsMerkleHashes_def power2_eq_square)
qed

section \<open>Concurrent sessions\<close>

text \<open>
  C26. In every interleaving of simulations and commits the read lock counts the open sessions, an open
  session still sees the database it started with, and the reads a session has recorded, finished or
  not, are those of the single state at its opening.
\<close>

theorem sessions_see_one_state:
  assumes "tm_reachable ops c tenv venv s"
  shows "tm_readers (sy_tm s) = open_count s
    \<and> (\<forall>x \<in> set (sy_sessions s). (qh_done (se_helper x) \<or> se_opened x = tm_db (sy_tm s))
        \<and> (\<forall>b. qh_rwset (se_helper x) = Some b \<longrightarrow> reads_match (ldb_view ops c (se_opened x)) b))"
  using tm_reachable_inv [OF assms] by (simp add: snapshot_inv_def lock_inv_def session_ok_def)

theorem sessions_see_one_state_witness:
  "tm_readers (sy_tm demo_read) = open_count demo_read \<and> open_count demo_read = 1"
  using sessions_see_one_state [OF demo_read_reachable]
  by (simp add: open_count_def demo_read_session add_read_def newLockBasedTxSimulator_def newQueryExecutor_def)

text \<open>
  C27. From the simulation to the verdict: the reads of a simulation pass the check if the keys it read
  have the versions they had when it was opened and no valid transaction of the block has written them.
\<close>

theorem unchanged_reads_pass:
  assumes "tm_reachable ops c tenv venv s" "x \<in> set (sy_sessions s)" "qh_rwset (se_helper x) = Some b"
    and "n \<in> set (GetTxReadWriteSet b)" "versionedDB_ok (v_db env)" "ns_ok (NameSpace n)"
    and "\<forall>r \<in> set (kvrw_Reads (KvRwSet n)). version_of (dlook (v_db env) (NameSpace n) (rd_Key r))
      = version_of (dlook (ldb_view ops c (se_opened x)) (NameSpace n) (rd_Key r))"
    and "\<forall>r \<in> set (kvrw_Reads (KvRwSet n)). batch_Get upd (NameSpace n) (rd_Key r) = None"
  shows "validateReadSet env (NameSpace n) (kvrw_Reads (KvRwSet n)) upd"
  by (rule simulated_reads_ok [OF assms])

theorem unchanged_reads_pass_witness:
  "\<exists>n. GetTxReadWriteSet (AddToReadSet NewRWSetBuilder ''cc'' ''k'' None) = [n]
    \<and> validateReadSet demo_val ''cc'' (kvrw_Reads (KvRwSet n)) NewUpdateBatch"
proof -
  let ?b = "AddToReadSet NewRWSetBuilder ''cc'' ''k'' None"
  let ?x = "\<lparr>se_helper = add_read newLockBasedTxSimulator ''cc'' ''k'' None, se_opened = mem_empty\<rparr>"
  define n where "n = hd (GetTxReadWriteSet ?b)"
  have b: "qh_rwset (se_helper ?x) = Some ?b" "?x \<in> set (sy_sessions demo_read)"
    by (simp_all add: demo_read_session add_read_def newLockBasedTxSimulator_def)
  have n: "GetTxReadWriteSet ?b = [n]" "NameSpace n = ''cc''" unfolding n_def by code_simp+
  have "validateReadSet demo_val (NameSpace n) (kvrw_Reads (KvRwSet n)) NewUpdateBatch"
    using unchanged_reads_pass [OF demo_read_reachable b(2,1), of n demo_val NewUpdateBatch] n demo_db_ok
    by (simp add: demo_db_def NewUpdateBatch_def batch_Get_def)
  with n show ?thesis by auto
qed

section \<open>Computed writes\<close>

text \<open>
  C28. Additions in one block never conflict and add up: a transaction of additions is valid whatever the
  batch, and every number becomes the old one plus the sum of what was added to it, as an int64.
\<close>

theorem additions_are_valid_and_sum:
  assumes "\<forall>kd \<in> set kds. CHR '','' \<notin> set (fst kd) \<and> is_i64 (snd kd)"
  shows "\<exists>upd'. validateTx env [adds_ns ns kds] (upd, st) = Inr (VALID, [adds_ns ns kds], upd', st)
    \<and> (\<forall>k. batch_counter env upd' ns k = wrap64 (batch_counter env upd ns k + sum_for k kds))"
  by (rule adds_valid [OF assms])

theorem additions_are_valid_and_sum_witness:
  "\<exists>upd'. validateTx demo_val [adds_ns ''cc'' demo_adds] (NewUpdateBatch, demo_st)
      = Inr (VALID, [adds_ns ''cc'' demo_adds], upd', demo_st) \<and> batch_counter demo_val upd' ''cc'' ''n'' = 8"
proof -
  obtain upd' where u: "validateTx demo_val [adds_ns ''cc'' demo_adds] (NewUpdateBatch, demo_st)
      = Inr (VALID, [adds_ns ''cc'' demo_adds], upd', demo_st)"
    "\<forall>k. batch_counter demo_val upd' ''cc'' k = wrap64 (batch_counter demo_val NewUpdateBatch ''cc'' k + sum_for k demo_adds)"
    using additions_are_valid_and_sum [OF demo_adds_ok] by blast
  then have "batch_counter demo_val upd' ''cc'' ''n'' = 8" using demo_adds_sum by (simp add: is_i64_def i64_min_def i64_max_def)
  with u(1) show ?thesis by blast
qed

text \<open>
  C29. A transaction that is refused can still change the state: when one of its later namespaces is in
  conflict, the additions of the earlier ones stay in the batch of the block.
\<close>

theorem refused_transaction_still_adds:
  assumes "\<forall>kd \<in> set kds. CHR '','' \<notin> set (fst kd) \<and> is_i64 (snd kd)" "versionedDB_ok (v_db env)" "ns_ok (NameSpace n)"
    and "r \<in> set (kvrw_Reads (KvRwSet n))" "version_of (dlook (v_db env) (NameSpace n) (rd_Key r)) \<noteq> NewVersion (rd_Version r)"
  shows "\<exists>upd'. validateTx env [adds_ns ns kds, n] (upd, st) = Inr (MVCC_READ_CONFLICT, [adds_ns ns kds, n], upd', st)
    \<and> (\<forall>k. batch_counter env upd' ns k = wrap64 (batch_counter env upd ns k + sum_for k kds))"
  by (rule adds_before_conflict [OF assms])

theorem refused_transaction_still_adds_witness:
  "\<exists>upd' n. validateTx demo_val [adds_ns ''cc'' demo_adds, n] (NewUpdateBatch, demo_st)
      = Inr (MVCC_READ_CONFLICT, [adds_ns ''cc'' demo_adds, n], upd', demo_st) \<and> batch_counter demo_val upd' ''cc'' ''n'' = 8"
proof -
  define n where "n = hd (demo_rw (Some (ProtoVersion 7 7)) ''v'')"
  have "ns_ok (NameSpace n)" "\<lparr>rd_Key = ''k'', rd_Version = Some (ProtoVersion 7 7)\<rparr> \<in> set (kvrw_Reads (KvRwSet n))"
    "version_of (dlook (v_db demo_val) (NameSpace n) ''k'') \<noteq> NewVersion (Some (ProtoVersion 7 7))"
    by (simp_all add: n_def demo_rw_def demo_db_def version_of_def NewVersion_def)
  then obtain upd' where u: "validateTx demo_val [adds_ns ''cc'' demo_adds, n] (NewUpdateBatch, demo_st)
      = Inr (MVCC_READ_CONFLICT, [adds_ns ''cc'' demo_adds, n], upd', demo_st)"
    "\<forall>k. batch_counter demo_val upd' ''cc'' k = wrap64 (batch_counter demo_val NewUpdateBatch ''cc'' k + sum_for k demo_adds)"
    using refused_transaction_still_adds [OF demo_adds_ok, of demo_val n _ "''cc''" NewUpdateBatch demo_st] demo_db_ok by force
  then have "batch_counter demo_val upd' ''cc'' ''n'' = 8" using demo_adds_sum by (simp add: is_i64_def i64_min_def i64_max_def)
  with u(1) show ?thesis by blast
qed

text \<open>
  C30. Recovery loses additions: replayed without validation, a transaction of additions is accepted and
  writes nothing, while its validation had added to the numbers.
\<close>

theorem replay_loses_additions:
  assumes "\<forall>kd \<in> set kds. CHR '','' \<notin> set (fst kd) \<and> is_i64 (snd kd)"
    and "pu_GetActionFromEnvelope env e = Inr r" "FromProtoBytes (ve_codec env) (ca_Results r) = Inr [adds_ns ns kds]"
  shows "(\<exists>upd'. validateEndorserTX env e True (upd, st) = Inr (Some [adds_ns ns kds], VALID, upd', st)
      \<and> addWriteSetToBatch [adds_ns ns kds] h upd' = Inr upd'
      \<and> (\<forall>k. batch_counter env upd' ns k = wrap64 (batch_counter env upd ns k + sum_for k kds)))
    \<and> validateEndorserTX env e False (upd, st) = Inr (Some [adds_ns ns kds], VALID, upd, st)
    \<and> addWriteSetToBatch [adds_ns ns kds] h upd = Inr upd"
  by (rule replay_loses_adds [OF assms])

theorem replay_loses_additions_witness:
  "\<exists>upd'. validateEndorserTX demo_val (demo_enc [adds_ns ''cc'' demo_adds]) True (NewUpdateBatch, demo_st)
      = Inr (Some [adds_ns ''cc'' demo_adds], VALID, upd', demo_st) \<and> batch_counter demo_val upd' ''cc'' ''n'' = 8
    \<and> validateEndorserTX demo_val (demo_enc [adds_ns ''cc'' demo_adds]) False (NewUpdateBatch, demo_st)
      = Inr (Some [adds_ns ''cc'' demo_adds], VALID, NewUpdateBatch, demo_st)"
proof -
  let ?e = "demo_enc [adds_ns ''cc'' demo_adds]"
  have "pu_GetActionFromEnvelope demo_val ?e = Inr (demo_action ?e)" "ve_codec demo_val = wire_codec" "ca_Results (demo_action ?e) = ?e" by (simp_all add: demo_val_defs)
  then obtain upd' where u: "validateEndorserTX demo_val ?e True (NewUpdateBatch, demo_st) = Inr (Some [adds_ns ''cc'' demo_adds], VALID, upd', demo_st)"
    "\<forall>k. batch_counter demo_val upd' ''cc'' k = wrap64 (batch_counter demo_val NewUpdateBatch ''cc'' k + sum_for k demo_adds)"
    "validateEndorserTX demo_val ?e False (NewUpdateBatch, demo_st) = Inr (Some [adds_ns ''cc'' demo_adds], VALID, NewUpdateBatch, demo_st)"
    using replay_loses_additions [OF demo_adds_ok, of demo_val ?e "demo_action ?e" "''cc''" NewUpdateBatch demo_st "NewHeight 1 0"]
      demo_adds_wire by auto
  then have "batch_counter demo_val upd' ''cc'' ''n'' = 8" using demo_adds_sum by (simp add: is_i64_def i64_min_def i64_max_def)
  with u(1,3) show ?thesis by blast
qed

section \<open>History\<close>

text \<open>
  C31. Committing a block to the history database adds exactly the keys its valid transactions write, each
  with the height of the transaction, keeps what was there, and records the block as save point. Keys
  hold no zero byte.
\<close>

theorem history_commit_adds_the_block:
  assumes "historyleveldb ops c" "hist_holds ops c db L" "log_ok (block_log env block)"
    and "length (initial_flags block) = length (blk_Data block)" "length (blk_Data block) < 2 ^ 64"
    and "\<forall>i < length (blk_Data block). initial_flags block ! i = VALID \<longrightarrow> is_ok (endorser_rwset env (blk_Data block ! i))"
  shows "\<exists>db'. hist_Commit ops c env block db = Inr db' \<and> hist_holds ops c db' (L \<union> block_log env block)
    \<and> hist_GetLastSavepoint ops c db' = Inr (Some (NewHeight (blk_Number block) (of_nat (length (blk_Data block)))))"
  by (rule historyleveldb.hist_Commit_log [OF assms])

theorem history_commit_adds_the_block_witness:
  "\<exists>db'. hist_Commit mem_ops lp_codec demo_val demo_block mem_empty = Inr db'
    \<and> hist_holds mem_ops lp_codec db' (block_log demo_val demo_block)
    \<and> hist_GetLastSavepoint mem_ops lp_codec db' = Inr (Some (NewHeight 0 2))"
proof -
  have "\<forall>i < length (blk_Data demo_block). is_ok (endorser_rwset demo_val (blk_Data demo_block ! i))"
    using demo_endorser demo_nth by (auto simp: is_ok_def)
  then show ?thesis
    using history_commit_adds_the_block [OF hmem.historyleveldb_axioms hist_empty demo_log] by simp
qed

text \<open>
  C32. A history query reports the writes of one key, all of them, once each, in the order of their
  heights, and nothing of another key, when keys hold no zero byte.
\<close>

theorem history_query_exact:
  assumes "historyleveldb ops c" "hist_holds ops c db L" "log_ok L" "ns_ok ns" "CHR 0x00 \<notin> set k" "he_enabled henv"
  shows "\<exists>s hs. GetHistoryForKey ops henv db ns k = Inr s \<and> strict_sorted hs \<and> set hs = {h. (ns, k, h) \<in> L}
    \<and> (\<forall>n > length hs. hist_drain c henv retrieve n s = mapM (tx_modification henv retrieve ns k) hs)"
  by (rule historyleveldb.GetHistoryForKey_spec [OF assms])

theorem history_query_exact_witness:
  "\<exists>db s hs. hist_Commit mem_ops lp_codec demo_val demo_block mem_empty = Inr db
    \<and> GetHistoryForKey mem_ops demo_hist db ''cc'' ''k'' = Inr s \<and> set hs = {NewHeight 0 0, NewHeight 0 1}
    \<and> (\<forall>n > length hs. hist_drain lp_codec demo_hist (\<lambda>_ _. Inr \<lparr>en_Payload = None, en_Signature = None\<rparr>) n s
         = mapM (tx_modification demo_hist (\<lambda>_ _. Inr \<lparr>en_Payload = None, en_Signature = None\<rparr>) ''cc'' ''k'') hs)"
proof -
  have ok: "\<forall>i < length (blk_Data demo_block). is_ok (endorser_rwset demo_val (blk_Data demo_block ! i))"
    using demo_endorser demo_nth by (auto simp: is_ok_def)
  obtain db where db: "hist_Commit mem_ops lp_codec demo_val demo_block mem_empty = Inr db"
    "hist_holds mem_ops lp_codec db (block_log demo_val demo_block)"
    using hmem.hist_Commit_log [OF hist_empty demo_log] ok by auto
  have "(''cc'', ''k'', h) \<in> block_log demo_val demo_block \<longleftrightarrow> h \<in> {NewHeight 0 0, NewHeight 0 1}" for h
  proof -
    have "endorser_rwset demo_val (demo_enc (demo_ts ! i)) = Inr (Some (demo_ts ! i))" if "i < 2" for i
      using demo_endorser [OF demo_nth [OF that]] .
    moreover have "(''cc'', ''k'') \<in> rw_keys (demo_ts ! i)" if "i < 2" for i using demo_key [OF demo_nth [OF that]] .
    ultimately show ?thesis
      unfolding block_log_def log_from_def by (auto simp: less_2_cases_iff intro: exI [of _ "0 :: nat"] exI [of _ "1 :: nat"])
  qed
  then show ?thesis
    using history_query_exact [OF hmem.historyleveldb_axioms db(2) demo_log, of "''cc''" "''k''" demo_hist "\<lambda>_ _. Inr \<lparr>en_Payload = None, en_Signature = None\<rparr>"] db(1) by auto
qed

section \<open>Creating and opening ledgers\<close>

text \<open>
  C33. Creating a ledger succeeds, enters its id, leaves no flag behind, commits its genesis block to all three
  stores and touches no other ledger.
\<close>

theorem create_ledger:
  assumes "provider_ok env chain lk" "creatable env chain lk gb ts i p"
  shows "\<exists>l p' gb' W. Create env gb p = Inr (Inr l, p') \<and> same_others i p p' \<and> chain (pv_blocks p' i) = [gb']
    \<and> blk_Data gb' = blk_Data gb \<and> lk (pv_idStore p') = (lk (pv_idStore p))(encodeLedgerKey i \<mapsto> [], underConstructionLedgerKey := None)
    \<and> W 0 = (\<lambda>_ _. None) \<and> chain_ok (pe_kvl env) [gb'] [ts] W \<and> ledger_at (pe_kvl env) [gb'] W (disk_ledger p' i) (\<lambda>_. 1)"
  by (rule provider_ok.create_ok [OF assms])

theorem create_ledger_witness:
  "\<exists>l p'. Create demo_penv demo_block demo_disk = Inr (Inr l, p')
    \<and> mem_get (pv_idStore p') = (mem_get mem_empty)(encodeLedgerKey ''ch'' \<mapsto> [], underConstructionLedgerKey := None)"
  using create_ledger [OF list_pv.provider_ok_axioms demo_creatable] by (auto simp: demo_disk_def)

text \<open>
  C34. Creating a ledger is atomic: whatever a crash between its writes leaves on disk, the next start of the
  provider ends without the flag, and with either no trace of the id or the block store and the state (outside the statistics) of the
  completed creation.
\<close>

theorem create_ledger_atomic:
  assumes "provider_ok env chain lk" "creatable env chain lk gb ts i p" "Create env gb p = Inr (Inr l, p')"
    and "crash_disk chain lk i p p' q"
  shows "\<exists>q'. NewProvider env q = Inr q' \<and> same_others i p q'
    \<and> (if chain (pv_blocks q i) = [] then lk (pv_idStore q') = (lk (pv_idStore p))(underConstructionLedgerKey := None)
       else lk (pv_idStore q') = lk (pv_idStore p') \<and> chain (pv_blocks q' i) = chain (pv_blocks p' i)
         \<and> (\<forall>ns k. ns_ok ns \<and> ns \<noteq> ''qscc'' \<longrightarrow>
              dlook (ldb_view (ke_ops (pe_kvl env)) (ke_codec (pe_kvl env)) (pv_state q' i)) ns k
              = dlook (ldb_view (ke_ops (pe_kvl env)) (ke_codec (pe_kvl env)) (pv_state p' i)) ns k))"
  by (rule provider_ok.create_crash [OF assms])

theorem create_ledger_atomic_witness:
  "\<exists>q'. NewProvider demo_penv (demo_disk\<lparr>pv_idStore := mem_put mem_empty underConstructionLedgerKey ''ch''\<rparr>) = Inr q'
    \<and> mem_get (pv_idStore q') = (mem_get mem_empty)(underConstructionLedgerKey := None)"
proof -
  let ?q = "demo_disk\<lparr>pv_idStore := mem_put mem_empty underConstructionLedgerKey ''ch''\<rparr>"
  obtain l p' where c: "Create demo_penv demo_block demo_disk = Inr (Inr l, p')"
    using list_pv.create_ok [OF demo_creatable] by blast
  have "crash_disk (\<lambda>s. s) mem_get ''ch'' demo_disk p' ?q"
    by (simp add: crash_disk_def demo_disk_def same_others_def mem_get_put fun_eq_iff)
  from create_ledger_atomic [OF list_pv.provider_ok_axioms demo_creatable c this]
  show ?thesis by (auto simp: demo_disk_def)
qed

text \<open>
  C35. Listing returns the created ids, each once, in order, when no creation is under way.
\<close>

theorem list_returns_created_ids:
  assumes "id_db (pe_ids env) lk" "id_keys_ok (lk (pv_idStore p))" "lk (pv_idStore p) underConstructionLedgerKey = None"
  shows "\<exists>is. strict_sorted is \<and> set is = ledger_ids (lk (pv_idStore p)) \<and> (\<forall>n > length is. prov_List env n p = Inr is)"
  unfolding prov_List_def by (rule id_db.list_ids [OF assms])

theorem list_returns_created_ids_witness:
  "\<exists>is. set is = ledger_ids (mem_get (mem_put mem_empty (encodeLedgerKey ''ch'') []))
    \<and> (\<forall>n > length is. prov_List demo_penv n (demo_disk\<lparr>pv_idStore := mem_put mem_empty (encodeLedgerKey ''ch'') []\<rparr>) = Inr is)"
proof -
  let ?d = "mem_put mem_empty (encodeLedgerKey ''ch'') []"
  have "id_keys_ok (mem_get ?d)" "mem_get ?d underConstructionLedgerKey = None"
    by (auto simp: id_keys_ok_def mem_get_put split: if_splits)
  then show ?thesis
    using list_returns_created_ids [of demo_penv mem_get "demo_disk\<lparr>pv_idStore := ?d\<rparr>"] mem_ids.id_db_axioms by auto
qed

text \<open>
  C36. Listing never returns while the flag of a creation is set: the loop does not advance over it. A
  creation whose genesis block is refused leaves the flag set.
\<close>

theorem list_diverges_after_refused_genesis:
  assumes "provider_ok env chain lk" "pe_GetChainIDFromBlock env gb = Inr i" "i \<notin> ledger_ids (lk (pv_idStore p))"
    and "id_keys_ok (lk (pv_idStore p))" "Create env gb p = Inr (Inl (Err e), p')"
    and "openInternal env i (p\<lparr>pv_idStore := s\<rparr>) = Inr (l, q)" "setUnderConstructionFlag (pe_ids env) i (pv_idStore p) = Inr s"
  shows "prov_List env n p' = Inl OutOfFuel"
  by (rule provider_ok.create_refused_blocks_list [OF assms])

theorem list_diverges_after_refused_genesis_witness:
  "\<exists>p'. Create bad_penv bad_block demo_disk = Inr (Inl (Err ''bad envelope''), p') \<and> (\<forall>n. prov_List bad_penv n p' = Inl OutOfFuel)"
proof -
  have flag: "setUnderConstructionFlag (pe_ids bad_penv) ''ch'' (pv_idStore demo_disk)
      = Inr (mem_put mem_empty underConstructionLedgerKey ''ch'')"
    by (simp add: setUnderConstructionFlag_def mem_iddb_def demo_disk_def)
  have none: "''ch'' \<notin> ledger_ids (mem_get (pv_idStore demo_disk))" "id_keys_ok (mem_get (pv_idStore demo_disk))"
    by (simp add: ledger_ids_def demo_disk_def) (auto simp: id_keys_ok_def demo_disk_def dom_def)
  have "prov_List bad_penv n p' = Inl OutOfFuel" if "Create bad_penv bad_block demo_disk = Inr (Inl (Err ''bad envelope''), p')" for n p'
    using bad_open by (intro list_diverges_after_refused_genesis [OF list_pv.provider_ok_axioms _ none that _ flag])
      (auto simp: demo_disk_def)
  then show ?thesis
    using bad_create by blast
qed

text \<open>
  C37. No ledger is open twice, and every open ledger exists and is what is on disk: in every state the
  ledger management reaches by creating, opening, closing and committing to ledgers, and so opening an
  open ledger or creating an existing one is refused. Closing the management itself, after which it
  cannot be used any more, is not among the steps.
\<close>

theorem opened_ledgers_exist:
  assumes "provider_ok env chain lk" "mg_reachable env disk m"
  shows "mg_initialized m \<and> (\<exists>p opened. mg_provider m = Some p \<and> mg_opened m = Some opened
     \<and> (\<forall>i l. opened i = Some l \<longrightarrow> i \<in> ledger_ids (lk (pv_idStore p)) \<and> pv_blocks p i = kl_blockStore l
          \<and> pv_state p i = tm_db (kl_txtmgmt l) \<and> pv_history p i = kl_historyDB l
          \<and> OpenLedger env i m = Inr (Inl ErrLedgerAlreadyOpened, m)))"
  using provider_ok.mg_reachable_inv [OF assms] by (auto simp: mg_inv_def OpenLedger_def)

theorem opened_ledgers_exist_witness:
  "\<exists>m l m'. mg_initialize demo_penv demo_disk = Inr m \<and> CreateLedger demo_penv demo_block m = Inr (Inr l, m')
    \<and> OpenLedger demo_penv ''ch'' m' = Inr (Inl ErrLedgerAlreadyOpened, m')"
proof -
  have i: "mg_initialize demo_penv demo_disk = Inr \<lparr>mg_initialized = True, mg_opened = Some (\<lambda>_. None), mg_provider = Some demo_disk\<rparr>"
    (is "_ = Inr ?m")
    by (simp add: mg_initialize_def NewProvider_def recoverUnderConstructionLedger_def mem_ids.flag_eq demo_disk_def)
  obtain l p' where c: "Create demo_penv demo_block demo_disk = Inr (Inr l, p')"
    using list_pv.create_ok [OF demo_creatable] by blast
  define m' where "m' = \<lparr>mg_initialized = True, mg_opened = Some [''ch'' \<mapsto> l], mg_provider = Some p'\<rparr>"
  have m': "CreateLedger demo_penv demo_block ?m = Inr (Inr l, m')"
    using c by (simp add: CreateLedger_def set_opened_def m'_def)
  then have "mg_step demo_penv ?m m'" by (rule mg_step.create)
  then have "mg_reachable demo_penv demo_disk m'" by (rule mg_reachable.step [OF mg_reachable.init [OF i]])
  from opened_ledgers_exist [OF list_pv.provider_ok_axioms this] i m' show ?thesis by (auto simp: m'_def)
qed

section \<open>Chaincodes and the peer\<close>

text \<open>
  C38. The stream to a chaincode, in every state that messages, requests, executions and time-outs lead to:
  contexts and entries exist exactly from registration on, work is taken up in the ready state only, no
  two requests of one transaction are served at a time, and no channel of a transaction holds more than
  one answer.
\<close>

theorem chaincode_stream_invariant:
  assumes "h_reachable env i w"
  shows "machine_inv (the_handler i w) \<and> request_inv (the_handler i w) \<and> channel_inv (the_handler i w)"
  using h_reachable_inv [OF assms] by (simp add: world_inv_def handler_inv_def)

theorem chaincode_stream_invariant_witness:
  "request_inv (the_handler 0 (upd_handler 0 (stop_waiting ''tx'') \<lparr>w_handlers = [newHandler None], w_chaincodeMap = [], w_ledger = ()\<rparr>))"
  using chaincode_stream_invariant [OF h_reachable.step [OF h_reachable.opened h_step.timeout],
      of 0 "\<lparr>w_handlers = [newHandler None], w_chaincodeMap = [], w_ledger = ()\<rparr>" "''tx''"]
  by (simp add: the_handler_def)

text \<open>
  C39. The range that a query by a partial composite key scans holds exactly the composite keys of its type
  whose attributes begin with those given, the key of exactly these attributes among them, although the comments
  say that a full composite key gives an empty response.
\<close>

theorem partial_composite_key_scans_its_keys:
  assumes "createCompositeKey objectType attributes = Inr pk" "createCompositeKey objectType' attributes' = Inr ck"
  shows "pk \<le> ck \<and> ck < pk @ maxUnicodeRuneValue \<longleftrightarrow> objectType' = objectType \<and> (\<exists>more. attributes' = attributes @ more)"
  by (rule partial_key_range [OF assms])

theorem partial_composite_key_scans_its_keys_witness:
  "\<exists>pk ck. createCompositeKey ''loan'' [''a''] = Inr pk \<and> createCompositeKey ''loan'' [''a'', ''b''] = Inr ck \<and> pk \<le> ck \<and> ck < pk @ maxUnicodeRuneValue"
proof -
  have "\<exists>pk. createCompositeKey ''loan'' [''a''] = Inr pk" "\<exists>ck. createCompositeKey ''loan'' [''a'', ''b''] = Inr ck"
    by (simp_all add: createCompositeKey_def validateCompositeKeyAttribute_def decode_rune_def byte_def)
  then show ?thesis using partial_composite_key_scans_its_keys [of "''loan''" "[''a'']" _ "''loan''" "[''a'', ''b'']"] by fastforce
qed

section \<open>Approvals\<close>

text \<open>
  C40. The rule of the approval chaincode that asks for two thirds of the super users passes a proposal
  with one third of their votes, as long as not more than a third are against it.
\<close>

theorem two_thirds_rule_passes_with_one_third:
  assumes "0 \<le> n" "votes_against signs \<le> (n + 1) div 3"
  shows "decide ''2'' signs n ''1'' = ''2'' \<longleftrightarrow> n \<le> 3 * votes_for signs"
  by (rule two_thirds_is_one_third [OF assms])

theorem two_thirds_rule_passes_with_one_third_witness:
  "decide ''2'' [\<lparr>sg_TxId = ''t'', sg_TxTime = ''1'', sg_CustomerNo = ''c'', sg_Status = ''1'', sg_Desc = [], sg_ApprovalTime = ''1''\<rparr>] 3 ''1'' = ''2''"
  by (subst two_thirds_rule_passes_with_one_third) (simp_all add: votes_for_def votes_against_def)

end
